(* ===== verification/Prelude.thy ===== *)
theory Prelude
  imports Main "HOL-Library.Word"
begin

unbundle bit_operations_syntax

text \<open>
  Shared ground of the development: the C integer types and limits, the errno values the
  library returns, little-endian byte order, reads and writes of byte ranges, and the
  lemma collections the component theories feed.

  Conventions used by every component.
  \<^item> A \<open>uintN_t\<close> is an \<open>N word\<close>; a signed \<open>intN_t\<close> carries the same bits and is read
    with \<^const>\<open>sint\<close>. A \<open>size_t\<close> is a \<^typ>\<open>nat\<close>; an \<open>intmax_t\<close> or \<open>int\<close> is an
    \<^typ>\<open>int\<close>, and that it stays inside its C range is proved where the code relies on it.
  \<^item> An \<open>int\<close> return code is an \<^typ>\<open>int\<close>: zero, a negated errno, or (older functions) a
    positive PLDM completion code.
  \<^item> A pointer that the code compares with NULL is an \<open>option\<close>; an out-parameter is passed
    with the value its object holds and returned with the value the object holds after.
\<close>

section \<open>C integer types, limits and error numbers\<close>

type_synonym u8 = "8 word"
type_synonym u16 = "16 word"
type_synonym u32 = "32 word"
type_synonym u64 = "64 word"

abbreviation (input) INTMAX_MAX :: int where "INTMAX_MAX \<equiv> 2 ^ 63 - 1"
abbreviation (input) INTMAX_MIN :: int where "INTMAX_MIN \<equiv> - (2 ^ 63)"
abbreviation (input) UINTPTR_MAX :: nat where "UINTPTR_MAX \<equiv> 2 ^ 64 - 1"
abbreviation (input) SIZE_MAX :: nat where "SIZE_MAX \<equiv> 2 ^ 64 - 1"
abbreviation (input) SSIZE_MAX :: nat where "SSIZE_MAX \<equiv> 2 ^ 63 - 1"

abbreviation (input) ENOENT :: int where "ENOENT \<equiv> 2"
abbreviation (input) ENOMEM :: int where "ENOMEM \<equiv> 12"
abbreviation (input) EBUSY :: int where "EBUSY \<equiv> 16"
abbreviation (input) EINVAL :: int where "EINVAL \<equiv> 22"
abbreviation (input) ENOMSG :: int where "ENOMSG \<equiv> 42"
abbreviation (input) EPROTO :: int where "EPROTO \<equiv> 71"
abbreviation (input) EBADMSG :: int where "EBADMSG \<equiv> 74"
abbreviation (input) EOVERFLOW :: int where "EOVERFLOW \<equiv> 75"
abbreviation (input) ENOTSUP :: int where "ENOTSUP \<equiv> 95"
abbreviation (input) EUCLEAN :: int where "EUCLEAN \<equiv> 117"

section \<open>Lemma collections\<close>

named_theorems mb_simps \<open>one-step evaluation of the msgbuf operations\<close>
named_theorems mb_ok_intros \<open>msgbuf operations keep a msgbuf well formed\<close>
named_theorems codec_safe \<open>no step of a codec is undefined\<close>
named_theorems codec_post \<open>a decoder returns a value with a property\<close>
named_theorems wire_simps \<open>evaluation of byte ranges of a buffer\<close>

section \<open>Little-endian byte order\<close>

text \<open>
  \<open>memcpy\<close> from the wire followed by \<open>leNtoh\<close>, and \<open>htoleN\<close> followed by \<open>memcpy\<close> to the
  wire, are independent of the byte order of the host: the first byte is the least
  significant one.
\<close>

fun word_of_le :: "u8 list \<Rightarrow> 'a::len word" where
  "word_of_le [] = 0"
| "word_of_le (b # bs) = ucast b OR push_bit 8 (word_of_le bs)"

definition le_of_word :: "'a::len word \<Rightarrow> u8 list" where
  "le_of_word w = map (\<lambda>i. ucast (drop_bit (8 * i) w)) [0..<LENGTH('a) div 8]"

lemma length_le_of_word [simp]: "length (le_of_word (w :: 'a::len word)) = LENGTH('a) div 8"
  by (simp add: le_of_word_def)

lemma le_of_word_8 [simp]: "le_of_word (w :: u8) = [w]"
  by (simp add: le_of_word_def)

lemma le_of_word_16: "le_of_word (w :: u16) = [ucast w, ucast (drop_bit 8 w)]"
  by (simp add: le_of_word_def upt_rec)

lemma le_of_word_32:
  "le_of_word (w :: u32) =
     [ucast w, ucast (drop_bit 8 w), ucast (drop_bit 16 w), ucast (drop_bit 24 w)]"
  by (simp add: le_of_word_def upt_rec)

lemma bit_word_of_le:
  "bit (word_of_le bs :: 'a::len word) n \<longleftrightarrow>
     n < LENGTH('a) \<and> n div 8 < length bs \<and> bit (bs ! (n div 8)) (n mod 8)"
proof (induction bs arbitrary: n)
  case Nil
  then show ?case by simp
next
  case (Cons b bs)
  show ?case
  proof (cases "n < 8")
    case True
    then show ?thesis by (auto simp: bit_simps)
  next
    case False
    then have "n div 8 = Suc ((n - 8) div 8)" "(n - 8) mod 8 = n mod 8"
      by (auto simp: le_div_geq le_mod_geq)
    with False show ?thesis
      using Cons.IH [of "n - 8"] by (auto simp: bit_simps dest: bit_imp_le_length)
  qed
qed

lemma bit_le_of_word:
  assumes "i < LENGTH('a) div 8"
  shows "bit (le_of_word (w :: 'a::len word) ! i) k \<longleftrightarrow> k < 8 \<and> bit w (8 * i + k)"
  using assms by (auto simp: le_of_word_def bit_simps)

lemma word_of_le_of_word [simp]:
  assumes "8 dvd LENGTH('a)"
  shows "word_of_le (le_of_word (w :: 'a::len word)) = w"
proof (rule bit_eqI)
  fix n
  assume "possible_bit TYPE('a word) n"
  then have n: "n < LENGTH('a)" by simp
  then have "n div 8 < LENGTH('a) div 8"
    using assms by (auto elim!: dvdE)
  with n show "bit (word_of_le (le_of_word w) :: 'a word) n = bit w n"
    by (simp add: bit_word_of_le bit_le_of_word mult.commute)
qed

lemma le_of_word_of_le [simp]:
  assumes "8 * length bs = LENGTH('a)"
  shows "le_of_word (word_of_le bs :: 'a::len word) = bs"
proof (rule nth_equalityI)
  show len: "length (le_of_word (word_of_le bs :: 'a word)) = length bs"
    using assms [symmetric] by simp
  fix i
  assume "i < length (le_of_word (word_of_le bs :: 'a word))"
  then have i: "i < length bs" "i < LENGTH('a) div 8" using len by simp_all
  show "le_of_word (word_of_le bs :: 'a word) ! i = bs ! i"
  proof (rule bit_eqI)
    fix k
    assume "possible_bit TYPE(8 word) k"
    then have "k < 8" by simp
    moreover from this i(1) have "8 * i + k < 8 * length bs" by linarith
    ultimately show "bit (le_of_word (word_of_le bs :: 'a word) ! i) k = bit (bs ! i) k"
      using i assms by (simp add: bit_le_of_word bit_word_of_le)
  qed
qed

lemma word_xor_cancel [simp]:
  "x XOR z = y XOR z \<longleftrightarrow> x = y" "z XOR x = z XOR y \<longleftrightarrow> x = y" for x y z :: "'a::len word"
  by (auto simp: bit_eq_iff bit_simps)

lemma word_of_le_inj:
  assumes "(word_of_le xs :: 'a::len word) = word_of_le ys" "length xs = length ys"
    "8 * length xs \<le> LENGTH('a)"
  shows "xs = ys"
proof (rule nth_equalityI [OF assms(2)])
  fix i
  assume i: "i < length xs"
  show "xs ! i = ys ! i"
  proof (rule bit_eqI)
    fix k
    assume "possible_bit TYPE(8 word) k"
    then have k: "k < 8" by simp
    with i assms(3) have "8 * i + k < LENGTH('a)" by linarith
    with assms(1) i assms(2) k bit_word_of_le [of xs "8 * i + k", where 'a = 'a]
      bit_word_of_le [of ys "8 * i + k", where 'a = 'a]
    show "bit (xs ! i) k = bit (ys ! i) k" by simp
  qed
qed

section \<open>Byte ranges of a buffer\<close>

definition bytes_at :: "u8 list \<Rightarrow> nat \<Rightarrow> nat \<Rightarrow> u8 list" where
  "bytes_at m c n = take n (drop c m)"

definition poke :: "u8 list \<Rightarrow> nat \<Rightarrow> u8 list \<Rightarrow> u8 list" where
  "poke m c bs = take c m @ bs @ drop (c + length bs) m"

lemma length_bytes_at [simp]: "c + n \<le> length m \<Longrightarrow> length (bytes_at m c n) = n"
  by (simp add: bytes_at_def)

lemma length_poke [simp]: "c + length bs \<le> length m \<Longrightarrow> length (poke m c bs) = length m"
  by (simp add: poke_def)

lemma poke_Nil [simp]: "poke m c [] = m"
  by (simp add: poke_def)

text \<open>Two writes next to each other are one write.\<close>

lemma poke_poke [wire_simps]:
  assumes "c + length xs \<le> length m" "d = c + length xs"
  shows "poke (poke m c xs) d ys = poke m c (xs @ ys)"
proof -
  have "min (length m) c = c" using assms by simp
  with assms show ?thesis by (simp add: poke_def ac_simps)
qed

lemma bytes_at_poke [wire_simps]:
  assumes "c \<le> d" "d + n \<le> c + length xs" "c + length xs \<le> length m"
  shows "bytes_at (poke m c xs) d n = take n (drop (d - c) xs)"
proof -
  have "min (length m) c = c" using assms by simp
  then have "drop d (poke m c xs) = drop (d - c) (xs @ drop (c + length xs) m)"
    using assms by (simp add: poke_def)
  with assms show ?thesis by (simp add: bytes_at_def)
qed

lemma poke_0_Cons [wire_simps]:
  "poke m 0 (x # xs) ! 0 = x" "poke m 0 (x # xs) \<noteq> []"
  by (simp_all add: poke_def)

lemma take_poke_0 [wire_simps]: "take (length bs) (poke m 0 bs) = bs"
  by (simp add: poke_def)

lemma take_poke_before [simp]: "d \<le> c \<Longrightarrow> c \<le> length m \<Longrightarrow> take d (poke m c bs) = take d m"
  by (simp add: poke_def min_def)

lemma drop_poke_after [simp]:
  assumes "c + length bs \<le> d" "c + length bs \<le> length m"
  shows "drop d (poke m c bs) = drop d m"
  using assms by (simp add: poke_def)

lemma bytes_at_append [simp]:
  "n = length ys \<Longrightarrow> bytes_at (xs @ ys @ zs) (length xs) n = ys"
  by (simp add: bytes_at_def)

lemma bytes_at_split:
  "bytes_at m c (a + b) = bytes_at m c a @ bytes_at m (c + a) b"
  by (simp add: bytes_at_def take_add add.commute)

end
