(* ===== verification/Msgbuf.thy ===== *)
theory Msgbuf
  imports Prelude
begin

text \<open>
  The message buffer of \<^verbatim>\<open>src/msgbuf/core.h\<close> and \<^verbatim>\<open>src/msgbuf.h\<close>: the bounds-tracked cursor
  every encoder and decoder of the library moves bytes through.

  A \<open>struct pldm_msgbuf_ro\<close> or \<open>struct pldm_msgbuf_rw\<close> is a cursor pointer and the signed
  count of bytes left. The model adds what the pointer points at: the bytes of the buffer
  object (\<open>mb_mem\<close>) and its address (\<open>mb_base\<close>); the cursor is an offset into it, \<open>None\<close>
  being NULL. The ghost field \<open>mb_fault\<close> records a failed \<open>assert\<close> on the cursor or an
  access outside the buffer object, so that memory safety is a theorem about it and not an
  assumption of the model.
\<close>

section \<open>State\<close>

record msgbuf =
  mb_base :: nat
  mb_mem :: "u8 list"
  mb_cursor :: "nat option"
  mb_remaining :: int
  mb_fault :: bool

text \<open>
  The contract between the operations: the count stays in the range of \<open>intmax_t\<close>, nothing
  out of bounds happened, and while the count is not negative the cursor is live and that
  many bytes of the object lie behind it.
\<close>

definition mb_ok :: "msgbuf \<Rightarrow> bool" where
  "mb_ok b \<longleftrightarrow> \<not> mb_fault b \<and> INTMAX_MIN \<le> mb_remaining b \<and> mb_remaining b \<le> INTMAX_MAX \<and>
     (0 \<le> mb_remaining b \<longrightarrow>
        (case mb_cursor b of None \<Rightarrow> False
         | Some c \<Rightarrow> c + nat (mb_remaining b) \<le> length (mb_mem b)))"

text \<open>\<open>assert(ctx->cursor)\<close> followed by an access of \<open>n\<close> bytes at the cursor.\<close>

definition mb_access :: "nat \<Rightarrow> msgbuf \<Rightarrow> msgbuf" where
  "mb_access n b =
     (case mb_cursor b of
        None \<Rightarrow> b\<lparr>mb_fault := True\<rparr>
      | Some c \<Rightarrow> if c + n \<le> length (mb_mem b) then b else b\<lparr>mb_fault := True\<rparr>)"

definition mb_off :: "msgbuf \<Rightarrow> nat" where
  "mb_off b = (case mb_cursor b of None \<Rightarrow> 0 | Some c \<Rightarrow> c)"

definition mb_advance :: "nat \<Rightarrow> msgbuf \<Rightarrow> msgbuf" where
  "mb_advance n b =
     b\<lparr>mb_cursor := map_option (\<lambda>c. c + n) (mb_cursor b), mb_remaining := mb_remaining b - int n\<rparr>"

section \<open>Set-up and completion\<close>

definition pldm__msgbuf_set_invalid :: "msgbuf \<Rightarrow> int \<times> msgbuf" where
  "pldm__msgbuf_set_invalid b = (- EOVERFLOW, b\<lparr>mb_remaining := INTMAX_MIN\<rparr>)"

definition pldm__msgbuf_init_errno :: "nat \<Rightarrow> nat \<Rightarrow> u8 list \<Rightarrow> nat \<Rightarrow> int \<times> msgbuf" where
  "pldm__msgbuf_init_errno minsize base m len =
     (let b = \<lparr>mb_base = base, mb_mem = m, mb_cursor = None, mb_remaining = INTMAX_MIN,
               mb_fault = False\<rparr> in
      if minsize > len then pldm__msgbuf_set_invalid b
      else if int len > INTMAX_MAX then pldm__msgbuf_set_invalid b
      else if UINTPTR_MAX - base < len then pldm__msgbuf_set_invalid b
      else (0, b\<lparr>mb_cursor := Some 0, mb_remaining := int len\<rparr>))"

definition pldm__msgbuf_validate :: "int \<Rightarrow> int" where
  "pldm__msgbuf_validate remaining = (if remaining < 0 then - EOVERFLOW else 0)"

definition pldm__msgbuf_consumed :: "int \<Rightarrow> int" where
  "pldm__msgbuf_consumed remaining =
     (if remaining > 0 then - EBADMSG else if remaining < 0 then - EOVERFLOW else 0)"

definition pldm__msgbuf_discard :: "msgbuf \<Rightarrow> int \<Rightarrow> int \<times> msgbuf" where
  "pldm__msgbuf_discard b error =
     (error, snd (pldm__msgbuf_set_invalid (b\<lparr>mb_cursor := None\<rparr>)))"

definition pldm_msgbuf_complete :: "msgbuf \<Rightarrow> int \<times> msgbuf" where
  "pldm_msgbuf_complete b = pldm__msgbuf_discard b (pldm__msgbuf_validate (mb_remaining b))"

definition pldm_msgbuf_complete_consumed :: "msgbuf \<Rightarrow> int \<times> msgbuf" where
  "pldm_msgbuf_complete_consumed b =
     pldm__msgbuf_discard b (pldm__msgbuf_consumed (mb_remaining b))"

text \<open>\<open>ret_used_len\<close> is the out-parameter; it is written on success only.\<close>

definition pldm_msgbuf_complete_used :: "msgbuf \<Rightarrow> nat \<Rightarrow> nat \<Rightarrow> int \<times> nat \<times> msgbuf" where
  "pldm_msgbuf_complete_used b orig_len ret_used_len =
     (let b = b\<lparr>mb_cursor := None\<rparr>;
          rc = pldm__msgbuf_validate (mb_remaining b) in
      if rc \<noteq> 0 then (rc, ret_used_len, snd (pldm__msgbuf_set_invalid b))
      else if nat (mb_remaining b) > orig_len then
        (let (rc, b) = pldm__msgbuf_set_invalid b in (rc, ret_used_len, b))
      else (0, orig_len - nat (mb_remaining b), snd (pldm__msgbuf_set_invalid b)))"

text \<open>
  \<open>pldm__msgbuf_cleanup\<close>, run by the compiler when a msgbuf leaves its scope, asserts that
  it was completed or discarded.
\<close>

definition pldm__msgbuf_cleanup :: "msgbuf \<Rightarrow> bool" where
  "pldm__msgbuf_cleanup b \<longleftrightarrow> mb_cursor b = None \<and> mb_remaining b = INTMAX_MIN"

section \<open>Moving bytes\<close>

text \<open>
  Every mover ends the same way when fewer than \<open>n\<close> bytes are left: it takes \<open>n\<close> off the
  count while that cannot leave \<open>intmax_t\<close>, and pins the count at its minimum otherwise.
\<close>

definition mb_overflow :: "nat \<Rightarrow> msgbuf \<Rightarrow> int \<times> msgbuf" where
  "mb_overflow n b =
     (if mb_remaining b > INTMAX_MIN + int n
      then (- EOVERFLOW, b\<lparr>mb_remaining := mb_remaining b - int n\<rparr>)
      else pldm__msgbuf_set_invalid b)"

text \<open>
  \<open>pldm__msgbuf_extract_{uint,int}{8,16,32,64}\<close> and \<open>_real32\<close> are one body at several
  widths; \<open>dst\<close> is the object extracted into, written on success only.
\<close>

definition msgbuf_extract :: "msgbuf \<Rightarrow> 'a::len word \<Rightarrow> int \<times> 'a word \<times> msgbuf" where
  "msgbuf_extract b dst =
     (let n = LENGTH('a) div 8 in
      if mb_remaining b \<ge> int n then
        (0, word_of_le (bytes_at (mb_mem b) (mb_off b) n), mb_advance n (mb_access n b))
      else (let (rc, b) = mb_overflow n b in (rc, dst, b)))"

definition pldm__msgbuf_extract_uint8 :: "msgbuf \<Rightarrow> u8 \<Rightarrow> int \<times> u8 \<times> msgbuf" where
  "pldm__msgbuf_extract_uint8 = msgbuf_extract"

definition pldm__msgbuf_extract_int8 :: "msgbuf \<Rightarrow> u8 \<Rightarrow> int \<times> u8 \<times> msgbuf" where
  "pldm__msgbuf_extract_int8 = msgbuf_extract"

definition pldm__msgbuf_extract_uint16 :: "msgbuf \<Rightarrow> u16 \<Rightarrow> int \<times> u16 \<times> msgbuf" where
  "pldm__msgbuf_extract_uint16 = msgbuf_extract"

definition pldm__msgbuf_extract_int16 :: "msgbuf \<Rightarrow> u16 \<Rightarrow> int \<times> u16 \<times> msgbuf" where
  "pldm__msgbuf_extract_int16 = msgbuf_extract"

definition pldm__msgbuf_extract_uint32 :: "msgbuf \<Rightarrow> u32 \<Rightarrow> int \<times> u32 \<times> msgbuf" where
  "pldm__msgbuf_extract_uint32 = msgbuf_extract"

definition pldm__msgbuf_extract_int32 :: "msgbuf \<Rightarrow> u32 \<Rightarrow> int \<times> u32 \<times> msgbuf" where
  "pldm__msgbuf_extract_int32 = msgbuf_extract"

text \<open>A \<open>real32_t\<close> is moved as its 32 bits.\<close>

definition pldm__msgbuf_extract_real32 :: "msgbuf \<Rightarrow> u32 \<Rightarrow> int \<times> u32 \<times> msgbuf" where
  "pldm__msgbuf_extract_real32 = msgbuf_extract"

definition pldm__msgbuf_extract_uint64 :: "msgbuf \<Rightarrow> u64 \<Rightarrow> int \<times> u64 \<times> msgbuf" where
  "pldm__msgbuf_extract_uint64 = msgbuf_extract"

definition pldm__msgbuf_extract_int64 :: "msgbuf \<Rightarrow> u64 \<Rightarrow> int \<times> u64 \<times> msgbuf" where
  "pldm__msgbuf_extract_int64 = msgbuf_extract"

definition msgbuf_insert :: "msgbuf \<Rightarrow> 'a::len word \<Rightarrow> int \<times> msgbuf" where
  "msgbuf_insert b src =
     (let n = LENGTH('a) div 8 in
      if mb_remaining b \<ge> int n then
        (0, mb_advance n ((mb_access n b)
              \<lparr>mb_mem := poke (mb_mem b) (mb_off b) (le_of_word src)\<rparr>))
      else mb_overflow n b)"

definition pldm_msgbuf_insert_uint64 :: "msgbuf \<Rightarrow> u64 \<Rightarrow> int \<times> msgbuf" where
  "pldm_msgbuf_insert_uint64 = msgbuf_insert"

definition pldm_msgbuf_insert_real32 :: "msgbuf \<Rightarrow> u32 \<Rightarrow> int \<times> msgbuf" where
  "pldm_msgbuf_insert_real32 = msgbuf_insert"

definition pldm_msgbuf_insert_uint32 :: "msgbuf \<Rightarrow> u32 \<Rightarrow> int \<times> msgbuf" where
  "pldm_msgbuf_insert_uint32 = msgbuf_insert"

definition pldm_msgbuf_insert_uint16 :: "msgbuf \<Rightarrow> u16 \<Rightarrow> int \<times> msgbuf" where
  "pldm_msgbuf_insert_uint16 = msgbuf_insert"

definition pldm_msgbuf_insert_uint8 :: "msgbuf \<Rightarrow> u8 \<Rightarrow> int \<times> msgbuf" where
  "pldm_msgbuf_insert_uint8 = msgbuf_insert"

definition pldm_msgbuf_insert_int32 :: "msgbuf \<Rightarrow> u32 \<Rightarrow> int \<times> msgbuf" where
  "pldm_msgbuf_insert_int32 = msgbuf_insert"

definition pldm_msgbuf_insert_int16 :: "msgbuf \<Rightarrow> u16 \<Rightarrow> int \<times> msgbuf" where
  "pldm_msgbuf_insert_int16 = msgbuf_insert"

definition pldm_msgbuf_insert_int8 :: "msgbuf \<Rightarrow> u8 \<Rightarrow> int \<times> msgbuf" where
  "pldm_msgbuf_insert_int8 = msgbuf_insert"

text \<open>
  Arrays. \<open>dst\<close> holds the bytes of the destination array, \<open>dst_count\<close> what the caller says
  its length is. Too large a count is refused without touching the msgbuf.
\<close>

definition pldm__msgbuf_extract_array_void ::
    "msgbuf \<Rightarrow> nat \<Rightarrow> u8 list \<Rightarrow> nat \<Rightarrow> int \<times> u8 list \<times> msgbuf" where
  "pldm__msgbuf_extract_array_void b count dst dst_count =
     (if count > dst_count then (- EINVAL, dst, b)
      else if count = 0 then (0, dst, b)
      else if int count > INTMAX_MAX then
        (let (rc, b) = pldm__msgbuf_set_invalid b in (rc, dst, b))
      else if mb_remaining b \<ge> int count then
        (0, poke dst 0 (bytes_at (mb_mem b) (mb_off b) count),
         mb_advance count (mb_access count b))
      else (let (rc, b) = mb_overflow count b in (rc, dst, b)))"

definition pldm__msgbuf_insert_array_void ::
    "msgbuf \<Rightarrow> nat \<Rightarrow> u8 list \<Rightarrow> nat \<Rightarrow> int \<times> msgbuf" where
  "pldm__msgbuf_insert_array_void b count src src_count =
     (if count > src_count then (- EINVAL, b)
      else if count = 0 then (0, b)
      else if int count > INTMAX_MAX then pldm__msgbuf_set_invalid b
      else if mb_remaining b \<ge> int count then
        (0, mb_advance count ((mb_access count b)
              \<lparr>mb_mem := poke (mb_mem b) (mb_off b) (take count src),
               mb_fault := mb_fault (mb_access count b) \<or> length src < count\<rparr>))
      else mb_overflow count b)"

section \<open>Spans\<close>

text \<open>A span hands out a pointer into the buffer: an offset, \<open>None\<close> when nothing is written.\<close>

definition pldm__msgbuf_span_required :: "msgbuf \<Rightarrow> nat \<Rightarrow> int \<times> nat option \<times> msgbuf" where
  "pldm__msgbuf_span_required b required =
     (if int required > INTMAX_MAX then
        (let (rc, b) = pldm__msgbuf_set_invalid b in (rc, None, b))
      else if mb_remaining b \<ge> int required then
        (0, mb_cursor b, mb_advance required (mb_access required b))
      else (let (rc, b) = mb_overflow required b in (rc, None, b)))"

definition strnlen :: "u8 list \<Rightarrow> nat \<Rightarrow> nat" where
  "strnlen s n = length (takeWhile (\<lambda>x. x \<noteq> 0) (take n s))"

definition pldm__msgbuf_span_string_ascii ::
    "msgbuf \<Rightarrow> int \<times> (nat \<times> nat) option \<times> msgbuf" where
  "pldm__msgbuf_span_string_ascii b =
     (if mb_remaining b < 0 then (let (rc, b) = pldm__msgbuf_set_invalid b in (rc, None, b))
      else
        let b = mb_access (nat (mb_remaining b)) b;
            measured = int (strnlen (drop (mb_off b) (mb_mem b)) (nat (mb_remaining b))) in
        if measured = mb_remaining b then
          (let (rc, b) = pldm__msgbuf_set_invalid b in (rc, None, b))
        else
          let measured = measured + 1 in
          if mb_remaining b \<ge> measured then
            (0, Some (mb_off b, nat measured), mb_advance (nat measured) b)
          else (let (rc, b) = mb_overflow (nat measured) b in (rc, None, b)))"

text \<open>\<open>memmem\<close>: the offset of the first occurrence of the needle.\<close>

fun memmem :: "u8 list \<Rightarrow> u8 list \<Rightarrow> nat option" where
  "memmem [] needle = (if needle = [] then Some 0 else None)"
| "memmem (x # xs) needle =
     (if take (length needle) (x # xs) = needle then Some 0
      else map_option Suc (memmem xs needle))"

lemma memmem_bound:
  "memmem hay needle = Some i \<Longrightarrow>
     i + length needle \<le> length hay \<and> take (length needle) (drop i hay) = needle"
proof (induction hay needle arbitrary: i rule: memmem.induct)
  case (1 needle)
  then show ?case by (auto split: if_splits)
next
  case (2 x xs needle)
  show ?case
  proof (cases "take (length needle) (x # xs) = needle")
    case True
    with 2(2) have "i = 0" by simp
    moreover from True have "length needle \<le> length (x # xs)"
      by (metis length_take min.cobounded1)
    ultimately show ?thesis using True by simp
  next
    case False
    with 2(2) obtain j where j: "i = Suc j" "memmem xs needle = Some j" by auto
    with 2(1) [OF False j(2)] show ?thesis by simp
  qed
qed

text \<open>
  The loop of \<open>pldm__msgbuf_span_string_utf16\<close>. \<open>w\<close> is the unread window, \<open>p\<close> the distance
  of \<open>end\<close> from its start; a NUL pair at an odd distance is a false match, and the search
  restarts one byte behind it.
\<close>

function utf16_end :: "u8 list \<Rightarrow> nat \<Rightarrow> nat option" where
  "utf16_end w p =
     (case memmem (drop p w) [0, 0] of
        None \<Rightarrow> None
      | Some i \<Rightarrow> if odd (p + i) then utf16_end w (p + i + 1) else Some (p + i))"
  by pat_completeness auto
termination
proof (relation "measure (\<lambda>(w, p). length w - p)", goal_cases)
  case 1
  show ?case by simp
next
  case (2 w p i)
  from memmem_bound [OF 2(1)] have "i + 2 \<le> length w - p" by simp
  then show ?case by simp
qed

declare utf16_end.simps [simp del]

definition pldm__msgbuf_span_string_utf16 ::
    "msgbuf \<Rightarrow> int \<times> (nat \<times> nat) option \<times> msgbuf" where
  "pldm__msgbuf_span_string_utf16 b =
     (if mb_remaining b < 0 then (let (rc, b) = pldm__msgbuf_set_invalid b in (rc, None, b))
      else
        let b = mb_access (nat (mb_remaining b)) b in
        case utf16_end (bytes_at (mb_mem b) (mb_off b) (nat (mb_remaining b))) 0 of
          None \<Rightarrow> (let (rc, b) = pldm__msgbuf_set_invalid b in (rc, None, b))
        | Some e \<Rightarrow>
            (let measured = int e + 2 in
             if mb_remaining b \<ge> measured then
               (0, Some (mb_off b, nat measured), mb_advance (nat measured) b)
             else (let (rc, b) = mb_overflow (nat measured) b in (rc, None, b))))"

definition pldm__msgbuf_span_remaining :: "msgbuf \<Rightarrow> int \<times> (nat \<times> nat) option \<times> msgbuf" where
  "pldm__msgbuf_span_remaining b =
     (if mb_remaining b < 0 then (- EOVERFLOW, None, b)
      else (0, Some (mb_off b, nat (mb_remaining b)),
            mb_advance (nat (mb_remaining b)) (mb_access (nat (mb_remaining b)) b)))"

definition pldm__msgbuf_span_until :: "msgbuf \<Rightarrow> nat \<Rightarrow> int \<times> (nat \<times> nat) option \<times> msgbuf" where
  "pldm__msgbuf_span_until b trailer =
     (if int trailer > INTMAX_MAX then
        (let (rc, b) = pldm__msgbuf_set_invalid b in (rc, None, b))
      else if mb_remaining b \<ge> int trailer then
        (let delta = nat (mb_remaining b - int trailer) in
         (0, Some (mb_off b, delta), mb_advance delta (mb_access delta b)))
      else if mb_remaining b > INTMAX_MIN + int trailer then
        (- EOVERFLOW, None, b\<lparr>mb_remaining := INTMAX_MIN + int trailer\<rparr>)
      else (let (rc, b) = pldm__msgbuf_set_invalid b in (rc, None, b)))"

definition pldm_msgbuf_peek_remaining :: "msgbuf \<Rightarrow> int \<times> (nat \<times> nat) option \<times> msgbuf" where
  "pldm_msgbuf_peek_remaining b =
     (if mb_remaining b < 0 then (- EOVERFLOW, None, b)
      else (0, Some (mb_off b, nat (mb_remaining b)), mb_access 0 b))"

definition pldm_msgbuf_skip :: "msgbuf \<Rightarrow> nat \<Rightarrow> int \<times> msgbuf" where
  "pldm_msgbuf_skip b count =
     (if int count > INTMAX_MAX then pldm__msgbuf_set_invalid b
      else if mb_remaining b \<ge> int count then (0, mb_advance count (mb_access count b))
      else mb_overflow count b)"

section \<open>Copies between buffers\<close>

definition pldm__msgbuf_copy :: "msgbuf \<Rightarrow> msgbuf \<Rightarrow> nat \<Rightarrow> int \<times> msgbuf \<times> msgbuf" where
  "pldm__msgbuf_copy dst src sz =
     (if int sz > INTMAX_MAX then
        (- EOVERFLOW, snd (pldm__msgbuf_set_invalid dst), snd (pldm__msgbuf_set_invalid src))
      else if mb_remaining src \<ge> int sz \<and> mb_remaining dst \<ge> int sz then
        (0, mb_advance sz ((mb_access sz dst)
              \<lparr>mb_mem := poke (mb_mem dst) (mb_off dst)
                           (bytes_at (mb_mem src) (mb_off src) sz)\<rparr>),
         mb_advance sz (mb_access sz src))
      else
        (- EOVERFLOW,
         (if mb_remaining dst > INTMAX_MIN + int sz
          then dst\<lparr>mb_remaining := mb_remaining dst - int sz\<rparr>
          else snd (pldm__msgbuf_set_invalid dst)),
         (if mb_remaining src > INTMAX_MIN + int sz
          then src\<lparr>mb_remaining := mb_remaining src - int sz\<rparr>
          else snd (pldm__msgbuf_set_invalid src))))"

definition pldm_msgbuf_copy_string_ascii :: "msgbuf \<Rightarrow> msgbuf \<Rightarrow> int \<times> msgbuf \<times> msgbuf" where
  "pldm_msgbuf_copy_string_ascii dst src =
     (let (rc, span, src) = pldm__msgbuf_span_string_ascii src in
      if rc < 0 then (rc, dst, src)
      else
        let (off, len) = (case span of None \<Rightarrow> (0, 0) | Some s \<Rightarrow> s);
            (rc, dst) = pldm__msgbuf_insert_array_void dst len (bytes_at (mb_mem src) off len) len
        in (rc, dst, src))"

definition pldm_msgbuf_copy_string_utf16 :: "msgbuf \<Rightarrow> msgbuf \<Rightarrow> int \<times> msgbuf \<times> msgbuf" where
  "pldm_msgbuf_copy_string_utf16 dst src =
     (let (rc, span, src) = pldm__msgbuf_span_string_utf16 src in
      if rc < 0 then (rc, dst, src)
      else
        let (off, len) = (case span of None \<Rightarrow> (0, 0) | Some s \<Rightarrow> s);
            (rc, dst) = pldm__msgbuf_insert_array_void dst len (bytes_at (mb_mem src) off len) len
        in (rc, dst, src))"

definition pldm__msgbuf_extract_uint8_to_size :: "msgbuf \<Rightarrow> nat \<Rightarrow> int \<times> nat \<times> msgbuf" where
  "pldm__msgbuf_extract_uint8_to_size b dst =
     (let (rc, value, b) = pldm__msgbuf_extract_uint8 b 0 in
      if rc \<noteq> 0 then (rc, dst, b) else (0, unat value, b))"

definition pldm__msgbuf_extract_uint16_to_size :: "msgbuf \<Rightarrow> nat \<Rightarrow> int \<times> nat \<times> msgbuf" where
  "pldm__msgbuf_extract_uint16_to_size b dst =
     (let (rc, value, b) = pldm__msgbuf_extract_uint16 b 0 in
      if rc \<noteq> 0 then (rc, dst, b) else (0, unat value, b))"

definition pldm__msgbuf_extract_uint32_to_size :: "msgbuf \<Rightarrow> nat \<Rightarrow> int \<times> nat \<times> msgbuf" where
  "pldm__msgbuf_extract_uint32_to_size b dst =
     (let (rc, value, b) = pldm__msgbuf_extract_uint32 b 0 in
      if rc \<noteq> 0 then (rc, dst, b) else (0, unat value, b))"

section \<open>Variable fields\<close>

text \<open>
  \<open>struct variable_field\<close>: a pointer into the buffer and a length. \<open>field_begin\<close> opens a
  field at the cursor, \<open>field_end\<close> closes it where the cursor has come to.
\<close>

record variable_field =
  vf_ptr :: "nat option"
  vf_length :: nat

definition pldm__msgbuf_field_begin :: "nat option \<Rightarrow> int \<Rightarrow> int \<times> variable_field" where
  "pldm__msgbuf_field_begin cursor remaining =
     (if remaining \<ge> 0 then (0, \<lparr>vf_ptr = cursor, vf_length = nat remaining\<rparr>)
      else (- EOVERFLOW, \<lparr>vf_ptr = None, vf_length = 0\<rparr>))"

definition pldm__msgbuf_field_end ::
    "nat option \<Rightarrow> int \<Rightarrow> variable_field \<Rightarrow> int \<times> variable_field" where
  "pldm__msgbuf_field_end cursor remaining field =
     (case vf_ptr field of
        None \<Rightarrow> (- EINVAL, field)
      | Some p \<Rightarrow>
          if int (vf_length field) > INTMAX_MAX then (- EINVAL, field)
          else if remaining \<ge> 0 then
            (if int (vf_length field) < remaining then (- EINVAL, field)
             else if Some (p + (vf_length field - nat remaining)) \<noteq> cursor then (- EINVAL, field)
             else (0, field\<lparr>vf_length := vf_length field - nat remaining\<rparr>))
          else (- EOVERFLOW, field))"

section \<open>Well-formedness is kept\<close>

lemma mb_access_ok [simp]:
  assumes "mb_ok b" "int n \<le> mb_remaining b"
  shows "mb_access n b = b"
  using assms by (auto simp: mb_ok_def mb_access_def split: option.splits)

lemma mb_advance_ok [mb_ok_intros]:
  assumes "mb_ok b" "int n \<le> mb_remaining b"
  shows "mb_ok (mb_advance n b)"
  using assms by (auto simp: mb_ok_def mb_advance_def split: option.splits)

lemma mb_remaining_advance [simp]: "mb_remaining (mb_advance n b) = mb_remaining b - int n"
  by (simp add: mb_advance_def)

lemma mb_mem_advance [simp]: "mb_mem (mb_advance n b) = mb_mem b"
  by (simp add: mb_advance_def)

lemma mb_mem_access [simp]: "mb_mem (mb_access n b) = mb_mem b"
  by (simp add: mb_access_def split: option.splits)

lemma mb_remaining_access [simp]: "mb_remaining (mb_access n b) = mb_remaining b"
  by (simp add: mb_access_def split: option.splits)

lemma mb_ok_mem [mb_ok_intros]:
  "mb_ok b \<Longrightarrow> length m = length (mb_mem b) \<Longrightarrow> mb_ok (b\<lparr>mb_mem := m\<rparr>)"
  by (auto simp: mb_ok_def split: option.splits)

lemma mb_ok_off:
  assumes "mb_ok b" "int n \<le> mb_remaining b"
  shows "mb_off b + n \<le> length (mb_mem b)"
  using assms by (auto simp: mb_ok_def mb_off_def split: option.splits)

lemma mb_ok_set_invalid [mb_ok_intros]: "mb_ok b \<Longrightarrow> mb_ok (snd (pldm__msgbuf_set_invalid b))"
  by (auto simp: mb_ok_def pldm__msgbuf_set_invalid_def)

lemma mb_ok_overflow [mb_ok_intros]:
  "mb_ok b \<Longrightarrow> mb_remaining b < int n \<Longrightarrow> mb_ok (snd (mb_overflow n b))"
  by (auto simp: mb_ok_def mb_overflow_def pldm__msgbuf_set_invalid_def)

lemma overflow_fails [simp]: "fst (mb_overflow n b) = - EOVERFLOW"
  by (simp add: mb_overflow_def pldm__msgbuf_set_invalid_def)

lemma overflow_negative:
  "mb_remaining b < int n \<Longrightarrow> mb_remaining (snd (mb_overflow n b)) < 0"
  by (auto simp: mb_overflow_def pldm__msgbuf_set_invalid_def)

lemma set_invalid_fails [simp]: "fst (pldm__msgbuf_set_invalid b) = - EOVERFLOW"
  by (simp add: pldm__msgbuf_set_invalid_def)

lemma set_invalid_remaining [simp]:
  "mb_remaining (snd (pldm__msgbuf_set_invalid b)) = INTMAX_MIN"
  by (simp add: pldm__msgbuf_set_invalid_def)

end
