(* ===== verification/Msgbuf_Contract.thy ===== *)
theory Msgbuf_Contract
  imports Msgbuf
begin

text \<open>
  The contract the codecs rely on when they drop the return code of a msgbuf operation and
  ask only the final \<open>pldm_msgbuf_complete*()\<close>: a locale for one operation, interpreted on
  every operation of the msgbuf, and the theorems about arbitrary sequences of them.
\<close>

section \<open>The contract of one operation\<close>

locale msgbuf_op =
  fixes op :: "msgbuf \<Rightarrow> int \<times> msgbuf"
  assumes op_ok: "mb_ok b \<Longrightarrow> mb_ok (snd (op b))"
    and op_failed: "mb_ok b \<Longrightarrow> fst (op b) \<noteq> 0 \<Longrightarrow> mb_remaining (snd (op b)) < 0"
    and op_sticky: "mb_ok b \<Longrightarrow> mb_remaining b < 0 \<Longrightarrow> mb_remaining (snd (op b)) < 0"
    and op_done: "mb_ok b \<Longrightarrow> 0 \<le> mb_remaining b \<Longrightarrow> fst (op b) = 0 \<Longrightarrow>
      0 \<le> mb_remaining (snd (op b))"
begin

lemma complete_iff:
  assumes "mb_ok b"
  shows "fst (pldm_msgbuf_complete (snd (op b))) = 0 \<longleftrightarrow>
    fst (op b) = 0 \<and> fst (pldm_msgbuf_complete b) = 0"
proof (cases "mb_remaining b < 0")
  case True
  with op_sticky [OF assms] show ?thesis
    by (simp add: pldm_msgbuf_complete_def pldm__msgbuf_discard_def pldm__msgbuf_validate_def)
next
  case False
  with op_failed [OF assms] op_done [OF assms] show ?thesis
    by (auto simp: pldm_msgbuf_complete_def pldm__msgbuf_discard_def pldm__msgbuf_validate_def)
qed

lemma no_fault: "mb_ok b \<Longrightarrow> \<not> mb_fault (snd (op b))"
  using op_ok by (simp add: mb_ok_def)

end

section \<open>Every operation keeps it\<close>

text \<open>Operations that hand out a value or a span are read as movers of the msgbuf only.\<close>

definition rc_of :: "int \<times> 'v \<times> msgbuf \<Rightarrow> int \<times> msgbuf" where
  "rc_of r = (fst r, snd (snd r))"

lemma rc_of_pair [simp]: "rc_of (rc, v, b) = (rc, b)"
  by (simp add: rc_of_def)

lemma msgbuf_opI:
  assumes "\<And>b. mb_ok b \<Longrightarrow> mb_ok (snd (op b))"
    and "\<And>b. mb_ok b \<Longrightarrow> fst (op b) \<noteq> 0 \<Longrightarrow> mb_remaining (snd (op b)) < 0"
    and "\<And>b. mb_ok b \<Longrightarrow> mb_remaining b < 0 \<Longrightarrow> mb_remaining (snd (op b)) < 0"
    and "\<And>b. mb_ok b \<Longrightarrow> 0 \<le> mb_remaining b \<Longrightarrow> fst (op b) = 0 \<Longrightarrow>
      0 \<le> mb_remaining (snd (op b))"
  shows "msgbuf_op op"
  using assms by unfold_locales auto

lemma msgbuf_op_move:
  assumes "\<And>b. int n \<le> mb_remaining b \<Longrightarrow> mb_ok b \<Longrightarrow>
      fst (op b) = 0 \<and> mb_ok (snd (op b)) \<and> mb_remaining (snd (op b)) = mb_remaining b - int n"
    and "\<And>b. mb_remaining b < int n \<Longrightarrow> op b = mb_overflow n b"
  shows "msgbuf_op op"
proof (rule msgbuf_opI)
  fix b
  assume ok: "mb_ok b"
  show "mb_ok (snd (op b))"
    using assms ok by (cases "int n \<le> mb_remaining b") (auto intro: mb_ok_overflow)
  show "fst (op b) \<noteq> 0 \<Longrightarrow> mb_remaining (snd (op b)) < 0"
    using assms ok by (cases "int n \<le> mb_remaining b") (auto intro: overflow_negative)
  show "mb_remaining b < 0 \<Longrightarrow> mb_remaining (snd (op b)) < 0"
    using assms ok by (cases "int n \<le> mb_remaining b") (auto intro: overflow_negative)
  show "0 \<le> mb_remaining b \<Longrightarrow> fst (op b) = 0 \<Longrightarrow> 0 \<le> mb_remaining (snd (op b))"
    using assms ok by (cases "int n \<le> mb_remaining b") auto
qed

lemma msgbuf_op_invalid: "msgbuf_op pldm__msgbuf_set_invalid"
  by (rule msgbuf_opI) (auto intro: mb_ok_set_invalid)

lemma msgbuf_op_extract: "msgbuf_op (\<lambda>b. rc_of (msgbuf_extract b (dst :: 'a::len word)))"
  by (rule msgbuf_op_move [where n = "LENGTH('a) div 8"])
    (auto simp: msgbuf_extract_def Let_def rc_of_def intro: mb_advance_ok split: prod.splits)

lemma msgbuf_op_insert: "msgbuf_op (\<lambda>b. msgbuf_insert b (v :: 'a::len word))"
  by (rule msgbuf_op_move [where n = "LENGTH('a) div 8"])
    (auto simp: msgbuf_insert_def mb_ok_off intro!: mb_advance_ok mb_ok_mem)

lemma msgbuf_op_extract_array:
  assumes "count \<le> dst_count"
  shows "msgbuf_op (\<lambda>b. rc_of (pldm__msgbuf_extract_array_void b count dst dst_count))"
proof (cases "int count > INTMAX_MAX")
  case True
  then have "(\<lambda>b. rc_of (pldm__msgbuf_extract_array_void b count dst dst_count)) =
      pldm__msgbuf_set_invalid"
    using assms by (auto simp: fun_eq_iff pldm__msgbuf_extract_array_void_def split: prod.splits)
  then show ?thesis using msgbuf_op_invalid by simp
next
  case False
  show ?thesis
  proof (cases "count = 0")
    case True
    then show ?thesis using assms
      by (intro msgbuf_opI) (auto simp: pldm__msgbuf_extract_array_void_def)
  next
    case nz: False
    show ?thesis using assms nz False
      by (intro msgbuf_op_move [where n = count])
        (auto simp: pldm__msgbuf_extract_array_void_def rc_of_def intro: mb_advance_ok
          split: prod.splits)
  qed
qed

lemma msgbuf_op_insert_array:
  assumes "count \<le> src_count" "src_count \<le> length src"
  shows "msgbuf_op (\<lambda>b. pldm__msgbuf_insert_array_void b count src src_count)"
proof (cases "int count > INTMAX_MAX")
  case True
  then have "(\<lambda>b. pldm__msgbuf_insert_array_void b count src src_count) =
      pldm__msgbuf_set_invalid"
    using assms by (auto simp: fun_eq_iff pldm__msgbuf_insert_array_void_def)
  then show ?thesis using msgbuf_op_invalid by simp
next
  case False
  show ?thesis
  proof (cases "count = 0")
    case True
    then show ?thesis using assms
      by (intro msgbuf_opI) (auto simp: pldm__msgbuf_insert_array_void_def)
  next
    case nz: False
    have fault: "b\<lparr>mb_mem := m, mb_fault := mb_fault b\<rparr> = b\<lparr>mb_mem := m\<rparr>"
      for m and b :: msgbuf
      by (cases b) simp
    show ?thesis using assms nz False
      by (intro msgbuf_op_move [where n = count])
        (auto simp: pldm__msgbuf_insert_array_void_def mb_ok_off fault
          intro!: mb_advance_ok mb_ok_mem)
  qed
qed

lemma msgbuf_op_span_required: "msgbuf_op (\<lambda>b. rc_of (pldm__msgbuf_span_required b n))"
proof (cases "int n > INTMAX_MAX")
  case True
  then have "(\<lambda>b. rc_of (pldm__msgbuf_span_required b n)) = pldm__msgbuf_set_invalid"
    by (auto simp: fun_eq_iff pldm__msgbuf_span_required_def split: prod.splits)
  then show ?thesis using msgbuf_op_invalid by simp
next
  case False
  then show ?thesis
    by (intro msgbuf_op_move [where n = n])
      (auto simp: pldm__msgbuf_span_required_def rc_of_def intro: mb_advance_ok
        split: prod.splits)
qed

lemma msgbuf_op_skip: "msgbuf_op (\<lambda>b. pldm_msgbuf_skip b n)"
proof (cases "int n > INTMAX_MAX")
  case True
  then have "(\<lambda>b. pldm_msgbuf_skip b n) = pldm__msgbuf_set_invalid"
    by (auto simp: fun_eq_iff pldm_msgbuf_skip_def)
  then show ?thesis using msgbuf_op_invalid by simp
next
  case False
  then show ?thesis
    by (intro msgbuf_op_move [where n = n])
      (auto simp: pldm_msgbuf_skip_def intro: mb_advance_ok)
qed

lemma strnlen_le: "strnlen s n \<le> n" "strnlen s n \<le> length s"
  unfolding strnlen_def
  by (metis (no_types) length_take length_takeWhile_le min.boundedE)+

lemma msgbuf_op_span_ascii: "msgbuf_op (\<lambda>b. rc_of (pldm__msgbuf_span_string_ascii b))"
proof (rule msgbuf_opI)
  fix b
  assume ok: "mb_ok b"
  let ?n = "strnlen (drop (mb_off b) (mb_mem b)) (nat (mb_remaining b))"
  have bound: "int ?n \<le> mb_remaining b" if "0 \<le> mb_remaining b"
    using strnlen_le(1) [of "drop (mb_off b) (mb_mem b)" "nat (mb_remaining b)"] that by simp
  have eval: "rc_of (pldm__msgbuf_span_string_ascii b) =
      (if mb_remaining b < 0 \<or> int ?n = mb_remaining b then pldm__msgbuf_set_invalid b
       else (0, mb_advance (Suc ?n) b))"
    using ok bound
    by (auto simp: pldm__msgbuf_span_string_ascii_def Let_def nat_add_distrib
        split: prod.splits)
  note intros = mb_ok_set_invalid mb_advance_ok
  show "mb_ok (snd (rc_of (pldm__msgbuf_span_string_ascii b)))"
    using ok bound by (auto simp: eval intro!: intros)
  show "fst (rc_of (pldm__msgbuf_span_string_ascii b)) \<noteq> 0 \<Longrightarrow>
      mb_remaining (snd (rc_of (pldm__msgbuf_span_string_ascii b))) < 0"
    by (auto simp: eval split: if_splits)
  show "mb_remaining b < 0 \<Longrightarrow>
      mb_remaining (snd (rc_of (pldm__msgbuf_span_string_ascii b))) < 0"
    by (auto simp: eval)
  show "0 \<le> mb_remaining b \<Longrightarrow> fst (rc_of (pldm__msgbuf_span_string_ascii b)) = 0 \<Longrightarrow>
      0 \<le> mb_remaining (snd (rc_of (pldm__msgbuf_span_string_ascii b)))"
    using bound by (auto simp: eval split: if_splits)
qed

lemma utf16_end_bound: "utf16_end w p = Some e \<Longrightarrow> even e \<and> e + 2 \<le> length w"
proof (induction w p arbitrary: e rule: utf16_end.induct)
  case (1 w p)
  from 1(2) obtain i where i: "memmem (drop p w) [0, 0] = Some i"
    by (auto simp: utf16_end.simps [of w p] split: option.splits)
  from memmem_bound [OF i] have bound: "i + 2 \<le> length w - p" by simp
  show ?case
  proof (cases "odd (p + i)")
    case True
    with 1(2) i have "utf16_end w (p + i + 1) = Some e"
      by (simp add: utf16_end.simps [of w p])
    with 1(1) [OF i True] show ?thesis by simp
  next
    case False
    with 1(2) i have "e = p + i" by (simp add: utf16_end.simps [of w p])
    with False bound show ?thesis by auto
  qed
qed

lemma msgbuf_op_span_utf16: "msgbuf_op (\<lambda>b. rc_of (pldm__msgbuf_span_string_utf16 b))"
proof (rule msgbuf_opI)
  fix b
  assume ok: "mb_ok b"
  let ?w = "bytes_at (mb_mem b) (mb_off b) (nat (mb_remaining b))"
  have bound: "int (e + 2) \<le> mb_remaining b"
    if "0 \<le> mb_remaining b" "utf16_end ?w 0 = Some e" for e
  proof -
    have "mb_off b + nat (mb_remaining b) \<le> length (mb_mem b)"
      using mb_ok_off [OF ok, of "nat (mb_remaining b)"] that(1) by simp
    with utf16_end_bound [OF that(2)] have "e + 2 \<le> nat (mb_remaining b)" by simp
    with that(1) show ?thesis by linarith
  qed
  have eval: "rc_of (pldm__msgbuf_span_string_utf16 b) =
      (if mb_remaining b < 0 then pldm__msgbuf_set_invalid b
       else case utf16_end ?w 0 of None \<Rightarrow> pldm__msgbuf_set_invalid b
            | Some e \<Rightarrow> (0, mb_advance (e + 2) b))"
    using ok bound
    by (auto simp: pldm__msgbuf_span_string_utf16_def Let_def nat_add_distrib
        split: prod.splits option.splits)
  note intros = mb_ok_set_invalid mb_advance_ok
  show "mb_ok (snd (rc_of (pldm__msgbuf_span_string_utf16 b)))"
    using ok bound by (auto simp: eval intro!: intros split: option.splits)
  show "fst (rc_of (pldm__msgbuf_span_string_utf16 b)) \<noteq> 0 \<Longrightarrow>
      mb_remaining (snd (rc_of (pldm__msgbuf_span_string_utf16 b))) < 0"
    by (auto simp: eval split: if_splits option.splits)
  show "mb_remaining b < 0 \<Longrightarrow>
      mb_remaining (snd (rc_of (pldm__msgbuf_span_string_utf16 b))) < 0"
    by (auto simp: eval)
  show "0 \<le> mb_remaining b \<Longrightarrow> fst (rc_of (pldm__msgbuf_span_string_utf16 b)) = 0 \<Longrightarrow>
      0 \<le> mb_remaining (snd (rc_of (pldm__msgbuf_span_string_utf16 b)))"
    using bound by (auto simp: eval split: if_splits option.splits)
qed

lemma msgbuf_op_span_remaining: "msgbuf_op (\<lambda>b. rc_of (pldm__msgbuf_span_remaining b))"
  by (rule msgbuf_opI) (auto simp: pldm__msgbuf_span_remaining_def rc_of_def intro: mb_advance_ok
      split: if_splits)

lemma msgbuf_op_peek_remaining: "msgbuf_op (\<lambda>b. rc_of (pldm_msgbuf_peek_remaining b))"
  by (rule msgbuf_opI) (auto simp: pldm_msgbuf_peek_remaining_def rc_of_def split: if_splits)

lemma msgbuf_op_span_until: "msgbuf_op (\<lambda>b. rc_of (pldm__msgbuf_span_until b n))"
proof (rule msgbuf_opI)
  fix b
  assume ok: "mb_ok b"
  have eval: "rc_of (pldm__msgbuf_span_until b n) =
      (if int n > INTMAX_MAX then pldm__msgbuf_set_invalid b
       else if mb_remaining b \<ge> int n then (0, mb_advance (nat (mb_remaining b - int n)) b)
       else if mb_remaining b > INTMAX_MIN + int n
         then (- EOVERFLOW, b\<lparr>mb_remaining := INTMAX_MIN + int n\<rparr>)
       else pldm__msgbuf_set_invalid b)"
    using ok by (auto simp: pldm__msgbuf_span_until_def Let_def split: prod.splits)
  show "mb_ok (snd (rc_of (pldm__msgbuf_span_until b n)))"
    using ok by (auto simp: eval intro!: mb_ok_set_invalid mb_advance_ok) (auto simp: mb_ok_def)
  show "fst (rc_of (pldm__msgbuf_span_until b n)) \<noteq> 0 \<Longrightarrow>
      mb_remaining (snd (rc_of (pldm__msgbuf_span_until b n))) < 0"
    by (auto simp: eval split: if_splits)
  show "mb_remaining b < 0 \<Longrightarrow> mb_remaining (snd (rc_of (pldm__msgbuf_span_until b n))) < 0"
    by (auto simp: eval)
  show "0 \<le> mb_remaining b \<Longrightarrow> fst (rc_of (pldm__msgbuf_span_until b n)) = 0 \<Longrightarrow>
      0 \<le> mb_remaining (snd (rc_of (pldm__msgbuf_span_until b n)))"
    by (auto simp: eval split: if_splits)
qed

text \<open>The contract, discharged for each operation of the interface.\<close>

interpretation extract_uint8: msgbuf_op "\<lambda>b. rc_of (pldm__msgbuf_extract_uint8 b dst)" for dst
  unfolding pldm__msgbuf_extract_uint8_def by (rule msgbuf_op_extract)

interpretation extract_uint16: msgbuf_op "\<lambda>b. rc_of (pldm__msgbuf_extract_uint16 b dst)" for dst
  unfolding pldm__msgbuf_extract_uint16_def by (rule msgbuf_op_extract)

interpretation extract_uint32: msgbuf_op "\<lambda>b. rc_of (pldm__msgbuf_extract_uint32 b dst)" for dst
  unfolding pldm__msgbuf_extract_uint32_def by (rule msgbuf_op_extract)

interpretation extract_uint64: msgbuf_op "\<lambda>b. rc_of (pldm__msgbuf_extract_uint64 b dst)" for dst
  unfolding pldm__msgbuf_extract_uint64_def by (rule msgbuf_op_extract)

interpretation insert_uint8: msgbuf_op "\<lambda>b. pldm_msgbuf_insert_uint8 b v" for v
  unfolding pldm_msgbuf_insert_uint8_def by (rule msgbuf_op_insert)

interpretation insert_uint16: msgbuf_op "\<lambda>b. pldm_msgbuf_insert_uint16 b v" for v
  unfolding pldm_msgbuf_insert_uint16_def by (rule msgbuf_op_insert)

interpretation insert_uint32: msgbuf_op "\<lambda>b. pldm_msgbuf_insert_uint32 b v" for v
  unfolding pldm_msgbuf_insert_uint32_def by (rule msgbuf_op_insert)

interpretation insert_uint64: msgbuf_op "\<lambda>b. pldm_msgbuf_insert_uint64 b v" for v
  unfolding pldm_msgbuf_insert_uint64_def by (rule msgbuf_op_insert)

interpretation extract_array:
  msgbuf_op "\<lambda>b. rc_of (pldm__msgbuf_extract_array_void b n dst (n + k))" for n dst k
  by (rule msgbuf_op_extract_array) simp

interpretation insert_array:
  msgbuf_op "\<lambda>b. pldm__msgbuf_insert_array_void b (length src) src (length src)" for src
  by (rule msgbuf_op_insert_array) simp_all

interpretation span_required: msgbuf_op "\<lambda>b. rc_of (pldm__msgbuf_span_required b n)" for n
  by (rule msgbuf_op_span_required)

interpretation span_ascii: msgbuf_op "\<lambda>b. rc_of (pldm__msgbuf_span_string_ascii b)"
  by (rule msgbuf_op_span_ascii)

interpretation span_utf16: msgbuf_op "\<lambda>b. rc_of (pldm__msgbuf_span_string_utf16 b)"
  by (rule msgbuf_op_span_utf16)

interpretation span_remaining: msgbuf_op "\<lambda>b. rc_of (pldm__msgbuf_span_remaining b)"
  by (rule msgbuf_op_span_remaining)

interpretation peek_remaining: msgbuf_op "\<lambda>b. rc_of (pldm_msgbuf_peek_remaining b)"
  by (rule msgbuf_op_peek_remaining)

interpretation span_until: msgbuf_op "\<lambda>b. rc_of (pldm__msgbuf_span_until b n)" for n
  by (rule msgbuf_op_span_until)

interpretation skip: msgbuf_op "\<lambda>b. pldm_msgbuf_skip b n" for n
  by (rule msgbuf_op_skip)

text \<open>Extraction into a \<open>size_t\<close> moves the msgbuf as the extraction of the narrower integer does.\<close>

lemma to_size_moves:
  "rc_of (pldm__msgbuf_extract_uint8_to_size b dst8) = rc_of (pldm__msgbuf_extract_uint8 b 0)"
  "rc_of (pldm__msgbuf_extract_uint16_to_size b dst16) = rc_of (pldm__msgbuf_extract_uint16 b 0)"
  "rc_of (pldm__msgbuf_extract_uint32_to_size b dst32) = rc_of (pldm__msgbuf_extract_uint32 b 0)"
  by (simp_all add: pldm__msgbuf_extract_uint8_to_size_def pldm__msgbuf_extract_uint16_to_size_def
      pldm__msgbuf_extract_uint32_to_size_def split: prod.splits)

section \<open>Sequences of operations\<close>

text \<open>
  A codec is a sequence of calls on a msgbuf. \<open>mb_call\<close> is one call with its arguments. An array is as long as the caller
  says it is; the count that goes with it is any number.
\<close>

datatype mb_call =
    Extract8 u8 | Extract16 u16 | Extract32 u32 | Extract64 u64
  | ExtractInt8 u8 | ExtractInt16 u16 | ExtractInt32 u32 | ExtractInt64 u64 | ExtractReal32 u32
  | ToSize8 nat | ToSize16 nat | ToSize32 nat
  | Insert8 u8 | Insert16 u16 | Insert32 u32 | Insert64 u64
  | InsertInt8 u8 | InsertInt16 u16 | InsertInt32 u32 | InsertReal32 u32
  | ExtractArray nat "u8 list" | InsertArray nat "u8 list"
  | SpanRequired nat | SpanAscii | SpanUtf16 | SpanRemaining | SpanUntil nat
  | PeekRemaining | Skip nat
  | FieldBegin | FieldEnd variable_field

fun mb_do :: "mb_call \<Rightarrow> msgbuf \<Rightarrow> int \<times> msgbuf" where
  "mb_do (Extract8 dst) b = rc_of (pldm__msgbuf_extract_uint8 b dst)"
| "mb_do (Extract16 dst) b = rc_of (pldm__msgbuf_extract_uint16 b dst)"
| "mb_do (Extract32 dst) b = rc_of (pldm__msgbuf_extract_uint32 b dst)"
| "mb_do (Extract64 dst) b = rc_of (pldm__msgbuf_extract_uint64 b dst)"
| "mb_do (ExtractInt8 dst) b = rc_of (pldm__msgbuf_extract_int8 b dst)"
| "mb_do (ExtractInt16 dst) b = rc_of (pldm__msgbuf_extract_int16 b dst)"
| "mb_do (ExtractInt32 dst) b = rc_of (pldm__msgbuf_extract_int32 b dst)"
| "mb_do (ExtractInt64 dst) b = rc_of (pldm__msgbuf_extract_int64 b dst)"
| "mb_do (ExtractReal32 dst) b = rc_of (pldm__msgbuf_extract_real32 b dst)"
| "mb_do (ToSize8 dst) b = rc_of (pldm__msgbuf_extract_uint8_to_size b dst)"
| "mb_do (ToSize16 dst) b = rc_of (pldm__msgbuf_extract_uint16_to_size b dst)"
| "mb_do (ToSize32 dst) b = rc_of (pldm__msgbuf_extract_uint32_to_size b dst)"
| "mb_do (Insert8 v) b = pldm_msgbuf_insert_uint8 b v"
| "mb_do (Insert16 v) b = pldm_msgbuf_insert_uint16 b v"
| "mb_do (Insert32 v) b = pldm_msgbuf_insert_uint32 b v"
| "mb_do (Insert64 v) b = pldm_msgbuf_insert_uint64 b v"
| "mb_do (InsertInt8 v) b = pldm_msgbuf_insert_int8 b v"
| "mb_do (InsertInt16 v) b = pldm_msgbuf_insert_int16 b v"
| "mb_do (InsertInt32 v) b = pldm_msgbuf_insert_int32 b v"
| "mb_do (InsertReal32 v) b = pldm_msgbuf_insert_real32 b v"
| "mb_do (ExtractArray n dst) b = rc_of (pldm__msgbuf_extract_array_void b n dst (length dst))"
| "mb_do (InsertArray n src) b = pldm__msgbuf_insert_array_void b n src (length src)"
| "mb_do (SpanRequired n) b = rc_of (pldm__msgbuf_span_required b n)"
| "mb_do SpanAscii b = rc_of (pldm__msgbuf_span_string_ascii b)"
| "mb_do SpanUtf16 b = rc_of (pldm__msgbuf_span_string_utf16 b)"
| "mb_do SpanRemaining b = rc_of (pldm__msgbuf_span_remaining b)"
| "mb_do (SpanUntil n) b = rc_of (pldm__msgbuf_span_until b n)"
| "mb_do PeekRemaining b = rc_of (pldm_msgbuf_peek_remaining b)"
| "mb_do (Skip n) b = pldm_msgbuf_skip b n"
| "mb_do FieldBegin b = (fst (pldm__msgbuf_field_begin (mb_cursor b) (mb_remaining b)), b)"
| "mb_do (FieldEnd f) b = (fst (pldm__msgbuf_field_end (mb_cursor b) (mb_remaining b) f), b)"

text \<open>
  The calls that may be refused for their arguments. A refused call returns \<open>-EINVAL\<close> and leaves the msgbuf as it was, so
  the completion does not tell: codecs test the result of these calls.
\<close>

fun may_refuse :: "mb_call \<Rightarrow> bool" where
  "may_refuse (ExtractArray n dst) \<longleftrightarrow> n > length dst"
| "may_refuse (InsertArray n src) \<longleftrightarrow> n > length src"
| "may_refuse (FieldEnd f) \<longleftrightarrow> True"
| "may_refuse _ \<longleftrightarrow> False"

definition accepted :: "mb_call \<Rightarrow> int \<Rightarrow> bool" where
  "accepted c rc \<longleftrightarrow> rc = 0 \<or> rc = - EINVAL \<and> may_refuse c"

lemmas mb_do_fun = mb_do.simps [THEN ext]

lemma mb_do_contract:
  assumes "\<not> may_refuse c"
  shows "msgbuf_op (mb_do c)"
proof (cases c)
  case (ExtractArray n dst)
  then show ?thesis using assms msgbuf_op_extract_array [of n "length dst" dst] by (simp add: mb_do_fun)
next
  case (InsertArray n src)
  then show ?thesis using assms msgbuf_op_insert_array [of n "length src" src] by (simp add: mb_do_fun)
next
  case FieldBegin
  then show ?thesis by (auto intro!: msgbuf_opI simp: pldm__msgbuf_field_begin_def split: if_splits)
qed (use assms in \<open>simp_all add: mb_do_fun to_size_moves extract_uint8.msgbuf_op_axioms extract_uint16.msgbuf_op_axioms
    extract_uint32.msgbuf_op_axioms extract_uint64.msgbuf_op_axioms pldm__msgbuf_extract_int8_def pldm__msgbuf_extract_int16_def
    pldm__msgbuf_extract_int32_def pldm__msgbuf_extract_int64_def pldm__msgbuf_extract_real32_def pldm_msgbuf_insert_int8_def
    pldm_msgbuf_insert_int16_def pldm_msgbuf_insert_int32_def pldm_msgbuf_insert_real32_def msgbuf_op_extract msgbuf_op_insert
    insert_uint8.msgbuf_op_axioms insert_uint16.msgbuf_op_axioms insert_uint32.msgbuf_op_axioms insert_uint64.msgbuf_op_axioms
    span_required.msgbuf_op_axioms span_ascii.msgbuf_op_axioms span_utf16.msgbuf_op_axioms span_remaining.msgbuf_op_axioms
    span_until.msgbuf_op_axioms peek_remaining.msgbuf_op_axioms skip.msgbuf_op_axioms\<close>)

lemma mb_do_refused:
  assumes "may_refuse c"
  shows "snd (mb_do c b) = b" "\<not> accepted c (fst (mb_do c b)) \<Longrightarrow> mb_remaining b < 0"
  using assms
  by (cases c; auto simp: accepted_def pldm__msgbuf_extract_array_void_def pldm__msgbuf_insert_array_void_def
      pldm__msgbuf_field_end_def split: option.splits if_splits)+

lemma mb_do_ok: "mb_ok b \<Longrightarrow> mb_ok (snd (mb_do c b))"
  using mb_do_refused(1) msgbuf_op.op_ok [OF mb_do_contract] by (cases "may_refuse c") simp_all

lemma complete_success: "fst (pldm_msgbuf_complete b) = 0 \<longleftrightarrow> 0 \<le> mb_remaining b"
  by (simp add: pldm_msgbuf_complete_def pldm__msgbuf_discard_def pldm__msgbuf_validate_def)

lemma mb_do_complete:
  assumes "mb_ok b"
  shows "0 \<le> mb_remaining (snd (mb_do c b)) \<longleftrightarrow> accepted c (fst (mb_do c b)) \<and> 0 \<le> mb_remaining b"
proof (cases "may_refuse c")
  case True
  then show ?thesis using mb_do_refused [of c b] by fastforce
next
  case False
  then show ?thesis
    using msgbuf_op.complete_iff [OF mb_do_contract assms, of c] by (simp add: complete_success accepted_def)
qed

text \<open>
  A step of a codec that works on a source and a destination: a call on either, or a copy from one to the other. The two lie over
  different objects.
\<close>

datatype mb_action = On_src mb_call | On_dst mb_call | Copy nat | CopyAscii | CopyUtf16

fun mb_step :: "mb_action \<Rightarrow> msgbuf \<times> msgbuf \<Rightarrow> int \<times> msgbuf \<times> msgbuf" where
  "mb_step (On_src c) (src, dst) = (let (rc, src) = mb_do c src in (rc, src, dst))"
| "mb_step (On_dst c) (src, dst) = (let (rc, dst) = mb_do c dst in (rc, src, dst))"
| "mb_step (Copy n) (src, dst) = (let (rc, dst, src) = pldm__msgbuf_copy dst src n in (rc, src, dst))"
| "mb_step CopyAscii (src, dst) = (let (rc, dst, src) = pldm_msgbuf_copy_string_ascii dst src in (rc, src, dst))"
| "mb_step CopyUtf16 (src, dst) = (let (rc, dst, src) = pldm_msgbuf_copy_string_utf16 dst src in (rc, src, dst))"

fun step_accepted :: "mb_action \<Rightarrow> int \<Rightarrow> bool" where
  "step_accepted (On_src c) rc \<longleftrightarrow> accepted c rc"
| "step_accepted (On_dst c) rc \<longleftrightarrow> accepted c rc"
| "step_accepted _ rc \<longleftrightarrow> rc = 0"

fun mb_run :: "mb_action list \<Rightarrow> msgbuf \<times> msgbuf \<Rightarrow> int list \<times> msgbuf \<times> msgbuf" where
  "mb_run [] bs = ([], bs)"
| "mb_run (s # ss) bs = (let (rc, bs) = mb_step s bs; (rcs, bs) = mb_run ss bs in (rc # rcs, bs))"

definition both_ok :: "msgbuf \<times> msgbuf \<Rightarrow> bool" where
  "both_ok bs \<longleftrightarrow> mb_ok (fst bs) \<and> mb_ok (snd bs)"

definition both_left :: "msgbuf \<times> msgbuf \<Rightarrow> bool" where
  "both_left bs \<longleftrightarrow> 0 \<le> mb_remaining (fst bs) \<and> 0 \<le> mb_remaining (snd bs)"

text \<open>A copy that fails leaves at least one of the two overdrawn.\<close>

lemma mb_ok_less: "mb_ok b \<Longrightarrow> INTMAX_MIN \<le> r \<Longrightarrow> r \<le> mb_remaining b \<Longrightarrow> mb_ok (b\<lparr>mb_remaining := r\<rparr>)"
  by (auto simp: mb_ok_def split: option.splits)

lemma copy_step:
  assumes "mb_ok dst" "mb_ok src" "pldm__msgbuf_copy dst src n = (rc, dst', src')"
  shows "mb_ok dst' \<and> mb_ok src' \<and> (0 \<le> mb_remaining src' \<and> 0 \<le> mb_remaining dst' \<longleftrightarrow>
    rc = 0 \<and> 0 \<le> mb_remaining src \<and> 0 \<le> mb_remaining dst)"
proof (cases "int n > INTMAX_MAX")
  case True
  then show ?thesis using assms mb_ok_set_invalid [OF assms(1)] mb_ok_set_invalid [OF assms(2)]
    by (auto simp: pldm__msgbuf_copy_def pldm__msgbuf_set_invalid_def)
next
  case False
  have over: "mb_ok (if mb_remaining b > INTMAX_MIN + int n then b\<lparr>mb_remaining := mb_remaining b - int n\<rparr>
      else snd (pldm__msgbuf_set_invalid b))" if "mb_ok b" for b
    using that mb_ok_set_invalid [OF that] by (auto intro: mb_ok_less)
  show ?thesis
  proof (cases "mb_remaining src \<ge> int n \<and> mb_remaining dst \<ge> int n")
    case True
    then show ?thesis using assms False by (auto simp: pldm__msgbuf_copy_def mb_ok_off intro!: mb_advance_ok mb_ok_mem)
  next
    case short: False
    have left: "0 \<le> mb_remaining (if mb_remaining b > INTMAX_MIN + int n then b\<lparr>mb_remaining := mb_remaining b - int n\<rparr>
        else snd (pldm__msgbuf_set_invalid b)) \<longleftrightarrow> int n \<le> mb_remaining b" for b
      using False by (auto simp: pldm__msgbuf_set_invalid_def)
    have "rc \<noteq> 0 \<and> mb_ok dst' \<and> mb_ok src' \<and> (0 \<le> mb_remaining dst' \<longleftrightarrow> int n \<le> mb_remaining dst) \<and>
        (0 \<le> mb_remaining src' \<longleftrightarrow> int n \<le> mb_remaining src)"
      using assms(3) False short over [OF assms(1)] over [OF assms(2)] left [of dst] left [of src]
      unfolding pldm__msgbuf_copy_def by (auto split del: if_split)
    then show ?thesis using short by auto
  qed
qed

text \<open>A string that is spanned lies behind the cursor.\<close>

lemma ascii_span:
  assumes "mb_ok b"
  shows "fst (pldm__msgbuf_span_string_ascii b) = - EOVERFLOW \<or>
    (\<exists>n. pldm__msgbuf_span_string_ascii b = (0, Some (mb_off b, n), mb_advance n b) \<and> int n \<le> mb_remaining b)"
proof (cases "mb_remaining b < 0")
  case False
  then have "int (strnlen (drop (mb_off b) (mb_mem b)) (nat (mb_remaining b))) \<le> mb_remaining b"
    using strnlen_le(1) [of "drop (mb_off b) (mb_mem b)" "nat (mb_remaining b)"] by simp
  then show ?thesis using assms False
    by (auto simp: pldm__msgbuf_span_string_ascii_def pldm__msgbuf_set_invalid_def Let_def nat_add_distrib)
qed (simp add: pldm__msgbuf_span_string_ascii_def pldm__msgbuf_set_invalid_def)

lemma utf16_span:
  assumes "mb_ok b"
  shows "fst (pldm__msgbuf_span_string_utf16 b) = - EOVERFLOW \<or>
    (\<exists>n. pldm__msgbuf_span_string_utf16 b = (0, Some (mb_off b, n), mb_advance n b) \<and> int n \<le> mb_remaining b)"
proof (cases "mb_remaining b < 0")
  case False
  let ?w = "bytes_at (mb_mem b) (mb_off b) (nat (mb_remaining b))"
  have "int (e + 2) \<le> mb_remaining b" if "utf16_end ?w 0 = Some e" for e
  proof -
    have "e + 2 \<le> nat (mb_remaining b)"
      using utf16_end_bound [OF that] mb_ok_off [OF assms, of "nat (mb_remaining b)"] False by simp
    then show ?thesis using False by linarith
  qed
  then show ?thesis using assms False
    by (auto simp: pldm__msgbuf_span_string_utf16_def pldm__msgbuf_set_invalid_def Let_def nat_add_distrib split: option.splits)
qed (simp add: pldm__msgbuf_span_string_utf16_def pldm__msgbuf_set_invalid_def)

lemma copied_string:
  assumes "mb_ok dst" "mb_ok src" "msgbuf_op (\<lambda>b. rc_of (span b))"
    and "fst (span src) = - EOVERFLOW \<or> (\<exists>n. span src = (0, Some (mb_off src, n), mb_advance n src) \<and> int n \<le> mb_remaining src)"
    and "(let (rc, sp, src) = span src in
      if rc < 0 then (rc, dst, src)
      else
        let (off, len) = (case sp of None \<Rightarrow> (0, 0) | Some s \<Rightarrow> s);
            (rc, dst) = pldm__msgbuf_insert_array_void dst len (bytes_at (mb_mem src) off len) len
        in (rc, dst, src)) = (rc, dst', src')"
  shows "mb_ok dst' \<and> mb_ok src' \<and> (0 \<le> mb_remaining src' \<and> 0 \<le> mb_remaining dst' \<longleftrightarrow>
    rc = 0 \<and> 0 \<le> mb_remaining src \<and> 0 \<le> mb_remaining dst)"
  using assms(4)
proof
  assume "fst (span src) = - EOVERFLOW"
  then show ?thesis
    using assms(1,2,5) msgbuf_op.op_ok [OF assms(3,2)] msgbuf_op.op_failed [OF assms(3,2)] by (auto simp: rc_of_def split_beta)
next
  assume "\<exists>n. span src = (0, Some (mb_off src, n), mb_advance n src) \<and> int n \<le> mb_remaining src"
  then obtain n where n: "span src = (0, Some (mb_off src, n), mb_advance n src)" "int n \<le> mb_remaining src" by blast
  let ?s = "bytes_at (mb_mem src) (mb_off src) n"
  have "length ?s = n" using mb_ok_off [OF assms(2) n(2)] by simp
  then have op: "msgbuf_op (\<lambda>b. pldm__msgbuf_insert_array_void b n ?s n)" by (intro msgbuf_op_insert_array) simp_all
  have ins: "pldm__msgbuf_insert_array_void dst n ?s n = (rc, dst')" and src: "src' = mb_advance n src"
    using assms(5) n(1) by (auto simp: split_beta mb_advance_def)
  show ?thesis
    using msgbuf_op.op_ok [OF op assms(1)] msgbuf_op.complete_iff [OF op assms(1)] ins src n(2) mb_advance_ok [OF assms(2) n(2)]
    by (auto simp: complete_success)
qed

lemmas ascii_copied = copied_string [OF _ _ msgbuf_op_span_ascii ascii_span, folded pldm_msgbuf_copy_string_ascii_def]
lemmas utf16_copied = copied_string [OF _ _ msgbuf_op_span_utf16 utf16_span, folded pldm_msgbuf_copy_string_utf16_def]

lemma mb_step_ok:
  assumes "both_ok bs" "mb_step s bs = (rc, bs')"
  shows "both_ok bs' \<and> (both_left bs' \<longleftrightarrow> step_accepted s rc \<and> both_left bs)"
proof -
  obtain src dst where bs: "bs = (src, dst)" by (cases bs)
  have ok: "mb_ok src" "mb_ok dst" using assms(1) bs by (simp_all add: both_ok_def)
  show ?thesis
  proof (cases s)
    case (On_src c)
    then show ?thesis using assms(2) ok bs mb_do_ok [OF ok(1), of c] mb_do_complete [OF ok(1), of c]
      by (auto simp: both_ok_def both_left_def split_beta)
  next
    case (On_dst c)
    then show ?thesis using assms(2) ok bs mb_do_ok [OF ok(2), of c] mb_do_complete [OF ok(2), of c]
      by (auto simp: both_ok_def both_left_def split_beta)
  next
    case (Copy n)
    then show ?thesis using assms(2) bs copy_step [OF ok(2,1), of n]
      by (fastforce simp: both_ok_def both_left_def split: prod.splits)
  next
    case CopyAscii
    then show ?thesis using assms(2) bs ascii_copied [OF ok(2,1) ok(1)]
      by (fastforce simp: both_ok_def both_left_def split: prod.splits)
  next
    case CopyUtf16
    then show ?thesis using assms(2) bs utf16_copied [OF ok(2,1) ok(1)]
      by (fastforce simp: both_ok_def both_left_def split: prod.splits)
  qed
qed

lemma mb_run_ok:
  assumes "both_ok bs" "mb_run ss bs = (rcs, bs')"
  shows "both_ok bs' \<and> (both_left bs' \<longleftrightarrow> list_all2 step_accepted ss rcs \<and> both_left bs)"
  using assms
proof (induction ss arbitrary: bs rcs bs')
  case (Cons s ss)
  obtain rc b1 where step: "mb_step s bs = (rc, b1)" by (metis surj_pair)
  obtain rcs1 b2 where run: "mb_run ss b1 = (rcs1, b2)" by (metis surj_pair)
  have "rcs = rc # rcs1" "bs' = b2" using Cons.prems(2) step run by auto
  then show ?case using mb_step_ok [OF Cons.prems(1) step] Cons.IH [OF _ run] by auto
qed simp

lemma mb_ok_init:
  assumes "pldm__msgbuf_init_errno minsize base m len = (0, b)" "len \<le> length m"
  shows "mb_ok b \<and> 0 \<le> mb_remaining b \<and> mb_mem b = m"
  using assms
  by (auto simp: pldm__msgbuf_init_errno_def pldm__msgbuf_set_invalid_def mb_ok_def Let_def
      split: if_splits)

text \<open>
  C1. A codec may put the test of the return codes off to the completion. Whatever sequence of msgbuf calls is made on a source and a
  destination, each set up over an object that holds the bytes it was set up with, and on copies between the two: no
  call reads or writes outside of the objects or trips an assertion on a cursor, and the byte counts never leave the range of
  \<open>intmax_t\<close>. Both completions report success exactly when no call failed; the exceptions are calls refused with \<open>-EINVAL\<close> for their
  arguments (an array with a count that is larger than it, a field that is not open), which leave the msgbuf alone.
\<close>

theorem msgbuf_sequence_safe:
  assumes "pldm__msgbuf_init_errno minsize base m len = (0, src0)" "len \<le> length m"
    and "pldm__msgbuf_init_errno minsize' base' m' len' = (0, dst0)" "len' \<le> length m'"
    and "mb_run actions (src0, dst0) = (rcs, src, dst)"
  shows "\<not> mb_fault src \<and> mb_remaining src \<in> {INTMAX_MIN..INTMAX_MAX} \<and> \<not> mb_fault dst \<and> mb_remaining dst \<in> {INTMAX_MIN..INTMAX_MAX} \<and>
    (fst (pldm_msgbuf_complete src) = 0 \<and> fst (pldm_msgbuf_complete dst) = 0 \<longleftrightarrow> list_all2 step_accepted actions rcs)"
proof -
  have "both_ok (src0, dst0)" "both_left (src0, dst0)"
    using mb_ok_init [OF assms(1,2)] mb_ok_init [OF assms(3,4)] by (simp_all add: both_ok_def both_left_def)
  then show ?thesis
    using mb_run_ok [OF _ assms(5)] by (auto simp: both_ok_def both_left_def complete_success mb_ok_def)
qed

text \<open>A count beyond the array is refused and not seen by the completion; the copy behind it does not fit the destination.\<close>

theorem msgbuf_sequence_safe_witness:
  "\<exists>src0 dst0 rcs src dst. pldm__msgbuf_init_errno 2 4096 [1, 2, 3] 3 = (0, src0) \<and> pldm__msgbuf_init_errno 0 8192 [0] 1 = (0, dst0) \<and>
     mb_run [On_src (Extract8 0), On_src (ExtractArray 2 [0]), Copy 2] (src0, dst0) = (rcs, src, dst) \<and>
     \<not> mb_fault src \<and> \<not> mb_fault dst \<and> rcs = [0, - EINVAL, - EOVERFLOW] \<and>
     \<not> (fst (pldm_msgbuf_complete src) = 0 \<and> fst (pldm_msgbuf_complete dst) = 0)"
proof -
  let ?acts = "[On_src (Extract8 0), On_src (ExtractArray 2 [0]), Copy 2]"
  let ?src = "\<lparr>mb_base = 4096, mb_mem = [1, 2, 3], mb_cursor = Some 0, mb_remaining = 3, mb_fault = False\<rparr>"
  let ?dst = "\<lparr>mb_base = 8192, mb_mem = [0], mb_cursor = Some 0, mb_remaining = 1, mb_fault = False\<rparr>"
  have init: "pldm__msgbuf_init_errno 2 4096 [1, 2, 3] 3 = (0, ?src)" "pldm__msgbuf_init_errno 0 8192 [0] 1 = (0, ?dst)"
    by (simp_all add: pldm__msgbuf_init_errno_def)
  obtain rcs src dst where run: "mb_run ?acts (?src, ?dst) = (rcs, src, dst)" by (metis surj_pair)
  have rcs: "rcs = [0, - EINVAL, - EOVERFLOW]"
    using run
    by (simp add: pldm__msgbuf_extract_uint8_def pldm__msgbuf_extract_array_void_def pldm__msgbuf_copy_def
        msgbuf_extract_def mb_advance_def mb_access_def Let_def split: prod.splits)
  show ?thesis
    using msgbuf_sequence_safe [OF init(1) _ init(2) _ run] init run rcs by (auto simp: accepted_def)
qed

section \<open>UTF-16 strings\<close>

text \<open>
  The reference reading of a UTF-16 string: one code unit (two bytes) at a time, up to the
  first NUL code unit.
\<close>

fun utf16_units :: "u8 list \<Rightarrow> nat option" where
  "utf16_units (a # b # rest) =
     (if a = 0 \<and> b = 0 then Some 0 else map_option Suc (utf16_units rest))"
| "utf16_units _ = None"

definition nul_at :: "u8 list \<Rightarrow> nat \<Rightarrow> bool" where
  "nul_at w i \<longleftrightarrow> take 2 (drop i w) = [0, 0]"

lemma memmem_first: "memmem hay [0, 0] = Some i \<Longrightarrow> nul_at hay i \<and> (\<forall>j<i. \<not> nul_at hay j)"
proof (induction hay arbitrary: i)
  case (Cons x xs)
  show ?case
  proof (cases "take 2 (x # xs) = [0, 0]")
    case True
    with Cons.prems show ?thesis by (simp add: nul_at_def)
  next
    case False
    with Cons.prems obtain k where k: "memmem xs [0, 0] = Some k" "i = Suc k" by auto
    from Cons.IH [OF k(1)] have "nul_at xs k" "\<And>j. j < k \<Longrightarrow> \<not> nul_at xs j" by auto
    with False k(2) show ?thesis
      by (auto simp: nul_at_def less_Suc_eq_0_disj)
  qed
qed simp

lemma memmem_none: "memmem hay [0, 0] = None \<Longrightarrow> \<not> nul_at hay j"
proof (induction hay arbitrary: j)
  case (Cons x xs)
  then show ?case by (cases j) (auto simp: nul_at_def split: if_splits)
qed (simp add: nul_at_def)

lemma utf16_units_skip:
  assumes "\<And>j. j < k \<Longrightarrow> \<not> nul_at w (2 * j)" "2 * k \<le> length w"
  shows "utf16_units w = map_option (\<lambda>m. m + k) (utf16_units (drop (2 * k) w))"
  using assms
proof (induction k arbitrary: w)
  case 0
  then show ?case by (simp add: option.map_ident)
next
  case (Suc k)
  then obtain a b rest where w: "w = a # b # rest"
    by (cases w rule: utf16_units.cases) auto
  have "\<not> (a = 0 \<and> b = 0)" using Suc.prems(1) [of 0] w by (auto simp: nul_at_def)
  moreover have "utf16_units rest = map_option (\<lambda>m. m + k) (utf16_units (drop (2 * k) rest))"
  proof (rule Suc.IH)
    show "\<not> nul_at rest (2 * j)" if "j < k" for j
      using Suc.prems(1) [of "Suc j"] that w by (simp add: nul_at_def)
    show "2 * k \<le> length rest" using Suc.prems(2) w by simp
  qed
  ultimately show ?case using w by (auto simp: option.map_comp comp_def)
qed

lemma utf16_units_hit:
  assumes "nul_at w (2 * k)" "\<And>j. j < k \<Longrightarrow> \<not> nul_at w (2 * j)"
  shows "utf16_units w = Some k"
proof -
  from assms(1) have len: "2 * k + 2 \<le> length w"
    by (auto simp: nul_at_def dest: arg_cong [where f = length])
  obtain rest where "drop (2 * k) w = 0 # 0 # rest"
    using assms(1) by (metis append_Cons append_Nil append_take_drop_id nul_at_def)
  with utf16_units_skip [OF assms(2), of k] len show ?thesis by simp
qed

lemma utf16_units_miss:
  "(\<And>j. \<not> nul_at w (2 * j)) \<Longrightarrow> utf16_units w = None"
proof (induction w rule: utf16_units.induct)
  case (1 a b rest)
  have "\<not> nul_at rest (2 * j)" for j
    using 1(2) [of "Suc j"] by (simp add: nul_at_def)
  with 1(1) 1(2) [of 0] show ?case by (auto simp: nul_at_def)
qed auto

lemma utf16_end_units:
  "even p \<Longrightarrow> utf16_end w p = map_option (\<lambda>k. p + 2 * k) (utf16_units (drop p w))"
proof (induction w p rule: utf16_end.induct)
  case (1 w p)
  show ?case
  proof (cases "memmem (drop p w) [0, 0]")
    case None
    with utf16_units_miss [of "drop p w"] memmem_none [OF None] show ?thesis
      by (simp add: utf16_end.simps [of w p])
  next
    case (Some i)
    note first = memmem_first [OF Some]
    from memmem_bound [OF Some] have bound: "i + 2 \<le> length w - p" by simp
    show ?thesis
    proof (cases "odd (p + i)")
      case True
      with 1(2) have "odd i" by simp
      then obtain k where k: "i + 1 = 2 * k" by (metis dvdE even_Suc Suc_eq_plus1)
      have "utf16_units (drop p w) = map_option (\<lambda>m. m + k) (utf16_units (drop (2 * k) (drop p w)))"
        by (rule utf16_units_skip) (use first k bound in auto)
      moreover have "drop (2 * k) (drop p w) = drop (p + i + 1) w"
      proof -
        have "p + 2 * k = p + i + 1" using k by simp
        then show ?thesis by (simp only: drop_drop add.commute)
      qed
      ultimately have units: "utf16_units (drop p w) =
          map_option (\<lambda>m. m + k) (utf16_units (drop (p + i + 1) w))" by simp
      have "utf16_end w (p + i + 1) =
          map_option (\<lambda>m. p + i + 1 + 2 * m) (utf16_units (drop (p + i + 1) w))"
        by (rule 1(1) [OF Some True]) (use True in simp)
      with Some True units k show ?thesis
        by (cases "utf16_units (drop (p + i + 1) w)") (simp_all add: utf16_end.simps [of w p])
    next
      case False
      with 1(2) obtain k where "i = 2 * k" by (auto elim: evenE)
      with first utf16_units_hit [of "drop p w" k] have "utf16_units (drop p w) = Some k" by auto
      with Some False \<open>i = 2 * k\<close> show ?thesis by (simp add: utf16_end.simps [of w p])
    qed
  qed
qed

text \<open>
  C2. The UTF-16 span agrees with reading the unread bytes one code unit at a time: it ends
  right behind the first NUL code unit, never at a NUL pair that straddles two code units,
  and it fails, invalidating the buffer, exactly when no NUL code unit is left.
\<close>

theorem span_string_utf16_code_units:
  assumes "mb_ok b" and "0 \<le> mb_remaining b"
  shows "(case utf16_units (bytes_at (mb_mem b) (mb_off b) (nat (mb_remaining b))) of
      None \<Rightarrow> pldm__msgbuf_span_string_utf16 b = (- EOVERFLOW, None, b\<lparr>mb_remaining := INTMAX_MIN\<rparr>)
    | Some k \<Rightarrow> pldm__msgbuf_span_string_utf16 b =
        (0, Some (mb_off b, 2 * k + 2), mb_advance (2 * k + 2) b))"
proof -
  let ?w = "bytes_at (mb_mem b) (mb_off b) (nat (mb_remaining b))"
  have len: "length ?w = nat (mb_remaining b)"
    using mb_ok_off [OF assms(1), of "nat (mb_remaining b)"] assms(2) by simp
  have "utf16_end ?w 0 = map_option (\<lambda>k. 2 * k) (utf16_units ?w)"
    using utf16_end_units [of 0 ?w] by simp
  then show ?thesis
    using assms utf16_end_bound [of ?w 0] len
    by (cases "utf16_units ?w")
      (auto simp: pldm__msgbuf_span_string_utf16_def Let_def pldm__msgbuf_set_invalid_def
        nat_add_distrib nat_mult_distrib)
qed

theorem span_string_utf16_code_units_witness:
  "fst (pldm__msgbuf_span_string_utf16
     \<lparr>mb_base = 0, mb_mem = [65, 0, 0, 1, 0, 0, 7], mb_cursor = Some 0, mb_remaining = 7,
      mb_fault = False\<rparr>) = 0"
  using span_string_utf16_code_units
    [of "\<lparr>mb_base = 0, mb_mem = [65, 0, 0, 1, 0, 0, 7], mb_cursor = Some 0, mb_remaining = 7,
         mb_fault = False\<rparr>"]
  by (simp add: mb_ok_def mb_off_def bytes_at_def)

end
