(* ===== verification/Msgbuf_Eval.thy ===== *)
theory Msgbuf_Eval
  imports Msgbuf_Contract
begin

text \<open>
  Symbolic evaluation of codecs: what each msgbuf operation does to a live msgbuf with enough
  bytes left. The rules are collected in \<open>mb_simps\<close>; with them an encoder simplifies to the
  bytes it writes and a decoder to the fields it reads. The locale \<open>msgbuf_field\<close> states
  the contract of one field type, an inserter and an extractor that agree on the wire
  form of a value.
\<close>

definition live_mb :: "nat \<Rightarrow> u8 list \<Rightarrow> nat \<Rightarrow> int \<Rightarrow> msgbuf" where
  "live_mb a m c r =
     \<lparr>mb_base = a, mb_mem = m, mb_cursor = Some c, mb_remaining = r, mb_fault = False\<rparr>"

definition dead_mb :: "nat \<Rightarrow> u8 list \<Rightarrow> msgbuf" where
  "dead_mb a m =
     \<lparr>mb_base = a, mb_mem = m, mb_cursor = None, mb_remaining = INTMAX_MIN, mb_fault = False\<rparr>"

lemma live_mb_sel [mb_simps]:
  "mb_base (live_mb a m c r) = a" "mb_mem (live_mb a m c r) = m"
  "mb_cursor (live_mb a m c r) = Some c" "mb_remaining (live_mb a m c r) = r"
  "mb_fault (live_mb a m c r) = False" "mb_off (live_mb a m c r) = c"
  by (simp_all add: live_mb_def mb_off_def)

lemma dead_mb_sel [mb_simps]:
  "mb_mem (dead_mb a m) = m" "mb_remaining (dead_mb a m) = INTMAX_MIN"
  "mb_fault (dead_mb a m) = False"
  by (simp_all add: dead_mb_def)

lemma dead_mb_cleanup: "pldm__msgbuf_cleanup (dead_mb a m)"
  by (simp add: dead_mb_def pldm__msgbuf_cleanup_def)

lemma live_mb_access: "c + n \<le> length m \<Longrightarrow> mb_access n (live_mb a m c r) = live_mb a m c r"
  by (simp add: mb_access_def live_mb_def)

lemma live_mb_advance: "mb_advance n (live_mb a m c r) = live_mb a m (c + n) (r - int n)"
  by (simp add: mb_advance_def live_mb_def)

lemma live_mb_mem: "(live_mb a m c r)\<lparr>mb_mem := m'\<rparr> = live_mb a m' c r"
  by (simp add: live_mb_def)

lemmas live_mb_step = live_mb_sel live_mb_access live_mb_advance live_mb_mem

section \<open>Set-up and completion\<close>

lemma init_errno_short [mb_simps]:
  "len < minsize \<Longrightarrow> pldm__msgbuf_init_errno minsize a m len = (- EOVERFLOW, dead_mb a m)"
  by (simp add: pldm__msgbuf_init_errno_def pldm__msgbuf_set_invalid_def dead_mb_def)

lemma init_errno_live [mb_simps]:
  assumes "minsize \<le> len" "int len \<le> INTMAX_MAX" "a + len \<le> UINTPTR_MAX"
  shows "pldm__msgbuf_init_errno minsize a m len = (0, live_mb a m 0 (int len))"
  using assms by (auto simp: pldm__msgbuf_init_errno_def live_mb_def Let_def)

lemma init_errno_cases:
  "pldm__msgbuf_init_errno minsize a m len = (- EOVERFLOW, dead_mb a m) \<or>
   (minsize \<le> len \<and> pldm__msgbuf_init_errno minsize a m len = (0, live_mb a m 0 (int len)))"
  by (auto simp: pldm__msgbuf_init_errno_def pldm__msgbuf_set_invalid_def dead_mb_def
      live_mb_def Let_def)

lemma complete_live [mb_simps]:
  "pldm_msgbuf_complete (live_mb a m c r) = (if r < 0 then - EOVERFLOW else 0, dead_mb a m)"
  by (simp add: pldm_msgbuf_complete_def pldm__msgbuf_discard_def pldm__msgbuf_validate_def
      pldm__msgbuf_set_invalid_def live_mb_def dead_mb_def)

lemma complete_consumed_live [mb_simps]:
  "pldm_msgbuf_complete_consumed (live_mb a m c r) =
     (if r > 0 then - EBADMSG else if r < 0 then - EOVERFLOW else 0, dead_mb a m)"
  by (simp add: pldm_msgbuf_complete_consumed_def pldm__msgbuf_discard_def
      pldm__msgbuf_consumed_def pldm__msgbuf_set_invalid_def live_mb_def dead_mb_def)

lemma complete_used_live [mb_simps]:
  "0 \<le> r \<Longrightarrow> nat r \<le> orig \<Longrightarrow>
     pldm_msgbuf_complete_used (live_mb a m c r) orig u = (0, orig - nat r, dead_mb a m)"
  by (simp add: pldm_msgbuf_complete_used_def pldm__msgbuf_validate_def
      pldm__msgbuf_set_invalid_def live_mb_def dead_mb_def)

lemma discard_live [mb_simps]: "pldm__msgbuf_discard (live_mb a m c r) e = (e, dead_mb a m)"
  by (simp add: pldm__msgbuf_discard_def pldm__msgbuf_set_invalid_def live_mb_def dead_mb_def)

section \<open>Fields\<close>

locale msgbuf_field =
  fixes ins :: "msgbuf \<Rightarrow> 'v \<Rightarrow> int \<times> msgbuf"
    and ext :: "msgbuf \<Rightarrow> 'v \<Rightarrow> int \<times> 'v \<times> msgbuf"
    and enc :: "'v \<Rightarrow> u8 list"
    and dec :: "u8 list \<Rightarrow> 'v"
    and width :: nat
  assumes enc_width: "length (enc v) = width"
    and dec_enc: "dec (enc v) = v"
    and ins_live: "int width \<le> r \<Longrightarrow> c + width \<le> length m \<Longrightarrow>
      ins (live_mb a m c r) v = (0, live_mb a (poke m c (enc v)) (c + width) (r - int width))"
    and ext_live: "int width \<le> r \<Longrightarrow> c + width \<le> length m \<Longrightarrow>
      ext (live_mb a m c r) d =
        (0, dec (bytes_at m c width), live_mb a m (c + width) (r - int width))"
begin

text \<open>A field that was written is read back from the same place.\<close>

lemma written_then_read:
  assumes "int width \<le> r" "c + width \<le> length m"
  shows "ext (live_mb a (mb_mem (snd (ins (live_mb a m c r) v))) c r) d =
    (0, v, snd (ins (live_mb a m c r) v))"
proof -
  have "bytes_at (poke m c (enc v)) c width = enc v"
    using assms enc_width [of v] bytes_at_poke [of c c width "enc v" m] by simp
  moreover have "c + width \<le> length (poke m c (enc v))"
    using assms enc_width [of v] by simp
  ultimately show ?thesis
    using assms by (simp add: ins_live live_mb_sel ext_live dec_enc)
qed

end

lemma msgbuf_field_word:
  assumes "8 dvd LENGTH('a)"
  shows "msgbuf_field msgbuf_insert msgbuf_extract
    (le_of_word :: 'a::len word \<Rightarrow> u8 list) word_of_le (LENGTH('a) div 8)"
  using assms
  by unfold_locales (simp_all add: msgbuf_insert_def msgbuf_extract_def Let_def live_mb_step)

interpretation uint8: msgbuf_field pldm_msgbuf_insert_uint8 pldm__msgbuf_extract_uint8
    "le_of_word :: u8 \<Rightarrow> u8 list" word_of_le 1
  unfolding pldm_msgbuf_insert_uint8_def pldm__msgbuf_extract_uint8_def
  using msgbuf_field_word [where 'a = 8] by simp

interpretation uint16: msgbuf_field pldm_msgbuf_insert_uint16 pldm__msgbuf_extract_uint16
    "le_of_word :: u16 \<Rightarrow> u8 list" word_of_le 2
  unfolding pldm_msgbuf_insert_uint16_def pldm__msgbuf_extract_uint16_def
  using msgbuf_field_word [where 'a = 16] by simp

interpretation uint32: msgbuf_field pldm_msgbuf_insert_uint32 pldm__msgbuf_extract_uint32
    "le_of_word :: u32 \<Rightarrow> u8 list" word_of_le 4
  unfolding pldm_msgbuf_insert_uint32_def pldm__msgbuf_extract_uint32_def
  using msgbuf_field_word [where 'a = 32] by simp

interpretation uint64: msgbuf_field pldm_msgbuf_insert_uint64 pldm__msgbuf_extract_uint64
    "le_of_word :: u64 \<Rightarrow> u8 list" word_of_le 8
  unfolding pldm_msgbuf_insert_uint64_def pldm__msgbuf_extract_uint64_def
  using msgbuf_field_word [where 'a = 64] by simp

lemmas field_live [mb_simps] =
  uint8.ins_live uint8.ext_live uint16.ins_live uint16.ext_live
  uint32.ins_live uint32.ext_live uint64.ins_live uint64.ext_live

text \<open>A field that does not fit leaves a negative count behind.\<close>

lemma extract_overflow_live:
  assumes "r < int (LENGTH('a) div 8)" "INTMAX_MIN + int (LENGTH('a) div 8) < r"
  shows "msgbuf_extract (live_mb a m c r) (d :: 'a::len word) =
    (- EOVERFLOW, d, live_mb a m c (r - int (LENGTH('a) div 8)))"
  using assms by (simp add: msgbuf_extract_def Let_def mb_overflow_def live_mb_def)

lemma field_overflow [mb_simps]:
  "r < 1 \<Longrightarrow> INTMAX_MIN + 1 < r \<Longrightarrow>
     pldm__msgbuf_extract_uint8 (live_mb a m c r) d8 = (- EOVERFLOW, d8, live_mb a m c (r - 1))"
  "r < 2 \<Longrightarrow> INTMAX_MIN + 2 < r \<Longrightarrow>
     pldm__msgbuf_extract_uint16 (live_mb a m c r) d16 = (- EOVERFLOW, d16, live_mb a m c (r - 2))"
  "r < 4 \<Longrightarrow> INTMAX_MIN + 4 < r \<Longrightarrow>
     pldm__msgbuf_extract_uint32 (live_mb a m c r) d32 = (- EOVERFLOW, d32, live_mb a m c (r - 4))"
  using extract_overflow_live [where 'a = 8] extract_overflow_live [where 'a = 16]
    extract_overflow_live [where 'a = 32]
  by (simp_all add: pldm__msgbuf_extract_uint8_def pldm__msgbuf_extract_uint16_def
      pldm__msgbuf_extract_uint32_def)

section \<open>Arrays and spans\<close>

lemma insert_array_live [mb_simps]:
  assumes "count \<le> src_count" "count \<le> length src" "int count \<le> r" "r \<le> INTMAX_MAX"
    "c + count \<le> length m"
  shows "pldm__msgbuf_insert_array_void (live_mb a m c r) count src src_count =
    (0, live_mb a (poke m c (take count src)) (c + count) (r - int count))"
  using assms
  by (auto simp: pldm__msgbuf_insert_array_void_def mb_access_def mb_off_def live_mb_def
      mb_advance_def)

lemma extract_array_live [mb_simps]:
  assumes "count \<le> dst_count" "length dst = count" "int count \<le> r" "r \<le> INTMAX_MAX"
    "c + count \<le> length m"
  shows "pldm__msgbuf_extract_array_void (live_mb a m c r) count dst dst_count =
    (0, bytes_at m c count, live_mb a m (c + count) (r - int count))"
  using assms
  by (auto simp: pldm__msgbuf_extract_array_void_def live_mb_step poke_def bytes_at_def)

lemma span_required_live [mb_simps]:
  assumes "int n \<le> r" "r \<le> INTMAX_MAX" "c + n \<le> length m"
  shows "pldm__msgbuf_span_required (live_mb a m c r) n =
    (0, Some c, live_mb a m (c + n) (r - int n))"
  using assms by (auto simp: pldm__msgbuf_span_required_def live_mb_step)

lemma extract_uint32_to_size_live [mb_simps]:
  assumes "4 \<le> r" "c + 4 \<le> length m"
  shows "pldm__msgbuf_extract_uint32_to_size (live_mb a m c r) d =
    (0, unat (word_of_le (bytes_at m c 4) :: u32), live_mb a m (c + 4) (r - 4))"
  using assms by (simp add: pldm__msgbuf_extract_uint32_to_size_def mb_simps)

lemma skip_live [mb_simps]:
  assumes "int n \<le> r" "r \<le> INTMAX_MAX" "c + n \<le> length m"
  shows "pldm_msgbuf_skip (live_mb a m c r) n = (0, live_mb a m (c + n) (r - int n))"
  using assms by (auto simp: pldm_msgbuf_skip_def live_mb_step)

end
