(* ===== verification/Base_Header.thy ===== *)
theory Base_Header
  imports Msgbuf_Eval "HOL-Library.Monad_Syntax"
begin

text \<open>
  PLDM messages and their header: the data model of \<^verbatim>\<open>include/libpldm/base.h\<close>, packing and
  unpacking of the header (\<^verbatim>\<open>src/dsp/base.c\<close>), the translation of errno values to completion
  codes (\<^verbatim>\<open>src/api.h\<close>), request/response correlation and the printing of versions.

  From here on a function that can reach undefined behaviour (a failed \<open>assert\<close>, an access
  outside an object) returns an \<open>option\<close>, and \<open>None\<close> stands for it; the theorems show when
  it cannot happen.
\<close>

section \<open>Constants\<close>

abbreviation (input) PLDM_BASE :: "'a::zero" where "PLDM_BASE \<equiv> 0"
abbreviation (input) PLDM_FWUP :: "'a::numeral" where "PLDM_FWUP \<equiv> 5"
abbreviation (input) PLDM_FILE :: "'a::numeral" where "PLDM_FILE \<equiv> 7"

abbreviation (input) PLDM_SET_TID :: "'a::one" where "PLDM_SET_TID \<equiv> 1"
abbreviation (input) PLDM_GET_TID :: "'a::numeral" where "PLDM_GET_TID \<equiv> 2"
abbreviation (input) PLDM_GET_PLDM_VERSION :: "'a::numeral" where "PLDM_GET_PLDM_VERSION \<equiv> 3"
abbreviation (input) PLDM_GET_PLDM_TYPES :: "'a::numeral" where "PLDM_GET_PLDM_TYPES \<equiv> 4"
abbreviation (input) PLDM_GET_PLDM_COMMANDS :: "'a::numeral" where "PLDM_GET_PLDM_COMMANDS \<equiv> 5"
abbreviation (input) PLDM_NEGOTIATE_TRANSFER_PARAMETERS :: "'a::numeral"
  where "PLDM_NEGOTIATE_TRANSFER_PARAMETERS \<equiv> 7"
abbreviation (input) PLDM_MULTIPART_SEND :: "'a::numeral" where "PLDM_MULTIPART_SEND \<equiv> 8"
abbreviation (input) PLDM_MULTIPART_RECEIVE :: "'a::numeral" where "PLDM_MULTIPART_RECEIVE \<equiv> 9"

abbreviation (input) PLDM_SUCCESS :: "'a::zero" where "PLDM_SUCCESS \<equiv> 0"
abbreviation (input) PLDM_ERROR :: "'a::one" where "PLDM_ERROR \<equiv> 1"
abbreviation (input) PLDM_ERROR_INVALID_DATA :: "'a::numeral" where "PLDM_ERROR_INVALID_DATA \<equiv> 2"
abbreviation (input) PLDM_ERROR_INVALID_LENGTH :: "'a::numeral"
  where "PLDM_ERROR_INVALID_LENGTH \<equiv> 3"
abbreviation (input) PLDM_ERROR_NOT_READY :: "'a::numeral" where "PLDM_ERROR_NOT_READY \<equiv> 4"
abbreviation (input) PLDM_ERROR_UNSUPPORTED_PLDM_CMD :: "'a::numeral"
  where "PLDM_ERROR_UNSUPPORTED_PLDM_CMD \<equiv> 5"
abbreviation (input) PLDM_ERROR_INVALID_PLDM_TYPE :: "'a::numeral"
  where "PLDM_ERROR_INVALID_PLDM_TYPE \<equiv> 0x20"

abbreviation (input) PLDM_RESPONSE :: "'a::zero" where "PLDM_RESPONSE \<equiv> 0"
abbreviation (input) PLDM_REQUEST :: "'a::one" where "PLDM_REQUEST \<equiv> 1"
abbreviation (input) PLDM_ASYNC_REQUEST_NOTIFY :: "'a::numeral"
  where "PLDM_ASYNC_REQUEST_NOTIFY \<equiv> 3"

abbreviation (input) PLDM_INSTANCE_MAX :: "'a::numeral" where "PLDM_INSTANCE_MAX \<equiv> 31"
abbreviation (input) PLDM_MAX_TYPES :: "'a::numeral" where "PLDM_MAX_TYPES \<equiv> 64"

section \<open>Messages\<close>

text \<open>
  \<open>struct pldm_msg_hdr\<close>: bit-fields at their widths. Both bit-field orders of the header
  file give the byte layout of \<open>hdr_bytes\<close>.
\<close>

record pldm_msg_hdr =
  h_instance_id :: "5 word"
  h_reserved :: "1 word"
  h_datagram :: "1 word"
  h_request :: "1 word"
  h_type :: "6 word"
  h_header_ver :: "2 word"
  h_command :: u8

definition hdr_bytes :: "pldm_msg_hdr \<Rightarrow> u8 list" where
  "hdr_bytes h =
     [ucast (h_instance_id h) OR push_bit 5 (ucast (h_reserved h)) OR
        push_bit 6 (ucast (h_datagram h)) OR push_bit 7 (ucast (h_request h)),
      ucast (h_type h) OR push_bit 6 (ucast (h_header_ver h)),
      h_command h]"

definition hdr_of_bytes :: "u8 \<Rightarrow> u8 \<Rightarrow> u8 \<Rightarrow> pldm_msg_hdr" where
  "hdr_of_bytes b0 b1 b2 =
     \<lparr>h_instance_id = ucast b0, h_reserved = ucast (drop_bit 5 b0),
      h_datagram = ucast (drop_bit 6 b0), h_request = ucast (drop_bit 7 b0),
      h_type = ucast b1, h_header_ver = ucast (drop_bit 6 b1), h_command = b2\<rparr>"

text \<open>
  \<open>struct pldm_msg\<close>: the header and the payload, a byte object of some size at some address.
\<close>

record pldm_msg =
  m_hdr :: pldm_msg_hdr
  m_addr :: nat
  m_payload :: "u8 list"

record pldm_header_info =
  hi_msg_type :: u8
  hi_instance :: u8
  hi_pldm_type :: u8
  hi_command :: u8
  hi_completion_code :: u8

definition header_zero :: pldm_header_info where
  "header_zero = \<lparr>hi_msg_type = 0, hi_instance = 0, hi_pldm_type = 0, hi_command = 0,
                  hi_completion_code = 0\<rparr>"

section \<open>Packing and unpacking the header\<close>

fun pack_pldm_header_errno ::
    "pldm_header_info option \<Rightarrow> pldm_msg_hdr option \<Rightarrow> int \<times> pldm_msg_hdr option" where
  "pack_pldm_header_errno (Some hdr) (Some msg) =
     (if hi_msg_type hdr \<noteq> PLDM_RESPONSE \<and> hi_msg_type hdr \<noteq> PLDM_REQUEST \<and>
         hi_msg_type hdr \<noteq> PLDM_ASYNC_REQUEST_NOTIFY then (- EINVAL, Some msg)
      else if hi_instance hdr > PLDM_INSTANCE_MAX then (- EINVAL, Some msg)
      else if hi_pldm_type hdr > PLDM_MAX_TYPES - 1 then (- ENOMSG, Some msg)
      else
        let datagram = (if hi_msg_type hdr = PLDM_ASYNC_REQUEST_NOTIFY then 1 else 0);
            msg = (if hi_msg_type hdr = PLDM_RESPONSE then msg\<lparr>h_request := PLDM_RESPONSE\<rparr>
                   else if hi_msg_type hdr = PLDM_REQUEST \<or>
                           hi_msg_type hdr = PLDM_ASYNC_REQUEST_NOTIFY
                   then msg\<lparr>h_request := PLDM_REQUEST\<rparr> else msg)
        in (0, Some (msg\<lparr>h_datagram := datagram, h_reserved := 0,
                         h_instance_id := ucast (hi_instance hdr), h_header_ver := 0,
                         h_type := ucast (hi_pldm_type hdr), h_command := hi_command hdr\<rparr>)))"
| "pack_pldm_header_errno _ msg = (- EINVAL, msg)"

fun unpack_pldm_header_errno ::
    "pldm_msg_hdr option \<Rightarrow> pldm_header_info \<Rightarrow> int \<times> pldm_header_info" where
  "unpack_pldm_header_errno None hdr = (- EINVAL, hdr)"
| "unpack_pldm_header_errno (Some msg) hdr =
     (0, hdr\<lparr>hi_msg_type := (if h_request msg = PLDM_RESPONSE then PLDM_RESPONSE
                             else if h_datagram msg \<noteq> 0 then PLDM_ASYNC_REQUEST_NOTIFY
                             else PLDM_REQUEST),
             hi_instance := ucast (h_instance_id msg), hi_pldm_type := ucast (h_type msg),
             hi_command := h_command msg\<rparr>)"

text \<open>\<open>pldm_xlate_errno\<close>: the errno values it does not know fail its assertion.\<close>

definition pldm_xlate_errno :: "int \<Rightarrow> u8 option" where
  "pldm_xlate_errno err =
     (if err = - EBADMSG \<or> err = - EINVAL \<or> err = - EPROTO \<or> err = - EUCLEAN
      then Some PLDM_ERROR_INVALID_DATA
      else if err = - ENOMSG then Some PLDM_ERROR_INVALID_PLDM_TYPE
      else if err = - EOVERFLOW then Some PLDM_ERROR_INVALID_LENGTH
      else if err = - ENOTSUP then Some PLDM_ERROR
      else None)"

definition pack_pldm_header ::
    "pldm_header_info option \<Rightarrow> pldm_msg_hdr option \<Rightarrow> (u8 \<times> pldm_msg_hdr option) option" where
  "pack_pldm_header hdr msg =
     (let (rc, msg) = pack_pldm_header_errno hdr msg in
      if rc = 0 then Some (PLDM_SUCCESS, msg)
      else do { cc \<leftarrow> pldm_xlate_errno rc; Some (cc, msg) })"

definition unpack_pldm_header ::
    "pldm_msg_hdr option \<Rightarrow> pldm_header_info \<Rightarrow> (u8 \<times> pldm_header_info) option" where
  "unpack_pldm_header msg hdr =
     (let (rc, hdr) = unpack_pldm_header_errno msg hdr in
      if rc = 0 then Some (PLDM_SUCCESS, hdr)
      else do { cc \<leftarrow> pldm_xlate_errno rc; Some (cc, hdr) })"

text \<open>Packing into the header of a message, \<open>&msg->hdr\<close>.\<close>

definition msg_pack_errno :: "pldm_header_info \<Rightarrow> pldm_msg \<Rightarrow> int \<times> pldm_msg" where
  "msg_pack_errno header msg =
     (case pack_pldm_header_errno (Some header) (Some (m_hdr msg)) of
        (rc, Some h) \<Rightarrow> (rc, msg\<lparr>m_hdr := h\<rparr>) | (rc, None) \<Rightarrow> (rc, msg))"

definition msg_pack :: "pldm_header_info \<Rightarrow> pldm_msg \<Rightarrow> (u8 \<times> pldm_msg) option" where
  "msg_pack header msg =
     do { (rc, h) \<leftarrow> pack_pldm_header (Some header) (Some (m_hdr msg));
          Some (rc, case h of Some h \<Rightarrow> msg\<lparr>m_hdr := h\<rparr> | None \<Rightarrow> msg) }"

definition pldm_msg_hdr_correlate_response :: "pldm_msg_hdr \<Rightarrow> pldm_msg_hdr \<Rightarrow> bool" where
  "pldm_msg_hdr_correlate_response req resp \<longleftrightarrow>
     h_instance_id req = h_instance_id resp \<and> h_request req \<noteq> 0 \<and> h_request resp = 0 \<and>
     h_type req = h_type resp \<and> h_command req = h_command resp"

fun pldm_msg_has_error :: "pldm_msg \<Rightarrow> nat \<Rightarrow> u8 option" where
  "pldm_msg_has_error msg payload_length =
     (if payload_length < 1 then Some 0
      else if m_payload msg = [] then None else Some (m_payload msg ! 0))"

definition encode_pldm_header_only_errno ::
    "u8 \<Rightarrow> u8 \<Rightarrow> u8 \<Rightarrow> u8 \<Rightarrow> pldm_msg option \<Rightarrow> int \<times> pldm_msg option" where
  "encode_pldm_header_only_errno msg_type instance_id pldm_type command msg =
     (case msg of
        None \<Rightarrow> (- EINVAL, None)
      | Some m \<Rightarrow>
          let header = header_zero\<lparr>hi_msg_type := msg_type, hi_instance := instance_id,
                                   hi_pldm_type := pldm_type, hi_command := command\<rparr>;
              (rc, m) = msg_pack_errno header m
          in (rc, Some m))"

definition encode_pldm_header_only ::
    "u8 \<Rightarrow> u8 \<Rightarrow> u8 \<Rightarrow> u8 \<Rightarrow> pldm_msg option \<Rightarrow> (int \<times> pldm_msg option) option" where
  "encode_pldm_header_only msg_type instance_id pldm_type command msg =
     (let (rc, msg) = encode_pldm_header_only_errno msg_type instance_id pldm_type command msg in
      if rc \<noteq> 0 then do { cc \<leftarrow> pldm_xlate_errno rc; Some (uint cc, msg) }
      else Some (PLDM_SUCCESS, msg))"

section \<open>Printing versions\<close>

record ver32 =
  v_alpha :: u8
  v_update :: u8
  v_minor :: u8
  v_major :: u8

text \<open>
  \<open>INSERT_CHAR\<close> writes a character while more than one byte is left, keeping one for the
  terminator; the state is the text written so far and the bytes left.
\<close>

definition insert_char :: "u8 \<Rightarrow> u8 list \<times> int \<Rightarrow> u8 list \<times> int" where
  "insert_char c s = (if snd s > 1 then (fst s @ [c], snd s - 1) else s)"

definition insert_int :: "u8 \<Rightarrow> u8 list \<times> int \<Rightarrow> u8 list \<times> int" where
  "insert_int d = insert_char (d + 0x30)"

definition bcd_h :: "u8 \<Rightarrow> u8" where "bcd_h v = drop_bit 4 v AND 0xf"

definition bcd_l :: "u8 \<Rightarrow> u8" where "bcd_l v = v AND 0xf"

text \<open>
  \<open>buffer\<close> holds the bytes of the caller's buffer, \<open>None\<close> for NULL; the result is the return
  value and the buffer after the call, \<open>None\<close> when a write would leave the buffer.
\<close>

definition pldm_base_ver2str ::
    "ver32 option \<Rightarrow> u8 list option \<Rightarrow> nat \<Rightarrow> (int \<times> u8 list option) option" where
  "pldm_base_ver2str version buffer buffer_size =
     (case (version, buffer) of
        (Some v, Some buf) \<Rightarrow>
          if buffer_size = 0 then Some (- 1, buffer)
          else if buffer_size > SSIZE_MAX then Some (- 1, buffer)
          else
            let s = ([], int buffer_size);
                s = (if v_major v < 0xf0 then insert_int (bcd_h (v_major v)) s else s);
                s = insert_int (bcd_l (v_major v)) s;
                s = insert_char 0x2e s;
                s = (if v_minor v < 0xf0 then insert_int (bcd_h (v_minor v)) s else s);
                s = insert_int (bcd_l (v_minor v)) s;
                s = (if v_update v < 0xff then
                       let s = insert_char 0x2e s;
                           s = (if v_update v < 0xf0 then insert_int (bcd_h (v_update v)) s else s)
                       in insert_int (bcd_l (v_update v)) s
                     else s);
                s = (if v_alpha v \<noteq> 0 then insert_char (v_alpha v) s else s);
                out = fst s @ [0]
            in if length out \<le> length buf
               then Some (int buffer_size - snd s, Some (poke buf 0 out)) else None
      | _ \<Rightarrow> Some (- 1, buffer))"

section \<open>Header round trip\<close>

lemma ucast_ucast_up [simp]:
  assumes "unat (x :: 'b::len word) < 2 ^ LENGTH('a::len)"
  shows "ucast (ucast x :: 'a word) = x"
proof -
  have "take_bit LENGTH('a) (unat x) = unat x"
    using assms by (simp add: take_bit_nat_eq_self)
  then show ?thesis by (simp add: word_unat_eq_iff unsigned_ucast_eq unsigned_take_bit_eq)
qed

lemma hdr_of_hdr_bytes:
  assumes "hdr_bytes h = [b0, b1, b2]"
  shows "hdr_of_bytes b0 b1 b2 = h"
proof -
  have b: "b0 = ucast (h_instance_id h) OR push_bit 5 (ucast (h_reserved h)) OR
        push_bit 6 (ucast (h_datagram h)) OR push_bit 7 (ucast (h_request h))"
      "b1 = ucast (h_type h) OR push_bit 6 (ucast (h_header_ver h))" "b2 = h_command h"
    using assms by (simp_all add: hdr_bytes_def)
  have "ucast b0 = h_instance_id h" "ucast (drop_bit 5 b0) = h_reserved h"
      "ucast (drop_bit 6 b0) = h_datagram h" "ucast (drop_bit 7 b0) = h_request h"
      "ucast b1 = h_type h" "ucast (drop_bit 6 b1) = h_header_ver h"
    unfolding b by (rule bit_eqI; auto simp: bit_simps dest: bit_imp_le_length)+
  then show ?thesis using b(3) by (simp add: hdr_of_bytes_def)
qed

lemma pack_errno_fields:
  assumes "hi_msg_type hdr \<in> {PLDM_RESPONSE, PLDM_REQUEST, PLDM_ASYNC_REQUEST_NOTIFY}"
    and "hi_instance hdr \<le> PLDM_INSTANCE_MAX" "hi_pldm_type hdr \<le> PLDM_MAX_TYPES - 1"
  shows "pack_pldm_header_errno (Some hdr) (Some msg) =
    (0, Some \<lparr>h_instance_id = ucast (hi_instance hdr), h_reserved = 0,
       h_datagram = (if hi_msg_type hdr = PLDM_ASYNC_REQUEST_NOTIFY then 1 else 0),
       h_request = (if hi_msg_type hdr = PLDM_RESPONSE then 0 else 1),
       h_type = ucast (hi_pldm_type hdr), h_header_ver = 0, h_command = hi_command hdr\<rparr>)"
  using assms by (cases msg) (auto simp: Let_def word_le_nat_alt word_less_nat_alt)

lemma pack_errno_ok_iff:
  "fst (pack_pldm_header_errno (Some hdr) (Some msg)) = 0 \<longleftrightarrow>
     hi_msg_type hdr \<in> {PLDM_RESPONSE, PLDM_REQUEST, PLDM_ASYNC_REQUEST_NOTIFY} \<and>
     hi_instance hdr \<le> PLDM_INSTANCE_MAX \<and> hi_pldm_type hdr \<le> PLDM_MAX_TYPES - 1"
  by (auto simp: Let_def word_le_nat_alt word_less_nat_alt)

text \<open>
  C3. What is packed into a header is what the receiver unpacks from its three bytes on the
  wire: message type, instance id, PLDM type and command survive, and packing succeeds for
  exactly the headers whose fields fit their bits.
\<close>

theorem header_roundtrip:
  assumes "pack_pldm_header_errno (Some hdr) (Some msg) = (0, Some h)"
    and "hdr_bytes h = [b0, b1, b2]"
  shows "unpack_pldm_header_errno (Some (hdr_of_bytes b0 b1 b2)) out =
    (0, out\<lparr>hi_msg_type := hi_msg_type hdr, hi_instance := hi_instance hdr,
            hi_pldm_type := hi_pldm_type hdr, hi_command := hi_command hdr\<rparr>)"
proof -
  have range: "hi_msg_type hdr \<in> {PLDM_RESPONSE, PLDM_REQUEST, PLDM_ASYNC_REQUEST_NOTIFY}"
      "hi_instance hdr \<le> PLDM_INSTANCE_MAX" "hi_pldm_type hdr \<le> PLDM_MAX_TYPES - 1"
    using pack_errno_ok_iff [of hdr msg] assms(1) by simp_all
  have fits: "unat (hi_instance hdr) < 2 ^ LENGTH(5)" "unat (hi_pldm_type hdr) < 2 ^ LENGTH(6)"
    using range(2,3) by (simp_all add: word_le_nat_alt)
  have "h = \<lparr>h_instance_id = ucast (hi_instance hdr), h_reserved = 0,
       h_datagram = (if hi_msg_type hdr = PLDM_ASYNC_REQUEST_NOTIFY then 1 else 0),
       h_request = (if hi_msg_type hdr = PLDM_RESPONSE then 0 else 1),
       h_type = ucast (hi_pldm_type hdr), h_header_ver = 0, h_command = hi_command hdr\<rparr>"
    using assms(1) pack_errno_fields [OF range, of msg] by simp
  then show ?thesis
    using hdr_of_hdr_bytes [OF assms(2)] range(1) ucast_ucast_up [OF fits(1)]
      ucast_ucast_up [OF fits(2)]
    by auto
qed

theorem header_roundtrip_witness:
  "\<exists>h b0 b1 b2. pack_pldm_header_errno
       (Some (header_zero\<lparr>hi_msg_type := PLDM_ASYNC_REQUEST_NOTIFY, hi_instance := 21,
                          hi_pldm_type := 63, hi_command := 0xfe\<rparr>))
       (Some (hdr_of_bytes 0xff 0xff 0xff)) = (0, Some h) \<and> hdr_bytes h = [b0, b1, b2] \<and>
     hi_instance (snd (unpack_pldm_header_errno (Some (hdr_of_bytes b0 b1 b2)) header_zero)) = 21"
proof -
  let ?hdr = "header_zero\<lparr>hi_msg_type := PLDM_ASYNC_REQUEST_NOTIFY, hi_instance := 21,
                          hi_pldm_type := 63, hi_command := 0xfe\<rparr>"
  obtain h where h: "pack_pldm_header_errno (Some ?hdr) (Some (hdr_of_bytes 0xff 0xff 0xff)) =
      (0, Some h)"
    by (simp add: header_zero_def)
  obtain b0 b1 b2 where b: "hdr_bytes h = [b0, b1, b2]" by (simp add: hdr_bytes_def)
  from header_roundtrip [OF h b, of header_zero] have
    "hi_instance (snd (unpack_pldm_header_errno (Some (hdr_of_bytes b0 b1 b2)) header_zero)) = 21"
    by (simp only: snd_conv) simp
  with h b show ?thesis by blast
qed

text \<open>The assertion on the errno translation is never reached from header packing.\<close>

lemma pack_pldm_header_defined: "pack_pldm_header hdr msg \<noteq> None"
  by (cases "(hdr, msg)" rule: pack_pldm_header_errno.cases)
    (auto simp: pack_pldm_header_def pldm_xlate_errno_def Let_def)

lemma msg_pack_errno_payload [simp]:
  "m_payload (snd (msg_pack_errno header msg)) = m_payload msg"
  "m_addr (snd (msg_pack_errno header msg)) = m_addr msg"
  by (simp_all add: msg_pack_errno_def split: prod.splits option.splits)

lemma msg_pack_errno_ok:
  assumes "hi_msg_type hdr \<in> {PLDM_RESPONSE, PLDM_REQUEST, PLDM_ASYNC_REQUEST_NOTIFY}"
    and "hi_instance hdr \<le> PLDM_INSTANCE_MAX" "hi_pldm_type hdr \<le> PLDM_MAX_TYPES - 1"
  shows "msg_pack_errno hdr msg =
    (0, msg\<lparr>m_hdr := \<lparr>h_instance_id = ucast (hi_instance hdr), h_reserved = 0,
       h_datagram = (if hi_msg_type hdr = PLDM_ASYNC_REQUEST_NOTIFY then 1 else 0),
       h_request = (if hi_msg_type hdr = PLDM_RESPONSE then 0 else 1),
       h_type = ucast (hi_pldm_type hdr), h_header_ver = 0, h_command = hi_command hdr\<rparr>\<rparr>)"
  by (simp only: msg_pack_errno_def pack_errno_fields [OF assms] prod.case option.case)

lemma msg_pack_errno_bad_instance:
  assumes "hi_msg_type hdr \<in> {PLDM_RESPONSE, PLDM_REQUEST, PLDM_ASYNC_REQUEST_NOTIFY}"
    and "\<not> hi_instance hdr \<le> PLDM_INSTANCE_MAX"
  shows "msg_pack_errno hdr msg = (- EINVAL, msg)"
  using assms by (cases msg) (auto simp: msg_pack_errno_def)

lemma msg_pack_errno_iff:
  "msg_pack header msg = Some (let (rc, m) = msg_pack_errno header msg in
     (if rc = 0 then 0 else the (pldm_xlate_errno rc), m))"
proof -
  obtain rc h where p: "pack_pldm_header_errno (Some header) (Some (m_hdr msg)) = (rc, h)"
    by fastforce
  then have "rc \<noteq> 0 \<Longrightarrow> pldm_xlate_errno rc \<noteq> None"
    using pack_pldm_header_defined [of "Some header" "Some (m_hdr msg)"]
    by (auto simp: pack_pldm_header_def simp del: pack_pldm_header_errno.simps
        split: bind_splits)
  then show ?thesis using p
    by (auto simp: msg_pack_def msg_pack_errno_def pack_pldm_header_def
        simp del: pack_pldm_header_errno.simps split: option.splits)
qed

text \<open>
  A response header correlates with a request header, both packed by the library, exactly
  when the one is a response, the other a request or notification, and instance id, PLDM type
  and command agree.
\<close>

lemma correlate_packed_headers:
  assumes "pack_pldm_header_errno (Some rq) (Some m1) = (0, Some req)"
    and "pack_pldm_header_errno (Some rs) (Some m2) = (0, Some resp)"
  shows "pldm_msg_hdr_correlate_response req resp \<longleftrightarrow>
    hi_msg_type rq \<noteq> PLDM_RESPONSE \<and> hi_msg_type rs = PLDM_RESPONSE \<and>
    hi_instance rq = hi_instance rs \<and> hi_pldm_type rq = hi_pldm_type rs \<and>
    hi_command rq = hi_command rs"
proof -
  have r: "hi_msg_type x \<in> {PLDM_RESPONSE, PLDM_REQUEST, PLDM_ASYNC_REQUEST_NOTIFY}"
      "hi_instance x \<le> PLDM_INSTANCE_MAX" "hi_pldm_type x \<le> PLDM_MAX_TYPES - 1"
      "unat (hi_instance x) < 2 ^ LENGTH(5)" "unat (hi_pldm_type x) < 2 ^ LENGTH(6)"
    if "x \<in> {rq, rs}" for x
    using that pack_errno_ok_iff [of rq m1] pack_errno_ok_iff [of rs m2] assms
    by (auto simp: word_le_nat_alt)
  have inj: "(ucast (hi_instance rq) :: 5 word) = ucast (hi_instance rs) \<longleftrightarrow>
        hi_instance rq = hi_instance rs"
      "(ucast (hi_pldm_type rq) :: 6 word) = ucast (hi_pldm_type rs) \<longleftrightarrow>
        hi_pldm_type rq = hi_pldm_type rs"
    by (metis insertI1 insertI2 r(4) ucast_ucast_up) (metis insertI1 insertI2 r(5) ucast_ucast_up)
  from assms pack_errno_fields [OF r(1-3), of rq m1] pack_errno_fields [OF r(1-3), of rs m2] inj
  show ?thesis by (auto simp: pldm_msg_hdr_correlate_response_def)
qed

section \<open>Versions are printed within their buffer\<close>

text \<open>The text of a version without any bound on the buffer.\<close>

definition ver_text :: "ver32 \<Rightarrow> u8 list" where
  "ver_text v =
     (if v_major v < 0xf0 then [bcd_h (v_major v) + 0x30] else []) @
     [bcd_l (v_major v) + 0x30, 0x2e] @
     (if v_minor v < 0xf0 then [bcd_h (v_minor v) + 0x30] else []) @
     [bcd_l (v_minor v) + 0x30] @
     (if v_update v < 0xff then
        [0x2e] @ (if v_update v < 0xf0 then [bcd_h (v_update v) + 0x30] else []) @
        [bcd_l (v_update v) + 0x30]
      else []) @
     (if v_alpha v \<noteq> 0 then [v_alpha v] else [])"

text \<open>The writer's state after printing \<open>t\<close> into a buffer of \<open>Suc k\<close> bytes.\<close>

definition printed :: "nat \<Rightarrow> u8 list \<Rightarrow> u8 list \<times> int" where
  "printed k t = (take k t, int (Suc k) - int (min k (length t)))"

lemma insert_char_printed: "insert_char c (printed k t) = printed k (t @ [c])"
  by (auto simp: insert_char_def printed_def)

lemma insert_int_printed: "insert_int d (printed k t) = printed k (t @ [d + 0x30])"
  by (simp add: insert_int_def insert_char_printed)

lemma printed_start: "([], int (Suc k)) = printed k []"
  by (simp add: printed_def)

lemma printed_if: "(if P then printed k s else printed k t) = printed k (if P then s else t)"
  by simp

text \<open>
  Printing a version never writes outside a buffer of the stated size: the text is the
  full text of the version cut to what fits before the terminator, it is NUL-terminated, and
  the number of characters printed is returned.
\<close>

theorem ver2str_truncates:
  assumes "0 < n" and "n \<le> SSIZE_MAX" and "n \<le> length buf"
  shows "pldm_base_ver2str (Some v) (Some buf) n =
    Some (int (min (n - 1) (length (ver_text v))),
          Some (poke buf 0 (take (n - 1) (ver_text v) @ [0])))"
proof -
  obtain k where k: "n = Suc k" using assms(1) by (cases n) auto
  let ?t = "ver_text v"
  have "length (take k ?t @ [0]) \<le> length buf" using assms(3) k by simp
  then show ?thesis using assms(1,2)
    unfolding pldm_base_ver2str_def k Let_def printed_start insert_char_printed
      insert_int_printed if_distrib [where f = "insert_int _"] printed_if
    by (cases "v_major v < 0xf0"; cases "v_minor v < 0xf0"; cases "v_update v < 0xff";
        cases "v_update v < 0xf0"; cases "v_alpha v = 0")
      (simp_all add: insert_char_printed insert_int_printed ver_text_def, simp_all add: printed_def)
qed

theorem ver2str_truncates_witness:
  "pldm_base_ver2str
     (Some \<lparr>v_alpha = 0x61, v_update = 0xf3, v_minor = 0xf7, v_major = 0x12\<rparr>)
     (Some [9, 9, 9, 9, 9, 9]) 5 = Some (4, Some [0x31, 0x32, 0x2e, 0x37, 0, 9])"
  using ver2str_truncates [of 5 "[9, 9, 9, 9, 9, 9]"
      "\<lparr>v_alpha = 0x61, v_update = 0xf3, v_minor = 0xf7, v_major = 0x12\<rparr>"]
  by (simp add: ver_text_def bcd_h_def bcd_l_def poke_def)

end
