(* ===== verification/Codec_Rules.thy ===== *)
theory Codec_Rules
  imports Base_Header
begin

text \<open>
  What the encoders and decoders of all message types share: access to the payload of a
  message, the end of a msgbuf's scope, and two sets of proof rules. \<open>mb_simps\<close> (from
  \<^verbatim>\<open>Msgbuf_Eval\<close>) evaluates a codec on a buffer that is large enough; \<open>codec_safe\<close> walks
  over the body of a codec on any buffer and leaves nothing to prove when it cannot reach
  undefined behaviour.
\<close>

section \<open>Objects and access\<close>

text \<open>
  The payload of a message is an object of \<open>n\<close> bytes or more that lies inside the address
  space: what a caller promises with a payload length of \<open>n\<close>.
\<close>

definition msg_holds :: "nat \<Rightarrow> pldm_msg \<Rightarrow> bool" where
  "msg_holds n msg \<longleftrightarrow>
     n \<le> length (m_payload msg) \<and> length (m_payload msg) \<le> SSIZE_MAX \<and>
     m_addr msg + length (m_payload msg) \<le> UINTPTR_MAX"

text \<open>Access through a struct laid over the payload; outside of the object it is undefined.\<close>

definition put_bytes :: "nat \<Rightarrow> u8 list \<Rightarrow> pldm_msg \<Rightarrow> pldm_msg option" where
  "put_bytes off bs msg =
     (if off + length bs \<le> length (m_payload msg)
      then Some (msg\<lparr>m_payload := poke (m_payload msg) off bs\<rparr>) else None)"

definition get_bytes :: "nat \<Rightarrow> nat \<Rightarrow> pldm_msg \<Rightarrow> u8 list option" where
  "get_bytes off n msg =
     (if off + n \<le> length (m_payload msg) then Some (bytes_at (m_payload msg) off n) else None)"

text \<open>
  A msgbuf leaves its scope: an access outside the object or a msgbuf that was neither
  completed nor discarded (the assertion of \<open>pldm__msgbuf_cleanup\<close>) is undefined.
\<close>

definition mb_exit :: "msgbuf \<Rightarrow> 'r \<Rightarrow> 'r option" where
  "mb_exit b r = (if mb_fault b \<or> \<not> pldm__msgbuf_cleanup b then None else Some r)"

section \<open>Evaluation\<close>

text \<open>The header that packing writes.\<close>

definition wire_hdr :: "u8 \<Rightarrow> u8 \<Rightarrow> u8 \<Rightarrow> u8 \<Rightarrow> pldm_msg_hdr" where
  "wire_hdr mt inst ty cmd =
     \<lparr>h_instance_id = ucast inst, h_reserved = 0,
      h_datagram = (if mt = PLDM_ASYNC_REQUEST_NOTIFY then 1 else 0),
      h_request = (if mt = PLDM_RESPONSE then 0 else 1),
      h_type = ucast ty, h_header_ver = 0, h_command = cmd\<rparr>"

lemma pack_wire_hdr [mb_simps]:
  assumes "hi_msg_type hdr \<in> {PLDM_RESPONSE, PLDM_REQUEST, PLDM_ASYNC_REQUEST_NOTIFY}"
    and "hi_instance hdr \<le> PLDM_INSTANCE_MAX" "hi_pldm_type hdr \<le> PLDM_MAX_TYPES - 1"
  shows "msg_pack_errno hdr msg = (0, msg\<lparr>m_hdr := wire_hdr (hi_msg_type hdr) (hi_instance hdr)
    (hi_pldm_type hdr) (hi_command hdr)\<rparr>)"
  using assms by (simp add: msg_pack_errno_ok wire_hdr_def)

lemma pack_bad_instance [mb_simps]:
  assumes "hi_msg_type hdr \<in> {PLDM_RESPONSE, PLDM_REQUEST, PLDM_ASYNC_REQUEST_NOTIFY}"
    and "\<not> hi_instance hdr \<le> PLDM_INSTANCE_MAX"
  shows "msg_pack_errno hdr msg = (- EINVAL, msg)"
  using assms by (rule msg_pack_errno_bad_instance)

lemma msg_pack_wire_hdr [mb_simps]:
  assumes "hi_msg_type hdr \<in> {PLDM_RESPONSE, PLDM_REQUEST, PLDM_ASYNC_REQUEST_NOTIFY}"
    and "hi_instance hdr \<le> PLDM_INSTANCE_MAX" "hi_pldm_type hdr \<le> PLDM_MAX_TYPES - 1"
  shows "msg_pack hdr msg = Some (0, msg\<lparr>m_hdr := wire_hdr (hi_msg_type hdr) (hi_instance hdr)
    (hi_pldm_type hdr) (hi_command hdr)\<rparr>)"
  unfolding msg_pack_errno_iff pack_wire_hdr [OF assms] by simp

lemma header_zero_sel [mb_simps]:
  "hi_msg_type header_zero = 0" "hi_instance header_zero = 0" "hi_pldm_type header_zero = 0"
  "hi_command header_zero = 0"
  by (simp_all add: header_zero_def)

text \<open>An instance id taken from the five bits of a header is always in range.\<close>

lemma instance_id_small: "ucast (x :: 5 word) \<le> (PLDM_INSTANCE_MAX :: u8)"
proof -
  have "unat x < 2 ^ LENGTH(5)" by (rule unsigned_less)
  then show ?thesis by (simp add: word_le_nat_alt unsigned_ucast_eq take_bit_nat_eq_self)
qed

lemma mb_exit_dead [mb_simps]: "mb_exit (dead_mb a m) r = Some r"
  by (simp add: mb_exit_def dead_mb_cleanup mb_simps)

lemma used_numeral [mb_simps]:
  "numeral k \<le> len \<Longrightarrow> len - nat (int len - numeral k) = numeral k"
  "1 \<le> len \<Longrightarrow> len - nat (int len - 1) = 1"
  using nat_int_add [of "numeral k"] by (simp_all add: nat_diff_distrib nat_numeral)

lemma used_nat [mb_simps]:
  "numeral k + n \<le> len \<Longrightarrow> len - nat (int len - numeral k - int n) = numeral k + n"
  "numeral k + n \<le> len \<Longrightarrow> len - nat (int len - int n - numeral k) = numeral k + n"
  using nat_int [of "len - (numeral k + n)"] by (simp_all add: of_nat_diff algebra_simps)

lemma drop_numeral_add [wire_simps]: "drop (numeral k + n) xs = drop n (drop (numeral k) xs)"
  by (simp add: add.commute)

lemma put_bytes_ok [mb_simps]:
  "off + length bs \<le> length (m_payload msg) \<Longrightarrow>
     put_bytes off bs msg = Some (msg\<lparr>m_payload := poke (m_payload msg) off bs\<rparr>)"
  by (simp add: put_bytes_def)

lemma get_bytes_ok [mb_simps]:
  "off + n \<le> length (m_payload msg) \<Longrightarrow>
     get_bytes off n msg = Some (bytes_at (m_payload msg) off n)"
  by (simp add: get_bytes_def)

section \<open>Codecs are defined on every input\<close>

definition defined :: "'r option \<Rightarrow> bool" where
  "defined x \<longleftrightarrow> x \<noteq> None"

text \<open>A msgbuf that was completed or discarded without a fault.\<close>

definition mb_done :: "msgbuf \<Rightarrow> bool" where
  "mb_done b \<longleftrightarrow> \<not> mb_fault b \<and> pldm__msgbuf_cleanup b"

lemma defined_Some [codec_safe]: "defined (Some x)"
  by (simp add: defined_def)

lemma defined_exit [codec_safe]: "mb_done b \<Longrightarrow> defined (mb_exit b r)"
  by (simp add: defined_def mb_exit_def mb_done_def)

lemma defined_if [codec_safe]:
  "(P \<Longrightarrow> defined x) \<Longrightarrow> (\<not> P \<Longrightarrow> defined y) \<Longrightarrow> defined (if P then x else y)"
  by simp

lemma defined_bind [codec_safe]:
  "defined x \<Longrightarrow> (\<And>v. x = Some v \<Longrightarrow> defined (f v)) \<Longrightarrow> defined (x \<bind> f)"
  by (cases x) (simp_all add: defined_def)

lemma defined_option [codec_safe]:
  "(x = None \<Longrightarrow> defined f) \<Longrightarrow> (\<And>v. x = Some v \<Longrightarrow> defined (g v)) \<Longrightarrow>
     defined (case x of None \<Rightarrow> f | Some v \<Rightarrow> g v)"
  by (cases x) simp_all

lemma defined_put [codec_safe]:
  "off + length bs \<le> length (m_payload msg) \<Longrightarrow> defined (put_bytes off bs msg)"
  by (simp add: defined_def put_bytes_def)

lemma defined_get [codec_safe]:
  "off + n \<le> length (m_payload msg) \<Longrightarrow> defined (get_bytes off n msg)"
  by (simp add: defined_def get_bytes_def)

lemma defined_has_error [codec_safe]:
  "n \<le> length (m_payload msg) \<Longrightarrow> defined (pldm_msg_has_error msg n)"
  by (auto simp: defined_def)

lemma defined_pack_errno [codec_safe]:
  assumes "\<And>rc m. m_payload m = m_payload msg \<Longrightarrow> m_addr m = m_addr msg \<Longrightarrow> defined (f rc m)"
  shows "defined (case msg_pack_errno h msg of (rc, m) \<Rightarrow> f rc m)"
  using assms [of "snd (msg_pack_errno h msg)"] by (simp add: case_prod_unfold)

lemma defined_init [codec_safe]:
  assumes "len \<le> length m"
    and "\<And>rc b. rc \<noteq> 0 \<Longrightarrow> mb_done b \<Longrightarrow> defined (x rc b)"
    and "\<And>b. mb_ok b \<Longrightarrow> defined (y 0 b)"
  shows "defined (case pldm__msgbuf_init_errno k a m len of
    (rc, b) \<Rightarrow> if rc \<noteq> 0 then x rc b else y rc b)"
proof (cases "pldm__msgbuf_init_errno k a m len = (- EOVERFLOW, dead_mb a m)")
  case True
  then show ?thesis using assms(2) [of "- EOVERFLOW" "dead_mb a m"]
    by (simp add: mb_done_def dead_mb_cleanup mb_simps)
next
  case False
  then have "pldm__msgbuf_init_errno k a m len = (0, live_mb a m 0 (int len))" and "int len \<le> INTMAX_MAX"
    by (auto simp: pldm__msgbuf_init_errno_def pldm__msgbuf_set_invalid_def dead_mb_def
        live_mb_def Let_def split: if_splits)
  then show ?thesis using assms(1,3) by (simp add: mb_ok_def mb_simps)
qed

lemma defined_mover:
  assumes "msgbuf_op op" "mb_ok b" "\<And>rc b'. mb_ok b' \<Longrightarrow> defined (f rc b')"
  shows "defined (case op b of (rc, b') \<Rightarrow> f rc b')"
  using msgbuf_op.op_ok [OF assms(1,2)] assms(3) by (simp add: case_prod_unfold)

lemma defined_taker:
  assumes "msgbuf_op (\<lambda>b. rc_of (op b))" "mb_ok b" "\<And>rc v b'. mb_ok b' \<Longrightarrow> defined (f rc v b')"
  shows "defined (case op b of (rc, v, b') \<Rightarrow> f rc v b')"
  using msgbuf_op.op_ok [OF assms(1,2)] assms(3) by (simp add: case_prod_unfold rc_of_def)

lemmas defined_ops [codec_safe] =
  defined_taker [OF extract_uint8.msgbuf_op_axioms]
  defined_taker [OF extract_uint16.msgbuf_op_axioms]
  defined_taker [OF extract_uint32.msgbuf_op_axioms]
  defined_mover [OF insert_uint8.msgbuf_op_axioms]
  defined_mover [OF insert_uint16.msgbuf_op_axioms]
  defined_mover [OF insert_uint32.msgbuf_op_axioms]
  defined_taker [OF msgbuf_op_extract_array]
  defined_mover [OF msgbuf_op_insert_array]
  defined_taker [OF span_required.msgbuf_op_axioms]
  defined_taker [OF span_remaining.msgbuf_op_axioms]

lemma defined_extract_uint32_to_size [codec_safe]:
  assumes "mb_ok b" "\<And>rc v b'. mb_ok b' \<Longrightarrow> defined (f rc v b')"
  shows "defined (case pldm__msgbuf_extract_uint32_to_size b d of (rc, v, b') \<Rightarrow> f rc v b')"
  using extract_uint32.op_ok [OF assms(1), of 0] assms(2)
  by (simp add: pldm__msgbuf_extract_uint32_to_size_def rc_of_def case_prod_unfold Let_def)

lemma defined_finishers [codec_safe]:
  assumes "mb_ok b" "\<And>rc b'. mb_done b' \<Longrightarrow> defined (f rc b')"
  shows "defined (case pldm_msgbuf_complete b of (rc, b') \<Rightarrow> f rc b')"
    and "defined (case pldm_msgbuf_complete_consumed b of (rc, b') \<Rightarrow> f rc b')"
    and "defined (case pldm__msgbuf_discard b e of (rc, b') \<Rightarrow> f rc b')"
  using assms by (simp_all add: mb_ok_def mb_done_def pldm_msgbuf_complete_def
      pldm_msgbuf_complete_consumed_def pldm__msgbuf_discard_def pldm__msgbuf_set_invalid_def
      pldm__msgbuf_cleanup_def)

lemma defined_complete_used [codec_safe]:
  assumes "mb_ok b" "\<And>rc n b'. mb_done b' \<Longrightarrow> defined (f rc n b')"
  shows "defined (case pldm_msgbuf_complete_used b len u of (rc, n, b') \<Rightarrow> f rc n b')"
  using assms by (simp add: mb_ok_def mb_done_def pldm_msgbuf_complete_used_def Let_def
      pldm__msgbuf_set_invalid_def pldm__msgbuf_cleanup_def)

text \<open>Tuples that are computed by cases first, as an \<open>if\<close> around a group of calls does.\<close>

lemma case_flat:
  "case_prod f (case_prod g p) = (case p of (x, y) \<Rightarrow> case_prod f (g x y))"
  "case_prod f (if P then s else t) = (if P then case_prod f s else case_prod f t)"
  by (simp_all add: case_prod_unfold)

lemmas codec_body = Let_def prod.case option.case case_flat

text \<open>What a caller promises of pointers that may be NULL.\<close>

definition ptr_holds :: "nat \<Rightarrow> pldm_msg option \<Rightarrow> bool" where
  "ptr_holds n msg \<longleftrightarrow> (case msg of None \<Rightarrow> True | Some m \<Rightarrow> msg_holds n m)"

definition out_holds :: "nat option \<Rightarrow> pldm_msg option \<Rightarrow> bool" where
  "out_holds len msg \<longleftrightarrow> (case len of None \<Rightarrow> True | Some n \<Rightarrow> ptr_holds n msg)"

lemma ptr_holds_length: "ptr_holds n msg \<Longrightarrow> msg = Some m \<Longrightarrow> n \<le> length (m_payload m)"
  by (simp add: ptr_holds_def msg_holds_def)

lemma out_holds_length:
  "out_holds len msg \<Longrightarrow> msg = Some m \<Longrightarrow> len = Some n \<Longrightarrow> n \<le> length (m_payload m)"
  by (simp add: out_holds_def ptr_holds_def msg_holds_def)

end
