(* ===== verification/Base_Codec.thy ===== *)
theory Base_Codec
  imports Codec_Rules
begin

text \<open>
  The messages of the PLDM base specification: every encoder and decoder of
  \<^verbatim>\<open>src/dsp/base.c\<close>. The older ones overlay a packed struct on the payload without knowing
  its size, the newer ones work through a msgbuf.
\<close>

section \<open>Versions in memory\<close>

definition ver_bytes :: "ver32 \<Rightarrow> u8 list" where
  "ver_bytes v = [v_alpha v, v_update v, v_minor v, v_major v]"

definition ver_of_bytes :: "u8 list \<Rightarrow> ver32" where
  "ver_of_bytes bs = \<lparr>v_alpha = bs ! 0, v_update = bs ! 1, v_minor = bs ! 2, v_major = bs ! 3\<rparr>"

section \<open>GetPLDMTypes, GetPLDMCommands\<close>

abbreviation (input) PLDM_MAX_CMDS_PER_TYPE :: nat where "PLDM_MAX_CMDS_PER_TYPE \<equiv> 256"
abbreviation (input) PLDM_GET_COMMANDS_REQ_BYTES :: nat where "PLDM_GET_COMMANDS_REQ_BYTES \<equiv> 5"
abbreviation (input) PLDM_GET_COMMANDS_RESP_BYTES :: nat
  where "PLDM_GET_COMMANDS_RESP_BYTES \<equiv> 33"

definition encode_get_types_req :: "u8 \<Rightarrow> pldm_msg option \<Rightarrow> (int \<times> pldm_msg option) option" where
  "encode_get_types_req instance_id msg =
     (case msg of
        None \<Rightarrow> Some (PLDM_ERROR_INVALID_DATA, None)
      | Some msg \<Rightarrow> do {
          (rc, msg) \<leftarrow> msg_pack (header_zero\<lparr>hi_instance := instance_id,
             hi_msg_type := PLDM_REQUEST, hi_command := PLDM_GET_PLDM_TYPES\<rparr>) msg;
          Some (uint rc, Some msg) })"

definition encode_get_commands_req ::
    "u8 \<Rightarrow> u8 \<Rightarrow> ver32 \<Rightarrow> pldm_msg option \<Rightarrow> (int \<times> pldm_msg option) option" where
  "encode_get_commands_req instance_id type version msg =
     (case msg of
        None \<Rightarrow> Some (PLDM_ERROR_INVALID_DATA, None)
      | Some msg \<Rightarrow> do {
          (rc, msg) \<leftarrow> msg_pack (header_zero\<lparr>hi_instance := instance_id,
             hi_msg_type := PLDM_REQUEST, hi_command := PLDM_GET_PLDM_COMMANDS\<rparr>) msg;
          if rc \<noteq> PLDM_SUCCESS then Some (uint rc, Some msg) else do {
          msg \<leftarrow> put_bytes 0 [type] msg;
          msg \<leftarrow> put_bytes 1 (ver_bytes version) msg;
          Some (PLDM_SUCCESS, Some msg) } })"

definition decode_get_commands_req ::
    "pldm_msg option \<Rightarrow> nat \<Rightarrow> u8 option \<Rightarrow> ver32 option \<Rightarrow>
      (int \<times> u8 option \<times> ver32 option) option" where
  "decode_get_commands_req msg payload_length type version =
     (case (msg, type, version) of
        (Some msg, Some _, Some _) \<Rightarrow>
          if payload_length \<noteq> PLDM_GET_COMMANDS_REQ_BYTES
          then Some (PLDM_ERROR_INVALID_LENGTH, type, version)
          else do {
            t \<leftarrow> get_bytes 0 1 msg;
            v \<leftarrow> get_bytes 1 4 msg;
            Some (PLDM_SUCCESS, Some (t ! 0), Some (ver_of_bytes v)) }
      | _ \<Rightarrow> Some (PLDM_ERROR_INVALID_DATA, type, version))"

text \<open>\<open>commands\<close>: the bytes of the caller's command bit array.\<close>

definition encode_get_commands_resp ::
    "u8 \<Rightarrow> u8 \<Rightarrow> u8 list option \<Rightarrow> pldm_msg option \<Rightarrow> (int \<times> pldm_msg option) option" where
  "encode_get_commands_resp instance_id completion_code commands msg =
     (case msg of
        None \<Rightarrow> Some (PLDM_ERROR_INVALID_DATA, None)
      | Some msg \<Rightarrow> do {
          (rc, msg) \<leftarrow> msg_pack (header_zero\<lparr>hi_instance := instance_id,
             hi_msg_type := PLDM_RESPONSE, hi_command := PLDM_GET_PLDM_COMMANDS\<rparr>) msg;
          if rc \<noteq> PLDM_SUCCESS then Some (uint rc, Some msg) else do {
          msg \<leftarrow> put_bytes 0 [completion_code] msg;
          if completion_code = PLDM_SUCCESS then
            (case commands of
               None \<Rightarrow> Some (PLDM_ERROR_INVALID_DATA, Some msg)
             | Some cs \<Rightarrow>
                 if length cs < PLDM_MAX_CMDS_PER_TYPE div 8 then None else do {
                 msg \<leftarrow> put_bytes 1 (take (PLDM_MAX_CMDS_PER_TYPE div 8) cs) msg;
                 Some (PLDM_SUCCESS, Some msg) })
          else Some (PLDM_SUCCESS, Some msg) } })"

definition decode_get_commands_resp ::
    "pldm_msg option \<Rightarrow> nat \<Rightarrow> u8 option \<Rightarrow> u8 list option \<Rightarrow>
      (int \<times> u8 option \<times> u8 list option) option" where
  "decode_get_commands_resp msg payload_length completion_code commands =
     (case (msg, commands, completion_code) of
        (Some msg, Some cs, Some _) \<Rightarrow> do {
          c \<leftarrow> get_bytes 0 1 msg;
          if c ! 0 \<noteq> PLDM_SUCCESS then Some (PLDM_SUCCESS, Some (c ! 0), commands)
          else if payload_length \<noteq> PLDM_GET_COMMANDS_RESP_BYTES
          then Some (PLDM_ERROR_INVALID_LENGTH, Some (c ! 0), commands)
          else do {
            bs \<leftarrow> get_bytes 1 (PLDM_MAX_CMDS_PER_TYPE div 8) msg;
            if length cs < PLDM_MAX_CMDS_PER_TYPE div 8 then None
            else Some (PLDM_SUCCESS, Some (c ! 0), Some (poke cs 0 bs)) } }
      | _ \<Rightarrow> Some (PLDM_ERROR_INVALID_DATA, completion_code, commands))"

section \<open>GetPLDMVersion\<close>

abbreviation (input) PLDM_GET_VERSION_REQ_BYTES :: nat where "PLDM_GET_VERSION_REQ_BYTES \<equiv> 6"
abbreviation (input) PLDM_GET_VERSION_RESP_BYTES :: nat where "PLDM_GET_VERSION_RESP_BYTES \<equiv> 10"

definition encode_get_version_req ::
    "u8 \<Rightarrow> u32 \<Rightarrow> u8 \<Rightarrow> u8 \<Rightarrow> pldm_msg option \<Rightarrow> (int \<times> pldm_msg option) option" where
  "encode_get_version_req instance_id transfer_handle transfer_opflag type msg =
     (case msg of
        None \<Rightarrow> Some (PLDM_ERROR_INVALID_DATA, None)
      | Some msg \<Rightarrow> do {
          (rc, msg) \<leftarrow> msg_pack (header_zero\<lparr>hi_msg_type := PLDM_REQUEST,
             hi_instance := instance_id, hi_pldm_type := PLDM_BASE,
             hi_command := PLDM_GET_PLDM_VERSION\<rparr>) msg;
          if rc \<noteq> PLDM_SUCCESS then Some (uint rc, Some msg) else do {
          msg \<leftarrow> put_bytes 0 (le_of_word transfer_handle) msg;
          msg \<leftarrow> put_bytes 4 [transfer_opflag] msg;
          msg \<leftarrow> put_bytes 5 [type] msg;
          Some (PLDM_SUCCESS, Some msg) } })"

text \<open>\<open>version_data\<close>: the bytes of the caller's object.\<close>

definition encode_get_version_resp ::
    "u8 \<Rightarrow> u8 \<Rightarrow> u32 \<Rightarrow> u8 \<Rightarrow> u8 list option \<Rightarrow> nat \<Rightarrow> pldm_msg option \<Rightarrow>
      (int \<times> pldm_msg option) option" where
  "encode_get_version_resp instance_id completion_code next_transfer_handle transfer_flag
      version_data version_size msg =
     (case (msg, version_data) of
        (Some msg, Some vd) \<Rightarrow> do {
          (rc, msg) \<leftarrow> msg_pack (header_zero\<lparr>hi_msg_type := PLDM_RESPONSE,
             hi_instance := instance_id, hi_pldm_type := PLDM_BASE,
             hi_command := PLDM_GET_PLDM_VERSION\<rparr>) msg;
          if rc \<noteq> PLDM_SUCCESS then Some (uint rc, Some msg) else do {
          msg \<leftarrow> put_bytes 0 [completion_code] msg;
          if completion_code = PLDM_SUCCESS then do {
            msg \<leftarrow> put_bytes 1 (le_of_word next_transfer_handle) msg;
            msg \<leftarrow> put_bytes 5 [transfer_flag] msg;
            if length vd < version_size then None else do {
            msg \<leftarrow> put_bytes 6 (take version_size vd) msg;
            Some (PLDM_SUCCESS, Some msg) } }
          else Some (PLDM_SUCCESS, Some msg) } }
      | _ \<Rightarrow> Some (PLDM_ERROR_INVALID_DATA, msg))"

text \<open>This decoder checks none of its pointers.\<close>

definition decode_get_version_req ::
    "pldm_msg option \<Rightarrow> nat \<Rightarrow> u32 option \<Rightarrow> u8 option \<Rightarrow> u8 option \<Rightarrow>
      (int \<times> u32 option \<times> u8 option \<times> u8 option) option" where
  "decode_get_version_req msg payload_length transfer_handle transfer_opflag type =
     (if payload_length \<noteq> PLDM_GET_VERSION_REQ_BYTES
      then Some (PLDM_ERROR_INVALID_LENGTH, transfer_handle, transfer_opflag, type)
      else do {
        msg \<leftarrow> msg; _ \<leftarrow> transfer_handle; _ \<leftarrow> transfer_opflag; _ \<leftarrow> type;
        h \<leftarrow> get_bytes 0 4 msg;
        f \<leftarrow> get_bytes 4 1 msg;
        t \<leftarrow> get_bytes 5 1 msg;
        Some (PLDM_SUCCESS, Some (word_of_le h), Some (f ! 0), Some (t ! 0)) })"

text \<open>\<open>version\<close> is not compared with NULL before it is written.\<close>

definition decode_get_version_resp ::
    "pldm_msg option \<Rightarrow> nat \<Rightarrow> u8 option \<Rightarrow> u32 option \<Rightarrow> u8 option \<Rightarrow> ver32 option \<Rightarrow>
      (int \<times> u8 option \<times> u32 option \<times> u8 option \<times> ver32 option) option" where
  "decode_get_version_resp msg payload_length completion_code next_transfer_handle
      transfer_flag version =
     (case (msg, next_transfer_handle, transfer_flag, completion_code) of
        (Some msg, Some _, Some _, Some _) \<Rightarrow> do {
          c \<leftarrow> get_bytes 0 1 msg;
          if c ! 0 \<noteq> PLDM_SUCCESS
          then Some (PLDM_SUCCESS, Some (c ! 0), next_transfer_handle, transfer_flag, version)
          else if payload_length < PLDM_GET_VERSION_RESP_BYTES
          then Some (PLDM_ERROR_INVALID_LENGTH, Some (c ! 0), next_transfer_handle,
                     transfer_flag, version)
          else do {
            h \<leftarrow> get_bytes 1 4 msg;
            f \<leftarrow> get_bytes 5 1 msg;
            v \<leftarrow> get_bytes 6 4 msg;
            _ \<leftarrow> version;
            Some (PLDM_SUCCESS, Some (c ! 0), Some (word_of_le h), Some (f ! 0),
                  Some (ver_of_bytes v)) } }
      | _ \<Rightarrow> Some (PLDM_ERROR_INVALID_DATA, completion_code, next_transfer_handle,
                   transfer_flag, version))"

section \<open>GetTID, SetTID\<close>

definition encode_get_tid_req :: "u8 \<Rightarrow> pldm_msg option \<Rightarrow> (int \<times> pldm_msg option) option" where
  "encode_get_tid_req instance_id msg =
     (case msg of
        None \<Rightarrow> Some (PLDM_ERROR_INVALID_DATA, None)
      | Some msg \<Rightarrow> do {
          (rc, msg) \<leftarrow> msg_pack (header_zero\<lparr>hi_instance := instance_id,
             hi_msg_type := PLDM_REQUEST, hi_command := PLDM_GET_TID\<rparr>) msg;
          Some (uint rc, Some msg) })"

definition encode_set_tid_req ::
    "u8 \<Rightarrow> u8 \<Rightarrow> pldm_msg option \<Rightarrow> (int \<times> pldm_msg option) option" where
  "encode_set_tid_req instance_id tid msg =
     (case msg of
        None \<Rightarrow> Some (PLDM_ERROR_INVALID_DATA, None)
      | Some msg \<Rightarrow>
          if tid = 0 \<or> tid = 0xff then Some (PLDM_ERROR_INVALID_DATA, Some msg) else do {
          (rc, msg) \<leftarrow> msg_pack (header_zero\<lparr>hi_instance := instance_id,
             hi_msg_type := PLDM_REQUEST, hi_command := PLDM_SET_TID\<rparr>) msg;
          if rc \<noteq> PLDM_SUCCESS then Some (uint rc, Some msg) else do {
          msg \<leftarrow> put_bytes 0 [tid] msg;
          Some (PLDM_SUCCESS, Some msg) } })"

definition decode_set_tid_req ::
    "pldm_msg option \<Rightarrow> nat \<Rightarrow> u8 option \<Rightarrow> (int \<times> u8 option) option" where
  "decode_set_tid_req msg payload_length tid =
     (case (msg, tid) of
        (Some msg, Some t) \<Rightarrow>
          (let (rc, b) = pldm__msgbuf_init_errno 1 (m_addr msg) (m_payload msg) payload_length in
           if rc \<noteq> 0 then mb_exit b (rc, tid)
           else
             let (_, t, b) = pldm__msgbuf_extract_uint8 b t;
                 (rc, b) = pldm_msgbuf_complete_consumed b
             in mb_exit b (rc, Some t))
      | _ \<Rightarrow> Some (- EINVAL, tid))"

section \<open>Completion codes alone\<close>

definition encode_cc_only_resp ::
    "u8 \<Rightarrow> u8 \<Rightarrow> u8 \<Rightarrow> u8 \<Rightarrow> pldm_msg option \<Rightarrow> (int \<times> pldm_msg option) option" where
  "encode_cc_only_resp instance_id type command cc msg =
     (case msg of
        None \<Rightarrow> Some (PLDM_ERROR_INVALID_DATA, None)
      | Some msg \<Rightarrow> do {
          (rc, msg) \<leftarrow> msg_pack (header_zero\<lparr>hi_instance := instance_id,
             hi_msg_type := PLDM_RESPONSE, hi_pldm_type := type, hi_command := command\<rparr>) msg;
          if rc \<noteq> PLDM_SUCCESS then Some (uint rc, Some msg) else do {
          msg \<leftarrow> put_bytes 0 [cc] msg;
          Some (PLDM_SUCCESS, Some msg) } })"

definition decode_cc_only_resp ::
    "pldm_msg option \<Rightarrow> nat \<Rightarrow> u8 option \<Rightarrow> (int \<times> u8 option) option" where
  "decode_cc_only_resp msg payload_length completion_code =
     (case (msg, completion_code) of
        (Some msg, Some _) \<Rightarrow>
          if payload_length \<noteq> 1 then Some (PLDM_ERROR_INVALID_LENGTH, completion_code)
          else do { c \<leftarrow> get_bytes 0 1 msg; Some (PLDM_SUCCESS, Some (c ! 0)) }
      | _ \<Rightarrow> Some (PLDM_ERROR_INVALID_DATA, completion_code))"

section \<open>GetTID and GetPLDMTypes responses\<close>

record get_tid_resp =
  gt_completion_code :: u8
  gt_tid :: u8

definition encode_pldm_base_get_tid_resp ::
    "u8 \<Rightarrow> get_tid_resp option \<Rightarrow> pldm_msg option \<Rightarrow> nat option \<Rightarrow>
      (int \<times> pldm_msg option \<times> nat option) option" where
  "encode_pldm_base_get_tid_resp instance_id resp msg payload_length =
     (case (resp, msg, payload_length) of
        (Some resp, Some msg, Some len) \<Rightarrow>
          if len < 1 then Some (- EOVERFLOW, Some msg, Some len)
          else
            let (rc, msg) = msg_pack_errno (header_zero\<lparr>hi_instance := instance_id,
                   hi_msg_type := PLDM_RESPONSE, hi_pldm_type := PLDM_BASE,
                   hi_command := PLDM_GET_TID\<rparr>) msg in
            if rc \<noteq> 0 then Some (rc, Some msg, Some len)
            else if gt_completion_code resp \<noteq> PLDM_SUCCESS then do {
              msg \<leftarrow> put_bytes 0 [gt_completion_code resp] msg;
              Some (0, Some msg, Some 1) }
            else
              let (rc, b) = pldm__msgbuf_init_errno 2 (m_addr msg) (m_payload msg) len in
              if rc \<noteq> 0 then mb_exit b (rc, Some msg, Some len)
              else
                let (_, b) = pldm_msgbuf_insert_uint8 b (gt_completion_code resp);
                    (_, b) = pldm_msgbuf_insert_uint8 b (gt_tid resp);
                    (rc, len, b) = pldm_msgbuf_complete_used b len len
                in mb_exit b (rc, Some (msg\<lparr>m_payload := mb_mem b\<rparr>), Some len)
      | _ \<Rightarrow> Some (- EINVAL, msg, payload_length))"

definition decode_pldm_base_get_tid_resp ::
    "pldm_msg option \<Rightarrow> nat \<Rightarrow> get_tid_resp option \<Rightarrow> (int \<times> get_tid_resp option) option" where
  "decode_pldm_base_get_tid_resp msg payload_length resp =
     (case (msg, resp) of
        (Some msg, Some r) \<Rightarrow> do {
          rc \<leftarrow> pldm_msg_has_error msg payload_length;
          if rc \<noteq> 0 then Some (0, Some (r\<lparr>gt_completion_code := rc\<rparr>))
          else
            let (rc, b) = pldm__msgbuf_init_errno 2 (m_addr msg) (m_payload msg) payload_length in
            if rc \<noteq> 0 then mb_exit b (rc, resp)
            else
              let (_, cc, b) = pldm__msgbuf_extract_uint8 b (gt_completion_code r);
                  (_, tid, b) = pldm__msgbuf_extract_uint8 b (gt_tid r);
                  (rc, b) = pldm_msgbuf_complete_consumed b
              in mb_exit b (rc, Some (r\<lparr>gt_completion_code := cc, gt_tid := tid\<rparr>)) }
      | _ \<Rightarrow> Some (- EINVAL, resp))"

text \<open>\<open>pldm_types\<close> holds the eight bytes of the type bit array.\<close>

record get_pldm_types_resp =
  gp_completion_code :: u8
  gp_pldm_types :: "u8 list"

text \<open>The loops over the array of eight bytes.\<close>

fun insert_uint8s :: "msgbuf \<Rightarrow> u8 list \<Rightarrow> msgbuf" where
  "insert_uint8s b [] = b"
| "insert_uint8s b (v # vs) = (let (_, b) = pldm_msgbuf_insert_uint8 b v in insert_uint8s b vs)"

fun extract_uint8s :: "msgbuf \<Rightarrow> u8 list \<Rightarrow> u8 list \<times> msgbuf" where
  "extract_uint8s b [] = ([], b)"
| "extract_uint8s b (d # ds) =
     (let (_, v, b) = pldm__msgbuf_extract_uint8 b d;
          (vs, b) = extract_uint8s b ds
      in (v # vs, b))"

definition encode_pldm_base_get_pldm_types_resp ::
    "u8 \<Rightarrow> get_pldm_types_resp option \<Rightarrow> pldm_msg option \<Rightarrow> nat option \<Rightarrow>
      (int \<times> pldm_msg option \<times> nat option) option" where
  "encode_pldm_base_get_pldm_types_resp instance_id resp msg payload_length =
     (case (resp, msg, payload_length) of
        (Some resp, Some msg, Some len) \<Rightarrow>
          if len < 1 then Some (- EOVERFLOW, Some msg, Some len)
          else
            let (rc, msg) = msg_pack_errno (header_zero\<lparr>hi_instance := instance_id,
                   hi_msg_type := PLDM_RESPONSE, hi_pldm_type := PLDM_BASE,
                   hi_command := PLDM_GET_PLDM_TYPES\<rparr>) msg in
            if rc \<noteq> 0 then Some (rc, Some msg, Some len)
            else if gp_completion_code resp \<noteq> PLDM_SUCCESS then do {
              msg \<leftarrow> put_bytes 0 [gp_completion_code resp] msg;
              Some (0, Some msg, Some 1) }
            else
              let (rc, b) = pldm__msgbuf_init_errno 9 (m_addr msg) (m_payload msg) len in
              if rc \<noteq> 0 then mb_exit b (rc, Some msg, Some len)
              else
                let (_, b) = pldm_msgbuf_insert_uint8 b (gp_completion_code resp);
                    b = insert_uint8s b (gp_pldm_types resp);
                    (rc, len, b) = pldm_msgbuf_complete_used b len len
                in mb_exit b (rc, Some (msg\<lparr>m_payload := mb_mem b\<rparr>), Some len)
      | _ \<Rightarrow> Some (- EINVAL, msg, payload_length))"

definition decode_pldm_base_get_pldm_types_resp ::
    "pldm_msg option \<Rightarrow> nat \<Rightarrow> get_pldm_types_resp option \<Rightarrow>
      (int \<times> get_pldm_types_resp option) option" where
  "decode_pldm_base_get_pldm_types_resp msg payload_length resp =
     (case (msg, resp) of
        (Some msg, Some r) \<Rightarrow> do {
          rc \<leftarrow> pldm_msg_has_error msg payload_length;
          if rc \<noteq> 0 then Some (0, Some (r\<lparr>gp_completion_code := rc\<rparr>))
          else
            let (rc, b) = pldm__msgbuf_init_errno 9 (m_addr msg) (m_payload msg) payload_length in
            if rc \<noteq> 0 then mb_exit b (rc, resp)
            else
              let (_, cc, b) = pldm__msgbuf_extract_uint8 b (gp_completion_code r);
                  (types, b) = extract_uint8s b (gp_pldm_types r);
                  (rc, b) = pldm_msgbuf_complete_consumed b
              in mb_exit b (rc, Some (r\<lparr>gp_completion_code := cc, gp_pldm_types := types\<rparr>)) }
      | _ \<Rightarrow> Some (- EINVAL, resp))"

section \<open>NegotiateTransferParameters\<close>

abbreviation (input) PLDM_BASE_MIN_PART_SIZE :: u16 where "PLDM_BASE_MIN_PART_SIZE \<equiv> 256"

record negotiate_req =
  nq_part_size :: u16
  nq_protocol_support :: "u8 list"

record negotiate_resp =
  nr_completion_code :: u8
  nr_part_size :: u16
  nr_protocol_support :: "u8 list"

definition encode_pldm_base_negotiate_transfer_params_req ::
    "u8 \<Rightarrow> negotiate_req option \<Rightarrow> pldm_msg option \<Rightarrow> nat option \<Rightarrow>
      (int \<times> pldm_msg option \<times> nat option) option" where
  "encode_pldm_base_negotiate_transfer_params_req instance_id req msg payload_length =
     (case (req, msg, payload_length) of
        (Some req, Some msg, Some len) \<Rightarrow>
          let (rc, msg) = msg_pack_errno (header_zero\<lparr>hi_instance := instance_id,
                 hi_msg_type := PLDM_REQUEST, hi_pldm_type := PLDM_BASE,
                 hi_command := PLDM_NEGOTIATE_TRANSFER_PARAMETERS\<rparr>) msg in
          if rc \<noteq> 0 then Some (rc, Some msg, Some len)
          else
            let (rc, b) = pldm__msgbuf_init_errno 10 (m_addr msg) (m_payload msg) len in
            if rc \<noteq> 0 then mb_exit b (rc, Some msg, Some len)
            else
              let (_, b) = pldm_msgbuf_insert_uint16 b (nq_part_size req);
                  (rc, b) = pldm__msgbuf_insert_array_void b 8 (nq_protocol_support req) 8 in
              if rc \<noteq> 0 then
                (let (rc, b) = pldm__msgbuf_discard b rc
                 in mb_exit b (rc, Some (msg\<lparr>m_payload := mb_mem b\<rparr>), Some len))
              else
                let (rc, len, b) = pldm_msgbuf_complete_used b len len
                in mb_exit b (rc, Some (msg\<lparr>m_payload := mb_mem b\<rparr>), Some len)
      | _ \<Rightarrow> Some (- EINVAL, msg, payload_length))"

text \<open>Here a NULL \<open>payload_length\<close> is dereferenced once the header is packed.\<close>

definition encode_pldm_base_negotiate_transfer_params_resp ::
    "u8 \<Rightarrow> negotiate_resp option \<Rightarrow> pldm_msg option \<Rightarrow> nat option \<Rightarrow>
      (int \<times> pldm_msg option \<times> nat option) option" where
  "encode_pldm_base_negotiate_transfer_params_resp instance_id resp msg payload_length =
     (case (resp, msg) of
        (Some resp, Some msg) \<Rightarrow>
          if nr_part_size resp < PLDM_BASE_MIN_PART_SIZE
          then Some (- EINVAL, Some msg, payload_length)
          else
          let (rc, msg) = msg_pack_errno (header_zero\<lparr>hi_instance := instance_id,
                 hi_msg_type := PLDM_RESPONSE, hi_pldm_type := PLDM_BASE,
                 hi_command := PLDM_NEGOTIATE_TRANSFER_PARAMETERS\<rparr>) msg in
          if rc \<noteq> 0 then Some (rc, Some msg, payload_length)
          else do {
            len \<leftarrow> payload_length;
            let (rc, b) = pldm__msgbuf_init_errno 11 (m_addr msg) (m_payload msg) len in
            if rc \<noteq> 0 then mb_exit b (rc, Some msg, Some len)
            else
              let (_, b) = pldm_msgbuf_insert_uint8 b (nr_completion_code resp);
                  (_, b) = pldm_msgbuf_insert_uint16 b (nr_part_size resp);
                  (rc, b) = pldm__msgbuf_insert_array_void b 8 (nr_protocol_support resp) 8 in
              if rc \<noteq> 0 then
                (let (rc, b) = pldm__msgbuf_discard b rc
                 in mb_exit b (rc, Some (msg\<lparr>m_payload := mb_mem b\<rparr>), Some len))
              else
                let (rc, len, b) = pldm_msgbuf_complete_used b len len
                in mb_exit b (rc, Some (msg\<lparr>m_payload := mb_mem b\<rparr>), Some len) }
      | _ \<Rightarrow> Some (- EINVAL, msg, payload_length))"

definition decode_pldm_base_negotiate_transfer_params_req ::
    "pldm_msg option \<Rightarrow> nat \<Rightarrow> negotiate_req option \<Rightarrow> (int \<times> negotiate_req option) option" where
  "decode_pldm_base_negotiate_transfer_params_req msg payload_length req =
     (case (msg, req) of
        (Some msg, Some r) \<Rightarrow>
          let (rc, b) = pldm__msgbuf_init_errno 10 (m_addr msg) (m_payload msg) payload_length in
          if rc \<noteq> 0 then mb_exit b (rc, req)
          else
            let (_, size, b) = pldm__msgbuf_extract_uint16 b (nq_part_size r);
                (rc, sup, b) = pldm__msgbuf_extract_array_void b 8 (nq_protocol_support r) 8;
                r = r\<lparr>nq_part_size := size, nq_protocol_support := sup\<rparr> in
            if rc \<noteq> 0 then (let (rc, b) = pldm__msgbuf_discard b rc in mb_exit b (rc, Some r))
            else let (rc, b) = pldm_msgbuf_complete_consumed b in mb_exit b (rc, Some r)
      | _ \<Rightarrow> Some (- EINVAL, req))"

definition decode_pldm_base_negotiate_transfer_params_resp ::
    "pldm_msg option \<Rightarrow> nat \<Rightarrow> negotiate_resp option \<Rightarrow> (int \<times> negotiate_resp option) option" where
  "decode_pldm_base_negotiate_transfer_params_resp msg payload_length resp =
     (case (msg, resp) of
        (Some msg, Some r) \<Rightarrow> do {
          rc \<leftarrow> pldm_msg_has_error msg payload_length;
          if rc \<noteq> 0 then Some (0, Some (r\<lparr>nr_completion_code := rc\<rparr>))
          else
          let (rc, b) = pldm__msgbuf_init_errno 11 (m_addr msg) (m_payload msg) payload_length in
          if rc \<noteq> 0 then mb_exit b (rc, resp)
          else
            let (_, cc, b) = pldm__msgbuf_extract_uint8 b (nr_completion_code r);
                (_, size, b) = pldm__msgbuf_extract_uint16 b (nr_part_size r);
                (rc, sup, b) = pldm__msgbuf_extract_array_void b 8 (nr_protocol_support r) 8;
                r = r\<lparr>nr_completion_code := cc, nr_part_size := size, nr_protocol_support := sup\<rparr> in
            if rc \<noteq> 0 then (let (rc, b) = pldm__msgbuf_discard b rc in mb_exit b (rc, Some r))
            else let (rc, b) = pldm_msgbuf_complete_consumed b in mb_exit b (rc, Some r) }
      | _ \<Rightarrow> Some (- EINVAL, resp))"

section \<open>MultipartReceive\<close>

abbreviation (input) PLDM_XFER_NEXT_PART :: u8 where "PLDM_XFER_NEXT_PART \<equiv> 1"
abbreviation (input) PLDM_XFER_CURRENT_PART :: u8 where "PLDM_XFER_CURRENT_PART \<equiv> 4"
abbreviation (input) RECEIVE_ACK_COMPLETION :: u8 where "RECEIVE_ACK_COMPLETION \<equiv> 8"
abbreviation (input) SEND_START :: u8 where "SEND_START \<equiv> 1"
abbreviation (input) SEND_START_AND_END :: u8 where "SEND_START_AND_END \<equiv> 5"

record multipart_receive_req =
  rq_pldm_type :: u8
  rq_transfer_opflag :: u8
  rq_transfer_ctx :: u32
  rq_transfer_handle :: u32
  rq_section_offset :: u32
  rq_section_length :: u32

record multipart_receive_resp =
  rr_completion_code :: u8
  rr_transfer_flag :: u8
  rr_next_transfer_handle :: u32
  rr_data :: variable_field

definition decode_pldm_base_multipart_receive_req ::
    "pldm_msg option \<Rightarrow> nat \<Rightarrow> multipart_receive_req option \<Rightarrow>
      (int \<times> multipart_receive_req option) option" where
  "decode_pldm_base_multipart_receive_req msg payload_length req =
     (case (msg, req) of
        (Some msg, Some r) \<Rightarrow>
          let (rc, b) = pldm__msgbuf_init_errno 18 (m_addr msg) (m_payload msg) payload_length in
          if rc \<noteq> 0 then mb_exit b (rc, req)
          else
            let (_, x1, b) = pldm__msgbuf_extract_uint8 b (rq_pldm_type r);
                (_, x2, b) = pldm__msgbuf_extract_uint8 b (rq_transfer_opflag r);
                (_, x3, b) = pldm__msgbuf_extract_uint32 b (rq_transfer_ctx r);
                (_, x4, b) = pldm__msgbuf_extract_uint32 b (rq_transfer_handle r);
                (_, x5, b) = pldm__msgbuf_extract_uint32 b (rq_section_offset r);
                (_, x6, b) = pldm__msgbuf_extract_uint32 b (rq_section_length r);
                (rc, b) = pldm_msgbuf_complete_consumed b;
                r = \<lparr>rq_pldm_type = x1, rq_transfer_opflag = x2, rq_transfer_ctx = x3,
                     rq_transfer_handle = x4, rq_section_offset = x5, rq_section_length = x6\<rparr> in
            if rc \<noteq> 0 then mb_exit b (rc, Some r)
            else if rq_transfer_opflag r > PLDM_XFER_CURRENT_PART
            then mb_exit b (- EPROTO, Some r)
            else if rq_transfer_handle r = 0 \<and> rq_transfer_opflag r = PLDM_XFER_NEXT_PART
            then mb_exit b (- EPROTO, Some r)
            else mb_exit b (0, Some r)
      | _ \<Rightarrow> Some (- EINVAL, req))"

definition encode_pldm_base_multipart_receive_req ::
    "u8 \<Rightarrow> multipart_receive_req option \<Rightarrow> pldm_msg option \<Rightarrow> nat option \<Rightarrow>
      (int \<times> pldm_msg option \<times> nat option) option" where
  "encode_pldm_base_multipart_receive_req instance_id req msg payload_length =
     (case (req, msg, payload_length) of
        (Some req, Some msg, Some len) \<Rightarrow>
          let (rc, msg) = msg_pack_errno (header_zero\<lparr>hi_instance := instance_id,
                 hi_msg_type := PLDM_REQUEST, hi_pldm_type := PLDM_BASE,
                 hi_command := PLDM_MULTIPART_RECEIVE\<rparr>) msg in
          if rc \<noteq> 0 then Some (rc, Some msg, Some len)
          else
            let (rc, b) = pldm__msgbuf_init_errno 18 (m_addr msg) (m_payload msg) len in
            if rc \<noteq> 0 then mb_exit b (rc, Some msg, Some len)
            else
              let (_, b) = pldm_msgbuf_insert_uint8 b (rq_pldm_type req);
                  (_, b) = pldm_msgbuf_insert_uint8 b (rq_transfer_opflag req);
                  (_, b) = pldm_msgbuf_insert_uint32 b (rq_transfer_ctx req);
                  (_, b) = pldm_msgbuf_insert_uint32 b (rq_transfer_handle req);
                  (_, b) = pldm_msgbuf_insert_uint32 b (rq_section_offset req);
                  (_, b) = pldm_msgbuf_insert_uint32 b (rq_section_length req);
                  (rc, len, b) = pldm_msgbuf_complete_used b len len
              in mb_exit b (rc, Some (msg\<lparr>m_payload := mb_mem b\<rparr>), Some len)
      | _ \<Rightarrow> Some (- EINVAL, msg, payload_length))"

text \<open>
  The pointer of the data field is an offset into the payload when decoding and into the
  object \<open>obj\<close> that holds the data when encoding.
\<close>

definition decode_pldm_base_multipart_receive_resp ::
    "pldm_msg option \<Rightarrow> nat \<Rightarrow> multipart_receive_resp option \<Rightarrow> u32 option \<Rightarrow>
      (int \<times> multipart_receive_resp option \<times> u32 option) option" where
  "decode_pldm_base_multipart_receive_resp msg payload_length resp data_integrity_checksum =
     (case (msg, resp, data_integrity_checksum) of
        (Some msg, Some r, Some cks) \<Rightarrow> do {
          rc \<leftarrow> pldm_msg_has_error msg payload_length;
          if rc \<noteq> 0 then Some (0, Some (r\<lparr>rr_completion_code := rc\<rparr>), Some cks)
          else
          let (rc, b) = pldm__msgbuf_init_errno 10 (m_addr msg) (m_payload msg) payload_length in
          if rc \<noteq> 0 then mb_exit b (rc, Some r, Some cks)
          else
            let (_, x1, b) = pldm__msgbuf_extract_uint8 b (rr_completion_code r);
                (rc, x2, b) = pldm__msgbuf_extract_uint8 b (rr_transfer_flag r);
                r = r\<lparr>rr_completion_code := x1, rr_transfer_flag := x2\<rparr> in
            if rc \<noteq> 0 then
              (let (rc, b) = pldm__msgbuf_discard b rc in mb_exit b (rc, Some r, Some cks))
            else
              let (_, x3, b) = pldm__msgbuf_extract_uint32 b (rr_next_transfer_handle r);
                  (rc, n, b) = pldm__msgbuf_extract_uint32_to_size b (vf_length (rr_data r));
                  r = r\<lparr>rr_next_transfer_handle := x3, rr_data := (rr_data r)\<lparr>vf_length := n\<rparr>\<rparr> in
              if rc \<noteq> 0 then
                (let (rc, b) = pldm__msgbuf_discard b rc in mb_exit b (rc, Some r, Some cks))
              else
                let (r, b) =
                      (if vf_length (rr_data r) > 0 then
                         let (_, p, b) = pldm__msgbuf_span_required b (vf_length (rr_data r))
                         in (r\<lparr>rr_data := (rr_data r)\<lparr>vf_ptr := p\<rparr>\<rparr>, b)
                       else (r, b));
                    (cks, b) =
                      (if rr_transfer_flag r \<noteq> RECEIVE_ACK_COMPLETION then
                         let (_, s, b) = pldm__msgbuf_extract_uint32 b cks in (s, b)
                       else (cks, b));
                    (rc, b) = pldm_msgbuf_complete_consumed b
                in mb_exit b (rc, Some r, Some cks) }
      | _ \<Rightarrow> Some (- EINVAL, resp, data_integrity_checksum))"

definition encode_base_multipart_receive_resp ::
    "u8 \<Rightarrow> multipart_receive_resp option \<Rightarrow> u8 list \<Rightarrow> u32 \<Rightarrow> pldm_msg option \<Rightarrow> nat option \<Rightarrow>
      (int \<times> pldm_msg option \<times> nat option) option" where
  "encode_base_multipart_receive_resp instance_id resp obj checksum msg payload_length =
     (case (msg, resp, payload_length) of
        (Some msg, Some resp, Some len) \<Rightarrow>
          if vf_length (rr_data resp) > 0 \<and> vf_ptr (rr_data resp) = None
          then Some (- EINVAL, Some msg, Some len)
          else
          let (rc, msg) = msg_pack_errno (header_zero\<lparr>hi_instance := instance_id,
                 hi_msg_type := PLDM_RESPONSE, hi_pldm_type := PLDM_BASE,
                 hi_command := PLDM_MULTIPART_RECEIVE\<rparr>) msg in
          if rc \<noteq> 0 then Some (rc, Some msg, Some len)
          else
            let (rc, b) = pldm__msgbuf_init_errno 10 (m_addr msg) (m_payload msg) len in
            if rc \<noteq> 0 then mb_exit b (rc, Some msg, Some len)
            else
              let (_, b) = pldm_msgbuf_insert_uint8 b (rr_completion_code resp) in
              if rr_completion_code resp \<noteq> PLDM_SUCCESS then
                (let (rc, len, b) = pldm_msgbuf_complete_used b len len
                 in mb_exit b (rc, Some (msg\<lparr>m_payload := mb_mem b\<rparr>), Some len))
              else
                let (_, b) = pldm_msgbuf_insert_uint8 b (rr_transfer_flag resp);
                    (_, b) = pldm_msgbuf_insert_uint32 b (rr_next_transfer_handle resp);
                    (_, b) = pldm_msgbuf_insert_uint32 b (of_nat (vf_length (rr_data resp))) in
                if vf_length (rr_data resp) = 0 then
                  (let (rc, len, b) = pldm_msgbuf_complete_used b len len
                   in mb_exit b (rc, Some (msg\<lparr>m_payload := mb_mem b\<rparr>), Some len))
                else
                  let n = vf_length (rr_data resp);
                      (rc, b) = pldm__msgbuf_insert_array_void b n
                                  (drop (the (vf_ptr (rr_data resp))) obj) n in
                  if rc \<noteq> 0 then
                    (let (rc, b) = pldm__msgbuf_discard b rc
                     in mb_exit b (rc, Some (msg\<lparr>m_payload := mb_mem b\<rparr>), Some len))
                  else
                    let b = (if rr_transfer_flag resp \<noteq> RECEIVE_ACK_COMPLETION
                             then snd (pldm_msgbuf_insert_uint32 b checksum) else b);
                        (rc, len, b) = pldm_msgbuf_complete_used b len len
                    in mb_exit b (rc, Some (msg\<lparr>m_payload := mb_mem b\<rparr>), Some len)
      | _ \<Rightarrow> Some (- EINVAL, msg, payload_length))"

section \<open>MultipartSend\<close>

record multipart_send_req =
  sq_pldm_type :: u8
  sq_transfer_flag :: u8
  sq_transfer_ctx :: u32
  sq_transfer_handle :: u32
  sq_next_transfer_handle :: u32
  sq_section_offset :: u32
  sq_section_length :: u32
  sq_data :: variable_field

record multipart_send_resp =
  sr_completion_code :: u8
  sr_next_transfer_operation :: u8

definition decode_pldm_base_multipart_send_resp ::
    "pldm_msg option \<Rightarrow> nat \<Rightarrow> multipart_send_resp option \<Rightarrow>
      (int \<times> multipart_send_resp option) option" where
  "decode_pldm_base_multipart_send_resp msg payload_length resp =
     (case (msg, resp) of
        (Some msg, Some r) \<Rightarrow> do {
          rc \<leftarrow> pldm_msg_has_error msg payload_length;
          if rc \<noteq> 0 then Some (0, Some (r\<lparr>sr_completion_code := rc\<rparr>))
          else
          let (rc, b) = pldm__msgbuf_init_errno 2 (m_addr msg) (m_payload msg) payload_length in
          if rc \<noteq> 0 then mb_exit b (rc, resp)
          else
            let (_, x1, b) = pldm__msgbuf_extract_uint8 b (sr_completion_code r);
                (_, x2, b) = pldm__msgbuf_extract_uint8 b (sr_next_transfer_operation r);
                (rc, b) = pldm_msgbuf_complete_consumed b
            in mb_exit b (rc, Some (r\<lparr>sr_completion_code := x1, sr_next_transfer_operation := x2\<rparr>)) }
      | _ \<Rightarrow> Some (- EINVAL, resp))"

definition encode_pldm_base_multipart_send_resp ::
    "u8 \<Rightarrow> multipart_send_resp option \<Rightarrow> pldm_msg option \<Rightarrow> nat option \<Rightarrow>
      (int \<times> pldm_msg option \<times> nat option) option" where
  "encode_pldm_base_multipart_send_resp instance_id resp msg payload_length =
     (case (msg, resp, payload_length) of
        (Some msg, Some resp, Some len) \<Rightarrow>
          let (rc, msg) = msg_pack_errno (header_zero\<lparr>hi_msg_type := PLDM_RESPONSE,
                 hi_instance := instance_id, hi_pldm_type := PLDM_BASE,
                 hi_command := PLDM_MULTIPART_SEND\<rparr>) msg in
          if rc \<noteq> 0 then Some (rc, Some msg, Some len)
          else
            let (rc, b) = pldm__msgbuf_init_errno 2 (m_addr msg) (m_payload msg) len in
            if rc \<noteq> 0 then mb_exit b (rc, Some msg, Some len)
            else
              let (_, b) = pldm_msgbuf_insert_uint8 b (sr_completion_code resp);
                  (_, b) = pldm_msgbuf_insert_uint8 b (sr_next_transfer_operation resp);
                  (rc, len, b) = pldm_msgbuf_complete_used b len len
              in mb_exit b (rc, Some (msg\<lparr>m_payload := mb_mem b\<rparr>), Some len)
      | _ \<Rightarrow> Some (- EINVAL, msg, payload_length))"

text \<open>
  Section offset and length are zero unless the part is the first of its section
  (DSP0240 1.2.0, 9.6.4).
\<close>

definition section_allowed :: "multipart_send_req \<Rightarrow> bool" where
  "section_allowed req \<longleftrightarrow>
     \<not> (sq_transfer_flag req \<noteq> SEND_START \<and> sq_transfer_flag req \<noteq> SEND_START_AND_END \<and>
        (sq_section_offset req \<noteq> 0 \<or> sq_section_length req \<noteq> 0))"

definition decode_pldm_base_multipart_send_req ::
    "pldm_msg option \<Rightarrow> nat \<Rightarrow> multipart_send_req option \<Rightarrow> u32 option \<Rightarrow>
      (int \<times> multipart_send_req option \<times> u32 option) option" where
  "decode_pldm_base_multipart_send_req msg payload_length req data_integrity_checksum =
     (case (msg, req, data_integrity_checksum) of
        (Some msg, Some r, Some cks) \<Rightarrow>
          let (rc, b) = pldm__msgbuf_init_errno 26 (m_addr msg) (m_payload msg) payload_length in
          if rc \<noteq> 0 then mb_exit b (rc, Some r, Some cks)
          else
            let (_, x1, b) = pldm__msgbuf_extract_uint8 b (sq_pldm_type r);
                (_, x2, b) = pldm__msgbuf_extract_uint8 b (sq_transfer_flag r);
                (_, x3, b) = pldm__msgbuf_extract_uint32 b (sq_transfer_ctx r);
                (_, x4, b) = pldm__msgbuf_extract_uint32 b (sq_transfer_handle r);
                (_, x5, b) = pldm__msgbuf_extract_uint32 b (sq_next_transfer_handle r);
                (_, x6, b) = pldm__msgbuf_extract_uint32 b (sq_section_offset r);
                (_, x7, b) = pldm__msgbuf_extract_uint32 b (sq_section_length r);
                r = r\<lparr>sq_pldm_type := x1, sq_transfer_flag := x2, sq_transfer_ctx := x3,
                      sq_transfer_handle := x4, sq_next_transfer_handle := x5,
                      sq_section_offset := x6, sq_section_length := x7\<rparr> in
            if sq_pldm_type r \<noteq> PLDM_BASE \<and> sq_pldm_type r \<noteq> PLDM_FILE then
              (let (rc, b) = pldm__msgbuf_discard b (- ENOTSUP) in mb_exit b (rc, Some r, Some cks))
            else if \<not> section_allowed r then
              (let (rc, b) = pldm__msgbuf_discard b (- EPROTO) in mb_exit b (rc, Some r, Some cks))
            else
              let (rc, n, b) = pldm__msgbuf_extract_uint32_to_size b (vf_length (sq_data r));
                  r = r\<lparr>sq_data := (sq_data r)\<lparr>vf_length := n\<rparr>\<rparr> in
              if rc \<noteq> 0 then
                (let (rc, b) = pldm__msgbuf_discard b rc in mb_exit b (rc, Some r, Some cks))
              else
                let (r, cks, b) =
                      (if vf_length (sq_data r) > 0 then
                         let (_, p, b) = pldm__msgbuf_span_required b (vf_length (sq_data r));
                             (_, s, b) = pldm__msgbuf_extract_uint32 b cks
                         in (r\<lparr>sq_data := (sq_data r)\<lparr>vf_ptr := p\<rparr>\<rparr>, s, b)
                       else (r, cks, b));
                    (rc, b) = pldm_msgbuf_complete_consumed b
                in mb_exit b (rc, Some r, Some cks)
      | _ \<Rightarrow> Some (- EINVAL, req, data_integrity_checksum))"

definition encode_pldm_base_multipart_send_req ::
    "u8 \<Rightarrow> multipart_send_req option \<Rightarrow> u8 list \<Rightarrow> u32 \<Rightarrow> pldm_msg option \<Rightarrow> nat option \<Rightarrow>
      (int \<times> pldm_msg option \<times> nat option) option" where
  "encode_pldm_base_multipart_send_req instance_id req obj checksum msg payload_length =
     (case (msg, req, payload_length) of
        (Some msg, Some req, Some len) \<Rightarrow>
          if vf_length (sq_data req) > 0 \<and> vf_ptr (sq_data req) = None
          then Some (- EINVAL, Some msg, Some len)
          else
          let (rc, msg) = msg_pack_errno (header_zero\<lparr>hi_instance := instance_id,
                 hi_msg_type := PLDM_REQUEST, hi_pldm_type := PLDM_BASE,
                 hi_command := PLDM_MULTIPART_SEND\<rparr>) msg in
          if rc \<noteq> 0 then Some (rc, Some msg, Some len)
          else
            let (rc, b) = pldm__msgbuf_init_errno 26 (m_addr msg) (m_payload msg) len in
            if rc \<noteq> 0 then mb_exit b (rc, Some msg, Some len)
            else
              let (_, b) = pldm_msgbuf_insert_uint8 b (sq_pldm_type req);
                  (_, b) = pldm_msgbuf_insert_uint8 b (sq_transfer_flag req);
                  (_, b) = pldm_msgbuf_insert_uint32 b (sq_transfer_ctx req);
                  (_, b) = pldm_msgbuf_insert_uint32 b (sq_transfer_handle req);
                  (_, b) = pldm_msgbuf_insert_uint32 b (sq_next_transfer_handle req);
                  (_, b) = pldm_msgbuf_insert_uint32 b (sq_section_offset req);
                  (_, b) = pldm_msgbuf_insert_uint32 b (sq_section_length req) in
              if \<not> section_allowed req then
                (let (rc, b) = pldm__msgbuf_discard b (- EPROTO)
                 in mb_exit b (rc, Some (msg\<lparr>m_payload := mb_mem b\<rparr>), Some len))
              else
                let n = vf_length (sq_data req);
                    (_, b) = pldm_msgbuf_insert_uint32 b (of_nat n) in
                if n = 0 then
                  (let (rc, len, b) = pldm_msgbuf_complete_used b len len
                   in mb_exit b (rc, Some (msg\<lparr>m_payload := mb_mem b\<rparr>), Some len))
                else
                  let (rc, b) = pldm__msgbuf_insert_array_void b n
                                  (drop (the (vf_ptr (sq_data req))) obj) n in
                  if rc \<noteq> 0 then
                    (let (rc, b) = pldm__msgbuf_discard b rc
                     in mb_exit b (rc, Some (msg\<lparr>m_payload := mb_mem b\<rparr>), Some len))
                  else
                    let (_, b) = pldm_msgbuf_insert_uint32 b checksum;
                        (rc, len, b) = pldm_msgbuf_complete_used b len len
                    in mb_exit b (rc, Some (msg\<lparr>m_payload := mb_mem b\<rparr>), Some len)
      | _ \<Rightarrow> Some (- EINVAL, msg, payload_length))"

end
