(* ===== verification/Base_Codec_Laws.thy ===== *)
theory Base_Codec_Laws
  imports Base_Codec
begin

text \<open>
  The base codecs agree with each other: what an encoder writes its decoder reads back, and
  none of them reaches undefined behaviour on a payload of the stated length.
\<close>

section \<open>Data of a message\<close>

text \<open>The bytes a variable field of an object denotes, and that it lies inside the object.\<close>

definition field_bytes :: "u8 list \<Rightarrow> variable_field \<Rightarrow> u8 list" where
  "field_bytes obj f =
     (if vf_length f = 0 then [] else bytes_at obj (the (vf_ptr f)) (vf_length f))"

definition field_in :: "u8 list \<Rightarrow> variable_field \<Rightarrow> bool" where
  "field_in obj f \<longleftrightarrow> vf_length f < 2 ^ 32 \<and>
     (0 < vf_length f \<longrightarrow> (\<exists>p. vf_ptr f = Some p \<and> p + vf_length f \<le> length obj))"

lemma field_in_length: "field_in obj f \<Longrightarrow> unat (of_nat (vf_length f) :: u32) = vf_length f"
  by (simp add: field_in_def unat_of_nat)

lemma field_in_ptr:
  assumes "field_in obj f" "vf_length f \<noteq> 0"
  obtains p where "vf_ptr f = Some p" "p + vf_length f \<le> length obj"
    "field_bytes obj f = bytes_at obj p (vf_length f)"
  using assms by (auto simp: field_in_def field_bytes_def)

lemma length_field_bytes [simp]: "field_in obj f \<Longrightarrow> length (field_bytes obj f) = vf_length f"
  by (auto simp: field_bytes_def field_in_def)

section \<open>MultipartSend\<close>

definition send_req_bytes :: "multipart_send_req \<Rightarrow> u8 list \<Rightarrow> u32 \<Rightarrow> u8 list" where
  "send_req_bytes req obj checksum =
     [sq_pldm_type req, sq_transfer_flag req] @ le_of_word (sq_transfer_ctx req) @
     le_of_word (sq_transfer_handle req) @ le_of_word (sq_next_transfer_handle req) @
     le_of_word (sq_section_offset req) @ le_of_word (sq_section_length req) @
     le_of_word (of_nat (vf_length (sq_data req)) :: u32) @
     (if vf_length (sq_data req) = 0 then []
      else field_bytes obj (sq_data req) @ le_of_word checksum)"

lemma encode_send_req_bytes:
  assumes "msg_holds len msg" "instance_id \<le> PLDM_INSTANCE_MAX"
    and "section_allowed req" "field_in obj (sq_data req)"
    and "length (send_req_bytes req obj checksum) \<le> len"
  shows "encode_pldm_base_multipart_send_req instance_id (Some req) obj checksum
      (Some msg) (Some len) =
    Some (0, Some (msg\<lparr>m_hdr := wire_hdr PLDM_REQUEST instance_id PLDM_BASE PLDM_MULTIPART_SEND,
      m_payload := poke (m_payload msg) 0 (send_req_bytes req obj checksum)\<rparr>),
      Some (length (send_req_bytes req obj checksum)))"
proof (cases "vf_length (sq_data req) = 0")
  case True
  then show ?thesis using assms
    by (simp add: encode_pldm_base_multipart_send_req_def msg_holds_def mb_simps wire_simps
        send_req_bytes_def)
next
  case False
  with assms(4) obtain p where "vf_ptr (sq_data req) = Some p"
      "p + vf_length (sq_data req) \<le> length obj"
      "field_bytes obj (sq_data req) = bytes_at obj p (vf_length (sq_data req))"
    by (rule field_in_ptr)
  then show ?thesis using assms False
    by (simp add: encode_pldm_base_multipart_send_req_def msg_holds_def mb_simps wire_simps
        send_req_bytes_def Let_def) (simp add: bytes_at_def)
qed

lemma decode_send_req_bytes:
  assumes "m_payload msg = poke m 0 (send_req_bytes req obj checksum)"
    and "length m \<le> SSIZE_MAX" "m_addr msg + length m \<le> UINTPTR_MAX"
    and "length (send_req_bytes req obj checksum) \<le> length m"
    and "section_allowed req" "field_in obj (sq_data req)"
    and "sq_pldm_type req \<in> {PLDM_BASE, PLDM_FILE}"
  shows "decode_pldm_base_multipart_send_req (Some msg)
      (length (send_req_bytes req obj checksum)) (Some d) (Some cks) =
    Some (0, Some (req\<lparr>sq_data := if vf_length (sq_data req) = 0 then (sq_data d)\<lparr>vf_length := 0\<rparr>
                          else \<lparr>vf_ptr = Some 26, vf_length = vf_length (sq_data req)\<rparr>\<rparr>),
          Some (if vf_length (sq_data req) = 0 then cks else checksum))"
proof (cases "vf_length (sq_data req) = 0")
  case True
  then show ?thesis using assms
    by (auto simp: decode_pldm_base_multipart_send_req_def mb_simps wire_simps
        send_req_bytes_def Let_def section_allowed_def)
next
  case False
  with assms(6) obtain p where "p + vf_length (sq_data req) \<le> length obj"
      "field_bytes obj (sq_data req) = bytes_at obj p (vf_length (sq_data req))"
    by (rule field_in_ptr)
  then show ?thesis using assms False field_in_length [OF assms(6)]
    by (auto simp: decode_pldm_base_multipart_send_req_def mb_simps wire_simps
        send_req_bytes_def field_in_def Let_def section_allowed_def)
qed

text \<open>
  C6. A MultipartSend request survives encoding and decoding: whatever the sender fills in,
  the receiver reads the same fields, the same data bytes (through a pointer into the message)
  and the same checksum, for every PLDM type the receiver accepts.
\<close>

theorem multipart_send_roundtrip:
  assumes "msg_holds len msg" "instance_id \<le> PLDM_INSTANCE_MAX"
    and "section_allowed req" "sq_pldm_type req \<in> {PLDM_BASE, PLDM_FILE}"
    and "field_in obj (sq_data req)"
    and "26 + (if vf_length (sq_data req) = 0 then 0 else vf_length (sq_data req) + 4) \<le> len"
  shows "\<exists>msg' n r c. encode_pldm_base_multipart_send_req instance_id (Some req) obj checksum
      (Some msg) (Some len) = Some (0, Some msg', Some n) \<and> n \<le> len \<and>
    decode_pldm_base_multipart_send_req (Some msg') n (Some d) (Some cks) =
      Some (0, Some r, Some c) \<and>
    r\<lparr>sq_data := sq_data req\<rparr> = req \<and>
    field_bytes (m_payload msg') (sq_data r) = field_bytes obj (sq_data req) \<and>
    (vf_length (sq_data req) \<noteq> 0 \<longrightarrow> c = checksum)"
proof -
  let ?bs = "send_req_bytes req obj checksum"
  have fits: "length ?bs \<le> len"
    using assms(5,6) by (simp add: send_req_bytes_def split: if_splits)
  have len: "len \<le> length (m_payload msg)" "length (m_payload msg) \<le> SSIZE_MAX"
      "m_addr msg + length (m_payload msg) \<le> UINTPTR_MAX"
    using assms(1) by (simp_all add: msg_holds_def)
  let ?msg' = "msg\<lparr>m_hdr := wire_hdr PLDM_REQUEST instance_id PLDM_BASE PLDM_MULTIPART_SEND,
      m_payload := poke (m_payload msg) 0 ?bs\<rparr>"
  let ?r = "req\<lparr>sq_data := if vf_length (sq_data req) = 0 then (sq_data d)\<lparr>vf_length := 0\<rparr>
                          else \<lparr>vf_ptr = Some 26, vf_length = vf_length (sq_data req)\<rparr>\<rparr>"
  have "decode_pldm_base_multipart_send_req (Some ?msg') (length ?bs) (Some d) (Some cks) =
      Some (0, Some ?r, Some (if vf_length (sq_data req) = 0 then cks else checksum))"
    by (rule decode_send_req_bytes [of _ "m_payload msg"]) (use assms len fits in simp_all)
  moreover have "field_bytes (m_payload ?msg') (sq_data ?r) = field_bytes obj (sq_data req)"
  proof (cases "vf_length (sq_data req) = 0")
    case False
    with assms(5) obtain p where p: "p + vf_length (sq_data req) \<le> length obj"
        "field_bytes obj (sq_data req) = bytes_at obj p (vf_length (sq_data req))"
      by (rule field_in_ptr)
    have "field_bytes (m_payload ?msg') (sq_data ?r) =
        bytes_at (poke (m_payload msg) 0 ?bs) 26 (vf_length (sq_data req))"
      using False by (simp add: field_bytes_def)
    also have "\<dots> = bytes_at obj p (vf_length (sq_data req))"
      using len fits p False by (simp add: send_req_bytes_def wire_simps)
    finally show ?thesis using p(2) by simp
  qed (simp add: field_bytes_def)
  ultimately show ?thesis
    using encode_send_req_bytes [OF assms(1-3,5) fits] fits by fastforce
qed

lemma field_bytes_example: "field_bytes [9, 8, 7] \<lparr>vf_ptr = Some 1, vf_length = 2\<rparr> = [8, 7]"
  by (simp add: field_bytes_def bytes_at_def)

theorem multipart_send_roundtrip_witness:
  "\<exists>msg' n r c. encode_pldm_base_multipart_send_req 3
      (Some \<lparr>sq_pldm_type = 7, sq_transfer_flag = 5, sq_transfer_ctx = 1,
        sq_transfer_handle = 2, sq_next_transfer_handle = 3, sq_section_offset = 4,
        sq_section_length = 5, sq_data = \<lparr>vf_ptr = Some 1, vf_length = 2\<rparr>\<rparr>) [9, 8, 7] 99
      (Some \<lparr>m_hdr = hdr_of_bytes 0 0 0, m_addr = 1000, m_payload = replicate 40 0\<rparr>) (Some 40) =
    Some (0, Some msg', Some n) \<and>
    decode_pldm_base_multipart_send_req (Some msg') n
      (Some \<lparr>sq_pldm_type = 0, sq_transfer_flag = 0, sq_transfer_ctx = 0,
        sq_transfer_handle = 0, sq_next_transfer_handle = 0, sq_section_offset = 0,
        sq_section_length = 0, sq_data = \<lparr>vf_ptr = None, vf_length = 0\<rparr>\<rparr>) (Some 0) =
      Some (0, Some r, Some c) \<and>
    field_bytes (m_payload msg') (sq_data r) = [8, 7] \<and> c = 99"
  using multipart_send_roundtrip [of 40
      "\<lparr>m_hdr = hdr_of_bytes 0 0 0, m_addr = 1000, m_payload = replicate 40 0\<rparr>" 3
      "\<lparr>sq_pldm_type = 7, sq_transfer_flag = 5, sq_transfer_ctx = 1,
        sq_transfer_handle = 2, sq_next_transfer_handle = 3, sq_section_offset = 4,
        sq_section_length = 5, sq_data = \<lparr>vf_ptr = Some 1, vf_length = 2\<rparr>\<rparr>" "[9, 8, 7]" 99
      "\<lparr>sq_pldm_type = 0, sq_transfer_flag = 0, sq_transfer_ctx = 0,
        sq_transfer_handle = 0, sq_next_transfer_handle = 0, sq_section_offset = 0,
        sq_section_length = 0, sq_data = \<lparr>vf_ptr = None, vf_length = 0\<rparr>\<rparr>" 0]
    field_bytes_example
  by (simp add: msg_holds_def section_allowed_def field_in_def) blast

section \<open>No codec is undefined\<close>

lemma mb_ok_insert_uint8s [codec_safe]: "mb_ok b \<Longrightarrow> mb_ok (insert_uint8s b vs)"
proof (induction vs arbitrary: b)
  case (Cons v vs)
  from insert_uint8.op_ok [OF Cons.prems] Cons.IH show ?case by (simp add: case_prod_unfold)
qed simp

lemma mb_ok_extract_uint8s: "mb_ok b \<Longrightarrow> mb_ok (snd (extract_uint8s b ds))"
proof (induction ds arbitrary: b)
  case (Cons d ds)
  from extract_uint8.op_ok [OF Cons.prems] Cons.IH show ?case
    by (simp add: case_prod_unfold rc_of_def Let_def)
qed simp

lemma defined_extract_uint8s [codec_safe]:
  assumes "mb_ok b" "\<And>vs b'. mb_ok b' \<Longrightarrow> defined (f vs b')"
  shows "defined (case extract_uint8s b ds of (vs, b') \<Rightarrow> f vs b')"
  using mb_ok_extract_uint8s [OF assms(1), of ds] assms(2) by (simp add: case_prod_unfold)

lemma decoders_defined:
  assumes "ptr_holds n msg"
  shows "defined (decode_set_tid_req msg n tid)"
    and "defined (decode_cc_only_resp msg n cc)"
    and "defined (decode_get_commands_req msg n type version)"
    and "defined (decode_pldm_base_get_tid_resp msg n tr)"
    and "defined (decode_pldm_base_get_pldm_types_resp msg n gr)"
    and "defined (decode_pldm_base_negotiate_transfer_params_req msg n nq)"
    and "defined (decode_pldm_base_negotiate_transfer_params_resp msg n nr)"
    and "defined (decode_pldm_base_multipart_receive_req msg n rq)"
    and "defined (decode_pldm_base_multipart_receive_resp msg n rr cks)"
    and "defined (decode_pldm_base_multipart_send_req msg n sq cks)"
    and "defined (decode_pldm_base_multipart_send_resp msg n sr)"
  unfolding decode_set_tid_req_def decode_cc_only_resp_def decode_get_commands_req_def
    decode_pldm_base_get_tid_resp_def decode_pldm_base_get_pldm_types_resp_def
    decode_pldm_base_negotiate_transfer_params_req_def
    decode_pldm_base_negotiate_transfer_params_resp_def
    decode_pldm_base_multipart_receive_req_def decode_pldm_base_multipart_receive_resp_def
    decode_pldm_base_multipart_send_req_def decode_pldm_base_multipart_send_resp_def codec_body
  by (intro codec_safe; (assumption | simp add: ptr_holds_length [OF assms])?;
      use ptr_holds_length [OF assms] in simp)+

text \<open>A data field whose pointer is not NULL points at as many bytes as it says.\<close>

definition data_valid :: "u8 list \<Rightarrow> variable_field \<Rightarrow> bool" where
  "data_valid obj f \<longleftrightarrow>
     (case vf_ptr f of None \<Rightarrow> True | Some p \<Rightarrow> p + vf_length f \<le> length obj)"

lemma mb_ok_if [codec_safe]:
  "(P \<Longrightarrow> mb_ok b) \<Longrightarrow> (\<not> P \<Longrightarrow> mb_ok c) \<Longrightarrow> mb_ok (if P then b else c)"
  by simp

lemma data_valid_bytes:
  "data_valid obj f \<Longrightarrow> vf_ptr f = Some p \<Longrightarrow> vf_length f \<le> length (drop p obj)"
  by (simp add: data_valid_def)

lemma encoders_defined:
  assumes "out_holds len msg"
  shows "defined (encode_pldm_base_get_tid_resp inst tr msg len)"
    and "defined (encode_pldm_base_get_pldm_types_resp inst gr msg len)"
    and "(\<And>q. nq = Some q \<Longrightarrow> length (nq_protocol_support q) = 8) \<Longrightarrow>
      defined (encode_pldm_base_negotiate_transfer_params_req inst nq msg len)"
    and "defined (encode_pldm_base_multipart_receive_req inst rq msg len)"
    and "defined (encode_pldm_base_multipart_send_resp inst sr msg len)"
    and "(\<And>r. rr = Some r \<Longrightarrow> data_valid obj (rr_data r)) \<Longrightarrow>
      defined (encode_base_multipart_receive_resp inst rr obj cks msg len)"
    and "(\<And>q. sq = Some q \<Longrightarrow> data_valid obj (sq_data q)) \<Longrightarrow>
      defined (encode_pldm_base_multipart_send_req inst sq obj cks msg len)"
  unfolding encode_pldm_base_get_tid_resp_def encode_pldm_base_get_pldm_types_resp_def
    encode_pldm_base_negotiate_transfer_params_req_def
    encode_pldm_base_multipart_receive_req_def encode_pldm_base_multipart_send_resp_def
    encode_base_multipart_receive_resp_def encode_pldm_base_multipart_send_req_def codec_body
  by (intro codec_safe insert_uint32.op_ok;
      (assumption | use assms in \<open>auto simp: out_holds_def ptr_holds_def msg_holds_def
         dest: data_valid_bytes\<close>)?)+

section \<open>MultipartReceive\<close>

definition receive_resp_bytes :: "multipart_receive_resp \<Rightarrow> u8 list \<Rightarrow> u32 \<Rightarrow> u8 list" where
  "receive_resp_bytes r obj checksum =
     [0, rr_transfer_flag r] @ le_of_word (rr_next_transfer_handle r) @
     le_of_word (of_nat (vf_length (rr_data r)) :: u32) @ field_bytes obj (rr_data r) @
     (if vf_length (rr_data r) = 0 \<or> rr_transfer_flag r = RECEIVE_ACK_COMPLETION then []
      else le_of_word checksum)"

lemma encode_receive_resp_bytes:
  assumes "msg_holds len msg" "instance_id \<le> PLDM_INSTANCE_MAX"
    and "rr_completion_code r = PLDM_SUCCESS" "field_in obj (rr_data r)"
    and "length (receive_resp_bytes r obj checksum) \<le> len"
  shows "encode_base_multipart_receive_resp instance_id (Some r) obj checksum
      (Some msg) (Some len) =
    Some (0, Some (msg\<lparr>m_hdr := wire_hdr PLDM_RESPONSE instance_id PLDM_BASE PLDM_MULTIPART_RECEIVE,
      m_payload := poke (m_payload msg) 0 (receive_resp_bytes r obj checksum)\<rparr>),
      Some (length (receive_resp_bytes r obj checksum)))"
proof (cases "vf_length (rr_data r) = 0")
  case True
  then show ?thesis using assms
    by (simp add: encode_base_multipart_receive_resp_def msg_holds_def mb_simps wire_simps
        receive_resp_bytes_def field_bytes_def)
next
  case False
  with assms(4) obtain p where "vf_ptr (rr_data r) = Some p"
      "p + vf_length (rr_data r) \<le> length obj"
      "field_bytes obj (rr_data r) = bytes_at obj p (vf_length (rr_data r))"
    by (rule field_in_ptr)
  then show ?thesis using assms False
    by (cases "rr_transfer_flag r = RECEIVE_ACK_COMPLETION")
      (simp_all add: encode_base_multipart_receive_resp_def msg_holds_def mb_simps wire_simps
        receive_resp_bytes_def Let_def, simp_all add: bytes_at_def)
qed

lemma decode_receive_resp_bytes:
  assumes "m_payload msg = poke m 0 (receive_resp_bytes r obj checksum)"
    and "length m \<le> SSIZE_MAX" "m_addr msg + length m \<le> UINTPTR_MAX"
    and "length (receive_resp_bytes r obj checksum) \<le> length m"
    and "rr_completion_code r = PLDM_SUCCESS" "field_in obj (rr_data r)"
  shows "decode_pldm_base_multipart_receive_resp (Some msg)
      (length (receive_resp_bytes r obj checksum)) (Some d) (Some cks) =
    Some (if vf_length (rr_data r) = 0 \<and> rr_transfer_flag r \<noteq> RECEIVE_ACK_COMPLETION
          then - EOVERFLOW else 0,
          Some (r\<lparr>rr_data := if vf_length (rr_data r) = 0 then (rr_data d)\<lparr>vf_length := 0\<rparr>
                          else \<lparr>vf_ptr = Some 10, vf_length = vf_length (rr_data r)\<rparr>\<rparr>),
          Some (if vf_length (rr_data r) = 0 \<or> rr_transfer_flag r = RECEIVE_ACK_COMPLETION
                then cks else checksum))"
proof (cases "vf_length (rr_data r) = 0")
  case True
  then show ?thesis using assms
    by (cases "rr_transfer_flag r = RECEIVE_ACK_COMPLETION")
      (auto simp: decode_pldm_base_multipart_receive_resp_def mb_simps wire_simps
        receive_resp_bytes_def Let_def field_bytes_def)
next
  case False
  with assms(6) obtain p where "p + vf_length (rr_data r) \<le> length obj"
      "field_bytes obj (rr_data r) = bytes_at obj p (vf_length (rr_data r))"
    by (rule field_in_ptr)
  then show ?thesis using assms False field_in_length [OF assms(6)]
    by (cases "rr_transfer_flag r = RECEIVE_ACK_COMPLETION")
      (auto simp: decode_pldm_base_multipart_receive_resp_def mb_simps wire_simps
        receive_resp_bytes_def field_in_def Let_def)
qed

text \<open>
  A successful MultipartReceive response survives encoding and decoding, with its data
  and its checksum, in all cases but one: a part with no data that is not the acknowledgement
  of completion is encoded without the checksum its decoder insists on, and is refused with
  an overflow.
\<close>

theorem multipart_receive_resp_roundtrip:
  assumes "msg_holds len msg" "instance_id \<le> PLDM_INSTANCE_MAX"
    and "rr_completion_code r = PLDM_SUCCESS" "field_in obj (rr_data r)"
    and "14 + vf_length (rr_data r) \<le> len"
  shows "\<exists>msg' n r' c. encode_base_multipart_receive_resp instance_id (Some r) obj checksum
      (Some msg) (Some len) = Some (0, Some msg', Some n) \<and> n \<le> len \<and>
    decode_pldm_base_multipart_receive_resp (Some msg') n (Some d) (Some cks) =
      Some (if vf_length (rr_data r) = 0 \<and> rr_transfer_flag r \<noteq> RECEIVE_ACK_COMPLETION
            then - EOVERFLOW else 0, Some r', Some c) \<and>
    r'\<lparr>rr_data := rr_data r\<rparr> = r \<and>
    field_bytes (m_payload msg') (rr_data r') = field_bytes obj (rr_data r) \<and>
    (vf_length (rr_data r) \<noteq> 0 \<and> rr_transfer_flag r \<noteq> RECEIVE_ACK_COMPLETION \<longrightarrow> c = checksum)"
proof -
  let ?bs = "receive_resp_bytes r obj checksum"
  have fits: "length ?bs \<le> len"
    using assms(4,5) by (simp add: receive_resp_bytes_def)
  have len: "len \<le> length (m_payload msg)" "length (m_payload msg) \<le> SSIZE_MAX"
      "m_addr msg + length (m_payload msg) \<le> UINTPTR_MAX"
    using assms(1) by (simp_all add: msg_holds_def)
  let ?msg' = "msg\<lparr>m_hdr := wire_hdr PLDM_RESPONSE instance_id PLDM_BASE PLDM_MULTIPART_RECEIVE,
      m_payload := poke (m_payload msg) 0 ?bs\<rparr>"
  let ?r = "r\<lparr>rr_data := if vf_length (rr_data r) = 0 then (rr_data d)\<lparr>vf_length := 0\<rparr>
                          else \<lparr>vf_ptr = Some 10, vf_length = vf_length (rr_data r)\<rparr>\<rparr>"
  let ?c = "if vf_length (rr_data r) = 0 \<or> rr_transfer_flag r = RECEIVE_ACK_COMPLETION
          then cks else checksum"
  have data: "field_bytes (m_payload ?msg') (rr_data ?r) = field_bytes obj (rr_data r)"
  proof (cases "vf_length (rr_data r) = 0")
    case False
    with assms(4) obtain p where p: "p + vf_length (rr_data r) \<le> length obj"
        "field_bytes obj (rr_data r) = bytes_at obj p (vf_length (rr_data r))"
      by (rule field_in_ptr)
    have "field_bytes (m_payload ?msg') (rr_data ?r) =
        bytes_at (poke (m_payload msg) 0 ?bs) 10 (vf_length (rr_data r))"
      using False by (simp add: field_bytes_def)
    also have "\<dots> = bytes_at obj p (vf_length (rr_data r))"
      using len fits p False by (simp add: receive_resp_bytes_def wire_simps)
    finally show ?thesis using p(2) by simp
  qed (simp add: field_bytes_def)
  have "decode_pldm_base_multipart_receive_resp (Some ?msg') (length ?bs) (Some d) (Some cks) =
      Some (if vf_length (rr_data r) = 0 \<and> rr_transfer_flag r \<noteq> RECEIVE_ACK_COMPLETION
        then - EOVERFLOW else 0, Some ?r, Some ?c)"
    by (rule decode_receive_resp_bytes [of _ "m_payload msg"]) (use assms len fits in simp_all)
  with encode_receive_resp_bytes [OF assms(1-4) fits] fits data show ?thesis
    by (intro exI [of _ ?msg'] exI [of _ "length ?bs"] exI [of _ ?r] exI [of _ ?c]) simp
qed

theorem multipart_receive_resp_roundtrip_witness:
  "\<exists>msg' n r' c. encode_base_multipart_receive_resp 3
      (Some \<lparr>rr_completion_code = 0, rr_transfer_flag = 5, rr_next_transfer_handle = 0x11223344,
        rr_data = \<lparr>vf_ptr = Some 1, vf_length = 2\<rparr>\<rparr>) [9, 8, 7] 99
      (Some \<lparr>m_hdr = hdr_of_bytes 0 0 0, m_addr = 1000, m_payload = replicate 40 0\<rparr>) (Some 40) =
    Some (0, Some msg', Some n) \<and>
    decode_pldm_base_multipart_receive_resp (Some msg') n
      (Some \<lparr>rr_completion_code = 0, rr_transfer_flag = 0, rr_next_transfer_handle = 0,
        rr_data = \<lparr>vf_ptr = None, vf_length = 0\<rparr>\<rparr>) (Some 0) = Some (0, Some r', Some c) \<and>
    field_bytes (m_payload msg') (rr_data r') = [8, 7] \<and> c = 99"
  using multipart_receive_resp_roundtrip [of 40
      "\<lparr>m_hdr = hdr_of_bytes 0 0 0, m_addr = 1000, m_payload = replicate 40 0\<rparr>" 3
      "\<lparr>rr_completion_code = 0, rr_transfer_flag = 5, rr_next_transfer_handle = 0x11223344,
        rr_data = \<lparr>vf_ptr = Some 1, vf_length = 2\<rparr>\<rparr>" "[9, 8, 7]" 99
      "\<lparr>rr_completion_code = 0, rr_transfer_flag = 0, rr_next_transfer_handle = 0,
        rr_data = \<lparr>vf_ptr = None, vf_length = 0\<rparr>\<rparr>" 0] field_bytes_example
  by (simp add: msg_holds_def field_in_def) blast

lemma encode_receive_req_bytes:
  assumes "msg_holds len msg" "18 \<le> len" "instance_id \<le> PLDM_INSTANCE_MAX"
  shows "encode_pldm_base_multipart_receive_req instance_id (Some req) (Some msg) (Some len) =
    Some (0, Some (msg\<lparr>m_hdr := wire_hdr PLDM_REQUEST instance_id PLDM_BASE PLDM_MULTIPART_RECEIVE,
      m_payload := poke (m_payload msg) 0
      ([rq_pldm_type req, rq_transfer_opflag req] @ le_of_word (rq_transfer_ctx req) @
        le_of_word (rq_transfer_handle req) @ le_of_word (rq_section_offset req) @
        le_of_word (rq_section_length req))\<rparr>), Some 18)"
  using assms
  by (simp add: encode_pldm_base_multipart_receive_req_def msg_holds_def mb_simps wire_simps)

lemma decode_receive_req_bytes:
  assumes "length m \<le> SSIZE_MAX" "m_addr msg + length m \<le> UINTPTR_MAX" "18 \<le> length m"
    and "m_payload msg = poke m 0
      ([rq_pldm_type req, rq_transfer_opflag req] @ le_of_word (rq_transfer_ctx req) @
        le_of_word (rq_transfer_handle req) @ le_of_word (rq_section_offset req) @
        le_of_word (rq_section_length req))"
  shows "decode_pldm_base_multipart_receive_req (Some msg) 18 (Some d) =
    Some (if rq_transfer_opflag req > PLDM_XFER_CURRENT_PART \<or>
             rq_transfer_handle req = 0 \<and> rq_transfer_opflag req = PLDM_XFER_NEXT_PART
          then - EPROTO else 0, Some req)"
  using assms by (simp add: decode_pldm_base_multipart_receive_req_def Let_def mb_simps wire_simps)

text \<open>
  The receiver of a MultipartReceive request reads exactly the request that was encoded,
  and accepts it exactly when the operation is one the specification knows and a request for
  the next part names the part it wants.
\<close>

theorem multipart_receive_req_roundtrip:
  assumes "msg_holds len msg" "18 \<le> len" "instance_id \<le> PLDM_INSTANCE_MAX"
  shows "\<exists>msg'. encode_pldm_base_multipart_receive_req instance_id (Some req) (Some msg) (Some len) =
      Some (0, Some msg', Some 18) \<and>
    decode_pldm_base_multipart_receive_req (Some msg') 18 (Some d) =
      Some (if rq_transfer_opflag req > PLDM_XFER_CURRENT_PART \<or>
               rq_transfer_handle req = 0 \<and> rq_transfer_opflag req = PLDM_XFER_NEXT_PART
            then - EPROTO else 0, Some req)"
proof -
  have len: "length (m_payload msg) \<le> SSIZE_MAX" "18 \<le> length (m_payload msg)"
      "m_addr msg + length (m_payload msg) \<le> UINTPTR_MAX"
    using assms(1,2) by (simp_all add: msg_holds_def)
  show ?thesis
    by (rule exI, rule conjI, rule encode_receive_req_bytes [OF assms],
        rule decode_receive_req_bytes [of "m_payload msg"]) (use len in simp_all)
qed

theorem multipart_receive_req_roundtrip_witness:
  "\<exists>msg'. encode_pldm_base_multipart_receive_req 31
      (Some \<lparr>rq_pldm_type = 7, rq_transfer_opflag = 1, rq_transfer_ctx = 4, rq_transfer_handle = 0,
        rq_section_offset = 5, rq_section_length = 6\<rparr>)
      (Some \<lparr>m_hdr = hdr_of_bytes 0 0 0, m_addr = 1000, m_payload = replicate 18 0\<rparr>) (Some 18) =
      Some (0, Some msg', Some 18) \<and>
    map_option fst (decode_pldm_base_multipart_receive_req (Some msg') 18
      (Some \<lparr>rq_pldm_type = 0, rq_transfer_opflag = 0, rq_transfer_ctx = 0, rq_transfer_handle = 0,
        rq_section_offset = 0, rq_section_length = 0\<rparr>)) = Some (- EPROTO)"
  using multipart_receive_req_roundtrip [of 18
      "\<lparr>m_hdr = hdr_of_bytes 0 0 0, m_addr = 1000, m_payload = replicate 18 0\<rparr>" 31
      "\<lparr>rq_pldm_type = 7, rq_transfer_opflag = 1, rq_transfer_ctx = 4, rq_transfer_handle = 0,
        rq_section_offset = 5, rq_section_length = 6\<rparr>"
      "\<lparr>rq_pldm_type = 0, rq_transfer_opflag = 0, rq_transfer_ctx = 0, rq_transfer_handle = 0,
        rq_section_offset = 0, rq_section_length = 0\<rparr>"]
  by (fastforce simp: msg_holds_def)

section \<open>Responses of fixed size\<close>

lemma insert_uint8s_live [mb_simps]:
  "int (length vs) \<le> r \<Longrightarrow> c + length vs \<le> length m \<Longrightarrow>
     insert_uint8s (live_mb a m c r) vs =
       live_mb a (poke m c vs) (c + length vs) (r - int (length vs))"
proof (induction vs arbitrary: m c r)
  case (Cons v vs)
  then show ?case by (simp add: mb_simps wire_simps)
qed simp

lemma extract_uint8s_live [mb_simps]:
  "int (length ds) \<le> r \<Longrightarrow> c + length ds \<le> length m \<Longrightarrow>
     extract_uint8s (live_mb a m c r) ds =
       (bytes_at m c (length ds), live_mb a m (c + length ds) (r - int (length ds)))"
proof (induction ds arbitrary: c r)
  case (Cons d ds)
  have "bytes_at m c (Suc (length ds)) = m ! c # bytes_at m (Suc c) (length ds)"
    using Cons.prems by (simp add: bytes_at_def Cons_nth_drop_Suc [symmetric])
  moreover have "word_of_le (bytes_at m c (Suc 0)) = m ! c"
    using Cons.prems by (simp add: bytes_at_def Cons_nth_drop_Suc [symmetric])
  ultimately show ?case using Cons by (simp add: mb_simps Let_def)
qed (simp add: bytes_at_def)

text \<open>
  The responses of fixed size (GetTID, GetPLDMTypes, NegotiateTransferParameters) take
  exactly their specified number of bytes and are read back as they were encoded.
\<close>

theorem base_responses_roundtrip:
  assumes "msg_holds len msg" "instance_id \<le> PLDM_INSTANCE_MAX" "11 \<le> len"
    and "gt_completion_code tr = PLDM_SUCCESS"
    and "gp_completion_code pr = PLDM_SUCCESS" "length (gp_pldm_types pr) = 8"
    and "length (gp_pldm_types dp) = 8"
    and "nr_completion_code nr = PLDM_SUCCESS" "PLDM_BASE_MIN_PART_SIZE \<le> nr_part_size nr"
    and "length (nr_protocol_support nr) = 8" "length (nr_protocol_support dn) = 8"
  shows "(\<exists>m. encode_pldm_base_get_tid_resp instance_id (Some tr) (Some msg) (Some len) =
        Some (0, Some m, Some 2) \<and>
      decode_pldm_base_get_tid_resp (Some m) 2 (Some dt) = Some (0, Some tr)) \<and>
    (\<exists>m. encode_pldm_base_get_pldm_types_resp instance_id (Some pr) (Some msg) (Some len) =
        Some (0, Some m, Some 9) \<and>
      decode_pldm_base_get_pldm_types_resp (Some m) 9 (Some dp) = Some (0, Some pr)) \<and>
    (\<exists>m. encode_pldm_base_negotiate_transfer_params_resp instance_id (Some nr) (Some msg)
        (Some len) = Some (0, Some m, Some 11) \<and>
      decode_pldm_base_negotiate_transfer_params_resp (Some m) 11 (Some dn) = Some (0, Some nr))"
proof (intro conjI)
  show "\<exists>m. encode_pldm_base_get_tid_resp instance_id (Some tr) (Some msg) (Some len) =
        Some (0, Some m, Some 2) \<and>
      decode_pldm_base_get_tid_resp (Some m) 2 (Some dt) = Some (0, Some tr)"
    using assms(1-4) by (simp add: encode_pldm_base_get_tid_resp_def
        decode_pldm_base_get_tid_resp_def msg_holds_def mb_simps wire_simps)
  show "\<exists>m. encode_pldm_base_get_pldm_types_resp instance_id (Some pr) (Some msg) (Some len) =
        Some (0, Some m, Some 9) \<and>
      decode_pldm_base_get_pldm_types_resp (Some m) 9 (Some dp) = Some (0, Some pr)"
    using assms(1-3,5-7) by (simp add: encode_pldm_base_get_pldm_types_resp_def
        decode_pldm_base_get_pldm_types_resp_def msg_holds_def mb_simps wire_simps)
  show "\<exists>m. encode_pldm_base_negotiate_transfer_params_resp instance_id (Some nr) (Some msg)
        (Some len) = Some (0, Some m, Some 11) \<and>
      decode_pldm_base_negotiate_transfer_params_resp (Some m) 11 (Some dn) = Some (0, Some nr)"
    using assms(1-3,8-11) by (simp add: encode_pldm_base_negotiate_transfer_params_resp_def
        decode_pldm_base_negotiate_transfer_params_resp_def msg_holds_def mb_simps wire_simps Let_def
        linorder_not_less)
qed

theorem base_responses_roundtrip_witness:
  "\<exists>m. encode_pldm_base_get_pldm_types_resp 4
      (Some \<lparr>gp_completion_code = 0, gp_pldm_types = [0x21, 0, 0, 0, 0, 0, 0, 0x80]\<rparr>)
      (Some \<lparr>m_hdr = hdr_of_bytes 0 0 0, m_addr = 64, m_payload = replicate 16 0\<rparr>) (Some 16) =
      Some (0, Some m, Some 9) \<and>
    decode_pldm_base_get_pldm_types_resp (Some m) 9
      (Some \<lparr>gp_completion_code = 7, gp_pldm_types = replicate 8 0\<rparr>) =
      Some (0, Some \<lparr>gp_completion_code = 0, gp_pldm_types = [0x21, 0, 0, 0, 0, 0, 0, 0x80]\<rparr>)"
  using base_responses_roundtrip [of 16
      "\<lparr>m_hdr = hdr_of_bytes 0 0 0, m_addr = 64, m_payload = replicate 16 0\<rparr>" 4
      "\<lparr>gt_completion_code = 0, gt_tid = 9\<rparr>"
      "\<lparr>gp_completion_code = 0, gp_pldm_types = [0x21, 0, 0, 0, 0, 0, 0, 0x80]\<rparr>"
      "\<lparr>gp_completion_code = 7, gp_pldm_types = replicate 8 0\<rparr>"
      "\<lparr>nr_completion_code = 0, nr_part_size = 256, nr_protocol_support = replicate 8 1\<rparr>"
      "\<lparr>nr_completion_code = 0, nr_part_size = 0, nr_protocol_support = replicate 8 0\<rparr>"
      "\<lparr>gt_completion_code = 5, gt_tid = 0\<rparr>"]
  by (simp add: msg_holds_def)

text \<open>
  The struct decoders of GetPLDMVersion and GetPLDMCommands and the encoder of the
  NegotiateTransferParameters response leave checks to the caller; what they need is stated
  exactly.
\<close>

lemma decode_get_version_req_defined:
  "ptr_holds n msg \<Longrightarrow>
   defined (decode_get_version_req msg n handle opflag type) \<longleftrightarrow>
     (n = PLDM_GET_VERSION_REQ_BYTES \<longrightarrow>
       msg \<noteq> None \<and> handle \<noteq> None \<and> opflag \<noteq> None \<and> type \<noteq> None)"
  by (cases msg; cases handle; cases opflag; cases type)
    (auto simp: decode_get_version_req_def defined_def get_bytes_def ptr_holds_def msg_holds_def)

lemma decode_get_version_resp_defined:
  "ptr_holds n msg \<Longrightarrow>
   defined (decode_get_version_resp msg n cc handle flag version) \<longleftrightarrow>
     (\<forall>m. msg = Some m \<and> handle \<noteq> None \<and> flag \<noteq> None \<and> cc \<noteq> None \<longrightarrow>
        m_payload m \<noteq> [] \<and>
        (hd (m_payload m) = PLDM_SUCCESS \<and> PLDM_GET_VERSION_RESP_BYTES \<le> n \<longrightarrow> version \<noteq> None))"
  by (cases msg; cases handle; cases flag; cases cc; cases version)
    (auto simp: decode_get_version_resp_def defined_def get_bytes_def ptr_holds_def msg_holds_def
      bytes_at_def hd_conv_nth neq_Nil_conv Suc_le_eq split: if_splits)

lemma decode_get_commands_resp_defined:
  "ptr_holds n msg \<Longrightarrow>
   defined (decode_get_commands_resp msg n cc commands) \<longleftrightarrow>
     (\<forall>m cs. msg = Some m \<and> commands = Some cs \<and> cc \<noteq> None \<longrightarrow>
        m_payload m \<noteq> [] \<and>
        (hd (m_payload m) = PLDM_SUCCESS \<and> n = PLDM_GET_COMMANDS_RESP_BYTES \<longrightarrow>
           PLDM_MAX_CMDS_PER_TYPE div 8 \<le> length cs))"
  by (cases msg; cases commands; cases cc)
    (auto simp: decode_get_commands_resp_def defined_def get_bytes_def ptr_holds_def msg_holds_def
      bytes_at_def hd_conv_nth neq_Nil_conv Suc_le_eq split: if_splits)

lemma negotiate_resp_encoder_defined:
  assumes "out_holds len msg" and "\<And>r. nr = Some r \<Longrightarrow> length (nr_protocol_support r) = 8"
  shows "defined (encode_pldm_base_negotiate_transfer_params_resp inst nr msg len) \<longleftrightarrow>
    (\<forall>r. nr = Some r \<and> msg \<noteq> None \<and> PLDM_BASE_MIN_PART_SIZE \<le> nr_part_size r \<and>
       inst \<le> PLDM_INSTANCE_MAX \<longrightarrow> len \<noteq> None)"
proof (cases len)
  case None
  let ?hdr = "header_zero\<lparr>hi_instance := inst, hi_msg_type := PLDM_RESPONSE,
    hi_pldm_type := PLDM_BASE, hi_command := PLDM_NEGOTIATE_TRANSFER_PARAMETERS\<rparr>"
  have "inst \<le> PLDM_INSTANCE_MAX \<Longrightarrow> fst (msg_pack_errno ?hdr m) = 0" for m
    by (simp add: msg_pack_errno_ok)
  moreover have "\<not> inst \<le> PLDM_INSTANCE_MAX \<Longrightarrow> fst (msg_pack_errno ?hdr m) \<noteq> 0" for m
    by (simp add: msg_pack_errno_bad_instance)
  ultimately show ?thesis using None
    by (cases nr; cases msg) (auto simp: encode_pldm_base_negotiate_transfer_params_resp_def
      defined_def case_prod_unfold Let_def not_less)
next
  case (Some n)
  have "defined (encode_pldm_base_negotiate_transfer_params_resp inst nr msg (Some n))"
    unfolding encode_pldm_base_negotiate_transfer_params_resp_def bind.bind_lunit codec_body
    by (intro codec_safe insert_uint8.op_ok insert_uint16.op_ok;
        (assumption | use assms Some in \<open>auto simp: out_holds_def ptr_holds_def msg_holds_def\<close>)?)+
  with Some show ?thesis by simp
qed

text \<open>
  C7. No codec of a base message that is told the length of the payload (every one of
  \<open>base.c\<close>) reads or writes outside the payload, whatever bytes arrived, whatever lengths they
  claim and whichever pointers are NULL, and each completes or discards its msgbuf on every
  path, except in these cases, which are exactly the ones where it is undefined:
  \<open>decode_get_version_req\<close> with the right length and a NULL pointer (it compares none);
  \<open>decode_get_version_resp\<close> and \<open>decode_get_commands_resp\<close> when the payload has no byte (the
  completion code is read before the length is looked at) or when a successful response of
  the right length meets a NULL \<open>version\<close> or a commands array under 32 bytes;
  \<open>encode_pldm_base_negotiate_transfer_params_resp\<close> with a NULL \<open>payload_length\<close> for a
  message it would encode. The caller's structs have the sizes of their types (eight bytes of
  protocol support), and a data pointer that is not NULL points at as many bytes as it says.
\<close>

theorem base_codecs_defined:
  assumes "ptr_holds n msg" and "out_holds len out"
    and "\<And>r. resp = Some r \<Longrightarrow> data_valid obj (rr_data r)"
    and "\<And>q. req = Some q \<Longrightarrow> data_valid obj (sq_data q)"
    and "\<And>q. nq = Some q \<Longrightarrow> length (nq_protocol_support q) = 8"
    and "\<And>r. nr = Some r \<Longrightarrow> length (nr_protocol_support r) = 8"
  shows "defined (decode_set_tid_req msg n tid) \<and>
    defined (decode_cc_only_resp msg n cc) \<and>
    defined (decode_get_commands_req msg n type version) \<and>
    defined (decode_pldm_base_get_tid_resp msg n tr) \<and>
    defined (decode_pldm_base_get_pldm_types_resp msg n gr) \<and>
    defined (decode_pldm_base_negotiate_transfer_params_req msg n nq) \<and>
    defined (decode_pldm_base_negotiate_transfer_params_resp msg n nr) \<and>
    defined (decode_pldm_base_multipart_receive_req msg n rq) \<and>
    defined (decode_pldm_base_multipart_receive_resp msg n rr cks) \<and>
    defined (decode_pldm_base_multipart_send_req msg n sq cks) \<and>
    defined (decode_pldm_base_multipart_send_resp msg n sr) \<and>
    defined (encode_pldm_base_get_tid_resp inst tr out len) \<and>
    defined (encode_pldm_base_get_pldm_types_resp inst gr out len) \<and>
    defined (encode_pldm_base_negotiate_transfer_params_req inst nq out len) \<and>
    defined (encode_pldm_base_multipart_receive_req inst rq out len) \<and>
    defined (encode_pldm_base_multipart_send_resp inst sr out len) \<and>
    defined (encode_base_multipart_receive_resp inst resp obj c out len) \<and>
    defined (encode_pldm_base_multipart_send_req inst req obj c out len) \<and>
    (defined (decode_get_version_req msg n handle opflag ty) \<longleftrightarrow>
      (n = PLDM_GET_VERSION_REQ_BYTES \<longrightarrow>
        msg \<noteq> None \<and> handle \<noteq> None \<and> opflag \<noteq> None \<and> ty \<noteq> None)) \<and>
    (defined (decode_get_version_resp msg n cc handle flag ver) \<longleftrightarrow>
      (\<forall>m. msg = Some m \<and> handle \<noteq> None \<and> flag \<noteq> None \<and> cc \<noteq> None \<longrightarrow>
        m_payload m \<noteq> [] \<and>
        (hd (m_payload m) = PLDM_SUCCESS \<and> PLDM_GET_VERSION_RESP_BYTES \<le> n \<longrightarrow> ver \<noteq> None))) \<and>
    (defined (decode_get_commands_resp msg n cc commands) \<longleftrightarrow>
      (\<forall>m cs. msg = Some m \<and> commands = Some cs \<and> cc \<noteq> None \<longrightarrow>
        m_payload m \<noteq> [] \<and>
        (hd (m_payload m) = PLDM_SUCCESS \<and> n = PLDM_GET_COMMANDS_RESP_BYTES \<longrightarrow>
          PLDM_MAX_CMDS_PER_TYPE div 8 \<le> length cs))) \<and>
    (defined (encode_pldm_base_negotiate_transfer_params_resp inst nr out len) \<longleftrightarrow>
      (\<forall>r. nr = Some r \<and> out \<noteq> None \<and> PLDM_BASE_MIN_PART_SIZE \<le> nr_part_size r \<and>
        inst \<le> PLDM_INSTANCE_MAX \<longrightarrow> len \<noteq> None))"
  by (intro conjI decoders_defined [OF assms(1)] encoders_defined [OF assms(2)]
      decode_get_version_req_defined [OF assms(1)] decode_get_version_resp_defined [OF assms(1)]
      decode_get_commands_resp_defined [OF assms(1)]
      negotiate_resp_encoder_defined [OF assms(2)] assms(3-6))

theorem base_codecs_defined_witness:
  "defined (decode_pldm_base_multipart_receive_resp
     (Some \<lparr>m_hdr = hdr_of_bytes 0 0 0, m_addr = 64,
            m_payload = [0, 1, 0, 0, 0, 0, 0xff, 0xff, 0xff, 0xff, 7]\<rparr>) 11
     (Some \<lparr>rr_completion_code = 0, rr_transfer_flag = 0, rr_next_transfer_handle = 0,
        rr_data = \<lparr>vf_ptr = None, vf_length = 0\<rparr>\<rparr>) (Some 0)) \<and>
   \<not> defined (decode_get_version_resp
     (Some \<lparr>m_hdr = hdr_of_bytes 0 0 0, m_addr = 64,
            m_payload = [0, 1, 0, 0, 0, 0, 0xff, 0xff, 0xff, 0xff, 7]\<rparr>) 11
     (Some 0) (Some 0) (Some 0) None)"
  using base_codecs_defined [of 11 "Some \<lparr>m_hdr = hdr_of_bytes 0 0 0, m_addr = 64,
            m_payload = [0, 1, 0, 0, 0, 0, 0xff, 0xff, 0xff, 0xff, 7]\<rparr>" None None None "[]"
      None None None None "Some 0" None None None None None
      "Some \<lparr>rr_completion_code = 0, rr_transfer_flag = 0, rr_next_transfer_handle = 0,
        rr_data = \<lparr>vf_ptr = None, vf_length = 0\<rparr>\<rparr>" "Some 0" None None 0 0 "Some 0" None None
      "Some 0" None None]
  by (simp add: ptr_holds_def out_holds_def msg_holds_def)

end
