(* ===== verification/Fwup_Codec.thy ===== *)
theory Fwup_Codec
  imports Base_Codec_Laws
begin

text \<open>
  Messages of the firmware update specification, \<^verbatim>\<open>src/dsp/firmware_update.c\<close>: the encoders
  and decoders on the side of the firmware device, and the decoders of an update agent that
  read what a device sends.
\<close>

section \<open>Constants\<close>

abbreviation (input) PLDM_QUERY_DEVICE_IDENTIFIERS :: u8 where "PLDM_QUERY_DEVICE_IDENTIFIERS \<equiv> 0x01"
abbreviation (input) PLDM_GET_FIRMWARE_PARAMETERS :: u8 where "PLDM_GET_FIRMWARE_PARAMETERS \<equiv> 0x02"
abbreviation (input) PLDM_QUERY_DOWNSTREAM_DEVICES :: u8 where "PLDM_QUERY_DOWNSTREAM_DEVICES \<equiv> 0x03"
abbreviation (input) PLDM_QUERY_DOWNSTREAM_IDENTIFIERS :: u8
  where "PLDM_QUERY_DOWNSTREAM_IDENTIFIERS \<equiv> 0x04"
abbreviation (input) PLDM_QUERY_DOWNSTREAM_FIRMWARE_PARAMETERS :: u8
  where "PLDM_QUERY_DOWNSTREAM_FIRMWARE_PARAMETERS \<equiv> 0x05"
abbreviation (input) PLDM_REQUEST_UPDATE :: u8 where "PLDM_REQUEST_UPDATE \<equiv> 0x10"
abbreviation (input) PLDM_PASS_COMPONENT_TABLE :: u8 where "PLDM_PASS_COMPONENT_TABLE \<equiv> 0x13"
abbreviation (input) PLDM_UPDATE_COMPONENT :: u8 where "PLDM_UPDATE_COMPONENT \<equiv> 0x14"
abbreviation (input) PLDM_REQUEST_FIRMWARE_DATA :: u8 where "PLDM_REQUEST_FIRMWARE_DATA \<equiv> 0x15"
abbreviation (input) PLDM_TRANSFER_COMPLETE :: u8 where "PLDM_TRANSFER_COMPLETE \<equiv> 0x16"
abbreviation (input) PLDM_VERIFY_COMPLETE :: u8 where "PLDM_VERIFY_COMPLETE \<equiv> 0x17"
abbreviation (input) PLDM_APPLY_COMPLETE :: u8 where "PLDM_APPLY_COMPLETE \<equiv> 0x18"
abbreviation (input) PLDM_ACTIVATE_FIRMWARE :: u8 where "PLDM_ACTIVATE_FIRMWARE \<equiv> 0x1a"
abbreviation (input) PLDM_GET_STATUS :: u8 where "PLDM_GET_STATUS \<equiv> 0x1b"
abbreviation (input) PLDM_CANCEL_UPDATE_COMPONENT :: u8 where "PLDM_CANCEL_UPDATE_COMPONENT \<equiv> 0x1c"
abbreviation (input) PLDM_CANCEL_UPDATE :: u8 where "PLDM_CANCEL_UPDATE \<equiv> 0x1d"

abbreviation (input) PLDM_STR_TYPE_UNKNOWN :: u8 where "PLDM_STR_TYPE_UNKNOWN \<equiv> 0"
abbreviation (input) PLDM_STR_TYPE_UTF_16BE :: u8 where "PLDM_STR_TYPE_UTF_16BE \<equiv> 5"
abbreviation (input) PLDM_FIRMWARE_MAX_STRING :: nat where "PLDM_FIRMWARE_MAX_STRING \<equiv> 64"
abbreviation (input) PLDM_FWUP_BASELINE_TRANSFER_SIZE :: u32
  where "PLDM_FWUP_BASELINE_TRANSFER_SIZE \<equiv> 32"
abbreviation (input) PLDM_FWUP_INVALID_TRANSFER_LENGTH :: int
  where "PLDM_FWUP_INVALID_TRANSFER_LENGTH \<equiv> 0x83"
abbreviation (input) PLDM_FWUP_MAX_PROGRESS_PERCENT :: u8
  where "PLDM_FWUP_MAX_PROGRESS_PERCENT \<equiv> 0x65"

section \<open>Data\<close>

text \<open>\<open>str_data\<close> holds the 64 bytes of the array.\<close>

record pldm_firmware_string =
  str_type :: u8
  str_len :: u8
  str_data :: "u8 list"

record pldm_firmware_version =
  comparison_stamp :: u32
  ver_str :: pldm_firmware_string
  ver_date :: "u8 list"

record pldm_descriptor =
  descriptor_type :: u16
  descriptor_length :: u16
  descriptor_data :: "u8 list option"

text \<open>
  \<open>struct pldm_component_parameter_entry_full\<close> and
  \<open>struct pldm_firmware_component_standalone\<close> have the same members.
\<close>

record component_entry =
  ce_classification :: u16
  ce_identifier :: u16
  ce_classification_index :: u8
  ce_active_ver :: pldm_firmware_version
  ce_pending_ver :: pldm_firmware_version
  ce_activation_methods :: u16
  ce_capabilities :: u32

record firmware_parameters_resp =
  fp_completion_code :: u8
  fp_capabilities :: u32
  fp_comp_count :: u16
  fp_active_ver :: pldm_firmware_string
  fp_pending_ver :: pldm_firmware_string

record request_update_req =
  ru_max_transfer_size :: u32
  ru_num_of_comp :: u16
  ru_max_outstanding :: u8
  ru_pkg_data_len :: u16
  ru_image_set_ver :: pldm_firmware_string

record pass_component_req =
  pt_transfer_flag :: u8
  pt_classification :: u16
  pt_identifier :: u16
  pt_classification_index :: u8
  pt_comparison_stamp :: u32
  pt_version :: pldm_firmware_string

record update_component_req =
  uc_classification :: u16
  uc_identifier :: u16
  uc_classification_index :: u8
  uc_comparison_stamp :: u32
  uc_version :: pldm_firmware_string
  uc_image_size :: u32
  uc_option_flags :: u32

record get_status_resp =
  gs_completion_code :: u8
  gs_current_state :: u8
  gs_previous_state :: u8
  gs_aux_state :: u8
  gs_aux_state_status :: u8
  gs_progress_percent :: u8
  gs_reason_code :: u8
  gs_option_flags :: u32

definition is_string_type_valid :: "u8 \<Rightarrow> bool" where
  "is_string_type_valid t \<longleftrightarrow> t = 1 \<or> t = 2 \<or> t = 3 \<or> t = 4 \<or> t = 5"

section \<open>Encoding\<close>

text \<open>One field, whose result the encoders do not look at.\<close>

definition ins8 :: "u8 \<Rightarrow> msgbuf \<Rightarrow> msgbuf" where
  "ins8 v b = snd (pldm_msgbuf_insert_uint8 b v)"

definition ins16 :: "u16 \<Rightarrow> msgbuf \<Rightarrow> msgbuf" where
  "ins16 v b = snd (pldm_msgbuf_insert_uint16 b v)"

definition ins32 :: "u32 \<Rightarrow> msgbuf \<Rightarrow> msgbuf" where
  "ins32 v b = snd (pldm_msgbuf_insert_uint32 b v)"

definition ins64 :: "u64 \<Rightarrow> msgbuf \<Rightarrow> msgbuf" where
  "ins64 v b = snd (pldm_msgbuf_insert_uint64 b v)"

text \<open>
  The shape the encoders of fixed body share: check the pointers, pack the header (\<open>err\<close>
  is returned when that fails), insert the body into a msgbuf over the payload, and store
  the length used.
\<close>

definition fwup_encode ::
    "int \<Rightarrow> u8 \<Rightarrow> u8 \<Rightarrow> u8 \<Rightarrow> (msgbuf \<Rightarrow> msgbuf) \<Rightarrow> pldm_msg option \<Rightarrow> nat option \<Rightarrow>
      (int \<times> pldm_msg option \<times> nat option) option" where
  "fwup_encode err msg_type instance_id command body msg payload_length =
     (case (msg, payload_length) of
        (Some msg, Some len) \<Rightarrow> do {
          (rc, m) \<leftarrow> encode_pldm_header_only msg_type instance_id PLDM_FWUP command (Some msg);
          msg \<leftarrow> m;
          if rc \<noteq> 0 then Some (err, Some msg, Some len)
          else
            let (rc, b) = pldm__msgbuf_init_errno 0 (m_addr msg) (m_payload msg) len in
            if rc \<noteq> 0 then mb_exit b (rc, Some msg, Some len)
            else
              let (rc, len, b) = pldm_msgbuf_complete_used (body b) len len
              in mb_exit b (rc, Some (msg\<lparr>m_payload := mb_mem b\<rparr>), Some len) }
      | _ \<Rightarrow> Some (- EINVAL, msg, payload_length))"

definition encode_request_update_resp ::
    "u8 \<Rightarrow> u16 \<Rightarrow> u8 \<Rightarrow> pldm_msg option \<Rightarrow> nat option \<Rightarrow>
      (int \<times> pldm_msg option \<times> nat option) option" where
  "encode_request_update_resp instance_id fd_meta_data_len fd_will_send_pkg_data =
     fwup_encode (- EINVAL) PLDM_RESPONSE instance_id PLDM_REQUEST_UPDATE
       (\<lambda>b. ins8 fd_will_send_pkg_data (ins16 fd_meta_data_len (ins8 PLDM_SUCCESS b)))"

definition encode_pass_component_table_resp ::
    "u8 \<Rightarrow> u8 \<Rightarrow> u8 \<Rightarrow> pldm_msg option \<Rightarrow> nat option \<Rightarrow>
      (int \<times> pldm_msg option \<times> nat option) option" where
  "encode_pass_component_table_resp instance_id comp_resp comp_resp_code =
     fwup_encode (- EINVAL) PLDM_RESPONSE instance_id PLDM_PASS_COMPONENT_TABLE
       (\<lambda>b. ins8 comp_resp_code (ins8 comp_resp (ins8 PLDM_SUCCESS b)))"

definition encode_update_component_resp ::
    "u8 \<Rightarrow> u8 \<Rightarrow> u8 \<Rightarrow> u32 \<Rightarrow> u16 \<Rightarrow> pldm_msg option \<Rightarrow> nat option \<Rightarrow>
      (int \<times> pldm_msg option \<times> nat option) option" where
  "encode_update_component_resp instance_id compat_resp compat_resp_code flags time_before =
     fwup_encode (- EINVAL) PLDM_RESPONSE instance_id PLDM_UPDATE_COMPONENT
       (\<lambda>b. ins16 time_before (ins32 flags (ins8 compat_resp_code (ins8 compat_resp
              (ins8 PLDM_SUCCESS b)))))"

definition encode_request_firmware_data_req ::
    "u8 \<Rightarrow> u32 \<Rightarrow> u32 \<Rightarrow> pldm_msg option \<Rightarrow> nat option \<Rightarrow>
      (int \<times> pldm_msg option \<times> nat option) option" where
  "encode_request_firmware_data_req instance_id offset len =
     fwup_encode (- EINVAL) PLDM_REQUEST instance_id PLDM_REQUEST_FIRMWARE_DATA
       (\<lambda>b. ins32 len (ins32 offset b))"

definition encode_transfer_complete_req ::
    "u8 \<Rightarrow> u8 \<Rightarrow> pldm_msg option \<Rightarrow> nat option \<Rightarrow> (int \<times> pldm_msg option \<times> nat option) option" where
  "encode_transfer_complete_req instance_id transfer_result =
     fwup_encode (- EINVAL) PLDM_REQUEST instance_id PLDM_TRANSFER_COMPLETE (ins8 transfer_result)"

text \<open>Here the source returns the positive number when the header cannot be packed.\<close>

definition encode_verify_complete_req ::
    "u8 \<Rightarrow> u8 \<Rightarrow> pldm_msg option \<Rightarrow> nat option \<Rightarrow> (int \<times> pldm_msg option \<times> nat option) option" where
  "encode_verify_complete_req instance_id verify_result =
     fwup_encode EINVAL PLDM_REQUEST instance_id PLDM_VERIFY_COMPLETE (ins8 verify_result)"

definition encode_apply_complete_req ::
    "u8 \<Rightarrow> u8 \<Rightarrow> u16 \<Rightarrow> pldm_msg option \<Rightarrow> nat option \<Rightarrow>
      (int \<times> pldm_msg option \<times> nat option) option" where
  "encode_apply_complete_req instance_id apply_result activation_methods =
     fwup_encode (- EINVAL) PLDM_REQUEST instance_id PLDM_APPLY_COMPLETE
       (\<lambda>b. ins16 activation_methods (ins8 apply_result b))"

definition encode_activate_firmware_resp ::
    "u8 \<Rightarrow> u16 \<Rightarrow> pldm_msg option \<Rightarrow> nat option \<Rightarrow> (int \<times> pldm_msg option \<times> nat option) option" where
  "encode_activate_firmware_resp instance_id estimated_time =
     fwup_encode (- EINVAL) PLDM_RESPONSE instance_id PLDM_ACTIVATE_FIRMWARE
       (\<lambda>b. ins16 estimated_time (ins8 PLDM_SUCCESS b))"

definition encode_get_status_resp ::
    "u8 \<Rightarrow> get_status_resp option \<Rightarrow> pldm_msg option \<Rightarrow> nat option \<Rightarrow>
      (int \<times> pldm_msg option \<times> nat option) option" where
  "encode_get_status_resp instance_id status msg payload_length =
     (case status of
        None \<Rightarrow> Some (- EINVAL, msg, payload_length)
      | Some st \<Rightarrow>
          if msg = None \<or> payload_length = None then Some (- EINVAL, msg, payload_length)
          else if gs_completion_code st \<noteq> PLDM_SUCCESS then Some (- EINVAL, msg, payload_length)
          else fwup_encode (- EINVAL) PLDM_RESPONSE instance_id PLDM_GET_STATUS
            (\<lambda>b. ins32 (gs_option_flags st) (ins8 (gs_reason_code st) (ins8 (gs_progress_percent st)
                   (ins8 (gs_aux_state_status st) (ins8 (gs_aux_state st)
                   (ins8 (gs_previous_state st) (ins8 (gs_current_state st)
                   (ins8 PLDM_SUCCESS b)))))))) msg payload_length)"

definition encode_cancel_update_resp ::
    "u8 \<Rightarrow> u8 \<Rightarrow> u64 \<Rightarrow> pldm_msg option \<Rightarrow> nat option \<Rightarrow>
      (int \<times> pldm_msg option \<times> nat option) option" where
  "encode_cancel_update_resp instance_id indication bitmap =
     fwup_encode (- EINVAL) PLDM_RESPONSE instance_id PLDM_CANCEL_UPDATE
       (\<lambda>b. ins64 bitmap (ins8 indication (ins8 PLDM_SUCCESS b)))"

section \<open>Encoding with variable parts\<close>

abbreviation (input) PLDM_FWUP_COMPONENT_RELEASE_DATA_LEN :: nat
  where "PLDM_FWUP_COMPONENT_RELEASE_DATA_LEN \<equiv> 8"

text \<open>The bytes of an array, whose result the encoders return when it is not 0.\<close>

definition ins_array :: "nat \<Rightarrow> u8 list \<Rightarrow> msgbuf \<Rightarrow> int \<times> msgbuf" where
  "ins_array n src b = pldm__msgbuf_insert_array_void b n src n"

definition descriptors_len :: "pldm_descriptor list \<Rightarrow> u32" where
  "descriptors_len ds = foldl (\<lambda>n d. n + (4 + ucast (descriptor_length d))) 0 ds"

text \<open>The loop over the descriptors: the result of the first that cannot be inserted.\<close>

fun ins_descriptors :: "pldm_descriptor list \<Rightarrow> msgbuf \<Rightarrow> int \<times> msgbuf" where
  "ins_descriptors [] b = (0, b)"
| "ins_descriptors (d # ds) b =
     (let b = ins16 (descriptor_length d) (ins16 (descriptor_type d) b) in
      case descriptor_data d of
        None \<Rightarrow> (- EINVAL, b)
      | Some data \<Rightarrow>
          let (rc, b) = ins_array (unat (descriptor_length d)) data b in
          if rc \<noteq> 0 then (rc, b) else ins_descriptors ds b)"

text \<open>
  \<open>descriptors\<close>: the array, \<open>None\<close> for NULL. Reading past its end is undefined.
\<close>

definition encode_query_device_identifiers_resp ::
    "u8 \<Rightarrow> u8 \<Rightarrow> pldm_descriptor list option \<Rightarrow> pldm_msg option \<Rightarrow> nat option \<Rightarrow>
      (int \<times> pldm_msg option \<times> nat option) option" where
  "encode_query_device_identifiers_resp instance_id descriptor_count descriptors msg
     payload_length =
     (case (descriptors, msg, payload_length) of
        (Some ds, Some msg, Some len) \<Rightarrow>
          if descriptor_count < 1 then Some (- EINVAL, Some msg, Some len)
          else do {
            (rc, m) \<leftarrow> encode_pldm_header_only PLDM_RESPONSE instance_id PLDM_FWUP
                        PLDM_QUERY_DEVICE_IDENTIFIERS (Some msg);
            msg \<leftarrow> m;
            if rc \<noteq> 0 then Some (- EINVAL, Some msg, Some len)
            else
              let (rc, b) = pldm__msgbuf_init_errno 0 (m_addr msg) (m_payload msg) len in
              if rc \<noteq> 0 then mb_exit b (rc, Some msg, Some len)
              else if length ds < unat descriptor_count then None
              else
                let ds = take (unat descriptor_count) ds;
                    b = ins8 descriptor_count (ins32 (descriptors_len ds) (ins8 PLDM_SUCCESS b));
                    (rc, b) = ins_descriptors ds b
                in if rc \<noteq> 0 then
                     let (rc, b) = pldm__msgbuf_discard b rc
                     in mb_exit b (rc, Some (msg\<lparr>m_payload := mb_mem b\<rparr>), Some len)
                   else
                     let (rc, len, b) = pldm_msgbuf_complete_used b len len
                     in mb_exit b (rc, Some (msg\<lparr>m_payload := mb_mem b\<rparr>), Some len) }
      | _ \<Rightarrow> Some (- EINVAL, msg, payload_length))"

text \<open>
  The body of GetFirmwareParameters, stopping at the first string that cannot be inserted.
\<close>

definition ins_parameters :: "firmware_parameters_resp \<Rightarrow> msgbuf \<Rightarrow> int \<times> msgbuf" where
  "ins_parameters d b =
     (let active = fp_active_ver d; pending = fp_pending_ver d;
          b = ins8 (fp_completion_code d) b;
          b = ins32 (fp_capabilities d) b;
          b = ins16 (fp_comp_count d) b;
          b = ins8 (str_type active) b;
          b = ins8 (str_len active) b;
          b = ins8 (str_type pending) b;
          b = ins8 (str_len pending) b;
          (rc, b) = ins_array (unat (str_len active)) (str_data active) b
      in if rc \<noteq> 0 then (rc, b)
         else ins_array (unat (str_len pending)) (str_data pending) b)"

definition encode_get_firmware_parameters_resp ::
    "u8 \<Rightarrow> firmware_parameters_resp option \<Rightarrow> pldm_msg option \<Rightarrow> nat option \<Rightarrow>
      (int \<times> pldm_msg option \<times> nat option) option" where
  "encode_get_firmware_parameters_resp instance_id resp_data msg payload_length =
     (case (resp_data, msg, payload_length) of
        (Some d, Some msg, Some len) \<Rightarrow>
          let active = fp_active_ver d; pending = fp_pending_ver d in
          if \<not> is_string_type_valid (str_type active) \<or> str_len active = 0
          then Some (- EINVAL, Some msg, Some len)
          else if str_len pending = 0 \<and> str_type pending \<noteq> PLDM_STR_TYPE_UNKNOWN
          then Some (- EINVAL, Some msg, Some len)
          else if str_len pending \<noteq> 0 \<and> \<not> is_string_type_valid (str_type pending)
          then Some (- EINVAL, Some msg, Some len)
          else do {
            (rc, m) \<leftarrow> encode_pldm_header_only PLDM_RESPONSE instance_id PLDM_FWUP
                        PLDM_GET_FIRMWARE_PARAMETERS (Some msg);
            msg \<leftarrow> m;
            if rc \<noteq> 0 then Some (- EINVAL, Some msg, Some len)
            else
              let (rc, b) = pldm__msgbuf_init_errno 0 (m_addr msg) (m_payload msg) len in
              if rc \<noteq> 0 then mb_exit b (rc, Some msg, Some len)
              else
                let (rc, b) = ins_parameters d b in
                if rc \<noteq> 0 then
                  let (rc, b) = pldm__msgbuf_discard b rc
                  in mb_exit b (rc, Some (msg\<lparr>m_payload := mb_mem b\<rparr>), Some len)
                else
                  let (rc, len, b) = pldm_msgbuf_complete_used b len len
                  in mb_exit b (rc, Some (msg\<lparr>m_payload := mb_mem b\<rparr>), Some len) }
      | _ \<Rightarrow> Some (- EINVAL, msg, payload_length))"

text \<open>The arrays of a component entry, stopping at the first that cannot be inserted.\<close>

definition ins_comp_entry :: "component_entry \<Rightarrow> msgbuf \<Rightarrow> int \<times> msgbuf" where
  "ins_comp_entry ce b =
     (let active = ce_active_ver ce; pending = ce_pending_ver ce;
          b = ins16 (ce_classification ce) b;
          b = ins16 (ce_identifier ce) b;
          b = ins8 (ce_classification_index ce) b;
          b = ins32 (comparison_stamp active) b;
          b = ins8 (str_type (ver_str active)) b;
          b = ins8 (str_len (ver_str active)) b;
          (rc, b) = ins_array PLDM_FWUP_COMPONENT_RELEASE_DATA_LEN (ver_date active) b
      in if rc \<noteq> 0 then (rc, b)
         else
           let b = ins32 (comparison_stamp pending) b;
               b = ins8 (str_type (ver_str pending)) b;
               b = ins8 (str_len (ver_str pending)) b;
               (rc, b) = ins_array PLDM_FWUP_COMPONENT_RELEASE_DATA_LEN (ver_date pending) b
           in if rc \<noteq> 0 then (rc, b)
              else
                let b = ins16 (ce_activation_methods ce) b;
                    b = ins32 (ce_capabilities ce) b;
                    (rc, b) = ins_array (unat (str_len (ver_str active)))
                                (str_data (ver_str active)) b
                in if rc \<noteq> 0 then (rc, b)
                   else ins_array (unat (str_len (ver_str pending)))
                          (str_data (ver_str pending)) b)"

text \<open>
  \<open>payload\<close>: the address and the bytes of the object the pointer leads to, \<open>None\<close> for NULL.
\<close>

definition encode_get_firmware_parameters_resp_comp_entry ::
    "component_entry option \<Rightarrow> (nat \<times> u8 list) option \<Rightarrow> nat option \<Rightarrow>
      (int \<times> (nat \<times> u8 list) option \<times> nat option) option" where
  "encode_get_firmware_parameters_resp_comp_entry ce payload payload_length =
     (case (ce, payload, payload_length) of
        (Some ce, Some (a, p), Some len) \<Rightarrow>
          let (rc, b) = pldm__msgbuf_init_errno 0 a p len in
          if rc \<noteq> 0 then mb_exit b (rc, Some (a, p), Some len)
          else
            let (rc, b) = ins_comp_entry ce b in
            if rc \<noteq> 0 then
              let (rc, b) = pldm__msgbuf_discard b rc
              in mb_exit b (rc, Some (a, mb_mem b), Some len)
            else
              let (rc, len, b) = pldm_msgbuf_complete_used b len len
              in mb_exit b (rc, Some (a, mb_mem b), Some len)
      | _ \<Rightarrow> Some (- EINVAL, payload, payload_length))"

section \<open>Decoding\<close>

text \<open>
  The decoders fill a structure that the caller leaves uninitialised; its contents before the
  call are an argument, and a field that could not be extracted keeps them.
\<close>

definition decode_request_update_req ::
    "pldm_msg option \<Rightarrow> nat \<Rightarrow> request_update_req option \<Rightarrow>
      (int \<times> request_update_req option) option" where
  "decode_request_update_req msg payload_length req =
     (case (msg, req) of
        (Some msg, Some r) \<Rightarrow>
          let (rc, b) = pldm__msgbuf_init_errno 0 (m_addr msg) (m_payload msg) payload_length in
          if rc \<noteq> 0 then mb_exit b (rc, req)
          else
            let (_, v, b) = pldm__msgbuf_extract_uint32 b (ru_max_transfer_size r);
                r = r\<lparr>ru_max_transfer_size := v\<rparr>;
                (_, v, b) = pldm__msgbuf_extract_uint16 b (ru_num_of_comp r);
                r = r\<lparr>ru_num_of_comp := v\<rparr>;
                (_, v, b) = pldm__msgbuf_extract_uint8 b (ru_max_outstanding r);
                r = r\<lparr>ru_max_outstanding := v\<rparr>;
                (_, v, b) = pldm__msgbuf_extract_uint16 b (ru_pkg_data_len r);
                r = r\<lparr>ru_pkg_data_len := v\<rparr>;
                (rc, t, b) = pldm__msgbuf_extract_uint8 b 0
            in if rc \<noteq> 0 then
                 let (rc, b) = pldm__msgbuf_discard b rc in mb_exit b (rc, Some r)
               else if t > PLDM_STR_TYPE_UTF_16BE then
                 let (rc, b) = pldm__msgbuf_discard b (- EBADMSG) in mb_exit b (rc, Some r)
               else
                 let s = (ru_image_set_ver r)\<lparr>str_type := t\<rparr>;
                     (_, v, b) = pldm__msgbuf_extract_uint8 b (str_len s);
                     s = s\<lparr>str_len := v\<rparr>
                 in if rc \<noteq> 0 then
                      let (rc, b) = pldm__msgbuf_discard b rc
                      in mb_exit b (rc, Some (r\<lparr>ru_image_set_ver := s\<rparr>))
                    else
                      let (rc, v, b) = pldm__msgbuf_extract_array_void b (unat (str_len s))
                             (str_data s) PLDM_FIRMWARE_MAX_STRING;
                          r = r\<lparr>ru_image_set_ver := s\<lparr>str_data := v\<rparr>\<rparr>
                      in if rc \<noteq> 0 then
                           let (rc, b) = pldm__msgbuf_discard b rc in mb_exit b (rc, Some r)
                         else
                           let (rc, b) = pldm_msgbuf_complete_consumed b in mb_exit b (rc, Some r)
      | _ \<Rightarrow> Some (- EINVAL, req))"

text \<open>
  The end PassComponentTable and UpdateComponent share: the type, the length and the bytes
  of a version string, then the end of the message.
\<close>

definition extract_version ::
    "pldm_firmware_string \<Rightarrow> msgbuf \<Rightarrow> int \<times> pldm_firmware_string \<times> msgbuf" where
  "extract_version s b =
     (let (rc, t, b) = pldm__msgbuf_extract_uint8 b 0 in
      if rc \<noteq> 0 then let (rc, b) = pldm__msgbuf_discard b rc in (rc, s, b)
      else if t > PLDM_STR_TYPE_UTF_16BE
      then let (rc, b) = pldm__msgbuf_discard b (- EBADMSG) in (rc, s, b)
      else
        let s = s\<lparr>str_type := t\<rparr>;
            (rc, v, b) = pldm__msgbuf_extract_uint8 b (str_len s);
            s = s\<lparr>str_len := v\<rparr>
        in if rc \<noteq> 0 then let (rc, b) = pldm__msgbuf_discard b rc in (rc, s, b)
           else
             let (rc, v, b) = pldm__msgbuf_extract_array_void b (unat (str_len s)) (str_data s)
                    PLDM_FIRMWARE_MAX_STRING;
                 s = s\<lparr>str_data := v\<rparr>
             in if rc \<noteq> 0 then let (rc, b) = pldm__msgbuf_discard b rc in (rc, s, b)
                else let (rc, b) = pldm_msgbuf_complete_consumed b in (rc, s, b))"

definition decode_pass_component_table_req ::
    "pldm_msg option \<Rightarrow> nat \<Rightarrow> pass_component_req option \<Rightarrow>
      (int \<times> pass_component_req option) option" where
  "decode_pass_component_table_req msg payload_length pcomp =
     (case (msg, pcomp) of
        (Some msg, Some p) \<Rightarrow>
          let (rc, b) = pldm__msgbuf_init_errno 0 (m_addr msg) (m_payload msg) payload_length in
          if rc \<noteq> 0 then mb_exit b (rc, pcomp)
          else
            let (_, v, b) = pldm__msgbuf_extract_uint8 b (pt_transfer_flag p);
                p = p\<lparr>pt_transfer_flag := v\<rparr>;
                (_, v, b) = pldm__msgbuf_extract_uint16 b (pt_classification p);
                p = p\<lparr>pt_classification := v\<rparr>;
                (_, v, b) = pldm__msgbuf_extract_uint16 b (pt_identifier p);
                p = p\<lparr>pt_identifier := v\<rparr>;
                (_, v, b) = pldm__msgbuf_extract_uint8 b (pt_classification_index p);
                p = p\<lparr>pt_classification_index := v\<rparr>;
                (_, v, b) = pldm__msgbuf_extract_uint32 b (pt_comparison_stamp p);
                p = p\<lparr>pt_comparison_stamp := v\<rparr>;
                (rc, s, b) = extract_version (pt_version p) b
            in mb_exit b (rc, Some (p\<lparr>pt_version := s\<rparr>))
      | _ \<Rightarrow> Some (- EINVAL, pcomp))"

definition decode_update_component_req ::
    "pldm_msg option \<Rightarrow> nat \<Rightarrow> update_component_req option \<Rightarrow>
      (int \<times> update_component_req option) option" where
  "decode_update_component_req msg payload_length up =
     (case (msg, up) of
        (Some msg, Some u) \<Rightarrow>
          let (rc, b) = pldm__msgbuf_init_errno 0 (m_addr msg) (m_payload msg) payload_length in
          if rc \<noteq> 0 then mb_exit b (rc, up)
          else
            let (_, v, b) = pldm__msgbuf_extract_uint16 b (uc_classification u);
                u = u\<lparr>uc_classification := v\<rparr>;
                (_, v, b) = pldm__msgbuf_extract_uint16 b (uc_identifier u);
                u = u\<lparr>uc_identifier := v\<rparr>;
                (_, v, b) = pldm__msgbuf_extract_uint8 b (uc_classification_index u);
                u = u\<lparr>uc_classification_index := v\<rparr>;
                (_, v, b) = pldm__msgbuf_extract_uint32 b (uc_comparison_stamp u);
                u = u\<lparr>uc_comparison_stamp := v\<rparr>;
                (_, v, b) = pldm__msgbuf_extract_uint32 b (uc_image_size u);
                u = u\<lparr>uc_image_size := v\<rparr>;
                (_, v, b) = pldm__msgbuf_extract_uint32 b (uc_option_flags u);
                u = u\<lparr>uc_option_flags := v\<rparr>;
                (rc, s, b) = extract_version (uc_version u) b
            in mb_exit b (rc, Some (u\<lparr>uc_version := s\<rparr>))
      | _ \<Rightarrow> Some (- EINVAL, up))"

text \<open>A failure to set up the msgbuf is reported as success here.\<close>

definition decode_activate_firmware_req ::
    "pldm_msg option \<Rightarrow> nat \<Rightarrow> bool option \<Rightarrow> (int \<times> bool option) option" where
  "decode_activate_firmware_req msg payload_length self_contained =
     (case (msg, self_contained) of
        (Some msg, Some _) \<Rightarrow>
          let (rc, b) = pldm__msgbuf_init_errno 0 (m_addr msg) (m_payload msg) payload_length in
          if rc \<noteq> 0 then mb_exit b (0, self_contained)
          else
            let (_, v, b) = pldm__msgbuf_extract_uint8 b 0;
                (rc, b) = pldm_msgbuf_complete_consumed b
            in if rc \<noteq> 0 then mb_exit b (rc, self_contained) else mb_exit b (0, Some (v \<noteq> 0))
      | _ \<Rightarrow> Some (- EINVAL, self_contained))"

text \<open>The decoders of an update agent, laid over the payload.\<close>

definition decode_request_firmware_data_req ::
    "pldm_msg option \<Rightarrow> nat \<Rightarrow> u32 option \<Rightarrow> u32 option \<Rightarrow>
      (int \<times> u32 option \<times> u32 option) option" where
  "decode_request_firmware_data_req msg payload_length offset len =
     (case (msg, offset, len) of
        (Some msg, Some _, Some _) \<Rightarrow>
          if payload_length \<noteq> 8 then Some (PLDM_ERROR_INVALID_LENGTH, offset, len)
          else do {
            o4 \<leftarrow> get_bytes 0 4 msg;
            l4 \<leftarrow> get_bytes 4 4 msg;
            let off = word_of_le o4; l = word_of_le l4 in
            if l < PLDM_FWUP_BASELINE_TRANSFER_SIZE
            then Some (PLDM_FWUP_INVALID_TRANSFER_LENGTH, Some off, Some l)
            else Some (PLDM_SUCCESS, Some off, Some l) }
      | _ \<Rightarrow> Some (PLDM_ERROR_INVALID_DATA, offset, len))"

definition decode_transfer_complete_req ::
    "pldm_msg option \<Rightarrow> nat \<Rightarrow> u8 option \<Rightarrow> (int \<times> u8 option) option" where
  "decode_transfer_complete_req msg payload_length transfer_result =
     (case (msg, transfer_result) of
        (Some msg, Some _) \<Rightarrow>
          if payload_length \<noteq> 1 then Some (PLDM_ERROR_INVALID_LENGTH, transfer_result)
          else do { r \<leftarrow> get_bytes 0 1 msg; Some (PLDM_SUCCESS, Some (r ! 0)) }
      | _ \<Rightarrow> Some (PLDM_ERROR_INVALID_DATA, transfer_result))"

definition decode_verify_complete_req ::
    "pldm_msg option \<Rightarrow> nat \<Rightarrow> u8 option \<Rightarrow> (int \<times> u8 option) option" where
  "decode_verify_complete_req msg payload_length verify_result =
     (case (msg, verify_result) of
        (Some msg, Some _) \<Rightarrow>
          if payload_length \<noteq> 1 then Some (PLDM_ERROR_INVALID_LENGTH, verify_result)
          else do { r \<leftarrow> get_bytes 0 1 msg; Some (PLDM_SUCCESS, Some (r ! 0)) }
      | _ \<Rightarrow> Some (PLDM_ERROR_INVALID_DATA, verify_result))"

abbreviation (input) PLDM_FWUP_APPLY_SUCCESS_WITH_ACTIVATION_METHOD :: u8
  where "PLDM_FWUP_APPLY_SUCCESS_WITH_ACTIVATION_METHOD \<equiv> 1"

definition decode_apply_complete_req ::
    "pldm_msg option \<Rightarrow> nat \<Rightarrow> u8 option \<Rightarrow> u16 option \<Rightarrow>
      (int \<times> u8 option \<times> u16 option) option" where
  "decode_apply_complete_req msg payload_length apply_result methods =
     (case (msg, apply_result, methods) of
        (Some msg, Some _, Some _) \<Rightarrow>
          if payload_length \<noteq> 3 then Some (PLDM_ERROR_INVALID_LENGTH, apply_result, methods)
          else do {
            r \<leftarrow> get_bytes 0 1 msg;
            m \<leftarrow> get_bytes 1 2 msg;
            let res = r ! 0; v = word_of_le m in
            if res \<noteq> PLDM_FWUP_APPLY_SUCCESS_WITH_ACTIVATION_METHOD \<and> v \<noteq> 0
            then Some (PLDM_ERROR_INVALID_DATA, Some res, Some v)
            else Some (PLDM_SUCCESS, Some res, Some v) }
      | _ \<Rightarrow> Some (PLDM_ERROR_INVALID_DATA, apply_result, methods))"

definition is_state_valid :: "u8 \<Rightarrow> bool" where
  "is_state_valid s \<longleftrightarrow> s = 0 \<or> s = 1 \<or> s = 2 \<or> s = 3 \<or> s = 4 \<or> s = 5 \<or> s = 6"

definition is_aux_state_valid :: "u8 \<Rightarrow> bool" where
  "is_aux_state_valid s \<longleftrightarrow> s = 0 \<or> s = 1 \<or> s = 2 \<or> s = 3 \<or> s = 4"

definition is_aux_state_status_valid :: "u8 \<Rightarrow> bool" where
  "is_aux_state_status_valid s \<longleftrightarrow> s = 0 \<or> s = 0x09 \<or> s = 0x0a \<or> (s \<ge> 0x70 \<and> s \<le> 0xef)"

definition is_reason_code_valid :: "u8 \<Rightarrow> bool" where
  "is_reason_code_valid r \<longleftrightarrow>
     r = 0 \<or> r = 1 \<or> r = 2 \<or> r = 3 \<or> r = 4 \<or> r = 5 \<or> r = 6 \<or> r = 7 \<or> r \<ge> 200"

text \<open>The out parameters as one record, \<open>None\<close> when one of the pointers is NULL.\<close>

definition decode_get_status_resp ::
    "pldm_msg option \<Rightarrow> nat \<Rightarrow> get_status_resp option \<Rightarrow> (int \<times> get_status_resp option) option" where
  "decode_get_status_resp msg payload_length out =
     (case (msg, out) of
        (Some msg, Some o0) \<Rightarrow>
          if payload_length = 0 then Some (PLDM_ERROR_INVALID_DATA, out)
          else do {
            c \<leftarrow> get_bytes 0 1 msg;
            let o1 = o0\<lparr>gs_completion_code := c ! 0\<rparr> in
            if c ! 0 \<noteq> PLDM_SUCCESS then Some (PLDM_SUCCESS, Some o1)
            else if payload_length \<noteq> 11 then Some (PLDM_ERROR_INVALID_LENGTH, Some o1)
            else do {
              r \<leftarrow> get_bytes 0 11 msg;
              if \<not> is_state_valid (r ! 1) then Some (PLDM_ERROR_INVALID_DATA, Some o1)
              else if \<not> is_state_valid (r ! 2) then Some (PLDM_ERROR_INVALID_DATA, Some o1)
              else if \<not> is_aux_state_valid (r ! 3) then Some (PLDM_ERROR_INVALID_DATA, Some o1)
              else if \<not> is_aux_state_status_valid (r ! 4)
              then Some (PLDM_ERROR_INVALID_DATA, Some o1)
              else if r ! 5 > PLDM_FWUP_MAX_PROGRESS_PERCENT
              then Some (PLDM_ERROR_INVALID_DATA, Some o1)
              else if \<not> is_reason_code_valid (r ! 6) then Some (PLDM_ERROR_INVALID_DATA, Some o1)
              else if r ! 1 = 0 \<and> r ! 3 \<noteq> 3 \<and> r ! 3 \<noteq> 4
              then Some (PLDM_ERROR_INVALID_DATA, Some o1)
              else if (r ! 1 = 1 \<or> r ! 1 = 2) \<and> r ! 3 \<noteq> 3
              then Some (PLDM_ERROR_INVALID_DATA, Some o1)
              else Some (PLDM_SUCCESS,
                Some \<lparr>gs_completion_code = c ! 0, gs_current_state = r ! 1,
                      gs_previous_state = r ! 2, gs_aux_state = r ! 3, gs_aux_state_status = r ! 4,
                      gs_progress_percent = r ! 5, gs_reason_code = r ! 6,
                      gs_option_flags = word_of_le (bytes_at r 7 4)\<rparr>) } }
      | _ \<Rightarrow> Some (PLDM_ERROR_INVALID_DATA, out))"

end
