(* ===== verification/Fwup_Laws.thy ===== *)
theory Fwup_Laws
  imports Fwup_Codec
begin

text \<open>
  What the encoders of \<^verbatim>\<open>Fwup_Codec\<close> put on the wire. The locale \<open>payload_writer\<close> states the
  contract of a piece of an encoder: with enough room it writes certain bytes, otherwise the
  msgbuf is left exhausted. Writers compose, so that each encoder is described by the list of
  bytes it writes and by nothing else.
\<close>

section \<open>Writers\<close>

text \<open>What every piece of an encoder keeps, whatever it writes.\<close>

locale payload_filler =
  fixes w :: "msgbuf \<Rightarrow> int \<times> msgbuf"
  assumes fill_ok: "mb_ok b \<Longrightarrow> mb_ok (snd (w b))"
    and fill_length: "mb_ok b \<Longrightarrow> length (mb_mem (snd (w b))) = length (mb_mem b)"
    and fill_rc: "mb_ok b \<Longrightarrow> fst (w b) \<le> 0"

locale payload_writer =
  fixes w :: "msgbuf \<Rightarrow> int \<times> msgbuf" and bs :: "u8 list"
  assumes writes: "int (length bs) \<le> r \<Longrightarrow> r \<le> INTMAX_MAX \<Longrightarrow> c + nat r \<le> length m \<Longrightarrow>
      w (live_mb a m c r) = (0, live_mb a (poke m c bs) (c + length bs) (r - int (length bs)))"
    and short: "mb_ok b \<Longrightarrow> mb_remaining b < int (length bs) \<Longrightarrow>
      (fst (w b) = 0 \<or> fst (w b) = - EOVERFLOW) \<and> mb_ok (snd (w b)) \<and>
      mb_remaining (snd (w b)) < 0 \<and> length (mb_mem (snd (w b))) = length (mb_mem b)"

lemma mb_ok_live:
  assumes "mb_ok b" "0 \<le> mb_remaining b"
  obtains c where "b = live_mb (mb_base b) (mb_mem b) c (mb_remaining b)"
    "c + nat (mb_remaining b) \<le> length (mb_mem b)" "mb_remaining b \<le> INTMAX_MAX"
  using assms by (cases b) (auto simp: mb_ok_def live_mb_def split: option.splits)

lemma mb_ok_live_mb:
  "r \<le> INTMAX_MAX \<Longrightarrow> 0 \<le> r \<Longrightarrow> c + nat r \<le> length m \<Longrightarrow> mb_ok (live_mb a m c r)"
  by (simp add: mb_ok_def live_mb_def)

context payload_writer
begin

lemma is_filler: "payload_filler w"
proof
  fix b :: msgbuf
  assume ok: "mb_ok b"
  have "mb_ok (snd (w b)) \<and> length (mb_mem (snd (w b))) = length (mb_mem b) \<and> fst (w b) \<le> 0"
  proof (cases "mb_remaining b < int (length bs)")
    case True
    then show ?thesis using short [OF ok True] by auto
  next
    case False
    then obtain c where c: "b = live_mb (mb_base b) (mb_mem b) c (mb_remaining b)"
        "c + nat (mb_remaining b) \<le> length (mb_mem b)" "mb_remaining b \<le> INTMAX_MAX"
      using mb_ok_live [OF ok] by auto
    have "w b = (0, live_mb (mb_base b) (poke (mb_mem b) c bs) (c + length bs)
        (mb_remaining b - int (length bs)))"
      using writes [of "mb_remaining b" c "mb_mem b" "mb_base b"] c False by (metis linorder_not_less)
    moreover have "length (poke (mb_mem b) c bs) = length (mb_mem b)"
      using c(2) False by (intro length_poke) linarith
    ultimately show ?thesis using c(2,3) False by (auto simp: live_mb_sel intro: mb_ok_live_mb)
  qed
  then show "mb_ok (snd (w b))" "length (mb_mem (snd (w b))) = length (mb_mem b)" "fst (w b) \<le> 0"
    by simp_all
qed

end

sublocale payload_writer \<subseteq> payload_filler w
  by (rule is_filler)

text \<open>One writer after the other; the first failure ends the sequence.\<close>

definition w_seq :: "(msgbuf \<Rightarrow> int \<times> msgbuf) \<Rightarrow> (msgbuf \<Rightarrow> int \<times> msgbuf) \<Rightarrow> msgbuf \<Rightarrow> int \<times> msgbuf"
  where "w_seq w1 w2 b = (let (rc, b) = w1 b in if rc \<noteq> 0 then (rc, b) else w2 b)"

definition w_lift :: "(msgbuf \<Rightarrow> msgbuf) \<Rightarrow> msgbuf \<Rightarrow> int \<times> msgbuf" where
  "w_lift f b = (0, f b)"

lemma w_seq_lift: "w_seq (w_lift f) (w_lift g) = w_lift (\<lambda>b. g (f b))"
  by (simp add: fun_eq_iff w_seq_def w_lift_def)

lemma payload_writer_seq:
  assumes "payload_writer w1 xs" "payload_writer w2 ys"
  shows "payload_writer (w_seq w1 w2) (xs @ ys)"
proof
  fix r :: int and c a :: nat and m :: "u8 list"
  assume r: "int (length (xs @ ys)) \<le> r" "r \<le> INTMAX_MAX" "c + nat r \<le> length m"
  have first: "w1 (live_mb a m c r) =
      (0, live_mb a (poke m c xs) (c + length xs) (r - int (length xs)))"
    using r by (intro payload_writer.writes [OF assms(1)]) auto
  have "c + length xs \<le> length m" using r by simp
  then have "w2 (live_mb a (poke m c xs) (c + length xs) (r - int (length xs))) =
      (0, live_mb a (poke (poke m c xs) (c + length xs) ys) (c + length xs + length ys)
            (r - int (length xs) - int (length ys)))"
    using r by (intro payload_writer.writes [OF assms(2)]) auto
  then show "w_seq w1 w2 (live_mb a m c r) =
      (0, live_mb a (poke m c (xs @ ys)) (c + length (xs @ ys)) (r - int (length (xs @ ys))))"
    using r by (simp add: w_seq_def first poke_poke algebra_simps)
next
  fix b
  assume ok: "mb_ok b" and short: "mb_remaining b < int (length (xs @ ys))"
  show "(fst (w_seq w1 w2 b) = 0 \<or> fst (w_seq w1 w2 b) = - EOVERFLOW) \<and>
    mb_ok (snd (w_seq w1 w2 b)) \<and> mb_remaining (snd (w_seq w1 w2 b)) < 0 \<and>
    length (mb_mem (snd (w_seq w1 w2 b))) = length (mb_mem b)"
  proof (cases "mb_remaining b < int (length xs)")
    case True
    note one = payload_writer.short [OF assms(1) ok True]
    then have "mb_remaining (snd (w1 b)) < int (length ys)" by simp
    from payload_writer.short [OF assms(2) _ this] one show ?thesis
      by (auto simp: w_seq_def case_prod_unfold Let_def)
  next
    case False
    then obtain c where c: "b = live_mb (mb_base b) (mb_mem b) c (mb_remaining b)"
        "c + nat (mb_remaining b) \<le> length (mb_mem b)" "mb_remaining b \<le> INTMAX_MAX"
      using mb_ok_live [OF ok] by auto
    let ?b = "live_mb (mb_base b) (poke (mb_mem b) c xs) (c + length xs)
      (mb_remaining b - int (length xs))"
    have first: "w1 b = (0, ?b)"
      using payload_writer.writes [OF assms(1), of "mb_remaining b" c "mb_mem b" "mb_base b"] c False
      by (metis linorder_not_less)
    have len: "length (poke (mb_mem b) c xs) = length (mb_mem b)"
      using c(2) False by (intro length_poke) linarith
    have "mb_ok ?b" using c(2,3) False len by (intro mb_ok_live_mb) auto
    moreover have "mb_remaining ?b < int (length ys)" using short by (simp add: live_mb_sel)
    ultimately show ?thesis
      using payload_writer.short [OF assms(2), of ?b] len
      by (auto simp: w_seq_def first live_mb_sel)
  qed
qed

lemma payload_writer_fun:
  assumes op: "msgbuf_op op"
    and live: "\<And>r c m a. int (length bs) \<le> r \<Longrightarrow> r \<le> INTMAX_MAX \<Longrightarrow> c + nat r \<le> length m \<Longrightarrow>
      op (live_mb a m c r) = (0, live_mb a (poke m c bs) (c + length bs) (r - int (length bs)))"
    and over: "\<And>b. mb_remaining b < int (length bs) \<Longrightarrow> op b = mb_overflow (length bs) b"
  shows "payload_writer op bs" "payload_writer (w_lift (\<lambda>b. snd (op b))) bs"
proof -
  have neg: "mb_remaining (snd (mb_overflow (length bs) b)) < 0"
    if "mb_ok b" "mb_remaining b < int (length bs)" for b
    using that by (auto simp: mb_overflow_def pldm__msgbuf_set_invalid_def mb_ok_def)
  have mem: "mb_mem (snd (mb_overflow (length bs) b)) = mb_mem b" for b
    by (simp add: mb_overflow_def pldm__msgbuf_set_invalid_def)
  have rc: "fst (mb_overflow (length bs) b) = - EOVERFLOW" for b
    by (simp add: mb_overflow_def pldm__msgbuf_set_invalid_def)
  have ok: "mb_ok (snd (mb_overflow (length bs) b))"
    if "mb_ok b" "mb_remaining b < int (length bs)" for b
    using msgbuf_op.op_ok [OF op that(1)] over [OF that(2)] by simp
  show "payload_writer op bs"
    using live over neg mem rc ok by unfold_locales auto
  show "payload_writer (w_lift (\<lambda>b. snd (op b))) bs"
    using live over neg mem rc ok by unfold_locales (auto simp: w_lift_def)
qed

lemma payload_writer_word:
  fixes v :: "'a::len word"
  assumes "8 dvd LENGTH('a)"
  shows "payload_writer (w_lift (\<lambda>b. snd (msgbuf_insert b v))) (le_of_word v)"
proof (rule payload_writer_fun(2) [OF msgbuf_op_insert])
  fix r :: int and c a :: nat and m :: "u8 list"
  assume "int (length (le_of_word v)) \<le> r" "r \<le> INTMAX_MAX" "c + nat r \<le> length m"
  then show "msgbuf_insert (live_mb a m c r) v =
      (0, live_mb a (poke m c (le_of_word v)) (c + length (le_of_word v))
            (r - int (length (le_of_word v))))"
    by (simp add: msgbuf_insert_def live_mb_step Let_def)
next
  fix b :: msgbuf
  assume "mb_remaining b < int (length (le_of_word v))"
  then show "msgbuf_insert b v = mb_overflow (length (le_of_word v)) b"
    by (simp add: msgbuf_insert_def Let_def)
qed

interpretation ins8: payload_writer "w_lift (ins8 v)" "le_of_word v" for v
  using payload_writer_word [where 'a = 8, of v]
  by (simp add: ins8_def [abs_def] pldm_msgbuf_insert_uint8_def)

interpretation ins16: payload_writer "w_lift (ins16 v)" "le_of_word v" for v
  using payload_writer_word [where 'a = 16, of v]
  by (simp add: ins16_def [abs_def] pldm_msgbuf_insert_uint16_def)

interpretation ins32: payload_writer "w_lift (ins32 v)" "le_of_word v" for v
  using payload_writer_word [where 'a = 32, of v]
  by (simp add: ins32_def [abs_def] pldm_msgbuf_insert_uint32_def)

interpretation ins64: payload_writer "w_lift (ins64 v)" "le_of_word v" for v
  using payload_writer_word [where 'a = 64, of v]
  by (simp add: ins64_def [abs_def] pldm_msgbuf_insert_uint64_def)

lemma payload_writer_id: "payload_writer (\<lambda>b. (0, b)) []"
  by unfold_locales auto

lemma payload_writer_array:
  assumes "n \<le> length src" "int n \<le> INTMAX_MAX"
  shows "payload_writer (ins_array n src) (take n src)"
proof (cases "n = 0")
  case True
  then have "ins_array n src = (\<lambda>b. (0, b))"
    by (simp add: fun_eq_iff ins_array_def pldm__msgbuf_insert_array_void_def)
  then show ?thesis using True payload_writer_id by simp
next
  case False
  have len: "length (take n src) = n" using assms by simp
  have "payload_writer (\<lambda>b. pldm__msgbuf_insert_array_void b n src n) (take n src)"
  proof (rule payload_writer_fun(1) [OF msgbuf_op_insert_array], goal_cases)
    case (3 r c m a)
    with assms show ?case by (simp add: insert_array_live)
  next
    case (4 b)
    with False assms show ?case by (simp add: pldm__msgbuf_insert_array_void_def)
  qed (use assms in auto)
  then show ?thesis by (simp add: ins_array_def [abs_def])
qed

text \<open>A field in front of, or behind, a writer.\<close>

lemma writer_then:
  "payload_writer (w_lift f) bs \<Longrightarrow> payload_writer (w_lift (\<lambda>b. ins8 v8 (f b))) (bs @ [v8])"
  "payload_writer (w_lift f) bs \<Longrightarrow>
     payload_writer (w_lift (\<lambda>b. ins16 v16 (f b))) (bs @ le_of_word v16)"
  "payload_writer (w_lift f) bs \<Longrightarrow>
     payload_writer (w_lift (\<lambda>b. ins32 v32 (f b))) (bs @ le_of_word v32)"
  "payload_writer (w_lift f) bs \<Longrightarrow>
     payload_writer (w_lift (\<lambda>b. ins64 v64 (f b))) (bs @ le_of_word v64)"
  using payload_writer_seq [OF _ ins8.payload_writer_axioms [of v8], of "w_lift f" bs]
    payload_writer_seq [OF _ ins16.payload_writer_axioms [of v16], of "w_lift f" bs]
    payload_writer_seq [OF _ ins32.payload_writer_axioms [of v32], of "w_lift f" bs]
    payload_writer_seq [OF _ ins64.payload_writer_axioms [of v64], of "w_lift f" bs]
  by (simp_all add: w_seq_lift)

lemma writer_start: "payload_writer (w_lift (\<lambda>b. b)) []"
  using payload_writer_id by (simp add: w_lift_def [abs_def])

lemma writer_one:
  "payload_writer (w_lift (ins8 v8)) [v8]"
  "payload_writer (w_lift (ins32 v32)) (le_of_word v32)"
  using ins8.payload_writer_axioms [of v8] ins32.payload_writer_axioms [of v32] by simp_all

section \<open>A whole message\<close>

text \<open>Set-up, the writer, and completion, over \<open>len\<close> bytes of the object \<open>p\<close>.\<close>

definition mb_fill ::
    "(msgbuf \<Rightarrow> int \<times> msgbuf) \<Rightarrow> nat \<Rightarrow> u8 list \<Rightarrow> nat \<Rightarrow> (int \<times> u8 list \<times> nat) option" where
  "mb_fill w a p len =
     (let (rc, b) = pldm__msgbuf_init_errno 0 a p len in
      if rc \<noteq> 0 then mb_exit b (rc, p, len)
      else
        let (rc, b) = w b in
        if rc \<noteq> 0 then let (rc, b) = pldm__msgbuf_discard b rc in mb_exit b (rc, mb_mem b, len)
        else let (rc, len, b) = pldm_msgbuf_complete_used b len len in mb_exit b (rc, mb_mem b, len))"

lemma mb_fill_fits:
  assumes "payload_writer w bs" "length bs \<le> len" "len \<le> length p" "length p \<le> SSIZE_MAX"
    "a + length p \<le> UINTPTR_MAX"
  shows "mb_fill w a p len = Some (0, poke p 0 bs, length bs)"
proof -
  have "pldm__msgbuf_init_errno 0 a p len = (0, live_mb a p 0 (int len))"
    using assms by (intro init_errno_live) auto
  moreover have "w (live_mb a p 0 (int len)) =
      (0, live_mb a (poke p 0 bs) (length bs) (int len - int (length bs)))"
    using payload_writer.writes [OF assms(1), of "int len" 0 p a] assms by simp
  ultimately show ?thesis
    using assms by (simp add: mb_fill_def mb_simps)
qed

lemma mb_fill_short:
  assumes "payload_writer w bs" "len < length bs" "len \<le> length p" "length p \<le> SSIZE_MAX"
    "a + length p \<le> UINTPTR_MAX"
  shows "\<exists>p'. mb_fill w a p len = Some (- EOVERFLOW, p', len) \<and> length p' = length p"
proof -
  let ?b = "live_mb a p 0 (int len)"
  have init: "pldm__msgbuf_init_errno 0 a p len = (0, ?b)"
    using assms by (intro init_errno_live) auto
  have "mb_ok ?b" using assms by (intro mb_ok_live_mb) auto
  then have w: "(fst (w ?b) = 0 \<or> fst (w ?b) = - EOVERFLOW) \<and> mb_ok (snd (w ?b)) \<and>
      mb_remaining (snd (w ?b)) < 0 \<and> length (mb_mem (snd (w ?b))) = length p"
    using payload_writer.short [OF assms(1), of ?b] assms(2) by (simp add: live_mb_sel)
  obtain rc b where wb: "w ?b = (rc, b)" by (cases "w ?b")
  have b: "rc = 0 \<or> rc = - EOVERFLOW" "mb_ok b" "mb_remaining b < 0" "length (mb_mem b) = length p"
    using w by (simp_all add: wb)
  show ?thesis
  proof (cases "rc = 0")
    case True
    have "pldm_msgbuf_complete_used b len len =
        (- EOVERFLOW, len, b\<lparr>mb_cursor := None, mb_remaining := INTMAX_MIN\<rparr>)"
      using b by (simp add: pldm_msgbuf_complete_used_def pldm__msgbuf_validate_def
          pldm__msgbuf_set_invalid_def)
    then show ?thesis
      using True init wb b by (simp add: mb_fill_def mb_exit_def pldm__msgbuf_cleanup_def mb_ok_def)
  next
    case False
    have "pldm__msgbuf_discard b rc = (rc, b\<lparr>mb_cursor := None, mb_remaining := INTMAX_MIN\<rparr>)"
      by (simp add: pldm__msgbuf_discard_def pldm__msgbuf_set_invalid_def)
    then show ?thesis
      using False init wb b by (simp add: mb_fill_def mb_exit_def pldm__msgbuf_cleanup_def mb_ok_def)
  qed
qed

lemma mb_fill_filler:
  assumes "payload_filler w" "len \<le> length p" "length p \<le> SSIZE_MAX" "a + length p \<le> UINTPTR_MAX"
  obtains rc p' l where "mb_fill w a p len = Some (rc, p', l)" "length p' = length p"
    "rc = 0 \<and> l \<le> len \<or> rc < 0 \<and> l = len"
proof -
  let ?b = "live_mb a p 0 (int len)"
  have init: "pldm__msgbuf_init_errno 0 a p len = (0, ?b)"
    using assms by (intro init_errno_live) auto
  obtain rc b where wb: "w ?b = (rc, b)" by (cases "w ?b")
  have ok: "mb_ok ?b" using assms by (intro mb_ok_live_mb) auto
  have b: "mb_ok b" "length (mb_mem b) = length p" "rc \<le> 0"
    using payload_filler.fill_ok [OF assms(1) ok] payload_filler.fill_length [OF assms(1) ok]
      payload_filler.fill_rc [OF assms(1) ok] by (simp_all add: wb live_mb_sel)
  show thesis
  proof (cases "rc = 0")
    case False
    have "pldm__msgbuf_discard b rc = (rc, b\<lparr>mb_cursor := None, mb_remaining := INTMAX_MIN\<rparr>)"
      by (simp add: pldm__msgbuf_discard_def pldm__msgbuf_set_invalid_def)
    then have "mb_fill w a p len = Some (rc, mb_mem b, len)"
      using False init wb b by (simp add: mb_fill_def mb_exit_def pldm__msgbuf_cleanup_def mb_ok_def)
    then show thesis using b False that by force
  next
    case True
    obtain rc' l b' where c: "pldm_msgbuf_complete_used b len len = (rc', l, b')"
      by (cases "pldm_msgbuf_complete_used b len len") auto
    then have "rc' = 0 \<and> l \<le> len \<or> rc' < 0 \<and> l = len" "mb_mem b' = mb_mem b"
        "pldm__msgbuf_cleanup b'" "\<not> mb_fault b'"
      using b by (auto simp: pldm_msgbuf_complete_used_def pldm__msgbuf_validate_def Let_def mb_ok_def
          pldm__msgbuf_set_invalid_def pldm__msgbuf_cleanup_def split: if_splits)
    moreover from this have "mb_fill w a p len = Some (rc', mb_mem b, l)"
      using True init wb c by (simp add: mb_fill_def mb_exit_def)
    ultimately show thesis using b that by blast
  qed
qed

text \<open>The message after \<open>bs\<close> was written to its payload.\<close>

definition sent :: "pldm_msg_hdr \<Rightarrow> u8 list \<Rightarrow> pldm_msg \<Rightarrow> pldm_msg" where
  "sent h bs msg = msg\<lparr>m_hdr := h, m_payload := poke (m_payload msg) 0 bs\<rparr>"

text \<open>
  The contract of an encoder: a header and the payload it writes when they fit; otherwise
  \<open>-EOVERFLOW\<close>, with the length left alone and nothing written outside of the payload.
\<close>

locale message_encoder =
  fixes enc :: "pldm_msg option \<Rightarrow> nat option \<Rightarrow> (int \<times> pldm_msg option \<times> nat option) option"
    and h :: pldm_msg_hdr and bs :: "u8 list"
  assumes fits: "msg_holds len msg \<Longrightarrow> length bs \<le> len \<Longrightarrow>
      enc (Some msg) (Some len) = Some (0, Some (sent h bs msg), Some (length bs))"
    and overflow: "msg_holds len msg \<Longrightarrow> len < length bs \<Longrightarrow>
      \<exists>p. length p = length (m_payload msg) \<and> enc (Some msg) (Some len) =
        Some (- EOVERFLOW, Some (msg\<lparr>m_hdr := h, m_payload := p\<rparr>), Some len)"
begin

lemma encoded_cases:
  assumes "msg_holds len msg"
  obtains (written) "length bs \<le> len" "enc (Some msg) (Some len) = Some (0, Some (sent h bs msg), Some (length bs))"
  | (full) p where "len < length bs" "length p = length (m_payload msg)"
      "enc (Some msg) (Some len) =
         Some (- EOVERFLOW, Some (msg\<lparr>m_hdr := h, m_payload := p\<rparr>), Some len)"
  using fits [OF assms] overflow [OF assms] by (cases "length bs \<le> len") auto

end

lemma msg_holds_upd:
  assumes "msg_holds n msg" "length p = length (m_payload msg)"
  shows "msg_holds n (msg\<lparr>m_hdr := h, m_payload := p\<rparr>)" "msg_holds n (msg\<lparr>m_payload := p\<rparr>)"
  using assms by (simp_all add: msg_holds_def)

lemma msg_holds_sent:
  "msg_holds n msg \<Longrightarrow> length bs \<le> length (m_payload msg) \<Longrightarrow> msg_holds n (sent h bs msg)"
  by (simp add: sent_def msg_holds_upd)

lemma msg_holds_le: "msg_holds n msg \<Longrightarrow> k \<le> n \<Longrightarrow> msg_holds k msg"
  by (simp add: msg_holds_def)

lemma header_only_fwup:
  assumes "mt = PLDM_RESPONSE \<or> mt = PLDM_REQUEST" "inst \<le> PLDM_INSTANCE_MAX"
  shows "encode_pldm_header_only mt inst PLDM_FWUP cmd (Some msg) =
    Some (0, Some (msg\<lparr>m_hdr := wire_hdr mt inst PLDM_FWUP cmd\<rparr>))"
  using assms by (auto simp: encode_pldm_header_only_def encode_pldm_header_only_errno_def mb_simps)

lemma fwup_encode_encoder:
  assumes "mt = PLDM_RESPONSE \<or> mt = PLDM_REQUEST" "inst \<le> PLDM_INSTANCE_MAX"
    and w: "payload_writer (w_lift f) bs"
  shows "message_encoder (fwup_encode err mt inst cmd f) (wire_hdr mt inst PLDM_FWUP cmd) bs"
proof
  fix len msg
  assume m: "msg_holds len (msg :: pldm_msg)"
  let ?m = "msg\<lparr>m_hdr := wire_hdr mt inst PLDM_FWUP cmd\<rparr>"
  have fill: "fwup_encode err mt inst cmd f (Some msg) (Some len) =
      do { (rc, p, l) \<leftarrow> mb_fill (w_lift f) (m_addr msg) (m_payload msg) len;
           Some (rc, Some (?m\<lparr>m_payload := p\<rparr>), Some l) }"
    using init_errno_cases [of 0 "m_addr msg" "m_payload msg" len]
    by (auto simp: fwup_encode_def header_only_fwup [OF assms(1,2)] mb_fill_def w_lift_def mb_exit_def
        Let_def split: prod.splits)
  show "fwup_encode err mt inst cmd f (Some msg) (Some len) =
      Some (0, Some (sent (wire_hdr mt inst PLDM_FWUP cmd) bs msg), Some (length bs))"
    if "length bs \<le> len"
    using mb_fill_fits [OF w that, of "m_payload msg" "m_addr msg"] m fill
    by (simp add: msg_holds_def sent_def)
  show "\<exists>p. length p = length (m_payload msg) \<and> fwup_encode err mt inst cmd f (Some msg) (Some len) =
      Some (- EOVERFLOW, Some (msg\<lparr>m_hdr := wire_hdr mt inst PLDM_FWUP cmd, m_payload := p\<rparr>), Some len)"
    if "len < length bs"
    using mb_fill_short [OF w that, of "m_payload msg" "m_addr msg"] m fill
    by (auto simp: msg_holds_def)
qed

section \<open>The encoders\<close>

text \<open>The payload that the fields of a status make.\<close>

definition status_bytes :: "get_status_resp \<Rightarrow> u8 list" where
  "status_bytes st =
     [PLDM_SUCCESS, gs_current_state st, gs_previous_state st, gs_aux_state st,
      gs_aux_state_status st, gs_progress_percent st, gs_reason_code st] @
     le_of_word (gs_option_flags st)"

lemma writers:
  "payload_writer (w_lift (\<lambda>b. ins8 pkg (ins16 meta (ins8 0 b)))) ([0] @ le_of_word meta @ [pkg])"
  "payload_writer (w_lift (\<lambda>b. ins8 code (ins8 resp (ins8 0 b)))) [0, resp, code]"
  "payload_writer (w_lift (\<lambda>b. ins16 time (ins32 flags (ins8 code (ins8 resp (ins8 0 b))))))
     ([0, resp, code] @ le_of_word flags @ le_of_word time)"
  "payload_writer (w_lift (\<lambda>b. ins32 len (ins32 offset b))) (le_of_word offset @ le_of_word len)"
  "payload_writer (w_lift (\<lambda>b. ins16 methods (ins8 res b))) ([res] @ le_of_word methods)"
  "payload_writer (w_lift (\<lambda>b. ins64 bitmap (ins8 ind (ins8 0 b)))) ([0, ind] @ le_of_word bitmap)"
  "payload_writer (w_lift (\<lambda>b. ins32 (gs_option_flags st) (ins8 (gs_reason_code st)
     (ins8 (gs_progress_percent st) (ins8 (gs_aux_state_status st) (ins8 (gs_aux_state st)
     (ins8 (gs_previous_state st) (ins8 (gs_current_state st) (ins8 0 b)))))))))
     (status_bytes st)"
  using writer_then(1) [OF writer_then(2) [OF writer_one(1)]]
    writer_then(1) [OF writer_then(1) [OF writer_one(1)]]
    writer_then(2) [OF writer_then(3) [OF writer_then(1) [OF writer_then(1) [OF writer_one(1)]]]]
    writer_then(3) [OF writer_one(2)]
    writer_then(2) [OF writer_one(1)]
    writer_then(4) [OF writer_then(1) [OF writer_one(1)]]
    writer_then(3) [OF writer_then(1) [OF writer_then(1) [OF writer_then(1) [OF writer_then(1)
      [OF writer_then(1) [OF writer_then(1) [OF writer_one(1)]]]]]]]
  by (simp_all add: status_bytes_def)

lemma fwup_encoders:
  assumes "inst \<le> PLDM_INSTANCE_MAX"
  shows "message_encoder (encode_request_update_resp inst meta pkg)
      (wire_hdr PLDM_RESPONSE inst PLDM_FWUP PLDM_REQUEST_UPDATE) ([PLDM_SUCCESS] @ le_of_word meta @ [pkg])"
    and "message_encoder (encode_pass_component_table_resp inst resp code)
      (wire_hdr PLDM_RESPONSE inst PLDM_FWUP PLDM_PASS_COMPONENT_TABLE) [PLDM_SUCCESS, resp, code]"
    and "message_encoder (encode_update_component_resp inst resp code flags time)
      (wire_hdr PLDM_RESPONSE inst PLDM_FWUP PLDM_UPDATE_COMPONENT)
      ([PLDM_SUCCESS, resp, code] @ le_of_word flags @ le_of_word time)"
    and "message_encoder (encode_request_firmware_data_req inst offset len)
      (wire_hdr PLDM_REQUEST inst PLDM_FWUP PLDM_REQUEST_FIRMWARE_DATA)
      (le_of_word offset @ le_of_word len)"
    and "message_encoder (encode_transfer_complete_req inst result)
      (wire_hdr PLDM_REQUEST inst PLDM_FWUP PLDM_TRANSFER_COMPLETE) [result]"
    and "message_encoder (encode_verify_complete_req inst result)
      (wire_hdr PLDM_REQUEST inst PLDM_FWUP PLDM_VERIFY_COMPLETE) [result]"
    and "message_encoder (encode_apply_complete_req inst result methods)
      (wire_hdr PLDM_REQUEST inst PLDM_FWUP PLDM_APPLY_COMPLETE) ([result] @ le_of_word methods)"
    and "message_encoder (encode_activate_firmware_resp inst estimated)
      (wire_hdr PLDM_RESPONSE inst PLDM_FWUP PLDM_ACTIVATE_FIRMWARE)
      ([PLDM_SUCCESS] @ le_of_word estimated)"
    and "message_encoder (encode_cancel_update_resp inst indication bitmap)
      (wire_hdr PLDM_RESPONSE inst PLDM_FWUP PLDM_CANCEL_UPDATE)
      ([PLDM_SUCCESS, indication] @ le_of_word bitmap)"
  unfolding encode_request_update_resp_def encode_pass_component_table_resp_def
    encode_update_component_resp_def encode_request_firmware_data_req_def
    encode_transfer_complete_req_def encode_verify_complete_req_def encode_apply_complete_req_def
    encode_activate_firmware_resp_def encode_cancel_update_resp_def
  by (intro fwup_encode_encoder [OF _ assms] writers writer_one(1) disjI1 disjI2 refl)+

lemma get_status_encoder:
  assumes "inst \<le> PLDM_INSTANCE_MAX" "gs_completion_code st = PLDM_SUCCESS"
  shows "message_encoder (encode_get_status_resp inst (Some st))
    (wire_hdr PLDM_RESPONSE inst PLDM_FWUP PLDM_GET_STATUS) (status_bytes st)"
proof -
  note enc = fwup_encode_encoder [OF _ assms(1) writers(7) [of st], of PLDM_RESPONSE, simplified]
  show ?thesis
  proof
    fix len msg
    assume m: "msg_holds len (msg :: pldm_msg)"
    note eq = encode_get_status_resp_def
    show "encode_get_status_resp inst (Some st) (Some msg) (Some len) =
        Some (0, Some (sent (wire_hdr PLDM_RESPONSE inst PLDM_FWUP PLDM_GET_STATUS) (status_bytes st) msg),
          Some (length (status_bytes st)))" if "length (status_bytes st) \<le> len"
      using message_encoder.fits [OF enc m that] assms(2) by (simp add: eq)
    show "\<exists>p. length p = length (m_payload msg) \<and>
        encode_get_status_resp inst (Some st) (Some msg) (Some len) =
        Some (- EOVERFLOW, Some (msg\<lparr>m_hdr := wire_hdr PLDM_RESPONSE inst PLDM_FWUP PLDM_GET_STATUS,
          m_payload := p\<rparr>), Some len)" if "len < length (status_bytes st)"
      using message_encoder.overflow [OF enc m that] assms(2) by (simp add: eq)
  qed
qed

section \<open>Encoders with variable parts\<close>

lemma payload_filler_seq:
  assumes "payload_filler w1" "payload_filler w2"
  shows "payload_filler (w_seq w1 w2)"
proof
  fix b
  assume ok: "mb_ok b"
  note one = payload_filler.fill_ok [OF assms(1) ok] payload_filler.fill_length [OF assms(1) ok]
    payload_filler.fill_rc [OF assms(1) ok]
  note two = payload_filler.fill_ok [OF assms(2) one(1)]
    payload_filler.fill_length [OF assms(2) one(1)] payload_filler.fill_rc [OF assms(2) one(1)]
  show "mb_ok (snd (w_seq w1 w2 b))"
    and "length (mb_mem (snd (w_seq w1 w2 b))) = length (mb_mem b)"
    and "fst (w_seq w1 w2 b) \<le> 0"
    using one two by (auto simp: w_seq_def case_prod_unfold Let_def)
qed

text \<open>A descriptor whose data, when it has some, is as long as it says.\<close>

definition descriptor_ok :: "pldm_descriptor \<Rightarrow> bool" where
  "descriptor_ok d \<longleftrightarrow>
     (case descriptor_data d of None \<Rightarrow> True | Some data \<Rightarrow> unat (descriptor_length d) \<le> length data)"

definition descriptor_bytes :: "pldm_descriptor \<Rightarrow> u8 list" where
  "descriptor_bytes d =
     le_of_word (descriptor_type d) @ le_of_word (descriptor_length d) @
     take (unat (descriptor_length d)) (the (descriptor_data d))"

lemma unat_u16_intmax: "int (unat (n :: u16)) \<le> INTMAX_MAX" "int (unat (k :: u8)) \<le> INTMAX_MAX"
proof -
  have "uint n < 2 ^ 16" "uint k < 2 ^ 8" using unsigned_less [of n] unsigned_less [of k] by simp_all
  then show "int (unat n) \<le> INTMAX_MAX" "int (unat k) \<le> INTMAX_MAX" by simp_all
qed

lemma ins_descriptors_Cons:
  assumes "descriptor_data d = Some data"
  shows "ins_descriptors (d # ds) =
    w_seq (w_seq (w_lift (\<lambda>b. ins16 (descriptor_length d) (ins16 (descriptor_type d) b)))
             (ins_array (unat (descriptor_length d)) data)) (ins_descriptors ds)"
  by (simp add: fun_eq_iff assms w_seq_def w_lift_def Let_def case_prod_unfold)

lemma descriptor_writer:
  assumes "descriptor_ok d" "descriptor_data d = Some data"
  shows "payload_writer (w_seq (w_lift (\<lambda>b. ins16 (descriptor_length d) (ins16 (descriptor_type d) b)))
     (ins_array (unat (descriptor_length d)) data)) (descriptor_bytes d)"
proof -
  have "unat (descriptor_length d) \<le> length data" using assms by (simp add: descriptor_ok_def)
  from payload_writer_seq [OF writer_then(2) [OF ins16.payload_writer_axioms]
      payload_writer_array [OF this unat_u16_intmax(1)]]
  show ?thesis by (simp add: descriptor_bytes_def assms(2))
qed

lemma ins_descriptors_writer:
  assumes "\<forall>d\<in>set ds. descriptor_ok d \<and> descriptor_data d \<noteq> None"
  shows "payload_writer (ins_descriptors ds) (concat (map descriptor_bytes ds))"
  using assms
proof (induction ds)
  case Nil
  have "ins_descriptors [] = (\<lambda>b. (0, b))" by (simp add: fun_eq_iff)
  then show ?case using payload_writer_id by simp
next
  case (Cons d ds)
  then obtain data where data: "descriptor_data d = Some data" "descriptor_ok d" by auto
  show ?case
    unfolding ins_descriptors_Cons [OF data(1)] using Cons
    by (simp add: payload_writer_seq [OF descriptor_writer [OF data(2,1)]])
qed

text \<open>Without the data of a descriptor nothing is sent.\<close>

lemma ins_descriptors_missing:
  assumes "\<forall>d\<in>set ds. descriptor_ok d" "\<exists>d\<in>set ds. descriptor_data d = None" "mb_ok b"
  shows "fst (ins_descriptors ds b) < 0 \<and> mb_ok (snd (ins_descriptors ds b)) \<and>
    length (mb_mem (snd (ins_descriptors ds b))) = length (mb_mem b)"
  using assms
proof (induction ds arbitrary: b)
  case (Cons d ds)
  let ?hd = "\<lambda>b. ins16 (descriptor_length d) (ins16 (descriptor_type d) b)"
  have hd: "payload_writer (w_lift ?hd) (le_of_word (descriptor_type d) @ le_of_word (descriptor_length d))"
    using writer_then(2) [OF ins16.payload_writer_axioms] .
  show ?case
  proof (cases "descriptor_data d")
    case None
    note f = payload_writer.is_filler [OF hd]
    from None show ?thesis
      using payload_filler.fill_ok [OF f Cons.prems(3)] payload_filler.fill_length [OF f Cons.prems(3)]
      by (simp add: Let_def w_lift_def)
  next
    case (Some data)
    let ?w = "w_seq (w_lift ?hd) (ins_array (unat (descriptor_length d)) data)"
    have "payload_writer ?w (descriptor_bytes d)"
      using Cons.prems(1) Some by (intro descriptor_writer) auto
    then have f: "payload_filler ?w" by (rule payload_writer.is_filler)
    note w = payload_filler.fill_ok [OF f Cons.prems(3)] payload_filler.fill_length [OF f Cons.prems(3)]
      payload_filler.fill_rc [OF f Cons.prems(3)]
    have "fst (ins_descriptors ds (snd (?w b))) < 0 \<and> mb_ok (snd (ins_descriptors ds (snd (?w b)))) \<and>
        length (mb_mem (snd (ins_descriptors ds (snd (?w b))))) = length (mb_mem (snd (?w b)))"
      using Cons.prems Some w by (intro Cons.IH) auto
    moreover have "ins_descriptors (d # ds) b =
        (if fst (?w b) \<noteq> 0 then ?w b else ins_descriptors ds (snd (?w b)))"
      unfolding ins_descriptors_Cons [OF Some] w_seq_def [of ?w] by (simp add: case_prod_unfold Let_def)
    ultimately show ?thesis using w by auto
  qed
qed simp

text \<open>The encoders that stop at the first failure are headers over \<open>mb_fill\<close>, too.\<close>

lemma filled_encoder:
  assumes w: "payload_writer w bs"
    and enc: "\<And>msg len. enc (Some msg) (Some len) =
      do { (rc, p, l) \<leftarrow> mb_fill w (m_addr msg) (m_payload msg) len;
           Some (rc, Some (msg\<lparr>m_hdr := h, m_payload := p\<rparr>), Some l) }"
  shows "message_encoder enc h bs"
proof
  fix len msg
  assume m: "msg_holds len (msg :: pldm_msg)"
  show "enc (Some msg) (Some len) = Some (0, Some (sent h bs msg), Some (length bs))"
    if "length bs \<le> len"
    using mb_fill_fits [OF w that, of "m_payload msg" "m_addr msg"] m
    by (simp add: enc msg_holds_def sent_def)
  show "\<exists>p. length p = length (m_payload msg) \<and> enc (Some msg) (Some len) =
      Some (- EOVERFLOW, Some (msg\<lparr>m_hdr := h, m_payload := p\<rparr>), Some len)"
    if "len < length bs"
    using mb_fill_short [OF w that, of "m_payload msg" "m_addr msg"] m
    by (auto simp: enc msg_holds_def)
qed

definition identifiers_bytes :: "pldm_descriptor list \<Rightarrow> u8 list" where
  "identifiers_bytes ds =
     [PLDM_SUCCESS] @ le_of_word (descriptors_len ds) @ [of_nat (length ds)] @
     concat (map descriptor_bytes ds)"

definition ins_identifiers :: "u8 \<Rightarrow> pldm_descriptor list \<Rightarrow> msgbuf \<Rightarrow> int \<times> msgbuf" where
  "ins_identifiers n ds =
     w_seq (w_lift (\<lambda>b. ins8 n (ins32 (descriptors_len ds) (ins8 PLDM_SUCCESS b)))) (ins_descriptors ds)"

lemma query_device_identifiers_fill:
  assumes "inst \<le> PLDM_INSTANCE_MAX" "1 \<le> n" "unat n \<le> length ds"
  shows "encode_query_device_identifiers_resp inst n (Some ds) (Some msg) (Some len) =
    do { (rc, p, l) \<leftarrow> mb_fill (ins_identifiers n (take (unat n) ds)) (m_addr msg) (m_payload msg) len;
         Some (rc, Some (msg\<lparr>m_hdr := wire_hdr PLDM_RESPONSE inst PLDM_FWUP
                               PLDM_QUERY_DEVICE_IDENTIFIERS, m_payload := p\<rparr>), Some l) }"
  using assms(2,3) init_errno_cases [of 0 "m_addr msg" "m_payload msg" len]
  by (auto simp: encode_query_device_identifiers_resp_def header_only_fwup [OF _ assms(1)] mb_fill_def
      ins_identifiers_def w_seq_def w_lift_def mb_exit_def Let_def word_less_nat_alt word_le_nat_alt
      split: prod.splits)

lemma query_device_identifiers_encoder:
  assumes "inst \<le> PLDM_INSTANCE_MAX" "1 \<le> n" "unat n \<le> length ds"
    "\<forall>d\<in>set (take (unat n) ds). descriptor_ok d \<and> descriptor_data d \<noteq> None"
  shows "message_encoder (encode_query_device_identifiers_resp inst n (Some ds))
    (wire_hdr PLDM_RESPONSE inst PLDM_FWUP PLDM_QUERY_DEVICE_IDENTIFIERS)
    (identifiers_bytes (take (unat n) ds))"
proof (rule filled_encoder [OF _ query_device_identifiers_fill [OF assms(1-3)]])
  have len: "length (take (unat n) ds) = unat n" using assms(3) by simp
  show "payload_writer (ins_identifiers n (take (unat n) ds)) (identifiers_bytes (take (unat n) ds))"
    using payload_writer_seq [OF writer_then(1) [OF writer_then(3) [OF writer_one(1)]]
        ins_descriptors_writer [OF assms(4)], of n "descriptors_len (take (unat n) ds)" 0] len
    by (simp add: ins_identifiers_def identifiers_bytes_def)
qed

text \<open>A message without the data of a descriptor is refused.\<close>

lemma query_device_identifiers_missing:
  assumes "inst \<le> PLDM_INSTANCE_MAX" "1 \<le> n" "unat n \<le> length ds" "msg_holds len msg"
    "\<forall>d\<in>set (take (unat n) ds). descriptor_ok d"
    "\<exists>d\<in>set (take (unat n) ds). descriptor_data d = None"
  obtains err p where "err < 0" "length p = length (m_payload msg)"
    "encode_query_device_identifiers_resp inst n (Some ds) (Some msg) (Some len) =
       Some (err, Some (msg\<lparr>m_hdr := wire_hdr PLDM_RESPONSE inst PLDM_FWUP
         PLDM_QUERY_DEVICE_IDENTIFIERS, m_payload := p\<rparr>), Some len)"
proof -
  let ?ds = "take (unat n) ds" and ?b = "live_mb (m_addr msg) (m_payload msg) 0 (int len)"
  let ?hd = "w_lift (\<lambda>b. ins8 n (ins32 (descriptors_len ?ds) (ins8 PLDM_SUCCESS b)))"
  have m: "len \<le> length (m_payload msg)" "length (m_payload msg) \<le> SSIZE_MAX"
      "m_addr msg + length (m_payload msg) \<le> UINTPTR_MAX"
    using assms(4) by (simp_all add: msg_holds_def)
  have ok: "mb_ok ?b" using m by (intro mb_ok_live_mb) auto
  have hd: "payload_filler ?hd"
    using writer_then(1) [OF writer_then(3) [OF writer_one(1)]] by (rule payload_writer.is_filler)
  note hd = payload_filler.fill_ok [OF hd ok] payload_filler.fill_length [OF hd ok]
  obtain rc b where r: "ins_identifiers n ?ds ?b = (rc, b)" by fastforce
  have b: "rc < 0" "mb_ok b" "length (mb_mem b) = length (m_payload msg)"
    using ins_descriptors_missing [OF assms(5,6) hd(1)] hd(2) r
    by (auto simp: ins_identifiers_def w_seq_def w_lift_def live_mb_sel)
  have "pldm__msgbuf_init_errno 0 (m_addr msg) (m_payload msg) len = (0, ?b)"
    using m by (intro init_errno_live) auto
  then have "mb_fill (ins_identifiers n ?ds) (m_addr msg) (m_payload msg) len =
      Some (rc, mb_mem b, len)"
    using r b by (auto simp: mb_fill_def mb_exit_def pldm__msgbuf_discard_def
        pldm__msgbuf_set_invalid_def pldm__msgbuf_cleanup_def mb_ok_def)
  then show thesis
    using that [OF b(1,3)] query_device_identifiers_fill [OF assms(1-3)] by simp
qed

definition parameters_bytes :: "firmware_parameters_resp \<Rightarrow> u8 list" where
  "parameters_bytes d =
     [fp_completion_code d] @ le_of_word (fp_capabilities d) @ le_of_word (fp_comp_count d) @
     [str_type (fp_active_ver d), str_len (fp_active_ver d),
      str_type (fp_pending_ver d), str_len (fp_pending_ver d)] @
     take (unat (str_len (fp_active_ver d))) (str_data (fp_active_ver d)) @
     take (unat (str_len (fp_pending_ver d))) (str_data (fp_pending_ver d))"

text \<open>The versions the encoder accepts, and strings as long as they say.\<close>

definition parameters_valid :: "firmware_parameters_resp \<Rightarrow> bool" where
  "parameters_valid d \<longleftrightarrow>
     is_string_type_valid (str_type (fp_active_ver d)) \<and> str_len (fp_active_ver d) \<noteq> 0 \<and>
     (if str_len (fp_pending_ver d) = 0 then str_type (fp_pending_ver d) = PLDM_STR_TYPE_UNKNOWN
      else is_string_type_valid (str_type (fp_pending_ver d)))"

definition string_ok :: "pldm_firmware_string \<Rightarrow> bool" where
  "string_ok s \<longleftrightarrow> unat (str_len s) \<le> length (str_data s)"

lemma ins_parameters_seq:
  "ins_parameters d =
     w_seq (w_lift (\<lambda>b. ins8 (str_len (fp_pending_ver d)) (ins8 (str_type (fp_pending_ver d))
                    (ins8 (str_len (fp_active_ver d)) (ins8 (str_type (fp_active_ver d))
                    (ins16 (fp_comp_count d) (ins32 (fp_capabilities d)
                    (ins8 (fp_completion_code d) b))))))))
       (w_seq (ins_array (unat (str_len (fp_active_ver d))) (str_data (fp_active_ver d)))
              (ins_array (unat (str_len (fp_pending_ver d))) (str_data (fp_pending_ver d))))"
  by (simp add: fun_eq_iff ins_parameters_def w_seq_def w_lift_def Let_def)

lemma ins_parameters_writer:
  assumes "string_ok (fp_active_ver d)" "string_ok (fp_pending_ver d)"
  shows "payload_writer (ins_parameters d) (parameters_bytes d)"
proof -
  note fixed = writer_then(1) [OF writer_then(1) [OF writer_then(1) [OF writer_then(1)
    [OF writer_then(2) [OF writer_then(3) [OF writer_one(1)]]]]]]
  note strings = payload_writer_seq [OF
    payload_writer_array [OF assms(1) [unfolded string_ok_def] unat_u16_intmax(2)]
    payload_writer_array [OF assms(2) [unfolded string_ok_def] unat_u16_intmax(2)]]
  show ?thesis using payload_writer_seq [OF fixed strings]
    by (simp add: ins_parameters_seq parameters_bytes_def)
qed

lemma get_firmware_parameters_fill:
  assumes "inst \<le> PLDM_INSTANCE_MAX" "parameters_valid d"
  shows "encode_get_firmware_parameters_resp inst (Some d) (Some msg) (Some len) =
    do { (rc, p, l) \<leftarrow> mb_fill (ins_parameters d) (m_addr msg) (m_payload msg) len;
         Some (rc, Some (msg\<lparr>m_hdr := wire_hdr PLDM_RESPONSE inst PLDM_FWUP
                               PLDM_GET_FIRMWARE_PARAMETERS, m_payload := p\<rparr>), Some l) }"
proof -
  have v: "(\<not> is_string_type_valid (str_type (fp_active_ver d)) \<or> str_len (fp_active_ver d) = 0) = False"
      "(str_len (fp_pending_ver d) = 0 \<and> str_type (fp_pending_ver d) \<noteq> PLDM_STR_TYPE_UNKNOWN) = False"
      "(str_len (fp_pending_ver d) \<noteq> 0 \<and> \<not> is_string_type_valid (str_type (fp_pending_ver d))) = False"
    using assms(2) by (auto simp: parameters_valid_def split: if_splits)
  show ?thesis
    using init_errno_cases [of 0 "m_addr msg" "m_payload msg" len]
    unfolding encode_get_firmware_parameters_resp_def option.case prod.case Let_def v if_False
    by (auto simp: header_only_fwup [OF _ assms(1)] mb_fill_def mb_exit_def split: prod.splits)
qed

lemma get_firmware_parameters_encoder:
  assumes "inst \<le> PLDM_INSTANCE_MAX" "parameters_valid d"
    "string_ok (fp_active_ver d)" "string_ok (fp_pending_ver d)"
  shows "message_encoder (encode_get_firmware_parameters_resp inst (Some d))
    (wire_hdr PLDM_RESPONSE inst PLDM_FWUP PLDM_GET_FIRMWARE_PARAMETERS) (parameters_bytes d)"
  by (rule filled_encoder [OF ins_parameters_writer [OF assms(3,4)]
      get_firmware_parameters_fill [OF assms(1,2)]])

lemma get_firmware_parameters_invalid:
  "\<not> parameters_valid d \<Longrightarrow>
     encode_get_firmware_parameters_resp inst (Some d) (Some msg) (Some len) =
       Some (- EINVAL, Some msg, Some len)"
  by (auto simp: encode_get_firmware_parameters_resp_def parameters_valid_def Let_def split: if_splits)

definition version_ok :: "pldm_firmware_version \<Rightarrow> bool" where
  "version_ok v \<longleftrightarrow>
     string_ok (ver_str v) \<and> PLDM_FWUP_COMPONENT_RELEASE_DATA_LEN \<le> length (ver_date v)"

definition entry_ok :: "component_entry \<Rightarrow> bool" where
  "entry_ok ce \<longleftrightarrow> version_ok (ce_active_ver ce) \<and> version_ok (ce_pending_ver ce)"

definition version_bytes :: "pldm_firmware_version \<Rightarrow> u8 list" where
  "version_bytes v =
     le_of_word (comparison_stamp v) @ [str_type (ver_str v), str_len (ver_str v)] @
     take PLDM_FWUP_COMPONENT_RELEASE_DATA_LEN (ver_date v)"

definition string_bytes :: "pldm_firmware_string \<Rightarrow> u8 list" where
  "string_bytes s = take (unat (str_len s)) (str_data s)"

definition entry_bytes :: "component_entry \<Rightarrow> u8 list" where
  "entry_bytes ce =
     le_of_word (ce_classification ce) @ le_of_word (ce_identifier ce) @ [ce_classification_index ce] @
     version_bytes (ce_active_ver ce) @ version_bytes (ce_pending_ver ce) @
     le_of_word (ce_activation_methods ce) @ le_of_word (ce_capabilities ce) @
     string_bytes (ver_str (ce_active_ver ce)) @ string_bytes (ver_str (ce_pending_ver ce))"

definition ins_version :: "pldm_firmware_version \<Rightarrow> msgbuf \<Rightarrow> int \<times> msgbuf" where
  "ins_version v =
     w_seq (w_lift (\<lambda>b. ins8 (str_len (ver_str v)) (ins8 (str_type (ver_str v))
                    (ins32 (comparison_stamp v) b))))
           (ins_array PLDM_FWUP_COMPONENT_RELEASE_DATA_LEN (ver_date v))"

lemma ins_version_writer: "version_ok v \<Longrightarrow> payload_writer (ins_version v) (version_bytes v)"
  using payload_writer_seq [OF writer_then(1) [OF writer_then(1) [OF writer_one(2)]]
      payload_writer_array [of PLDM_FWUP_COMPONENT_RELEASE_DATA_LEN "ver_date v"]]
  by (simp add: version_ok_def ins_version_def version_bytes_def)

lemma ins_string_writer:
  "string_ok s \<Longrightarrow> payload_writer (ins_array (unat (str_len s)) (str_data s)) (string_bytes s)"
  using payload_writer_array [OF _ unat_u16_intmax(2)] by (simp add: string_ok_def string_bytes_def)

lemma ins_comp_entry_seq:
  "ins_comp_entry ce =
     w_seq (w_lift (\<lambda>b. ins8 (ce_classification_index ce) (ins16 (ce_identifier ce)
                    (ins16 (ce_classification ce) b))))
    (w_seq (ins_version (ce_active_ver ce)) (w_seq (ins_version (ce_pending_ver ce))
    (w_seq (w_lift (\<lambda>b. ins32 (ce_capabilities ce) (ins16 (ce_activation_methods ce) b)))
    (w_seq (ins_array (unat (str_len (ver_str (ce_active_ver ce)))) (str_data (ver_str (ce_active_ver ce))))
           (ins_array (unat (str_len (ver_str (ce_pending_ver ce)))) (str_data (ver_str (ce_pending_ver ce))))))))"
  by (simp add: fun_eq_iff ins_comp_entry_def ins_version_def w_seq_def w_lift_def Let_def split: prod.splits)

lemma ins_comp_entry_writer:
  assumes "entry_ok ce"
  shows "payload_writer (ins_comp_entry ce) (entry_bytes ce)"
proof -
  have ok: "version_ok (ce_active_ver ce)" "version_ok (ce_pending_ver ce)"
      "string_ok (ver_str (ce_active_ver ce))" "string_ok (ver_str (ce_pending_ver ce))"
    using assms by (simp_all add: entry_ok_def version_ok_def)
  note tail = payload_writer_seq [OF writer_then(3) [OF ins16.payload_writer_axioms]
    payload_writer_seq [OF ins_string_writer [OF ok(3)] ins_string_writer [OF ok(4)]]]
  note head = writer_then(1) [OF writer_then(2) [OF ins16.payload_writer_axioms]]
  show ?thesis
    using payload_writer_seq [OF head payload_writer_seq [OF ins_version_writer [OF ok(1)]
        payload_writer_seq [OF ins_version_writer [OF ok(2)] tail]]]
    by (simp add: ins_comp_entry_seq entry_bytes_def)
qed

lemma comp_entry_fill:
  "encode_get_firmware_parameters_resp_comp_entry (Some ce) (Some (a, p)) (Some len) =
     do { (rc, p, l) \<leftarrow> mb_fill (ins_comp_entry ce) a p len; Some (rc, Some (a, p), Some l) }"
  using init_errno_cases [of 0 a p len]
  by (auto simp: encode_get_firmware_parameters_resp_comp_entry_def mb_fill_def mb_exit_def
      split: prod.splits)

section \<open>Interpretations\<close>

interpretation request_update_resp: message_encoder "encode_request_update_resp (ucast i) meta pkg"
    "wire_hdr PLDM_RESPONSE (ucast i) PLDM_FWUP PLDM_REQUEST_UPDATE"
    "[PLDM_SUCCESS] @ le_of_word meta @ [pkg]" for i :: "5 word" and meta pkg
  by (rule fwup_encoders(1) [OF instance_id_small])

interpretation pass_component_resp: message_encoder
    "encode_pass_component_table_resp (ucast i) resp code"
    "wire_hdr PLDM_RESPONSE (ucast i) PLDM_FWUP PLDM_PASS_COMPONENT_TABLE"
    "[PLDM_SUCCESS, resp, code]" for i :: "5 word" and resp code
  by (rule fwup_encoders(2) [OF instance_id_small])

interpretation update_component_resp: message_encoder
    "encode_update_component_resp (ucast i) resp code flags time"
    "wire_hdr PLDM_RESPONSE (ucast i) PLDM_FWUP PLDM_UPDATE_COMPONENT"
    "[PLDM_SUCCESS, resp, code] @ le_of_word flags @ le_of_word time"
    for i :: "5 word" and resp code flags time
  by (rule fwup_encoders(3) [OF instance_id_small])

interpretation activate_firmware_resp: message_encoder "encode_activate_firmware_resp (ucast i) estimated"
    "wire_hdr PLDM_RESPONSE (ucast i) PLDM_FWUP PLDM_ACTIVATE_FIRMWARE"
    "[PLDM_SUCCESS] @ le_of_word estimated" for i :: "5 word" and estimated
  by (rule fwup_encoders(8) [OF instance_id_small])

interpretation cancel_update_resp: message_encoder "encode_cancel_update_resp (ucast i) indication bitmap"
    "wire_hdr PLDM_RESPONSE (ucast i) PLDM_FWUP PLDM_CANCEL_UPDATE"
    "[PLDM_SUCCESS, indication] @ le_of_word bitmap" for i :: "5 word" and indication bitmap
  by (rule fwup_encoders(9) [OF instance_id_small])

section \<open>Round trips to the update agent\<close>

lemma get_bytes_sent:
  assumes "msg_holds len msg" "length bs \<le> len" "off + n \<le> length bs"
  shows "get_bytes off n (sent h bs msg) = Some (take n (drop off bs))"
  using assms by (simp add: get_bytes_def sent_def msg_holds_def bytes_at_poke)

text \<open>What an update agent makes of the requests of a firmware device.\<close>

lemma fd_requests_decoded:
  assumes "msg_holds len msg" "inst \<le> PLDM_INSTANCE_MAX" "8 \<le> len"
  shows "\<exists>m. encode_request_firmware_data_req inst off n (Some msg) (Some len) = Some (0, Some m, Some 8) \<and>
      decode_request_firmware_data_req (Some m) 8 (Some o0) (Some n0) =
        Some (if n < PLDM_FWUP_BASELINE_TRANSFER_SIZE then PLDM_FWUP_INVALID_TRANSFER_LENGTH
              else PLDM_SUCCESS, Some off, Some n)"
    and "\<exists>m. encode_transfer_complete_req inst r (Some msg) (Some len) = Some (0, Some m, Some 1) \<and>
      decode_transfer_complete_req (Some m) 1 (Some r0) = Some (PLDM_SUCCESS, Some r)"
    and "\<exists>m. encode_verify_complete_req inst r (Some msg) (Some len) = Some (0, Some m, Some 1) \<and>
      decode_verify_complete_req (Some m) 1 (Some r0) = Some (PLDM_SUCCESS, Some r)"
    and "\<exists>m. encode_apply_complete_req inst r k (Some msg) (Some len) = Some (0, Some m, Some 3) \<and>
      decode_apply_complete_req (Some m) 3 (Some r0) (Some k0) =
        Some (if r \<noteq> PLDM_FWUP_APPLY_SUCCESS_WITH_ACTIVATION_METHOD \<and> k \<noteq> 0
              then PLDM_ERROR_INVALID_DATA else PLDM_SUCCESS, Some r, Some k)"
  using message_encoder.fits [OF fwup_encoders(4) [OF assms(2)] assms(1), of off n]
    message_encoder.fits [OF fwup_encoders(5) [OF assms(2)] assms(1), of r]
    message_encoder.fits [OF fwup_encoders(6) [OF assms(2)] assms(1), of r]
    message_encoder.fits [OF fwup_encoders(7) [OF assms(2)] assms(1), of r k] assms(3)
  by (auto simp: decode_request_firmware_data_req_def decode_transfer_complete_req_def
      decode_verify_complete_req_def decode_apply_complete_req_def get_bytes_sent [OF assms(1)])

text \<open>The statuses an update agent accepts.\<close>

definition status_valid :: "get_status_resp \<Rightarrow> bool" where
  "status_valid st \<longleftrightarrow>
     is_state_valid (gs_current_state st) \<and> is_state_valid (gs_previous_state st) \<and>
     is_aux_state_valid (gs_aux_state st) \<and> is_aux_state_status_valid (gs_aux_state_status st) \<and>
     gs_progress_percent st \<le> PLDM_FWUP_MAX_PROGRESS_PERCENT \<and>
     is_reason_code_valid (gs_reason_code st) \<and>
     (gs_current_state st = 0 \<longrightarrow> gs_aux_state st = 3 \<or> gs_aux_state st = 4) \<and>
     (gs_current_state st = 1 \<or> gs_current_state st = 2 \<longrightarrow> gs_aux_state st = 3)"

lemma status_bytes_nth:
  "length (status_bytes st) = 11" "status_bytes st ! 0 = 0"
  "status_bytes st ! 1 = gs_current_state st" "status_bytes st ! 2 = gs_previous_state st"
  "status_bytes st ! 3 = gs_aux_state st" "status_bytes st ! 4 = gs_aux_state_status st"
  "status_bytes st ! 5 = gs_progress_percent st" "status_bytes st ! 6 = gs_reason_code st"
  "bytes_at (status_bytes st) 7 4 = le_of_word (gs_option_flags st)"
  by (simp_all add: status_bytes_def bytes_at_def)

lemma get_status_decoded:
  assumes "msg_holds len msg" "inst \<le> PLDM_INSTANCE_MAX" "11 \<le> len" "gs_completion_code st = PLDM_SUCCESS"
  shows "\<exists>m. encode_get_status_resp inst (Some st) (Some msg) (Some len) = Some (0, Some m, Some 11) \<and>
    decode_get_status_resp (Some m) 11 (Some out) =
      (if status_valid st then Some (PLDM_SUCCESS, Some st)
       else Some (PLDM_ERROR_INVALID_DATA, Some (out\<lparr>gs_completion_code := PLDM_SUCCESS\<rparr>)))"
proof -
  let ?m = "sent (wire_hdr PLDM_RESPONSE inst PLDM_FWUP PLDM_GET_STATUS) (status_bytes st) msg"
  have enc: "encode_get_status_resp inst (Some st) (Some msg) (Some len) = Some (0, Some ?m, Some 11)"
    using message_encoder.fits [OF get_status_encoder [OF assms(2,4)] assms(1)] assms(3)
    by (simp add: status_bytes_nth)
  have r: "get_bytes 0 1 ?m = Some (take 1 (status_bytes st))" "get_bytes 0 11 ?m = Some (status_bytes st)"
    using assms(3) by (simp_all add: get_bytes_sent [OF assms(1)] status_bytes_nth)
  have "decode_get_status_resp (Some ?m) 11 (Some out) =
      (if status_valid st then Some (PLDM_SUCCESS, Some st)
       else Some (PLDM_ERROR_INVALID_DATA, Some (out\<lparr>gs_completion_code := PLDM_SUCCESS\<rparr>)))"
    using assms(4)
    by (simp add: decode_get_status_resp_def r status_bytes_nth status_valid_def Let_def del: One_nat_def)
      (auto simp: linorder_not_less)
  with enc show ?thesis by blast
qed

text \<open>
  C12. What a firmware device sends, an update agent reads: the requests RequestFirmwareData,
  TransferComplete, VerifyComplete and ApplyComplete and the status are decoded to the values
  they were encoded from. A request for less than the baseline transfer size is refused
  with the values still read, and a status is refused when it is not one of those DSP0267 allows.
\<close>

theorem fd_messages_roundtrip:
  assumes "msg_holds len msg" "inst \<le> PLDM_INSTANCE_MAX" "11 \<le> len"
    and "gs_completion_code st = PLDM_SUCCESS"
  shows "(\<exists>m. encode_request_firmware_data_req inst off n (Some msg) (Some len) = Some (0, Some m, Some 8) \<and>
      decode_request_firmware_data_req (Some m) 8 (Some o0) (Some n0) =
        Some (if n < PLDM_FWUP_BASELINE_TRANSFER_SIZE then PLDM_FWUP_INVALID_TRANSFER_LENGTH
              else PLDM_SUCCESS, Some off, Some n)) \<and>
    (\<exists>m. encode_transfer_complete_req inst r (Some msg) (Some len) = Some (0, Some m, Some 1) \<and>
      decode_transfer_complete_req (Some m) 1 (Some r0) = Some (PLDM_SUCCESS, Some r)) \<and>
    (\<exists>m. encode_verify_complete_req inst r (Some msg) (Some len) = Some (0, Some m, Some 1) \<and>
      decode_verify_complete_req (Some m) 1 (Some r0) = Some (PLDM_SUCCESS, Some r)) \<and>
    (\<exists>m. encode_apply_complete_req inst r k (Some msg) (Some len) = Some (0, Some m, Some 3) \<and>
      decode_apply_complete_req (Some m) 3 (Some r0) (Some k0) =
        Some (if r \<noteq> PLDM_FWUP_APPLY_SUCCESS_WITH_ACTIVATION_METHOD \<and> k \<noteq> 0
              then PLDM_ERROR_INVALID_DATA else PLDM_SUCCESS, Some r, Some k)) \<and>
    (\<exists>m. encode_get_status_resp inst (Some st) (Some msg) (Some len) = Some (0, Some m, Some 11) \<and>
        decode_get_status_resp (Some m) 11 (Some out) =
          (if status_valid st then Some (PLDM_SUCCESS, Some st)
           else Some (PLDM_ERROR_INVALID_DATA, Some (out\<lparr>gs_completion_code := PLDM_SUCCESS\<rparr>))))"
  using assms(3) by (intro conjI fd_requests_decoded [OF assms(1,2)] get_status_decoded [OF assms]) simp_all

theorem fd_messages_roundtrip_witness:
  "\<exists>m. encode_get_status_resp 3 (Some \<lparr>gs_completion_code = 0, gs_current_state = 3,
        gs_previous_state = 2, gs_aux_state = 0, gs_aux_state_status = 0, gs_progress_percent = 42,
        gs_reason_code = 0, gs_option_flags = 1\<rparr>)
      (Some \<lparr>m_hdr = hdr_of_bytes 0 0 0, m_addr = 4096, m_payload = replicate 16 0\<rparr>) (Some 16) =
        Some (0, Some m, Some 11) \<and>
    decode_get_status_resp (Some m) 11 (Some \<lparr>gs_completion_code = 1, gs_current_state = 0,
        gs_previous_state = 0, gs_aux_state = 0, gs_aux_state_status = 0, gs_progress_percent = 0,
        gs_reason_code = 0, gs_option_flags = 0\<rparr>) =
      Some (PLDM_SUCCESS, Some \<lparr>gs_completion_code = 0, gs_current_state = 3,
        gs_previous_state = 2, gs_aux_state = 0, gs_aux_state_status = 0, gs_progress_percent = 42,
        gs_reason_code = 0, gs_option_flags = 1\<rparr>)"
proof -
  let ?st = "\<lparr>gs_completion_code = 0, gs_current_state = 3, gs_previous_state = 2, gs_aux_state = 0,
    gs_aux_state_status = 0, gs_progress_percent = 42, gs_reason_code = 0, gs_option_flags = 1\<rparr>"
  have valid: "status_valid ?st"
    by (simp add: status_valid_def is_state_valid_def is_aux_state_valid_def
        is_aux_state_status_valid_def is_reason_code_valid_def)
  have "msg_holds 16 \<lparr>m_hdr = hdr_of_bytes 0 0 0, m_addr = 4096, m_payload = replicate 16 0\<rparr>"
    by (simp add: msg_holds_def)
  from fd_messages_roundtrip [OF this, of 3 ?st] valid show ?thesis by simp
qed

section \<open>The decoders return\<close>

text \<open>
  A call that returns a value with \<open>Q\<close>: it is defined and its return code is one a caller can
  hand to \<open>pldm_fd_reply_errno\<close>. The rules of \<open>codec_post\<close> walk over a decoder like those of
  \<open>codec_safe\<close>.
\<close>

definition returns :: "('r \<Rightarrow> bool) \<Rightarrow> 'r option \<Rightarrow> bool" where
  "returns Q x \<longleftrightarrow> (\<exists>v. x = Some v \<and> Q v)"

definition decoded :: "int \<times> 'v option \<Rightarrow> bool" where
  "decoded r \<longleftrightarrow> fst r \<le> 0 \<and> snd r \<noteq> None"

lemma decodedI [codec_post]: "rc \<le> 0 \<Longrightarrow> decoded (rc, Some v)"
  by (simp add: decoded_def)

lemma returns_exit [codec_post]: "mb_done b \<Longrightarrow> Q r \<Longrightarrow> returns Q (mb_exit b r)"
  by (simp add: returns_def mb_exit_def mb_done_def)

lemma returns_if [codec_post]:
  "(P \<Longrightarrow> returns Q x) \<Longrightarrow> (\<not> P \<Longrightarrow> returns Q y) \<Longrightarrow> returns Q (if P then x else y)"
  by simp

lemma returns_init [codec_post]:
  assumes "len \<le> length m"
    and "\<And>rc b. rc \<le> 0 \<Longrightarrow> mb_done b \<Longrightarrow> returns Q (x rc b)"
    and "\<And>rc b. mb_ok b \<Longrightarrow> returns Q (y rc b)"
  shows "returns Q (case pldm__msgbuf_init_errno k a m len of
    (rc, b) \<Rightarrow> if rc \<noteq> 0 then x rc b else y rc b)"
proof (cases "pldm__msgbuf_init_errno k a m len = (- EOVERFLOW, dead_mb a m)")
  case True
  then show ?thesis using assms(2) [of "- EOVERFLOW" "dead_mb a m"]
    by (simp add: mb_done_def dead_mb_cleanup mb_simps)
next
  case False
  then have "pldm__msgbuf_init_errno k a m len = (0, live_mb a m 0 (int len))" and "int len \<le> INTMAX_MAX"
    by (auto simp: pldm__msgbuf_init_errno_def pldm__msgbuf_set_invalid_def dead_mb_def
        live_mb_def Let_def split: if_splits)
  then show ?thesis using assms(1,3) by (simp add: mb_ok_live_mb)
qed

lemma returns_taker:
  assumes "msgbuf_op (\<lambda>b. rc_of (op b))" "fst (op b) \<le> 0" "mb_ok b"
    and "\<And>rc v b'. rc \<le> 0 \<Longrightarrow> mb_ok b' \<Longrightarrow> returns Q (f rc v b')"
  shows "returns Q (case op b of (rc, v, b') \<Rightarrow> f rc v b')"
  using msgbuf_op.op_ok [OF assms(1,3)] assms(2,4) by (simp add: case_prod_unfold rc_of_def)

lemma extract_rc:
  "fst (pldm__msgbuf_extract_uint8 b d8) \<le> 0" "fst (pldm__msgbuf_extract_uint16 b d16) \<le> 0"
  "fst (pldm__msgbuf_extract_uint32 b d32) \<le> 0" "fst (pldm__msgbuf_extract_array_void b n dst k) \<le> 0"
  by (simp_all add: pldm__msgbuf_extract_uint8_def pldm__msgbuf_extract_uint16_def
      pldm__msgbuf_extract_uint32_def pldm__msgbuf_extract_array_void_def msgbuf_extract_def
      mb_overflow_def pldm__msgbuf_set_invalid_def Let_def)

lemmas returns_extract [codec_post] =
  returns_taker [OF extract_uint8.msgbuf_op_axioms extract_rc(1)]
  returns_taker [OF extract_uint16.msgbuf_op_axioms extract_rc(2)]
  returns_taker [OF extract_uint32.msgbuf_op_axioms extract_rc(3)]

lemma returns_extract_array [codec_post]:
  assumes "mb_ok b" "\<And>rc v b'. rc \<le> 0 \<Longrightarrow> mb_ok b' \<Longrightarrow> returns Q (f rc v b')"
  shows "returns Q (case pldm__msgbuf_extract_array_void b n dst k of (rc, v, b') \<Rightarrow> f rc v b')"
proof (cases "n \<le> k")
  case True
  with assms show ?thesis
    by (intro returns_taker [OF msgbuf_op_extract_array extract_rc(4)]) simp_all
next
  case False
  with assms show ?thesis by (simp add: pldm__msgbuf_extract_array_void_def)
qed

lemma returns_finish [codec_post]:
  assumes "mb_ok b"
  shows "(\<And>rc b'. rc \<le> 0 \<Longrightarrow> mb_done b' \<Longrightarrow> returns Q (f rc b')) \<Longrightarrow>
      returns Q (case pldm_msgbuf_complete_consumed b of (rc, b') \<Rightarrow> f rc b')"
    and "e \<le> 0 \<Longrightarrow> (\<And>b'. mb_done b' \<Longrightarrow> returns Q (f e b')) \<Longrightarrow>
      returns Q (case pldm__msgbuf_discard b e of (rc, b') \<Rightarrow> f rc b')"
  using assms by (simp_all add: mb_ok_def mb_done_def pldm_msgbuf_complete_consumed_def
      pldm__msgbuf_consumed_def pldm__msgbuf_discard_def pldm__msgbuf_set_invalid_def
      pldm__msgbuf_cleanup_def)

lemma fd_decoders_return:
  assumes "msg_holds n msg"
  shows "returns decoded (decode_request_update_req (Some msg) n (Some r))"
    and "returns decoded (decode_pass_component_table_req (Some msg) n (Some p))"
    and "returns decoded (decode_update_component_req (Some msg) n (Some u))"
    and "returns decoded (decode_activate_firmware_req (Some msg) n (Some s))"
  using assms unfolding msg_holds_def decode_request_update_req_def decode_pass_component_table_req_def
    decode_update_component_req_def decode_activate_firmware_req_def extract_version_def codec_body
  by (auto intro!: codec_post)

end
