(* ===== verification/Edac.thy ===== *)
theory Edac
  imports Prelude
begin

text \<open>
  The checksums of \<^verbatim>\<open>src/edac.c\<close>: the table-driven CRC-32 and CRC-8. The tables are those of
  the source. The theorems relate the table look-ups to the bit-by-bit division by the
  generator polynomial that they shortcut, and show what the checksum detects.
\<close>

section \<open>The code\<close>

definition crc32_tab :: "u32 list" where
  "crc32_tab =
     [0x00000000, 0x77073096, 0xee0e612c, 0x990951ba, 0x076dc419, 0x706af48f,
      0xe963a535, 0x9e6495a3, 0x0edb8832, 0x79dcb8a4, 0xe0d5e91e, 0x97d2d988,
      0x09b64c2b, 0x7eb17cbd, 0xe7b82d07, 0x90bf1d91, 0x1db71064, 0x6ab020f2,
      0xf3b97148, 0x84be41de, 0x1adad47d, 0x6ddde4eb, 0xf4d4b551, 0x83d385c7,
      0x136c9856, 0x646ba8c0, 0xfd62f97a, 0x8a65c9ec, 0x14015c4f, 0x63066cd9,
      0xfa0f3d63, 0x8d080df5, 0x3b6e20c8, 0x4c69105e, 0xd56041e4, 0xa2677172,
      0x3c03e4d1, 0x4b04d447, 0xd20d85fd, 0xa50ab56b, 0x35b5a8fa, 0x42b2986c,
      0xdbbbc9d6, 0xacbcf940, 0x32d86ce3, 0x45df5c75, 0xdcd60dcf, 0xabd13d59,
      0x26d930ac, 0x51de003a, 0xc8d75180, 0xbfd06116, 0x21b4f4b5, 0x56b3c423,
      0xcfba9599, 0xb8bda50f, 0x2802b89e, 0x5f058808, 0xc60cd9b2, 0xb10be924,
      0x2f6f7c87, 0x58684c11, 0xc1611dab, 0xb6662d3d, 0x76dc4190, 0x01db7106,
      0x98d220bc, 0xefd5102a, 0x71b18589, 0x06b6b51f, 0x9fbfe4a5, 0xe8b8d433,
      0x7807c9a2, 0x0f00f934, 0x9609a88e, 0xe10e9818, 0x7f6a0dbb, 0x086d3d2d,
      0x91646c97, 0xe6635c01, 0x6b6b51f4, 0x1c6c6162, 0x856530d8, 0xf262004e,
      0x6c0695ed, 0x1b01a57b, 0x8208f4c1, 0xf50fc457, 0x65b0d9c6, 0x12b7e950,
      0x8bbeb8ea, 0xfcb9887c, 0x62dd1ddf, 0x15da2d49, 0x8cd37cf3, 0xfbd44c65,
      0x4db26158, 0x3ab551ce, 0xa3bc0074, 0xd4bb30e2, 0x4adfa541, 0x3dd895d7,
      0xa4d1c46d, 0xd3d6f4fb, 0x4369e96a, 0x346ed9fc, 0xad678846, 0xda60b8d0,
      0x44042d73, 0x33031de5, 0xaa0a4c5f, 0xdd0d7cc9, 0x5005713c, 0x270241aa,
      0xbe0b1010, 0xc90c2086, 0x5768b525, 0x206f85b3, 0xb966d409, 0xce61e49f,
      0x5edef90e, 0x29d9c998, 0xb0d09822, 0xc7d7a8b4, 0x59b33d17, 0x2eb40d81,
      0xb7bd5c3b, 0xc0ba6cad, 0xedb88320, 0x9abfb3b6, 0x03b6e20c, 0x74b1d29a,
      0xead54739, 0x9dd277af, 0x04db2615, 0x73dc1683, 0xe3630b12, 0x94643b84,
      0x0d6d6a3e, 0x7a6a5aa8, 0xe40ecf0b, 0x9309ff9d, 0x0a00ae27, 0x7d079eb1,
      0xf00f9344, 0x8708a3d2, 0x1e01f268, 0x6906c2fe, 0xf762575d, 0x806567cb,
      0x196c3671, 0x6e6b06e7, 0xfed41b76, 0x89d32be0, 0x10da7a5a, 0x67dd4acc,
      0xf9b9df6f, 0x8ebeeff9, 0x17b7be43, 0x60b08ed5, 0xd6d6a3e8, 0xa1d1937e,
      0x38d8c2c4, 0x4fdff252, 0xd1bb67f1, 0xa6bc5767, 0x3fb506dd, 0x48b2364b,
      0xd80d2bda, 0xaf0a1b4c, 0x36034af6, 0x41047a60, 0xdf60efc3, 0xa867df55,
      0x316e8eef, 0x4669be79, 0xcb61b38c, 0xbc66831a, 0x256fd2a0, 0x5268e236,
      0xcc0c7795, 0xbb0b4703, 0x220216b9, 0x5505262f, 0xc5ba3bbe, 0xb2bd0b28,
      0x2bb45a92, 0x5cb36a04, 0xc2d7ffa7, 0xb5d0cf31, 0x2cd99e8b, 0x5bdeae1d,
      0x9b64c2b0, 0xec63f226, 0x756aa39c, 0x026d930a, 0x9c0906a9, 0xeb0e363f,
      0x72076785, 0x05005713, 0x95bf4a82, 0xe2b87a14, 0x7bb12bae, 0x0cb61b38,
      0x92d28e9b, 0xe5d5be0d, 0x7cdcefb7, 0x0bdbdf21, 0x86d3d2d4, 0xf1d4e242,
      0x68ddb3f8, 0x1fda836e, 0x81be16cd, 0xf6b9265b, 0x6fb077e1, 0x18b74777,
      0x88085ae6, 0xff0f6a70, 0x66063bca, 0x11010b5c, 0x8f659eff, 0xf862ae69,
      0x616bffd3, 0x166ccf45, 0xa00ae278, 0xd70dd2ee, 0x4e048354, 0x3903b3c2,
      0xa7672661, 0xd06016f7, 0x4969474d, 0x3e6e77db, 0xaed16a4a, 0xd9d65adc,
      0x40df0b66, 0x37d83bf0, 0xa9bcae53, 0xdebb9ec5, 0x47b2cf7f, 0x30b5ffe9,
      0xbdbdf21c, 0xcabac28a, 0x53b39330, 0x24b4a3a6, 0xbad03605, 0xcdd70693,
      0x54de5729, 0x23d967bf, 0xb3667a2e, 0xc4614ab8, 0x5d681b02, 0x2a6f2b94,
      0xb40bbe37, 0xc30c8ea1, 0x5a05df1b, 0x2d02ef8d]"

definition crc8_table :: "u8 list" where
  "crc8_table =
     [0x00, 0x07, 0x0e, 0x09, 0x1c, 0x1b, 0x12, 0x15, 0x38, 0x3f, 0x36, 0x31,
      0x24, 0x23, 0x2a, 0x2d, 0x70, 0x77, 0x7e, 0x79, 0x6c, 0x6b, 0x62, 0x65,
      0x48, 0x4f, 0x46, 0x41, 0x54, 0x53, 0x5a, 0x5d, 0xe0, 0xe7, 0xee, 0xe9,
      0xfc, 0xfb, 0xf2, 0xf5, 0xd8, 0xdf, 0xd6, 0xd1, 0xc4, 0xc3, 0xca, 0xcd,
      0x90, 0x97, 0x9e, 0x99, 0x8c, 0x8b, 0x82, 0x85, 0xa8, 0xaf, 0xa6, 0xa1,
      0xb4, 0xb3, 0xba, 0xbd, 0xc7, 0xc0, 0xc9, 0xce, 0xdb, 0xdc, 0xd5, 0xd2,
      0xff, 0xf8, 0xf1, 0xf6, 0xe3, 0xe4, 0xed, 0xea, 0xb7, 0xb0, 0xb9, 0xbe,
      0xab, 0xac, 0xa5, 0xa2, 0x8f, 0x88, 0x81, 0x86, 0x93, 0x94, 0x9d, 0x9a,
      0x27, 0x20, 0x29, 0x2e, 0x3b, 0x3c, 0x35, 0x32, 0x1f, 0x18, 0x11, 0x16,
      0x03, 0x04, 0x0d, 0x0a, 0x57, 0x50, 0x59, 0x5e, 0x4b, 0x4c, 0x45, 0x42,
      0x6f, 0x68, 0x61, 0x66, 0x73, 0x74, 0x7d, 0x7a, 0x89, 0x8e, 0x87, 0x80,
      0x95, 0x92, 0x9b, 0x9c, 0xb1, 0xb6, 0xbf, 0xb8, 0xad, 0xaa, 0xa3, 0xa4,
      0xf9, 0xfe, 0xf7, 0xf0, 0xe5, 0xe2, 0xeb, 0xec, 0xc1, 0xc6, 0xcf, 0xc8,
      0xdd, 0xda, 0xd3, 0xd4, 0x69, 0x6e, 0x67, 0x60, 0x75, 0x72, 0x7b, 0x7c,
      0x51, 0x56, 0x5f, 0x58, 0x4d, 0x4a, 0x43, 0x44, 0x19, 0x1e, 0x17, 0x10,
      0x05, 0x02, 0x0b, 0x0c, 0x21, 0x26, 0x2f, 0x28, 0x3d, 0x3a, 0x33, 0x34,
      0x4e, 0x49, 0x40, 0x47, 0x52, 0x55, 0x5c, 0x5b, 0x76, 0x71, 0x78, 0x7f,
      0x6a, 0x6d, 0x64, 0x63, 0x3e, 0x39, 0x30, 0x37, 0x22, 0x25, 0x2c, 0x2b,
      0x06, 0x01, 0x08, 0x0f, 0x1a, 0x1d, 0x14, 0x13, 0xae, 0xa9, 0xa0, 0xa7,
      0xb2, 0xb5, 0xbc, 0xbb, 0x96, 0x91, 0x98, 0x9f, 0x8a, 0x8d, 0x84, 0x83,
      0xde, 0xd9, 0xd0, 0xd7, 0xc2, 0xc5, 0xcc, 0xcb, 0xe6, 0xe1, 0xe8, 0xef,
      0xfa, 0xfd, 0xf4, 0xf3]"

text \<open>
  The loops read \<open>size\<close> bytes at \<open>data\<close>; the list holds the bytes of the object there, and
  reading past its end is \<open>None\<close>.
\<close>

fun crc32_loop :: "u8 list \<Rightarrow> nat \<Rightarrow> u32 \<Rightarrow> u32 option" where
  "crc32_loop p 0 crc = Some crc"
| "crc32_loop [] (Suc n) crc = None"
| "crc32_loop (b # p) (Suc n) crc =
     crc32_loop p n (crc32_tab ! unat ((crc XOR ucast b) AND 0xff) XOR drop_bit 8 crc)"

definition pldm_edac_crc32_extend :: "u8 list \<Rightarrow> nat \<Rightarrow> u32 \<Rightarrow> u32 option" where
  "pldm_edac_crc32_extend data n crc =
     map_option (\<lambda>crc. crc XOR NOT 0) (crc32_loop data n (crc XOR NOT 0))"

definition pldm_edac_crc32 :: "u8 list \<Rightarrow> nat \<Rightarrow> u32 option" where
  "pldm_edac_crc32 data n = pldm_edac_crc32_extend data n 0"

definition pldm_edac_crc32_validate :: "u32 \<Rightarrow> u8 list option \<Rightarrow> nat \<Rightarrow> int option" where
  "pldm_edac_crc32_validate expected data n =
     (if data = None \<and> n \<noteq> 0 then Some (- EINVAL)
      else map_option (\<lambda>actual. if expected = actual then 0 else - EUCLEAN)
             (pldm_edac_crc32 (case data of None \<Rightarrow> [] | Some d \<Rightarrow> d) n))"

fun crc8_loop :: "u8 list \<Rightarrow> nat \<Rightarrow> u8 \<Rightarrow> u8 option" where
  "crc8_loop p 0 crc = Some crc"
| "crc8_loop [] (Suc n) crc = None"
| "crc8_loop (b # p) (Suc n) crc = crc8_loop p n (crc8_table ! unat (crc XOR b))"

definition pldm_edac_crc8 :: "u8 list \<Rightarrow> nat \<Rightarrow> u8 option" where
  "pldm_edac_crc8 data n = crc8_loop data n 0"

section \<open>Bit-by-bit reference\<close>

text \<open>
  One bit of the reflected CRC-32 (polynomial \<open>0xedb88320\<close>) and of the CRC-8 (polynomial
  \<open>x\<^sup>8 + x\<^sup>2 + x + 1\<close>), and a byte as eight of them.
\<close>

definition crc32_bit :: "u32 \<Rightarrow> u32" where
  "crc32_bit c = (if bit c 0 then drop_bit 1 c XOR 0xedb88320 else drop_bit 1 c)"

definition crc8_bit :: "u8 \<Rightarrow> u8" where
  "crc8_bit c = (if bit c 7 then push_bit 1 c XOR 0x07 else push_bit 1 c)"

definition crc32_byte :: "u32 \<Rightarrow> u8 \<Rightarrow> u32" where
  "crc32_byte crc b = (crc32_bit ^^ 8) (crc XOR ucast b)"

definition crc8_byte :: "u8 \<Rightarrow> u8 \<Rightarrow> u8" where
  "crc8_byte crc b = (crc8_bit ^^ 8) (crc XOR b)"

definition crc32_ref :: "u32 \<Rightarrow> u8 list \<Rightarrow> u32" where
  "crc32_ref crc data = foldl crc32_byte (crc XOR NOT 0) data XOR NOT 0"

definition crc8_ref :: "u8 list \<Rightarrow> u8" where
  "crc8_ref data = foldl crc8_byte 0 data"

section \<open>The tables\<close>

fun tabulates :: "('a::len word \<Rightarrow> 'b) \<Rightarrow> 'a word \<Rightarrow> 'b list \<Rightarrow> bool" where
  "tabulates f i [] \<longleftrightarrow> True"
| "tabulates f i (t # ts) \<longleftrightarrow> f i = t \<and> tabulates f (i + 1) ts"

lemma tabulates_nth: "tabulates f i ts \<Longrightarrow> k < length ts \<Longrightarrow> ts ! k = f (i + of_nat k)"
proof (induction ts arbitrary: i k)
  case (Cons t ts)
  then show ?case by (cases k) (auto simp: add.assoc)
qed simp

lemma funpow_8: "(f ^^ 8) x = f (f (f (f (f (f (f (f x)))))))"
  by (simp add: numeral_eq_Suc)

lemma crc32_tab_tabulates: "tabulates (crc32_bit ^^ 8) 0 crc32_tab"
  by (simp add: crc32_tab_def funpow_8 crc32_bit_def)

lemma crc8_table_tabulates: "tabulates (crc8_bit ^^ 8) 0 crc8_table"
  by (simp add: crc8_table_def funpow_8 crc8_bit_def)

lemma length_crc_tables: "length crc32_tab = 256" "length crc8_table = 256"
  by (simp_all add: crc32_tab_def crc8_table_def)

lemma crc8_table_nth: "crc8_table ! unat x = (crc8_bit ^^ 8) x"
proof -
  have "unat x < 2 ^ LENGTH(8)" by (rule unsigned_less)
  then show ?thesis
    using tabulates_nth [OF crc8_table_tabulates, of "unat x"] by (simp add: length_crc_tables)
qed

lemma crc32_tab_nth: "crc32_tab ! unat (x AND 0xff) = (crc32_bit ^^ 8) (x AND 0xff)"
proof -
  have "x AND 0xff \<le> 0xff" by (rule word_and_le1)
  then have "unat (x AND 0xff) < 256" by (simp add: word_le_nat_alt)
  then show ?thesis
    using tabulates_nth [OF crc32_tab_tabulates] by (simp add: length_crc_tables)
qed

section \<open>Linearity\<close>

lemma crc32_bit_xor: "crc32_bit (x XOR y) = crc32_bit x XOR crc32_bit y"
  by (auto simp: crc32_bit_def bit_xor_iff xor.assoc xor.left_commute xor.commute)

lemma crc32_bits_xor: "(crc32_bit ^^ n) (x XOR y) = (crc32_bit ^^ n) x XOR (crc32_bit ^^ n) y"
  by (induction n arbitrary: x y) (simp_all add: crc32_bit_xor)

lemma crc32_bits_low_clear:
  "(\<And>i. i < n \<Longrightarrow> \<not> bit x i) \<Longrightarrow> (crc32_bit ^^ n) x = drop_bit n x"
proof (induction n)
  case (Suc n)
  then have "(crc32_bit ^^ Suc n) x = crc32_bit (drop_bit n x)" by simp
  moreover have "\<not> bit (drop_bit n x) 0" using Suc.prems [of n] by (simp add: bit_simps)
  ultimately show ?case by (simp only: crc32_bit_def [of "drop_bit n x"]) simp
qed simp

text \<open>The step of the loop is the division of one byte, bit by bit.\<close>

lemma crc32_table_step:
  "crc32_tab ! unat ((crc XOR ucast b) AND 0xff) XOR drop_bit 8 crc = crc32_byte crc b"
proof -
  let ?x = "crc XOR ucast b :: u32"
  have ff: "(0xff :: u32) = mask 8" by (simp add: mask_eq_exp_minus_1)
  have split: "?x = (?x AND mask 8) XOR (?x AND NOT (mask 8))"
    by (rule bit_eqI) (auto simp: bit_simps)
  have "(crc32_bit ^^ 8) (?x AND NOT (mask 8)) = drop_bit 8 (?x AND NOT (mask 8))"
    by (rule crc32_bits_low_clear) (simp add: bit_simps)
  also have "\<dots> = drop_bit 8 crc"
    by (rule bit_eqI) (auto simp: bit_simps dest: bit_imp_le_length)
  finally have "crc32_byte crc b = (crc32_bit ^^ 8) (?x AND mask 8) XOR drop_bit 8 crc"
    unfolding crc32_byte_def by (subst split) (simp add: crc32_bits_xor)
  then show ?thesis by (simp only: crc32_tab_nth) (simp only: ff)
qed

lemma crc32_loop_ref:
  "n \<le> length data \<Longrightarrow> crc32_loop data n crc = Some (foldl crc32_byte crc (take n data))"
  by (induction data n crc rule: crc32_loop.induct) (simp_all add: crc32_table_step)

lemma crc8_loop_ref:
  "n \<le> length data \<Longrightarrow> crc8_loop data n crc = Some (foldl crc8_byte crc (take n data))"
  by (induction data n crc rule: crc8_loop.induct) (simp_all add: crc8_table_nth crc8_byte_def)

text \<open>
  C4. The table-driven CRC-32 is the bit-by-bit division by the reflected polynomial
  \<open>0xedb88320\<close> for every message and every starting value, and it reads exactly the \<open>size\<close>
  bytes it is given.
\<close>

theorem crc32_extend_bitwise:
  "pldm_edac_crc32_extend data n crc =
     (if n \<le> length data then Some (crc32_ref crc (take n data)) else None)"
proof (cases "n \<le> length data")
  case False
  have "length data < n \<Longrightarrow> crc32_loop data n c = None" for c
    by (induction data n c rule: crc32_loop.induct) simp_all
  with False show ?thesis by (simp add: pldm_edac_crc32_extend_def)
qed (simp add: pldm_edac_crc32_extend_def crc32_loop_ref crc32_ref_def)

text \<open>
  The table-driven CRC-8 is the bit-by-bit division by \<open>x\<^sup>8 + x\<^sup>2 + x + 1\<close>.
\<close>

theorem crc8_bitwise:
  "pldm_edac_crc8 data n = (if n \<le> length data then Some (crc8_ref (take n data)) else None)"
proof (cases "n \<le> length data")
  case False
  have "length data < n \<Longrightarrow> crc8_loop data n c = None" for c
    by (induction data n c rule: crc8_loop.induct) simp_all
  with False show ?thesis by (simp add: pldm_edac_crc8_def)
qed (simp add: pldm_edac_crc8_def crc8_loop_ref crc8_ref_def)

section \<open>What the checksum detects\<close>

lemma crc32_bit_inj: "inj crc32_bit"
proof (rule injI)
  fix x y
  assume eq: "crc32_bit x = crc32_bit y"
  have top: "bit (crc32_bit z) 31 \<longleftrightarrow> bit z 0" for z
    by (auto simp: crc32_bit_def bit_simps bit_numeral_rec dest: bit_imp_le_length)
  have low: "bit x 0 = bit y 0" using top [of x] top [of y] eq by simp
  then have "drop_bit 1 x = drop_bit 1 y"
    using eq by (simp add: crc32_bit_def split: if_splits)
  then have "bit x (Suc n) = bit y (Suc n)" for n
    by (metis bit_drop_bit_eq comp_apply plus_1_eq_Suc)
  with low have "bit x n = bit y n" for n by (cases n) simp_all
  then show "x = y" by (simp add: bit_eq_iff)
qed

lemma crc32_bits_inj: "(crc32_bit ^^ n) x = (crc32_bit ^^ n) y \<longleftrightarrow> x = y"
  by (induction n) (auto dest: injD [OF crc32_bit_inj])

lemma foldl_crc32_state_inj:
  "foldl crc32_byte c data = foldl crc32_byte d data \<longleftrightarrow> c = d"
proof (induction data arbitrary: c d)
  case (Cons b data)
  then show ?case by (simp add: crc32_byte_def crc32_bits_inj)
qed simp

text \<open>Up to four bytes are divided at once.\<close>

lemma foldl_crc32_word:
  "length bs \<le> 4 \<Longrightarrow>
     foldl crc32_byte c bs = (crc32_bit ^^ (8 * length bs)) (c XOR word_of_le bs)"
proof (induction bs arbitrary: c)
  case (Cons b bs)
  let ?w = "word_of_le bs :: u32"
  have "(crc32_bit ^^ 8) (push_bit 8 ?w) = drop_bit 8 (push_bit 8 ?w)"
    by (rule crc32_bits_low_clear) (simp add: bit_simps)
  also have "\<dots> = ?w"
  proof (rule bit_eqI)
    fix n
    have "n div 8 < length bs \<Longrightarrow> 8 + n < 32" using Cons.prems by simp
    then show "bit (drop_bit 8 (push_bit 8 ?w)) n = bit ?w n"
      by (auto simp: bit_simps bit_word_of_le)
  qed
  finally have shift: "(crc32_bit ^^ 8) (push_bit 8 ?w) = ?w" .
  have disj: "ucast b OR push_bit 8 ?w = ucast b XOR push_bit 8 ?w"
    by (rule bit_eqI) (auto simp: bit_simps dest: bit_imp_le_length)
  have "foldl crc32_byte c (b # bs) =
      (crc32_bit ^^ (8 * length bs)) ((crc32_bit ^^ 8) (c XOR ucast b) XOR ?w)"
    using Cons.IH [of "crc32_byte c b"] Cons.prems by (simp add: crc32_byte_def [of c b])
  also have "(crc32_bit ^^ 8) (c XOR ucast b) XOR ?w =
      (crc32_bit ^^ 8) (c XOR ucast b XOR push_bit 8 ?w)"
    by (simp only: crc32_bits_xor shift xor.assoc)
  also have "(crc32_bit ^^ (8 * length bs)) ((crc32_bit ^^ 8) (c XOR ucast b XOR push_bit 8 ?w)) =
      (crc32_bit ^^ (8 * length bs + 8)) (c XOR ucast b XOR push_bit 8 ?w)"
    by (simp only: funpow_add comp_apply)
  finally show ?case by (simp add: disj add.commute del: foldl_Cons)
qed simp

text \<open>
  C5. The CRC-32 of two messages that differ only inside a window of four consecutive bytes
  is different: corruption of up to 32 consecutive bits is always detected by the validation.
\<close>

theorem crc32_detects_bursts:
  assumes "length xs = length ys" and "length xs \<le> 4" and "xs \<noteq> ys"
    and "n = length (pre @ xs @ post)"
    and "pldm_edac_crc32 (pre @ xs @ post) n = Some expected"
  shows "pldm_edac_crc32_validate expected (Some (pre @ ys @ post)) n = Some (- EUCLEAN)"
proof -
  let ?c = "foldl crc32_byte (NOT 0) pre"
  have "word_of_le xs \<noteq> (word_of_le ys :: u32)"
    using word_of_le_inj [of xs ys, where 'a = 32] assms(1-3) by auto
  then have "foldl crc32_byte ?c xs \<noteq> foldl crc32_byte ?c ys"
    using assms(1,2) by (simp add: foldl_crc32_word crc32_bits_inj)
  then have "crc32_ref 0 (pre @ xs @ post) \<noteq> crc32_ref 0 (pre @ ys @ post)"
    by (simp add: crc32_ref_def foldl_crc32_state_inj)
  then show ?thesis
    using assms(1,4,5)
    by (auto simp: pldm_edac_crc32_validate_def pldm_edac_crc32_def pldm_edac_crc32_extend_def
        crc32_loop_ref crc32_ref_def)
qed

theorem crc32_detects_bursts_witness:
  "\<exists>expected. pldm_edac_crc32 [1, 2, 3, 4, 5, 6] 6 = Some expected \<and>
     pldm_edac_crc32_validate expected (Some [1, 9, 9, 9, 9, 6]) 6 = Some (- EUCLEAN)"
proof -
  obtain e where e: "pldm_edac_crc32 ([1] @ [2, 3, 4, 5] @ [6]) 6 = Some e"
    by (simp add: pldm_edac_crc32_def pldm_edac_crc32_extend_def crc32_loop_ref)
  from crc32_detects_bursts [of "[2, 3, 4, 5]" "[9, 9, 9, 9]" 6 "[1]" "[6]" e] e
  show ?thesis by simp
qed

text \<open>
  Extending a checksum over a second buffer is checksumming both buffers in one go.
\<close>

theorem crc32_extend_append:
  assumes "pldm_edac_crc32_extend xs (length xs) crc = Some mid"
  shows "pldm_edac_crc32_extend ys (length ys) mid =
    pldm_edac_crc32_extend (xs @ ys) (length (xs @ ys)) crc"
  using assms
  by (auto simp: pldm_edac_crc32_extend_def crc32_loop_ref xor.assoc)

theorem crc32_extend_append_witness:
  "\<exists>mid. pldm_edac_crc32_extend [7] 1 3 = Some mid \<and>
     pldm_edac_crc32_extend [8, 9] 2 mid = pldm_edac_crc32_extend [7, 8, 9] 3 3"
proof -
  obtain mid where m: "pldm_edac_crc32_extend [7] (length [7 :: u8]) 3 = Some mid"
    by (simp add: pldm_edac_crc32_extend_def)
  from crc32_extend_append [OF m, of "[8, 9]"] m show ?thesis by (simp add: numeral_eq_Suc)
qed

end
