(* ===== verification/Control.thy ===== *)
theory Control
  imports Base_Codec_Laws Edac
begin

text \<open>
  The control responder of \<^verbatim>\<open>src/control.c\<close>: a table of the PLDM types a terminus offers,
  and the handler that answers GetTID, GetPLDMVersion, GetPLDMTypes and GetPLDMCommands from
  it. Requests and responses are \<open>struct pldm_msg\<close> objects laid over the caller's buffers.
\<close>

section \<open>State\<close>

abbreviation (input) PLDM_CONTROL_MAX_VERSION_TYPES :: nat
  where "PLDM_CONTROL_MAX_VERSION_TYPES \<equiv> 6"
abbreviation (input) PLDM_CONTROL_INVALID_TRANSFER_OPERATION_FLAG :: u8
  where "PLDM_CONTROL_INVALID_TRANSFER_OPERATION_FLAG \<equiv> 0x81"
abbreviation (input) PLDM_CONTROL_INVALID_PLDM_TYPE_IN_REQUEST_DATA :: u8
  where "PLDM_CONTROL_INVALID_PLDM_TYPE_IN_REQUEST_DATA \<equiv> 0x83"
abbreviation (input) PLDM_GET_FIRSTPART :: u8 where "PLDM_GET_FIRSTPART \<equiv> 1"
abbreviation (input) PLDM_START_AND_END :: u8 where "PLDM_START_AND_END \<equiv> 5"

text \<open>
  A slot of the table. \<open>versions\<close> and \<open>commands\<close> are the bytes of the objects pointed at,
  \<open>None\<close> for NULL; a slot without versions is unused.
\<close>

record pldm_type_versions =
  tv_versions :: "u8 list option"
  tv_versions_count :: u8
  tv_commands :: "u8 list option"
  tv_pldm_type :: u8

record pldm_control =
  pc_types :: "pldm_type_versions list"

text \<open>The words of the table, in the memory order of a little-endian host.\<close>

definition PLDM_BASE_VERSIONS :: "u32 list" where
  "PLDM_BASE_VERSIONS = [0xf1f1f000, 0x539dbeba]"

definition PLDM_CONTROL_COMMANDS :: "u8 list" where
  "PLDM_CONTROL_COMMANDS =
     (push_bit PLDM_GET_TID 1 OR push_bit PLDM_GET_PLDM_VERSION 1 OR
      push_bit PLDM_GET_PLDM_TYPES 1 OR push_bit PLDM_GET_PLDM_COMMANDS 1) # replicate 31 0"

section \<open>Handlers\<close>

definition pldm_control_reply_error ::
    "u8 \<Rightarrow> pldm_header_info \<Rightarrow> pldm_msg \<Rightarrow> nat \<Rightarrow> (int \<times> pldm_msg \<times> nat) option" where
  "pldm_control_reply_error ccode req_hdr resp resp_payload_len =
     (if resp_payload_len < 1 then Some (- EOVERFLOW, resp, resp_payload_len)
      else do {
        (rc, r) \<leftarrow> encode_cc_only_resp (hi_instance req_hdr) PLDM_BASE (hi_command req_hdr) ccode
                    (Some resp);
        resp \<leftarrow> r;
        if rc \<noteq> PLDM_SUCCESS then Some (- EINVAL, resp, 1) else Some (0, resp, 1) })"

definition pldm_control_get_tid ::
    "pldm_header_info \<Rightarrow> nat \<Rightarrow> pldm_msg \<Rightarrow> nat \<Rightarrow> (int \<times> pldm_msg \<times> nat) option" where
  "pldm_control_get_tid hdr req_payload_len resp resp_payload_len =
     (if req_payload_len \<noteq> 0
      then pldm_control_reply_error PLDM_ERROR_INVALID_LENGTH hdr resp resp_payload_len
      else do {
        (rc, r, l) \<leftarrow> encode_pldm_base_get_tid_resp (hi_instance hdr)
                       (Some \<lparr>gt_completion_code = PLDM_SUCCESS, gt_tid = 0\<rparr>)
                       (Some resp) (Some resp_payload_len);
        resp \<leftarrow> r; len \<leftarrow> l;
        Some (rc, resp, len) })"

definition pldm_control_get_version ::
    "pldm_control \<Rightarrow> pldm_header_info \<Rightarrow> pldm_msg \<Rightarrow> nat \<Rightarrow> pldm_msg \<Rightarrow> nat \<Rightarrow>
      (int \<times> pldm_msg \<times> nat) option" where
  "pldm_control_get_version control hdr req req_payload_len resp resp_payload_len = do {
     (cc, _, opflag, type) \<leftarrow> decode_get_version_req (Some req) req_payload_len (Some 0) (Some 0)
                                 (Some 0);
     opflag \<leftarrow> opflag; type \<leftarrow> type;
     if cc \<noteq> 0 then pldm_control_reply_error (word_of_int cc) hdr resp resp_payload_len
     else if opflag \<noteq> PLDM_GET_FIRSTPART
     then pldm_control_reply_error PLDM_CONTROL_INVALID_TRANSFER_OPERATION_FLAG hdr resp
            resp_payload_len
     else
       case find (\<lambda>t. tv_pldm_type t = type \<and> tv_versions t \<noteq> None) (pc_types control) of
         None \<Rightarrow> pldm_control_reply_error PLDM_CONTROL_INVALID_PLDM_TYPE_IN_REQUEST_DATA hdr resp
                   resp_payload_len
       | Some v \<Rightarrow>
           let required_resp_payload = 1 + 4 + 1 + unat (tv_versions_count v) * 4 in
           if resp_payload_len < required_resp_payload
           then Some (- EOVERFLOW, resp, resp_payload_len)
           else do {
             (cc, r) \<leftarrow> encode_get_version_resp (hi_instance hdr) PLDM_SUCCESS 0
                         PLDM_START_AND_END (tv_versions v) (unat (tv_versions_count v) * 4)
                         (Some resp);
             resp \<leftarrow> r;
             if cc \<noteq> 0
             then pldm_control_reply_error (word_of_int cc) hdr resp required_resp_payload
             else Some (0, resp, required_resp_payload) } }"

text \<open>The loop that sets the bit of each type of the table.\<close>

definition set_type_bit :: "u8 list \<Rightarrow> pldm_type_versions \<Rightarrow> u8 list" where
  "set_type_bit types t =
     (let ty = unat (tv_pldm_type t) in
      if ty < 64 \<and> tv_versions t \<noteq> None
      then types[ty div 8 := types ! (ty div 8) OR push_bit (ty mod 8) 1] else types)"

definition pldm_control_get_types ::
    "pldm_control \<Rightarrow> pldm_header_info \<Rightarrow> nat \<Rightarrow> pldm_msg \<Rightarrow> nat \<Rightarrow>
      (int \<times> pldm_msg \<times> nat) option" where
  "pldm_control_get_types control hdr req_payload_len resp resp_payload_len =
     (if req_payload_len \<noteq> 0
      then pldm_control_reply_error PLDM_ERROR_INVALID_LENGTH hdr resp resp_payload_len
      else do {
        (rc, r, l) \<leftarrow> encode_pldm_base_get_pldm_types_resp (hi_instance hdr)
                       (Some \<lparr>gp_completion_code = PLDM_SUCCESS,
                              gp_pldm_types = foldl set_type_bit (replicate 8 0) (pc_types control)\<rparr>)
                       (Some resp) (Some resp_payload_len);
        resp \<leftarrow> r; len \<leftarrow> l;
        Some (rc, resp, len) })"

definition pldm_control_get_commands ::
    "pldm_control \<Rightarrow> pldm_header_info \<Rightarrow> pldm_msg \<Rightarrow> nat \<Rightarrow> pldm_msg \<Rightarrow> nat \<Rightarrow>
      (int \<times> pldm_msg \<times> nat) option" where
  "pldm_control_get_commands control hdr req req_payload_len resp resp_payload_len = do {
     (cc, ty, _) \<leftarrow> decode_get_commands_req (Some req) req_payload_len (Some 0)
                      (Some \<lparr>v_alpha = 0, v_update = 0, v_minor = 0, v_major = 0\<rparr>);
     ty \<leftarrow> ty;
     if cc \<noteq> 0 then pldm_control_reply_error (word_of_int cc) hdr resp resp_payload_len
     else
       case find (\<lambda>t. tv_pldm_type t = ty \<and> tv_versions t \<noteq> None \<and> tv_commands t \<noteq> None)
              (pc_types control) of
         None \<Rightarrow> pldm_control_reply_error PLDM_CONTROL_INVALID_PLDM_TYPE_IN_REQUEST_DATA hdr resp
                   resp_payload_len
       | Some v \<Rightarrow>
           if resp_payload_len < 1 + 32 then Some (- EOVERFLOW, resp, resp_payload_len)
           else do {
             (cc, r) \<leftarrow> encode_get_commands_resp (hi_instance hdr) PLDM_SUCCESS (tv_commands v)
                         (Some resp);
             resp \<leftarrow> r;
             if cc \<noteq> 0 then pldm_control_reply_error (word_of_int cc) hdr resp 33
             else Some (0, resp, 33) } }"

text \<open>\<open>sizeof(struct pldm_msg_hdr)\<close> is 3. \<open>resp_len\<close> is updated when the result is 0.\<close>

definition pldm_control_handle_msg ::
    "pldm_control \<Rightarrow> pldm_msg \<Rightarrow> nat \<Rightarrow> pldm_msg \<Rightarrow> nat \<Rightarrow> (int \<times> pldm_msg \<times> nat) option" where
  "pldm_control_handle_msg control req req_len resp resp_len =
     (if resp_len < 3 + 1 then Some (- EOVERFLOW, resp, resp_len)
      else
        let resp_payload_len = resp_len - 3 in
        if req_len < 3 then Some (- EOVERFLOW, resp, resp_len)
        else
          let req_payload_len = req_len - 3 in do {
          (rc, hdr) \<leftarrow> unpack_pldm_header (Some (m_hdr req)) header_zero;
          if rc \<noteq> PLDM_SUCCESS then Some (- EINVAL, resp, resp_len)
          else if hi_pldm_type hdr \<noteq> PLDM_BASE then Some (- ENOMSG, resp, resp_len)
          else if hi_msg_type hdr \<noteq> PLDM_REQUEST then Some (- EINVAL, resp, resp_len)
          else do {
            (rc, resp, resp_payload_len) \<leftarrow>
              (if hi_command hdr = PLDM_GET_TID
               then pldm_control_get_tid hdr req_payload_len resp resp_payload_len
               else if hi_command hdr = PLDM_GET_PLDM_VERSION
               then pldm_control_get_version control hdr req req_payload_len resp resp_payload_len
               else if hi_command hdr = PLDM_GET_PLDM_TYPES
               then pldm_control_get_types control hdr req_payload_len resp resp_payload_len
               else if hi_command hdr = PLDM_GET_PLDM_COMMANDS
               then pldm_control_get_commands control hdr req req_payload_len resp resp_payload_len
               else pldm_control_reply_error PLDM_ERROR_UNSUPPORTED_PLDM_CMD hdr resp
                      resp_payload_len);
            Some (rc, resp, if rc = 0 then resp_payload_len + 3 else resp_len) } })"

section \<open>Setting up the table\<close>

fun find_slot :: "pldm_type_versions list \<Rightarrow> u8 \<Rightarrow> nat option" where
  "find_slot [] _ = None"
| "find_slot (t # ts) ty =
     (if tv_versions t = None \<or> tv_versions t \<noteq> None \<and> tv_pldm_type t = ty then Some 0
      else map_option Suc (find_slot ts ty))"

text \<open>The count is stored in a \<open>uint8_t\<close>.\<close>

definition pldm_control_add_type ::
    "pldm_control \<Rightarrow> u8 \<Rightarrow> u8 list option \<Rightarrow> nat \<Rightarrow> u8 list option \<Rightarrow> int \<times> pldm_control" where
  "pldm_control_add_type control pldm_type versions versions_count commands =
     (if versions_count < 2 then (- EINVAL, control)
      else
        case find_slot (pc_types control) pldm_type of
          None \<Rightarrow> (- ENOMEM, control)
        | Some i \<Rightarrow>
            (0, control\<lparr>pc_types := (pc_types control)
                  [i := \<lparr>tv_versions = versions, tv_versions_count = of_nat versions_count,
                        tv_commands = commands, tv_pldm_type = pldm_type\<rparr>]\<rparr>))"

definition unused_slot :: pldm_type_versions where
  "unused_slot = \<lparr>tv_versions = None, tv_versions_count = 0, tv_commands = None, tv_pldm_type = 0\<rparr>"

text \<open>\<open>size_ok\<close>: the caller's object is at least \<open>sizeof(struct pldm_control)\<close>.\<close>

definition pldm_control_setup :: "pldm_control \<Rightarrow> bool \<Rightarrow> int \<times> pldm_control" where
  "pldm_control_setup control size_ok =
     (if \<not> size_ok then (- EINVAL, control)
      else
        let control = \<lparr>pc_types = replicate PLDM_CONTROL_MAX_VERSION_TYPES unused_slot\<rparr>;
            (rc, control) = pldm_control_add_type control PLDM_BASE
              (Some (concat (map le_of_word PLDM_BASE_VERSIONS))) (length PLDM_BASE_VERSIONS)
              (Some PLDM_CONTROL_COMMANDS) in
        if rc \<noteq> 0 then (rc, control) else (0, control))"

end
