(* ===== verification/Control_Laws.thy ===== *)
theory Control_Laws
  imports Control
begin

text \<open>
  The control responder implements a registry of PLDM types: a partial map from types to
  their versions and commands with room for six, stated as a locale and interpreted on the
  table of \<^verbatim>\<open>src/control.c\<close>. The handler is a function of that map: the theorems give the
  exact response bytes of every command.
\<close>

section \<open>Registries of bounded size\<close>

locale bounded_registry =
  fixes inv :: "'s \<Rightarrow> bool"
    and lookup :: "'s \<Rightarrow> 'k \<Rightarrow> 'v option"
    and add :: "'k \<Rightarrow> 'v \<Rightarrow> 's \<Rightarrow> int \<times> 's"
    and cap :: nat
    and valid :: "'v \<Rightarrow> bool"
  assumes inv_finite: "inv s \<Longrightarrow> finite (dom (lookup s)) \<and> card (dom (lookup s)) \<le> cap"
    and add_room: "inv s \<Longrightarrow> valid v \<Longrightarrow> k \<in> dom (lookup s) \<or> card (dom (lookup s)) < cap \<Longrightarrow>
      fst (add k v s) = 0 \<and> inv (snd (add k v s)) \<and> lookup (snd (add k v s)) = (lookup s)(k \<mapsto> v)"
    and add_full: "inv s \<Longrightarrow> k \<notin> dom (lookup s) \<Longrightarrow> card (dom (lookup s)) = cap \<Longrightarrow>
      valid v \<Longrightarrow> fst (add k v s) \<noteq> 0 \<and> snd (add k v s) = s"
begin

fun add_list :: "('k \<times> 'v) list \<Rightarrow> 's \<Rightarrow> 's" where
  "add_list [] s = s"
| "add_list ((k, v) # kvs) s = add_list kvs (snd (add k v s))"

lemma add_inv: "inv s \<Longrightarrow> valid v \<Longrightarrow> inv (snd (add k v s))"
  using add_room [of s v k] add_full [of s k v] inv_finite [of s]
  by (cases "k \<in> dom (lookup s) \<or> card (dom (lookup s)) < cap") auto

text \<open>Registering any list of entries that fits leaves the last entry of each type.\<close>

lemma add_list_lookup:
  assumes "inv s" "list_all valid (map snd kvs)"
    "card (dom (lookup s) \<union> set (map fst kvs)) \<le> cap"
  shows "inv (add_list kvs s) \<and> lookup (add_list kvs s) = lookup s ++ map_of (rev kvs)"
  using assms
proof (induction kvs arbitrary: s)
  case (Cons kv kvs)
  obtain k v where kv: "kv = (k, v)" by (cases kv)
  have fin: "finite (dom (lookup s) \<union> set (map fst (kv # kvs)))"
    using inv_finite [OF Cons.prems(1)] by simp
  have "k \<in> dom (lookup s) \<or> card (dom (lookup s)) < cap"
  proof (rule disjCI)
    assume "\<not> card (dom (lookup s)) < cap"
    then have "dom (lookup s) = dom (lookup s) \<union> set (map fst (kv # kvs))"
      using Cons.prems(3) card_mono [OF fin Un_upper1] by (intro card_subset_eq [OF fin]) auto
    then show "k \<in> dom (lookup s)" using kv by auto
  qed
  then have add: "inv (snd (add k v s))" "lookup (snd (add k v s)) = (lookup s)(k \<mapsto> v)"
    using add_room [of s v k] Cons.prems kv by auto
  have "dom (lookup (snd (add k v s))) \<union> set (map fst kvs) =
      dom (lookup s) \<union> set (map fst (kv # kvs))"
    using add(2) kv by auto
  then have "card (dom (lookup (snd (add k v s))) \<union> set (map fst kvs)) \<le> cap"
    using Cons.prems(3) by simp
  from Cons.IH [OF add(1) _ this] Cons.prems(2) have "inv (add_list kvs (snd (add k v s))) \<and>
      lookup (add_list kvs (snd (add k v s))) = (lookup s)(k \<mapsto> v) ++ map_of (rev kvs)"
    unfolding add(2) by (simp add: fun_upd_def)
  then show ?case using kv by simp
qed simp

end

section \<open>The table is a registry\<close>

definition slot_wf :: "pldm_type_versions \<Rightarrow> bool" where
  "slot_wf t \<longleftrightarrow>
     (case tv_versions t of None \<Rightarrow> True | Some vs \<Rightarrow> unat (tv_versions_count t) * 4 \<le> length vs) \<and>
     (case tv_commands t of None \<Rightarrow> True | Some cs \<Rightarrow> 32 \<le> length cs)"

text \<open>Used slots come first and hold different types.\<close>

fun slots_ok :: "pldm_type_versions list \<Rightarrow> bool" where
  "slots_ok [] \<longleftrightarrow> True"
| "slots_ok (t # ts) \<longleftrightarrow> slot_wf t \<and> slots_ok ts \<and>
     (if tv_versions t = None then list_all (\<lambda>u. tv_versions u = None) ts
      else list_all (\<lambda>u. tv_versions u \<noteq> None \<longrightarrow> tv_pldm_type u \<noteq> tv_pldm_type t) ts)"

definition control_inv :: "pldm_control \<Rightarrow> bool" where
  "control_inv c \<longleftrightarrow> length (pc_types c) = PLDM_CONTROL_MAX_VERSION_TYPES \<and> slots_ok (pc_types c)"

definition offered :: "pldm_type_versions list \<Rightarrow> u8 \<Rightarrow> pldm_type_versions option" where
  "offered ts ty = find (\<lambda>t. tv_pldm_type t = ty \<and> tv_versions t \<noteq> None) ts"

lemma offered_simps [simp]:
  "offered [] ty = None"
  "offered (t # ts) ty =
     (if tv_pldm_type t = ty \<and> tv_versions t \<noteq> None then Some t else offered ts ty)"
  by (simp_all add: offered_def del: not_None_eq)

lemma offered_none: "list_all (\<lambda>u. tv_versions u = None) ts \<Longrightarrow> offered ts ty = None"
  by (induction ts) auto

lemma offered_other:
  "list_all (\<lambda>u. tv_versions u \<noteq> None \<longrightarrow> tv_pldm_type u \<noteq> ty) ts \<Longrightarrow> offered ts ty = None"
  by (induction ts) auto

lemma offered_Some: "offered ts ty = Some t \<Longrightarrow>
    t \<in> set ts \<and> tv_pldm_type t = ty \<and> tv_versions t \<noteq> None"
  by (induction ts) (auto split: if_splits)

lemma slots_ok_wf: "slots_ok ts \<Longrightarrow> t \<in> set ts \<Longrightarrow> slot_wf t"
  by (induction ts) auto

lemma find_slot_length: "find_slot ts ty = Some i \<Longrightarrow> i < length ts"
  by (induction ts arbitrary: i) (auto split: if_splits)

lemma find_slot_update:
  assumes "find_slot ts ty = Some i" "tv_pldm_type n = ty" "tv_versions n \<noteq> None" "slots_ok ts"
  shows "offered (ts[i := n]) = (offered ts)(ty \<mapsto> n)"
  using assms
proof (induction ts arbitrary: i)
  case (Cons t ts)
  show ?case
  proof (cases "tv_versions t = None \<or> tv_pldm_type t = ty")
    case True
    then have "i = 0" using Cons.prems(1) by (auto split: if_splits)
    then show ?thesis using Cons.prems True by (fastforce simp: offered_none)
  next
    case False
    then obtain j where "i = Suc j" "find_slot ts ty = Some j" using Cons.prems(1) by auto
    with Cons.IH [of j] Cons.prems False show ?thesis by fastforce
  qed
qed simp

lemma find_slot_ok:
  assumes "find_slot ts ty = Some i" "tv_pldm_type n = ty" "tv_versions n \<noteq> None" "slot_wf n"
    "slots_ok ts"
  shows "slots_ok (ts[i := n])"
  using assms
proof (induction ts arbitrary: i)
  case (Cons t ts)
  show ?case
  proof (cases "tv_versions t = None \<or> tv_pldm_type t = ty")
    case True
    then have "i = 0" using Cons.prems(1) by (auto split: if_splits)
    then show ?thesis using Cons.prems True by (auto simp: list_all_iff split: if_splits)
  next
    case False
    then obtain j where j: "i = Suc j" "find_slot ts ty = Some j" using Cons.prems(1) by auto
    have "set (ts[j := n]) \<subseteq> insert n (set ts)" by (rule set_update_subset_insert)
    with Cons.IH [OF j(2)] Cons.prems False j show ?thesis by (auto simp: list_all_iff)
  qed
qed simp

lemma dom_offered_Cons:
  "dom (offered (t # ts)) =
     (if tv_versions t = None then dom (offered ts) else insert (tv_pldm_type t) (dom (offered ts)))"
  by (auto simp: dom_def)

lemma finite_dom_offered [simp]: "finite (dom (offered ts))"
  by (induction ts) (simp_all only: dom_offered_Cons, simp_all add: dom_def)

lemma card_offered:
  "slots_ok ts \<Longrightarrow> card (dom (offered ts)) = length (filter (\<lambda>t. tv_versions t \<noteq> None) ts)"
proof (induction ts)
  case (Cons t ts)
  have "tv_versions t \<noteq> None \<Longrightarrow> tv_pldm_type t \<notin> dom (offered ts)"
    using Cons.prems offered_other [of "tv_pldm_type t" ts] by auto
  with Cons show ?case
    unfolding dom_offered_Cons by (cases "tv_versions t = None") auto
qed (simp add: dom_def)

lemma find_slot_None:
  "find_slot ts ty = None \<longleftrightarrow>
     list_all (\<lambda>t. tv_versions t \<noteq> None) ts \<and> ty \<notin> dom (offered ts)"
  by (induction ts) auto

text \<open>What is registered for a type: the versions buffer, its number of entries, the commands.\<close>

type_synonym registration = "u8 list \<times> nat \<times> u8 list option"

fun valid_registration :: "registration \<Rightarrow> bool" where
  "valid_registration (versions, n, commands) \<longleftrightarrow>
     2 \<le> n \<and> n < 256 \<and> 4 * n \<le> length versions \<and>
     (case commands of None \<Rightarrow> True | Some cs \<Rightarrow> 32 \<le> length cs)"

definition registration_of :: "pldm_type_versions \<Rightarrow> registration" where
  "registration_of t = (the (tv_versions t), unat (tv_versions_count t), tv_commands t)"

definition registered :: "pldm_control \<Rightarrow> u8 \<Rightarrow> registration option" where
  "registered c ty = map_option registration_of (offered (pc_types c) ty)"

fun add_registration :: "u8 \<Rightarrow> registration \<Rightarrow> pldm_control \<Rightarrow> int \<times> pldm_control" where
  "add_registration ty (versions, n, commands) c =
     pldm_control_add_type c ty (Some versions) n commands"

lemma dom_registered: "dom (registered c) = dom (offered (pc_types c))"
  by (auto simp: registered_def)

lemma find_slot_room:
  assumes "control_inv c" "ty \<in> dom (registered c) \<or> card (dom (registered c)) < 6"
  obtains i where "find_slot (pc_types c) ty = Some i"
proof (cases "find_slot (pc_types c) ty")
  case None
  then have all: "list_all (\<lambda>t. tv_versions t \<noteq> None) (pc_types c)"
      "ty \<notin> dom (offered (pc_types c))"
    unfolding find_slot_None by auto
  then have "filter (\<lambda>t. tv_versions t \<noteq> None) (pc_types c) = pc_types c"
    by (simp add: list_all_iff)
  then have "card (dom (offered (pc_types c))) = 6"
    using assms(1) by (simp add: card_offered control_inv_def del: not_None_eq)
  with assms(2) all(2) show ?thesis by (simp add: dom_registered)
qed (use that in blast)

lemma add_type_room:
  assumes "control_inv c" "valid_registration reg"
    "ty \<in> dom (registered c) \<or> card (dom (registered c)) < 6"
  shows "fst (add_registration ty reg c) = 0 \<and> control_inv (snd (add_registration ty reg c)) \<and>
    registered (snd (add_registration ty reg c)) = (registered c)(ty \<mapsto> reg)"
proof -
  obtain versions n commands where reg: "reg = (versions, n, commands)" by (cases reg)
  obtain i where i: "find_slot (pc_types c) ty = Some i"
    using find_slot_room [OF assms(1,3)] by blast
  let ?t = "\<lparr>tv_versions = Some versions, tv_versions_count = of_nat n, tv_commands = commands,
             tv_pldm_type = ty\<rparr>"
  have n: "unat (of_nat n :: u8) = n" using assms(2) reg by (simp add: unat_of_nat)
  have wf: "slot_wf ?t" "slots_ok (pc_types c)"
    using assms(1,2) reg n by (auto simp: slot_wf_def control_inv_def split: option.splits)
  have add: "add_registration ty reg c = (0, c\<lparr>pc_types := (pc_types c)[i := ?t]\<rparr>)"
    using assms(2) i reg by (simp add: pldm_control_add_type_def)
  show ?thesis
    unfolding add
    using find_slot_ok [OF i _ _ wf(1,2)] find_slot_update [OF i _ _ wf(2), of ?t] assms(1) n reg
    by (auto simp: control_inv_def registered_def registration_of_def fun_eq_iff)
qed

lemma filter_full: "length (filter P xs) = length xs \<Longrightarrow> list_all P xs"
proof (induction xs)
  case (Cons x xs)
  have "P x"
  proof (rule ccontr)
    assume "\<not> P x"
    with Cons.prems have "Suc (length xs) = length (filter P xs)" by simp
    also have "\<dots> \<le> length xs" by (rule length_filter_le)
    finally show False by simp
  qed
  with Cons show ?case by simp
qed simp

lemma add_type_full:
  assumes "control_inv c" "ty \<notin> dom (registered c)" "card (dom (registered c)) = 6"
    "valid_registration reg"
  shows "add_registration ty reg c = (- ENOMEM, c)"
proof -
  obtain versions n commands where reg: "reg = (versions, n, commands)" by (cases reg)
  have "length (filter (\<lambda>t. tv_versions t \<noteq> None) (pc_types c)) = length (pc_types c)"
    using assms(1,3) by (simp add: card_offered control_inv_def dom_registered del: not_None_eq)
  then have "list_all (\<lambda>t. tv_versions t \<noteq> None) (pc_types c)"
    by (rule filter_full)
  then have "find_slot (pc_types c) ty = None"
    using assms(2) unfolding find_slot_None dom_registered by simp
  then show ?thesis using assms(4) reg by (simp add: pldm_control_add_type_def)
qed

interpretation type_table: bounded_registry control_inv registered add_registration 6
    valid_registration
proof
  fix c ty reg
  assume inv: "control_inv c"
  have "card (dom (offered (pc_types c))) =
      length (filter (\<lambda>t. tv_versions t \<noteq> None) (pc_types c))"
    using inv by (simp add: card_offered control_inv_def del: not_None_eq)
  also have "\<dots> \<le> length (pc_types c)" by (rule length_filter_le)
  finally show "finite (dom (registered c)) \<and> card (dom (registered c)) \<le> 6"
    using inv by (simp add: dom_registered control_inv_def)
  show "fst (add_registration ty reg c) = 0 \<and> control_inv (snd (add_registration ty reg c)) \<and>
      registered (snd (add_registration ty reg c)) = (registered c)(ty \<mapsto> reg)"
    if "valid_registration reg" "ty \<in> dom (registered c) \<or> card (dom (registered c)) < 6"
    using add_type_room [OF inv that] .
  show "fst (add_registration ty reg c) \<noteq> 0 \<and> snd (add_registration ty reg c) = c"
    if "ty \<notin> dom (registered c)" "card (dom (registered c)) = 6" "valid_registration reg"
    using add_type_full [OF inv that] by simp
qed

section \<open>Every command is answered from the registry\<close>

text \<open>The eight bytes in which bit \<open>j\<close> of byte \<open>i\<close> stands for PLDM type \<open>8 * i + j\<close>.\<close>

definition type_bitmap :: "(u8 \<Rightarrow> bool) \<Rightarrow> u8 list" where
  "type_bitmap S =
     map (\<lambda>i. horner_sum of_bool 2 (map (\<lambda>j. S (of_nat (8 * i + j))) [0..<8])) [0..<8]"

text \<open>The payload of the response to a request with command \<open>cmd\<close> and payload \<open>p\<close>.\<close>

definition control_answer :: "(u8 \<Rightarrow> registration option) \<Rightarrow> u8 \<Rightarrow> u8 list \<Rightarrow> u8 list" where
  "control_answer reg cmd p =
     (if cmd = PLDM_GET_TID then (if p \<noteq> [] then [PLDM_ERROR_INVALID_LENGTH] else [0, 0])
      else if cmd = PLDM_GET_PLDM_VERSION then
        (if length p \<noteq> 6 then [PLDM_ERROR_INVALID_LENGTH]
         else if p ! 4 \<noteq> PLDM_GET_FIRSTPART then [PLDM_CONTROL_INVALID_TRANSFER_OPERATION_FLAG]
         else case reg (p ! 5) of
           None \<Rightarrow> [PLDM_CONTROL_INVALID_PLDM_TYPE_IN_REQUEST_DATA]
         | Some (versions, n, _) \<Rightarrow> [0, 0, 0, 0, 0, PLDM_START_AND_END] @ take (n * 4) versions)
      else if cmd = PLDM_GET_PLDM_TYPES then
        (if p \<noteq> [] then [PLDM_ERROR_INVALID_LENGTH]
         else 0 # type_bitmap (\<lambda>ty. reg ty \<noteq> None))
      else if cmd = PLDM_GET_PLDM_COMMANDS then
        (if length p \<noteq> 5 then [PLDM_ERROR_INVALID_LENGTH]
         else case reg (p ! 0) of
           Some (_, _, Some commands) \<Rightarrow> 0 # take 32 commands
         | _ \<Rightarrow> [PLDM_CONTROL_INVALID_PLDM_TYPE_IN_REQUEST_DATA])
      else [PLDM_ERROR_UNSUPPORTED_PLDM_CMD])"

text \<open>The bits set by the loop over the table.\<close>

lemma length_set_type_bit [simp]: "length (set_type_bit types t) = length types"
  by (simp add: set_type_bit_def Let_def)

lemma length_foldl_set_type_bit [simp]: "length (foldl set_type_bit types ts) = length types"
  by (induction ts arbitrary: types) simp_all

lemma bit_set_type_bit:
  assumes "length types = 8" "i < 8" "j < 8"
  shows "bit (set_type_bit types t ! i) j \<longleftrightarrow>
    bit (types ! i) j \<or> tv_versions t \<noteq> None \<and> unat (tv_pldm_type t) = 8 * i + j"
proof -
  have "unat (tv_pldm_type t) = 8 * i + j \<longleftrightarrow>
      unat (tv_pldm_type t) div 8 = i \<and> unat (tv_pldm_type t) mod 8 = j"
    using assms(3) by auto
  then show ?thesis using assms
    by (cases "unat (tv_pldm_type t) div 8 = i")
      (auto simp: set_type_bit_def Let_def nth_list_update bit_simps)
qed

lemma bit_foldl_set_type_bit:
  assumes "length types = 8" "i < 8" "j < 8"
  shows "bit (foldl set_type_bit types ts ! i) j \<longleftrightarrow>
    bit (types ! i) j \<or> (\<exists>t\<in>set ts. tv_versions t \<noteq> None \<and> unat (tv_pldm_type t) = 8 * i + j)"
  using assms(1)
proof (induction ts arbitrary: types)
  case (Cons t ts)
  then have "length (set_type_bit types t) = 8" by simp
  from Cons.IH [OF this] bit_set_type_bit [OF Cons.prems assms(2,3)] show ?case by auto
qed simp

lemma offered_iff: "offered ts ty \<noteq> None \<longleftrightarrow> (\<exists>t\<in>set ts. tv_versions t \<noteq> None \<and> tv_pldm_type t = ty)"
  by (induction ts) auto

lemma get_types_bitmap:
  "foldl set_type_bit (replicate 8 0) (pc_types c) = type_bitmap (\<lambda>ty. registered c ty \<noteq> None)"
proof (rule nth_equalityI)
  fix i
  assume "i < length (foldl set_type_bit (replicate 8 0) (pc_types c))"
  then have i: "i < 8" by simp
  show "foldl set_type_bit (replicate 8 0) (pc_types c) ! i =
      type_bitmap (\<lambda>ty. registered c ty \<noteq> None) ! i"
  proof (rule bit_eqI)
    fix j
    assume "possible_bit TYPE(8 word) j"
    then have j: "j < 8" by simp
    have u: "unat (of_nat (8 * i + j) :: u8) = 8 * i + j"
      using i j by (simp add: unat_of_nat del: of_nat_add of_nat_mult)
    have "(\<exists>t\<in>set (pc_types c). tv_versions t \<noteq> None \<and> unat (tv_pldm_type t) = 8 * i + j) \<longleftrightarrow>
        offered (pc_types c) (of_nat (8 * i + j)) \<noteq> None"
      unfolding offered_iff word_unat_eq_iff u by blast
    then show "bit (foldl set_type_bit (replicate 8 0) (pc_types c) ! i) j =
        bit (type_bitmap (\<lambda>ty. registered c ty \<noteq> None) ! i) j"
      using i j bit_foldl_set_type_bit [of "replicate 8 0" i j "pc_types c"]
      by (simp add: type_bitmap_def bit_horner_sum_bit_word_iff registered_def)
  qed
qed (simp add: type_bitmap_def)

text \<open>A handler answers with \<open>a\<close> if it fits, and otherwise reports an overflow.\<close>

definition answers ::
    "pldm_header_info \<Rightarrow> pldm_msg \<Rightarrow> nat \<Rightarrow> u8 list \<Rightarrow> (int \<times> pldm_msg \<times> nat) option \<Rightarrow> bool" where
  "answers hdr resp len a x \<longleftrightarrow>
     (if length a \<le> len
      then x = Some (0, resp\<lparr>m_hdr := wire_hdr PLDM_RESPONSE (hi_instance hdr) PLDM_BASE (hi_command hdr),
                             m_payload := poke (m_payload resp) 0 a\<rparr>, length a)
      else \<exists>r l. x = Some (- EOVERFLOW, r, l))"

lemma reply_error_answers:
  assumes "hi_instance hdr \<le> PLDM_INSTANCE_MAX" "msg_holds len resp"
  shows "answers hdr resp len [cc] (pldm_control_reply_error cc hdr resp len)"
  using assms by (auto simp: answers_def pldm_control_reply_error_def encode_cc_only_resp_def
      msg_holds_def mb_simps)

lemma get_tid_answers:
  assumes "hi_instance hdr \<le> PLDM_INSTANCE_MAX" "msg_holds len resp"
    "hi_command hdr = PLDM_GET_TID"
  shows "answers hdr resp len (control_answer reg PLDM_GET_TID p)
    (pldm_control_get_tid hdr (length p) resp len)"
proof (cases "p = []")
  case False
  with reply_error_answers [OF assms(1,2)] show ?thesis
    by (simp add: control_answer_def pldm_control_get_tid_def)
next
  case True
  then show ?thesis using assms
    by (cases "len < 1"; cases "len < 2")
      (simp_all add: answers_def control_answer_def pldm_control_get_tid_def
        encode_pldm_base_get_tid_resp_def msg_holds_def mb_simps wire_simps)
qed

lemma get_types_answers:
  assumes "hi_instance hdr \<le> PLDM_INSTANCE_MAX" "msg_holds len resp"
    "hi_command hdr = PLDM_GET_PLDM_TYPES"
  shows "answers hdr resp len (control_answer (registered c) PLDM_GET_PLDM_TYPES p)
    (pldm_control_get_types c hdr (length p) resp len)"
proof (cases "p = []")
  case False
  with reply_error_answers [OF assms(1,2)] show ?thesis
    by (simp add: control_answer_def pldm_control_get_types_def)
next
  case True
  have len: "length (type_bitmap S) = 8" for S by (simp add: type_bitmap_def)
  show ?thesis using assms True
    by (cases "len < 1"; cases "len < 9")
      (simp_all add: answers_def control_answer_def pldm_control_get_types_def get_types_bitmap
        encode_pldm_base_get_pldm_types_resp_def msg_holds_def mb_simps wire_simps len
        del: not_None_eq)
qed

lemma get_version_answers:
  assumes "hi_instance hdr \<le> PLDM_INSTANCE_MAX" "msg_holds len resp" "control_inv c"
    "hi_command hdr = PLDM_GET_PLDM_VERSION" "msg_holds n req"
  shows "answers hdr resp len
    (control_answer (registered c) PLDM_GET_PLDM_VERSION (take n (m_payload req)))
    (pldm_control_get_version c hdr req n resp len)"
proof (cases "n = 6 \<and> m_payload req ! 4 = PLDM_GET_FIRSTPART \<and>
    registered c (m_payload req ! 5) \<noteq> None")
  case False
  then show ?thesis
    using assms(5) reply_error_answers [OF assms(1,2)]
    by (auto simp: control_answer_def pldm_control_get_version_def decode_get_version_req_def
        msg_holds_def mb_simps bytes_at_def registered_def offered_def split: option.splits)
next
  case True
  then obtain t where t: "offered (pc_types c) (m_payload req ! 5) = Some t"
    by (auto simp: registered_def)
  then obtain vs where vs: "tv_versions t = Some vs" "unat (tv_versions_count t) * 4 \<le> length vs"
    using offered_Some [OF t] slots_ok_wf [of "pc_types c" t] assms(3)
    by (auto simp: control_inv_def slot_wf_def)
  show ?thesis
    using True assms t vs unfolding offered_def
    by (auto simp: answers_def control_answer_def pldm_control_get_version_def
        decode_get_version_req_def encode_get_version_resp_def msg_holds_def mb_simps wire_simps
        bytes_at_def registered_def offered_def registration_of_def le_of_word_32)
qed

lemma find_commands:
  assumes "slots_ok ts"
  shows "find (\<lambda>t. tv_pldm_type t = ty \<and> tv_versions t \<noteq> None \<and> tv_commands t \<noteq> None) ts =
    (case offered ts ty of None \<Rightarrow> None
     | Some t \<Rightarrow> if tv_commands t = None then None else Some t)"
  using assms
proof (induction ts)
  case (Cons t ts)
  then show ?case
    using offered_other [of "tv_pldm_type t" ts]
    by (cases "tv_pldm_type t = ty \<and> tv_versions t \<noteq> None"; cases "tv_commands t") auto
qed simp

lemma get_commands_answers:
  assumes "hi_instance hdr \<le> PLDM_INSTANCE_MAX" "msg_holds len resp" "control_inv c"
    "hi_command hdr = PLDM_GET_PLDM_COMMANDS" "msg_holds n req"
  shows "answers hdr resp len
    (control_answer (registered c) PLDM_GET_PLDM_COMMANDS (take n (m_payload req)))
    (pldm_control_get_commands c hdr req n resp len)"
proof (cases "n = 5 \<and> (\<exists>t. offered (pc_types c) (m_payload req ! 0) = Some t \<and> tv_commands t \<noteq> None)")
  case False
  have ok: "slots_ok (pc_types c)" using assms(3) by (simp add: control_inv_def)
  note fc = find_commands [OF ok, unfolded not_None_eq]
  from False show ?thesis
    using assms(5) reply_error_answers [OF assms(1,2)]
    by (auto simp: control_answer_def pldm_control_get_commands_def decode_get_commands_req_def
        msg_holds_def mb_simps bytes_at_def registered_def registration_of_def fc
        split: option.splits)
next
  case True
  have ok: "slots_ok (pc_types c)" using assms(3) by (simp add: control_inv_def)
  note fc = find_commands [OF ok, unfolded not_None_eq]
  from True obtain t cs where t: "offered (pc_types c) (m_payload req ! 0) = Some t"
      "tv_commands t = Some cs" by auto
  then have "32 \<le> length cs"
    using offered_Some [OF t(1)] slots_ok_wf [OF ok, of t] by (auto simp: slot_wf_def)
  with True assms t show ?thesis
    by (auto simp: answers_def control_answer_def pldm_control_get_commands_def
        decode_get_commands_req_def encode_get_commands_resp_def msg_holds_def mb_simps wire_simps
        bytes_at_def registered_def registration_of_def fc)
qed

text \<open>The unpacked header of a request for the control type.\<close>

definition control_request :: "pldm_msg \<Rightarrow> bool" where
  "control_request req \<longleftrightarrow> h_request (m_hdr req) = 1 \<and> h_datagram (m_hdr req) = 0 \<and>
     h_type (m_hdr req) = 0"

lemma handle_msg_answers:
  assumes "control_inv c" "control_request req" "3 \<le> req_len" "msg_holds (req_len - 3) req"
    and "4 \<le> resp_len" "msg_holds (resp_len - 3) resp"
    and "a = control_answer (registered c) (h_command (m_hdr req))
               (take (req_len - 3) (m_payload req))"
  shows "if length a + 3 \<le> resp_len
    then pldm_control_handle_msg c req req_len resp resp_len =
      Some (0, resp\<lparr>m_hdr := wire_hdr PLDM_RESPONSE (ucast (h_instance_id (m_hdr req))) PLDM_BASE
                               (h_command (m_hdr req)),
                   m_payload := poke (m_payload resp) 0 a\<rparr>, length a + 3)
    else \<exists>r. pldm_control_handle_msg c req req_len resp resp_len =
           Some (- EOVERFLOW, r, resp_len)"
proof -
  let ?hdr = "header_zero\<lparr>hi_msg_type := PLDM_REQUEST,
    hi_instance := ucast (h_instance_id (m_hdr req)), hi_command := h_command (m_hdr req)\<rparr>"
  let ?n = "req_len - 3" and ?len = "resp_len - 3" and ?cmd = "h_command (m_hdr req)"
  define x where "x =
    (if ?cmd = PLDM_GET_TID then pldm_control_get_tid ?hdr ?n resp ?len
     else if ?cmd = PLDM_GET_PLDM_VERSION then pldm_control_get_version c ?hdr req ?n resp ?len
     else if ?cmd = PLDM_GET_PLDM_TYPES then pldm_control_get_types c ?hdr ?n resp ?len
     else if ?cmd = PLDM_GET_PLDM_COMMANDS
     then pldm_control_get_commands c ?hdr req ?n resp ?len
     else pldm_control_reply_error PLDM_ERROR_UNSUPPORTED_PLDM_CMD ?hdr resp ?len)"
  have inst: "hi_instance ?hdr \<le> PLDM_INSTANCE_MAX" using instance_id_small by simp
  have p: "length (take ?n (m_payload req)) = ?n" using assms(4) by (simp add: msg_holds_def)
  have "answers ?hdr resp ?len a x"
  proof -
    consider (tid) "?cmd = PLDM_GET_TID" | (version) "?cmd = PLDM_GET_PLDM_VERSION"
      | (types) "?cmd = PLDM_GET_PLDM_TYPES" | (commands) "?cmd = PLDM_GET_PLDM_COMMANDS"
      | (other) "?cmd \<notin> {2, 3, 4, 5}" by blast
    then show ?thesis
    proof cases
      case tid
      with get_tid_answers [OF inst assms(6), of "registered c" "take ?n (m_payload req)"] p
      show ?thesis unfolding x_def assms(7) by simp
    next
      case version
      with get_version_answers [OF inst assms(6,1) _ assms(4)]
      show ?thesis unfolding x_def assms(7) by simp
    next
      case types
      with get_types_answers [OF inst assms(6), of c "take ?n (m_payload req)"] p
      show ?thesis unfolding x_def assms(7) by simp
    next
      case commands
      with get_commands_answers [OF inst assms(6,1) _ assms(4)]
      show ?thesis unfolding x_def assms(7) by simp
    next
      case other
      with reply_error_answers [OF inst assms(6)]
      show ?thesis unfolding x_def assms(7) by (simp add: control_answer_def)
    qed
  qed
  moreover have "pldm_control_handle_msg c req req_len resp resp_len = do {
      (rc, resp, l) \<leftarrow> x; Some (rc, resp, if rc = 0 then l + 3 else resp_len) }"
    using assms(2,3,5)
    by (simp add: pldm_control_handle_msg_def unpack_pldm_header_def control_request_def x_def
        header_zero_def)
  ultimately show ?thesis using assms(5) by (auto simp: answers_def split: if_splits)
qed

text \<open>
  C8. The control responder answers every request for the control type that reaches it with
  exactly the bytes the registry prescribes: TID, version list with its checksum, bitmap of
  the registered types, commands of a type, or the specified error code, under the header
  that correlates with the request. It never overruns the response buffer; an answer that does
  not fit is refused with an overflow.
\<close>

theorem control_answers_from_registry:
  assumes "control_inv c" "control_request req" "3 \<le> req_len" "msg_holds (req_len - 3) req"
    and "4 \<le> resp_len" "msg_holds (resp_len - 3) resp"
    and "a = control_answer (registered c) (h_command (m_hdr req))
               (take (req_len - 3) (m_payload req))"
  shows "if length a + 3 \<le> resp_len
    then pldm_control_handle_msg c req req_len resp resp_len =
      Some (0, resp\<lparr>m_hdr := wire_hdr PLDM_RESPONSE (ucast (h_instance_id (m_hdr req))) PLDM_BASE
                               (h_command (m_hdr req)),
                   m_payload := poke (m_payload resp) 0 a\<rparr>, length a + 3)
    else \<exists>r. pldm_control_handle_msg c req req_len resp resp_len =
           Some (- EOVERFLOW, r, resp_len)"
  using handle_msg_answers [OF assms] .

section \<open>A responder that was set up\<close>

definition fresh_control :: pldm_control where
  "fresh_control = \<lparr>pc_types = \<lparr>tv_versions = Some (concat (map le_of_word PLDM_BASE_VERSIONS)),
     tv_versions_count = 2, tv_commands = Some PLDM_CONTROL_COMMANDS, tv_pldm_type = 0\<rparr>
     # replicate 5 unused_slot\<rparr>"

lemma setup_fresh: "pldm_control_setup c True = (0, fresh_control)"
  by (simp add: pldm_control_setup_def pldm_control_add_type_def fresh_control_def
      PLDM_BASE_VERSIONS_def unused_slot_def numeral_eq_Suc)

lemma slots_ok_unused: "slots_ok (replicate n unused_slot)"
  by (induction n) (auto simp: unused_slot_def slot_wf_def list_all_iff)

lemma fresh_control_inv: "control_inv fresh_control"
  using slots_ok_unused [of 5]
  by (simp add: control_inv_def fresh_control_def slot_wf_def PLDM_CONTROL_COMMANDS_def
      PLDM_BASE_VERSIONS_def list_all_iff unused_slot_def)

lemma registered_fresh:
  "registered fresh_control =
     [0 \<mapsto> (concat (map le_of_word PLDM_BASE_VERSIONS), 2, Some PLDM_CONTROL_COMMANDS)]"
proof -
  have "offered (replicate n unused_slot) ty = None" for n ty
    by (induction n) (simp_all add: unused_slot_def)
  then show ?thesis
    by (auto simp: registered_def fresh_control_def registration_of_def fun_eq_iff)
qed

text \<open>
  C9. A responder that was set up and to which any list of valid types was added, at most
  six in all with the control type, offers exactly those: for each type the last registration,
  for the control type its built-in versions and commands unless they were replaced. The table
  keeps its invariant, so the handler theorem applies to it.
\<close>

theorem control_registrations:
  assumes "pldm_control_setup c True = (rc, c')" "list_all valid_registration (map snd kvs)"
    and "card (insert 0 (set (map fst kvs))) \<le> PLDM_CONTROL_MAX_VERSION_TYPES"
  shows "rc = 0 \<and> control_inv (foldl (\<lambda>s kv. snd (add_registration (fst kv) (snd kv) s)) c' kvs) \<and>
    registered (foldl (\<lambda>s kv. snd (add_registration (fst kv) (snd kv) s)) c' kvs) =
      [PLDM_BASE \<mapsto> (concat (map le_of_word PLDM_BASE_VERSIONS), 2, Some PLDM_CONTROL_COMMANDS)]
        ++ map_of (rev kvs)"
proof -
  have fold: "foldl (\<lambda>s kv. snd (add_registration (fst kv) (snd kv) s)) s kvs =
      type_table.add_list kvs s" for s
    by (induction kvs arbitrary: s) auto
  have "rc = 0" "c' = fresh_control" using assms(1) by (simp_all add: setup_fresh)
  moreover have "card (dom (registered fresh_control) \<union> set (map fst kvs)) \<le> 6"
    using assms(3) by (simp add: registered_fresh)
  ultimately show ?thesis
    using type_table.add_list_lookup [OF fresh_control_inv assms(2)]
    by (simp add: fold registered_fresh)
qed

theorem control_registrations_witness:
  "registered (foldl (\<lambda>s kv. snd (add_registration (fst kv) (snd kv) s))
     (snd (pldm_control_setup fresh_control True))
     [(5, [1, 0, 0, 0, 2, 0, 0, 0], 2, None), (5, [3, 0, 0, 0, 4, 0, 0, 0], 2, None)]) 5 =
   Some ([3, 0, 0, 0, 4, 0, 0, 0], 2, None)"
  using control_registrations [of fresh_control "fst (pldm_control_setup fresh_control True)"
      "snd (pldm_control_setup fresh_control True)"
      "[(5, [1, 0, 0, 0, 2, 0, 0, 0], 2, None), (5, [3, 0, 0, 0, 4, 0, 0, 0], 2, None)]"]
  by simp

theorem control_answers_from_registry_witness:
  "pldm_control_handle_msg fresh_control
     \<lparr>m_hdr = hdr_of_bytes 0x89 0 PLDM_GET_PLDM_VERSION, m_addr = 64, m_payload = [0, 0, 0, 0, 1, 0]\<rparr> 9
     \<lparr>m_hdr = hdr_of_bytes 0 0 0, m_addr = 128, m_payload = replicate 17 0\<rparr> 20 =
   Some (0, \<lparr>m_hdr = wire_hdr 0 9 0 PLDM_GET_PLDM_VERSION, m_addr = 128,
     m_payload = [0, 0, 0, 0, 0, 5, 0, 0xf0, 0xf1, 0xf1, 0xba, 0xbe, 0x9d, 0x53] @ replicate 3 0\<rparr>, 17)"
  using control_answers_from_registry [OF fresh_control_inv, of
      "\<lparr>m_hdr = hdr_of_bytes 0x89 0 PLDM_GET_PLDM_VERSION, m_addr = 64, m_payload = [0, 0, 0, 0, 1, 0]\<rparr>"
      9 20 "\<lparr>m_hdr = hdr_of_bytes 0 0 0, m_addr = 128, m_payload = replicate 17 0\<rparr>"
      "[0, 0, 0, 0, 0, 5, 0, 0xf0, 0xf1, 0xf1, 0xba, 0xbe, 0x9d, 0x53]"]
  by (simp add: control_request_def hdr_of_bytes_def msg_holds_def control_answer_def
      registered_fresh PLDM_BASE_VERSIONS_def le_of_word_32 poke_def)

text \<open>Which commands the bitmap announces.\<close>

lemma control_commands_bit:
  "bit (PLDM_CONTROL_COMMANDS ! (unat cmd div 8)) (unat cmd mod 8) \<longleftrightarrow> cmd \<in> {2, 3, 4, 5}"
  for cmd :: u8
proof (cases "unat cmd < 8")
  case True
  then have "unat cmd \<in> {0, 1, 2, 3, 4, 5, 6, 7}" by auto
  then show ?thesis by (auto simp: PLDM_CONTROL_COMMANDS_def word_unat_eq_iff bit_simps)
next
  case False
  have "unat cmd < 2 ^ LENGTH(8)" by (rule unsigned_less)
  with False have "0 < unat cmd div 8" "unat cmd div 8 < 32" by (auto simp: div_greater_zero_iff)
  with False show ?thesis
    by (auto simp: PLDM_CONTROL_COMMANDS_def nth_Cons' word_unat_eq_iff)
qed

lemma control_answer_unsupported:
  "control_answer reg cmd p ! 0 = PLDM_ERROR_UNSUPPORTED_PLDM_CMD \<longleftrightarrow> cmd \<notin> {2, 3, 4, 5}"
  by (auto simp: control_answer_def split: option.splits)

lemma control_answer_nonempty: "1 \<le> length (control_answer reg cmd p)"
  by (auto simp: control_answer_def split: option.splits)

text \<open>
  C10. The built-in tables of the control type are consistent. The last entry of the version
  table is the CRC-32, as computed by the library's own routine, of the entries before it.
  The command bitmap announces exactly the commands that the handler does not refuse as
  unsupported.
\<close>

theorem control_tables_consistent:
  assumes "control_inv c" "control_request req" "3 \<le> req_len" "msg_holds (req_len - 3) req"
    and "4 \<le> resp_len" "msg_holds (resp_len - 3) resp"
    and "pldm_control_handle_msg c req req_len resp resp_len = Some (0, r, l)"
    and "cmd = unat (h_command (m_hdr req))"
  shows "pldm_edac_crc32 (concat (map le_of_word (butlast PLDM_BASE_VERSIONS)))
      (4 * (length PLDM_BASE_VERSIONS - 1)) = Some (last PLDM_BASE_VERSIONS) \<and>
    (m_payload r ! 0 = PLDM_ERROR_UNSUPPORTED_PLDM_CMD \<longleftrightarrow>
      \<not> bit (PLDM_CONTROL_COMMANDS ! (cmd div 8)) (cmd mod 8))"
proof
  show "pldm_edac_crc32 (concat (map le_of_word (butlast PLDM_BASE_VERSIONS)))
      (4 * (length PLDM_BASE_VERSIONS - 1)) = Some (last PLDM_BASE_VERSIONS)"
    by code_simp
  let ?a = "control_answer (registered c) (h_command (m_hdr req)) (take (req_len - 3) (m_payload req))"
  have "m_payload r = poke (m_payload resp) 0 ?a"
    using handle_msg_answers [OF assms(1-6) refl] assms(7) by (auto split: if_splits)
  moreover have "poke (m_payload resp) 0 ?a ! 0 = ?a ! 0"
    using control_answer_nonempty [of "registered c" "h_command (m_hdr req)"
        "take (req_len - 3) (m_payload req)"] by (auto simp: poke_def nth_append)
  ultimately show "m_payload r ! 0 = PLDM_ERROR_UNSUPPORTED_PLDM_CMD \<longleftrightarrow>
      \<not> bit (PLDM_CONTROL_COMMANDS ! (cmd div 8)) (cmd mod 8)"
    unfolding assms(8) control_commands_bit by (simp only: control_answer_unsupported)
qed

theorem control_tables_consistent_witness:
  "\<exists>r l. pldm_control_handle_msg fresh_control
     \<lparr>m_hdr = hdr_of_bytes 0x89 0 PLDM_SET_TID, m_addr = 64, m_payload = [7]\<rparr> 4
     \<lparr>m_hdr = hdr_of_bytes 0 0 0, m_addr = 128, m_payload = replicate 17 0\<rparr> 20 = Some (0, r, l) \<and>
   m_payload r ! 0 = PLDM_ERROR_UNSUPPORTED_PLDM_CMD"
proof -
  let ?req = "\<lparr>m_hdr = hdr_of_bytes 0x89 0 PLDM_SET_TID, m_addr = 64, m_payload = [7]\<rparr>"
  let ?resp = "\<lparr>m_hdr = hdr_of_bytes 0 0 0, m_addr = 128, m_payload = replicate 17 0\<rparr>"
  have req: "control_request ?req" "msg_holds 1 ?req" "msg_holds 17 ?resp"
    by (simp_all add: control_request_def hdr_of_bytes_def msg_holds_def)
  obtain r l where h: "pldm_control_handle_msg fresh_control ?req 4 ?resp 20 = Some (0, r, l)"
    using handle_msg_answers [OF fresh_control_inv req(1) _ _ _ _ refl, of 4 20 ?resp] req
    by (auto simp: control_answer_def hdr_of_bytes_def split: if_splits)
  have "m_payload r ! 0 = PLDM_ERROR_UNSUPPORTED_PLDM_CMD \<longleftrightarrow>
      \<not> bit (PLDM_CONTROL_COMMANDS ! (1 div 8)) (1 mod 8)"
    using control_tables_consistent [OF fresh_control_inv req(1) _ _ _ _ h, of 1] req
    by (simp add: hdr_of_bytes_def)
  with h show ?thesis by (simp add: PLDM_CONTROL_COMMANDS_def)
qed

section \<open>What the table does not check\<close>

text \<open>
  The count of versions is stored in eight bits: 256 entries are accepted and offered as none.
\<close>

lemma add_type_count_truncated:
  "\<exists>c. pldm_control_add_type fresh_control 5 (Some vs) 256 None = (0, c) \<and>
     registered c 5 = Some (vs, 0, None)"
proof -
  have "replicate 5 unused_slot = unused_slot # replicate 4 unused_slot"
    by (simp add: replicate_Suc [symmetric] del: replicate_Suc)
  then show ?thesis
    by (simp add: pldm_control_add_type_def fresh_control_def registered_def registration_of_def)
      (simp add: unused_slot_def)
qed

end
