(* ===== verification/Fd.thy ===== *)
theory Fd
  imports Fwup_Laws Control_Laws
begin

text \<open>
  The firmware device responder of \<^verbatim>\<open>src/firmware_device/fd.c\<close>: the state machine that an
  update agent drives with requests, and that drives the download, verification and
  application of a component itself once an update has begun.

  The callbacks of \<open>struct pldm_fd_ops\<close> belong to the application. They are a parameter of
  the model: functions on an application context \<open>'c\<close> that they may change, \<open>None\<close> for a NULL
  pointer. A call through NULL, like a failed \<open>assert\<close>, is undefined: the result is \<open>None\<close>.
\<close>

section \<open>Constants and enumerations\<close>

abbreviation (input) DEFAULT_FD_T1_TIMEOUT :: u64 where "DEFAULT_FD_T1_TIMEOUT \<equiv> 120000"
abbreviation (input) DEFAULT_FD_T2_RETRY_TIME :: u64 where "DEFAULT_FD_T2_RETRY_TIME \<equiv> 1000"
abbreviation (input) INSTANCE_ID_COUNT :: nat where "INSTANCE_ID_COUNT \<equiv> 32"
abbreviation (input) PROGRESS_PERCENT_NOT_SUPPORTED :: u8
  where "PROGRESS_PERCENT_NOT_SUPPORTED \<equiv> 101"

abbreviation (input) PLDM_FWUP_NOT_IN_UPDATE_MODE :: u8 where "PLDM_FWUP_NOT_IN_UPDATE_MODE \<equiv> 0x80"
abbreviation (input) PLDM_FWUP_ALREADY_IN_UPDATE_MODE :: u8
  where "PLDM_FWUP_ALREADY_IN_UPDATE_MODE \<equiv> 0x81"
abbreviation (input) PLDM_FWUP_INVALID_STATE_FOR_COMMAND :: u8
  where "PLDM_FWUP_INVALID_STATE_FOR_COMMAND \<equiv> 0x84"
abbreviation (input) PLDM_FWUP_RETRY_REQUEST_FW_DATA :: u8
  where "PLDM_FWUP_RETRY_REQUEST_FW_DATA \<equiv> 0x89"
abbreviation (input) PLDM_FWUP_ACTIVATION_NOT_REQUIRED :: u8
  where "PLDM_FWUP_ACTIVATION_NOT_REQUIRED \<equiv> 0x8b"
abbreviation (input) PLDM_CRC_COMP_CAN_BE_UPDATED :: u8 where "PLDM_CRC_COMP_CAN_BE_UPDATED \<equiv> 0"
abbreviation (input) PLDM_CRC_COMP_NOT_SUPPORTED :: u8 where "PLDM_CRC_COMP_NOT_SUPPORTED \<equiv> 6"
abbreviation (input) PLDM_FWUP_TRANSFER_SUCCESS :: u8 where "PLDM_FWUP_TRANSFER_SUCCESS \<equiv> 0"
abbreviation (input) PLDM_FWUP_FD_ABORTED_TRANSFER :: u8
  where "PLDM_FWUP_FD_ABORTED_TRANSFER \<equiv> 3"
abbreviation (input) PLDM_FWUP_VERIFY_SUCCESS :: u8 where "PLDM_FWUP_VERIFY_SUCCESS \<equiv> 0"
abbreviation (input) PLDM_FWUP_VENDOR_VERIFY_RESULT_RANGE_MAX :: u8
  where "PLDM_FWUP_VENDOR_VERIFY_RESULT_RANGE_MAX \<equiv> 0xaf"
abbreviation (input) PLDM_FWUP_APPLY_SUCCESS :: u8 where "PLDM_FWUP_APPLY_SUCCESS \<equiv> 0"
abbreviation (input) PLDM_FWUP_VENDOR_APPLY_RESULT_RANGE_MAX :: u8
  where "PLDM_FWUP_VENDOR_APPLY_RESULT_RANGE_MAX \<equiv> 0xcf"
abbreviation (input) PLDM_END :: u8 where "PLDM_END \<equiv> 4"

datatype pldm_firmware_device_states =
    PLDM_FD_STATE_IDLE
  | PLDM_FD_STATE_LEARN_COMPONENTS
  | PLDM_FD_STATE_READY_XFER
  | PLDM_FD_STATE_DOWNLOAD
  | PLDM_FD_STATE_VERIFY
  | PLDM_FD_STATE_APPLY
  | PLDM_FD_STATE_ACTIVATE

fun state_code :: "pldm_firmware_device_states \<Rightarrow> u8" where
  "state_code PLDM_FD_STATE_IDLE = 0"
| "state_code PLDM_FD_STATE_LEARN_COMPONENTS = 1"
| "state_code PLDM_FD_STATE_READY_XFER = 2"
| "state_code PLDM_FD_STATE_DOWNLOAD = 3"
| "state_code PLDM_FD_STATE_VERIFY = 4"
| "state_code PLDM_FD_STATE_APPLY = 5"
| "state_code PLDM_FD_STATE_ACTIVATE = 6"

datatype pldm_get_status_reason_code_values =
    PLDM_FD_INITIALIZATION
  | PLDM_FD_ACTIVATE_FW
  | PLDM_FD_CANCEL_UPDATE
  | PLDM_FD_TIMEOUT_LEARN_COMPONENT
  | PLDM_FD_TIMEOUT_READY_XFER
  | PLDM_FD_TIMEOUT_DOWNLOAD
  | PLDM_FD_TIMEOUT_VERIFY
  | PLDM_FD_TIMEOUT_APPLY

fun reason_code :: "pldm_get_status_reason_code_values \<Rightarrow> u8" where
  "reason_code PLDM_FD_INITIALIZATION = 0"
| "reason_code PLDM_FD_ACTIVATE_FW = 1"
| "reason_code PLDM_FD_CANCEL_UPDATE = 2"
| "reason_code PLDM_FD_TIMEOUT_LEARN_COMPONENT = 3"
| "reason_code PLDM_FD_TIMEOUT_READY_XFER = 4"
| "reason_code PLDM_FD_TIMEOUT_DOWNLOAD = 5"
| "reason_code PLDM_FD_TIMEOUT_VERIFY = 6"
| "reason_code PLDM_FD_TIMEOUT_APPLY = 7"

datatype pldm_fd_req_state =
    PLDM_FD_REQ_UNUSED
  | PLDM_FD_REQ_READY
  | PLDM_FD_REQ_SENT
  | PLDM_FD_REQ_FAILED

section \<open>State\<close>

record pldm_fd_req =
  rq_state :: pldm_fd_req_state
  rq_complete :: bool
  rq_result :: u8
  rq_instance_id :: u8
  rq_command :: u8
  rq_sent_time :: u64

record pldm_firmware_update_component =
  cm_classification :: u16
  cm_identifier :: u16
  cm_classification_index :: u8
  cm_comparison_stamp :: u32
  cm_version :: pldm_firmware_string
  cm_image_size :: u32
  cm_option_flags :: u32

text \<open>
  The union \<open>specific\<close> is one 32 bit word: \<open>download.offset\<close> is all of it, and the two
  \<open>progress_percent\<close> members are its first byte (the low one, on a little-endian host).
  \<open>ops\<close> and \<open>ops_ctx\<close> are arguments of the functions.
\<close>

record pldm_fd =
  fd_state :: pldm_firmware_device_states
  fd_prev_state :: pldm_firmware_device_states
  fd_reason :: pldm_get_status_reason_code_values
  fd_specific :: u32
  fd_update_comp :: pldm_firmware_update_component
  fd_update_flags :: u32
  fd_req :: pldm_fd_req
  fd_ua_address :: u8
  fd_ua_address_set :: bool
  fd_max_transfer :: u32
  fd_update_timestamp_fd_t1 :: u64
  fd_t1_timeout :: u64
  fd_t2_retry_time :: u64

definition progress_percent :: "pldm_fd \<Rightarrow> u8" where
  "progress_percent fd = ucast (fd_specific fd)"

definition set_progress_percent :: "u8 \<Rightarrow> pldm_fd \<Rightarrow> pldm_fd" where
  "set_progress_percent p fd =
     fd\<lparr>fd_specific := (fd_specific fd AND NOT 0xff) OR ucast p\<rparr>"

text \<open>
  The callbacks: each takes the context and the arguments of the source and returns the
  source's return value, its out parameters and the new context.
\<close>

record 'c pldm_fd_ops =
  op_device_identifiers :: "('c \<Rightarrow> int \<times> u8 \<times> pldm_descriptor list option \<times> 'c) option"
  op_components :: "('c \<Rightarrow> int \<times> u16 \<times> component_entry list \<times> 'c) option"
  op_imageset_versions ::
    "('c \<Rightarrow> pldm_firmware_string \<Rightarrow> pldm_firmware_string \<Rightarrow>
        int \<times> pldm_firmware_string \<times> pldm_firmware_string \<times> 'c) option"
  op_update_component :: "('c \<Rightarrow> bool \<Rightarrow> pldm_firmware_update_component \<Rightarrow> u8 \<times> 'c) option"
  op_transfer_size :: "('c \<Rightarrow> u32 \<Rightarrow> u32 \<times> 'c) option"
  op_firmware_data ::
    "('c \<Rightarrow> u32 \<Rightarrow> u8 list \<Rightarrow> u32 \<Rightarrow> pldm_firmware_update_component \<Rightarrow> u8 \<times> 'c) option"
  op_verify ::
    "('c \<Rightarrow> pldm_firmware_update_component \<Rightarrow> bool \<Rightarrow> u8 \<Rightarrow> u8 \<times> bool \<times> u8 \<times> 'c) option"
  op_apply ::
    "('c \<Rightarrow> pldm_firmware_update_component \<Rightarrow> bool \<Rightarrow> u8 \<Rightarrow> u8 \<times> bool \<times> u8 \<times> 'c) option"
  op_activate :: "('c \<Rightarrow> bool \<Rightarrow> u16 \<Rightarrow> u8 \<times> u16 \<times> 'c) option"
  op_cancel_update_component :: "('c \<Rightarrow> pldm_firmware_update_component \<Rightarrow> 'c) option"
  op_now :: "('c \<Rightarrow> u64 \<times> 'c) option"

text \<open>Local variables that the handlers leave uninitialised: what they hold before a call.\<close>

record fd_locals =
  lo_upd :: request_update_req
  lo_pcomp :: pass_component_req
  lo_up :: update_component_req
  lo_self_contained :: bool

definition PLDM_FD_VERSIONS :: "u32 list" where
  "PLDM_FD_VERSIONS = [0xf1f1f000, 0x539dbeba]"

definition PLDM_FD_COMMANDS :: "u8 list" where
  "PLDM_FD_COMMANDS =
     [ucast ((push_bit 1 1 OR push_bit 2 1) :: u32), 0,
      ucast (drop_bit 0x10 (push_bit 0x10 1 OR push_bit 0x13 1 OR push_bit 0x14 1 :: u32)),
      ucast (drop_bit 0x18 (push_bit 0x1a 1 OR push_bit 0x1b 1 OR push_bit 0x1c 1 OR
        push_bit 0x1d 1 :: u32))] @ replicate 28 0"

section \<open>Replies and state changes\<close>

definition pldm_fd_reply_cc ::
    "u8 \<Rightarrow> pldm_header_info \<Rightarrow> pldm_msg \<Rightarrow> nat \<Rightarrow> (int \<times> pldm_msg \<times> nat) option" where
  "pldm_fd_reply_cc ccode req_hdr resp resp_payload_len =
     (if resp_payload_len < 1 then Some (- EOVERFLOW, resp, resp_payload_len)
      else do {
        (status, r) \<leftarrow> encode_cc_only_resp (hi_instance req_hdr) PLDM_FWUP (hi_command req_hdr) ccode
                        (Some resp);
        resp \<leftarrow> r;
        if status \<noteq> PLDM_SUCCESS then Some (- EINVAL, resp, 1) else Some (0, resp, 1) })"

definition pldm_fd_reply_errno ::
    "int \<Rightarrow> pldm_header_info \<Rightarrow> pldm_msg \<Rightarrow> nat \<Rightarrow> (int \<times> pldm_msg \<times> nat) option" where
  "pldm_fd_reply_errno err req_hdr resp resp_payload_len =
     (if \<not> err < 0 then None
      else
        let ccode = (if err = - EINVAL then PLDM_ERROR
                     else if err = - EPROTO then PLDM_ERROR_INVALID_DATA
                     else if err = - EOVERFLOW \<or> err = - EBADMSG then PLDM_ERROR_INVALID_LENGTH
                     else PLDM_ERROR)
        in pldm_fd_reply_cc ccode req_hdr resp resp_payload_len)"

definition pldm_fd_set_state ::
    "pldm_firmware_device_states \<Rightarrow> pldm_fd \<Rightarrow> pldm_fd option" where
  "pldm_fd_set_state state fd =
     (if state = PLDM_FD_STATE_IDLE then None
      else if fd_state fd = state then Some fd
      else Some (fd\<lparr>fd_prev_state := fd_state fd, fd_state := state\<rparr>))"

definition pldm_fd_set_idle ::
    "pldm_get_status_reason_code_values \<Rightarrow> pldm_fd \<Rightarrow> pldm_fd" where
  "pldm_fd_set_idle reason fd =
     fd\<lparr>fd_prev_state := fd_state fd, fd_state := PLDM_FD_STATE_IDLE, fd_reason := reason,
        fd_ua_address_set := False\<rparr>"

definition pldm_fd_idle_timeout :: "pldm_fd \<Rightarrow> pldm_fd" where
  "pldm_fd_idle_timeout fd =
     (case fd_state fd of
        PLDM_FD_STATE_IDLE \<Rightarrow> fd
      | PLDM_FD_STATE_LEARN_COMPONENTS \<Rightarrow> pldm_fd_set_idle PLDM_FD_TIMEOUT_LEARN_COMPONENT fd
      | PLDM_FD_STATE_READY_XFER \<Rightarrow> pldm_fd_set_idle PLDM_FD_TIMEOUT_READY_XFER fd
      | PLDM_FD_STATE_DOWNLOAD \<Rightarrow> pldm_fd_set_idle PLDM_FD_TIMEOUT_DOWNLOAD fd
      | PLDM_FD_STATE_VERIFY \<Rightarrow> pldm_fd_set_idle PLDM_FD_TIMEOUT_VERIFY fd
      | PLDM_FD_STATE_APPLY \<Rightarrow> pldm_fd_set_idle PLDM_FD_TIMEOUT_APPLY fd
      | PLDM_FD_STATE_ACTIVATE \<Rightarrow> pldm_fd_set_idle PLDM_FD_ACTIVATE_FW fd)"

definition pldm_fd_get_aux_state :: "pldm_fd \<Rightarrow> u8 \<times> u8" where
  "pldm_fd_get_aux_state fd =
     (case rq_state (fd_req fd) of
        PLDM_FD_REQ_UNUSED \<Rightarrow> (3, 0)
      | PLDM_FD_REQ_SENT \<Rightarrow> (0, 0)
      | PLDM_FD_REQ_READY \<Rightarrow> if rq_complete (fd_req fd) then (1, 0) else (0, 0)
      | PLDM_FD_REQ_FAILED \<Rightarrow> (2, rq_result (fd_req fd)))"

definition pldm_fd_now :: "'c pldm_fd_ops \<Rightarrow> 'c \<Rightarrow> (u64 \<times> 'c) option" where
  "pldm_fd_now ops ctx = do { now \<leftarrow> op_now ops; Some (now ctx) }"

definition pldm_fd_req_should_send ::
    "'c pldm_fd_ops \<Rightarrow> pldm_fd \<Rightarrow> 'c \<Rightarrow> (bool \<times> 'c) option" where
  "pldm_fd_req_should_send ops fd ctx = do {
     (now, ctx) \<leftarrow> pldm_fd_now ops ctx;
     case rq_state (fd_req fd) of
       PLDM_FD_REQ_UNUSED \<Rightarrow> None
     | PLDM_FD_REQ_READY \<Rightarrow> Some (True, ctx)
     | PLDM_FD_REQ_FAILED \<Rightarrow> Some (False, ctx)
     | PLDM_FD_REQ_SENT \<Rightarrow>
         if now < rq_sent_time (fd_req fd) then Some (False, ctx)
         else Some (now - rq_sent_time (fd_req fd) \<ge> fd_t2_retry_time fd, ctx) }"

definition pldm_fd_req_next_instance :: "pldm_fd_req \<Rightarrow> u8 \<times> pldm_fd_req" where
  "pldm_fd_req_next_instance req =
     (let i = of_nat ((unat (rq_instance_id req) + 1) mod INSTANCE_ID_COUNT)
      in (i, req\<lparr>rq_instance_id := i\<rparr>))"

section \<open>Request handlers\<close>

type_synonym 'c fd_result = "(int \<times> pldm_msg \<times> nat \<times> pldm_fd \<times> 'c) option"

definition with_fd :: "pldm_fd \<Rightarrow> 'c \<Rightarrow> (int \<times> pldm_msg \<times> nat) option \<Rightarrow> 'c fd_result" where
  "with_fd fd ctx r = do { (rc, resp, len) \<leftarrow> r; Some (rc, resp, len, fd, ctx) }"

text \<open>
  Encoding the response: its result when it is 0, an error reply otherwise. \<open>ok\<close> is the state
  after success, \<open>bad\<close> the one after a failure.
\<close>

definition respond ::
    "pldm_header_info \<Rightarrow> (pldm_msg option \<Rightarrow> nat option \<Rightarrow> (int \<times> pldm_msg option \<times> nat option) option) \<Rightarrow>
      pldm_msg \<Rightarrow> nat \<Rightarrow> (pldm_fd \<times> 'c) option \<Rightarrow> (pldm_fd \<times> 'c) option \<Rightarrow> 'c fd_result" where
  "respond hdr encode resp resp_payload_len ok bad = do {
     (rc, r, l) \<leftarrow> encode (Some resp) (Some resp_payload_len);
     resp \<leftarrow> r; len \<leftarrow> l;
     if rc \<noteq> 0 then do { (fd, ctx) \<leftarrow> bad; with_fd fd ctx (pldm_fd_reply_errno rc hdr resp len) }
     else do { (fd, ctx) \<leftarrow> ok; Some (0, resp, len, fd, ctx) } }"

definition pldm_fd_qdi ::
    "'c pldm_fd_ops \<Rightarrow> pldm_fd \<Rightarrow> 'c \<Rightarrow> pldm_header_info \<Rightarrow> nat \<Rightarrow> pldm_msg \<Rightarrow> nat \<Rightarrow> 'c fd_result" where
  "pldm_fd_qdi ops fd ctx hdr req_payload_len resp resp_payload_len =
     (if req_payload_len \<noteq> 0
      then with_fd fd ctx (pldm_fd_reply_cc PLDM_ERROR_INVALID_LENGTH hdr resp resp_payload_len)
      else do {
        f \<leftarrow> op_device_identifiers ops;
        let (rc, descriptor_count, descriptors, ctx) = f ctx in
        if rc \<noteq> 0 then with_fd fd ctx (pldm_fd_reply_cc PLDM_ERROR hdr resp resp_payload_len)
        else respond hdr (encode_query_device_identifiers_resp (hi_instance hdr) descriptor_count descriptors)
               resp resp_payload_len (Some (fd, ctx)) (Some (fd, ctx)) })"

text \<open>
  The loop over the component table. Entries are written through the pointer that
  \<open>pldm_msgbuf_peek_remaining\<close> hands out, so the bytes are those of \<open>resp\<close> and the msgbuf only
  keeps the position. The result is a return value (\<open>Inl\<close>) or the state after the loop.
  When there is nothing left to peek at, \<open>rc\<close> is still the 0 of the call before.
\<close>

fun fw_param_entries ::
    "pldm_header_info \<Rightarrow> nat \<Rightarrow> nat \<Rightarrow> component_entry list \<Rightarrow> pldm_msg \<Rightarrow> msgbuf \<Rightarrow>
      ((int \<times> pldm_msg \<times> nat) + (pldm_msg \<times> msgbuf)) option" where
  "fw_param_entries hdr len 0 es resp b = Some (Inr (resp, b))"
| "fw_param_entries hdr len (Suc n) [] resp b = None"
| "fw_param_entries hdr len (Suc n) (e # es) resp b =
     (let (rc, p, b) = pldm_msgbuf_peek_remaining b in
      if rc \<noteq> 0 then
        let (rc, b) = pldm__msgbuf_discard b 0 in mb_exit b (Inl (rc, resp, len))
      else do {
        (off, left) \<leftarrow> p;
        (rc, q, l) \<leftarrow> encode_get_firmware_parameters_resp_comp_entry (Some e)
                       (Some (m_addr resp + off, drop off (m_payload resp))) (Some left);
        (a, bytes) \<leftarrow> q; l \<leftarrow> l;
        let resp = resp\<lparr>m_payload := take off (m_payload resp) @ bytes\<rparr> in
        if rc \<noteq> 0 then do {
          (rc, resp, len) \<leftarrow> pldm_fd_reply_errno rc hdr resp len;
          let (rc, b) = pldm__msgbuf_discard b rc in mb_exit b (Inl (rc, resp, len)) }
        else
          let (_, b) = pldm_msgbuf_skip b l in fw_param_entries hdr len n es resp b })"

definition pldm_fd_fw_param ::
    "'c pldm_fd_ops \<Rightarrow> pldm_fd \<Rightarrow> 'c \<Rightarrow> pldm_header_info \<Rightarrow> nat \<Rightarrow> pldm_msg \<Rightarrow> nat \<Rightarrow> 'c fd_result" where
  "pldm_fd_fw_param ops fd ctx hdr req_payload_len resp resp_payload_len =
     (if req_payload_len \<noteq> 0
      then with_fd fd ctx (pldm_fd_reply_cc PLDM_ERROR_INVALID_LENGTH hdr resp resp_payload_len)
      else do {
        f \<leftarrow> op_components ops;
        let (rc, entry_count, entries, ctx) = f ctx in
        if rc \<noteq> 0 then with_fd fd ctx (pldm_fd_reply_cc PLDM_ERROR hdr resp resp_payload_len)
        else
          let (rc, b) = pldm__msgbuf_init_errno 0 (m_addr resp) (m_payload resp) resp_payload_len in
          if rc \<noteq> 0 then mb_exit b (rc, resp, resp_payload_len, fd, ctx)
          else do {
            g \<leftarrow> op_imageset_versions ops;
            let s0 = \<lparr>str_type = 0, str_len = 0, str_data = replicate PLDM_FIRMWARE_MAX_STRING 0\<rparr>;
                (rc, active, pending, ctx) = g ctx s0 s0
            in if rc \<noteq> 0 then do {
                 (rc, resp, len) \<leftarrow> pldm_fd_reply_cc PLDM_ERROR hdr resp resp_payload_len;
                 let (rc, b) = pldm__msgbuf_discard b rc in mb_exit b (rc, resp, len, fd, ctx) }
               else do {
                 (rc, r, l) \<leftarrow> encode_get_firmware_parameters_resp (hi_instance hdr)
                    (Some \<lparr>fp_completion_code = PLDM_SUCCESS, fp_capabilities = 0,
                           fp_comp_count = entry_count, fp_active_ver = active,
                           fp_pending_ver = pending\<rparr>)
                    (Some resp) (Some (nat (mb_remaining b)));
                 resp \<leftarrow> r; l \<leftarrow> l;
                 if rc \<noteq> 0 then do {
                   (rc, resp, len) \<leftarrow> pldm_fd_reply_errno rc hdr resp resp_payload_len;
                   let (rc, b) = pldm__msgbuf_discard b rc in mb_exit b (rc, resp, len, fd, ctx) }
                 else
                   let (rc, b) = pldm_msgbuf_skip b l in
                   if rc \<noteq> 0 then
                     let (rc, b) = pldm__msgbuf_discard b rc
                     in mb_exit b (rc, resp, resp_payload_len, fd, ctx)
                   else do {
                     s \<leftarrow> fw_param_entries hdr resp_payload_len (unat entry_count) entries resp b;
                     case s of
                       Inl (rc, resp, len) \<Rightarrow> Some (rc, resp, len, fd, ctx)
                     | Inr (resp, b) \<Rightarrow>
                         let (rc, len, b) = pldm_msgbuf_complete_used b resp_payload_len resp_payload_len
                         in mb_exit b (rc, resp, len, fd, ctx) } } } })"

definition pldm_fd_request_update ::
    "'c pldm_fd_ops \<Rightarrow> fd_locals \<Rightarrow> pldm_fd \<Rightarrow> 'c \<Rightarrow> pldm_header_info \<Rightarrow> pldm_msg \<Rightarrow> nat \<Rightarrow> pldm_msg \<Rightarrow>
      nat \<Rightarrow> u8 \<Rightarrow> 'c fd_result" where
  "pldm_fd_request_update ops lo fd ctx hdr req req_payload_len resp resp_payload_len address =
     (if fd_state fd \<noteq> PLDM_FD_STATE_IDLE
      then with_fd fd ctx (pldm_fd_reply_cc PLDM_FWUP_ALREADY_IN_UPDATE_MODE hdr resp resp_payload_len)
      else do {
        (rc, u) \<leftarrow> decode_request_update_req (Some req) req_payload_len (Some (lo_upd lo));
        if rc \<noteq> 0 then with_fd fd ctx (pldm_fd_reply_errno rc hdr resp resp_payload_len)
        else do {
          upd \<leftarrow> u;
          respond hdr (encode_request_update_resp (hi_instance hdr) 0 0) resp resp_payload_len
            (do {
               f \<leftarrow> op_transfer_size ops;
               let (size, ctx) = f ctx (ru_max_transfer_size upd);
                   size = (if size > ru_max_transfer_size upd then ru_max_transfer_size upd else size);
                   size = (if size < PLDM_FWUP_BASELINE_TRANSFER_SIZE
                           then PLDM_FWUP_BASELINE_TRANSFER_SIZE else size);
                   fd = fd\<lparr>fd_max_transfer := size, fd_ua_address := address,
                           fd_ua_address_set := True\<rparr>
               in do {
                 fd \<leftarrow> pldm_fd_set_state PLDM_FD_STATE_LEARN_COMPONENTS fd;
                 Some (fd, ctx) } })
            (Some (fd, ctx)) } })"

definition pldm_fd_maybe_cancel_component ::
    "'c pldm_fd_ops \<Rightarrow> pldm_fd \<Rightarrow> 'c \<Rightarrow> 'c option" where
  "pldm_fd_maybe_cancel_component ops fd ctx =
     (let cancel =
        (case fd_state fd of
           PLDM_FD_STATE_DOWNLOAD \<Rightarrow> True
         | PLDM_FD_STATE_VERIFY \<Rightarrow> True
         | PLDM_FD_STATE_APPLY \<Rightarrow>
             \<not> (rq_complete (fd_req fd) \<and> rq_result (fd_req fd) = PLDM_FWUP_APPLY_SUCCESS)
         | _ \<Rightarrow> False)
      in if cancel then do { f \<leftarrow> op_cancel_update_component ops; Some (f ctx (fd_update_comp fd)) }
         else Some ctx)"

definition same_component :: "component_entry \<Rightarrow> pldm_firmware_update_component \<Rightarrow> bool" where
  "same_component e c \<longleftrightarrow>
     ce_classification e = cm_classification c \<and> ce_identifier e = cm_identifier c \<and>
     ce_classification_index e = cm_classification_index c"

fun find_component ::
    "nat \<Rightarrow> component_entry list \<Rightarrow> pldm_firmware_update_component \<Rightarrow> bool option" where
  "find_component 0 es c = Some False"
| "find_component (Suc n) [] c = None"
| "find_component (Suc n) (e # es) c = (if same_component e c then Some True else find_component n es c)"

definition pldm_fd_check_update_component ::
    "'c pldm_fd_ops \<Rightarrow> 'c \<Rightarrow> bool \<Rightarrow> pldm_firmware_update_component \<Rightarrow> (u8 \<times> 'c) option" where
  "pldm_fd_check_update_component ops ctx update c = do {
     f \<leftarrow> op_components ops;
     let (rc, entry_count, entries, ctx) = f ctx in
     if rc \<noteq> 0 then Some (PLDM_CRC_COMP_NOT_SUPPORTED, ctx)
     else do {
       found \<leftarrow> find_component (unat entry_count) entries c;
       if found then do { g \<leftarrow> op_update_component ops; Some (g ctx update c) }
       else Some (PLDM_CRC_COMP_NOT_SUPPORTED, ctx) } }"

definition pldm_fd_pass_comp ::
    "'c pldm_fd_ops \<Rightarrow> fd_locals \<Rightarrow> pldm_fd \<Rightarrow> 'c \<Rightarrow> pldm_header_info \<Rightarrow> pldm_msg \<Rightarrow> nat \<Rightarrow> pldm_msg \<Rightarrow>
      nat \<Rightarrow> 'c fd_result" where
  "pldm_fd_pass_comp ops lo fd ctx hdr req req_payload_len resp resp_payload_len =
     (if fd_state fd \<noteq> PLDM_FD_STATE_LEARN_COMPONENTS
      then with_fd fd ctx
             (pldm_fd_reply_cc PLDM_FWUP_INVALID_STATE_FOR_COMMAND hdr resp resp_payload_len)
      else
        let fd = fd\<lparr>fd_update_comp := (fd_update_comp fd)\<lparr>cm_image_size := 0, cm_option_flags := 0\<rparr>\<rparr>
        in do {
          (rc, p) \<leftarrow> decode_pass_component_table_req (Some req) req_payload_len (Some (lo_pcomp lo));
          if rc \<noteq> 0 then with_fd fd ctx (pldm_fd_reply_errno rc hdr resp resp_payload_len)
          else do {
            pcomp \<leftarrow> p;
            let fd = fd\<lparr>fd_update_comp := (fd_update_comp fd)
                         \<lparr>cm_classification := pt_classification pcomp,
                          cm_identifier := pt_identifier pcomp,
                          cm_classification_index := pt_classification_index pcomp,
                          cm_comparison_stamp := pt_comparison_stamp pcomp,
                          cm_version := pt_version pcomp\<rparr>\<rparr>
            in do {
              (code, ctx) \<leftarrow> pldm_fd_check_update_component ops ctx False (fd_update_comp fd);
              respond hdr (encode_pass_component_table_resp (hi_instance hdr)
                             (if code \<noteq> 0 then 1 else 0) code) resp resp_payload_len
                (if pt_transfer_flag pcomp AND PLDM_END \<noteq> 0
                 then do { fd \<leftarrow> pldm_fd_set_state PLDM_FD_STATE_READY_XFER fd; Some (fd, ctx) }
                 else Some (fd, ctx))
                (Some (fd, ctx)) } } })"

definition pldm_fd_update_comp ::
    "'c pldm_fd_ops \<Rightarrow> fd_locals \<Rightarrow> pldm_fd \<Rightarrow> 'c \<Rightarrow> pldm_header_info \<Rightarrow> pldm_msg \<Rightarrow> nat \<Rightarrow> pldm_msg \<Rightarrow>
      nat \<Rightarrow> 'c fd_result" where
  "pldm_fd_update_comp ops lo fd ctx hdr req req_payload_len resp resp_payload_len =
     (if fd_state fd \<noteq> PLDM_FD_STATE_READY_XFER
      then with_fd fd ctx
             (pldm_fd_reply_cc PLDM_FWUP_INVALID_STATE_FOR_COMMAND hdr resp resp_payload_len)
      else do {
        (rc, u) \<leftarrow> decode_update_component_req (Some req) req_payload_len (Some (lo_up lo));
        if rc \<noteq> 0 then with_fd fd ctx (pldm_fd_reply_errno rc hdr resp resp_payload_len)
        else do {
          up \<leftarrow> u;
          let fd = fd\<lparr>fd_update_comp := (fd_update_comp fd)
                       \<lparr>cm_classification := uc_classification up,
                        cm_identifier := uc_identifier up,
                        cm_classification_index := uc_classification_index up,
                        cm_comparison_stamp := uc_comparison_stamp up,
                        cm_image_size := uc_image_size up,
                        cm_option_flags := uc_option_flags up,
                        cm_version := uc_version up\<rparr>\<rparr>
          in do {
            (code, ctx) \<leftarrow> pldm_fd_check_update_component ops ctx True (fd_update_comp fd);
            let update_flags = cm_option_flags (fd_update_comp fd) AND 1
            in respond hdr (encode_update_component_resp (hi_instance hdr)
                              (if code \<noteq> 0 then 1 else 0) code update_flags 0) resp resp_payload_len
                 (if code = PLDM_CRC_COMP_CAN_BE_UPDATED
                  then do {
                    fd \<leftarrow> pldm_fd_set_state PLDM_FD_STATE_DOWNLOAD
                      (fd\<lparr>fd_specific := 0, fd_update_flags := update_flags,
                          fd_req := (fd_req fd)\<lparr>rq_state := PLDM_FD_REQ_READY, rq_complete := False\<rparr>\<rparr>);
                    Some (fd, ctx) }
                  else Some (fd, ctx))
                 (if code = PLDM_CRC_COMP_CAN_BE_UPDATED
                  then do {
                    f \<leftarrow> op_cancel_update_component ops;
                    Some (fd, f ctx (fd_update_comp fd)) }
                  else Some (fd, ctx)) } } })"

text \<open>The status \<open>pldm_fd_get_status\<close> reports; the percentage is truncated to its byte.\<close>

definition fd_status :: "pldm_fd \<Rightarrow> get_status_resp" where
  "fd_status fd =
     (let (aux_state, aux_status) = pldm_fd_get_aux_state fd;
          st = \<lparr>gs_completion_code = 0, gs_current_state = state_code (fd_state fd),
                gs_previous_state = state_code (fd_prev_state fd), gs_aux_state = aux_state,
                gs_aux_state_status = aux_status,
                gs_progress_percent = PROGRESS_PERCENT_NOT_SUPPORTED, gs_reason_code = 0,
                gs_option_flags = 0\<rparr>;
          size = cm_image_size (fd_update_comp fd);
          one_percent = (if size mod 100 \<noteq> 0 then size div 100 + 1 else size div 100)
      in case fd_state fd of
           PLDM_FD_STATE_IDLE \<Rightarrow> st\<lparr>gs_reason_code := reason_code (fd_reason fd)\<rparr>
         | PLDM_FD_STATE_DOWNLOAD \<Rightarrow>
             st\<lparr>gs_progress_percent := (if size > 0 then ucast (fd_specific fd div one_percent)
                                        else gs_progress_percent st),
                gs_option_flags := fd_update_flags fd\<rparr>
         | PLDM_FD_STATE_VERIFY \<Rightarrow>
             st\<lparr>gs_option_flags := fd_update_flags fd, gs_progress_percent := progress_percent fd\<rparr>
         | PLDM_FD_STATE_APPLY \<Rightarrow>
             st\<lparr>gs_option_flags := fd_update_flags fd, gs_progress_percent := progress_percent fd\<rparr>
         | _ \<Rightarrow> st)"

definition pldm_fd_get_status ::
    "pldm_fd \<Rightarrow> 'c \<Rightarrow> pldm_header_info \<Rightarrow> nat \<Rightarrow> pldm_msg \<Rightarrow> nat \<Rightarrow> 'c fd_result" where
  "pldm_fd_get_status fd ctx hdr req_payload_len resp resp_payload_len =
     (if req_payload_len \<noteq> 0
      then with_fd fd ctx (pldm_fd_reply_cc PLDM_ERROR_INVALID_LENGTH hdr resp resp_payload_len)
      else respond hdr (encode_get_status_resp (hi_instance hdr) (Some (fd_status fd)))
             resp resp_payload_len (Some (fd, ctx)) (Some (fd, ctx)))"

definition pldm_fd_cancel_update_comp ::
    "'c pldm_fd_ops \<Rightarrow> pldm_fd \<Rightarrow> 'c \<Rightarrow> pldm_header_info \<Rightarrow> nat \<Rightarrow> pldm_msg \<Rightarrow> nat \<Rightarrow> 'c fd_result" where
  "pldm_fd_cancel_update_comp ops fd ctx hdr req_payload_len resp resp_payload_len =
     (if req_payload_len \<noteq> 0
      then with_fd fd ctx (pldm_fd_reply_cc PLDM_ERROR_INVALID_LENGTH hdr resp resp_payload_len)
      else if fd_state fd \<noteq> PLDM_FD_STATE_DOWNLOAD \<and> fd_state fd \<noteq> PLDM_FD_STATE_VERIFY \<and>
              fd_state fd \<noteq> PLDM_FD_STATE_APPLY
      then with_fd fd ctx (pldm_fd_reply_cc PLDM_FWUP_NOT_IN_UPDATE_MODE hdr resp resp_payload_len)
      else do {
        (rc, resp, len) \<leftarrow> pldm_fd_reply_cc PLDM_SUCCESS hdr resp resp_payload_len;
        if rc \<noteq> 0 then Some (rc, resp, len, fd, ctx)
        else do {
          ctx \<leftarrow> pldm_fd_maybe_cancel_component ops fd ctx;
          fd \<leftarrow> pldm_fd_set_state PLDM_FD_STATE_READY_XFER fd;
          Some (0, resp, len, fd, ctx) } })"

definition pldm_fd_cancel_update ::
    "'c pldm_fd_ops \<Rightarrow> pldm_fd \<Rightarrow> 'c \<Rightarrow> pldm_header_info \<Rightarrow> nat \<Rightarrow> pldm_msg \<Rightarrow> nat \<Rightarrow> 'c fd_result" where
  "pldm_fd_cancel_update ops fd ctx hdr req_payload_len resp resp_payload_len =
     (if req_payload_len \<noteq> 0
      then with_fd fd ctx (pldm_fd_reply_cc PLDM_ERROR_INVALID_LENGTH hdr resp resp_payload_len)
      else if fd_state fd = PLDM_FD_STATE_IDLE
      then with_fd fd ctx (pldm_fd_reply_cc PLDM_FWUP_NOT_IN_UPDATE_MODE hdr resp resp_payload_len)
      else respond hdr (encode_cancel_update_resp (hi_instance hdr) 0 0) resp resp_payload_len
             (do {
                ctx \<leftarrow> pldm_fd_maybe_cancel_component ops fd ctx;
                Some (pldm_fd_set_idle PLDM_FD_CANCEL_UPDATE fd, ctx) })
             (Some (fd, ctx)))"

definition pldm_fd_activate_firmware ::
    "'c pldm_fd_ops \<Rightarrow> fd_locals \<Rightarrow> pldm_fd \<Rightarrow> 'c \<Rightarrow> pldm_header_info \<Rightarrow> pldm_msg \<Rightarrow> nat \<Rightarrow> pldm_msg \<Rightarrow>
      nat \<Rightarrow> 'c fd_result" where
  "pldm_fd_activate_firmware ops lo fd ctx hdr req req_payload_len resp resp_payload_len = do {
     (rc, s) \<leftarrow> decode_activate_firmware_req (Some req) req_payload_len (Some (lo_self_contained lo));
     self_contained \<leftarrow> s;
     if rc \<noteq> 0 then with_fd fd ctx (pldm_fd_reply_errno rc hdr resp resp_payload_len)
     else if fd_state fd \<noteq> PLDM_FD_STATE_READY_XFER
     then with_fd fd ctx
            (pldm_fd_reply_cc PLDM_FWUP_INVALID_STATE_FOR_COMMAND hdr resp resp_payload_len)
     else do {
       f \<leftarrow> op_activate ops;
       let (ccode, estimated_time, ctx) = f ctx self_contained 0 in do {
       fd \<leftarrow> (if ccode = PLDM_SUCCESS \<or> ccode = PLDM_FWUP_ACTIVATION_NOT_REQUIRED
              then do {
                fd \<leftarrow> pldm_fd_set_state PLDM_FD_STATE_ACTIVATE fd;
                Some (pldm_fd_set_idle PLDM_FD_ACTIVATE_FW fd) }
              else Some fd);
       if ccode = PLDM_SUCCESS
       then respond hdr (encode_activate_firmware_resp (hi_instance hdr) estimated_time)
              resp resp_payload_len (Some (fd, ctx)) (Some (fd, ctx))
       else with_fd fd ctx (pldm_fd_reply_cc ccode hdr resp resp_payload_len) } } }"

section \<open>Responses to the device's own requests\<close>

definition pldm_fd_fwdata_size :: "pldm_fd \<Rightarrow> u32 option" where
  "pldm_fd_fwdata_size fd =
     (if fd_state fd \<noteq> PLDM_FD_STATE_DOWNLOAD then None
      else if fd_specific fd > cm_image_size (fd_update_comp fd) then None
      else
        let size = cm_image_size (fd_update_comp fd) - fd_specific fd
        in Some (if size > fd_max_transfer fd then fd_max_transfer fd else size))"

definition pldm_fd_handle_fwdata_resp ::
    "'c pldm_fd_ops \<Rightarrow> pldm_fd \<Rightarrow> 'c \<Rightarrow> pldm_msg \<Rightarrow> nat \<Rightarrow> (int \<times> pldm_fd \<times> 'c) option" where
  "pldm_fd_handle_fwdata_resp ops fd ctx resp resp_payload_len =
     (if fd_state fd \<noteq> PLDM_FD_STATE_DOWNLOAD then Some (- EPROTO, fd, ctx)
      else if rq_state (fd_req fd) \<noteq> PLDM_FD_REQ_SENT then Some (- EPROTO, fd, ctx)
      else if rq_complete (fd_req fd) then Some (- EPROTO, fd, ctx)
      else do {
        cc \<leftarrow> get_bytes 0 1 resp;
        if cc ! 0 = PLDM_FWUP_RETRY_REQUEST_FW_DATA then Some (0, fd, ctx)
        else if cc ! 0 \<noteq> PLDM_SUCCESS then
          Some (0, fd\<lparr>fd_req := (fd_req fd)\<lparr>rq_state := PLDM_FD_REQ_READY, rq_complete := True,
                        rq_result := PLDM_FWUP_FD_ABORTED_TRANSFER\<rparr>\<rparr>, ctx)
        else do {
          fwdata_size \<leftarrow> pldm_fd_fwdata_size fd;
          let offset = fd_specific fd; image_size = cm_image_size (fd_update_comp fd) in
          if resp_payload_len \<noteq> unat (fwdata_size + 1) then Some (- EOVERFLOW, fd, ctx)
          else if offset + fwdata_size < offset \<or> offset + fwdata_size > image_size then None
          else do {
            data \<leftarrow> get_bytes 1 (unat fwdata_size) resp;
            f \<leftarrow> op_firmware_data ops;
            let (res, ctx) = f ctx offset data fwdata_size (fd_update_comp fd);
                fd = fd\<lparr>fd_req := (fd_req fd)\<lparr>rq_state := PLDM_FD_REQ_READY\<rparr>\<rparr>
            in if res = PLDM_FWUP_TRANSFER_SUCCESS then
                 let fd = fd\<lparr>fd_specific := offset + fwdata_size\<rparr> in
                 if fd_specific fd = image_size then
                   Some (0, fd\<lparr>fd_req := (fd_req fd)\<lparr>rq_complete := True,
                                 rq_result := PLDM_FWUP_TRANSFER_SUCCESS\<rparr>\<rparr>, ctx)
                 else Some (0, fd, ctx)
               else
                 Some (0, fd\<lparr>fd_req := (fd_req fd)\<lparr>rq_complete := True, rq_result := res\<rparr>\<rparr>, ctx) } } })"

definition pldm_fd_handle_transfer_complete_resp :: "pldm_fd \<Rightarrow> (int \<times> pldm_fd) option" where
  "pldm_fd_handle_transfer_complete_resp fd =
     (if fd_state fd \<noteq> PLDM_FD_STATE_DOWNLOAD then Some (- EPROTO, fd)
      else if rq_state (fd_req fd) \<noteq> PLDM_FD_REQ_SENT then Some (- EPROTO, fd)
      else if \<not> rq_complete (fd_req fd) then Some (- EPROTO, fd)
      else if rq_result (fd_req fd) = PLDM_FWUP_TRANSFER_SUCCESS then do {
        fd \<leftarrow> pldm_fd_set_state PLDM_FD_STATE_VERIFY
          (set_progress_percent PROGRESS_PERCENT_NOT_SUPPORTED (fd\<lparr>fd_specific := 0\<rparr>)
             \<lparr>fd_req := (fd_req fd)\<lparr>rq_state := PLDM_FD_REQ_READY, rq_complete := False\<rparr>\<rparr>);
        Some (0, fd) }
      else Some (0, fd\<lparr>fd_req := (fd_req fd)\<lparr>rq_state := PLDM_FD_REQ_FAILED\<rparr>\<rparr>))"

definition pldm_fd_handle_verify_complete_resp :: "pldm_fd \<Rightarrow> (int \<times> pldm_fd) option" where
  "pldm_fd_handle_verify_complete_resp fd =
     (if fd_state fd \<noteq> PLDM_FD_STATE_VERIFY then Some (- EPROTO, fd)
      else if rq_state (fd_req fd) \<noteq> PLDM_FD_REQ_SENT then Some (- EPROTO, fd)
      else if \<not> rq_complete (fd_req fd) then None
      else if rq_result (fd_req fd) = PLDM_FWUP_VERIFY_SUCCESS then do {
        fd \<leftarrow> pldm_fd_set_state PLDM_FD_STATE_APPLY
          (set_progress_percent PROGRESS_PERCENT_NOT_SUPPORTED (fd\<lparr>fd_specific := 0\<rparr>)
             \<lparr>fd_req := (fd_req fd)\<lparr>rq_state := PLDM_FD_REQ_READY, rq_complete := False\<rparr>\<rparr>);
        Some (0, fd) }
      else Some (0, fd\<lparr>fd_req := (fd_req fd)\<lparr>rq_state := PLDM_FD_REQ_FAILED\<rparr>\<rparr>))"

definition pldm_fd_handle_apply_complete_resp :: "pldm_fd \<Rightarrow> (int \<times> pldm_fd) option" where
  "pldm_fd_handle_apply_complete_resp fd =
     (if fd_state fd \<noteq> PLDM_FD_STATE_APPLY then Some (- EPROTO, fd)
      else if rq_state (fd_req fd) \<noteq> PLDM_FD_REQ_SENT then Some (- EPROTO, fd)
      else if \<not> rq_complete (fd_req fd) then None
      else if rq_result (fd_req fd) = PLDM_FWUP_APPLY_SUCCESS then do {
        fd \<leftarrow> pldm_fd_set_state PLDM_FD_STATE_READY_XFER
                (fd\<lparr>fd_req := (fd_req fd)\<lparr>rq_state := PLDM_FD_REQ_UNUSED\<rparr>\<rparr>);
        Some (0, fd) }
      else Some (0, fd\<lparr>fd_req := (fd_req fd)\<lparr>rq_state := PLDM_FD_REQ_FAILED\<rparr>\<rparr>))"

definition pldm_fd_handle_resp ::
    "'c pldm_fd_ops \<Rightarrow> pldm_fd \<Rightarrow> 'c \<Rightarrow> u8 \<Rightarrow> pldm_msg \<Rightarrow> nat \<Rightarrow> (int \<times> pldm_fd \<times> 'c) option" where
  "pldm_fd_handle_resp ops fd ctx address resp resp_len =
     (if \<not> (fd_ua_address_set fd \<and> fd_ua_address fd = address) then Some (- EBUSY, fd, ctx)
      else if resp_len < 3 + 1 then Some (- EINVAL, fd, ctx)
      else
        let resp_payload_len = resp_len - 3 in
        if rq_state (fd_req fd) \<noteq> PLDM_FD_REQ_SENT then Some (- EPROTO, fd, ctx)
        else if rq_instance_id (fd_req fd) \<noteq> ucast (h_instance_id (m_hdr resp))
        then Some (- EPROTO, fd, ctx)
        else if rq_command (fd_req fd) \<noteq> h_command (m_hdr resp) then Some (- EPROTO, fd, ctx)
        else do {
          (now, ctx) \<leftarrow> pldm_fd_now ops ctx;
          let fd = fd\<lparr>fd_update_timestamp_fd_t1 := now\<rparr>; command = h_command (m_hdr resp) in
          if command = PLDM_REQUEST_FIRMWARE_DATA
          then pldm_fd_handle_fwdata_resp ops fd ctx resp resp_payload_len
          else if command = PLDM_TRANSFER_COMPLETE
          then do { (rc, fd) \<leftarrow> pldm_fd_handle_transfer_complete_resp fd; Some (rc, fd, ctx) }
          else if command = PLDM_VERIFY_COMPLETE
          then do { (rc, fd) \<leftarrow> pldm_fd_handle_verify_complete_resp fd; Some (rc, fd, ctx) }
          else if command = PLDM_APPLY_COMPLETE
          then do { (rc, fd) \<leftarrow> pldm_fd_handle_apply_complete_resp fd; Some (rc, fd, ctx) }
          else None })"

section \<open>Progress\<close>

text \<open>The end of the three progress functions: a request was encoded, wait for its response.\<close>

definition sent_request ::
    "'c pldm_fd_ops \<Rightarrow> pldm_fd \<Rightarrow> 'c \<Rightarrow> (int \<times> pldm_msg option \<times> nat option) option \<Rightarrow> 'c fd_result" where
  "sent_request ops fd ctx r = do {
     (rc, r, l) \<leftarrow> r;
     req \<leftarrow> r; len \<leftarrow> l;
     if rc \<noteq> 0 then Some (rc, req, len, fd, ctx)
     else do {
       (now, ctx) \<leftarrow> pldm_fd_now ops ctx;
       Some (0, req, len,
         fd\<lparr>fd_req := (fd_req fd)\<lparr>rq_state := PLDM_FD_REQ_SENT,
              rq_instance_id := ucast (h_instance_id (m_hdr req)),
              rq_command := h_command (m_hdr req), rq_sent_time := now\<rparr>\<rparr>, ctx) } }"

definition pldm_fd_progress_download ::
    "'c pldm_fd_ops \<Rightarrow> pldm_fd \<Rightarrow> 'c \<Rightarrow> pldm_msg \<Rightarrow> nat \<Rightarrow> 'c fd_result" where
  "pldm_fd_progress_download ops fd ctx req req_payload_len = do {
     (send, ctx) \<leftarrow> pldm_fd_req_should_send ops fd ctx;
     if \<not> send then Some (0, req, 0, fd, ctx)
     else
       let (instance_id, rq) = pldm_fd_req_next_instance (fd_req fd); fd = fd\<lparr>fd_req := rq\<rparr> in
       if rq_complete (fd_req fd)
       then sent_request ops fd ctx
              (encode_transfer_complete_req instance_id (rq_result (fd_req fd)) (Some req)
                 (Some req_payload_len))
       else do {
         size \<leftarrow> pldm_fd_fwdata_size fd;
         sent_request ops fd ctx
           (encode_request_firmware_data_req instance_id (fd_specific fd) size (Some req)
              (Some req_payload_len)) } }"

definition pldm_fd_progress_verify ::
    "'c pldm_fd_ops \<Rightarrow> pldm_fd \<Rightarrow> 'c \<Rightarrow> pldm_msg \<Rightarrow> nat \<Rightarrow> 'c fd_result" where
  "pldm_fd_progress_verify ops fd ctx req req_payload_len = do {
     (send, ctx) \<leftarrow> pldm_fd_req_should_send ops fd ctx;
     if \<not> send then Some (0, req, 0, fd, ctx)
     else do {
       (wait, fd, ctx) \<leftarrow>
         (if rq_complete (fd_req fd) then Some (False, fd, ctx)
          else do {
            f \<leftarrow> op_verify ops;
            let (res, pending, percent, ctx) = f ctx (fd_update_comp fd) False (progress_percent fd);
                fd = set_progress_percent percent fd
            in if pending \<and> res = PLDM_FWUP_VERIFY_SUCCESS then Some (True, fd, ctx)
               else
                 let res = (if pending then PLDM_FWUP_VENDOR_VERIFY_RESULT_RANGE_MAX else res)
                 in Some (False, fd\<lparr>fd_req := (fd_req fd)\<lparr>rq_result := res, rq_complete := True\<rparr>\<rparr>, ctx) });
       if wait then Some (0, req, 0, fd, ctx)
       else
         let (instance_id, rq) = pldm_fd_req_next_instance (fd_req fd); fd = fd\<lparr>fd_req := rq\<rparr> in
         sent_request ops fd ctx
           (encode_verify_complete_req instance_id (rq_result (fd_req fd)) (Some req)
              (Some req_payload_len)) } }"

definition pldm_fd_progress_apply ::
    "'c pldm_fd_ops \<Rightarrow> pldm_fd \<Rightarrow> 'c \<Rightarrow> pldm_msg \<Rightarrow> nat \<Rightarrow> 'c fd_result" where
  "pldm_fd_progress_apply ops fd ctx req req_payload_len = do {
     (send, ctx) \<leftarrow> pldm_fd_req_should_send ops fd ctx;
     if \<not> send then Some (0, req, 0, fd, ctx)
     else do {
       (wait, fd, ctx) \<leftarrow>
         (if rq_complete (fd_req fd) then Some (False, fd, ctx)
          else do {
            f \<leftarrow> op_apply ops;
            let (res, pending, percent, ctx) = f ctx (fd_update_comp fd) False (progress_percent fd);
                fd = set_progress_percent percent fd
            in if pending \<and> res = PLDM_FWUP_APPLY_SUCCESS then Some (True, fd, ctx)
               else
                 let res = (if pending then PLDM_FWUP_VENDOR_APPLY_RESULT_RANGE_MAX else res);
                     res = (if res = PLDM_FWUP_APPLY_SUCCESS_WITH_ACTIVATION_METHOD
                            then PLDM_FWUP_APPLY_SUCCESS else res)
                 in Some (False, fd\<lparr>fd_req := (fd_req fd)\<lparr>rq_result := res, rq_complete := True\<rparr>\<rparr>, ctx) });
       if wait then Some (0, req, 0, fd, ctx)
       else
         let (instance_id, rq) = pldm_fd_req_next_instance (fd_req fd); fd = fd\<lparr>fd_req := rq\<rparr> in
         sent_request ops fd ctx
           (encode_apply_complete_req instance_id (rq_result (fd_req fd)) 0 (Some req)
              (Some req_payload_len)) } }"

section \<open>Entry points\<close>

text \<open>What \<open>memset\<close> makes of a \<open>struct pldm_fd\<close>.\<close>

definition zero_fd :: pldm_fd where
  "zero_fd =
     \<lparr>fd_state = PLDM_FD_STATE_IDLE, fd_prev_state = PLDM_FD_STATE_IDLE,
      fd_reason = PLDM_FD_INITIALIZATION, fd_specific = 0,
      fd_update_comp =
        \<lparr>cm_classification = 0, cm_identifier = 0, cm_classification_index = 0,
         cm_comparison_stamp = 0,
         cm_version = \<lparr>str_type = 0, str_len = 0, str_data = replicate PLDM_FIRMWARE_MAX_STRING 0\<rparr>,
         cm_image_size = 0, cm_option_flags = 0\<rparr>,
      fd_update_flags = 0,
      fd_req = \<lparr>rq_state = PLDM_FD_REQ_UNUSED, rq_complete = False, rq_result = 0,
                rq_instance_id = 0, rq_command = 0, rq_sent_time = 0\<rparr>,
      fd_ua_address = 0, fd_ua_address_set = False, fd_max_transfer = 0,
      fd_update_timestamp_fd_t1 = 0, fd_t1_timeout = 0, fd_t2_retry_time = 0\<rparr>"

text \<open>
  \<open>size_ok\<close>: the caller's object is at least \<open>sizeof(struct pldm_fd)\<close>. \<open>op_apply\<close> is not among
  the callbacks that must be set.
\<close>

definition pldm_fd_setup ::
    "pldm_fd option \<Rightarrow> bool \<Rightarrow> 'c pldm_fd_ops option \<Rightarrow> pldm_control option \<Rightarrow>
      int \<times> pldm_fd option \<times> pldm_control option" where
  "pldm_fd_setup fd size_ok ops control =
     (case (fd, ops) of
        (Some _, Some ops) \<Rightarrow>
          if op_device_identifiers ops = None \<or> op_components ops = None \<or>
             op_imageset_versions ops = None \<or> op_update_component ops = None \<or>
             op_transfer_size ops = None \<or> op_firmware_data ops = None \<or> op_verify ops = None \<or>
             op_activate ops = None \<or> op_cancel_update_component ops = None \<or> op_now ops = None
          then (- EINVAL, fd, control)
          else if \<not> size_ok then (- EINVAL, fd, control)
          else
            let fd = zero_fd\<lparr>fd_t1_timeout := DEFAULT_FD_T1_TIMEOUT,
                              fd_t2_retry_time := DEFAULT_FD_T2_RETRY_TIME\<rparr>
            in (case control of
                  None \<Rightarrow> (0, Some fd, None)
                | Some control \<Rightarrow>
                    let (rc, control) = pldm_control_add_type control PLDM_FWUP
                          (Some (concat (map le_of_word PLDM_FD_VERSIONS))) (length PLDM_FD_VERSIONS)
                          (Some PLDM_FD_COMMANDS)
                    in if rc \<noteq> 0 then (rc, Some fd, Some control) else (0, Some fd, Some control))
      | _ \<Rightarrow> (- EINVAL, fd, control))"

text \<open>\<open>mem\<close>: the object \<open>malloc\<close> returns, \<open>None\<close> when there is none.\<close>

definition pldm_fd_new ::
    "pldm_fd option \<Rightarrow> 'c pldm_fd_ops option \<Rightarrow> pldm_control option \<Rightarrow>
      pldm_fd option \<times> pldm_control option" where
  "pldm_fd_new mem ops control =
     (case mem of
        None \<Rightarrow> (None, control)
      | Some _ \<Rightarrow>
          let (rc, fd, control) = pldm_fd_setup mem True ops control
          in if rc = 0 then (fd, control) else (None, control))"

text \<open>The commands that are answered whatever the address of the sender.\<close>

definition any_address :: "u8 \<Rightarrow> bool" where
  "any_address command \<longleftrightarrow>
     command = PLDM_QUERY_DEVICE_IDENTIFIERS \<or> command = PLDM_GET_FIRMWARE_PARAMETERS \<or>
     command = PLDM_GET_STATUS \<or> command = PLDM_CANCEL_UPDATE \<or>
     command = PLDM_QUERY_DOWNSTREAM_DEVICES \<or> command = PLDM_QUERY_DOWNSTREAM_IDENTIFIERS \<or>
     command = PLDM_QUERY_DOWNSTREAM_FIRMWARE_PARAMETERS \<or> command = PLDM_REQUEST_UPDATE"

definition fd_dispatch ::
    "'c pldm_fd_ops \<Rightarrow> fd_locals \<Rightarrow> pldm_fd \<Rightarrow> 'c \<Rightarrow> u8 \<Rightarrow> pldm_header_info \<Rightarrow> pldm_msg \<Rightarrow> nat \<Rightarrow>
      pldm_msg \<Rightarrow> nat \<Rightarrow> 'c fd_result" where
  "fd_dispatch ops lo fd ctx address hdr req req_len resp resp_len =
     (let command = hi_command hdr in
      if command = PLDM_QUERY_DEVICE_IDENTIFIERS
      then pldm_fd_qdi ops fd ctx hdr req_len resp resp_len
      else if command = PLDM_GET_FIRMWARE_PARAMETERS
      then pldm_fd_fw_param ops fd ctx hdr req_len resp resp_len
      else if command = PLDM_REQUEST_UPDATE
      then pldm_fd_request_update ops lo fd ctx hdr req req_len resp resp_len address
      else if command = PLDM_PASS_COMPONENT_TABLE
      then pldm_fd_pass_comp ops lo fd ctx hdr req req_len resp resp_len
      else if command = PLDM_UPDATE_COMPONENT
      then pldm_fd_update_comp ops lo fd ctx hdr req req_len resp resp_len
      else if command = PLDM_GET_STATUS
      then pldm_fd_get_status fd ctx hdr req_len resp resp_len
      else if command = PLDM_CANCEL_UPDATE_COMPONENT
      then pldm_fd_cancel_update_comp ops fd ctx hdr req_len resp resp_len
      else if command = PLDM_CANCEL_UPDATE
      then pldm_fd_cancel_update ops fd ctx hdr req_len resp resp_len
      else if command = PLDM_ACTIVATE_FIRMWARE
      then pldm_fd_activate_firmware ops lo fd ctx hdr req req_len resp resp_len
      else with_fd fd ctx (pldm_fd_reply_cc PLDM_ERROR_UNSUPPORTED_PLDM_CMD hdr resp resp_len))"

text \<open>
  A request, from the check of the output buffer on. The result of the handler passes through
  a \<open>uint8_t\<close>. The reply to a wrong address leaves \<open>*out_len\<close> alone.
\<close>

definition fd_handle_request ::
    "'c pldm_fd_ops \<Rightarrow> fd_locals \<Rightarrow> pldm_fd \<Rightarrow> 'c \<Rightarrow> u8 \<Rightarrow> pldm_header_info \<Rightarrow> pldm_msg \<Rightarrow> nat \<Rightarrow>
      pldm_msg \<Rightarrow> nat \<Rightarrow> 'c fd_result" where
  "fd_handle_request ops lo fd ctx remote_address hdr req req_payload_len resp out_len =
     (if out_len < 3 + 1 then Some (- EOVERFLOW, resp, out_len, fd, ctx)
      else
        let resp_payload_len = out_len - 3; command = hi_command hdr in
        if \<not> any_address command \<and> (\<not> fd_ua_address_set fd \<or> remote_address \<noteq> fd_ua_address fd)
        then do {
          (rc, resp, _) \<leftarrow> pldm_fd_reply_cc PLDM_ERROR_NOT_READY hdr resp resp_payload_len;
          Some (rc, resp, out_len, fd, ctx) }
        else do {
          (fd, ctx) \<leftarrow>
            (if command = PLDM_REQUEST_UPDATE \<or> command = PLDM_PASS_COMPONENT_TABLE \<or>
                command = PLDM_UPDATE_COMPONENT \<or> command = PLDM_CANCEL_UPDATE
             then do {
               (now, ctx) \<leftarrow> pldm_fd_now ops ctx;
               Some (fd\<lparr>fd_update_timestamp_fd_t1 := now\<rparr>, ctx) }
             else Some (fd, ctx));
          (rc, resp, len, fd, ctx) \<leftarrow>
            fd_dispatch ops lo fd ctx remote_address hdr req req_payload_len resp resp_payload_len;
          let rc = (word_of_int rc :: u8) in
          Some (uint rc, resp, if rc = 0 then len + 3 else out_len, fd, ctx) })"

definition fd_handle_msg ::
    "'c pldm_fd_ops \<Rightarrow> fd_locals \<Rightarrow> pldm_fd \<Rightarrow> 'c \<Rightarrow> u8 \<Rightarrow> pldm_msg \<Rightarrow> nat \<Rightarrow> pldm_msg \<Rightarrow> nat \<Rightarrow>
      'c fd_result" where
  "fd_handle_msg ops lo fd ctx remote_address req in_len resp out_len =
     (if in_len < 3 then Some (- EOVERFLOW, resp, out_len, fd, ctx)
      else do {
        (rc, hdr) \<leftarrow> unpack_pldm_header (Some (m_hdr req)) header_zero;
        if rc \<noteq> PLDM_SUCCESS then Some (- EINVAL, resp, out_len, fd, ctx)
        else if hi_pldm_type hdr \<noteq> PLDM_FWUP then Some (- ENOMSG, resp, out_len, fd, ctx)
        else if hi_msg_type hdr = PLDM_RESPONSE then do {
          (rc, fd, ctx) \<leftarrow> pldm_fd_handle_resp ops fd ctx remote_address req in_len;
          Some (rc, resp, 0, fd, ctx) }
        else if hi_msg_type hdr \<noteq> PLDM_REQUEST then Some (- EPROTO, resp, out_len, fd, ctx)
        else fd_handle_request ops lo fd ctx remote_address hdr req (in_len - 3) resp out_len })"

text \<open>With the checks for NULL.\<close>

definition pldm_fd_handle_msg ::
    "'c pldm_fd_ops \<Rightarrow> fd_locals \<Rightarrow> pldm_fd option \<Rightarrow> 'c \<Rightarrow> u8 \<Rightarrow> pldm_msg option \<Rightarrow> nat \<Rightarrow>
      pldm_msg option \<Rightarrow> nat option \<Rightarrow>
      (int \<times> pldm_msg option \<times> nat option \<times> pldm_fd option \<times> 'c) option" where
  "pldm_fd_handle_msg ops lo fd ctx remote_address in_msg in_len out_msg out_len =
     (case (fd, in_msg, out_msg, out_len) of
        (Some fd, Some req, Some resp, Some len) \<Rightarrow> do {
          (rc, resp, len, fd, ctx) \<leftarrow> fd_handle_msg ops lo fd ctx remote_address req in_len resp len;
          Some (rc, Some resp, Some len, Some fd, ctx) }
      | _ \<Rightarrow> Some (- EINVAL, out_msg, out_len, fd, ctx))"

text \<open>
  \<open>address\<close>: the object \<open>*address\<close>, \<open>None\<close> for NULL, which is not checked for.
\<close>

definition fd_progress ::
    "'c pldm_fd_ops \<Rightarrow> pldm_fd \<Rightarrow> 'c \<Rightarrow> pldm_msg \<Rightarrow> nat \<Rightarrow> u8 option \<Rightarrow>
      (int \<times> pldm_msg \<times> nat \<times> u8 option \<times> pldm_fd \<times> 'c) option" where
  "fd_progress ops fd ctx req out_len address =
     (if out_len < 3 then Some (- EOVERFLOW, req, out_len, address, fd, ctx)
      else do {
        (rc, req, req_payload_len, fd, ctx) \<leftarrow>
          (case fd_state fd of
             PLDM_FD_STATE_DOWNLOAD \<Rightarrow> pldm_fd_progress_download ops fd ctx req (out_len - 3)
           | PLDM_FD_STATE_VERIFY \<Rightarrow> pldm_fd_progress_verify ops fd ctx req (out_len - 3)
           | PLDM_FD_STATE_APPLY \<Rightarrow> pldm_fd_progress_apply ops fd ctx req (out_len - 3)
           | _ \<Rightarrow> Some (- EINVAL, req, 0, fd, ctx));
        let ua_timeout_check =
          (case fd_state fd of
             PLDM_FD_STATE_DOWNLOAD \<Rightarrow> rq_state (fd_req fd) = PLDM_FD_REQ_SENT
           | PLDM_FD_STATE_VERIFY \<Rightarrow> rq_state (fd_req fd) = PLDM_FD_REQ_SENT
           | PLDM_FD_STATE_APPLY \<Rightarrow> rq_state (fd_req fd) = PLDM_FD_REQ_SENT
           | PLDM_FD_STATE_IDLE \<Rightarrow> False
           | _ \<Rightarrow> True)
        in do {
          (req_payload_len, fd, ctx) \<leftarrow>
            (if ua_timeout_check then do {
               (now, ctx) \<leftarrow> pldm_fd_now ops ctx;
               if now - fd_update_timestamp_fd_t1 fd > fd_t1_timeout fd then do {
                 ctx \<leftarrow> pldm_fd_maybe_cancel_component ops fd ctx;
                 Some (0, pldm_fd_idle_timeout fd, ctx) }
               else Some (req_payload_len, fd, ctx) }
             else Some (req_payload_len, fd, ctx));
          if rc = 0 \<and> fd_ua_address_set fd \<and> req_payload_len > 0 then do {
            _ \<leftarrow> address;
            Some (rc, req, req_payload_len + 3, Some (fd_ua_address fd), fd, ctx) }
          else Some (rc, req, 0, address, fd, ctx) } })"

definition pldm_fd_progress ::
    "'c pldm_fd_ops \<Rightarrow> pldm_fd option \<Rightarrow> 'c \<Rightarrow> pldm_msg option \<Rightarrow> nat option \<Rightarrow> u8 option \<Rightarrow>
      (int \<times> pldm_msg option \<times> nat option \<times> u8 option \<times> pldm_fd option \<times> 'c) option" where
  "pldm_fd_progress ops fd ctx out_msg out_len address =
     (case (fd, out_msg, out_len) of
        (Some fd, Some req, Some len) \<Rightarrow> do {
          (rc, req, len, address, fd, ctx) \<leftarrow> fd_progress ops fd ctx req len address;
          Some (rc, Some req, Some len, address, Some fd, ctx) }
      | _ \<Rightarrow> Some (- EINVAL, out_msg, out_len, address, fd, ctx))"

definition pldm_fd_set_update_idle_timeout :: "pldm_fd option \<Rightarrow> u32 \<Rightarrow> int \<times> pldm_fd option" where
  "pldm_fd_set_update_idle_timeout fd time =
     (case fd of None \<Rightarrow> (- EINVAL, None) | Some fd \<Rightarrow> (0, Some (fd\<lparr>fd_t1_timeout := ucast time\<rparr>)))"

definition pldm_fd_set_request_retry_time :: "pldm_fd option \<Rightarrow> u32 \<Rightarrow> int \<times> pldm_fd option" where
  "pldm_fd_set_request_retry_time fd time =
     (case fd of None \<Rightarrow> (- EINVAL, None) | Some fd \<Rightarrow> (0, Some (fd\<lparr>fd_t2_retry_time := ucast time\<rparr>)))"

end
