(* ===== verification/Fd_Laws.thy ===== *)
theory Fd_Laws
  imports Fd
begin

text \<open>
  Laws of the firmware device responder. \<open>fd_inv\<close> is the invariant of \<open>struct pldm_fd\<close>;
  \<open>app_step\<close> is the protocol in which the device calls the application back, an automaton that
  knows nothing of the device. The locale \<open>fd_client\<close> is the interface between the two: an
  application with a property that holds as long as it is called in that order. Inside the
  locale every handler is shown to return, to answer, to keep the invariant and to follow the
  protocol.
\<close>

section \<open>The version table\<close>

text \<open>The last entry is the checksum of the others.\<close>

lemma fd_versions_crc:
  "pldm_edac_crc32 (concat (map le_of_word (butlast PLDM_FD_VERSIONS)))
     (4 * (length PLDM_FD_VERSIONS - 1)) = Some (last PLDM_FD_VERSIONS)"
  by code_simp

section \<open>What is assumed of the application\<close>

text \<open>
  The callbacks are set, and the arrays they hand out are as long as they say. Nothing is
  assumed of what they do or return otherwise.
\<close>

definition ops_ok :: "'c pldm_fd_ops \<Rightarrow> bool" where
  "ops_ok ops \<longleftrightarrow>
     (\<exists>f. op_device_identifiers ops = Some f \<and>
        (\<forall>ctx n ds ctx'. f ctx = (0, n, Some ds, ctx') \<longrightarrow>
           unat n \<le> length ds \<and> (\<forall>d\<in>set ds. descriptor_ok d))) \<and>
     (\<exists>f. op_components ops = Some f \<and>
        (\<forall>ctx n es ctx'. f ctx = (0, n, es, ctx') \<longrightarrow>
           unat n \<le> length es \<and> (\<forall>e\<in>set es. entry_ok e))) \<and>
     (\<exists>f. op_imageset_versions ops = Some f \<and>
        (\<forall>ctx s t a p ctx'. f ctx s t = (0, a, p, ctx') \<longrightarrow> string_ok a \<and> string_ok p)) \<and>
     op_update_component ops \<noteq> None \<and> op_transfer_size ops \<noteq> None \<and> op_firmware_data ops \<noteq> None \<and>
     op_verify ops \<noteq> None \<and> op_apply ops \<noteq> None \<and> op_activate ops \<noteq> None \<and>
     op_cancel_update_component ops \<noteq> None \<and> op_now ops \<noteq> None"

section \<open>The protocol of the callbacks\<close>

datatype fd_event =
    Ev_pass pldm_firmware_update_component u8
  | Ev_update pldm_firmware_update_component u8
  | Ev_data u32 "u8 list" pldm_firmware_update_component u8
  | Ev_verify pldm_firmware_update_component u8 bool
  | Ev_apply pldm_firmware_update_component u8 bool
  | Ev_cancel pldm_firmware_update_component
  | Ev_activate u8

text \<open>
  What the application knows: no component is being updated; a component has been accepted and
  so many bytes of its image were delivered; it has been verified; or it has failed and waits
  to be cancelled.
\<close>

datatype app_state =
    App_none
  | App_loading pldm_firmware_update_component nat
  | App_verified pldm_firmware_update_component
  | App_failed pldm_firmware_update_component

fun app_step :: "fd_event \<Rightarrow> app_state \<Rightarrow> app_state option" where
  "app_step (Ev_pass c res) App_none = Some App_none"
| "app_step (Ev_update c res) App_none = Some (if res = 0 then App_loading c 0 else App_none)"
| "app_step (Ev_data off bytes c res) (App_loading c' n) =
     (if c' = c \<and> unat off = n \<and> n + length bytes \<le> unat (cm_image_size c)
      then Some (if res = 0 then App_loading c (n + length bytes) else App_failed c) else None)"
| "app_step (Ev_verify c res pending) (App_loading c' n) =
     (if c' = c \<and> n = unat (cm_image_size c)
      then Some (if res = 0 then if pending then App_loading c n else App_verified c
                 else App_failed c) else None)"
| "app_step (Ev_apply c res pending) (App_verified c') =
     (if c' = c
      then Some (if res = 0 \<and> pending then App_verified c
                 else if (res = 0 \<or> res = 1) \<and> \<not> pending then App_none else App_failed c)
      else None)"
| "app_step (Ev_cancel c) (App_loading c' n) = (if c' = c then Some App_none else None)"
| "app_step (Ev_cancel c) (App_verified c') = (if c' = c then Some App_none else None)"
| "app_step (Ev_cancel c) (App_failed c') = (if c' = c then Some App_none else None)"
| "app_step (Ev_activate res) App_none = Some App_none"
| "app_step _ _ = None"

text \<open>What the device must believe the application knows.\<close>

definition app_view :: "pldm_fd \<Rightarrow> app_state \<Rightarrow> bool" where
  "app_view fd s \<longleftrightarrow>
     (let c = fd_update_comp fd; rq = fd_req fd in
      case fd_state fd of
        PLDM_FD_STATE_DOWNLOAD \<Rightarrow>
          if rq_complete rq \<and> rq_result rq \<noteq> 0
          then s = App_failed c \<or> (\<exists>n. s = App_loading c n)
          else s = App_loading c (unat (fd_specific fd)) \<and>
               (rq_complete rq \<longrightarrow> fd_specific fd = cm_image_size c)
      | PLDM_FD_STATE_VERIFY \<Rightarrow>
          s = (if \<not> rq_complete rq then App_loading c (unat (cm_image_size c))
               else if rq_result rq = 0 then App_verified c else App_failed c)
      | PLDM_FD_STATE_APPLY \<Rightarrow>
          s = (if \<not> rq_complete rq then App_verified c
               else if rq_result rq = 0 then App_none else App_failed c)
      | _ \<Rightarrow> s = App_none)"

section \<open>The invariant of the device\<close>

definition component_active :: "pldm_firmware_device_states \<Rightarrow> bool" where
  "component_active st \<longleftrightarrow> st = PLDM_FD_STATE_DOWNLOAD \<or> st = PLDM_FD_STATE_VERIFY \<or>
     st = PLDM_FD_STATE_APPLY"

definition fd_inv :: "pldm_fd \<Rightarrow> bool" where
  "fd_inv fd \<longleftrightarrow>
     fd_state fd \<noteq> PLDM_FD_STATE_ACTIVATE \<and>
     (fd_ua_address_set fd \<longleftrightarrow> fd_state fd \<noteq> PLDM_FD_STATE_IDLE) \<and>
     (component_active (fd_state fd) \<longrightarrow> rq_state (fd_req fd) \<noteq> PLDM_FD_REQ_UNUSED) \<and>
     (fd_state fd = PLDM_FD_STATE_DOWNLOAD \<longrightarrow> fd_specific fd \<le> cm_image_size (fd_update_comp fd)) \<and>
     (fd_state fd \<noteq> PLDM_FD_STATE_IDLE \<longrightarrow> PLDM_FWUP_BASELINE_TRANSFER_SIZE \<le> fd_max_transfer fd) \<and>
     (fd_state fd = PLDM_FD_STATE_VERIFY \<or> fd_state fd = PLDM_FD_STATE_APPLY \<longrightarrow>
        rq_state (fd_req fd) = PLDM_FD_REQ_SENT \<longrightarrow> rq_complete (fd_req fd)) \<and>
     (rq_state (fd_req fd) = PLDM_FD_REQ_SENT \<longrightarrow>
        rq_command (fd_req fd) \<in> {PLDM_REQUEST_FIRMWARE_DATA, PLDM_TRANSFER_COMPLETE,
                                  PLDM_VERIFY_COMPLETE, PLDM_APPLY_COMPLETE}) \<and>
     rq_instance_id (fd_req fd) \<le> PLDM_INSTANCE_MAX"

section \<open>Replies\<close>

text \<open>
  A request was answered: the call succeeds with a response to the request's command and
  instance that has at least a completion code and fits the buffer.
\<close>

definition answered :: "pldm_header_info \<Rightarrow> pldm_msg \<Rightarrow> nat \<Rightarrow> int \<times> pldm_msg \<times> nat \<Rightarrow> bool" where
  "answered hdr resp n r \<longleftrightarrow>
     (case r of (rc, resp', len) \<Rightarrow>
        rc = 0 \<and> 1 \<le> len \<and> len \<le> n \<and>
        m_hdr resp' = wire_hdr PLDM_RESPONSE (hi_instance hdr) PLDM_FWUP (hi_command hdr) \<and>
        m_addr resp' = m_addr resp \<and> length (m_payload resp') = length (m_payload resp))"

lemma reply_cc_sent:
  assumes "hi_instance hdr \<le> PLDM_INSTANCE_MAX" "msg_holds n resp" "1 \<le> n"
  shows "pldm_fd_reply_cc cc hdr resp n =
    Some (0, sent (wire_hdr PLDM_RESPONSE (hi_instance hdr) PLDM_FWUP (hi_command hdr)) [cc] resp, 1)"
  using assms
  by (auto simp: pldm_fd_reply_cc_def encode_cc_only_resp_def msg_pack_wire_hdr put_bytes_def
      msg_holds_def sent_def header_zero_def)

lemma sent_answered:
  assumes "msg_holds n resp" "1 \<le> length bs" "length bs \<le> n"
  shows "answered hdr resp n (0, sent (wire_hdr PLDM_RESPONSE (hi_instance hdr) PLDM_FWUP
    (hi_command hdr)) bs resp, length bs)"
  using assms by (simp add: answered_def sent_def msg_holds_def)

text \<open>The completion code an error is reported with.\<close>

definition errno_cc :: "int \<Rightarrow> u8" where
  "errno_cc err =
     (if err = - EPROTO then PLDM_ERROR_INVALID_DATA
      else if err = - EOVERFLOW \<or> err = - EBADMSG then PLDM_ERROR_INVALID_LENGTH else PLDM_ERROR)"

lemma reply_errno_cc:
  "err < 0 \<Longrightarrow> pldm_fd_reply_errno err hdr resp n = pldm_fd_reply_cc (errno_cc err) hdr resp n"
  by (simp add: pldm_fd_reply_errno_def errno_cc_def)

text \<open>
  The outcome of a request handler: it answers, and \<open>P\<close> holds of the completion code it
  answers with and of the state it leaves.
\<close>

definition fd_post ::
    "(u8 \<Rightarrow> pldm_fd \<Rightarrow> 'c \<Rightarrow> bool) \<Rightarrow> pldm_header_info \<Rightarrow> pldm_msg \<Rightarrow> nat \<Rightarrow>
      int \<times> pldm_msg \<times> nat \<times> pldm_fd \<times> 'c \<Rightarrow> bool" where
  "fd_post P hdr resp n r \<longleftrightarrow>
     (case r of (rc, resp', len, fd, ctx) \<Rightarrow>
        answered hdr resp n (rc, resp', len) \<and> P (m_payload resp' ! 0) fd ctx)"

lemma returns_Some: "Q v \<Longrightarrow> returns Q (Some v)"
  by (simp add: returns_def)

lemma returns_bind: "returns (\<lambda>v. returns Q (f v)) x \<Longrightarrow> returns Q (x \<bind> f)"
  by (auto simp: returns_def)

lemma returns_mono: "returns Q x \<Longrightarrow> (\<And>v. Q v \<Longrightarrow> R v) \<Longrightarrow> returns R x"
  by (auto simp: returns_def)

lemma sent_nth_0: "msg_holds n resp \<Longrightarrow> m_payload (sent h (c # bs) resp) ! 0 = c"
  by (simp add: sent_def poke_def)

text \<open>An error reply may be written over what a failed encoder left behind.\<close>

lemma reply_cc_post:
  assumes "hi_instance hdr \<le> PLDM_INSTANCE_MAX" "msg_holds n resp" "1 \<le> n" "P cc fd ctx"
    and "m_addr resp = m_addr resp0" "length (m_payload resp) = length (m_payload resp0)"
  shows "returns (fd_post P hdr resp0 n) (with_fd fd ctx (pldm_fd_reply_cc cc hdr resp n))"
  using sent_answered [OF assms(2), of "[cc]" hdr] assms sent_nth_0 [OF assms(2), of _ cc "[]"]
  by (simp add: with_fd_def reply_cc_sent returns_def fd_post_def answered_def)

lemma reply_errno_post:
  assumes "hi_instance hdr \<le> PLDM_INSTANCE_MAX" "msg_holds n resp" "1 \<le> n" "P (errno_cc err) fd ctx"
    and "m_addr resp = m_addr resp0" "length (m_payload resp) = length (m_payload resp0)" "err < 0"
  shows "returns (fd_post P hdr resp0 n) (with_fd fd ctx (pldm_fd_reply_errno err hdr resp n))"
  unfolding reply_errno_cc [OF assms(7)] by (rule reply_cc_post) (fact assms)+

lemma respond_post:
  assumes enc: "message_encoder enc (wire_hdr PLDM_RESPONSE (hi_instance hdr) PLDM_FWUP (hi_command hdr))
      (PLDM_SUCCESS # bs)"
    and inst: "hi_instance hdr \<le> PLDM_INSTANCE_MAX" and n: "msg_holds n resp" "1 \<le> n"
    and ok: "returns (\<lambda>(fd, ctx). P PLDM_SUCCESS fd ctx) ok"
    and bad: "returns (\<lambda>(fd, ctx). P PLDM_ERROR_INVALID_LENGTH fd ctx) bad"
  shows "returns (fd_post P hdr resp n) (respond hdr enc resp n ok bad)"
proof (rule message_encoder.encoded_cases [OF enc n(1)], goal_cases)
  case written: 1
  obtain fd ctx where "ok = Some (fd, ctx)" "P PLDM_SUCCESS fd ctx" using ok by (auto simp: returns_def)
  with written show ?thesis
    using sent_answered [OF n(1), of "PLDM_SUCCESS # bs" hdr] sent_nth_0 [OF n(1)]
    by (simp add: respond_def returns_def fd_post_def)
next
  case full: (2 p)
  obtain fd ctx where bad': "bad = Some (fd, ctx)" "P PLDM_ERROR_INVALID_LENGTH fd ctx"
    using bad by (auto simp: returns_def)
  let ?r = "resp\<lparr>m_hdr := wire_hdr PLDM_RESPONSE (hi_instance hdr) PLDM_FWUP (hi_command hdr),
    m_payload := p\<rparr>"
  have "returns (fd_post P hdr resp n) (with_fd fd ctx (pldm_fd_reply_errno (- EOVERFLOW) hdr ?r n))"
    using inst n bad' full(2) by (intro reply_errno_post msg_holds_upd) (simp_all add: errno_cc_def)
  then show ?thesis using full(3) bad' by (simp add: respond_def)
qed

section \<open>The interface to the application\<close>

text \<open>The device is well formed and the application where the device believes it to be.\<close>

definition fd_good :: "(app_state \<Rightarrow> 'c \<Rightarrow> bool) \<Rightarrow> pldm_fd \<Rightarrow> 'c \<Rightarrow> bool" where
  "fd_good J fd ctx \<longleftrightarrow> fd_inv fd \<and> (\<exists>s. app_view fd s \<and> J s ctx)"

text \<open>
  \<open>J s\<close> is a property of the application's context that holds while the calls so far have led
  the protocol to \<open>s\<close>: every callback keeps it, provided the protocol allows the call.
\<close>

locale fd_client =
  fixes ops :: "'c pldm_fd_ops" and J :: "app_state \<Rightarrow> 'c \<Rightarrow> bool"
  assumes J_identifiers: "op_device_identifiers ops = Some f1 \<Longrightarrow> J s ctx \<Longrightarrow>
      f1 ctx = (rc, n8, ds, ctx') \<Longrightarrow> J s ctx'"
    and J_components: "op_components ops = Some f2 \<Longrightarrow> J s ctx \<Longrightarrow>
      f2 ctx = (rc, n16, es, ctx') \<Longrightarrow> J s ctx'"
    and J_imageset: "op_imageset_versions ops = Some f3 \<Longrightarrow> J s ctx \<Longrightarrow>
      f3 ctx v v' = (rc, a, p, ctx') \<Longrightarrow> J s ctx'"
    and J_update: "op_update_component ops = Some f4 \<Longrightarrow> J s ctx \<Longrightarrow> f4 ctx u c = (res, ctx') \<Longrightarrow>
      app_step (if u then Ev_update c res else Ev_pass c res) s = Some s' \<Longrightarrow> J s' ctx'"
    and J_transfer_size: "op_transfer_size ops = Some f5 \<Longrightarrow> J s ctx \<Longrightarrow>
      f5 ctx m = (k, ctx') \<Longrightarrow> J s ctx'"
    and J_data: "op_firmware_data ops = Some f6 \<Longrightarrow> J s ctx \<Longrightarrow>
      f6 ctx off bytes len c = (res, ctx') \<Longrightarrow> app_step (Ev_data off bytes c res) s = Some s' \<Longrightarrow>
      unat len = length bytes \<Longrightarrow> J s' ctx'"
    and J_verify: "op_verify ops = Some f7 \<Longrightarrow> J s ctx \<Longrightarrow>
      f7 ctx c False pct = (res, pending, pct', ctx') \<Longrightarrow>
      app_step (Ev_verify c res pending) s = Some s' \<Longrightarrow> J s' ctx'"
    and J_apply: "op_apply ops = Some f8 \<Longrightarrow> J s ctx \<Longrightarrow>
      f8 ctx c False pct = (res, pending, pct', ctx') \<Longrightarrow>
      app_step (Ev_apply c res pending) s = Some s' \<Longrightarrow> J s' ctx'"
    and J_activate: "op_activate ops = Some f9 \<Longrightarrow> J s ctx \<Longrightarrow>
      f9 ctx self_contained 0 = (res, time, ctx') \<Longrightarrow> app_step (Ev_activate res) s = Some s' \<Longrightarrow>
      J s' ctx'"
    and J_cancel: "op_cancel_update_component ops = Some f10 \<Longrightarrow> J s ctx \<Longrightarrow>
      app_step (Ev_cancel c) s = Some s' \<Longrightarrow> J s' (f10 ctx c)"
    and J_now: "op_now ops = Some f11 \<Longrightarrow> J s ctx \<Longrightarrow> f11 ctx = (now, ctx') \<Longrightarrow> J s ctx'"
begin

abbreviation good :: "pldm_fd \<Rightarrow> 'c \<Rightarrow> bool" where
  "good \<equiv> fd_good J"

lemma now_good:
  assumes "ops_ok ops" "good fd ctx"
  obtains now ctx' where "pldm_fd_now ops ctx = Some (now, ctx')" "good fd ctx'"
proof -
  obtain f now ctx' where "op_now ops = Some f" "f ctx = (now, ctx')"
    using assms(1) by (fastforce simp: ops_ok_def)
  with assms(2) J_now that show thesis by (force simp: pldm_fd_now_def fd_good_def)
qed

end

section \<open>Handlers\<close>

text \<open>
  The transitions each command may cause, against the completion code it is answered with.
  \<open>ActivateFirmware\<close> passes through the activate state, which shows as the previous one.
\<close>

definition fd_moves :: "u8 \<Rightarrow> u8 \<Rightarrow> pldm_fd \<Rightarrow> pldm_fd \<Rightarrow> bool" where
  "fd_moves cmd cc fd fd' \<longleftrightarrow>
     (if cmd = PLDM_REQUEST_UPDATE \<and> cc = PLDM_SUCCESS
      then fd_state fd = PLDM_FD_STATE_IDLE \<and> fd_state fd' = PLDM_FD_STATE_LEARN_COMPONENTS
      else if cmd = PLDM_PASS_COMPONENT_TABLE \<and> cc = PLDM_SUCCESS
      then fd_state fd = PLDM_FD_STATE_LEARN_COMPONENTS \<and>
           (fd_state fd' = PLDM_FD_STATE_LEARN_COMPONENTS \<or> fd_state fd' = PLDM_FD_STATE_READY_XFER)
      else if cmd = PLDM_UPDATE_COMPONENT \<and> cc = PLDM_SUCCESS
      then fd_state fd = PLDM_FD_STATE_READY_XFER \<and>
           (fd_state fd' = PLDM_FD_STATE_READY_XFER \<or> fd_state fd' = PLDM_FD_STATE_DOWNLOAD)
      else if cmd = PLDM_CANCEL_UPDATE_COMPONENT \<and> cc = PLDM_SUCCESS
      then component_active (fd_state fd) \<and> fd_state fd' = PLDM_FD_STATE_READY_XFER
      else if cmd = PLDM_CANCEL_UPDATE \<and> cc = PLDM_SUCCESS
      then fd_state fd \<noteq> PLDM_FD_STATE_IDLE \<and> fd_state fd' = PLDM_FD_STATE_IDLE \<and>
           fd_reason fd' = PLDM_FD_CANCEL_UPDATE
      else if cmd = PLDM_ACTIVATE_FIRMWARE \<and> (cc = PLDM_SUCCESS \<or> fd_state fd' \<noteq> fd_state fd)
      then fd_state fd = PLDM_FD_STATE_READY_XFER \<and> fd_state fd' = PLDM_FD_STATE_IDLE \<and>
           fd_prev_state fd' = PLDM_FD_STATE_ACTIVATE \<and> fd_reason fd' = PLDM_FD_ACTIVATE_FW
      else fd_state fd' = fd_state fd \<and> fd_prev_state fd' = fd_prev_state fd)"

lemma errno_cc_neq_0 [simp]: "errno_cc err \<noteq> 0"
  by (simp add: errno_cc_def)

text \<open>A refused command moves nothing.\<close>

lemma fd_moves_refused: "cc \<noteq> PLDM_SUCCESS \<Longrightarrow> fd_moves cmd cc fd fd"
  by (simp add: fd_moves_def)

lemma errno_post_refused:
  assumes "hi_instance hdr \<le> PLDM_INSTANCE_MAX" "msg_holds n resp" "1 \<le> n" "err < 0" "good fd ctx"
  shows "returns (fd_post (\<lambda>cc fd' ctx'. good fd' ctx' \<and> fd_moves cmd cc fd fd') hdr resp n)
    (with_fd fd ctx (pldm_fd_reply_errno err hdr resp n))"
  using assms by (intro reply_errno_post) (simp_all add: fd_moves_refused)

text \<open>A decoder's result, as the handlers look at it.\<close>

lemma decodedE:
  assumes "returns decoded x"
  obtains rc v where "x = Some (rc, Some v)" "rc = 0 \<or> rc < 0"
proof -
  obtain rc v where "x = Some (rc, Some v)" "rc \<le> 0"
    using assms by (auto simp: returns_def decoded_def)
  then show thesis using that by (cases "rc = 0") auto
qed

context fd_client
begin

lemma components_good:
  assumes "ops_ok ops" "J s ctx"
  obtains f rc n es ctx' where "op_components ops = Some f" "f ctx = (rc, n, es, ctx')" "J s ctx'"
    "rc = 0 \<Longrightarrow> unat n \<le> length es \<and> (\<forall>e\<in>set es. entry_ok e)"
proof -
  obtain f where f: "op_components ops = Some f"
      "\<And>ctx n es ctx'. f ctx = (0, n, es, ctx') \<Longrightarrow> unat n \<le> length es \<and> (\<forall>e\<in>set es. entry_ok e)"
    using assms(1) unfolding ops_ok_def by blast
  obtain rc n es ctx' where c: "f ctx = (rc, n, es, ctx')" by (cases "f ctx") auto
  show thesis by (rule that [OF f(1) c J_components [OF f(1) assms(2) c]]) (use f(2) c in blast)
qed

lemma qdi_post:
  assumes ok: "ops_ok ops" and good: "good fd ctx" and inst: "hi_instance hdr \<le> PLDM_INSTANCE_MAX"
    and n: "msg_holds n resp" "1 \<le> n" and cmd: "hi_command hdr = PLDM_QUERY_DEVICE_IDENTIFIERS"
  shows "returns (fd_post (\<lambda>_ fd' ctx'. good fd' ctx' \<and> fd' = fd) hdr resp n)
    (pldm_fd_qdi ops fd ctx hdr k resp n)"
proof (cases "k = 0")
  case False
  then have "pldm_fd_qdi ops fd ctx hdr k resp n =
      with_fd fd ctx (pldm_fd_reply_cc PLDM_ERROR_INVALID_LENGTH hdr resp n)"
    by (simp add: pldm_fd_qdi_def)
  then show ?thesis using good by (simp add: reply_cc_post [OF inst n])
next
  case True
  obtain f where f: "op_device_identifiers ops = Some f"
      "\<And>ctx n ds ctx'. f ctx = (0, n, Some ds, ctx') \<Longrightarrow>
         unat n \<le> length ds \<and> (\<forall>d\<in>set ds. descriptor_ok d)"
    using ok unfolding ops_ok_def by blast
  obtain rc cnt ds ctx' where c: "f ctx = (rc, cnt, ds, ctx')" by (cases "f ctx") auto
  have good': "good fd ctx'" using good J_identifiers [OF f(1) _ c] by (auto simp: fd_good_def)
  let ?r = "returns (fd_post (\<lambda>_ fd' ctx'. good fd' ctx' \<and> fd' = fd) hdr resp n)"
  have qdi: "pldm_fd_qdi ops fd ctx hdr k resp n =
      (if rc \<noteq> 0 then with_fd fd ctx' (pldm_fd_reply_cc PLDM_ERROR hdr resp n)
       else respond hdr (encode_query_device_identifiers_resp (hi_instance hdr) cnt ds) resp n
              (Some (fd, ctx')) (Some (fd, ctx')))"
    using True f(1) c by (simp add: pldm_fd_qdi_def)
  have einval: "?r (respond hdr (encode_query_device_identifiers_resp (hi_instance hdr) cnt ds) resp n
      (Some (fd, ctx')) (Some (fd, ctx')))"
    if "encode_query_device_identifiers_resp (hi_instance hdr) cnt ds (Some resp) (Some n) =
        Some (err, Some resp', Some n)" "err < 0" "m_addr resp' = m_addr resp"
      "length (m_payload resp') = length (m_payload resp)" for err resp'
    using that good' n by (simp add: respond_def reply_errno_post [OF inst _ n(2)] msg_holds_def)
  consider "rc \<noteq> 0" | "rc = 0" "ds = None \<or> cnt = 0"
    | d where "rc = 0" "ds = Some d" "cnt \<noteq> 0" "\<exists>x\<in>set (take (unat cnt) d). descriptor_data x = None"
    | d where "rc = 0" "ds = Some d" "cnt \<noteq> 0" "\<forall>x\<in>set (take (unat cnt) d). descriptor_data x \<noteq> None"
    by (cases "rc = 0"; cases ds; cases "\<exists>x\<in>set (take (unat cnt) (the ds)). descriptor_data x = None")
      (auto simp del: not_None_eq)
  then show ?thesis
  proof cases
    case 1
    then show ?thesis using good' by (simp add: qdi reply_cc_post [OF inst n])
  next
    case 2
    then have "encode_query_device_identifiers_resp (hi_instance hdr) cnt ds (Some resp) (Some n) =
        Some (- EINVAL, Some resp, Some n)"
      by (auto simp: encode_query_device_identifiers_resp_def split: option.splits)
    from einval [OF this] 2 show ?thesis by (simp add: qdi)
  next
    case (3 d)
    have "1 \<le> cnt" using 3(3) by (simp add: word_le_nat_alt Suc_le_eq unat_gt_0)
    moreover have d: "unat cnt \<le> length d" "\<forall>x\<in>set (take (unat cnt) d). descriptor_ok x"
      using f(2) c 3(1,2) by (auto dest: in_set_takeD)
    ultimately obtain err p where e: "err < 0" "length p = length (m_payload resp)"
        "encode_query_device_identifiers_resp (hi_instance hdr) cnt (Some d) (Some resp) (Some n) =
           Some (err, Some (resp\<lparr>m_hdr := wire_hdr PLDM_RESPONSE (hi_instance hdr) PLDM_FWUP
             PLDM_QUERY_DEVICE_IDENTIFIERS, m_payload := p\<rparr>), Some n)"
      using query_device_identifiers_missing [OF inst _ _ n(1) _ 3(4)] by blast
    then show ?thesis using 3(1,2) einval [OF e(3) [folded 3(2)] e(1)] by (simp add: qdi)
  next
    case (4 d)
    have "1 \<le> cnt" using 4(3) by (simp add: word_le_nat_alt Suc_le_eq unat_gt_0)
    moreover have d: "unat cnt \<le> length d" "\<forall>x\<in>set d. descriptor_ok x" using f(2) c 4 by auto
    moreover have "\<forall>x\<in>set (take (unat cnt) d). descriptor_ok x \<and> descriptor_data x \<noteq> None"
      using d(2) 4(4) by (auto dest: in_set_takeD)
    ultimately have "message_encoder
        (encode_query_device_identifiers_resp (hi_instance hdr) cnt ds)
        (wire_hdr PLDM_RESPONSE (hi_instance hdr) PLDM_FWUP (hi_command hdr))
        (identifiers_bytes (take (unat cnt) d))"
      using query_device_identifiers_encoder [OF inst] 4(2) cmd by simp
    then show ?thesis
      using 4(1) good'
      by (simp add: qdi, intro respond_post [OF _ inst n])
        (auto simp: identifiers_bytes_def returns_def)
  qed
qed

end

section \<open>GetFirmwareParameters\<close>

lemma peek_live:
  "0 \<le> r \<Longrightarrow> c \<le> length m \<Longrightarrow>
     pldm_msgbuf_peek_remaining (live_mb a m c r) = (0, Some (c, nat r), live_mb a m c r)"
  by (simp add: pldm_msgbuf_peek_remaining_def live_mb_step)

lemma poke_drop: "off \<le> length p \<Longrightarrow> take off p @ poke (drop off p) 0 bs = poke p off bs"
  by (simp add: poke_def add.commute)

lemma errno_reply_live:
  assumes "hi_instance hdr \<le> PLDM_INSTANCE_MAX" "msg_holds n resp" "1 \<le> n" "err < 0"
  shows "(do { (rc, resp, len) \<leftarrow> pldm_fd_reply_errno err hdr resp n;
               let (rc, b) = pldm__msgbuf_discard (live_mb a m c r) rc in mb_exit b (f rc resp len) }) =
    Some (f 0 (sent (wire_hdr PLDM_RESPONSE (hi_instance hdr) PLDM_FWUP (hi_command hdr))
                 [errno_cc err] resp) 1)"
  using assms by (simp add: reply_errno_cc reply_cc_sent mb_simps)

text \<open>
  The loop writes the entries one after the other; when one does not fit, the answer is an
  error in their place.
\<close>

lemma fw_param_entries_run:
  assumes "unat_cnt \<le> length es" "\<forall>e\<in>set es. entry_ok e" "off \<le> n" "length m = length (m_payload resp)"
    and inst: "hi_instance hdr \<le> PLDM_INSTANCE_MAX" and n: "msg_holds n resp" "1 \<le> n"
    and "bs = concat (map entry_bytes (take unat_cnt es))"
  shows "if off + length bs \<le> n
    then fw_param_entries hdr n unat_cnt es resp (live_mb a m off (int n - int off)) =
      Some (Inr (resp\<lparr>m_payload := poke (m_payload resp) off bs\<rparr>,
                 live_mb a m (off + length bs) (int n - int (off + length bs))))
    else \<exists>p. length p = length (m_payload resp) \<and>
      fw_param_entries hdr n unat_cnt es resp (live_mb a m off (int n - int off)) =
        Some (Inl (0, sent (wire_hdr PLDM_RESPONSE (hi_instance hdr) PLDM_FWUP (hi_command hdr))
                        [PLDM_ERROR_INVALID_LENGTH] (resp\<lparr>m_payload := p\<rparr>), 1))"
  using assms
proof (induction unat_cnt arbitrary: es resp off bs)
  case 0
  then show ?case by simp
next
  case (Suc k)
  then obtain e es' where es: "es = e # es'" by (cases es) auto
  let ?p = "drop off (m_payload resp)" and ?bs = "concat (map entry_bytes (take k es'))"
  have m: "n \<le> length (m_payload resp)" "length (m_payload resp) \<le> SSIZE_MAX"
      "m_addr resp + length (m_payload resp) \<le> UINTPTR_MAX"
    using Suc.prems(6) by (simp_all add: msg_holds_def)
  have w: "payload_writer (ins_comp_entry e) (entry_bytes e)"
    using Suc.prems(2) es by (intro ins_comp_entry_writer) simp
  have fits: "mb_fill (ins_comp_entry e) (m_addr resp + off) ?p (n - off) =
      Some (0, poke ?p 0 (entry_bytes e), length (entry_bytes e))" if "off + length (entry_bytes e) \<le> n"
    using that m Suc.prems(3) by (intro mb_fill_fits [OF w]) auto
  have peek: "pldm_msgbuf_peek_remaining (live_mb a m off (int n - int off)) =
      (0, Some (off, n - off), live_mb a m off (int n - int off))"
    using Suc.prems(3,4) m by (subst peek_live) (auto simp: nat_diff_distrib)
  show ?case
  proof (cases "off + length (entry_bytes e) \<le> n")
    case True
    let ?resp = "resp\<lparr>m_payload := poke (m_payload resp) off (entry_bytes e)\<rparr>"
    let ?off = "off + length (entry_bytes e)"
    have skip: "pldm_msgbuf_skip (live_mb a m off (int n - int off)) (length (entry_bytes e)) =
        (0, live_mb a m ?off (int n - int ?off))"
      using True m Suc.prems(3,4) by (subst skip_live) (auto simp: algebra_simps)
    have len: "length (m_payload ?resp) = length (m_payload resp)" using True m by simp
    have step: "fw_param_entries hdr n (Suc k) es resp (live_mb a m off (int n - int off)) =
        fw_param_entries hdr n k es' ?resp (live_mb a m ?off (int n - int ?off))"
      using True m Suc.prems(3)
      by (simp add: es peek comp_entry_fill fits skip poke_drop)
    have IH: "if ?off + length ?bs \<le> n
      then fw_param_entries hdr n k es' ?resp (live_mb a m ?off (int n - int ?off)) =
        Some (Inr (?resp\<lparr>m_payload := poke (m_payload ?resp) ?off ?bs\<rparr>,
                   live_mb a m (?off + length ?bs) (int n - int (?off + length ?bs))))
      else \<exists>p. length p = length (m_payload ?resp) \<and>
        fw_param_entries hdr n k es' ?resp (live_mb a m ?off (int n - int ?off)) =
          Some (Inl (0, sent (wire_hdr PLDM_RESPONSE (hi_instance hdr) PLDM_FWUP (hi_command hdr))
                          [PLDM_ERROR_INVALID_LENGTH] (?resp\<lparr>m_payload := p\<rparr>), 1))"
      using Suc.prems es True len by (intro Suc.IH) (auto simp: msg_holds_def)
    have bs: "bs = entry_bytes e @ ?bs" "off + length bs = ?off + length ?bs"
      using Suc.prems(8) es by simp_all
    have poke: "poke (m_payload ?resp) ?off ?bs = poke (m_payload resp) off bs"
      using True m by (simp add: poke_poke bs(1))
    show ?thesis
    proof (cases "?off + length ?bs \<le> n")
      case fit: True
      with IH show ?thesis unfolding step bs(2) poke by simp
    next
      case nofit: False
      with IH len show ?thesis unfolding step bs(2) by simp
    qed
  next
    case False
    have "n - off < length (entry_bytes e)" "n - off \<le> length ?p" "length ?p \<le> SSIZE_MAX"
        "m_addr resp + off + length ?p \<le> UINTPTR_MAX"
      using False m Suc.prems(3) by auto
    from mb_fill_short [OF w this]
    obtain p where p: "mb_fill (ins_comp_entry e) (m_addr resp + off) ?p (n - off) =
        Some (- EOVERFLOW, p, n - off)" "length p = length ?p"
      by blast
    let ?q = "take off (m_payload resp) @ p"
    have q: "length ?q = length (m_payload resp)" using p(2) m Suc.prems(3) by simp
    have "fw_param_entries hdr n (Suc k) es resp (live_mb a m off (int n - int off)) =
        Some (Inl (0, sent (wire_hdr PLDM_RESPONSE (hi_instance hdr) PLDM_FWUP (hi_command hdr))
          [PLDM_ERROR_INVALID_LENGTH] (resp\<lparr>m_payload := ?q\<rparr>), 1))"
      using errno_reply_live [OF inst, of n "resp\<lparr>m_payload := ?q\<rparr>" "- EOVERFLOW" a m off
          "int n - int off" "\<lambda>rc resp len. Inl (rc, resp, len)"] q Suc.prems(6,7)
      by (simp add: es peek comp_entry_fill p errno_cc_def msg_holds_def)
    moreover have "\<not> off + length bs \<le> n" using False Suc.prems(8) es by simp
    ultimately show ?thesis using q by (simp only: if_False) blast
  qed
qed

definition zero_string :: pldm_firmware_string where
  "zero_string = \<lparr>str_type = 0, str_len = 0, str_data = replicate PLDM_FIRMWARE_MAX_STRING 0\<rparr>"

definition fd_parameters ::
    "u16 \<Rightarrow> pldm_firmware_string \<Rightarrow> pldm_firmware_string \<Rightarrow> firmware_parameters_resp" where
  "fd_parameters cnt active pending =
     \<lparr>fp_completion_code = PLDM_SUCCESS, fp_capabilities = 0, fp_comp_count = cnt,
      fp_active_ver = active, fp_pending_ver = pending\<rparr>"

lemma fw_param_unfold:
  assumes "op_components ops = Some f" "f ctx = (0, cnt, es, ctx1)"
    "op_imageset_versions ops = Some g" "g ctx1 zero_string zero_string = (rc, active, pending, ctx2)"
    and n: "msg_holds n resp"
  shows "pldm_fd_fw_param ops fd ctx hdr 0 resp n =
    (let b = live_mb (m_addr resp) (m_payload resp) 0 (int n) in
     if rc \<noteq> 0 then do {
       (rc, resp, len) \<leftarrow> pldm_fd_reply_cc PLDM_ERROR hdr resp n;
       let (rc, b) = pldm__msgbuf_discard b rc in mb_exit b (rc, resp, len, fd, ctx2) }
     else do {
       (rc, r, l) \<leftarrow> encode_get_firmware_parameters_resp (hi_instance hdr)
                      (Some (fd_parameters cnt active pending)) (Some resp) (Some n);
       resp \<leftarrow> r; l \<leftarrow> l;
       if rc \<noteq> 0 then do {
         (rc, resp, len) \<leftarrow> pldm_fd_reply_errno rc hdr resp n;
         let (rc, b) = pldm__msgbuf_discard b rc in mb_exit b (rc, resp, len, fd, ctx2) }
       else
         let (rc, b) = pldm_msgbuf_skip b l in
         if rc \<noteq> 0 then
           let (rc, b) = pldm__msgbuf_discard b rc in mb_exit b (rc, resp, n, fd, ctx2)
         else do {
           s \<leftarrow> fw_param_entries hdr n (unat cnt) es resp b;
           case s of
             Inl (rc, resp, len) \<Rightarrow> Some (rc, resp, len, fd, ctx2)
           | Inr (resp, b) \<Rightarrow>
               let (rc, len, b) = pldm_msgbuf_complete_used b n n
               in mb_exit b (rc, resp, len, fd, ctx2) } })"
proof -
  have "pldm__msgbuf_init_errno 0 (m_addr resp) (m_payload resp) n =
      (0, live_mb (m_addr resp) (m_payload resp) 0 (int n))"
    using n by (intro init_errno_live) (auto simp: msg_holds_def)
  then show ?thesis
    using assms(1-4) by (simp add: pldm_fd_fw_param_def zero_string_def fd_parameters_def live_mb_sel Let_def)
qed

text \<open>
  The answer to GetFirmwareParameters is the fixed part followed by the entries of the component
  table, or an error when they do not fit.
\<close>

lemma fw_param_run:
  assumes ops: "op_components ops = Some f" "f ctx = (0, cnt, es, ctx1)"
      "op_imageset_versions ops = Some g" "g ctx1 zero_string zero_string = (0, active, pending, ctx2)"
    and es: "unat cnt \<le> length es" "\<forall>e\<in>set es. entry_ok e"
    and strings: "string_ok active" "string_ok pending"
    and inst: "hi_instance hdr \<le> PLDM_INSTANCE_MAX" and n: "msg_holds n resp" "1 \<le> n"
    and cmd: "hi_command hdr = PLDM_GET_FIRMWARE_PARAMETERS"
    and bs: "bs = parameters_bytes (fd_parameters cnt active pending) @
      concat (map entry_bytes (take (unat cnt) es))"
    and h: "h = wire_hdr PLDM_RESPONSE (hi_instance hdr) PLDM_FWUP (hi_command hdr)"
  shows "if \<not> parameters_valid (fd_parameters cnt active pending)
    then pldm_fd_fw_param ops fd ctx hdr 0 resp n = Some (0, sent h [PLDM_ERROR] resp, 1, fd, ctx2)
    else if length bs \<le> n
    then pldm_fd_fw_param ops fd ctx hdr 0 resp n = Some (0, sent h bs resp, length bs, fd, ctx2)
    else \<exists>p. length p = length (m_payload resp) \<and> pldm_fd_fw_param ops fd ctx hdr 0 resp n =
      Some (0, sent h [PLDM_ERROR_INVALID_LENGTH] (resp\<lparr>m_payload := p\<rparr>), 1, fd, ctx2)"
proof -
  let ?d = "fd_parameters cnt active pending" and ?a = "m_addr resp" and ?m = "m_payload resp"
  let ?pb = "parameters_bytes ?d" and ?eb = "concat (map entry_bytes (take (unat cnt) es))"
  note unf = fw_param_unfold [OF ops n(1), of fd hdr]
  have m: "n \<le> length ?m" "length ?m \<le> SSIZE_MAX" using n(1) by (simp_all add: msg_holds_def)
  consider (invalid) "\<not> parameters_valid ?d" | (valid) "parameters_valid ?d" by blast
  then show ?thesis
  proof cases
    case invalid
    then show ?thesis
      using errno_reply_live [OF inst n, of "- EINVAL" ?a ?m 0 "int n" "\<lambda>rc resp len. (rc, resp, len, fd, ctx2)"]
      by (simp add: unf get_firmware_parameters_invalid errno_cc_def h)
  next
    case valid
    note enc = get_firmware_parameters_encoder [OF inst valid, folded cmd]
    show ?thesis
    proof (cases "length ?pb \<le> n")
      case False
      obtain p where p: "length p = length ?m" "encode_get_firmware_parameters_resp (hi_instance hdr)
          (Some ?d) (Some resp) (Some n) =
          Some (- EOVERFLOW, Some (resp\<lparr>m_hdr := h, m_payload := p\<rparr>), Some n)"
        using message_encoder.overflow [OF enc n(1)] False strings h by (auto simp: fd_parameters_def)
      have "pldm_fd_fw_param ops fd ctx hdr 0 resp n =
          Some (0, sent h [PLDM_ERROR_INVALID_LENGTH] (resp\<lparr>m_payload := p\<rparr>), 1, fd, ctx2)"
        using errno_reply_live [OF inst msg_holds_upd(1) [OF n(1) p(1), of h] n(2), of "- EOVERFLOW" ?a ?m 0
            "int n" "\<lambda>rc resp len. (rc, resp, len, fd, ctx2)"]
        by (simp add: unf p(2) errno_cc_def h sent_def)
      with False valid p(1) bs show ?thesis by auto
    next
      case True
      let ?r = "sent h ?pb resp"
      have e: "encode_get_firmware_parameters_resp (hi_instance hdr) (Some ?d) (Some resp) (Some n) =
          Some (0, Some ?r, Some (length ?pb))"
        using message_encoder.fits [OF enc n(1) True] strings h by (simp add: fd_parameters_def)
      have skip: "pldm_msgbuf_skip (live_mb ?a ?m 0 (int n)) (length ?pb) =
          (0, live_mb ?a ?m (length ?pb) (int n - int (length ?pb)))"
        using True m by (subst skip_live) auto
      have r: "length (m_payload ?r) = length ?m" "msg_holds n ?r"
        using True m msg_holds_sent [OF n(1), of ?pb h] by (simp_all add: sent_def)
      note run = fw_param_entries_run [OF es(1,2) True, of ?m ?r hdr ?eb ?a, OF _ inst r(2) n(2)]
      show ?thesis
      proof (cases "length ?pb + length ?eb \<le> n")
        case fit: True
        then have "fw_param_entries hdr n (unat cnt) es ?r (live_mb ?a ?m (length ?pb) (int n - int (length ?pb))) =
            Some (Inr (?r\<lparr>m_payload := poke (m_payload ?r) (length ?pb) ?eb\<rparr>,
              live_mb ?a ?m (length ?pb + length ?eb) (int n - int (length ?pb + length ?eb))))"
          using run r(1) by simp
        moreover have "?r\<lparr>m_payload := poke (m_payload ?r) (length ?pb) ?eb\<rparr> = sent h bs resp"
          using True m by (simp add: sent_def poke_poke bs)
        moreover have "pldm_msgbuf_complete_used
            (live_mb ?a ?m (length ?pb + length ?eb) (int n - int (length ?pb + length ?eb))) n n =
            (0, length bs, dead_mb ?a ?m)"
          using fit by (subst complete_used_live) (auto simp: bs nat_diff_distrib)
        ultimately show ?thesis using valid fit bs by (simp add: unf e skip mb_exit_dead)
      next
        case nofit: False
        then obtain p where p: "length p = length ?m" "fw_param_entries hdr n (unat cnt) es ?r
            (live_mb ?a ?m (length ?pb) (int n - int (length ?pb))) =
            Some (Inl (0, sent h [PLDM_ERROR_INVALID_LENGTH] (?r\<lparr>m_payload := p\<rparr>), 1))"
          using run r(1) h by auto
        have "sent h [PLDM_ERROR_INVALID_LENGTH] (?r\<lparr>m_payload := p\<rparr>) =
            sent h [PLDM_ERROR_INVALID_LENGTH] (resp\<lparr>m_payload := p\<rparr>)" by (simp add: sent_def)
        with p nofit valid bs show ?thesis by (auto simp: unf e skip)
      qed
    qed
  qed
qed

section \<open>The other requests\<close>

text \<open>Replies that leave the device as it is.\<close>

lemma sent_post:
  assumes "msg_holds n resp" "length p = length (m_payload resp)" "length bs \<le> n" "bs = c # bs'"
    and "h = wire_hdr PLDM_RESPONSE (hi_instance hdr) PLDM_FWUP (hi_command hdr)" "P c fd ctx"
  shows "returns (fd_post P hdr resp n)
    (Some (0, sent h bs (resp\<lparr>m_payload := p\<rparr>), length bs, fd, ctx))"
proof -
  have p: "msg_holds n (resp\<lparr>m_payload := p\<rparr>)" by (rule msg_holds_upd(2) [OF assms(1,2)])
  show ?thesis
    using sent_answered [OF p, of bs hdr] sent_nth_0 [OF p, of h c bs'] assms
    by (simp add: returns_def fd_post_def answered_def)
qed

context fd_client
begin

lemma fw_param_post:
  assumes ok: "ops_ok ops" and good: "good fd ctx" and inst: "hi_instance hdr \<le> PLDM_INSTANCE_MAX"
    and n: "msg_holds n resp" "1 \<le> n" and cmd: "hi_command hdr = PLDM_GET_FIRMWARE_PARAMETERS"
  shows "returns (fd_post (\<lambda>_ fd' ctx'. good fd' ctx' \<and> fd' = fd) hdr resp n)
    (pldm_fd_fw_param ops fd ctx hdr k resp n)"
proof (cases "k = 0")
  case False
  then have "pldm_fd_fw_param ops fd ctx hdr k resp n =
      with_fd fd ctx (pldm_fd_reply_cc PLDM_ERROR_INVALID_LENGTH hdr resp n)"
    by (simp add: pldm_fd_fw_param_def)
  then show ?thesis using good by (simp add: reply_cc_post [OF inst n])
next
  case True
  obtain s where s: "fd_inv fd" "app_view fd s" "J s ctx" using good by (auto simp: fd_good_def)
  obtain f rc cnt es ctx1 where f: "op_components ops = Some f" "f ctx = (rc, cnt, es, ctx1)" "J s ctx1"
      "rc = 0 \<Longrightarrow> unat cnt \<le> length es \<and> (\<forall>e\<in>set es. entry_ok e)"
    using components_good [OF ok s(3)] by blast
  obtain g where g: "op_imageset_versions ops = Some g"
      "\<And>ctx s t a p ctx'. g ctx s t = (0, a, p, ctx') \<Longrightarrow> string_ok a \<and> string_ok p"
    using ok unfolding ops_ok_def by blast
  obtain rc2 a p ctx2 where c: "g ctx1 zero_string zero_string = (rc2, a, p, ctx2)"
    by (cases "g ctx1 zero_string zero_string") auto
  have good1: "good fd ctx1" and good2: "good fd ctx2"
    using s f(3) J_imageset [OF g(1) f(3) c] by (auto simp: fd_good_def)
  let ?h = "wire_hdr PLDM_RESPONSE (hi_instance hdr) PLDM_FWUP (hi_command hdr)"
  show ?thesis
  proof (cases "rc = 0 \<and> rc2 = 0")
    case fine: True
    then have str: "string_ok a" "string_ok p" and cn: "unat cnt \<le> length es" "\<forall>e\<in>set es. entry_ok e"
      using g(2) c f(4) by auto
    let ?d = "fd_parameters cnt a p"
    let ?bs = "parameters_bytes ?d @ concat (map entry_bytes (take (unat cnt) es))"
    have bs: "\<exists>bs'. ?bs = 0 # bs'" by (simp add: parameters_bytes_def fd_parameters_def)
    have "f ctx = (0, cnt, es, ctx1)" "g ctx1 zero_string zero_string = (0, a, p, ctx2)"
      using fine f(2) c by simp_all
    note run = fw_param_run [OF f(1) this(1) g(1) this(2) cn str inst n cmd refl refl, of fd]
    consider "\<not> parameters_valid ?d" | "parameters_valid ?d" "length ?bs \<le> n"
      | "parameters_valid ?d" "\<not> length ?bs \<le> n" by blast
    then show ?thesis
    proof cases
      case 1
      then have "pldm_fd_fw_param ops fd ctx hdr k resp n = Some (0, sent ?h [PLDM_ERROR] resp, 1, fd, ctx2)"
        using run True by simp
      then show ?thesis
        using good2 n(2)
          sent_post [OF n(1) refl, of "[PLDM_ERROR]" PLDM_ERROR "[]" ?h hdr
            "\<lambda>_ fd' ctx'. good fd' ctx' \<and> fd' = fd" fd ctx2] by simp
    next
      case 2
      then have "pldm_fd_fw_param ops fd ctx hdr k resp n = Some (0, sent ?h ?bs resp, length ?bs, fd, ctx2)"
        using run True by simp
      then show ?thesis
        using sent_post [OF n(1) refl 2(2), of 0 _ ?h hdr "\<lambda>_ fd' ctx'. good fd' ctx' \<and> fd' = fd" fd ctx2]
          bs good2 by (auto simp del: length_append)
    next
      case 3
      then obtain q where q: "length q = length (m_payload resp)" "pldm_fd_fw_param ops fd ctx hdr k resp n =
          Some (0, sent ?h [PLDM_ERROR_INVALID_LENGTH] (resp\<lparr>m_payload := q\<rparr>), 1, fd, ctx2)"
        using run True by auto
      then show ?thesis
        using sent_post [OF n(1) q(1), of "[PLDM_ERROR_INVALID_LENGTH]" PLDM_ERROR_INVALID_LENGTH "[]" ?h hdr
            "\<lambda>_ fd' ctx'. good fd' ctx' \<and> fd' = fd" fd ctx2] good2 n(2) by simp
    qed
  next
    case bad: False
    have "pldm_fd_fw_param ops fd ctx hdr k resp n =
        with_fd fd (if rc = 0 then ctx2 else ctx1) (pldm_fd_reply_cc PLDM_ERROR hdr resp n)"
    proof (cases "rc = 0")
      case rc: True
      then have fc: "f ctx = (0, cnt, es, ctx1)" using f(2) by simp
      show ?thesis
        using fw_param_unfold [OF f(1) fc g(1) c n(1), of fd hdr] rc bad True
        by (simp add: reply_cc_sent [OF inst n] with_fd_def mb_simps)
    next
      case rc: False
      then show ?thesis using True f(1,2) by (simp add: pldm_fd_fw_param_def)
    qed
    then show ?thesis using good1 good2 by (simp add: reply_cc_post [OF inst n])
  qed
qed

end

lemma find_component_defined: "n \<le> length es \<Longrightarrow> \<exists>b. find_component n es c = Some b"
proof (induction es arbitrary: n)
  case (Cons e es)
  then show ?case by (cases n) auto
qed auto

text \<open>Before an update of a component the application knows of none.\<close>

lemma app_view_none:
  "\<not> component_active (fd_state fd) \<Longrightarrow> app_view fd s \<longleftrightarrow> s = App_none"
  by (cases "fd_state fd") (auto simp: component_active_def app_view_def)

lemma good_inactive:
  "\<not> component_active (fd_state fd) \<Longrightarrow> fd_good J fd ctx \<longleftrightarrow> fd_inv fd \<and> J App_none ctx"
  by (simp add: fd_good_def app_view_none)

lemma errno_post_same:
  assumes "hi_instance hdr \<le> PLDM_INSTANCE_MAX" "msg_holds n resp" "1 \<le> n" "err < 0"
    "P (errno_cc err) fd ctx"
  shows "returns (fd_post P hdr resp n) (with_fd fd ctx (pldm_fd_reply_errno err hdr resp n))"
  using assms by (intro reply_errno_post) simp_all

lemma cc_post_same:
  assumes "hi_instance hdr \<le> PLDM_INSTANCE_MAX" "msg_holds n resp" "1 \<le> n" "P cc fd ctx"
  shows "returns (fd_post P hdr resp n) (with_fd fd ctx (pldm_fd_reply_cc cc hdr resp n))"
  using assms by (intro reply_cc_post) simp_all

context fd_client
begin

abbreviation handled :: "pldm_header_info \<Rightarrow> pldm_fd \<Rightarrow> pldm_msg \<Rightarrow> nat \<Rightarrow> 'c fd_result \<Rightarrow> bool" where
  "handled hdr fd resp n \<equiv>
     returns (fd_post (\<lambda>cc fd' ctx'. good fd' ctx' \<and> fd_moves (hi_command hdr) cc fd fd') hdr resp n)"

lemma refused:
  assumes "hi_instance hdr \<le> PLDM_INSTANCE_MAX" "msg_holds n resp" "1 \<le> n" "good fd ctx"
  shows "cc \<noteq> 0 \<Longrightarrow> handled hdr fd resp n (with_fd fd ctx (pldm_fd_reply_cc cc hdr resp n))"
    and "err < 0 \<Longrightarrow> handled hdr fd resp n (with_fd fd ctx (pldm_fd_reply_errno err hdr resp n))"
  using assms by (auto intro!: cc_post_same errno_post_same simp: fd_moves_refused)

lemma check_update_good:
  assumes "ops_ok ops" "J App_none ctx"
  obtains code ctx' where "pldm_fd_check_update_component ops ctx u c = Some (code, ctx')"
    "J (if u \<and> code = 0 then App_loading c 0 else App_none) ctx'"
proof -
  obtain f rc cnt es ctx1 where f: "op_components ops = Some f" "f ctx = (rc, cnt, es, ctx1)" "J App_none ctx1"
      "rc = 0 \<Longrightarrow> unat cnt \<le> length es \<and> (\<forall>e\<in>set es. entry_ok e)"
    using components_good [OF assms] by blast
  obtain g where g: "op_update_component ops = Some g" using assms(1) unfolding ops_ok_def by blast
  obtain res ctx2 where c: "g ctx1 u c = (res, ctx2)" by fastforce
  have J2: "J (if u \<and> res = 0 then App_loading c 0 else App_none) ctx2"
    using J_update [OF g f(3) c] by (cases u) auto
  show thesis
  proof (cases "rc = 0 \<and> find_component (unat cnt) es c = Some True")
    case True
    then have "pldm_fd_check_update_component ops ctx u c = Some (res, ctx2)"
      using f(1,2) g c by (simp add: pldm_fd_check_update_component_def)
    then show thesis using J2 that by blast
  next
    case False
    then have "pldm_fd_check_update_component ops ctx u c = Some (PLDM_CRC_COMP_NOT_SUPPORTED, ctx1)"
      using f(1,2,4) find_component_defined [of "unat cnt" es c]
      by (auto simp: pldm_fd_check_update_component_def)
    then show thesis using f(3) that by force
  qed
qed

lemma request_update_post:
  assumes ok: "ops_ok ops" and good: "good fd ctx" and inst: "hi_instance hdr \<le> PLDM_INSTANCE_MAX"
    and n: "msg_holds n resp" "1 \<le> n" and req: "msg_holds k req"
    and cmd: "hi_command hdr = PLDM_REQUEST_UPDATE"
  shows "handled hdr fd resp n (pldm_fd_request_update ops lo fd ctx hdr req k resp n address)"
proof (cases "fd_state fd = PLDM_FD_STATE_IDLE")
  case False
  then show ?thesis using refused [OF inst n good] by (simp add: pldm_fd_request_update_def)
next
  case idle: True
  obtain rc upd where d: "decode_request_update_req (Some req) k (Some (lo_upd lo)) = Some (rc, Some upd)"
      "rc = 0 \<or> rc < 0"
    using fd_decoders_return(1) [OF req] by (rule decodedE)
  obtain f where f: "op_transfer_size ops = Some f" using ok unfolding ops_ok_def by blast
  obtain m ctx1 where m: "f ctx (ru_max_transfer_size upd) = (m, ctx1)" by fastforce
  have inactive: "\<not> component_active (fd_state fd)" using idle by (simp add: component_active_def)
  then have good1: "J App_none ctx1" "fd_inv fd"
    using good J_transfer_size [OF f _ m] by (simp_all add: good_inactive)
  show ?thesis
  proof (cases "rc = 0")
    case False
    then show ?thesis using d idle refused(2) [OF inst n good] by (simp add: pldm_fd_request_update_def)
  next
    case True
    then show ?thesis
      using d idle f m good good1
      by (simp add: pldm_fd_request_update_def Let_def split del: if_split)
        (rule respond_post [OF fwup_encoders(1) [OF inst, simplified, folded cmd] inst n];
         auto simp: returns_def good_inactive component_active_def fd_moves_def cmd pldm_fd_set_state_def
           fd_inv_def Let_def linorder_not_less)
  qed
qed

lemma pass_comp_post:
  assumes ok: "ops_ok ops" and good: "good fd ctx" and inst: "hi_instance hdr \<le> PLDM_INSTANCE_MAX"
    and n: "msg_holds n resp" "1 \<le> n" and req: "msg_holds k req"
    and cmd: "hi_command hdr = PLDM_PASS_COMPONENT_TABLE"
  shows "handled hdr fd resp n (pldm_fd_pass_comp ops lo fd ctx hdr req k resp n)"
proof (cases "fd_state fd = PLDM_FD_STATE_LEARN_COMPONENTS")
  case False
  then show ?thesis using refused [OF inst n good] by (simp add: pldm_fd_pass_comp_def)
next
  case learn: True
  obtain rc p where d: "decode_pass_component_table_req (Some req) k (Some (lo_pcomp lo)) = Some (rc, Some p)"
      "rc = 0 \<or> rc < 0"
    using fd_decoders_return(2) [OF req] by (rule decodedE)
  have inactive: "\<not> component_active (fd_state fd)" using learn by (simp add: component_active_def)
  then have J: "J App_none ctx" "fd_inv fd" using good by (simp_all add: good_inactive)
  have good': "good (fd\<lparr>fd_update_comp := c\<rparr>) ctx'" if "J App_none ctx'" for c ctx'
    using inactive J that by (simp add: good_inactive fd_inv_def learn component_active_def)
  show ?thesis
  proof (cases "rc = 0")
    case False
    then show ?thesis
      using d learn good' [OF J(1)]
      by (simp add: pldm_fd_pass_comp_def errno_post_same [OF inst n] fd_moves_def)
  next
    case True
    let ?c = "(fd_update_comp fd)\<lparr>cm_image_size := 0, cm_option_flags := 0,
      cm_classification := pt_classification p, cm_identifier := pt_identifier p,
      cm_classification_index := pt_classification_index p,
      cm_comparison_stamp := pt_comparison_stamp p, cm_version := pt_version p\<rparr>"
    obtain code ctx' where c: "pldm_fd_check_update_component ops ctx False ?c = Some (code, ctx')"
        "J App_none ctx'"
      using check_update_good [OF ok J(1), of False ?c] by auto
    show ?thesis
      using d True learn c good' [OF c(2)] inactive J(2)
      by (simp add: pldm_fd_pass_comp_def Let_def split del: if_split)
        (rule respond_post [OF fwup_encoders(2) [OF inst, folded cmd] inst n];
         auto simp: returns_def fd_moves_def cmd pldm_fd_set_state_def good_inactive fd_inv_def
           component_active_def)
  qed
qed

end

lemma active_not_idle: "component_active st \<Longrightarrow> st \<noteq> PLDM_FD_STATE_IDLE"
  by (auto simp: component_active_def)

lemma fd_inv_ready:
  "fd_inv fd \<Longrightarrow> fd_state fd \<noteq> PLDM_FD_STATE_IDLE \<Longrightarrow>
     fd_inv (fd\<lparr>fd_prev_state := p, fd_state := PLDM_FD_STATE_READY_XFER\<rparr>)"
  by (simp add: fd_inv_def component_active_def)

context fd_client
begin

lemma update_comp_post:
  assumes ok: "ops_ok ops" and good: "good fd ctx" and inst: "hi_instance hdr \<le> PLDM_INSTANCE_MAX"
    and n: "msg_holds n resp" "1 \<le> n" and req: "msg_holds k req"
    and cmd: "hi_command hdr = PLDM_UPDATE_COMPONENT"
  shows "handled hdr fd resp n (pldm_fd_update_comp ops lo fd ctx hdr req k resp n)"
proof (cases "fd_state fd = PLDM_FD_STATE_READY_XFER")
  case False
  then show ?thesis using refused [OF inst n good] by (simp add: pldm_fd_update_comp_def)
next
  case ready: True
  obtain rc u where d: "decode_update_component_req (Some req) k (Some (lo_up lo)) = Some (rc, Some u)"
      "rc = 0 \<or> rc < 0"
    using fd_decoders_return(3) [OF req] by (rule decodedE)
  have J: "J App_none ctx" "fd_inv fd" using good ready by (simp_all add: good_inactive component_active_def)
  show ?thesis
  proof (cases "rc = 0")
    case False
    then show ?thesis using d ready refused(2) [OF inst n good] by (simp add: pldm_fd_update_comp_def)
  next
    case True
    let ?c = "(fd_update_comp fd)\<lparr>cm_classification := uc_classification u,
      cm_identifier := uc_identifier u, cm_classification_index := uc_classification_index u,
      cm_comparison_stamp := uc_comparison_stamp u, cm_image_size := uc_image_size u,
      cm_option_flags := uc_option_flags u, cm_version := uc_version u\<rparr>"
    obtain code ctx' where c: "pldm_fd_check_update_component ops ctx True ?c = Some (code, ctx')"
        "J (if code = 0 then App_loading ?c 0 else App_none) ctx'"
      using check_update_good [OF ok J(1), of True ?c] by auto
    obtain f where f: "op_cancel_update_component ops = Some f" using ok unfolding ops_ok_def by blast
    have cancel: "code = 0 \<Longrightarrow> J App_none (f ctx' ?c)" using c(2) J_cancel [OF f, of "App_loading ?c 0"] by simp
    show ?thesis
      using d True ready c f cancel J(2)
      by (simp add: pldm_fd_update_comp_def Let_def split del: if_split)
        (rule respond_post [OF fwup_encoders(3) [OF inst, simplified, folded cmd] inst n];
         auto simp: returns_def fd_moves_def cmd pldm_fd_set_state_def fd_good_def app_view_def fd_inv_def
           component_active_def)
  qed
qed

text \<open>Cancelling brings the application back to where it knows of no component.\<close>

lemma maybe_cancel_good:
  assumes "ops_ok ops" "good fd ctx"
  obtains ctx' where "pldm_fd_maybe_cancel_component ops fd ctx = Some ctx'" "J App_none ctx'"
proof -
  obtain f where f: "op_cancel_update_component ops = Some f" using assms(1) unfolding ops_ok_def by blast
  obtain s where s: "app_view fd s" "J s ctx" "fd_inv fd" using assms(2) by (auto simp: fd_good_def)
  have cancel: "J App_none (f ctx (fd_update_comp fd))"
    if "app_step (Ev_cancel (fd_update_comp fd)) s = Some App_none"
    using J_cancel [OF f s(2) that] .
  show thesis
    using that f s cancel
    by (cases "fd_state fd"; cases "rq_complete (fd_req fd)"; cases "rq_result (fd_req fd) = 0")
      (auto simp: pldm_fd_maybe_cancel_component_def app_view_def Let_def)
qed

lemma cancel_update_comp_post:
  assumes ok: "ops_ok ops" and good: "good fd ctx" and inst: "hi_instance hdr \<le> PLDM_INSTANCE_MAX"
    and n: "msg_holds n resp" "1 \<le> n" and cmd: "hi_command hdr = PLDM_CANCEL_UPDATE_COMPONENT"
  shows "handled hdr fd resp n (pldm_fd_cancel_update_comp ops fd ctx hdr k resp n)"
proof (cases "k = 0 \<and> component_active (fd_state fd)")
  case False
  then show ?thesis
    using refused [OF inst n good] by (auto simp: pldm_fd_cancel_update_comp_def component_active_def)
next
  case True
  obtain ctx' where c: "pldm_fd_maybe_cancel_component ops fd ctx = Some ctx'" "J App_none ctx'"
    using maybe_cancel_good [OF ok good] by blast
  have inv: "fd_inv fd" using good by (simp add: fd_good_def)
  let ?fd = "fd\<lparr>fd_prev_state := fd_state fd, fd_state := PLDM_FD_STATE_READY_XFER\<rparr>"
  have "pldm_fd_cancel_update_comp ops fd ctx hdr k resp n =
      with_fd ?fd ctx' (pldm_fd_reply_cc PLDM_SUCCESS hdr resp n)"
    using True c(1)
    by (auto simp: pldm_fd_cancel_update_comp_def reply_cc_sent [OF inst n] with_fd_def
        component_active_def pldm_fd_set_state_def)
  moreover have "good ?fd ctx'"
    using c(2) fd_inv_ready [OF inv active_not_idle] True by (simp add: good_inactive component_active_def)
  ultimately show ?thesis
    using True by (simp add: cc_post_same [OF inst n] fd_moves_def cmd)
qed

lemma set_idle_good: "fd_inv fd \<Longrightarrow> J App_none ctx \<Longrightarrow> good (pldm_fd_set_idle reason fd) ctx"
  by (auto simp: good_inactive component_active_def pldm_fd_set_idle_def fd_inv_def)

lemma cancel_update_post:
  assumes ok: "ops_ok ops" and good: "good fd ctx" and inst: "hi_instance hdr \<le> PLDM_INSTANCE_MAX"
    and n: "msg_holds n resp" "1 \<le> n" and cmd: "hi_command hdr = PLDM_CANCEL_UPDATE"
  shows "handled hdr fd resp n (pldm_fd_cancel_update ops fd ctx hdr k resp n)"
proof (cases "k = 0 \<and> fd_state fd \<noteq> PLDM_FD_STATE_IDLE")
  case False
  then show ?thesis using refused [OF inst n good] by (auto simp: pldm_fd_cancel_update_def)
next
  case True
  obtain ctx' where c: "pldm_fd_maybe_cancel_component ops fd ctx = Some ctx'" "J App_none ctx'"
    using maybe_cancel_good [OF ok good] by blast
  have good': "good (pldm_fd_set_idle PLDM_FD_CANCEL_UPDATE fd) ctx'"
    using good c(2) by (intro set_idle_good) (simp_all add: fd_good_def)
  have "handled hdr fd resp n (respond hdr (encode_cancel_update_resp (hi_instance hdr) 0 0) resp n
      (Some (pldm_fd_set_idle PLDM_FD_CANCEL_UPDATE fd, ctx')) (Some (fd, ctx)))"
    using good good' True fwup_encoders(9) [OF inst, of 0 0, folded cmd]
    by (intro respond_post [OF _ inst n]) (auto simp: returns_def fd_moves_def cmd pldm_fd_set_idle_def)
  then show ?thesis using True c(1) by (simp add: pldm_fd_cancel_update_def)
qed

lemma activate_post:
  assumes ok: "ops_ok ops" and good: "good fd ctx" and inst: "hi_instance hdr \<le> PLDM_INSTANCE_MAX"
    and n: "msg_holds n resp" "1 \<le> n" and req: "msg_holds k req"
    and cmd: "hi_command hdr = PLDM_ACTIVATE_FIRMWARE"
  shows "handled hdr fd resp n (pldm_fd_activate_firmware ops lo fd ctx hdr req k resp n)"
proof -
  obtain rc sc where d: "decode_activate_firmware_req (Some req) k (Some (lo_self_contained lo)) =
      Some (rc, Some sc)" "rc = 0 \<or> rc < 0"
    using fd_decoders_return(4) [OF req] by (rule decodedE)
  obtain f where f: "op_activate ops = Some f" using ok unfolding ops_ok_def by blast
  obtain cc time ctx' where c: "f ctx sc 0 = (cc, time, ctx')" by (cases "f ctx sc 0") auto
  show ?thesis
  proof (cases "rc = 0 \<and> fd_state fd = PLDM_FD_STATE_READY_XFER")
    case False
    then show ?thesis
      using d refused [OF inst n good] by (auto simp: pldm_fd_activate_firmware_def)
  next
    case True
    have J: "J App_none ctx" "fd_inv fd"
      using good True by (simp_all add: good_inactive component_active_def)
    then have J': "J App_none ctx'" using J_activate [OF f J(1) c] by simp
    let ?fd = "pldm_fd_set_idle PLDM_FD_ACTIVATE_FW
      (fd\<lparr>fd_prev_state := fd_state fd, fd_state := PLDM_FD_STATE_ACTIVATE\<rparr>)"
    have good': "good ?fd ctx'" "good fd ctx'"
      using J J' True by (auto simp: good_inactive component_active_def pldm_fd_set_idle_def fd_inv_def)
    have moves: "fd_moves (hi_command hdr) cc' fd ?fd" for cc'
      using True by (simp add: fd_moves_def cmd pldm_fd_set_idle_def)
    have eq: "pldm_fd_activate_firmware ops lo fd ctx hdr req k resp n =
        (if cc = PLDM_SUCCESS
         then respond hdr (encode_activate_firmware_resp (hi_instance hdr) time) resp n
                (Some (?fd, ctx')) (Some (?fd, ctx'))
         else with_fd (if cc = PLDM_FWUP_ACTIVATION_NOT_REQUIRED then ?fd else fd) ctx'
                (pldm_fd_reply_cc cc hdr resp n))"
      using True d f c by (simp add: pldm_fd_activate_firmware_def pldm_fd_set_state_def)
    consider "cc = PLDM_SUCCESS" | "cc \<noteq> PLDM_SUCCESS" by blast
    then show ?thesis
    proof cases
      case 1
      have "handled hdr fd resp n (respond hdr (encode_activate_firmware_resp (hi_instance hdr) time) resp n
          (Some (?fd, ctx')) (Some (?fd, ctx')))"
        using good' moves fwup_encoders(8) [OF inst, of time, folded cmd]
        by (intro respond_post [OF _ inst n]) (auto simp: returns_def)
      then show ?thesis using 1 by (simp add: eq)
    next
      case 2
      then show ?thesis
        using good' moves by (simp add: eq cc_post_same [OF inst n] fd_moves_refused)
    qed
  qed
qed

lemma get_status_post:
  assumes good: "good fd ctx" and inst: "hi_instance hdr \<le> PLDM_INSTANCE_MAX"
    and n: "msg_holds n resp" "1 \<le> n" and cmd: "hi_command hdr = PLDM_GET_STATUS"
  shows "returns (fd_post (\<lambda>_ fd' ctx'. good fd' ctx' \<and> fd' = fd) hdr resp n)
    (pldm_fd_get_status fd ctx hdr k resp n)"
proof (cases "k = 0")
  case False
  then show ?thesis using good by (simp add: pldm_fd_get_status_def cc_post_same [OF inst n])
next
  case True
  have "gs_completion_code (fd_status fd) = PLDM_SUCCESS"
    by (simp add: fd_status_def Let_def split: prod.splits pldm_firmware_device_states.splits)
  note enc = get_status_encoder [OF inst this, folded cmd]
  show ?thesis
    using True good enc
    by (simp add: pldm_fd_get_status_def)
      (rule respond_post [OF _ inst n]; auto simp: returns_def status_bytes_def)
qed

end

section \<open>A request from the wire\<close>

lemma app_view_timestamp [simp]: "app_view (fd\<lparr>fd_update_timestamp_fd_t1 := t\<rparr>) s = app_view fd s"
  by (cases "fd_state fd") (simp_all add: app_view_def Let_def)

lemma good_timestamp [simp]: "fd_good J (fd\<lparr>fd_update_timestamp_fd_t1 := t\<rparr>) ctx = fd_good J fd ctx"
  by (simp add: fd_good_def fd_inv_def)

lemma fd_moves_timestamp [simp]:
  "fd_moves cmd cc (fd\<lparr>fd_update_timestamp_fd_t1 := t\<rparr>) fd' = fd_moves cmd cc fd fd'"
  by (auto simp: fd_moves_def)

text \<open>
  The outcome of \<open>pldm_fd_handle_msg\<close> for a request: success, and a response in the buffer. The
  length of a reply to the wrong address is not reported, so only its bound is.
\<close>

definition request_answered :: "pldm_header_info \<Rightarrow> pldm_msg \<Rightarrow> nat \<Rightarrow> int \<times> pldm_msg \<times> nat \<Rightarrow> bool" where
  "request_answered hdr resp n r \<longleftrightarrow>
     (case r of (rc, resp', len) \<Rightarrow>
        rc = 0 \<and> 4 \<le> len \<and> len \<le> n \<and>
        m_hdr resp' = wire_hdr PLDM_RESPONSE (hi_instance hdr) PLDM_FWUP (hi_command hdr) \<and>
        m_addr resp' = m_addr resp \<and> length (m_payload resp') = length (m_payload resp))"

context fd_client
begin

lemma dispatch_post:
  assumes ok: "ops_ok ops" and good: "good fd ctx" and inst: "hi_instance hdr \<le> PLDM_INSTANCE_MAX"
    and n: "msg_holds n resp" "1 \<le> n" and req: "msg_holds k req"
  shows "handled hdr fd resp n (fd_dispatch ops lo fd ctx address hdr req k resp n)"
proof -
  have same: "handled hdr fd resp n x"
    if "returns (fd_post (\<lambda>_ fd' ctx'. good fd' ctx' \<and> fd' = fd) hdr resp n) x"
      "hi_command hdr \<in> {PLDM_QUERY_DEVICE_IDENTIFIERS, PLDM_GET_FIRMWARE_PARAMETERS, PLDM_GET_STATUS}" for x
    using that by (elim returns_mono) (auto simp: fd_post_def fd_moves_def split: prod.splits)
  note posts = qdi_post [OF ok good inst n] fw_param_post [OF ok good inst n]
    request_update_post [OF ok good inst n req] pass_comp_post [OF ok good inst n req]
    update_comp_post [OF ok good inst n req] get_status_post [OF good inst n]
    cancel_update_comp_post [OF ok good inst n] cancel_update_post [OF ok good inst n]
    activate_post [OF ok good inst n req]
  show ?thesis
    unfolding fd_dispatch_def Let_def
    by (intro returns_if same posts refused(1) [OF inst n good]) simp_all
qed

lemma handle_request_post:
  assumes ok: "ops_ok ops" and good: "good fd ctx" and inst: "hi_instance hdr \<le> PLDM_INSTANCE_MAX"
    and n: "msg_holds (n - 3) resp" "4 \<le> n" and req: "msg_holds k req"
  shows "returns (\<lambda>(rc, resp', len, fd', ctx'). request_answered hdr resp n (rc, resp', len) \<and>
      good fd' ctx' \<and> fd_moves (hi_command hdr) (m_payload resp' ! 0) fd fd')
    (fd_handle_request ops lo fd ctx address hdr req k resp n)" (is "returns ?Q _")
proof (cases "\<not> any_address (hi_command hdr) \<and> (\<not> fd_ua_address_set fd \<or> address \<noteq> fd_ua_address fd)")
  case True
  have len: "1 \<le> n - 3" using n(2) by simp
  have "fd_handle_request ops lo fd ctx address hdr req k resp n =
      Some (0, sent (wire_hdr PLDM_RESPONSE (hi_instance hdr) PLDM_FWUP (hi_command hdr))
                 [PLDM_ERROR_NOT_READY] resp, n, fd, ctx)"
    using True n by (simp add: fd_handle_request_def reply_cc_sent [OF inst n(1) len])
  moreover have "answered hdr resp (n - 3) (0, sent (wire_hdr PLDM_RESPONSE (hi_instance hdr) PLDM_FWUP
      (hi_command hdr)) [PLDM_ERROR_NOT_READY] resp, 1)"
    using sent_answered [OF n(1), of "[PLDM_ERROR_NOT_READY]" hdr] len by simp
  ultimately show ?thesis
    using good n(2) sent_nth_0 [OF n(1), of _ "PLDM_ERROR_NOT_READY" "[]"]
    by (simp add: returns_def request_answered_def answered_def fd_moves_refused)
next
  case False
  obtain now ctx1 where t: "pldm_fd_now ops ctx = Some (now, ctx1)" "good fd ctx1"
    using now_good [OF ok good] by blast
  have run: "returns ?Q (do {
      (rc, resp, len, fd, ctx) \<leftarrow> fd_dispatch ops lo fd1 c1 address hdr req k resp (n - 3);
      let rc = (word_of_int rc :: u8) in
      Some (uint rc, resp, if rc = 0 then len + 3 else n, fd, ctx) })"
    if "good fd1 c1" "fd1 = fd \<or> fd1 = fd\<lparr>fd_update_timestamp_fd_t1 := now\<rparr>" for fd1 c1
  proof -
    have "handled hdr fd1 resp (n - 3) (fd_dispatch ops lo fd1 c1 address hdr req k resp (n - 3))"
      using dispatch_post [OF ok that(1) inst n(1) _ req] n(2) by simp
    then show ?thesis
      using that(2) n(2)
      by (intro returns_bind, elim returns_mono)
        (auto simp: fd_post_def answered_def request_answered_def returns_def)
  qed
  show ?thesis
    using n(2) t run [of fd ctx] run [of "fd\<lparr>fd_update_timestamp_fd_t1 := now\<rparr>" ctx1] good
    unfolding fd_handle_request_def Let_def if_not_P [OF False] by simp
qed

end

section \<open>Responses to the device\<close>

text \<open>The transitions that the responses of the update agent cause.\<close>

definition resp_moves :: "pldm_fd \<Rightarrow> pldm_fd \<Rightarrow> bool" where
  "resp_moves fd fd' \<longleftrightarrow>
     fd_state fd' = fd_state fd \<or>
     fd_prev_state fd' = fd_state fd \<and>
       (fd_state fd = PLDM_FD_STATE_DOWNLOAD \<and> fd_state fd' = PLDM_FD_STATE_VERIFY \<or>
        fd_state fd = PLDM_FD_STATE_VERIFY \<and> fd_state fd' = PLDM_FD_STATE_APPLY \<or>
        fd_state fd = PLDM_FD_STATE_APPLY \<and> fd_state fd' = PLDM_FD_STATE_READY_XFER)"

lemma fwdata_size_inv:
  assumes "fd_inv fd" "fd_state fd = PLDM_FD_STATE_DOWNLOAD"
  obtains k where "pldm_fd_fwdata_size fd = Some k"
    "unat (fd_specific fd) + unat k \<le> unat (cm_image_size (fd_update_comp fd))"
    "unat k \<le> unat (fd_max_transfer fd)"
    "unat k = 0 \<longleftrightarrow> fd_specific fd = cm_image_size (fd_update_comp fd)"
proof -
  let ?o = "fd_specific fd" and ?i = "cm_image_size (fd_update_comp fd)"
  have le: "?o \<le> ?i" using assms by (simp add: fd_inv_def)
  then have sub: "unat (?i - ?o) = unat ?i - unat ?o" by (simp add: word_le_nat_alt unat_sub)
  have max: "32 \<le> unat (fd_max_transfer fd)"
    using assms by (simp add: fd_inv_def word_le_nat_alt)
  show thesis
  proof (rule that)
    show "pldm_fd_fwdata_size fd =
        Some (if ?i - ?o > fd_max_transfer fd then fd_max_transfer fd else ?i - ?o)"
      using le assms(2) by (simp add: pldm_fd_fwdata_size_def Let_def linorder_not_less)
  qed (use le sub max in \<open>auto simp: word_less_nat_alt word_le_nat_alt word_unat_eq_iff\<close>)
qed

lemma good_active:
  "fd_good J fd ctx \<Longrightarrow> fd_state fd = PLDM_FD_STATE_DOWNLOAD \<Longrightarrow> \<not> rq_complete (fd_req fd) \<Longrightarrow>
     fd_inv fd \<and> J (App_loading (fd_update_comp fd) (unat (fd_specific fd))) ctx"
  by (auto simp: fd_good_def app_view_def Let_def)

context fd_client
begin

abbreviation responded :: "pldm_fd \<Rightarrow> (int \<times> pldm_fd \<times> 'c) option \<Rightarrow> bool" where
  "responded fd \<equiv> returns (\<lambda>(rc, fd', ctx'). rc \<le> 0 \<and> good fd' ctx' \<and> resp_moves fd fd')"

lemma ignored: "rc \<le> 0 \<Longrightarrow> good fd ctx \<Longrightarrow> responded fd (Some (rc, fd, ctx))"
  by (simp add: returns_def resp_moves_def)

lemma fwdata_resp_post:
  assumes ok: "ops_ok ops" and good: "good fd ctx" and resp: "msg_holds n resp" "1 \<le> n"
  shows "responded fd (pldm_fd_handle_fwdata_resp ops fd ctx resp n)"
proof (cases "fd_state fd = PLDM_FD_STATE_DOWNLOAD \<and> rq_state (fd_req fd) = PLDM_FD_REQ_SENT \<and>
    \<not> rq_complete (fd_req fd)")
  case False
  then show ?thesis using ignored [OF _ good] by (auto simp: pldm_fd_handle_fwdata_resp_def)
next
  case True
  then have inv: "fd_inv fd" and J: "J (App_loading (fd_update_comp fd) (unat (fd_specific fd))) ctx"
    using good_active [OF good] by auto
  let ?o = "fd_specific fd" and ?c = "fd_update_comp fd"
  obtain k where k: "pldm_fd_fwdata_size fd = Some k" "unat ?o + unat k \<le> unat (cm_image_size ?c)"
    using fwdata_size_inv [OF inv] True by blast
  obtain f where f: "op_firmware_data ops = Some f" using ok unfolding ops_ok_def by blast
  have cc: "get_bytes 0 1 resp = Some (bytes_at (m_payload resp) 0 1)"
    using resp by (intro get_bytes_ok) (simp add: msg_holds_def)
  have room: "unat ?o + unat k < 2 ^ 32"
    using k(2) unsigned_less [of "cm_image_size ?c", where 'a = nat] by simp
  have sum: "unat (?o + k) = unat ?o + unat k"
    using room by (simp add: unat_word_ariths)
  have nowrap: "\<not> ?o + k < ?o" "\<not> ?o + k > cm_image_size ?c"
    using k(2) sum by (simp_all add: word_less_nat_alt)
  let ?cc = "bytes_at (m_payload resp) 0 1 ! 0"
  consider (retry) "?cc = PLDM_FWUP_RETRY_REQUEST_FW_DATA"
    | (abort) "?cc \<noteq> PLDM_FWUP_RETRY_REQUEST_FW_DATA" "?cc \<noteq> PLDM_SUCCESS"
    | (size) "?cc = PLDM_SUCCESS" "n \<noteq> unat (k + 1)"
    | (data) "?cc = PLDM_SUCCESS" "n = unat (k + 1)"
    by blast
  then show ?thesis
  proof cases
    case retry
    then show ?thesis using True cc ignored [OF _ good] by (simp add: pldm_fd_handle_fwdata_resp_def)
  next
    case abort
    then show ?thesis
      using True cc inv J
      by (auto simp: pldm_fd_handle_fwdata_resp_def returns_def resp_moves_def fd_good_def app_view_def fd_inv_def Let_def)
  next
    case size
    then show ?thesis using True cc k ignored [OF _ good] by (simp add: pldm_fd_handle_fwdata_resp_def)
  next
    case data
    have "unat (k + 1) = unat k + 1"
    proof -
      have "unat (k + 1) = (unat k + 1) mod 2 ^ 32" by (simp add: unat_word_ariths)
      moreover have "unat k < 2 ^ 32" using unsigned_less [of k, where 'a = nat] by simp
      moreover have "unat (k + 1) \<noteq> 0" using data(2) resp(2) by simp
      ultimately show ?thesis by (cases "unat k + 1 = 2 ^ 32") simp_all
    qed
    then have bytes: "get_bytes 1 (unat k) resp = Some (bytes_at (m_payload resp) 1 (unat k))"
        "length (bytes_at (m_payload resp) 1 (unat k)) = unat k"
      using data(2) resp by (simp_all add: msg_holds_def get_bytes_def)
    let ?d = "bytes_at (m_payload resp) 1 (unat k)"
    obtain res ctx' where c: "f ctx ?o ?d k ?c = (res, ctx')" by fastforce
    have J': "J (if res = 0 then App_loading ?c (unat (?o + k)) else App_failed ?c) ctx'"
      using J_data [OF f J c] bytes(2) k(2) sum by auto
    have le: "?o + k \<le> cm_image_size ?c" using nowrap(2) by simp
    have "pldm_fd_handle_fwdata_resp ops fd ctx resp n = Some (0,
        if res \<noteq> 0 then fd\<lparr>fd_req := (fd_req fd)\<lparr>rq_state := PLDM_FD_REQ_READY, rq_complete := True,
          rq_result := res\<rparr>\<rparr>
        else if ?o + k = cm_image_size ?c
        then fd\<lparr>fd_req := (fd_req fd)\<lparr>rq_state := PLDM_FD_REQ_READY, rq_complete := True, rq_result := 0\<rparr>,
                fd_specific := ?o + k\<rparr>
        else fd\<lparr>fd_req := (fd_req fd)\<lparr>rq_state := PLDM_FD_REQ_READY\<rparr>, fd_specific := ?o + k\<rparr>, ctx')"
      using True cc k(1) data bytes(1) f c nowrap by (simp add: pldm_fd_handle_fwdata_resp_def Let_def)
    then show ?thesis
      using True inv J' le
      by (auto simp: returns_def resp_moves_def fd_good_def app_view_def Let_def fd_inv_def)
  qed
qed

end

lemma app_view_rq_state [simp]:
  "app_view (fd\<lparr>fd_req := (fd_req fd)\<lparr>rq_state := x\<rparr>\<rparr>) s = app_view fd s"
  by (cases "fd_state fd") (simp_all add: app_view_def Let_def)

lemma good_failed:
  "fd_good J fd ctx \<Longrightarrow> fd_good J (fd\<lparr>fd_req := (fd_req fd)\<lparr>rq_state := PLDM_FD_REQ_FAILED\<rparr>\<rparr>) ctx"
  by (simp add: fd_good_def fd_inv_def)

context fd_client
begin

lemma transfer_complete_resp_post:
  assumes "good fd ctx"
  shows "responded fd (do { (rc, fd) \<leftarrow> pldm_fd_handle_transfer_complete_resp fd; Some (rc, fd, ctx) })"
proof (cases "fd_state fd = PLDM_FD_STATE_DOWNLOAD \<and> rq_state (fd_req fd) = PLDM_FD_REQ_SENT \<and>
    rq_complete (fd_req fd)")
  case False
  then show ?thesis using ignored [OF _ assms] by (auto simp: pldm_fd_handle_transfer_complete_resp_def)
next
  case True
  then show ?thesis
    using assms good_failed [OF assms]
    by (cases "rq_result (fd_req fd) = 0")
      (auto simp: pldm_fd_handle_transfer_complete_resp_def pldm_fd_set_state_def set_progress_percent_def
        returns_def resp_moves_def fd_good_def app_view_def Let_def fd_inv_def component_active_def)
qed

lemma verify_complete_resp_post:
  assumes "good fd ctx"
  shows "responded fd (do { (rc, fd) \<leftarrow> pldm_fd_handle_verify_complete_resp fd; Some (rc, fd, ctx) })"
proof (cases "fd_state fd = PLDM_FD_STATE_VERIFY \<and> rq_state (fd_req fd) = PLDM_FD_REQ_SENT")
  case False
  then show ?thesis using ignored [OF _ assms] by (auto simp: pldm_fd_handle_verify_complete_resp_def)
next
  case True
  moreover have "rq_complete (fd_req fd)" using assms True by (simp add: fd_good_def fd_inv_def)
  ultimately show ?thesis
    using assms
    by (auto simp: pldm_fd_handle_verify_complete_resp_def pldm_fd_set_state_def set_progress_percent_def
        returns_def resp_moves_def fd_good_def app_view_def Let_def fd_inv_def component_active_def)
qed

lemma apply_complete_resp_post:
  assumes "good fd ctx"
  shows "responded fd (do { (rc, fd) \<leftarrow> pldm_fd_handle_apply_complete_resp fd; Some (rc, fd, ctx) })"
proof (cases "fd_state fd = PLDM_FD_STATE_APPLY \<and> rq_state (fd_req fd) = PLDM_FD_REQ_SENT")
  case False
  then show ?thesis using ignored [OF _ assms] by (auto simp: pldm_fd_handle_apply_complete_resp_def)
next
  case True
  moreover have "rq_complete (fd_req fd)" using assms True by (simp add: fd_good_def fd_inv_def)
  ultimately show ?thesis
    using assms
    by (auto simp: pldm_fd_handle_apply_complete_resp_def pldm_fd_set_state_def
        returns_def resp_moves_def fd_good_def app_view_def Let_def fd_inv_def component_active_def)
qed

lemma resp_moves_timestamp:
  "resp_moves (fd\<lparr>fd_update_timestamp_fd_t1 := t\<rparr>) fd' = resp_moves fd fd'"
  by (simp add: resp_moves_def)

lemma handle_resp_post:
  assumes ok: "ops_ok ops" and good: "good fd ctx" and resp: "msg_holds (n - 3) resp"
  shows "responded fd (pldm_fd_handle_resp ops fd ctx address resp n)"
proof (cases "fd_ua_address_set fd \<and> fd_ua_address fd = address \<and> 4 \<le> n \<and>
    rq_state (fd_req fd) = PLDM_FD_REQ_SENT \<and>
    rq_instance_id (fd_req fd) = ucast (h_instance_id (m_hdr resp)) \<and>
    rq_command (fd_req fd) = h_command (m_hdr resp)")
  case False
  then show ?thesis using ignored [OF _ good] by (auto simp: pldm_fd_handle_resp_def Let_def)
next
  case True
  obtain now ctx' where t: "pldm_fd_now ops ctx = Some (now, ctx')" "good fd ctx'"
    using now_good [OF ok good] by blast
  let ?fd = "fd\<lparr>fd_update_timestamp_fd_t1 := now\<rparr>"
  have good': "good ?fd ctx'" using t(2) by simp
  have "rq_command (fd_req fd) \<in> {PLDM_REQUEST_FIRMWARE_DATA, PLDM_TRANSFER_COMPLETE,
      PLDM_VERIFY_COMPLETE, PLDM_APPLY_COMPLETE}"
    using good True by (simp add: fd_good_def fd_inv_def)
  moreover have "1 \<le> n - 3" using True by auto
  ultimately have "responded ?fd (pldm_fd_handle_resp ops fd ctx address resp n)"
    using True t(1) fwdata_resp_post [OF ok good' resp] transfer_complete_resp_post [OF good']
      verify_complete_resp_post [OF good'] apply_complete_resp_post [OF good']
    by (auto simp: pldm_fd_handle_resp_def Let_def)
  then show ?thesis by (simp add: resp_moves_timestamp)
qed

end

end
