(* ===== verification/Fd_Progress.thy ===== *)
theory Fd_Progress
  imports Fd_Laws
begin

text \<open>
  \<open>pldm_fd_progress\<close>: the requests the device sends of its own accord, the retries and the
  timeout. The lemmas continue the locale \<open>fd_client\<close>: every call returns, keeps the invariant
  and calls the application in the order of \<open>app_step\<close>.
\<close>

section \<open>Progress\<close>

lemma next_instance_small:
  "fst (pldm_fd_req_next_instance rq) \<le> PLDM_INSTANCE_MAX"
  "pldm_fd_req_next_instance rq = (i, rq') \<Longrightarrow> rq' = rq\<lparr>rq_instance_id := i\<rparr>"
proof -
  have "unat (of_nat (m mod 32) :: u8) \<le> 31" for m
  proof -
    have "m mod 32 < 32" by simp
    then show ?thesis by (simp add: unsigned_of_nat take_bit_nat_eq_self del: mod_less_divisor)
  qed
  then show "fst (pldm_fd_req_next_instance rq) \<le> PLDM_INSTANCE_MAX"
    by (simp add: pldm_fd_req_next_instance_def Let_def word_le_nat_alt)
  show "pldm_fd_req_next_instance rq = (i, rq') \<Longrightarrow> rq' = rq\<lparr>rq_instance_id := i\<rparr>"
    by (auto simp: pldm_fd_req_next_instance_def Let_def)
qed

lemma app_view_instance:
  "app_view (fd\<lparr>fd_req := (fd_req fd)\<lparr>rq_instance_id := i\<rparr>\<rparr>) s = app_view fd s"
  by (cases "fd_state fd") (simp_all add: app_view_def Let_def)

lemma good_instance:
  "fd_good J fd ctx \<Longrightarrow> i \<le> PLDM_INSTANCE_MAX \<Longrightarrow>
     fd_good J (fd\<lparr>fd_req := (fd_req fd)\<lparr>rq_instance_id := i\<rparr>\<rparr>) ctx"
  by (simp add: fd_good_def fd_inv_def app_view_instance)

lemma wire_hdr_instance:
  "i \<le> PLDM_INSTANCE_MAX \<Longrightarrow> ucast (h_instance_id (wire_hdr mt i ty cmd)) = i"
  by (simp add: wire_hdr_def word_le_nat_alt)

text \<open>
  The outcome of a progress function: the state of the update is unchanged; a request of \<open>len\<close>
  bytes for the update agent and the record of it, or nothing to send.
\<close>

definition fd_requests :: "pldm_fd \<Rightarrow> pldm_msg \<Rightarrow> nat \<Rightarrow> int \<times> pldm_msg \<times> nat \<times> pldm_fd \<Rightarrow> bool" where
  "fd_requests fd req n r \<longleftrightarrow>
     (case r of (rc, req', len, fd') \<Rightarrow>
        fd_state fd' = fd_state fd \<and> fd_update_timestamp_fd_t1 fd' = fd_update_timestamp_fd_t1 fd \<and>
        fd_t1_timeout fd' = fd_t1_timeout fd \<and> fd_ua_address fd' = fd_ua_address fd \<and> rc \<le> 0 \<and> len \<le> n \<and>
        m_addr req' = m_addr req \<and> length (m_payload req') = length (m_payload req) \<and>
        (rq_state (fd_req fd') = PLDM_FD_REQ_SENT \<or> rq_state (fd_req fd') = rq_state (fd_req fd)) \<and>
        (rc = 0 \<and> len > 0 \<longrightarrow>
           rq_state (fd_req fd') = PLDM_FD_REQ_SENT \<and>
           m_hdr req' = wire_hdr PLDM_REQUEST (rq_instance_id (fd_req fd')) PLDM_FWUP (rq_command (fd_req fd')) \<and>
           rq_instance_id (fd_req fd') = fst (pldm_fd_req_next_instance (fd_req fd))))"

context fd_client
begin

abbreviation progressed :: "pldm_fd \<Rightarrow> pldm_msg \<Rightarrow> nat \<Rightarrow> 'c fd_result \<Rightarrow> bool" where
  "progressed fd req n \<equiv> returns (\<lambda>(rc, req', len, fd', ctx').
     good fd' ctx' \<and> fd_requests fd req n (rc, req', len, fd'))"

lemma nothing_to_send:
  "good fd' ctx \<Longrightarrow> fd_state fd' = fd_state fd \<Longrightarrow>
     fd_update_timestamp_fd_t1 fd' = fd_update_timestamp_fd_t1 fd \<Longrightarrow>
     fd_t1_timeout fd' = fd_t1_timeout fd \<Longrightarrow> fd_ua_address fd' = fd_ua_address fd \<Longrightarrow>
     rq_state (fd_req fd') = rq_state (fd_req fd) \<Longrightarrow>
     progressed fd req n (Some (0, req, 0, fd', ctx))"
  by (simp add: returns_def fd_requests_def)

lemma sent_request_post:
  assumes ok: "ops_ok ops" and good: "good fd1 ctx" and n: "msg_holds n req"
    and enc: "message_encoder enc (wire_hdr PLDM_REQUEST i PLDM_FWUP cmd) bs"
    and i: "i = fst (pldm_fd_req_next_instance (fd_req fd))" "rq_instance_id (fd_req fd1) = i"
    and cmd: "cmd \<in> {PLDM_REQUEST_FIRMWARE_DATA, PLDM_TRANSFER_COMPLETE, PLDM_VERIFY_COMPLETE,
                     PLDM_APPLY_COMPLETE}"
    and fd: "fd_state fd1 = fd_state fd" "fd_update_timestamp_fd_t1 fd1 = fd_update_timestamp_fd_t1 fd"
      "fd_t1_timeout fd1 = fd_t1_timeout fd" "fd_ua_address fd1 = fd_ua_address fd"
      "rq_state (fd_req fd1) = rq_state (fd_req fd)"
    and complete: "fd_state fd \<noteq> PLDM_FD_STATE_DOWNLOAD \<Longrightarrow> rq_complete (fd_req fd1)"
  shows "progressed fd req n (sent_request ops fd1 ctx (enc (Some req) (Some n)))"
proof (rule message_encoder.encoded_cases [OF enc n], goal_cases)
  case 1
  obtain now ctx' where t: "pldm_fd_now ops ctx = Some (now, ctx')" "good fd1 ctx'"
    using now_good [OF ok good] by blast
  let ?h = "wire_hdr PLDM_REQUEST i PLDM_FWUP cmd"
  have small: "i \<le> PLDM_INSTANCE_MAX" unfolding i(1) by (rule next_instance_small)
  let ?fd = "fd1\<lparr>fd_req := (fd_req fd1)\<lparr>rq_state := PLDM_FD_REQ_SENT, rq_instance_id := i, rq_command := cmd,
    rq_sent_time := now\<rparr>\<rparr>"
  have view: "app_view ?fd s = app_view fd1 s" for s
    by (cases "fd_state fd1") (simp_all add: app_view_def Let_def)
  have "good ?fd ctx'"
    using t(2) cmd complete small fd(1) by (auto simp: fd_good_def view fd_inv_def)
  moreover have "sent_request ops fd1 ctx (enc (Some req) (Some n)) =
      Some (0, sent ?h bs req, length bs, ?fd, ctx')"
    using 1 t(1) wire_hdr_instance [OF small, of PLDM_REQUEST PLDM_FWUP cmd]
    by (simp add: sent_request_def sent_def wire_hdr_def)
  moreover have "length (poke (m_payload req) 0 bs) = length (m_payload req)"
    using 1(1) n by (simp add: msg_holds_def)
  ultimately show ?thesis
    using 1(1) i fd by (simp add: returns_def fd_requests_def sent_def)
next
  case (2 p)
  then show ?thesis using good fd by (simp add: sent_request_def returns_def fd_requests_def)
qed

lemma should_send_post:
  assumes ok: "ops_ok ops" and good: "good fd ctx" and active: "component_active (fd_state fd)"
  obtains b ctx' where "pldm_fd_req_should_send ops fd ctx = Some (b, ctx')" "good fd ctx'"
    "rq_state (fd_req fd) = PLDM_FD_REQ_READY \<Longrightarrow> b" "rq_state (fd_req fd) = PLDM_FD_REQ_FAILED \<Longrightarrow> \<not> b"
proof -
  obtain now ctx' where t: "pldm_fd_now ops ctx = Some (now, ctx')" "good fd ctx'"
    using now_good [OF ok good] by blast
  have "rq_state (fd_req fd) \<noteq> PLDM_FD_REQ_UNUSED" using good active by (simp add: fd_good_def fd_inv_def)
  then show thesis
    using that t
    by (cases "rq_state (fd_req fd)"; cases "now < rq_sent_time (fd_req fd)")
      (auto simp: pldm_fd_req_should_send_def)
qed

end

context fd_client
begin

lemma progress_download_post:
  assumes ok: "ops_ok ops" and good: "good fd ctx" and n: "msg_holds n req"
    and st: "fd_state fd = PLDM_FD_STATE_DOWNLOAD"
  shows "progressed fd req n (pldm_fd_progress_download ops fd ctx req n)"
proof -
  have act: "component_active (fd_state fd)" using st by (simp add: component_active_def)
  obtain b ctx1 where s: "pldm_fd_req_should_send ops fd ctx = Some (b, ctx1)" "good fd ctx1"
    using should_send_post [OF ok good act] by blast
  obtain i rq where i: "pldm_fd_req_next_instance (fd_req fd) = (i, rq)" by fastforce
  let ?fd = "fd\<lparr>fd_req := (fd_req fd)\<lparr>rq_instance_id := i\<rparr>\<rparr>"
  have rq: "fd\<lparr>fd_req := rq\<rparr> = ?fd" using next_instance_small(2) [OF i] by simp
  have small: "i \<le> PLDM_INSTANCE_MAX" using next_instance_small(1) [of "fd_req fd"] by (simp add: i)
  have good1: "good ?fd ctx1" by (rule good_instance [OF s(2) small])
  obtain k where k: "pldm_fd_fwdata_size ?fd = Some k"
    using fwdata_size_inv [of ?fd] good1 st by (auto simp: fd_good_def)
  note post = sent_request_post [OF ok good1 n]
  show ?thesis
    using s nothing_to_send [OF s(2)] k st i
      post [OF fwup_encoders(5) [OF small, of "rq_result (fd_req fd)"], of fd]
      post [OF fwup_encoders(4) [OF small, of "fd_specific fd" k], of fd]
    by (simp add: pldm_fd_progress_download_def rq Let_def)
qed

text \<open>What \<open>verify\<close> and \<open>apply\<close> leave: the percentage is all that changes besides the request.\<close>

lemma good_set_progress:
  "fd_state fd \<noteq> PLDM_FD_STATE_DOWNLOAD \<Longrightarrow> good (set_progress_percent p fd) ctx = good fd ctx"
  by (cases "fd_state fd") (simp_all add: fd_good_def fd_inv_def app_view_def set_progress_percent_def Let_def)

lemma complete_post:
  assumes ok: "ops_ok ops" and good: "good fd1 ctx1" and n: "msg_holds n req"
    and fd: "fd_state fd1 = fd_state fd" "fd_update_timestamp_fd_t1 fd1 = fd_update_timestamp_fd_t1 fd"
      "fd_t1_timeout fd1 = fd_t1_timeout fd" "fd_ua_address fd1 = fd_ua_address fd"
      "rq_instance_id (fd_req fd1) = rq_instance_id (fd_req fd)" "rq_complete (fd_req fd1)"
      "rq_state (fd_req fd1) = rq_state (fd_req fd)"
    and enc: "\<And>i. i \<le> PLDM_INSTANCE_MAX \<Longrightarrow>
      message_encoder (enc i) (wire_hdr PLDM_REQUEST i PLDM_FWUP cmd) bs"
    and cmd: "cmd \<in> {PLDM_VERIFY_COMPLETE, PLDM_APPLY_COMPLETE}"
  shows "progressed fd req n (let (instance_id, rq) = pldm_fd_req_next_instance (fd_req fd1);
      fd2 = fd1\<lparr>fd_req := rq\<rparr> in sent_request ops fd2 ctx1 (enc instance_id (Some req) (Some n)))"
proof -
  obtain i rq where i: "pldm_fd_req_next_instance (fd_req fd1) = (i, rq)" by fastforce
  let ?fd = "fd1\<lparr>fd_req := (fd_req fd1)\<lparr>rq_instance_id := i\<rparr>\<rparr>"
  have rq: "fd1\<lparr>fd_req := rq\<rparr> = ?fd" using next_instance_small(2) [OF i] by simp
  have small: "i \<le> PLDM_INSTANCE_MAX" using next_instance_small(1) [of "fd_req fd1"] by (simp add: i)
  have i2: "i = fst (pldm_fd_req_next_instance (fd_req fd))"
    using i fd(5) by (auto simp: pldm_fd_req_next_instance_def Let_def)
  have "progressed fd req n (sent_request ops ?fd ctx1 (enc i (Some req) (Some n)))"
    using fd cmd i2 by (intro sent_request_post [OF ok good_instance [OF good small] n enc [OF small]]) auto
  then show ?thesis using i rq by simp
qed

lemma progress_verify_post:
  assumes ok: "ops_ok ops" and good: "good fd ctx" and n: "msg_holds n req"
    and st: "fd_state fd = PLDM_FD_STATE_VERIFY"
  shows "progressed fd req n (pldm_fd_progress_verify ops fd ctx req n)"
proof -
  have act: "component_active (fd_state fd)" using st by (simp add: component_active_def)
  obtain b ctx1 where s: "pldm_fd_req_should_send ops fd ctx = Some (b, ctx1)" "good fd ctx1"
    using should_send_post [OF ok good act] by blast
  obtain f where f: "op_verify ops = Some f" using ok unfolding ops_ok_def by blast
  obtain res pending pct ctx2 where c: "f ctx1 (fd_update_comp fd) False (progress_percent fd) =
      (res, pending, pct, ctx2)"
    by (cases "f ctx1 (fd_update_comp fd) False (progress_percent fd)") auto
  let ?c = "fd_update_comp fd"
  let ?s = "if res = 0 then if pending then App_loading ?c (unat (cm_image_size ?c)) else App_verified ?c
    else App_failed ?c"
  have J: "\<not> rq_complete (fd_req fd) \<Longrightarrow> J ?s ctx2"
    using s(2) st J_verify [OF f _ c] by (auto simp: fd_good_def app_view_def Let_def)
  define fd1 where "fd1 = (set_progress_percent pct fd)\<lparr>fd_req := (fd_req fd)
    \<lparr>rq_result := (if pending then PLDM_FWUP_VENDOR_VERIFY_RESULT_RANGE_MAX else res), rq_complete := True\<rparr>\<rparr>"
  have good1: "\<not> rq_complete (fd_req fd) \<Longrightarrow> \<not> (pending \<and> res = 0) \<Longrightarrow> good fd1 ctx2"
    using J s(2) st
    by (auto simp: fd1_def set_progress_percent_def fd_good_def app_view_def Let_def fd_inv_def)
  have good2: "\<not> rq_complete (fd_req fd) \<Longrightarrow> pending \<and> res = 0 \<Longrightarrow> good (set_progress_percent pct fd) ctx2"
    using J s(2) st by (simp add: good_set_progress) (simp add: fd_good_def app_view_def Let_def)
  have fd1: "fd_state fd1 = fd_state fd" "fd_update_timestamp_fd_t1 fd1 = fd_update_timestamp_fd_t1 fd"
      "fd_t1_timeout fd1 = fd_t1_timeout fd" "fd_ua_address fd1 = fd_ua_address fd"
      "rq_instance_id (fd_req fd1) = rq_instance_id (fd_req fd)" "rq_complete (fd_req fd1)"
      "rq_state (fd_req fd1) = rq_state (fd_req fd)"
    by (simp_all add: fd1_def set_progress_percent_def)
  note enc = fwup_encoders(6)
  consider "\<not> b" | "b" "rq_complete (fd_req fd)" | "b" "\<not> rq_complete (fd_req fd)" "pending \<and> res = 0"
    | "b" "\<not> rq_complete (fd_req fd)" "\<not> (pending \<and> res = 0)" by blast
  then show ?thesis
  proof cases
    case 1
    then show ?thesis using s nothing_to_send [OF s(2)] by (simp add: pldm_fd_progress_verify_def)
  next
    case 2
    then show ?thesis
      using s complete_post [OF ok s(2) n, of fd "\<lambda>i. encode_verify_complete_req i (rq_result (fd_req fd))"
          PLDM_VERIFY_COMPLETE "[rq_result (fd_req fd)]"] fwup_encoders(6)
      by (simp add: pldm_fd_progress_verify_def pldm_fd_req_next_instance_def Let_def)
  next
    case 3
    then show ?thesis
      using s f c nothing_to_send [OF good2] by (simp add: pldm_fd_progress_verify_def set_progress_percent_def)
  next
    case 4
    have "pldm_fd_progress_verify ops fd ctx req n =
        (let (instance_id, rq) = pldm_fd_req_next_instance (fd_req fd1); fd2 = fd1\<lparr>fd_req := rq\<rparr> in
         sent_request ops fd2 ctx2 (encode_verify_complete_req instance_id (rq_result (fd_req fd1))
           (Some req) (Some n)))"
      using 4 s f c
      by (auto simp: pldm_fd_progress_verify_def fd1_def set_progress_percent_def pldm_fd_req_next_instance_def Let_def)
    then show ?thesis
      using 4 complete_post [OF ok good1 n fd1, where cmd = PLDM_VERIFY_COMPLETE and
          enc = "\<lambda>i. encode_verify_complete_req i (rq_result (fd_req fd1))" and bs = "[rq_result (fd_req fd1)]"]
        fwup_encoders(6) by simp
  qed
qed

end


context fd_client
begin

lemma progress_apply_post:
  assumes ok: "ops_ok ops" and good: "good fd ctx" and n: "msg_holds n req"
    and st: "fd_state fd = PLDM_FD_STATE_APPLY"
  shows "progressed fd req n (pldm_fd_progress_apply ops fd ctx req n)"
proof -
  have act: "component_active (fd_state fd)" using st by (simp add: component_active_def)
  obtain b ctx1 where s: "pldm_fd_req_should_send ops fd ctx = Some (b, ctx1)" "good fd ctx1"
    using should_send_post [OF ok good act] by blast
  obtain f where f: "op_apply ops = Some f" using ok unfolding ops_ok_def by blast
  obtain res pending pct ctx2 where c: "f ctx1 (fd_update_comp fd) False (progress_percent fd) =
      (res, pending, pct, ctx2)"
    by (cases "f ctx1 (fd_update_comp fd) False (progress_percent fd)") auto
  let ?c = "fd_update_comp fd"
  let ?s = "if res = 0 \<and> pending then App_verified ?c
    else if (res = 0 \<or> res = 1) \<and> \<not> pending then App_none else App_failed ?c"
  have J: "\<not> rq_complete (fd_req fd) \<Longrightarrow> J ?s ctx2"
    using s(2) st J_apply [OF f _ c] by (auto simp: fd_good_def app_view_def Let_def)
  define fd1 where "fd1 = (set_progress_percent pct fd)\<lparr>fd_req := (fd_req fd)
    \<lparr>rq_result := (if pending then PLDM_FWUP_VENDOR_APPLY_RESULT_RANGE_MAX
      else if res = PLDM_FWUP_APPLY_SUCCESS_WITH_ACTIVATION_METHOD then PLDM_FWUP_APPLY_SUCCESS else res), rq_complete := True\<rparr>\<rparr>"
  have good1: "\<not> rq_complete (fd_req fd) \<Longrightarrow> \<not> (pending \<and> res = 0) \<Longrightarrow> good fd1 ctx2"
    using J s(2) st
    by (auto simp: fd1_def set_progress_percent_def fd_good_def app_view_def Let_def fd_inv_def)
  have good2: "\<not> rq_complete (fd_req fd) \<Longrightarrow> pending \<and> res = 0 \<Longrightarrow> good (set_progress_percent pct fd) ctx2"
    using J s(2) st by (simp add: good_set_progress) (simp add: fd_good_def app_view_def Let_def)
  have fd1: "fd_state fd1 = fd_state fd" "fd_update_timestamp_fd_t1 fd1 = fd_update_timestamp_fd_t1 fd"
      "fd_t1_timeout fd1 = fd_t1_timeout fd" "fd_ua_address fd1 = fd_ua_address fd"
      "rq_instance_id (fd_req fd1) = rq_instance_id (fd_req fd)" "rq_complete (fd_req fd1)"
      "rq_state (fd_req fd1) = rq_state (fd_req fd)"
    by (simp_all add: fd1_def set_progress_percent_def)
  note enc = fwup_encoders(7)
  consider "\<not> b" | "b" "rq_complete (fd_req fd)" | "b" "\<not> rq_complete (fd_req fd)" "pending \<and> res = 0"
    | "b" "\<not> rq_complete (fd_req fd)" "\<not> (pending \<and> res = 0)" by blast
  then show ?thesis
  proof cases
    case 1
    then show ?thesis using s nothing_to_send [OF s(2)] by (simp add: pldm_fd_progress_apply_def)
  next
    case 2
    then show ?thesis
      using s complete_post [OF ok s(2) n, of fd "\<lambda>i. encode_apply_complete_req i (rq_result (fd_req fd)) 0"
          PLDM_APPLY_COMPLETE "rq_result (fd_req fd) # le_of_word (0 :: u16)"] fwup_encoders(7)
      by (simp add: pldm_fd_progress_apply_def pldm_fd_req_next_instance_def Let_def)
  next
    case 3
    then show ?thesis
      using s f c nothing_to_send [OF good2] by (simp add: pldm_fd_progress_apply_def set_progress_percent_def)
  next
    case 4
    have "pldm_fd_progress_apply ops fd ctx req n =
        (let (instance_id, rq) = pldm_fd_req_next_instance (fd_req fd1); fd2 = fd1\<lparr>fd_req := rq\<rparr> in
         sent_request ops fd2 ctx2 (encode_apply_complete_req instance_id (rq_result (fd_req fd1)) 0
           (Some req) (Some n)))"
      using 4 s f c
      by (auto simp: pldm_fd_progress_apply_def fd1_def set_progress_percent_def pldm_fd_req_next_instance_def Let_def)
    then show ?thesis
      using 4 complete_post [OF ok good1 n fd1, where cmd = PLDM_APPLY_COMPLETE and
          enc = "\<lambda>i. encode_apply_complete_req i (rq_result (fd_req fd1)) 0" and bs = "rq_result (fd_req fd1) # le_of_word (0 :: u16)"]
        fwup_encoders(7) by simp
  qed
qed

end

section \<open>The timeout\<close>

fun timeout_reason :: "pldm_firmware_device_states \<Rightarrow> pldm_get_status_reason_code_values" where
  "timeout_reason PLDM_FD_STATE_LEARN_COMPONENTS = PLDM_FD_TIMEOUT_LEARN_COMPONENT"
| "timeout_reason PLDM_FD_STATE_READY_XFER = PLDM_FD_TIMEOUT_READY_XFER"
| "timeout_reason PLDM_FD_STATE_DOWNLOAD = PLDM_FD_TIMEOUT_DOWNLOAD"
| "timeout_reason PLDM_FD_STATE_VERIFY = PLDM_FD_TIMEOUT_VERIFY"
| "timeout_reason PLDM_FD_STATE_APPLY = PLDM_FD_TIMEOUT_APPLY"
| "timeout_reason _ = PLDM_FD_ACTIVATE_FW"

lemma idle_timeout_eq:
  "fd_state fd \<noteq> PLDM_FD_STATE_IDLE \<Longrightarrow>
     pldm_fd_idle_timeout fd = pldm_fd_set_idle (timeout_reason (fd_state fd)) fd"
  by (cases "fd_state fd") (simp_all add: pldm_fd_idle_timeout_def)

text \<open>The states in which the device waits for the update agent.\<close>

definition awaits_ua :: "pldm_fd \<Rightarrow> bool" where
  "awaits_ua fd \<longleftrightarrow>
     fd_state fd \<noteq> PLDM_FD_STATE_IDLE \<and>
     (component_active (fd_state fd) \<longrightarrow> rq_state (fd_req fd) = PLDM_FD_REQ_SENT)"

text \<open>The device as \<open>pldm_fd_progress\<close> leaves it: as it was, or idle after a timeout.\<close>

definition progress_moves :: "pldm_fd \<Rightarrow> pldm_fd \<Rightarrow> bool" where
  "progress_moves fd fd' \<longleftrightarrow>
     fd_state fd' = fd_state fd \<or>
     fd_state fd \<noteq> PLDM_FD_STATE_IDLE \<and> fd_state fd' = PLDM_FD_STATE_IDLE \<and>
       fd_prev_state fd' = fd_state fd \<and> fd_reason fd' = timeout_reason (fd_state fd)"

text \<open>
  The message it leaves: nothing, or a request of the update to the address of the update
  agent, under an instance of its own, with the request remembered.
\<close>

definition progress_sends ::
    "pldm_fd \<Rightarrow> pldm_msg \<Rightarrow> nat \<Rightarrow> int \<times> pldm_msg \<times> nat \<times> u8 option \<times> pldm_fd \<Rightarrow> bool" where
  "progress_sends fd req n r \<longleftrightarrow>
     (case r of (rc, req', len, addr, fd') \<Rightarrow>
        rc \<le> 0 \<and> len \<le> n \<and> m_addr req' = m_addr req \<and>
        length (m_payload req') = length (m_payload req) \<and>
        (3 \<le> n \<and> len > 0 \<longrightarrow>
           rc = 0 \<and> 3 < len \<and> component_active (fd_state fd) \<and> fd_state fd' = fd_state fd \<and>
           addr = Some (fd_ua_address fd) \<and> rq_state (fd_req fd') = PLDM_FD_REQ_SENT \<and>
           rq_instance_id (fd_req fd') = fst (pldm_fd_req_next_instance (fd_req fd)) \<and>
           m_hdr req' = wire_hdr PLDM_REQUEST (rq_instance_id (fd_req fd')) PLDM_FWUP
             (rq_command (fd_req fd'))))"

text \<open>The two halves of \<open>pldm_fd_progress\<close>: what is sent, and what becomes of it at a timeout.\<close>

definition progress_step ::
    "'c pldm_fd_ops \<Rightarrow> pldm_fd \<Rightarrow> 'c \<Rightarrow> pldm_msg \<Rightarrow> nat \<Rightarrow> 'c fd_result" where
  "progress_step ops fd ctx req n =
     (case fd_state fd of
        PLDM_FD_STATE_DOWNLOAD \<Rightarrow> pldm_fd_progress_download ops fd ctx req n
      | PLDM_FD_STATE_VERIFY \<Rightarrow> pldm_fd_progress_verify ops fd ctx req n
      | PLDM_FD_STATE_APPLY \<Rightarrow> pldm_fd_progress_apply ops fd ctx req n
      | _ \<Rightarrow> Some (- EINVAL, req, 0, fd, ctx))"

definition timeout_step :: "'c pldm_fd_ops \<Rightarrow> nat \<Rightarrow> pldm_fd \<Rightarrow> 'c \<Rightarrow> (nat \<times> pldm_fd \<times> 'c) option" where
  "timeout_step ops len fd ctx =
     (if awaits_ua fd then do {
        (now, ctx) \<leftarrow> pldm_fd_now ops ctx;
        if now - fd_update_timestamp_fd_t1 fd > fd_t1_timeout fd then do {
          ctx \<leftarrow> pldm_fd_maybe_cancel_component ops fd ctx;
          Some (0, pldm_fd_set_idle (timeout_reason (fd_state fd)) fd, ctx) }
        else Some (len, fd, ctx) }
      else Some (len, fd, ctx))"

lemma fd_progress_steps:
  assumes "3 \<le> n"
  shows "fd_progress ops fd ctx req n (Some a) = do {
    (rc, req, len, fd, ctx) \<leftarrow> progress_step ops fd ctx req (n - 3);
    (len, fd, ctx) \<leftarrow> timeout_step ops len fd ctx;
    Some (if rc = 0 \<and> fd_ua_address_set fd \<and> len > 0
          then (rc, req, len + 3, Some (fd_ua_address fd), fd, ctx) else (rc, req, 0, Some a, fd, ctx)) }"
proof -
  have check: "(case fd_state fd of
             PLDM_FD_STATE_DOWNLOAD \<Rightarrow> rq_state (fd_req fd) = PLDM_FD_REQ_SENT
           | PLDM_FD_STATE_VERIFY \<Rightarrow> rq_state (fd_req fd) = PLDM_FD_REQ_SENT
           | PLDM_FD_STATE_APPLY \<Rightarrow> rq_state (fd_req fd) = PLDM_FD_REQ_SENT
           | PLDM_FD_STATE_IDLE \<Rightarrow> False
           | _ \<Rightarrow> True) = awaits_ua fd" for fd
    by (cases "fd_state fd") (simp_all add: awaits_ua_def component_active_def)
  have wait: "(do { (now, ctx) \<leftarrow> pldm_fd_now ops ctx;
        if now - fd_update_timestamp_fd_t1 fd > fd_t1_timeout fd then do {
          ctx \<leftarrow> pldm_fd_maybe_cancel_component ops fd ctx; Some (0, pldm_fd_idle_timeout fd, ctx) }
        else Some (len, fd, ctx) }) = timeout_step ops len fd ctx" if "awaits_ua fd" for len fd ctx
    using that by (simp add: timeout_step_def idle_timeout_eq [OF that [unfolded awaits_ua_def, THEN conjunct1]]
        cong: if_cong)
  have wait': "(if awaits_ua fd then do { (now, ctx) \<leftarrow> pldm_fd_now ops ctx;
        if now - fd_update_timestamp_fd_t1 fd > fd_t1_timeout fd then do {
          ctx \<leftarrow> pldm_fd_maybe_cancel_component ops fd ctx; Some (0, pldm_fd_idle_timeout fd, ctx) }
        else Some (len, fd, ctx) } else Some (len, fd, ctx)) = timeout_step ops len fd ctx" for len fd ctx
    by (cases "awaits_ua fd") (simp_all only: wait if_True if_False, simp add: timeout_step_def)
  show ?thesis
    unfolding fd_progress_def progress_step_def [symmetric] check Let_def wait'
    using assms by (simp add: if_distrib [of Some, symmetric] cong: if_cong)
qed

context fd_client
begin

lemma progress_step_post:
  assumes ok: "ops_ok ops" and good: "good fd ctx" and n: "msg_holds n req"
  shows "progressed fd req n (progress_step ops fd ctx req n)"
    and "\<not> component_active (fd_state fd) \<Longrightarrow>
      progress_step ops fd ctx req n = Some (- EINVAL, req, 0, fd, ctx)"
proof -
  show idle: "progress_step ops fd ctx req n = Some (- EINVAL, req, 0, fd, ctx)"
    if "\<not> component_active (fd_state fd)"
    using that by (cases "fd_state fd") (simp_all add: progress_step_def component_active_def)
  show "progressed fd req n (progress_step ops fd ctx req n)"
  proof (cases "component_active (fd_state fd)")
    case True
    then show ?thesis
      using progress_download_post [OF ok good n] progress_verify_post [OF ok good n]
        progress_apply_post [OF ok good n]
      by (auto simp: progress_step_def component_active_def)
  next
    case False
    then show ?thesis using idle good by (simp add: returns_def fd_requests_def)
  qed
qed

lemma timeout_step_post:
  assumes ok: "ops_ok ops" and good: "good fd ctx"
  obtains ctx' where "timeout_step ops len fd ctx = Some (len, fd, ctx')" "good fd ctx'"
  | ctx' where "awaits_ua fd"
      "timeout_step ops len fd ctx = Some (0, pldm_fd_set_idle (timeout_reason (fd_state fd)) fd, ctx')"
      "good (pldm_fd_set_idle (timeout_reason (fd_state fd)) fd) ctx'"
proof (cases "awaits_ua fd")
  case False
  then show thesis using that(1) good by (simp add: timeout_step_def)
next
  case True
  obtain now ctx1 where t: "pldm_fd_now ops ctx = Some (now, ctx1)" "good fd ctx1"
    using now_good [OF ok good] by blast
  show thesis
  proof (cases "now - fd_update_timestamp_fd_t1 fd > fd_t1_timeout fd")
    case late: True
    obtain ctx2 where c: "pldm_fd_maybe_cancel_component ops fd ctx1 = Some ctx2" "J App_none ctx2"
      using maybe_cancel_good [OF ok t(2)] by blast
    have "fd_inv fd" using good by (simp add: fd_good_def)
    with that(2) [of ctx2] True late t(1) c show thesis by (simp add: timeout_step_def set_idle_good)
  next
    case False
    then show thesis using that(1) [of ctx1] True t by (simp add: timeout_step_def)
  qed
qed

lemma fd_progress_post:
  assumes ok: "ops_ok ops" and good: "good fd ctx" and n: "msg_holds (n - 3) req"
  shows "returns (\<lambda>(rc, req', len, addr, fd', ctx'). good fd' ctx' \<and> progress_moves fd fd' \<and>
      progress_sends fd req n (rc, req', len, addr, fd')) (fd_progress ops fd ctx req n (Some a))"
proof (cases "3 \<le> n")
  case False
  then show ?thesis
    using good by (simp add: fd_progress_def returns_def progress_moves_def progress_sends_def)
next
  case True
  obtain rc req1 len fd1 ctx1 where s: "progress_step ops fd ctx req (n - 3) = Some (rc, req1, len, fd1, ctx1)"
      "good fd1 ctx1" "fd_requests fd req (n - 3) (rc, req1, len, fd1)"
    using progress_step_post(1) [OF ok good n] by (auto simp: returns_def)
  have active: "component_active (fd_state fd)" if "rc = 0"
    using progress_step_post(2) [OF ok good n] s(1) that by auto
  have moved: "progress_moves fd fd2" if "awaits_ua fd1"
      "fd2 = pldm_fd_set_idle (timeout_reason (fd_state fd1)) fd1" for fd2
    using that s(3) by (simp add: progress_moves_def fd_requests_def pldm_fd_set_idle_def awaits_ua_def)
  show ?thesis
  proof (rule timeout_step_post [OF ok s(2), of len], goal_cases)
    case (1 ctx2)
    then show ?thesis
      using s(1,3) active True
      by (auto simp: fd_progress_steps [OF True] returns_def progress_moves_def progress_sends_def fd_requests_def)
  next
    case (2 ctx2)
    then show ?thesis
      using s(1,3) True moved
      by (simp add: fd_progress_steps [OF True] returns_def progress_sends_def fd_requests_def)
  qed
qed

end

section \<open>Messages\<close>

text \<open>The header of a message as \<open>unpack_pldm_header\<close> reads it.\<close>

definition header_of :: "pldm_msg \<Rightarrow> pldm_header_info" where
  "header_of msg = snd (unpack_pldm_header_errno (Some (m_hdr msg)) header_zero)"

lemma header_of_simps [simp]:
  "hi_instance (header_of msg) = ucast (h_instance_id (m_hdr msg))"
  "hi_command (header_of msg) = h_command (m_hdr msg)"
  "hi_pldm_type (header_of msg) = ucast (h_type (m_hdr msg))"
  by (simp_all add: header_of_def header_zero_def)

lemma unpack_header_of: "unpack_pldm_header (Some (m_hdr msg)) header_zero = Some (0, header_of msg)"
  by (simp add: unpack_pldm_header_def header_of_def)

text \<open>A request for the firmware update type that the device looks at.\<close>

definition fwup_request :: "pldm_msg \<Rightarrow> bool" where
  "fwup_request msg \<longleftrightarrow>
     h_type (m_hdr msg) = ucast (PLDM_FWUP :: u8) \<and> h_request (m_hdr msg) \<noteq> PLDM_RESPONSE \<and>
     h_datagram (m_hdr msg) = 0"

lemma handle_msg_request:
  assumes "fwup_request req" "3 \<le> in_len"
  shows "fd_handle_msg ops lo fd ctx a req in_len resp out_len =
    fd_handle_request ops lo fd ctx a (header_of req) req (in_len - 3) resp out_len"
  using assms
  by (simp add: fd_handle_msg_def unpack_header_of fwup_request_def) (simp add: header_of_def)

context fd_client
begin

text \<open>
  Any message, of any type and length: the call returns, keeps the invariant, and the length it
  reports is within the buffer.
\<close>

lemma handle_msg_post:
  assumes ok: "ops_ok ops" and good: "good fd ctx"
    and req: "msg_holds (in_len - 3) req" and resp: "msg_holds (out_len - 3) resp"
  shows "returns (\<lambda>(rc, resp', len, fd', ctx'). good fd' ctx' \<and> len \<le> out_len \<and>
      m_addr resp' = m_addr resp \<and> length (m_payload resp') = length (m_payload resp))
    (fd_handle_msg ops lo fd ctx a req in_len resp out_len)"
proof -
  have inst: "hi_instance (header_of req) \<le> PLDM_INSTANCE_MAX" by (simp add: instance_id_small)
  consider (ignored) rc where "fd_handle_msg ops lo fd ctx a req in_len resp out_len =
        Some (rc, resp, out_len, fd, ctx)"
    | (response) "fd_handle_msg ops lo fd ctx a req in_len resp out_len = do {
        (rc, fd, ctx) \<leftarrow> pldm_fd_handle_resp ops fd ctx a req in_len; Some (rc, resp, 0, fd, ctx) }"
    | (request) "fd_handle_msg ops lo fd ctx a req in_len resp out_len =
        fd_handle_request ops lo fd ctx a (header_of req) req (in_len - 3) resp out_len"
    by (cases "in_len < 3"; cases "hi_pldm_type (header_of req) \<noteq> PLDM_FWUP";
        cases "hi_msg_type (header_of req) = PLDM_RESPONSE";
        cases "hi_msg_type (header_of req) \<noteq> PLDM_REQUEST")
      (simp_all add: fd_handle_msg_def unpack_header_of)
  then show ?thesis
  proof cases
    case ignored
    then show ?thesis using good by (simp add: returns_def)
  next
    case response
    then show ?thesis
      using handle_resp_post [OF ok good req, of a] by (auto simp: returns_def)
  next
    case request
    show ?thesis
    proof (cases "4 \<le> out_len")
      case True
      then show ?thesis
        unfolding request
        using handle_request_post [OF ok good inst resp True req, of lo a]
        by (elim returns_mono) (auto simp: request_answered_def)
    next
      case False
      then show ?thesis using good by (simp add: request fd_handle_request_def returns_def)
    qed
  qed
qed

end

end
