(* ===== verification/Fd_Run.thy ===== *)
theory Fd_Run
  imports Fd_Progress "HOL-Library.Code_Target_Nat"
begin

text \<open>
  The firmware device as a running system: the states it can reach by any sequence of messages
  and calls of \<open>pldm_fd_progress\<close>, with a log of what the application was called for. The
  interface \<open>fd_client\<close> is interpreted twice on the handlers of \<open>Fd\<close>: for any application, and
  for an application that keeps a log.
\<close>

section \<open>Interpretations\<close>

interpretation plain: fd_client ops "\<lambda>_ _. True" for ops :: "'c pldm_fd_ops"
  by unfold_locales simp_all

text \<open>The application with a log of the calls that matter to an update.\<close>

definition logged :: "'c pldm_fd_ops \<Rightarrow> ('c \<times> fd_event list) pldm_fd_ops" where
  "logged ops =
     \<lparr>op_device_identifiers = map_option (\<lambda>f (ctx, log).
        let (rc, n, ds, ctx) = f ctx in (rc, n, ds, ctx, log)) (op_device_identifiers ops),
      op_components = map_option (\<lambda>f (ctx, log).
        let (rc, n, es, ctx) = f ctx in (rc, n, es, ctx, log)) (op_components ops),
      op_imageset_versions = map_option (\<lambda>f (ctx, log) a p.
        let (rc, a, p, ctx) = f ctx a p in (rc, a, p, ctx, log)) (op_imageset_versions ops),
      op_update_component = map_option (\<lambda>f (ctx, log) update c.
        let (res, ctx) = f ctx update c
        in (res, ctx, log @ [if update then Ev_update c res else Ev_pass c res])) (op_update_component ops),
      op_transfer_size = map_option (\<lambda>f (ctx, log) m.
        let (k, ctx) = f ctx m in (k, ctx, log)) (op_transfer_size ops),
      op_firmware_data = map_option (\<lambda>f (ctx, log) off bytes len c.
        let (res, ctx) = f ctx off bytes len c
        in (res, ctx, log @ [Ev_data off bytes c res])) (op_firmware_data ops),
      op_verify = map_option (\<lambda>f (ctx, log) c pending pct.
        let (res, pending, pct, ctx) = f ctx c pending pct
        in (res, pending, pct, ctx, log @ [Ev_verify c res pending])) (op_verify ops),
      op_apply = map_option (\<lambda>f (ctx, log) c pending pct.
        let (res, pending, pct, ctx) = f ctx c pending pct
        in (res, pending, pct, ctx, log @ [Ev_apply c res pending])) (op_apply ops),
      op_activate = map_option (\<lambda>f (ctx, log) self_contained t.
        let (res, t, ctx) = f ctx self_contained t
        in (res, t, ctx, log @ [Ev_activate res])) (op_activate ops),
      op_cancel_update_component = map_option (\<lambda>f (ctx, log) c.
        (f ctx c, log @ [Ev_cancel c])) (op_cancel_update_component ops),
      op_now = map_option (\<lambda>f (ctx, log). let (now, ctx) = f ctx in (now, ctx, log)) (op_now ops)\<rparr>"

fun app_run :: "app_state \<Rightarrow> fd_event list \<Rightarrow> app_state option" where
  "app_run s [] = Some s"
| "app_run s (e # es) = (case app_step e s of None \<Rightarrow> None | Some s' \<Rightarrow> app_run s' es)"

lemma app_run_append:
  "app_run s (es @ fs) = (case app_run s es of None \<Rightarrow> None | Some s' \<Rightarrow> app_run s' fs)"
  by (induction es arbitrary: s) (auto split: option.splits)

lemma app_run_snoc:
  "app_run s es = Some s' \<Longrightarrow> app_step e s' = Some s'' \<Longrightarrow> app_run s (es @ [e]) = Some s''"
  by (simp add: app_run_append)

definition log_ok :: "app_state \<Rightarrow> 'c \<times> fd_event list \<Rightarrow> bool" where
  "log_ok s ctx \<longleftrightarrow> app_run App_none (snd ctx) = Some s"

interpretation log: fd_client "logged ops" log_ok for ops :: "'c pldm_fd_ops"
  by unfold_locales
    (auto simp: logged_def log_ok_def app_run_snoc Let_def split: prod.splits if_splits)

lemma logged_ok:
  assumes "ops_ok ops"
  shows "ops_ok (logged ops)"
proof -
  have "\<exists>f. op_device_identifiers (logged ops) = Some f \<and>
        (\<forall>ctx n ds ctx'. f ctx = (0, n, Some ds, ctx') \<longrightarrow>
           unat n \<le> length ds \<and> (\<forall>d\<in>set ds. descriptor_ok d))"
    using assms unfolding ops_ok_def logged_def by (fastforce split: prod.splits)
  moreover have "\<exists>f. op_components (logged ops) = Some f \<and>
        (\<forall>ctx n es ctx'. f ctx = (0, n, es, ctx') \<longrightarrow>
           unat n \<le> length es \<and> (\<forall>e\<in>set es. entry_ok e))"
    using assms unfolding ops_ok_def logged_def by (fastforce split: prod.splits)
  moreover have "\<exists>f. op_imageset_versions (logged ops) = Some f \<and>
        (\<forall>ctx s t a p ctx'. f ctx s t = (0, a, p, ctx') \<longrightarrow> string_ok a \<and> string_ok p)"
    using assms unfolding ops_ok_def logged_def by (fastforce split: prod.splits)
  ultimately show ?thesis using assms unfolding ops_ok_def by (simp add: logged_def)
qed

section \<open>Reachable states\<close>

text \<open>
  The life of a device: set up, then messages of any kind from any address, calls of
  \<open>pldm_fd_progress\<close> and settings of the timers, in any order; between them the application
  does what it likes. \<open>req\<close> and \<open>resp\<close> are buffers of at least the length the call says.
\<close>

inductive fd_reaches :: "'c pldm_fd_ops \<Rightarrow> pldm_fd \<Rightarrow> 'c \<Rightarrow> fd_event list \<Rightarrow> bool" for ops where
  fd_setup: "pldm_fd_setup mem size_ok (Some ops) control = (0, Some fd, control') \<Longrightarrow>
     fd_reaches ops fd ctx []"
| fd_app: "fd_reaches ops fd ctx log \<Longrightarrow> fd_reaches ops fd ctx' log"
| fd_msg: "fd_reaches ops fd ctx log \<Longrightarrow> msg_holds (in_len - 3) req \<Longrightarrow> msg_holds (out_len - 3) resp \<Longrightarrow>
     pldm_fd_handle_msg (logged ops) lo (Some fd) (ctx, log) a (Some req) in_len (Some resp) (Some out_len) =
       Some (rc, resp', len', Some fd', ctx', log') \<Longrightarrow>
     fd_reaches ops fd' ctx' log'"
| fd_call: "fd_reaches ops fd ctx log \<Longrightarrow> msg_holds (out_len - 3) req \<Longrightarrow>
     pldm_fd_progress (logged ops) (Some fd) (ctx, log) (Some req) (Some out_len) (Some a) =
       Some (rc, req', len', a', Some fd', ctx', log') \<Longrightarrow>
     fd_reaches ops fd' ctx' log'"
| fd_t1: "fd_reaches ops fd ctx log \<Longrightarrow> pldm_fd_set_update_idle_timeout (Some fd) t = (0, Some fd') \<Longrightarrow>
     fd_reaches ops fd' ctx log"
| fd_t2: "fd_reaches ops fd ctx log \<Longrightarrow> pldm_fd_set_request_retry_time (Some fd) t = (0, Some fd') \<Longrightarrow>
     fd_reaches ops fd' ctx log"

lemma app_view_timers:
  "app_view (fd\<lparr>fd_t1_timeout := t\<rparr>) s = app_view fd s"
  "app_view (fd\<lparr>fd_t2_retry_time := t\<rparr>) s = app_view fd s"
  by (cases "fd_state fd"; simp add: app_view_def Let_def)+

lemma good_timers:
  "fd_good J fd ctx \<Longrightarrow> fd_good J (fd\<lparr>fd_t1_timeout := t\<rparr>) ctx"
  "fd_good J fd ctx \<Longrightarrow> fd_good J (fd\<lparr>fd_t2_retry_time := t\<rparr>) ctx"
  by (simp_all add: fd_good_def fd_inv_def app_view_timers)

lemma setup_good:
  assumes "pldm_fd_setup mem size_ok (Some ops) control = (0, Some fd, control')" "J App_none ctx"
  shows "fd_good J fd ctx"
proof -
  have "fd = zero_fd\<lparr>fd_t1_timeout := DEFAULT_FD_T1_TIMEOUT, fd_t2_retry_time := DEFAULT_FD_T2_RETRY_TIME\<rparr>"
    using assms(1)
    by (auto simp: pldm_fd_setup_def Let_def split: option.splits if_splits prod.splits)
  then show ?thesis
    using assms(2)
    by (auto simp: fd_good_def fd_inv_def zero_fd_def app_view_def component_active_def Let_def)
qed

lemma handle_msg_Some:
  "pldm_fd_handle_msg ops lo (Some fd) ctx a (Some req) in_len (Some resp) (Some out_len) = do {
     (rc, resp, len, fd, ctx) \<leftarrow> fd_handle_msg ops lo fd ctx a req in_len resp out_len;
     Some (rc, Some resp, Some len, Some fd, ctx) }"
  by (simp add: pldm_fd_handle_msg_def)

lemma progress_Some:
  "pldm_fd_progress ops (Some fd) ctx (Some req) (Some out_len) addr = do {
     (rc, req, len, addr, fd, ctx) \<leftarrow> fd_progress ops fd ctx req out_len addr;
     Some (rc, Some req, Some len, addr, Some fd, ctx) }"
  by (simp add: pldm_fd_progress_def)

lemma fd_reaches_good:
  assumes "fd_reaches ops fd ctx log" "ops_ok ops"
  shows "fd_good log_ok fd (ctx, log)"
  using assms(1)
proof induction
  case (fd_setup mem size_ok control fd control' ctx)
  then show ?case by (rule setup_good) (simp add: log_ok_def)
next
  case (fd_app fd ctx log ctx')
  then show ?case by (simp add: fd_good_def log_ok_def)
next
  case (fd_msg fd ctx log in_len req out_len resp lo a rc resp' len' fd' ctx' log')
  then show ?case
    using log.handle_msg_post [OF logged_ok [OF assms(2)] fd_msg.IH, of in_len req out_len resp lo a]
    by (auto simp: handle_msg_Some returns_def)
next
  case (fd_call fd ctx log out_len req a rc req' len' a' fd' ctx' log')
  then show ?case
    using log.fd_progress_post [OF logged_ok [OF assms(2)] fd_call.IH, of out_len req a]
    by (auto simp: progress_Some returns_def)
next
  case (fd_t1 fd ctx log t fd')
  then show ?case by (auto simp: pldm_fd_set_update_idle_timeout_def good_timers)
next
  case (fd_t2 fd ctx log t fd')
  then show ?case by (auto simp: pldm_fd_set_request_retry_time_def good_timers)
qed

section \<open>Scripts\<close>

text \<open>A fixed sequence of calls, with a buffer of \<open>n\<close> bytes for what the device writes.\<close>

datatype fd_call =
    Call_msg u8 pldm_msg
  | Call_progress

definition buffer :: "nat \<Rightarrow> pldm_msg" where
  "buffer n = \<lparr>m_hdr = hdr_of_bytes 0 0 0, m_addr = 4096, m_payload = replicate n 0\<rparr>"

definition zero_locals :: fd_locals where
  "zero_locals =
     (let s = \<lparr>str_type = 0, str_len = 0, str_data = replicate PLDM_FIRMWARE_MAX_STRING 0\<rparr> in
      \<lparr>lo_upd = \<lparr>ru_max_transfer_size = 0, ru_num_of_comp = 0, ru_max_outstanding = 0,
                 ru_pkg_data_len = 0, ru_image_set_ver = s\<rparr>,
       lo_pcomp = \<lparr>pt_transfer_flag = 0, pt_classification = 0, pt_identifier = 0,
                   pt_classification_index = 0, pt_comparison_stamp = 0, pt_version = s\<rparr>,
       lo_up = \<lparr>uc_classification = 0, uc_identifier = 0, uc_classification_index = 0,
                uc_comparison_stamp = 0, uc_version = s, uc_image_size = 0, uc_option_flags = 0\<rparr>,
       lo_self_contained = False\<rparr>)"

fun fd_script ::
    "'c pldm_fd_ops \<Rightarrow> nat \<Rightarrow> fd_call list \<Rightarrow> pldm_fd \<Rightarrow> 'c \<times> fd_event list \<Rightarrow>
      (pldm_fd \<times> 'c \<times> fd_event list) option" where
  "fd_script ops n [] fd ctx = Some (fd, ctx)"
| "fd_script ops n (Call_msg a req # cs) fd ctx = do {
     (rc, resp, len, fd, ctx) \<leftarrow>
       fd_handle_msg (logged ops) zero_locals fd ctx a req (length (m_payload req) + 3) (buffer n) (n + 3);
     fd_script ops n cs fd ctx }"
| "fd_script ops n (Call_progress # cs) fd ctx = do {
     (rc, req, len, a, fd, ctx) \<leftarrow> fd_progress (logged ops) fd ctx (buffer n) (n + 3) (Some 0);
     fd_script ops n cs fd ctx }"

definition script_ok :: "nat \<Rightarrow> fd_call list \<Rightarrow> bool" where
  "script_ok n cs \<longleftrightarrow> n < 65536 \<and>
     (\<forall>c\<in>set cs. case c of Call_msg a req \<Rightarrow> m_addr req < 65536 \<and> length (m_payload req) < 65536
                          | Call_progress \<Rightarrow> True)"

lemma buffer_holds: "n < 65536 \<Longrightarrow> msg_holds n (buffer n)"
  by (simp add: msg_holds_def buffer_def)

lemma fd_script_reaches:
  assumes "fd_script ops n cs fd (ctx, log) = Some (fd', ctx', log')" "script_ok n cs"
    and "fd_reaches ops fd ctx log"
  shows "fd_reaches ops fd' ctx' log'"
  using assms
proof (induction cs arbitrary: fd ctx log)
  case Nil
  then show ?case by simp
next
  case (Cons c cs)
  have n: "msg_holds (n + 3 - 3) (buffer n)" using Cons.prems(2) by (simp add: script_ok_def buffer_holds)
  have ok: "script_ok n cs" using Cons.prems(2) by (simp add: script_ok_def)
  show ?case
  proof (cases c)
    case (Call_msg a req)
    then have req: "msg_holds (length (m_payload req) + 3 - 3) req"
      using Cons.prems(2) by (simp add: script_ok_def msg_holds_def)
    obtain rc resp len fd1 ctx1 log1 where s:
        "fd_handle_msg (logged ops) zero_locals fd (ctx, log) a req (length (m_payload req) + 3) (buffer n)
           (n + 3) = Some (rc, resp, len, fd1, ctx1, log1)"
        "fd_script ops n cs fd1 (ctx1, log1) = Some (fd', ctx', log')"
      using Cons.prems(1) Call_msg by (auto simp: bind_eq_Some_conv)
    have "fd_reaches ops fd1 ctx1 log1"
      using s(1) by (intro fd_msg [OF Cons.prems(3) req n, of zero_locals a rc "Some resp" "Some len"]) (simp add: handle_msg_Some)
    from Cons.IH [OF s(2) ok this] show ?thesis .
  next
    case Call_progress
    obtain rc req len a fd1 ctx1 log1 where s:
        "fd_progress (logged ops) fd (ctx, log) (buffer n) (n + 3) (Some 0) =
           Some (rc, req, len, a, fd1, ctx1, log1)"
        "fd_script ops n cs fd1 (ctx1, log1) = Some (fd', ctx', log')"
      using Cons.prems(1) Call_progress by (auto simp: bind_eq_Some_conv)
    have "fd_reaches ops fd1 ctx1 log1"
      using s(1) by (intro fd_call [OF Cons.prems(3) n, of 0 rc "Some req" "Some len" a]) (simp add: progress_Some)
    from Cons.IH [OF s(2) ok this] show ?thesis .
  qed
qed

text \<open>
  An application for the examples: a context that is the clock, one component, which it accepts
  whatever it is sent, and a
  script that updates it with an image of eight bytes up to the end of the download.
\<close>

definition demo_string :: pldm_firmware_string where
  "demo_string = \<lparr>str_type = 1, str_len = 2,
     str_data = [0x76, 0x31] @ replicate (PLDM_FIRMWARE_MAX_STRING - 2) 0\<rparr>"

definition demo_version :: pldm_firmware_version where
  "demo_version = \<lparr>comparison_stamp = 1, ver_str = demo_string, ver_date = replicate 8 0\<rparr>"

definition demo_ops :: "u64 pldm_fd_ops" where
  "demo_ops =
     \<lparr>op_device_identifiers = Some (\<lambda>ctx. (0, 1, Some [\<lparr>descriptor_type = 2, descriptor_length = 2,
        descriptor_data = Some [0xaa, 0xbb]\<rparr>], ctx)),
      op_components = Some (\<lambda>ctx. (0, 1, [\<lparr>ce_classification = 10, ce_identifier = 7,
        ce_classification_index = 0, ce_active_ver = demo_version, ce_pending_ver = demo_version,
        ce_activation_methods = 0, ce_capabilities = 0\<rparr>], ctx)),
      op_imageset_versions = Some (\<lambda>ctx a p. (0, demo_string, demo_string, ctx)),
      op_update_component = Some (\<lambda>ctx update c. (0, ctx)),
      op_transfer_size = Some (\<lambda>ctx m. (m, ctx)),
      op_firmware_data = Some (\<lambda>ctx off bytes len c. (0, ctx)),
      op_verify = Some (\<lambda>ctx c pending pct. (0, False, 100, ctx)),
      op_apply = Some (\<lambda>ctx c pending pct. (0, False, 100, ctx)),
      op_activate = Some (\<lambda>ctx self_contained t. (0, t, ctx)),
      op_cancel_update_component = Some (\<lambda>ctx c. ctx),
      op_now = Some (\<lambda>ctx. (ctx, ctx))\<rparr>"

lemma demo_ok: "ops_ok demo_ops"
  by (simp add: ops_ok_def demo_ops_def descriptor_ok_def string_ok_def entry_ok_def version_ok_def
      demo_string_def demo_version_def)

definition demo_msg :: "u8 \<Rightarrow> u8 \<Rightarrow> u8 list \<Rightarrow> fd_call" where
  "demo_msg b0 cmd p = Call_msg 9 \<lparr>m_hdr = hdr_of_bytes b0 5 cmd, m_addr = 8192, m_payload = p\<rparr>"

definition demo_calls :: "fd_call list" where
  "demo_calls =
     [demo_msg 0x81 0x10 [32, 0, 0, 0, 1, 0, 1, 0, 0, 1, 2, 0x76, 0x32],
      demo_msg 0x82 0x13 [5, 10, 0, 7, 0, 0, 2, 0, 0, 0, 1, 2, 0x76, 0x32],
      demo_msg 0x83 0x14 [10, 0, 7, 0, 0, 2, 0, 0, 0, 8, 0, 0, 0, 0, 0, 0, 0, 1, 2, 0x76, 0x32],
      Call_progress,
      demo_msg 0x01 0x15 (0 # replicate 8 0xa5)]"

definition demo_start :: pldm_fd where
  "demo_start = zero_fd\<lparr>fd_t1_timeout := DEFAULT_FD_T1_TIMEOUT,
     fd_t2_retry_time := DEFAULT_FD_T2_RETRY_TIME\<rparr>"

text \<open>The loops over a count, as equations that evaluate.\<close>

lemma find_component_code [code]:
  "find_component n es c =
     (if n = 0 then Some False
      else case es of [] \<Rightarrow> None
           | e # es \<Rightarrow> if same_component e c then Some True else find_component (n - 1) es c)"
  by (cases n; cases es) auto

lemma fw_param_entries_code [code]:
  "fw_param_entries hdr len n es resp b =
     (if n = 0 then Some (Inr (resp, b))
      else case es of [] \<Rightarrow> None | e # es \<Rightarrow>
     (let (rc, p, b) = pldm_msgbuf_peek_remaining b in
      if rc \<noteq> 0 then
        let (rc, b) = pldm__msgbuf_discard b 0 in mb_exit b (Inl (rc, resp, len))
      else do {
        (off, left) \<leftarrow> p;
        (rc, q, l) \<leftarrow> encode_get_firmware_parameters_resp_comp_entry (Some e)
                       (Some (m_addr resp + off, drop off (m_payload resp))) (Some left);
        (a, bytes) \<leftarrow> q; l \<leftarrow> l;
        let resp = resp\<lparr>m_payload := take off (m_payload resp) @ bytes\<rparr> in
        if rc \<noteq> 0 then do {
          (rc, resp, len) \<leftarrow> pldm_fd_reply_errno rc hdr resp len;
          let (rc, b) = pldm__msgbuf_discard b rc in mb_exit b (Inl (rc, resp, len)) }
        else
          let (_, b) = pldm_msgbuf_skip b l in fw_param_entries hdr len (n - 1) es resp b }))"
  by (cases n; cases es)
    (simp_all only: fw_param_entries.simps list.case diff_Suc_1 if_True if_False nat.distinct simp_thms)

definition demo_learning :: pldm_fd where
  "demo_learning = demo_start\<lparr>fd_state := PLDM_FD_STATE_LEARN_COMPONENTS, fd_ua_address := 9,
     fd_ua_address_set := True, fd_max_transfer := 32\<rparr>"

lemma demo_learns:
  "fd_script demo_ops 16 (take 1 demo_calls) demo_start (0, []) = Some (demo_learning, 0, [])"
  by code_simp

lemma demo_loads:
  "case fd_script demo_ops 16 (drop 1 demo_calls) demo_learning (0, []) of None \<Rightarrow> False
   | Some (fd, ctx, log) \<Rightarrow> ctx = 0 \<and> length log = 3 \<and> fd_state fd = PLDM_FD_STATE_DOWNLOAD \<and>
       rq_complete (fd_req fd)"
  by code_simp

lemma demo_reaches_learning: "fd_reaches demo_ops demo_learning ctx []"
proof (rule fd_app)
  have start: "fd_reaches demo_ops demo_start 0 []"
    by (rule fd_setup [where mem = "Some zero_fd" and size_ok = True and control = None and control' = None])
      (simp add: pldm_fd_setup_def demo_ops_def demo_start_def)
  show "fd_reaches demo_ops demo_learning 0 []"
    by (rule fd_script_reaches [OF demo_learns _ start]) (simp add: script_ok_def demo_calls_def demo_msg_def)
qed

lemma demo_run:
  "\<exists>fd log. fd_reaches demo_ops fd 0 log \<and> length log = 3 \<and> fd_state fd = PLDM_FD_STATE_DOWNLOAD \<and>
     rq_complete (fd_req fd)"
proof -
  obtain fd log where s: "fd_script demo_ops 16 (drop 1 demo_calls) demo_learning (0, []) = Some (fd, 0, log)"
      "length log = 3" "fd_state fd = PLDM_FD_STATE_DOWNLOAD" "rq_complete (fd_req fd)"
    using demo_loads by (auto split: option.splits)
  have "fd_reaches demo_ops fd 0 log"
    by (rule fd_script_reaches [OF s(1) _ demo_reaches_learning])
      (simp add: script_ok_def demo_calls_def demo_msg_def)
  with s show ?thesis by blast
qed

end
