(* ===== verification/Fd_Download.thy ===== *)
theory Fd_Download
  imports Fd_Run
begin

text \<open>
  A whole download: the device asks for its next chunk, an update agent that holds the image
  answers, until the last byte has arrived. The agent is specified here by what it sends, the
  device is the model of \<open>fd.c\<close>.
\<close>

section \<open>One round\<close>

text \<open>
  The agent reads offset and length out of the request and answers with that part of the image
  under the header of a response.
\<close>

definition ua_serve :: "u8 list \<Rightarrow> pldm_msg \<Rightarrow> pldm_msg" where
  "ua_serve img req =
     (let off = unat (word_of_le (take 4 (m_payload req)) :: u32);
          n = unat (word_of_le (take 4 (drop 4 (m_payload req))) :: u32)
      in \<lparr>m_hdr = (m_hdr req)\<lparr>h_request := PLDM_RESPONSE\<rparr>, m_addr = 4096,
          m_payload = PLDM_SUCCESS # take n (drop off img)\<rparr>)"

text \<open>
  A round: the device is asked for a message and, when it has one, the agent's answer is handed
  to it. The rounds end when the device has nothing more to fetch.
\<close>

definition download_round ::
    "'c pldm_fd_ops \<Rightarrow> u8 list \<Rightarrow> pldm_fd \<Rightarrow> 'c \<Rightarrow> (pldm_fd \<times> 'c) option" where
  "download_round ops img fd ctx = do {
     (rc, req, len, a, fd, ctx) \<leftarrow> fd_progress ops fd ctx (buffer 8) 11 (Some 0);
     to \<leftarrow> a;
     if len = 0 then Some (fd, ctx)
     else
       let resp = ua_serve img req in
       do {
         (rc, out, len, fd, ctx) \<leftarrow>
           fd_handle_msg ops zero_locals fd ctx to resp (length (m_payload resp) + 3) (buffer 0) 3;
         Some (fd, ctx) } }"

definition download_over :: "pldm_fd \<Rightarrow> bool" where
  "download_over fd \<longleftrightarrow> fd_state fd \<noteq> PLDM_FD_STATE_DOWNLOAD \<or> rq_complete (fd_req fd)"

fun download_rounds ::
    "nat \<Rightarrow> 'c pldm_fd_ops \<Rightarrow> u8 list \<Rightarrow> pldm_fd \<Rightarrow> 'c \<Rightarrow> (pldm_fd \<times> 'c) option" where
  "download_rounds 0 ops img fd ctx = Some (fd, ctx)"
| "download_rounds (Suc k) ops img fd ctx =
     (if download_over fd then Some (fd, ctx)
      else do { (fd, ctx) \<leftarrow> download_round ops img fd ctx; download_rounds k ops img fd ctx })"

text \<open>
  The application with a record of what its clock showed: each reading goes to the end of the
  list. Nothing is assumed of the readings.
\<close>

definition clocked :: "'c pldm_fd_ops \<Rightarrow> ('c \<times> u64 list) pldm_fd_ops" where
  "clocked ops =
     \<lparr>op_device_identifiers = map_option (\<lambda>f (ctx, ts).
        let (rc, n, ds, ctx) = f ctx in (rc, n, ds, ctx, ts)) (op_device_identifiers ops),
      op_components = map_option (\<lambda>f (ctx, ts).
        let (rc, n, es, ctx) = f ctx in (rc, n, es, ctx, ts)) (op_components ops),
      op_imageset_versions = map_option (\<lambda>f (ctx, ts) a p.
        let (rc, a, p, ctx) = f ctx a p in (rc, a, p, ctx, ts)) (op_imageset_versions ops),
      op_update_component = map_option (\<lambda>f (ctx, ts) update c.
        let (res, ctx) = f ctx update c in (res, ctx, ts)) (op_update_component ops),
      op_transfer_size = map_option (\<lambda>f (ctx, ts) m.
        let (k, ctx) = f ctx m in (k, ctx, ts)) (op_transfer_size ops),
      op_firmware_data = map_option (\<lambda>f (ctx, ts) off bytes len c.
        let (res, ctx) = f ctx off bytes len c in (res, ctx, ts)) (op_firmware_data ops),
      op_verify = map_option (\<lambda>f (ctx, ts) c pending pct.
        let (res, pending, pct, ctx) = f ctx c pending pct in (res, pending, pct, ctx, ts)) (op_verify ops),
      op_apply = map_option (\<lambda>f (ctx, ts) c pending pct.
        let (res, pending, pct, ctx) = f ctx c pending pct in (res, pending, pct, ctx, ts)) (op_apply ops),
      op_activate = map_option (\<lambda>f (ctx, ts) self_contained t.
        let (res, t, ctx) = f ctx self_contained t in (res, t, ctx, ts)) (op_activate ops),
      op_cancel_update_component = map_option (\<lambda>f (ctx, ts) c.
        (f ctx c, ts)) (op_cancel_update_component ops),
      op_now = map_option (\<lambda>f (ctx, ts). let (now, ctx) = f ctx in (now, ctx, ts @ [now])) (op_now ops)\<rparr>"

abbreviation watched :: "'c pldm_fd_ops \<Rightarrow> (('c \<times> u64 list) \<times> fd_event list) pldm_fd_ops" where
  "watched ops \<equiv> logged (clocked ops)"

text \<open>
  The device waits to send its next request of a download. A chunk has fewer than
  \<open>0xffffffff\<close> bytes: the length of its response, one more, is computed in 32 bits.
\<close>

definition downloading :: "pldm_fd \<Rightarrow> u8 list \<Rightarrow> bool" where
  "downloading fd img \<longleftrightarrow>
     fd_inv fd \<and> fd_state fd = PLDM_FD_STATE_DOWNLOAD \<and> rq_state (fd_req fd) = PLDM_FD_REQ_READY \<and>
     \<not> rq_complete (fd_req fd) \<and> (fd_max_transfer fd < 0xffffffff \<or> length img < 0xffffffff) \<and>
     length img = unat (cm_image_size (fd_update_comp fd))"

lemma now_watched:
  assumes "ops_ok ops"
  obtains t c where "pldm_fd_now (watched ops) ((ctx, ts), log) = Some (t, (c, ts @ [t]), log)"
proof -
  obtain f where f: "op_now ops = Some f" using assms unfolding ops_ok_def by blast
  obtain t c where "f ctx = (t, c)" by fastforce
  with f have "pldm_fd_now (watched ops) ((ctx, ts), log) = Some (t, (c, ts @ [t]), log)"
    by (simp add: pldm_fd_now_def logged_def clocked_def)
  then show thesis by (rule that)
qed

lemma cancel_watched:
  assumes "ops_ok ops" "fd_state fd = PLDM_FD_STATE_DOWNLOAD"
  obtains c where "pldm_fd_maybe_cancel_component (watched ops) fd ((ctx, ts), log) =
    Some ((c, ts), log @ [Ev_cancel (fd_update_comp fd)])"
proof -
  obtain f where "op_cancel_update_component ops = Some f" using assms unfolding ops_ok_def by blast
  with assms(2) have "pldm_fd_maybe_cancel_component (watched ops) fd ((ctx, ts), log) =
      Some ((f ctx (fd_update_comp fd), ts), log @ [Ev_cancel (fd_update_comp fd)])"
    by (simp add: pldm_fd_maybe_cancel_component_def logged_def clocked_def)
  then show thesis by (rule that)
qed

text \<open>The request that is sent, unless the clock has passed the idle timeout.\<close>

definition fd_asking :: "pldm_fd \<Rightarrow> u8 \<Rightarrow> u64 \<Rightarrow> pldm_fd" where
  "fd_asking fd i t = fd\<lparr>fd_req := (fd_req fd)\<lparr>rq_state := PLDM_FD_REQ_SENT, rq_instance_id := i,
     rq_command := PLDM_REQUEST_FIRMWARE_DATA, rq_sent_time := t\<rparr>\<rparr>"

lemma download_request:
  assumes ok: "ops_ok ops" and d: "downloading fd img"
    and k: "pldm_fd_fwdata_size fd = Some k" and i: "i = fst (pldm_fd_req_next_instance (fd_req fd))"
  obtains (asks) t ts' c where "fd_progress (watched ops) fd ((ctx, ts), log) (buffer 8) 11 (Some 0) =
      Some (0, sent (wire_hdr PLDM_REQUEST i PLDM_FWUP PLDM_REQUEST_FIRMWARE_DATA)
               (le_of_word (fd_specific fd) @ le_of_word k) (buffer 8), 11, Some (fd_ua_address fd),
        fd_asking fd i t, (c, ts @ ts'), log)"
  | (late) t req ts' now c where "fd_progress (watched ops) fd ((ctx, ts), log) (buffer 8) 11 (Some 0) =
      Some (0, req, 0, Some 0, pldm_fd_set_idle PLDM_FD_TIMEOUT_DOWNLOAD (fd_asking fd i t),
        (c, ts @ ts' @ [now]), log @ [Ev_cancel (fd_update_comp fd)])"
      "fd_t1_timeout fd < now - fd_update_timestamp_fd_t1 fd"
proof -
  obtain t1 c1 where t1: "pldm_fd_now (watched ops) ((ctx, ts), log) = Some (t1, (c1, ts @ [t1]), log)"
    by (rule now_watched [OF ok])
  obtain t2 c2 where t2: "pldm_fd_now (watched ops) ((c1, ts @ [t1]), log) =
      Some (t2, (c2, (ts @ [t1]) @ [t2]), log)"
    by (rule now_watched [OF ok])
  obtain t3 c3 where t3: "pldm_fd_now (watched ops) ((c2, ts @ [t1, t2]), log) =
      Some (t3, (c3, (ts @ [t1, t2]) @ [t3]), log)"
    by (rule now_watched [OF ok])
  let ?h = "wire_hdr PLDM_REQUEST i PLDM_FWUP PLDM_REQUEST_FIRMWARE_DATA"
  have small: "i \<le> PLDM_INSTANCE_MAX" unfolding i by (rule next_instance_small)
  obtain i' rq where n: "pldm_fd_req_next_instance (fd_req fd) = (i', rq)" by fastforce
  then have rq: "rq = (fd_req fd)\<lparr>rq_instance_id := i\<rparr>" "i' = i"
    using next_instance_small(2) [OF n] i by simp_all
  have size: "pldm_fd_fwdata_size (fd\<lparr>fd_req := rq\<rparr>) = Some k"
    using k by (simp add: pldm_fd_fwdata_size_def Let_def cong: if_cong)
  have enc: "encode_request_firmware_data_req i (fd_specific fd) k (Some (buffer 8)) (Some 8) =
      Some (0, Some (sent ?h (le_of_word (fd_specific fd) @ le_of_word k) (buffer 8)), Some 8)"
    using message_encoder.fits [OF fwup_encoders(4) [OF small] buffer_holds [of 8]] by simp
  have hdr: "ucast (h_instance_id ?h) = i" "h_command ?h = PLDM_REQUEST_FIRMWARE_DATA"
    using wire_hdr_instance [OF small] by (simp_all add: wire_hdr_def)
  have step: "progress_step (watched ops) fd ((ctx, ts), log) (buffer 8) 8 =
      Some (0, sent ?h (le_of_word (fd_specific fd) @ le_of_word k) (buffer 8), 8,
        fd_asking fd i t2, (c2, ts @ [t1, t2]), log)"
    using d t1 t2 n size enc hdr
    by (simp add: downloading_def progress_step_def pldm_fd_progress_download_def rq fd_asking_def
        pldm_fd_req_should_send_def sent_request_def sent_def)
  have asked: "fd_ua_address_set (fd_asking fd i t2)" "awaits_ua (fd_asking fd i t2)"
      "fd_state (fd_asking fd i t2) = PLDM_FD_STATE_DOWNLOAD"
      "fd_t1_timeout (fd_asking fd i t2) = fd_t1_timeout fd"
      "fd_update_timestamp_fd_t1 (fd_asking fd i t2) = fd_update_timestamp_fd_t1 fd"
      "fd_ua_address (fd_asking fd i t2) = fd_ua_address fd"
      "fd_update_comp (fd_asking fd i t2) = fd_update_comp fd"
    using d by (simp_all add: downloading_def fd_inv_def fd_asking_def awaits_ua_def)
  obtain c4 where c4: "pldm_fd_maybe_cancel_component (watched ops) (fd_asking fd i t2)
      ((c3, ts @ [t1, t2, t3]), log) = Some ((c4, ts @ [t1, t2, t3]), log @ [Ev_cancel (fd_update_comp fd)])"
    using cancel_watched [OF ok asked(3), of c3 "ts @ [t1, t2, t3]" log] asked(7) by metis
  show thesis
  proof (cases "fd_t1_timeout fd < t3 - fd_update_timestamp_fd_t1 fd")
    case True
    with step t3 c4 asked show thesis
      by (intro late [of _ t2 c4 "[t1, t2]" t3])
        (simp_all add: fd_progress_steps timeout_step_def pldm_fd_set_idle_def)
  next
    case False
    with step t3 asked show thesis
      by (intro asks [of t2 c3 "[t1, t2, t3]"]) (simp add: fd_progress_steps timeout_step_def)
  qed
qed


text \<open>The bytes the agent answers with.\<close>

lemma ua_serve_sent:
  "ua_serve img (sent h (le_of_word (off :: u32) @ le_of_word (k :: u32)) (buffer 8)) =
     \<lparr>m_hdr = h\<lparr>h_request := PLDM_RESPONSE\<rparr>, m_addr = 4096,
      m_payload = PLDM_SUCCESS # take (unat k) (drop (unat off) img)\<rparr>"
  by (simp add: ua_serve_def sent_def buffer_def poke_def Let_def)

lemma handle_msg_response:
  assumes "h_type (m_hdr resp) = ucast (PLDM_FWUP :: u8)" "h_request (m_hdr resp) = PLDM_RESPONSE" "3 \<le> in_len"
  shows "fd_handle_msg ops lo fd ctx a resp in_len out out_len = do {
    (rc, fd, ctx) \<leftarrow> pldm_fd_handle_resp ops fd ctx a resp in_len; Some (rc, out, 0, fd, ctx) }"
  using assms by (simp add: fd_handle_msg_def unpack_header_of) (simp add: header_of_def)

text \<open>The device takes the chunk it asked for, or records that the application refused it.\<close>

definition fd_received :: "pldm_fd \<Rightarrow> u8 \<Rightarrow> u32 \<Rightarrow> u64 \<Rightarrow> u64 \<Rightarrow> u8 \<Rightarrow> pldm_fd" where
  "fd_received fd i k t1 t res =
     (let last = (fd_specific fd + k = cm_image_size (fd_update_comp fd)) in
      fd\<lparr>fd_req := \<lparr>rq_state = PLDM_FD_REQ_READY, rq_complete = (res \<noteq> 0 \<or> last),
                   rq_result = (if res \<noteq> 0 \<or> last then res else rq_result (fd_req fd)),
                   rq_instance_id = i, rq_command = PLDM_REQUEST_FIRMWARE_DATA, rq_sent_time = t1\<rparr>,
        fd_specific := (if res = 0 then fd_specific fd + k else fd_specific fd),
        fd_update_timestamp_fd_t1 := t\<rparr>)"

text \<open>The chunk of an image that the device is at, as the application gets it.\<close>

abbreviation chunk_event :: "u8 list \<Rightarrow> pldm_fd \<Rightarrow> u32 \<Rightarrow> u8 \<Rightarrow> fd_event" where
  "chunk_event img fd k res \<equiv>
     Ev_data (fd_specific fd) (take (unat k) (drop (unat (fd_specific fd)) img)) (fd_update_comp fd) res"

lemma fwdata_resp_received:
  assumes ok: "ops_ok ops" and inv: "fd_inv fd" "fd_state fd = PLDM_FD_STATE_DOWNLOAD" "\<not> rq_complete (fd_req fd)"
    and k: "pldm_fd_fwdata_size fd = Some k" "unat (fd_specific fd) + unat k \<le> length img"
      "unat (k + 1) = unat k + 1"
    and img: "length img = unat (cm_image_size (fd_update_comp fd))"
    and resp: "m_payload resp = PLDM_SUCCESS # take (unat k) (drop (unat (fd_specific fd)) img)"
  obtains res c' where
    "pldm_fd_handle_fwdata_resp (watched ops) ((fd_asking fd i t1)\<lparr>fd_update_timestamp_fd_t1 := t\<rparr>)
       ((c, ts), log) resp (unat k + 1) =
     Some (0, fd_received fd i k t1 t res, (c', ts), log @ [chunk_event img fd k res])"
proof -
  let ?o = "fd_specific fd"
  let ?data = "take (unat k) (drop (unat ?o) img)"
  obtain g where g: "op_firmware_data ops = Some g" using ok unfolding ops_ok_def by blast
  obtain res c' where c': "g c ?o ?data k (fd_update_comp fd) = (res, c')" by fastforce
  have op: "op_firmware_data (watched ops) = Some (\<lambda>((ctx, ts), log) off bytes len c.
      let (res, ctx) = g ctx off bytes len c in (res, (ctx, ts), log @ [Ev_data off bytes c res]))"
    using g by (auto simp: logged_def clocked_def fun_eq_iff split: prod.splits)
  have "unat ?o + unat k < 2 ^ 32"
    using k(2) img unsigned_less [of "cm_image_size (fd_update_comp fd)", where 'a = nat] by simp
  then have nowrap: "\<not> ?o + k < ?o" "\<not> ?o + k > cm_image_size (fd_update_comp fd)"
    using k(2) img by (simp_all add: word_less_nat_alt unat_word_ariths)
  have size: "pldm_fd_fwdata_size ((fd_asking fd i t1)\<lparr>fd_update_timestamp_fd_t1 := t\<rparr>) = Some k"
    using k(1) by (simp add: pldm_fd_fwdata_size_def fd_asking_def Let_def cong: if_cong)
  have bytes: "get_bytes 0 1 resp = Some [0]" "get_bytes 1 (unat k) resp = Some ?data"
    using resp k(2) by (simp_all add: get_bytes_def bytes_at_def)
  have "pldm_fd_handle_fwdata_resp (watched ops) ((fd_asking fd i t1)\<lparr>fd_update_timestamp_fd_t1 := t\<rparr>)
      ((c, ts), log) resp (unat k + 1) =
     Some (0, fd_received fd i k t1 t res, (c', ts), log @ [chunk_event img fd k res])"
    using inv bytes size nowrap k(3) op c'
    by (auto simp: pldm_fd_handle_fwdata_resp_def fd_received_def fd_asking_def Let_def
        intro!: pldm_fd.equality pldm_fd_req.equality)
  then show thesis by (rule that)
qed

lemma download_round_run:
  assumes ok: "ops_ok ops" and d: "downloading fd img"
    and k: "pldm_fd_fwdata_size fd = Some k" "unat (fd_specific fd) + unat k \<le> length img"
    and i: "i = fst (pldm_fd_req_next_instance (fd_req fd))"
  obtains (chunk) t1 t res ts' c where "download_round (watched ops) img fd ((ctx, ts), log) =
      Some (fd_received fd i k t1 t res, (c, ts @ ts'), log @ [chunk_event img fd k res])" "t \<in> set ts'"
  | (late) t1 ts' now c where "download_round (watched ops) img fd ((ctx, ts), log) =
      Some (pldm_fd_set_idle PLDM_FD_TIMEOUT_DOWNLOAD (fd_asking fd i t1),
        (c, ts @ ts' @ [now]), log @ [Ev_cancel (fd_update_comp fd)])"
      "fd_t1_timeout fd < now - fd_update_timestamp_fd_t1 fd"
proof (rule download_request [OF ok d k(1) i, of ctx ts log])
  fix t req ts' now c
  assume "fd_progress (watched ops) fd ((ctx, ts), log) (buffer 8) 11 (Some 0) =
      Some (0, req, 0, Some 0, pldm_fd_set_idle PLDM_FD_TIMEOUT_DOWNLOAD (fd_asking fd i t),
        (c, ts @ ts' @ [now]), log @ [Ev_cancel (fd_update_comp fd)])"
    and "fd_t1_timeout fd < now - fd_update_timestamp_fd_t1 fd"
  then show thesis by (intro late [of t c ts' now]) (simp_all add: download_round_def)
next
  let ?h = "wire_hdr PLDM_REQUEST i PLDM_FWUP PLDM_REQUEST_FIRMWARE_DATA"
  let ?data = "take (unat k) (drop (unat (fd_specific fd)) img)"
  let ?req = "sent ?h (le_of_word (fd_specific fd) @ le_of_word k) (buffer 8)"
  let ?resp = "\<lparr>m_hdr = ?h\<lparr>h_request := PLDM_RESPONSE\<rparr>, m_addr = 4096, m_payload = PLDM_SUCCESS # ?data\<rparr>"
  fix t1 ts1 c1
  assume p: "fd_progress (watched ops) fd ((ctx, ts), log) (buffer 8) 11 (Some 0) =
      Some (0, ?req, 11, Some (fd_ua_address fd), fd_asking fd i t1, (c1, ts @ ts1), log)"
  have serve: "ua_serve img ?req = ?resp" by (rule ua_serve_sent)
  have inv: "fd_inv fd" "fd_state fd = PLDM_FD_STATE_DOWNLOAD" "\<not> rq_complete (fd_req fd)"
      and img: "length img = unat (cm_image_size (fd_update_comp fd))"
    using d by (simp_all add: downloading_def)
  obtain t c2 where t: "pldm_fd_now (watched ops) ((c1, ts @ ts1), log) =
      Some (t, (c2, (ts @ ts1) @ [t]), log)"
    by (rule now_watched [OF ok])
  have len: "length ?data = unat k" using k(2) by simp
  have small: "i \<le> PLDM_INSTANCE_MAX" unfolding i by (rule next_instance_small)
  have hdr: "ucast (h_instance_id ?h) = i" "h_command ?h = PLDM_REQUEST_FIRMWARE_DATA" "h_type ?h = ucast (PLDM_FWUP :: u8)"
    using wire_hdr_instance [OF small] by (simp_all add: wire_hdr_def)
  have "unat k \<le> unat (fd_max_transfer fd)" using fwdata_size_inv [OF inv(1,2)] k(1) by auto
  then have "unat k < 2 ^ 32 - 1" using k(2) d by (auto simp: downloading_def word_less_nat_alt)
  then have k1: "unat (k + 1) = unat k + 1" by (simp add: unat_word_ariths)
  obtain res c3 where fw: "pldm_fd_handle_fwdata_resp (watched ops)
      ((fd_asking fd i t1)\<lparr>fd_update_timestamp_fd_t1 := t\<rparr>) ((c2, ts @ ts1 @ [t]), log) ?resp (unat k + 1) =
     Some (0, fd_received fd i k t1 t res, (c3, ts @ ts1 @ [t]), log @ [chunk_event img fd k res])"
    by (rule fwdata_resp_received [OF ok inv k k1 img, of ?resp]) simp_all
  have asked: "fd_ua_address_set (fd_asking fd i t1)" "rq_state (fd_req (fd_asking fd i t1)) = PLDM_FD_REQ_SENT"
      "fd_ua_address (fd_asking fd i t1) = fd_ua_address fd" "rq_instance_id (fd_req (fd_asking fd i t1)) = i"
      "rq_command (fd_req (fd_asking fd i t1)) = PLDM_REQUEST_FIRMWARE_DATA"
    using inv(1,2) by (simp_all add: fd_inv_def fd_asking_def)
  have "pldm_fd_handle_resp (watched ops) (fd_asking fd i t1) ((c1, ts @ ts1), log) (fd_ua_address fd) ?resp
      (4 + unat k) = Some (0, fd_received fd i k t1 t res, (c3, ts @ ts1 @ [t]), log @ [chunk_event img fd k res])"
    using t hdr asked fw by (simp add: pldm_fd_handle_resp_def)
  then show thesis
    using p serve hdr(3) len
    by (intro chunk [of t1 t res c3 "ts1 @ [t]"]) (simp_all add: download_round_def handle_msg_response)
qed

section \<open>The whole image\<close>

fun data_of :: "fd_event \<Rightarrow> u8 list" where
  "data_of (Ev_data off bytes c res) = bytes"
| "data_of _ = []"

text \<open>The number of requests that \<open>n\<close> bytes take in chunks of \<open>m\<close>.\<close>

definition chunks :: "nat \<Rightarrow> nat \<Rightarrow> nat" where
  "chunks m n = (n + m - 1) div m"

lemma chunks_0 [simp]: "0 < m \<Longrightarrow> chunks m 0 = 0"
  by (simp add: chunks_def)

lemma chunks_rec: "0 < n \<Longrightarrow> 0 < m \<Longrightarrow> chunks m n = Suc (chunks m (n - min m n))"
proof -
  assume n: "0 < n" and m: "0 < m"
  have "n + m - 1 = (n - 1) + m" using n by simp
  then have step: "chunks m n = Suc ((n - 1) div m)" using m by (simp only: chunks_def div_add_self2)
  show ?thesis using step n m by (cases "n \<le> m") (simp_all add: chunks_def)
qed

lemma fd_received_downloading:
  assumes "downloading fd img" "unat (fd_specific fd) + unat k \<le> length img" "i \<le> PLDM_INSTANCE_MAX"
    and "fd_specific fd + k \<noteq> cm_image_size (fd_update_comp fd)"
  shows "downloading (fd_received fd i k t1 t 0) img"
proof -
  have "unat (fd_specific fd) + unat k < 2 ^ 32"
    using assms(1,2) unsigned_less [of "cm_image_size (fd_update_comp fd)", where 'a = nat]
    by (simp add: downloading_def)
  then have "fd_specific fd + k \<le> cm_image_size (fd_update_comp fd)"
    using assms(1,2) by (simp add: word_le_nat_alt unat_word_ariths downloading_def)
  then show ?thesis
    using assms by (auto simp: downloading_def fd_received_def fd_inv_def)
qed

text \<open>
  How a download ends, given the readings \<open>ts\<close> of the clock and the calls \<open>evs\<close> of the
  application: with the rest of the image delivered; with a chunk the application refused; or
  with the idle timeout, between a reading of the clock (the time stamp the download started
  with counts as one) and the last.
\<close>

definition download_ended :: "pldm_fd \<Rightarrow> u8 list \<Rightarrow> pldm_fd \<Rightarrow> u64 list \<Rightarrow> fd_event list \<Rightarrow> bool" where
  "download_ended fd img fd' ts evs \<longleftrightarrow>
     fd_state fd' = PLDM_FD_STATE_DOWNLOAD \<and> rq_complete (fd_req fd') \<and> rq_result (fd_req fd') = 0 \<and>
       concat (map data_of evs) = drop (unat (fd_specific fd)) img \<or>
     fd_state fd' = PLDM_FD_STATE_DOWNLOAD \<and> rq_complete (fd_req fd') \<and> rq_result (fd_req fd') \<noteq> 0 \<and>
       (\<exists>off bytes. evs \<noteq> [] \<and> last evs = Ev_data off bytes (fd_update_comp fd) (rq_result (fd_req fd'))) \<or>
     fd_state fd' = PLDM_FD_STATE_IDLE \<and> fd_reason fd' = PLDM_FD_TIMEOUT_DOWNLOAD \<and>
       (\<exists>ts0 now t. ts = ts0 @ [now] \<and> t \<in> insert (fd_update_timestamp_fd_t1 fd) (set ts0) \<and>
          fd_t1_timeout fd < now - t) \<and>
       evs \<noteq> [] \<and> last evs = Ev_cancel (fd_update_comp fd)"

lemma download_ended_chunk:
  assumes "download_ended (fd_received fd i k t1 t 0) img fd' ts' evs" "t \<in> set ts"
    and "unat (fd_specific fd + k) = unat (fd_specific fd) + unat k"
    and "take (unat k) (drop (unat (fd_specific fd)) img) @ drop (unat (fd_specific fd) + unat k) img =
      drop (unat (fd_specific fd)) img"
  shows "download_ended fd img fd' (ts @ ts') (chunk_event img fd k 0 # evs)"
proof -
  let ?fd = "fd_received fd i k t1 t 0"
  have sel: "fd_specific ?fd = fd_specific fd + k" "fd_update_comp ?fd = fd_update_comp fd"
      "fd_t1_timeout ?fd = fd_t1_timeout fd" "fd_update_timestamp_fd_t1 ?fd = t"
    by (simp_all add: fd_received_def Let_def)
  from assms(1) consider
    (whole) "fd_state fd' = PLDM_FD_STATE_DOWNLOAD" "rq_complete (fd_req fd')" "rq_result (fd_req fd') = 0"
      "concat (map data_of evs) = drop (unat (fd_specific fd) + unat k) img"
    | (refused) off bytes where "fd_state fd' = PLDM_FD_STATE_DOWNLOAD" "rq_complete (fd_req fd')"
      "rq_result (fd_req fd') \<noteq> 0" "evs \<noteq> []"
      "last evs = Ev_data off bytes (fd_update_comp fd) (rq_result (fd_req fd'))"
    | (late) ts0 now t' where "fd_state fd' = PLDM_FD_STATE_IDLE" "fd_reason fd' = PLDM_FD_TIMEOUT_DOWNLOAD"
      "ts' = ts0 @ [now]" "t' \<in> insert t (set ts0)" "fd_t1_timeout fd < now - t'"
      "evs \<noteq> []" "last evs = Ev_cancel (fd_update_comp fd)"
    unfolding download_ended_def sel assms(3) by blast
  then show ?thesis
  proof cases
    case whole
    then show ?thesis using assms(4) by (simp add: download_ended_def)
  next
    case refused
    then show ?thesis by (simp add: download_ended_def)
  next
    case late
    then have "ts @ ts' = (ts @ ts0) @ [now]" "t' \<in> insert (fd_update_timestamp_fd_t1 fd) (set (ts @ ts0))"
      using assms(2) by auto
    then have "\<exists>ts0 now t. ts @ ts' = ts0 @ [now] \<and>
        t \<in> insert (fd_update_timestamp_fd_t1 fd) (set ts0) \<and> fd_t1_timeout fd < now - t"
      using late(5) by blast
    with late(1,2,6,7) show ?thesis by (simp add: download_ended_def)
  qed
qed

text \<open>What the application has been given, however the download ends.\<close>

definition delivered_from :: "pldm_fd \<Rightarrow> u8 list \<Rightarrow> fd_event list \<Rightarrow> bool" where
  "delivered_from fd img evs \<longleftrightarrow>
     (\<exists>rest. drop (unat (fd_specific fd)) img = concat (map data_of evs) @ rest)"

lemma download_rounds_run:
  assumes ok: "ops_ok ops"
  shows "downloading fd img \<Longrightarrow> unat (fd_specific fd) < length img \<Longrightarrow>
    \<exists>fd' c ts' evs.
      download_rounds (chunks (unat (fd_max_transfer fd)) (length img - unat (fd_specific fd)))
        (watched ops) img fd ((ctx, ts), log) = Some (fd', (c, ts @ ts'), log @ evs) \<and>
      delivered_from fd img evs \<and> download_ended fd img fd' ts' evs"
proof (induction "length img - unat (fd_specific fd)" arbitrary: fd ctx ts log rule: less_induct)
  case less
  let ?o = "fd_specific fd" and ?c = "fd_update_comp fd" and ?m = "unat (fd_max_transfer fd)"
  let ?i = "fst (pldm_fd_req_next_instance (fd_req fd))"
  have inv: "fd_inv fd" "fd_state fd = PLDM_FD_STATE_DOWNLOAD" and img: "length img = unat (cm_image_size ?c)"
      and going: "\<not> download_over fd"
    using less.prems(1) by (simp_all add: downloading_def download_over_def)
  have max: "0 < ?m" using inv by (simp add: fd_inv_def word_le_nat_alt)
  define k where "k = (if cm_image_size ?c - ?o > fd_max_transfer fd then fd_max_transfer fd
    else cm_image_size ?c - ?o)"
  have le: "?o \<le> cm_image_size ?c" using less.prems(2) img by (simp add: word_le_nat_alt)
  then have size: "pldm_fd_fwdata_size fd = Some k"
    using inv(2) by (simp add: pldm_fd_fwdata_size_def k_def Let_def linorder_not_less)
  have uk: "unat k = min ?m (length img - unat ?o)"
    using le img by (simp add: k_def word_less_nat_alt unat_sub)
  then have fits: "unat ?o + unat k \<le> length img" using less.prems(2) by simp
  have sum: "unat (?o + k) = unat ?o + unat k"
    using fits img unsigned_less [of "cm_image_size ?c", where 'a = nat] by (simp add: unat_word_ariths)
  have rec: "chunks ?m (length img - unat ?o) = Suc (chunks ?m (length img - (unat ?o + unat k)))"
    using chunks_rec [of "length img - unat ?o" ?m] less.prems(2) max uk by simp
  have split: "take (unat k) (drop (unat ?o) img) @ drop (unat ?o + unat k) img = drop (unat ?o) img"
    by (metis append_take_drop_id drop_drop add.commute)
  have over: "download_rounds n (watched ops) img fd1 cx = Some (fd1, cx)" if "download_over fd1" for n fd1 cx
    using that by (cases n) simp_all
  show ?case
  proof (rule download_round_run [OF ok less.prems(1) size fits refl, of ctx ts log], goal_cases)
    case (1 t1 t res ts1 c)
    let ?fd = "fd_received fd ?i k t1 t res"
    have sel: "fd_specific ?fd = (if res = 0 then ?o + k else ?o)" "fd_update_comp ?fd = ?c"
        "fd_max_transfer ?fd = fd_max_transfer fd" "fd_state ?fd = PLDM_FD_STATE_DOWNLOAD"
        "rq_complete (fd_req ?fd) = (res \<noteq> 0 \<or> ?o + k = cm_image_size ?c)"
        "rq_complete (fd_req ?fd) \<Longrightarrow> rq_result (fd_req ?fd) = res"
      using inv(2) by (auto simp: fd_received_def Let_def)
    show ?case
    proof (cases "res \<noteq> 0 \<or> ?o + k = cm_image_size ?c")
      case True
      have "download_ended fd img ?fd ts1 [chunk_event img fd k res]"
      proof (cases "res = 0")
        case last: True
        then have "unat ?o + unat k = length img" using True sum img by simp
        then show ?thesis using True last sel by (simp add: download_ended_def)
      qed (use True sel in \<open>simp add: download_ended_def\<close>)
      moreover have "delivered_from fd img [chunk_event img fd k res]"
        using split by (auto simp: delivered_from_def intro: exI [of _ "drop (unat ?o + unat k) img"])
      moreover have "download_over ?fd" using True sel by (simp add: download_over_def)
      ultimately show ?thesis
        using 1(1) going
        by (intro exI [of _ ?fd] exI [of _ c] exI [of _ ts1] exI [of _ "[chunk_event img fd k res]"])
          (simp add: rec over)
    next
      case False
      then have res: "res = 0" by simp
      note sel0 = sel(1-5) [unfolded res, simplified]
      have lt: "unat ?o + unat k < length img"
        using False fits sum img by (metis le_neq_implies_less word_unat_eq_iff)
      have d: "downloading ?fd img"
        unfolding res by (rule fd_received_downloading [OF less.prems(1) fits next_instance_small(1)]) (use False in simp)
      have "length img - unat (fd_specific ?fd) < length img - unat ?o"
        using less.prems(2) max uk lt by (simp add: res sel0 sum)
      from less.hyps [OF this d, of c "ts @ ts1" "log @ [chunk_event img fd k res]"] lt
      obtain fd' c' ts' evs where ih:
          "download_rounds (chunks ?m (length img - (unat ?o + unat k))) (watched ops) img
             ?fd ((c, ts @ ts1), log @ [chunk_event img fd k res]) =
           Some (fd', (c', (ts @ ts1) @ ts'), (log @ [chunk_event img fd k res]) @ evs)"
          "delivered_from ?fd img evs" "download_ended ?fd img fd' ts' evs"
        by (auto simp: res sel0 sum)
      have "download_ended fd img fd' (ts1 @ ts') (chunk_event img fd k 0 # evs)"
        using download_ended_chunk [OF _ 1(2) sum split] ih(3) by (simp add: res)
      moreover have "delivered_from fd img (chunk_event img fd k 0 # evs)"
        using ih(2) split by (auto simp: delivered_from_def res sel0 sum) (metis append.assoc)
      ultimately show ?thesis
        using 1(1) ih(1) going res
        by (intro exI [of _ fd'] exI [of _ c'] exI [of _ "ts1 @ ts'"] exI [of _ "chunk_event img fd k 0 # evs"])
          (simp add: rec)
    qed
  next
    case (2 t1 ts1 now c)
    let ?fd = "pldm_fd_set_idle PLDM_FD_TIMEOUT_DOWNLOAD (fd_asking fd ?i t1)"
    have "download_ended fd img ?fd (ts1 @ [now]) [Ev_cancel ?c]"
      using 2(2) by (auto simp: download_ended_def pldm_fd_set_idle_def)
    moreover have "delivered_from fd img [Ev_cancel ?c]" by (simp add: delivered_from_def)
    moreover have "download_over ?fd" by (simp add: download_over_def pldm_fd_set_idle_def)
    ultimately show ?case
      using 2(1) going
      by (intro exI [of _ ?fd] exI [of _ c] exI [of _ "ts1 @ [now]"] exI [of _ "[Ev_cancel ?c]"])
        (simp add: rec over)
  qed
qed

end
