(* ===== verification/Fd_Props.thy ===== *)
theory Fd_Props
  imports Fd_Download
begin

text \<open>
  The properties of the firmware device. The first group speaks of every state the device can
  reach (\<open>fd_reaches\<close>) and follows from the interpretations of \<open>fd_client\<close>; the second is about
  the timeout and about a download from the first request to the last byte.
\<close>

section \<open>Any sequence of calls\<close>

lemma reaches_plain: "fd_reaches ops fd ctx log \<Longrightarrow> ops_ok ops \<Longrightarrow> fd_good (\<lambda>_ _. True) fd ctx'"
  using fd_reaches_good [of ops fd ctx log] by (auto simp: fd_good_def)

text \<open>
  C13. Safety of the firmware device. Whatever messages arrive and however the application
  answers, the invariant of the device holds; the next message and the next call of
  \<open>pldm_fd_progress\<close> return, without an assertion failing, a NULL callback being called or a byte
  outside the buffers being touched, and report a length within the buffer.
\<close>

theorem fd_device_safe:
  assumes "fd_reaches ops fd ctx log" "ops_ok ops"
    and "msg_holds (in_len - 3) req" "msg_holds (out_len - 3) resp"
  shows "fd_inv fd \<and>
    (\<exists>rc resp' len fd' ctx'.
       pldm_fd_handle_msg ops lo (Some fd) ctx a (Some req) in_len (Some resp) (Some out_len) =
         Some (rc, Some resp', Some len, Some fd', ctx') \<and> len \<le> out_len \<and> fd_inv fd' \<and>
       length (m_payload resp') = length (m_payload resp)) \<and>
    (\<exists>rc resp' len addr fd' ctx'.
       pldm_fd_progress ops (Some fd) ctx (Some resp) (Some out_len) (Some a) =
         Some (rc, Some resp', Some len, addr, Some fd', ctx') \<and> len \<le> out_len \<and> fd_inv fd' \<and>
       length (m_payload resp') = length (m_payload resp))"
proof (intro conjI)
  note good = reaches_plain [OF assms(1,2), of ctx]
  show "fd_inv fd" using good by (simp add: fd_good_def)
  show "\<exists>rc resp' len fd' ctx'.
       pldm_fd_handle_msg ops lo (Some fd) ctx a (Some req) in_len (Some resp) (Some out_len) =
         Some (rc, Some resp', Some len, Some fd', ctx') \<and> len \<le> out_len \<and> fd_inv fd' \<and>
       length (m_payload resp') = length (m_payload resp)"
    using plain.handle_msg_post [OF assms(2) good assms(3,4), of lo a]
    by (auto simp: returns_def handle_msg_Some fd_good_def)
  show "\<exists>rc resp' len addr fd' ctx'.
       pldm_fd_progress ops (Some fd) ctx (Some resp) (Some out_len) (Some a) =
         Some (rc, Some resp', Some len, addr, Some fd', ctx') \<and> len \<le> out_len \<and> fd_inv fd' \<and>
       length (m_payload resp') = length (m_payload resp)"
    using plain.fd_progress_post [OF assms(2) good assms(4), of a]
    by (auto simp: returns_def progress_Some fd_good_def progress_sends_def)
qed

theorem fd_device_safe_witness:
  "\<exists>fd log. fd_reaches demo_ops fd 0 log \<and> length log = 3 \<and> fd_inv fd \<and>
     (\<exists>rc resp len fd' ctx.
        pldm_fd_handle_msg demo_ops zero_locals (Some fd) 0 9 (Some (buffer 20)) 23 (Some (buffer 20)) (Some 23) =
          Some (rc, Some resp, Some len, Some fd', ctx) \<and> len \<le> 23 \<and> fd_inv fd' \<and>
        length (m_payload resp) = length (m_payload (buffer 20)))"
proof -
  obtain fd log where r: "fd_reaches demo_ops fd 0 log" "length log = 3" using demo_run by blast
  have b: "msg_holds (23 - 3) (buffer 20)" using buffer_holds [of 20] by simp
  show ?thesis using r fd_device_safe [OF r(1) demo_ok b b, of zero_locals 9] by blast
qed

text \<open>
  C14. The contract with the application. Over the whole life of the device the callbacks come
  in the order of \<open>app_step\<close>: image data only for the component that was accepted, each chunk
  starting where the one before ended and never past the image size, verification only of a
  complete image, application only of a verified one, and every component that was accepted
  is applied or cancelled exactly once before the next one or an activation. The device's
  state tells where the application is.
\<close>

theorem fd_follows_protocol:
  assumes "fd_reaches ops fd ctx log" "ops_ok ops"
  shows "\<exists>s. app_run App_none log = Some s \<and> app_view fd s"
  using fd_reaches_good [OF assms] by (auto simp: fd_good_def log_ok_def)

theorem fd_follows_protocol_witness:
  "\<exists>fd log. fd_reaches demo_ops fd 0 log \<and> length log = 3 \<and>
     (\<exists>s. app_run App_none log = Some s \<and> app_view fd s)"
proof -
  obtain fd log where r: "fd_reaches demo_ops fd 0 log" "length log = 3" using demo_run by blast
  with fd_follows_protocol [OF r(1) demo_ok] show ?thesis by blast
qed

text \<open>
  C15. Requests are answered. A firmware update request of any command and length, well formed
  or not, from any address, gets exactly one response with the request's instance and command:
  the call returns 0 and the response fits the buffer of at least four bytes. The device moves
  only along the transitions of the specification, and a request that is refused moves it
  nowhere.
\<close>

theorem fd_answers_requests:
  assumes "fd_reaches ops fd ctx log" "ops_ok ops" "fwup_request req"
    and "3 \<le> in_len" "msg_holds (in_len - 3) req" "4 \<le> out_len" "msg_holds (out_len - 3) resp"
  shows "\<exists>resp' len fd' ctx'.
    fd_handle_msg ops lo fd ctx a req in_len resp out_len = Some (0, resp', len, fd', ctx') \<and>
    request_answered (header_of req) resp out_len (0, resp', len) \<and>
    fd_moves (h_command (m_hdr req)) (m_payload resp' ! 0) fd fd'"
proof -
  have inst: "hi_instance (header_of req) \<le> PLDM_INSTANCE_MAX" by (simp add: instance_id_small)
  show ?thesis
    unfolding handle_msg_request [OF assms(3,4)]
    using plain.handle_request_post [OF assms(2) reaches_plain [OF assms(1,2), of ctx] inst assms(7,6,5), of lo a]
    by (auto simp: returns_def request_answered_def)
qed

theorem fd_answers_requests_witness:
  "\<exists>fd log resp len fd' ctx.
     fd_reaches demo_ops fd 0 log \<and> fd_state fd = PLDM_FD_STATE_DOWNLOAD \<and>
     fd_handle_msg demo_ops zero_locals fd 0 9
       \<lparr>m_hdr = hdr_of_bytes 0x87 5 0x1d, m_addr = 4096, m_payload = []\<rparr> 3 (buffer 20) 23 =
       Some (0, resp, len, fd', ctx) \<and> 4 \<le> len \<and> len \<le> 23 \<and>
     fd_moves 0x1d (m_payload resp ! 0) fd fd'"
proof -
  obtain fd log where r: "fd_reaches demo_ops fd 0 log" "fd_state fd = PLDM_FD_STATE_DOWNLOAD"
    using demo_run by blast
  let ?req = "\<lparr>m_hdr = hdr_of_bytes 0x87 5 0x1d, m_addr = 4096, m_payload = []\<rparr>"
  have h: "fwup_request ?req" "msg_holds (3 - 3) ?req" "msg_holds (23 - 3) (buffer 20)"
    using buffer_holds [of 20] by (simp_all add: fwup_request_def hdr_of_bytes_def msg_holds_def)
  show ?thesis
    using r fd_answers_requests [OF r(1) demo_ok h(1) _ h(2) _ h(3), of zero_locals 9]
    by (simp add: request_answered_def hdr_of_bytes_def) blast
qed

section \<open>The download\<close>

text \<open>
  C16. A download ends, whatever the application's clock shows and whatever it returns for a
  chunk. From any state in which the device is about to ask for a chunk, at most \<open>chunks m n\<close>
  exchanges (the \<open>n\<close> remaining bytes in pieces of the negotiated transfer size \<open>m\<close>, rounded up)
  with an agent that answers from its image have delivered to the application, in order and
  without a gap, an overlap or a byte too many, a prefix of the rest of the image, and one of
  three things has happened: the prefix is the whole rest and the transfer is complete and
  successful; the application refused the last chunk and the transfer is complete with the
  result it gave; or between a reading of the clock and a later one (the last) more time
  passed than the idle timeout, the component was cancelled and the device is idle with that
  reason. Two things are asked for: the callbacks are there (\<open>ops_ok\<close>), and no chunk has
  \<open>0xffffffff\<close> bytes. The agent serves a last chunk of any length; one that decodes the request
  with \<open>decode_request_firmware_data_req\<close> would refuse a last chunk below 32 bytes.
\<close>

theorem fd_download_ends:
  assumes "ops_ok ops" "downloading fd img" "unat (fd_specific fd) < length img"
  shows "\<exists>fd' c ts' evs.
    download_rounds (chunks (unat (fd_max_transfer fd)) (length img - unat (fd_specific fd)))
      (watched ops) img fd ((ctx, ts), log) = Some (fd', (c, ts @ ts'), log @ evs) \<and>
    delivered_from fd img evs \<and> download_ended fd img fd' ts' evs"
  by (rule download_rounds_run [OF assms])

definition demo_downloading :: pldm_fd where
  "demo_downloading = demo_start\<lparr>fd_state := PLDM_FD_STATE_DOWNLOAD,
     fd_prev_state := PLDM_FD_STATE_READY_XFER, fd_update_comp := (fd_update_comp demo_start)\<lparr>cm_image_size := 100\<rparr>,
     fd_req := (fd_req demo_start)\<lparr>rq_state := PLDM_FD_REQ_READY\<rparr>, fd_ua_address := 9,
     fd_ua_address_set := True, fd_max_transfer := 32\<rparr>"

text \<open>An application whose clock advances by a millisecond at each reading.\<close>

definition ticking_ops :: "u64 pldm_fd_ops" where
  "ticking_ops = demo_ops\<lparr>op_now := Some (\<lambda>ctx. (ctx, ctx + 1))\<rparr>"

lemma ticking_ok: "ops_ok ticking_ops"
  using demo_ok by (simp add: ops_ok_def ticking_ops_def)

theorem fd_download_ends_witness:
  "\<exists>fd' c ts evs. download_rounds 4 (watched ticking_ops) (replicate 100 0x5a) demo_downloading ((0, []), []) =
       Some (fd', (c, ts), evs) \<and>
     delivered_from demo_downloading (replicate 100 0x5a) evs \<and>
     download_ended demo_downloading (replicate 100 0x5a) fd' ts evs"
proof -
  have h: "downloading demo_downloading (replicate 100 0x5a)"
      "unat (fd_specific demo_downloading) < length (replicate 100 0x5a)"
    by (simp_all add: downloading_def demo_downloading_def demo_start_def zero_fd_def
        fd_inv_def component_active_def)
  have n: "chunks (unat (fd_max_transfer demo_downloading))
      (length (replicate 100 (0x5a :: u8)) - unat (fd_specific demo_downloading)) = 4"
    by (simp add: chunks_def demo_downloading_def demo_start_def zero_fd_def)
  from fd_download_ends [OF ticking_ok h, of 0 "[]" "[]", unfolded n]
  show ?thesis by simp
qed

section \<open>The timeout\<close>

lemma timeout_run:
  assumes cl: "fd_client ops (\<lambda>_. late)" and ok: "ops_ok ops" and good: "fd_good (\<lambda>_. late) fd ctx"
    and waits: "awaits_ua fd" and f: "op_now ops = Some f"
    and late: "\<forall>c. late c \<longrightarrow> fd_t1_timeout fd < fst (f c) - fd_update_timestamp_fd_t1 fd"
  shows "\<exists>ctx'. timeout_step ops len fd ctx =
    Some (0, pldm_fd_set_idle (timeout_reason (fd_state fd)) fd, ctx')"
proof -
  obtain now ctx1 where t: "pldm_fd_now ops ctx = Some (now, ctx1)" "fd_good (\<lambda>_. late) fd ctx1"
    using fd_client.now_good [OF cl ok good] by blast
  have "now = fst (f ctx)" "late ctx" using t f good by (simp_all add: pldm_fd_now_def fd_good_def)
  then have l: "fd_t1_timeout fd < now - fd_update_timestamp_fd_t1 fd" using late by simp
  obtain ctx2 where "pldm_fd_maybe_cancel_component ops fd ctx1 = Some ctx2"
    using fd_client.maybe_cancel_good [OF cl ok t(2)] by blast
  then show ?thesis using waits t(1) l by (simp add: timeout_step_def)
qed

text \<open>
  C17. An update agent that falls silent does not hold the device. When it waits for the agent
  (between commands, or for the response to a request it has sent) and the clock is past the
  idle timeout and stays there whatever the application is called for, the next call of
  \<open>pldm_fd_progress\<close> abandons the update: the device is idle,
  free for another agent, remembers the state it left and reports the timeout of that state,
  and sends nothing.
\<close>

theorem fd_timeout_idles:
  assumes "fd_reaches ops fd ctx log" "ops_ok ops" "awaits_ua fd" "op_now ops = Some f"
    and "fd_client ops (\<lambda>_. late)" "late ctx"
    and "\<forall>c. late c \<longrightarrow> fd_t1_timeout fd < fst (f c) - fd_update_timestamp_fd_t1 fd"
    and "3 \<le> n" "msg_holds (n - 3) req"
  shows "\<exists>rc req' fd' ctx'. fd_progress ops fd ctx req n (Some a) = Some (rc, req', 0, Some a, fd', ctx') \<and>
    fd_state fd' = PLDM_FD_STATE_IDLE \<and> \<not> fd_ua_address_set fd' \<and> fd_prev_state fd' = fd_state fd \<and>
    fd_reason fd' = timeout_reason (fd_state fd)"
proof -
  have good: "fd_good (\<lambda>_. late) fd ctx"
    using reaches_plain [OF assms(1,2), of ctx] assms(6) by (simp add: fd_good_def)
  obtain rc req1 len fd1 ctx1 where s: "progress_step ops fd ctx req (n - 3) = Some (rc, req1, len, fd1, ctx1)"
      "fd_good (\<lambda>_. late) fd1 ctx1" "fd_requests fd req (n - 3) (rc, req1, len, fd1)"
    using fd_client.progress_step_post(1) [OF assms(5,2) good assms(9)] by (auto simp: returns_def)
  have same: "fd_state fd1 = fd_state fd" "fd_t1_timeout fd1 = fd_t1_timeout fd"
      "fd_update_timestamp_fd_t1 fd1 = fd_update_timestamp_fd_t1 fd"
    using s(3) by (simp_all add: fd_requests_def)
  have waits: "awaits_ua fd1" using assms(3) s(3) by (auto simp: awaits_ua_def fd_requests_def)
  obtain ctx2 where "timeout_step ops len fd1 ctx1 =
      Some (0, pldm_fd_set_idle (timeout_reason (fd_state fd1)) fd1, ctx2)"
    using timeout_run [OF assms(5,2) s(2) waits assms(4)] assms(7) same by auto
  then show ?thesis
    using s(1) same(1) by (simp add: fd_progress_steps [OF assms(8)] pldm_fd_set_idle_def)
qed

theorem fd_timeout_idles_witness:
  "fd_reaches demo_ops demo_learning 200000 [] \<and> fd_t1_timeout demo_learning = 120000 \<and>
   (\<exists>rc req fd ctx. fd_progress demo_ops demo_learning 200000 (buffer 20) 23 (Some 0) =
      Some (rc, req, 0, Some 0, fd, ctx) \<and>
    fd_state fd = PLDM_FD_STATE_IDLE \<and> \<not> fd_ua_address_set fd \<and>
    fd_prev_state fd = PLDM_FD_STATE_LEARN_COMPONENTS \<and> fd_reason fd = PLDM_FD_TIMEOUT_LEARN_COMPONENT)"
proof -
  have sel: "fd_state demo_learning = PLDM_FD_STATE_LEARN_COMPONENTS" "fd_t1_timeout demo_learning = 120000"
      "fd_update_timestamp_fd_t1 demo_learning = 0"
    by (simp_all add: demo_learning_def demo_start_def zero_fd_def)
  have h: "awaits_ua demo_learning" "op_now demo_ops = Some (\<lambda>ctx. (ctx, ctx))"
      "msg_holds (23 - 3) (buffer 20)"
    using buffer_holds [of 20] by (simp_all add: awaits_ua_def sel component_active_def demo_ops_def)
  have "fd_client demo_ops (\<lambda>_ c. c = 200000)"
    by unfold_locales (auto simp: demo_ops_def)
  from fd_timeout_idles [OF demo_reaches_learning demo_ok h(1,2) this _ _ _ h(3), of 200000 0]
  show ?thesis using demo_reaches_learning by (simp add: sel)
qed

section \<open>Answers and responses\<close>

text \<open>
  GetFirmwareParameters. The response is, byte for byte, the fixed part with the number of
  components and the two image set versions, followed by the entries of the component table
  that the application handed out; when the versions cannot be encoded it is a general error,
  and when it does not fit the buffer an invalid length. The device itself does not change.
\<close>

theorem fd_firmware_parameters:
  assumes "fwup_request req" "h_command (m_hdr req) = PLDM_GET_FIRMWARE_PARAMETERS"
    and "op_components ops = Some f" "f ctx = (0, cnt, es, ctx1)"
    and "op_imageset_versions ops = Some g" "g ctx1 zero_string zero_string = (0, active, pending, ctx2)"
    and "unat cnt \<le> length es" "\<forall>e\<in>set es. entry_ok e" "string_ok active" "string_ok pending"
    and "4 \<le> out_len" "msg_holds (out_len - 3) resp"
    and "bs = parameters_bytes (fd_parameters cnt active pending) @ concat (map entry_bytes (take (unat cnt) es))"
    and "h = wire_hdr PLDM_RESPONSE (ucast (h_instance_id (m_hdr req))) PLDM_FWUP PLDM_GET_FIRMWARE_PARAMETERS"
  shows "if \<not> parameters_valid (fd_parameters cnt active pending)
    then fd_handle_msg ops lo fd ctx a req 3 resp out_len = Some (0, sent h [PLDM_ERROR] resp, 4, fd, ctx2)
    else if length bs + 3 \<le> out_len
    then fd_handle_msg ops lo fd ctx a req 3 resp out_len = Some (0, sent h bs resp, length bs + 3, fd, ctx2)
    else \<exists>p. length p = length (m_payload resp) \<and> fd_handle_msg ops lo fd ctx a req 3 resp out_len =
      Some (0, sent h [PLDM_ERROR_INVALID_LENGTH] (resp\<lparr>m_payload := p\<rparr>), 4, fd, ctx2)"
proof -
  have inst: "hi_instance (header_of req) \<le> PLDM_INSTANCE_MAX" by (simp add: instance_id_small)
  have n: "1 \<le> out_len - 3" using assms(11) by simp
  have "any_address PLDM_GET_FIRMWARE_PARAMETERS" by (simp add: any_address_def)
  then have run: "fd_handle_msg ops lo fd ctx a req 3 resp out_len = do {
      (rc, resp, len, fd, ctx) \<leftarrow> pldm_fd_fw_param ops fd ctx (header_of req) 0 resp (out_len - 3);
      let rc = (word_of_int rc :: u8) in Some (uint rc, resp, if rc = 0 then len + 3 else out_len, fd, ctx) }"
    using assms(2,11)
    by (simp add: handle_msg_request [OF assms(1)] fd_handle_request_def fd_dispatch_def Let_def)
  show ?thesis
    using fw_param_run [OF assms(3-10) inst assms(12) n _ assms(13) refl, of fd] assms(2,11,14)
    by (auto simp: run split: if_splits)
qed

text \<open>
  C18. Only the awaited response counts. A response changes the device or reaches the
  application only when an update is under way, it comes from the address of the update agent,
  and its instance and command are those of the request that was sent last and is still
  outstanding; any other is refused with an error and leaves the device and the application
  untouched.
\<close>

theorem fd_stray_responses_ignored:
  assumes "\<not> (fd_ua_address_set fd \<and> fd_ua_address fd = a \<and> rq_state (fd_req fd) = PLDM_FD_REQ_SENT \<and>
      rq_instance_id (fd_req fd) = ucast (h_instance_id (m_hdr resp)) \<and>
      rq_command (fd_req fd) = h_command (m_hdr resp) \<and> 4 \<le> n)"
  shows "\<exists>rc. rc < 0 \<and> pldm_fd_handle_resp ops fd ctx a resp n = Some (rc, fd, ctx)"
  using assms by (auto simp: pldm_fd_handle_resp_def Let_def)

theorem fd_stray_responses_ignored_witness:
  "\<exists>rc. rc < 0 \<and> pldm_fd_handle_resp demo_ops demo_downloading 0 9 (buffer 20) 23 = Some (rc, demo_downloading, 0)"
proof -
  have "\<not> (fd_ua_address_set demo_downloading \<and> fd_ua_address demo_downloading = 9 \<and>
      rq_state (fd_req demo_downloading) = PLDM_FD_REQ_SENT \<and>
      rq_instance_id (fd_req demo_downloading) = ucast (h_instance_id (m_hdr (buffer 20))) \<and>
      rq_command (fd_req demo_downloading) = h_command (m_hdr (buffer 20)) \<and> 4 \<le> (23 :: nat))"
    by (simp add: demo_downloading_def)
  from fd_stray_responses_ignored [OF this] show ?thesis .
qed

theorem fd_firmware_parameters_witness:
  "\<exists>bs. fd_handle_msg demo_ops zero_locals demo_start 0 9
     \<lparr>m_hdr = hdr_of_bytes 0x87 5 2, m_addr = 4096, m_payload = []\<rparr> 3 (buffer 100) 103 =
     Some (0, sent (wire_hdr PLDM_RESPONSE 7 PLDM_FWUP PLDM_GET_FIRMWARE_PARAMETERS) bs (buffer 100),
       length bs + 3, demo_start, 0) \<and> length bs = 58"
proof -
  let ?req = "\<lparr>m_hdr = hdr_of_bytes 0x87 5 2, m_addr = 4096, m_payload = []\<rparr>"
  let ?e = "\<lparr>ce_classification = 10, ce_identifier = 7, ce_classification_index = 0,
    ce_active_ver = demo_version, ce_pending_ver = demo_version, ce_activation_methods = 0, ce_capabilities = 0\<rparr>"
  have h: "fwup_request ?req" "h_command (m_hdr ?req) = PLDM_GET_FIRMWARE_PARAMETERS"
      "msg_holds (103 - 3) (buffer 100)"
    using buffer_holds [of 100] by (simp_all add: fwup_request_def hdr_of_bytes_def)
  have ops: "op_components demo_ops = Some (\<lambda>ctx. (0, 1, [?e], ctx))"
      "op_imageset_versions demo_ops = Some (\<lambda>ctx a p. (0, demo_string, demo_string, ctx))"
    by (simp_all add: demo_ops_def)
  have ok: "\<forall>e\<in>set [?e]. entry_ok e" "string_ok demo_string"
    by (simp_all add: entry_ok_def version_ok_def string_ok_def demo_version_def demo_string_def)
  have valid: "parameters_valid (fd_parameters 1 demo_string demo_string)"
    by (simp add: parameters_valid_def fd_parameters_def demo_string_def is_string_type_valid_def)
  have len: "length (parameters_bytes (fd_parameters 1 demo_string demo_string) @
      concat (map entry_bytes (take (unat (1 :: u16)) [?e]))) = 58"
    by (simp add: parameters_bytes_def fd_parameters_def entry_bytes_def version_bytes_def string_bytes_def
        demo_version_def demo_string_def)
  show ?thesis
    using fd_firmware_parameters [where ctx = 0 and ?ctx1.0 = 0 and ?ctx2.0 = 0 and lo = zero_locals and
        fd = demo_start and a = 9, OF h(1,2) ops(1) _ ops(2) _ _ ok ok(2) _ h(3) refl refl] valid len
    by (auto simp: hdr_of_bytes_def)
qed

end
