(* ===== verification/Responder.thy ===== *)
theory Responder
  imports Prelude "HOL-Library.Monad_Syntax"
begin

text \<open>
  Outstanding responses, \<^verbatim>\<open>src/responder.c\<close>: a singly linked list of cookies owned by the
  callers, hanging off a jar. The list lives on an explicit heap; a read of an address that
  holds no cookie is undefined (\<open>None\<close>), and so is a loop that does not end.
\<close>

section \<open>The code\<close>

abbreviation (input) PLDM_REQUESTER_SUCCESS :: int where "PLDM_REQUESTER_SUCCESS \<equiv> 0"
abbreviation (input) PLDM_REQUESTER_INVALID_SETUP :: int where "PLDM_REQUESTER_INVALID_SETUP \<equiv> - 11"

record pldm_responder_cookie =
  rc_tid :: u8
  rc_instance_id :: u8
  rc_type :: u8
  rc_command :: u8
  rc_next :: "nat option"

type_synonym cookie_heap = "nat \<Rightarrow> pldm_responder_cookie option"

definition pldm_responder_cookie_eq ::
    "pldm_responder_cookie \<Rightarrow> pldm_responder_cookie \<Rightarrow> bool" where
  "pldm_responder_cookie_eq left right \<longleftrightarrow>
     rc_tid left = rc_tid right \<and> rc_instance_id left = rc_instance_id right \<and>
     rc_type left = rc_type right \<and> rc_command left = rc_command right"

text \<open>The search of \<open>track\<close>: whether the cookie is known, and where the list ends otherwise.\<close>

partial_function (option) track_loop ::
    "cookie_heap \<Rightarrow> pldm_responder_cookie \<Rightarrow> nat \<Rightarrow> nat option \<Rightarrow> (bool \<times> nat) option" where
  "track_loop h cookie current next =
     (if next = None then Some (False, current)
      else do {
        c \<leftarrow> h (the next);
        if pldm_responder_cookie_eq c cookie then Some (True, current)
        else track_loop h cookie (the next) (rc_next c) })"

definition pldm_responder_cookie_track ::
    "cookie_heap \<Rightarrow> nat option \<Rightarrow> nat option \<Rightarrow> (int \<times> cookie_heap) option" where
  "pldm_responder_cookie_track h jar cookie =
     (case (jar, cookie) of
        (Some j, Some c) \<Rightarrow> do {
          head \<leftarrow> h j;
          ck \<leftarrow> h c;
          (known, current) \<leftarrow> track_loop h ck j (rc_next head);
          if known then Some (PLDM_REQUESTER_INVALID_SETUP, h)
          else do {
            let h = h(c \<mapsto> ck\<lparr>rc_next := None\<rparr>);
            cur \<leftarrow> h current;
            Some (PLDM_REQUESTER_SUCCESS, h(current \<mapsto> cur\<lparr>rc_next := Some c\<rparr>)) } }
      | _ \<Rightarrow> Some (PLDM_REQUESTER_INVALID_SETUP, h))"

partial_function (option) untrack_loop ::
    "cookie_heap \<Rightarrow> pldm_responder_cookie \<Rightarrow> nat \<Rightarrow> nat option \<Rightarrow> (nat \<times> nat option) option" where
  "untrack_loop h cookie current next =
     (if next = None then Some (current, None)
      else do {
        c \<leftarrow> h (the next);
        if pldm_responder_cookie_eq c cookie then Some (current, next)
        else untrack_loop h cookie (the next) (rc_next c) })"

definition pldm_responder_cookie_untrack ::
    "cookie_heap \<Rightarrow> nat option \<Rightarrow> u8 \<Rightarrow> u8 \<Rightarrow> u8 \<Rightarrow> u8 \<Rightarrow> (nat option \<times> cookie_heap) option" where
  "pldm_responder_cookie_untrack h jar tid instance_id type command =
     (case jar of
        None \<Rightarrow> Some (None, h)
      | Some j \<Rightarrow> do {
          head \<leftarrow> h j;
          (current, next) \<leftarrow> untrack_loop h
             \<lparr>rc_tid = tid, rc_instance_id = instance_id, rc_type = type, rc_command = command,
              rc_next = None\<rparr> j (rc_next head);
          case next of
            None \<Rightarrow> Some (None, h)
          | Some n \<Rightarrow> do {
              c \<leftarrow> h n;
              cur \<leftarrow> h current;
              Some (Some n, h(current \<mapsto> cur\<lparr>rc_next := rc_next c\<rparr>)) } })"

section \<open>The list a jar holds\<close>

type_synonym cookie_key = "u8 \<times> u8 \<times> u8 \<times> u8"

definition cookie_key :: "pldm_responder_cookie \<Rightarrow> cookie_key" where
  "cookie_key c = (rc_tid c, rc_instance_id c, rc_type c, rc_command c)"

lemma cookie_eq_key: "pldm_responder_cookie_eq a b \<longleftrightarrow> cookie_key a = cookie_key b"
  by (simp add: pldm_responder_cookie_eq_def cookie_key_def)

lemma cookie_key_next [simp]: "cookie_key (c\<lparr>rc_next := n\<rparr>) = cookie_key c"
  by (simp add: cookie_key_def)

fun chain :: "cookie_heap \<Rightarrow> nat option \<Rightarrow> nat list \<Rightarrow> bool" where
  "chain h p [] \<longleftrightarrow> p = None"
| "chain h p (a # as) \<longleftrightarrow> p = Some a \<and>
     (case h a of None \<Rightarrow> False | Some c \<Rightarrow> chain h (rc_next c) as)"

definition key_at :: "cookie_heap \<Rightarrow> nat \<Rightarrow> cookie_key" where
  "key_at h a = cookie_key (the (h a))"

text \<open>The jar at \<open>j\<close> holds the cookies at \<open>as\<close>, in this order and with different keys.\<close>

definition jar_holds :: "cookie_heap \<Rightarrow> nat \<Rightarrow> nat list \<Rightarrow> bool" where
  "jar_holds h j as \<longleftrightarrow> distinct (j # as) \<and> distinct (map (key_at h) as) \<and>
     (case h j of None \<Rightarrow> False | Some c \<Rightarrow> chain h (rc_next c) as)"

lemma chain_other: "a \<notin> set as \<Longrightarrow> chain (h(a := v)) p as = chain h p as"
  by (induction as arbitrary: p) (auto split: option.splits)

lemma key_at_next:
  "h a = Some c \<Longrightarrow> key_at (h(a \<mapsto> c\<lparr>rc_next := n\<rparr>)) = key_at h"
  by (auto simp: key_at_def fun_eq_iff)

text \<open>Where the searches stop on a list that ends.\<close>

lemma track_loop_chain:
  "chain h p as \<Longrightarrow> track_loop h ck cur p =
     (if cookie_key ck \<in> key_at h ` set as
      then Some (True, last (cur # takeWhile (\<lambda>a. key_at h a \<noteq> cookie_key ck) as))
      else Some (False, last (cur # as)))"
proof (induction as arbitrary: p cur)
  case (Cons a as)
  then obtain c where "p = Some a" "h a = Some c" "chain h (rc_next c) as"
    by (auto split: option.splits)
  with Cons.IH [of "rc_next c" a] show ?case
    by (subst track_loop.simps) (auto simp: cookie_eq_key key_at_def)
qed (subst track_loop.simps, simp)

lemma untrack_loop_chain:
  "chain h p as \<Longrightarrow> untrack_loop h ck cur p =
     Some (last (cur # takeWhile (\<lambda>a. key_at h a \<noteq> cookie_key ck) as),
           find (\<lambda>a. key_at h a = cookie_key ck) as)"
proof (induction as arbitrary: p cur)
  case (Cons a as)
  then obtain c where "p = Some a" "h a = Some c" "chain h (rc_next c) as"
    by (auto split: option.splits)
  with Cons.IH [of "rc_next c" a] show ?case
    by (subst untrack_loop.simps) (auto simp: cookie_eq_key key_at_def)
qed (subst untrack_loop.simps, simp)

text \<open>Relinking the end of a list, and the node before an element.\<close>

lemma chain_snoc:
  assumes "chain h p (as @ [a])" "distinct (as @ [a])" "c \<notin> set (as @ [a])"
    "h a = Some ca" "h c = Some cc" "rc_next cc = None"
  shows "chain (h(a \<mapsto> ca\<lparr>rc_next := Some c\<rparr>)) p (as @ [a, c])"
  using assms
proof (induction as arbitrary: p)
  case (Cons b as)
  then show ?case by (auto split: option.splits)
qed (auto split: option.splits)

lemma chain_unlink:
  assumes "chain h p (as @ a # b # bs)" "distinct (as @ a # b # bs)" "h a = Some ca" "h b = Some cb"
  shows "chain (h(a \<mapsto> ca\<lparr>rc_next := rc_next cb\<rparr>)) p (as @ a # bs)"
  using assms
proof (induction as arbitrary: p)
  case (Cons b as)
  then show ?case by (auto split: option.splits)
qed (auto simp: chain_other split: option.splits)

lemma jar_holds_chain:
  "jar_holds h j as \<longleftrightarrow>
     chain h (Some j) (j # as) \<and> distinct (j # as) \<and> distinct (map (key_at h) as)"
  by (auto simp: jar_holds_def split: option.splits)

lemma chain_defined: "chain h p as \<Longrightarrow> a \<in> set as \<Longrightarrow> h a \<noteq> None"
  by (induction as arbitrary: p) (auto split: option.splits)

lemma track_new:
  assumes jar: "jar_holds h j as" and c: "h c = Some ck" "c \<noteq> j"
    and new: "key_at h c \<notin> key_at h ` set as"
  obtains h' where "pldm_responder_cookie_track h (Some j) (Some c) = Some (PLDM_REQUESTER_SUCCESS, h')"
    "jar_holds h' j (as @ [c])" "key_at h' = key_at h" "dom h' = dom h"
proof -
  let ?l = "last (j # as)" and ?h = "h(c \<mapsto> ck\<lparr>rc_next := None\<rparr>)"
  have notin: "c \<notin> set (j # as)" using new c(2) by auto
  obtain head where head: "h j = Some head" "chain h (rc_next head) as"
    using jar by (auto simp: jar_holds_def split: option.splits)
  have l: "?l \<in> set (j # as)" by (rule last_in_set) simp
  then obtain cl where cl: "h ?l = Some cl" "?l \<noteq> c"
    using chain_defined [of h "Some j" "j # as" ?l] jar notin by (auto simp: jar_holds_chain)
  have split: "butlast (j # as) @ [?l] = j # as" by (rule append_butlast_last_id) simp
  have "key_at h c = cookie_key ck" using c(1) by (simp add: key_at_def)
  then have loop: "track_loop h ck j (rc_next head) = Some (False, ?l)"
    using track_loop_chain [OF head(2), of ck j] new by simp
  let ?h' = "?h(?l \<mapsto> cl\<lparr>rc_next := Some c\<rparr>)"
  have "chain ?h (Some j) (butlast (j # as) @ [?l])"
    unfolding split using jar notin by (subst chain_other) (simp_all add: jar_holds_chain)
  moreover have "distinct (butlast (j # as) @ [?l])" "c \<notin> set (butlast (j # as) @ [?l])"
    unfolding split using jar notin by (simp_all add: jar_holds_chain)
  ultimately have "chain ?h' (Some j) (butlast (j # as) @ [?l, c])"
    using cl c(1) by (intro chain_snoc [where cc = "ck\<lparr>rc_next := None\<rparr>"]) simp_all
  then have ch: "chain ?h' (Some j) (j # as @ [c])" using split by (metis append.assoc append_Cons append_Nil)
  have keys: "key_at ?h' = key_at h"
    using key_at_next [of h c ck None] key_at_next [of ?h ?l cl "Some c"] c(1) cl by simp
  have "jar_holds ?h' j (as @ [c])"
    unfolding jar_holds_chain keys using ch jar notin new by (simp add: jar_holds_chain)
  moreover have "pldm_responder_cookie_track h (Some j) (Some c) = Some (PLDM_REQUESTER_SUCCESS, ?h')"
    using head(1) c(1) loop cl by (simp add: pldm_responder_cookie_track_def)
  moreover have "dom ?h' = dom h" using c(1) cl(1) by auto
  ultimately show thesis using that keys by blast
qed

lemma track_known:
  assumes jar: "jar_holds h j as" and c: "h c = Some ck" and known: "key_at h c \<in> key_at h ` set as"
  shows "pldm_responder_cookie_track h (Some j) (Some c) = Some (PLDM_REQUESTER_INVALID_SETUP, h)"
proof -
  obtain head where head: "h j = Some head" "chain h (rc_next head) as"
    using jar by (auto simp: jar_holds_def split: option.splits)
  have "key_at h c = cookie_key ck" using c by (simp add: key_at_def)
  with track_loop_chain [OF head(2), of ck j] known head(1) c show ?thesis
    by (simp add: pldm_responder_cookie_track_def)
qed

lemma untrack_found:
  assumes jar: "jar_holds h j (us @ b # bs)" and k: "key_at h b = (t, i, ty, cmd)"
  obtains h' where "pldm_responder_cookie_untrack h (Some j) t i ty cmd = Some (Some b, h')"
    "jar_holds h' j (us @ bs)" "key_at h' = key_at h" "dom h' = dom h"
proof -
  obtain head where head: "h j = Some head" "chain h (rc_next head) (us @ b # bs)"
    using jar by (auto simp: jar_holds_def split: option.splits)
  let ?l = "last (j # us)"
  have l: "?l \<in> set (j # us @ b # bs)" using last_in_set [of "j # us"] by auto
  then obtain cl where cl: "h ?l = Some cl"
    using chain_defined [of h "Some j" "j # us @ b # bs" ?l] jar by (auto simp: jar_holds_chain)
  obtain cb where cb: "h b = Some cb"
    using chain_defined [OF head(2), of b] by auto
  have other: "a \<in> set us \<Longrightarrow> key_at h a \<noteq> (t, i, ty, cmd)" for a
    using jar k by (auto simp: jar_holds_def intro: rev_image_eqI)
  then have tw: "takeWhile (\<lambda>a. key_at h a \<noteq> (t, i, ty, cmd)) (us @ b # bs) = us"
    "find (\<lambda>a. key_at h a = (t, i, ty, cmd)) (us @ b # bs) = Some b"
    using k by (simp add: takeWhile_append2) (use other k in \<open>induction us, auto\<close>)
  let ?h' = "h(?l \<mapsto> cl\<lparr>rc_next := rc_next cb\<rparr>)"
  have split: "butlast (j # us) @ [?l] = j # us" by (rule append_butlast_last_id) simp
  then have eq: "j # us @ b # bs = butlast (j # us) @ ?l # b # bs"
      "j # us @ bs = butlast (j # us) @ ?l # bs"
    by (metis append.assoc append_Cons append_Nil)+
  have "chain h (Some j) (butlast (j # us) @ ?l # b # bs)"
      "distinct (butlast (j # us) @ ?l # b # bs)"
    using jar unfolding eq(1) [symmetric] jar_holds_chain by blast+
  from chain_unlink [OF this cl cb] have "chain ?h' (Some j) (j # us @ bs)"
    unfolding eq(2) .
  moreover have keys: "key_at ?h' = key_at h" using cl by (rule key_at_next)
  ultimately have "jar_holds ?h' j (us @ bs)"
    using jar unfolding jar_holds_chain keys by auto
  moreover have "pldm_responder_cookie_untrack h (Some j) t i ty cmd = Some (Some b, ?h')"
    using untrack_loop_chain [OF head(2)] tw head(1) cb cl
    by (simp add: pldm_responder_cookie_untrack_def cookie_key_def split: if_splits)
  moreover have "dom ?h' = dom h" using cl by auto
  ultimately show thesis using that keys by blast
qed

lemma untrack_missing:
  assumes jar: "jar_holds h j as" and k: "(t, i, ty, cmd) \<notin> key_at h ` set as"
  shows "pldm_responder_cookie_untrack h (Some j) t i ty cmd = Some (None, h)"
proof -
  obtain head where head: "h j = Some head" "chain h (rc_next head) as"
    using jar by (auto simp: jar_holds_def split: option.splits)
  have "find (\<lambda>a. key_at h a = (t, i, ty, cmd)) as = None"
    using k by (auto simp: find_None_iff intro: rev_image_eqI)
  with untrack_loop_chain [OF head(2)] head(1) show ?thesis
    by (simp add: pldm_responder_cookie_untrack_def cookie_key_def)
qed

section \<open>A jar of cookies\<close>

text \<open>
  What the rest of the library relies on: a jar is a list of cookies with different keys;
  tracking appends, untracking takes out by key.
\<close>

datatype ('c, 'k) jar_op = Track 'c | Untrack 'k

fun jar_spec :: "('c \<Rightarrow> 'k) \<Rightarrow> int \<Rightarrow> ('c, 'k) jar_op list \<Rightarrow> 'c list \<Rightarrow>
    (int + 'c option) list \<times> 'c list" where
  "jar_spec key e [] cs = ([], cs)"
| "jar_spec key e (Track c # ops) cs =
     (if key c \<in> key ` set cs then let (rs, cs) = jar_spec key e ops cs in (Inl e # rs, cs)
      else let (rs, cs) = jar_spec key e ops (cs @ [c]) in (Inl 0 # rs, cs))"
| "jar_spec key e (Untrack k # ops) cs =
     (let (rs, cs') = jar_spec key e ops (filter (\<lambda>c. key c \<noteq> k) cs)
      in (Inr (find (\<lambda>c. key c = k) cs) # rs, cs'))"

fun jar_run :: "('s \<Rightarrow> 'c \<Rightarrow> (int \<times> 's) option) \<Rightarrow> ('s \<Rightarrow> 'k \<Rightarrow> ('c option \<times> 's) option) \<Rightarrow>
    ('c, 'k) jar_op list \<Rightarrow> 's \<Rightarrow> ((int + 'c option) list \<times> 's) option" where
  "jar_run track untrack [] s = Some ([], s)"
| "jar_run track untrack (Track c # ops) s = do {
     (r, s) \<leftarrow> track s c;
     (rs, s) \<leftarrow> jar_run track untrack ops s;
     Some (Inl r # rs, s) }"
| "jar_run track untrack (Untrack k # ops) s = do {
     (r, s) \<leftarrow> untrack s k;
     (rs, s) \<leftarrow> jar_run track untrack ops s;
     Some (Inr r # rs, s) }"

fun trackable :: "('c \<Rightarrow> bool) \<Rightarrow> ('c, 'k) jar_op \<Rightarrow> bool" where
  "trackable P (Track c) \<longleftrightarrow> P c"
| "trackable P (Untrack k) \<longleftrightarrow> True"

locale cookie_jar =
  fixes holds :: "'s \<Rightarrow> 'c list \<Rightarrow> bool"
    and key :: "'s \<Rightarrow> 'c \<Rightarrow> 'k"
    and usable :: "'s \<Rightarrow> 'c \<Rightarrow> bool"
    and track :: "'s \<Rightarrow> 'c \<Rightarrow> (int \<times> 's) option"
    and untrack :: "'s \<Rightarrow> 'k \<Rightarrow> ('c option \<times> 's) option"
    and dup :: int
  assumes keys_distinct: "holds s cs \<Longrightarrow> distinct (map (key s) cs)"
    and new: "holds s cs \<Longrightarrow> usable s c \<Longrightarrow> key s c \<notin> key s ` set cs \<Longrightarrow>
      \<exists>s'. track s c = Some (0, s') \<and> holds s' (cs @ [c]) \<and> key s' = key s \<and> usable s' = usable s"
    and known: "holds s cs \<Longrightarrow> usable s c \<Longrightarrow> key s c \<in> key s ` set cs \<Longrightarrow>
      track s c = Some (dup, s)"
    and found: "holds s (us @ c # vs) \<Longrightarrow>
      \<exists>s'. untrack s (key s c) = Some (Some c, s') \<and> holds s' (us @ vs) \<and> key s' = key s \<and>
        usable s' = usable s"
    and missing: "holds s cs \<Longrightarrow> k \<notin> key s ` set cs \<Longrightarrow> untrack s k = Some (None, s)"
begin

lemma untrack_spec:
  assumes "holds s cs"
  shows "\<exists>s'. untrack s k = Some (find (\<lambda>c. key s c = k) cs, s') \<and>
    holds s' (filter (\<lambda>c. key s c \<noteq> k) cs) \<and> key s' = key s \<and> usable s' = usable s"
proof (cases "k \<in> key s ` set cs")
  case True
  then obtain c where c: "c \<in> set cs" "key s c = k" by auto
  then obtain us vs where cs: "cs = us @ c # vs" by (auto dest: split_list)
  have other: "x \<in> set us \<union> set vs \<Longrightarrow> key s x \<noteq> k" for x
    using keys_distinct [OF assms] c(2) cs by (auto intro: rev_image_eqI)
  then have "find (\<lambda>c. key s c = k) cs = Some c"
    unfolding cs using c(2) by (induction us) auto
  moreover have "filter (\<lambda>c. key s c \<noteq> k) cs = us @ vs"
    unfolding cs using other c(2) by (auto simp: filter_id_conv)
  ultimately show ?thesis using found [of s us c vs] assms cs c(2) by auto
next
  case False
  then have "find (\<lambda>c. key s c = k) cs = None" "filter (\<lambda>c. key s c \<noteq> k) cs = cs"
    by (auto simp: find_None_iff filter_id_conv)
  with missing [OF assms False] assms show ?thesis by auto
qed

lemma run_spec:
  assumes "holds s cs" "list_all (trackable (usable s)) ops"
  shows "\<exists>s'. jar_run track untrack ops s = Some (fst (jar_spec (key s) dup ops cs), s') \<and>
    holds s' (snd (jar_spec (key s) dup ops cs))"
  using assms
proof (induction ops arbitrary: s cs)
  case (Cons op ops)
  show ?case
  proof (cases op)
    case (Track c)
    show ?thesis
    proof (cases "key s c \<in> key s ` set cs")
      case True
      then have "track s c = Some (dup, s)"
        using known [OF Cons.prems(1)] Cons.prems(2) Track by simp
      moreover obtain s' where
          "jar_run track untrack ops s = Some (fst (jar_spec (key s) dup ops cs), s')"
          "holds s' (snd (jar_spec (key s) dup ops cs))"
        using Cons.IH [OF Cons.prems(1)] Cons.prems(2) by auto
      ultimately show ?thesis using Track True by (simp add: case_prod_unfold Let_def)
    next
      case False
      then obtain s' where "track s c = Some (0, s')" "holds s' (cs @ [c])" "key s' = key s"
          "usable s' = usable s"
        using new [OF Cons.prems(1)] Cons.prems(2) Track by auto
      moreover from this obtain s'' where
          "jar_run track untrack ops s' = Some (fst (jar_spec (key s) dup ops (cs @ [c])), s'')"
          "holds s'' (snd (jar_spec (key s) dup ops (cs @ [c])))"
        using Cons.IH [of s' "cs @ [c]"] Cons.prems(2) by auto
      ultimately show ?thesis using Track False by (simp add: case_prod_unfold Let_def)
    qed
  next
    case (Untrack k)
    obtain s' where "untrack s k = Some (find (\<lambda>c. key s c = k) cs, s')"
        "holds s' (filter (\<lambda>c. key s c \<noteq> k) cs)" "key s' = key s" "usable s' = usable s"
      using untrack_spec [OF Cons.prems(1)] by blast
    moreover from this obtain s'' where
        "jar_run track untrack ops s' =
          Some (fst (jar_spec (key s) dup ops (filter (\<lambda>c. key s c \<noteq> k) cs)), s'')"
        "holds s'' (snd (jar_spec (key s) dup ops (filter (\<lambda>c. key s c \<noteq> k) cs)))"
      using Cons.IH [of s' "filter (\<lambda>c. key s c \<noteq> k) cs"] Cons.prems(2) by auto
    ultimately show ?thesis using Untrack by (simp add: case_prod_unfold Let_def)
  qed
qed simp

end

definition untrack_key :: "nat \<Rightarrow> cookie_heap \<Rightarrow> cookie_key \<Rightarrow> (nat option \<times> cookie_heap) option" where
  "untrack_key j h k =
     (case k of (tid, instance_id, type, command) \<Rightarrow>
        pldm_responder_cookie_untrack h (Some j) tid instance_id type command)"

interpretation responder: cookie_jar "\<lambda>h. jar_holds h j" key_at "\<lambda>h c. c \<noteq> j \<and> c \<in> dom h"
    "\<lambda>h c. pldm_responder_cookie_track h (Some j) (Some c)" "untrack_key j"
    PLDM_REQUESTER_INVALID_SETUP for j
proof
  fix h as c k us vs
  show "jar_holds h j as \<Longrightarrow> distinct (map (key_at h) as)" by (simp add: jar_holds_def)
  show "\<exists>s'. pldm_responder_cookie_track h (Some j) (Some c) = Some (0, s') \<and>
      jar_holds s' j (as @ [c]) \<and> key_at s' = key_at h \<and>
      (\<lambda>c. c \<noteq> j \<and> c \<in> dom s') = (\<lambda>c. c \<noteq> j \<and> c \<in> dom h)"
    if "jar_holds h j as" "c \<noteq> j \<and> c \<in> dom h" "key_at h c \<notin> key_at h ` set as"
  proof -
    note prems = that
    from prems(2) obtain ck where c: "h c = Some ck" "c \<noteq> j" by auto
    obtain h' where
        "pldm_responder_cookie_track h (Some j) (Some c) = Some (PLDM_REQUESTER_SUCCESS, h')"
        "jar_holds h' j (as @ [c])" "key_at h' = key_at h" "dom h' = dom h"
      by (rule track_new [OF prems(1) c prems(3)])
    then show ?thesis by auto
  qed
  show "pldm_responder_cookie_track h (Some j) (Some c) = Some (PLDM_REQUESTER_INVALID_SETUP, h)"
    if "jar_holds h j as" "c \<noteq> j \<and> c \<in> dom h" "key_at h c \<in> key_at h ` set as"
    using track_known that by blast
  show "\<exists>s'. untrack_key j h (key_at h c) = Some (Some c, s') \<and> jar_holds s' j (us @ vs) \<and>
      key_at s' = key_at h \<and> (\<lambda>c. c \<noteq> j \<and> c \<in> dom s') = (\<lambda>c. c \<noteq> j \<and> c \<in> dom h)"
    if "jar_holds h j (us @ c # vs)"
  proof (cases "key_at h c")
    case (fields t i ty cmd)
    note held = that
    obtain h' where "pldm_responder_cookie_untrack h (Some j) t i ty cmd = Some (Some c, h')"
        "jar_holds h' j (us @ vs)" "key_at h' = key_at h" "dom h' = dom h"
      by (rule untrack_found [OF held fields])
    then show ?thesis by (auto simp: untrack_key_def fields)
  qed
  show "untrack_key j h k = Some (None, h)" if "jar_holds h j as" "k \<notin> key_at h ` set as"
    using untrack_missing that by (cases k) (simp add: untrack_key_def)
qed

text \<open>
  C11. Any sequence of track and untrack calls on a jar, with cookies that exist and are not
  the jar itself, behaves like the same calls on a plain list of cookies: a cookie whose key
  is already held is refused, any other is appended; untracking hands back the one cookie with
  that key, or NULL. No call reads outside the list and every loop ends.
\<close>

theorem responder_refines_list:
  assumes "jar_holds h j as" "list_all (trackable (\<lambda>c. c \<noteq> j \<and> c \<in> dom h)) ops"
  shows "\<exists>h'. jar_run (\<lambda>h c. pldm_responder_cookie_track h (Some j) (Some c)) (untrack_key j) ops h =
      Some (fst (jar_spec (key_at h) PLDM_REQUESTER_INVALID_SETUP ops as), h') \<and>
    jar_holds h' j (snd (jar_spec (key_at h) PLDM_REQUESTER_INVALID_SETUP ops as))"
  using responder.run_spec [OF assms] .

theorem responder_refines_list_witness:
  "\<exists>h'. jar_run (\<lambda>h c. pldm_responder_cookie_track h (Some 10) (Some c)) (untrack_key 10)
      [Track 20, Track 30, Track 20, Untrack (1, 2, 0, 5), Untrack (1, 2, 0, 5)]
      [10 \<mapsto> \<lparr>rc_tid = 0, rc_instance_id = 0, rc_type = 0, rc_command = 0, rc_next = None\<rparr>,
       20 \<mapsto> \<lparr>rc_tid = 1, rc_instance_id = 2, rc_type = 0, rc_command = 5, rc_next = None\<rparr>,
       30 \<mapsto> \<lparr>rc_tid = 1, rc_instance_id = 3, rc_type = 0, rc_command = 5, rc_next = Some 7\<rparr>] =
    Some ([Inl 0, Inl 0, Inl (- 11), Inr (Some 20), Inr None], h') \<and> jar_holds h' 10 [30]"
proof -
  let ?h = "[10 \<mapsto> \<lparr>rc_tid = 0, rc_instance_id = 0, rc_type = 0, rc_command = 0, rc_next = None\<rparr>,
       20 \<mapsto> \<lparr>rc_tid = 1, rc_instance_id = 2, rc_type = 0, rc_command = 5, rc_next = None\<rparr>,
       30 \<mapsto> \<lparr>rc_tid = 1, rc_instance_id = 3, rc_type = 0, rc_command = 5, rc_next = Some 7\<rparr>]
      :: cookie_heap"
  have "jar_holds ?h 10 []" by (simp add: jar_holds_def)
  from responder_refines_list [OF this, of
      "[Track 20, Track 30, Track 20, Untrack (1, 2, 0, 5), Untrack (1, 2, 0, 5)]"]
  show ?thesis by (simp add: key_at_def cookie_key_def)
qed

end
