(* ===== verification/Bcd_Utils.thy ===== *)
theory Bcd_Utils
  imports Prelude
begin

text \<open>
  Binary coded decimals (\<^verbatim>\<open>src/bcd.c\<close>) and the validity checks of \<^verbatim>\<open>src/utils.c\<close>. The
  arithmetic of the C functions is done in \<open>int\<close> and cut to the width of the result, which
  is arithmetic on words of that width.
\<close>

section \<open>Binary coded decimals\<close>

definition pldm_bcd_bcd2dec8 :: "u8 \<Rightarrow> u8" where
  "pldm_bcd_bcd2dec8 bcd = drop_bit 4 bcd * 10 + (bcd AND 0x0f)"

definition pldm_bcd_dec2bcd8 :: "u8 \<Rightarrow> u8" where
  "pldm_bcd_dec2bcd8 dec = push_bit 4 (dec div 10) + dec mod 10"

definition pldm_bcd_bcd2dec16 :: "u16 \<Rightarrow> u16" where
  "pldm_bcd_bcd2dec16 bcd =
     ucast (pldm_bcd_bcd2dec8 (ucast (drop_bit 8 bcd))) * 100 +
     ucast (pldm_bcd_bcd2dec8 (ucast (bcd AND 0xff)))"

definition pldm_bcd_dec2bcd16 :: "u16 \<Rightarrow> u16" where
  "pldm_bcd_dec2bcd16 dec =
     ucast (pldm_bcd_dec2bcd8 (ucast (dec mod 100))) OR
     push_bit 8 (ucast (pldm_bcd_dec2bcd8 (ucast (dec div 100))))"

definition pldm_bcd_bcd2dec32 :: "u32 \<Rightarrow> u32" where
  "pldm_bcd_bcd2dec32 bcd =
     ucast (pldm_bcd_bcd2dec16 (ucast (drop_bit 16 bcd))) * 10000 +
     ucast (pldm_bcd_bcd2dec16 (ucast (bcd AND 0xffff)))"

definition pldm_bcd_dec2bcd32 :: "u32 \<Rightarrow> u32" where
  "pldm_bcd_dec2bcd32 dec =
     ucast (pldm_bcd_dec2bcd16 (ucast (dec mod 10000))) OR
     push_bit 16 (ucast (pldm_bcd_dec2bcd16 (ucast (dec div 10000))))"

section \<open>Checks\<close>

definition day_map :: "u8 \<Rightarrow> int" where
  "day_map month =
     (if month = 1 then 31 else if month = 2 then 28 else if month = 3 then 31
      else if month = 4 then 30 else if month = 5 then 31 else if month = 6 then 30
      else if month = 7 \<or> month = 8 then 31 else if month = 9 then 30
      else if month = 10 then 31 else if month = 11 then 30 else if month = 12 then 31 else 0)"

definition is_time_legal :: "u8 \<Rightarrow> u8 \<Rightarrow> u8 \<Rightarrow> u8 \<Rightarrow> u8 \<Rightarrow> u16 \<Rightarrow> bool" where
  "is_time_legal seconds minutes hours day month year =
     (if month < 1 \<or> month > 12 then False
      else
        let rday = day_map month;
            rday = (if month = 2 \<and>
                       (year mod 4 = 0 \<and> year mod 100 \<noteq> 0 \<or> year mod 400 = 0)
                    then rday + 1 else rday) in
        if year < 1970 \<or> day < 1 \<or> uint day > rday \<or> seconds > 59 \<or> minutes > 59 \<or> hours > 23
        then False else True)"

definition is_transfer_flag_valid :: "u8 \<Rightarrow> bool" where
  "is_transfer_flag_valid transfer_flag \<longleftrightarrow>
     transfer_flag = 1 \<or> transfer_flag = 2 \<or> transfer_flag = 4 \<or> transfer_flag = 5"

section \<open>Round trip\<close>

text \<open>The digits of a number as nibbles, on natural numbers.\<close>

lemma unat_bcd2dec8: "unat (pldm_bcd_bcd2dec8 b) = unat b div 16 * 10 + unat b mod 16"
proof -
  have "unat b < 2 ^ LENGTH(8)" by (rule unsigned_less)
  then have "unat b div 16 \<le> 15" by simp
  moreover have "unat b mod 16 \<le> 15" by simp
  ultimately have "unat b div 16 * 10 + unat b mod 16 < 2 ^ 8" by simp
  moreover have "b AND 0x0f = take_bit 4 b" by (simp add: take_bit_eq_mask mask_eq_exp_minus_1)
  ultimately show ?thesis
    by (simp add: pldm_bcd_bcd2dec8_def unat_word_ariths unat_drop_bit_eq drop_bit_eq_div
        unsigned_take_bit_eq take_bit_eq_mod)
qed

lemma bcd8_roundtrip:
  assumes "unat d < 100"
  shows "pldm_bcd_bcd2dec8 (pldm_bcd_dec2bcd8 d) = d"
proof -
  have "unat d div 10 \<le> 9" using assms by simp
  then have "unat (pldm_bcd_dec2bcd8 d) = 16 * (unat d div 10) + unat d mod 10"
    using assms by (simp add: pldm_bcd_dec2bcd8_def push_bit_eq_mult unat_word_ariths unat_div
        unat_mod)
  then have "unat (pldm_bcd_bcd2dec8 (pldm_bcd_dec2bcd8 d)) = unat d"
    by (simp add: unat_bcd2dec8 div_add1_eq mod_add_eq)
  then show ?thesis by (simp add: word_unat_eq_iff)
qed

text \<open>Two halves put together and taken apart.\<close>

lemma ucast_halves_16:
  "ucast (drop_bit 8 (ucast a OR push_bit 8 (ucast b) :: u16)) = (b :: u8)"
  "ucast ((ucast a OR push_bit 8 (ucast b) :: u16) AND 0xff) = (a :: u8)"
proof -
  have ff: "(0xff :: u16) = mask 8" by (simp add: mask_eq_exp_minus_1)
  show "ucast (drop_bit 8 (ucast a OR push_bit 8 (ucast b) :: u16)) = (b :: u8)"
    "ucast ((ucast a OR push_bit 8 (ucast b) :: u16) AND 0xff) = (a :: u8)"
    unfolding ff by (rule bit_eqI; auto simp: bit_simps dest: bit_imp_le_length)+
qed

lemma ucast_halves_32:
  "ucast (drop_bit 16 (ucast a OR push_bit 16 (ucast b) :: u32)) = (b :: u16)"
  "ucast ((ucast a OR push_bit 16 (ucast b) :: u32) AND 0xffff) = (a :: u16)"
proof -
  have ff: "(0xffff :: u32) = mask 16" by (simp add: mask_eq_exp_minus_1)
  show "ucast (drop_bit 16 (ucast a OR push_bit 16 (ucast b) :: u32)) = (b :: u16)"
    "ucast ((ucast a OR push_bit 16 (ucast b) :: u32) AND 0xffff) = (a :: u16)"
    unfolding ff by (rule bit_eqI; auto simp: bit_simps dest: bit_imp_le_length)+
qed

lemma unat_ucast_small:
  assumes "unat (x :: 'a::len word) < 2 ^ LENGTH('b::len)"
  shows "unat (ucast x :: 'b word) = unat x"
  using assms by (simp add: unsigned_ucast_eq take_bit_nat_eq_self)

lemma bcd16_roundtrip:
  assumes "unat d < 10000"
  shows "pldm_bcd_bcd2dec16 (pldm_bcd_dec2bcd16 d) = d"
proof -
  have u: "unat (ucast (d div 100) :: u8) = unat d div 100"
      "unat (ucast (d mod 100) :: u8) = unat d mod 100"
    using assms by (subst unat_ucast_small; simp add: unat_div unat_mod; fail)+
  have "pldm_bcd_bcd2dec16 (pldm_bcd_dec2bcd16 d) =
      ucast (ucast (d div 100) :: u8) * 100 + ucast (ucast (d mod 100) :: u8)"
    unfolding pldm_bcd_bcd2dec16_def pldm_bcd_dec2bcd16_def ucast_halves_16
    using assms u by (simp add: bcd8_roundtrip)
  moreover have "unat (ucast (ucast (d div 100) :: u8) :: u16) = unat d div 100"
      "unat (ucast (ucast (d mod 100) :: u8) :: u16) = unat d mod 100"
    using assms u by (subst unat_ucast_small; simp; fail)+
  ultimately have "unat (pldm_bcd_bcd2dec16 (pldm_bcd_dec2bcd16 d)) = unat d"
    using assms by (simp add: unat_word_ariths)
  then show ?thesis by (simp add: word_unat_eq_iff)
qed

text \<open>
  Every number of up to eight decimal digits survives conversion to binary coded decimal
  and back.
\<close>

theorem bcd32_roundtrip:
  assumes "dec < 100000000"
  shows "pldm_bcd_bcd2dec32 (pldm_bcd_dec2bcd32 dec) = dec"
proof -
  have less: "unat dec < 100000000" using assms by (simp add: word_less_nat_alt)
  have u: "unat (ucast (dec div 10000) :: u16) = unat dec div 10000"
      "unat (ucast (dec mod 10000) :: u16) = unat dec mod 10000"
    using less by (subst unat_ucast_small; simp add: unat_div unat_mod; fail)+
  have "pldm_bcd_bcd2dec32 (pldm_bcd_dec2bcd32 dec) =
      ucast (ucast (dec div 10000) :: u16) * 10000 + ucast (ucast (dec mod 10000) :: u16)"
    unfolding pldm_bcd_bcd2dec32_def pldm_bcd_dec2bcd32_def ucast_halves_32
    using less u by (simp add: bcd16_roundtrip)
  moreover have "unat (ucast (ucast (dec div 10000) :: u16) :: u32) = unat dec div 10000"
      "unat (ucast (ucast (dec mod 10000) :: u16) :: u32) = unat dec mod 10000"
    using less u by (subst unat_ucast_small; simp; fail)+
  ultimately have "unat (pldm_bcd_bcd2dec32 (pldm_bcd_dec2bcd32 dec)) = unat dec"
    using less by (simp add: unat_word_ariths)
  then show ?thesis by (simp add: word_unat_eq_iff)
qed

theorem bcd32_roundtrip_witness: "pldm_bcd_bcd2dec32 (pldm_bcd_dec2bcd32 98765432) = 98765432"
  by (rule bcd32_roundtrip) simp

end
