(* ===== verification/Pdr_Repo.thy ===== *)
theory Pdr_Repo
  imports Codec_Rules "HOL-Library.Monad_Syntax"
begin

text \<open>
  The repository of platform descriptor records, the first part of \<^verbatim>\<open>src/dsp/pdr.c\<close>: a singly
  linked list of records with a pointer to its last one. Records live on an explicit heap; a
  read through an address that holds no record (NULL, freed) is undefined (\<open>None\<close>), and so are a
  read outside of a record's data, a failed assertion and a loop that does not end. The host is
  little-endian, as the code assumes where it compares fields of a record without converting
  them.
\<close>

section \<open>Records\<close>

abbreviation (input) PLDM_TERMINUS_LOCATOR_PDR :: u8 where "PLDM_TERMINUS_LOCATOR_PDR \<equiv> 1"
abbreviation (input) PLDM_STATE_SENSOR_PDR :: u8 where "PLDM_STATE_SENSOR_PDR \<equiv> 4"
abbreviation (input) PLDM_STATE_EFFECTER_PDR :: u8 where "PLDM_STATE_EFFECTER_PDR \<equiv> 11"
abbreviation (input) PLDM_PDR_ENTITY_ASSOCIATION :: u8 where "PLDM_PDR_ENTITY_ASSOCIATION \<equiv> 15"
abbreviation (input) PLDM_PDR_FRU_RECORD_SET :: u8 where "PLDM_PDR_FRU_RECORD_SET \<equiv> 20"
abbreviation (input) UINT32_MAX :: u32 where "UINT32_MAX \<equiv> 0xffffffff"

text \<open>The data of a record is an object of its own: its address and its bytes.\<close>

record pldm_pdr_record =
  r_record_handle :: u32
  r_size :: u32
  r_data :: "(nat \<times> u8 list) option"
  r_next :: "nat option"
  r_is_remote :: bool
  r_terminus_handle :: u16

record pldm_pdr =
  p_record_count :: u32
  p_size :: u32
  p_first :: "nat option"
  p_last :: "nat option"

type_synonym pdr_heap = "nat \<Rightarrow> pldm_pdr_record option"

text \<open>Reads and writes through a struct laid over the data of a record.\<close>

definition field :: "nat \<Rightarrow> (nat \<times> u8 list) option \<Rightarrow> 'a::len word option" where
  "field off d =
     (case d of None \<Rightarrow> None
      | Some (_, bs) \<Rightarrow>
          if off + LENGTH('a) div 8 \<le> length bs
          then Some (word_of_le (bytes_at bs off (LENGTH('a) div 8))) else None)"

definition set_field :: "nat \<Rightarrow> 'a::len word \<Rightarrow> (nat \<times> u8 list) option \<Rightarrow> (nat \<times> u8 list) option" where
  "set_field off v d =
     (case d of None \<Rightarrow> None
      | Some (a, bs) \<Rightarrow>
          if off + LENGTH('a) div 8 \<le> length bs then Some (a, poke bs off (le_of_word v)) else None)"

text \<open>Offsets of \<open>struct pldm_pdr_hdr\<close>.\<close>

abbreviation (input) HDR_RECORD_HANDLE :: nat where "HDR_RECORD_HANDLE \<equiv> 0"
abbreviation (input) HDR_TYPE :: nat where "HDR_TYPE \<equiv> 5"
abbreviation (input) PDR_HDR_SIZE :: nat where "PDR_HDR_SIZE \<equiv> 10"

section \<open>Walking the list\<close>

text \<open>
  The loops over the records: \<open>scan\<close> looks at one record after the other until its body has a
  result, \<open>walk\<close> looks at all of them.
\<close>

partial_function (option) scan ::
    "pdr_heap \<Rightarrow> (nat \<Rightarrow> pldm_pdr_record \<Rightarrow> 'r option option) \<Rightarrow> nat option \<Rightarrow> 'r option option" where
  "scan h body p =
     (if p = None then Some None
      else do {
        r \<leftarrow> h (the p);
        v \<leftarrow> body (the p) r;
        case v of Some x \<Rightarrow> Some (Some x) | None \<Rightarrow> scan h body (r_next r) })"

partial_function (option) walk ::
    "pdr_heap \<Rightarrow> (nat \<Rightarrow> pldm_pdr_record \<Rightarrow> 'a \<Rightarrow> 'a) \<Rightarrow> nat option \<Rightarrow> 'a \<Rightarrow> 'a option" where
  "walk h body p acc =
     (if p = None then Some acc
      else do { r \<leftarrow> h (the p); walk h body (r_next r) (body (the p) r acc) })"

definition get_next_record_handle :: "pdr_heap \<Rightarrow> pldm_pdr \<Rightarrow> nat \<Rightarrow> u32 option" where
  "get_next_record_handle h repo record =
     (if Some record = p_last repo then Some 0
      else do { r \<leftarrow> h record; n \<leftarrow> r_next r; rn \<leftarrow> h n; Some (r_record_handle rn) })"

section \<open>Adding\<close>

text \<open>
  \<open>m\<close> and \<open>d\<close>: what the two calls of \<open>malloc\<close> return. \<open>record_handle\<close> is the object the pointer
  leads to, \<open>None\<close> for NULL.
\<close>

definition next_handle :: "pdr_heap \<Rightarrow> pldm_pdr \<Rightarrow> u32 option \<Rightarrow> u32 option option" where
  "next_handle h repo record_handle =
     (if record_handle \<noteq> None \<and> the record_handle \<noteq> 0 then Some record_handle
      else case p_last repo of
        Some l \<Rightarrow> do {
          lr \<leftarrow> h l;
          Some (if r_record_handle lr = UINT32_MAX then None else Some (r_record_handle lr + 1)) }
      | None \<Rightarrow> Some (Some 1))"

definition append_record ::
    "pdr_heap \<Rightarrow> pldm_pdr \<Rightarrow> nat \<Rightarrow> pldm_pdr_record \<Rightarrow> (pdr_heap \<times> pldm_pdr) option" where
  "append_record h repo a r =
     (if (p_first repo = None) \<noteq> (p_last repo = None) then None
      else do {
        let h = h(a \<mapsto> r);
        (h, repo) \<leftarrow>
          (case p_last repo of
             None \<Rightarrow> Some (h, repo\<lparr>p_first := Some a, p_last := Some a\<rparr>)
           | Some l \<Rightarrow> do {
               lr \<leftarrow> h l;
               Some (h(l \<mapsto> lr\<lparr>r_next := Some a\<rparr>), repo\<lparr>p_last := Some a\<rparr>) });
        Some (h, repo\<lparr>p_record_count := p_record_count repo + 1, p_size := p_size repo + r_size r\<rparr>) })"

definition pldm_pdr_add ::
    "pdr_heap \<Rightarrow> pldm_pdr option \<Rightarrow> u8 list option \<Rightarrow> u32 \<Rightarrow> bool \<Rightarrow> u16 \<Rightarrow> u32 option \<Rightarrow>
      nat option \<Rightarrow> nat option \<Rightarrow> (int \<times> pdr_heap \<times> pldm_pdr option \<times> u32 option) option" where
  "pldm_pdr_add h repo data sz is_remote terminus_handle record_handle m d =
     (case (repo, data) of
        (Some rp, Some bs) \<Rightarrow>
          if unat sz < PDR_HDR_SIZE then Some (- EINVAL, h, repo, record_handle)
          else do {
            c \<leftarrow> next_handle h rp record_handle;
            case c of
              None \<Rightarrow> Some (- EOVERFLOW, h, repo, record_handle)
            | Some cur \<Rightarrow>
                (case (m, d) of
                   (Some a, Some da) \<Rightarrow>
                     if unat sz > length bs then None
                     else do {
                       let obj = (da, take (unat sz) bs);
                       obj \<leftarrow> (if record_handle = Some 0 then set_field HDR_RECORD_HANDLE cur (Some obj)
                              else Some obj);
                       (h, rp) \<leftarrow> append_record h rp a
                         \<lparr>r_record_handle = cur, r_size = sz, r_data = Some obj, r_next = None,
                          r_is_remote = is_remote, r_terminus_handle = terminus_handle\<rparr>;
                       Some (0, h, Some rp, map_option (\<lambda>_. cur) record_handle) }
                 | _ \<Rightarrow> Some (- ENOMEM, h, repo, record_handle)) }
      | _ \<Rightarrow> Some (- EINVAL, h, repo, record_handle))"

text \<open>\<open>m\<close>: whether the repository object could be allocated.\<close>

definition pldm_pdr_init :: "bool \<Rightarrow> pldm_pdr option" where
  "pldm_pdr_init m = (if m then Some \<lparr>p_record_count = 0, p_size = 0, p_first = None, p_last = None\<rparr> else None)"

text \<open>All records are freed; a second \<open>free\<close> of an address is undefined.\<close>

partial_function (option) destroy_loop :: "pdr_heap \<Rightarrow> nat option \<Rightarrow> pdr_heap option" where
  "destroy_loop h p =
     (if p = None then Some h
      else do { r \<leftarrow> h (the p); destroy_loop (h(the p := None)) (r_next r) })"

definition pldm_pdr_destroy :: "pdr_heap \<Rightarrow> pldm_pdr option \<Rightarrow> pdr_heap option" where
  "pldm_pdr_destroy h repo = (case repo of None \<Rightarrow> Some h | Some rp \<Rightarrow> destroy_loop h (p_first rp))"

section \<open>Finding\<close>

text \<open>
  \<open>out\<close>: the pointers for the results are all set. The results: the record, its data and size
  and the handle of the next one; the data pointer is not written when nothing is found.
\<close>

definition pldm_pdr_find_record ::
    "pdr_heap \<Rightarrow> pldm_pdr option \<Rightarrow> bool \<Rightarrow> u32 \<Rightarrow>
      (nat option \<times> ((nat \<times> u8 list) option \<times> u32 \<times> u32) option) option" where
  "pldm_pdr_find_record h repo out record_handle =
     (case repo of
        None \<Rightarrow> Some (None, None)
      | Some rp \<Rightarrow>
          if \<not> out then Some (None, None)
          else do {
            wanted \<leftarrow>
              (if record_handle = 0 \<and> p_first rp \<noteq> None
               then do { r \<leftarrow> h (the (p_first rp)); Some (r_record_handle r) }
               else Some record_handle);
            f \<leftarrow> scan h (\<lambda>a r. Some (if r_record_handle r = wanted then Some a else None)) (p_first rp);
            case f of
              None \<Rightarrow> Some (None, Some (None, 0, 0))
            | Some a \<Rightarrow> do {
                r \<leftarrow> h a;
                n \<leftarrow> get_next_record_handle h rp a;
                Some (Some a, Some (r_data r, r_size r, n)) } })"

definition pldm_pdr_get_next_record ::
    "pdr_heap \<Rightarrow> pldm_pdr option \<Rightarrow> nat option \<Rightarrow> bool \<Rightarrow>
      (nat option \<times> ((nat \<times> u8 list) option \<times> u32 \<times> u32) option) option" where
  "pldm_pdr_get_next_record h repo curr_record out =
     (case (repo, curr_record) of
        (Some rp, Some c) \<Rightarrow>
          if \<not> out then Some (None, None)
          else if Some c = p_last rp then do {
            n \<leftarrow> get_next_record_handle h rp c;
            Some (None, Some (None, 0, n)) }
          else do {
            cr \<leftarrow> h c;
            a \<leftarrow> r_next cr;
            n \<leftarrow> get_next_record_handle h rp a;
            r \<leftarrow> h a;
            Some (Some a, Some (r_data r, r_size r, n)) }
      | _ \<Rightarrow> Some (None, None))"

text \<open>The address of the next record with a type; its data and size are read off the record.\<close>

definition pldm_pdr_find_record_by_type ::
    "pdr_heap \<Rightarrow> pldm_pdr option \<Rightarrow> u8 \<Rightarrow> nat option \<Rightarrow> nat option option" where
  "pldm_pdr_find_record_by_type h repo pdr_type curr_record =
     (case repo of
        None \<Rightarrow> Some None
      | Some rp \<Rightarrow> do {
          start \<leftarrow> (case curr_record of None \<Rightarrow> Some (p_first rp)
                   | Some c \<Rightarrow> do { r \<leftarrow> h c; Some (r_next r) });
          scan h (\<lambda>a r. do {
            t \<leftarrow> field HDR_TYPE (r_data r);
            Some (if t = pdr_type then Some a else None) }) start })"

definition pldm_pdr_get_record_count :: "pldm_pdr \<Rightarrow> u32" where
  "pldm_pdr_get_record_count repo = p_record_count repo"

definition pldm_pdr_get_repo_size :: "pldm_pdr \<Rightarrow> u32" where
  "pldm_pdr_get_repo_size repo = p_size repo"

definition pldm_pdr_get_record_handle :: "pdr_heap \<Rightarrow> nat \<Rightarrow> u32 option" where
  "pldm_pdr_get_record_handle h record = map_option r_record_handle (h record)"

definition pldm_pdr_get_terminus_handle :: "pdr_heap \<Rightarrow> nat \<Rightarrow> u16 option" where
  "pldm_pdr_get_terminus_handle h record = map_option r_terminus_handle (h record)"

definition pldm_pdr_record_is_remote :: "pdr_heap \<Rightarrow> nat \<Rightarrow> bool option" where
  "pldm_pdr_record_is_remote h record = map_option r_is_remote (h record)"

text \<open>The record with the greatest handle between two bounds.\<close>

definition pldm_pdr_find_last_in_range ::
    "pdr_heap \<Rightarrow> pldm_pdr option \<Rightarrow> u32 \<Rightarrow> u32 \<Rightarrow> nat option option" where
  "pldm_pdr_find_last_in_range h repo fst_handle lst_handle =
     (case repo of
        None \<Rightarrow> Some None
      | Some rp \<Rightarrow> do {
          best \<leftarrow> walk h (\<lambda>a r best.
            if fst_handle > r_record_handle r \<or> lst_handle < r_record_handle r then best
            else case best of
              None \<Rightarrow> Some (a, r_record_handle r)
            | Some (_, high) \<Rightarrow> if r_record_handle r > high then Some (a, r_record_handle r) else best)
            (p_first rp) None;
          Some (map_option fst best) })"

section \<open>Removing one record\<close>

text \<open>The record before the first one with the handle of \<open>record\<close>.\<close>

partial_function (option) prev_loop ::
    "pdr_heap \<Rightarrow> u32 \<Rightarrow> nat option \<Rightarrow> nat option \<Rightarrow> nat option option" where
  "prev_loop h handle prev cur =
     (if cur = None then Some prev
      else do {
        r \<leftarrow> h (the cur);
        if r_record_handle r = handle then Some prev else prev_loop h handle cur (r_next r) })"

definition pldm_pdr_get_prev_record :: "pdr_heap \<Rightarrow> pldm_pdr \<Rightarrow> nat \<Rightarrow> nat option option" where
  "pldm_pdr_get_prev_record h repo record = do {
     r \<leftarrow> h record;
     prev_loop h (r_record_handle r) None (p_first repo) }"

definition is_prev_record_present :: "pdr_heap \<Rightarrow> pldm_pdr \<Rightarrow> nat \<Rightarrow> bool option" where
  "is_prev_record_present h repo record =
     (if p_first repo = Some record then Some True
      else do { p \<leftarrow> pldm_pdr_get_prev_record h repo record; Some (p \<noteq> None) })"

definition set_next :: "pdr_heap \<Rightarrow> nat \<Rightarrow> nat option \<Rightarrow> pdr_heap option" where
  "set_next h a n = do { r \<leftarrow> h a; Some (h(a \<mapsto> r\<lparr>r_next := n\<rparr>)) }"

definition pldm_pdr_remove_record ::
    "pdr_heap \<Rightarrow> pldm_pdr \<Rightarrow> nat \<Rightarrow> nat option \<Rightarrow> (int \<times> pdr_heap \<times> pldm_pdr) option" where
  "pldm_pdr_remove_record h repo record prev = do {
     present \<leftarrow> is_prev_record_present h repo record;
     if \<not> present then Some (- EINVAL, h, repo)
     else do {
       r \<leftarrow> h record;
       if p_size repo < r_size r then None
       else do {
         (h, repo) \<leftarrow>
           (if p_first repo = Some record then Some (h, repo\<lparr>p_first := r_next r\<rparr>)
            else case prev of
              None \<Rightarrow> Some (h, repo)
            | Some p \<Rightarrow> do { h \<leftarrow> set_next h p (r_next r); Some (h, repo) });
         (h, repo) \<leftarrow>
           (if p_last repo = Some record
            then case prev of
                None \<Rightarrow> Some (h, repo\<lparr>p_last := prev\<rparr>)
              | Some p \<Rightarrow> do { h \<leftarrow> set_next h p None; Some (h, repo\<lparr>p_last := prev\<rparr>) }
            else Some (h, repo));
         Some (0, h(record := None),
               repo\<lparr>p_record_count := p_record_count repo - 1, p_size := p_size repo - r_size r\<rparr>) } } }"

text \<open>The end of the functions that delete a record they have found.\<close>

definition remove_found ::
    "pdr_heap \<Rightarrow> pldm_pdr \<Rightarrow> nat \<Rightarrow> (int \<times> pdr_heap \<times> pldm_pdr) option" where
  "remove_found h repo record = do {
     prev \<leftarrow> pldm_pdr_get_prev_record h repo record;
     pldm_pdr_remove_record h repo record prev }"

section \<open>Removing all records of a kind\<close>

text \<open>
  The loop of the functions that remove all remote records or all records of a terminus; its
  assertion is that the first record is first.
\<close>

partial_function (option) remove_loop ::
    "(pldm_pdr_record \<Rightarrow> bool) \<Rightarrow> pdr_heap \<Rightarrow> pldm_pdr \<Rightarrow> nat option \<Rightarrow> nat option \<Rightarrow> bool \<Rightarrow>
      (pdr_heap \<times> pldm_pdr \<times> bool) option" where
  "remove_loop goes h repo record prev removed =
     (if record = None then Some (h, repo, removed)
      else do {
        r \<leftarrow> h (the record);
        if \<not> goes r then remove_loop goes h repo (r_next r) record removed
        else do {
          (h, repo) \<leftarrow>
            (case prev of
               None \<Rightarrow> if p_first repo = record then Some (h, repo\<lparr>p_first := r_next r\<rparr>) else None
             | Some p \<Rightarrow> do { h \<leftarrow> set_next h p (r_next r); Some (h, repo) });
          let repo = (if p_last repo = record then repo\<lparr>p_last := prev\<rparr> else repo);
          let repo = repo\<lparr>p_record_count := p_record_count repo - 1, p_size := p_size repo - r_size r\<rparr>;
          remove_loop goes (h(the record := None)) repo (r_next r) prev True } })"

partial_function (option) renumber_loop :: "pdr_heap \<Rightarrow> nat option \<Rightarrow> u32 \<Rightarrow> pdr_heap option" where
  "renumber_loop h record record_handle =
     (if record = None then Some h
      else do {
        r \<leftarrow> h (the record);
        let record_handle = record_handle + 1;
        data \<leftarrow> (case r_data r of None \<Rightarrow> Some None
                 | Some d \<Rightarrow> do { d \<leftarrow> set_field HDR_RECORD_HANDLE record_handle (Some d); Some (Some d) });
        renumber_loop (h(the record \<mapsto> r\<lparr>r_record_handle := record_handle, r_data := data\<rparr>))
          (r_next r) record_handle })"

definition remove_and_renumber ::
    "(pldm_pdr_record \<Rightarrow> bool) \<Rightarrow> pdr_heap \<Rightarrow> pldm_pdr option \<Rightarrow> (pdr_heap \<times> pldm_pdr option) option" where
  "remove_and_renumber goes h repo =
     (case repo of
        None \<Rightarrow> Some (h, None)
      | Some rp \<Rightarrow> do {
          (h, rp, removed) \<leftarrow> remove_loop goes h rp (p_first rp) None False;
          if removed then do { h \<leftarrow> renumber_loop h (p_first rp) 0; Some (h, Some rp) }
          else Some (h, Some rp) })"

definition pldm_pdr_remove_pdrs_by_terminus_handle ::
    "pdr_heap \<Rightarrow> pldm_pdr option \<Rightarrow> u16 \<Rightarrow> (pdr_heap \<times> pldm_pdr option) option" where
  "pldm_pdr_remove_pdrs_by_terminus_handle h repo terminus_handle =
     remove_and_renumber (\<lambda>r. r_terminus_handle r = terminus_handle) h repo"

definition pldm_pdr_remove_remote_pdrs ::
    "pdr_heap \<Rightarrow> pldm_pdr option \<Rightarrow> (pdr_heap \<times> pldm_pdr option) option" where
  "pldm_pdr_remove_remote_pdrs h repo = remove_and_renumber r_is_remote h repo"

section \<open>FRU record sets\<close>

text \<open>
  \<open>m\<close> and \<open>d\<close> as for \<open>pldm_pdr_add\<close>. The handle in the header is written in the byte order of the
  host.
\<close>

definition fru_record_set_data :: "u32 \<Rightarrow> u16 \<Rightarrow> u16 \<Rightarrow> u16 \<Rightarrow> u16 \<Rightarrow> u16 \<Rightarrow> u8 list" where
  "fru_record_set_data handle terminus_handle fru_rsi entity_type entity_instance_num container_id =
     le_of_word handle @ [1, PLDM_PDR_FRU_RECORD_SET] @ le_of_word (0 :: u16) @ le_of_word (10 :: u16) @
     le_of_word terminus_handle @ le_of_word fru_rsi @ le_of_word entity_type @
     le_of_word entity_instance_num @ le_of_word container_id"

definition pldm_pdr_add_fru_record_set ::
    "pdr_heap \<Rightarrow> pldm_pdr option \<Rightarrow> u16 \<Rightarrow> u16 \<Rightarrow> u16 \<Rightarrow> u16 \<Rightarrow> u16 \<Rightarrow> u32 option \<Rightarrow>
      nat option \<Rightarrow> nat option \<Rightarrow> (int \<times> pdr_heap \<times> pldm_pdr option \<times> u32 option) option" where
  "pldm_pdr_add_fru_record_set h repo terminus_handle fru_rsi entity_type entity_instance_num
     container_id bmc_record_handle m d =
     (case (repo, bmc_record_handle) of
        (Some _, Some handle) \<Rightarrow>
          pldm_pdr_add h repo
            (Some (fru_record_set_data handle terminus_handle fru_rsi entity_type entity_instance_num
                     container_id)) 20 False terminus_handle bmc_record_handle m d
      | _ \<Rightarrow> Some (- EINVAL, h, repo, bmc_record_handle))"

text \<open>
  \<open>out\<close>: the pointers for the results are set. The loop of calls of \<open>find_record_by_type\<close>; the
  results are the record and terminus handle, entity type, instance and container.
\<close>

partial_function (option) find_rsi_loop ::
    "pdr_heap \<Rightarrow> pldm_pdr \<Rightarrow> u16 \<Rightarrow> nat option \<Rightarrow> (nat option \<times> u16 \<times> u16 \<times> u16 \<times> u16) option" where
  "find_rsi_loop h repo fru_rsi cur_record =
     (if cur_record = None then Some (None, 0, 0, 0, 0)
      else do {
        r \<leftarrow> h (the cur_record);
        rsi \<leftarrow> field 12 (r_data r);
        if rsi = fru_rsi then do {
          th \<leftarrow> field 10 (r_data r); ty \<leftarrow> field 14 (r_data r); inum \<leftarrow> field 16 (r_data r);
          c \<leftarrow> field 18 (r_data r);
          Some (cur_record, th, ty, inum, c) }
        else do {
          next \<leftarrow> pldm_pdr_find_record_by_type h (Some repo) PLDM_PDR_FRU_RECORD_SET cur_record;
          find_rsi_loop h repo fru_rsi next } })"

definition pldm_pdr_fru_record_set_find_by_rsi ::
    "pdr_heap \<Rightarrow> pldm_pdr option \<Rightarrow> u16 \<Rightarrow> bool \<Rightarrow>
      (nat option \<times> (u16 \<times> u16 \<times> u16 \<times> u16) option) option" where
  "pldm_pdr_fru_record_set_find_by_rsi h repo fru_rsi out =
     (case repo of
        None \<Rightarrow> Some (None, None)
      | Some rp \<Rightarrow>
          if \<not> out then Some (None, None)
          else do {
            c \<leftarrow> pldm_pdr_find_record_by_type h repo PLDM_PDR_FRU_RECORD_SET None;
            (r, th, ty, inum, c) \<leftarrow> find_rsi_loop h rp fru_rsi c;
            Some (r, Some (th, ty, inum, c)) })"

section \<open>Terminus locators\<close>

text \<open>
  \<open>pldm_pdr_update_TL_pdr\<close>: handle at 10, validity at 12, TID at 13 and the EID at 18. When there
  is no record the loop looks once more and ends.
\<close>

partial_function (option) update_tl_loop ::
    "pdr_heap \<Rightarrow> pldm_pdr option \<Rightarrow> u16 \<Rightarrow> u8 \<Rightarrow> u8 \<Rightarrow> bool \<Rightarrow> nat option \<Rightarrow> pdr_heap option" where
  "update_tl_loop h repo terminus_handle tid tl_eid valid_bit record = do {
     hit \<leftarrow>
       (case record of
          None \<Rightarrow> Some None
        | Some a \<Rightarrow> do {
            r \<leftarrow> h a;
            th \<leftarrow> field 10 (r_data r);
            if th \<noteq> terminus_handle then Some None
            else do {
              t \<leftarrow> field 13 (r_data r);
              if t \<noteq> tid then Some None
              else do {
                e \<leftarrow> field 18 (r_data r);
                if e \<noteq> tl_eid then Some None
                else do {
                  dat \<leftarrow> set_field 12 (of_bool valid_bit :: u8) (r_data r);
                  Some (Some (h(a \<mapsto> r\<lparr>r_data := Some dat\<rparr>))) } } } });
     case hit of
       Some h \<Rightarrow> Some h
     | None \<Rightarrow> do {
         next \<leftarrow> pldm_pdr_find_record_by_type h repo PLDM_TERMINUS_LOCATOR_PDR record;
         if next = None then Some h
         else update_tl_loop h repo terminus_handle tid tl_eid valid_bit next } }"

definition pldm_pdr_update_TL_pdr ::
    "pdr_heap \<Rightarrow> pldm_pdr option \<Rightarrow> u16 \<Rightarrow> u8 \<Rightarrow> u8 \<Rightarrow> bool \<Rightarrow> pdr_heap option" where
  "pldm_pdr_update_TL_pdr h repo terminus_handle tid tl_eid valid_bit = do {
     record \<leftarrow> pldm_pdr_find_record_by_type h repo PLDM_TERMINUS_LOCATOR_PDR None;
     update_tl_loop h repo terminus_handle tid tl_eid valid_bit record }"

section \<open>Deleting by what a record says\<close>

text \<open>The fields the two decoders read; all other fields are read and dropped.\<close>

record state_pdr =
  sp_type :: u8
  sp_id :: u16

text \<open>
  A msgbuf over the data of a record. The first eight fields of the two PDRs are the same: the
  header, the terminus handle and the id of sensor or effecter.
\<close>

definition record_msgbuf :: "nat \<Rightarrow> pldm_pdr_record \<Rightarrow> (int \<times> msgbuf) option" where
  "record_msgbuf minsize r = do {
     (a, bs) \<leftarrow> r_data r;
     Some (pldm__msgbuf_init_errno minsize a bs (unat (r_size r))) }"

definition extract_state_head :: "state_pdr \<Rightarrow> msgbuf \<Rightarrow> state_pdr \<times> msgbuf" where
  "extract_state_head pdr b =
     (let (_, _, b) = pldm__msgbuf_extract_uint32 b 0;
          (_, _, b) = pldm__msgbuf_extract_uint8 b 0;
          (_, t, b) = pldm__msgbuf_extract_uint8 b (sp_type pdr);
          (_, _, b) = pldm__msgbuf_extract_uint16 b 0;
          (_, _, b) = pldm__msgbuf_extract_uint16 b 0;
          (_, _, b) = pldm__msgbuf_extract_uint16 b 0;
          (_, i, b) = pldm__msgbuf_extract_uint16 b (sp_id pdr);
          (_, _, b) = pldm__msgbuf_extract_uint16 b 0;
          (_, _, b) = pldm__msgbuf_extract_uint16 b 0;
          (_, _, b) = pldm__msgbuf_extract_uint16 b 0
      in (pdr\<lparr>sp_type := t, sp_id := i\<rparr>, b))"

definition decode_pldm_state_sensor_pdr ::
    "pldm_pdr_record \<Rightarrow> state_pdr \<Rightarrow> (int \<times> state_pdr) option" where
  "decode_pldm_state_sensor_pdr r pdr = do {
     (rc, b) \<leftarrow> record_msgbuf 24 r;
     if rc \<noteq> 0 then mb_exit b (rc, pdr)
     else
       let (pdr, b) = extract_state_head pdr b;
           (_, _, b) = pldm__msgbuf_extract_uint8 b 0;
           (_, _, b) = pldm__msgbuf_extract_uint8 b 0;
           (_, _, b) = pldm__msgbuf_extract_uint8 b 0;
           (rc, b) = pldm_msgbuf_complete b
       in mb_exit b (rc, pdr) }"

definition decode_pldm_state_effecter_pdr ::
    "pldm_pdr_record \<Rightarrow> state_pdr \<Rightarrow> (int \<times> state_pdr) option" where
  "decode_pldm_state_effecter_pdr r pdr = do {
     (rc, b) \<leftarrow> record_msgbuf 26 r;
     if rc \<noteq> 0 then mb_exit b (rc, pdr)
     else
       let (pdr, b) = extract_state_head pdr b;
           (_, _, b) = pldm__msgbuf_extract_uint16 b 0;
           (_, _, b) = pldm__msgbuf_extract_uint8 b 0;
           (_, _, b) = pldm__msgbuf_extract_uint8 b 0;
           (_, _, b) = pldm__msgbuf_extract_uint8 b 0;
           (rc, b) = pldm_msgbuf_complete b
       in mb_exit b (rc, pdr) }"

text \<open>
  One round of the two loops: a record without data is passed over, one that does not decode
  ends the search with its error, whatever its type is.
\<close>

definition state_pdr_round ::
    "(pldm_pdr_record \<Rightarrow> state_pdr \<Rightarrow> (int \<times> state_pdr) option) \<Rightarrow> u8 \<Rightarrow> u16 \<Rightarrow> bool \<Rightarrow> state_pdr \<Rightarrow>
      nat \<Rightarrow> pldm_pdr_record \<Rightarrow> (int + nat) option option" where
  "state_pdr_round decode ty i is_remote lo a r =
     (if r_data r = None then Some None
      else do {
        (rc, pdr) \<leftarrow> decode r lo;
        Some (if rc \<noteq> 0 then Some (Inl rc)
              else if r_is_remote r \<noteq> is_remote \<or> sp_type pdr \<noteq> ty then None
              else if sp_id pdr = i then Some (Inr a) else None) })"

text \<open>\<open>lo\<close>: what the local PDR variable holds before the call.\<close>

definition pldm_pdr_delete_by_sensor_id ::
    "pdr_heap \<Rightarrow> pldm_pdr option \<Rightarrow> u16 \<Rightarrow> bool \<Rightarrow> u32 option \<Rightarrow> state_pdr \<Rightarrow>
      (int \<times> pdr_heap \<times> pldm_pdr option \<times> u32 option) option" where
  "pldm_pdr_delete_by_sensor_id h repo sensor_id is_remote record_handle lo =
     (case repo of
        None \<Rightarrow> Some (- EINVAL, h, repo, record_handle)
      | Some rp \<Rightarrow> do {
          f \<leftarrow> scan h (state_pdr_round decode_pldm_state_sensor_pdr PLDM_STATE_SENSOR_PDR sensor_id is_remote lo)
                (p_first rp);
          case f of
            None \<Rightarrow> Some (- ENOENT, h, repo, record_handle)
          | Some (Inl rc) \<Rightarrow> Some (rc, h, repo, record_handle)
          | Some (Inr a) \<Rightarrow> do {
              r \<leftarrow> h a;
              (rc, h, rp) \<leftarrow> remove_found h rp a;
              Some (rc, h, Some rp, map_option (\<lambda>_. r_record_handle r) record_handle) } })"

text \<open>When nothing is found the result is that of the last decoding, which was 0.\<close>

definition pldm_pdr_delete_by_effecter_id ::
    "pdr_heap \<Rightarrow> pldm_pdr option \<Rightarrow> u16 \<Rightarrow> bool \<Rightarrow> u32 option \<Rightarrow> state_pdr \<Rightarrow>
      (int \<times> pdr_heap \<times> pldm_pdr option \<times> u32 option) option" where
  "pldm_pdr_delete_by_effecter_id h repo effecter_id is_remote record_handle lo =
     (case repo of
        None \<Rightarrow> Some (- EINVAL, h, repo, record_handle)
      | Some rp \<Rightarrow> do {
          f \<leftarrow> scan h (state_pdr_round decode_pldm_state_effecter_pdr PLDM_STATE_EFFECTER_PDR effecter_id
                is_remote lo) (p_first rp);
          case f of
            None \<Rightarrow> Some (0, h, repo, record_handle)
          | Some (Inl rc) \<Rightarrow> Some (rc, h, repo, record_handle)
          | Some (Inr a) \<Rightarrow> do {
              r \<leftarrow> h a;
              (rc, h, rp) \<leftarrow> remove_found h rp a;
              Some (rc, h, Some rp, map_option (\<lambda>_. r_record_handle r) record_handle) } })"

text \<open>
  The handle is read out of the header into sixteen bits. The msgbuf here is a plain variable
  that need not be completed.
\<close>

definition handle_round :: "u32 \<Rightarrow> bool \<Rightarrow> nat \<Rightarrow> pldm_pdr_record \<Rightarrow> (int + nat) option option" where
  "handle_round record_handle is_remote a r = do {
     (rc, b) \<leftarrow> record_msgbuf PDR_HDR_SIZE r;
     if rc \<noteq> 0 then Some (Some (Inl rc))
     else
       let (rc, rec_handle, b) = pldm__msgbuf_extract_uint16 b 0 in
       if mb_fault b then None
       else if rc \<noteq> 0 then Some (Some (Inl rc))
       else if r_is_remote r = is_remote \<and> (ucast rec_handle :: u32) = record_handle then Some (Some (Inr a))
       else
         let (rc, b) = pldm_msgbuf_complete b in Some (if rc \<noteq> 0 then Some (Inl rc) else None) }"

definition pldm_pdr_delete_by_record_handle ::
    "pdr_heap \<Rightarrow> pldm_pdr option \<Rightarrow> u32 \<Rightarrow> bool \<Rightarrow> (int \<times> pdr_heap \<times> pldm_pdr option) option" where
  "pldm_pdr_delete_by_record_handle h repo record_handle is_remote =
     (case repo of
        None \<Rightarrow> Some (- EINVAL, h, repo)
      | Some rp \<Rightarrow> do {
          f \<leftarrow> scan h (handle_round record_handle is_remote) (p_first rp);
          case f of
            None \<Rightarrow> Some (- ENOENT, h, repo)
          | Some (Inl rc) \<Rightarrow> Some (rc, h, repo)
          | Some (Inr a) \<Rightarrow> do { (rc, h, rp) \<leftarrow> remove_found h rp a; Some (rc, h, Some rp) } })"

definition pldm_pdr_record_matches_fru_rsi :: "pldm_pdr_record \<Rightarrow> u16 \<Rightarrow> int option" where
  "pldm_pdr_record_matches_fru_rsi r rsi = do {
     (rc, b) \<leftarrow> record_msgbuf 20 r;
     if rc \<noteq> 0 then mb_exit b rc
     else
       let (_, _, b) = pldm__msgbuf_span_required b 12;
           (_, record_fru_rsi, b) = pldm__msgbuf_extract_uint16 b 0;
           (rc, b) = pldm_msgbuf_complete b
       in mb_exit b (if rc \<noteq> 0 then rc else of_bool (record_fru_rsi = rsi)) }"

definition rsi_round :: "u16 \<Rightarrow> bool \<Rightarrow> nat \<Rightarrow> pldm_pdr_record \<Rightarrow> (int + nat) option option" where
  "rsi_round fru_rsi is_remote a r = do {
     (rc, b) \<leftarrow> record_msgbuf 20 r;
     if rc \<noteq> 0 then mb_exit b (Some (Inl rc))
     else do {
       let (_, _, b) = pldm__msgbuf_span_required b 5;
       let (_, hdr_type, b) = pldm__msgbuf_extract_uint8 b 0;
       let (rc, b) = pldm_msgbuf_complete b;
       rc \<leftarrow> mb_exit b rc;
       if rc \<noteq> 0 then Some (Some (Inl rc))
       else if r_is_remote r \<noteq> is_remote \<or> hdr_type \<noteq> PLDM_PDR_FRU_RECORD_SET then Some None
       else do {
         match \<leftarrow> pldm_pdr_record_matches_fru_rsi r fru_rsi;
         Some (if match < 0 then Some (Inl match) else if match \<noteq> 0 then Some (Inr a) else None) } } }"

definition pldm_pdr_remove_fru_record_set_by_rsi ::
    "pdr_heap \<Rightarrow> pldm_pdr option \<Rightarrow> u16 \<Rightarrow> bool \<Rightarrow> u32 option \<Rightarrow>
      (int \<times> pdr_heap \<times> pldm_pdr option \<times> u32 option) option" where
  "pldm_pdr_remove_fru_record_set_by_rsi h repo fru_rsi is_remote record_handle =
     (case (repo, record_handle) of
        (Some rp, Some _) \<Rightarrow> do {
          f \<leftarrow> scan h (rsi_round fru_rsi is_remote) (p_first rp);
          case f of
            None \<Rightarrow> Some (0, h, repo, record_handle)
          | Some (Inl rc) \<Rightarrow> Some (rc, h, repo, record_handle)
          | Some (Inr a) \<Rightarrow> do {
              r \<leftarrow> h a;
              (rc, h, rp) \<leftarrow> remove_found h rp a;
              Some (rc, h, Some rp, Some (r_record_handle r)) } }
      | _ \<Rightarrow> Some (- EINVAL, h, repo, record_handle))"

section \<open>Entity associations in the repository\<close>

definition pldm_record_handle_in_range :: "u32 \<Rightarrow> u32 \<Rightarrow> u32 \<Rightarrow> bool" where
  "pldm_record_handle_in_range record_handle first_record_handle last_record_handle \<longleftrightarrow>
     record_handle \<ge> first_record_handle \<and> record_handle \<le> last_record_handle"

text \<open>
  \<open>container_id\<close>: the object the pointer leads to, which must be set. An entity association
  has the entity it describes at 13, the number of children at 19 and the children, six bytes
  each, from 20 on.
\<close>

definition pldm_pdr_find_child_container_id_index_range_exclude ::
    "pdr_heap \<Rightarrow> pldm_pdr option \<Rightarrow> u16 \<Rightarrow> u16 \<Rightarrow> u8 \<Rightarrow> u32 \<Rightarrow> u32 \<Rightarrow> u16 \<Rightarrow> (int \<times> u16) option" where
  "pldm_pdr_find_child_container_id_index_range_exclude h repo entity_type entity_instance child_index
     range_exclude_start_handle range_exclude_end_handle container_id =
     (case repo of
        None \<Rightarrow> Some (- EINVAL, container_id)
      | Some rp \<Rightarrow> do {
          f \<leftarrow> scan h (\<lambda>a r. do {
            t \<leftarrow> field HDR_TYPE (r_data r);
            if t \<noteq> PLDM_PDR_ENTITY_ASSOCIATION then Some None
            else if pldm_record_handle_in_range (r_record_handle r) range_exclude_start_handle
                      range_exclude_end_handle then Some None
            else do {
              num_children \<leftarrow> field 19 (r_data r);
              if child_index \<ge> num_children then Some None
              else do {
                ty \<leftarrow> field 13 (r_data r);
                inum \<leftarrow> field 15 (r_data r);
                if ty = entity_type \<and> inum = entity_instance then do {
                  c \<leftarrow> field (20 + 6 * unat child_index + 4) (r_data r);
                  Some (Some c) }
                else Some None } } }) (p_first rp);
          Some (case f of None \<Rightarrow> (- ENOENT, container_id) | Some c \<Rightarrow> (0, c)) })"

end
