(* ===== verification/Pdr_Repo_Laws.thy ===== *)
theory Pdr_Repo_Laws
  imports Pdr_Repo
begin

text \<open>
  The repository is a list. \<open>repo_at\<close> says which records a repository links and in what order,
  that its counters are right and that every record has the data its size promises; the lemmas
  give the effect of each operation on that list. The locale \<open>implements\<close> turns the effects of single
  operations into the refinement of whole sequences of them.
\<close>

section \<open>List segments\<close>

fun pseg :: "pdr_heap \<Rightarrow> nat option \<Rightarrow> nat list \<Rightarrow> nat option \<Rightarrow> bool" where
  "pseg h p [] q \<longleftrightarrow> p = q"
| "pseg h p (a # as) q \<longleftrightarrow> p = Some a \<and> (\<exists>r. h a = Some r \<and> pseg h (r_next r) as q)"

lemma pseg_append: "pseg h p (as @ bs) q \<longleftrightarrow> (\<exists>m. pseg h p as m \<and> pseg h m bs q)"
  by (induction as arbitrary: p) auto

lemma pseg_cong: "(\<And>a. a \<in> set as \<Longrightarrow> h' a = h a) \<Longrightarrow> pseg h' p as q = pseg h p as q"
  by (induction as arbitrary: p) auto

lemma pseg_other [simp]: "a \<notin> set as \<Longrightarrow> pseg (h(a := v)) p as q = pseg h p as q"
  by (rule pseg_cong) auto

lemma pseg_defined: "pseg h p as q \<Longrightarrow> a \<in> set as \<Longrightarrow> \<exists>r. h a = Some r"
  by (induction as arbitrary: p) auto

lemma pseg_Nil_iff: "pseg h p as None \<Longrightarrow> p = None \<longleftrightarrow> as = []"
  by (cases as) auto

text \<open>Changing where the last record of a segment leads.\<close>

lemma pseg_relink:
  assumes "pseg h p (us @ [a]) q" "a \<notin> set us" "h a = Some r"
  shows "pseg (h(a \<mapsto> r\<lparr>r_next := n\<rparr>)) p (us @ [a]) n"
  using assms by (auto simp: pseg_append)

section \<open>Loops\<close>

fun scan_list ::
    "(nat \<Rightarrow> pldm_pdr_record \<Rightarrow> 'r option option) \<Rightarrow> pdr_heap \<Rightarrow> nat list \<Rightarrow> 'r option option" where
  "scan_list body h [] = Some None"
| "scan_list body h (a # as) =
     (case body a (the (h a)) of None \<Rightarrow> None | Some (Some x) \<Rightarrow> Some (Some x)
      | Some None \<Rightarrow> scan_list body h as)"

lemma scan_pseg: "pseg h p as None \<Longrightarrow> scan h body p = scan_list body h as"
proof (induction as arbitrary: p)
  case (Cons a as)
  then show ?case by (subst scan.simps) (auto split: option.splits)
qed (subst scan.simps, simp)

lemma scan_list_find:
  "scan_list (\<lambda>a r. Some (if P r then Some a else None)) h as = Some (find (\<lambda>a. P (the (h a))) as)"
  by (induction as) auto

lemma scan_list_cong:
  "(\<And>a. a \<in> set as \<Longrightarrow> f a (the (h a)) = g a (the (h a))) \<Longrightarrow> scan_list f h as = scan_list g h as"
  by (induction as) (auto split: option.splits)

lemma walk_pseg: "pseg h p as None \<Longrightarrow> walk h body p acc = Some (fold (\<lambda>a. body a (the (h a))) as acc)"
proof (induction as arbitrary: p acc)
  case (Cons a as)
  then show ?case by (subst walk.simps) auto
qed (subst walk.simps, simp)

section \<open>The list a repository holds\<close>

record pdr_entry =
  pe_handle :: u32
  pe_data :: "u8 list"
  pe_remote :: bool
  pe_terminus :: u16

definition entry_of :: "pldm_pdr_record \<Rightarrow> pdr_entry" where
  "entry_of r =
     \<lparr>pe_handle = r_record_handle r, pe_data = (case r_data r of None \<Rightarrow> [] | Some (_, bs) \<Rightarrow> bs),
      pe_remote = r_is_remote r, pe_terminus = r_terminus_handle r\<rparr>"

abbreviation entry_at :: "pdr_heap \<Rightarrow> nat \<Rightarrow> pdr_entry" where
  "entry_at h a \<equiv> entry_of (the (h a))"

lemma entry_of_sel [simp]:
  "pe_handle (entry_of r) = r_record_handle r" "pe_remote (entry_of r) = r_is_remote r"
  "pe_terminus (entry_of r) = r_terminus_handle r"
  by (simp_all add: entry_of_def)

lemma entry_of_next [simp]: "entry_of (r\<lparr>r_next := n\<rparr>) = entry_of r"
  by (simp add: entry_of_def)

definition record_ok :: "pldm_pdr_record \<Rightarrow> bool" where
  "record_ok r \<longleftrightarrow>
     (\<exists>a bs. r_data r = Some (a, bs) \<and> length bs = unat (r_size r) \<and> PDR_HDR_SIZE \<le> length bs \<and>
        a + length bs \<le> UINTPTR_MAX)"

lemma record_ok_next [simp]: "record_ok (r\<lparr>r_next := n\<rparr>) = record_ok r"
  by (simp add: record_ok_def)

lemma record_ok_size: "record_ok r \<Longrightarrow> r_size r = of_nat (length (pe_data (entry_of r)))"
  by (auto simp: record_ok_def entry_of_def)

definition repo_bytes :: "pdr_entry list \<Rightarrow> nat" where
  "repo_bytes es = sum_list (map (\<lambda>e. length (pe_data e)) es)"

lemma repo_bytes_simps [simp]:
  "repo_bytes [] = 0" "repo_bytes (e # es) = length (pe_data e) + repo_bytes es"
  "repo_bytes (es @ fs) = repo_bytes es + repo_bytes fs"
  by (simp_all add: repo_bytes_def)

definition repo_at :: "pdr_heap \<Rightarrow> pldm_pdr \<Rightarrow> nat list \<Rightarrow> bool" where
  "repo_at h repo as \<longleftrightarrow>
     finite (dom h) \<and> pseg h (p_first repo) as None \<and> distinct as \<and>
     p_last repo = (if as = [] then None else Some (last as)) \<and>
     (\<forall>a\<in>set as. record_ok (the (h a))) \<and>
     p_record_count repo = of_nat (length as) \<and>
     p_size repo = of_nat (repo_bytes (map (entry_at h) as))"

lemma repo_at_defined: "repo_at h repo as \<Longrightarrow> a \<in> set as \<Longrightarrow> h a = Some (the (h a))"
  using pseg_defined by (fastforce simp: repo_at_def)

lemma init_repo_at: "finite (dom h) \<Longrightarrow> pldm_pdr_init True = Some repo \<Longrightarrow> repo_at h repo []"
  by (auto simp: repo_at_def pldm_pdr_init_def)

section \<open>Adding\<close>

lemma append_record_at:
  assumes at: "repo_at h repo as" and a: "a \<notin> set as" and r: "record_ok r" "r_next r = None"
  obtains h' repo' where "append_record h repo a r = Some (h', repo')" "repo_at h' repo' (as @ [a])"
    "map (entry_at h') (as @ [a]) = map (entry_at h) as @ [entry_of r]"
proof (cases "as = []")
  case True
  then show thesis
    using that [of "h(a \<mapsto> r)" "repo\<lparr>p_first := Some a, p_last := Some a,
        p_record_count := p_record_count repo + 1, p_size := p_size repo + r_size r\<rparr>"] at r
    by (simp add: append_record_def repo_at_def record_ok_size)
next
  case False
  define l us where "l = last as" and "us = butlast as"
  have as: "as = us @ [l]" "l \<in> set as" using False by (simp_all add: l_def us_def)
  obtain lr where lr: "h l = Some lr" using repo_at_defined [OF at as(2)] by auto
  have ne: "l \<noteq> a" using a as by auto
  define h' where "h' = h(a \<mapsto> r, l \<mapsto> lr\<lparr>r_next := Some a\<rparr>)"
  have first: "p_first repo \<noteq> None" "p_last repo = Some l"
    using at False by (auto simp: repo_at_def l_def dest: pseg_Nil_iff)
  have same: "entry_at h' b = entry_at h b" "record_ok (the (h' b)) = record_ok (the (h b))"
    if "b \<in> set as" for b
    using that a lr by (auto simp: h'_def)
  have new: "h' a = Some r" using ne by (simp add: h'_def)
  have "pseg (h(a \<mapsto> r)) (p_first repo) (us @ [l]) None"
    using at a as by (simp add: repo_at_def)
  then have "pseg h' (p_first repo) (us @ [l]) (Some a)"
    unfolding h'_def using at lr ne as(1) by (intro pseg_relink) (auto simp: repo_at_def)
  then have seg: "pseg h' (p_first repo) (as @ [a]) None"
    using r(2) new unfolding as(1) by (subst pseg_append) auto
  have fin: "finite (dom h')" using at by (simp add: h'_def repo_at_def)
  have maps: "map (entry_at h') as = map (entry_at h) as" using same(1) by simp
  have run: "append_record h repo a r = Some (h', repo\<lparr>p_last := Some a,
      p_record_count := p_record_count repo + 1, p_size := p_size repo + r_size r\<rparr>)"
    using first lr ne by (simp add: append_record_def h'_def)
  have "repo_at h' (repo\<lparr>p_last := Some a, p_record_count := p_record_count repo + 1,
      p_size := p_size repo + r_size r\<rparr>) (as @ [a])"
    unfolding repo_at_def map_append maps
    using at a r(1) same(2) seg new fin by (auto simp: repo_at_def record_ok_size)
  then show thesis using that [OF run] maps new by simp
qed

text \<open>What \<open>pldm_pdr_add\<close> promises on the list.\<close>

definition spec_handle :: "pdr_entry list \<Rightarrow> u32 option \<Rightarrow> u32 option" where
  "spec_handle es rh =
     (if rh \<noteq> None \<and> the rh \<noteq> 0 then rh
      else if es = [] then Some 1
      else if pe_handle (last es) = UINT32_MAX then None else Some (pe_handle (last es) + 1))"

definition spec_add ::
    "u8 list \<Rightarrow> bool \<Rightarrow> u16 \<Rightarrow> u32 option \<Rightarrow> pdr_entry list \<Rightarrow> (int \<times> u32 option) \<times> pdr_entry list" where
  "spec_add bs is_remote terminus rh es =
     (case spec_handle es rh of
        None \<Rightarrow> ((- EOVERFLOW, rh), es)
      | Some k \<Rightarrow>
          ((0, map_option (\<lambda>_. k) rh),
           es @ [\<lparr>pe_handle = k, pe_data = (if rh = Some 0 then poke bs 0 (le_of_word k) else bs),
                  pe_remote = is_remote, pe_terminus = terminus\<rparr>]))"

lemma next_handle_at:
  assumes "repo_at h repo as"
  shows "next_handle h repo rh = Some (spec_handle (map (entry_at h) as) rh)"
proof (cases "as = []")
  case False
  then obtain r where "h (last as) = Some r" using repo_at_defined [OF assms, of "last as"] by auto
  with False assms show ?thesis
    by (auto simp: next_handle_def spec_handle_def repo_at_def last_map)
qed (use assms in \<open>simp add: next_handle_def spec_handle_def repo_at_def\<close>)

lemma pdr_add_at:
  assumes at: "repo_at h repo as" and a: "a \<notin> set as"
    and bs: "PDR_HDR_SIZE \<le> length bs" "length bs < 2 ^ 32" "da + length bs \<le> UINTPTR_MAX"
    and spec: "spec_add bs is_remote terminus rh (map (entry_at h) as) = ((rc, rh'), es)"
  obtains h' repo' as' where
    "pldm_pdr_add h (Some repo) (Some bs) (of_nat (length bs)) is_remote terminus rh (Some a) (Some da) =
       Some (rc, h', Some repo', rh')"
    "repo_at h' repo' as'" "map (entry_at h') as' = es"
proof -
  have sz: "unat (of_nat (length bs) :: u32) = length bs" using bs(2) by (simp add: unat_of_nat)
  show thesis
  proof (cases "spec_handle (map (entry_at h) as) rh")
    case None
    then show thesis
      using that [of h repo as] at spec sz bs(1)
      by (simp add: pldm_pdr_add_def next_handle_at [OF at] spec_add_def)
  next
    case (Some k)
    define d where "d = (if rh = Some 0 then poke bs 0 (le_of_word k) else bs)"
    let ?r = "\<lparr>r_record_handle = k, r_size = of_nat (length bs), r_data = Some (da, d), r_next = None,
      r_is_remote = is_remote, r_terminus_handle = terminus\<rparr>"
    have len: "length d = length bs" using bs(1) by (simp add: d_def)
    then have r: "record_ok ?r" using bs sz by (simp add: record_ok_def)
    obtain h' repo' where app: "append_record h repo a ?r = Some (h', repo')"
        "repo_at h' repo' (as @ [a])" "map (entry_at h') (as @ [a]) = map (entry_at h) as @ [entry_of ?r]"
      using append_record_at [OF at a r] by auto
    have "pldm_pdr_add h (Some repo) (Some bs) (of_nat (length bs)) is_remote terminus rh (Some a) (Some da) =
        Some (0, h', Some repo', map_option (\<lambda>_. k) rh)"
      using app(1) sz bs(1) Some
      by (cases "rh = Some 0") (simp_all add: pldm_pdr_add_def next_handle_at [OF at] set_field_def d_def)
    moreover have "entry_of ?r = \<lparr>pe_handle = k, pe_data = d, pe_remote = is_remote, pe_terminus = terminus\<rparr>"
      by (simp add: entry_of_def)
    then have es: "es = map (entry_at h) as @ [entry_of ?r]" "rc = 0" "rh' = map_option (\<lambda>_. k) rh"
      using spec Some by (simp_all add: spec_add_def d_def)
    ultimately show thesis using that [OF _ app(2)] app(3) unfolding es by blast
  qed
qed

section \<open>Unlinking a record\<close>

definition unlinked :: "pdr_heap \<Rightarrow> nat list \<Rightarrow> nat \<Rightarrow> pdr_heap" where
  "unlinked h us a =
     (if us = [] then h else h(last us \<mapsto> (the (h (last us)))\<lparr>r_next := r_next (the (h a))\<rparr>))(a := None)"

lemma unlinked_same:
  assumes "pseg h p (us @ a # vs) None" "distinct (us @ a # vs)" "b \<in> set (us @ vs)"
  shows "entry_at (unlinked h us a) b = entry_at h b"
    and "record_ok (the (unlinked h us a b)) = record_ok (the (h b))"
  using assms by (auto simp: unlinked_def)

lemma unlinked_pseg:
  assumes "pseg h p (us @ a # vs) None" "distinct (us @ a # vs)"
  shows "pseg (unlinked h us a) (if us = [] then r_next (the (h a)) else p) (us @ vs) None"
proof (cases us rule: rev_cases)
  case Nil
  then show ?thesis using assms by (auto simp: unlinked_def)
next
  case (snoc ws l)
  obtain ra where ra: "h a = Some ra" "pseg h (r_next ra) vs None"
    using assms(1) by (auto simp: pseg_append)
  obtain rl where rl: "h l = Some rl" using assms(1) snoc by (auto simp: pseg_append)
  have "pseg h p (ws @ [l]) (Some a)" using assms(1) snoc by (auto simp: pseg_append)
  then have "pseg (h(l \<mapsto> rl\<lparr>r_next := r_next ra\<rparr>)) p (ws @ [l]) (r_next ra)"
    using assms(2) snoc rl by (intro pseg_relink) auto
  moreover have "pseg (h(l \<mapsto> rl\<lparr>r_next := r_next ra\<rparr>)) (r_next ra) vs None"
    using ra(2) assms(2) snoc by simp
  ultimately have "pseg (h(l \<mapsto> rl\<lparr>r_next := r_next ra\<rparr>)) p (us @ vs) None"
    using snoc by (auto simp: pseg_append)
  then show ?thesis using assms(2) snoc ra(1) rl by (simp add: unlinked_def)
qed

lemma prev_loop_pseg:
  assumes "pseg h p (us @ a # vs) None" "\<forall>u\<in>set us. r_record_handle (the (h u)) \<noteq> k"
    and "r_record_handle (the (h a)) = k"
  shows "prev_loop h k prev p = Some (if us = [] then prev else Some (last us))"
  using assms
proof (induction us arbitrary: p prev)
  case Nil
  then show ?case by (subst prev_loop.simps) auto
next
  case (Cons u us)
  then obtain r where "p = Some u" "h u = Some r" "pseg h (r_next r) (us @ a # vs) None" by auto
  with Cons.IH [of "r_next r" "Some u"] Cons.prems show ?case
    by (subst prev_loop.simps) auto
qed

definition repo_without :: "pdr_heap \<Rightarrow> pldm_pdr \<Rightarrow> nat list \<Rightarrow> nat \<Rightarrow> nat list \<Rightarrow> pldm_pdr" where
  "repo_without h repo us a vs =
     repo\<lparr>p_first := (if us = [] then r_next (the (h a)) else p_first repo),
          p_last := (if us @ vs = [] then None else Some (last (us @ vs))),
          p_record_count := p_record_count repo - 1, p_size := p_size repo - r_size (the (h a))\<rparr>"

lemma unlinked_repo_at:
  assumes at: "repo_at h repo (us @ a # vs)"
  shows "repo_at (unlinked h us a) (repo_without h repo us a vs) (us @ vs)"
    and "map (entry_at (unlinked h us a)) (us @ vs) = map (entry_at h) (us @ vs)"
proof -
  have seg: "pseg h (p_first repo) (us @ a # vs) None" and dist: "distinct (us @ a # vs)"
    using at by (simp_all add: repo_at_def)
  show maps: "map (entry_at (unlinked h us a)) (us @ vs) = map (entry_at h) (us @ vs)"
    using unlinked_same(1) [OF seg dist] by (intro map_cong) auto
  have sz: "r_size (the (h a)) = of_nat (length (pe_data (entry_at h a)))"
    using at by (intro record_ok_size) (simp add: repo_at_def)
  have fin: "finite (dom (unlinked h us a))" using at by (simp add: unlinked_def repo_at_def)
  show "repo_at (unlinked h us a) (repo_without h repo us a vs) (us @ vs)"
    unfolding repo_at_def maps
    using unlinked_pseg [OF seg dist] unlinked_same(2) [OF seg dist] at dist sz fin
    by (auto simp: repo_at_def repo_without_def)
qed

text \<open>What the operations see of the record: where it stands and what is before it.\<close>

lemma repo_at_split:
  assumes at: "repo_at h repo (us @ a # vs)"
  obtains r where "h a = Some r" "p_first repo = Some a \<longleftrightarrow> us = []" "p_last repo = Some a \<longleftrightarrow> vs = []"
    "p_last repo = Some (last (us @ a # vs))"
    "vs = [] \<Longrightarrow> r_next r = None" "vs \<noteq> [] \<Longrightarrow> r_next r = Some (hd vs)"
    "us \<noteq> [] \<Longrightarrow> \<exists>rl. h (last us) = Some rl"
proof -
  have seg: "pseg h (p_first repo) (us @ a # vs) None" and dist: "distinct (us @ a # vs)"
    and lst: "p_last repo = Some (last (us @ a # vs))"
    using at by (simp_all add: repo_at_def)
  obtain r where r: "h a = Some r" "pseg h (r_next r) vs None" using seg by (auto simp: pseg_append)
  have "last vs \<noteq> a" if "vs \<noteq> []" using that dist last_in_set [OF that] by auto
  then have last: "p_last repo = Some a \<longleftrightarrow> vs = []" using lst by auto
  have first: "p_first repo = Some a \<longleftrightarrow> us = []" using seg dist by (cases us) auto
  have nxt: "vs = [] \<Longrightarrow> r_next r = None" "vs \<noteq> [] \<Longrightarrow> r_next r = Some (hd vs)"
    using r(2) by (cases vs; simp)+
  have "us \<noteq> [] \<Longrightarrow> \<exists>rl. h (last us) = Some rl" using repo_at_defined [OF at, of "last us"] by auto
  then show thesis using that r(1) first last lst nxt by blast
qed

lemma remove_found_at:
  assumes at: "repo_at h repo (us @ a # vs)"
    and uniq: "\<forall>u\<in>set us. pe_handle (entry_at h u) \<noteq> pe_handle (entry_at h a)"
    and small: "repo_bytes (map (entry_at h) (us @ a # vs)) < 2 ^ 32"
  shows "remove_found h repo a = Some (0, unlinked h us a, repo_without h repo us a vs)"
proof (rule repo_at_split [OF at], goal_cases)
  case (1 r)
  have seg: "pseg h (p_first repo) (us @ a # vs) None" and dist: "distinct (us @ a # vs)"
    using at by (simp_all add: repo_at_def)
  have prev: "prev_loop h (r_record_handle r) None (p_first repo) = Some (if us = [] then None else Some (last us))"
    using prev_loop_pseg [OF seg] uniq 1(1) by simp
  have sz: "r_size r = of_nat (length (pe_data (entry_of r)))"
    using at 1(1) by (intro record_ok_size) (simp add: repo_at_def)
  have le: "\<not> p_size repo < r_size r"
  proof -
    let ?n = "repo_bytes (map (entry_at h) (us @ a # vs))"
    have "p_size repo = of_nat ?n" using at by (simp only: repo_at_def)
    moreover have "length (pe_data (entry_of r)) \<le> ?n" using 1(1) by simp
    moreover from this have "unat (of_nat ?n :: u32) = ?n"
        "unat (of_nat (length (pe_data (entry_of r))) :: u32) = length (pe_data (entry_of r))"
      using small by (simp_all only: unat_of_nat) (simp_all add: mod_less)
    ultimately show ?thesis using sz by (simp only: word_less_nat_alt not_less)
  qed
  show ?thesis
    using prev le 1 dist
    by (auto simp: remove_found_def pldm_pdr_get_prev_record_def pldm_pdr_remove_record_def
        is_prev_record_present_def set_next_def unlinked_def repo_without_def fun_eq_iff
        intro!: pldm_pdr.equality)
qed

section \<open>Removing records of a kind\<close>

lemma remove_loop_at:
  assumes goes: "\<And>r n. goes (r\<lparr>r_next := n\<rparr>) = goes r"
    and at: "repo_at h repo (us @ vs)"
  shows "\<exists>h' repo'. remove_loop goes h repo (if vs = [] then None else Some (hd vs))
      (if us = [] then None else Some (last us)) removed =
        Some (h', repo', removed \<or> (\<exists>v\<in>set vs. goes (the (h v)))) \<and>
    repo_at h' repo' (us @ filter (\<lambda>v. \<not> goes (the (h v))) vs) \<and>
    map (entry_at h') (us @ filter (\<lambda>v. \<not> goes (the (h v))) vs) =
      map (entry_at h) (us @ filter (\<lambda>v. \<not> goes (the (h v))) vs)"
  using at
proof (induction vs arbitrary: us h repo removed)
  case Nil
  then show ?case by (subst remove_loop.simps) simp
next
  case (Cons v vs)
  show ?case
  proof (rule repo_at_split [OF Cons.prems], goal_cases)
    case (1 r)
    let ?nxt = "if vs = [] then None else Some (hd vs)"
    have nxt: "r_next r = ?nxt" using 1(5,6) by simp
    show ?case
    proof (cases "goes r")
      case False
      have at: "repo_at h repo ((us @ [v]) @ vs)" using Cons.prems by simp
      have "remove_loop goes h repo (Some v) (if us = [] then None else Some (last us)) removed =
          remove_loop goes h repo ?nxt (Some v) removed"
        using 1(1) False nxt by (subst remove_loop.simps) simp
      with Cons.IH [OF at, of removed] 1(1) False show ?thesis by simp
    next
      case True
      let ?h = "unlinked h us v" and ?repo = "repo_without h repo us v vs"
      have at: "repo_at ?h ?repo (us @ vs)" using unlinked_repo_at(1) [OF Cons.prems] .
      have seg: "pseg h (p_first repo) (us @ v # vs) None" "distinct (us @ v # vs)"
        using Cons.prems by (simp_all add: repo_at_def)
      have same: "goes (the (?h b)) = goes (the (h b))" if "b \<in> set vs" for b
        using that seg(2) goes by (auto simp: unlinked_def)
      then have kept: "filter (\<lambda>b. \<not> goes (the (?h b))) vs = filter (\<lambda>b. \<not> goes (the (h b))) vs"
        "(\<exists>b\<in>set vs. goes (the (?h b))) = (\<exists>b\<in>set vs. goes (the (h b)))"
        by (auto intro: filter_cong)
      have ents: "entry_at ?h b = entry_at h b" if "b \<in> set (us @ vs)" for b
        using unlinked_same(1) [OF seg that] .
      have "remove_loop goes h repo (Some v) (if us = [] then None else Some (last us)) removed =
          remove_loop goes ?h ?repo ?nxt (if us = [] then None else Some (last us)) True"
        using 1 True nxt seg(2)
        by (subst remove_loop.simps)
          (auto simp: set_next_def unlinked_def repo_without_def Let_def fun_upd_twist
            intro!: arg_cong2 [where f = "\<lambda>x y. remove_loop goes x y _ _ _"] pldm_pdr.equality)
      moreover obtain h' repo' where
          "remove_loop goes ?h ?repo ?nxt (if us = [] then None else Some (last us)) True =
             Some (h', repo', True)"
          "repo_at h' repo' (us @ filter (\<lambda>b. \<not> goes (the (h b))) vs)"
          "map (entry_at h') (us @ filter (\<lambda>b. \<not> goes (the (h b))) vs) =
             map (entry_at ?h) (us @ filter (\<lambda>b. \<not> goes (the (h b))) vs)"
        using Cons.IH [OF at, of True] unfolding kept by auto
      moreover have "map (entry_at ?h) (us @ filter (\<lambda>b. \<not> goes (the (h b))) vs) =
          map (entry_at h) (us @ filter (\<lambda>b. \<not> goes (the (h b))) vs)"
        using ents by (intro map_cong) auto
      ultimately show ?thesis using 1(1) True by auto
    qed
  qed
qed

text \<open>New handles from 1 on, in the records and in the headers of their data.\<close>

fun renumber :: "u32 \<Rightarrow> pdr_entry list \<Rightarrow> pdr_entry list" where
  "renumber k [] = []"
| "renumber k (e # es) =
     e\<lparr>pe_handle := k + 1, pe_data := poke (pe_data e) HDR_RECORD_HANDLE (le_of_word (k + 1))\<rparr> #
     renumber (k + 1) es"

lemma renumber_bytes: "\<forall>e\<in>set es. PDR_HDR_SIZE \<le> length (pe_data e) \<Longrightarrow> repo_bytes (renumber k es) = repo_bytes es"
  by (induction es arbitrary: k) simp_all

lemma renumber_loop_at:
  assumes "pseg h p vs None" "distinct vs" "\<forall>v\<in>set vs. record_ok (the (h v))"
  shows "\<exists>h'. renumber_loop h p k = Some h' \<and> (\<forall>b. b \<notin> set vs \<longrightarrow> h' b = h b) \<and> pseg h' p vs None \<and>
    map (entry_at h') vs = renumber k (map (entry_at h) vs) \<and> (\<forall>v\<in>set vs. record_ok (the (h' v)))"
  using assms
proof (induction vs arbitrary: h p k)
  case Nil
  then show ?case by (subst renumber_loop.simps) simp
next
  case (Cons v vs)
  then obtain r where r: "p = Some v" "h v = Some r" "pseg h (r_next r) vs None" by auto
  obtain a bs where d: "r_data r = Some (a, bs)" "length bs = unat (r_size r)" "10 \<le> length bs"
      "a + length bs \<le> UINTPTR_MAX"
    using Cons.prems(3) r(2) by (auto simp: record_ok_def)
  define r' where "r' = r\<lparr>r_record_handle := k + 1, r_data := Some (a, poke bs 0 (le_of_word (k + 1)))\<rparr>"
  have e: "entry_of r' = (entry_of r)\<lparr>pe_handle := k + 1,
      pe_data := poke (pe_data (entry_of r)) 0 (le_of_word (k + 1))\<rparr>"
    using d(1) by (simp add: r'_def entry_of_def)
  have ok: "record_ok r'" using d by (simp add: r'_def record_ok_def)
  have seg: "pseg (h(v \<mapsto> r')) (r_next r) vs None" "distinct vs"
      "\<forall>w\<in>set vs. record_ok (the ((h(v \<mapsto> r')) w))"
    using r(3) Cons.prems(2,3) by auto
  obtain h' where h': "renumber_loop (h(v \<mapsto> r')) (r_next r) (k + 1) = Some h'"
      "\<forall>b. b \<notin> set vs \<longrightarrow> h' b = (h(v \<mapsto> r')) b" "pseg h' (r_next r) vs None"
      "map (entry_at h') vs = renumber (k + 1) (map (entry_at (h(v \<mapsto> r'))) vs)"
      "\<forall>w\<in>set vs. record_ok (the (h' w))"
    using Cons.IH [OF seg, of "k + 1"] by blast
  have v: "h' v = Some r'" using h'(2) Cons.prems(2) by simp
  have "map (entry_at (h(v \<mapsto> r'))) vs = map (entry_at h) vs"
    using Cons.prems(2) by (intro map_cong) auto
  with h'(4) have ents: "map (entry_at h') vs = renumber (k + 1) (map (entry_at h) vs)" by (simp only:)
  have run: "renumber_loop h p k = Some h'"
    using r(1,2) d(1,3) h'(1) by (subst renumber_loop.simps) (simp add: set_field_def r'_def Let_def)
  have nxt: "r_next r' = r_next r" by (simp add: r'_def)
  show ?case
    using run h'(2,3,5) r(1,2) v e ok ents nxt by (intro exI [of _ h']) simp
qed

definition spec_purge :: "(pdr_entry \<Rightarrow> bool) \<Rightarrow> pdr_entry list \<Rightarrow> pdr_entry list" where
  "spec_purge goes es =
     (if \<exists>e\<in>set es. goes e then renumber 0 (filter (\<lambda>e. \<not> goes e) es) else es)"

lemma record_ok_data: "record_ok r \<Longrightarrow> PDR_HDR_SIZE \<le> length (pe_data (entry_of r))"
  by (auto simp: record_ok_def entry_of_def)

lemma remove_and_renumber_at:
  assumes at: "repo_at h repo as" and goes: "\<And>r. goes r = P (entry_of r)"
  obtains h' repo' as' where "remove_and_renumber goes h (Some repo) = Some (h', Some repo')"
    "repo_at h' repo' as'" "map (entry_at h') as' = spec_purge P (map (entry_at h) as)"
proof -
  let ?keep = "filter (\<lambda>v. \<not> goes (the (h v))) as"
  have at0: "repo_at h repo ([] @ as)" using at by simp
  have first: "p_first repo = (if as = [] then None else Some (hd as))"
    using at by (cases as) (simp_all add: repo_at_def)
  obtain h1 repo1 where loop: "remove_loop goes h repo (p_first repo) None False =
        Some (h1, repo1, \<exists>v\<in>set as. goes (the (h v)))"
      "repo_at h1 repo1 ?keep" "map (entry_at h1) ?keep = map (entry_at h) ?keep"
    using remove_loop_at [of goes, OF _ at0, of False] goes by (auto simp: first)
  have kept: "map (entry_at h) ?keep = filter (\<lambda>e. \<not> P e) (map (entry_at h) as)"
    by (simp add: filter_map comp_def goes)
  show thesis
  proof (cases "\<exists>v\<in>set as. goes (the (h v))")
    case False
    then have "?keep = as" by (simp add: filter_id_conv)
    then show thesis
      using that [of h1 repo1 as] loop False goes
      by (simp add: remove_and_renumber_def spec_purge_def)
  next
    case True
    have seg: "pseg h1 (p_first repo1) ?keep None" "distinct ?keep"
        "\<forall>v\<in>set ?keep. record_ok (the (h1 v))"
      using loop(2) unfolding repo_at_def by blast+
    obtain h2 where h2: "renumber_loop h1 (p_first repo1) 0 = Some h2" "pseg h2 (p_first repo1) ?keep None"
        "map (entry_at h2) ?keep = renumber 0 (map (entry_at h1) ?keep)"
        "\<forall>v\<in>set ?keep. record_ok (the (h2 v))" "\<forall>b. b \<notin> set ?keep \<longrightarrow> h2 b = h1 b"
      using renumber_loop_at [OF seg, of 0] by blast
    have bytes: "repo_bytes (map (entry_at h2) ?keep) = repo_bytes (map (entry_at h1) ?keep)"
      unfolding h2(3) using seg(3) record_ok_data by (intro renumber_bytes) auto
    have "dom h2 \<subseteq> dom h1 \<union> set ?keep" using h2(5) by (metis (no_types, lifting) UnI1 UnI2 domIff subsetI)
    then have "finite (dom h2)"
      using loop(2) unfolding repo_at_def by (meson List.finite_set finite_UnI finite_subset)
    then have "repo_at h2 repo1 ?keep"
      using loop(2) h2(2,4) bytes unfolding repo_at_def by (metis (no_types, lifting))
    moreover have "\<exists>e\<in>set (map (entry_at h) as). P e" using True goes by auto
    then have "map (entry_at h2) ?keep = spec_purge P (map (entry_at h) as)"
      unfolding spec_purge_def h2(3) loop(3) kept by simp
    ultimately show thesis
      using that [of h2 repo1 ?keep] loop(1) True h2(1) by (simp add: remove_and_renumber_def)
  qed
qed

section \<open>Deleting one record\<close>

text \<open>
  The functions that delete a record look for the first one that says what they want; a record too short
  to say it ends the search with an error. \<open>none\<close> is the result when there is no such record.
\<close>

definition spec_delete ::
    "int \<Rightarrow> nat \<Rightarrow> (pdr_entry \<Rightarrow> bool) \<Rightarrow> pdr_entry list \<Rightarrow> (int \<times> u32 option) \<times> pdr_entry list" where
  "spec_delete none minsize hit es =
     (case find (\<lambda>e. length (pe_data e) < minsize \<or> hit e) es of
        None \<Rightarrow> ((none, None), es)
      | Some e \<Rightarrow>
          if length (pe_data e) < minsize then ((- EOVERFLOW, None), es)
          else ((0, Some (pe_handle e)), remove1 e es))"

definition judges ::
    "nat \<Rightarrow> (pdr_entry \<Rightarrow> bool) \<Rightarrow> (nat \<Rightarrow> pldm_pdr_record \<Rightarrow> (int + nat) option option) \<Rightarrow> bool" where
  "judges minsize hit body \<longleftrightarrow>
     (\<forall>a r. record_ok r \<longrightarrow>
        body a r = Some (if length (pe_data (entry_of r)) < minsize then Some (Inl (- EOVERFLOW))
                         else if hit (entry_of r) then Some (Inr a) else None))"

lemma scan_list_judges:
  assumes "judges minsize hit body" "\<forall>a\<in>set as. record_ok (the (h a))"
  shows "scan_list body h as =
    Some (map_option (\<lambda>a. if length (pe_data (entry_at h a)) < minsize then Inl (- EOVERFLOW) else Inr a)
      (find (\<lambda>a. length (pe_data (entry_at h a)) < minsize \<or> hit (entry_at h a)) as))"
  using assms(2) by (induction as) (use assms(1) in \<open>auto simp: judges_def\<close>)

lemma find_map: "find P (map f xs) = map_option f (find (\<lambda>x. P (f x)) xs)"
  by (induction xs) auto

lemma find_split:
  assumes "find P xs = Some x"
  obtains us vs where "xs = us @ x # vs" "P x" "\<forall>u\<in>set us. \<not> P u"
proof -
  from assms obtain i where i: "i < length xs" "P (xs ! i)" "x = xs ! i" "\<forall>j<i. \<not> P (xs ! j)"
    by (auto simp: find_Some_iff)
  then have "xs = take i xs @ x # drop (Suc i) xs" by (simp add: id_take_nth_drop)
  moreover have "\<forall>u\<in>set (take i xs). \<not> P u" using i(1,4) by (auto simp: in_set_conv_nth)
  ultimately show thesis using that i(2,3) by blast
qed

lemma delete_at:
  assumes at: "repo_at h repo as" and body: "judges minsize hit body"
    and uniq: "distinct (map pe_handle (map (entry_at h) as))"
    and small: "repo_bytes (map (entry_at h) as) < 2 ^ 32"
    and spec: "spec_delete none minsize hit (map (entry_at h) as) = ((rc, k), es)"
  obtains (missing) "scan h body (p_first repo) = Some None" "rc = none" "k = None" "es = map (entry_at h) as"
  | (short) "scan h body (p_first repo) = Some (Some (Inl rc))" "k = None" "es = map (entry_at h) as"
  | (found) a r h' repo' as' where "scan h body (p_first repo) = Some (Some (Inr a))" "h a = Some r"
      "rc = 0" "k = Some (r_record_handle r)" "remove_found h repo a = Some (0, h', repo')"
      "repo_at h' repo' as'" "map (entry_at h') as' = es"
proof -
  let ?bad = "\<lambda>a. length (pe_data (entry_at h a)) < minsize"
  let ?f = "find (\<lambda>a. ?bad a \<or> hit (entry_at h a)) as"
  have scan: "scan h body (p_first repo) = Some (map_option (\<lambda>a. if ?bad a then Inl (- EOVERFLOW) else Inr a) ?f)"
  proof -
    have seg: "pseg h (p_first repo) as None" and ok: "\<forall>a\<in>set as. record_ok (the (h a))"
      using at by (simp_all add: repo_at_def)
    show ?thesis unfolding scan_pseg [OF seg] scan_list_judges [OF body ok] ..
  qed
  show thesis
  proof (cases ?f)
    case None
    then show thesis using missing scan spec by (simp add: spec_delete_def find_map)
  next
    case (Some a)
    obtain us vs where as: "as = us @ a # vs" using find_split [OF Some] by blast
    show thesis
    proof (cases "?bad a")
      case True
      then show thesis using short scan spec Some by (simp add: spec_delete_def find_map)
    next
      case False
      obtain r where r: "h a = Some r" using repo_at_defined [OF at, of a] as by auto
      have at': "repo_at h repo (us @ a # vs)" using at as by simp
      have u: "\<forall>u\<in>set us. pe_handle (entry_at h u) \<noteq> pe_handle (entry_at h a)"
        using uniq unfolding as by (fastforce simp: image_iff)
      have "entry_at h a \<notin> set (map (entry_at h) us)"
      proof
        assume "entry_at h a \<in> set (map (entry_at h) us)"
        then obtain v where "v \<in> set us" "entry_at h a = entry_at h v" by auto
        then show False using u by (metis entry_of_sel(1))
      qed
      then have gone: "remove1 (entry_at h a) (map (entry_at h) as) = map (entry_at h) (us @ vs)"
        unfolding as by (simp add: remove1_append)
      have "find (\<lambda>e. length (pe_data e) < minsize \<or> hit e) (map (entry_at h) as) = Some (entry_at h a)"
        using Some by (simp add: find_map)
      then have es: "rc = 0" "k = Some (r_record_handle r)" "es = map (entry_at h) (us @ vs)"
        using spec False r gone by (simp_all add: spec_delete_def)
      have "repo_bytes (map (entry_at h) (us @ a # vs)) < 2 ^ 32" using small as by simp
      from remove_found_at [OF at' u this] unlinked_repo_at [OF at'] show thesis
        using found [OF _ r es(1,2)] scan Some False es(3) by simp
    qed
  qed
qed

section \<open>What the searches look at\<close>

definition data_field :: "nat \<Rightarrow> pdr_entry \<Rightarrow> 'a::len word" where
  "data_field off e = word_of_le (bytes_at (pe_data e) off (LENGTH('a) div 8))"

lemma judges_data:
  assumes "\<And>a r d bs. r_data r = Some (d, bs) \<Longrightarrow> unat (r_size r) = length bs \<Longrightarrow> PDR_HDR_SIZE \<le> length bs \<Longrightarrow>
      int (length bs) \<le> INTMAX_MAX \<Longrightarrow> d + length bs \<le> UINTPTR_MAX \<Longrightarrow>
      body a r = Some (if length bs < minsize then Some (Inl (- EOVERFLOW))
        else if hit (entry_of r) then Some (Inr a) else None)"
  shows "judges minsize hit body"
proof (unfold judges_def, intro allI impI)
  fix a r
  assume "record_ok r"
  then obtain d bs where d: "r_data r = Some (d, bs)" "unat (r_size r) = length bs" "PDR_HDR_SIZE \<le> length bs"
      "d + length bs \<le> UINTPTR_MAX"
    by (force simp: record_ok_def)
  have "int (length bs) \<le> INTMAX_MAX" using unsigned_less [of "r_size r", where ?'a = nat] by (simp add: d(2))
  moreover have "pe_data (entry_of r) = bs" using d(1) by (simp add: entry_of_def)
  ultimately show "body a r = Some (if length (pe_data (entry_of r)) < minsize then Some (Inl (- EOVERFLOW))
      else if hit (entry_of r) then Some (Inr a) else None)"
    using assms [OF d(1-3) _ d(4)] by simp
qed

definition is_state_pdr :: "u8 \<Rightarrow> u16 \<Rightarrow> bool \<Rightarrow> pdr_entry \<Rightarrow> bool" where
  "is_state_pdr ty i is_remote e \<longleftrightarrow>
     pe_remote e = is_remote \<and> data_field HDR_TYPE e = ty \<and> data_field 12 e = i"

lemma extract_state_head_live:
  assumes "24 \<le> length bs" "int (length bs) \<le> INTMAX_MAX"
  shows "extract_state_head pdr (live_mb d bs 0 (int (length bs))) =
    (pdr\<lparr>sp_type := word_of_le (bytes_at bs 5 1), sp_id := word_of_le (bytes_at bs 12 2)\<rparr>,
     live_mb d bs 20 (int (length bs) - 20))"
  using assms by (simp add: extract_state_head_def mb_simps)

lemma sensor_round_judges:
  "judges 24 (is_state_pdr ty i is_remote) (state_pdr_round decode_pldm_state_sensor_pdr ty i is_remote lo)"
proof (rule judges_data)
  fix a d and r :: pldm_pdr_record and bs :: "u8 list"
  assume r: "r_data r = Some (d, bs)" "unat (r_size r) = length bs" "int (length bs) \<le> INTMAX_MAX"
    "d + length bs \<le> UINTPTR_MAX"
  then have "decode_pldm_state_sensor_pdr r lo =
      Some (if length bs < 24 then (- EOVERFLOW, lo)
        else (0, lo\<lparr>sp_type := word_of_le (bytes_at bs 5 1), sp_id := word_of_le (bytes_at bs 12 2)\<rparr>))"
    by (simp add: decode_pldm_state_sensor_pdr_def record_msgbuf_def extract_state_head_live mb_simps)
  then show "state_pdr_round decode_pldm_state_sensor_pdr ty i is_remote lo a r =
      Some (if length bs < 24 then Some (Inl (- EOVERFLOW))
        else if is_state_pdr ty i is_remote (entry_of r) then Some (Inr a) else None)"
    using r(1) by (simp add: state_pdr_round_def is_state_pdr_def data_field_def entry_of_def)
qed

lemma effecter_round_judges:
  "judges 26 (is_state_pdr ty i is_remote) (state_pdr_round decode_pldm_state_effecter_pdr ty i is_remote lo)"
proof (rule judges_data)
  fix a d and r :: pldm_pdr_record and bs :: "u8 list"
  assume r: "r_data r = Some (d, bs)" "unat (r_size r) = length bs" "int (length bs) \<le> INTMAX_MAX"
    "d + length bs \<le> UINTPTR_MAX"
  then have "decode_pldm_state_effecter_pdr r lo =
      Some (if length bs < 26 then (- EOVERFLOW, lo)
        else (0, lo\<lparr>sp_type := word_of_le (bytes_at bs 5 1), sp_id := word_of_le (bytes_at bs 12 2)\<rparr>))"
    by (simp add: decode_pldm_state_effecter_pdr_def record_msgbuf_def extract_state_head_live mb_simps)
  then show "state_pdr_round decode_pldm_state_effecter_pdr ty i is_remote lo a r =
      Some (if length bs < 26 then Some (Inl (- EOVERFLOW))
        else if is_state_pdr ty i is_remote (entry_of r) then Some (Inr a) else None)"
    using r(1) by (simp add: state_pdr_round_def is_state_pdr_def data_field_def entry_of_def)
qed

definition has_low_handle :: "u32 \<Rightarrow> bool \<Rightarrow> pdr_entry \<Rightarrow> bool" where
  "has_low_handle k is_remote e \<longleftrightarrow>
     pe_remote e = is_remote \<and> ucast (data_field HDR_RECORD_HANDLE e :: u16) = k"

lemma handle_round_judges:
  "judges PDR_HDR_SIZE (has_low_handle k is_remote) (handle_round k is_remote)"
proof (rule judges_data)
  fix a d and r :: pldm_pdr_record and bs :: "u8 list"
  assume "r_data r = Some (d, bs)" "unat (r_size r) = length bs" "PDR_HDR_SIZE \<le> length bs"
    "int (length bs) \<le> INTMAX_MAX" "d + length bs \<le> UINTPTR_MAX"
  then show "handle_round k is_remote a r =
      Some (if length bs < PDR_HDR_SIZE then Some (Inl (- EOVERFLOW))
        else if has_low_handle k is_remote (entry_of r) then Some (Inr a) else None)"
    by (simp add: handle_round_def record_msgbuf_def mb_simps has_low_handle_def data_field_def entry_of_def)
qed

definition is_fru_record_set :: "u16 \<Rightarrow> bool \<Rightarrow> pdr_entry \<Rightarrow> bool" where
  "is_fru_record_set rsi is_remote e \<longleftrightarrow>
     pe_remote e = is_remote \<and> data_field HDR_TYPE e = PLDM_PDR_FRU_RECORD_SET \<and> data_field 12 e = rsi"

lemma rsi_round_judges: "judges 20 (is_fru_record_set rsi is_remote) (rsi_round rsi is_remote)"
proof (rule judges_data)
  fix a d and r :: pldm_pdr_record and bs :: "u8 list"
  assume "r_data r = Some (d, bs)" "unat (r_size r) = length bs" "PDR_HDR_SIZE \<le> length bs"
    "int (length bs) \<le> INTMAX_MAX" "d + length bs \<le> UINTPTR_MAX"
  then show "rsi_round rsi is_remote a r =
      Some (if length bs < 20 then Some (Inl (- EOVERFLOW))
        else if is_fru_record_set rsi is_remote (entry_of r) then Some (Inr a) else None)"
    by (simp add: rsi_round_def pldm_pdr_record_matches_fru_rsi_def record_msgbuf_def mb_simps
        is_fru_record_set_def data_field_def entry_of_def)
qed

end
