(* ===== verification/Pdr_Run.thy ===== *)
theory Pdr_Run
  imports Pdr_Repo_Laws "HOL-Library.Code_Target_Nat"
begin

text \<open>
  The repository as its clients see it: a list of records that sequences of additions, deletions
  and searches run on. The locale \<open>implements\<close> turns the effects of single operations into the
  refinement of whole sequences of them.
\<close>

section \<open>Finding a record\<close>

fun lookup_from :: "u32 \<Rightarrow> pdr_entry list \<Rightarrow> (u8 list \<times> u32) option" where
  "lookup_from k [] = None"
| "lookup_from k (e # es) =
     (if pe_handle e = k then Some (pe_data e, if es = [] then 0 else pe_handle (hd es)) else lookup_from k es)"

text \<open>Handle 0 asks for the first record.\<close>

definition spec_find :: "u32 \<Rightarrow> pdr_entry list \<Rightarrow> (u8 list \<times> u32) option" where
  "spec_find k es = lookup_from (if k = 0 \<and> es \<noteq> [] then pe_handle (hd es) else k) es"

lemma next_record_handle_at:
  assumes "repo_at h repo (us @ a # vs)"
  shows "get_next_record_handle h repo a = Some (if vs = [] then 0 else pe_handle (entry_at h (hd vs)))"
proof (rule repo_at_split [OF assms], goal_cases)
  case (1 r)
  show ?case
  proof (cases "vs = []")
    case False
    then obtain rn where "h (hd vs) = Some rn" using repo_at_defined [OF assms, of "hd vs"] by auto
    with 1 False show ?thesis by (auto simp: get_next_record_handle_def)
  qed (use 1 in \<open>simp add: get_next_record_handle_def\<close>)
qed

lemma lookup_from_None: "lookup_from k es = None \<longleftrightarrow> k \<notin> pe_handle ` set es"
  by (induction es) auto

lemma lookup_from_split:
  assumes "\<forall>u\<in>set us. pe_handle u \<noteq> k" "pe_handle e = k"
  shows "lookup_from k (us @ e # vs) = Some (pe_data e, if vs = [] then 0 else pe_handle (hd vs))"
  using assms by (induction us) auto

lemma find_record_at:
  assumes at: "repo_at h repo as"
  shows "(case spec_find k (map (entry_at h) as) of
      None \<Rightarrow> pldm_pdr_find_record h (Some repo) True k = Some (None, Some (None, 0, 0))
    | Some (bs, n) \<Rightarrow> \<exists>a da. pldm_pdr_find_record h (Some repo) True k =
        Some (Some a, Some (Some (da, bs), of_nat (length bs), n)))"
proof -
  define w where "w = (if k = 0 \<and> as \<noteq> [] then pe_handle (entry_at h (hd as)) else k)"
  have seg: "pseg h (p_first repo) as None" using at by (simp add: repo_at_def)
  have wanted: "(if k = 0 \<and> p_first repo \<noteq> None
      then do { r \<leftarrow> h (the (p_first repo)); Some (r_record_handle r) } else Some k) = Some w"
    using seg by (cases as) (auto simp: w_def)
  have spec: "spec_find k (map (entry_at h) as) = lookup_from w (map (entry_at h) as)"
    by (simp add: spec_find_def w_def hd_map)
  let ?f = "find (\<lambda>a. r_record_handle (the (h a)) = w) as"
  have scan: "scan h (\<lambda>a r. Some (if r_record_handle r = w then Some a else None)) (p_first repo) = Some ?f"
    unfolding scan_pseg [OF seg] by (rule scan_list_find)
  show ?thesis
  proof (cases ?f)
    case None
    then have "lookup_from w (map (entry_at h) as) = None"
      by (auto simp: lookup_from_None find_None_iff)
    with None show ?thesis using wanted scan by (simp add: pldm_pdr_find_record_def spec)
  next
    case (Some a)
    then obtain us vs where as: "as = us @ a # vs" and a: "r_record_handle (the (h a)) = w"
        "\<forall>u\<in>set us. r_record_handle (the (h u)) \<noteq> w"
      by (rule find_split)
    obtain r where r: "h a = Some r" using repo_at_defined [OF at, of a] as by auto
    have "record_ok r" using at as r by (auto simp: repo_at_def)
    then obtain d bs where d: "r_data r = Some (d, bs)" "r_size r = of_nat (length bs)"
      by (auto simp: record_ok_def)
    have "lookup_from w (map (entry_at h) as) =
        Some (bs, if vs = [] then 0 else pe_handle (entry_at h (hd vs)))"
      using a r d(1) lookup_from_split [of "map (entry_at h) us" w "entry_at h a" "map (entry_at h) vs"]
      by (auto simp: as entry_of_def hd_map)
    moreover have "repo_at h repo (us @ a # vs)" using at as by simp
    ultimately show ?thesis
      using wanted scan Some r d next_record_handle_at [of h repo us a vs]
      by (simp add: pldm_pdr_find_record_def spec)
  qed
qed

section \<open>Sequences of operations\<close>

text \<open>
  \<open>run_ops\<close> runs a list of operations on a state and collects their results; \<open>spec_ops\<close> does so
  on the abstract state, and \<open>calls_ok\<close> says that each operation is called where it may be.
\<close>

fun run_ops :: "('op \<Rightarrow> 'c \<Rightarrow> ('r \<times> 'c) option) \<Rightarrow> 'op list \<Rightarrow> 'c \<Rightarrow> ('r list \<times> 'c) option" where
  "run_ops step [] c = Some ([], c)"
| "run_ops step (x # xs) c = do { (r, c) \<leftarrow> step x c; (rs, c) \<leftarrow> run_ops step xs c; Some (r # rs, c) }"

fun spec_ops :: "('op \<Rightarrow> 'a \<Rightarrow> 'r \<times> 'a) \<Rightarrow> 'op list \<Rightarrow> 'a \<Rightarrow> 'r list \<times> 'a" where
  "spec_ops spec [] a = ([], a)"
| "spec_ops spec (x # xs) a =
     (let (r, a) = spec x a; (rs, a) = spec_ops spec xs a in (r # rs, a))"

fun calls_ok :: "('op \<Rightarrow> 'a \<Rightarrow> 'r \<times> 'a) \<Rightarrow> ('op \<Rightarrow> 'a \<Rightarrow> bool) \<Rightarrow> 'op list \<Rightarrow> 'a \<Rightarrow> bool" where
  "calls_ok spec ok [] a \<longleftrightarrow> True"
| "calls_ok spec ok (x # xs) a \<longleftrightarrow> ok x a \<and> calls_ok spec ok xs (snd (spec x a))"

locale implements =
  fixes holds :: "'c \<Rightarrow> 'a \<Rightarrow> bool" and step :: "'op \<Rightarrow> 'c \<Rightarrow> ('r \<times> 'c) option"
    and spec :: "'op \<Rightarrow> 'a \<Rightarrow> 'r \<times> 'a" and ok :: "'op \<Rightarrow> 'a \<Rightarrow> bool"
  assumes step_refines:
    "holds c a \<Longrightarrow> ok x a \<Longrightarrow> \<exists>c'. step x c = Some (fst (spec x a), c') \<and> holds c' (snd (spec x a))"
begin

lemma run_refines:
  assumes "holds c a" "calls_ok spec ok xs a"
  obtains c' where "run_ops step xs c = Some (fst (spec_ops spec xs a), c')"
    "holds c' (snd (spec_ops spec xs a))"
  using assms
proof (induction xs arbitrary: a c thesis)
  case (Cons x xs)
  obtain c1 where c1: "step x c = Some (fst (spec x a), c1)" "holds c1 (snd (spec x a))"
    using step_refines [of c a x] Cons.prems by auto
  obtain c2 where "run_ops step xs c1 = Some (fst (spec_ops spec xs (snd (spec x a))), c2)"
      "holds c2 (snd (spec_ops spec xs (snd (spec x a))))"
    using Cons.IH [OF _ c1(2)] Cons.prems(3) by auto
  then show ?case using Cons.prems(1) c1(1) by (simp add: split_beta)
qed simp

end

section \<open>The operations of the repository\<close>

text \<open>
  \<open>Add data is_remote terminus_handle record_handle\<close>, where \<open>record_handle\<close> is the value the pointer
  leads to, if it is not NULL; the functions that delete by id get a pointer to 0.
\<close>

datatype pdr_op =
    Add "u8 list" bool u16 "u32 option"
  | Add_Fru u16 u16 u16 u16 u16 u32
  | Delete_Sensor u16 bool
  | Delete_Effecter u16 bool
  | Delete_Handle u32 bool
  | Delete_Fru u16 bool
  | Remove_Terminus u16
  | Remove_Remote
  | Find u32
  | Count
  | Size

datatype pdr_result = Code int "u32 option" | Done | Found "(u8 list \<times> u32) option" | Number u32

text \<open>
  The allocator gives the addresses of a record and of its data. What the code needs of it: the
  record is not one that is in use, and the data lies inside the address space.
\<close>

type_synonym pdr_malloc = "pdr_heap \<Rightarrow> nat \<Rightarrow> nat \<times> nat"

definition malloc_ok :: "pdr_malloc \<Rightarrow> bool" where
  "malloc_ok m \<longleftrightarrow>
     (\<forall>h n. finite (dom h) \<and> n < 2 ^ 32 \<longrightarrow> h (fst (m h n)) = None \<and> snd (m h n) + n \<le> UINTPTR_MAX)"

fun pdr_step :: "pdr_malloc \<Rightarrow> pdr_op \<Rightarrow> pdr_heap \<times> pldm_pdr \<Rightarrow> (pdr_result \<times> pdr_heap \<times> pldm_pdr) option" where
  "pdr_step m (Add bs is_remote terminus rh) (h, repo) = do {
     let (a, d) = m h (length bs);
     (rc, h, repo, rh) \<leftarrow> pldm_pdr_add h (Some repo) (Some bs) (of_nat (length bs)) is_remote terminus rh
       (Some a) (Some d);
     Some (Code rc rh, h, the repo) }"
| "pdr_step m (Add_Fru terminus rsi ty inum c rh) (h, repo) = do {
     let (a, d) = m h 20;
     (rc, h, repo, rh) \<leftarrow> pldm_pdr_add_fru_record_set h (Some repo) terminus rsi ty inum c (Some rh)
       (Some a) (Some d);
     Some (Code rc rh, h, the repo) }"
| "pdr_step m (Delete_Sensor i is_remote) (h, repo) = do {
     (rc, h, repo, rh) \<leftarrow> pldm_pdr_delete_by_sensor_id h (Some repo) i is_remote (Some 0) \<lparr>sp_type = 0, sp_id = 0\<rparr>;
     Some (Code rc rh, h, the repo) }"
| "pdr_step m (Delete_Effecter i is_remote) (h, repo) = do {
     (rc, h, repo, rh) \<leftarrow> pldm_pdr_delete_by_effecter_id h (Some repo) i is_remote (Some 0) \<lparr>sp_type = 0, sp_id = 0\<rparr>;
     Some (Code rc rh, h, the repo) }"
| "pdr_step m (Delete_Handle k is_remote) (h, repo) = do {
     (rc, h, repo) \<leftarrow> pldm_pdr_delete_by_record_handle h (Some repo) k is_remote;
     Some (Code rc None, h, the repo) }"
| "pdr_step m (Delete_Fru rsi is_remote) (h, repo) = do {
     (rc, h, repo, rh) \<leftarrow> pldm_pdr_remove_fru_record_set_by_rsi h (Some repo) rsi is_remote (Some 0);
     Some (Code rc rh, h, the repo) }"
| "pdr_step m (Remove_Terminus terminus) (h, repo) = do {
     (h, repo) \<leftarrow> pldm_pdr_remove_pdrs_by_terminus_handle h (Some repo) terminus;
     Some (Done, h, the repo) }"
| "pdr_step m Remove_Remote (h, repo) = do {
     (h, repo) \<leftarrow> pldm_pdr_remove_remote_pdrs h (Some repo);
     Some (Done, h, the repo) }"
| "pdr_step m (Find k) (h, repo) = do {
     (a, out) \<leftarrow> pldm_pdr_find_record h (Some repo) True k;
     Some (Found (case (a, out) of
                    (Some _, Some (Some (_, bs), sz, n)) \<Rightarrow> Some (take (unat sz) bs, n)
                  | _ \<Rightarrow> None), h, repo) }"
| "pdr_step m Count (h, repo) = Some (Number (pldm_pdr_get_record_count repo), h, repo)"
| "pdr_step m Size (h, repo) = Some (Number (pldm_pdr_get_repo_size repo), h, repo)"

text \<open>The same operations on the list.\<close>

definition spec_del :: "int \<Rightarrow> nat \<Rightarrow> (pdr_entry \<Rightarrow> bool) \<Rightarrow> pdr_entry list \<Rightarrow> pdr_result \<times> pdr_entry list" where
  "spec_del none minsize hit es =
     (let ((rc, k), es) = spec_delete none minsize hit es in (Code rc (Some (case k of None \<Rightarrow> 0 | Some k \<Rightarrow> k)), es))"

fun pdr_spec :: "pdr_op \<Rightarrow> pdr_entry list \<Rightarrow> pdr_result \<times> pdr_entry list" where
  "pdr_spec (Add bs is_remote terminus rh) es =
     (let ((rc, rh), es) = spec_add bs is_remote terminus rh es in (Code rc rh, es))"
| "pdr_spec (Add_Fru terminus rsi ty inum c rh) es =
     (let ((rc, rh), es) = spec_add (fru_record_set_data rh terminus rsi ty inum c) False terminus (Some rh) es
      in (Code rc rh, es))"
| "pdr_spec (Delete_Sensor i is_remote) es =
     spec_del (- ENOENT) 24 (is_state_pdr PLDM_STATE_SENSOR_PDR i is_remote) es"
| "pdr_spec (Delete_Effecter i is_remote) es =
     spec_del 0 26 (is_state_pdr PLDM_STATE_EFFECTER_PDR i is_remote) es"
| "pdr_spec (Delete_Handle k is_remote) es =
     (let ((rc, _), es) = spec_delete (- ENOENT) PDR_HDR_SIZE (has_low_handle k is_remote) es in (Code rc None, es))"
| "pdr_spec (Delete_Fru rsi is_remote) es = spec_del 0 20 (is_fru_record_set rsi is_remote) es"
| "pdr_spec (Remove_Terminus terminus) es = (Done, spec_purge (\<lambda>e. pe_terminus e = terminus) es)"
| "pdr_spec Remove_Remote es = (Done, spec_purge pe_remote es)"
| "pdr_spec (Find k) es = (Found (spec_find k es), es)"
| "pdr_spec Count es = (Number (of_nat (length es)), es)"
| "pdr_spec Size es = (Number (of_nat (repo_bytes es)), es)"

text \<open>
  An addition may not use a handle that is in use, nor make the repository larger than its
  32-bit size can tell.
\<close>

definition may_add :: "u8 list \<Rightarrow> u32 option \<Rightarrow> pdr_entry list \<Rightarrow> bool" where
  "may_add bs rh es \<longleftrightarrow>
     PDR_HDR_SIZE \<le> length bs \<and> repo_bytes es + length bs < 2 ^ 32 \<and>
     (case spec_handle es rh of None \<Rightarrow> True | Some k \<Rightarrow> k \<notin> pe_handle ` set es)"

fun may_call :: "pdr_op \<Rightarrow> pdr_entry list \<Rightarrow> bool" where
  "may_call (Add bs _ _ rh) es \<longleftrightarrow> may_add bs rh es"
| "may_call (Add_Fru terminus rsi ty inum c rh) es \<longleftrightarrow>
     may_add (fru_record_set_data rh terminus rsi ty inum c) (Some rh) es"
| "may_call _ es \<longleftrightarrow> True"

text \<open>What holds of the list between operations.\<close>

definition spec_ok :: "pdr_entry list \<Rightarrow> bool" where
  "spec_ok es \<longleftrightarrow>
     distinct (map pe_handle es) \<and> repo_bytes es < 2 ^ 32 \<and> (\<forall>e\<in>set es. PDR_HDR_SIZE \<le> length (pe_data e))"

definition pdr_holds :: "pdr_malloc \<Rightarrow> pdr_heap \<times> pldm_pdr \<Rightarrow> pdr_entry list \<Rightarrow> bool" where
  "pdr_holds m c es \<longleftrightarrow>
     malloc_ok m \<and> spec_ok es \<and>
     (\<exists>as. repo_at (fst c) (snd c) as \<and> map (entry_at (fst c)) as = es)"

section \<open>Each operation\<close>

lemma length_le_bytes: "\<forall>e\<in>set es. PDR_HDR_SIZE \<le> length (pe_data e) \<Longrightarrow> length es \<le> repo_bytes es"
  by (induction es) auto

lemma spec_ok_remove1:
  "spec_ok es \<Longrightarrow> spec_ok (remove1 e es)"
proof -
  assume ok: "spec_ok es"
  have "repo_bytes (remove1 e es) \<le> repo_bytes es" by (induction es) simp_all
  then show "spec_ok (remove1 e es)"
    using ok by (auto simp: spec_ok_def distinct_map distinct_remove1 intro: inj_on_subset
        dest: notin_set_remove1 [THEN contrapos_nn])
qed

lemma renumber_handles: "map pe_handle (renumber k es) = map (\<lambda>i. k + 1 + of_nat i) [0..<length es]"
  by (induction es arbitrary: k) (simp_all add: map_upt_Suc del: upt_Suc)

lemma renumber_ok:
  assumes "spec_ok es"
  shows "spec_ok (renumber 0 es)"
proof -
  have "length es \<le> repo_bytes es"
    using assms by (intro length_le_bytes) (simp add: spec_ok_def)
  then have len: "length es < 2 ^ 32" using assms by (simp add: spec_ok_def)
  have "inj_on (\<lambda>i. 1 + of_nat i :: u32) {0..<length es}"
    using len by (auto simp: inj_on_def word_of_nat_eq_iff take_bit_nat_eq_self)
  then have "distinct (map pe_handle (renumber 0 es))"
    unfolding renumber_handles by (simp add: distinct_map)
  moreover have "\<forall>e\<in>set (renumber k es). PDR_HDR_SIZE \<le> length (pe_data e)" for k
    using assms by (induction es arbitrary: k) (auto simp: spec_ok_def)
  ultimately show ?thesis using assms by (simp add: spec_ok_def renumber_bytes)
qed

lemma spec_ok_filter: "spec_ok es \<Longrightarrow> spec_ok (filter P es)"
proof -
  assume ok: "spec_ok es"
  have "repo_bytes (filter P es) \<le> repo_bytes es" by (induction es) simp_all
  then show "spec_ok (filter P es)"
    using ok by (auto simp: spec_ok_def distinct_map_filter)
qed

lemma spec_purge_ok: "spec_ok es \<Longrightarrow> spec_ok (spec_purge P es)"
  by (simp add: spec_purge_def spec_ok_filter renumber_ok)

lemma spec_delete_ok: "spec_ok es \<Longrightarrow> spec_ok (snd (spec_delete none minsize hit es))"
  by (simp add: spec_delete_def spec_ok_remove1 split: option.split)

lemma spec_add_ok: "spec_ok es \<Longrightarrow> may_add bs rh es \<Longrightarrow> spec_ok (snd (spec_add bs is_remote terminus rh es))"
  by (auto simp: spec_ok_def may_add_def spec_add_def split: option.splits)

lemma pdr_holdsI:
  "malloc_ok m \<Longrightarrow> spec_ok es \<Longrightarrow> repo_at h repo as \<Longrightarrow> map (entry_at h) as = es \<Longrightarrow> pdr_holds m (h, repo) es"
  by (auto simp: pdr_holds_def)

lemma pdr_holdsE:
  assumes "pdr_holds m (h, repo) es"
  obtains as where "malloc_ok m" "spec_ok es" "repo_at h repo as" "map (entry_at h) as = es"
  using assms by (auto simp: pdr_holds_def)

lemma repo_at_free: "repo_at h repo as \<Longrightarrow> h a = None \<Longrightarrow> a \<notin> set as"
  using repo_at_defined by fastforce

text \<open>Adding: the two operations that add.\<close>

lemma add_refines:
  assumes at: "pdr_holds m (h, repo) es" and may: "may_add bs rh es" and md: "m h (length bs) = (a, d)"
  obtains h' repo' where
    "pldm_pdr_add h (Some repo) (Some bs) (of_nat (length bs)) is_remote terminus rh (Some a) (Some d) =
       Some (fst (fst (spec_add bs is_remote terminus rh es)), h', Some repo',
             snd (fst (spec_add bs is_remote terminus rh es)))"
    "pdr_holds m (h', repo') (snd (spec_add bs is_remote terminus rh es))"
proof -
  obtain as where as: "malloc_ok m" "spec_ok es" "repo_at h repo as" "map (entry_at h) as = es"
    using at by (rule pdr_holdsE)
  have bs: "PDR_HDR_SIZE \<le> length bs" "length bs < 2 ^ 32" using may by (simp_all add: may_add_def)
  have "finite (dom h)" using as(3) by (simp add: repo_at_def)
  then have "h a = None" "d + length bs \<le> UINTPTR_MAX" using as(1) bs(2) md unfolding malloc_ok_def by (metis fst_conv, metis snd_conv)
  note fresh = repo_at_free [OF as(3) this(1)] and d = this(2)
  obtain rc rh' es' where spec: "spec_add bs is_remote terminus rh es = ((rc, rh'), es')" by (metis surj_pair)
  have "spec_ok es'" using spec_add_ok [OF as(2) may, of is_remote terminus] spec by simp
  moreover obtain h' repo' as' where
    "pldm_pdr_add h (Some repo) (Some bs) (of_nat (length bs)) is_remote terminus rh (Some a) (Some d) =
       Some (rc, h', Some repo', rh')" "repo_at h' repo' as'" "map (entry_at h') as' = es'"
    using pdr_add_at [OF as(3) fresh bs d] spec as(4) by metis
  ultimately show thesis using that [of h' repo'] spec pdr_holdsI [OF as(1)] by auto
qed

text \<open>Deleting: the four operations that look for one record.\<close>

lemma delete_refines:
  assumes at: "pdr_holds m (h, repo) es" and body: "judges minsize hit body"
    and spec: "spec_delete none minsize hit es = ((rc, k), es')"
  obtains (missing) "scan h body (p_first repo) = Some None" "rc = none" "k = None" "pdr_holds m (h, repo) es'"
  | (short) "scan h body (p_first repo) = Some (Some (Inl rc))" "k = None" "pdr_holds m (h, repo) es'"
  | (found) a r h' repo' where "scan h body (p_first repo) = Some (Some (Inr a))" "h a = Some r"
      "rc = 0" "k = Some (r_record_handle r)" "remove_found h repo a = Some (0, h', repo')"
      "pdr_holds m (h', repo') es'"
proof -
  obtain as where as: "malloc_ok m" "spec_ok es" "repo_at h repo as" "map (entry_at h) as = es"
    using at by (rule pdr_holdsE)
  have "spec_ok es'" using spec_delete_ok [OF as(2), of none minsize hit] spec by simp
  note intro = pdr_holdsI [OF as(1) this]
  have small: "distinct (map pe_handle (map (entry_at h) as))" "repo_bytes (map (entry_at h) as) < 2 ^ 32"
    using as(2,4) by (simp_all add: spec_ok_def)
  show thesis
  proof (rule delete_at [OF as(3) body small spec [folded as(4)]], goal_cases)
    case 1
    then show ?case using missing intro [OF as(3)] by simp
  next
    case 2
    then show ?case using short intro [OF as(3)] by simp
  next
    case (3 a r h' repo' as')
    then show ?case using found [OF 3(1-5)] intro by simp
  qed
qed

lemma purge_refines:
  assumes at: "pdr_holds m (h, repo) es" and goes: "\<And>r. goes r = P (entry_of r)"
  obtains h' repo' where "remove_and_renumber goes h (Some repo) = Some (h', Some repo')"
    "pdr_holds m (h', repo') (spec_purge P es)"
proof -
  obtain as where as: "malloc_ok m" "spec_ok es" "repo_at h repo as" "map (entry_at h) as = es"
    using at by (rule pdr_holdsE)
  obtain h' repo' as' where "remove_and_renumber goes h (Some repo) = Some (h', Some repo')"
      "repo_at h' repo' as'" "map (entry_at h') as' = spec_purge P (map (entry_at h) as)"
    using remove_and_renumber_at [OF as(3), of goes P] goes by blast
  then show thesis using that pdr_holdsI [OF as(1) spec_purge_ok [OF as(2)]] as(4) by simp
qed

lemma find_refines:
  assumes at: "pdr_holds m (h, repo) es"
  shows "pdr_step m (Find k) (h, repo) = Some (Found (spec_find k es), h, repo)"
proof -
  obtain as where as: "spec_ok es" "repo_at h repo as" "map (entry_at h) as = es"
    using at by (rule pdr_holdsE)
  have "length bs < 2 ^ 32" if "lookup_from w es = Some (bs, n)" for w bs n
    using that as(1) unfolding spec_ok_def by (induction es) (auto split: if_splits)
  then have "spec_find k es = Some (bs, n) \<Longrightarrow> length bs < 2 ^ 32" for bs n
    unfolding spec_find_def .
  then have sz: "spec_find k es = Some (bs, n) \<Longrightarrow> unat (of_nat (length bs) :: u32) = length bs" for bs n
    by (simp add: unat_of_nat)
  show ?thesis
    using find_record_at [OF as(2), of k] sz unfolding as(3)
    by (cases "spec_find k es") auto
qed

text \<open>
  \<open>delete_result\<close>: how the four operations end once the search is over; \<open>wrap\<close> makes their result.
\<close>

definition delete_result ::
    "(int \<Rightarrow> u32 option \<Rightarrow> 'r) \<Rightarrow> int \<Rightarrow> (nat \<Rightarrow> pldm_pdr_record \<Rightarrow> (int + nat) option option) \<Rightarrow>
      pdr_heap \<Rightarrow> pldm_pdr \<Rightarrow> ('r \<times> pdr_heap \<times> pldm_pdr) option" where
  "delete_result wrap none body h repo = do {
     f \<leftarrow> scan h body (p_first repo);
     case f of
       None \<Rightarrow> Some (wrap none None, h, repo)
     | Some (Inl rc) \<Rightarrow> Some (wrap rc None, h, repo)
     | Some (Inr a) \<Rightarrow> do {
         r \<leftarrow> h a;
         (rc, h, repo) \<leftarrow> remove_found h repo a;
         Some (wrap rc (Some (r_record_handle r)), h, repo) } }"

lemma delete_result_refines:
  assumes at: "pdr_holds m (h, repo) es" and body: "judges minsize hit body"
  shows "\<exists>c'. delete_result wrap none body h repo =
      Some (case fst (spec_delete none minsize hit es) of (rc, k) \<Rightarrow> wrap rc k, c') \<and>
    pdr_holds m c' (snd (spec_delete none minsize hit es))"
proof -
  obtain rc k es' where spec: "spec_delete none minsize hit es = ((rc, k), es')" by (metis surj_pair)
  show ?thesis
  proof (rule delete_refines [OF at body spec], goal_cases)
    case 1
    then show ?case by (intro exI [of _ "(h, repo)"]) (simp add: delete_result_def spec)
  next
    case 2
    then show ?case by (intro exI [of _ "(h, repo)"]) (simp add: delete_result_def spec)
  next
    case (3 a r h' repo')
    then show ?case by (intro exI [of _ "(h', repo')"]) (simp add: delete_result_def spec)
  qed
qed

abbreviation "handle_code rc k \<equiv> Code rc (Some (case k of None \<Rightarrow> 0 | Some k \<Rightarrow> k))"

lemma delete_steps:
  "pdr_step m (Delete_Sensor i is_remote) (h, repo) = delete_result handle_code (- ENOENT)
     (state_pdr_round decode_pldm_state_sensor_pdr PLDM_STATE_SENSOR_PDR i is_remote \<lparr>sp_type = 0, sp_id = 0\<rparr>) h repo"
  "pdr_step m (Delete_Effecter i is_remote) (h, repo) = delete_result handle_code 0
     (state_pdr_round decode_pldm_state_effecter_pdr PLDM_STATE_EFFECTER_PDR i is_remote \<lparr>sp_type = 0, sp_id = 0\<rparr>) h repo"
  "pdr_step m (Delete_Fru i is_remote) (h, repo) = delete_result handle_code 0 (rsi_round i is_remote) h repo"
  by (auto simp: delete_result_def pldm_pdr_delete_by_sensor_id_def pldm_pdr_delete_by_effecter_id_def
      pldm_pdr_remove_fru_record_set_by_rsi_def split: option.splits sum.splits bind_splits)

lemma delete_handle_step:
  "pdr_step m (Delete_Handle k is_remote) (h, repo) =
    delete_result (\<lambda>rc _. Code rc None) (- ENOENT) (handle_round k is_remote) h repo"
proof -
  have "h a = None \<Longrightarrow> remove_found h repo a = None" for a
    by (simp add: remove_found_def pldm_pdr_get_prev_record_def)
  then show ?thesis
    by (auto simp: delete_result_def pldm_pdr_delete_by_record_handle_def
        split: option.splits sum.splits bind_splits)
qed

lemma pdr_step_refines:
  assumes "pdr_holds m c es" "may_call x es"
  shows "\<exists>c'. pdr_step m x c = Some (fst (pdr_spec x es), c') \<and> pdr_holds m c' (snd (pdr_spec x es))"
proof -
  obtain h repo where c: "c = (h, repo)" by (cases c)
  note at = assms(1) [unfolded c]
  show ?thesis
  proof (cases x)
    case (Add bs is_remote terminus rh)
    obtain a d where md: "m h (length bs) = (a, d)" by (cases "m h (length bs)")
    have "may_add bs rh es" using assms(2) Add by simp
    then obtain h' repo' where
        "pldm_pdr_add h (Some repo) (Some bs) (of_nat (length bs)) is_remote terminus rh (Some a) (Some d) =
           Some (fst (fst (spec_add bs is_remote terminus rh es)), h', Some repo',
                 snd (fst (spec_add bs is_remote terminus rh es)))"
        "pdr_holds m (h', repo') (snd (spec_add bs is_remote terminus rh es))"
      by (rule add_refines [OF at _ md])
    then show ?thesis unfolding c Add by (intro exI [of _ "(h', repo')"]) (simp add: md split_beta)
  next
    case (Add_Fru terminus rsi ty inum co rh)
    let ?bs = "fru_record_set_data rh terminus rsi ty inum co"
    have len: "length ?bs = 20" by (simp add: fru_record_set_data_def)
    obtain a d where md: "m h 20 = (a, d)" by (cases "m h 20")
    have "may_add ?bs (Some rh) es" using assms(2) Add_Fru by simp
    moreover have "m h (length ?bs) = (a, d)" unfolding len by (rule md)
    ultimately obtain h' repo' where
        "pldm_pdr_add h (Some repo) (Some ?bs) (of_nat (length ?bs)) False terminus (Some rh) (Some a) (Some d) =
           Some (fst (fst (spec_add ?bs False terminus (Some rh) es)), h', Some repo',
                 snd (fst (spec_add ?bs False terminus (Some rh) es)))"
        "pdr_holds m (h', repo') (snd (spec_add ?bs False terminus (Some rh) es))"
      by (rule add_refines [OF at])
    then show ?thesis
      unfolding c Add_Fru
      by (intro exI [of _ "(h', repo')"]) (simp add: md len pldm_pdr_add_fru_record_set_def split_beta)
  next
    case (Delete_Sensor i is_remote)
    then show ?thesis
      using delete_result_refines [OF at sensor_round_judges, of handle_code]
      by (simp add: c delete_steps spec_del_def split_beta del: pdr_step.simps)
  next
    case (Delete_Effecter i is_remote)
    then show ?thesis
      using delete_result_refines [OF at effecter_round_judges, of handle_code]
      by (simp add: c delete_steps spec_del_def split_beta del: pdr_step.simps)
  next
    case (Delete_Handle k is_remote)
    then show ?thesis
      using delete_result_refines [OF at handle_round_judges, of "\<lambda>rc _. Code rc None"]
      by (simp add: c delete_handle_step split_beta del: pdr_step.simps)
  next
    case (Delete_Fru rsi is_remote)
    then show ?thesis
      using delete_result_refines [OF at rsi_round_judges, of handle_code]
      by (simp add: c delete_steps spec_del_def split_beta del: pdr_step.simps)
  next
    case (Remove_Terminus terminus)
    obtain h' repo' where
        "remove_and_renumber (\<lambda>r. r_terminus_handle r = terminus) h (Some repo) = Some (h', Some repo')"
        "pdr_holds m (h', repo') (spec_purge (\<lambda>e. pe_terminus e = terminus) es)"
      by (rule purge_refines [OF at, of "\<lambda>r. r_terminus_handle r = terminus" "\<lambda>e. pe_terminus e = terminus"]) simp
    then show ?thesis
      unfolding c Remove_Terminus
      by (intro exI [of _ "(h', repo')"]) (simp add: pldm_pdr_remove_pdrs_by_terminus_handle_def)
  next
    case Remove_Remote
    obtain h' repo' where "remove_and_renumber r_is_remote h (Some repo) = Some (h', Some repo')"
        "pdr_holds m (h', repo') (spec_purge pe_remote es)"
      by (rule purge_refines [OF at, of r_is_remote pe_remote]) simp
    then show ?thesis
      unfolding c Remove_Remote
      by (intro exI [of _ "(h', repo')"]) (simp add: pldm_pdr_remove_remote_pdrs_def)
  next
    case (Find k)
    then show ?thesis using find_refines [OF at] at c by simp
  next
    case Count
    then show ?thesis using at c by (fastforce simp: pldm_pdr_get_record_count_def pdr_holds_def repo_at_def)
  next
    case Size
    then show ?thesis using at c by (fastforce simp: pldm_pdr_get_repo_size_def pdr_holds_def repo_at_def)
  qed
qed

interpretation pdr: implements "pdr_holds m" "pdr_step m" pdr_spec may_call for m
  by unfold_locales (rule pdr_step_refines)

definition new_repo :: "pdr_heap \<times> pldm_pdr" where
  "new_repo = (Map.empty, the (pldm_pdr_init True))"

lemma pdr_init_holds: "malloc_ok m \<Longrightarrow> pdr_holds m new_repo []"
  unfolding new_repo_def
  by (rule pdr_holdsI [of _ _ _ _ "[]"]) (simp_all add: init_repo_at spec_ok_def pldm_pdr_init_def)

section \<open>The repository as a whole\<close>

text \<open>
  C19. The repository is a list. A sequence of additions, deletions, removals and searches runs
  on a new repository, in which each addition meets what \<open>may_call\<close> asks of the caller (the
  record has at least a PDR header, the sizes of all records still fit the 32-bit total, and the
  handle the record gets, given or assigned, is not in use) and in which every allocation
  succeeds and returns unused memory (\<open>malloc_ok\<close>). Then every operation ends (no loop runs on,
  no freed record is read) and returns what the same operation returns on a list of records, and
  afterwards the linked records are that list and the count and size of the repository are
  right. The code does not check the handle itself, and with one in use twice the claim does not
  hold: deletion then unlinks the wrong record. Removing by terminus handle takes
  every record of that terminus off the list, local ones as well as remote ones, as the code
  does; the header documents it for remote ones.
\<close>

theorem pdr_repository_is_list:
  assumes "malloc_ok m" "calls_ok pdr_spec may_call xs []"
  shows "\<exists>c. run_ops (pdr_step m) xs new_repo = Some (fst (spec_ops pdr_spec xs []), c) \<and>
    pdr_holds m c (snd (spec_ops pdr_spec xs []))"
  using pdr.run_refines [OF pdr_init_holds [OF assms(1)] assms(2)] by metis

text \<open>An allocator to run with: the first free address, and data at a fixed place.\<close>

definition first_fit :: pdr_malloc where
  "first_fit h n = (LEAST a. h a = None, 4096)"

lemma first_fit_ok: "malloc_ok first_fit"
proof -
  have "h (LEAST a. h a = None) = None" if "finite (dom h)" for h :: pdr_heap
  proof -
    from that obtain a where "a \<notin> dom h" using ex_new_if_finite [OF infinite_UNIV_nat] by blast
    then have "h a = None" by auto
    then show ?thesis by (rule LeastI)
  qed
  then show ?thesis by (simp add: malloc_ok_def first_fit_def)
qed

text \<open>A state sensor PDR with id 7, and a numeric sensor's header.\<close>

definition sensor_pdr :: "u8 list" where
  "sensor_pdr = [0, 0, 0, 0, 1, 4, 0, 0, 17, 0, 1, 0, 7, 0, 64, 0, 1, 0, 0, 0, 0, 0, 1, 0, 1, 1, 6]"

definition other_pdr :: "u8 list" where
  "other_pdr = [0, 0, 0, 0, 1, 2, 0, 0, 17, 0, 1, 0, 7, 0, 64, 0, 1, 0, 0, 0, 0, 0, 1, 0, 1, 1, 6]"

definition demo_pdr_ops :: "pdr_op list" where
  "demo_pdr_ops =
     [Add other_pdr True 2 (Some 0), Add sensor_pdr False 1 (Some 0), Add other_pdr False 1 None,
      Delete_Sensor 8 False, Delete_Sensor 7 False, Find 1, Remove_Remote, Count, Size,
      Add_Fru 1 5 64 1 0 0, Find 2]"

theorem pdr_repository_is_list_witness:
  "calls_ok pdr_spec may_call demo_pdr_ops [] \<and>
   (\<exists>c. run_ops (pdr_step first_fit) demo_pdr_ops new_repo =
     Some ([Code 0 (Some 1), Code 0 (Some 2), Code 0 None, Code (- ENOENT) (Some 0), Code 0 (Some 2),
       Found (Some ([1, 0, 0, 0] @ drop 4 other_pdr, 3)), Done, Number 1, Number 27,
       Code 0 (Some 2),
       Found (Some ([2, 0, 0, 0, 1, 20, 0, 0, 10, 0, 1, 0, 5, 0, 64, 0, 1, 0, 0, 0], 0))], c))"
proof -
  have ok: "calls_ok pdr_spec may_call demo_pdr_ops []" by code_simp
  moreover have "fst (spec_ops pdr_spec demo_pdr_ops []) =
      [Code 0 (Some 1), Code 0 (Some 2), Code 0 None, Code (- ENOENT) (Some 0), Code 0 (Some 2),
       Found (Some ([1, 0, 0, 0] @ drop 4 other_pdr, 3)), Done, Number 1, Number 27,
       Code 0 (Some 2),
       Found (Some ([2, 0, 0, 0, 1, 20, 0, 0, 10, 0, 1, 0, 5, 0, 64, 0, 1, 0, 0, 0], 0))]"
    by code_simp
  ultimately show ?thesis using pdr_repository_is_list [OF first_fit_ok ok] by auto
qed

lemma renumber_props:
  "map (\<lambda>e. drop 4 (pe_data e)) (renumber k es) = map (\<lambda>e. drop 4 (pe_data e)) es \<or>
     (\<exists>e\<in>set es. length (pe_data e) < PDR_HDR_SIZE)"
  "map pe_terminus (renumber k es) = map pe_terminus es" "map pe_remote (renumber k es) = map pe_remote es"
  by (induction es arbitrary: k) auto

lemma renumber_header:
  "\<forall>e\<in>set es. PDR_HDR_SIZE \<le> length (pe_data e) \<Longrightarrow> e \<in> set (renumber k es) \<Longrightarrow>
     data_field HDR_RECORD_HANDLE e = pe_handle e"
  by (induction es arbitrary: k) (auto simp: data_field_def wire_simps)

lemma lookup_from_new:
  "k \<notin> pe_handle ` set es \<Longrightarrow> lookup_from k (es @ [e]) = (if pe_handle e = k then Some (pe_data e, 0) else None)"
  by (induction es) auto

text \<open>
  A record that is added with handle 0 gets the handle after that of the last record (1 in an
  empty repository), the caller is told it, the header of the record's data is given it, and a
  search for that handle returns the data. It is the last record: no handle follows.
\<close>

theorem pdr_added_is_found:
  assumes "pdr_holds m c es" "may_add bs (Some 0) es" "spec_handle es (Some 0) = Some k"
  shows "\<exists>c'. run_ops (pdr_step m) [Add bs is_remote terminus (Some 0), Find k] c =
    Some ([Code 0 (Some k), Found (Some (poke bs 0 (le_of_word k), 0))], c')"
proof -
  have "may_call (Add bs is_remote terminus (Some 0)) es" using assms(2) by simp
  then have ok: "calls_ok pdr_spec may_call [Add bs is_remote terminus (Some 0), Find k] es" by simp
  have new: "k \<notin> pe_handle ` set es" using assms(2,3) by (simp add: may_add_def)
  have "k \<noteq> 0"
  proof -
    have "x + 1 \<noteq> 0" if "x \<noteq> UINT32_MAX" for x :: u32
    proof
      assume "x + 1 = 0"
      then have "x = - 1" by (simp add: eq_neg_iff_add_eq_0)
      with that show False by simp
    qed
    then show ?thesis using assms(3) by (auto simp: spec_handle_def split: if_splits)
  qed
  then have "fst (spec_ops pdr_spec [Add bs is_remote terminus (Some 0), Find k] es) =
      [Code 0 (Some k), Found (Some (poke bs 0 (le_of_word k), 0))]"
    using assms(3) new by (simp add: spec_add_def spec_find_def lookup_from_new)
  with pdr.run_refines [OF assms(1) ok] show ?thesis by metis
qed

theorem pdr_added_is_found_witness:
  "\<exists>c'. run_ops (pdr_step first_fit) [Add sensor_pdr False 1 (Some 0), Find 1] new_repo =
    Some ([Code 0 (Some 1), Found (Some (poke sensor_pdr 0 (le_of_word (1 :: u32)), 0))], c')"
  by (rule pdr_added_is_found [OF pdr_init_holds [OF first_fit_ok]])
    (simp_all add: may_add_def spec_handle_def sensor_pdr_def)

text \<open>
  C20. Removing the remote records leaves exactly the local ones, in their order and with their
  data behind the handle unchanged; when a record was removed they are numbered from 1 on, in the
  records and in the headers of their data.
\<close>

theorem pdr_remove_remote_keeps_local:
  assumes "pdr_holds m c es"
  shows "\<exists>c' es'. pdr_step m Remove_Remote c = Some (Done, c') \<and> pdr_holds m c' es' \<and>
    map (\<lambda>e. drop 4 (pe_data e)) es' = map (\<lambda>e. drop 4 (pe_data e)) (filter (\<lambda>e. \<not> pe_remote e) es) \<and>
    (\<forall>e\<in>set es'. \<not> pe_remote e) \<and>
    (if \<exists>e\<in>set es. pe_remote e
     then map pe_handle es' = map (\<lambda>i. of_nat (i + 1)) [0..<length es'] \<and>
       (\<forall>e\<in>set es'. data_field HDR_RECORD_HANDLE e = pe_handle e)
     else es' = es)"
proof -
  define es' where "es' = spec_purge pe_remote es"
  obtain c' where c': "pdr_step m Remove_Remote c = Some (Done, c')" "pdr_holds m c' es'"
    using pdr_step_refines [OF assms, of Remove_Remote] by (auto simp: es'_def)
  let ?loc = "filter (\<lambda>e. \<not> pe_remote e) es"
  have ok: "\<forall>e\<in>set ?loc. PDR_HDR_SIZE \<le> length (pe_data e)"
    using assms by (auto simp: pdr_holds_def spec_ok_def)
  have "\<exists>e\<in>set ?loc. length (pe_data e) < PDR_HDR_SIZE \<Longrightarrow> False" using ok by fastforce
  then have data: "map (\<lambda>e. drop 4 (pe_data e)) (renumber 0 ?loc) = map (\<lambda>e. drop 4 (pe_data e)) ?loc"
    using renumber_props(1) [of 0 ?loc] by blast
  have "set (map pe_remote (renumber 0 ?loc)) = set (map pe_remote ?loc)"
    by (simp only: renumber_props(3))
  then have loc: "\<forall>e\<in>set (renumber 0 ?loc). \<not> pe_remote e" by auto
  have len: "length (renumber 0 ?loc) = length ?loc" using map_eq_imp_length_eq [OF renumber_props(3)] .
  show ?thesis
  proof (cases "\<exists>e\<in>set es. pe_remote e")
    case True
    then have es': "es' = renumber 0 ?loc" by (simp add: es'_def spec_purge_def)
    have "map pe_handle es' = map (\<lambda>i. of_nat (i + 1)) [0..<length es']"
      unfolding es' renumber_handles len by simp
    moreover have "\<forall>e\<in>set es'. data_field HDR_RECORD_HANDLE e = pe_handle e"
      using renumber_header [OF ok] unfolding es' by blast
    ultimately have "if \<exists>e\<in>set es. pe_remote e
        then map pe_handle es' = map (\<lambda>i. of_nat (i + 1)) [0..<length es'] \<and>
          (\<forall>e\<in>set es'. data_field HDR_RECORD_HANDLE e = pe_handle e)
        else es' = es"
      using True by (simp only: if_True simp_thms)
    then show ?thesis using c' data [folded es'] loc [folded es'] by blast
  next
    case False
    then have "?loc = es" "es' = es" by (simp_all add: filter_id_conv es'_def spec_purge_def)
    with c' False show ?thesis by auto
  qed
qed

text \<open>
  A record in front that is too short for a state sensor PDR, whatever its type, keeps every
  state sensor record behind it from being deleted: the call fails and changes nothing.
\<close>

theorem pdr_short_record_blocks_delete:
  assumes "pdr_holds m (h, repo) (e # es)" "length (pe_data e) < 24"
  shows "pdr_step m (Delete_Sensor i is_remote) (h, repo) = Some (Code (- EOVERFLOW) (Some 0), h, repo)"
proof -
  have "spec_delete (- ENOENT) 24 (is_state_pdr PLDM_STATE_SENSOR_PDR i is_remote) (e # es) =
      ((- EOVERFLOW, None), e # es)"
    using assms(2) by (simp add: spec_delete_def)
  then show ?thesis
    unfolding delete_steps
    by (rule delete_refines [OF assms(1) sensor_round_judges [where lo = "\<lparr>sp_type = 0, sp_id = 0\<rparr>"]])
      (simp_all add: delete_result_def)
qed

definition two_pdrs :: "pdr_op list" where
  "two_pdrs = [Add other_pdr True 2 (Some 0), Add sensor_pdr False 1 (Some 0)]"

lemma two_pdrs_run:
  obtains c where "run_ops (pdr_step first_fit) two_pdrs new_repo =
      Some ([Code 0 (Some 1), Code 0 (Some 2)], c)"
    "pdr_holds first_fit c (snd (spec_ops pdr_spec two_pdrs []))"
proof -
  have ok: "calls_ok pdr_spec may_call two_pdrs []" by code_simp
  have res: "fst (spec_ops pdr_spec two_pdrs []) = [Code 0 (Some 1), Code 0 (Some 2)]" by code_simp
  show thesis
    by (rule pdr.run_refines [OF pdr_init_holds [OF first_fit_ok] ok]) (use that res in simp)
qed

theorem pdr_remove_remote_keeps_local_witness:
  "\<exists>c c' es'. run_ops (pdr_step first_fit) two_pdrs new_repo =
      Some ([Code 0 (Some 1), Code 0 (Some 2)], c) \<and>
    pdr_step first_fit Remove_Remote c = Some (Done, c') \<and> pdr_holds first_fit c' es' \<and>
    map (\<lambda>e. drop 4 (pe_data e)) es' = [drop 4 sensor_pdr] \<and> map pe_handle es' = [1]"
proof -
  obtain c where c: "run_ops (pdr_step first_fit) two_pdrs new_repo =
      Some ([Code 0 (Some 1), Code 0 (Some 2)], c)"
    "pdr_holds first_fit c (snd (spec_ops pdr_spec two_pdrs []))"
    by (rule two_pdrs_run)
  let ?es = "snd (spec_ops pdr_spec two_pdrs [])"
  have eval: "\<exists>e\<in>set ?es. pe_remote e"
    "map (\<lambda>e. drop 4 (pe_data e)) (filter (\<lambda>e. \<not> pe_remote e) ?es) = [drop 4 sensor_pdr]"
    by code_simp+
  obtain c' es' where out: "pdr_step first_fit Remove_Remote c = Some (Done, c')" "pdr_holds first_fit c' es'"
      "map (\<lambda>e. drop 4 (pe_data e)) es' = [drop 4 sensor_pdr]"
      "map pe_handle es' = map (\<lambda>i. of_nat (i + 1)) [0..<length es']"
    using pdr_remove_remote_keeps_local [OF c(2)] eval by auto
  have "length es' = 1" using map_eq_imp_length_eq [of _ es' "\<lambda>x. x" "[drop 4 sensor_pdr]"] out(3) by simp
  with out c(1) show ?thesis by (intro exI [of _ c] exI [of _ c'] exI [of _ es']) simp
qed

definition fru_first :: "pdr_op list" where
  "fru_first = [Add_Fru 1 5 64 1 0 0, Add sensor_pdr False 1 (Some 0)]"

theorem pdr_short_record_blocks_delete_witness:
  "\<exists>h repo. run_ops (pdr_step first_fit) fru_first new_repo =
      Some ([Code 0 (Some 1), Code 0 (Some 2)], h, repo) \<and>
    pdr_step first_fit (Delete_Sensor 7 False) (h, repo) = Some (Code (- EOVERFLOW) (Some 0), h, repo)"
proof -
  have ok: "calls_ok pdr_spec may_call fru_first []" by code_simp
  have res: "fst (spec_ops pdr_spec fru_first []) = [Code 0 (Some 1), Code 0 (Some 2)]" by code_simp
  obtain h repo where c: "run_ops (pdr_step first_fit) fru_first new_repo =
      Some ([Code 0 (Some 1), Code 0 (Some 2)], h, repo)"
    "pdr_holds first_fit (h, repo) (snd (spec_ops pdr_spec fru_first []))"
    using pdr.run_refines [OF pdr_init_holds [OF first_fit_ok] ok] res by (metis surj_pair)
  obtain e es where es: "snd (spec_ops pdr_spec fru_first []) = e # es"
    by (cases "snd (spec_ops pdr_spec fru_first [])") (use res in \<open>simp_all add: fru_first_def spec_add_def spec_handle_def\<close>)
  have "length (pe_data (hd (snd (spec_ops pdr_spec fru_first [])))) < 24" by code_simp
  then have "length (pe_data e) < 24" using es by simp
  from pdr_short_record_blocks_delete [OF c(2) [unfolded es] this] c(1) show ?thesis by blast
qed

end
