(* ===== verification/Instance_Id.thy ===== *)
theory Instance_Id
  imports Prelude "HOL-Library.Monad_Syntax"
begin

text \<open>
  Allocation of instance ids, \<^verbatim>\<open>src/requester/instance-id.c\<close>. Processes that talk to the same
  terminus share a file of one byte per terminus and instance id, and claim a byte with
  open-file-description locks. Every system call is a point where other processes run, so
  the functions are modelled as resumptions: trees of calls of \<open>fcntl\<close> with a continuation for
  each reply. The second part runs any number of processes against one lock table.
\<close>

section \<open>Calls of \<open>fcntl\<close>\<close>

abbreviation (input) EINTR :: int where "EINTR \<equiv> 4"
abbreviation (input) EAGAIN :: int where "EAGAIN \<equiv> 11"

datatype lock_type = F_RDLCK | F_WRLCK | F_UNLCK

datatype fcntl_cmd = F_OFD_SETLK | F_OFD_GETLK

text \<open>\<open>l_whence\<close> is \<open>SEEK_SET\<close> and \<open>l_len\<close> is 1 in every call.\<close>

record flock =
  l_type :: lock_type
  l_start :: nat

text \<open>
  The reply: the return value, \<open>errno\<close>, and the type \<open>F_OFD_GETLK\<close> leaves in the struct. \<open>Stuck\<close> is
  undefined behaviour or a loop that runs on.
\<close>

type_synonym reply = "int \<times> int \<times> lock_type"

datatype 'r prog = Ret 'r | Stuck | Call fcntl_cmd flock "reply \<Rightarrow> 'r prog"

section \<open>The database object\<close>

abbreviation (input) PLDM_TID_MAX :: nat where "PLDM_TID_MAX \<equiv> 256"
abbreviation (input) PLDM_INST_ID_MAX :: nat where "PLDM_INST_ID_MAX \<equiv> 32"

record pldm_tid_state =
  ts_prev :: u8
  ts_allocations :: u32

text \<open>The array has an element for each value of its index, a \<open>uint8_t\<close>.\<close>

record pldm_instance_db =
  db_state :: "u8 \<Rightarrow> pldm_tid_state"
  db_lock_db_fd :: int

definition iid_next :: "u8 \<Rightarrow> u8" where
  "iid_next c = of_nat ((unat c + 1) mod PLDM_INST_ID_MAX)"

text \<open>
  \<open>ctx\<close>: the object the out-pointer leads to (itself NULL or not); \<open>st\<close>: the size of the file, if it
  exists; \<open>m\<close>: whether \<open>calloc\<close> succeeds; \<open>fd\<close>: what \<open>open\<close> returns, and \<open>errno\<close> after \<open>free\<close>.
\<close>

definition pldm_instance_db_init ::
    "pldm_instance_db option option \<Rightarrow> int option \<Rightarrow> bool \<Rightarrow> int \<Rightarrow> int \<Rightarrow>
      int \<times> pldm_instance_db option option" where
  "pldm_instance_db_init ctx st m fd errno =
     (if ctx = None \<or> ctx \<noteq> Some None then (- EINVAL, ctx)
      else case st of
        None \<Rightarrow> (- EINVAL, ctx)
      | Some sz \<Rightarrow>
          if sz < int PLDM_TID_MAX * int PLDM_INST_ID_MAX then (- EINVAL, ctx)
          else if \<not> m then (- ENOMEM, ctx)
          else if fd < 0 then (- errno, ctx)
          else (0, Some (Some \<lparr>db_state = (\<lambda>_. \<lparr>ts_prev = 31, ts_allocations = 0\<rparr>), db_lock_db_fd = fd\<rparr>)))"

text \<open>The default database, at a fixed path.\<close>

definition pldm_instance_db_init_default ::
    "pldm_instance_db option option \<Rightarrow> (string \<Rightarrow> int option) \<Rightarrow> bool \<Rightarrow> (string \<Rightarrow> int) \<Rightarrow> int \<Rightarrow>
      int \<times> pldm_instance_db option option" where
  "pldm_instance_db_init_default ctx stat_size m open_file errno =
     pldm_instance_db_init ctx (stat_size ''/usr/share/libpldm/instance-db/default'') m
       (open_file ''/usr/share/libpldm/instance-db/default'') errno"

text \<open>The file descriptor that is closed, and the result.\<close>

definition pldm_instance_db_destroy :: "pldm_instance_db option \<Rightarrow> int \<times> int option" where
  "pldm_instance_db_destroy ctx = (0, map_option db_lock_db_fd ctx)"

section \<open>Allocating and freeing\<close>

definition pldm_instance_id_cfls :: "nat \<Rightarrow> flock" where
  "pldm_instance_id_cfls loff = \<lparr>l_type = F_RDLCK, l_start = loff\<rparr>"

definition pldm_instance_id_cflx :: "nat \<Rightarrow> flock" where
  "pldm_instance_id_cflx loff = \<lparr>l_type = F_WRLCK, l_start = loff\<rparr>"

definition pldm_instance_id_cflu :: "nat \<Rightarrow> flock" where
  "pldm_instance_id_cflu loff = \<lparr>l_type = F_UNLCK, l_start = loff\<rparr>"

text \<open>How an error of a system call is reported.\<close>

definition fcntl_error :: "int \<Rightarrow> int" where
  "fcntl_error errno = (if errno = EAGAIN \<or> errno = EINTR then - EAGAIN else - EPROTO)"

text \<open>The results: return value, the database object and the object of the instance id pointer.\<close>

type_synonym iid_result = "int \<times> pldm_instance_db option \<times> u8 option"

definition claim :: "pldm_instance_db \<Rightarrow> u8 \<Rightarrow> u8 \<Rightarrow> pldm_instance_db" where
  "claim db tid i =
     db\<lparr>db_state := (db_state db)(tid := \<lparr>ts_prev = i,
          ts_allocations = ts_allocations (db_state db tid) OR push_bit (unat i) 1\<rparr>)\<rparr>"

text \<open>
  One round of the loop from a reserved id on; \<open>again\<close> is the next round. The first argument of
  the loop counts the rounds that are left: an id of the 32 comes up once at most.
\<close>

definition alloc_round ::
    "pldm_instance_db \<Rightarrow> u8 \<Rightarrow> u8 option \<Rightarrow> u8 \<Rightarrow> iid_result prog \<Rightarrow> iid_result prog" where
  "alloc_round db tid iid l_iid again =
     (let loff = unat tid * PLDM_INST_ID_MAX + unat l_iid;
          release = (\<lambda>rc. Call F_OFD_SETLK (pldm_instance_id_cflu loff) (\<lambda>(r, errno, _).
            if r < 0 then Ret (fcntl_error errno, Some db, iid)
            else if rc < 0 then Ret (rc, Some db, iid) else again))
      in Call F_OFD_SETLK (pldm_instance_id_cfls loff) (\<lambda>(rc, errno, _).
           if rc < 0 then Ret (fcntl_error errno, Some db, iid)
           else Call F_OFD_GETLK (pldm_instance_id_cflx loff) (\<lambda>(rc, errno, ty).
             if rc < 0 then release (fcntl_error errno)
             else if ty = F_UNLCK then Ret (0, Some (claim db tid l_iid), Some l_iid)
             else release (if ty \<noteq> F_RDLCK then - EPROTO else rc))))"

fun alloc_loop ::
    "nat \<Rightarrow> pldm_instance_db \<Rightarrow> u8 \<Rightarrow> u8 option \<Rightarrow> u8 \<Rightarrow> iid_result prog" where
  "alloc_loop 0 db tid iid l_iid = Stuck"
| "alloc_loop (Suc n) db tid iid l_iid =
     (let l_iid = iid_next l_iid in
      if l_iid = ts_prev (db_state db tid) then Ret (- EAGAIN, Some db, iid)
      else if bit (ts_allocations (db_state db tid)) (unat l_iid) then alloc_loop n db tid iid l_iid
      else alloc_round db tid iid l_iid (alloc_loop n db tid iid l_iid))"

definition pldm_instance_id_alloc :: "pldm_instance_db option \<Rightarrow> u8 \<Rightarrow> u8 option \<Rightarrow> iid_result prog" where
  "pldm_instance_id_alloc ctx tid iid =
     (case ctx of
        None \<Rightarrow> Ret (- EINVAL, ctx, iid)
      | Some db \<Rightarrow>
          if iid = None then Ret (- EINVAL, ctx, iid)
          else if unat (ts_prev (db_state db tid)) \<ge> PLDM_INST_ID_MAX then Ret (- EPROTO, ctx, iid)
          else alloc_loop PLDM_INST_ID_MAX db tid iid (ts_prev (db_state db tid)))"

definition unclaim :: "pldm_instance_db \<Rightarrow> u8 \<Rightarrow> u8 \<Rightarrow> pldm_instance_db" where
  "unclaim db tid i =
     db\<lparr>db_state := (db_state db)(tid := (db_state db tid)\<lparr>ts_allocations :=
          ts_allocations (db_state db tid) AND NOT (push_bit (unat i) 1)\<rparr>)\<rparr>"

text \<open>A shift of an \<open>unsigned long\<close> by 64 or more is undefined.\<close>

definition pldm_instance_id_free :: "pldm_instance_db option \<Rightarrow> u8 \<Rightarrow> u8 \<Rightarrow> iid_result prog" where
  "pldm_instance_id_free ctx tid iid =
     (case ctx of
        None \<Rightarrow> Ret (- EINVAL, ctx, None)
      | Some db \<Rightarrow>
          if unat iid \<ge> 64 then Stuck
          else if \<not> bit (ts_allocations (db_state db tid)) (unat iid) then Ret (- EINVAL, ctx, None)
          else Call F_OFD_SETLK (pldm_instance_id_cflu (unat tid * PLDM_INST_ID_MAX + unat iid))
            (\<lambda>(rc, errno, _).
               if rc < 0 then Ret (fcntl_error errno, ctx, None)
               else Ret (0, Some (unclaim db tid iid), None)))"

section \<open>An undisturbed call\<close>

text \<open>
  A call that no other process interferes with: every system call succeeds, and \<open>others\<close> are the
  bytes of the file on which another process holds a shared lock.
\<close>

primrec run_alone :: "(nat \<Rightarrow> bool) \<Rightarrow> 'r prog \<Rightarrow> 'r option" where
  "run_alone others (Ret r) = Some r"
| "run_alone others Stuck = None"
| "run_alone others (Call c fl k) =
     (case c of
        F_OFD_SETLK \<Rightarrow> run_alone others (k (0, 0, l_type fl))
      | F_OFD_GETLK \<Rightarrow> run_alone others (k (0, 0, if others (l_start fl) then F_RDLCK else F_UNLCK)))"

text \<open>The ids a call may give out, in the order it looks at them.\<close>

definition candidates :: "u8 \<Rightarrow> u8 list" where
  "candidates prev = map (\<lambda>k. of_nat ((unat prev + k) mod PLDM_INST_ID_MAX)) [1..<PLDM_INST_ID_MAX]"

definition free_id :: "(nat \<Rightarrow> bool) \<Rightarrow> pldm_instance_db \<Rightarrow> u8 \<Rightarrow> u8 \<Rightarrow> bool" where
  "free_id others db tid i \<longleftrightarrow>
     \<not> bit (ts_allocations (db_state db tid)) (unat i) \<and> \<not> others (unat tid * PLDM_INST_ID_MAX + unat i)"

lemma run_round:
  "run_alone others (alloc_round db tid iid i again) =
     (if others (unat tid * PLDM_INST_ID_MAX + unat i) then run_alone others again
      else Some (0, Some (claim db tid i), Some i))"
  by (simp add: alloc_round_def pldm_instance_id_cfls_def pldm_instance_id_cflx_def
      pldm_instance_id_cflu_def Let_def)

lemma iid_next_steps: "iid_next (of_nat ((p + k) mod 32)) = of_nat ((p + Suc k) mod 32)"
proof -
  have "unat (of_nat ((p + k) mod 32) :: u8) = (p + k) mod 32"
    by (simp add: unat_of_nat)
  then show ?thesis by (simp add: iid_next_def mod_Suc_eq)
qed

lemma candidates_unfold:
  "k \<le> 32 \<Longrightarrow> map (\<lambda>k. of_nat ((p + k) mod 32) :: u8) [k..<32] =
     (if k = 32 then [] else of_nat ((p + k) mod 32) # map (\<lambda>k. of_nat ((p + k) mod 32)) [Suc k..<32])"
  by (simp add: upt_conv_Cons)

lemma run_loop:
  assumes "ts_prev (db_state db tid) = of_nat p" "p < 32" "k < 32" "32 \<le> n + k"
  shows "run_alone others (alloc_loop n db tid iid (of_nat ((p + k) mod 32))) =
    (case find (free_id others db tid) (map (\<lambda>k. of_nat ((p + k) mod 32)) [Suc k..<32]) of
       None \<Rightarrow> Some (- EAGAIN, Some db, iid)
     | Some i \<Rightarrow> Some (0, Some (claim db tid i), Some i))"
  using assms(3,4)
proof (induction n arbitrary: k)
  case (Suc n)
  let ?i = "of_nat ((p + Suc k) mod 32) :: u8"
  show ?case
  proof (cases "Suc k = 32")
    case True
    then have i: "?i = of_nat p" using assms(2) by (simp add: mod_add_self2)
    have "[Suc k..<32] = []" using True by simp
    with i show ?thesis using assms(1) by (simp only: alloc_loop.simps iid_next_steps Let_def) simp
  next
    case False
    have "unat ?i = (p + Suc k) mod 32" "unat (of_nat p :: u8) = p" using assms(2) by (simp_all add: unat_of_nat)
    moreover have "(p + Suc k) mod 32 \<noteq> p"
      using False Suc.prems(1) assms(2) by (cases "p + Suc k < 32") (simp_all add: le_mod_geq)
    ultimately have ne: "?i \<noteq> of_nat p" by metis
    have IH: "run_alone others (alloc_loop n db tid iid ?i) =
        (case find (free_id others db tid) (map (\<lambda>k. of_nat ((p + k) mod 32)) [Suc (Suc k)..<32]) of
           None \<Rightarrow> Some (- EAGAIN, Some db, iid)
         | Some i \<Rightarrow> Some (0, Some (claim db tid i), Some i))"
      using Suc.IH [of "Suc k"] Suc.prems False by simp
    have cands: "map (\<lambda>k. of_nat ((p + k) mod 32) :: u8) [Suc k..<32] =
        ?i # map (\<lambda>k. of_nat ((p + k) mod 32)) [Suc (Suc k)..<32]"
      using False Suc.prems(1) by (simp add: upt_conv_Cons)
    have free: "free_id others db tid ?i \<longleftrightarrow>
        \<not> bit (ts_allocations (db_state db tid)) (unat ?i) \<and> \<not> others (unat tid * PLDM_INST_ID_MAX + unat ?i)"
      by (rule free_id_def)
    show ?thesis
      unfolding cands alloc_loop.simps Let_def iid_next_steps find.simps free
      using ne assms(1) IH by (simp add: run_round)
  qed
qed simp


text \<open>
  C22. A call that is not disturbed ends, and gives out the next id after the one given out last, in
  cyclic order, that neither this process has allocated nor another one has reserved; it records
  the allocation and changes nothing else. When there is none it asks the caller to try again.
\<close>

theorem alloc_gives_next_free:
  assumes "unat (ts_prev (db_state db tid)) < PLDM_INST_ID_MAX"
  shows "run_alone others (pldm_instance_id_alloc (Some db) tid (Some iid)) =
    (case find (free_id others db tid) (candidates (ts_prev (db_state db tid))) of
       None \<Rightarrow> Some (- EAGAIN, Some db, Some iid)
     | Some i \<Rightarrow> Some (0, Some (claim db tid i), Some i))"
proof -
  let ?p = "unat (ts_prev (db_state db tid))"
  have prev: "ts_prev (db_state db tid) = of_nat ((?p + 0) mod 32)" "ts_prev (db_state db tid) = of_nat ?p"
    using assms by simp_all
  show ?thesis
    using run_loop [OF prev(2) assms, of 0 PLDM_INST_ID_MAX others "Some iid"] assms prev(1)
    by (simp add: pldm_instance_id_alloc_def candidates_def del: upt_Suc)
qed

theorem alloc_gives_next_free_witness:
  "run_alone (\<lambda>off. off = 32) (pldm_instance_id_alloc
      (Some \<lparr>db_state = (\<lambda>_. \<lparr>ts_prev = 30, ts_allocations = 2\<rparr>), db_lock_db_fd = 3\<rparr>) 1 (Some 0)) =
    Some (0, Some \<lparr>db_state = (\<lambda>_. \<lparr>ts_prev = 30, ts_allocations = 2\<rparr>)
      (1 := \<lparr>ts_prev = 31, ts_allocations = 0x80000002\<rparr>), db_lock_db_fd = 3\<rparr>, Some 31)"
proof -
  let ?db = "\<lparr>db_state = (\<lambda>_. \<lparr>ts_prev = 30, ts_allocations = 2\<rparr>), db_lock_db_fd = 3\<rparr>"
  have "candidates 30 = 31 # tl (candidates 30)"
    by (simp add: candidates_def upt_rec)
  moreover have "free_id (\<lambda>off. off = 32) ?db 1 31" by (simp add: free_id_def bit_simps)
  ultimately have "find (free_id (\<lambda>off. off = 32) ?db 1) (candidates 30) = Some 31"
    by (metis find.simps(2))
  then show ?thesis
    using alloc_gives_next_free [of ?db 1 "\<lambda>off. off = 32" 0] by (simp add: claim_def)
qed

section \<open>Many processes\<close>

text \<open>
  The lock table: for each byte of the file, the lock each open file description holds on it.
  \<open>fcntl\<close> may fail at any call, with any \<open>errno\<close>; a failed call changes nothing.
\<close>

type_synonym locks = "nat \<Rightarrow> nat \<Rightarrow> lock_type"

definition conflict :: "locks \<Rightarrow> nat \<Rightarrow> flock \<Rightarrow> nat \<Rightarrow> bool" where
  "conflict L fd fl g \<longleftrightarrow>
     g \<noteq> fd \<and> L (l_start fl) g \<noteq> F_UNLCK \<and> (l_type fl = F_WRLCK \<or> L (l_start fl) g = F_WRLCK)"

definition set_lock :: "locks \<Rightarrow> nat \<Rightarrow> flock \<Rightarrow> locks" where
  "set_lock L fd fl = L(l_start fl := (L (l_start fl))(fd := l_type fl))"

inductive fcntl :: "locks \<Rightarrow> nat \<Rightarrow> fcntl_cmd \<Rightarrow> flock \<Rightarrow> reply \<Rightarrow> locks \<Rightarrow> bool" where
  fails: "rc < 0 \<Longrightarrow> fcntl L fd c fl (rc, errno, l_type fl) L"
| unlocks: "l_type fl = F_UNLCK \<Longrightarrow> rc \<ge> 0 \<Longrightarrow> fcntl L fd F_OFD_SETLK fl (rc, errno, F_UNLCK) (set_lock L fd fl)"
| locks: "l_type fl \<noteq> F_UNLCK \<Longrightarrow> \<forall>g. \<not> conflict L fd fl g \<Longrightarrow> rc \<ge> 0 \<Longrightarrow>
    fcntl L fd F_OFD_SETLK fl (rc, errno, l_type fl) (set_lock L fd fl)"
| could_lock: "\<forall>g. \<not> conflict L fd fl g \<Longrightarrow> rc \<ge> 0 \<Longrightarrow> fcntl L fd F_OFD_GETLK fl (rc, errno, F_UNLCK) L"
| blocked: "conflict L fd fl g \<Longrightarrow> rc \<ge> 0 \<Longrightarrow> fcntl L fd F_OFD_GETLK fl (rc, errno, L (l_start fl) g) L"

inductive_cases fcntlE: "fcntl L fd c fl r L'"

text \<open>
  A process is known by its open file description. It has no database object, has one and is not
  in a call, or is in a call that waits for a reply of \<open>fcntl\<close>.
\<close>

datatype proc = Absent | Idle pldm_instance_db | Busy pldm_instance_db "iid_result prog"

definition resume :: "pldm_instance_db \<Rightarrow> iid_result prog \<Rightarrow> proc" where
  "resume db prog =
     (case prog of Ret (rc, db', iid) \<Rightarrow> Idle (the db') | _ \<Rightarrow> Busy db prog)"

text \<open>
  Steps of the system: a process opens the database, calls a function, gets a reply, or
  closes the database, which drops its locks; and other programs do what they like with locks of
  their own.
\<close>

inductive sys_step :: "locks \<times> (nat \<Rightarrow> proc) \<Rightarrow> locks \<times> (nat \<Rightarrow> proc) \<Rightarrow> bool" where
  opens: "P p = Absent \<Longrightarrow> \<forall>off. L off p = F_UNLCK \<Longrightarrow>
    pldm_instance_db_init (Some None) st m fd errno = (0, Some (Some db)) \<Longrightarrow>
    sys_step (L, P) (L, P(p := Idle db))"
| allocates: "P p = Idle db \<Longrightarrow>
    sys_step (L, P) (L, P(p := resume db (pldm_instance_id_alloc (Some db) tid (Some iid))))"
| frees: "P p = Idle db \<Longrightarrow>
    sys_step (L, P) (L, P(p := resume db (pldm_instance_id_free (Some db) tid i)))"
| replies: "P p = Busy db (Call c fl k) \<Longrightarrow> fcntl L p c fl r L' \<Longrightarrow>
    sys_step (L, P) (L', P(p := resume db (k r)))"
| closes: "P p = Idle db \<Longrightarrow> sys_step (L, P) (\<lambda>off. (L off)(p := F_UNLCK), P(p := Absent))"
| others: "\<forall>off p. P p \<noteq> Absent \<longrightarrow> L' off p = L off p \<Longrightarrow> sys_step (L, P) (L', P)"

inductive sys_reaches :: "locks \<times> (nat \<Rightarrow> proc) \<Rightarrow> bool" where
  start: "sys_reaches (L, \<lambda>_. Absent)"
| step: "sys_reaches s \<Longrightarrow> sys_step s s' \<Longrightarrow> sys_reaches s'"

section \<open>Exclusion\<close>

text \<open>The bytes of the ids a database object has allocated.\<close>

definition owned :: "pldm_instance_db \<Rightarrow> nat set" where
  "owned db = {unat tid * PLDM_INST_ID_MAX + i |tid i. bit (ts_allocations (db_state db tid)) i}"

text \<open>
  What a call may do: with the bytes \<open>H\<close> it holds a lock on and the bytes \<open>X\<close> among them that no other
  process owns, it never gives up a byte its object owns, and in the end owns bytes of \<open>X\<close> only.
\<close>

primrec sound :: "pldm_instance_db \<Rightarrow> iid_result prog \<Rightarrow> nat set \<Rightarrow> nat set \<Rightarrow> bool" where
  "sound db (Ret r) H X \<longleftrightarrow> owned (the (fst (snd r))) \<subseteq> X"
| "sound db Stuck H X \<longleftrightarrow> owned db \<subseteq> X"
| "sound db (Call c fl k) H X \<longleftrightarrow>
     owned db \<subseteq> X \<and> (c = F_OFD_GETLK \<longrightarrow> l_type fl = F_WRLCK \<and> l_start fl \<in> H) \<and>
     (\<forall>rc errno ty. rc < 0 \<longrightarrow> sound db (k (rc, errno, ty)) H X) \<and>
     (\<forall>rc errno ty. rc \<ge> 0 \<longrightarrow>
        (case c of
           F_OFD_SETLK \<Rightarrow>
             if l_type fl = F_UNLCK then sound db (k (rc, errno, ty)) (H - {l_start fl}) (X - {l_start fl})
             else sound db (k (rc, errno, ty)) (insert (l_start fl) H) X
         | F_OFD_GETLK \<Rightarrow>
             sound db (k (rc, errno, ty)) H (if ty = F_UNLCK then insert (l_start fl) X else X)))"

lemma owned_claim: "unat i < 32 \<Longrightarrow> owned (claim db tid i) = insert (unat tid * PLDM_INST_ID_MAX + unat i) (owned db)"
  by (auto simp: owned_def claim_def bit_simps split: if_splits)

lemma bit_u32_bound: "bit (w :: u32) i \<Longrightarrow> i < 32"
  using bit_imp_le_length [of w i] by simp

lemma owned_iff: "i < 32 \<Longrightarrow> unat tid * PLDM_INST_ID_MAX + i \<in> owned db \<longleftrightarrow> bit (ts_allocations (db_state db tid)) i"
proof -
  have "tid' = tid \<and> j = i" if "i < 32" "j < 32" "unat tid * 32 + i = unat tid' * 32 + j" for j and tid' :: u8
  proof -
    have "(unat tid * 32 + i) div 32 = (unat tid' * 32 + j) div 32" "(unat tid * 32 + i) mod 32 = (unat tid' * 32 + j) mod 32"
      using that(3) by simp_all
    then show ?thesis using that(1,2) by (simp add: word_unat_eq_iff)
  qed
  then show "i < 32 \<Longrightarrow> ?thesis" unfolding owned_def using bit_u32_bound by blast
qed

lemma owned_unclaim:
  assumes "bit (ts_allocations (db_state db tid)) (unat i)"
  shows "owned (unclaim db tid i) \<subseteq> owned db - {unat tid * PLDM_INST_ID_MAX + unat i}"
proof -
  have i: "unat i < 32" using assms by (rule bit_u32_bound)
  have "owned (unclaim db tid i) \<subseteq> owned db"
    by (auto simp: owned_def unclaim_def bit_simps split: if_splits)
  moreover have "unat tid * PLDM_INST_ID_MAX + unat i \<notin> owned (unclaim db tid i)"
    using i by (subst owned_iff) (simp_all add: unclaim_def bit_simps)
  ultimately show ?thesis by blast
qed

lemma iid_next_bound: "unat (iid_next c) < 32"
proof -
  have "(unat c + 1) mod 32 < 32" by simp
  then show ?thesis unfolding iid_next_def by (simp add: unat_of_nat)
qed

lemma round_sound:
  assumes again: "\<And>H X. owned db \<subseteq> X \<Longrightarrow> sound db again H X"
    and i: "unat i < 32" "\<not> bit (ts_allocations (db_state db tid)) (unat i)" and own: "owned db \<subseteq> X"
  shows "sound db (alloc_round db tid iid i again) H X"
proof -
  let ?off = "unat tid * PLDM_INST_ID_MAX + unat i"
  have "?off \<notin> owned db" using i by (simp add: owned_iff)
  then have left: "owned db \<subseteq> X - {?off}" "owned db \<subseteq> insert ?off X - {?off}" using own by auto
  show ?thesis
    using own left again owned_claim [OF i(1)]
    by (auto simp: alloc_round_def Let_def pldm_instance_id_cfls_def pldm_instance_id_cflx_def
        pldm_instance_id_cflu_def)
qed

lemma loop_sound: "owned db \<subseteq> X \<Longrightarrow> sound db (alloc_loop n db tid iid l_iid) H X"
proof (induction n arbitrary: l_iid H X)
  case (Suc n)
  then show ?case
    using round_sound [OF Suc.IH iid_next_bound] by (simp add: Let_def)
qed simp

lemma alloc_sound: "owned db \<subseteq> X \<Longrightarrow> sound db (pldm_instance_id_alloc (Some db) tid iid) H X"
  by (simp add: pldm_instance_id_alloc_def loop_sound)

lemma free_sound: "owned db \<subseteq> X \<Longrightarrow> sound db (pldm_instance_id_free (Some db) tid i) H X"
  using owned_unclaim [of db tid i]
  by (auto simp: pldm_instance_id_free_def pldm_instance_id_cflu_def)

text \<open>
  The invariant: each process has bytes of its own, on which it holds locks, and no two
  processes the same.
\<close>

definition proc_ok :: "proc \<Rightarrow> nat set \<Rightarrow> nat set \<Rightarrow> bool" where
  "proc_ok q H X \<longleftrightarrow>
     X \<subseteq> H \<and> (case q of Absent \<Rightarrow> X = {} | Idle db \<Rightarrow> owned db \<subseteq> X | Busy db prog \<Rightarrow> owned db \<subseteq> X \<and> sound db prog H X)"

definition held :: "locks \<Rightarrow> nat \<Rightarrow> nat set" where
  "held L p = {off. L off p \<noteq> F_UNLCK}"

definition sys_ok :: "locks \<times> (nat \<Rightarrow> proc) \<Rightarrow> bool" where
  "sys_ok s \<longleftrightarrow>
     (\<exists>X. (\<forall>p. proc_ok (snd s p) (held (fst s) p) (X p)) \<and> (\<forall>p q. p \<noteq> q \<longrightarrow> X p \<inter> X q = {}))"

text \<open>More locks do no harm.\<close>

lemma sound_mono: "sound db prog H X \<Longrightarrow> H \<subseteq> H' \<Longrightarrow> sound db prog H' X"
proof (induction prog arbitrary: H H' X)
  case (Call c fl k)
  have IH: "sound db (k r) H X \<Longrightarrow> H \<subseteq> H' \<Longrightarrow> sound db (k r) H' X" for r H H' X
    using Call.IH [of "k r"] by blast
  have sub: "H - {a} \<subseteq> H' - {a}" "insert a H \<subseteq> insert a H'" for a using Call.prems(2) by auto
  show ?case
    using Call.prems IH [OF _ sub(1)] IH [OF _ sub(2)] IH [OF _ Call.prems(2)]
    by (cases c) (auto split: if_splits)
qed simp_all

lemma resume_ok: "X \<subseteq> H \<Longrightarrow> sound db prog H X \<Longrightarrow> proc_ok (resume db prog) H X"
  by (cases prog) (auto simp: resume_def proc_ok_def split: prod.split)

lemma sys_okI:
  assumes ok: "\<forall>q. proc_ok (P q) (held L q) (X q)" "\<forall>p q. p \<noteq> q \<longrightarrow> X p \<inter> X q = {}"
    and new: "proc_ok P' (held L' p) Y" "\<forall>q. q \<noteq> p \<longrightarrow> Y \<inter> X q = {}"
    and same: "\<And>q off. q \<noteq> p \<Longrightarrow> L' off q = L off q"
  shows "sys_ok (L', P(p := P'))"
proof -
  have "held L' q = held L q" if "q \<noteq> p" for q using same [OF that] by (simp add: held_def)
  then show ?thesis
    unfolding sys_ok_def using ok new by (intro exI [of _ "X(p := Y)"]) auto
qed

lemma fcntl_same: "fcntl L p c fl r L' \<Longrightarrow> q \<noteq> p \<Longrightarrow> L' off q = L off q"
  by (auto elim!: fcntlE simp: set_lock_def)

lemma held_set_lock:
  "held (set_lock L p fl) p = (if l_type fl = F_UNLCK then held L p - {l_start fl} else insert (l_start fl) (held L p))"
  by (auto simp: held_def set_lock_def)

lemma reply_ok:
  assumes ok: "proc_ok (Busy db (Call c fl k)) (held L p) X" and call: "fcntl L p c fl r L'"
  obtains Y where "proc_ok (resume db (k r)) (held L' p) Y" "Y \<subseteq> X \<union> {off. \<forall>g. g \<noteq> p \<longrightarrow> L off g = F_UNLCK}"
proof -
  have X: "X \<subseteq> held L p" and s: "sound db (Call c fl k) (held L p) X" using ok by (simp_all add: proc_ok_def)
  let ?off = "l_start fl"
  show thesis
    using call
  proof cases
    case (fails rc errno)
    then show thesis using that [of X] s X by (simp add: resume_ok)
  next
    case (unlocks rc errno)
    have "sound db (k r) (held L p - {?off}) (X - {?off})" using s unlocks by simp
    then show thesis
      using that [of "X - {?off}"] X unlocks by (auto simp: held_set_lock intro!: resume_ok)
  next
    case (locks rc errno)
    have "sound db (k r) (insert ?off (held L p)) X" using s locks by simp
    then show thesis using that [of X] X locks by (auto simp: held_set_lock intro!: resume_ok)
  next
    case (could_lock rc errno)
    have "sound db (k r) (held L p) (if F_UNLCK = F_UNLCK then insert ?off X else X)"
      using s could_lock(1,2,5) by (simp only: sound.simps fcntl_cmd.case)
    moreover have "?off \<in> held L p" "l_type fl = F_WRLCK" using s could_lock by simp_all
    moreover have "?off \<in> {off. \<forall>g. g \<noteq> p \<longrightarrow> L off g = F_UNLCK}"
      using could_lock calculation by (auto simp: conflict_def)
    ultimately show thesis using that [of "insert ?off X"] X could_lock(3) by (auto intro!: resume_ok)
  next
    case (blocked g rc errno)
    have "L ?off g \<noteq> F_UNLCK" using blocked by (simp add: conflict_def)
    moreover have "sound db (k r) (held L p) (if L ?off g = F_UNLCK then insert ?off X else X)"
      using s blocked(1,2,5) by (simp only: sound.simps fcntl_cmd.case)
    ultimately have "sound db (k r) (held L p) X" by simp
    then show thesis using that [of X] X blocked by (simp add: resume_ok)
  qed
qed

lemma proc_ok_more: "proc_ok q H X \<Longrightarrow> H \<subseteq> H' \<Longrightarrow> proc_ok q H' X"
  by (auto simp: proc_ok_def sound_mono split: proc.splits)

lemma sys_step_ok:
  assumes "sys_step s s'" "sys_ok s"
  shows "sys_ok s'"
proof -
  obtain X where X: "\<forall>p. proc_ok (snd s p) (held (fst s) p) (X p)" "\<forall>p q. p \<noteq> q \<longrightarrow> X p \<inter> X q = {}"
    using assms(2) by (auto simp: sys_ok_def)
  have call: "sys_ok (fst s, (snd s)(p := resume db prog))"
    if "snd s p = Idle db" "\<And>H Y. owned db \<subseteq> Y \<Longrightarrow> sound db prog H Y" for p db prog
  proof (rule sys_okI [OF X])
    have "X p \<subseteq> held (fst s) p" "owned db \<subseteq> X p" using X(1) that(1) by (auto simp: proc_ok_def split: proc.splits)
    then show "proc_ok (resume db prog) (held (fst s) p) (X p)" using that(2) by (intro resume_ok)
  qed (use X(2) in auto)
  show ?thesis
    using assms(1)
  proof cases
    case (opens P p L st m fd errno db)
    have "owned db = {}" using opens(5) by (auto simp: owned_def pldm_instance_db_init_def split: option.splits if_splits)
    then show ?thesis using X unfolding opens(1,2)
      by (intro sys_okI [where Y = "{}" and L = L and X = X]) (auto simp: proc_ok_def)
  next
    case (allocates P p db L tid iid)
    then show ?thesis using call [of p db] alloc_sound by simp
  next
    case (frees P p db L tid i)
    then show ?thesis using call [of p db] free_sound by simp
  next
    case (replies P p db c fl k L r L')
    have ok: "proc_ok (Busy db (Call c fl k)) (held L p) (X p)" using X(1) replies(1,3) by (metis fst_conv snd_conv)
    obtain Y where Y: "proc_ok (resume db (k r)) (held L' p) Y" "Y \<subseteq> X p \<union> {off. \<forall>g. g \<noteq> p \<longrightarrow> L off g = F_UNLCK}"
      by (rule reply_ok [OF ok replies(4)])
    have "Y \<inter> X q = {}" if "q \<noteq> p" for q
    proof -
      have "X q \<subseteq> held L q" using X(1) replies(1) by (auto simp: proc_ok_def)
      then show ?thesis using Y(2) X(2) that by (fastforce simp: held_def)
    qed
    then show ?thesis
      using X Y(1) fcntl_same [OF replies(4)] unfolding replies(1,2)
      by (intro sys_okI [where Y = Y and L = L and X = X]) auto
  next
    case (closes P p db L)
    then show ?thesis using X
      by (simp, intro sys_okI [where Y = "{}" and L = L and X = X]) (auto simp: proc_ok_def)
  next
    case (others P L' L)
    have "proc_ok (P p) (held L' p) (X p)" for p
    proof (cases "P p = Absent")
      case True
      then show ?thesis using X(1) others(1) by (auto simp: proc_ok_def split: proc.splits)
    next
      case False
      then have "held L' p = held L p" using others(3) by (simp add: held_def)
      then show ?thesis using X(1) others(1) by simp
    qed
    then show ?thesis using X(2) others(2) by (auto simp: sys_ok_def)
  qed
qed

lemma sys_reaches_ok: "sys_reaches s \<Longrightarrow> sys_ok s"
proof (induction rule: sys_reaches.induct)
  case (start L)
  show ?case unfolding sys_ok_def by (intro exI [of _ "\<lambda>_. {}"]) (simp add: proc_ok_def)
next
  case (step s s')
  then show ?case by (blast intro: sys_step_ok)
qed

text \<open>The database object a process has, in a call or not.\<close>

fun object_of :: "proc \<Rightarrow> pldm_instance_db option" where
  "object_of Absent = None"
| "object_of (Idle db) = Some db"
| "object_of (Busy db prog) = Some db"

text \<open>
  C21. Instance ids are exclusive: however the system calls of any number of processes
  interleave, with other programs locking and unlocking parts of the file and system calls
  failing at any point, no two processes have the same instance id of a terminus allocated at
  the same time.
\<close>

theorem instance_ids_exclusive:
  assumes "sys_reaches (L, P)" "p \<noteq> q" "object_of (P p) = Some db" "object_of (P q) = Some db'"
  shows "\<not> (bit (ts_allocations (db_state db tid)) i \<and> bit (ts_allocations (db_state db' tid)) i)"
proof
  assume both: "bit (ts_allocations (db_state db tid)) i \<and> bit (ts_allocations (db_state db' tid)) i"
  then have i: "i < 32" using bit_u32_bound by blast
  obtain X where X: "\<forall>p. proc_ok (P p) (held L p) (X p)" "X p \<inter> X q = {}"
    using sys_reaches_ok [OF assms(1)] assms(2) by (auto simp: sys_ok_def)
  have "owned db \<subseteq> X p" "owned db' \<subseteq> X q"
    using X(1) [rule_format, of p] X(1) [rule_format, of q] assms(3,4)
    by (cases "P p"; cases "P q"; simp add: proc_ok_def)+
  moreover have "unat tid * 32 + i \<in> owned db" "unat tid * 32 + i \<in> owned db'"
    using both i by (simp_all add: owned_iff)
  ultimately show False using X(2) by blast
qed

text \<open>Two processes that allocate an id of terminus 9, one call after the other.\<close>

definition new_db :: pldm_instance_db where
  "new_db = \<lparr>db_state = (\<lambda>_. \<lparr>ts_prev = 31, ts_allocations = 0\<rparr>), db_lock_db_fd = 3\<rparr>"

lemma alloc_runs:
  assumes P: "P p = Idle new_db" and L: "\<forall>g. L 288 g = F_UNLCK" and r: "sys_reaches (L, P)"
  shows "sys_reaches (set_lock L p \<lparr>l_type = F_RDLCK, l_start = 288\<rparr>, P(p := Idle (claim new_db 9 0)))"
proof -
  let ?fl = "\<lparr>l_type = F_RDLCK, l_start = 288\<rparr>" and ?fx = "\<lparr>l_type = F_WRLCK, l_start = 288\<rparr>"
  let ?L = "set_lock L p ?fl"
  have thirty_two: "(32 :: nat) = Suc 31" by simp
  obtain k k' where k: "pldm_instance_id_alloc (Some new_db) 9 (Some 0) = Call F_OFD_SETLK ?fl k"
      "k (0, 0, F_RDLCK) = Call F_OFD_GETLK ?fx k'" "k' (0, 0, F_UNLCK) = Ret (0, Some (claim new_db 9 0), Some 0)"
    unfolding pldm_instance_id_alloc_def thirty_two alloc_loop.simps(2) [of 31]
    by (simp add: new_db_def iid_next_def alloc_round_def pldm_instance_id_cfls_def pldm_instance_id_cflx_def)
  have "sys_reaches (L, P(p := Busy new_db (Call F_OFD_SETLK ?fl k)))"
    using step [OF r allocates [of P p new_db L 9 0]] P by (simp add: k resume_def)
  moreover have "fcntl L p F_OFD_SETLK ?fl (0, 0, F_RDLCK) ?L"
    using fcntl.locks [of ?fl L p 0 0] L by (simp add: conflict_def)
  ultimately have "sys_reaches (?L, P(p := resume new_db (k (0, 0, F_RDLCK))))"
    using step [OF _ replies [of "P(p := Busy new_db (Call F_OFD_SETLK ?fl k))" p new_db _ _ k L _ ?L]] by simp
  then have "sys_reaches (?L, P(p := Busy new_db (Call F_OFD_GETLK ?fx k')))" by (simp add: k resume_def)
  moreover have "fcntl ?L p F_OFD_GETLK ?fx (0, 0, F_UNLCK) ?L"
    using fcntl.could_lock [of ?L p ?fx 0 0] L by (simp add: conflict_def set_lock_def)
  ultimately have "sys_reaches (?L, P(p := resume new_db (k' (0, 0, F_UNLCK))))"
    using step [OF _ replies [of "P(p := Busy new_db (Call F_OFD_GETLK ?fx k'))" p new_db _ _ k' ?L _ ?L]] by simp
  then show ?thesis by (simp add: k resume_def)
qed

theorem instance_ids_exclusive_witness:
  "\<exists>L P. sys_reaches (L, P) \<and> object_of (P 1) = Some (claim new_db 9 0) \<and> object_of (P 2) = Some new_db \<and>
    bit (ts_allocations (db_state (claim new_db 9 0) 9)) 0 \<and>
    \<not> (bit (ts_allocations (db_state (claim new_db 9 0) 9)) 0 \<and> bit (ts_allocations (db_state new_db 9)) 0)"
proof -
  let ?L = "\<lambda>_ _. F_UNLCK" and ?P = "(\<lambda>_. Absent)(1 :: nat := Idle new_db, 2 := Idle new_db)"
  have init: "pldm_instance_db_init (Some None) (Some 8192) True 3 0 = (0, Some (Some new_db))"
    by (simp add: pldm_instance_db_init_def new_db_def)
  have one: "sys_reaches (?L, (\<lambda>_. Absent)(1 := Idle new_db))"
    by (rule step [OF start opens [OF _ _ init]]) simp_all
  have two: "sys_reaches (?L, ?P)"
    by (rule step [OF one opens [OF _ _ init]]) simp_all
  let ?s = "set_lock ?L 1 \<lparr>l_type = F_RDLCK, l_start = 288\<rparr>" and ?Q = "?P(1 := Idle (claim new_db 9 0))"
  have r: "sys_reaches (?s, ?Q)" by (rule alloc_runs [OF _ _ two]) simp_all
  have objs: "object_of (?Q 1) = Some (claim new_db 9 0)" "object_of (?Q 2) = Some new_db" by simp_all
  have "bit (ts_allocations (db_state (claim new_db 9 0) 9)) 0" by (simp add: claim_def new_db_def bit_simps)
  moreover have "\<not> (bit (ts_allocations (db_state (claim new_db 9 0) 9)) 0 \<and> bit (ts_allocations (db_state new_db 9)) 0)"
    by (rule instance_ids_exclusive [OF r _ objs]) simp
  ultimately show ?thesis using r objs by (intro exI [of _ ?s] exI [of _ ?Q] conjI)
qed

end
