(* ===== verification/Transport.thy ===== *)
theory Transport
  imports Base_Header "HOL-Library.Monad_Syntax"
begin

text \<open>
  The exchange of a request and its response over any transport,
  \<^verbatim>\<open>src/transport/transport.c\<close>. The functions of a transport, \<open>poll\<close> and the clock are parameters that
  act on a state \<open>'s\<close> of the outside world. Received messages are objects the caller owns: the
  list of all objects that were received keeps \<open>None\<close> for the freed ones, and to free one twice or
  to read a freed one is undefined (\<open>None\<close>).
\<close>

section \<open>The outside world\<close>

abbreviation (input) PLDM_REQUESTER_SUCCESS :: int where "PLDM_REQUESTER_SUCCESS \<equiv> 0"
abbreviation (input) PLDM_REQUESTER_NOT_REQ_MSG :: int where "PLDM_REQUESTER_NOT_REQ_MSG \<equiv> - 4"
abbreviation (input) PLDM_REQUESTER_RECV_FAIL :: int where "PLDM_REQUESTER_RECV_FAIL \<equiv> - 8"
abbreviation (input) PLDM_REQUESTER_INVALID_RECV_LEN :: int where "PLDM_REQUESTER_INVALID_RECV_LEN \<equiv> - 9"
abbreviation (input) PLDM_REQUESTER_INVALID_SETUP :: int where "PLDM_REQUESTER_INVALID_SETUP \<equiv> - 11"
abbreviation (input) PLDM_REQUESTER_POLL_FAIL :: int where "PLDM_REQUESTER_POLL_FAIL \<equiv> - 12"
abbreviation (input) PLDM_REQUESTER_TRANSPORT_BUSY :: int where "PLDM_REQUESTER_TRANSPORT_BUSY \<equiv> - 13"

text \<open>A successful \<open>recv\<close> gives the sender, the message and its length.\<close>

record 's pldm_transport =
  t_recv :: "'s \<Rightarrow> (int \<times> u8 \<times> u8 list \<times> nat) \<times> 's"
  t_send :: "u8 \<Rightarrow> u8 list \<Rightarrow> nat \<Rightarrow> 's \<Rightarrow> int \<times> 's"
  t_init_pollfd :: "('s \<Rightarrow> int \<times> 's) option"

text \<open>\<open>poll\<close> with a timeout, and the monotonic clock: return value, seconds and nanoseconds.\<close>

record 's host =
  sys_poll :: "int \<Rightarrow> 's \<Rightarrow> int \<times> 's"
  sys_clock :: "'s \<Rightarrow> (int \<times> int \<times> int) \<times> 's"

text \<open>The objects received so far and what the caller's response and length pointers lead to.\<close>

record memory =
  mem_objects :: "u8 list option list"
  mem_resp :: "nat option"
  mem_len :: nat

definition free_resp :: "memory \<Rightarrow> memory option" where
  "free_resp m = do {
     a \<leftarrow> mem_resp m;
     if a < length (mem_objects m) \<and> mem_objects m ! a \<noteq> None
     then Some (m\<lparr>mem_objects := (mem_objects m)[a := None]\<rparr>) else None }"

definition hdr_at :: "u8 list \<Rightarrow> pldm_msg_hdr option" where
  "hdr_at bs = (case bs of b0 # b1 # b2 # _ \<Rightarrow> Some (hdr_of_bytes b0 b1 b2) | _ \<Rightarrow> None)"

section \<open>Polling, sending, receiving\<close>

definition pldm_transport_poll :: "'s pldm_transport option \<Rightarrow> 's host \<Rightarrow> int \<Rightarrow> 's \<Rightarrow> int \<times> 's" where
  "pldm_transport_poll transport sys timeout s =
     (case transport of
        None \<Rightarrow> (PLDM_REQUESTER_INVALID_SETUP, s)
      | Some t \<Rightarrow>
          (case t_init_pollfd t of
             None \<Rightarrow> (1, s)
           | Some init_pollfd \<Rightarrow>
               let (rc, s) = init_pollfd s in
               if rc < 0 then (PLDM_REQUESTER_POLL_FAIL, s)
               else
                 let (rc, s) = sys_poll sys timeout s in
                 if rc < 0 then (PLDM_REQUESTER_POLL_FAIL, s) else (rc, s)))"

definition pldm_transport_send_msg ::
    "'s pldm_transport option \<Rightarrow> u8 \<Rightarrow> u8 list option \<Rightarrow> nat \<Rightarrow> 's \<Rightarrow> int \<times> 's" where
  "pldm_transport_send_msg transport tid pldm_msg msg_len s =
     (case (transport, pldm_msg) of
        (Some t, Some bs) \<Rightarrow>
          if msg_len < 3 then (PLDM_REQUESTER_NOT_REQ_MSG, s) else t_send t tid bs msg_len s
      | _ \<Rightarrow> (PLDM_REQUESTER_INVALID_SETUP, s))"

text \<open>The results: the return value, the sender and the memory. \<open>msg_len\<close> is not NULL.\<close>

definition pldm_transport_recv_msg ::
    "'s pldm_transport option \<Rightarrow> u8 \<Rightarrow> memory \<Rightarrow> 's \<Rightarrow> (int \<times> u8 \<times> memory \<times> 's) option" where
  "pldm_transport_recv_msg transport tid m s =
     (case transport of
        None \<Rightarrow> Some (PLDM_REQUESTER_INVALID_SETUP, tid, m, s)
      | Some t \<Rightarrow>
          let ((rc, src, msg, len), s) = t_recv t s in
          if rc \<noteq> PLDM_REQUESTER_SUCCESS then Some (rc, tid, m, s)
          else
            let m = \<lparr>mem_objects = mem_objects m @ [Some msg], mem_resp = Some (length (mem_objects m)),
                     mem_len = len\<rparr> in
            if len < 3 then do {
              m \<leftarrow> free_resp m;
              Some (PLDM_REQUESTER_INVALID_RECV_LEN, src, m\<lparr>mem_resp := None\<rparr>, s) }
            else Some (PLDM_REQUESTER_SUCCESS, src, m, s))"

section \<open>Time\<close>

type_synonym timeval = "int \<times> int"

definition timespec_to_timeval :: "int \<times> int \<Rightarrow> timeval" where
  "timespec_to_timeval ts = (fst ts, snd ts div 1000)"

definition timeval_to_msec :: "timeval \<Rightarrow> int" where
  "timeval_to_msec tv = fst tv * 1000 + snd tv div 1000"

definition timeval_validate_for_msec :: "timeval \<Rightarrow> bool" where
  "timeval_validate_for_msec tv \<longleftrightarrow>
     \<not> (fst tv < 0 \<or> snd tv < 0 \<or> snd tv \<ge> 1000000) \<and> \<not> fst tv > (INTMAX_MAX - 1000) div 1000"

definition clock_gettimeval :: "'s host \<Rightarrow> timeval \<Rightarrow> 's \<Rightarrow> int \<times> timeval \<times> 's" where
  "clock_gettimeval sys tv s =
     (let ((rc, ts), s) = sys_clock sys s in
      if rc < 0 then (rc, tv, s) else (0, timespec_to_timeval ts, s))"

text \<open>The macros of \<^verbatim>\<open>sys/time.h\<close>.\<close>

definition timeradd :: "timeval \<Rightarrow> timeval \<Rightarrow> timeval" where
  "timeradd a b =
     (if snd a + snd b \<ge> 1000000 then (fst a + fst b + 1, snd a + snd b - 1000000)
      else (fst a + fst b, snd a + snd b))"

definition timersub :: "timeval \<Rightarrow> timeval \<Rightarrow> timeval" where
  "timersub a b =
     (if snd a - snd b < 0 then (fst a - fst b - 1, snd a - snd b + 1000000)
      else (fst a - fst b, snd a - snd b))"

definition timercmp_less :: "timeval \<Rightarrow> timeval \<Rightarrow> bool" where
  "timercmp_less a b \<longleftrightarrow> (if fst a = fst b then snd a < snd b else fst a < fst b)"

definition max_response_interval :: timeval where
  "max_response_interval = (4, 800000)"

section \<open>Request and response\<close>

abbreviation (input) DRAIN_MAX :: nat where "DRAIN_MAX \<equiv> (31 + 1) * 256"

text \<open>Messages that wait from before are dropped. The count of rounds is returned.\<close>

function drain ::
    "'s pldm_transport option \<Rightarrow> 's host \<Rightarrow> nat \<Rightarrow> memory \<Rightarrow> 's \<Rightarrow> (nat \<times> memory \<times> 's) option" where
  "drain transport sys cnt m s =
     (if \<not> cnt \<le> DRAIN_MAX then Some (cnt, m, s)
      else
        let (r, s) = pldm_transport_poll transport sys 0 s in
        if r \<noteq> 1 then Some (cnt, m, s)
        else
          case pldm_transport_recv_msg transport 0 m s of
            None \<Rightarrow> None
          | Some (rc, _, m, s) \<Rightarrow>
              (case (if rc = PLDM_REQUESTER_SUCCESS then free_resp m else Some m) of
                 None \<Rightarrow> None
               | Some m \<Rightarrow> drain transport sys (cnt + 1) m s))"
  by pat_completeness auto

termination drain
  by (relation "measure (\<lambda>(_, _, cnt, _, _). Suc DRAIN_MAX - cnt)") auto

declare drain.simps [simp del]

text \<open>The response is awaited; \<open>req\<close> is the header of the request.\<close>

partial_function (option) await ::
    "'s pldm_transport option \<Rightarrow> 's host \<Rightarrow> u8 \<Rightarrow> pldm_msg_hdr \<Rightarrow> timeval \<Rightarrow> timeval \<Rightarrow> memory \<Rightarrow> 's \<Rightarrow>
      (int \<times> memory \<times> 's) option" where
  "await transport sys tid req now end_time m s =
     (if \<not> timercmp_less now end_time then Some (PLDM_REQUESTER_RECV_FAIL, m, s)
      else if \<not> timeval_validate_for_msec (timersub end_time now) then Some (PLDM_REQUESTER_POLL_FAIL, m, s)
      else
        let (ret, s) = pldm_transport_poll transport sys (timeval_to_msec (timersub end_time now)) s in
        if ret \<le> 0 then Some (PLDM_REQUESTER_RECV_FAIL, m, s)
        else
          let (ret, now, s) = clock_gettimeval sys now s in
          if ret < 0 then Some (PLDM_REQUESTER_POLL_FAIL, m, s)
          else do {
            (rc, src_tid, m, s) \<leftarrow> pldm_transport_recv_msg transport 0 m s;
            if rc \<noteq> PLDM_REQUESTER_SUCCESS then await transport sys tid req now end_time m s
            else do {
              a \<leftarrow> mem_resp m;
              bs \<leftarrow> mem_objects m ! a;
              if src_tid \<noteq> tid then do { m \<leftarrow> free_resp m; await transport sys tid req now end_time m s }
              else do {
                resp \<leftarrow> hdr_at bs;
                if \<not> pldm_msg_hdr_correlate_response req resp
                then do { m \<leftarrow> free_resp m; await transport sys tid req now end_time m s }
                else Some (PLDM_REQUESTER_SUCCESS, m, s) } } })"

definition pldm_transport_send_recv_msg ::
    "'s pldm_transport option \<Rightarrow> 's host \<Rightarrow> u8 \<Rightarrow> u8 list \<Rightarrow> nat \<Rightarrow> bool \<Rightarrow> memory \<Rightarrow> 's \<Rightarrow>
      (int \<times> memory \<times> 's) option" where
  "pldm_transport_send_recv_msg transport sys tid pldm_req_msg req_msg_len resp_msg_len m s =
     (if req_msg_len < 3 \<or> \<not> resp_msg_len then Some (PLDM_REQUESTER_INVALID_SETUP, m, s)
      else do {
        req_hdr \<leftarrow> hdr_at pldm_req_msg;
        if h_request req_hdr = 0 then Some (PLDM_REQUESTER_NOT_REQ_MSG, m, s)
        else do {
          (cnt, m, s) \<leftarrow> drain transport sys 0 m s;
          if cnt = DRAIN_MAX then Some (PLDM_REQUESTER_TRANSPORT_BUSY, m, s)
          else
            let (rc, s) = pldm_transport_send_msg transport tid (Some pldm_req_msg) req_msg_len s in
            if rc \<noteq> PLDM_REQUESTER_SUCCESS then Some (rc, m, s)
            else
              let (ret, now, s) = clock_gettimeval sys (0, 0) s in
              if ret < 0 then Some (PLDM_REQUESTER_POLL_FAIL, m, s)
              else await transport sys tid req_hdr now (timeradd now max_response_interval) m s } })"

section \<open>Memory\<close>

text \<open>Everything received meanwhile was freed.\<close>

definition only_freed :: "memory \<Rightarrow> memory \<Rightarrow> bool" where
  "only_freed m m' \<longleftrightarrow> (\<exists>k. mem_objects m' = mem_objects m @ replicate k None)"

lemma only_freed_refl [simp]: "only_freed m m"
  by (auto simp: only_freed_def intro: exI [of _ 0])

lemma only_freed_trans: "only_freed m m' \<Longrightarrow> only_freed m' m'' \<Longrightarrow> only_freed m m''"
  by (auto simp: only_freed_def simp flip: replicate_add)

text \<open>A message that was just received.\<close>

definition fresh_message :: "memory \<Rightarrow> u8 list \<Rightarrow> memory \<Rightarrow> bool" where
  "fresh_message m msg m' \<longleftrightarrow>
     mem_objects m' = mem_objects m @ [Some msg] \<and> mem_resp m' = Some (length (mem_objects m))"

lemma free_fresh:
  assumes "fresh_message m msg m'"
  obtains m'' where "free_resp m' = Some m''" "only_freed m m''"
proof -
  have "free_resp m' = Some (m'\<lparr>mem_objects := mem_objects m @ [None]\<rparr>)"
    using assms by (simp add: fresh_message_def free_resp_def)
  moreover have "only_freed m (m'\<lparr>mem_objects := mem_objects m @ [None]\<rparr>)"
    unfolding only_freed_def by (intro exI [of _ 1]) simp
  ultimately show thesis by (rule that)
qed

lemma recv_msg_cases:
  obtains (failed) rc src m' s' where "pldm_transport_recv_msg (Some t) tid m s = Some (rc, src, m', s')"
      "rc \<noteq> 0" "only_freed m m'" "s' = snd (t_recv t s)"
  | (received) src msg len m' s' where "pldm_transport_recv_msg (Some t) tid m s = Some (0, src, m', s')"
      "fresh_message m msg m'" "mem_len m' = len" "t_recv t s = ((0, src, msg, len), s')" "3 \<le> len"
proof -
  obtain rc src msg len s' where r: "t_recv t s = ((rc, src, msg, len), s')" by (metis surj_pair)
  let ?m = "\<lparr>mem_objects = mem_objects m @ [Some msg], mem_resp = Some (length (mem_objects m)), mem_len = len\<rparr>"
  have fresh: "fresh_message m msg ?m" by (simp add: fresh_message_def)
  consider "rc \<noteq> 0" | "rc = 0" "len < 3" | "rc = 0" "3 \<le> len" by linarith
  then show thesis
  proof cases
    case 1
    then have "pldm_transport_recv_msg (Some t) tid m s = Some (rc, tid, m, s')"
      using r by (simp add: pldm_transport_recv_msg_def)
    then show thesis by (rule failed) (use 1 r in simp_all)
  next
    case 2
    obtain m'' where m'': "free_resp ?m = Some m''" "only_freed m m''" using free_fresh [OF fresh] .
    then have "only_freed m (m''\<lparr>mem_resp := None\<rparr>)" by (simp add: only_freed_def)
    moreover have "pldm_transport_recv_msg (Some t) tid m s = Some (- 9, src, m''\<lparr>mem_resp := None\<rparr>, s')"
      using m''(1) 2 r by (simp add: pldm_transport_recv_msg_def)
    ultimately show thesis using r by (intro failed [of "- 9" src "m''\<lparr>mem_resp := None\<rparr>" s']) simp_all
  next
    case 3
    then have "pldm_transport_recv_msg (Some t) tid m s = Some (0, src, ?m, s')"
      using r by (simp add: pldm_transport_recv_msg_def)
    then show thesis by (rule received [OF _ fresh]) (use 3 r in simp_all)
  qed
qed

lemma drain_step:
  assumes "cnt \<le> DRAIN_MAX" "fst (pldm_transport_poll (Some t) sys 0 s) = 1"
  obtains m1 s1 where "drain (Some t) sys cnt m s = drain (Some t) sys (Suc cnt) m1 s1" "only_freed m m1"
proof -
  obtain s1 where p: "pldm_transport_poll (Some t) sys 0 s = (1, s1)" using assms(2) by (metis prod.collapse)
  have again: "drain (Some t) sys cnt m s =
      (case pldm_transport_recv_msg (Some t) 0 m s1 of None \<Rightarrow> None
       | Some (rc, _, m, s) \<Rightarrow> (case (if rc = 0 then free_resp m else Some m) of None \<Rightarrow> None
          | Some m \<Rightarrow> drain (Some t) sys (cnt + 1) m s))"
    using assms(1) p by (subst drain.simps) simp
  show thesis
  proof (cases rule: recv_msg_cases [of t 0 m s1])
    case (failed rc src m1 s2)
    then show thesis using that [of m1 s2] unfolding again by simp
  next
    case (received src msg len m1 s2)
    then obtain m2 where "free_resp m1 = Some m2" "only_freed m m2" using free_fresh by blast
    then show thesis using that [of m2 s2] received unfolding again by simp
  qed
qed

lemma drain_stops:
  assumes "\<not> (cnt \<le> DRAIN_MAX \<and> fst (pldm_transport_poll (Some t) sys 0 s) = 1)"
  shows "\<exists>s'. drain (Some t) sys cnt m s = Some (cnt, m, s')"
  using assms by (subst drain.simps) (auto simp: split_beta)

lemma drain_ends:
  obtains cnt' m' s' where "drain (Some t) sys cnt m s = Some (cnt', m', s')" "only_freed m m'"
proof (induction "Suc DRAIN_MAX - cnt" arbitrary: cnt m s thesis rule: less_induct)
  case less
  show ?case
  proof (cases "cnt \<le> DRAIN_MAX \<and> fst (pldm_transport_poll (Some t) sys 0 s) = 1")
    case False
    obtain s' where "drain (Some t) sys cnt m s = Some (cnt, m, s')" using drain_stops [OF False] by metis
    then show ?thesis by (rule less.prems) simp
  next
    case True
    then have le: "cnt \<le> DRAIN_MAX" and one: "fst (pldm_transport_poll (Some t) sys 0 s) = 1" by blast+
    obtain m1 s1 where s1: "drain (Some t) sys cnt m s = drain (Some t) sys (Suc cnt) m1 s1" "only_freed m m1"
      using drain_step [OF le one] .
    have "Suc DRAIN_MAX - Suc cnt < Suc DRAIN_MAX - cnt" using le by simp
    then show ?thesis
      by (rule less.hyps [of _ m1 s1]) (use less.prems s1 only_freed_trans [OF s1(2)] in auto)
  qed
qed

section \<open>Time passes\<close>

definition usec :: "timeval \<Rightarrow> int" where
  "usec tv = fst tv * 1000000 + snd tv"

definition normal :: "timeval \<Rightarrow> bool" where
  "normal tv \<longleftrightarrow> 0 \<le> snd tv \<and> snd tv < 1000000"

lemma timercmp_usec: "normal a \<Longrightarrow> normal b \<Longrightarrow> timercmp_less a b \<longleftrightarrow> usec a < usec b"
  by (auto simp: normal_def usec_def timercmp_less_def)

lemma timeradd_usec: "normal a \<Longrightarrow> normal b \<Longrightarrow> usec (timeradd a b) = usec a + usec b \<and> normal (timeradd a b)"
  by (auto simp: normal_def usec_def timeradd_def)

text \<open>
  What the exchange needs of the world. A message has the length \<open>recv\<close> says. The clock, when
  it can be read, reads a normalised time and is never turned back, as documented of
  \<open>CLOCK_MONOTONIC\<close>; it may show the same time again and again.
\<close>

definition recv_ok :: "'s pldm_transport \<Rightarrow> bool" where
  "recv_ok t \<longleftrightarrow> (\<forall>s src msg len s'. t_recv t s = ((0, src, msg, len), s') \<longrightarrow> length msg = len)"

definition clock_ok :: "'s pldm_transport \<Rightarrow> 's host \<Rightarrow> ('s \<Rightarrow> int) \<Rightarrow> bool" where
  "clock_ok t sys time \<longleftrightarrow>
     (\<forall>s rc sec nsec s'. sys_clock sys s = ((rc, sec, nsec), s') \<and> 0 \<le> rc \<longrightarrow>
        0 \<le> nsec \<and> nsec < 1000000000 \<and> time s' = sec * 1000000 + nsec div 1000 \<and> time s \<le> time s') \<and>
     (\<forall>s. time s \<le> time (snd (t_recv t s))) \<and>
     (\<forall>timeout s. time s \<le> time (snd (sys_poll sys timeout s))) \<and>
     (\<forall>init s. t_init_pollfd t = Some init \<longrightarrow> time s \<le> time (snd (init s)))"

text \<open>
  The waiting loop has no bound of its own but the time, so that it ends needs that time
  passes: there is no unending sequence of rounds (poll, read the clock, receive) that all fall
  into the same microsecond.
\<close>

definition round_end :: "'s pldm_transport \<Rightarrow> 's host \<Rightarrow> int \<Rightarrow> 's \<Rightarrow> 's" where
  "round_end t sys timeout s =
     snd (t_recv t (snd (sys_clock sys (snd (pldm_transport_poll (Some t) sys timeout s)))))"

definition time_passes :: "'s pldm_transport \<Rightarrow> 's host \<Rightarrow> ('s \<Rightarrow> int) \<Rightarrow> bool" where
  "time_passes t sys time \<longleftrightarrow>
     wf {(s', s). (\<exists>timeout. s' = round_end t sys timeout s) \<and> time s' = time s}"

lemma poll_time: "clock_ok t sys time \<Longrightarrow> time s \<le> time (snd (pldm_transport_poll (Some t) sys timeout s))"
  unfolding clock_ok_def pldm_transport_poll_def
  by (auto simp: split_beta split: option.splits) (meson order_trans)

lemma clock_time:
  assumes "clock_ok t sys time" "clock_gettimeval sys tv s = (ret, now, s')" "\<not> ret < 0"
  shows "normal now \<and> usec now = time s' \<and> time s \<le> time s' \<and> s' = snd (sys_clock sys s)"
proof -
  obtain rc sec nsec s1 where c: "sys_clock sys s = ((rc, sec, nsec), s1)" by (metis surj_pair)
  have rc: "0 \<le> rc" using assms(2,3) c by (auto simp: clock_gettimeval_def split: if_splits)
  have k: "0 \<le> nsec" "nsec < 1000000000" "time s1 = sec * 1000000 + nsec div 1000" "time s \<le> time s1"
    using assms(1) c rc unfolding clock_ok_def by blast+
  show ?thesis
    using assms(2,3) c k
    by (auto simp: clock_gettimeval_def timespec_to_timeval_def normal_def usec_def split: if_splits)
qed

section \<open>The exchange\<close>

text \<open>The response to a request: the last message received, the only one that was not freed.\<close>

definition answered ::
    "'s pldm_transport \<Rightarrow> u8 \<Rightarrow> pldm_msg_hdr \<Rightarrow> memory \<Rightarrow> memory \<Rightarrow> 's \<Rightarrow> bool" where
  "answered t tid req m m' s' \<longleftrightarrow>
     (\<exists>k msg resp s1.
        mem_objects m' = mem_objects m @ replicate k None @ [Some msg] \<and>
        mem_resp m' = Some (length (mem_objects m) + k) \<and>
        t_recv t s1 = ((0, tid, msg, mem_len m'), s') \<and>
        hdr_at msg = Some resp \<and> pldm_msg_hdr_correlate_response req resp)"

lemma answered_later: "only_freed m m1 \<Longrightarrow> answered t tid req m1 m' s' \<Longrightarrow> answered t tid req m m' s'"
  unfolding only_freed_def answered_def
  by (metis (no_types, opaque_lifting) add.assoc append.assoc length_append length_replicate replicate_add)

lemma hdr_at_long: "3 \<le> length bs \<Longrightarrow> \<exists>h. hdr_at bs = Some h"
  by (auto simp: hdr_at_def numeral_eq_Suc Suc_le_length_iff)

text \<open>One round of the wait: it ends, or goes on later.\<close>

lemma await_round:
  assumes clock: "clock_ok t sys time" and recv: "recv_ok t"
    and now: "normal now" "normal end_time" "usec now \<le> time s"
  obtains (stop) rc m' s' where "await (Some t) sys tid req now end_time m s = Some (rc, m', s')"
      "rc \<noteq> 0" "only_freed m m'"
  | (hit) m' s' where "await (Some t) sys tid req now end_time m s = Some (0, m', s')" "answered t tid req m m' s'"
  | (again) now' m' s' where "usec now < usec end_time"
      "await (Some t) sys tid req now end_time m s = await (Some t) sys tid req now' end_time m' s'"
      "only_freed m m'" "normal now'" "time s \<le> usec now'" "usec now' \<le> time s'"
      "\<exists>timeout. s' = round_end t sys timeout s"
proof -
  obtain ret s1 where p: "pldm_transport_poll (Some t) sys (timeval_to_msec (timersub end_time now)) s = (ret, s1)"
    by (metis surj_pair)
  obtain ret' now' s2 where c: "clock_gettimeval sys now s1 = (ret', now', s2)" by (metis surj_pair)
  note body = await.simps [of "Some t" sys tid req now end_time m s]
  consider (late) "\<not> timercmp_less now end_time" | (bad) "timercmp_less now end_time"
      "\<not> timeval_validate_for_msec (timersub end_time now) \<or> ret \<le> 0 \<or> ret' < 0"
    | (go) "timercmp_less now end_time" "timeval_validate_for_msec (timersub end_time now)" "\<not> ret \<le> 0" "\<not> ret' < 0"
    by blast
  then show thesis
  proof cases
    case late
    then show thesis using stop [of "- 8" m s] body by simp
  next
    case bad
    then have "\<exists>rc s'. await (Some t) sys tid req now end_time m s = Some (rc, m, s') \<and> rc \<noteq> 0"
      using p c by (subst body) auto
    then show thesis using stop by auto
  next
    case go
    have lt: "usec now < usec end_time" using go(1) now timercmp_usec by blast
    have t: "normal now'" "usec now' = time s2" "time s \<le> usec now'" "s2 = snd (sys_clock sys s1)"
      using clock_time [OF clock c go(4)] poll_time [OF clock, of s "timeval_to_msec (timersub end_time now)"] p
      by auto
    have "snd (t_recv t s2) = round_end t sys (timeval_to_msec (timersub end_time now)) s"
      using p t(4) by (simp add: round_end_def)
    then have step: "\<exists>timeout. snd (t_recv t s2) = round_end t sys timeout s" by blast
    have run: "await (Some t) sys tid req now end_time m s = do {
        (rc, src_tid, m, s) \<leftarrow> pldm_transport_recv_msg (Some t) 0 m s2;
        if rc \<noteq> 0 then await (Some t) sys tid req now' end_time m s
        else do {
          a \<leftarrow> mem_resp m;
          bs \<leftarrow> mem_objects m ! a;
          if src_tid \<noteq> tid then do { m \<leftarrow> free_resp m; await (Some t) sys tid req now' end_time m s }
          else do {
            resp \<leftarrow> hdr_at bs;
            if \<not> pldm_msg_hdr_correlate_response req resp
            then do { m \<leftarrow> free_resp m; await (Some t) sys tid req now' end_time m s }
            else Some (0, m, s) } } }"
      using go p c by (subst body) simp
    have "time s2 \<le> time (snd (t_recv t s2))" using clock by (auto simp: clock_ok_def)
    note later = again [OF lt _ _ t(1,3)] and t' = t(2) this step
    show thesis
    proof (cases rule: recv_msg_cases [of t 0 m s2])
      case (failed rc src m1 s3)
      then show thesis using later [of m1 s3] t' by (simp add: run)
    next
      case (received src msg len m1 s3)
      obtain m2 where m2: "free_resp m1 = Some m2" "only_freed m m2" using free_fresh [OF received(2)] .
      have obj: "mem_resp m1 = Some (length (mem_objects m))" "mem_objects m1 ! length (mem_objects m) = Some msg"
        using received(2) by (simp_all add: fresh_message_def nth_append)
      have "length msg = len" using recv received(4) unfolding recv_ok_def by blast
      then obtain resp where resp: "hdr_at msg = Some resp" using hdr_at_long received(5) by auto
      show thesis
      proof (cases "src = tid \<and> pldm_msg_hdr_correlate_response req resp")
        case True
        have "answered t tid req m m1 s3"
          unfolding answered_def using received True resp obj
          by (intro exI [of _ 0] exI [of _ msg] exI [of _ resp] exI [of _ s2]) (simp add: fresh_message_def)
        then show thesis using hit [of m1 s3] True received obj resp by (simp add: run)
      next
        case False
        then show thesis using later [of m2 s3] t' m2 received obj resp by (auto simp: run)
      qed
    qed
  qed
qed

lemma await_late:
  "normal now \<Longrightarrow> normal end_time \<Longrightarrow> usec end_time \<le> usec now \<Longrightarrow>
     await transport sys tid req now end_time m s = Some (PLDM_REQUESTER_RECV_FAIL, m, s)"
  by (subst await.simps) (simp add: timercmp_usec)

text \<open>The end is nearer after each round: the time left is less, or no time has passed.\<close>

lemma await_ends:
  assumes clock: "clock_ok t sys time" "time_passes t sys time" and recv: "recv_ok t"
    and now: "normal now" "normal end_time" "usec now \<le> time s"
  obtains rc m' s' where "await (Some t) sys tid req now end_time m s = Some (rc, m', s')"
    "if rc = 0 then answered t tid req m m' s' else only_freed m m'"
proof -
  let ?stall = "{(s', s). (\<exists>timeout. s' = round_end t sys timeout s) \<and> time s' = time s}"
  let ?left = "\<lambda>s. nat (usec end_time - time s)"
  have wf: "wf (less_than <*lex*> ?stall)"
    using clock(2) by (simp add: time_passes_def wf_lex_prod)
  have "\<exists>rc m' s'. await (Some t) sys tid req now end_time m s = Some (rc, m', s') \<and>
      (if rc = 0 then answered t tid req m m' s' else only_freed m m')"
    if "normal now" "usec now \<le> time s" for now m s
    using that
  proof (induction "(?left s, s)" arbitrary: now m s rule: wf_induct_rule [OF wf])
    case (1 s)
    show ?case
    proof (rule await_round [OF clock(1) recv 1(2) now(2) 1(3), of tid req m], goal_cases)
      case (1 rc m' s')
      then show ?case by auto
    next
      case (2 m' s')
      then show ?case by auto
    next
      case again: (3 now' m1 s1)
      show ?case
      proof (cases "usec end_time \<le> time s")
        case True
        then show ?thesis
          using again(2,3) await_late [OF again(4) now(2), of "Some t" sys tid req m1 s1] again(5) by auto
      next
        case False
        have "time s < time s1 \<or> time s1 = time s" using again(5,6) by linarith
        then have "((?left s1, s1), (?left s, s)) \<in> less_than <*lex*> ?stall"
          using False again(7) by auto
        from 1(1) [OF this again(4,6), of m1] show ?thesis
          using again(2) answered_later [OF again(3), where t = t] only_freed_trans [OF again(3)]
          by (auto split: if_splits)
      qed
    qed
  qed
  with now(1,3) that show thesis by blast
qed

text \<open>
  C23. A request that the transport carries ends, and either fails, with everything that was
  received meanwhile freed, or gives the caller the response: a message from the terminus asked,
  whose header answers the request's, the last message received and the only one that is still
  allocated. Messages that do not belong are dropped, however many come. Assumed of the
  world: \<open>recv\<close> tells the length of a message; the monotonic clock, when it can be read, is
  normalised and does not go back (it may repeat); and time passes, that is, no unending
  sequence of rounds of the waiting loop falls into one microsecond. The last is what the loop's
  end rests on: a transport that always has a stray message under a clock that stands still
  would keep the call busy.
\<close>

theorem send_recv_gets_response:
  assumes "clock_ok t sys time" "time_passes t sys time" "recv_ok t" "3 \<le> n" "hdr_at req = Some rq"
  shows "\<exists>rc m' s'. pldm_transport_send_recv_msg (Some t) sys tid req n True m s = Some (rc, m', s') \<and>
    (if rc = 0 then h_request rq \<noteq> 0 \<and> answered t tid rq m m' s' else only_freed m m')"
proof -
  obtain cnt m1 s1 where d: "drain (Some t) sys 0 m s = Some (cnt, m1, s1)" "only_freed m m1" by (rule drain_ends)
  obtain rc s2 where snd: "pldm_transport_send_msg (Some t) tid (Some req) n s1 = (rc, s2)" by (metis surj_pair)
  obtain ret now s3 where c: "clock_gettimeval sys (0, 0) s2 = (ret, now, s3)" by (metis surj_pair)
  show ?thesis
  proof (cases "h_request rq = 0 \<or> cnt = DRAIN_MAX \<or> rc \<noteq> 0 \<or> ret < 0")
    case True
    then have "\<exists>rc m' s'. pldm_transport_send_recv_msg (Some t) sys tid req n True m s = Some (rc, m', s') \<and>
        rc \<noteq> 0 \<and> (m' = m \<or> m' = m1)"
      using assms(4,5) d(1) snd c by (auto simp: pldm_transport_send_recv_msg_def)
    then show ?thesis using d(2) by fastforce
  next
    case False
    have now: "normal now" "usec now \<le> time s3" using clock_time [OF assms(1) c] False by auto
    moreover have "normal (timeradd now max_response_interval)"
      using timeradd_usec [OF now(1), of max_response_interval] by (simp add: normal_def max_response_interval_def)
    ultimately obtain rc' m' s' where
        "await (Some t) sys tid rq now (timeradd now max_response_interval) m1 s3 = Some (rc', m', s')"
        "if rc' = 0 then answered t tid rq m1 m' s' else only_freed m1 m'"
      using await_ends [OF assms(1-3)] by metis
    moreover have "pldm_transport_send_recv_msg (Some t) sys tid req n True m s =
        await (Some t) sys tid rq now (timeradd now max_response_interval) m1 s3"
      using assms(4,5) d(1) snd c False by (simp add: pldm_transport_send_recv_msg_def)
    ultimately show ?thesis
      using False answered_later [OF d(2)] only_freed_trans [OF d(2)] by (auto split: if_splits)
  qed
qed

text \<open>A terminus that answers a request at once, behind a message of another one.\<close>

type_synonym demo_world = "int \<times> (u8 \<times> u8 list) list"

definition demo_transport :: "demo_world pldm_transport" where
  "demo_transport =
     \<lparr>t_recv = (\<lambda>(c, q). case q of [] \<Rightarrow> ((PLDM_REQUESTER_RECV_FAIL, 0, [], 0), c + 1, q)
        | (tid, msg) # q \<Rightarrow> ((0, tid, msg, length msg), c + 1, q)),
      t_send = (\<lambda>tid bs n (c, q). (0, c, q @ [(8, [0, 0, 2, 0]), (tid, [0, 0, 2, 0])])),
      t_init_pollfd = Some (\<lambda>s. (0, s))\<rparr>"

text \<open>Its clock moves on when a message is received; readings in between repeat.\<close>

definition demo_host :: "demo_world host" where
  "demo_host =
     \<lparr>sys_poll = (\<lambda>timeout (c, q). (if q = [] then 0 else 1, c, q)),
      sys_clock = (\<lambda>(c, q). ((0, c div 1000000, c mod 1000000 * 1000), c, q))\<rparr>"

lemma demo_world_ok: "recv_ok demo_transport" "clock_ok demo_transport demo_host fst"
  by (auto simp: recv_ok_def clock_ok_def demo_transport_def demo_host_def split: list.splits)

lemma demo_round_time: "fst (round_end demo_transport demo_host timeout s) = fst s + 1"
  by (cases s) (simp add: round_end_def pldm_transport_poll_def demo_transport_def demo_host_def split: list.split)

lemma demo_time_passes: "time_passes demo_transport demo_host fst"
proof -
  have "{(s', s). (\<exists>timeout. s' = round_end demo_transport demo_host timeout s) \<and> fst s' = fst s} = {}"
    by (auto simp del: split_paired_All simp: demo_round_time dest!: arg_cong [of _ _ fst])
  then show ?thesis by (simp only: time_passes_def) (simp add: wf_def)
qed

theorem send_recv_gets_response_witness:
  "hdr_at [0x80, 0, 2] = Some (hdr_of_bytes 0x80 0 2) \<and>
   (\<exists>rc m' s'. pldm_transport_send_recv_msg (Some demo_transport) demo_host 9 [0x80, 0, 2] 3 True
      \<lparr>mem_objects = [], mem_resp = None, mem_len = 0\<rparr> (0, []) = Some (rc, m', s') \<and>
     (if rc = 0 then h_request (hdr_of_bytes 0x80 0 2) \<noteq> 0 \<and>
        answered demo_transport 9 (hdr_of_bytes 0x80 0 2) \<lparr>mem_objects = [], mem_resp = None, mem_len = 0\<rparr> m' s'
      else only_freed \<lparr>mem_objects = [], mem_resp = None, mem_len = 0\<rparr> m'))"
proof -
  have h: "hdr_at [0x80, 0, 2] = Some (hdr_of_bytes 0x80 0 2)" by (simp add: hdr_at_def)
  show ?thesis
    using h send_recv_gets_response [OF demo_world_ok(2) demo_time_passes demo_world_ok(1) _ h, of 3] by simp
qed

section \<open>Too many messages\<close>

text \<open>
  A transport that never runs out of messages takes the loop one round further than the test for
  it expects, so the request is sent; with exactly 8192 messages waiting the call gives up though
  all of them were dropped.
\<close>

lemma drain_flood:
  assumes busy: "\<And>s. fst (pldm_transport_poll (Some t) sys 0 s) = 1" and "cnt \<le> Suc DRAIN_MAX"
  shows "\<exists>m' s'. drain (Some t) sys cnt m s = Some (Suc DRAIN_MAX, m', s')"
  using assms(2)
proof (induction "Suc DRAIN_MAX - cnt" arbitrary: cnt m s)
  case 0
  then have "cnt = Suc DRAIN_MAX" by simp
  with drain_stops [of cnt t sys s m] show ?case by auto
next
  case (Suc n)
  then have "cnt \<le> DRAIN_MAX" by simp
  then obtain m1 s1 where "drain (Some t) sys cnt m s = drain (Some t) sys (Suc cnt) m1 s1"
    using drain_step [OF _ busy] by metis
  with Suc.hyps(1) [of "Suc cnt" m1 s1] Suc.hyps(2) \<open>cnt \<le> DRAIN_MAX\<close> show ?case by simp
qed

end
