(* ===== verification/Entity_Tree.thy ===== *)
theory Entity_Tree
  imports Pdr_Repo
begin

text \<open>
  The entity association tree and its encoding in the PDR repository, the second part of
  \<^verbatim>\<open>src/dsp/pdr.c\<close>. A node has a pointer to its first child and one to its next sibling; nodes
  live on an explicit heap, and a read through an address that holds no node is undefined
  (\<open>None\<close>), as is a failed assertion, a second \<open>free\<close> and a recursion that does not end.
\<close>

section \<open>Nodes\<close>

abbreviation (input) PLDM_ENTITY_ASSOCIAION_PHYSICAL :: u8 where "PLDM_ENTITY_ASSOCIAION_PHYSICAL \<equiv> 0"
abbreviation (input) PLDM_ENTITY_ASSOCIAION_LOGICAL :: u8 where "PLDM_ENTITY_ASSOCIAION_LOGICAL \<equiv> 1"
abbreviation (input) UINT16_MAX :: u16 where "UINT16_MAX \<equiv> 0xffff"

record pldm_entity =
  e_entity_type :: u16
  e_entity_instance_num :: u16
  e_entity_container_id :: u16

record pldm_entity_node =
  n_entity :: pldm_entity
  n_parent :: pldm_entity
  n_remote_container_id :: u16
  n_first_child :: "nat option"
  n_next_sibling :: "nat option"
  n_association_type :: u8

record pldm_entity_association_tree =
  t_root :: "nat option"
  t_last_used_container_id :: u16

type_synonym node_heap = "nat \<Rightarrow> pldm_entity_node option"

definition pldm_entity_extract :: "node_heap \<Rightarrow> nat option \<Rightarrow> pldm_entity option" where
  "pldm_entity_extract h node = do { a \<leftarrow> node; n \<leftarrow> h a; Some (n_entity n) }"

definition pldm_entity_node_get_remote_container_id :: "node_heap \<Rightarrow> nat option \<Rightarrow> u16 option" where
  "pldm_entity_node_get_remote_container_id h entity = do { a \<leftarrow> entity; n \<leftarrow> h a; Some (n_remote_container_id n) }"

definition pldm_entity_association_tree_init :: "bool \<Rightarrow> pldm_entity_association_tree option" where
  "pldm_entity_association_tree_init m = (if m then Some \<lparr>t_root = None, t_last_used_container_id = 0\<rparr> else None)"

section \<open>Adding\<close>

partial_function (option) find_insertion_at :: "node_heap \<Rightarrow> nat \<Rightarrow> u16 \<Rightarrow> nat option" where
  "find_insertion_at h start entity_type = do {
     n \<leftarrow> h start;
     case n_next_sibling n of
       None \<Rightarrow> Some start
     | Some b \<Rightarrow> do {
         nb \<leftarrow> h b;
         if e_entity_type (n_entity n) = entity_type \<and> e_entity_type (n_entity n) \<noteq> e_entity_type (n_entity nb)
         then Some start else find_insertion_at h b entity_type } }"

partial_function (option) current_child :: "node_heap \<Rightarrow> pldm_entity \<Rightarrow> nat option \<Rightarrow> bool option" where
  "current_child h node cur =
     (if cur = None then Some False
      else do {
        n \<leftarrow> h (the cur);
        if e_entity_type node = e_entity_type (n_entity n) \<and>
           e_entity_instance_num node = e_entity_instance_num (n_entity n)
        then Some True else current_child h node (n_next_sibling n) })"

definition pldm_is_current_parent_child :: "node_heap \<Rightarrow> nat option \<Rightarrow> pldm_entity option \<Rightarrow> bool option" where
  "pldm_is_current_parent_child h parent node =
     (case (parent, node) of
        (Some p, Some nd) \<Rightarrow> do { n \<leftarrow> h p; current_child h nd (n_first_child n) }
      | _ \<Rightarrow> Some False)"

text \<open>
  \<open>m\<close>: the address \<open>malloc\<close> returns. The results: the new node, the heap, the tree and the caller's
  entity, which gets the numbers that were chosen.
\<close>

definition link_node ::
    "node_heap \<Rightarrow> pldm_entity_association_tree \<Rightarrow> pldm_entity \<Rightarrow> u16 \<Rightarrow> nat option \<Rightarrow> bool \<Rightarrow> bool \<Rightarrow> u16 \<Rightarrow>
      nat \<Rightarrow> pldm_entity_node \<Rightarrow> (pldm_entity_node option \<times> node_heap \<times> pldm_entity_association_tree) option" where
  "link_node h tree entity entity_instance_number parent is_remote is_update_container_id container_id a node =
     (if t_root tree = None then
        if parent \<noteq> None then Some (None, h, tree)
        else
          let node = node\<lparr>n_entity := (n_entity node)\<lparr>e_entity_container_id := 0\<rparr>, n_remote_container_id := 0\<rparr>
          in Some (Some node, h(a \<mapsto> node), tree\<lparr>t_root := Some a\<rparr>)
      else do {
        first \<leftarrow> (case parent of None \<Rightarrow> Some None | Some p \<Rightarrow> do { pn \<leftarrow> h p; Some (n_first_child pn) });
        if parent \<noteq> None \<and> first = None then do {
          pn \<leftarrow> h (the parent);
          if t_last_used_container_id tree = UINT16_MAX then Some (None, h, tree)
          else
            let node = node\<lparr>n_parent := n_entity pn\<rparr>;
                node = (if is_remote then node\<lparr>n_remote_container_id := e_entity_container_id entity\<rparr> else node);
                tree' = (if is_update_container_id \<and> container_id = 0xffff
                         then tree\<lparr>t_last_used_container_id := t_last_used_container_id tree + 1\<rparr> else tree);
                cid = (if is_update_container_id
                       then if container_id \<noteq> 0xffff then container_id else t_last_used_container_id tree'
                       else e_entity_container_id entity);
                node = node\<lparr>n_entity := (n_entity node)\<lparr>e_entity_container_id := cid\<rparr>\<rparr>;
                node = (if \<not> is_remote then node\<lparr>n_remote_container_id := cid\<rparr> else node)
            in Some (Some node, h(a \<mapsto> node, the parent \<mapsto> pn\<lparr>n_first_child := Some a\<rparr>), tree') }
        else do {
          start \<leftarrow> (if parent = None then t_root tree else first);
          prev \<leftarrow> find_insertion_at h start (e_entity_type entity);
          np \<leftarrow> h prev;
          if e_entity_type (n_entity np) = e_entity_type entity \<and> e_entity_instance_num (n_entity np) = UINT16_MAX
          then Some (None, h, tree)
          else
            let inum = (if e_entity_type (n_entity np) = e_entity_type entity \<and> entity_instance_number = 0xffff
                        then e_entity_instance_num (n_entity np) + 1
                        else e_entity_instance_num (n_entity node));
                node = node\<lparr>n_entity := (n_entity node)\<lparr>e_entity_instance_num := inum,
                                e_entity_container_id := e_entity_container_id (n_entity np)\<rparr>,
                            n_parent := n_parent np, n_next_sibling := n_next_sibling np,
                            n_remote_container_id := e_entity_container_id entity\<rparr>
            in Some (Some node, h(a \<mapsto> node, prev \<mapsto> np\<lparr>n_next_sibling := Some a\<rparr>), tree) } })"

definition pldm_entity_association_tree_add_entity ::
    "node_heap \<Rightarrow> pldm_entity_association_tree option \<Rightarrow> pldm_entity option \<Rightarrow> u16 \<Rightarrow> nat option \<Rightarrow> u8 \<Rightarrow>
      bool \<Rightarrow> bool \<Rightarrow> u16 \<Rightarrow> nat option \<Rightarrow>
      (nat option \<times> node_heap \<times> pldm_entity_association_tree option \<times> pldm_entity option) option" where
  "pldm_entity_association_tree_add_entity h tree entity entity_instance_number parent association_type
     is_remote is_update_container_id container_id m =
     (case (tree, entity) of
        (Some t, Some e) \<Rightarrow> do {
          dup \<leftarrow> (if entity_instance_number \<noteq> 0xffff \<and> parent \<noteq> None
                  then pldm_is_current_parent_child h parent
                         (Some (e\<lparr>e_entity_instance_num := entity_instance_number\<rparr>))
                  else Some False);
          if dup then Some (None, h, tree, entity)
          else if association_type \<noteq> PLDM_ENTITY_ASSOCIAION_PHYSICAL \<and>
                  association_type \<noteq> PLDM_ENTITY_ASSOCIAION_LOGICAL then Some (None, h, tree, entity)
          else case m of
            None \<Rightarrow> Some (None, h, tree, entity)
          | Some a \<Rightarrow> do {
              (node, h, t) \<leftarrow> link_node h t e entity_instance_number parent is_remote is_update_container_id
                container_id a
                \<lparr>n_entity = \<lparr>e_entity_type = e_entity_type e,
                   e_entity_instance_num = (if entity_instance_number \<noteq> 0xffff then entity_instance_number else 1),
                   e_entity_container_id = 0\<rparr>,
                 n_parent = \<lparr>e_entity_type = 0, e_entity_instance_num = 0, e_entity_container_id = 0\<rparr>,
                 n_remote_container_id = 0, n_first_child = None, n_next_sibling = None,
                 n_association_type = association_type\<rparr>;
              Some (case node of
                  None \<Rightarrow> (None, h, Some t, entity)
                | Some nd \<Rightarrow>
                    (Some a, h, Some t, Some (e\<lparr>e_entity_instance_num := e_entity_instance_num (n_entity nd),
                       e_entity_container_id := (if is_update_container_id
                          then e_entity_container_id (n_entity nd) else e_entity_container_id e)\<rparr>))) } }
      | _ \<Rightarrow> Some (None, h, tree, entity))"

definition pldm_entity_association_tree_add ::
    "node_heap \<Rightarrow> pldm_entity_association_tree option \<Rightarrow> pldm_entity option \<Rightarrow> u16 \<Rightarrow> nat option \<Rightarrow> u8 \<Rightarrow>
      nat option \<Rightarrow> (nat option \<times> node_heap \<times> pldm_entity_association_tree option \<times> pldm_entity option) option" where
  "pldm_entity_association_tree_add h tree entity entity_instance_number parent association_type m =
     pldm_entity_association_tree_add_entity h tree entity entity_instance_number parent association_type
       False True 0xffff m"

section \<open>Walking the tree\<close>

text \<open>The recursions go to the next sibling before they go to the children.\<close>

partial_function (option) get_num_nodes :: "node_heap \<Rightarrow> nat option \<Rightarrow> nat \<Rightarrow> nat option" where
  "get_num_nodes h node num =
     (if node = None then Some num
      else do {
        n \<leftarrow> h (the node);
        num \<leftarrow> get_num_nodes h (n_next_sibling n) (num + 1);
        get_num_nodes h (n_first_child n) num })"

text \<open>\<open>entities\<close>: the array; a write behind its end is undefined.\<close>

partial_function (option) entity_association_tree_visit ::
    "node_heap \<Rightarrow> nat option \<Rightarrow> pldm_entity list \<times> nat \<Rightarrow> (pldm_entity list \<times> nat) option" where
  "entity_association_tree_visit h node st =
     (if node = None then Some st
      else do {
        n \<leftarrow> h (the node);
        st \<leftarrow> (if snd st < length (fst st) then Some ((fst st)[snd st := n_entity n], snd st + 1) else None);
        st \<leftarrow> entity_association_tree_visit h (n_next_sibling n) st;
        entity_association_tree_visit h (n_first_child n) st })"

text \<open>
  \<open>entities\<close> and \<open>sz\<close>: what the pointers lead to; \<open>m\<close>: the contents of the new array, if it could be
  allocated.
\<close>

definition pldm_entity_association_tree_visit ::
    "node_heap \<Rightarrow> pldm_entity_association_tree option \<Rightarrow> pldm_entity list option \<Rightarrow> nat \<Rightarrow>
      (nat \<Rightarrow> pldm_entity list option) \<Rightarrow> (pldm_entity list option \<times> nat) option" where
  "pldm_entity_association_tree_visit h tree entities sz m =
     (case tree of
        None \<Rightarrow> Some (entities, sz)
      | Some t \<Rightarrow>
          if t_root t = None then Some (entities, 0)
          else do {
            num \<leftarrow> get_num_nodes h (t_root t) 0;
            case m num of
              None \<Rightarrow> Some (None, 0)
            | Some es \<Rightarrow> do {
                (es, _) \<leftarrow> entity_association_tree_visit h (t_root t) (es, 0);
                Some (Some es, num) } })"

partial_function (option) entity_association_tree_destroy :: "node_heap \<Rightarrow> nat option \<Rightarrow> node_heap option" where
  "entity_association_tree_destroy h node =
     (if node = None then Some h
      else do {
        n \<leftarrow> h (the node);
        h \<leftarrow> entity_association_tree_destroy h (n_next_sibling n);
        n \<leftarrow> h (the node);
        h \<leftarrow> entity_association_tree_destroy h (n_first_child n);
        n \<leftarrow> h (the node);
        Some (h(the node := None)) })"

definition pldm_entity_association_tree_destroy ::
    "node_heap \<Rightarrow> pldm_entity_association_tree option \<Rightarrow> node_heap option" where
  "pldm_entity_association_tree_destroy h tree =
     (case tree of None \<Rightarrow> Some h | Some t \<Rightarrow> entity_association_tree_destroy h (t_root t))"

definition pldm_entity_association_tree_destroy_root ::
    "node_heap \<Rightarrow> pldm_entity_association_tree option \<Rightarrow> (node_heap \<times> pldm_entity_association_tree option) option" where
  "pldm_entity_association_tree_destroy_root h tree =
     (case tree of
        None \<Rightarrow> Some (h, None)
      | Some t \<Rightarrow> do {
          h \<leftarrow> entity_association_tree_destroy h (t_root t);
          Some (h, Some (t\<lparr>t_last_used_container_id := 0, t_root := None\<rparr>)) })"

definition pldm_is_empty_entity_assoc_tree :: "pldm_entity_association_tree \<Rightarrow> bool" where
  "pldm_is_empty_entity_assoc_tree tree \<longleftrightarrow> t_root tree = None"

section \<open>Questions about a node\<close>

definition pldm_entity_is_node_parent :: "node_heap \<Rightarrow> nat option \<Rightarrow> bool option" where
  "pldm_entity_is_node_parent h node = do { a \<leftarrow> node; n \<leftarrow> h a; Some (n_first_child n \<noteq> None) }"

definition pldm_entity_get_parent :: "node_heap \<Rightarrow> nat option \<Rightarrow> pldm_entity option" where
  "pldm_entity_get_parent h node = do { a \<leftarrow> node; n \<leftarrow> h a; Some (n_parent n) }"

definition pldm_entity_is_exist_parent :: "node_heap \<Rightarrow> nat option \<Rightarrow> bool option" where
  "pldm_entity_is_exist_parent h node =
     (case node of
        None \<Rightarrow> Some False
      | Some a \<Rightarrow> do {
          n \<leftarrow> h a;
          Some (\<not> (e_entity_type (n_parent n) = 0 \<and> e_entity_instance_num (n_parent n) = 0 \<and>
                   e_entity_container_id (n_parent n) = 0)) })"

partial_function (option) count_children :: "node_heap \<Rightarrow> u8 \<Rightarrow> nat option \<Rightarrow> nat \<Rightarrow> nat option" where
  "count_children h association_type cur count =
     (if cur = None then Some count
      else do {
        n \<leftarrow> h (the cur);
        count_children h association_type (n_next_sibling n)
          (if n_association_type n = association_type then count + 1 else count) })"

definition pldm_entity_get_num_children :: "node_heap \<Rightarrow> nat option \<Rightarrow> u8 \<Rightarrow> u8 option" where
  "pldm_entity_get_num_children h node association_type =
     (case node of
        None \<Rightarrow> Some 0
      | Some a \<Rightarrow>
          if \<not> (association_type = PLDM_ENTITY_ASSOCIAION_PHYSICAL \<or>
                association_type = PLDM_ENTITY_ASSOCIAION_LOGICAL) then Some 0
          else do {
            n \<leftarrow> h a;
            count \<leftarrow> count_children h association_type (n_first_child n) 0;
            if count < 255 then Some (of_nat count) else None })"

section \<open>Finding\<close>

text \<open>The recursion goes on after a match, so a later match replaces an earlier one.\<close>

partial_function (option) find_entity_ref_in_tree ::
    "node_heap \<Rightarrow> nat option \<Rightarrow> pldm_entity \<Rightarrow> nat option \<Rightarrow> nat option option" where
  "find_entity_ref_in_tree h tree_node entity node =
     (if tree_node = None then Some node
      else do {
        n \<leftarrow> h (the tree_node);
        if n_entity n = entity then Some tree_node
        else do {
          node \<leftarrow> find_entity_ref_in_tree h (n_first_child n) entity node;
          find_entity_ref_in_tree h (n_next_sibling n) entity node } })"

definition pldm_find_entity_ref_in_tree ::
    "node_heap \<Rightarrow> pldm_entity_association_tree option \<Rightarrow> pldm_entity \<Rightarrow> nat option \<Rightarrow> nat option option" where
  "pldm_find_entity_ref_in_tree h tree entity node =
     (case tree of None \<Rightarrow> Some node | Some t \<Rightarrow> find_entity_ref_in_tree h (t_root t) entity node)"

partial_function (option) entity_association_tree_find_if_remote ::
    "node_heap \<Rightarrow> nat option \<Rightarrow> bool \<Rightarrow> pldm_entity \<times> nat option \<Rightarrow> (pldm_entity \<times> nat option) option" where
  "entity_association_tree_find_if_remote h node is_remote st =
     (if node = None then Some st
      else do {
        n \<leftarrow> h (the node);
        let e = fst st;
        if (\<not> is_remote \<or> n_remote_container_id n = e_entity_container_id e) \<and>
           e_entity_type (n_entity n) = e_entity_type e \<and>
           e_entity_instance_num (n_entity n) = e_entity_instance_num e
        then Some (e\<lparr>e_entity_container_id := e_entity_container_id (n_entity n)\<rparr>, node)
        else do {
          st \<leftarrow> entity_association_tree_find_if_remote h (n_next_sibling n) is_remote st;
          entity_association_tree_find_if_remote h (n_first_child n) is_remote st } })"

definition pldm_entity_association_tree_find_with_locality ::
    "node_heap \<Rightarrow> pldm_entity_association_tree option \<Rightarrow> pldm_entity option \<Rightarrow> bool \<Rightarrow>
      (pldm_entity option \<times> nat option) option" where
  "pldm_entity_association_tree_find_with_locality h tree entity is_remote =
     (case (tree, entity) of
        (Some t, Some e) \<Rightarrow> do {
          (e, node) \<leftarrow> entity_association_tree_find_if_remote h (t_root t) is_remote (e, None);
          Some (Some e, node) }
      | _ \<Rightarrow> Some (entity, None))"

partial_function (option) entity_association_tree_find ::
    "node_heap \<Rightarrow> nat option \<Rightarrow> pldm_entity \<times> nat option \<Rightarrow> (pldm_entity \<times> nat option) option" where
  "entity_association_tree_find h node st =
     (if node = None then Some st
      else do {
        n \<leftarrow> h (the node);
        let e = fst st;
        if e_entity_type (n_entity n) = e_entity_type e \<and>
           e_entity_instance_num (n_entity n) = e_entity_instance_num e
        then Some (e\<lparr>e_entity_container_id := e_entity_container_id (n_entity n)\<rparr>, node)
        else do {
          st \<leftarrow> entity_association_tree_find h (n_next_sibling n) st;
          entity_association_tree_find h (n_first_child n) st } })"

definition pldm_entity_association_tree_find ::
    "node_heap \<Rightarrow> pldm_entity_association_tree option \<Rightarrow> pldm_entity option \<Rightarrow>
      (pldm_entity option \<times> nat option) option" where
  "pldm_entity_association_tree_find h tree entity =
     (case (tree, entity) of
        (Some t, Some e) \<Rightarrow> do {
          (e, node) \<leftarrow> entity_association_tree_find h (t_root t) (e, None);
          Some (Some e, node) }
      | _ \<Rightarrow> Some (entity, None))"

section \<open>Copying and deleting\<close>

text \<open>\<open>alloc\<close>: what \<open>malloc\<close> returns for a heap. The results: return value, the copy and the heap.\<close>

partial_function (option) entity_association_tree_copy ::
    "(node_heap \<Rightarrow> nat option) \<Rightarrow> node_heap \<Rightarrow> nat option \<Rightarrow> (int \<times> nat option \<times> node_heap) option" where
  "entity_association_tree_copy alloc h org_node =
     (if org_node = None then Some (0, None, h)
      else do {
        n \<leftarrow> h (the org_node);
        case alloc h of
          None \<Rightarrow> Some (- ENOMEM, None, h)
        | Some a \<Rightarrow> do {
            let h = h(a \<mapsto> n\<lparr>n_first_child := None, n_next_sibling := None\<rparr>);
            (rc, child, h) \<leftarrow> entity_association_tree_copy alloc h (n_first_child n);
            if rc \<noteq> 0 then Some (rc, None, h(a := None))
            else do {
              na \<leftarrow> h a;
              let h = h(a \<mapsto> na\<lparr>n_first_child := child\<rparr>);
              (rc, sibling, h) \<leftarrow> entity_association_tree_copy alloc h (n_next_sibling n);
              if rc \<noteq> 0 then do {
                h \<leftarrow> entity_association_tree_destroy h child;
                Some (rc, None, h(a := None)) }
              else do {
                na \<leftarrow> h a;
                Some (0, Some a, h(a \<mapsto> na\<lparr>n_next_sibling := sibling\<rparr>)) } } } })"

definition pldm_entity_association_tree_copy_root ::
    "(node_heap \<Rightarrow> nat option) \<Rightarrow> node_heap \<Rightarrow> pldm_entity_association_tree \<Rightarrow> pldm_entity_association_tree \<Rightarrow>
      (pldm_entity_association_tree \<times> node_heap) option" where
  "pldm_entity_association_tree_copy_root alloc h org_tree new_tree = do {
     (rc, root, h) \<leftarrow> entity_association_tree_copy alloc h (t_root org_tree);
     Some (new_tree\<lparr>t_last_used_container_id := t_last_used_container_id org_tree,
                    t_root := (if t_root org_tree = None then t_root new_tree else root)\<rparr>, h) }"

definition pldm_entity_association_tree_copy_root_check ::
    "(node_heap \<Rightarrow> nat option) \<Rightarrow> node_heap \<Rightarrow> pldm_entity_association_tree option \<Rightarrow>
      pldm_entity_association_tree option \<Rightarrow> (int \<times> pldm_entity_association_tree option \<times> node_heap) option" where
  "pldm_entity_association_tree_copy_root_check alloc h org_tree new_tree =
     (case (org_tree, new_tree) of
        (Some org, Some new) \<Rightarrow> do {
          (rc, root, h) \<leftarrow> entity_association_tree_copy alloc h (t_root org);
          Some (rc, Some (new\<lparr>t_last_used_container_id := t_last_used_container_id org,
                              t_root := (if t_root org = None then t_root new else root)\<rparr>), h) }
      | _ \<Rightarrow> Some (- EINVAL, new_tree, h))"

definition pldm_entity_cmp :: "pldm_entity \<Rightarrow> pldm_entity \<Rightarrow> bool" where
  "pldm_entity_cmp l r \<longleftrightarrow>
     e_entity_type l = e_entity_type r \<and> e_entity_instance_num l = e_entity_instance_num r \<and>
     e_entity_container_id l = e_entity_container_id r"

text \<open>\<open>node\<close>: the node that is destroyed once its predecessor leads past it.\<close>

partial_function (option) delete_loop ::
    "node_heap \<Rightarrow> pldm_entity \<Rightarrow> nat \<Rightarrow> nat \<Rightarrow> nat option \<Rightarrow> nat option \<Rightarrow> node_heap option" where
  "delete_loop h entity node parent prev cur =
     (if cur = None then Some h
      else do {
        n \<leftarrow> h (the cur);
        if pldm_entity_cmp entity (n_entity n) then do {
          pn \<leftarrow> h parent;
          h \<leftarrow> (if cur = n_first_child pn then Some (h(parent \<mapsto> pn\<lparr>n_first_child := n_next_sibling n\<rparr>))
                else case prev of
                  None \<Rightarrow> Some h
                | Some p \<Rightarrow> do { np \<leftarrow> h p; Some (h(p \<mapsto> np\<lparr>n_next_sibling := n_next_sibling n\<rparr>)) });
          n \<leftarrow> h (the cur);
          entity_association_tree_destroy (h(the cur \<mapsto> n\<lparr>n_next_sibling := None\<rparr>)) (Some node) }
        else delete_loop h entity node parent cur (n_next_sibling n) })"

definition pldm_entity_association_tree_delete_node ::
    "node_heap \<Rightarrow> pldm_entity_association_tree option \<Rightarrow> pldm_entity option \<Rightarrow> (int \<times> node_heap) option" where
  "pldm_entity_association_tree_delete_node h tree entity =
     (case (tree, entity) of
        (Some t, Some e) \<Rightarrow> do {
          node \<leftarrow> pldm_find_entity_ref_in_tree h tree e None;
          case node of
            None \<Rightarrow> Some (- ENOENT, h)
          | Some a \<Rightarrow> do {
              n \<leftarrow> h a;
              parent \<leftarrow> pldm_find_entity_ref_in_tree h tree (n_parent n) None;
              case parent of
                None \<Rightarrow> Some (- ENOENT, h)
              | Some p \<Rightarrow> do {
                  pn \<leftarrow> h p;
                  h \<leftarrow> delete_loop h e a p None (n_first_child pn);
                  Some (0, h) } } }
      | _ \<Rightarrow> Some (- EINVAL, h))"

section \<open>Entity association PDRs\<close>

text \<open>An entity on the wire, and the children of a node that go into a PDR.\<close>

definition entity_bytes :: "pldm_entity \<Rightarrow> u8 list" where
  "entity_bytes e =
     le_of_word (e_entity_type e) @ le_of_word (e_entity_instance_num e) @ le_of_word (e_entity_container_id e)"

text \<open>
  The loop that writes the children; the object has a size fixed before, and a write behind its
  end is undefined.
\<close>

partial_function (option) write_children ::
    "node_heap \<Rightarrow> u8 \<Rightarrow> nat option \<Rightarrow> u8 list \<times> nat \<Rightarrow> (u8 list \<times> nat) option" where
  "write_children h association_type node st =
     (if node = None then Some st
      else do {
        n \<leftarrow> h (the node);
        st \<leftarrow> (if n_association_type n = association_type
               then if snd st + 6 \<le> length (fst st)
                    then Some (poke (fst st) (snd st) (entity_bytes (n_entity n)), snd st + 6) else None
               else Some st);
        write_children h association_type (n_next_sibling n) st })"

text \<open>
  \<open>ma\<close>: the allocations of one call: the buffer (whether there is one), and the record and its data
  that \<open>pldm_pdr_add\<close> needs. The result is the record handle that was used, or an error.
\<close>

record pdr_alloc =
  pa_buffer :: bool
  pa_record :: "nat option"
  pa_data :: "nat option"

definition entity_association_pdr_add_children ::
    "node_heap \<Rightarrow> nat \<Rightarrow> pdr_heap \<Rightarrow> pldm_pdr \<Rightarrow> u16 \<Rightarrow> u8 \<Rightarrow> u8 \<Rightarrow> bool \<Rightarrow> u16 \<Rightarrow> u32 \<Rightarrow> pdr_alloc \<Rightarrow>
      (int \<times> pdr_heap \<times> pldm_pdr) option" where
  "entity_association_pdr_add_children h c ph repo sz contained_count association_type is_remote
     terminus_handle record_handle ma =
     (if \<not> pa_buffer ma then Some (- ENOMEM, ph, repo)
      else do {
        n \<leftarrow> h c;
        fc \<leftarrow> n_first_child n;
        fn \<leftarrow> h fc;
        let prefix = le_of_word record_handle @ [1, PLDM_PDR_ENTITY_ASSOCIATION] @ le_of_word (0 :: u16) @
              le_of_word (sz - 10) @ le_of_word (e_entity_container_id (n_entity fn)) @ [association_type] @
              entity_bytes (n_entity n) @ [contained_count];
        if unat sz < length prefix then None
        else do {
          (pdr, _) \<leftarrow> write_children h association_type (Some fc)
             (poke (replicate (unat sz) 0) 0 prefix, length prefix);
          (rc, ph, repo', rh) \<leftarrow> pldm_pdr_add ph (Some repo) (Some pdr) (ucast sz) is_remote terminus_handle
             (Some record_handle) (pa_record ma) (pa_data ma);
          rp \<leftarrow> repo';
          k \<leftarrow> rh;
          Some (if rc < 0 then rc else int (unat k), ph, rp) } })"

text \<open>
  \<open>ms\<close>: the allocations of all calls, by a function on the repository's heap. Sizes fit their sixteen
  bits: a node has at most 254 children of a kind.
\<close>

definition entity_association_pdr_add_entry ::
    "node_heap \<Rightarrow> nat \<Rightarrow> pdr_heap \<Rightarrow> pldm_pdr \<Rightarrow> bool \<Rightarrow> u16 \<Rightarrow> u32 \<Rightarrow> (pdr_heap \<Rightarrow> pdr_alloc) \<Rightarrow>
      (int \<times> pdr_heap \<times> pldm_pdr) option" where
  "entity_association_pdr_add_entry h c ph repo is_remote terminus_handle record_handle ms = do {
     num_logical_children \<leftarrow> pldm_entity_get_num_children h (Some c) PLDM_ENTITY_ASSOCIAION_LOGICAL;
     num_physical_children \<leftarrow> pldm_entity_get_num_children h (Some c) PLDM_ENTITY_ASSOCIAION_PHYSICAL;
     if num_logical_children = 0 \<and> num_physical_children = 0 then
       Some (if record_handle = 0 then - EINVAL else int (unat (record_handle - 1)), ph, repo)
     else do {
       (rc, rh, ph, repo) \<leftarrow>
         (if num_logical_children \<noteq> 0 then do {
            (rc, ph, repo) \<leftarrow> entity_association_pdr_add_children h c ph repo
               (20 + ucast num_logical_children * 6) num_logical_children PLDM_ENTITY_ASSOCIAION_LOGICAL
               is_remote terminus_handle record_handle (ms ph);
            Some (if rc < 0 then (rc, record_handle, ph, repo)
                  else if num_physical_children \<noteq> 0 then
                    if rc \<ge> 2 ^ 32 - 1 then (- EOVERFLOW, record_handle, ph, repo)
                    else (0, of_int rc + 1, ph, repo)
                  else (0, record_handle, ph, repo)) }
          else Some (0, record_handle, ph, repo));
       if rc < 0 then Some (rc, ph, repo)
       else if num_physical_children \<noteq> 0 then
         entity_association_pdr_add_children h c ph repo
           (20 + ucast num_physical_children * 6) num_physical_children PLDM_ENTITY_ASSOCIAION_PHYSICAL
           is_remote terminus_handle rh (ms ph)
       else Some (int (unat rh), ph, repo) } }"

text \<open>\<open>entities\<close>: the array, if the pointer is not NULL.\<close>

definition is_present :: "pldm_entity \<Rightarrow> pldm_entity list option \<Rightarrow> nat \<Rightarrow> bool option" where
  "is_present entity entities num_entities =
     (case entities of
        None \<Rightarrow> Some True
      | Some es \<Rightarrow>
          if num_entities = 0 then Some True
          else if (\<exists>e\<in>set (take num_entities es). e_entity_type e = e_entity_type entity) then Some True
          else if num_entities \<le> length es then Some False else None)"

partial_function (option) entity_association_pdr_add ::
    "node_heap \<Rightarrow> nat option \<Rightarrow> pdr_heap \<Rightarrow> pldm_pdr \<Rightarrow> pldm_entity list option \<Rightarrow> nat \<Rightarrow> bool \<Rightarrow> u16 \<Rightarrow> u32 \<Rightarrow>
      (pdr_heap \<Rightarrow> pdr_alloc) \<Rightarrow> (int \<times> pdr_heap \<times> pldm_pdr) option" where
  "entity_association_pdr_add h c ph repo entities num_entities is_remote terminus_handle record_handle ms =
     (if c = None then Some (int (unat record_handle), ph, repo)
      else do {
        n \<leftarrow> h (the c);
        present \<leftarrow> is_present (n_entity n) entities num_entities;
        (rc, rh, ph, repo) \<leftarrow>
          (if present then do {
             (rc, ph, repo) \<leftarrow> entity_association_pdr_add_entry h (the c) ph repo is_remote terminus_handle
                record_handle ms;
             Some (if rc < 0 then (rc, record_handle, ph, repo)
                   else if rc \<ge> 2 ^ 32 - 1 then (- EOVERFLOW, record_handle, ph, repo)
                   else (0, of_int rc + 1, ph, repo)) }
           else Some (0, record_handle, ph, repo));
        if rc < 0 then Some (rc, ph, repo)
        else do {
          (rc, ph, repo) \<leftarrow> entity_association_pdr_add h (n_next_sibling n) ph repo entities num_entities
             is_remote terminus_handle rh ms;
          if rc < 0 then Some (rc, ph, repo)
          else if int (unat rh) \<noteq> rc \<and> rc \<ge> 2 ^ 32 - 1 then Some (- EOVERFLOW, ph, repo)
          else entity_association_pdr_add h (n_first_child n) ph repo entities num_entities is_remote
             terminus_handle (if int (unat rh) \<noteq> rc then of_int rc + 1 else rh) ms } })"

definition pldm_entity_association_pdr_add ::
    "node_heap \<Rightarrow> pldm_entity_association_tree option \<Rightarrow> pdr_heap \<Rightarrow> pldm_pdr option \<Rightarrow> bool \<Rightarrow> u16 \<Rightarrow>
      (pdr_heap \<Rightarrow> pdr_alloc) \<Rightarrow> (int \<times> pdr_heap \<times> pldm_pdr option) option" where
  "pldm_entity_association_pdr_add h tree ph repo is_remote terminus_handle ms =
     (case (tree, repo) of
        (Some t, Some rp) \<Rightarrow> do {
          (rc, ph, rp) \<leftarrow> entity_association_pdr_add h (t_root t) ph rp None 0 is_remote terminus_handle 0 ms;
          Some (if rc < 0 then rc else 0, ph, Some rp) }
      | _ \<Rightarrow> Some (0, ph, repo))"

definition pldm_entity_association_pdr_add_from_node_with_record_handle ::
    "node_heap \<Rightarrow> nat option \<Rightarrow> pdr_heap \<Rightarrow> pldm_pdr option \<Rightarrow> pldm_entity list option \<Rightarrow> nat \<Rightarrow> bool \<Rightarrow> u16 \<Rightarrow>
      u32 \<Rightarrow> (pdr_heap \<Rightarrow> pdr_alloc) \<Rightarrow> (int \<times> pdr_heap \<times> pldm_pdr option) option" where
  "pldm_entity_association_pdr_add_from_node_with_record_handle h node ph repo entities num_entities is_remote
     terminus_handle record_handle ms =
     (case (node, repo, entities) of
        (Some _, Some rp, Some _) \<Rightarrow> do {
          (rc, ph, rp) \<leftarrow> entity_association_pdr_add h node ph rp entities num_entities is_remote
             terminus_handle record_handle ms;
          Some (if rc < 0 then rc else 0, ph, Some rp) }
      | _ \<Rightarrow> Some (- EINVAL, ph, repo))"

definition pldm_entity_association_pdr_add_from_node ::
    "node_heap \<Rightarrow> nat option \<Rightarrow> pdr_heap \<Rightarrow> pldm_pdr option \<Rightarrow> pldm_entity list option \<Rightarrow> nat \<Rightarrow> bool \<Rightarrow> u16 \<Rightarrow>
      (pdr_heap \<Rightarrow> pdr_alloc) \<Rightarrow> (int \<times> pdr_heap \<times> pldm_pdr option) option" where
  "pldm_entity_association_pdr_add_from_node h node ph repo entities num_entities is_remote terminus_handle ms =
     pldm_entity_association_pdr_add_from_node_with_record_handle h node ph repo entities num_entities
       is_remote terminus_handle 0 ms"

text \<open>
  \<open>pldm_entity_association_pdr_extract\<close>: \<open>a\<close> and \<open>bs\<close> are the address and the bytes of the PDR; \<open>m\<close> is
  whether the array can be allocated. The result is what the out-pointers lead to: the entities, if
  they are written.
\<close>

definition entity_of_bytes :: "u8 list \<Rightarrow> nat \<Rightarrow> pldm_entity" where
  "entity_of_bytes bs off =
     \<lparr>e_entity_type = word_of_le (bytes_at bs off 2), e_entity_instance_num = word_of_le (bytes_at bs (off + 2) 2),
      e_entity_container_id = word_of_le (bytes_at bs (off + 4) 2)\<rparr>"

definition pldm_entity_association_pdr_extract ::
    "nat \<Rightarrow> u8 list option \<Rightarrow> u16 \<Rightarrow> bool \<Rightarrow> pldm_entity list option option" where
  "pldm_entity_association_pdr_extract a pdr pdr_len m =
     (case pdr of
        None \<Rightarrow> Some None
      | Some bs \<Rightarrow>
          if unat pdr_len < 26 then Some None
          else do {
            hdr_type \<leftarrow> field HDR_TYPE (Some (a, bs));
            hdr_length \<leftarrow> field 8 (Some (a, bs));
            if hdr_type \<noteq> PLDM_PDR_ENTITY_ASSOCIATION then Some None
            else if UINTPTR_MAX - a < 10 + unat (hdr_length :: u16) then Some None
            else if unat pdr_len < 10 + unat hdr_length then Some None
            else if unat hdr_length < 16 then Some None
            else do {
              num_children \<leftarrow> field 19 (Some (a, bs));
              let l_num_entities = unat (num_children :: u8);
              if l_num_entities = 0 then Some None
              else if (unat pdr_len - 20) div 6 < l_num_entities then Some None
              else if l_num_entities \<ge> 255 then Some None
              else if \<not> m then Some None
              else if 20 + 6 * l_num_entities \<le> length bs
              then Some (Some (entity_of_bytes bs 13 # map (\<lambda>i. entity_of_bytes bs (20 + 6 * i)) [0..<l_num_entities]))
              else None } })"

end
