(* ===== verification/Entity_Tree_Laws.thy ===== *)
theory Entity_Tree_Laws
  imports Entity_Tree "HOL-Library.Multiset"
begin

text \<open>
  The entity association tree as a data type. An abstract tree has at each node its address and
  the node itself, the tree of its children and that of its further siblings; \<open>tree_ok\<close> says
  that a heap holds it. The lemmas give the effect of the operations on it, and the invariant
  shows that a tree built with automatic numbers never holds the same entity twice.
\<close>

section \<open>Trees on the heap\<close>

datatype etree = Tip | Node nat pldm_entity_node etree etree

fun addr :: "etree \<Rightarrow> nat option" where
  "addr Tip = None"
| "addr (Node a n c s) = Some a"

fun nodes :: "etree \<Rightarrow> (nat \<times> pldm_entity_node) list" where
  "nodes Tip = []"
| "nodes (Node a n c s) = (a, n) # nodes c @ nodes s"

fun linked :: "etree \<Rightarrow> bool" where
  "linked Tip \<longleftrightarrow> True"
| "linked (Node a n c s) \<longleftrightarrow>
     n_first_child n = addr c \<and> n_next_sibling n = addr s \<and> linked c \<and> linked s"

fun addrs :: "etree \<Rightarrow> nat set" where
  "addrs Tip = {}"
| "addrs (Node a n c s) = insert a (addrs c \<union> addrs s)"

lemma addrs_nodes: "addrs t = fst ` set (nodes t)"
  by (induction t) auto

definition tree_ok :: "node_heap \<Rightarrow> etree \<Rightarrow> bool" where
  "tree_ok h t \<longleftrightarrow> (\<forall>(a, n)\<in>set (nodes t). h a = Some n) \<and> distinct (map fst (nodes t)) \<and> linked t"

lemma tree_ok_Tip [simp]: "tree_ok h Tip"
  by (simp add: tree_ok_def)

lemma tree_ok_Node:
  "tree_ok h (Node a n c s) \<longleftrightarrow>
     h a = Some n \<and> n_first_child n = addr c \<and> n_next_sibling n = addr s \<and> tree_ok h c \<and> tree_ok h s \<and>
     a \<notin> addrs c \<and> a \<notin> addrs s \<and> addrs c \<inter> addrs s = {}"
  by (auto simp: tree_ok_def addrs_nodes)

lemma tree_ok_heap: "tree_ok h t \<Longrightarrow> (a, n) \<in> set (nodes t) \<Longrightarrow> h a = Some n"
  by (auto simp: tree_ok_def)

lemma tree_ok_cong: "(\<And>a. a \<in> addrs t \<Longrightarrow> h' a = h a) \<Longrightarrow> tree_ok h' t = tree_ok h t"
  by (force simp: tree_ok_def addrs_nodes)

lemma tree_ok_other [simp]: "a \<notin> addrs t \<Longrightarrow> tree_ok (h(a := v)) t = tree_ok h t"
  by (rule tree_ok_cong) auto

lemma addr_in: "addr t = Some a \<Longrightarrow> a \<in> addrs t"
  by (cases t) auto

section \<open>Placing a sibling\<close>

fun stops :: "u16 \<Rightarrow> pldm_entity_node \<Rightarrow> etree \<Rightarrow> bool" where
  "stops ty n Tip \<longleftrightarrow> True"
| "stops ty n (Node _ n' _ _) \<longleftrightarrow>
     e_entity_type (n_entity n) = ty \<and> e_entity_type (n_entity n) \<noteq> e_entity_type (n_entity n')"

fun insertion_point :: "u16 \<Rightarrow> etree \<Rightarrow> nat \<times> pldm_entity_node" where
  "insertion_point ty (Node b n c s) = (if stops ty n s then (b, n) else insertion_point ty s)"
| "insertion_point ty Tip = undefined"

fun place :: "u16 \<Rightarrow> nat \<Rightarrow> (pldm_entity_node \<Rightarrow> pldm_entity_node) \<Rightarrow> etree \<Rightarrow> etree" where
  "place ty a mk (Node b n c s) =
     (if stops ty n s then Node b (n\<lparr>n_next_sibling := Some a\<rparr>) c (Node a (mk n) Tip s)
      else Node b n c (place ty a mk s))"
| "place ty a mk Tip = Tip"

lemma find_insertion_at_tree:
  "tree_ok h t \<Longrightarrow> addr t = Some b \<Longrightarrow> find_insertion_at h b ty = Some (fst (insertion_point ty t))"
proof (induction t arbitrary: b)
  case (Node a n c s)
  show ?case
  proof (cases s)
    case Tip
    then show ?thesis using Node.prems by (subst find_insertion_at.simps) (simp add: tree_ok_Node)
  next
    case (Node a' n' c' s')
    then have "find_insertion_at h a' ty = Some (fst (insertion_point ty s))"
      using Node.prems Node.IH(2) [of a'] by (simp add: tree_ok_Node)
    then show ?thesis using Node.prems Node
      by (subst find_insertion_at.simps, cases "stops ty n s")
        (auto simp: tree_ok_Node simp del: insertion_point.simps, simp_all)
  qed
qed simp

lemma insertion_point_in: "t \<noteq> Tip \<Longrightarrow> insertion_point ty t \<in> set (nodes t)"
proof (induction t)
  case (Node a n c s)
  then show ?case by (cases s) auto
qed simp

lemma place_addr [simp]: "addr (place ty a mk t) = addr t"
  by (cases t) auto

lemma place_addrs: "t \<noteq> Tip \<Longrightarrow> addrs (place ty a mk t) = insert a (addrs t)"
proof (induction t)
  case (Node b n c s)
  then show ?case by (cases s) auto
qed simp

lemma place_ok:
  assumes "tree_ok h t" "t \<noteq> Tip" "a \<notin> addrs t" "insertion_point ty t = (p, np)"
    and new: "n_first_child (mk np) = None" "n_next_sibling (mk np) = n_next_sibling np"
    and h': "h' a = Some (mk np)" "h' p = Some (np\<lparr>n_next_sibling := Some a\<rparr>)"
      "\<And>b. b \<noteq> a \<Longrightarrow> b \<noteq> p \<Longrightarrow> h' b = h b"
  shows "tree_ok h' (place ty a mk t)"
  using assms(1-4)
proof (induction t)
  case (Node b n c s)
  show ?case
  proof (cases "stops ty n s")
    case True
    then have "b = p" "n = np" using Node.prems(4) by simp_all
    moreover have "tree_ok h' c = tree_ok h c" "tree_ok h' s = tree_ok h s"
      using Node.prems(1,3) h'(3) \<open>b = p\<close> by (intro tree_ok_cong; force simp: tree_ok_Node)+
    ultimately show ?thesis using True Node.prems(1,3) new h'(1,2) by (auto simp: tree_ok_Node)
  next
    case False
    then have s: "s \<noteq> Tip" by (cases s) auto
    have ip: "insertion_point ty s = (p, np)" using False Node.prems(4) by simp
    have p: "p \<in> addrs s" using insertion_point_in [OF s, of ty] ip by (force simp: addrs_nodes)
    have rest: "tree_ok h' (place ty a mk s)"
      using Node.IH(2) [OF _ s _ ip] Node.prems(1,3) by (auto simp: tree_ok_Node)
    have "tree_ok h' c = tree_ok h c"
      using Node.prems(1,3) h'(3) p by (intro tree_ok_cong) (force simp: tree_ok_Node)
    then show ?thesis
      using False Node.prems(1,3) p rest h'(3) [of b] place_addrs [OF s, of ty a mk] by (auto simp: tree_ok_Node)
  qed
qed simp

section \<open>Changing the children of a node\<close>

fun at_node :: "nat \<Rightarrow> (pldm_entity_node \<Rightarrow> pldm_entity_node) \<Rightarrow> (etree \<Rightarrow> etree) \<Rightarrow> etree \<Rightarrow> etree" where
  "at_node p g f Tip = Tip"
| "at_node p g f (Node b n c s) =
     (if b = p then Node b (g n) (f c) s else Node b n (at_node p g f c) (at_node p g f s))"

fun subtree :: "nat \<Rightarrow> etree \<Rightarrow> (pldm_entity_node \<times> etree) option" where
  "subtree p Tip = None"
| "subtree p (Node b n c s) =
     (if b = p then Some (n, c) else case subtree p c of Some x \<Rightarrow> Some x | None \<Rightarrow> subtree p s)"

lemma at_node_addr [simp]: "addr (at_node p g f t) = addr t"
  by (cases t) auto

lemma at_node_absent: "p \<notin> addrs t \<Longrightarrow> at_node p g f t = t"
  by (induction t) auto

lemma subtree_None: "subtree p t = None \<longleftrightarrow> p \<notin> addrs t"
  by (induction t) (auto split: option.splits)

lemma subtree_ok:
  "tree_ok h t \<Longrightarrow> subtree p t = Some (n, c) \<Longrightarrow>
     h p = Some n \<and> n_first_child n = addr c \<and> tree_ok h c \<and> addrs c \<subseteq> addrs t \<and> p \<notin> addrs c"
  by (induction t) (auto simp: tree_ok_Node split: if_splits option.splits)

lemma subtree_Node_cases:
  assumes "subtree p (Node b m d s) = Some (n, c)" "distinct (map fst (nodes (Node b m d s)))"
  obtains (here) "b = p" "m = n" "d = c"
  | (child) "b \<noteq> p" "subtree p d = Some (n, c)" "p \<in> addrs d" "p \<notin> addrs s" "at_node p g f s = s"
  | (sib) "b \<noteq> p" "subtree p s = Some (n, c)" "p \<in> addrs s" "p \<notin> addrs d" "at_node p g f d = d"
proof -
  have out: "addrs d \<inter> addrs s = {}" using assms(2) by (auto simp: addrs_nodes)
  consider "b = p" | "b \<noteq> p" "subtree p d = Some (n, c)" | "b \<noteq> p" "subtree p d = None" "subtree p s = Some (n, c)"
    using assms(1) by (auto split: if_splits option.splits)
  then show thesis
  proof cases
    case 1
    then show thesis using here assms(1) by simp
  next
    case 2
    then have "p \<in> addrs d" using subtree_None [of p d] by auto
    then show thesis using child 2 out at_node_absent [of p s] by auto
  next
    case 3
    then have "p \<in> addrs s" "p \<notin> addrs d" using subtree_None [of p s] subtree_None [of p d] by auto
    then show thesis using sib 3 at_node_absent [of p d] by auto
  qed
qed

lemma at_node_ok:
  assumes "tree_ok h t" "subtree p t = Some (n, c)"
    and "h' p = Some (g n)" "n_first_child (g n) = addr (f c)" "n_next_sibling (g n) = n_next_sibling n"
    and f: "tree_ok h' (f c)" "addrs (f c) = insert a (addrs c)" "a \<notin> addrs t"
    and same: "\<And>b. b \<notin> insert a (insert p (addrs c)) \<Longrightarrow> h' b = h b"
  shows "tree_ok h' (at_node p g f t) \<and> addrs (at_node p g f t) = insert a (addrs t)"
  using assms(1,2,8)
proof (induction t)
  case (Node b m d s)
  have keep: "tree_ok h' u" if "tree_ok h u" "p \<notin> addrs u" "addrs u \<inter> addrs c = {}" "a \<notin> addrs u" for u
  proof -
    have "h' x = h x" if "x \<in> addrs u" for x
      using that \<open>p \<notin> addrs u\<close> \<open>addrs u \<inter> addrs c = {}\<close> \<open>a \<notin> addrs u\<close> by (intro same) auto
    then show ?thesis using tree_ok_cong [of u h' h] that(1) by blast
  qed
  have "distinct (map fst (nodes (Node b m d s)))" using Node.prems(1) by (simp add: tree_ok_def)
  with Node.prems(2) show ?case
  proof (cases rule: subtree_Node_cases [where g = g and f = f])
    case here
    moreover have "tree_ok h' s"
      using Node.prems(1,3) here by (intro keep) (auto simp: tree_ok_Node)
    ultimately show ?thesis using Node.prems(1,3) assms(3-5) f(1,2) by (auto simp: tree_ok_Node)
  next
    case child
    have sub: "addrs c \<subseteq> addrs d" using subtree_ok [OF _ child(2)] Node.prems(1) by (auto simp: tree_ok_Node)
    have "tree_ok h' s" using Node.prems(1,3) child sub by (intro keep) (auto simp: tree_ok_Node)
    moreover have "h' b = h b" using Node.prems(1,3) child(1) sub by (intro same) (auto simp: tree_ok_Node)
    ultimately show ?thesis using Node.IH(1) Node.prems(1,3) child by (auto simp: tree_ok_Node)
  next
    case sib
    have sub: "addrs c \<subseteq> addrs s" using subtree_ok [OF _ sib(2)] Node.prems(1) by (auto simp: tree_ok_Node)
    have "tree_ok h' d" using Node.prems(1,3) sib sub by (intro keep) (auto simp: tree_ok_Node)
    moreover have "h' b = h b" using Node.prems(1,3) sib(1) sub by (intro same) (auto simp: tree_ok_Node)
    ultimately show ?thesis using Node.IH(2) Node.prems(1,3) sib by (auto simp: tree_ok_Node)
  qed
qed simp

section \<open>Numbering\<close>

fun sibs :: "etree \<Rightarrow> pldm_entity list" where
  "sibs Tip = []"
| "sibs (Node a n c s) = n_entity n # sibs s"

text \<open>Siblings of a type stand together, with instance numbers that grow.\<close>

fun runs :: "pldm_entity list \<Rightarrow> bool" where
  "runs (x # y # xs) \<longleftrightarrow>
     (if e_entity_type x = e_entity_type y then e_entity_instance_num x < e_entity_instance_num y
      else e_entity_type x \<notin> e_entity_type ` set (y # xs)) \<and> runs (y # xs)"
| "runs xs \<longleftrightarrow> True"

lemma runs_later: "runs (x # xs) \<Longrightarrow> y \<in> set xs \<Longrightarrow> e_entity_type y = e_entity_type x \<Longrightarrow>
    e_entity_instance_num x < e_entity_instance_num y"
proof (induction xs arbitrary: x)
  case (Cons z xs)
  have "e_entity_type x \<in> e_entity_type ` set (z # xs)" using Cons.prems(2,3) by (metis image_eqI)
  then have z: "e_entity_type x = e_entity_type z" "e_entity_instance_num x < e_entity_instance_num z"
    using Cons.prems(1) by (auto split: if_splits)
  show ?case
  proof (cases "y = z")
    case False
    then have "e_entity_instance_num z < e_entity_instance_num y"
      using Cons.prems z(1) by (intro Cons.IH) auto
    with z(2) show ?thesis by (rule order.strict_trans)
  qed (use z in simp)
qed simp

fun cid_of :: "etree \<Rightarrow> u16" where
  "cid_of Tip = 0"
| "cid_of (Node a n c s) = e_entity_container_id (n_entity n)"

fun child_cids :: "etree \<Rightarrow> u16 list" where
  "child_cids Tip = []"
| "child_cids (Node a n c s) = (if c = Tip then [] else [cid_of c]) @ child_cids c @ child_cids s"

text \<open>The nodes of a level know their parent and share a container id.\<close>

fun level :: "pldm_entity \<Rightarrow> u16 \<Rightarrow> etree \<Rightarrow> bool" where
  "level par k Tip \<longleftrightarrow> True"
| "level par k (Node a n c s) \<longleftrightarrow>
     n_parent n = par \<and> e_entity_container_id (n_entity n) = k \<and> level par k s \<and>
     level (n_entity n) (cid_of c) c \<and> runs (sibs c)"

lemma level_sibs: "level par k t \<Longrightarrow> e \<in> set (sibs t) \<Longrightarrow> e_entity_container_id e = k"
  by (induction t arbitrary: par k) auto

lemma level_cids: "level par k t \<Longrightarrow> (a, n) \<in> set (nodes t) \<Longrightarrow>
    n_entity n \<in> set (sibs t) \<or> e_entity_container_id (n_entity n) \<in> set (child_cids t)"
proof (induction t arbitrary: par k)
  case (Node b m c s)
  have c: "level (n_entity m) (cid_of c) c" "level par k s" using Node.prems(1) by simp_all
  have "n_entity n \<in> set (sibs c) \<Longrightarrow> e_entity_container_id (n_entity n) = cid_of c \<and> c \<noteq> Tip"
    using level_sibs [OF c(1)] by auto
  then show ?case using Node.IH(1) [OF c(1)] Node.IH(2) [OF c(2)] Node.prems(2) by auto
qed simp

lemma level_distinct:
  "level par k t \<Longrightarrow> runs (sibs t) \<Longrightarrow> distinct (k # child_cids t) \<Longrightarrow>
     distinct (map (\<lambda>(a, n). n_entity n) (nodes t))"
proof (induction t arbitrary: par k)
  case (Node b m c s)
  have c: "level (n_entity m) (cid_of c) c" "runs (sibs c)" and s: "level par k s" "runs (sibs s)"
    using Node.prems(1,2) by (auto elim: runs.elims)
  have in_c: "e_entity_container_id (n_entity n) \<in> insert (cid_of c) (set (child_cids c))" "c \<noteq> Tip"
    if "(a, n) \<in> set (nodes c)" for a n
    using level_cids [OF c(1) that] level_sibs [OF c(1)] that by (auto elim: nodes.elims)
  have in_s: "n_entity n \<in> set (sibs s) \<or> e_entity_container_id (n_entity n) \<in> set (child_cids s)"
    if "(a, n) \<in> set (nodes s)" for a n using level_cids [OF s(1) that] .
  have k: "e_entity_container_id (n_entity m) = k" using Node.prems(1) by simp
  have dc: "distinct (map (\<lambda>(a, n). n_entity n) (nodes c))"
    using Node.IH(1) [OF c] Node.prems(3) by (cases "c = Tip") auto
  have ds: "distinct (map (\<lambda>(a, n). n_entity n) (nodes s))"
    using Node.IH(2) [OF s] Node.prems(3) by auto
  have "n_entity m \<noteq> n_entity n" if "(a, n) \<in> set (nodes c)" for a n
    using in_c [OF that] k Node.prems(3) by auto
  moreover have "n_entity m \<noteq> n_entity n" if "(a, n) \<in> set (nodes s)" for a n
    using in_s [OF that] k Node.prems(2,3) runs_later [of "n_entity m" "sibs s" "n_entity n"] by auto
  moreover have "n_entity n \<noteq> n_entity n'" if "(a, n) \<in> set (nodes c)" "(a', n') \<in> set (nodes s)" for a n a' n'
    using in_c [OF that(1)] in_s [OF that(2)] Node.prems(3) level_sibs [OF s(1), of "n_entity n'"] by auto
  ultimately show ?case using dc ds by (force simp: image_iff)
qed simp

section \<open>Numbering is kept\<close>

lemma place_sibs_head: "t \<noteq> Tip \<Longrightarrow> hd (sibs (place ty a mk t)) = hd (sibs t)"
  by (cases t) auto

lemma place_types:
  "t \<noteq> Tip \<Longrightarrow> (\<And>n. e_entity_type (n_entity (mk n)) = ty) \<Longrightarrow>
     e_entity_type ` set (sibs (place ty a mk t)) = insert ty (e_entity_type ` set (sibs t))"
proof (induction t)
  case (Node b n c s)
  then show ?case by (cases s) auto
qed simp

lemma place_runs:
  assumes "runs (sibs t)" "t \<noteq> Tip" "insertion_point ty t = (p, np)"
    and mk: "\<And>n. e_entity_type (n_entity (mk n)) = ty"
    and up: "e_entity_type (n_entity np) = ty \<Longrightarrow>
      e_entity_instance_num (n_entity np) < e_entity_instance_num (n_entity (mk np))"
  shows "runs (sibs (place ty a mk t))"
  using assms(1-3)
proof (induction t)
  case (Node b n c s)
  show ?case
  proof (cases "stops ty n s")
    case True
    then have "n = np" using Node.prems(3) by simp
    then show ?thesis using True Node.prems(1) mk up by (cases s) (auto split: if_splits)
  next
    case False
    then obtain b' n' c' s' where s: "s = Node b' n' c' s'" by (cases s) auto
    have "runs (sibs (place ty a mk s))"
      using Node.IH(2) Node.prems False s by (auto split: if_splits)
    moreover obtain es where es: "sibs (place ty a mk s) = n_entity n' # es"
      using s by (cases "sibs (place ty a mk s)") (auto split: if_splits)
    moreover have "e_entity_type ` set (sibs (place ty a mk s)) = insert ty (e_entity_type ` set (sibs s))"
      using place_types [of s mk ty a] mk s by simp
    ultimately show ?thesis using False s Node.prems(1) by (auto split: if_splits)
  qed
qed simp

lemma place_level:
  assumes "level par k t" "\<And>n. n_parent (mk n) = n_parent n"
    "\<And>n. e_entity_container_id (n_entity (mk n)) = e_entity_container_id (n_entity n)"
  shows "level par k (place ty a mk t)" "child_cids (place ty a mk t) = child_cids t"
    "cid_of (place ty a mk t) = cid_of t"
  using assms by (induction t) auto

lemma place_Tip [simp]: "place ty a mk t = Tip \<longleftrightarrow> t = Tip"
  by (cases t) auto

lemma at_node_Tip [simp]: "at_node p g f t = Tip \<longleftrightarrow> t = Tip"
  by (cases t) auto

lemma at_node_sibs: "(\<And>n. n_entity (g n) = n_entity n) \<Longrightarrow> sibs (at_node p g f t) = sibs t"
  by (induction t) auto

lemma at_node_cid: "(\<And>n. n_entity (g n) = n_entity n) \<Longrightarrow> cid_of (at_node p g f t) = cid_of t"
  by (cases t) auto

lemma at_node_level:
  assumes "level par k t" "subtree p t = Some (n, c)" "distinct (map fst (nodes t))"
    and g: "\<And>n. n_entity (g n) = n_entity n" "\<And>n. n_parent (g n) = n_parent n"
    and f: "level (n_entity n) (cid_of (f c)) (f c)" "runs (sibs (f c))"
  shows "level par k (at_node p g f t)"
  using assms(1-3)
proof (induction t arbitrary: par k)
  case (Node b m d s)
  from Node.prems(2,3) show ?case
  proof (cases rule: subtree_Node_cases [where g = g and f = f])
    case here
    then show ?thesis using Node.prems(1) f g by simp
  next
    case child
    then show ?thesis using Node.IH(1) Node.prems(1,3) by (simp add: at_node_cid at_node_sibs g)
  next
    case sib
    then show ?thesis using Node.IH(2) Node.prems(1,3) by simp
  qed
qed simp

text \<open>The ids of the levels below: a change that keeps that of the changed level, and one that adds one.\<close>

lemma at_node_cids_same:
  assumes "\<And>n. n_entity (g n) = n_entity n"
    and f: "child_cids (f c) = child_cids c" "cid_of (f c) = cid_of c" "f c = Tip \<longleftrightarrow> c = Tip"
    and "level par k t" "subtree p t = Some (n, c)" "distinct (map fst (nodes t))"
  shows "child_cids (at_node p g f t) = child_cids t"
  using assms(5-7)
proof (induction t arbitrary: par k)
  case (Node b m d s)
  from Node.prems(2,3) show ?case
  proof (cases rule: subtree_Node_cases [where g = g and f = f])
    case here
    then show ?thesis using f by simp
  next
    case child
    then show ?thesis using Node.IH(1) [of "n_entity m" "cid_of d"] Node.prems assms(1) by (simp add: at_node_cid)
  next
    case sib
    then show ?thesis using Node.IH(2) [of par k] Node.prems by simp
  qed
qed simp

lemma at_node_cids_new:
  assumes "\<And>n. n_entity (g n) = n_entity n" and f: "f Tip = Node a m Tip Tip"
    and "e_entity_container_id (n_entity m) = x"
    and "level par k t" "subtree p t = Some (n, Tip)" "distinct (map fst (nodes t))"
  shows "mset (child_cids (at_node p g f t)) = add_mset x (mset (child_cids t))"
  using assms(4-6)
proof (induction t arbitrary: par k)
  case (Node b m d s)
  from Node.prems(2,3) show ?case
  proof (cases rule: subtree_Node_cases [where g = g and f = f])
    case here
    then show ?thesis using f assms(3) by simp
  next
    case child
    then have "d \<noteq> Tip" by auto
    then show ?thesis using child Node.IH(1) [of "n_entity m" "cid_of d"] Node.prems assms(1) by (simp add: at_node_cid)
  next
    case sib
    then show ?thesis using Node.IH(2) [of par k] Node.prems by simp
  qed
qed simp

section \<open>The invariant of a tree\<close>

abbreviation "no_entity \<equiv> \<lparr>e_entity_type = 0, e_entity_instance_num = 0, e_entity_container_id = 0\<rparr>"

definition tree_inv :: "node_heap \<Rightarrow> pldm_entity_association_tree \<Rightarrow> etree \<Rightarrow> nat set \<Rightarrow> bool" where
  "tree_inv h tree t A \<longleftrightarrow>
     tree_ok h t \<and> t_root tree = addr t \<and> addrs t = A \<and> level no_entity 0 t \<and> runs (sibs t) \<and>
     distinct (0 # child_cids t) \<and> (\<forall>x\<in>set (child_cids t). x \<le> t_last_used_container_id tree)"

text \<open>The node that is made for an entity, before it has a place.\<close>

definition blank_node :: "u16 \<Rightarrow> u8 \<Rightarrow> pldm_entity_node" where
  "blank_node ty assoc =
     \<lparr>n_entity = \<lparr>e_entity_type = ty, e_entity_instance_num = 1, e_entity_container_id = 0\<rparr>,
      n_parent = no_entity, n_remote_container_id = 0, n_first_child = None, n_next_sibling = None,
      n_association_type = assoc\<rparr>"

text \<open>The node that goes behind a sibling.\<close>

definition sibling_node :: "u16 \<Rightarrow> u8 \<Rightarrow> u16 \<Rightarrow> pldm_entity_node \<Rightarrow> pldm_entity_node" where
  "sibling_node ty assoc rcid np =
     (blank_node ty assoc)\<lparr>
        n_entity := \<lparr>e_entity_type = ty,
          e_entity_instance_num = (if e_entity_type (n_entity np) = ty then e_entity_instance_num (n_entity np) + 1 else 1),
          e_entity_container_id = e_entity_container_id (n_entity np)\<rparr>,
        n_parent := n_parent np, n_next_sibling := n_next_sibling np, n_remote_container_id := rcid\<rparr>"

text \<open>The node that becomes a first child.\<close>

definition child_node :: "u16 \<Rightarrow> u8 \<Rightarrow> u16 \<Rightarrow> pldm_entity_node \<Rightarrow> pldm_entity_node" where
  "child_node ty assoc k pn =
     (blank_node ty assoc)\<lparr>n_entity := \<lparr>e_entity_type = ty, e_entity_instance_num = 1, e_entity_container_id = k\<rparr>,
        n_parent := n_entity pn, n_remote_container_id := k\<rparr>"

text \<open>The three ways \<open>link_node\<close> goes with automatic numbers.\<close>

lemma link_root:
  "t_root tree = None \<Longrightarrow> link_node h tree e 0xffff None False True 0xffff a (blank_node ty assoc) =
     Some (Some (blank_node ty assoc), h(a \<mapsto> blank_node ty assoc), tree\<lparr>t_root := Some a\<rparr>)"
  by (simp add: link_node_def blank_node_def Let_def)

lemma link_child:
  assumes "t_root tree \<noteq> None" "h p = Some pn" "n_first_child pn = None"
    and "t_last_used_container_id tree \<noteq> UINT16_MAX" "k = t_last_used_container_id tree + 1"
  shows "link_node h tree e 0xffff (Some p) False True 0xffff a (blank_node ty assoc) =
    Some (Some (child_node ty assoc k pn), h(a \<mapsto> child_node ty assoc k pn, p \<mapsto> pn\<lparr>n_first_child := Some a\<rparr>),
          tree\<lparr>t_last_used_container_id := k\<rparr>)"
  using assms by (simp add: link_node_def blank_node_def child_node_def Let_def)

lemma link_sibling:
  assumes "t_root tree \<noteq> None"
    and "(case parent of None \<Rightarrow> t_root tree | Some p \<Rightarrow> n_first_child (the (h p))) = Some start"
      "\<And>p. parent = Some p \<Longrightarrow> \<exists>pn. h p = Some pn"
    and "find_insertion_at h start (e_entity_type e) = Some q" "h q = Some np"
    and "\<not> (e_entity_type (n_entity np) = e_entity_type e \<and> e_entity_instance_num (n_entity np) = UINT16_MAX)"
    and "nd = sibling_node (e_entity_type e) assoc (e_entity_container_id e) np"
  shows "link_node h tree e 0xffff parent False True 0xffff a (blank_node (e_entity_type e) assoc) =
    Some (Some nd, h(a \<mapsto> nd, q \<mapsto> np\<lparr>n_next_sibling := Some a\<rparr>), tree)"
  using assms
  by (cases parent) (auto simp: link_node_def blank_node_def sibling_node_def Let_def)

lemma sibling_node_sel [simp]:
  "n_first_child (sibling_node ty assoc r np) = None" "n_next_sibling (sibling_node ty assoc r np) = n_next_sibling np"
  "e_entity_type (n_entity (sibling_node ty assoc r np)) = ty" "n_parent (sibling_node ty assoc r np) = n_parent np"
  "e_entity_container_id (n_entity (sibling_node ty assoc r np)) = e_entity_container_id (n_entity np)"
  by (simp_all add: sibling_node_def blank_node_def)

lemma next_greater: "x \<noteq> UINT16_MAX \<Longrightarrow> x < x + 1" for x :: u16
proof -
  assume "x \<noteq> UINT16_MAX"
  then have "unat x \<noteq> unat (UINT16_MAX :: u16)" by (metis word_unat_eq_iff)
  moreover have "unat x < 2 ^ LENGTH(16)" by (rule unsigned_less)
  ultimately show "x < x + 1" by (simp add: word_less_nat_alt unat_word_ariths)
qed

lemma sibling_node_up:
  assumes "\<not> (e_entity_type (n_entity np) = ty \<and> e_entity_instance_num (n_entity np) = UINT16_MAX)"
    and "e_entity_type (n_entity np) = ty"
  shows "e_entity_instance_num (n_entity np) < e_entity_instance_num (n_entity (sibling_node ty assoc r np))"
  using assms next_greater by (simp add: sibling_node_def)

text \<open>What each of the three does to the invariant.\<close>

lemma inv_nodes_distinct: "tree_ok h t \<Longrightarrow> distinct (map fst (nodes t))"
  by (simp add: tree_ok_def)

lemma inv_root: "tree_inv h tree Tip A \<Longrightarrow>
    tree_inv (h(a \<mapsto> blank_node ty assoc)) (tree\<lparr>t_root := Some a\<rparr>) (Node a (blank_node ty assoc) Tip Tip) (insert a A)"
  by (simp add: tree_inv_def tree_ok_Node blank_node_def)

lemma inv_child:
  assumes inv: "tree_inv h tree t A" and sub: "subtree p t = Some (pn, Tip)" and a: "a \<notin> A"
    and k: "t_last_used_container_id tree \<noteq> UINT16_MAX" "k = t_last_used_container_id tree + 1"
    and nd: "nd = child_node ty assoc k pn"
  shows "tree_inv (h(a \<mapsto> nd, p \<mapsto> pn\<lparr>n_first_child := Some a\<rparr>)) (tree\<lparr>t_last_used_container_id := k\<rparr>)
    (at_node p (\<lambda>n. n\<lparr>n_first_child := Some a\<rparr>) (\<lambda>_. Node a nd Tip Tip) t) (insert a A)"
proof -
  let ?g = "\<lambda>n. n\<lparr>n_first_child := Some a\<rparr>" and ?f = "\<lambda>_. Node a nd Tip Tip"
  let ?h = "h(a \<mapsto> nd, p \<mapsto> pn\<lparr>n_first_child := Some a\<rparr>)"
  have ok: "tree_ok h t" "addrs t = A" "level no_entity 0 t" "runs (sibs t)" "distinct (0 # child_cids t)"
    and le: "\<forall>x\<in>set (child_cids t). x \<le> t_last_used_container_id tree" and root: "t_root tree = addr t"
    using inv by (simp_all add: tree_inv_def)
  have p: "p \<in> A" using sub subtree_None [of p t] ok(2) by auto
  have nd': "n_first_child nd = None" "n_next_sibling nd = None" "n_parent nd = n_entity pn"
      "e_entity_container_id (n_entity nd) = k"
    using nd by (simp_all add: child_node_def blank_node_def)
  have tree: "tree_ok ?h (at_node p ?g ?f t) \<and> addrs (at_node p ?g ?f t) = insert a (addrs t)"
    using a p ok(2) nd' by (intro at_node_ok [OF ok(1) sub]) (auto simp: tree_ok_Node)
  have lvl: "level no_entity 0 (at_node p ?g ?f t)"
    using nd' by (intro at_node_level [OF ok(3) sub inv_nodes_distinct [OF ok(1)]]) simp_all
  have cids: "mset (child_cids (at_node p ?g ?f t)) = add_mset k (mset (child_cids t))"
    by (rule at_node_cids_new [OF _ _ nd'(4) ok(3) sub inv_nodes_distinct [OF ok(1)]]) simp_all
  have up: "t_last_used_container_id tree < k" using next_greater [OF k(1)] k(2) by simp
  have new: "k \<notin> set (child_cids t)" "k \<noteq> 0" using le up by (auto simp: word_not_simps)
  have set: "set (child_cids (at_node p ?g ?f t)) = insert k (set (child_cids t))"
    using cids by (metis set_mset_add_mset_insert set_mset_mset)
  have "distinct (child_cids (at_node p ?g ?f t))"
  proof -
    have "distinct (k # child_cids t)" using ok(5) new(1) by simp
    then show ?thesis using cids by (metis mset.simps(2) mset_eq_imp_distinct_iff)
  qed
  moreover have "\<forall>x\<in>insert k (set (child_cids t)). x \<le> k" using le up by fastforce
  ultimately show ?thesis
    using tree lvl set new(2) ok(2,4,5) root by (auto simp: tree_inv_def at_node_sibs)
qed

lemma subtree_level: "level par k t \<Longrightarrow> subtree p t = Some (n, c) \<Longrightarrow> level (n_entity n) (cid_of c) c \<and> runs (sibs c)"
  by (induction t arbitrary: par k) (auto split: if_splits option.splits)

lemma inv_sibling:
  assumes inv: "tree_inv h tree t A" and a: "a \<notin> A"
    and full: "\<not> (e_entity_type (n_entity np) = ty \<and> e_entity_instance_num (n_entity np) = UINT16_MAX)"
    and nd: "nd = sibling_node ty assoc r np"
    and place: "case parent of None \<Rightarrow> u = t | Some p \<Rightarrow> \<exists>pn. subtree p t = Some (pn, u)"
    and u: "u \<noteq> Tip" "insertion_point ty u = (q, np)"
  shows "\<exists>t'. tree_inv (h(a \<mapsto> nd, q \<mapsto> np\<lparr>n_next_sibling := Some a\<rparr>)) tree t' (insert a A)"
proof -
  let ?h = "h(a \<mapsto> nd, q \<mapsto> np\<lparr>n_next_sibling := Some a\<rparr>)" and ?mk = "sibling_node ty assoc r"
  have ok: "tree_ok h t" "addrs t = A" "level no_entity 0 t" "runs (sibs t)" "distinct (0 # child_cids t)"
    and le: "\<forall>x\<in>set (child_cids t). x \<le> t_last_used_container_id tree" and root: "t_root tree = addr t"
    using inv by (simp_all add: tree_inv_def)
  have u': "tree_ok h u" "addrs u \<subseteq> addrs t"
    using place subtree_ok [OF ok(1)] ok(1) by (auto split: option.splits)
  have q: "q \<in> addrs u" using insertion_point_in [OF u(1), of ty] u(2) by (force simp: addrs_nodes)
  have "a \<notin> addrs u" "q \<noteq> a" using u'(2) a ok(2) q by auto
  then have placed: "tree_ok ?h (place ty a ?mk u)"
    using u by (intro place_ok [OF u'(1) u(1) _ u(2)]) (auto simp: nd)
  note up = sibling_node_up [OF full, of assoc r]
  show ?thesis
  proof (cases parent)
    case None
    then have "u = t" using place by simp
    then have "tree_inv ?h tree (place ty a ?mk t) (insert a A)"
      using placed root ok le place_level [OF ok(3), of ?mk ty a] place_addrs [of t ty a ?mk] u(1)
        place_runs [where mk = ?mk, OF ok(4) _ u(2) [unfolded \<open>u = t\<close>] _ up]
      by (simp add: tree_inv_def)
    then show ?thesis by blast
  next
    case (Some p)
    then obtain pn where sub: "subtree p t = Some (pn, u)" using place by auto
    let ?t = "at_node p (\<lambda>n. n) (place ty a ?mk) t"
    have lu: "level (n_entity pn) (cid_of u) u" "runs (sibs u)" using subtree_level [OF ok(3) sub] by auto
    have p: "p \<notin> addrs u" "h p = Some pn" "n_first_child pn = addr u" using subtree_ok [OF ok(1) sub] by auto
    have "p \<in> addrs t" using sub subtree_None [of p t] by auto
    then have "tree_ok ?h ?t \<and> addrs ?t = insert a (addrs t)"
      using a ok(2) p q placed place_addrs [OF u(1)] by (intro at_node_ok [OF ok(1) sub]) auto
    moreover have "level no_entity 0 ?t"
      using place_level [OF lu(1), of ?mk ty a] place_runs [where mk = ?mk, OF lu(2) u _ up]
      by (intro at_node_level [OF ok(3) sub inv_nodes_distinct [OF ok(1)]]) simp_all
    moreover have "child_cids ?t = child_cids t"
      using place_level [OF lu(1), of ?mk ty a]
      by (intro at_node_cids_same [OF _ _ _ _ ok(3) sub inv_nodes_distinct [OF ok(1)]]) simp_all
    ultimately have "tree_inv ?h tree ?t (insert a A)"
      using ok le root by (simp add: tree_inv_def at_node_sibs)
    then show ?thesis by blast
  qed
qed

section \<open>Adding, finding, destroying\<close>

lemma tree_add_link:
  assumes "assoc = PLDM_ENTITY_ASSOCIAION_PHYSICAL \<or> assoc = PLDM_ENTITY_ASSOCIAION_LOGICAL"
  shows "pldm_entity_association_tree_add h (Some tree) (Some e) 0xffff parent assoc (Some a) =
    (case link_node h tree e 0xffff parent False True 0xffff a (blank_node (e_entity_type e) assoc) of
       None \<Rightarrow> None
     | Some (nd, h', tree') \<Rightarrow> Some (case nd of
           None \<Rightarrow> (None, h', Some tree', Some e)
         | Some n \<Rightarrow> (Some a, h', Some tree', Some (e\<lparr>e_entity_instance_num := e_entity_instance_num (n_entity n),
             e_entity_container_id := e_entity_container_id (n_entity n)\<rparr>))))"
  using assms
  by (auto simp: pldm_entity_association_tree_add_def pldm_entity_association_tree_add_entity_def blank_node_def
      split: option.split bind_split)

lemma tree_add_inv:
  assumes inv: "tree_inv h tree t A" and a: "a \<notin> A" and parent: "\<And>p. parent = Some p \<Longrightarrow> p \<in> A"
    and assoc: "assoc = PLDM_ENTITY_ASSOCIAION_PHYSICAL \<or> assoc = PLDM_ENTITY_ASSOCIAION_LOGICAL"
  shows "(\<exists>tree' h'. pldm_entity_association_tree_add h (Some tree) (Some e) 0xffff parent assoc (Some a) =
      Some (None, h', Some tree', Some e) \<and> tree_inv h' tree' t A) \<or>
    (\<exists>tree' h' t' n. pldm_entity_association_tree_add h (Some tree) (Some e) 0xffff parent assoc (Some a) =
      Some (Some a, h', Some tree', Some (n_entity n)) \<and> h' a = Some n \<and> e_entity_type (n_entity n) = e_entity_type e \<and>
      tree_inv h' tree' t' (insert a A))"
proof -
  have ok: "tree_ok h t" "addrs t = A" "t_root tree = addr t" using inv by (simp_all add: tree_inv_def)
  note link = tree_add_link [OF assoc, of h tree e parent a]
  have added: ?thesis
    if "link_node h tree e 0xffff parent False True 0xffff a (blank_node (e_entity_type e) assoc) = Some (Some n, h', tree')"
      "tree_inv h' tree' t' (insert a A)" "h' a = Some n" "e_entity_type (n_entity n) = e_entity_type e" for n h' tree' t'
  proof -
    have "e\<lparr>e_entity_instance_num := e_entity_instance_num (n_entity n),
        e_entity_container_id := e_entity_container_id (n_entity n)\<rparr> = n_entity n"
      using that(4) by (intro pldm_entity.equality) simp_all
    then show ?thesis using that by (intro disjI2 exI [of _ tree'] exI [of _ h'] exI [of _ t'] exI [of _ n]) (simp add: link)
  qed
  show ?thesis
  proof (cases t)
    case Tip
    then have "parent = None" using parent ok(2) by (cases parent) auto
    then have "link_node h tree e 0xffff parent False True 0xffff a (blank_node (e_entity_type e) assoc) =
        Some (Some (blank_node (e_entity_type e) assoc), h(a \<mapsto> blank_node (e_entity_type e) assoc), tree\<lparr>t_root := Some a\<rparr>)"
      using link_root ok(3) Tip by simp
    then show ?thesis by (rule added [OF _ inv_root]) (use Tip inv in \<open>simp_all add: blank_node_def\<close>)
  next
    case (Node b m c s)
    then have root: "t_root tree \<noteq> None" using ok(3) by simp
    consider (first) p pn where "parent = Some p" "subtree p t = Some (pn, Tip)"
      | (sib) u where "u \<noteq> Tip" "case parent of None \<Rightarrow> u = t | Some p \<Rightarrow> \<exists>pn. subtree p t = Some (pn, u)"
    proof (cases parent)
      case None
      then show thesis using sib [of t] Node by simp
    next
      case (Some p)
      then obtain pn u where "subtree p t = Some (pn, u)"
        using parent ok(2) subtree_None [of p t] by fastforce
      then show thesis using first sib [of u] Some by (cases "u = Tip") auto
    qed
    then show ?thesis
    proof cases
      case first
      have pn: "h p = Some pn" "n_first_child pn = None" using subtree_ok [OF ok(1) first(2)] by auto
      show ?thesis
      proof (cases "t_last_used_container_id tree = UINT16_MAX")
        case True
        then have "link_node h tree e 0xffff parent False True 0xffff a (blank_node (e_entity_type e) assoc) =
            Some (None, h, tree)"
          using root pn first(1) by (simp add: link_node_def)
        then show ?thesis using inv by (simp add: link)
      next
        case False
        let ?k = "t_last_used_container_id tree + 1"
        have "link_node h tree e 0xffff parent False True 0xffff a (blank_node (e_entity_type e) assoc) =
            Some (Some (child_node (e_entity_type e) assoc ?k pn), h(a \<mapsto> child_node (e_entity_type e) assoc ?k pn,
              p \<mapsto> pn\<lparr>n_first_child := Some a\<rparr>), tree\<lparr>t_last_used_container_id := ?k\<rparr>)"
          unfolding first(1) by (rule link_child) (use root pn False in simp_all)
        moreover have "p \<noteq> a" using first(1) parent a by auto
        ultimately show ?thesis
          by (intro added [OF _ inv_child [OF inv first(2) a False refl refl]]) (auto simp: child_node_def blank_node_def)
      qed
    next
      case sib
      obtain q np where ip: "insertion_point (e_entity_type e) u = (q, np)" by (metis surj_pair)
      have u: "tree_ok h u" "addrs u \<subseteq> addrs t"
        using sib(2) subtree_ok [OF ok(1)] ok(1) by (auto split: option.splits)
      have hq: "h q = Some np" "q \<in> addrs u"
        using insertion_point_in [OF sib(1), of "e_entity_type e"] ip tree_ok_heap [OF u(1)] by (force simp: addrs_nodes)+
      obtain start where start: "addr u = Some start" using sib(1) by (cases u) auto
      have find: "find_insertion_at h start (e_entity_type e) = Some q"
        using find_insertion_at_tree [OF u(1) start] ip by simp
      have st: "(case parent of None \<Rightarrow> t_root tree | Some p \<Rightarrow> n_first_child (the (h p))) = Some start"
          "\<And>p. parent = Some p \<Longrightarrow> \<exists>pn. h p = Some pn"
        using sib(2) subtree_ok [OF ok(1)] ok(3) start by (auto split: option.splits)
      show ?thesis
      proof (cases "e_entity_type (n_entity np) = e_entity_type e \<and> e_entity_instance_num (n_entity np) = UINT16_MAX")
        case True
        then have "link_node h tree e 0xffff parent False True 0xffff a (blank_node (e_entity_type e) assoc) =
            Some (None, h, tree)"
          using root st find hq by (cases parent) (auto simp: link_node_def)
        then show ?thesis using inv by (simp add: link)
      next
        case False
        have "q \<noteq> a" using hq u(2) a ok(2) by auto
        let ?nd = "sibling_node (e_entity_type e) assoc (e_entity_container_id e) np"
        have "link_node h tree e 0xffff parent False True 0xffff a (blank_node (e_entity_type e) assoc) =
            Some (Some ?nd, h(a \<mapsto> ?nd, q \<mapsto> np\<lparr>n_next_sibling := Some a\<rparr>), tree)"
          by (rule link_sibling [OF root st find hq(1) False]) (assumption | rule refl)+
        moreover obtain t' where "tree_inv (h(a \<mapsto> ?nd, q \<mapsto> np\<lparr>n_next_sibling := Some a\<rparr>)) tree t' (insert a A)"
          using inv_sibling [OF inv a False refl sib(2,1) ip] by blast
        ultimately show ?thesis by (rule added) (use \<open>q \<noteq> a\<close> in auto)
      qed
    qed
  qed
qed

lemma find_ref_tree:
  "tree_ok h t \<Longrightarrow> distinct (map (\<lambda>(a, n). n_entity n) (nodes t)) \<Longrightarrow>
     find_entity_ref_in_tree h (addr t) e nd =
       Some (case map_of (map (\<lambda>(a, n). (n_entity n, a)) (nodes t)) e of Some a \<Rightarrow> Some a | None \<Rightarrow> nd)"
proof (induction t arbitrary: nd)
  case Tip
  then show ?case by (subst find_entity_ref_in_tree.simps) simp
next
  case (Node b m c s)
  have ok: "h b = Some m" "n_first_child m = addr c" "n_next_sibling m = addr s" "tree_ok h c" "tree_ok h s"
    using Node.prems(1) by (auto simp: tree_ok_Node)
  have d: "distinct (map (\<lambda>(a, n). n_entity n) (nodes c))" "distinct (map (\<lambda>(a, n). n_entity n) (nodes s))"
    using Node.prems(2) by auto
  have excl: "map_of (map (\<lambda>(a, n). (n_entity n, a)) (nodes c)) e = None \<or>
      map_of (map (\<lambda>(a, n). (n_entity n, a)) (nodes s)) e = None"
    using Node.prems(2) unfolding map_of_eq_None_iff by (fastforce simp: disjoint_iff image_iff)
  show ?case
    using excl
    by (subst find_entity_ref_in_tree.simps)
      (auto simp: ok Node.IH(1) [OF ok(4) d(1)] Node.IH(2) [OF ok(5) d(2)] map_add_def split: option.split)
qed

lemma find_ref_tree_node:
  assumes "tree_ok h t" "distinct (map (\<lambda>(a, n). n_entity n) (nodes t))" "(a, n) \<in> set (nodes t)"
  shows "find_entity_ref_in_tree h (addr t) (n_entity n) nd = Some (Some a)"
proof -
  have "distinct (map fst (map (\<lambda>(a, n). (n_entity n, a)) (nodes t)))"
    using assms(2) by (simp add: comp_def case_prod_unfold)
  then have "map_of (map (\<lambda>(a, n). (n_entity n, a)) (nodes t)) (n_entity n) = Some a"
    using assms(3) by (intro map_of_is_SomeI) force+
  then show ?thesis using find_ref_tree [OF assms(1,2)] by simp
qed

lemma destroy_tree:
  "tree_ok h t \<Longrightarrow> entity_association_tree_destroy h (addr t) = Some (h |` (- addrs t))"
proof (induction t arbitrary: h)
  case Tip
  then show ?case by (subst entity_association_tree_destroy.simps) (simp add: restrict_map_def)
next
  case (Node b m c s)
  let ?h = "h |` (- addrs s)"
  have ok: "h b = Some m" "n_first_child m = addr c" "n_next_sibling m = addr s" "tree_ok h s" "b \<notin> addrs c" "b \<notin> addrs s"
    using Node.prems(1) by (auto simp: tree_ok_Node)
  have "tree_ok ?h c = tree_ok h c"
    using Node.prems by (intro tree_ok_cong) (auto simp: tree_ok_Node restrict_map_def)
  then have "entity_association_tree_destroy ?h (addr c) = Some (?h |` (- addrs c))"
    using Node.IH(1) Node.prems by (simp add: tree_ok_Node)
  moreover have "(?h |` (- addrs c))(b := None) = h |` (- addrs (Node b m c s))"
    by (auto simp: restrict_map_def)
  ultimately show ?case
    using Node.IH(2) [OF ok(4)] ok(5,6)
    by (subst entity_association_tree_destroy.simps) (simp add: ok)
qed

section \<open>Trees that grow with automatic numbers\<close>

text \<open>
  \<open>grown h tree A\<close>: what calls of \<open>pldm_entity_association_tree_add\<close> make of an empty tree, when each
  parent is a node they returned. The third argument is the set of the nodes; \<open>malloc\<close> may fail.
\<close>

inductive grown :: "node_heap \<Rightarrow> pldm_entity_association_tree \<Rightarrow> nat set \<Rightarrow> bool" where
  start: "pldm_entity_association_tree_init True = Some tree \<Longrightarrow> grown h tree {}"
| add: "grown h tree A \<Longrightarrow> (\<And>a. m = Some a \<Longrightarrow> a \<notin> A) \<Longrightarrow> (\<And>p. parent = Some p \<Longrightarrow> p \<in> A) \<Longrightarrow>
    pldm_entity_association_tree_add h (Some tree) (Some e) 0xffff parent assoc m = Some (node, h', Some tree', e') \<Longrightarrow>
    grown h' tree' (A \<union> set_option node)"

lemma tree_add_refused:
  "m = None \<or> (assoc \<noteq> PLDM_ENTITY_ASSOCIAION_PHYSICAL \<and> assoc \<noteq> PLDM_ENTITY_ASSOCIAION_LOGICAL) \<Longrightarrow>
     pldm_entity_association_tree_add h (Some tree) (Some e) 0xffff parent assoc m = Some (None, h, Some tree, Some e)"
  by (auto simp: pldm_entity_association_tree_add_def pldm_entity_association_tree_add_entity_def split: option.split)

lemma grown_inv: "grown h tree A \<Longrightarrow> \<exists>t. tree_inv h tree t A"
proof (induction rule: grown.induct)
  case (start tree h)
  then have "tree_inv h tree Tip {}" by (auto simp: tree_inv_def pldm_entity_association_tree_init_def)
  then show ?case by blast
next
  case (add h tree A m parent e assoc node h' tree' e')
  then obtain t where inv: "tree_inv h tree t A" by blast
  show ?case
  proof (cases "m = None \<or> (assoc \<noteq> PLDM_ENTITY_ASSOCIAION_PHYSICAL \<and> assoc \<noteq> PLDM_ENTITY_ASSOCIAION_LOGICAL)")
    case True
    then show ?thesis using inv add.hyps(4) tree_add_refused [OF True] by (metis Pair_inject Un_empty_right option.sel option.set(1))
  next
    case False
    then obtain a where "m = Some a" "assoc = PLDM_ENTITY_ASSOCIAION_PHYSICAL \<or> assoc = PLDM_ENTITY_ASSOCIAION_LOGICAL"
      by auto
    then show ?thesis
      using tree_add_inv [OF inv add.hyps(2) add.hyps(3), of a parent assoc e] add.hyps(4) by auto
  qed
qed

text \<open>
  C25. In every tree that grows by \<open>pldm_entity_association_tree_add\<close> with automatic instance
  numbers and container ids, each node is what \<open>pldm_find_entity_ref_in_tree\<close> finds for its own entity, so
  no two nodes hold the same entity; and destroying the tree frees each of its nodes exactly once and
  nothing else.
\<close>

theorem entity_tree_nodes_found:
  assumes "grown h tree A"
  shows "(\<forall>a. a \<notin> A \<or> (\<exists>n. h a = Some n \<and> pldm_find_entity_ref_in_tree h (Some tree) (n_entity n) None = Some (Some a))) \<and>
    pldm_entity_association_tree_destroy h (Some tree) = Some (h |` (- A))"
proof -
  obtain t where t: "tree_ok h t" "t_root tree = addr t" "addrs t = A" "level no_entity 0 t" "runs (sibs t)"
      "distinct (0 # child_cids t)"
    using grown_inv [OF assms] by (auto simp: tree_inv_def)
  note dist = level_distinct [OF t(4-6)]
  have "\<exists>n. h a = Some n \<and> pldm_find_entity_ref_in_tree h (Some tree) (n_entity n) None = Some (Some a)" if a: "a \<in> A" for a
  proof -
    obtain n where n: "(a, n) \<in> set (nodes t)" using a t(3) by (force simp: addrs_nodes)
    then show ?thesis
      using find_ref_tree_node [OF t(1) dist n] tree_ok_heap [OF t(1) n] t(2)
      by (simp add: pldm_find_entity_ref_in_tree_def)
  qed
  then show ?thesis using destroy_tree [OF t(1)] t(2,3) by (auto simp: pldm_entity_association_tree_destroy_def)
qed

definition one_node :: "node_heap" where
  "one_node = [7 \<mapsto> blank_node 45 0]"

theorem entity_tree_nodes_found_witness:
  "pldm_find_entity_ref_in_tree one_node (Some \<lparr>t_root = Some 7, t_last_used_container_id = 0\<rparr>)
     \<lparr>e_entity_type = 45, e_entity_instance_num = 1, e_entity_container_id = 0\<rparr> None = Some (Some 7)"
proof -
  let ?e = "\<lparr>e_entity_type = 45, e_entity_instance_num = 0, e_entity_container_id = 0\<rparr>"
  have empty: "grown Map.empty \<lparr>t_root = None, t_last_used_container_id = 0\<rparr> {}"
    by (rule grown.start) (simp add: pldm_entity_association_tree_init_def)
  have add: "pldm_entity_association_tree_add Map.empty (Some \<lparr>t_root = None, t_last_used_container_id = 0\<rparr>)
      (Some ?e) 0xffff None 0 (Some 7) =
    Some (Some 7, one_node, Some \<lparr>t_root = Some 7, t_last_used_container_id = 0\<rparr>,
      Some \<lparr>e_entity_type = 45, e_entity_instance_num = 1, e_entity_container_id = 0\<rparr>)"
    by (subst tree_add_link) (simp_all add: link_root one_node_def, simp_all add: blank_node_def)
  have "grown one_node \<lparr>t_root = Some 7, t_last_used_container_id = 0\<rparr> ({} \<union> set_option (Some 7))"
    by (rule grown.add [OF empty _ _ add]) simp_all
  from entity_tree_nodes_found [OF this] show ?thesis by (auto simp: one_node_def blank_node_def)
qed

end
