(* ===== verification/Entity_Pdr.thy ===== *)
theory Entity_Pdr
  imports Entity_Tree_Laws Pdr_Run
begin

text \<open>
  The entity association tree in the PDR repository: what the functions of \<^verbatim>\<open>src/dsp/pdr.c\<close> write for
  a node is what the extraction reads.
\<close>

section \<open>The children of a node\<close>

fun kids :: "u8 \<Rightarrow> etree \<Rightarrow> pldm_entity list" where
  "kids k Tip = []"
| "kids k (Node a n c s) = (if n_association_type n = k then [n_entity n] else []) @ kids k s"

lemma length_entity_bytes [simp]: "length (entity_bytes e) = 6"
  by (simp add: entity_bytes_def)

lemma length_entities [simp]: "length (concat (map entity_bytes ks)) = 6 * length ks"
  by (induction ks) auto

lemma count_children_kids:
  "tree_ok h t \<Longrightarrow> count_children h k (addr t) n = Some (n + length (kids k t))"
proof (induction t arbitrary: n)
  case (Node a nd c s)
  then show ?case by (subst count_children.simps) (simp add: tree_ok_Node)
qed (subst count_children.simps, simp)

lemma write_children_kids:
  "tree_ok h t \<Longrightarrow> off + 6 * length (kids k t) \<le> length m \<Longrightarrow>
     write_children h k (addr t) (m, off) =
       Some (poke m off (concat (map entity_bytes (kids k t))), off + 6 * length (kids k t))"
proof (induction t arbitrary: m off)
  case (Node a nd c s)
  then show ?case
    by (subst write_children.simps) (auto simp: tree_ok_Node poke_poke)
qed (subst write_children.simps, simp)

lemma num_children_kids:
  assumes "tree_ok h t" "subtree c t = Some (n, cs)" "length (kids k cs) < 255"
    and "k = PLDM_ENTITY_ASSOCIAION_PHYSICAL \<or> k = PLDM_ENTITY_ASSOCIAION_LOGICAL"
  shows "pldm_entity_get_num_children h (Some c) k = Some (of_nat (length (kids k cs)))"
proof -
  have "h c = Some n" "n_first_child n = addr cs" "tree_ok h cs" using subtree_ok [OF assms(1,2)] by auto
  then show ?thesis using assms(3,4) count_children_kids [of h cs k 0] by (auto simp: pldm_entity_get_num_children_def)
qed

section \<open>The bytes of an entity association PDR\<close>

definition assoc_head :: "u8 \<Rightarrow> u16 \<Rightarrow> pldm_entity \<Rightarrow> pldm_entity list \<Rightarrow> u8 list" where
  "assoc_head k cid e ks = [1, PLDM_PDR_ENTITY_ASSOCIATION] @ le_of_word (0 :: u16) @
     le_of_word (of_nat (10 + 6 * length ks) :: u16) @ le_of_word cid @ [k] @ entity_bytes e @ [of_nat (length ks)]"

definition assoc_pdr :: "u32 \<Rightarrow> u8 \<Rightarrow> u16 \<Rightarrow> pldm_entity \<Rightarrow> pldm_entity list \<Rightarrow> u8 list" where
  "assoc_pdr rh k cid e ks = le_of_word rh @ assoc_head k cid e ks @ concat (map entity_bytes ks)"

lemma length_assoc_pdr [simp]: "length (assoc_pdr rh k cid e ks) = 20 + 6 * length ks"
  by (simp add: assoc_pdr_def assoc_head_def)

lemma assoc_pdr_handle: "poke (assoc_pdr rh k cid e ks) 0 (le_of_word rh') = assoc_pdr rh' k cid e ks"
  by (simp add: assoc_pdr_def poke_def)

lemma entity_of_bytes_at: "entity_of_bytes (xs @ entity_bytes e @ ys) (length xs) = e"
proof -
  have "bytes_at (xs @ entity_bytes e @ ys) (length xs + i) n = take n (drop i (entity_bytes e))" if "i + n \<le> 6" for i n
    using that by (simp add: bytes_at_def)
  from this [of 0 2] this [of 2 2] this [of 4 2] show ?thesis
    by (intro pldm_entity.equality) (simp_all add: entity_of_bytes_def, simp_all add: entity_bytes_def)
qed

lemma entities_read: "i < length ks \<Longrightarrow> length xs = off \<Longrightarrow>
    entity_of_bytes (xs @ concat (map entity_bytes ks)) (off + 6 * i) = ks ! i"
proof (induction ks arbitrary: i xs off)
  case (Cons e ks)
  show ?case
  proof (cases i)
    case 0
    then show ?thesis using Cons.prems(2) entity_of_bytes_at [of xs e] by auto
  next
    case (Suc j)
    then show ?thesis using Cons.IH [of j "xs @ entity_bytes e" "off + 6"] Cons.prems by (simp add: ac_simps)
  qed
qed simp

lemma field_at:
  assumes "bs = xs @ le_of_word (w :: 'a::len word) @ ys" "length xs = off" "8 dvd LENGTH('a)"
  shows "field off (Some (a, bs)) = Some w"
  using assms by (auto simp: field_def)

lemma assoc_extract:
  assumes "ks \<noteq> []" "length ks < 255" "a + length (assoc_pdr rh k cid e ks) \<le> UINTPTR_MAX"
  shows "pldm_entity_association_pdr_extract a (Some (assoc_pdr rh k cid e ks))
    (of_nat (length (assoc_pdr rh k cid e ks))) True = Some (Some (e # ks))"
proof -
  let ?bs = "assoc_pdr rh k cid e ks"
  define n where "n = length ks"
  define w :: u16 where "w = of_nat (10 + 6 * n)"
  define v :: u16 where "v = of_nat (length ?bs)"
  define b :: u8 where "b = of_nat n"
  have bounds: "0 < n" "n < 255" using assms(1,2) by (simp_all add: n_def)
  have u16: "unat (of_nat x :: u16) = x" if "x < 65536" for x using that by (simp add: unat_of_nat)
  have unats: "unat w = 10 + 6 * n" "unat v = 20 + 6 * n" "unat b = n"
    using bounds u16 [of "10 + 6 * n"] u16 [of "length ?bs"] unfolding w_def v_def b_def
    by (simp_all add: unat_of_nat n_def)
  have head: "assoc_head k cid e ks = [1, PLDM_PDR_ENTITY_ASSOCIATION] @ le_of_word (0 :: u16) @ le_of_word w @
      le_of_word cid @ [k] @ entity_bytes e @ [b]"
    by (simp only: assoc_head_def w_def b_def n_def)
  note bs = assoc_pdr_def [of rh k cid e ks, unfolded head]
  let ?kb = "concat (map entity_bytes ks)" and ?zero = "le_of_word (0 :: u16)"
  have fields: "field 5 (Some (a, ?bs)) = Some PLDM_PDR_ENTITY_ASSOCIATION"
    by (rule field_at [where xs = "le_of_word rh @ [1]" and
          ys = "?zero @ le_of_word w @ le_of_word cid @ [k] @ entity_bytes e @ [b] @ ?kb"]) (simp_all add: bs)
  moreover have "field 8 (Some (a, ?bs)) = Some w"
    by (rule field_at [where xs = "le_of_word rh @ [1, PLDM_PDR_ENTITY_ASSOCIATION] @ ?zero" and
          ys = "le_of_word cid @ [k] @ entity_bytes e @ [b] @ ?kb"]) (simp_all add: bs)
  moreover have "field 19 (Some (a, ?bs)) = Some b"
    by (rule field_at [where xs = "le_of_word rh @ [1, PLDM_PDR_ENTITY_ASSOCIATION] @ ?zero @
          le_of_word w @ le_of_word cid @ [k] @ entity_bytes e" and ys = ?kb]) (simp_all add: bs)
  moreover have "entity_of_bytes ?bs 13 = e"
    using entity_of_bytes_at [of "le_of_word rh @ [1, PLDM_PDR_ENTITY_ASSOCIATION] @ le_of_word (0 :: u16) @
      le_of_word w @ le_of_word cid @ [k]" e "b # concat (map entity_bytes ks)"] by (simp add: bs)
  moreover have "map (\<lambda>i. entity_of_bytes ?bs (20 + 6 * i)) [0..<n] = ks"
  proof (rule nth_equalityI)
    fix i assume "i < length (map (\<lambda>i. entity_of_bytes ?bs (20 + 6 * i)) [0..<n])"
    moreover have "length (le_of_word rh @ assoc_head k cid e ks) = 20" by (simp add: assoc_head_def)
    ultimately show "map (\<lambda>i. entity_of_bytes ?bs (20 + 6 * i)) [0..<n] ! i = ks ! i"
      using entities_read [of i ks "le_of_word rh @ assoc_head k cid e ks" 20] by (simp add: assoc_pdr_def n_def)
  qed (simp add: n_def)
  ultimately show ?thesis
    using unats bounds assms(3) unfolding v_def [symmetric]
    by (simp add: pldm_entity_association_pdr_extract_def n_def)
qed

section \<open>Writing a record and reading it back\<close>

text \<open>The record that \<open>entity_association_pdr_add_children\<close> makes is \<open>assoc_pdr\<close>.\<close>

lemma add_children_is_add:
  assumes "tree_ok h t" "subtree c t = Some (n, Node a m d s)" and ks: "ks = kids k (Node a m d s)" "length ks < 255"
    and "bs = assoc_pdr rh k (e_entity_container_id (n_entity m)) (n_entity n) ks"
  shows "entity_association_pdr_add_children h c ph repo (20 + of_nat (length ks) * 6) (of_nat (length ks)) k is_remote
      terminus rh \<lparr>pa_buffer = True, pa_record = ra, pa_data = da\<rparr> = do {
    (rc, ph, repo', rh) \<leftarrow> pldm_pdr_add ph (Some repo) (Some bs) (of_nat (length bs)) is_remote terminus (Some rh) ra da;
    rp \<leftarrow> repo'; k \<leftarrow> rh; Some (if rc < 0 then rc else int (unat k), ph, rp) }"
proof -
  define sz :: u16 where "sz = of_nat (20 + 6 * length ks)"
  have sz: "20 + of_nat (length ks) * 6 = sz" "sz - 10 = of_nat (10 + 6 * length ks)" by (simp_all add: sz_def)
  have usz: "unat sz = 20 + 6 * length ks" using ks(2) unfolding sz_def unat_of_nat by simp
  then have "ucast sz = (of_nat (20 + 6 * length ks) :: u32)" by (metis of_nat_unat)
  moreover have node: "h c = Some n" "n_first_child n = Some a" "h a = Some m" "tree_ok h (Node a m d s)"
    using subtree_ok [OF assms(1,2)] by (auto simp: tree_ok_Node)
  moreover have "write_children h k (Some a) (poke (replicate (unat sz) 0) 0 (le_of_word rh @
      assoc_head k (e_entity_container_id (n_entity m)) (n_entity n) ks), 20) = Some (bs, 20 + 6 * length ks)"
    using write_children_kids [OF node(4), of 20 k] ks(1) usz
    by (simp add: poke_poke assms(5) assoc_pdr_def) (simp add: poke_def assoc_head_def)
  ultimately show ?thesis
    unfolding sz entity_association_pdr_add_children_def
    by (simp add: assms(5) usz assoc_head_def)
qed

text \<open>
  C26. The PDR that the library writes for the children of a node of the entity tree ends up as the
  last record of the repository, under the handle after the one before; extracting it gives the entity of the
  node and those of all its children of the kind, in their order.
\<close>

theorem entity_pdr_roundtrip:
  assumes "tree_ok h t" "subtree c t = Some (n, cs)" and ks: "ks = kids k cs" "ks \<noteq> []" "length ks < 255"
    and "pdr_holds m (ph, repo) es" "repo_bytes es + 20 + 6 * length ks < 2 ^ 32"
    and "spec_handle es (Some 0) = Some i" "i \<notin> pe_handle ` set es"
    and "m ph (20 + 6 * length ks) = (ra, da)"
  shows "\<exists>ph' repo' e.
    entity_association_pdr_add_children h c ph repo (20 + of_nat (length ks) * 6) (of_nat (length ks)) k is_remote
      terminus 0 \<lparr>pa_buffer = True, pa_record = Some ra, pa_data = Some da\<rparr> = Some (int (unat i), ph', repo') \<and>
    pdr_holds m (ph', repo') (es @ [e]) \<and> pe_handle e = i \<and>
    pldm_entity_association_pdr_extract da (Some (pe_data e)) (of_nat (length (pe_data e))) True =
      Some (Some (n_entity n # ks))"
proof -
  obtain a nd d s where cs: "cs = Node a nd d s" using ks by (cases cs) auto
  define bs where "bs = (\<lambda>r. assoc_pdr r k (e_entity_container_id (n_entity nd)) (n_entity n) ks)"
  have may: "may_add (bs 0) (Some 0) es" using assms(7-9) by (simp add: may_add_def bs_def)
  have md: "m ph (length (bs 0)) = (ra, da)" using assms(10) by (simp add: bs_def)
  obtain ph' repo' where add: "pldm_pdr_add ph (Some repo) (Some (bs 0)) (of_nat (length (bs 0))) is_remote terminus
        (Some 0) (Some ra) (Some da) = Some (0, ph', Some repo', Some i)"
      "pdr_holds m (ph', repo') (es @ [\<lparr>pe_handle = i, pe_data = bs i, pe_remote = is_remote, pe_terminus = terminus\<rparr>])"
    using add_refines [OF assms(6) may md, of is_remote terminus] assms(8)
    by (auto simp: spec_add_def bs_def assoc_pdr_handle)
  have "malloc_ok m" "finite (dom ph)" using assms(6) by (auto simp: pdr_holds_def repo_at_def)
  then have "da + (20 + 6 * length ks) \<le> UINTPTR_MAX"
    using assms(7,10) unfolding malloc_ok_def by (metis add_lessD1 add.commute add.assoc snd_conv)
  then have "pldm_entity_association_pdr_extract da (Some (bs i)) (of_nat (length (bs i))) True = Some (Some (n_entity n # ks))"
    unfolding bs_def by (intro assoc_extract [OF ks(2,3)]) simp
  moreover have "entity_association_pdr_add_children h c ph repo (20 + of_nat (length ks) * 6) (of_nat (length ks)) k
      is_remote terminus 0 \<lparr>pa_buffer = True, pa_record = Some ra, pa_data = Some da\<rparr> = Some (int (unat i), ph', repo')"
    using add(1) [unfolded bs_def]
    by (subst add_children_is_add [OF assms(1,2) [unfolded cs] ks(1) [unfolded cs] ks(3) refl])
      (simp del: length_assoc_pdr)
  ultimately show ?thesis using add(2) by (intro exI conjI) (assumption | simp)+
qed

text \<open>A chassis with two children of the same kind.\<close>

definition chassis_heap :: node_heap where
  "chassis_heap =
     [1 \<mapsto> (blank_node 45 0)\<lparr>n_first_child := Some 2\<rparr>,
      2 \<mapsto> (child_node 60 0 1 (blank_node 45 0))\<lparr>n_next_sibling := Some 3\<rparr>,
      3 \<mapsto> sibling_node 60 0 0 (child_node 60 0 1 (blank_node 45 0))]"

definition chassis_tree :: etree where
  "chassis_tree = Node 1 ((blank_node 45 0)\<lparr>n_first_child := Some 2\<rparr>)
     (Node 2 ((child_node 60 0 1 (blank_node 45 0))\<lparr>n_next_sibling := Some 3\<rparr>) Tip
        (Node 3 (sibling_node 60 0 0 (child_node 60 0 1 (blank_node 45 0))) Tip Tip)) Tip"

theorem entity_pdr_roundtrip_witness:
  "\<exists>ph' repo' e.
    entity_association_pdr_add_children chassis_heap 1 Map.empty (snd new_repo) 32 2 0 False 1 0
      \<lparr>pa_buffer = True, pa_record = Some 0, pa_data = Some 4096\<rparr> = Some (1, ph', repo') \<and>
    pdr_holds first_fit (ph', repo') [e] \<and>
    pldm_entity_association_pdr_extract 4096 (Some (pe_data e)) (of_nat (length (pe_data e))) True =
      Some (Some [\<lparr>e_entity_type = 45, e_entity_instance_num = 1, e_entity_container_id = 0\<rparr>,
        \<lparr>e_entity_type = 60, e_entity_instance_num = 1, e_entity_container_id = 1\<rparr>,
        \<lparr>e_entity_type = 60, e_entity_instance_num = 2, e_entity_container_id = 1\<rparr>])"
proof -
  have "tree_ok chassis_heap chassis_tree"
    by (simp add: chassis_tree_def tree_ok_Node chassis_heap_def child_node_def blank_node_def sibling_node_def)
  moreover obtain n cs where sub: "subtree 1 chassis_tree = Some (n, cs)" "n_entity n = \<lparr>e_entity_type = 45, e_entity_instance_num = 1, e_entity_container_id = 0\<rparr>"
      "kids 0 cs = [\<lparr>e_entity_type = 60, e_entity_instance_num = 1, e_entity_container_id = 1\<rparr>,
        \<lparr>e_entity_type = 60, e_entity_instance_num = 2, e_entity_container_id = 1\<rparr>]"
    by (simp add: chassis_tree_def child_node_def blank_node_def sibling_node_def)
  ultimately show ?thesis
    using entity_pdr_roundtrip [OF _ sub(1) sub(3) [symmetric] _ _ pdr_init_holds [OF first_fit_ok, unfolded new_repo_def],
      where h = chassis_heap and i = 1 and ra = 0 and da = 4096 and is_remote = False and terminus = 1]
    by (auto simp: spec_handle_def first_fit_def new_repo_def sub(2) Least_equality)
qed

end
