(* ===== verification/Msgbuf_Steps.thy ===== *)
theory Msgbuf_Steps
  imports Codec_Rules
begin

text \<open>
  Codecs as sequences of steps. Most encoders and decoders of \<^verbatim>\<open>src/dsp\<close> set up a msgbuf, run a
  sequence of extractions or insertions, tests with an early return, and complete the msgbuf.
  A step works on what the caller's pointers lead to (a record \<open>'v\<close>) and on the msgbuf; it goes on
  or returns. Like the macros of \<^verbatim>\<open>msgbuf.h\<close>, \<open>get\<close> and \<open>put\<close> take their width from the type of
  the field. Two contracts go with the steps: \<open>keeps\<close> for memory safety on every input and \<open>reads\<close>
  for what a sequence makes of bytes of the right form.
\<close>

named_theorems step_keeps
named_theorems step_reads
named_theorems reads_next

section \<open>Steps\<close>

text \<open>\<open>Return None\<close>: the value that is returned is undefined.\<close>

datatype outcome = Go | Return "int option"

type_synonym 'v step = "'v \<Rightarrow> msgbuf \<Rightarrow> outcome \<times> 'v \<times> msgbuf"

fun steps :: "'v step list \<Rightarrow> 'v step" where
  "steps [] v b = (Go, v, b)"
| "steps (s # ss) v b =
     (case s v b of (Go, v, b) \<Rightarrow> steps ss v b | (Return r, v, b) \<Rightarrow> (Return r, v, b))"

lemma steps_append: "steps (xs @ ys) v b = steps [steps xs, steps ys] v b"
proof (induction xs arbitrary: v b)
  case (Cons s xs)
  obtain r v' b' where "s v b = (r, v', b')" by (metis surj_pair)
  then show ?case using Cons [of v' b'] by (cases r) simp_all
qed (simp split: outcome.splits prod.splits)

text \<open>What a function makes of a negative errno value: it returns it or translates it.\<close>

definition as_errno :: "int \<Rightarrow> int option" where
  "as_errno rc = Some rc"

definition as_cc :: "int \<Rightarrow> int option" where
  "as_cc rc = map_option (\<lambda>c. int (unat c)) (pldm_xlate_errno rc)"

text \<open>\<open>return pldm_msgbuf_discard(buf, rc)\<close>, translated.\<close>

definition leave :: "(int \<Rightarrow> int option) \<Rightarrow> int \<Rightarrow> 'v step" where
  "leave x rc v b = (let (rc, b) = pldm__msgbuf_discard b rc in (Return (x rc), v, b))"

text \<open>\<open>pldm_msgbuf_extract(buf, field)\<close>, its result ignored or tested.\<close>

definition get :: "(('a::len word \<Rightarrow> 'a word) \<Rightarrow> 'v \<Rightarrow> 'v) \<Rightarrow> 'v step" where
  "get upd v b =
     (Go, upd (\<lambda>d. fst (snd (msgbuf_extract b d))) v, snd (snd (msgbuf_extract b (0 :: 'a word))))"

definition get_or :: "(int \<Rightarrow> int option) \<Rightarrow> (('a::len word \<Rightarrow> 'a word) \<Rightarrow> 'v \<Rightarrow> 'v) \<Rightarrow> 'v step" where
  "get_or x upd v b =
     (let (rc, d, b) = msgbuf_extract b (0 :: 'a word) in
      if rc \<noteq> 0 then leave x rc v b else (Go, upd (\<lambda>_. d) v, b))"

definition put :: "('v \<Rightarrow> 'a::len word) \<Rightarrow> 'v step" where
  "put f v b = (Go, v, snd (msgbuf_insert b (f v)))"

definition put_or :: "(int \<Rightarrow> int option) \<Rightarrow> ('v \<Rightarrow> 'a::len word) \<Rightarrow> 'v step" where
  "put_or x f v b =
     (let (rc, b) = msgbuf_insert b (f v) in if rc \<noteq> 0 then leave x rc v b else (Go, v, b))"

text \<open>
  Arrays: \<open>n\<close> elements from or to the array, which the caller says has \<open>sz\<close>. A write behind the end
  of the array is a fault.
\<close>

definition get_array_or ::
    "(int \<Rightarrow> int option) \<Rightarrow> ('v \<Rightarrow> nat) \<Rightarrow> ('v \<Rightarrow> nat) \<Rightarrow> ('v \<Rightarrow> u8 list) \<Rightarrow> ((u8 list \<Rightarrow> u8 list) \<Rightarrow> 'v \<Rightarrow> 'v) \<Rightarrow>
      'v step" where
  "get_array_or x n sz arr upd v b =
     (let (rc, d, b) = pldm__msgbuf_extract_array_void b (n v) (arr v) (sz v) in
      if rc \<noteq> 0 then leave x rc v b
      else (Go, upd (\<lambda>_. d) v, if length (arr v) < n v then b\<lparr>mb_fault := True\<rparr> else b))"

definition put_array_or ::
    "(int \<Rightarrow> int option) \<Rightarrow> ('v \<Rightarrow> nat) \<Rightarrow> ('v \<Rightarrow> u8 list) \<Rightarrow> 'v step" where
  "put_array_or x n arr v b =
     (let (rc, b) = pldm__msgbuf_insert_array_void b (n v) (arr v) (n v) in
      if rc \<noteq> 0 then leave x rc v b else (Go, v, b))"

text \<open>Spans: the pointer into the buffer is the offset, written on success only.\<close>

definition span :: "('v \<Rightarrow> nat) \<Rightarrow> (nat option \<Rightarrow> 'v \<Rightarrow> 'v) \<Rightarrow> 'v step" where
  "span n upd v b =
     (let (rc, p, b) = pldm__msgbuf_span_required b (n v) in (Go, if rc \<noteq> 0 then v else upd p v, b))"

definition span_or :: "(int \<Rightarrow> int option) \<Rightarrow> ('v \<Rightarrow> nat) \<Rightarrow> (nat option \<Rightarrow> 'v \<Rightarrow> 'v) \<Rightarrow> 'v step" where
  "span_or x n upd v b =
     (let (rc, p, b) = pldm__msgbuf_span_required b (n v) in
      if rc \<noteq> 0 then leave x rc v b else (Go, upd p v, b))"

text \<open>Tests, assignments and groups.\<close>

definition refuse :: "('v \<Rightarrow> bool) \<Rightarrow> int \<Rightarrow> 'v step" where
  "refuse P r v b = (if P v then leave Some r v b else (Go, v, b))"

definition stop_with :: "(int \<Rightarrow> int option) \<Rightarrow> (msgbuf \<Rightarrow> int \<times> msgbuf) \<Rightarrow> ('v \<Rightarrow> bool) \<Rightarrow> 'v step" where
  "stop_with x fin P v b =
     (if P v then let (rc, b) = fin b in (Return (if rc = 0 then Some 0 else x rc), v, b) else (Go, v, b))"

definition assign :: "('v \<Rightarrow> 'v) \<Rightarrow> 'v step" where
  "assign f v b = (Go, f v, b)"

definition object_has :: "('v \<Rightarrow> bool) \<Rightarrow> 'v step" where
  "object_has P v b = (Go, v, if P v then b else b\<lparr>mb_fault := True\<rparr>)"

definition only :: "('v \<Rightarrow> bool) \<Rightarrow> 'v step list \<Rightarrow> 'v step" where
  "only P ss v b = (if P v then steps ss v b else (Go, v, b))"

definition times :: "('v \<Rightarrow> nat) \<Rightarrow> (nat \<Rightarrow> 'v step list) \<Rightarrow> 'v step" where
  "times n f v b = steps (concat (map f [0..<n v])) v b"

section \<open>Steps for variable fields\<close>

text \<open>\<open>pldm_msgbuf_extract_uint8_to_size\<close> and \<open>_uint16_to_size\<close> into the length of a field.\<close>

definition to_size :: "((variable_field \<Rightarrow> variable_field) \<Rightarrow> 'v \<Rightarrow> 'v) \<Rightarrow> ('a::len word \<Rightarrow> 'a word) \<Rightarrow> 'v \<Rightarrow> 'v" where
  "to_size upd f = upd (vf_length_update (\<lambda>_. unat (f 0)))"

text \<open>\<open>p\<close>: the offset of the buffer in the data.\<close>

definition points_to :: "((variable_field \<Rightarrow> variable_field) \<Rightarrow> 'v \<Rightarrow> 'v) \<Rightarrow> nat \<Rightarrow> nat option \<Rightarrow> 'v \<Rightarrow> 'v" where
  "points_to upd p q = upd (vf_ptr_update (\<lambda>_. map_option ((+) p) q))"

abbreviation (input) get_size8 :: "((variable_field \<Rightarrow> variable_field) \<Rightarrow> 'v \<Rightarrow> 'v) \<Rightarrow> 'v step" where
  "get_size8 upd \<equiv> get_or as_errno (to_size upd :: (u8 \<Rightarrow> u8) \<Rightarrow> _)"

abbreviation (input) get_size16 :: "((variable_field \<Rightarrow> variable_field) \<Rightarrow> 'v \<Rightarrow> 'v) \<Rightarrow> 'v step" where
  "get_size16 upd \<equiv> get_or as_errno (to_size upd :: (u16 \<Rightarrow> u16) \<Rightarrow> _)"

abbreviation (input) span_field ::
    "('v \<Rightarrow> variable_field) \<Rightarrow> ((variable_field \<Rightarrow> variable_field) \<Rightarrow> 'v \<Rightarrow> 'v) \<Rightarrow> nat \<Rightarrow> 'v step" where
  "span_field sel upd p \<equiv> span (\<lambda>v. vf_length (sel v)) (points_to upd p)"

abbreviation (input) skip_field :: "('v \<Rightarrow> nat) \<Rightarrow> 'v step" where
  "skip_field n \<equiv> span n (\<lambda>_ v. v)"

text \<open>\<open>pldm_msgbuf_span_remaining\<close>, its result ignored.\<close>

definition rest_into :: "((variable_field \<Rightarrow> variable_field) \<Rightarrow> 'v \<Rightarrow> 'v) \<Rightarrow> nat \<Rightarrow> 'v step" where
  "rest_into upd p v b =
     (let (_, s, b) = pldm__msgbuf_span_remaining b in
      (Go, case s of None \<Rightarrow> v | Some (q, n) \<Rightarrow> upd (\<lambda>_. \<lparr>vf_ptr = Some (p + q), vf_length = n\<rparr>) v, b))"

text \<open>The same with its result tested, \<open>pldm_msgbuf_span_until\<close>, and an extraction that leaves its target alone when it fails.\<close>

definition rest_or ::
    "(int \<Rightarrow> int option) \<Rightarrow> ((variable_field \<Rightarrow> variable_field) \<Rightarrow> 'v \<Rightarrow> 'v) \<Rightarrow> nat \<Rightarrow> 'v step" where
  "rest_or x upd p v b =
     (let (rc, s, b) = pldm__msgbuf_span_remaining b in
      if rc \<noteq> 0 then leave x rc v b
      else (Go, case s of None \<Rightarrow> v | Some (q, n) \<Rightarrow> upd (\<lambda>_. \<lparr>vf_ptr = Some (p + q), vf_length = n\<rparr>) v, b))"

definition until_into :: "('v \<Rightarrow> nat) \<Rightarrow> ((variable_field \<Rightarrow> variable_field) \<Rightarrow> 'v \<Rightarrow> 'v) \<Rightarrow> nat \<Rightarrow> 'v step" where
  "until_into trailer upd p v b =
     (let (_, s, b) = pldm__msgbuf_span_until b (trailer v) in
      (Go, case s of None \<Rightarrow> v | Some (q, n) \<Rightarrow> upd (\<lambda>_. \<lparr>vf_ptr = Some (p + q), vf_length = n\<rparr>) v, b))"

definition get_if :: "('a::len word \<Rightarrow> 'v \<Rightarrow> 'v) \<Rightarrow> 'v step" where
  "get_if set_to v b = (let (rc, w, b) = msgbuf_extract b 0 in (Go, if rc \<noteq> 0 then v else set_to w v, b))"

section \<open>A whole codec\<close>

text \<open>
  The msgbuf lies over the \<open>len\<close> first bytes of an object at address \<open>a\<close> with contents \<open>m\<close>. The results: the
  return value, what the pointers lead to, and the contents of the object.
\<close>

definition on_buffer ::
    "(int \<Rightarrow> int option) \<Rightarrow> nat \<Rightarrow> 'v step list \<Rightarrow> (msgbuf \<Rightarrow> int \<times> msgbuf) \<Rightarrow> nat \<Rightarrow> u8 list \<Rightarrow> nat \<Rightarrow> 'v \<Rightarrow>
      (int \<times> 'v \<times> u8 list) option" where
  "on_buffer x minsize ss fin a m len v =
     (let (rc, b) = pldm__msgbuf_init_errno minsize a m len in
      if rc \<noteq> 0 then do { r \<leftarrow> x rc; mb_exit b (r, v, m) }
      else case steps ss v b of
        (Return r, v, b) \<Rightarrow> do { r \<leftarrow> r; mb_exit b (r, v, mb_mem b) }
      | (Go, v, b) \<Rightarrow>
          let (rc, b) = fin b in
          do { r \<leftarrow> (if rc = 0 then Some 0 else x rc); mb_exit b (r, v, mb_mem b) })"

text \<open>The same for a codec that completes with \<open>pldm_msgbuf_complete_used\<close> and stores the length it used.\<close>

definition on_buffer_used :: "nat \<Rightarrow> 'v step list \<Rightarrow> nat \<Rightarrow> u8 list \<Rightarrow> nat \<Rightarrow> 'v \<Rightarrow> (int \<times> nat \<times> u8 list) option" where
  "on_buffer_used minsize ss a m len v =
     (let (rc, b) = pldm__msgbuf_init_errno minsize a m len in
      if rc \<noteq> 0 then mb_exit b (rc, len, m)
      else case steps ss v b of
        (Return r, _, b) \<Rightarrow> do { r \<leftarrow> r; mb_exit b (r, len, mb_mem b) }
      | (Go, _, b) \<Rightarrow>
          let (rc, used, b) = pldm_msgbuf_complete_used b len len in mb_exit b (rc, used, mb_mem b))"

definition decode_bytes ::
    "(int \<Rightarrow> int option) \<Rightarrow> nat \<Rightarrow> 'v step list \<Rightarrow> (msgbuf \<Rightarrow> int \<times> msgbuf) \<Rightarrow> nat \<Rightarrow> nat \<times> u8 list \<Rightarrow> 'v \<Rightarrow>
      (int \<times> 'v) option" where
  "decode_bytes x minsize ss fin len obj v =
     map_option (\<lambda>(r, v, _). (r, v)) (on_buffer x minsize ss fin (fst obj) (snd obj) len v)"

definition decode_msg ::
    "(int \<Rightarrow> int option) \<Rightarrow> nat \<Rightarrow> 'v step list \<Rightarrow> (msgbuf \<Rightarrow> int \<times> msgbuf) \<Rightarrow> nat \<Rightarrow> pldm_msg \<Rightarrow> 'v \<Rightarrow>
      (int \<times> 'v) option" where
  "decode_msg x minsize ss fin len msg v = decode_bytes x minsize ss fin len (m_addr msg, m_payload msg) v"

definition encode_msg ::
    "(int \<Rightarrow> int option) \<Rightarrow> nat \<Rightarrow> 'v step list \<Rightarrow> (msgbuf \<Rightarrow> int \<times> msgbuf) \<Rightarrow> nat \<Rightarrow> 'v \<Rightarrow> pldm_msg \<Rightarrow>
      (int \<times> pldm_msg) option" where
  "encode_msg x minsize ss fin len v msg =
     map_option (\<lambda>(r, _, m). (r, msg\<lparr>m_payload := m\<rparr>))
       (on_buffer x minsize ss fin (m_addr msg) (m_payload msg) len v)"

text \<open>
  The check for NULL pointers: \<open>None\<close> for the object stands for any of the pointers that the function
  tests together.
\<close>

definition if_set :: "int \<Rightarrow> 'm option \<Rightarrow> 'v option \<Rightarrow> ('m \<Rightarrow> 'v \<Rightarrow> (int \<times> 'v) option) \<Rightarrow> (int \<times> 'v option) option" where
  "if_set err msg out f =
     (case (msg, out) of
        (Some m, Some v) \<Rightarrow> map_option (apsnd Some) (f m v)
      | _ \<Rightarrow> Some (err, out))"

definition if_msg :: "int \<Rightarrow> 'm option \<Rightarrow> ('m \<Rightarrow> (int \<times> 'm) option) \<Rightarrow> (int \<times> 'm option) option" where
  "if_msg err msg f = (case msg of None \<Rightarrow> Some (err, None) | Some m \<Rightarrow> map_option (apsnd Some) (f m))"

text \<open>Packing the header first, in the two styles of return value.\<close>

abbreviation (input) codec_header :: "u8 \<Rightarrow> u8 \<Rightarrow> u8 \<Rightarrow> u8 \<Rightarrow> pldm_header_info" where
  "codec_header mt inst ty cmd \<equiv>
     header_zero\<lparr>hi_msg_type := mt, hi_instance := inst, hi_pldm_type := ty, hi_command := cmd\<rparr>"

definition with_header_cc ::
    "u8 \<Rightarrow> u8 \<Rightarrow> u8 \<Rightarrow> u8 \<Rightarrow> (pldm_msg \<Rightarrow> (int \<times> pldm_msg) option) \<Rightarrow> pldm_msg \<Rightarrow> (int \<times> pldm_msg) option" where
  "with_header_cc mt inst ty cmd f msg = do {
     (rc, msg) \<leftarrow> msg_pack (codec_header mt inst ty cmd) msg;
     if rc \<noteq> 0 then Some (int (unat rc), msg) else f msg }"

definition with_header_errno ::
    "u8 \<Rightarrow> u8 \<Rightarrow> u8 \<Rightarrow> u8 \<Rightarrow> (pldm_msg \<Rightarrow> (int \<times> pldm_msg) option) \<Rightarrow> pldm_msg \<Rightarrow> (int \<times> pldm_msg) option" where
  "with_header_errno mt inst ty cmd f msg =
     (let (rc, msg) = msg_pack_errno (codec_header mt inst ty cmd) msg in
      if rc \<noteq> 0 then Some (rc, msg) else f msg)"

text \<open>A struct laid over the start of the payload is filled.\<close>

definition fill :: "u8 list \<Rightarrow> pldm_msg \<Rightarrow> (int \<times> pldm_msg) option" where
  "fill bs msg = do { msg \<leftarrow> put_bytes 0 bs msg; Some (0, msg) }"

text \<open>An encoder that stores the length it used.\<close>

definition encode_used ::
    "nat \<Rightarrow> 'v step list \<Rightarrow> 'v \<Rightarrow> pldm_msg \<Rightarrow> nat \<Rightarrow> (int \<times> pldm_msg \<times> nat) option" where
  "encode_used minsize ss v msg len =
     map_option (\<lambda>(rc, len, m). (rc, msg\<lparr>m_payload := m\<rparr>, len))
       (on_buffer_used minsize ss (m_addr msg) (m_payload msg) len v)"

text \<open>The first byte of a response that reports an error, tested before the msgbuf is set up.\<close>

definition unless_error ::
    "pldm_msg \<Rightarrow> nat \<Rightarrow> ((u8 \<Rightarrow> u8) \<Rightarrow> 'v \<Rightarrow> 'v) \<Rightarrow> 'v \<Rightarrow> (int \<times> 'v) option \<Rightarrow> (int \<times> 'v) option" where
  "unless_error m len upd v rest = do {
     cc \<leftarrow> pldm_msg_has_error m len;
     if cc \<noteq> 0 then Some (0, upd (\<lambda>_. cc) v) else rest }"

section \<open>Memory safety\<close>

text \<open>
  A step keeps an invariant \<open>I\<close> of the objects: on a msgbuf in order it goes on with a msgbuf in order, or
  returns a value with a msgbuf that was discarded or completed.
\<close>

definition keeps :: "('v \<Rightarrow> bool) \<Rightarrow> 'v step \<Rightarrow> bool" where
  "keeps I s \<longleftrightarrow> (\<forall>v b. I v \<longrightarrow> mb_ok b \<longrightarrow>
     (case s v b of (Go, v', b') \<Rightarrow> I v' \<and> mb_ok b' | (Return r, v', b') \<Rightarrow> I v' \<and> r \<noteq> None \<and> mb_done b'))"

lemma keepsI:
  assumes "\<And>v b. I v \<Longrightarrow> mb_ok b \<Longrightarrow>
    (case s v b of (Go, v', b') \<Rightarrow> I v' \<and> mb_ok b' | (Return r, v', b') \<Rightarrow> I v' \<and> r \<noteq> None \<and> mb_done b')"
  shows "keeps I s"
  using assms by (simp add: keeps_def)

lemma keepsD:
  assumes "keeps I s" "I v" "mb_ok b"
  obtains v' b' where "s v b = (Go, v', b')" "I v'" "mb_ok b'"
  | r v' b' where "s v b = (Return (Some r), v', b')" "I v'" "mb_done b'"
proof -
  have "case s v b of (Go, v', b') \<Rightarrow> I v' \<and> mb_ok b' | (Return r, v', b') \<Rightarrow> I v' \<and> r \<noteq> None \<and> mb_done b'"
    using assms(1) [unfolded keeps_def, rule_format, OF assms(2,3)] .
  then show thesis using that by (cases "s v b") (auto split: outcome.splits)
qed

lemma discard_done: "mb_ok b \<Longrightarrow> mb_done (snd (pldm__msgbuf_discard b e))"
  by (simp add: mb_ok_def mb_done_def pldm__msgbuf_discard_def pldm__msgbuf_set_invalid_def pldm__msgbuf_cleanup_def)

lemma keeps_leave: "mb_ok b \<Longrightarrow> I v \<Longrightarrow> x rc \<noteq> None \<Longrightarrow>
    (case leave x rc v b of (Go, v', b') \<Rightarrow> I v' \<and> mb_ok b' | (Return r, v', b') \<Rightarrow> I v' \<and> r \<noteq> None \<and> mb_done b')"
  using discard_done [of b rc] by (simp add: leave_def split_beta) (simp add: pldm__msgbuf_discard_def)

lemma keeps_steps: "(\<And>s. s \<in> set ss \<Longrightarrow> keeps I s) \<Longrightarrow> keeps I (steps ss)"
proof (induction ss)
  case (Cons s ss)
  show ?case
  proof (rule keepsI)
    fix v b assume vb: "I v" "mb_ok b"
    have s: "keeps I s" and ss: "keeps I (steps ss)" using Cons by auto
    from s vb show "case steps (s # ss) v b of (Go, v', b') \<Rightarrow> I v' \<and> mb_ok b'
        | (Return r, v', b') \<Rightarrow> I v' \<and> r \<noteq> None \<and> mb_done b'"
    proof (cases rule: keepsD)
      case (1 v' b')
      then show ?thesis using ss unfolding keeps_def by simp
    qed simp
  qed
qed (simp add: keeps_def)

lemma keeps_Nil [step_keeps]: "keeps I (steps [])"
  by (simp add: keeps_def)

lemma keeps_Cons [step_keeps]: "keeps I s \<Longrightarrow> keeps I (steps ss) \<Longrightarrow> keeps I (steps (s # ss))"
  by (rule keepsI) (erule (1) keepsD [of I s], assumption, auto simp: keeps_def)

text \<open>An error number that the msgbuf hands out can be translated.\<close>

definition msgbuf_errno :: "int \<Rightarrow> bool" where
  "msgbuf_errno rc \<longleftrightarrow> rc = - EOVERFLOW \<or> rc = - EINVAL \<or> rc = - EBADMSG"

definition translates :: "(int \<Rightarrow> int option) \<Rightarrow> bool" where
  "translates x \<longleftrightarrow> (\<forall>rc. msgbuf_errno rc \<longrightarrow> x rc \<noteq> None)"

lemma translates_simps [simp]: "translates as_errno" "translates as_cc" "translates (\<lambda>_. Some r)" "translates Some"
  by (auto simp: translates_def as_errno_def as_cc_def msgbuf_errno_def pldm_xlate_errno_def)

lemma extract_errno: "fst (msgbuf_extract b d) = 0 \<or> msgbuf_errno (fst (msgbuf_extract b d))"
  by (simp add: msgbuf_extract_def Let_def mb_overflow_def pldm__msgbuf_set_invalid_def msgbuf_errno_def split_beta)

lemma insert_errno: "fst (msgbuf_insert b d) = 0 \<or> msgbuf_errno (fst (msgbuf_insert b d))"
  by (simp add: msgbuf_insert_def Let_def mb_overflow_def pldm__msgbuf_set_invalid_def msgbuf_errno_def split_beta)

lemma array_errno:
  "fst (pldm__msgbuf_extract_array_void b n d sz) = 0 \<or> msgbuf_errno (fst (pldm__msgbuf_extract_array_void b n d sz))"
  "fst (pldm__msgbuf_insert_array_void b n d sz) = 0 \<or> msgbuf_errno (fst (pldm__msgbuf_insert_array_void b n d sz))"
  "fst (pldm__msgbuf_span_required b n) = 0 \<or> msgbuf_errno (fst (pldm__msgbuf_span_required b n))"
  by (simp_all add: pldm__msgbuf_extract_array_void_def pldm__msgbuf_insert_array_void_def pldm__msgbuf_span_required_def
      Let_def mb_overflow_def pldm__msgbuf_set_invalid_def msgbuf_errno_def split_beta)

lemma keeps_get [step_keeps]: "(\<And>f v. I v \<Longrightarrow> I (upd f v)) \<Longrightarrow> keeps I (get upd)" for upd :: "('a::len word \<Rightarrow> 'a word) \<Rightarrow> 'v \<Rightarrow> 'v"
  using msgbuf_op.op_ok [OF msgbuf_op_extract [where 'a = 'a]] by (auto simp: keeps_def get_def rc_of_def)

lemma keeps_get_or [step_keeps]:
  fixes upd :: "('a::len word \<Rightarrow> 'a word) \<Rightarrow> 'v \<Rightarrow> 'v"
  assumes "translates x" "\<And>f v. I v \<Longrightarrow> I (upd f v)"
  shows "keeps I (get_or x upd)"
proof (rule keepsI)
  fix v b assume "I v" "mb_ok b"
  moreover from this have "mb_ok (snd (snd (msgbuf_extract b (0 :: 'a word))))"
    using msgbuf_op.op_ok [OF msgbuf_op_extract [where 'a = 'a]] by (auto simp: rc_of_def)
  ultimately show "case get_or x upd v b of (Go, v', b') \<Rightarrow> I v' \<and> mb_ok b'
      | (Return r, v', b') \<Rightarrow> I v' \<and> r \<noteq> None \<and> mb_done b'"
    using assms extract_errno [of b "0 :: 'a word"] keeps_leave [of _ I v x]
    by (auto simp: get_or_def translates_def split_beta)
qed

lemma keeps_put [step_keeps]: "keeps I (put f)" for f :: "'v \<Rightarrow> 'a::len word"
  using msgbuf_op.op_ok [OF msgbuf_op_insert [where 'a = 'a]] by (auto simp: keeps_def put_def)

lemma keeps_put_or [step_keeps]: "translates x \<Longrightarrow> keeps I (put_or x f)" for f :: "'v \<Rightarrow> 'a::len word"
proof (rule keepsI)
  fix v b assume "translates x" "I v" "mb_ok b"
  moreover from this have "mb_ok (snd (msgbuf_insert b (f v)))"
    using msgbuf_op.op_ok [OF msgbuf_op_insert [where 'a = 'a]] by auto
  ultimately show "case put_or x f v b of (Go, v', b') \<Rightarrow> I v' \<and> mb_ok b'
      | (Return r, v', b') \<Rightarrow> I v' \<and> r \<noteq> None \<and> mb_done b'"
    using insert_errno [of b "f v"] keeps_leave [of _ I v x] by (auto simp: put_or_def translates_def split_beta)
qed

lemma keeps_get_array_or [step_keeps]:
  assumes "translates x" "\<And>v d. I v \<Longrightarrow> length d = length (arr v) \<Longrightarrow> I (upd (\<lambda>_. d) v)"
    and "\<And>v. I v \<Longrightarrow> n v \<le> sz v \<Longrightarrow> n v \<le> length (arr v)"
  shows "keeps I (get_array_or x n sz arr upd)"
proof (rule keepsI)
  fix v b assume vb: "I v" "mb_ok b"
  obtain rc d b' where e: "pldm__msgbuf_extract_array_void b (n v) (arr v) (sz v) = (rc, d, b')" by (metis surj_pair)
  have ok: "mb_ok b'"
    using msgbuf_op.op_ok [OF msgbuf_op_extract_array, of "n v" "sz v" b "arr v"] vb(2) e
    by (cases "n v \<le> sz v") (auto simp: rc_of_def, simp add: pldm__msgbuf_extract_array_void_def)
  have d: "n v \<le> length (arr v) \<and> length d = length (arr v)" if "rc = 0"
    using e vb that assms(3) [OF vb(1)]
    by (auto simp: pldm__msgbuf_extract_array_void_def bytes_at_def mb_ok_def split_beta split: if_splits option.splits)
  show "case get_array_or x n sz arr upd v b of (Go, v', b') \<Rightarrow> I v' \<and> mb_ok b'
      | (Return r, v', b') \<Rightarrow> I v' \<and> r \<noteq> None \<and> mb_done b'"
  proof (cases "rc = 0")
    case True
    then show ?thesis using d ok assms(2) [OF vb(1)] by (simp add: get_array_or_def e)
  next
    case False
    then have "x rc \<noteq> None" using assms(1) array_errno(1) [of b "n v" "arr v" "sz v"] by (auto simp: translates_def e)
    then show ?thesis using False ok vb keeps_leave [of b' I v x rc] by (simp add: get_array_or_def e)
  qed
qed

lemma keeps_put_array_or [step_keeps]:
  assumes "translates x" "\<And>v. I v \<Longrightarrow> n v \<le> length (arr v)"
  shows "keeps I (put_array_or x n arr)"
proof (rule keepsI)
  fix v b assume "I v" "mb_ok b"
  moreover from this have "mb_ok (snd (pldm__msgbuf_insert_array_void b (n v) (arr v) (n v)))"
    using msgbuf_op.op_ok [OF msgbuf_op_insert_array, of "n v" "n v" "arr v"] assms(2) by simp
  ultimately show "case put_array_or x n arr v b of (Go, v', b') \<Rightarrow> I v' \<and> mb_ok b'
      | (Return r, v', b') \<Rightarrow> I v' \<and> r \<noteq> None \<and> mb_done b'"
    using assms array_errno(2) [of b "n v" "arr v" "n v"] keeps_leave [of _ I v x]
    by (auto simp: put_array_or_def translates_def split_beta)
qed

lemma keeps_span [step_keeps]: "(\<And>p v. I v \<Longrightarrow> I (upd p v)) \<Longrightarrow> keeps I (span n upd)"
  using span_required.op_ok by (auto simp: keeps_def span_def rc_of_def split_beta)

lemma keeps_span_or [step_keeps]:
  assumes "translates x" "\<And>p v. I v \<Longrightarrow> I (upd p v)"
  shows "keeps I (span_or x n upd)"
proof (rule keepsI)
  fix v b assume "I v" "mb_ok b"
  moreover from this have "mb_ok (snd (snd (pldm__msgbuf_span_required b (n v))))"
    using span_required.op_ok by (auto simp: rc_of_def)
  ultimately show "case span_or x n upd v b of (Go, v', b') \<Rightarrow> I v' \<and> mb_ok b'
      | (Return r, v', b') \<Rightarrow> I v' \<and> r \<noteq> None \<and> mb_done b'"
    using assms array_errno(3) [of b "n v"] keeps_leave [of _ I v x]
    by (auto simp: span_or_def translates_def split_beta)
qed

lemma keeps_refuse [step_keeps]: "keeps I (refuse P r)"
proof (rule keepsI)
  fix v b assume "I v" "mb_ok b"
  then show "case refuse P r v b of (Go, v', b') \<Rightarrow> I v' \<and> mb_ok b'
      | (Return r, v', b') \<Rightarrow> I v' \<and> r \<noteq> None \<and> mb_done b'"
    using keeps_leave [of b I v Some r] by (cases "P v") (simp_all add: refuse_def)
qed

lemma keeps_assign [step_keeps]: "(\<And>v. I v \<Longrightarrow> I (f v)) \<Longrightarrow> keeps I (assign f)"
  by (auto simp: keeps_def assign_def)

lemma keeps_object_has [step_keeps]: "(\<And>v. I v \<Longrightarrow> P v) \<Longrightarrow> keeps I (object_has P)"
  by (auto simp: keeps_def object_has_def)

lemma keeps_only [step_keeps]: "keeps I (steps ss) \<Longrightarrow> keeps I (only P ss)"
  by (auto simp: keeps_def only_def)

lemma keeps_concat:
  "(\<And>i. i \<in> set is \<Longrightarrow> keeps I (steps (f i))) \<Longrightarrow> keeps I (steps (concat (map f is)))"
proof (induction "is")
  case (Cons i "is")
  have "steps (concat (map f (i # is))) = steps [steps (f i), steps (concat (map f is))]"
    by (intro ext) (simp add: steps_append del: steps.simps)
  then show ?case using Cons by (simp add: keeps_Cons keeps_Nil del: steps.simps)
qed (simp add: keeps_def)

text \<open>A loop with a bound on its counter, and one whose body does not use the counter.\<close>

lemma keeps_times:
  assumes "\<And>v. I v \<Longrightarrow> n v \<le> k" "\<And>i. i < k \<Longrightarrow> keeps I (steps (f i))"
  shows "keeps I (times n f)"
proof (rule keepsI)
  fix v b assume vb: "I v" "mb_ok b"
  have "keeps I (steps (concat (map f [0..<n v])))"
    using assms(2) assms(1) [OF vb(1)] by (intro keeps_concat) simp
  with vb show "case times n f v b of (Go, v', b') \<Rightarrow> I v' \<and> mb_ok b'
      | (Return r, v', b') \<Rightarrow> I v' \<and> r \<noteq> None \<and> mb_done b'"
    by (simp add: times_def keeps_def)
qed

lemma keeps_times_any:
  assumes "\<And>i. keeps I (steps (f i))"
  shows "keeps I (times n f)"
  using keeps_concat [of _ I f] assms by (simp add: keeps_def times_def)

text \<open>What a test has refused holds of no state behind it.\<close>

lemma keeps_guard:
  assumes "keeps (\<lambda>v. I v \<and> \<not> P v) (steps ss)"
  shows "keeps I (steps (refuse P r # ss))"
proof (rule keepsI)
  fix v b assume vb: "I v" "mb_ok b"
  show "case steps (refuse P r # ss) v b of (Go, v', b') \<Rightarrow> I v' \<and> mb_ok b'
      | (Return r, v', b') \<Rightarrow> I v' \<and> r \<noteq> None \<and> mb_done b'"
  proof (cases "P v")
    case True
    then show ?thesis using vb discard_done [of b r]
      by (simp add: refuse_def leave_def split_beta pldm__msgbuf_discard_def)
  next
    case False
    with assms vb show ?thesis by (elim keepsD [of _ _ v b]) (simp_all add: refuse_def)
  qed
qed

text \<open>The ways to complete a msgbuf.\<close>

definition finishes :: "(msgbuf \<Rightarrow> int \<times> msgbuf) \<Rightarrow> bool" where
  "finishes fin \<longleftrightarrow>
     (\<forall>b. mb_ok b \<longrightarrow> mb_done (snd (fin b)) \<and> (fst (fin b) = 0 \<or> msgbuf_errno (fst (fin b))))"

lemma finishes_complete [simp]: "finishes pldm_msgbuf_complete" "finishes pldm_msgbuf_complete_consumed"
  using discard_done
  by (auto simp: finishes_def pldm_msgbuf_complete_def pldm_msgbuf_complete_consumed_def msgbuf_errno_def
      pldm__msgbuf_validate_def pldm__msgbuf_consumed_def) (simp_all add: pldm__msgbuf_discard_def split: if_splits)

lemma keeps_stop_with [step_keeps]:
  assumes "translates x" "finishes fin"
  shows "keeps I (stop_with x fin P)"
proof (rule keepsI)
  fix v b assume "I v" "mb_ok b"
  then show "case stop_with x fin P v b of (Go, v', b') \<Rightarrow> I v' \<and> mb_ok b'
      | (Return r, v', b') \<Rightarrow> I v' \<and> r \<noteq> None \<and> mb_done b'"
    using assms by (auto simp: stop_with_def finishes_def translates_def split_beta)
qed

text \<open>No codec made of steps that keep an invariant reaches undefined behaviour.\<close>

lemma on_buffer_defined:
  assumes "keeps I (steps ss)" "translates x" "finishes fin" "I v" "len \<le> length m"
  shows "\<exists>r v' m'. on_buffer x minsize ss fin a m len v = Some (r, v', m') \<and> I v'"
proof (cases "pldm__msgbuf_init_errno minsize a m len = (- EOVERFLOW, dead_mb a m)")
  case True
  moreover obtain r where "x (- EOVERFLOW) = Some r" using assms(2) by (auto simp: translates_def msgbuf_errno_def)
  ultimately show ?thesis using assms(4) by (simp add: on_buffer_def mb_exit_dead)
next
  case False
  then have init: "pldm__msgbuf_init_errno minsize a m len = (0, live_mb a m 0 (int len))" "int len \<le> INTMAX_MAX"
    by (auto simp: pldm__msgbuf_init_errno_def pldm__msgbuf_set_invalid_def dead_mb_def live_mb_def Let_def split: if_splits)
  then have ok: "mb_ok (live_mb a m 0 (int len))" using assms(5) by (simp add: mb_ok_def mb_simps)
  from assms(1,4) ok show ?thesis
  proof (cases rule: keepsD)
    case (1 v' b')
    then have "mb_done (snd (fin b'))" "fst (fin b') \<noteq> 0 \<Longrightarrow> x (fst (fin b')) \<noteq> None"
      using assms(2,3) by (auto simp: finishes_def translates_def)
    then show ?thesis using 1 init(1) by (auto simp: on_buffer_def mb_exit_def mb_done_def split_beta)
  next
    case (2 r v' b')
    then show ?thesis using init(1) by (simp add: on_buffer_def mb_exit_def mb_done_def)
  qed
qed

lemma defined_decode_msg:
  assumes "keeps I (steps ss)" "translates x" "finishes fin" "I v" "len \<le> length (m_payload msg)"
  shows "defined (decode_msg x minsize ss fin len msg v)"
  using on_buffer_defined [OF assms, of minsize "m_addr msg"]
  by (auto simp: decode_msg_def decode_bytes_def defined_def)

lemma defined_decode_bytes:
  assumes "keeps I (steps ss)" "translates x" "finishes fin" "I v" "len \<le> length (snd obj)"
  shows "defined (decode_bytes x minsize ss fin len obj v)"
  using on_buffer_defined [OF assms, of minsize "fst obj"] by (auto simp: decode_bytes_def defined_def)

lemma defined_encode_msg:
  assumes "keeps I (steps ss)" "translates x" "finishes fin" "I v" "len \<le> length (m_payload msg)"
  shows "defined (encode_msg x minsize ss fin len v msg)"
  using on_buffer_defined [OF assms, of minsize "m_addr msg"] by (auto simp: encode_msg_def defined_def)

lemma defined_if_set [codec_safe]:
  "(\<And>m v. msg = Some m \<Longrightarrow> out = Some v \<Longrightarrow> defined (f m v)) \<Longrightarrow> defined (if_set err msg out f)"
  by (auto simp: if_set_def defined_def split: option.splits)

lemma defined_if_msg [codec_safe]: "(\<And>m. msg = Some m \<Longrightarrow> defined (f m)) \<Longrightarrow> defined (if_msg err msg f)"
  by (auto simp: if_msg_def defined_def split: option.splits)

lemma any_out [simp]: "pred_option (\<lambda>_. True) out"
  by (cases out) simp_all

lemma safe_msg:
  assumes "ptr_holds len msg" "pred_option I out" "translates x" "finishes fin" "keeps I (steps ss)"
  shows "defined (if_set err msg out (decode_msg x minsize ss fin len))"
  using assms by (intro defined_if_set defined_decode_msg [of I]) (auto simp: ptr_holds_def msg_holds_def)

lemma safe_msg_unless:
  assumes "ptr_holds len msg" "pred_option I out" "translates x" "finishes fin" "keeps I (steps ss)"
  shows "defined (if_set err msg out (\<lambda>m v. if c then Some (r, v) else decode_msg x minsize ss fin len m v))"
  using safe_msg [OF assms, of err minsize] by (cases c) (auto simp: if_set_def defined_def split: option.splits)

lemma safe_msg_errors:
  assumes "ptr_holds len msg" "pred_option I out" "translates x" "finishes fin" "keeps I (steps ss)"
  shows "defined (if_set err msg out (\<lambda>m v. unless_error m len upd v (decode_msg x minsize ss fin len m v)))"
proof (rule defined_if_set)
  fix m v assume mv: "msg = Some m" "out = Some v"
  then have "defined (decode_msg x minsize ss fin len m v)"
    using assms by (intro defined_decode_msg [of I]) (auto simp: ptr_holds_def msg_holds_def)
  moreover have "defined (pldm_msg_has_error m len)"
    using assms(1) mv by (intro defined_has_error) (simp add: ptr_holds_def msg_holds_def)
  ultimately show "defined (unless_error m len upd v (decode_msg x minsize ss fin len m v))"
    by (auto simp: unless_error_def defined_def simp del: pldm_msg_has_error.simps)
qed

lemma safe_msg_then:
  assumes "ptr_holds len msg" "pred_option I out" "translates x" "finishes fin" "keeps I (steps ss)"
  shows "defined (if_set err msg out (\<lambda>m v. decode_msg x minsize ss fin len m v \<bind> (\<lambda>(rc, v). Some (g rc v))))"
  using safe_msg [OF assms, of err minsize]
  by (auto simp: if_set_def defined_def split: option.splits bind_splits)

section \<open>What steps read\<close>

text \<open>
  With the bytes \<open>bs\<close> at offset \<open>c\<close> of the buffer, the step goes on behind them and makes \<open>v'\<close> of \<open>v\<close>.
\<close>

definition reads :: "nat \<Rightarrow> 'v step \<Rightarrow> 'v \<Rightarrow> u8 list \<Rightarrow> 'v \<Rightarrow> bool" where
  "reads c s v bs v' \<longleftrightarrow> (\<forall>a m r. c + length bs \<le> length m \<longrightarrow> bytes_at m c (length bs) = bs \<longrightarrow>
     int (length bs) \<le> r \<longrightarrow> r \<le> INTMAX_MAX \<longrightarrow>
     s v (live_mb a m c r) = (Go, v', live_mb a m (c + length bs) (r - int (length bs))))"

lemma reads_Nil [step_reads]: "reads c (steps []) v [] v"
  by (simp add: reads_def)

lemma reads_Cons [step_reads]:
  assumes "reads c s v bs v'" "reads (c + length bs) (steps ss) v' bs' v''"
  shows "reads c (steps (s # ss)) v (bs @ bs') v''"
  unfolding reads_def
proof (intro allI impI)
  fix a m r
  assume *: "c + length (bs @ bs') \<le> length m" "bytes_at m c (length (bs @ bs')) = bs @ bs'"
    "int (length (bs @ bs')) \<le> r" "r \<le> INTMAX_MAX"
  have at: "bytes_at m c (length bs) = bs" "bytes_at m (c + length bs) (length bs') = bs'"
    using *(1,2) bytes_at_split [of m c "length bs" "length bs'"] by simp_all
  have "s v (live_mb a m c r) = (Go, v', live_mb a m (c + length bs) (r - int (length bs)))"
    using assms(1) *(1,3,4) at(1) unfolding reads_def by simp
  moreover have "steps ss v' (live_mb a m (c + length bs) (r - int (length bs))) =
      (Go, v'', live_mb a m (c + length bs + length bs') (r - int (length bs) - int (length bs')))"
    using assms(2) *(1,3,4) at(2) unfolding reads_def by simp
  ultimately show "steps (s # ss) v (live_mb a m c r) =
      (Go, v'', live_mb a m (c + length (bs @ bs')) (r - int (length (bs @ bs'))))"
    by (simp add: algebra_simps)
qed

lemma reads_append:
  assumes "reads c (steps ss) v bs v'" "reads (c + length bs) (steps ss') v' bs' v''"
  shows "reads c (steps (ss @ ss')) v (bs @ bs') v''"
proof -
  have "steps (ss @ ss') v = steps [steps ss, steps ss'] v" by (rule ext) (rule steps_append)
  moreover have "reads c (steps [steps ss, steps ss']) v (bs @ (bs' @ [])) v''"
    by (rule reads_Cons [OF assms(1) reads_Cons [OF assms(2) reads_Nil]])
  ultimately show ?thesis by (simp add: reads_def del: steps.simps)
qed

lemma msgbuf_extract_live:
  assumes "8 dvd LENGTH('a)" "int (LENGTH('a) div 8) \<le> r" "c + LENGTH('a) div 8 \<le> length m"
  shows "msgbuf_extract (live_mb a m c r) (d :: 'a::len word) =
    (0, word_of_le (bytes_at m c (LENGTH('a) div 8)), live_mb a m (c + LENGTH('a) div 8) (r - int (LENGTH('a) div 8)))"
  using msgbuf_field.ext_live [OF msgbuf_field_word [OF assms(1)] assms(2,3)] .

lemma reads_get [step_reads]:
  "8 dvd LENGTH('a) \<Longrightarrow> reads c (get upd) v (le_of_word (w :: 'a::len word)) (upd (\<lambda>_. w) v)"
  by (simp add: reads_def get_def msgbuf_extract_live)

lemma reads_get_or [step_reads]:
  "8 dvd LENGTH('a) \<Longrightarrow> reads c (get_or x upd) v (le_of_word (w :: 'a::len word)) (upd (\<lambda>_. w) v)"
  by (simp add: reads_def get_or_def msgbuf_extract_live)

lemma reads_get_array_or [step_reads]:
  assumes "length bs = n v" "n v \<le> sz v" "n v \<le> length (arr v)"
  shows "reads c (get_array_or x n sz arr upd) v bs (upd (\<lambda>_. poke (arr v) 0 bs) v)"
  using assms
  by (cases "n v = 0") (auto simp: reads_def get_array_or_def pldm__msgbuf_extract_array_void_def live_mb_step)

lemma reads_span [step_reads]: "length bs = n v \<Longrightarrow> reads c (span n upd) v bs (upd (Some c) v)"
  by (simp add: reads_def span_def span_required_live)

lemma reads_span_or [step_reads]: "length bs = n v \<Longrightarrow> reads c (span_or x n upd) v bs (upd (Some c) v)"
  by (simp add: reads_def span_or_def span_required_live)

lemma reads_refuse [step_reads]: "\<not> P v \<Longrightarrow> reads c (refuse P r) v [] v"
  by (simp add: reads_def refuse_def)

lemma reads_stop_with [step_reads]: "\<not> P v \<Longrightarrow> reads c (stop_with x fin P) v [] v"
  by (simp add: reads_def stop_with_def)

lemma reads_assign [step_reads]: "reads c (assign f) v [] (f v)"
  by (simp add: reads_def assign_def)

lemma reads_object_has [step_reads]: "P v \<Longrightarrow> reads c (object_has P) v [] v"
  by (simp add: reads_def object_has_def)

lemma reads_only:
  "P v \<Longrightarrow> reads c (steps ss) v bs v' \<Longrightarrow> reads c (only P ss) v bs v'"
  "\<not> P v \<Longrightarrow> reads c (only P ss) v [] v"
  by (simp_all add: reads_def only_def)

lemma reads_times: "reads c (steps (concat (map f [0..<n v]))) v bs v' \<Longrightarrow> reads c (times n f) v bs v'"
  by (simp add: reads_def times_def)

text \<open>
  The contract of a message format: encoding \<open>enc\<close> gives bytes that a sequence of steps reads back. A
  decoder that runs it on such bytes succeeds.
\<close>

lemma on_buffer_reads:
  assumes "reads 0 (steps ss) v bs v'" "take (length bs) m = bs" "len \<le> length m" "length bs \<le> len"
    and "minsize \<le> len" "int len \<le> INTMAX_MAX" "a + len \<le> UINTPTR_MAX"
    and "fin = pldm_msgbuf_complete \<or> fin = pldm_msgbuf_complete_consumed \<and> len = length bs"
  shows "on_buffer x minsize ss fin a m len v = Some (0, v', m)"
proof -
  have "steps ss v (live_mb a m 0 (int len)) = (Go, v', live_mb a m (length bs) (int len - int (length bs)))"
    using assms(1-4,6) unfolding reads_def by (simp add: bytes_at_def)
  moreover have "pldm__msgbuf_init_errno minsize a m len = (0, live_mb a m 0 (int len))"
    using assms(5-7) by (rule init_errno_live)
  ultimately show ?thesis
    using assms(4,8) by (auto simp: on_buffer_def mb_simps)
qed

locale wire_format =
  fixes ss :: "'v step list" and enc :: "'w \<Rightarrow> u8 list" and out :: "'w \<Rightarrow> 'v \<Rightarrow> 'v" and ok :: "'w \<Rightarrow> 'v \<Rightarrow> bool"
  assumes format_reads: "ok w v \<Longrightarrow> reads 0 (steps ss) v (enc w) (out w v)"
begin

lemma decode_bytes_enc:
  assumes "ok w v" "minsize \<le> length (enc w)" "int (length (enc w)) \<le> INTMAX_MAX" "a + length (enc w) \<le> UINTPTR_MAX"
    and "fin = pldm_msgbuf_complete \<or> fin = pldm_msgbuf_complete_consumed"
  shows "decode_bytes x minsize ss fin (length (enc w)) (a, enc w @ rest) v = Some (0, out w v)"
  using on_buffer_reads [OF format_reads [OF assms(1)], of "enc w @ rest" "length (enc w)" minsize a fin x] assms
  by (auto simp: decode_bytes_def)

lemma decode_msg_enc:
  assumes "ok w v" "minsize \<le> length (enc w)" "msg_holds (length (enc w)) msg"
    and "take (length (enc w)) (m_payload msg) = enc w"
    and "fin = pldm_msgbuf_complete \<or> fin = pldm_msgbuf_complete_consumed"
  shows "decode_msg x minsize ss fin (length (enc w)) msg v = Some (0, out w v)"
proof -
  have "on_buffer x minsize ss fin (m_addr msg) (m_payload msg) (length (enc w)) v = Some (0, out w v, m_payload msg)"
    using assms by (intro on_buffer_reads [OF format_reads]) (auto simp: msg_holds_def)
  then show ?thesis by (simp add: decode_msg_def decode_bytes_def)
qed

end

section \<open>What steps write\<close>

definition writes :: "'v step \<Rightarrow> 'v \<Rightarrow> u8 list \<Rightarrow> bool" where
  "writes s v bs \<longleftrightarrow> (\<forall>a m c r. c + length bs \<le> length m \<longrightarrow> int (length bs) \<le> r \<longrightarrow> r \<le> INTMAX_MAX \<longrightarrow>
     s v (live_mb a m c r) = (Go, v, live_mb a (poke m c bs) (c + length bs) (r - int (length bs))))"

lemma writes_Nil [step_reads]: "writes (steps []) v []"
  by (simp add: writes_def)

lemma writes_Cons [step_reads]:
  assumes "writes s v bs" "writes (steps ss) v bs'"
  shows "writes (steps (s # ss)) v (bs @ bs')"
  using assms unfolding writes_def by (simp add: poke_poke algebra_simps)

lemma writes_put [step_reads]: "8 dvd LENGTH('a) \<Longrightarrow> writes (put f) v (le_of_word (f v :: 'a::len word))"
  using msgbuf_field.ins_live [OF msgbuf_field_word [where 'a = 'a]] by (simp add: writes_def put_def)

lemma writes_put_or [step_reads]: "8 dvd LENGTH('a) \<Longrightarrow> writes (put_or x f) v (le_of_word (f v :: 'a::len word))"
  using msgbuf_field.ins_live [OF msgbuf_field_word [where 'a = 'a]] by (simp add: writes_def put_or_def)

lemma writes_put_array_or [step_reads]: "n v \<le> length (arr v) \<Longrightarrow> writes (put_array_or x n arr) v (take (n v) (arr v))"
  by (auto simp: writes_def put_array_or_def pldm__msgbuf_insert_array_void_def live_mb_step mb_simps) (simp add: live_mb_def mb_advance_def)

lemma writes_refuse [step_reads]: "\<not> P v \<Longrightarrow> writes (refuse P r) v []"
  by (simp add: writes_def refuse_def)

lemma writes_stop_with [step_reads]: "\<not> P v \<Longrightarrow> writes (stop_with x fin P) v []"
  by (simp add: writes_def stop_with_def)

lemma writes_only: "P v \<Longrightarrow> writes (steps ss) v bs \<Longrightarrow> writes (only P ss) v bs" "\<not> P v \<Longrightarrow> writes (only P ss) v []"
  by (simp_all add: writes_def only_def)

lemma writes_times: "writes (steps (concat (map f [0..<n v]))) v bs \<Longrightarrow> writes (times n f) v bs"
  by (simp add: writes_def times_def)

lemma on_buffer_writes:
  assumes "writes (steps ss) v bs" "len \<le> length m" "length bs \<le> len"
    and "minsize \<le> len" "int len \<le> INTMAX_MAX" "a + len \<le> UINTPTR_MAX"
    and "fin = pldm_msgbuf_complete \<or> fin = pldm_msgbuf_complete_consumed \<and> len = length bs"
  shows "on_buffer x minsize ss fin a m len v = Some (0, v, poke m 0 bs)"
proof -
  have "steps ss v (live_mb a m 0 (int len)) = (Go, v, live_mb a (poke m 0 bs) (length bs) (int len - int (length bs)))"
    using assms(1-3,5) unfolding writes_def by simp
  moreover have "pldm__msgbuf_init_errno minsize a m len = (0, live_mb a m 0 (int len))"
    using assms(4-6) by (rule init_errno_live)
  ultimately show ?thesis
    using assms(3,7) by (auto simp: on_buffer_def mb_simps)
qed

lemma on_buffer_used_writes:
  assumes "writes (steps ss) v bs" "len \<le> length m" "length bs \<le> len"
    and "minsize \<le> len" "int len \<le> INTMAX_MAX" "a + len \<le> UINTPTR_MAX"
  shows "on_buffer_used minsize ss a m len v = Some (0, length bs, poke m 0 bs)"
proof -
  have "steps ss v (live_mb a m 0 (int len)) = (Go, v, live_mb a (poke m 0 bs) (length bs) (int len - int (length bs)))"
    using assms(1-3,5) unfolding writes_def by simp
  moreover have "pldm__msgbuf_init_errno minsize a m len = (0, live_mb a m 0 (int len))"
    using assms(4-6) by (rule init_errno_live)
  ultimately show ?thesis
    using assms(3) by (auto simp: on_buffer_used_def mb_simps)
qed

section \<open>Reading step by step\<close>

text \<open>The first step of a sequence takes its bytes, or none; the next one goes on behind them.\<close>

lemmas reads_get_next [reads_next] =
  reads_Cons [OF reads_get] reads_Cons [OF reads_get_or] reads_Cons [OF reads_get_array_or]
  reads_Cons [OF reads_span] reads_Cons [OF reads_span_or]

lemma reads_pass:
  assumes "reads c s v [] v'" "reads c (steps ss) v' bs v''"
  shows "reads c (steps (s # ss)) v bs v''"
  using reads_Cons [OF assms(1), of ss bs v''] assms(2) by simp

lemmas reads_pass_next [reads_next] =
  reads_pass [OF reads_refuse] reads_pass [OF reads_stop_with] reads_pass [OF reads_assign]
  reads_pass [OF reads_object_has]

lemmas reads_skip_next = reads_pass [OF reads_only(2)]

lemma reads_only_next:
  assumes "P v" "reads c (steps (ss @ ss')) v bs v'"
  shows "reads c (steps (only P ss # ss')) v bs v'"
proof -
  have "steps (only P ss # ss') v b = steps (ss @ ss') v b" for b
    using assms(1) by (subst steps_append) (simp add: only_def split: outcome.splits prod.splits)
  then show ?thesis using assms(2) by (simp add: reads_def del: steps.simps)
qed

lemma reads_end: "v = v' \<Longrightarrow> reads c (steps []) v [] v'"
  by (simp add: reads_Nil)

end
