(* ===== verification/Platform_Codec.thy ===== *)
theory Platform_Codec
  imports Msgbuf_Steps
begin

text \<open>
  Messages and PDRs of the platform monitoring and control specification,
  \<^verbatim>\<open>src/dsp/platform.c\<close> with \<^verbatim>\<open>src/msgbuf/platform.h\<close>. What a decoder writes through its pointers is a
  record; the object for \<open>NULL\<close> is \<open>None\<close>. Memory holds numbers with the lowest byte first, as the host
  does; a union is the eight bytes of its largest member.
\<close>

abbreviation (input) PLDM_PLATFORM :: u8 where "PLDM_PLATFORM \<equiv> 0x02"
abbreviation (input) PLDM_END :: u8 where "PLDM_END \<equiv> 4"
abbreviation (input) PLDM_START_AND_END :: u8 where "PLDM_START_AND_END \<equiv> 5"
abbreviation (input) SENSOR_DATA_SIZE_MAX :: u8 where "SENSOR_DATA_SIZE_MAX \<equiv> 7"
abbreviation (input) RANGE_FIELD_FORMAT_MAX :: u8 where "RANGE_FIELD_FORMAT_MAX \<equiv> 8"
abbreviation (input) EFFECTER_OPER_STATE_UNAVAILABLE :: u8 where "EFFECTER_OPER_STATE_UNAVAILABLE \<equiv> 3"
abbreviation (input) EFFECTER_OPER_STATE_INTEST :: u8 where "EFFECTER_OPER_STATE_INTEST \<equiv> 8"
abbreviation (input) EVENT_LOGGING_REJECTED :: u8 where "EVENT_LOGGING_REJECTED \<equiv> 5"
abbreviation (input) ASYNC_KEEP_ALIVE :: u8 where "ASYNC_KEEP_ALIVE \<equiv> 3"

text \<open>The response and request encoders of this type.\<close>

abbreviation (input) "platform_resp inst cmd \<equiv> with_header_cc PLDM_RESPONSE inst PLDM_PLATFORM cmd"
abbreviation (input) "platform_req inst cmd \<equiv> with_header_cc PLDM_REQUEST inst PLDM_PLATFORM cmd"

section \<open>Values with a tag\<close>

text \<open>A number is extracted into the first bytes of an object.\<close>

definition into :: "(msgbuf \<Rightarrow> 'a::len word \<Rightarrow> int \<times> 'a word \<times> msgbuf) \<Rightarrow> msgbuf \<Rightarrow> u8 list \<Rightarrow> int \<times> u8 list \<times> msgbuf" where
  "into ext b dst =
     (let (rc, w, b) = ext b 0 in
      if rc \<noteq> 0 then (rc, dst, b)
      else (rc, poke dst 0 (le_of_word w), if length dst < LENGTH('a) div 8 then b\<lparr>mb_fault := True\<rparr> else b))"

definition pldm_msgbuf_extract_sensor_data :: "msgbuf \<Rightarrow> u8 \<Rightarrow> u8 list \<Rightarrow> int \<times> u8 list \<times> msgbuf" where
  "pldm_msgbuf_extract_sensor_data b tag dst =
     (if tag = 0 then into pldm__msgbuf_extract_uint8 b dst
      else if tag = 1 then into pldm__msgbuf_extract_int8 b dst
      else if tag = 2 then into pldm__msgbuf_extract_uint16 b dst
      else if tag = 3 then into pldm__msgbuf_extract_int16 b dst
      else if tag = 4 then into pldm__msgbuf_extract_uint32 b dst
      else if tag = 5 then into pldm__msgbuf_extract_int32 b dst
      else if tag = 6 then into pldm__msgbuf_extract_uint64 b dst
      else if tag = 7 then into pldm__msgbuf_extract_int64 b dst
      else (- PLDM_ERROR_INVALID_DATA, dst, b))"

text \<open>The functions for sensor values, effecter values and effecter data have the same cases.\<close>

definition pldm_msgbuf_extract_sensor_value :: "msgbuf \<Rightarrow> u8 \<Rightarrow> u8 list \<Rightarrow> int \<times> u8 list \<times> msgbuf" where
  "pldm_msgbuf_extract_sensor_value = pldm_msgbuf_extract_sensor_data"

definition pldm_msgbuf_extract_effecter_value :: "msgbuf \<Rightarrow> u8 \<Rightarrow> u8 list \<Rightarrow> int \<times> u8 list \<times> msgbuf" where
  "pldm_msgbuf_extract_effecter_value = pldm_msgbuf_extract_sensor_data"

definition pldm__msgbuf_extract_effecter_data :: "msgbuf \<Rightarrow> u8 \<Rightarrow> u8 list \<Rightarrow> int \<times> u8 list \<times> msgbuf" where
  "pldm__msgbuf_extract_effecter_data = pldm_msgbuf_extract_sensor_data"

definition pldm__msgbuf_extract_range_field_format :: "msgbuf \<Rightarrow> u8 \<Rightarrow> u8 list \<Rightarrow> int \<times> u8 list \<times> msgbuf" where
  "pldm__msgbuf_extract_range_field_format b tag dst =
     (if tag = 0 then into pldm__msgbuf_extract_uint8 b dst
      else if tag = 1 then into pldm__msgbuf_extract_int8 b dst
      else if tag = 2 then into pldm__msgbuf_extract_uint16 b dst
      else if tag = 3 then into pldm__msgbuf_extract_int16 b dst
      else if tag = 4 then into pldm__msgbuf_extract_uint32 b dst
      else if tag = 5 then into pldm__msgbuf_extract_int32 b dst
      else if tag = 6 then into pldm__msgbuf_extract_real32 b dst
      else if tag = 7 then into pldm__msgbuf_extract_uint64 b dst
      else if tag = 8 then into pldm__msgbuf_extract_int64 b dst
      else (- PLDM_ERROR_INVALID_DATA, dst, b))"

text \<open>As steps whose result is ignored.\<close>

definition get_value ::
    "(msgbuf \<Rightarrow> u8 \<Rightarrow> u8 list \<Rightarrow> int \<times> u8 list \<times> msgbuf) \<Rightarrow> ('v \<Rightarrow> u8) \<Rightarrow> ('v \<Rightarrow> u8 list) \<Rightarrow>
      ((u8 list \<Rightarrow> u8 list) \<Rightarrow> 'v \<Rightarrow> 'v) \<Rightarrow> 'v step" where
  "get_value ext tag arr upd v b = (let (_, d, b) = ext b (tag v) (arr v) in (Go, upd (\<lambda>_. d) v, b))"

section \<open>The header of a PDR\<close>

record pldm_value_pdr_hdr =
  vh_record_handle :: u32
  vh_version :: u8
  vh_type :: u8
  vh_record_change_num :: u16
  vh_length :: u16

abbreviation (input) SIZEOF_MSGBUF :: nat where "SIZEOF_MSGBUF \<equiv> 16"

definition pldm_msgbuf_extract_value_pdr_hdr ::
    "msgbuf \<Rightarrow> pldm_value_pdr_hdr \<Rightarrow> nat \<Rightarrow> nat \<Rightarrow> int \<times> pldm_value_pdr_hdr \<times> msgbuf" where
  "pldm_msgbuf_extract_value_pdr_hdr b hdr lower upper =
     (let (_, d, b) = pldm__msgbuf_extract_uint32 b (vh_record_handle hdr); hdr = hdr\<lparr>vh_record_handle := d\<rparr>;
          (_, d, b) = pldm__msgbuf_extract_uint8 b (vh_version hdr); hdr = hdr\<lparr>vh_version := d\<rparr>;
          (_, d, b) = pldm__msgbuf_extract_uint8 b (vh_type hdr); hdr = hdr\<lparr>vh_type := d\<rparr>;
          (_, d, b) = pldm__msgbuf_extract_uint16 b (vh_record_change_num hdr); hdr = hdr\<lparr>vh_record_change_num := d\<rparr>;
          (rc, d, b) = pldm__msgbuf_extract_uint16 b (vh_length hdr); hdr = hdr\<lparr>vh_length := d\<rparr>
      in if rc \<noteq> 0 then (rc, hdr, b)
         else if unat (vh_length hdr) + SIZEOF_MSGBUF < lower then (- EOVERFLOW, hdr, b)
         else if unat (vh_length hdr) > upper then (- EOVERFLOW, hdr, b)
         else (0, hdr, b))"

text \<open>\<open>discard\<close>: whether the msgbuf is discarded before an error is returned.\<close>

definition get_hdr ::
    "bool \<Rightarrow> (int \<Rightarrow> int option) \<Rightarrow> nat \<Rightarrow> nat \<Rightarrow> ('v \<Rightarrow> pldm_value_pdr_hdr) \<Rightarrow>
      ((pldm_value_pdr_hdr \<Rightarrow> pldm_value_pdr_hdr) \<Rightarrow> 'v \<Rightarrow> 'v) \<Rightarrow> 'v step" where
  "get_hdr discard x lower upper hdr upd v b =
     (let (rc, h, b) = pldm_msgbuf_extract_value_pdr_hdr b (hdr v) lower upper; v = upd (\<lambda>_. h) v in
      if rc \<noteq> 0 then if discard then leave x rc v b else (Return (x rc), v, b) else (Go, v, b))"

section \<open>State effecter and state sensor PDRs\<close>

text \<open>
  The possible states are objects one behind the other, each of three bytes and as many as the third says.
  Reading behind the end of \<open>bs\<close> is undefined.
\<close>

fun skip_states :: "u8 list \<Rightarrow> nat \<Rightarrow> nat \<Rightarrow> nat option" where
  "skip_states bs p 0 = Some p"
| "skip_states bs p (Suc n) =
     (if p + 3 \<le> length bs then skip_states bs (p + 3 + unat (bs ! (p + 2))) n else None)"

text \<open>
  \<open>obj\<close>: the bytes of the PDR's object; \<open>fixed\<close>: the size of what precedes the possible states, whose last
  byte is their number. The results: return value, object and \<open>*actual_size\<close>.
\<close>

definition encode_state_pdr ::
    "nat \<Rightarrow> u8 \<Rightarrow> u8 list option \<Rightarrow> nat \<Rightarrow> u8 list option \<Rightarrow> nat \<Rightarrow> nat option \<Rightarrow>
      (int \<times> u8 list option \<times> nat option) option" where
  "encode_state_pdr fixed ty obj allocation_size possible_states possible_states_size actual_size =
     (case (obj, possible_states, actual_size) of
        (Some o1, Some ps, Some _) \<Rightarrow>
          if SIZE_MAX - fixed < possible_states_size then Some (PLDM_ERROR, obj, actual_size)
          else if allocation_size < fixed + possible_states_size then Some (PLDM_ERROR_INVALID_LENGTH, obj, actual_size)
          else if length o1 < fixed then None
          else do {
            calculated \<leftarrow> skip_states ps 0 (unat (o1 ! (fixed - 1)));
            if possible_states_size \<noteq> calculated then Some (PLDM_ERROR, obj, Some 0)
            else if length ps < possible_states_size \<or> length o1 < fixed + possible_states_size then None
            else
              let actual = fixed + possible_states_size;
                  o2 = poke o1 4 [1, ty];
                  o3 = poke o2 8 (le_of_word (of_nat (actual - 10) :: u16));
                  o4 = poke o3 fixed (take possible_states_size ps)
              in Some (PLDM_SUCCESS, Some o4, Some actual) }
      | _ \<Rightarrow> Some (PLDM_ERROR, obj, actual_size))"

definition encode_state_effecter_pdr ::
    "u8 list option \<Rightarrow> nat \<Rightarrow> u8 list option \<Rightarrow> nat \<Rightarrow> nat option \<Rightarrow> (int \<times> u8 list option \<times> nat option) option" where
  "encode_state_effecter_pdr = encode_state_pdr 25 11"

definition encode_state_sensor_pdr ::
    "u8 list option \<Rightarrow> nat \<Rightarrow> u8 list option \<Rightarrow> nat \<Rightarrow> nat option \<Rightarrow> (int \<times> u8 list option \<times> nat option) option" where
  "encode_state_sensor_pdr = encode_state_pdr 23 4"

section \<open>Setting the states of an effecter\<close>

definition encode_set_state_effecter_states_resp ::
    "u8 \<Rightarrow> u8 \<Rightarrow> pldm_msg option \<Rightarrow> (int \<times> pldm_msg option) option" where
  "encode_set_state_effecter_states_resp instance_id completion_code msg =
     if_msg PLDM_ERROR_INVALID_DATA msg (platform_resp instance_id 0x39 (fill [completion_code]))"

text \<open>Fields: pairs of set request and effecter state, as the array holds them.\<close>

definition pair_bytes :: "(u8 \<times> u8) list \<Rightarrow> u8 list" where
  "pair_bytes fs = concat (map (\<lambda>(r, s). [r, s]) fs)"

definition encode_set_state_effecter_states_req ::
    "u8 \<Rightarrow> u16 \<Rightarrow> u8 \<Rightarrow> (u8 \<times> u8) list option \<Rightarrow> pldm_msg option \<Rightarrow> (int \<times> pldm_msg option) option" where
  "encode_set_state_effecter_states_req instance_id effecter_id comp_effecter_count flds msg =
     if_msg PLDM_ERROR_INVALID_DATA msg (\<lambda>m.
       if comp_effecter_count < 1 \<or> comp_effecter_count > 8 then Some (PLDM_ERROR_INVALID_DATA, m)
       else case flds of
         None \<Rightarrow> Some (PLDM_ERROR_INVALID_DATA, m)
       | Some fs \<Rightarrow>
           platform_req instance_id 0x39 (\<lambda>m.
             if length fs < unat comp_effecter_count then None
             else fill (le_of_word effecter_id @ [comp_effecter_count] @ pair_bytes (take (unat comp_effecter_count) fs)) m) m)"

definition decode_set_state_effecter_states_resp ::
    "pldm_msg option \<Rightarrow> nat \<Rightarrow> u8 option \<Rightarrow> (int \<times> u8 option) option" where
  "decode_set_state_effecter_states_resp msg payload_length completion_code =
     if_set PLDM_ERROR_INVALID_DATA msg completion_code (\<lambda>m _. do {
       bs \<leftarrow> get_bytes 0 1 m;
       let cc = bs ! 0;
       Some (if cc \<noteq> PLDM_SUCCESS then (PLDM_SUCCESS, cc)
             else if payload_length > 1 then (PLDM_ERROR_INVALID_LENGTH, cc) else (PLDM_SUCCESS, cc)) })"

record set_state_effecter_states_req =
  sse_effecter_id :: u16
  sse_comp_effecter_count :: u8
  sse_field :: "(u8 \<times> u8) list"

text \<open>Writing to an element of an array of pairs.\<close>

definition at_fst :: "nat \<Rightarrow> ('a \<Rightarrow> 'a) \<Rightarrow> ('a \<times> 'b) list \<Rightarrow> ('a \<times> 'b) list" where
  "at_fst i f xs = xs[i := apfst f (xs ! i)]"

definition at_snd :: "nat \<Rightarrow> ('b \<Rightarrow> 'b) \<Rightarrow> ('a \<times> 'b) list \<Rightarrow> ('a \<times> 'b) list" where
  "at_snd i f xs = xs[i := apsnd f (xs ! i)]"

definition decode_set_state_effecter_states_req ::
    "pldm_msg option \<Rightarrow> nat \<Rightarrow> set_state_effecter_states_req option \<Rightarrow>
      (int \<times> set_state_effecter_states_req option) option" where
  "decode_set_state_effecter_states_req msg payload_length out =
     if_set PLDM_ERROR_INVALID_DATA msg out (\<lambda>m v.
       if payload_length > 19 then Some (PLDM_ERROR_INVALID_LENGTH, v)
       else decode_msg as_cc 3
         [get sse_effecter_id_update,
          get_or as_cc sse_comp_effecter_count_update,
          refuse (\<lambda>v. sse_comp_effecter_count v > 8) PLDM_ERROR_INVALID_DATA,
          times (\<lambda>v. unat (sse_comp_effecter_count v)) (\<lambda>i.
            [object_has (\<lambda>v. i < length (sse_field v)),
             get (\<lambda>f. sse_field_update (at_fst i f)),
             get (\<lambda>f. sse_field_update (at_snd i f))])]
         pldm_msgbuf_complete payload_length m v)"

section \<open>GetPDR\<close>

record get_pdr_req =
  gpq_record_handle :: u32
  gpq_data_transfer_handle :: u32
  gpq_transfer_op_flag :: u8
  gpq_request_count :: u16
  gpq_record_change_number :: u16

definition decode_get_pdr_req ::
    "pldm_msg option \<Rightarrow> nat \<Rightarrow> get_pdr_req option \<Rightarrow> (int \<times> get_pdr_req option) option" where
  "decode_get_pdr_req msg payload_length out =
     if_set PLDM_ERROR_INVALID_DATA msg out (\<lambda>m v.
       if payload_length \<noteq> 13 then Some (PLDM_ERROR_INVALID_LENGTH, v)
       else decode_msg as_cc 13
         [get gpq_record_handle_update,
          get gpq_data_transfer_handle_update,
          get gpq_transfer_op_flag_update,
          get gpq_request_count_update,
          get gpq_record_change_number_update]
         pldm_msgbuf_complete payload_length m v)"

definition encode_get_pdr_req ::
    "u8 \<Rightarrow> u32 \<Rightarrow> u32 \<Rightarrow> u8 \<Rightarrow> u16 \<Rightarrow> u16 \<Rightarrow> pldm_msg option \<Rightarrow> nat \<Rightarrow> (int \<times> pldm_msg option) option" where
  "encode_get_pdr_req instance_id record_hndl data_transfer_hndl transfer_op_flag request_cnt record_chg_num
     msg payload_length =
     if_msg PLDM_ERROR_INVALID_DATA msg (\<lambda>m.
       if payload_length \<noteq> 13 then Some (PLDM_ERROR_INVALID_LENGTH, m)
       else platform_req instance_id 0x51
         (fill (le_of_word record_hndl @ le_of_word data_transfer_hndl @ [transfer_op_flag] @
                le_of_word request_cnt @ le_of_word record_chg_num)) m)"

text \<open>\<open>record_data\<close>: the array, if the pointer is not NULL.\<close>

definition encode_get_pdr_resp ::
    "u8 \<Rightarrow> u8 \<Rightarrow> u32 \<Rightarrow> u32 \<Rightarrow> u8 \<Rightarrow> u16 \<Rightarrow> u8 list option \<Rightarrow> u8 \<Rightarrow> pldm_msg option \<Rightarrow>
      (int \<times> pldm_msg option) option" where
  "encode_get_pdr_resp instance_id completion_code next_record_hndl next_data_transfer_hndl transfer_flag resp_cnt
     record_data transfer_crc msg =
     if_msg PLDM_ERROR_INVALID_DATA msg (platform_resp instance_id 0x51 (\<lambda>m. do {
       m \<leftarrow> put_bytes 0 [completion_code] m;
       if completion_code \<noteq> PLDM_SUCCESS then Some (PLDM_SUCCESS, m)
       else do {
         m \<leftarrow> put_bytes 1 (le_of_word next_record_hndl @ le_of_word next_data_transfer_hndl @ [transfer_flag] @
                          le_of_word resp_cnt) m;
         m \<leftarrow> (case record_data of
                None \<Rightarrow> Some m
              | Some d \<Rightarrow> if length d < unat resp_cnt then None else put_bytes 12 (take (unat resp_cnt) d) m);
         m \<leftarrow> (if transfer_flag = PLDM_END then put_bytes (12 + unat resp_cnt) [transfer_crc] m else Some m);
         Some (PLDM_SUCCESS, m) } }))"

record get_pdr_resp =
  gpr_completion_code :: u8
  gpr_next_record_handle :: u32
  gpr_next_data_transfer_handle :: u32
  gpr_transfer_flag :: u8
  gpr_response_count :: u16
  gpr_record_data :: "u8 list"
  gpr_transfer_crc :: u8

text \<open>\<open>has_data\<close>: the pointer to the record data is not NULL.\<close>

abbreviation (input) get_pdr_resp_steps :: "bool \<Rightarrow> nat \<Rightarrow> get_pdr_resp step list" where
  "get_pdr_resp_steps has_data record_data_length \<equiv>
     [get_or as_cc gpr_completion_code_update,
      stop_with Some pldm_msgbuf_complete (\<lambda>v. gpr_completion_code v \<noteq> PLDM_SUCCESS),
      get gpr_next_record_handle_update,
      get gpr_next_data_transfer_handle_update,
      get gpr_transfer_flag_update,
      get_or as_cc gpr_response_count_update,
      only (\<lambda>v. gpr_response_count v > 0 \<and> has_data)
        [refuse (\<lambda>v. record_data_length < unat (gpr_response_count v)) PLDM_ERROR_INVALID_LENGTH,
         get_array_or as_cc (\<lambda>v. unat (gpr_response_count v)) (\<lambda>v. unat (gpr_response_count v))
           gpr_record_data gpr_record_data_update],
      only (\<lambda>v. gpr_transfer_flag v = PLDM_END) [get gpr_transfer_crc_update]]"

definition decode_get_pdr_resp ::
    "pldm_msg option \<Rightarrow> nat \<Rightarrow> bool \<Rightarrow> nat \<Rightarrow> get_pdr_resp option \<Rightarrow> (int \<times> get_pdr_resp option) option" where
  "decode_get_pdr_resp msg payload_length has_data record_data_length out =
     if_set PLDM_ERROR_INVALID_DATA msg out (decode_msg as_cc 12
       (get_pdr_resp_steps has_data record_data_length) pldm_msgbuf_complete payload_length)"

definition decode_get_pdr_resp_safe ::
    "pldm_msg option \<Rightarrow> nat \<Rightarrow> get_pdr_resp option \<Rightarrow> nat \<Rightarrow> (int \<times> get_pdr_resp option) option" where
  "decode_get_pdr_resp_safe msg payload_length out resp_len =
     if_set (- EINVAL) msg out (\<lambda>m v. unless_error m payload_length gpr_completion_code_update v (
       decode_msg as_errno 12
         [get gpr_completion_code_update,
          get gpr_next_record_handle_update,
          get gpr_next_data_transfer_handle_update,
          get_or as_errno gpr_transfer_flag_update,
          get_or as_errno gpr_response_count_update,
          get_array_or as_errno (\<lambda>v. unat (gpr_response_count v))
            (\<lambda>_. nat ((int resp_len - 12) mod 2 ^ 64)) gpr_record_data gpr_record_data_update,
          only (\<lambda>v. gpr_transfer_flag v = PLDM_END) [get gpr_transfer_crc_update]]
         pldm_msgbuf_complete_consumed payload_length m v))"

section \<open>GetPDRRepositoryInfo\<close>

definition encode_get_pdr_repository_info_req :: "u8 \<Rightarrow> pldm_msg option \<Rightarrow> nat \<Rightarrow> (int \<times> pldm_msg option) option" where
  "encode_get_pdr_repository_info_req instance_id msg payload_length =
     if_msg (- EINVAL) msg
       (\<lambda>m. Some (msg_pack_errno (codec_header PLDM_REQUEST instance_id PLDM_PLATFORM 0x50) m))"

definition put_opt :: "nat \<Rightarrow> nat \<Rightarrow> u8 list option \<Rightarrow> pldm_msg \<Rightarrow> pldm_msg option" where
  "put_opt off n src m =
     (case src of None \<Rightarrow> Some m | Some bs \<Rightarrow> if length bs < n then None else put_bytes off (take n bs) m)"

definition encode_get_pdr_repository_info_resp ::
    "u8 \<Rightarrow> u8 \<Rightarrow> u8 \<Rightarrow> u8 list option \<Rightarrow> u8 list option \<Rightarrow> u32 \<Rightarrow> u32 \<Rightarrow> u32 \<Rightarrow> u8 \<Rightarrow> pldm_msg option \<Rightarrow>
      (int \<times> pldm_msg option) option" where
  "encode_get_pdr_repository_info_resp instance_id completion_code repository_state update_time oem_update_time
     record_count repository_size largest_record_size data_transfer_handle_timeout msg =
     if_msg PLDM_ERROR_INVALID_DATA msg (platform_resp instance_id 0x50 (\<lambda>m. do {
       m \<leftarrow> put_bytes 0 [completion_code] m;
       if completion_code \<noteq> PLDM_SUCCESS then Some (PLDM_SUCCESS, m)
       else do {
         m \<leftarrow> put_bytes 1 [repository_state] m;
         m \<leftarrow> put_opt 2 13 update_time m;
         m \<leftarrow> put_opt 15 13 oem_update_time m;
         m \<leftarrow> put_bytes 28 (le_of_word record_count @ le_of_word repository_size @ le_of_word largest_record_size @
                            [data_transfer_handle_timeout]) m;
         Some (PLDM_SUCCESS, m) } }))"

record pdr_repository_info_resp =
  pri_completion_code :: u8
  pri_repository_state :: u8
  pri_update_time :: "u8 list"
  pri_oem_update_time :: "u8 list"
  pri_record_count :: u32
  pri_repository_size :: u32
  pri_largest_record_size :: u32
  pri_data_transfer_handle_timeout :: u8

definition decode_get_pdr_repository_info_resp ::
    "pldm_msg option \<Rightarrow> nat \<Rightarrow> pdr_repository_info_resp option \<Rightarrow> (int \<times> pdr_repository_info_resp option) option" where
  "decode_get_pdr_repository_info_resp msg payload_length out =
     if_set PLDM_ERROR_INVALID_DATA msg out (decode_msg as_cc 41
       [get_or as_cc pri_completion_code_update,
        refuse (\<lambda>v. pri_completion_code v \<noteq> PLDM_SUCCESS) PLDM_SUCCESS,
        get_or as_cc pri_repository_state_update,
        refuse (\<lambda>v. pri_repository_state v > 2) PLDM_ERROR_INVALID_DATA,
        get_array_or as_cc (\<lambda>_. 13) (\<lambda>_. 13) pri_update_time pri_update_time_update,
        get_array_or as_cc (\<lambda>_. 13) (\<lambda>_. 13) pri_oem_update_time pri_oem_update_time_update,
        get pri_record_count_update,
        get pri_repository_size_update,
        get pri_largest_record_size_update,
        get pri_data_transfer_handle_timeout_update]
       pldm_msgbuf_complete payload_length)"

definition decode_get_pdr_repository_info_resp_safe ::
    "pldm_msg option \<Rightarrow> nat \<Rightarrow> pdr_repository_info_resp option \<Rightarrow> (int \<times> pdr_repository_info_resp option) option" where
  "decode_get_pdr_repository_info_resp_safe msg payload_length out =
     if_set (- EINVAL) msg out (\<lambda>m v. unless_error m payload_length pri_completion_code_update v (
       decode_msg as_errno 41
         [get_or as_errno pri_completion_code_update,
          get pri_repository_state_update,
          get_array_or as_errno (\<lambda>_. 13) (\<lambda>_. 13) pri_update_time pri_update_time_update,
          get_array_or as_errno (\<lambda>_. 13) (\<lambda>_. 13) pri_oem_update_time pri_oem_update_time_update,
          get pri_record_count_update,
          get pri_repository_size_update,
          get pri_largest_record_size_update,
          get pri_data_transfer_handle_timeout_update]
         pldm_msgbuf_complete_consumed payload_length m v))"

section \<open>Numeric effecters\<close>

definition encode_set_numeric_effecter_enable_req ::
    "u8 \<Rightarrow> u16 \<Rightarrow> u8 \<Rightarrow> pldm_msg option \<Rightarrow> (int \<times> pldm_msg option) option" where
  "encode_set_numeric_effecter_enable_req instance_id effecter_id effecter_operational_state msg =
     if_msg PLDM_ERROR_INVALID_DATA msg (\<lambda>m.
       if effecter_operational_state > EFFECTER_OPER_STATE_UNAVAILABLE then Some (PLDM_ERROR_INVALID_DATA, m)
       else platform_req instance_id 0x30 (fill (le_of_word effecter_id @ [effecter_operational_state])) m)"

record numeric_effecter_value_req =
  nev_effecter_id :: u16
  nev_effecter_data_size :: u8
  nev_effecter_value :: "u8 list"

definition decode_set_numeric_effecter_value_req ::
    "pldm_msg option \<Rightarrow> nat \<Rightarrow> numeric_effecter_value_req option \<Rightarrow> (int \<times> numeric_effecter_value_req option) option" where
  "decode_set_numeric_effecter_value_req msg payload_length out =
     if_set PLDM_ERROR_INVALID_DATA msg out (decode_msg as_cc 4
       [get nev_effecter_id_update,
        get_or (\<lambda>_. Some PLDM_ERROR_INVALID_DATA) nev_effecter_data_size_update,
        refuse (\<lambda>v. nev_effecter_data_size v > SENSOR_DATA_SIZE_MAX) PLDM_ERROR_INVALID_DATA,
        get_value pldm_msgbuf_extract_effecter_value nev_effecter_data_size nev_effecter_value nev_effecter_value_update]
       pldm_msgbuf_complete payload_length)"

definition encode_set_numeric_effecter_value_resp ::
    "u8 \<Rightarrow> u8 \<Rightarrow> pldm_msg option \<Rightarrow> nat \<Rightarrow> (int \<times> pldm_msg option) option" where
  "encode_set_numeric_effecter_value_resp instance_id completion_code msg payload_length =
     if_msg PLDM_ERROR_INVALID_DATA msg (\<lambda>m.
       if payload_length \<noteq> 1 then Some (PLDM_ERROR_INVALID_LENGTH, m)
       else platform_resp instance_id 0x31 (fill [completion_code]) m)"

text \<open>The bytes of a value of a size.\<close>

definition size_width :: "u8 \<Rightarrow> nat" where
  "size_width sz = (if sz = 0 \<or> sz = 1 then 1 else if sz = 2 \<or> sz = 3 then 2 else if sz = 4 \<or> sz = 5 then 4 else 8)"

definition encode_set_numeric_effecter_value_req ::
    "u8 \<Rightarrow> u16 \<Rightarrow> u8 \<Rightarrow> u8 list option \<Rightarrow> pldm_msg option \<Rightarrow> nat \<Rightarrow> (int \<times> pldm_msg option) option" where
  "encode_set_numeric_effecter_value_req instance_id effecter_id effecter_data_size effecter_value msg payload_length =
     if_msg PLDM_ERROR_INVALID_DATA msg (\<lambda>m.
       case effecter_value of
         None \<Rightarrow> Some (PLDM_ERROR_INVALID_DATA, m)
       | Some val \<Rightarrow>
           if effecter_data_size > SENSOR_DATA_SIZE_MAX then Some (PLDM_ERROR_INVALID_DATA, m)
           else platform_req instance_id 0x31 (\<lambda>m.
             let n = size_width effecter_data_size in
             if payload_length \<noteq> 3 + n then Some (PLDM_ERROR_INVALID_LENGTH, m)
             else if length val < n then None
             else do {
               m \<leftarrow> put_bytes 3 (take n val) m;
               m \<leftarrow> put_bytes 0 (le_of_word effecter_id @ [effecter_data_size]) m;
               Some (PLDM_SUCCESS, m) }) m)"

definition decode_set_numeric_effecter_value_resp ::
    "pldm_msg option \<Rightarrow> nat \<Rightarrow> u8 option \<Rightarrow> (int \<times> u8 option) option" where
  "decode_set_numeric_effecter_value_resp msg payload_length completion_code =
     if_set PLDM_ERROR_INVALID_DATA msg completion_code (\<lambda>m cc.
       if payload_length \<noteq> 1 then Some (PLDM_ERROR_INVALID_LENGTH, cc)
       else do { bs \<leftarrow> get_bytes 0 1 m; Some (PLDM_SUCCESS, bs ! 0) })"

section \<open>State sensor readings\<close>

record sensor_state_field =
  ssf_sensor_op_state :: u8
  ssf_present_state :: u8
  ssf_previous_state :: u8
  ssf_event_state :: u8

definition sensor_field_bytes :: "sensor_state_field \<Rightarrow> u8 list" where
  "sensor_field_bytes f = [ssf_sensor_op_state f, ssf_present_state f, ssf_previous_state f, ssf_event_state f]"

text \<open>Here \<open>field\<close> is read without a check for NULL.\<close>

definition encode_get_state_sensor_readings_resp ::
    "u8 \<Rightarrow> u8 \<Rightarrow> u8 \<Rightarrow> sensor_state_field list \<Rightarrow> pldm_msg option \<Rightarrow> (int \<times> pldm_msg option) option" where
  "encode_get_state_sensor_readings_resp instance_id completion_code comp_sensor_count flds msg =
     if_msg PLDM_ERROR_INVALID_DATA msg (\<lambda>m.
       if comp_sensor_count < 1 \<or> comp_sensor_count > 8 then Some (PLDM_ERROR_INVALID_DATA, m)
       else platform_resp instance_id 0x21 (\<lambda>m.
         if length flds < unat comp_sensor_count then None
         else fill ([completion_code, comp_sensor_count] @
                    concat (map sensor_field_bytes (take (unat comp_sensor_count) flds))) m) m)"

definition encode_get_state_sensor_readings_req ::
    "u8 \<Rightarrow> u16 \<Rightarrow> u8 \<Rightarrow> u8 \<Rightarrow> pldm_msg option \<Rightarrow> (int \<times> pldm_msg option) option" where
  "encode_get_state_sensor_readings_req instance_id sensor_id sensor_rearm reserved msg =
     if_msg PLDM_ERROR_INVALID_DATA msg
       (platform_req instance_id 0x21 (fill (le_of_word sensor_id @ [sensor_rearm, reserved])))"

record state_sensor_readings_resp =
  ssr_completion_code :: u8
  ssr_comp_sensor_count :: u8
  ssr_field :: "sensor_state_field list"

text \<open>Writing to an element of an array.\<close>

definition at :: "nat \<Rightarrow> ('a \<Rightarrow> 'a) \<Rightarrow> 'a list \<Rightarrow> 'a list" where
  "at i f xs = xs[i := f (xs ! i)]"

definition decode_get_state_sensor_readings_resp ::
    "pldm_msg option \<Rightarrow> nat \<Rightarrow> state_sensor_readings_resp option \<Rightarrow> (int \<times> state_sensor_readings_resp option) option" where
  "decode_get_state_sensor_readings_resp msg payload_length out =
     if_set PLDM_ERROR_INVALID_DATA msg out (decode_msg as_cc 2
       [get_or as_cc ssr_completion_code_update,
        refuse (\<lambda>v. ssr_completion_code v \<noteq> PLDM_SUCCESS) PLDM_SUCCESS,
        get_or as_cc ssr_comp_sensor_count_update,
        refuse (\<lambda>v. ssr_comp_sensor_count v < 1 \<or> ssr_comp_sensor_count v > 8) PLDM_ERROR_INVALID_DATA,
        times (\<lambda>v. unat (ssr_comp_sensor_count v)) (\<lambda>i.
          [object_has (\<lambda>v. i < length (ssr_field v)),
           get (\<lambda>f. ssr_field_update (at i (ssf_sensor_op_state_update f))),
           get (\<lambda>f. ssr_field_update (at i (ssf_present_state_update f))),
           get (\<lambda>f. ssr_field_update (at i (ssf_previous_state_update f))),
           get (\<lambda>f. ssr_field_update (at i (ssf_event_state_update f)))])]
       pldm_msgbuf_complete_consumed payload_length)"

record state_sensor_readings_req =
  srq_sensor_id :: u16
  srq_sensor_rearm :: u8
  srq_reserved :: u8

definition decode_get_state_sensor_readings_req ::
    "pldm_msg option \<Rightarrow> nat \<Rightarrow> state_sensor_readings_req option \<Rightarrow> (int \<times> state_sensor_readings_req option) option" where
  "decode_get_state_sensor_readings_req msg payload_length out =
     if_set PLDM_ERROR_INVALID_DATA msg out (decode_msg as_cc 4
       [get srq_sensor_id_update, get srq_sensor_rearm_update, get srq_reserved_update]
       pldm_msgbuf_complete payload_length)"

section \<open>Events\<close>

text \<open>The results: return value, the bytes of the event data and \<open>*actual_event_data_size\<close>.\<close>

definition encode_sensor_event_data ::
    "u8 list option \<Rightarrow> nat \<Rightarrow> u16 \<Rightarrow> u8 \<Rightarrow> u8 \<Rightarrow> u8 \<Rightarrow> u8 \<Rightarrow> (int \<times> u8 list option \<times> nat) option" where
  "encode_sensor_event_data event_data event_data_size sensor_id sensor_event_class sensor_offset event_state
     previous_event_state =
     (case event_data of
        None \<Rightarrow> Some (PLDM_SUCCESS, None, 6)
      | Some d \<Rightarrow>
          if event_data_size < 6 then Some (PLDM_ERROR_INVALID_LENGTH, event_data, 0)
          else if length d < 6 then None
          else Some (PLDM_SUCCESS, Some (poke d 0 (le_of_word sensor_id @
                 [sensor_event_class, sensor_offset, event_state, previous_event_state])), 6))"

record platform_event_message_req =
  pem_format_version :: u8
  pem_tid :: u8
  pem_event_class :: u8
  pem_event_data_offset :: nat

definition decode_platform_event_message_req ::
    "pldm_msg option \<Rightarrow> nat \<Rightarrow> platform_event_message_req option \<Rightarrow> (int \<times> platform_event_message_req option) option" where
  "decode_platform_event_message_req msg payload_length out =
     if_set PLDM_ERROR_INVALID_DATA msg out (\<lambda>m v. do {
       (rc, v) \<leftarrow> decode_msg as_cc 3
         [get pem_format_version_update, get pem_tid_update, get pem_event_class_update]
         pldm_msgbuf_complete payload_length m v;
       Some (rc, if rc \<noteq> 0 then v else v\<lparr>pem_event_data_offset := 3\<rparr>) })"

abbreviation (input) PLDM_GET_NEXTPART :: u8 where "PLDM_GET_NEXTPART \<equiv> 0"
abbreviation (input) PLDM_GET_FIRSTPART :: u8 where "PLDM_GET_FIRSTPART \<equiv> 1"
abbreviation (input) PLDM_ACKNOWLEDGEMENT_ONLY :: u8 where "PLDM_ACKNOWLEDGEMENT_ONLY \<equiv> 2"
abbreviation (input) EVENT_ID_NULL :: u16 where "EVENT_ID_NULL \<equiv> 0"
abbreviation (input) EVENT_ID_FRAGMENT :: u16 where "EVENT_ID_FRAGMENT \<equiv> 0xffff"

definition pldm_platform_poll_for_platform_event_message_validate :: "u8 \<Rightarrow> u16 \<Rightarrow> int" where
  "pldm_platform_poll_for_platform_event_message_validate transfer_operation_flag event_id_to_acknowledge =
     (if (transfer_operation_flag = PLDM_GET_FIRSTPART \<and> event_id_to_acknowledge \<noteq> EVENT_ID_NULL) \<or>
         (transfer_operation_flag = PLDM_GET_NEXTPART \<and> event_id_to_acknowledge \<noteq> EVENT_ID_FRAGMENT) \<or>
         (transfer_operation_flag = PLDM_ACKNOWLEDGEMENT_ONLY \<and> event_id_to_acknowledge = EVENT_ID_FRAGMENT) \<or>
         (transfer_operation_flag = PLDM_ACKNOWLEDGEMENT_ONLY \<and> event_id_to_acknowledge = EVENT_ID_NULL) \<or>
         transfer_operation_flag > PLDM_ACKNOWLEDGEMENT_ONLY
      then - EPROTO else 0)"

record poll_event_req =
  pq_format_version :: u8
  pq_transfer_operation_flag :: u8
  pq_data_transfer_handle :: u32
  pq_event_id_to_acknowledge :: u16

definition decode_poll_for_platform_event_message_req ::
    "pldm_msg option \<Rightarrow> nat \<Rightarrow> poll_event_req option \<Rightarrow> (int \<times> poll_event_req option) option" where
  "decode_poll_for_platform_event_message_req msg payload_length out =
     if_set PLDM_ERROR_INVALID_DATA msg out (decode_msg as_cc 8
       [get pq_format_version_update,
        get_or as_cc pq_transfer_operation_flag_update,
        refuse (\<lambda>v. pq_transfer_operation_flag v > PLDM_ACKNOWLEDGEMENT_ONLY) PLDM_ERROR_INVALID_DATA,
        get pq_data_transfer_handle_update,
        get_or as_cc pq_event_id_to_acknowledge_update,
        refuse (\<lambda>v. pldm_platform_poll_for_platform_event_message_validate (pq_transfer_operation_flag v)
                  (pq_event_id_to_acknowledge v) < 0) PLDM_ERROR_INVALID_DATA]
       pldm_msgbuf_complete payload_length)"

definition encode_platform_event_message_resp ::
    "u8 \<Rightarrow> u8 \<Rightarrow> u8 \<Rightarrow> pldm_msg option \<Rightarrow> (int \<times> pldm_msg option) option" where
  "encode_platform_event_message_resp instance_id completion_code platform_event_status msg =
     if_msg PLDM_ERROR_INVALID_DATA msg (\<lambda>m.
       if platform_event_status > EVENT_LOGGING_REJECTED then Some (PLDM_ERROR_INVALID_DATA, m)
       else platform_resp instance_id 0x0a (fill [completion_code, platform_event_status]) m)"

record poll_event_resp =
  pr_completion_code :: u8
  pr_tid :: u8
  pr_event_id :: u16
  pr_next_data_transfer_handle :: u32
  pr_transfer_flag :: u8
  pr_event_class :: u8
  pr_event_data_size :: u32
  pr_event_data :: "u8 list option"
  pr_checksum :: u32

definition encode_poll_for_platform_event_message_resp ::
    "u8 \<Rightarrow> poll_event_resp \<Rightarrow> pldm_msg option \<Rightarrow> nat \<Rightarrow> (int \<times> pldm_msg option) option" where
  "encode_poll_for_platform_event_message_resp instance_id resp msg payload_length =
     if_msg PLDM_ERROR_INVALID_DATA msg (platform_resp instance_id 0x0b (encode_msg as_cc 4
       [put pr_completion_code,
        put pr_tid,
        put_or as_cc pr_event_id,
        refuse (\<lambda>v. (pr_event_id v = 0xffff \<or> pr_event_id v = 0) \<and> payload_length \<noteq> 4) PLDM_ERROR_INVALID_LENGTH,
        stop_with as_cc pldm_msgbuf_complete (\<lambda>v. pr_event_id v = 0xffff \<or> pr_event_id v = 0),
        refuse (\<lambda>v. pr_event_data v = None \<and> pr_event_data_size v > 0) PLDM_ERROR_INVALID_DATA,
        put pr_next_data_transfer_handle,
        put pr_transfer_flag,
        put pr_event_class,
        put_or as_cc pr_event_data_size,
        only (\<lambda>v. pr_event_data_size v > 0 \<and> pr_event_data v \<noteq> None)
          [put_array_or as_cc (\<lambda>v. unat (pr_event_data_size v)) (\<lambda>v. the (pr_event_data v))],
        only (\<lambda>v. pr_transfer_flag v = PLDM_END \<or> pr_transfer_flag v = PLDM_START_AND_END) [put pr_checksum]]
       pldm_msgbuf_complete payload_length resp))"

abbreviation (input) PLDM_CPER_EVENT :: u8 where "PLDM_CPER_EVENT \<equiv> 7"

definition encode_platform_event_message_req ::
    "u8 \<Rightarrow> u8 \<Rightarrow> u8 \<Rightarrow> u8 \<Rightarrow> u8 list option \<Rightarrow> nat \<Rightarrow> pldm_msg option \<Rightarrow> nat \<Rightarrow> (int \<times> pldm_msg option) option" where
  "encode_platform_event_message_req instance_id format_version tid event_class event_data event_data_length msg
     payload_length =
     (if format_version \<noteq> 1 then Some (PLDM_ERROR_INVALID_DATA, msg)
      else case event_data of
        None \<Rightarrow> Some (PLDM_ERROR_INVALID_DATA, msg)
      | Some d \<Rightarrow> if_msg PLDM_ERROR_INVALID_DATA msg (\<lambda>m.
          if event_data_length = 0 then Some (PLDM_ERROR_INVALID_DATA, m)
          else if SIZE_MAX - 3 < event_data_length then Some (PLDM_ERROR_INVALID_LENGTH, m)
          else if payload_length \<noteq> 3 + event_data_length then Some (PLDM_ERROR_INVALID_LENGTH, m)
          else if event_class > PLDM_CPER_EVENT \<and> \<not> (event_class \<ge> 0xf0 \<and> event_class \<le> 0xfe)
          then Some (PLDM_ERROR_INVALID_DATA, m)
          else platform_req instance_id 0x0a (\<lambda>m.
            if length d < event_data_length then None
            else fill ([format_version, tid, event_class] @ take event_data_length d) m) m))"

record platform_event_message_resp =
  per_completion_code :: u8
  per_platform_event_status :: u8

definition decode_platform_event_message_resp ::
    "pldm_msg option \<Rightarrow> nat \<Rightarrow> platform_event_message_resp option \<Rightarrow> (int \<times> platform_event_message_resp option) option" where
  "decode_platform_event_message_resp msg payload_length out =
     if_set PLDM_ERROR_INVALID_DATA msg out (decode_msg as_cc 2
       [get_or as_cc per_completion_code_update,
        refuse (\<lambda>v. per_completion_code v \<noteq> PLDM_SUCCESS) PLDM_SUCCESS,
        get_or as_cc per_platform_event_status_update,
        refuse (\<lambda>v. per_platform_event_status v > EVENT_LOGGING_REJECTED) PLDM_ERROR_INVALID_DATA]
       pldm_msgbuf_complete payload_length)"

text \<open>A NULL message is not checked for here.\<close>

definition encode_event_message_buffer_size_req :: "u8 \<Rightarrow> u16 \<Rightarrow> pldm_msg option \<Rightarrow> (int \<times> pldm_msg option) option" where
  "encode_event_message_buffer_size_req instance_id event_receiver_max_buffer_size msg = do {
     m \<leftarrow> msg;
     map_option (apsnd Some)
       (platform_req instance_id 0x0d (fill (le_of_word event_receiver_max_buffer_size)) m) }"

record event_message_buffer_size_resp =
  ebs_completion_code :: u8
  ebs_terminus_max_buffer_size :: u16

definition decode_event_message_buffer_size_resp ::
    "pldm_msg option \<Rightarrow> nat \<Rightarrow> event_message_buffer_size_resp option \<Rightarrow>
      (int \<times> event_message_buffer_size_resp option) option" where
  "decode_event_message_buffer_size_resp msg payload_length out =
     if_set PLDM_ERROR_INVALID_DATA msg out (decode_msg as_cc 3
       [get_or as_cc ebs_completion_code_update,
        refuse (\<lambda>v. ebs_completion_code v \<noteq> PLDM_SUCCESS) PLDM_SUCCESS,
        get ebs_terminus_max_buffer_size_update]
       pldm_msgbuf_complete_consumed payload_length)"

definition encode_event_message_supported_req :: "u8 \<Rightarrow> u8 \<Rightarrow> pldm_msg option \<Rightarrow> (int \<times> pldm_msg option) option" where
  "encode_event_message_supported_req instance_id format_version msg =
     (if format_version \<noteq> 1 then Some (PLDM_ERROR_INVALID_DATA, msg)
      else if_msg PLDM_ERROR_INVALID_DATA msg (platform_req instance_id 0x0c (fill [format_version])))"

record event_message_supported_resp =
  ems_completion_code :: u8
  ems_synchrony_config :: u8
  ems_synchrony_config_support :: u8
  ems_number_event_class_returned :: u8
  ems_event_class :: "u8 list"

definition decode_event_message_supported_resp ::
    "pldm_msg option \<Rightarrow> nat \<Rightarrow> event_message_supported_resp option \<Rightarrow> u8 \<Rightarrow>
      (int \<times> event_message_supported_resp option) option" where
  "decode_event_message_supported_resp msg payload_length out event_class_count =
     if_set PLDM_ERROR_INVALID_DATA msg out (decode_msg as_cc 4
       [get_or as_cc ems_completion_code_update,
        refuse (\<lambda>v. ems_completion_code v \<noteq> PLDM_SUCCESS) PLDM_SUCCESS,
        get_or as_cc ems_synchrony_config_update,
        refuse (\<lambda>v. ems_synchrony_config v > 3) PLDM_ERROR_INVALID_DATA,
        get ems_synchrony_config_support_update,
        get_or as_cc ems_number_event_class_returned_update,
        stop_with as_cc pldm_msgbuf_complete (\<lambda>v. ems_number_event_class_returned v = 0),
        refuse (\<lambda>v. event_class_count < ems_number_event_class_returned v) PLDM_ERROR_INVALID_LENGTH,
        times (\<lambda>v. unat (ems_number_event_class_returned v)) (\<lambda>i.
          [object_has (\<lambda>v. i < length (ems_event_class v)), get (\<lambda>f. ems_event_class_update (at i f))])]
       pldm_msgbuf_complete_consumed payload_length)"

text \<open>An object of bytes is its address and its contents.\<close>

record sensor_event_data =
  sed_sensor_id :: u16
  sed_sensor_event_class_type :: u8
  sed_event_class_data_offset :: nat

definition decode_sensor_event_data ::
    "(nat \<times> u8 list) option \<Rightarrow> nat \<Rightarrow> sensor_event_data option \<Rightarrow> (int \<times> sensor_event_data option) option" where
  "decode_sensor_event_data event_data event_data_length out =
     if_set PLDM_ERROR_INVALID_DATA event_data out (decode_bytes as_cc 5
       [refuse (\<lambda>_. event_data_length < 3) PLDM_ERROR_INVALID_LENGTH,
        get sed_sensor_id_update,
        get_or as_cc sed_sensor_event_class_type_update,
        refuse (\<lambda>v. sed_sensor_event_class_type v = 0 \<and> event_data_length - 3 \<noteq> 2) PLDM_ERROR_INVALID_LENGTH,
        refuse (\<lambda>v. sed_sensor_event_class_type v = 1 \<and> event_data_length - 3 \<noteq> 3) PLDM_ERROR_INVALID_LENGTH,
        refuse (\<lambda>v. sed_sensor_event_class_type v = 2 \<and> (event_data_length - 3 < 4 \<or> event_data_length - 3 > 11))
          PLDM_ERROR_INVALID_LENGTH,
        refuse (\<lambda>v. sed_sensor_event_class_type v > 2) PLDM_ERROR_INVALID_DATA,
        assign (\<lambda>v. v\<lparr>sed_event_class_data_offset := 3\<rparr>)]
       pldm_msgbuf_complete event_data_length)"

text \<open>\<open>*_event_data\<close>: a pointer into the event data, as an offset.\<close>

record cper_event_data =
  ced_format_version :: u8
  ced_format_type :: u8
  ced_event_data_length :: u16
  ced_event_data :: nat

definition decode_pldm_cper_event_data ::
    "(nat \<times> u8 list) option \<Rightarrow> nat \<Rightarrow> cper_event_data option \<Rightarrow> (int \<times> cper_event_data option) option" where
  "decode_pldm_cper_event_data event_data event_data_length out =
     if_set PLDM_ERROR_INVALID_DATA event_data out (\<lambda>(_, bs) v.
       if event_data_length < 4 then Some (PLDM_ERROR_INVALID_LENGTH, v)
       else if length bs < 4 then None
       else Some (PLDM_SUCCESS, \<lparr>ced_format_version = bs ! 0, ced_format_type = bs ! 1,
              ced_event_data_length = word_of_le (bytes_at bs 2 2), ced_event_data = 4\<rparr>))"

record smbios_event_data =
  sme_format_version :: u8
  sme_event_data_length :: u16
  sme_event_data :: nat

definition decode_pldm_smbios_event_data ::
    "(nat \<times> u8 list) option \<Rightarrow> nat \<Rightarrow> smbios_event_data option \<Rightarrow> (int \<times> smbios_event_data option) option" where
  "decode_pldm_smbios_event_data event_data event_data_length out =
     if_set PLDM_ERROR_INVALID_DATA event_data out (\<lambda>(_, bs) v.
       if event_data_length < 4 then Some (PLDM_ERROR_INVALID_LENGTH, v)
       else if length bs < 3 then None
       else Some (PLDM_SUCCESS, \<lparr>sme_format_version = bs ! 0,
              sme_event_data_length = word_of_le (bytes_at bs 1 2), sme_event_data = 3\<rparr>))"

record sensor_op_data =
  sod_present_op_state :: u8
  sod_previous_op_state :: u8

definition decode_sensor_op_data ::
    "(nat \<times> u8 list) option \<Rightarrow> nat \<Rightarrow> sensor_op_data option \<Rightarrow> (int \<times> sensor_op_data option) option" where
  "decode_sensor_op_data sensor_data sensor_data_length out =
     if_set PLDM_ERROR_INVALID_DATA sensor_data out (decode_bytes as_cc 2
       [get sod_present_op_state_update, get sod_previous_op_state_update]
       pldm_msgbuf_complete_consumed sensor_data_length)"

record state_sensor_data =
  ssd_sensor_offset :: u8
  ssd_event_state :: u8
  ssd_previous_event_state :: u8

definition decode_state_sensor_data ::
    "(nat \<times> u8 list) option \<Rightarrow> nat \<Rightarrow> state_sensor_data option \<Rightarrow> (int \<times> state_sensor_data option) option" where
  "decode_state_sensor_data sensor_data sensor_data_length out =
     if_set PLDM_ERROR_INVALID_DATA sensor_data out (decode_bytes as_cc 3
       [get ssd_sensor_offset_update, get ssd_event_state_update, get ssd_previous_event_state_update]
       pldm_msgbuf_complete_consumed sensor_data_length)"

text \<open>The reading of a numeric sensor is widened, or cut, to 32 bits.\<close>

record numeric_sensor_data =
  nsd_event_state :: u8
  nsd_previous_event_state :: u8
  nsd_sensor_data_size :: u8
  nsd_present_reading :: u32

definition get_reading :: "('a::len word \<Rightarrow> u32) \<Rightarrow> numeric_sensor_data step" where
  "get_reading conv v b =
     (let (rc, w, b) = msgbuf_extract b (0 :: 'a word) in
      (Go, if rc = 0 then v\<lparr>nsd_present_reading := conv w\<rparr> else v, b))"

definition decode_numeric_sensor_data ::
    "(nat \<times> u8 list) option \<Rightarrow> nat \<Rightarrow> numeric_sensor_data option \<Rightarrow> (int \<times> numeric_sensor_data option) option" where
  "decode_numeric_sensor_data sensor_data sensor_data_length out =
     if_set PLDM_ERROR_INVALID_DATA sensor_data out (\<lambda>obj v.
       if sensor_data_length > 11 then Some (PLDM_ERROR_INVALID_LENGTH, v)
       else decode_bytes as_cc 4
         [get nsd_event_state_update,
          get nsd_previous_event_state_update,
          get_or as_cc nsd_sensor_data_size_update,
          refuse (\<lambda>v. nsd_sensor_data_size v > SENSOR_DATA_SIZE_MAX) PLDM_ERROR_INVALID_DATA,
          only (\<lambda>v. nsd_sensor_data_size v = 0) [get_reading (ucast :: u8 \<Rightarrow> u32)],
          only (\<lambda>v. nsd_sensor_data_size v = 1) [get_reading (scast :: u8 \<Rightarrow> u32)],
          only (\<lambda>v. nsd_sensor_data_size v = 2) [get_reading (ucast :: u16 \<Rightarrow> u32)],
          only (\<lambda>v. nsd_sensor_data_size v = 3) [get_reading (scast :: u16 \<Rightarrow> u32)],
          only (\<lambda>v. nsd_sensor_data_size v = 4 \<or> nsd_sensor_data_size v = 5) [get_reading (\<lambda>w :: u32. w)],
          only (\<lambda>v. nsd_sensor_data_size v = 6 \<or> nsd_sensor_data_size v = 7) [get_reading (ucast :: u64 \<Rightarrow> u32)]]
         pldm_msgbuf_complete_consumed sensor_data_length obj v)"

record numeric_sensor_event_data =
  nse_event_state :: u8
  nse_previous_event_state :: u8
  nse_sensor_data_size :: u8
  nse_present_reading :: "u8 list"

text \<open>
  The result of the extraction by tag is tested: an unknown tag gives its negated completion code, any other
  error is translated.
\<close>

definition get_value_or :: "(int \<Rightarrow> int option) \<Rightarrow> (msgbuf \<Rightarrow> u8 \<Rightarrow> u8 list \<Rightarrow> int \<times> u8 list \<times> msgbuf) \<Rightarrow>
    ('v \<Rightarrow> u8) \<Rightarrow> ('v \<Rightarrow> u8 list) \<Rightarrow> ((u8 list \<Rightarrow> u8 list) \<Rightarrow> 'v \<Rightarrow> 'v) \<Rightarrow> 'v step" where
  "get_value_or x ext tag arr upd v b =
     (let (rc, d, b) = ext b (tag v) (arr v) in
      if rc \<noteq> 0 then leave x rc v b else (Go, upd (\<lambda>_. d) v, b))"

definition decode_numeric_sensor_event_data ::
    "(nat \<times> u8 list) option \<Rightarrow> nat \<Rightarrow> numeric_sensor_event_data option \<Rightarrow> (int \<times> numeric_sensor_event_data option) option" where
  "decode_numeric_sensor_event_data sensor_data sensor_data_length out =
     if_set PLDM_ERROR_INVALID_DATA sensor_data out (\<lambda>obj v.
       if sensor_data_length > 11 then Some (PLDM_ERROR_INVALID_LENGTH, v)
       else decode_bytes as_cc 4
         [get nse_event_state_update,
          get nse_previous_event_state_update,
          get_or as_cc nse_sensor_data_size_update,
          get_value_or (\<lambda>rc. if rc = - PLDM_ERROR_INVALID_DATA then Some PLDM_ERROR_INVALID_DATA else as_cc rc)
            pldm_msgbuf_extract_sensor_data nse_sensor_data_size nse_present_reading nse_present_reading_update]
         pldm_msgbuf_complete_consumed sensor_data_length obj v)"

section \<open>PDRs of numeric sensors and effecters\<close>

record numeric_sensor_value_pdr =
  ns_hdr :: pldm_value_pdr_hdr
  ns_terminus_handle :: u16
  ns_sensor_id :: u16
  ns_entity_type :: u16
  ns_entity_instance_num :: u16
  ns_container_id :: u16
  ns_sensor_init :: u8
  ns_sensor_auxiliary_names_pdr :: u8
  ns_base_unit :: u8
  ns_unit_modifier :: u8
  ns_rate_unit :: u8
  ns_base_oem_unit_handle :: u8
  ns_aux_unit :: u8
  ns_aux_unit_modifier :: u8
  ns_aux_rate_unit :: u8
  ns_rel :: u8
  ns_aux_oem_unit_handle :: u8
  ns_is_linear :: u8
  ns_sensor_data_size :: u8
  ns_resolution :: u32
  ns_offset :: u32
  ns_accuracy :: u16
  ns_plus_tolerance :: u8
  ns_minus_tolerance :: u8
  ns_hysteresis :: "u8 list"
  ns_supported_thresholds :: u8
  ns_threshold_and_hysteresis_volatility :: u8
  ns_state_transition_interval :: u32
  ns_update_interval :: u32
  ns_max_readable :: "u8 list"
  ns_min_readable :: "u8 list"
  ns_range_field_format :: u8
  ns_range_field_support :: u8
  ns_nominal_value :: "u8 list"
  ns_normal_max :: "u8 list"
  ns_normal_min :: "u8 list"
  ns_warning_high :: "u8 list"
  ns_warning_low :: "u8 list"
  ns_critical_high :: "u8 list"
  ns_critical_low :: "u8 list"
  ns_fatal_high :: "u8 list"
  ns_fatal_low :: "u8 list"

abbreviation (input) "ns_data \<equiv> get_value pldm_msgbuf_extract_sensor_data ns_sensor_data_size"
abbreviation (input) "ns_range \<equiv> get_value pldm__msgbuf_extract_range_field_format ns_range_field_format"

definition decode_numeric_sensor_pdr_data ::
    "(nat \<times> u8 list) option \<Rightarrow> nat \<Rightarrow> numeric_sensor_value_pdr option \<Rightarrow>
      (int \<times> numeric_sensor_value_pdr option) option" where
  "decode_numeric_sensor_pdr_data pdr_data pdr_data_length out =
     if_set PLDM_ERROR_INVALID_DATA pdr_data out (decode_bytes as_cc 69
       [get_hdr True as_cc 69 pdr_data_length ns_hdr ns_hdr_update,
        get ns_terminus_handle_update,
        get ns_sensor_id_update,
        get ns_entity_type_update,
        get ns_entity_instance_num_update,
        get ns_container_id_update,
        get ns_sensor_init_update,
        get ns_sensor_auxiliary_names_pdr_update,
        get ns_base_unit_update,
        get ns_unit_modifier_update,
        get ns_rate_unit_update,
        get ns_base_oem_unit_handle_update,
        get ns_aux_unit_update,
        get ns_aux_unit_modifier_update,
        get ns_aux_rate_unit_update,
        get ns_rel_update,
        get ns_aux_oem_unit_handle_update,
        get ns_is_linear_update,
        get_or as_cc ns_sensor_data_size_update,
        refuse (\<lambda>v. ns_sensor_data_size v > SENSOR_DATA_SIZE_MAX) PLDM_ERROR_INVALID_DATA,
        get ns_resolution_update,
        get ns_offset_update,
        get ns_accuracy_update,
        get ns_plus_tolerance_update,
        get ns_minus_tolerance_update,
        ns_data ns_hysteresis ns_hysteresis_update,
        get ns_supported_thresholds_update,
        get ns_threshold_and_hysteresis_volatility_update,
        get ns_state_transition_interval_update,
        get ns_update_interval_update,
        ns_data ns_max_readable ns_max_readable_update,
        ns_data ns_min_readable ns_min_readable_update,
        get_or as_cc ns_range_field_format_update,
        refuse (\<lambda>v. ns_range_field_format v > RANGE_FIELD_FORMAT_MAX) PLDM_ERROR_INVALID_DATA,
        get ns_range_field_support_update,
        ns_range ns_nominal_value ns_nominal_value_update,
        ns_range ns_normal_max ns_normal_max_update,
        ns_range ns_normal_min ns_normal_min_update,
        ns_range ns_warning_high ns_warning_high_update,
        ns_range ns_warning_low ns_warning_low_update,
        ns_range ns_critical_high ns_critical_high_update,
        ns_range ns_critical_low ns_critical_low_update,
        ns_range ns_fatal_high ns_fatal_high_update,
        ns_range ns_fatal_low ns_fatal_low_update]
       pldm_msgbuf_complete pdr_data_length)"

record numeric_effecter_value_pdr =
  ne_hdr :: pldm_value_pdr_hdr
  ne_terminus_handle :: u16
  ne_effecter_id :: u16
  ne_entity_type :: u16
  ne_entity_instance :: u16
  ne_container_id :: u16
  ne_effecter_semantic_id :: u16
  ne_effecter_init :: u8
  ne_effecter_auxiliary_names :: u8
  ne_base_unit :: u8
  ne_unit_modifier :: u8
  ne_rate_unit :: u8
  ne_base_oem_unit_handle :: u8
  ne_aux_unit :: u8
  ne_aux_unit_modifier :: u8
  ne_aux_rate_unit :: u8
  ne_aux_oem_unit_handle :: u8
  ne_is_linear :: u8
  ne_effecter_data_size :: u8
  ne_resolution :: u32
  ne_offset :: u32
  ne_accuracy :: u16
  ne_plus_tolerance :: u8
  ne_minus_tolerance :: u8
  ne_state_transition_interval :: u32
  ne_transition_interval :: u32
  ne_max_settable :: "u8 list"
  ne_min_settable :: "u8 list"
  ne_range_field_format :: u8
  ne_range_field_support :: u8
  ne_nominal_value :: "u8 list"
  ne_normal_max :: "u8 list"
  ne_normal_min :: "u8 list"
  ne_rated_max :: "u8 list"
  ne_rated_min :: "u8 list"

abbreviation (input) "ne_data \<equiv> get_value pldm__msgbuf_extract_effecter_data ne_effecter_data_size"
abbreviation (input) "ne_range \<equiv> get_value pldm__msgbuf_extract_range_field_format ne_range_field_format"

text \<open>
  Here the msgbuf is not discarded when the header is refused. \<open>hdr\<close> is the local variable, which is not
  initialised; it is copied when the header is accepted.
\<close>

definition decode_numeric_effecter_pdr_data ::
    "(nat \<times> u8 list) option \<Rightarrow> nat \<Rightarrow> pldm_value_pdr_hdr \<Rightarrow> numeric_effecter_value_pdr option \<Rightarrow>
      (int \<times> numeric_effecter_value_pdr option) option" where
  "decode_numeric_effecter_pdr_data pdr_data pdr_data_length hdr out =
     if_set PLDM_ERROR_INVALID_DATA pdr_data out (decode_bytes as_cc 63
       [get_hdr False as_cc 63 pdr_data_length (\<lambda>_. hdr) ne_hdr_update,
        get ne_terminus_handle_update,
        get ne_effecter_id_update,
        get ne_entity_type_update,
        get ne_entity_instance_update,
        get ne_container_id_update,
        get ne_effecter_semantic_id_update,
        get ne_effecter_init_update,
        get ne_effecter_auxiliary_names_update,
        get ne_base_unit_update,
        get ne_unit_modifier_update,
        get ne_rate_unit_update,
        get ne_base_oem_unit_handle_update,
        get ne_aux_unit_update,
        get ne_aux_unit_modifier_update,
        get ne_aux_rate_unit_update,
        get ne_aux_oem_unit_handle_update,
        get ne_is_linear_update,
        get_or as_cc ne_effecter_data_size_update,
        refuse (\<lambda>v. ne_effecter_data_size v > SENSOR_DATA_SIZE_MAX) PLDM_ERROR_INVALID_DATA,
        get ne_resolution_update,
        get ne_offset_update,
        get ne_accuracy_update,
        get ne_plus_tolerance_update,
        get ne_minus_tolerance_update,
        get ne_state_transition_interval_update,
        get ne_transition_interval_update,
        ne_data ne_max_settable ne_max_settable_update,
        ne_data ne_min_settable ne_min_settable_update,
        get_or as_cc ne_range_field_format_update,
        refuse (\<lambda>v. ne_range_field_format v > RANGE_FIELD_FORMAT_MAX) PLDM_ERROR_INVALID_DATA,
        get ne_range_field_support_update,
        ne_range ne_nominal_value ne_nominal_value_update,
        ne_range ne_normal_max ne_normal_max_update,
        ne_range ne_normal_min ne_normal_min_update,
        ne_range ne_rated_max ne_rated_max_update,
        ne_range ne_rated_min ne_rated_min_update]
       pldm_msgbuf_complete_consumed pdr_data_length)"

section \<open>Reading numeric effecters\<close>

definition encode_get_numeric_effecter_value_req :: "u8 \<Rightarrow> u16 \<Rightarrow> pldm_msg option \<Rightarrow> (int \<times> pldm_msg option) option" where
  "encode_get_numeric_effecter_value_req instance_id effecter_id msg =
     if_msg PLDM_ERROR_INVALID_DATA msg (platform_req instance_id 0x32 (fill (le_of_word effecter_id)))"

definition encode_get_numeric_effecter_value_resp ::
    "u8 \<Rightarrow> u8 \<Rightarrow> u8 \<Rightarrow> u8 \<Rightarrow> u8 list option \<Rightarrow> u8 list option \<Rightarrow> pldm_msg option \<Rightarrow> nat \<Rightarrow>
      (int \<times> pldm_msg option) option" where
  "encode_get_numeric_effecter_value_resp instance_id completion_code effecter_data_size effecter_oper_state
     pending_value present_value msg payload_length =
     if_msg PLDM_ERROR_INVALID_DATA msg (\<lambda>m.
       case (pending_value, present_value) of
         (Some pending, Some present) \<Rightarrow>
           if effecter_data_size > SENSOR_DATA_SIZE_MAX then Some (PLDM_ERROR_INVALID_DATA, m)
           else if effecter_oper_state > EFFECTER_OPER_STATE_INTEST then Some (PLDM_ERROR_INVALID_DATA, m)
           else platform_resp instance_id 0x32 (\<lambda>m. do {
             m \<leftarrow> put_bytes 0 [completion_code, effecter_data_size, effecter_oper_state] m;
             let n = size_width effecter_data_size;
             if payload_length \<noteq> 3 + 2 * n then Some (PLDM_ERROR_INVALID_LENGTH, m)
             else if length pending < n \<or> length present < n then None
             else do {
               m \<leftarrow> put_bytes 3 (take n pending @ take n present) m;
               Some (PLDM_SUCCESS, m) } }) m
       | _ \<Rightarrow> Some (PLDM_ERROR_INVALID_DATA, m))"

definition decode_get_numeric_effecter_value_req ::
    "pldm_msg option \<Rightarrow> nat \<Rightarrow> u16 option \<Rightarrow> (int \<times> u16 option) option" where
  "decode_get_numeric_effecter_value_req msg payload_length effecter_id =
     if_set PLDM_ERROR_INVALID_DATA msg effecter_id
       (decode_msg as_cc 2 [get (\<lambda>f. f)] pldm_msgbuf_complete_consumed payload_length)"

record numeric_effecter_value_resp =
  ner_completion_code :: u8
  ner_effecter_data_size :: u8
  ner_effecter_oper_state :: u8
  ner_pending_value :: "u8 list"
  ner_present_value :: "u8 list"

abbreviation (input) "ner_value \<equiv> get_value pldm_msgbuf_extract_effecter_value ner_effecter_data_size"

definition decode_get_numeric_effecter_value_resp ::
    "pldm_msg option \<Rightarrow> nat \<Rightarrow> numeric_effecter_value_resp option \<Rightarrow> (int \<times> numeric_effecter_value_resp option) option" where
  "decode_get_numeric_effecter_value_resp msg payload_length out =
     if_set PLDM_ERROR_INVALID_DATA msg out (decode_msg as_cc 5
       [get_or as_cc ner_completion_code_update,
        refuse (\<lambda>v. ner_completion_code v \<noteq> PLDM_SUCCESS) PLDM_SUCCESS,
        get_or as_cc ner_effecter_data_size_update,
        refuse (\<lambda>v. ner_effecter_data_size v > SENSOR_DATA_SIZE_MAX) PLDM_ERROR_INVALID_DATA,
        get_or as_cc ner_effecter_oper_state_update,
        refuse (\<lambda>v. ner_effecter_oper_state v > EFFECTER_OPER_STATE_INTEST) PLDM_ERROR_INVALID_DATA,
        ner_value ner_pending_value ner_pending_value_update,
        ner_value ner_present_value ner_present_value_update]
       pldm_msgbuf_complete_consumed payload_length)"

section \<open>Repository change events\<close>

text \<open>
  A change record is an operation and its entries. The counts are arguments of their own, one for each
  record; reading behind the end of an array is undefined. The results: return value, the event data and
  \<open>*actual_change_records_size\<close>.
\<close>

fun change_record_bytes :: "(u8 \<times> u8 \<times> u32 list) list \<Rightarrow> u8 list option" where
  "change_record_bytes [] = Some []"
| "change_record_bytes ((operation, n, entries) # rs) =
     (if length entries < unat n then None
      else do {
        rest \<leftarrow> change_record_bytes rs;
        Some ([operation, n] @ concat (map le_of_word (take (unat n) entries)) @ rest) })"

definition encode_pldm_pdr_repository_chg_event_data ::
    "u8 \<Rightarrow> u8 \<Rightarrow> u8 list option \<Rightarrow> u8 list option \<Rightarrow> u32 list list option \<Rightarrow> u8 list option \<Rightarrow> nat \<Rightarrow> nat \<Rightarrow>
      (int \<times> u8 list option \<times> nat) option" where
  "encode_pldm_pdr_repository_chg_event_data event_data_format number_of_change_records event_data_operations
     numbers_of_change_entries change_entries event_data actual_change_records_size max_change_records_size =
     (case (event_data_operations, numbers_of_change_entries, change_entries) of
        (Some ops, Some ns, Some es) \<Rightarrow>
          let k = unat number_of_change_records in
          if length ns < k then None
          else
            let expected_size = 2 + k + k + sum_list (map (\<lambda>n. 4 * unat n) (take k ns)) in
            case event_data of
              None \<Rightarrow> Some (PLDM_SUCCESS, None, expected_size)
            | Some d \<Rightarrow>
                if max_change_records_size < expected_size
                then Some (PLDM_ERROR_INVALID_LENGTH, event_data, expected_size)
                else if length ops < k \<or> length es < k then None
                else do {
                  rs \<leftarrow> change_record_bytes (zip (take k ops) (zip (take k ns) (take k es)));
                  let bs = [event_data_format, number_of_change_records] @ rs;
                  if length d < length bs then None
                  else Some (PLDM_SUCCESS, Some (poke d 0 bs), expected_size) }
      | _ \<Rightarrow> Some (PLDM_ERROR_INVALID_DATA, event_data, actual_change_records_size))"

record chg_event_data =
  che_event_data_format :: u8
  che_number_of_change_records :: u8
  che_change_record_data_offset :: nat

definition decode_pldm_pdr_repository_chg_event_data ::
    "(nat \<times> u8 list) option \<Rightarrow> nat \<Rightarrow> chg_event_data option \<Rightarrow> (int \<times> chg_event_data option) option" where
  "decode_pldm_pdr_repository_chg_event_data event_data event_data_size out =
     if_set PLDM_ERROR_INVALID_DATA event_data out (decode_bytes as_cc 2
       [get che_event_data_format_update,
        get_or as_cc che_number_of_change_records_update,
        refuse (\<lambda>v. che_event_data_format v = 0 \<and> che_number_of_change_records v \<noteq> 0) PLDM_ERROR_INVALID_DATA,
        span (\<lambda>v. unat (che_number_of_change_records v) * 2) (\<lambda>_ v. v),
        assign (\<lambda>v. v\<lparr>che_change_record_data_offset := 2\<rparr>)]
       pldm_msgbuf_complete event_data_size)"

record change_record_data =
  crd_event_data_operation :: u8
  crd_number_of_change_entries :: u8
  crd_change_entry_data_offset :: nat

definition decode_pldm_pdr_repository_change_record_data ::
    "(nat \<times> u8 list) option \<Rightarrow> nat \<Rightarrow> change_record_data option \<Rightarrow> (int \<times> change_record_data option) option" where
  "decode_pldm_pdr_repository_change_record_data record_data record_data_size out =
     if_set PLDM_ERROR_INVALID_DATA record_data out (decode_bytes as_cc 2
       [get crd_event_data_operation_update,
        get_or as_cc crd_number_of_change_entries_update,
        span (\<lambda>v. unat (crd_number_of_change_entries v) * 4) (\<lambda>_ v. v),
        assign (\<lambda>v. v\<lparr>crd_change_entry_data_offset := 2\<rparr>)]
       pldm_msgbuf_complete record_data_size)"

section \<open>Poll events\<close>

record message_poll_event =
  mpe_format_version :: u8
  mpe_event_id :: u16
  mpe_data_transfer_handle :: u32

definition decode_pldm_message_poll_event_data ::
    "(nat \<times> u8 list) option \<Rightarrow> nat \<Rightarrow> message_poll_event option \<Rightarrow> (int \<times> message_poll_event option) option" where
  "decode_pldm_message_poll_event_data event_data event_data_length out =
     if_set (- EINVAL) event_data out (decode_bytes as_errno 7
       [get mpe_format_version_update,
        get_or as_errno mpe_event_id_update,
        refuse (\<lambda>v. mpe_event_id v = 0 \<or> mpe_event_id v = 0xffff) (- EPROTO),
        get mpe_data_transfer_handle_update]
       pldm_msgbuf_complete_consumed event_data_length)"

definition encode_pldm_message_poll_event_data ::
    "message_poll_event option \<Rightarrow> (nat \<times> u8 list) option \<Rightarrow> nat \<Rightarrow> (int \<times> (nat \<times> u8 list) option) option" where
  "encode_pldm_message_poll_event_data poll_event event_data event_data_length =
     (case (poll_event, event_data) of
        (Some e, Some (a, m)) \<Rightarrow>
          if mpe_event_id e = 0 \<or> mpe_event_id e = 0xffff then Some (- EPROTO, event_data)
          else map_option (\<lambda>(r, _, m). (r, Some (a, m)))
            (on_buffer as_errno 7 [put mpe_format_version, put mpe_event_id, put mpe_data_transfer_handle]
               pldm_msgbuf_complete_consumed a m event_data_length e)
      | _ \<Rightarrow> Some (- EINVAL, event_data))"

section \<open>Enabling sensors\<close>

record set_numeric_sensor_enable_req =
  sns_sensor_id :: u16
  sns_sensor_operational_state :: u8
  sns_sensor_event_message_enable :: u8

definition encode_pldm_platform_set_numeric_sensor_enable_req ::
    "u8 \<Rightarrow> set_numeric_sensor_enable_req option \<Rightarrow> pldm_msg option \<Rightarrow> nat option \<Rightarrow>
      (int \<times> pldm_msg option \<times> nat option) option" where
  "encode_pldm_platform_set_numeric_sensor_enable_req instance_id req msg payload_length =
     (case (req, msg, payload_length) of
        (Some r, Some m, Some len) \<Rightarrow>
          if sns_sensor_operational_state r > 2 \<or> sns_sensor_event_message_enable r > 4
          then Some (- EINVAL, msg, payload_length)
          else
            let (rc, m) = msg_pack_errno (codec_header PLDM_REQUEST instance_id PLDM_PLATFORM 0x10) m in
            if rc \<noteq> 0 then Some (rc, Some m, payload_length)
            else map_option (\<lambda>(rc, m, len). (rc, Some m, Some len))
              (encode_used 4
                 [put sns_sensor_id, put sns_sensor_operational_state, put sns_sensor_event_message_enable] r m len)
      | _ \<Rightarrow> Some (- EINVAL, msg, payload_length))"

definition decode_pldm_platform_set_numeric_sensor_enable_resp ::
    "pldm_msg option \<Rightarrow> nat \<Rightarrow> u8 option \<Rightarrow> (int \<times> u8 option) option" where
  "decode_pldm_platform_set_numeric_sensor_enable_resp msg payload_length completion_code =
     if_set (- EINVAL) msg completion_code
       (decode_msg as_errno 1 [get (\<lambda>f. f)] pldm_msgbuf_complete_consumed payload_length)"

definition decode_set_numeric_sensor_enable_req ::
    "pldm_msg option \<Rightarrow> nat \<Rightarrow> set_numeric_sensor_enable_req option \<Rightarrow>
      (int \<times> set_numeric_sensor_enable_req option) option" where
  "decode_set_numeric_sensor_enable_req msg payload_length out =
     if_set (- EINVAL) msg out (\<lambda>m v. do {
       (rc, v) \<leftarrow> decode_msg as_errno 0
         [get sns_sensor_id_update, get sns_sensor_operational_state_update, get sns_sensor_event_message_enable_update]
         pldm_msgbuf_complete_consumed payload_length m v;
       Some (if rc \<noteq> 0 then rc
             else if sns_sensor_operational_state v > 2 then - EPROTO
             else if sns_sensor_event_message_enable v > 4 then - EPROTO else 0, v) })"

record set_state_sensor_enables_req =
  sss_sensor_id :: u16
  sss_field_count :: u8
  sss_fields :: "(u8 \<times> u8) list"
  sss_op_state_val :: u8
  sss_event_enable_val :: u8

text \<open>
  The last two components are the local variables of the loop. An invalid count, and a count that cannot be
  extracted, return with the msgbuf still open.
\<close>

definition return_open :: "('v \<Rightarrow> bool) \<Rightarrow> int \<Rightarrow> 'v step" where
  "return_open P r v b = (if P v then (Return (Some r), v, b) else (Go, v, b))"

definition get_or_open :: "(('a::len word \<Rightarrow> 'a word) \<Rightarrow> 'v \<Rightarrow> 'v) \<Rightarrow> 'v step" where
  "get_or_open upd v b =
     (let (rc, d, b) = msgbuf_extract b (0 :: 'a word) in
      if rc \<noteq> 0 then (Return (Some rc), v, b) else (Go, upd (\<lambda>_. d) v, b))"

definition decode_set_state_sensor_enables_req ::
    "pldm_msg option \<Rightarrow> nat \<Rightarrow> set_state_sensor_enables_req option \<Rightarrow>
      (int \<times> set_state_sensor_enables_req option) option" where
  "decode_set_state_sensor_enables_req msg payload_length out =
     if_set (- EINVAL) msg out (decode_msg as_errno 3
       [get sss_sensor_id_update,
        get_or_open sss_field_count_update,
        return_open (\<lambda>v. sss_field_count v < 1 \<or> sss_field_count v > 8) (- EPROTO),
        times (\<lambda>v. unat (sss_field_count v)) (\<lambda>i.
          [assign (\<lambda>v. v\<lparr>sss_op_state_val := 0, sss_event_enable_val := 0\<rparr>),
           get sss_op_state_val_update,
           get_or as_errno sss_event_enable_val_update,
           refuse (\<lambda>v. sss_op_state_val v > 2) (- EPROTO),
           refuse (\<lambda>v. sss_event_enable_val v > 4) (- EPROTO),
           object_has (\<lambda>v. i < length (sss_fields v)),
           assign (\<lambda>v. v\<lparr>sss_fields := (sss_fields v)[i := (sss_op_state_val v, sss_event_enable_val v)]\<rparr>)])]
       pldm_msgbuf_complete_consumed payload_length)"

section \<open>Sensor readings\<close>

definition encode_get_sensor_reading_req :: "u8 \<Rightarrow> u16 \<Rightarrow> u8 \<Rightarrow> pldm_msg option \<Rightarrow> (int \<times> pldm_msg option) option" where
  "encode_get_sensor_reading_req instance_id sensor_id rearm_event_state msg =
     if_msg PLDM_ERROR_INVALID_DATA msg
       (platform_req instance_id 0x11 (fill (le_of_word sensor_id @ [rearm_event_state])))"

record sensor_reading_req =
  srr_sensor_id :: u16
  srr_rearm_event_state :: u8

definition decode_get_sensor_reading_req ::
    "pldm_msg option \<Rightarrow> nat \<Rightarrow> sensor_reading_req option \<Rightarrow> (int \<times> sensor_reading_req option) option" where
  "decode_get_sensor_reading_req msg payload_length out =
     if_set PLDM_ERROR_INVALID_DATA msg out (decode_msg as_cc 3
       [get srr_sensor_id_update, get srr_rearm_event_state_update] pldm_msgbuf_complete payload_length)"

record sensor_reading_resp =
  sr_completion_code :: u8
  sr_sensor_data_size :: u8
  sr_sensor_operational_state :: u8
  sr_sensor_event_message_enable :: u8
  sr_present_state :: u8
  sr_previous_state :: u8
  sr_event_state :: u8
  sr_present_reading :: "u8 list"

abbreviation (input) sensor_reading_steps :: "sensor_reading_resp step list" where
  "sensor_reading_steps \<equiv>
     [get_or as_cc sr_completion_code_update,
      refuse (\<lambda>v. sr_completion_code v \<noteq> PLDM_SUCCESS) PLDM_SUCCESS,
      get_or as_cc sr_sensor_data_size_update,
      refuse (\<lambda>v. sr_sensor_data_size v > SENSOR_DATA_SIZE_MAX) PLDM_ERROR_INVALID_DATA,
      get sr_sensor_operational_state_update,
      get sr_sensor_event_message_enable_update,
      get sr_present_state_update,
      get sr_previous_state_update,
      get sr_event_state_update,
      get_value pldm_msgbuf_extract_sensor_value sr_sensor_data_size sr_present_reading sr_present_reading_update]"

definition decode_get_sensor_reading_resp ::
    "pldm_msg option \<Rightarrow> nat \<Rightarrow> sensor_reading_resp option \<Rightarrow> (int \<times> sensor_reading_resp option) option" where
  "decode_get_sensor_reading_resp msg payload_length out =
     if_set PLDM_ERROR_INVALID_DATA msg out
       (decode_msg as_cc 8 sensor_reading_steps pldm_msgbuf_complete_consumed payload_length)"

definition encode_get_sensor_reading_resp ::
    "u8 \<Rightarrow> u8 \<Rightarrow> u8 \<Rightarrow> u8 \<Rightarrow> u8 \<Rightarrow> u8 \<Rightarrow> u8 \<Rightarrow> u8 \<Rightarrow> u8 list option \<Rightarrow> pldm_msg option \<Rightarrow> nat \<Rightarrow>
      (int \<times> pldm_msg option) option" where
  "encode_get_sensor_reading_resp instance_id completion_code sensor_data_size sensor_operational_state
     sensor_event_message_enable present_state previous_state event_state present_reading msg payload_length =
     if_msg PLDM_ERROR_INVALID_DATA msg (\<lambda>m.
       case present_reading of
         None \<Rightarrow> Some (PLDM_ERROR_INVALID_DATA, m)
       | Some reading \<Rightarrow>
           if sensor_data_size > SENSOR_DATA_SIZE_MAX then Some (PLDM_ERROR_INVALID_DATA, m)
           else platform_resp instance_id 0x11 (\<lambda>m. do {
             m \<leftarrow> put_bytes 0 [completion_code, sensor_data_size, sensor_operational_state,
                    sensor_event_message_enable, present_state, previous_state, event_state] m;
             let n = size_width sensor_data_size;
             if payload_length \<noteq> 7 + n then Some (PLDM_ERROR_INVALID_LENGTH, m)
             else if length reading < n then None
             else do { m \<leftarrow> put_bytes 7 (take n reading) m; Some (PLDM_SUCCESS, m) } }) m)"

section \<open>Event receivers\<close>

definition encode_get_event_receiver_req :: "u8 \<Rightarrow> pldm_msg option \<Rightarrow> nat \<Rightarrow> (int \<times> pldm_msg option) option" where
  "encode_get_event_receiver_req instance_id msg payload_length =
     if_msg (- EINVAL) msg
       (\<lambda>m. Some (msg_pack_errno (codec_header PLDM_REQUEST instance_id PLDM_PLATFORM 0x05) m))"

record event_receiver_resp =
  er_completion_code :: u8
  er_transport_protocol_type :: u8
  er_mctp_eid :: u8

text \<open>The pointer to the length is not checked for NULL.\<close>

definition encode_get_event_receiver_resp ::
    "u8 \<Rightarrow> event_receiver_resp option \<Rightarrow> pldm_msg option \<Rightarrow> nat \<Rightarrow> (int \<times> pldm_msg option \<times> nat) option" where
  "encode_get_event_receiver_resp instance_id info msg payload_length =
     (case (info, msg) of
        (Some i, Some m) \<Rightarrow>
          if er_transport_protocol_type i \<noteq> 0 then Some (- ENOTSUP, msg, payload_length)
          else
            let (rc, m) = msg_pack_errno (codec_header PLDM_RESPONSE instance_id PLDM_PLATFORM 0x05) m in
            if rc \<noteq> 0 then Some (rc, Some m, payload_length)
            else map_option (\<lambda>(rc, m, len). (rc, Some m, len))
              (encode_used 2 [put er_completion_code, put er_transport_protocol_type, put er_mctp_eid] i m payload_length)
      | _ \<Rightarrow> Some (- EINVAL, msg, payload_length))"

text \<open>The response object is not checked for NULL.\<close>

definition decode_get_event_receiver_resp ::
    "pldm_msg option \<Rightarrow> nat \<Rightarrow> event_receiver_resp \<Rightarrow> (int \<times> event_receiver_resp) option" where
  "decode_get_event_receiver_resp msg payload_length resp =
     (case msg of
        None \<Rightarrow> Some (- EINVAL, resp)
      | Some m \<Rightarrow> unless_error m payload_length er_completion_code_update resp (
          decode_msg as_errno 2
            [get er_completion_code_update,
             get_or as_errno er_transport_protocol_type_update,
             refuse (\<lambda>v. er_transport_protocol_type v \<noteq> 0) (- ENOTSUP),
             get er_mctp_eid_update]
            pldm_msgbuf_complete_consumed payload_length m resp))"

definition encode_set_event_receiver_req ::
    "u8 \<Rightarrow> u8 \<Rightarrow> u8 \<Rightarrow> u8 \<Rightarrow> u16 \<Rightarrow> pldm_msg option \<Rightarrow> (int \<times> pldm_msg option) option" where
  "encode_set_event_receiver_req instance_id event_message_global_enable transport_protocol_type
     event_receiver_address_info heartbeat_timer msg =
     if_msg PLDM_ERROR_INVALID_DATA msg (\<lambda>m.
       if transport_protocol_type \<noteq> 0 then Some (PLDM_ERROR_INVALID_DATA, m)
       else platform_req instance_id 0x04 (\<lambda>m. do {
         m \<leftarrow> put_bytes 0 [event_message_global_enable, transport_protocol_type, event_receiver_address_info] m;
         if event_message_global_enable = ASYNC_KEEP_ALIVE then
           if heartbeat_timer = 0 then Some (PLDM_ERROR_INVALID_DATA, m)
           else do { m \<leftarrow> put_bytes 3 (le_of_word heartbeat_timer) m; Some (PLDM_SUCCESS, m) }
         else Some (PLDM_SUCCESS, m) }) m)"

definition decode_set_event_receiver_resp :: "pldm_msg option \<Rightarrow> nat \<Rightarrow> u8 option \<Rightarrow> (int \<times> u8 option) option" where
  "decode_set_event_receiver_resp msg payload_length completion_code =
     if_set PLDM_ERROR_INVALID_DATA msg completion_code
       (decode_msg as_cc 1 [get (\<lambda>f. f)] pldm_msgbuf_complete payload_length)"

record set_event_receiver_req =
  ser_event_message_global_enable :: u8
  ser_transport_protocol_type :: u8
  ser_event_receiver_address_info :: u8
  ser_heartbeat_timer :: u16

definition decode_set_event_receiver_req ::
    "pldm_msg option \<Rightarrow> nat \<Rightarrow> set_event_receiver_req option \<Rightarrow> (int \<times> set_event_receiver_req option) option" where
  "decode_set_event_receiver_req msg payload_length out =
     if_set PLDM_ERROR_INVALID_DATA msg out (\<lambda>m v. do {
       (rc, v) \<leftarrow> decode_msg as_cc 3
         [get ser_event_message_global_enable_update,
          get ser_transport_protocol_type_update,
          get ser_event_receiver_address_info_update,
          only (\<lambda>v. ser_event_message_global_enable v = ASYNC_KEEP_ALIVE) [get ser_heartbeat_timer_update]]
         pldm_msgbuf_complete payload_length m v;
       Some (if rc \<noteq> 0 then rc
             else if ser_event_message_global_enable v = ASYNC_KEEP_ALIVE \<and> ser_heartbeat_timer v = 0
             then PLDM_ERROR_INVALID_DATA else PLDM_SUCCESS, v) })"

definition encode_set_event_receiver_resp :: "u8 \<Rightarrow> u8 \<Rightarrow> pldm_msg option \<Rightarrow> (int \<times> pldm_msg option) option" where
  "encode_set_event_receiver_resp instance_id completion_code msg =
     if_msg PLDM_ERROR_INVALID_DATA msg (platform_resp instance_id 0x04 (fill [completion_code]))"

section \<open>Polling for events\<close>

definition encode_poll_for_platform_event_message_req ::
    "u8 \<Rightarrow> poll_event_req \<Rightarrow> pldm_msg option \<Rightarrow> nat \<Rightarrow> (int \<times> pldm_msg option) option" where
  "encode_poll_for_platform_event_message_req instance_id req msg payload_length =
     if_msg PLDM_ERROR_INVALID_DATA msg (\<lambda>m.
       if pldm_platform_poll_for_platform_event_message_validate (pq_transfer_operation_flag req)
            (pq_event_id_to_acknowledge req) < 0 then Some (PLDM_ERROR_INVALID_DATA, m)
       else platform_req instance_id 0x0b (encode_msg as_cc 4
         [put pq_format_version, put pq_transfer_operation_flag, put pq_data_transfer_handle,
          put pq_event_id_to_acknowledge]
         pldm_msgbuf_complete payload_length req) m)"

text \<open>
  The event data is a pointer into the message (an offset), written when there is data. A completion code
  other than success is itself returned.
\<close>

record poll_event_out =
  po_completion_code :: u8
  po_tid :: u8
  po_event_id :: u16
  po_next_data_transfer_handle :: u32
  po_transfer_flag :: u8
  po_event_class :: u8
  po_event_data_size :: u32
  po_event_data :: "nat option"
  po_checksum :: u32

definition refuse_with :: "('v \<Rightarrow> bool) \<Rightarrow> ('v \<Rightarrow> int) \<Rightarrow> 'v step" where
  "refuse_with P r v b = (if P v then leave Some (r v) v b else (Go, v, b))"

definition decode_poll_for_platform_event_message_resp ::
    "pldm_msg option \<Rightarrow> nat \<Rightarrow> poll_event_out option \<Rightarrow> (int \<times> poll_event_out option) option" where
  "decode_poll_for_platform_event_message_resp msg payload_length out =
     if_set PLDM_ERROR_INVALID_DATA msg out (decode_msg as_cc 4
       [get_or as_cc po_completion_code_update,
        refuse_with (\<lambda>v. po_completion_code v \<noteq> PLDM_SUCCESS) (\<lambda>v. int (unat (po_completion_code v))),
        get po_tid_update,
        get_or as_cc po_event_id_update,
        refuse (\<lambda>v. po_event_id v = 0 \<or> po_event_id v = 0xffff) PLDM_SUCCESS,
        get po_next_data_transfer_handle_update,
        get_or as_cc po_transfer_flag_update,
        get po_event_class_update,
        get_or as_cc po_event_data_size_update,
        refuse (\<lambda>v. unat (po_event_data_size v) > payload_length) PLDM_ERROR_INVALID_DATA,
        only (\<lambda>v. po_event_data_size v > 0)
          [span (\<lambda>v. unat (po_event_data_size v)) (\<lambda>p v. v\<lparr>po_event_data := p\<rparr>)],
        only (\<lambda>v. po_transfer_flag v = PLDM_END \<or> po_transfer_flag v = PLDM_START_AND_END) [get po_checksum_update]]
       pldm_msgbuf_complete_consumed payload_length)"

section \<open>States of an effecter\<close>

record effecter_state_field =
  esf_effecter_op_state :: u8
  esf_pending_state :: u8
  esf_present_state :: u8

record state_effecter_states_resp =
  ses_completion_code :: u8
  ses_comp_effecter_count :: u8
  ses_field :: "effecter_state_field list"

definition encode_get_state_effecter_states_req ::
    "u8 \<Rightarrow> u16 \<Rightarrow> pldm_msg option \<Rightarrow> nat \<Rightarrow> (int \<times> pldm_msg option) option" where
  "encode_get_state_effecter_states_req instance_id effecter_id msg payload_length =
     if_msg (- EINVAL) msg (with_header_errno PLDM_REQUEST instance_id PLDM_PLATFORM 0x3a
       (encode_msg as_errno 2 [put (\<lambda>_. effecter_id)] pldm_msgbuf_complete_consumed payload_length ()))"

definition decode_get_state_effecter_states_req ::
    "pldm_msg option \<Rightarrow> nat \<Rightarrow> u16 option \<Rightarrow> (int \<times> u16 option) option" where
  "decode_get_state_effecter_states_req msg payload_length effecter_id =
     if_set (- EINVAL) msg effecter_id
       (decode_msg as_errno 2 [get (\<lambda>f. f)] pldm_msgbuf_complete_consumed payload_length)"

definition decode_get_state_effecter_states_resp ::
    "pldm_msg option \<Rightarrow> nat \<Rightarrow> state_effecter_states_resp option \<Rightarrow> (int \<times> state_effecter_states_resp option) option" where
  "decode_get_state_effecter_states_resp msg payload_length resp =
     if_set (- EINVAL) msg resp (decode_msg as_errno 2
       [get_or as_errno ses_completion_code_update,
        stop_with as_errno pldm_msgbuf_complete (\<lambda>v. ses_completion_code v \<noteq> PLDM_SUCCESS),
        get_or as_errno ses_comp_effecter_count_update,
        refuse (\<lambda>v. ses_comp_effecter_count v < 1 \<or> ses_comp_effecter_count v > 8) (- EBADMSG),
        times (\<lambda>v. unat (ses_comp_effecter_count v)) (\<lambda>i.
          [object_has (\<lambda>v. i < length (ses_field v)),
           get (\<lambda>f. ses_field_update (at i (esf_effecter_op_state_update f))),
           get (\<lambda>f. ses_field_update (at i (esf_pending_state_update f))),
           get (\<lambda>f. ses_field_update (at i (esf_present_state_update f)))])]
       pldm_msgbuf_complete_consumed payload_length)"

definition encode_get_state_effecter_states_resp ::
    "u8 \<Rightarrow> state_effecter_states_resp option \<Rightarrow> pldm_msg option \<Rightarrow> nat \<Rightarrow> (int \<times> pldm_msg option) option" where
  "encode_get_state_effecter_states_resp instance_id resp msg payload_length =
     if_msg (- EINVAL) msg (\<lambda>m. case resp of
         None \<Rightarrow> Some (- EINVAL, m)
       | Some r \<Rightarrow>
           if ses_comp_effecter_count r < 1 \<or> ses_comp_effecter_count r > 8 then Some (- EBADMSG, m)
           else with_header_errno PLDM_RESPONSE instance_id PLDM_PLATFORM 0x3a
             (encode_msg as_errno 2
                [put ses_completion_code,
                 put ses_comp_effecter_count,
                 times (\<lambda>v. unat (ses_comp_effecter_count v)) (\<lambda>i.
                   [object_has (\<lambda>v. i < length (ses_field v)),
                    put (\<lambda>v. esf_effecter_op_state (ses_field v ! i)),
                    put (\<lambda>v. esf_pending_state (ses_field v ! i)),
                    put (\<lambda>v. esf_present_state (ses_field v ! i))])]
                pldm_msgbuf_complete_consumed payload_length r) m)"

section \<open>CPER events\<close>

record platform_cper_event =
  pce_format_version :: u8
  pce_format_type :: u8
  pce_event_data_length :: u16
  pce_event_data :: "u8 list"

definition decode_pldm_platform_cper_event ::
    "(nat \<times> u8 list) option \<Rightarrow> nat \<Rightarrow> platform_cper_event option \<Rightarrow> nat \<Rightarrow> (int \<times> platform_cper_event option) option" where
  "decode_pldm_platform_cper_event event_data event_data_length cper_event cper_event_length =
     if_set (- EINVAL) event_data cper_event (\<lambda>obj v.
       if cper_event_length < 4 then Some (- EINVAL, v)
       else decode_bytes as_errno 4
         [get pce_format_version_update,
          get_or as_errno pce_format_type_update,
          refuse (\<lambda>v. pce_format_type v \<noteq> 0 \<and> pce_format_type v \<noteq> 1) (- EPROTO),
          get_or as_errno pce_event_data_length_update,
          refuse (\<lambda>v. unat (pce_event_data_length v) > cper_event_length - 4) (- EOVERFLOW),
          get_array_or as_errno (\<lambda>v. unat (pce_event_data_length v)) (\<lambda>_. cper_event_length - 4)
            pce_event_data pce_event_data_update]
         pldm_msgbuf_complete_consumed event_data_length obj v)"

definition pldm_platform_cper_event_event_data :: "platform_cper_event \<Rightarrow> u8 list" where
  "pldm_platform_cper_event_event_data event = pce_event_data event"

section \<open>Effecter enables and the terminus UID\<close>

definition encode_set_state_effecter_enables_req ::
    "u8 \<Rightarrow> u16 \<Rightarrow> u8 \<Rightarrow> (u8 \<times> u8) list option \<Rightarrow> pldm_msg option \<Rightarrow> (int \<times> pldm_msg option) option" where
  "encode_set_state_effecter_enables_req instance_id effecter_id comp_effecter_count flds msg =
     if_msg PLDM_ERROR_INVALID_DATA msg (\<lambda>m. case flds of
         None \<Rightarrow> Some (PLDM_ERROR_INVALID_DATA, m)
       | Some fs \<Rightarrow>
           if comp_effecter_count < 1 \<or> comp_effecter_count > 8 then Some (PLDM_ERROR_INVALID_DATA, m)
           else platform_req instance_id 0x38 (\<lambda>m.
             if length fs < unat comp_effecter_count then None
             else fill (le_of_word effecter_id @ [comp_effecter_count] @
                        pair_bytes (take (unat comp_effecter_count) fs)) m) m)"

definition encode_get_terminus_uid_req :: "u8 \<Rightarrow> pldm_msg option \<Rightarrow> (int \<times> pldm_msg option) option" where
  "encode_get_terminus_uid_req instance_id msg =
     if_msg PLDM_ERROR_INVALID_DATA msg (platform_req instance_id 0x03 (\<lambda>m. Some (PLDM_SUCCESS, m)))"

record terminus_uid_resp =
  tur_completion_code :: u8
  tur_uuid :: "u8 list"

text \<open>Nothing is compared with the length before the payload is read, and a shorter payload is accepted.\<close>

definition decode_get_terminus_UID_resp ::
    "pldm_msg option \<Rightarrow> nat \<Rightarrow> terminus_uid_resp option \<Rightarrow> (int \<times> terminus_uid_resp option) option" where
  "decode_get_terminus_UID_resp msg payload_length out =
     if_set PLDM_ERROR_INVALID_DATA msg out (\<lambda>m v. do {
       bs \<leftarrow> get_bytes 0 1 m;
       let v = v\<lparr>tur_completion_code := bs ! 0\<rparr>;
       if bs ! 0 \<noteq> PLDM_SUCCESS then Some (PLDM_SUCCESS, v)
       else if payload_length > 17 then Some (PLDM_ERROR_INVALID_LENGTH, v)
       else do {
         uuid \<leftarrow> get_bytes 1 16 m;
         if length (tur_uuid v) < 16 then None
         else Some (PLDM_SUCCESS, v\<lparr>tur_uuid := poke (tur_uuid v) 0 uuid\<rparr>) } })"

end
