(* ===== verification/Platform_Pdr.thy ===== *)
theory Platform_Pdr
  imports Platform_Codec
begin

text \<open>
  The PDRs of \<^verbatim>\<open>src/dsp/platform.c\<close> with fields of variable length: file descriptors, Redfish resources and
  actions, the possible states of a state effecter, and the auxiliary names of entities. A pointer into a
  PDR is its offset from the start of the data. The iterators of \<^verbatim>\<open>include/libpldm/platform.h\<close> go over such
  a field entry by entry.
\<close>

section \<open>Fields\<close>

definition open_field :: "((variable_field \<Rightarrow> variable_field) \<Rightarrow> 'v \<Rightarrow> 'v) \<Rightarrow> 'v step" where
  "open_field upd v b = (Go, upd (\<lambda>_. snd (pldm__msgbuf_field_begin (mb_cursor b) (mb_remaining b))) v, b)"

definition close_field ::
    "('v \<Rightarrow> variable_field) \<Rightarrow> ((variable_field \<Rightarrow> variable_field) \<Rightarrow> 'v \<Rightarrow> 'v) \<Rightarrow> 'v step" where
  "close_field sel upd v b =
     (let (rc, f) = pldm__msgbuf_field_end (mb_cursor b) (mb_remaining b) (sel v); v = upd (\<lambda>_. f) v in
      if rc \<noteq> 0 then leave as_errno rc v b else (Go, v, b))"

text \<open>A decoder on the bytes of a field of the object \<open>obj\<close>; \<open>NULL\<close> is refused.\<close>

definition decode_field ::
    "nat \<Rightarrow> (nat \<Rightarrow> 'v step list) \<Rightarrow> nat \<times> u8 list \<Rightarrow> variable_field \<Rightarrow> 'v \<Rightarrow> (int \<times> 'v) option" where
  "decode_field minsize ss obj field v =
     (case vf_ptr field of
        None \<Rightarrow> Some (- EINVAL, v)
      | Some p \<Rightarrow> decode_bytes as_errno minsize (ss p) pldm_msgbuf_complete_consumed (vf_length field)
                    (fst obj + p, drop p (snd obj)) v)"

section \<open>File descriptor PDRs\<close>

record file_descriptor_pdr =
  fdp_hdr :: pldm_value_pdr_hdr
  fdp_terminus_handle :: u16
  fdp_file_identifier :: u16
  fdp_entity_type :: u16
  fdp_entity_instance_num :: u16
  fdp_entity_container_id :: u16
  fdp_superior_directory_file_identifier :: u16
  fdp_file_classification :: u8
  fdp_oem_file_classification :: u8
  fdp_file_capabilities :: u16
  fdp_version_alpha :: u8
  fdp_version_update :: u8
  fdp_version_minor :: u8
  fdp_version_major :: u8
  fdp_file_maximum_size :: u32
  fdp_file_maximum_file_descriptor_count :: u8
  fdp_file_name :: variable_field
  fdp_oem_file_classification_name :: variable_field

abbreviation (input) file_descriptor_steps :: "nat \<Rightarrow> file_descriptor_pdr step list" where
  "file_descriptor_steps data_length \<equiv>
     [get_hdr True as_errno 36 data_length fdp_hdr fdp_hdr_update,
      get fdp_terminus_handle_update,
      get fdp_file_identifier_update,
      get fdp_entity_type_update,
      get fdp_entity_instance_num_update,
      get fdp_entity_container_id_update,
      get fdp_superior_directory_file_identifier_update,
      get fdp_file_classification_update,
      get fdp_oem_file_classification_update,
      get fdp_file_capabilities_update,
      get fdp_version_alpha_update,
      get fdp_version_update_update,
      get fdp_version_minor_update,
      get fdp_version_major_update,
      get fdp_file_maximum_size_update,
      get fdp_file_maximum_file_descriptor_count_update,
      get_size8 fdp_file_name_update,
      span_field fdp_file_name fdp_file_name_update 0,
      assign (fdp_oem_file_classification_name_update (vf_length_update (\<lambda>_. 0))),
      only (\<lambda>v. fdp_oem_file_classification v \<noteq> 0)
        [get_size8 fdp_oem_file_classification_name_update,
         span_field fdp_oem_file_classification_name fdp_oem_file_classification_name_update 0]]"

definition decode_pldm_platform_file_descriptor_pdr ::
    "(nat \<times> u8 list) option \<Rightarrow> nat \<Rightarrow> file_descriptor_pdr option \<Rightarrow> (int \<times> file_descriptor_pdr option) option" where
  "decode_pldm_platform_file_descriptor_pdr data data_length pdr =
     if_set (- EINVAL) data pdr (decode_bytes as_errno 36 (file_descriptor_steps data_length)
       pldm_msgbuf_complete_consumed data_length)"

abbreviation (input) file_descriptor_puts :: "u8 list \<Rightarrow> u8 list \<Rightarrow> file_descriptor_pdr step list" where
  "file_descriptor_puts name oem \<equiv>
     [put (vh_record_handle \<circ> fdp_hdr),
      put (vh_version \<circ> fdp_hdr),
      put (vh_type \<circ> fdp_hdr),
      put (vh_record_change_num \<circ> fdp_hdr),
      put (vh_length \<circ> fdp_hdr),
      put fdp_terminus_handle,
      put fdp_file_identifier,
      put fdp_entity_type,
      put fdp_entity_instance_num,
      put fdp_entity_container_id,
      put fdp_superior_directory_file_identifier,
      put fdp_file_classification,
      put fdp_oem_file_classification,
      put fdp_file_capabilities,
      put_array_or as_errno (\<lambda>_. 4)
        (\<lambda>v. [fdp_version_alpha v, fdp_version_update v, fdp_version_minor v, fdp_version_major v]),
      put fdp_file_maximum_size,
      put fdp_file_maximum_file_descriptor_count,
      put (\<lambda>v. of_nat (vf_length (fdp_file_name v)) :: u8),
      put_array_or as_errno (\<lambda>v. vf_length (fdp_file_name v)) (\<lambda>_. name),
      only (\<lambda>v. vf_length (fdp_oem_file_classification_name v) > 1)
        [put (\<lambda>v. of_nat (vf_length (fdp_oem_file_classification_name v)) :: u8),
         put_array_or as_errno (\<lambda>v. vf_length (fdp_oem_file_classification_name v)) (\<lambda>_. oem)]]"

text \<open>
  \<open>file_name\<close> and \<open>oem_name\<close> are what the pointers of the two fields lead to. The pointer to the length is not
  checked for NULL.
\<close>

definition encode_pldm_platform_file_descriptor_pdr ::
    "file_descriptor_pdr option \<Rightarrow> u8 list option \<Rightarrow> u8 list option \<Rightarrow> (nat \<times> u8 list) option \<Rightarrow> nat \<Rightarrow>
      (int \<times> (nat \<times> u8 list) option \<times> nat) option" where
  "encode_pldm_platform_file_descriptor_pdr pdr file_name oem_name data data_len =
     (case (pdr, file_name, data) of
        (Some p, Some name, Some (a, m)) \<Rightarrow>
          let name_len = vf_length (fdp_file_name p);
              oem_len = vf_length (fdp_oem_file_classification_name p);
              pdr_len = 36 + name_len + (if oem_len > 1 then oem_len + 1 else 0)
          in if name_len \<le> 1 \<or> (oem_len > 1 \<and> oem_name = None) \<or> name_len > 255 \<or> oem_len > 255 \<or>
                unat (vh_length (fdp_hdr p)) \<noteq> pdr_len - 10
             then Some (- EINVAL, data, data_len)
             else map_option (\<lambda>(rc, len, m). (rc, Some (a, m), len)) (on_buffer_used pdr_len
               (file_descriptor_puts name (case oem_name of None \<Rightarrow> [] | Some bs \<Rightarrow> bs))
               a m data_len p)
      | _ \<Rightarrow> Some (- EINVAL, data, data_len))"

section \<open>Redfish resource PDRs\<close>

text \<open>The last component is the local variable \<open>length\<close> of the loops.\<close>

record redfish_resource_pdr =
  rfr_hdr :: pldm_value_pdr_hdr
  rfr_resource_id :: u32
  rfr_resource_flags :: u8
  rfr_containing_resource_id :: u32
  rfr_proposed_containing_resource_name :: variable_field
  rfr_sub_uri :: variable_field
  rfr_additional_resource_id_count :: u16
  rfr_additional_resources :: variable_field
  rfr_schema_alpha :: u8
  rfr_schema_update :: u8
  rfr_schema_minor :: u8
  rfr_schema_major :: u8
  rfr_major_schema_dictionary_length_bytes :: u16
  rfr_major_schema_dictionary_signature :: u32
  rfr_major_schema_name :: variable_field
  rfr_oem_count :: u16
  rfr_oem_names :: variable_field
  rfr_length :: nat

definition decode_pldm_platform_redfish_resource_pdr ::
    "(nat \<times> u8 list) option \<Rightarrow> nat \<Rightarrow> redfish_resource_pdr option \<Rightarrow> (int \<times> redfish_resource_pdr option) option" where
  "decode_pldm_platform_redfish_resource_pdr data data_length pdr =
     if_set (- EINVAL) data pdr (decode_bytes as_errno 41
       [get_hdr True as_errno 41 data_length rfr_hdr rfr_hdr_update,
        get rfr_resource_id_update,
        get rfr_resource_flags_update,
        get rfr_containing_resource_id_update,
        get_size16 rfr_proposed_containing_resource_name_update,
        span_field rfr_proposed_containing_resource_name rfr_proposed_containing_resource_name_update 0,
        get_size16 rfr_sub_uri_update,
        span_field rfr_sub_uri rfr_sub_uri_update 0,
        get_or as_errno rfr_additional_resource_id_count_update,
        open_field rfr_additional_resources_update,
        times (\<lambda>v. unat (rfr_additional_resource_id_count v)) (\<lambda>_.
          [get (\<lambda>f :: u32 \<Rightarrow> u32. \<lambda>v. v),
           get_or as_errno (\<lambda>f v. v\<lparr>rfr_length := unat (f (0 :: u16))\<rparr>),
           skip_field rfr_length]),
        close_field rfr_additional_resources rfr_additional_resources_update,
        get rfr_schema_alpha_update,
        get rfr_schema_update_update,
        get rfr_schema_minor_update,
        get rfr_schema_major_update,
        get rfr_major_schema_dictionary_length_bytes_update,
        get rfr_major_schema_dictionary_signature_update,
        get_size8 rfr_major_schema_name_update,
        span_field rfr_major_schema_name rfr_major_schema_name_update 0,
        get_or as_errno rfr_oem_count_update,
        open_field rfr_oem_names_update,
        times (\<lambda>v. unat (rfr_oem_count v)) (\<lambda>_.
          [get_or as_errno (\<lambda>f v. v\<lparr>rfr_length := unat (f (0 :: u16))\<rparr>),
           skip_field rfr_length]),
        close_field rfr_oem_names rfr_oem_names_update]
       pldm_msgbuf_complete_consumed data_length)"

text \<open>
  The iterators: the rest of the field and the number of entries that are left. The decoders take the
  iterator and the entry apart: what they write is \<open>field\<close> and the entry.
\<close>

record pdr_iter =
  pit_field :: variable_field
  pit_entries :: nat

definition pldm_platform_redfish_resource_pdr_additional_resource_iter_init :: "redfish_resource_pdr \<Rightarrow> pdr_iter" where
  "pldm_platform_redfish_resource_pdr_additional_resource_iter_init pdr =
     \<lparr>pit_field = rfr_additional_resources pdr, pit_entries = unat (rfr_additional_resource_id_count pdr)\<rparr>"

definition pldm_platform_redfish_resource_pdr_oem_name_iter_init :: "redfish_resource_pdr \<Rightarrow> pdr_iter" where
  "pldm_platform_redfish_resource_pdr_oem_name_iter_init pdr =
     \<lparr>pit_field = rfr_oem_names pdr, pit_entries = unat (rfr_oem_count pdr)\<rparr>"

text \<open>The functions \<open>_iter_end\<close> and \<open>_iter_next\<close> are the same for all iterators with a count.\<close>

definition pdr_iter_end :: "pdr_iter \<Rightarrow> bool" where
  "pdr_iter_end iter \<longleftrightarrow> pit_entries iter = 0"

definition pdr_iter_next :: "pdr_iter \<Rightarrow> bool \<times> pdr_iter" where
  "pdr_iter_next iter =
     (if pit_entries iter = 0 then (False, iter) else (True, iter\<lparr>pit_entries := pit_entries iter - 1\<rparr>))"

record additional_resource =
  ar_id :: u32
  ar_sub_uri :: variable_field

definition decode_pldm_platform_redfish_resource_pdr_additional_resource_from_iter ::
    "nat \<times> u8 list \<Rightarrow> variable_field \<Rightarrow> additional_resource \<Rightarrow> (int \<times> variable_field \<times> additional_resource) option" where
  "decode_pldm_platform_redfish_resource_pdr_additional_resource_from_iter obj field entry =
     decode_field 7 (\<lambda>p.
       [get (apsnd \<circ> ar_id_update),
        get_size16 (apsnd \<circ> ar_sub_uri_update),
        span_field (ar_sub_uri \<circ> snd) (apsnd \<circ> ar_sub_uri_update) p,
        rest_into apfst p]) obj field (field, entry)"

definition decode_pldm_platform_redfish_resource_pdr_oem_name_from_iter ::
    "nat \<times> u8 list \<Rightarrow> variable_field \<Rightarrow> variable_field \<Rightarrow> (int \<times> variable_field \<times> variable_field) option" where
  "decode_pldm_platform_redfish_resource_pdr_oem_name_from_iter obj field oem_name =
     decode_field 3 (\<lambda>p.
       [get_size16 apsnd,
        span_field snd apsnd p,
        rest_into apfst p]) obj field (field, oem_name)"

text \<open>
  The macros \<open>foreach_*\<close>: the entries that the body of the loop sees, and the last return value.
\<close>

function foreach_entry ::
    "(variable_field \<Rightarrow> 'e \<Rightarrow> (int \<times> variable_field \<times> 'e) option) \<Rightarrow> pdr_iter \<Rightarrow> 'e \<Rightarrow> (int \<times> 'e list) option" where
  "foreach_entry dec iter e =
     (if pdr_iter_end iter then Some (0, [])
      else do {
        (rc, field, e) \<leftarrow> dec (pit_field iter) e;
        if rc \<noteq> 0 then Some (rc, [])
        else do {
          (rc, es) \<leftarrow> foreach_entry dec (snd (pdr_iter_next (iter\<lparr>pit_field := field\<rparr>))) e;
          Some (rc, e # es) } })"
  by pat_completeness auto

termination
  by (relation "measure (\<lambda>(dec, iter, e). pit_entries iter)") (auto simp: pdr_iter_end_def pdr_iter_next_def)

declare foreach_entry.simps [simp del]

section \<open>Redfish action PDRs\<close>

record redfish_action_pdr =
  rfa_hdr :: pldm_value_pdr_hdr
  rfa_action_pdr_index :: u8
  rfa_related_resource_count :: u16
  rfa_related_resources :: variable_field
  rfa_action_count :: u8
  rfa_actions :: variable_field
  rfa_length :: nat

definition decode_pldm_platform_redfish_action_pdr ::
    "(nat \<times> u8 list) option \<Rightarrow> nat \<Rightarrow> redfish_action_pdr option \<Rightarrow> (int \<times> redfish_action_pdr option) option" where
  "decode_pldm_platform_redfish_action_pdr data data_length pdr =
     if_set (- EINVAL) data pdr (decode_bytes as_errno 14
       [get_hdr True as_errno 14 data_length rfa_hdr rfa_hdr_update,
        get rfa_action_pdr_index_update,
        get_or as_errno rfa_related_resource_count_update,
        open_field rfa_related_resources_update,
        times (\<lambda>v. unat (rfa_related_resource_count v)) (\<lambda>_. [skip_field (\<lambda>_. 4)]),
        close_field rfa_related_resources rfa_related_resources_update,
        get_or as_errno rfa_action_count_update,
        open_field rfa_actions_update,
        times (\<lambda>v. unat (rfa_action_count v)) (\<lambda>_.
          [get_or as_errno (\<lambda>f v. v\<lparr>rfa_length := unat (f (0 :: u8))\<rparr>),
           skip_field rfa_length,
           get_or as_errno (\<lambda>f v. v\<lparr>rfa_length := unat (f (0 :: u8))\<rparr>),
           skip_field rfa_length]),
        close_field rfa_actions rfa_actions_update]
       pldm_msgbuf_complete_consumed data_length)"

definition pldm_platform_redfish_action_pdr_related_resource_id_iter_init :: "redfish_action_pdr \<Rightarrow> pdr_iter" where
  "pldm_platform_redfish_action_pdr_related_resource_id_iter_init pdr =
     \<lparr>pit_field = rfa_related_resources pdr, pit_entries = unat (rfa_related_resource_count pdr)\<rparr>"

definition pldm_platform_redfish_action_pdr_action_iter_init :: "redfish_action_pdr \<Rightarrow> pdr_iter" where
  "pldm_platform_redfish_action_pdr_action_iter_init pdr =
     \<lparr>pit_field = rfa_actions pdr, pit_entries = unat (rfa_action_count pdr)\<rparr>"

definition decode_pldm_platform_redfish_action_pdr_related_resource_id_from_iter ::
    "nat \<times> u8 list \<Rightarrow> variable_field \<Rightarrow> u32 \<Rightarrow> (int \<times> variable_field \<times> u32) option" where
  "decode_pldm_platform_redfish_action_pdr_related_resource_id_from_iter obj field res =
     decode_field 4 (\<lambda>p. [get apsnd, rest_into apfst p]) obj field (field, res)"

record redfish_action =
  ra_name :: variable_field
  ra_path :: variable_field

definition decode_pldm_platform_redfish_action_pdr_action_from_iter ::
    "nat \<times> u8 list \<Rightarrow> variable_field \<Rightarrow> redfish_action \<Rightarrow> (int \<times> variable_field \<times> redfish_action) option" where
  "decode_pldm_platform_redfish_action_pdr_action_from_iter obj field action =
     decode_field 4 (\<lambda>p.
       [get_size8 (apsnd \<circ> ra_name_update),
        span_field (ra_name \<circ> snd) (apsnd \<circ> ra_name_update) p,
        get_size8 (apsnd \<circ> ra_path_update),
        span_field (ra_path \<circ> snd) (apsnd \<circ> ra_path_update) p,
        rest_into apfst p]) obj field (field, action)"

text \<open>The loops over a decoded PDR.\<close>

definition foreach_pldm_platform_redfish_action_pdr_related_resource_id ::
    "nat \<times> u8 list \<Rightarrow> redfish_action_pdr \<Rightarrow> u32 \<Rightarrow> (int \<times> u32 list) option" where
  "foreach_pldm_platform_redfish_action_pdr_related_resource_id obj pdr res =
     foreach_entry (decode_pldm_platform_redfish_action_pdr_related_resource_id_from_iter obj)
       (pldm_platform_redfish_action_pdr_related_resource_id_iter_init pdr) res"

definition foreach_pldm_platform_redfish_action_pdr_action ::
    "nat \<times> u8 list \<Rightarrow> redfish_action_pdr \<Rightarrow> redfish_action \<Rightarrow> (int \<times> redfish_action list) option" where
  "foreach_pldm_platform_redfish_action_pdr_action obj pdr action =
     foreach_entry (decode_pldm_platform_redfish_action_pdr_action_from_iter obj)
       (pldm_platform_redfish_action_pdr_action_iter_init pdr) action"

definition foreach_pldm_platform_redfish_resource_pdr_additional_resource ::
    "nat \<times> u8 list \<Rightarrow> redfish_resource_pdr \<Rightarrow> additional_resource \<Rightarrow> (int \<times> additional_resource list) option" where
  "foreach_pldm_platform_redfish_resource_pdr_additional_resource obj pdr entry =
     foreach_entry (decode_pldm_platform_redfish_resource_pdr_additional_resource_from_iter obj)
       (pldm_platform_redfish_resource_pdr_additional_resource_iter_init pdr) entry"

definition foreach_pldm_platform_redfish_resource_pdr_oem_name ::
    "nat \<times> u8 list \<Rightarrow> redfish_resource_pdr \<Rightarrow> variable_field \<Rightarrow> (int \<times> variable_field list) option" where
  "foreach_pldm_platform_redfish_resource_pdr_oem_name obj pdr oem_name =
     foreach_entry (decode_pldm_platform_redfish_resource_pdr_oem_name_from_iter obj)
       (pldm_platform_redfish_resource_pdr_oem_name_iter_init pdr) oem_name"

section \<open>The possible states of a state effecter\<close>

text \<open>
  Two iterators: over the possible states of the effecters of a PDR, and over the bytes of one of them. The
  object is the PDR.
\<close>

record state_effecter_pdr_iter =
  sei_field :: variable_field
  sei_current_states :: variable_field
  sei_total_count :: u8
  sei_current_index :: u8

abbreviation (input) null_field :: variable_field where
  "null_field \<equiv> \<lparr>vf_ptr = None, vf_length = 0\<rparr>"

definition pldm_platform_state_effecter_pdr_iter_init ::
    "(nat \<times> u8 list) option \<Rightarrow> nat \<Rightarrow> (int \<times> state_effecter_pdr_iter) option" where
  "pldm_platform_state_effecter_pdr_iter_init pdr pdr_size =
     (let iter = \<lparr>sei_field = null_field, sei_current_states = null_field, sei_total_count = 0, sei_current_index = 0\<rparr> in
      case pdr of
        None \<Rightarrow> Some (- EINVAL, iter)
      | Some (_, m) \<Rightarrow>
          if pdr_size < 26 then Some (- EOVERFLOW, iter)
          else if length m \<le> 24 then None
          else Some (0, iter\<lparr>sei_field := \<lparr>vf_ptr = Some 25, vf_length = pdr_size - (26 - 1)\<rparr>, sei_total_count := m ! 24\<rparr>))"

definition pldm_platform_state_effecter_pdr_iter_end :: "state_effecter_pdr_iter \<Rightarrow> bool" where
  "pldm_platform_state_effecter_pdr_iter_end iter \<longleftrightarrow> sei_current_index iter \<ge> sei_total_count iter"

definition pldm_platform_state_effecter_pdr_iter_next :: "state_effecter_pdr_iter \<Rightarrow> bool \<times> state_effecter_pdr_iter" where
  "pldm_platform_state_effecter_pdr_iter_next iter =
     (if sei_current_index iter \<ge> sei_total_count iter then (False, iter)
      else (True, iter\<lparr>sei_current_index := sei_current_index iter + 1\<rparr>))"

record possible_states =
  ps_state_set_id :: u16
  ps_possible_states_size :: u8

text \<open>What the decoder writes of the iterator are the fields.\<close>

definition decode_pldm_platform_state_effecter_pdr_from_iter ::
    "nat \<times> u8 list \<Rightarrow> state_effecter_pdr_iter \<Rightarrow> possible_states \<Rightarrow> (int \<times> state_effecter_pdr_iter \<times> possible_states) option" where
  "decode_pldm_platform_state_effecter_pdr_from_iter obj iter states = do {
     (rc, (field, current), states) \<leftarrow> decode_field 0 (\<lambda>p.
       [get (apsnd \<circ> ps_state_set_id_update),
        get_or as_errno (apsnd \<circ> ps_possible_states_size_update),
        span_or as_errno (\<lambda>v. unat (ps_possible_states_size (snd v))) (points_to (apfst \<circ> apsnd) p),
        assign (\<lambda>v. (apfst \<circ> apsnd) (vf_length_update (\<lambda>_. unat (ps_possible_states_size (snd v)))) v),
        rest_into (apfst \<circ> apfst) p]) obj (sei_field iter) ((sei_field iter, sei_current_states iter), states);
     Some (rc, iter\<lparr>sei_field := field, sei_current_states := current\<rparr>, states) }"

record possible_states_iter =
  psi_field :: variable_field
  psi_total_count :: u8
  psi_current_index :: u8

definition pldm_platform_state_effecter_pdr_possible_states_iter_init ::
    "state_effecter_pdr_iter option \<Rightarrow> int \<times> possible_states_iter" where
  "pldm_platform_state_effecter_pdr_possible_states_iter_init outer_iter =
     (let iter = \<lparr>psi_field = null_field, psi_total_count = 0, psi_current_index = 0\<rparr> in
      case outer_iter of
        None \<Rightarrow> (- EINVAL, iter)
      | Some outer \<Rightarrow>
          if vf_ptr (sei_current_states outer) = None then (- EINVAL, iter)
          else (0, \<lparr>psi_field = sei_current_states outer,
                    psi_total_count = of_nat (vf_length (sei_current_states outer)), psi_current_index = 0\<rparr>))"

definition pldm_platform_state_effecter_pdr_possible_states_iter_end :: "possible_states_iter \<Rightarrow> bool" where
  "pldm_platform_state_effecter_pdr_possible_states_iter_end iter \<longleftrightarrow> psi_current_index iter \<ge> psi_total_count iter"

definition pldm_platform_state_effecter_pdr_possible_states_iter_next ::
    "possible_states_iter \<Rightarrow> bool \<times> possible_states_iter" where
  "pldm_platform_state_effecter_pdr_possible_states_iter_next iter =
     (if psi_current_index iter \<ge> psi_total_count iter then (False, iter)
      else (True, iter\<lparr>psi_current_index := psi_current_index iter + 1\<rparr>))"

definition decode_pldm_platform_state_effecter_pdr_possible_states_from_iter ::
    "nat \<times> u8 list \<Rightarrow> possible_states_iter \<Rightarrow> u8 \<Rightarrow> (int \<times> possible_states_iter \<times> u8) option" where
  "decode_pldm_platform_state_effecter_pdr_possible_states_from_iter obj iter state = do {
     (rc, field, state) \<leftarrow>
       decode_field 0 (\<lambda>p. [get apsnd, rest_into apfst p]) obj (psi_field iter) (psi_field iter, state);
     Some (rc, iter\<lparr>psi_field := field\<rparr>, state) }"

text \<open>
  The loop over the bytes of one of the possible states, and the loop over the possible states whose body is
  the inner loop and stops when that fails, as in the example of the header.
\<close>

function foreach_pldm_platform_state_effecter_pdr_states ::
    "nat \<times> u8 list \<Rightarrow> possible_states_iter \<Rightarrow> u8 \<Rightarrow> (int \<times> u8 list) option" where
  "foreach_pldm_platform_state_effecter_pdr_states obj iter state =
     (if pldm_platform_state_effecter_pdr_possible_states_iter_end iter then Some (0, [])
      else do {
        (rc, iter, state) \<leftarrow> decode_pldm_platform_state_effecter_pdr_possible_states_from_iter obj iter state;
        if rc \<noteq> 0 then Some (rc, [])
        else do {
          (rc, ss) \<leftarrow> foreach_pldm_platform_state_effecter_pdr_states obj
            (snd (pldm_platform_state_effecter_pdr_possible_states_iter_next iter)) state;
          Some (rc, state # ss) } })"
  by pat_completeness auto

lemma next_index_less:
  assumes "i < (n :: u8)"
  shows "unat n - unat (i + 1) < unat n - unat i"
proof -
  have "unat i < unat n" using assms by (simp add: word_less_nat_alt)
  moreover have "unat n < 256" using unsigned_less [of n] by simp
  ultimately show ?thesis by (simp add: unat_word_ariths(1))
qed

termination foreach_pldm_platform_state_effecter_pdr_states
  by (relation "measure (\<lambda>(obj, iter, s). unat (psi_total_count iter) - unat (psi_current_index iter))")
    (auto simp: decode_pldm_platform_state_effecter_pdr_possible_states_from_iter_def
      pldm_platform_state_effecter_pdr_possible_states_iter_end_def
      pldm_platform_state_effecter_pdr_possible_states_iter_next_def next_index_less split: bind_splits prod.splits)

function foreach_pldm_platform_state_effecter_pdr_possible_states ::
    "nat \<times> u8 list \<Rightarrow> state_effecter_pdr_iter \<Rightarrow> possible_states \<Rightarrow> (int \<times> (u16 \<times> u8 list) list) option" where
  "foreach_pldm_platform_state_effecter_pdr_possible_states obj iter states =
     (if pldm_platform_state_effecter_pdr_iter_end iter then Some (0, [])
      else do {
        (rc, iter, states) \<leftarrow> decode_pldm_platform_state_effecter_pdr_from_iter obj iter states;
        if rc \<noteq> 0 then Some (rc, [])
        else
          let (rc, inner) = pldm_platform_state_effecter_pdr_possible_states_iter_init (Some iter) in
          do {
            (rc, bytes) \<leftarrow>
              (if rc \<noteq> 0 then Some (rc, []) else foreach_pldm_platform_state_effecter_pdr_states obj inner 0);
            if rc \<noteq> 0 then Some (rc, [])
            else do {
              (rc, es) \<leftarrow> foreach_pldm_platform_state_effecter_pdr_possible_states obj
                (snd (pldm_platform_state_effecter_pdr_iter_next iter)) states;
              Some (rc, (ps_state_set_id states, bytes) # es) } } })"
  by pat_completeness auto

termination foreach_pldm_platform_state_effecter_pdr_possible_states
  by (relation "measure (\<lambda>(obj, iter, s). unat (sei_total_count iter) - unat (sei_current_index iter))")
    (auto simp: decode_pldm_platform_state_effecter_pdr_from_iter_def
      pldm_platform_state_effecter_pdr_iter_end_def
      pldm_platform_state_effecter_pdr_iter_next_def next_index_less split: bind_splits prod.splits)

declare foreach_pldm_platform_state_effecter_pdr_states.simps [simp del]
declare foreach_pldm_platform_state_effecter_pdr_possible_states.simps [simp del]

section \<open>Auxiliary names of entities\<close>

text \<open>
  \<open>names\<close> is the caller's array, whose entries point into \<open>auxiliary_name_data\<close>: the tag and the name.
  \<open>addr\<close> is the address of that array; \<open>anp_rest\<close> is the local variable for the part of the PDR behind the
  counts.
\<close>

record aux_names_pdr =
  anp_hdr :: pldm_value_pdr_hdr
  anp_entity_type :: u16
  anp_entity_instance_num :: u16
  anp_entity_container_id :: u16
  anp_shared_name_count :: u8
  anp_name_string_count :: u8
  anp_names :: "(nat option \<times> nat option) list option"
  anp_auxiliary_name_data_size :: nat
  anp_addr :: nat
  anp_auxiliary_name_data :: "u8 list"
  anp_rest :: variable_field

definition rest_or_open :: "((variable_field \<Rightarrow> variable_field) \<Rightarrow> 'v \<Rightarrow> 'v) \<Rightarrow> 'v step" where
  "rest_or_open upd v b =
     (let (rc, s, b) = pldm__msgbuf_span_remaining b in
      if rc < 0 then (Return (Some rc), v, b)
      else (Go, case s of None \<Rightarrow> v | Some (q, n) \<Rightarrow> upd (\<lambda>_. \<lparr>vf_ptr = Some q, vf_length = n\<rparr>) v, b))"

text \<open>The two passes, each over \<open>n\<close> pairs of a tag and a name.\<close>

fun copy_names :: "nat \<Rightarrow> msgbuf \<Rightarrow> msgbuf \<Rightarrow> int \<times> msgbuf \<times> msgbuf" where
  "copy_names 0 dst src = (0, dst, src)"
| "copy_names (Suc n) dst src =
     (let (_, _, src) = pldm__msgbuf_span_string_ascii src;
          (rc, dst, src) = pldm_msgbuf_copy_string_utf16 dst src
      in if rc \<noteq> 0 then (rc, dst, src) else copy_names n dst src)"

fun copy_tags :: "nat \<Rightarrow> msgbuf \<Rightarrow> msgbuf \<Rightarrow> int \<times> msgbuf \<times> msgbuf" where
  "copy_tags 0 dst src = (0, dst, src)"
| "copy_tags (Suc n) dst src =
     (let (rc, dst, src) = pldm_msgbuf_copy_string_ascii dst src
      in if rc \<noteq> 0 then (rc, dst, src)
         else let (_, _, src) = pldm__msgbuf_span_string_utf16 src in copy_tags n dst src)"

text \<open>The end of the function, and the two labels before it.\<close>

definition names_return :: "msgbuf \<Rightarrow> msgbuf \<Rightarrow> int \<Rightarrow> aux_names_pdr \<Rightarrow> (int \<times> aux_names_pdr) option" where
  "names_return dst src rc v = do { _ \<leftarrow> mb_exit src (); mb_exit dst (rc, v\<lparr>anp_auxiliary_name_data := mb_mem dst\<rparr>) }"

definition cleanup_msgbuf_dst :: "msgbuf \<Rightarrow> msgbuf \<Rightarrow> int \<Rightarrow> aux_names_pdr \<Rightarrow> (int \<times> aux_names_pdr) option" where
  "cleanup_msgbuf_dst dst src rc v = (let (rc, dst) = pldm__msgbuf_discard dst rc in names_return dst src rc v)"

definition cleanup_msgbuf_src :: "msgbuf \<Rightarrow> msgbuf \<Rightarrow> int \<Rightarrow> aux_names_pdr \<Rightarrow> (int \<times> aux_names_pdr) option" where
  "cleanup_msgbuf_src dst src rc v = (let (rc, src) = pldm__msgbuf_discard src rc in cleanup_msgbuf_dst dst src rc v)"

text \<open>\<open>names\<close>: the address and the contents of the memory from the first pair on; \<open>names_len\<close>: the length of the pairs.\<close>

definition repack_names :: "nat \<times> u8 list \<Rightarrow> nat \<Rightarrow> aux_names_pdr \<Rightarrow> (int \<times> aux_names_pdr) option" where
  "repack_names names names_len v =
     (let n = unat (anp_name_string_count v);
          (rc, dst) = pldm__msgbuf_init_errno (anp_auxiliary_name_data_size v) (anp_addr v)
            (anp_auxiliary_name_data v) (anp_auxiliary_name_data_size v)
      in if rc < 0 then mb_exit dst (rc, v)
         else
           let (rc, src) = pldm__msgbuf_init_errno names_len (fst names) (snd names) names_len in
           if rc < 0 then cleanup_msgbuf_dst dst src rc v
           else
             let (rc, dst, src) = copy_names n dst src in
             if rc \<noteq> 0 then cleanup_msgbuf_src dst src rc v
             else
               let (rc, src) = pldm_msgbuf_complete_consumed src in
               if rc < 0 then cleanup_msgbuf_dst dst src rc v
               else do {
                 _ \<leftarrow> mb_exit src ();
                 let (rc, src) = pldm__msgbuf_init_errno names_len (fst names) (snd names) names_len;
                 if rc < 0 then cleanup_msgbuf_dst dst src rc v
                 else
                   let (rc, dst, src) = copy_tags n dst src in
                   if rc \<noteq> 0 then cleanup_msgbuf_src dst src rc v
                   else
                     let (rc, src) = pldm_msgbuf_complete src in
                     if rc \<noteq> 0 then cleanup_msgbuf_dst dst src rc v
                     else let (rc, dst) = pldm_msgbuf_complete dst in names_return dst src rc v })"

definition decode_entity_auxiliary_names_pdr ::
    "(nat \<times> u8 list) option \<Rightarrow> nat \<Rightarrow> aux_names_pdr option \<Rightarrow> nat \<Rightarrow> (int \<times> aux_names_pdr option) option" where
  "decode_entity_auxiliary_names_pdr data data_length pdr pdr_length =
     if_set (- EINVAL) data pdr (\<lambda>obj v.
       if odd (anp_addr v) then None
       else if pdr_length < data_length \<or> pdr_length < 40 then Some (- EINVAL, v)
       else do {
         (rc, v) \<leftarrow> decode_bytes as_errno 8
           [get_hdr True as_errno 8 data_length anp_hdr anp_hdr_update,
            get anp_entity_type_update,
            get anp_entity_instance_num_update,
            get anp_entity_container_id_update,
            get anp_shared_name_count_update,
            get_or as_errno anp_name_string_count_update,
            rest_or_open anp_rest_update]
           pldm_msgbuf_complete_consumed data_length obj v;
         if rc \<noteq> 0 then Some (rc, v)
         else case vf_ptr (anp_rest v) of
           None \<Rightarrow> None
         | Some p \<Rightarrow> repack_names (fst obj + p, drop p (snd obj)) (vf_length (anp_rest v))
                       (v\<lparr>anp_auxiliary_name_data_size := pdr_length - 40\<rparr>) })"

definition string_into ::
    "(msgbuf \<Rightarrow> int \<times> (nat \<times> nat) option \<times> msgbuf) \<Rightarrow> (nat option \<Rightarrow> 'v \<Rightarrow> 'v) \<Rightarrow> 'v step" where
  "string_into f upd v b = (let (_, s, b) = f b in (Go, upd (map_option fst s) v, b))"

definition name_entry ::
    "nat \<Rightarrow> (nat option \<times> nat option \<Rightarrow> nat option \<times> nat option) \<Rightarrow> aux_names_pdr \<Rightarrow> aux_names_pdr" where
  "name_entry i f = anp_names_update (map_option (at i f))"

definition decode_pldm_entity_auxiliary_names_pdr_index ::
    "aux_names_pdr option \<Rightarrow> (int \<times> aux_names_pdr option) option" where
  "decode_pldm_entity_auxiliary_names_pdr_index pdr =
     (case pdr of
        None \<Rightarrow> Some (- EINVAL, pdr)
      | Some v \<Rightarrow>
          if anp_name_string_count v = 0 \<and> anp_names v \<noteq> None then Some (- EINVAL, pdr)
          else if anp_name_string_count v > 0 \<and> anp_names v = None then Some (- EINVAL, pdr)
          else if anp_name_string_count v = 0 then Some (0, pdr)
          else map_option (apsnd Some) (decode_bytes as_errno (unat (anp_name_string_count v) * (1 + 2))
            [times (\<lambda>v. unat (anp_name_string_count v)) (\<lambda>i.
               [string_into pldm__msgbuf_span_string_utf16 (\<lambda>q. name_entry i (apsnd (\<lambda>_. q))),
                object_has (\<lambda>v. case anp_names v of None \<Rightarrow> False | Some ns \<Rightarrow> i < length ns)]),
             times (\<lambda>v. unat (anp_name_string_count v)) (\<lambda>i.
               [string_into pldm__msgbuf_span_string_ascii (\<lambda>q. name_entry i (apfst (\<lambda>_. q))),
                object_has (\<lambda>v. case anp_names v of None \<Rightarrow> False | Some ns \<Rightarrow> i < length ns)])]
            pldm_msgbuf_complete_consumed (anp_auxiliary_name_data_size v) (anp_addr v, anp_auxiliary_name_data v) v))"

end
