(* ===== verification/Platform_Laws.thy ===== *)
theory Platform_Laws
  imports Platform_Pdr
begin

text \<open>
  The decoders of \<open>Platform_Codec\<close> and \<open>Platform_Pdr\<close> have no undefined behaviour on any input, given
  objects of the sizes that the types say. The steps of these theories keep invariants as those of
  \<open>Msgbuf_Steps\<close> do; the values with a tag share the locale \<open>tagged_value\<close>.
\<close>

section \<open>Values with a tag\<close>

text \<open>
  The contract of the functions that extract a value by its tag into a union of eight bytes.
\<close>

locale tagged_value =
  fixes ext :: "msgbuf \<Rightarrow> u8 \<Rightarrow> u8 list \<Rightarrow> int \<times> u8 list \<times> msgbuf"
  assumes ext_safe: "mb_ok b \<Longrightarrow> 8 \<le> length dst \<Longrightarrow> ext b tag dst = (rc, d, b') \<Longrightarrow>
      mb_ok b' \<and> length d = length dst \<and> (rc = 0 \<or> msgbuf_errno rc \<or> rc = - PLDM_ERROR_INVALID_DATA)"
begin

lemma keeps_get_value [step_keeps]:
  assumes "\<And>v. I v \<Longrightarrow> 8 \<le> length (arr v)"
    and "\<And>v d. I v \<Longrightarrow> length d = length (arr v) \<Longrightarrow> I (upd (\<lambda>_. d) v)"
  shows "keeps I (get_value ext tag arr upd)"
proof (rule keepsI)
  fix v b assume vb: "I v" "mb_ok b"
  obtain rc d b' where e: "ext b (tag v) (arr v) = (rc, d, b')" by (metis surj_pair)
  from ext_safe [OF vb(2) assms(1) [OF vb(1)] e] assms(2) [OF vb(1)] show
    "case get_value ext tag arr upd v b of (Go, v', b') \<Rightarrow> I v' \<and> mb_ok b'
      | (Return r, v', b') \<Rightarrow> I v' \<and> r \<noteq> None \<and> mb_done b'"
    by (simp add: get_value_def e)
qed

lemma keeps_get_value_or [step_keeps]:
  assumes "translates x" "x (- PLDM_ERROR_INVALID_DATA) \<noteq> None" "\<And>v. I v \<Longrightarrow> 8 \<le> length (arr v)"
    and "\<And>v d. I v \<Longrightarrow> length d = length (arr v) \<Longrightarrow> I (upd (\<lambda>_. d) v)"
  shows "keeps I (get_value_or x ext tag arr upd)"
proof (rule keepsI)
  fix v b assume vb: "I v" "mb_ok b"
  obtain rc d b' where e: "ext b (tag v) (arr v) = (rc, d, b')" by (metis surj_pair)
  note safe = ext_safe [OF vb(2) assms(3) [OF vb(1)] e]
  show "case get_value_or x ext tag arr upd v b of (Go, v', b') \<Rightarrow> I v' \<and> mb_ok b'
      | (Return r, v', b') \<Rightarrow> I v' \<and> r \<noteq> None \<and> mb_done b'"
  proof (cases "rc = 0")
    case True
    then show ?thesis using safe assms(4) [OF vb(1)] by (simp add: get_value_or_def e)
  next
    case False
    then have "x rc \<noteq> None" using safe assms(1,2) by (auto simp: translates_def)
    then show ?thesis using False safe vb keeps_leave [of b' I v x rc] by (simp add: get_value_or_def e)
  qed
qed

end

lemma into_extract:
  assumes "mb_ok b" "8 \<le> length dst" "LENGTH('a::len) \<le> 64" "into (msgbuf_extract :: _ \<Rightarrow> 'a word \<Rightarrow> _) b dst = (rc, d, b')"
  shows "mb_ok b' \<and> length d = length dst \<and> (rc = 0 \<or> msgbuf_errno rc \<or> rc = - PLDM_ERROR_INVALID_DATA)"
proof -
  have "LENGTH('a) div 8 \<le> length dst" using assms(2,3) by linarith
  then show ?thesis
    using assms(1,4) extract_errno [of b "0 :: 'a word"] msgbuf_op.op_ok [OF msgbuf_op_extract [where 'a = 'a], of b]
    by (auto simp: into_def rc_of_def split_beta not_less split: if_splits)
qed

lemmas extract_by_width =
  pldm__msgbuf_extract_uint8_def pldm__msgbuf_extract_int8_def pldm__msgbuf_extract_uint16_def
  pldm__msgbuf_extract_int16_def pldm__msgbuf_extract_uint32_def pldm__msgbuf_extract_int32_def
  pldm__msgbuf_extract_real32_def pldm__msgbuf_extract_uint64_def pldm__msgbuf_extract_int64_def

lemma tagged_sensor_data: "tagged_value pldm_msgbuf_extract_sensor_data"
proof
  fix b dst tag rc d b'
  assume "mb_ok b" "8 \<le> length dst" "pldm_msgbuf_extract_sensor_data b tag dst = (rc, d, b')"
  then show "mb_ok b' \<and> length d = length dst \<and> (rc = 0 \<or> msgbuf_errno rc \<or> rc = - PLDM_ERROR_INVALID_DATA)"
    using into_extract [of b dst rc d b', where 'a = 8] into_extract [of b dst rc d b', where 'a = 16]
      into_extract [of b dst rc d b', where 'a = 32] into_extract [of b dst rc d b', where 'a = 64]
    by (simp add: pldm_msgbuf_extract_sensor_data_def extract_by_width split: if_splits)
qed

lemma tagged_range_field: "tagged_value pldm__msgbuf_extract_range_field_format"
proof
  fix b dst tag rc d b'
  assume "mb_ok b" "8 \<le> length dst" "pldm__msgbuf_extract_range_field_format b tag dst = (rc, d, b')"
  then show "mb_ok b' \<and> length d = length dst \<and> (rc = 0 \<or> msgbuf_errno rc \<or> rc = - PLDM_ERROR_INVALID_DATA)"
    using into_extract [of b dst rc d b', where 'a = 8] into_extract [of b dst rc d b', where 'a = 16]
      into_extract [of b dst rc d b', where 'a = 32] into_extract [of b dst rc d b', where 'a = 64]
    by (simp add: pldm__msgbuf_extract_range_field_format_def extract_by_width split: if_splits)
qed

interpretation sensor_data: tagged_value pldm_msgbuf_extract_sensor_data
  by (rule tagged_sensor_data)

interpretation sensor_value: tagged_value pldm_msgbuf_extract_sensor_value
  unfolding pldm_msgbuf_extract_sensor_value_def by (rule tagged_sensor_data)

interpretation effecter_value: tagged_value pldm_msgbuf_extract_effecter_value
  unfolding pldm_msgbuf_extract_effecter_value_def by (rule tagged_sensor_data)

interpretation effecter_data: tagged_value pldm__msgbuf_extract_effecter_data
  unfolding pldm__msgbuf_extract_effecter_data_def by (rule tagged_sensor_data)

interpretation range_field: tagged_value pldm__msgbuf_extract_range_field_format
  by (rule tagged_range_field)

section \<open>Other steps\<close>

lemma extract_mb_ok: "mb_ok b \<Longrightarrow> mb_ok (snd (snd (msgbuf_extract b (d :: 'a::len word))))"
  using msgbuf_op.op_ok [OF msgbuf_op_extract [where 'a = 'a and dst = d], of b] by (simp add: rc_of_def)

lemma value_pdr_hdr_safe:
  assumes "mb_ok b" "pldm_msgbuf_extract_value_pdr_hdr b h lower upper = (rc, h', b')"
  shows "mb_ok b' \<and> (rc = 0 \<or> msgbuf_errno rc)"
  using assms extract_errno [where 'a = 16]
  by (auto simp: pldm_msgbuf_extract_value_pdr_hdr_def extract_by_width split_beta Let_def msgbuf_errno_def extract_mb_ok
      split: if_splits)

lemma keeps_get_hdr [step_keeps]:
  assumes "translates x" "\<And>v h. I v \<Longrightarrow> I (upd (\<lambda>_. h) v)"
  shows "keeps I (get_hdr True x lower upper hdr upd)"
proof (rule keepsI)
  fix v b assume vb: "I v" "mb_ok b"
  obtain rc h b' where e: "pldm_msgbuf_extract_value_pdr_hdr b (hdr v) lower upper = (rc, h, b')" by (metis surj_pair)
  from value_pdr_hdr_safe [OF vb(2) e] assms(1) assms(2) [OF vb(1)] keeps_leave [of b' I "upd (\<lambda>_. h) v" x rc] show
    "case get_hdr True x lower upper hdr upd v b of (Go, v', b') \<Rightarrow> I v' \<and> mb_ok b'
      | (Return r, v', b') \<Rightarrow> I v' \<and> r \<noteq> None \<and> mb_done b'"
    by (cases "rc = 0") (simp_all add: get_hdr_def e translates_def)
qed

lemma keeps_get_reading [step_keeps]:
  "(\<And>v d. I v \<Longrightarrow> I (v\<lparr>nsd_present_reading := d\<rparr>)) \<Longrightarrow> keeps I (get_reading conv)" for conv :: "'a::len word \<Rightarrow> u32"
  using msgbuf_op.op_ok [OF msgbuf_op_extract [where 'a = 'a]] by (auto simp: keeps_def get_reading_def rc_of_def split_beta)

lemma keeps_refuse_with [step_keeps]: "keeps I (refuse_with P r)"
proof (rule keepsI)
  fix v b assume "I v" "mb_ok b"
  then show "case refuse_with P r v b of (Go, v', b') \<Rightarrow> I v' \<and> mb_ok b'
      | (Return r, v', b') \<Rightarrow> I v' \<and> r \<noteq> None \<and> mb_done b'"
    using keeps_leave [of b I v Some "r v"] by (cases "P v") (simp_all add: refuse_with_def)
qed

lemma keeps_rest_into [step_keeps]: "(\<And>f v. I v \<Longrightarrow> I (upd f v)) \<Longrightarrow> keeps I (rest_into upd p)"
  using span_remaining.op_ok by (auto simp: keeps_def rest_into_def rc_of_def split_beta split: option.splits)

lemma keeps_open_field [step_keeps]: "(\<And>f v. I v \<Longrightarrow> I (upd f v)) \<Longrightarrow> keeps I (open_field upd)"
  by (auto simp: keeps_def open_field_def)

lemma keeps_close_field [step_keeps]:
  assumes "\<And>f v. I v \<Longrightarrow> I (upd f v)"
  shows "keeps I (close_field sel upd)"
proof (rule keepsI)
  fix v b assume vb: "I v" "mb_ok b"
  obtain rc f where e: "pldm__msgbuf_field_end (mb_cursor b) (mb_remaining b) (sel v) = (rc, f)" by (metis surj_pair)
  show "case close_field sel upd v b of (Go, v', b') \<Rightarrow> I v' \<and> mb_ok b'
      | (Return r, v', b') \<Rightarrow> I v' \<and> r \<noteq> None \<and> mb_done b'"
    using vb(2) assms [OF vb(1)] keeps_leave [of b I "upd (\<lambda>_. f) v" as_errno rc]
    by (cases "rc = 0") (simp_all add: close_field_def e as_errno_def)
qed

section \<open>Decoders\<close>

definition obj_holds :: "nat \<Rightarrow> (nat \<times> u8 list) option \<Rightarrow> bool" where
  "obj_holds n obj \<longleftrightarrow> (case obj of None \<Rightarrow> True | Some (a, m) \<Rightarrow> n \<le> length m)"

lemma safe_bytes:
  assumes "obj_holds len obj" "pred_option I out" "translates x" "finishes fin" "keeps I (steps ss)"
  shows "defined (if_set err obj out (decode_bytes x minsize ss fin len))"
  using assms by (intro defined_if_set defined_decode_bytes [of I]) (auto simp: obj_holds_def)

lemma safe_bytes_unless:
  assumes "obj_holds len obj" "pred_option I out" "translates x" "finishes fin" "keeps I (steps ss)"
  shows "defined (if_set err obj out (\<lambda>m v. if c then Some (r, v) else decode_bytes x minsize ss fin len m v))"
  using safe_bytes [OF assms, of err minsize] by (cases c) (auto simp: if_set_def defined_def split: option.splits)

lemma safe_set_state_effecter_states_req:
  "ptr_holds n src \<Longrightarrow> pred_option (\<lambda>v. 8 \<le> length (sse_field v)) out \<Longrightarrow> defined (decode_set_state_effecter_states_req src n out)"
  unfolding decode_set_state_effecter_states_req_def
  by (rule safe_msg_unless [where I = "\<lambda>v. 8 \<le> length (sse_field v)"])
    (rule keeps_guard keeps_times [where k = 8] step_keeps | simp add: at_fst_def at_snd_def word_less_nat_alt word_le_nat_alt)+

lemma safe_get_pdr_req:
  "ptr_holds n src \<Longrightarrow> defined (decode_get_pdr_req src n out)"
  unfolding decode_get_pdr_req_def
  by (rule safe_msg_unless [where I = "\<lambda>_. True"])
    (rule keeps_guard step_keeps | simp)+

lemma safe_get_pdr_resp:
  "ptr_holds n src \<Longrightarrow> pred_option (\<lambda>v. len \<le> length (gpr_record_data v)) out \<Longrightarrow> defined (decode_get_pdr_resp src n has_data len out)"
  unfolding decode_get_pdr_resp_def
  by (rule safe_msg [where I = "\<lambda>v. len \<le> length (gpr_record_data v)"])
    (rule keeps_guard step_keeps | simp)+

lemma safe_get_pdr_resp_safe:
  "ptr_holds n src \<Longrightarrow> pred_option (\<lambda>v. len - 12 \<le> length (gpr_record_data v)) out \<Longrightarrow> 12 \<le> len \<Longrightarrow> len < 2 ^ 64 \<Longrightarrow> defined (decode_get_pdr_resp_safe src n out len)"
  unfolding decode_get_pdr_resp_safe_def
  by (rule safe_msg_errors [where I = "\<lambda>v. len - 12 \<le> length (gpr_record_data v)"])
    (rule keeps_guard step_keeps | simp)+

lemma safe_repository_info_resp:
  "ptr_holds n src \<Longrightarrow> pred_option (\<lambda>v. 13 \<le> length (pri_update_time v) \<and> 13 \<le> length (pri_oem_update_time v)) out \<Longrightarrow> defined (decode_get_pdr_repository_info_resp src n out)"
  unfolding decode_get_pdr_repository_info_resp_def
  by (rule safe_msg [where I = "\<lambda>v. 13 \<le> length (pri_update_time v) \<and> 13 \<le> length (pri_oem_update_time v)"])
    (rule keeps_guard step_keeps | simp)+

lemma safe_repository_info_resp_safe:
  "ptr_holds n src \<Longrightarrow> pred_option (\<lambda>v. 13 \<le> length (pri_update_time v) \<and> 13 \<le> length (pri_oem_update_time v)) out \<Longrightarrow> defined (decode_get_pdr_repository_info_resp_safe src n out)"
  unfolding decode_get_pdr_repository_info_resp_safe_def
  by (rule safe_msg_errors [where I = "\<lambda>v. 13 \<le> length (pri_update_time v) \<and> 13 \<le> length (pri_oem_update_time v)"])
    (rule keeps_guard step_keeps | simp)+

lemma safe_set_numeric_effecter_value_req:
  "ptr_holds n src \<Longrightarrow> pred_option (\<lambda>v. 8 \<le> length (nev_effecter_value v)) out \<Longrightarrow> defined (decode_set_numeric_effecter_value_req src n out)"
  unfolding decode_set_numeric_effecter_value_req_def
  by (rule safe_msg [where I = "\<lambda>v. 8 \<le> length (nev_effecter_value v)"])
    (rule keeps_guard step_keeps | simp)+

lemma safe_state_sensor_readings_resp:
  "ptr_holds n src \<Longrightarrow> pred_option (\<lambda>v. 8 \<le> length (ssr_field v)) out \<Longrightarrow> defined (decode_get_state_sensor_readings_resp src n out)"
  unfolding decode_get_state_sensor_readings_resp_def
  by (rule safe_msg [where I = "\<lambda>v. 8 \<le> length (ssr_field v)"])
    (rule keeps_guard keeps_times [where k = 8] step_keeps | simp add: at_def word_less_nat_alt word_le_nat_alt)+

lemma safe_state_sensor_readings_req:
  "ptr_holds n src \<Longrightarrow> defined (decode_get_state_sensor_readings_req src n out)"
  unfolding decode_get_state_sensor_readings_req_def
  by (rule safe_msg [where I = "\<lambda>_. True"])
    (rule keeps_guard step_keeps | simp)+

lemma safe_poll_event_req:
  "ptr_holds n src \<Longrightarrow> defined (decode_poll_for_platform_event_message_req src n out)"
  unfolding decode_poll_for_platform_event_message_req_def
  by (rule safe_msg [where I = "\<lambda>_. True"])
    (rule keeps_guard step_keeps | simp)+

lemma safe_buffer_size_resp:
  "ptr_holds n src \<Longrightarrow> defined (decode_event_message_buffer_size_resp src n out)"
  unfolding decode_event_message_buffer_size_resp_def
  by (rule safe_msg [where I = "\<lambda>_. True"])
    (rule keeps_guard step_keeps | simp)+

lemma safe_event_message_resp:
  "ptr_holds n src \<Longrightarrow> defined (decode_platform_event_message_resp src n out)"
  unfolding decode_platform_event_message_resp_def
  by (rule safe_msg [where I = "\<lambda>_. True"])
    (rule keeps_guard step_keeps | simp)+

lemma safe_event_message_req:
  "ptr_holds n src \<Longrightarrow> defined (decode_platform_event_message_req src n out)"
  unfolding decode_platform_event_message_req_def
  by (rule safe_msg_then [where I = "\<lambda>_. True"])
    (rule keeps_guard step_keeps | simp)+

lemma safe_event_message_supported_resp:
  "ptr_holds n src \<Longrightarrow> pred_option (\<lambda>v. unat count \<le> length (ems_event_class v)) out \<Longrightarrow> defined (decode_event_message_supported_resp src n out count)"
  unfolding decode_event_message_supported_resp_def
  by (rule safe_msg [where I = "\<lambda>v. unat count \<le> length (ems_event_class v)"])
    (rule keeps_guard keeps_times [where k = "unat count"] step_keeps | simp add: at_def word_less_nat_alt word_le_nat_alt)+

lemma safe_sensor_event_data:
  "obj_holds n src \<Longrightarrow> defined (decode_sensor_event_data src n out)"
  unfolding decode_sensor_event_data_def
  by (rule safe_bytes [where I = "\<lambda>_. True"])
    (rule keeps_guard step_keeps | simp)+

lemma safe_sensor_op_data:
  "obj_holds n src \<Longrightarrow> defined (decode_sensor_op_data src n out)"
  unfolding decode_sensor_op_data_def
  by (rule safe_bytes [where I = "\<lambda>_. True"])
    (rule keeps_guard step_keeps | simp)+

lemma safe_state_sensor_data:
  "obj_holds n src \<Longrightarrow> defined (decode_state_sensor_data src n out)"
  unfolding decode_state_sensor_data_def
  by (rule safe_bytes [where I = "\<lambda>_. True"])
    (rule keeps_guard step_keeps | simp)+

lemma safe_numeric_sensor_data:
  "obj_holds n src \<Longrightarrow> defined (decode_numeric_sensor_data src n out)"
  unfolding decode_numeric_sensor_data_def
  by (rule safe_bytes_unless [where I = "\<lambda>_. True"])
    (rule keeps_guard step_keeps | simp)+

lemma safe_numeric_sensor_event_data:
  "obj_holds n src \<Longrightarrow> pred_option (\<lambda>v. 8 \<le> length (nse_present_reading v)) out \<Longrightarrow> defined (decode_numeric_sensor_event_data src n out)"
  unfolding decode_numeric_sensor_event_data_def
  by (rule safe_bytes_unless [where I = "\<lambda>v. 8 \<le> length (nse_present_reading v)"])
    (rule keeps_guard step_keeps | simp add: translates_def as_cc_def msgbuf_errno_def pldm_xlate_errno_def)+

lemma safe_numeric_sensor_pdr:
  "obj_holds n src \<Longrightarrow> pred_option (\<lambda>v. 8 \<le> length (ns_hysteresis v) \<and> 8 \<le> length (ns_max_readable v) \<and> 8 \<le> length (ns_min_readable v) \<and> 8 \<le> length (ns_nominal_value v) \<and> 8 \<le> length (ns_normal_max v) \<and> 8 \<le> length (ns_normal_min v) \<and> 8 \<le> length (ns_warning_high v) \<and> 8 \<le> length (ns_warning_low v) \<and> 8 \<le> length (ns_critical_high v) \<and> 8 \<le> length (ns_critical_low v) \<and> 8 \<le> length (ns_fatal_high v) \<and> 8 \<le> length (ns_fatal_low v)) out \<Longrightarrow> defined (decode_numeric_sensor_pdr_data src n out)"
  unfolding decode_numeric_sensor_pdr_data_def
  by (rule safe_bytes [where I = "\<lambda>v. 8 \<le> length (ns_hysteresis v) \<and> 8 \<le> length (ns_max_readable v) \<and> 8 \<le> length (ns_min_readable v) \<and> 8 \<le> length (ns_nominal_value v) \<and> 8 \<le> length (ns_normal_max v) \<and> 8 \<le> length (ns_normal_min v) \<and> 8 \<le> length (ns_warning_high v) \<and> 8 \<le> length (ns_warning_low v) \<and> 8 \<le> length (ns_critical_high v) \<and> 8 \<le> length (ns_critical_low v) \<and> 8 \<le> length (ns_fatal_high v) \<and> 8 \<le> length (ns_fatal_low v)"])
    (rule keeps_guard step_keeps | simp)+

lemma safe_numeric_effecter_value_req:
  "ptr_holds n src \<Longrightarrow> defined (decode_get_numeric_effecter_value_req src n out)"
  unfolding decode_get_numeric_effecter_value_req_def
  by (rule safe_msg [where I = "\<lambda>_. True"])
    (rule keeps_guard step_keeps | simp)+

lemma safe_numeric_effecter_value_resp:
  "ptr_holds n src \<Longrightarrow> pred_option (\<lambda>v. 8 \<le> length (ner_pending_value v) \<and> 8 \<le> length (ner_present_value v)) out \<Longrightarrow> defined (decode_get_numeric_effecter_value_resp src n out)"
  unfolding decode_get_numeric_effecter_value_resp_def
  by (rule safe_msg [where I = "\<lambda>v. 8 \<le> length (ner_pending_value v) \<and> 8 \<le> length (ner_present_value v)"])
    (rule keeps_guard step_keeps | simp)+

lemma safe_chg_event_data:
  "obj_holds n src \<Longrightarrow> defined (decode_pldm_pdr_repository_chg_event_data src n out)"
  unfolding decode_pldm_pdr_repository_chg_event_data_def
  by (rule safe_bytes [where I = "\<lambda>_. True"])
    (rule keeps_guard step_keeps | simp)+

lemma safe_change_record_data:
  "obj_holds n src \<Longrightarrow> defined (decode_pldm_pdr_repository_change_record_data src n out)"
  unfolding decode_pldm_pdr_repository_change_record_data_def
  by (rule safe_bytes [where I = "\<lambda>_. True"])
    (rule keeps_guard step_keeps | simp)+

lemma safe_message_poll_event:
  "obj_holds n src \<Longrightarrow> defined (decode_pldm_message_poll_event_data src n out)"
  unfolding decode_pldm_message_poll_event_data_def
  by (rule safe_bytes [where I = "\<lambda>_. True"])
    (rule keeps_guard step_keeps | simp)+

lemma safe_numeric_sensor_enable_resp:
  "ptr_holds n src \<Longrightarrow> defined (decode_pldm_platform_set_numeric_sensor_enable_resp src n out)"
  unfolding decode_pldm_platform_set_numeric_sensor_enable_resp_def
  by (rule safe_msg [where I = "\<lambda>_. True"])
    (rule keeps_guard step_keeps | simp)+

lemma safe_sensor_reading_req:
  "ptr_holds n src \<Longrightarrow> defined (decode_get_sensor_reading_req src n out)"
  unfolding decode_get_sensor_reading_req_def
  by (rule safe_msg [where I = "\<lambda>_. True"])
    (rule keeps_guard step_keeps | simp)+

lemma safe_sensor_reading_resp:
  "ptr_holds n src \<Longrightarrow> pred_option (\<lambda>v. 8 \<le> length (sr_present_reading v)) out \<Longrightarrow> defined (decode_get_sensor_reading_resp src n out)"
  unfolding decode_get_sensor_reading_resp_def
  by (rule safe_msg [where I = "\<lambda>v. 8 \<le> length (sr_present_reading v)"])
    (rule keeps_guard step_keeps | simp)+

lemma safe_set_event_receiver_resp:
  "ptr_holds n src \<Longrightarrow> defined (decode_set_event_receiver_resp src n out)"
  unfolding decode_set_event_receiver_resp_def
  by (rule safe_msg [where I = "\<lambda>_. True"])
    (rule keeps_guard step_keeps | simp)+

lemma safe_poll_event_resp:
  "ptr_holds n src \<Longrightarrow> defined (decode_poll_for_platform_event_message_resp src n out)"
  unfolding decode_poll_for_platform_event_message_resp_def
  by (rule safe_msg [where I = "\<lambda>_. True"])
    (rule keeps_guard step_keeps | simp)+

lemma safe_state_effecter_states_req:
  "ptr_holds n src \<Longrightarrow> defined (decode_get_state_effecter_states_req src n out)"
  unfolding decode_get_state_effecter_states_req_def
  by (rule safe_msg [where I = "\<lambda>_. True"])
    (rule keeps_guard step_keeps | simp)+

lemma safe_state_effecter_states_resp:
  "ptr_holds n src \<Longrightarrow> pred_option (\<lambda>v. 8 \<le> length (ses_field v)) out \<Longrightarrow> defined (decode_get_state_effecter_states_resp src n out)"
  unfolding decode_get_state_effecter_states_resp_def
  by (rule safe_msg [where I = "\<lambda>v. 8 \<le> length (ses_field v)"])
    (rule keeps_guard keeps_times [where k = 8] step_keeps | simp add: at_def word_less_nat_alt word_le_nat_alt)+

lemma safe_cper_event:
  "obj_holds n src \<Longrightarrow> pred_option (\<lambda>v. len - 4 \<le> length (pce_event_data v)) out \<Longrightarrow> defined (decode_pldm_platform_cper_event src n out len)"
  unfolding decode_pldm_platform_cper_event_def
  by (rule safe_bytes_unless [where I = "\<lambda>v. len - 4 \<le> length (pce_event_data v)"])
    (rule keeps_guard step_keeps | simp)+

lemma safe_file_descriptor_pdr:
  "obj_holds n src \<Longrightarrow> defined (decode_pldm_platform_file_descriptor_pdr src n out)"
  unfolding decode_pldm_platform_file_descriptor_pdr_def
  by (rule safe_bytes [where I = "\<lambda>_. True"])
    (rule keeps_guard step_keeps | simp)+

lemma safe_redfish_resource_pdr:
  "obj_holds n src \<Longrightarrow> defined (decode_pldm_platform_redfish_resource_pdr src n out)"
  unfolding decode_pldm_platform_redfish_resource_pdr_def
  by (rule safe_bytes [where I = "\<lambda>_. True"])
    (rule keeps_guard keeps_times_any step_keeps | simp)+

lemma safe_redfish_action_pdr:
  "obj_holds n src \<Longrightarrow> defined (decode_pldm_platform_redfish_action_pdr src n out)"
  unfolding decode_pldm_platform_redfish_action_pdr_def
  by (rule safe_bytes [where I = "\<lambda>_. True"])
    (rule keeps_guard keeps_times_any step_keeps | simp)+

lemma safe_set_numeric_sensor_enable_req:
  "ptr_holds n src \<Longrightarrow> defined (decode_set_numeric_sensor_enable_req src n out)"
  unfolding decode_set_numeric_sensor_enable_req_def
  by (rule safe_msg_then [where I = "\<lambda>_. True"])
    (rule keeps_guard step_keeps | simp)+

lemma safe_set_event_receiver_req:
  "ptr_holds n src \<Longrightarrow> defined (decode_set_event_receiver_req src n out)"
  unfolding decode_set_event_receiver_req_def
  by (rule safe_msg_then [where I = "\<lambda>_. True"])
    (rule keeps_guard step_keeps | simp)+

lemma safe_get_event_receiver_resp:
  "ptr_holds n src \<Longrightarrow> defined (decode_get_event_receiver_resp src n out)"
proof -
  assume "ptr_holds n src"
  then have "defined (if_set (- EINVAL) src (Some out) (\<lambda>m v. unless_error m n er_completion_code_update v (
      decode_msg as_errno 2
        [get er_completion_code_update, get_or as_errno er_transport_protocol_type_update,
         refuse (\<lambda>v. er_transport_protocol_type v \<noteq> 0) (- ENOTSUP), get er_mctp_eid_update]
        pldm_msgbuf_complete_consumed n m v)))"
    by (rule safe_msg_errors [where I = "\<lambda>_. True"]) (rule keeps_guard step_keeps | simp)+
  then show ?thesis by (cases src) (simp_all add: decode_get_event_receiver_resp_def if_set_def defined_def)
qed

text \<open>The entries of a PDR: the field lies in the data.\<close>

definition field_within :: "nat \<times> u8 list \<Rightarrow> variable_field \<Rightarrow> bool" where
  "field_within obj f \<longleftrightarrow> (case vf_ptr f of None \<Rightarrow> True | Some p \<Rightarrow> p + vf_length f \<le> length (snd obj))"

lemma safe_field:
  assumes "field_within obj f" "\<And>p. keeps (\<lambda>_. True) (steps (ss p))"
  shows "defined (decode_field minsize ss obj f v)"
  using assms by (auto simp: decode_field_def field_within_def defined_def [of "Some _"] split: option.splits
    intro!: defined_decode_bytes [of "\<lambda>_. True"])

lemma safe_entries:
  "field_within obj f \<Longrightarrow> defined (decode_pldm_platform_redfish_resource_pdr_additional_resource_from_iter obj f ar)"
  "field_within obj f \<Longrightarrow> defined (decode_pldm_platform_redfish_resource_pdr_oem_name_from_iter obj f nm)"
  "field_within obj f \<Longrightarrow> defined (decode_pldm_platform_redfish_action_pdr_related_resource_id_from_iter obj f r)"
  "field_within obj f \<Longrightarrow> defined (decode_pldm_platform_redfish_action_pdr_action_from_iter obj f ra)"
  unfolding decode_pldm_platform_redfish_resource_pdr_additional_resource_from_iter_def
    decode_pldm_platform_redfish_resource_pdr_oem_name_from_iter_def
    decode_pldm_platform_redfish_action_pdr_related_resource_id_from_iter_def
    decode_pldm_platform_redfish_action_pdr_action_from_iter_def
  by (rule safe_field, assumption, (rule step_keeps | simp)+)+

section \<open>The open msgbufs\<close>

text \<open>
  Two decoders return with the msgbuf open on some of their error paths, so that the assertion in its cleanup
  fails: a SetStateSensorEnables request with a count outside 1 to 8, and a numeric effecter PDR whose header
  says that it is shorter than it may be.
\<close>

lemma mb_exit_live: "mb_exit (live_mb a m c r) x = None"
  by (simp add: mb_exit_def pldm__msgbuf_cleanup_def live_mb_def)

lemma state_sensor_enables_open:
  assumes "msg_holds n m" "3 \<le> n" "m_payload m ! 2 = 0 \<or> 8 < m_payload m ! 2"
  shows "\<not> defined (decode_set_state_sensor_enables_req (Some m) n (Some v))"
proof -
  have live: "pldm__msgbuf_init_errno 3 (m_addr m) (m_payload m) n = (0, live_mb (m_addr m) (m_payload m) 0 (int n))"
    using assms(1,2) by (intro init_errno_live) (auto simp: msg_holds_def)
  have "3 \<le> length (m_payload m)" using assms(1,2) by (simp add: msg_holds_def)
  then have "bytes_at (m_payload m) (Suc (Suc 0)) (Suc 0) = le_of_word (m_payload m ! 2)"
    by (simp add: bytes_at_def take_Suc hd_drop_conv_nth numeral_eq_Suc)
  then have "word_of_le (bytes_at (m_payload m) (Suc (Suc 0)) (Suc 0)) = m_payload m ! 2"
    by (simp del: le_of_word_8)
  then show ?thesis
    using assms live
    by (auto simp: decode_set_state_sensor_enables_req_def if_set_def decode_msg_def decode_bytes_def on_buffer_def get_def
      get_or_open_def return_open_def msgbuf_extract_live msg_holds_def defined_def mb_exit_live)
qed


text \<open>When the first steps do the same on the msgbuf that is set up, so do the decoders.\<close>

lemma decode_bytes_first:
  assumes "steps pre v (live_mb a m 0 (int n)) = steps pre' v (live_mb a m 0 (int n))"
  shows "decode_bytes x k (pre @ ss) fin n (a, m) v = decode_bytes x k (pre' @ ss) fin n (a, m) v"
  using init_errno_cases [of k a m n] assms
  by (auto simp: decode_bytes_def on_buffer_def steps_append)

lemma decode_bytes_short:
  assumes "n < k" "translates x"
  shows "defined (decode_bytes x k ss fin n obj v)"
  using assms by (auto simp: decode_bytes_def on_buffer_def init_errno_short defined_def translates_def msgbuf_errno_def mb_simps)

lemma state_sensor_enables_defined:
  assumes "ptr_holds n msg" "pred_option (\<lambda>v. 8 \<le> length (sss_fields v)) out"
  shows "defined (decode_set_state_sensor_enables_req msg n out) \<longleftrightarrow>
    (\<forall>m. msg = Some m \<and> out \<noteq> None \<and> 3 \<le> n \<longrightarrow> 1 \<le> m_payload m ! 2 \<and> m_payload m ! 2 \<le> 8)"
proof (cases "\<exists>m v. msg = Some m \<and> out = Some v")
  case False
  then show ?thesis
    by (cases msg; cases out) (auto simp: decode_set_state_sensor_enables_req_def if_set_def defined_def)
next
  case True
  then obtain m v where mv: "msg = Some m" "out = Some v" by blast
  have holds: "msg_holds n m" using assms(1) mv(1) by (simp add: ptr_holds_def)
  let ?P = "\<lambda>v. sss_field_count v < 1 \<or> sss_field_count v > 8"
  let ?rest = "[times (\<lambda>v. unat (sss_field_count v)) (\<lambda>i.
          [assign (\<lambda>v. v\<lparr>sss_op_state_val := 0, sss_event_enable_val := 0\<rparr>),
           get sss_op_state_val_update,
           get_or as_errno sss_event_enable_val_update,
           refuse (\<lambda>v. sss_op_state_val v > 2) (- EPROTO),
           refuse (\<lambda>v. sss_event_enable_val v > 4) (- EPROTO),
           object_has (\<lambda>v. i < length (sss_fields v)),
           assign (\<lambda>v. v\<lparr>sss_fields := (sss_fields v)[i := (sss_op_state_val v, sss_event_enable_val v)]\<rparr>)])]"
  let ?open = "[get sss_sensor_id_update, get_or_open sss_field_count_update, return_open ?P (- EPROTO)]"
  let ?closed = "[get sss_sensor_id_update, get_or as_errno sss_field_count_update, refuse ?P (- EPROTO)]"
  have closed: "defined (if_set (- EINVAL) msg out (decode_msg as_errno 3 (?closed @ ?rest) pldm_msgbuf_complete_consumed n))"
    using assms
    by (intro safe_msg [where I = "\<lambda>v. 8 \<le> length (sss_fields v)"])
      (rule keeps_guard keeps_times [where k = 8] step_keeps | simp add: word_less_nat_alt word_le_nat_alt)+
  have count: "word_of_le (bytes_at (m_payload m) (Suc (Suc 0)) (Suc 0)) = m_payload m ! 2" if "3 \<le> n"
  proof -
    have "3 \<le> length (m_payload m)" using holds that by (simp add: msg_holds_def)
    then have "bytes_at (m_payload m) (Suc (Suc 0)) (Suc 0) = le_of_word (m_payload m ! 2)"
      by (simp add: bytes_at_def take_Suc hd_drop_conv_nth numeral_eq_Suc)
    then show ?thesis by (simp del: le_of_word_8)
  qed
  have same: "steps ?open v (live_mb (m_addr m) (m_payload m) 0 (int n)) =
      steps ?closed v (live_mb (m_addr m) (m_payload m) 0 (int n))"
    if "3 \<le> n" "1 \<le> m_payload m ! 2 \<and> m_payload m ! 2 \<le> 8"
    using that holds count [OF that(1)]
    by (auto simp: get_def get_or_open_def get_or_def return_open_def refuse_def msgbuf_extract_live msg_holds_def
        not_less linorder_not_le)
  consider "n < 3" | "3 \<le> n" "\<not> (1 \<le> m_payload m ! 2 \<and> m_payload m ! 2 \<le> 8)"
    | "3 \<le> n" "1 \<le> m_payload m ! 2 \<and> m_payload m ! 2 \<le> 8" by linarith
  then show ?thesis
  proof cases
    case 1
    then show ?thesis
      using decode_bytes_short [of n 3 as_errno]
      by (auto simp: mv decode_set_state_sensor_enables_req_def if_set_def decode_msg_def defined_def)
  next
    case 2
    then have "m_payload m ! 2 = 0 \<or> 8 < m_payload m ! 2"
      using word_coorder.not_eq_extremum by (auto simp: not_le word_less_1)
    then show ?thesis using state_sensor_enables_open [OF holds 2(1), of v] 2 mv by auto
  next
    case 3
    have "decode_set_state_sensor_enables_req msg n out =
        if_set (- EINVAL) msg out (decode_msg as_errno 3 (?closed @ ?rest) pldm_msgbuf_complete_consumed n)"
      using decode_bytes_first [OF same [OF 3], of as_errno 3 ?rest pldm_msgbuf_complete_consumed]
      by (simp add: decode_set_state_sensor_enables_req_def mv if_set_def decode_msg_def)
    then show ?thesis using closed 3 mv by auto
  qed
qed

text \<open>The header of a PDR of \<open>n\<close> bytes, and what the check of its length asks for.\<close>

definition pdr_length_fits :: "nat \<Rightarrow> nat \<Rightarrow> u8 list \<Rightarrow> bool" where
  "pdr_length_fits lower n m \<longleftrightarrow>
     (let L = unat (word_of_le (bytes_at m 8 2) :: u16) in lower \<le> L + SIZEOF_MSGBUF \<and> L \<le> n)"

lemma value_pdr_hdr_live:
  assumes "n \<le> length m" "10 \<le> n"
  shows "\<exists>h. pldm_msgbuf_extract_value_pdr_hdr (live_mb a m 0 (int n)) hdr lower n =
    (if pdr_length_fits lower n m then 0 else - EOVERFLOW, h, live_mb a m 10 (int n - 10))"
  using assms
  by (auto simp: pldm_msgbuf_extract_value_pdr_hdr_def extract_by_width msgbuf_extract_live pdr_length_fits_def Let_def
      not_less not_le)

definition effecter_ranges_hold :: "numeric_effecter_value_pdr \<Rightarrow> bool" where
  "effecter_ranges_hold v \<longleftrightarrow> 8 \<le> length (ne_max_settable v) \<and> 8 \<le> length (ne_min_settable v) \<and>
     8 \<le> length (ne_nominal_value v) \<and> 8 \<le> length (ne_normal_max v) \<and> 8 \<le> length (ne_normal_min v) \<and>
     8 \<le> length (ne_rated_max v) \<and> 8 \<le> length (ne_rated_min v)"

definition obj_in_memory :: "(nat \<times> u8 list) option \<Rightarrow> bool" where
  "obj_in_memory obj \<longleftrightarrow> (case obj of None \<Rightarrow> True
     | Some (a, m) \<Rightarrow> length m \<le> SSIZE_MAX \<and> a + length m \<le> UINTPTR_MAX)"

lemma open_header_defined:
  assumes len: "n \<le> length m" "int n \<le> INTMAX_MAX" "a + n \<le> UINTPTR_MAX" and k: "10 \<le> k" "translates x"
    and closed: "defined (decode_bytes x k (get_hdr True x k n hdr upd # ss) fin n (a, m) v)"
  shows "defined (decode_bytes x k (get_hdr False x k n hdr upd # ss) fin n (a, m) v) \<longleftrightarrow>
    (k \<le> n \<longrightarrow> pdr_length_fits k n m)"
proof (cases "k \<le> n")
  case False
  then show ?thesis using decode_bytes_short [of n k x] k(2) by simp
next
  case True
  obtain h where h: "pldm_msgbuf_extract_value_pdr_hdr (live_mb a m 0 (int n)) (hdr v) k n =
      (if pdr_length_fits k n m then 0 else - EOVERFLOW, h, live_mb a m 10 (int n - 10))"
    using value_pdr_hdr_live [OF len(1)] k(1) True by fastforce
  show ?thesis
  proof (cases "pdr_length_fits k n m")
    case fits: True
    then have "steps [get_hdr False x k n hdr upd] v (live_mb a m 0 (int n)) =
        steps [get_hdr True x k n hdr upd] v (live_mb a m 0 (int n))"
      using h by (simp add: get_hdr_def)
    from decode_bytes_first [OF this, of x k ss fin] closed show ?thesis using fits by simp
  next
    case bad: False
    have "pldm__msgbuf_init_errno k a m n = (0, live_mb a m 0 (int n))" using True len by (intro init_errno_live) simp_all
    then have "\<not> defined (decode_bytes x k (get_hdr False x k n hdr upd # ss) fin n (a, m) v)"
      using h bad by (auto simp: decode_bytes_def on_buffer_def get_hdr_def defined_def mb_exit_live)
    then show ?thesis using bad True by simp
  qed
qed

lemma numeric_effecter_pdr_defined:
  assumes "obj_holds n obj" "obj_in_memory obj" "pred_option effecter_ranges_hold out"
  shows "defined (decode_numeric_effecter_pdr_data obj n hdr out) \<longleftrightarrow>
    (\<forall>a m. obj = Some (a, m) \<and> out \<noteq> None \<and> 63 \<le> n \<longrightarrow> pdr_length_fits 63 n m)"
proof (cases "\<exists>a m v. obj = Some (a, m) \<and> out = Some v")
  case False
  then show ?thesis
    by (cases obj; cases out) (auto simp: decode_numeric_effecter_pdr_data_def if_set_def defined_def)
next
  case True
  then obtain a m v where mv: "obj = Some (a, m)" "out = Some v" by blast
  have len: "n \<le> length m" "int n \<le> INTMAX_MAX" "a + n \<le> UINTPTR_MAX"
    using assms(1,2) mv(1) by (auto simp: obj_holds_def obj_in_memory_def)
  have if_set: "defined (if_set e (Some (a, m)) (Some v) f) = defined (f (a, m) v)" for e and f :: "_ \<Rightarrow> _ \<Rightarrow> (int \<times> numeric_effecter_value_pdr) option"
    by (simp add: if_set_def defined_def)
  have "defined (decode_numeric_effecter_pdr_data obj n hdr out) \<longleftrightarrow> (63 \<le> n \<longrightarrow> pdr_length_fits 63 n m)"
    unfolding mv decode_numeric_effecter_pdr_data_def if_set
  proof (rule open_header_defined [OF len], goal_cases)
    case 3
    have "effecter_ranges_hold v" using assms(3) mv(2) by simp
    then show ?case
      by (intro defined_decode_bytes [where I = effecter_ranges_hold])
        (rule keeps_guard step_keeps effecter_data.keeps_get_value range_field.keeps_get_value
          | simp add: effecter_ranges_hold_def len)+
  qed simp_all
  then show ?thesis using mv by auto
qed

text \<open>The decoders that read the completion code before they look at the length.\<close>

lemma set_state_effecter_states_resp_defined:
  "defined (decode_set_state_effecter_states_resp msg n out) \<longleftrightarrow>
     (\<forall>m. msg = Some m \<and> out \<noteq> None \<longrightarrow> m_payload m \<noteq> [])"
  by (cases msg; cases out)
    (auto simp: decode_set_state_effecter_states_resp_def if_set_def defined_def get_bytes_def Suc_le_eq Let_def)

lemma terminus_UID_resp_defined:
  assumes "pred_option (\<lambda>v. 16 \<le> length (tur_uuid v)) out"
  shows "defined (decode_get_terminus_UID_resp msg n out) \<longleftrightarrow>
     (\<forall>m. msg = Some m \<and> out \<noteq> None \<longrightarrow>
        m_payload m \<noteq> [] \<and> (m_payload m ! 0 = PLDM_SUCCESS \<and> n \<le> 17 \<longrightarrow> 17 \<le> length (m_payload m)))"
  using assms
  by (cases msg; cases out)
    (auto simp: decode_get_terminus_UID_resp_def if_set_def defined_def get_bytes_def bytes_at_def Suc_le_eq Let_def
      neq_Nil_conv split: if_splits)

lemma safe_set_numeric_effecter_value_resp:
  "ptr_holds n msg \<Longrightarrow> defined (decode_set_numeric_effecter_value_resp msg n cc)"
  by (cases msg; cases cc)
    (auto simp: decode_set_numeric_effecter_value_resp_def if_set_def defined_def get_bytes_def ptr_holds_def msg_holds_def)

lemma safe_event_structs:
  assumes "obj_holds n obj"
  shows "defined (decode_pldm_cper_event_data obj n ced)" "defined (decode_pldm_smbios_event_data obj n sme)"
  using assms
  by (cases obj; cases ced; auto simp: decode_pldm_cper_event_data_def if_set_def defined_def obj_holds_def)
    (use assms in \<open>cases obj; cases sme; auto simp: decode_pldm_smbios_event_data_def if_set_def defined_def obj_holds_def\<close>)

lemma safe_state_effecter_entries:
  "field_within obj (sei_field it) \<Longrightarrow> defined (decode_pldm_platform_state_effecter_pdr_from_iter obj it states)"
  "field_within obj (psi_field st) \<Longrightarrow> defined (decode_pldm_platform_state_effecter_pdr_possible_states_from_iter obj st state)"
proof -
  show "defined (decode_pldm_platform_state_effecter_pdr_from_iter obj it states)" if "field_within obj (sei_field it)"
  proof -
    have "defined (decode_field 0 (\<lambda>p.
       [get (apsnd \<circ> ps_state_set_id_update),
        get_or as_errno (apsnd \<circ> ps_possible_states_size_update),
        span_or as_errno (\<lambda>v. unat (ps_possible_states_size (snd v))) (points_to (apfst \<circ> apsnd) p),
        assign (\<lambda>v. (apfst \<circ> apsnd) (vf_length_update (\<lambda>_. unat (ps_possible_states_size (snd v)))) v),
        rest_into (apfst \<circ> apfst) p]) obj (sei_field it) ((sei_field it, sei_current_states it), states))"
      using that by (rule safe_field) (rule step_keeps | simp)+
    then show ?thesis
      by (auto simp: decode_pldm_platform_state_effecter_pdr_from_iter_def defined_def split: bind_splits)
  qed
  show "defined (decode_pldm_platform_state_effecter_pdr_possible_states_from_iter obj st state)"
    if "field_within obj (psi_field st)"
  proof -
    have "defined (decode_field 0 (\<lambda>p. [get apsnd, rest_into apfst p]) obj (psi_field st) (psi_field st, state))"
      using that by (rule safe_field) (rule step_keeps | simp)+
    then show ?thesis
      by (auto simp: decode_pldm_platform_state_effecter_pdr_possible_states_from_iter_def defined_def split: bind_splits)
  qed
qed

section \<open>All decoders\<close>

text \<open>The sizes of the objects that the decoders of messages with arrays and unions write to.\<close>

definition readings_hold ::
    "set_state_effecter_states_req option \<Rightarrow> state_sensor_readings_resp option \<Rightarrow> state_effecter_states_resp option \<Rightarrow>
      numeric_effecter_value_req option \<Rightarrow> numeric_effecter_value_resp option \<Rightarrow> sensor_reading_resp option \<Rightarrow>
      numeric_sensor_event_data option \<Rightarrow> bool" where
  "readings_hold sse ssr ses nev ner sr nse \<longleftrightarrow>
     pred_option (\<lambda>v. 8 \<le> length (sse_field v)) sse \<and> pred_option (\<lambda>v. 8 \<le> length (ssr_field v)) ssr \<and>
     pred_option (\<lambda>v. 8 \<le> length (ses_field v)) ses \<and> pred_option (\<lambda>v. 8 \<le> length (nev_effecter_value v)) nev \<and>
     pred_option (\<lambda>v. 8 \<le> length (ner_pending_value v) \<and> 8 \<le> length (ner_present_value v)) ner \<and>
     pred_option (\<lambda>v. 8 \<le> length (sr_present_reading v)) sr \<and>
     pred_option (\<lambda>v. 8 \<le> length (nse_present_reading v)) nse"

definition ranges_hold :: "numeric_sensor_value_pdr \<Rightarrow> bool" where
  "ranges_hold v \<longleftrightarrow> 8 \<le> length (ns_hysteresis v) \<and> 8 \<le> length (ns_max_readable v) \<and> 8 \<le> length (ns_min_readable v) \<and>
     8 \<le> length (ns_nominal_value v) \<and> 8 \<le> length (ns_normal_max v) \<and> 8 \<le> length (ns_normal_min v) \<and>
     8 \<le> length (ns_warning_high v) \<and> 8 \<le> length (ns_warning_low v) \<and> 8 \<le> length (ns_critical_high v) \<and>
     8 \<le> length (ns_critical_low v) \<and> 8 \<le> length (ns_fatal_high v) \<and> 8 \<le> length (ns_fatal_low v)"

text \<open>
  C27. Every decoder of platform messages, events and PDRs of \<open>platform.c\<close>, those of entity auxiliary names
  apart, is memory safe: whatever bytes arrived and whatever counts, sizes, tags and lengths they claim, nothing
  is read behind the payload or the data, nothing is written behind the caller's arrays and unions, and every
  msgbuf is completed or discarded. What is assumed of the caller: the objects have the sizes their types say,
  arrays are as long as the caller says (for \<open>decode_get_pdr_resp_safe\<close> the length covers the struct of 12 bytes),
  fields of an iterator lie in the PDR, and the \<open>resp\<close> of \<open>decode_get_event_receiver_resp\<close>, which is not compared
  with NULL, is not NULL. Four decoders are undefined on some inputs, and it is stated exactly on which:
  \<open>decode_set_state_effecter_states_resp\<close> on an empty payload; \<open>decode_get_terminus_UID_resp\<close> on an empty payload, and
  on a successful response that is shorter than 17 bytes; \<open>decode_set_state_sensor_enables_req\<close> when the field count is not 1 to 8 and
  \<open>decode_numeric_effecter_pdr_data\<close> when the header's length is refused, which both leave the msgbuf open.
\<close>

theorem platform_decoders_defined:
  assumes "ptr_holds n msg" "obj_holds n obj" "readings_hold sse ssr ses nev ner sr nse"
    and "pred_option ranges_hold ns" "pred_option (\<lambda>v. len \<le> length (gpr_record_data v)) gpr"
    and "pred_option (\<lambda>v. resp_len - 12 \<le> length (gpr_record_data v)) gps" "12 \<le> resp_len" "resp_len < 2 ^ 64"
    and "pred_option (\<lambda>v. 13 \<le> length (pri_update_time v) \<and> 13 \<le> length (pri_oem_update_time v)) pri"
    and "pred_option (\<lambda>v. unat count \<le> length (ems_event_class v)) ems"
    and "pred_option (\<lambda>v. cper_len - 4 \<le> length (pce_event_data v)) pce"
    and "obj_in_memory obj" "pred_option effecter_ranges_hold ne" "pred_option (\<lambda>v. 8 \<le> length (sss_fields v)) sss"
    and "pred_option (\<lambda>v. 16 \<le> length (tur_uuid v)) tur"
    and "field_within pdr f" "field_within pdr (sei_field it)" "field_within pdr (psi_field st)"
  shows "defined (decode_set_state_effecter_states_req msg n sse) \<and>
    defined (decode_get_state_sensor_readings_resp msg n ssr) \<and>
    defined (decode_get_state_effecter_states_resp msg n ses) \<and>
    defined (decode_set_numeric_effecter_value_req msg n nev) \<and>
    defined (decode_get_numeric_effecter_value_resp msg n ner) \<and>
    defined (decode_get_sensor_reading_resp msg n sr) \<and>
    defined (decode_numeric_sensor_event_data obj n nse) \<and>
    defined (decode_numeric_sensor_pdr_data obj n ns) \<and>
    defined (decode_get_pdr_resp msg n has_data len gpr) \<and>
    defined (decode_get_pdr_resp_safe msg n gps resp_len) \<and>
    defined (decode_get_pdr_repository_info_resp msg n pri) \<and>
    defined (decode_get_pdr_repository_info_resp_safe msg n pri) \<and>
    defined (decode_event_message_supported_resp msg n ems count) \<and>
    defined (decode_pldm_platform_cper_event obj n pce cper_len) \<and>
    defined (decode_get_pdr_req msg n gpq) \<and>
    defined (decode_get_state_sensor_readings_req msg n ssq) \<and>
    defined (decode_platform_event_message_req msg n pem) \<and>
    defined (decode_platform_event_message_resp msg n per) \<and>
    defined (decode_poll_for_platform_event_message_req msg n pq) \<and>
    defined (decode_poll_for_platform_event_message_resp msg n po) \<and>
    defined (decode_event_message_buffer_size_resp msg n ebs) \<and>
    defined (decode_set_numeric_effecter_value_resp msg n cc) \<and>
    defined (decode_get_numeric_effecter_value_req msg n neq) \<and>
    defined (decode_pldm_platform_set_numeric_sensor_enable_resp msg n sne) \<and>
    defined (decode_set_numeric_sensor_enable_req msg n sns) \<and>
    defined (decode_get_sensor_reading_req msg n srq) \<and>
    defined (decode_get_event_receiver_resp msg n er) \<and>
    defined (decode_set_event_receiver_req msg n ser) \<and>
    defined (decode_set_event_receiver_resp msg n cc) \<and>
    defined (decode_get_state_effecter_states_req msg n sesq) \<and>
    defined (decode_sensor_event_data obj n sed) \<and>
    defined (decode_sensor_op_data obj n sod) \<and>
    defined (decode_state_sensor_data obj n ssd) \<and>
    defined (decode_numeric_sensor_data obj n nsd) \<and>
    defined (decode_pldm_cper_event_data obj n ced) \<and>
    defined (decode_pldm_smbios_event_data obj n sme) \<and>
    defined (decode_pldm_pdr_repository_chg_event_data obj n che) \<and>
    defined (decode_pldm_pdr_repository_change_record_data obj n crd) \<and>
    defined (decode_pldm_message_poll_event_data obj n mpe) \<and>
    defined (decode_pldm_platform_file_descriptor_pdr obj n fdp) \<and>
    defined (decode_pldm_platform_redfish_resource_pdr obj n rfr) \<and>
    defined (decode_pldm_platform_redfish_action_pdr obj n rfa) \<and>
    defined (decode_pldm_platform_redfish_resource_pdr_additional_resource_from_iter pdr f ar) \<and>
    defined (decode_pldm_platform_redfish_resource_pdr_oem_name_from_iter pdr f nm) \<and>
    defined (decode_pldm_platform_redfish_action_pdr_related_resource_id_from_iter pdr f rid) \<and>
    defined (decode_pldm_platform_redfish_action_pdr_action_from_iter pdr f act) \<and>
    defined (decode_pldm_platform_state_effecter_pdr_from_iter pdr it states) \<and>
    defined (decode_pldm_platform_state_effecter_pdr_possible_states_from_iter pdr st state) \<and>
    (defined (decode_set_state_effecter_states_resp msg n cc) \<longleftrightarrow>
      (\<forall>m. msg = Some m \<and> cc \<noteq> None \<longrightarrow> m_payload m \<noteq> [])) \<and>
    (defined (decode_get_terminus_UID_resp msg n tur) \<longleftrightarrow>
      (\<forall>m. msg = Some m \<and> tur \<noteq> None \<longrightarrow>
        m_payload m \<noteq> [] \<and> (m_payload m ! 0 = PLDM_SUCCESS \<and> n \<le> 17 \<longrightarrow> 17 \<le> length (m_payload m)))) \<and>
    (defined (decode_set_state_sensor_enables_req msg n sss) \<longleftrightarrow>
      (\<forall>m. msg = Some m \<and> sss \<noteq> None \<and> 3 \<le> n \<longrightarrow> 1 \<le> m_payload m ! 2 \<and> m_payload m ! 2 \<le> 8)) \<and>
    (defined (decode_numeric_effecter_pdr_data obj n hdr ne) \<longleftrightarrow>
      (\<forall>a m. obj = Some (a, m) \<and> ne \<noteq> None \<and> 63 \<le> n \<longrightarrow> pdr_length_fits 63 n m))"
proof -
  have r: "pred_option (\<lambda>v. 8 \<le> length (sse_field v)) sse" "pred_option (\<lambda>v. 8 \<le> length (ssr_field v)) ssr"
      "pred_option (\<lambda>v. 8 \<le> length (ses_field v)) ses" "pred_option (\<lambda>v. 8 \<le> length (nev_effecter_value v)) nev"
      "pred_option (\<lambda>v. 8 \<le> length (ner_pending_value v) \<and> 8 \<le> length (ner_present_value v)) ner"
      "pred_option (\<lambda>v. 8 \<le> length (sr_present_reading v)) sr" "pred_option (\<lambda>v. 8 \<le> length (nse_present_reading v)) nse"
    using assms(3) by (simp_all only: readings_hold_def)
  note arrays = safe_set_state_effecter_states_req [OF assms(1) r(1)] safe_state_sensor_readings_resp [OF assms(1) r(2)]
    safe_state_effecter_states_resp [OF assms(1) r(3)] safe_set_numeric_effecter_value_req [OF assms(1) r(4)]
    safe_numeric_effecter_value_resp [OF assms(1) r(5)] safe_sensor_reading_resp [OF assms(1) r(6)]
    safe_numeric_sensor_event_data [OF assms(2) r(7)] safe_numeric_sensor_pdr [OF assms(2) assms(4) [unfolded ranges_hold_def]]
    safe_get_pdr_resp [OF assms(1,5)] safe_get_pdr_resp_safe [OF assms(1,6-8)] safe_repository_info_resp [OF assms(1,9)]
    safe_repository_info_resp_safe [OF assms(1,9)] safe_event_message_supported_resp [OF assms(1,10)]
    safe_cper_event [OF assms(2,11)]
  note messages = safe_get_pdr_req [OF assms(1)] safe_state_sensor_readings_req [OF assms(1)] safe_event_message_req [OF assms(1)] safe_event_message_resp [OF assms(1)] safe_poll_event_req [OF assms(1)] safe_poll_event_resp [OF assms(1)] safe_buffer_size_resp [OF assms(1)] safe_set_numeric_effecter_value_resp [OF assms(1)] safe_numeric_effecter_value_req [OF assms(1)] safe_numeric_sensor_enable_resp [OF assms(1)] safe_set_numeric_sensor_enable_req [OF assms(1)] safe_sensor_reading_req [OF assms(1)] safe_get_event_receiver_resp [OF assms(1)] safe_set_event_receiver_req [OF assms(1)] safe_set_event_receiver_resp [OF assms(1)] safe_state_effecter_states_req [OF assms(1)]
  note objects = safe_event_structs [OF assms(2)] safe_sensor_event_data [OF assms(2)] safe_sensor_op_data [OF assms(2)] safe_state_sensor_data [OF assms(2)] safe_numeric_sensor_data [OF assms(2)] safe_chg_event_data [OF assms(2)] safe_change_record_data [OF assms(2)] safe_message_poll_event [OF assms(2)] safe_file_descriptor_pdr [OF assms(2)] safe_redfish_resource_pdr [OF assms(2)] safe_redfish_action_pdr [OF assms(2)]
  note exact = set_state_effecter_states_resp_defined terminus_UID_resp_defined [OF assms(15)]
    state_sensor_enables_defined [OF assms(1,14)] numeric_effecter_pdr_defined [OF assms(2,12,13)]
  show ?thesis
    by (intro conjI arrays messages objects exact safe_entries [OF assms(16)] safe_state_effecter_entries(1) [OF assms(17)]
        safe_state_effecter_entries(2) [OF assms(18)])
qed

text \<open>A response that claims 65535 bytes of data and has none.\<close>

theorem platform_decoders_defined_witness:
  "defined (decode_get_pdr_resp
     (Some \<lparr>m_hdr = hdr_of_bytes 0 0 0, m_addr = 64, m_payload = replicate 10 0 @ [0xff, 0xff]\<rparr>) 12 True 65535
     (Some \<lparr>gpr_completion_code = 0, gpr_next_record_handle = 0, gpr_next_data_transfer_handle = 0, gpr_transfer_flag = 0,
       gpr_response_count = 0, gpr_record_data = replicate 65535 0, gpr_transfer_crc = 0\<rparr>)) \<and>
   \<not> defined (decode_get_terminus_UID_resp
     (Some \<lparr>m_hdr = hdr_of_bytes 0 0 0, m_addr = 64, m_payload = replicate 10 0 @ [0xff, 0xff]\<rparr>) 12
     (Some \<lparr>tur_completion_code = 0, tur_uuid = replicate 16 0\<rparr>))"
proof -
  let ?msg = "\<lparr>m_hdr = hdr_of_bytes 0 0 0, m_addr = 64, m_payload = replicate 10 0 @ [0xff, 0xff]\<rparr>"
  have holds: "ptr_holds 12 (Some ?msg)" by (simp add: ptr_holds_def msg_holds_def)
  have none: "obj_holds 12 None" "readings_hold None None None None None None None"
    by (simp_all add: obj_holds_def readings_hold_def)
  have f: "field_within (0, []) null_field" by (simp add: field_within_def)
  let ?it = "\<lparr>sei_field = null_field, sei_current_states = null_field, sei_total_count = 0, sei_current_index = 0\<rparr>"
  let ?st = "\<lparr>psi_field = null_field, psi_total_count = 0, psi_current_index = 0\<rparr>"
  show ?thesis
    using platform_decoders_defined [OF holds none, where ns = None and pri = None and ems = None and pce = None and len = 65535
        and gpr = "Some \<lparr>gpr_completion_code = 0, gpr_next_record_handle = 0, gpr_next_data_transfer_handle = 0,
          gpr_transfer_flag = 0, gpr_response_count = 0, gpr_record_data = replicate 65535 0, gpr_transfer_crc = 0\<rparr>"
        and resp_len = 12 and gps = None and sss = None and ne = None and pdr = "(0, [])" and f = null_field and it = ?it and st = ?st
        and tur = "Some \<lparr>tur_completion_code = 0, tur_uuid = replicate 16 0\<rparr>"] f
    by (simp add: obj_in_memory_def nth_append)
qed

end
