(* ===== verification/Platform_Roundtrip.thy ===== *)
theory Platform_Roundtrip
  imports Platform_Laws
begin

text \<open>
  What the encoders of the platform messages and PDRs write is read back by their decoders. Each format is an
  interpretation of \<open>wire_format\<close>: the bytes of a message, and what the steps of the decoder make of them.
\<close>

section \<open>GetPDR\<close>

record pdr_part =
  pp_next_record_handle :: u32
  pp_next_data_transfer_handle :: u32
  pp_transfer_flag :: u8
  pp_data :: "u8 list"
  pp_crc :: u8

definition get_pdr_resp_bytes :: "pdr_part \<Rightarrow> u8 list" where
  "get_pdr_resp_bytes w = concat
     [le_of_word (0 :: u8), le_of_word (pp_next_record_handle w), le_of_word (pp_next_data_transfer_handle w),
      le_of_word (pp_transfer_flag w), le_of_word (of_nat (length (pp_data w)) :: u16), pp_data w,
      if pp_transfer_flag w = PLDM_END then le_of_word (pp_crc w) else []]"

definition get_pdr_resp_out :: "pdr_part \<Rightarrow> get_pdr_resp \<Rightarrow> get_pdr_resp" where
  "get_pdr_resp_out w v =
     v\<lparr>gpr_completion_code := 0, gpr_next_record_handle := pp_next_record_handle w,
       gpr_next_data_transfer_handle := pp_next_data_transfer_handle w, gpr_transfer_flag := pp_transfer_flag w,
       gpr_response_count := of_nat (length (pp_data w)), gpr_record_data := poke (gpr_record_data v) 0 (pp_data w),
       gpr_transfer_crc := (if pp_transfer_flag w = PLDM_END then pp_crc w else gpr_transfer_crc v)\<rparr>"

lemma unat_count: "n < 65536 \<Longrightarrow> unat (of_nat n :: u16) = n"
  by (simp add: unat_of_nat)

interpretation get_pdr_resp_format: wire_format "get_pdr_resp_steps True len" get_pdr_resp_bytes get_pdr_resp_out
  "\<lambda>w v. length (pp_data w) < 65536 \<and> length (pp_data w) \<le> len \<and> len \<le> length (gpr_record_data v)"
  for len
proof
  fix w :: pdr_part and v :: get_pdr_resp
  assume *: "length (pp_data w) < 65536 \<and> length (pp_data w) \<le> len \<and> len \<le> length (gpr_record_data v)"
  have crc: "reads c (only (\<lambda>v. gpr_transfer_flag v = PLDM_END) [get gpr_transfer_crc_update]) u
      (if pp_transfer_flag w = PLDM_END then le_of_word (pp_crc w) else [])
      (if pp_transfer_flag w = PLDM_END then u\<lparr>gpr_transfer_crc := pp_crc w\<rparr> else u)"
    if "gpr_transfer_flag u = pp_transfer_flag w" for c and u :: get_pdr_resp
    using that reads_only(1) [OF _ reads_Cons [OF reads_get [of c gpr_transfer_crc_update u "pp_crc w"] reads_Nil]]
    by (simp add: reads_only(2))
  have data: "reads c (only (\<lambda>v. gpr_response_count v > 0 \<and> True)
        [refuse (\<lambda>v. len < unat (gpr_response_count v)) PLDM_ERROR_INVALID_LENGTH,
         get_array_or as_cc (\<lambda>v. unat (gpr_response_count v)) (\<lambda>v. unat (gpr_response_count v))
           gpr_record_data gpr_record_data_update]) u
      (pp_data w) (u\<lparr>gpr_record_data := poke (gpr_record_data u) 0 (pp_data w)\<rparr>)"
    if "gpr_response_count u = of_nat (length (pp_data w))" "gpr_record_data u = gpr_record_data v"
    for c and u :: get_pdr_resp
  proof (cases "pp_data w = []")
    case True
    then have "u\<lparr>gpr_record_data := poke (gpr_record_data u) 0 (pp_data w)\<rparr> = u" by (cases u) simp
    moreover have "\<not> (gpr_response_count u > 0 \<and> True)" using that(1) True by simp
    ultimately show ?thesis using True by (simp add: reads_only(2))
  next
    case False
    then have "0 < gpr_response_count u" using that(1) * unat_count [of "length (pp_data w)"] by (simp add: word_less_nat_alt)
    moreover have "reads c (steps [refuse (\<lambda>v. len < unat (gpr_response_count v)) PLDM_ERROR_INVALID_LENGTH,
         get_array_or as_cc (\<lambda>v. unat (gpr_response_count v)) (\<lambda>v. unat (gpr_response_count v))
           gpr_record_data gpr_record_data_update]) u (pp_data w @ []) (u\<lparr>gpr_record_data := poke (gpr_record_data u) 0 (pp_data w)\<rparr>)"
      using that * by (intro reads_next reads_end) (simp_all add: unat_count)
    ultimately show ?thesis using reads_only(1) by simp
  qed
  show "reads 0 (steps (get_pdr_resp_steps True len)) v (get_pdr_resp_bytes w) (get_pdr_resp_out w v)"
    unfolding get_pdr_resp_bytes_def concat.simps
    by ((rule reads_next, simp)+, rule reads_Cons [OF data], simp, simp, rule reads_Cons [OF crc], simp)
      (rule reads_end, simp add: get_pdr_resp_out_def)
qed

definition get_pdr_req_bytes :: "get_pdr_req \<Rightarrow> u8 list" where
  "get_pdr_req_bytes w = concat
     [le_of_word (gpq_record_handle w), le_of_word (gpq_data_transfer_handle w), le_of_word (gpq_transfer_op_flag w),
      le_of_word (gpq_request_count w), le_of_word (gpq_record_change_number w)]"

interpretation get_pdr_req_format: wire_format
  "[get gpq_record_handle_update, get gpq_data_transfer_handle_update, get gpq_transfer_op_flag_update,
    get gpq_request_count_update, get gpq_record_change_number_update]"
  get_pdr_req_bytes "\<lambda>w v. w" "\<lambda>w v. True"
proof
  fix w v :: get_pdr_req
  show "reads 0 (steps [get gpq_record_handle_update, get gpq_data_transfer_handle_update, get gpq_transfer_op_flag_update,
    get gpq_request_count_update, get gpq_record_change_number_update]) v (get_pdr_req_bytes w) w"
    unfolding get_pdr_req_bytes_def concat.simps
    by ((rule reads_next, simp)+, rule reads_end, cases w, cases v, simp)
qed

section \<open>Sensor readings\<close>

lemma reads_into:
  assumes "8 dvd LENGTH('a::len)" "length bs = LENGTH('a) div 8" "length bs \<le> length dst" "c + length bs \<le> length m"
    and "bytes_at m c (length bs) = bs" "int (length bs) \<le> r"
  shows "into (msgbuf_extract :: _ \<Rightarrow> 'a word \<Rightarrow> _) (live_mb a m c r) dst =
    (0, poke dst 0 bs, live_mb a m (c + length bs) (r - int (length bs)))"
  using assms by (simp add: into_def msgbuf_extract_live)

lemma tag_cases:
  assumes "(t :: u8) \<le> 7"
  shows "t = 0 \<or> t = 1 \<or> t = 2 \<or> t = 3 \<or> t = 4 \<or> t = 5 \<or> t = 6 \<or> t = 7"
proof -
  have "unat t \<le> 7" using assms by (simp add: word_le_nat_alt)
  then have "unat t = 0 \<or> unat t = 1 \<or> unat t = 2 \<or> unat t = 3 \<or> unat t = 4 \<or> unat t = 5 \<or> unat t = 6 \<or> unat t = 7"
    by linarith
  moreover have "of_nat (unat t) = t" by simp
  ultimately show ?thesis by (auto simp del: of_nat_unat)
qed

lemma sensor_data_live:
  assumes "t \<le> 7" "length bs = size_width t" "8 \<le> length dst" "c + length bs \<le> length m"
    and "bytes_at m c (length bs) = bs" "int (length bs) \<le> r"
  shows "pldm_msgbuf_extract_sensor_data (live_mb a m c r) t dst =
    (0, poke dst 0 bs, live_mb a m (c + length bs) (r - int (length bs)))"
proof -
  note into = reads_into [where 'a = 8, of bs dst c m r a] reads_into [where 'a = 16, of bs dst c m r a]
    reads_into [where 'a = 32, of bs dst c m r a] reads_into [where 'a = 64, of bs dst c m r a]
  show ?thesis
    using tag_cases [OF assms(1)] assms(2-) into
    by (elim disjE) (simp_all add: pldm_msgbuf_extract_sensor_data_def extract_by_width size_width_def)
qed

lemma reads_get_value:
  assumes "tag v \<le> 7" "length bs = size_width (tag v)" "8 \<le> length (arr v)"
  shows "reads c (get_value pldm_msgbuf_extract_sensor_value tag arr upd) v bs (upd (\<lambda>_. poke (arr v) 0 bs) v)"
  using sensor_data_live [OF assms]
  by (simp add: reads_def get_value_def pldm_msgbuf_extract_sensor_value_def)

definition sensor_reading_bytes :: "sensor_reading_resp \<Rightarrow> u8 list" where
  "sensor_reading_bytes w = concat
     [le_of_word (0 :: u8), le_of_word (sr_sensor_data_size w), le_of_word (sr_sensor_operational_state w),
      le_of_word (sr_sensor_event_message_enable w), le_of_word (sr_present_state w), le_of_word (sr_previous_state w),
      le_of_word (sr_event_state w), take (size_width (sr_sensor_data_size w)) (sr_present_reading w)]"

definition sensor_reading_out :: "sensor_reading_resp \<Rightarrow> sensor_reading_resp \<Rightarrow> sensor_reading_resp" where
  "sensor_reading_out w v = w\<lparr>sr_completion_code := 0, sr_present_reading :=
     poke (sr_present_reading v) 0 (take (size_width (sr_sensor_data_size w)) (sr_present_reading w))\<rparr>"

interpretation sensor_reading_format: wire_format sensor_reading_steps sensor_reading_bytes sensor_reading_out
  "\<lambda>w v. sr_sensor_data_size w \<le> SENSOR_DATA_SIZE_MAX \<and>
     size_width (sr_sensor_data_size w) \<le> length (sr_present_reading w) \<and> 8 \<le> length (sr_present_reading v)"
proof
  fix w v :: sensor_reading_resp
  assume *: "sr_sensor_data_size w \<le> SENSOR_DATA_SIZE_MAX \<and>
     size_width (sr_sensor_data_size w) \<le> length (sr_present_reading w) \<and> 8 \<le> length (sr_present_reading v)"
  show "reads 0 (steps sensor_reading_steps) v (sensor_reading_bytes w) (sensor_reading_out w v)"
    unfolding sensor_reading_bytes_def concat.simps
    by ((rule reads_next, simp add: * not_less)+, rule reads_Cons [OF reads_get_value], (simp add: *)+)
      (rule reads_end, cases w, cases v, simp add: sensor_reading_out_def)
qed

section \<open>What the encoders write\<close>

lemma msg_holds_payload: "msg_holds n msg \<Longrightarrow> n \<le> length (m_payload msg)"
  by (simp add: msg_holds_def)

lemma msg_holds_update [simp]:
  "length bs \<le> length (m_payload msg) \<Longrightarrow> msg_holds n (msg\<lparr>m_hdr := h, m_payload := poke (m_payload msg) 0 bs\<rparr>) = msg_holds n msg"
  by (simp add: msg_holds_def)

lemma length_get_pdr_resp_bytes:
  "length (get_pdr_resp_bytes w) = 12 + length (pp_data w) + (if pp_transfer_flag w = PLDM_END then 1 else 0)"
  by (simp add: get_pdr_resp_bytes_def)

lemma encode_get_pdr_resp_writes:
  assumes "instance_id \<le> PLDM_INSTANCE_MAX" "length (pp_data w) < 65536" "length (get_pdr_resp_bytes w) \<le> length (m_payload msg)"
  shows "encode_get_pdr_resp instance_id 0 (pp_next_record_handle w) (pp_next_data_transfer_handle w) (pp_transfer_flag w)
     (of_nat (length (pp_data w))) (Some (pp_data w)) (pp_crc w) (Some msg) =
     Some (0, Some (msg\<lparr>m_hdr := wire_hdr PLDM_RESPONSE instance_id PLDM_PLATFORM 0x51,
       m_payload := poke (m_payload msg) 0 (get_pdr_resp_bytes w)\<rparr>))"
  using assms
  by (simp add: encode_get_pdr_resp_def if_msg_def with_header_cc_def mb_simps length_get_pdr_resp_bytes unat_count poke_poke)
    (auto simp: get_pdr_resp_bytes_def poke_poke mb_simps)

lemma encode_get_sensor_reading_resp_writes:
  assumes "instance_id \<le> PLDM_INSTANCE_MAX" "sr_sensor_data_size w \<le> SENSOR_DATA_SIZE_MAX"
    and "size_width (sr_sensor_data_size w) \<le> length (sr_present_reading w)"
    and "7 + size_width (sr_sensor_data_size w) \<le> length (m_payload msg)"
  shows "encode_get_sensor_reading_resp instance_id 0 (sr_sensor_data_size w) (sr_sensor_operational_state w)
     (sr_sensor_event_message_enable w) (sr_present_state w) (sr_previous_state w) (sr_event_state w)
     (Some (sr_present_reading w)) (Some msg) (7 + size_width (sr_sensor_data_size w)) =
     Some (0, Some (msg\<lparr>m_hdr := wire_hdr PLDM_RESPONSE instance_id PLDM_PLATFORM 0x11,
       m_payload := poke (m_payload msg) 0 (sensor_reading_bytes w)\<rparr>))"
  using assms
  by (simp add: encode_get_sensor_reading_resp_def if_msg_def with_header_cc_def mb_simps poke_poke not_less sensor_reading_bytes_def)

lemma encode_get_pdr_req_writes:
  assumes "instance_id \<le> PLDM_INSTANCE_MAX" "13 \<le> length (m_payload msg)"
  shows "encode_get_pdr_req instance_id (gpq_record_handle w) (gpq_data_transfer_handle w) (gpq_transfer_op_flag w)
     (gpq_request_count w) (gpq_record_change_number w) (Some msg) 13 =
     Some (0, Some (msg\<lparr>m_hdr := wire_hdr PLDM_REQUEST instance_id PLDM_PLATFORM 0x51,
       m_payload := poke (m_payload msg) 0 (get_pdr_req_bytes w)\<rparr>))"
  using assms by (simp add: encode_get_pdr_req_def if_msg_def with_header_cc_def fill_def mb_simps get_pdr_req_bytes_def)

section \<open>Round trips of messages\<close>

lemma get_pdr_req_roundtrip:
  assumes "instance_id \<le> PLDM_INSTANCE_MAX" "msg_holds 13 msg"
  shows "\<exists>m. encode_get_pdr_req instance_id (gpq_record_handle q) (gpq_data_transfer_handle q) (gpq_transfer_op_flag q)
        (gpq_request_count q) (gpq_record_change_number q) (Some msg) 13 = Some (0, Some m) \<and>
      decode_get_pdr_req (Some m) 13 (Some q0) = Some (0, Some q)"
proof (intro exI conjI)
  let ?m = "msg\<lparr>m_hdr := wire_hdr PLDM_REQUEST instance_id PLDM_PLATFORM 0x51, m_payload := poke (m_payload msg) 0 (get_pdr_req_bytes q)\<rparr>"
  have len: "length (get_pdr_req_bytes q) = 13" by (simp add: get_pdr_req_bytes_def)
  show "encode_get_pdr_req instance_id (gpq_record_handle q) (gpq_data_transfer_handle q) (gpq_transfer_op_flag q)
      (gpq_request_count q) (gpq_record_change_number q) (Some msg) 13 = Some (0, Some ?m)"
    using assms by (simp add: encode_get_pdr_req_writes msg_holds_payload)
  show "decode_get_pdr_req (Some ?m) 13 (Some q0) = Some (0, Some q)"
    using assms(2) len take_poke_0 [of "get_pdr_req_bytes q" "m_payload msg"]
      get_pdr_req_format.decode_msg_enc [of 13 q ?m pldm_msgbuf_complete as_cc q0]
    by (simp add: decode_get_pdr_req_def if_set_def msg_holds_payload)
qed

lemma get_pdr_resp_roundtrip:
  assumes "instance_id \<le> PLDM_INSTANCE_MAX" "msg_holds (length (get_pdr_resp_bytes w)) msg"
    and "length (pp_data w) < 65536" "length (pp_data w) \<le> len" "len \<le> length (gpr_record_data v)"
  shows "\<exists>m. encode_get_pdr_resp instance_id 0 (pp_next_record_handle w) (pp_next_data_transfer_handle w)
        (pp_transfer_flag w) (of_nat (length (pp_data w))) (Some (pp_data w)) (pp_crc w) (Some msg) = Some (0, Some m) \<and>
      decode_get_pdr_resp (Some m) (length (get_pdr_resp_bytes w)) True len (Some v) = Some (0, Some (get_pdr_resp_out w v))"
proof (intro exI conjI)
  let ?m = "msg\<lparr>m_hdr := wire_hdr PLDM_RESPONSE instance_id PLDM_PLATFORM 0x51, m_payload := poke (m_payload msg) 0 (get_pdr_resp_bytes w)\<rparr>"
  show "encode_get_pdr_resp instance_id 0 (pp_next_record_handle w) (pp_next_data_transfer_handle w)
        (pp_transfer_flag w) (of_nat (length (pp_data w))) (Some (pp_data w)) (pp_crc w) (Some msg) = Some (0, Some ?m)"
    using assms by (simp add: encode_get_pdr_resp_writes msg_holds_payload)
  have min: "12 \<le> length (get_pdr_resp_bytes w)" by (simp add: length_get_pdr_resp_bytes)
  show "decode_get_pdr_resp (Some ?m) (length (get_pdr_resp_bytes w)) True len (Some v) = Some (0, Some (get_pdr_resp_out w v))"
    using assms(2-5) min get_pdr_resp_format.decode_msg_enc [of w len v 12 ?m pldm_msgbuf_complete as_cc]
    by (simp add: decode_get_pdr_resp_def if_set_def msg_holds_payload take_poke_0)
qed

lemma sensor_reading_roundtrip:
  assumes "instance_id \<le> PLDM_INSTANCE_MAX" "msg_holds k msg" "k = 7 + size_width (sr_sensor_data_size r)"
    and "sr_sensor_data_size r \<le> SENSOR_DATA_SIZE_MAX"
    and "size_width (sr_sensor_data_size r) \<le> length (sr_present_reading r)" "8 \<le> length (sr_present_reading u)"
  shows "\<exists>m. encode_get_sensor_reading_resp instance_id 0 (sr_sensor_data_size r) (sr_sensor_operational_state r)
        (sr_sensor_event_message_enable r) (sr_present_state r) (sr_previous_state r) (sr_event_state r)
        (Some (sr_present_reading r)) (Some msg) k = Some (0, Some m) \<and>
      decode_get_sensor_reading_resp (Some m) k (Some u) = Some (0, Some (sensor_reading_out r u))"
proof (intro exI conjI)
  let ?m = "msg\<lparr>m_hdr := wire_hdr PLDM_RESPONSE instance_id PLDM_PLATFORM 0x11, m_payload := poke (m_payload msg) 0 (sensor_reading_bytes r)\<rparr>"
  have len: "length (sensor_reading_bytes r) = k" using assms(3,5) by (simp add: sensor_reading_bytes_def)
  have "8 \<le> k" using assms(3) by (simp add: size_width_def)
  show "encode_get_sensor_reading_resp instance_id 0 (sr_sensor_data_size r) (sr_sensor_operational_state r)
        (sr_sensor_event_message_enable r) (sr_present_state r) (sr_previous_state r) (sr_event_state r)
        (Some (sr_present_reading r)) (Some msg) k = Some (0, Some ?m)"
    using assms msg_holds_payload [OF assms(2)] by (simp add: encode_get_sensor_reading_resp_writes)
  have "k \<le> length (m_payload msg)" by (rule msg_holds_payload [OF assms(2)])
  then show "decode_get_sensor_reading_resp (Some ?m) k (Some u) = Some (0, Some (sensor_reading_out r u))"
    using assms(2,4-6) len \<open>8 \<le> k\<close> take_poke_0 [of "sensor_reading_bytes r" "m_payload msg"]
      sensor_reading_format.decode_msg_enc [of r u 8 ?m pldm_msgbuf_complete_consumed as_cc]
    by (simp add: decode_get_sensor_reading_resp_def if_set_def)
qed

text \<open>
  C28. GetPDR and GetSensorReading survive the wire. A GetPDR request is decoded to the five fields it was
  encoded from. A GetPDR response with any part of a record up to 65535 bytes is decoded to the same handles,
  flag and count, with the bytes of the part in front of the caller's array, and with the checksum when the
  part is the last one. A sensor reading of each of the eight data sizes is decoded to the same states and
  reading. In each case the payload has the length the encoder's caller computes from the message.
\<close>

theorem platform_messages_roundtrip:
  assumes "instance_id \<le> PLDM_INSTANCE_MAX" "msg_holds 13 rq" "msg_holds n rs" "msg_holds k sn"
    and "length d < 65536" "length d \<le> len" "len \<le> length (gpr_record_data v)"
    and "n = 12 + length d + (if flag = PLDM_END then 1 else 0)"
    and "sr_sensor_data_size r \<le> SENSOR_DATA_SIZE_MAX" "k = 7 + size_width (sr_sensor_data_size r)"
    and "size_width (sr_sensor_data_size r) \<le> length (sr_present_reading r)" "8 \<le> length (sr_present_reading u)"
  shows "(\<exists>m. encode_get_pdr_req instance_id (gpq_record_handle q) (gpq_data_transfer_handle q) (gpq_transfer_op_flag q)
        (gpq_request_count q) (gpq_record_change_number q) (Some rq) 13 = Some (0, Some m) \<and>
      decode_get_pdr_req (Some m) 13 (Some q0) = Some (0, Some q)) \<and>
    (\<exists>m. encode_get_pdr_resp instance_id 0 next_record next_transfer flag (of_nat (length d)) (Some d) crc (Some rs) =
        Some (0, Some m) \<and>
      decode_get_pdr_resp (Some m) n True len (Some v) = Some (0, Some (
        v\<lparr>gpr_completion_code := 0, gpr_next_record_handle := next_record, gpr_next_data_transfer_handle := next_transfer,
          gpr_transfer_flag := flag, gpr_response_count := of_nat (length d),
          gpr_record_data := poke (gpr_record_data v) 0 d,
          gpr_transfer_crc := (if flag = PLDM_END then crc else gpr_transfer_crc v)\<rparr>))) \<and>
    (\<exists>m. encode_get_sensor_reading_resp instance_id 0 (sr_sensor_data_size r) (sr_sensor_operational_state r)
        (sr_sensor_event_message_enable r) (sr_present_state r) (sr_previous_state r) (sr_event_state r)
        (Some (sr_present_reading r)) (Some sn) k = Some (0, Some m) \<and>
      decode_get_sensor_reading_resp (Some m) k (Some u) = Some (0, Some (
        r\<lparr>sr_completion_code := 0, sr_present_reading :=
           poke (sr_present_reading u) 0 (take (size_width (sr_sensor_data_size r)) (sr_present_reading r))\<rparr>)))"
proof -
  let ?w = "\<lparr>pp_next_record_handle = next_record, pp_next_data_transfer_handle = next_transfer, pp_transfer_flag = flag,
    pp_data = d, pp_crc = crc\<rparr>"
  have n: "length (get_pdr_resp_bytes ?w) = n" using assms(8) by (simp add: length_get_pdr_resp_bytes)
  have 1: "\<exists>m. encode_get_pdr_req instance_id (gpq_record_handle q) (gpq_data_transfer_handle q) (gpq_transfer_op_flag q)
        (gpq_request_count q) (gpq_record_change_number q) (Some rq) 13 = Some (0, Some m) \<and>
      decode_get_pdr_req (Some m) 13 (Some q0) = Some (0, Some q)"
    by (rule get_pdr_req_roundtrip [OF assms(1,2)])
  have 2: "\<exists>m. encode_get_pdr_resp instance_id 0 next_record next_transfer flag (of_nat (length d)) (Some d) crc (Some rs) =
        Some (0, Some m) \<and>
      decode_get_pdr_resp (Some m) n True len (Some v) = Some (0, Some (
        v\<lparr>gpr_completion_code := 0, gpr_next_record_handle := next_record, gpr_next_data_transfer_handle := next_transfer,
          gpr_transfer_flag := flag, gpr_response_count := of_nat (length d),
          gpr_record_data := poke (gpr_record_data v) 0 d,
          gpr_transfer_crc := (if flag = PLDM_END then crc else gpr_transfer_crc v)\<rparr>))"
    by (rule get_pdr_resp_roundtrip [of instance_id ?w rs len v, unfolded n get_pdr_resp_out_def pdr_part.simps,
        OF assms(1,3,5,6,7)])
  have 3: "\<exists>m. encode_get_sensor_reading_resp instance_id 0 (sr_sensor_data_size r) (sr_sensor_operational_state r)
        (sr_sensor_event_message_enable r) (sr_present_state r) (sr_previous_state r) (sr_event_state r)
        (Some (sr_present_reading r)) (Some sn) k = Some (0, Some m) \<and>
      decode_get_sensor_reading_resp (Some m) k (Some u) = Some (0, Some (
        r\<lparr>sr_completion_code := 0, sr_present_reading :=
           poke (sr_present_reading u) 0 (take (size_width (sr_sensor_data_size r)) (sr_present_reading r))\<rparr>))"
    using sensor_reading_roundtrip [OF assms(1,4,10,9,11,12)] by (simp add: sensor_reading_out_def)
  from 1 2 3 show ?thesis by (intro conjI)
qed

theorem platform_messages_roundtrip_witness:
  "\<exists>m. encode_get_pdr_resp 5 0 17 0 PLDM_END 3 (Some [7, 8, 9]) 0xab
      (Some \<lparr>m_hdr = hdr_of_bytes 0 0 0, m_addr = 64, m_payload = replicate 20 0\<rparr>) = Some (0, Some m) \<and>
    decode_get_pdr_resp (Some m) 16 True 6 (Some \<lparr>gpr_completion_code = 1, gpr_next_record_handle = 0,
      gpr_next_data_transfer_handle = 4, gpr_transfer_flag = 0, gpr_response_count = 9,
      gpr_record_data = [1, 1, 1, 1, 1, 1], gpr_transfer_crc = 0\<rparr>) =
    Some (0, Some \<lparr>gpr_completion_code = 0, gpr_next_record_handle = 17,
      gpr_next_data_transfer_handle = 0, gpr_transfer_flag = PLDM_END, gpr_response_count = 3,
      gpr_record_data = [7, 8, 9, 1, 1, 1], gpr_transfer_crc = 0xab\<rparr>)"
proof -
  let ?msg = "\<lparr>m_hdr = hdr_of_bytes 0 0 0, m_addr = 64, m_payload = replicate 20 0\<rparr>"
  let ?v = "\<lparr>gpr_completion_code = 1, gpr_next_record_handle = 0, gpr_next_data_transfer_handle = 4,
    gpr_transfer_flag = 0, gpr_response_count = 9, gpr_record_data = [1, 1, 1, 1, 1, 1], gpr_transfer_crc = 0\<rparr>"
  let ?r = "\<lparr>sr_completion_code = 0, sr_sensor_data_size = 3, sr_sensor_operational_state = 0,
    sr_sensor_event_message_enable = 1, sr_present_state = 1, sr_previous_state = 1, sr_event_state = 2,
    sr_present_reading = [0x34, 0x12]\<rparr>"
  let ?u = "?r\<lparr>sr_present_reading := replicate 8 0\<rparr>"
  have holds: "msg_holds n ?msg" if "n \<le> 20" for n
    using that by (simp add: msg_holds_def)
  have wide: "size_width 3 = 2" by (simp add: size_width_def)
  note roundtrip = platform_messages_roundtrip [of 5 ?msg 16 ?msg 9 ?msg "[7, 8, 9]" 6 ?v PLDM_END ?r ?u,
    THEN conjunct2, THEN conjunct1]
  show ?thesis
    by (rule exE [OF roundtrip]) (simp_all add: holds wide, auto simp: poke_def)
qed

end
