(* ===== verification/Platform_Pdr_Laws.thy ===== *)
theory Platform_Pdr_Laws
  imports Platform_Roundtrip
begin

text \<open>
  PDRs that are written by their encoder and read back by their decoder and iterators: the possible states
  of a state effecter, and file descriptors.
\<close>

section \<open>Entries of a field\<close>

lemma span_remaining_live:
  assumes "c + k \<le> length m"
  shows "pldm__msgbuf_span_remaining (live_mb a m c (int k)) = (0, Some (c, k), live_mb a m (c + k) 0)"
  using assms by (simp add: pldm__msgbuf_span_remaining_def live_mb_step)

text \<open>A decoder of an entry reads it and hands out the rest of the field.\<close>

lemma decode_field_rest:
  assumes "reads 0 (steps ss) v bs v'" "ssf p = ss @ [rest_into upd p]"
    and "p + length bs + k \<le> length m" "bytes_at m p (length bs) = bs" "minsize \<le> length bs + k"
    and "length m \<le> SSIZE_MAX" "a + length m \<le> UINTPTR_MAX"
  shows "decode_field minsize ssf (a, m) \<lparr>vf_ptr = Some p, vf_length = length bs + k\<rparr> v =
    Some (0, upd (\<lambda>_. \<lparr>vf_ptr = Some (p + length bs), vf_length = k\<rparr>) v')"
proof -
  let ?m = "drop p m" and ?n = "length bs + k"
  have at: "bytes_at ?m 0 (length bs) = bs" using assms(4) by (simp add: bytes_at_def)
  have "steps ss v (live_mb (a + p) ?m 0 (int ?n)) = (Go, v', live_mb (a + p) ?m (length bs) (int k))"
    using assms(1,3,6) at unfolding reads_def by simp
  then have run: "steps (ssf p) v (live_mb (a + p) ?m 0 (int ?n)) =
      (Go, upd (\<lambda>_. \<lparr>vf_ptr = Some (p + length bs), vf_length = k\<rparr>) v', live_mb (a + p) ?m ?n 0)"
    using assms(3) unfolding assms(2) steps_append by (simp add: rest_into_def span_remaining_live)
  have init: "pldm__msgbuf_init_errno minsize (a + p) ?m ?n = (0, live_mb (a + p) ?m 0 (int ?n))"
    using assms(3,5-7) by (intro init_errno_live) simp_all
  show ?thesis
    by (simp add: decode_field_def decode_bytes_def on_buffer_def init run [simplified] mb_simps)
qed

lemma reads_only_get: "8 dvd LENGTH('a) \<Longrightarrow> reads c (steps [get upd]) v (le_of_word (w :: 'a::len word)) (upd (\<lambda>_. w) v)"
  using reads_Cons [OF reads_get [of c upd v w] reads_Nil] by simp

section \<open>The states of an effecter\<close>

lemma states_from_iter:
  assumes "bytes_at m p (Suc k) = x # xs" "p + Suc k \<le> length m" "length m \<le> SSIZE_MAX" "a + length m \<le> UINTPTR_MAX"
    and "psi_field iter = \<lparr>vf_ptr = Some p, vf_length = Suc k\<rparr>"
  shows "decode_pldm_platform_state_effecter_pdr_possible_states_from_iter (a, m) iter s =
    Some (0, iter\<lparr>psi_field := \<lparr>vf_ptr = Some (Suc p), vf_length = k\<rparr>\<rparr>, x)"
proof -
  have "bytes_at m p (length (le_of_word x)) = le_of_word x"
    using assms(1) by (cases "drop p m") (simp_all add: bytes_at_def)
  then have "decode_field 0 (\<lambda>p. [get apsnd, rest_into apfst p]) (a, m)
      \<lparr>vf_ptr = Some p, vf_length = length (le_of_word x) + k\<rparr> (psi_field iter, s) =
    Some (0, apfst (\<lambda>_. \<lparr>vf_ptr = Some (p + length (le_of_word x)), vf_length = k\<rparr>) (apsnd (\<lambda>_. x) (psi_field iter, s)))"
    using assms(2-4) by (intro decode_field_rest [where ss = "[get apsnd]"] reads_only_get) simp_all
  then show ?thesis
    using assms(5) by (simp add: decode_pldm_platform_state_effecter_pdr_possible_states_from_iter_def)
qed

lemma next_unat: "unat (i :: u8) < 255 \<Longrightarrow> unat (i + 1) = unat i + 1"
  by (simp add: unat_word_ariths(1))

lemma states_loop:
  assumes "psi_field iter = \<lparr>vf_ptr = Some p, vf_length = length bs\<rparr>" "bytes_at m p (length bs) = bs"
    and "unat (psi_total_count iter) = unat (psi_current_index iter) + length bs"
    and "p + length bs \<le> length m" "length m \<le> SSIZE_MAX" "a + length m \<le> UINTPTR_MAX"
  shows "foreach_pldm_platform_state_effecter_pdr_states (a, m) iter s = Some (0, bs)"
  using assms
proof (induction bs arbitrary: iter p s)
  case Nil
  then show ?case
    by (subst foreach_pldm_platform_state_effecter_pdr_states.simps)
      (simp add: pldm_platform_state_effecter_pdr_possible_states_iter_end_def word_le_nat_alt)
next
  case (Cons x xs)
  let ?iter = "iter\<lparr>psi_field := \<lparr>vf_ptr = Some (Suc p), vf_length = length xs\<rparr>, psi_current_index := psi_current_index iter + 1\<rparr>"
  have more: "\<not> psi_total_count iter \<le> psi_current_index iter" using Cons.prems(3) by (simp add: word_le_nat_alt)
  have "unat (psi_total_count iter) < 2 ^ LENGTH(8)" by (rule unsigned_less)
  then have idx: "unat (psi_current_index iter + 1) = unat (psi_current_index iter) + 1"
    using Cons.prems(3) by (intro next_unat) simp
  have rest: "bytes_at m (Suc p) (length xs) = xs"
    using bytes_at_split [of m p 1 "length xs"] Cons.prems(2,4) by (simp add: bytes_at_def drop_Suc tl_drop [symmetric])
       (metis drop_Suc list.sel(3) take_tl tl_drop)
  have "foreach_pldm_platform_state_effecter_pdr_states (a, m) ?iter x = Some (0, xs)"
    using Cons.prems(3-6) idx rest by (intro Cons.IH [of _ "Suc p"]) simp_all
  then show ?case
    using states_from_iter [of m p "length xs" x xs a iter s] Cons.prems more
    by (subst foreach_pldm_platform_state_effecter_pdr_states.simps)
      (simp add: pldm_platform_state_effecter_pdr_possible_states_iter_end_def
        pldm_platform_state_effecter_pdr_possible_states_iter_next_def)
qed

definition state_bytes :: "(u16 \<times> u8 list) list \<Rightarrow> u8 list" where
  "state_bytes ss = concat (map (\<lambda>(i, bs). le_of_word i @ le_of_word (of_nat (length bs) :: u8) @ bs) ss)"

lemma state_bytes_simps [simp]:
  "state_bytes [] = []"
  "state_bytes ((i, bs) # ss) = le_of_word i @ of_nat (length bs) # bs @ state_bytes ss"
  by (simp_all add: state_bytes_def)

lemma effecter_from_iter:
  assumes "sei_field iter = \<lparr>vf_ptr = Some p, vf_length = 3 + length bs + k\<rparr>" "length bs < 256"
    and "bytes_at m p (3 + length bs) = le_of_word i @ of_nat (length bs) # bs"
    and "p + 3 + length bs + k \<le> length m" "length m \<le> SSIZE_MAX" "a + length m \<le> UINTPTR_MAX"
  shows "decode_pldm_platform_state_effecter_pdr_from_iter (a, m) iter v =
    Some (0, iter\<lparr>sei_field := \<lparr>vf_ptr = Some (p + 3 + length bs), vf_length = k\<rparr>,
      sei_current_states := \<lparr>vf_ptr = Some (p + 3), vf_length = length bs\<rparr>\<rparr>,
      \<lparr>ps_state_set_id = i, ps_possible_states_size = of_nat (length bs)\<rparr>)"
proof -
  let ?n = "of_nat (length bs) :: u8"
  let ?bs = "le_of_word i @ le_of_word ?n @ bs @ []"
  let ?ss = "[get (apsnd \<circ> ps_state_set_id_update),
        get_or as_errno (apsnd \<circ> ps_possible_states_size_update),
        span_or as_errno (\<lambda>v. unat (ps_possible_states_size (snd v))) (points_to (apfst \<circ> apsnd) p),
        assign (\<lambda>v. (apfst \<circ> apsnd) (vf_length_update (\<lambda>_. unat (ps_possible_states_size (snd v)))) v)]"
  have n: "unat ?n = length bs" using assms(2) by (simp add: unat_of_nat)
  let ?f = "\<lparr>vf_ptr = Some (p + 3), vf_length = length bs\<rparr>"
  let ?s = "\<lparr>ps_state_set_id = i, ps_possible_states_size = ?n\<rparr>"
  have reads: "reads 0 (steps ?ss) ((sei_field iter, sei_current_states iter), v) ?bs ((sei_field iter, ?f), ?s)"
    by (rule reads_next, simp, rule reads_next, simp, rule reads_next, simp add: n assms(2), rule reads_next,
        rule reads_end, cases v)
      (simp add: points_to_def n assms(2) numeral_3_eq_3)
  have "decode_field 0 (\<lambda>p. ?ss @ [rest_into (apfst \<circ> apfst) p]) (a, m) \<lparr>vf_ptr = Some p, vf_length = length ?bs + k\<rparr>
      ((sei_field iter, sei_current_states iter), v) =
    Some (0, (apfst \<circ> apfst) (\<lambda>_. \<lparr>vf_ptr = Some (p + length ?bs), vf_length = k\<rparr>) ((sei_field iter, ?f), ?s))"
    using assms(3-6) by (intro decode_field_rest [OF reads, where upd = "apfst \<circ> apfst"]) (simp_all add: numeral_3_eq_3)
  then show ?thesis
    using assms(1) by (simp add: decode_pldm_platform_state_effecter_pdr_from_iter_def decode_field_def numeral_3_eq_3)
qed

lemma bytes_at_appendD:
  assumes "bytes_at m c (length xs + length ys) = xs @ ys"
  shows "bytes_at m c (length xs) = xs" "bytes_at m (c + length xs) (length ys) = ys"
proof -
  have "take (length xs) (bytes_at m c (length xs + length ys)) = xs" "drop (length xs) (bytes_at m c (length xs + length ys)) = ys"
    using assms by simp_all
  then show "bytes_at m c (length xs) = xs" "bytes_at m (c + length xs) (length ys) = ys"
    by (simp_all add: bytes_at_def drop_take add.commute)
qed

lemma effecters_loop:
  assumes "sei_field iter = \<lparr>vf_ptr = Some p, vf_length = length (state_bytes ss)\<rparr>"
    and "bytes_at m p (length (state_bytes ss)) = state_bytes ss" "\<forall>(i, bs) \<in> set ss. length bs < 256"
    and "unat (sei_total_count iter) = unat (sei_current_index iter) + length ss"
    and "p + length (state_bytes ss) \<le> length m" "length m \<le> SSIZE_MAX" "a + length m \<le> UINTPTR_MAX"
  shows "foreach_pldm_platform_state_effecter_pdr_possible_states (a, m) iter v = Some (0, ss)"
  using assms
proof (induction ss arbitrary: iter p v)
  case Nil
  then show ?case
    by (subst foreach_pldm_platform_state_effecter_pdr_possible_states.simps)
      (simp add: pldm_platform_state_effecter_pdr_iter_end_def word_le_nat_alt)
next
  case (Cons e ss)
  obtain i bs where e: "e = (i, bs)" by (cases e)
  let ?k = "length (state_bytes ss)"
  let ?it = "iter\<lparr>sei_field := \<lparr>vf_ptr = Some (p + 3 + length bs), vf_length = ?k\<rparr>,
    sei_current_states := \<lparr>vf_ptr = Some (p + 3), vf_length = length bs\<rparr>\<rparr>"
  let ?states = "\<lparr>ps_state_set_id = i, ps_possible_states_size = of_nat (length bs)\<rparr>"
  have small: "length bs < 256" using Cons.prems(3) e by simp
  have len: "length (state_bytes (e # ss)) = 3 + length bs + ?k" using e by simp
  have bytes: "bytes_at m p (length (le_of_word i @ of_nat (length bs) # bs :: u8 list) + ?k) =
      (le_of_word i @ of_nat (length bs) # bs) @ state_bytes ss"
    using Cons.prems(2) len e by (simp add: numeral_3_eq_3)
  note split = bytes_at_appendD [OF bytes]
  have inner: "bytes_at m (p + 3) (length bs) = bs"
    using bytes_at_appendD [of m p "le_of_word i @ [of_nat (length bs) :: u8]" bs] split(1) by (simp add: numeral_3_eq_3)
  have more: "\<not> sei_total_count iter \<le> sei_current_index iter" using Cons.prems(4) by (simp add: word_le_nat_alt)
  have "unat (sei_total_count iter) < 2 ^ LENGTH(8)" by (rule unsigned_less)
  then have idx: "unat (sei_current_index iter + 1) = unat (sei_current_index iter) + 1"
    using Cons.prems(4) by (intro next_unat) simp
  have entry: "decode_pldm_platform_state_effecter_pdr_from_iter (a, m) iter v = Some (0, ?it, ?states)"
    using effecter_from_iter [of iter p bs ?k m i a v] Cons.prems(1,5-7) small len split(1) by (simp add: numeral_3_eq_3)
  have states: "foreach_pldm_platform_state_effecter_pdr_states (a, m)
      (snd (pldm_platform_state_effecter_pdr_possible_states_iter_init (Some ?it))) 0 = Some (0, bs)"
    using Cons.prems(5-7) len inner small
    by (intro states_loop [of _ "p + 3"])
      (simp_all add: pldm_platform_state_effecter_pdr_possible_states_iter_init_def unat_of_nat)
  have rest: "foreach_pldm_platform_state_effecter_pdr_possible_states (a, m)
      (?it\<lparr>sei_current_index := sei_current_index iter + 1\<rparr>) ?states = Some (0, ss)"
    using Cons.prems(3-7) len split(2) idx by (intro Cons.IH [of _ "p + 3 + length bs"]) (simp_all add: numeral_3_eq_3)
  show ?case
    using entry states rest more e
    by (subst foreach_pldm_platform_state_effecter_pdr_possible_states.simps)
      (simp add: pldm_platform_state_effecter_pdr_iter_end_def pldm_platform_state_effecter_pdr_iter_next_def
        pldm_platform_state_effecter_pdr_possible_states_iter_init_def)
qed

lemma skip_states_bytes:
  assumes "\<forall>(i, bs) \<in> set ss. length bs < 256"
  shows "skip_states (pre @ state_bytes ss @ rest) (length pre) (length ss) = Some (length pre + length (state_bytes ss))"
  using assms
proof (induction ss arbitrary: pre)
  case (Cons e ss)
  obtain i bs where e: "e = (i, bs)" by (cases e)
  let ?b = "of_nat (length bs) :: u8"
  have n: "unat ?b = length bs" using Cons.prems e by (simp add: unat_of_nat)
  have "(pre @ state_bytes (e # ss) @ rest) ! (length pre + 2) = ?b"
    by (simp add: e le_of_word_16 nth_append numeral_2_eq_2)
  moreover have "skip_states ((pre @ le_of_word i @ ?b # bs) @ state_bytes ss @ rest) (length (pre @ le_of_word i @ ?b # bs)) (length ss) =
      Some (length (pre @ le_of_word i @ ?b # bs) + length (state_bytes ss))"
    using Cons.prems by (intro Cons.IH) simp
  ultimately show ?case by (simp add: e n numeral_3_eq_3)
qed simp

text \<open>
  C29. The possible states of a state effecter survive the PDR. For any list of state sets with at most 255
  bytes each, the encoder accepts the caller's object when it has room, and writes version, type and length into the
  header and the states behind the fixed part; the iterators over the encoded PDR then give back exactly the
  state sets with their bytes, in order, and end without an error.
\<close>

theorem state_effecter_pdr_roundtrip:
  assumes "ss \<noteq> []" "\<forall>(i, bs) \<in> set ss. length bs < 256" "length ss < 256" "pdr ! 24 = of_nat (length ss)"
    and "n = 25 + length (state_bytes ss)" "n \<le> allocation" "allocation \<le> length pdr"
    and "length pdr \<le> SSIZE_MAX" "a + length pdr \<le> UINTPTR_MAX"
  shows "\<exists>out iter. encode_state_effecter_pdr (Some pdr) allocation (Some (state_bytes ss)) (length (state_bytes ss)) (Some x) =
      Some (PLDM_SUCCESS, Some out, Some n) \<and>
    bytes_at out 4 2 = [1, 11] \<and> bytes_at out 8 2 = le_of_word (of_nat (n - 10) :: u16) \<and> length out = length pdr \<and>
    pldm_platform_state_effecter_pdr_iter_init (Some (a, out)) n = Some (0, iter) \<and>
    foreach_pldm_platform_state_effecter_pdr_possible_states (a, out) iter v = Some (0, ss)"
proof -
  let ?bs = "state_bytes ss" and ?len = "le_of_word (of_nat (n - 10) :: u16)"
  let ?out = "poke (poke (poke pdr 4 [1, 11]) 8 ?len) 25 ?bs"
  let ?iter = "\<lparr>sei_field = \<lparr>vf_ptr = Some 25, vf_length = length ?bs\<rparr>, sei_current_states = null_field,
    sei_total_count = of_nat (length ss), sei_current_index = 0\<rparr>"
  have room: "25 + length ?bs \<le> length pdr" using assms(5-7) by simp
  have count: "unat (of_nat (length ss) :: u8) = length ss" using assms(3) by (simp add: unat_of_nat)
  have some: "?bs \<noteq> []" using assms(1) by (cases ss) auto
  have len: "length ?out = length pdr" using room by simp
  have skip: "skip_states ?bs 0 (length ss) = Some (length ?bs)" using skip_states_bytes [OF assms(2), of "[]" "[]"] by simp
  have same: "?out ! 24 = pdr ! 24" using room by (simp add: poke_def nth_append)
  have enc: "encode_state_effecter_pdr (Some pdr) allocation (Some ?bs) (length ?bs) (Some x) = Some (PLDM_SUCCESS, Some ?out, Some n)"
    using assms room skip count by (simp add: encode_state_effecter_pdr_def encode_state_pdr_def)
  moreover have "pldm_platform_state_effecter_pdr_iter_init (Some (a, ?out)) n = Some (0, ?iter)"
    using room some len assms(4,5) same by (simp add: pldm_platform_state_effecter_pdr_iter_init_def Let_def)
  moreover have "foreach_pldm_platform_state_effecter_pdr_possible_states (a, ?out) ?iter v = Some (0, ss)"
    using assms(2,8,9) room count by (intro effecters_loop [of _ 25]) (simp_all add: bytes_at_poke)
  moreover have "bytes_at ?out 4 2 = [1, 11]" "bytes_at ?out 8 2 = ?len"
    using room by (simp_all add: poke_def bytes_at_def)
  moreover note len
  ultimately show ?thesis by blast
qed

theorem state_effecter_pdr_roundtrip_witness:
  "\<exists>out iter. encode_state_effecter_pdr (Some (replicate 24 0 @ 2 # replicate 15 0)) 40
      (Some [1, 0, 1, 6, 2, 0, 2, 128, 1]) 9 (Some 0) = Some (PLDM_SUCCESS, Some out, Some 34) \<and>
    pldm_platform_state_effecter_pdr_iter_init (Some (64, out)) 34 = Some (0, iter) \<and>
    foreach_pldm_platform_state_effecter_pdr_possible_states (64, out) iter
      \<lparr>ps_state_set_id = 0, ps_possible_states_size = 0\<rparr> = Some (0, [(1, [6]), (2, [128, 1])])"
proof -
  have bytes: "state_bytes [(1, [6]), (2, [128, 1])] = [1, 0, 1, 6, 2, 0, 2, 128, 1]"
    by (simp add: state_bytes_def le_of_word_16)
  have nine: "length [1, 0, 1, 6, 2, 0, 2, 128, 1 :: u8] = 9" by simp
  show ?thesis
    using state_effecter_pdr_roundtrip [of "[(1, [6]), (2, [128, 1])]" "replicate 24 0 @ 2 # replicate 15 0" 34 40 64 0
        "\<lparr>ps_state_set_id = 0, ps_possible_states_size = 0\<rparr>"] unfolding bytes nine
    by (auto simp: nth_append)
qed

section \<open>File descriptors\<close>

definition pdr_hdr_bytes :: "pldm_value_pdr_hdr \<Rightarrow> u8 list" where
  "pdr_hdr_bytes h = concat [le_of_word (vh_record_handle h), le_of_word (vh_version h), le_of_word (vh_type h),
     le_of_word (vh_record_change_num h), le_of_word (vh_length h)]"

lemma reads_get_hdr:
  assumes "lower \<le> unat (vh_length h) + SIZEOF_MSGBUF" "unat (vh_length h) \<le> upper"
  shows "reads c (get_hdr True x lower upper hdr upd) v (pdr_hdr_bytes h) (upd (\<lambda>_. h) v)"
  unfolding reads_def
proof (intro allI impI)
  fix a m r
  assume *: "c + length (pdr_hdr_bytes h) \<le> length m" "bytes_at m c (length (pdr_hdr_bytes h)) = pdr_hdr_bytes h"
    "int (length (pdr_hdr_bytes h)) \<le> r" "r \<le> INTMAX_MAX"
  have ten: "length (pdr_hdr_bytes h) = 10" by (simp add: pdr_hdr_bytes_def)
  have at: "bytes_at m (c + i) n = take n (drop i (pdr_hdr_bytes h))" if "i + n \<le> 10" for i n
    using *(2) [unfolded ten, symmetric] that by (simp add: bytes_at_def drop_take add.commute min_def)
  show "get_hdr True x lower upper hdr upd v (live_mb a m c r) =
    (Go, upd (\<lambda>_. h) v, live_mb a m (c + length (pdr_hdr_bytes h)) (r - int (length (pdr_hdr_bytes h))))"
    using * assms at [of 0 4] at [of 4 1] at [of 5 1] at [of 6 2] at [of 8 2] unfolding ten
    by (cases h, cases "hdr v") (simp add: get_hdr_def pldm_msgbuf_extract_value_pdr_hdr_def extract_by_width msgbuf_extract_live
      pdr_hdr_bytes_def Let_def add.commute [of _ c])
qed

text \<open>The bytes of a PDR with its two names.\<close>

definition file_descriptor_bytes :: "file_descriptor_pdr \<times> u8 list \<times> u8 list \<Rightarrow> u8 list" where
  "file_descriptor_bytes = (\<lambda>(p, name, oem). concat
     [pdr_hdr_bytes (fdp_hdr p), le_of_word (fdp_terminus_handle p), le_of_word (fdp_file_identifier p),
      le_of_word (fdp_entity_type p), le_of_word (fdp_entity_instance_num p), le_of_word (fdp_entity_container_id p),
      le_of_word (fdp_superior_directory_file_identifier p), le_of_word (fdp_file_classification p),
      le_of_word (fdp_oem_file_classification p), le_of_word (fdp_file_capabilities p),
      le_of_word (fdp_version_alpha p), le_of_word (fdp_version_update p), le_of_word (fdp_version_minor p),
      le_of_word (fdp_version_major p), le_of_word (fdp_file_maximum_size p),
      le_of_word (fdp_file_maximum_file_descriptor_count p), le_of_word (of_nat (length name) :: u8), name,
      if fdp_oem_file_classification p = 0 then [] else le_of_word (of_nat (length oem) :: u8) @ oem])"

definition file_descriptor_out :: "file_descriptor_pdr \<times> u8 list \<times> u8 list \<Rightarrow> file_descriptor_pdr \<Rightarrow> file_descriptor_pdr" where
  "file_descriptor_out = (\<lambda>(p, name, oem) v.
     p\<lparr>fdp_file_name := \<lparr>vf_ptr = Some 36, vf_length = length name\<rparr>,
       fdp_oem_file_classification_name :=
         if fdp_oem_file_classification p = 0 then (fdp_oem_file_classification_name v)\<lparr>vf_length := 0\<rparr>
         else \<lparr>vf_ptr = Some (37 + length name), vf_length = length oem\<rparr>\<rparr>)"

lemma unat_size8: "n < 256 \<Longrightarrow> unat (of_nat n :: u8) = n"
  by (simp add: unat_of_nat)

lemma reads_oem_name:
  assumes "length oem < 256" "fdp_oem_file_classification v \<noteq> 0"
  shows "reads c (only (\<lambda>v. fdp_oem_file_classification v \<noteq> 0)
      [get_size8 fdp_oem_file_classification_name_update,
       span_field fdp_oem_file_classification_name fdp_oem_file_classification_name_update 0]) v
    (le_of_word (of_nat (length oem) :: u8) @ oem)
    (v\<lparr>fdp_oem_file_classification_name := \<lparr>vf_ptr = Some (c + 1), vf_length = length oem\<rparr>\<rparr>)"
proof -
  have "reads c (steps [get_size8 fdp_oem_file_classification_name_update,
       span_field fdp_oem_file_classification_name fdp_oem_file_classification_name_update 0]) v
      (le_of_word (of_nat (length oem) :: u8) @ oem @ [])
      (v\<lparr>fdp_oem_file_classification_name := \<lparr>vf_ptr = Some (c + 1), vf_length = length oem\<rparr>\<rparr>)"
    by (rule reads_next, simp, rule reads_next, simp add: to_size_def unat_size8 assms(1), rule reads_end)
      (simp add: to_size_def points_to_def unat_size8 assms(1))
  then show ?thesis using assms(2) by (simp add: reads_only(1))
qed

interpretation file_descriptor_format: wire_format "file_descriptor_steps len" file_descriptor_bytes file_descriptor_out
  "\<lambda>(p, name, oem) v. 20 \<le> unat (vh_length (fdp_hdr p)) \<and> unat (vh_length (fdp_hdr p)) \<le> len \<and>
     length name < 256 \<and> length oem < 256"
  for len
proof
  fix w :: "file_descriptor_pdr \<times> u8 list \<times> u8 list" and v :: file_descriptor_pdr
  obtain p name oem where w: "w = (p, name, oem)" by (cases w)
  assume "(case w of (p, name, oem) \<Rightarrow> \<lambda>v. 20 \<le> unat (vh_length (fdp_hdr p)) \<and> unat (vh_length (fdp_hdr p)) \<le> len \<and>
     length name < 256 \<and> length oem < 256) v"
  then have ok: "20 \<le> unat (vh_length (fdp_hdr p))" "unat (vh_length (fdp_hdr p)) \<le> len" "length name < 256" "length oem < 256"
    by (simp_all add: w)
  have oem: "reads c (only (\<lambda>v. fdp_oem_file_classification v \<noteq> 0)
        [get_size8 fdp_oem_file_classification_name_update,
         span_field fdp_oem_file_classification_name fdp_oem_file_classification_name_update 0]) u
      (if fdp_oem_file_classification p = 0 then [] else le_of_word (of_nat (length oem) :: u8) @ oem)
      (if fdp_oem_file_classification p = 0 then u
       else u\<lparr>fdp_oem_file_classification_name := \<lparr>vf_ptr = Some (c + 1), vf_length = length oem\<rparr>\<rparr>)"
    if "fdp_oem_file_classification u = fdp_oem_file_classification p" for c u
    using that reads_oem_name [OF ok(4), of u c] by (simp add: reads_only(2) del: le_of_word_8)
  show "reads 0 (steps (file_descriptor_steps len)) v (file_descriptor_bytes w) (file_descriptor_out w v)"
    unfolding file_descriptor_bytes_def w prod.case concat.simps
    by (rule reads_Cons [OF reads_get_hdr], use ok in simp, use ok in simp, (rule reads_next, (simp; fail))+,
        rule reads_next, simp add: to_size_def unat_size8 ok(3), rule reads_next, rule reads_Cons [OF oem],
        simp add: to_size_def points_to_def, rule reads_end)
      (cases p, cases v, simp add: file_descriptor_out_def to_size_def points_to_def unat_size8 ok(3) pdr_hdr_bytes_def)
qed

lemma length_file_descriptor_bytes:
  "length (file_descriptor_bytes (p, name, oem)) =
     36 + length name + (if fdp_oem_file_classification p = 0 then 0 else length oem + 1)"
  by (simp add: file_descriptor_bytes_def pdr_hdr_bytes_def)

lemmas writes_next = writes_Cons [OF writes_put] writes_Cons [OF writes_put_array_or]

lemma writes_oem_name:
  assumes "vf_length (fdp_oem_file_classification_name p) = length oem"
    and "if fdp_oem_file_classification p = 0 then length oem \<le> 1 else 1 < length oem"
  shows "writes (only (\<lambda>v. vf_length (fdp_oem_file_classification_name v) > 1)
      [put (\<lambda>v. of_nat (vf_length (fdp_oem_file_classification_name v)) :: u8),
       put_array_or as_errno (\<lambda>v. vf_length (fdp_oem_file_classification_name v)) (\<lambda>_. oem)]) p
    (if fdp_oem_file_classification p = 0 then [] else le_of_word (of_nat (length oem) :: u8) @ oem)"
proof -
  have "writes (steps [put (\<lambda>v. of_nat (vf_length (fdp_oem_file_classification_name v)) :: u8),
       put_array_or as_errno (\<lambda>v. vf_length (fdp_oem_file_classification_name v)) (\<lambda>_. oem)]) p
    (le_of_word (of_nat (vf_length (fdp_oem_file_classification_name p)) :: u8) @
     take (vf_length (fdp_oem_file_classification_name p)) oem @ [])"
    by (rule writes_next, simp, rule writes_next, simp add: assms(1), rule writes_Nil)
  then show ?thesis using assms by (auto simp: writes_only split: if_splits)
qed

lemma writes_file_descriptor:
  assumes "vf_length (fdp_file_name p) = length name" "vf_length (fdp_oem_file_classification_name p) = length oem"
    and "if fdp_oem_file_classification p = 0 then length oem \<le> 1 else 1 < length oem"
  shows "writes (steps (file_descriptor_puts name oem)) p (file_descriptor_bytes (p, name, oem))"
proof -
  let ?le = "\<lambda>f. le_of_word (f p)"
  have "writes (steps (file_descriptor_puts name oem)) p
    (?le (vh_record_handle \<circ> fdp_hdr) @ ?le (vh_version \<circ> fdp_hdr) @ ?le (vh_type \<circ> fdp_hdr) @
     ?le (vh_record_change_num \<circ> fdp_hdr) @ ?le (vh_length \<circ> fdp_hdr) @ le_of_word (fdp_terminus_handle p) @
     le_of_word (fdp_file_identifier p) @ le_of_word (fdp_entity_type p) @ le_of_word (fdp_entity_instance_num p) @
     le_of_word (fdp_entity_container_id p) @ le_of_word (fdp_superior_directory_file_identifier p) @
     le_of_word (fdp_file_classification p) @ le_of_word (fdp_oem_file_classification p) @
     le_of_word (fdp_file_capabilities p) @
     take 4 [fdp_version_alpha p, fdp_version_update p, fdp_version_minor p, fdp_version_major p] @
     le_of_word (fdp_file_maximum_size p) @ le_of_word (fdp_file_maximum_file_descriptor_count p) @
     le_of_word (of_nat (vf_length (fdp_file_name p)) :: u8) @ take (vf_length (fdp_file_name p)) name @
     (if fdp_oem_file_classification p = 0 then [] else le_of_word (of_nat (length oem) :: u8) @ oem) @ [])"
    by ((rule writes_next, (simp add: assms(1); fail))+, rule writes_Cons [OF writes_oem_name [OF assms(2,3)]], rule writes_Nil)
  then show ?thesis using assms(1) by (simp add: file_descriptor_bytes_def pdr_hdr_bytes_def)
qed

text \<open>
  A file descriptor PDR survives the wire. When the length in its header is right, its name has 2 to 255
  bytes and an OEM name of 2 to 255 bytes is present exactly when there is an OEM classification, the encoder fills the data and reports
  the length of the PDR; decoding gives back every field, and the two names as pointers to their bytes in the data.
\<close>

theorem file_descriptor_pdr_roundtrip:
  assumes "vf_length (fdp_file_name p) = length name" "1 < length name" "length name < 256"
    and "vf_length (fdp_oem_file_classification_name p) = length oem" "length oem < 256"
    and "if fdp_oem_file_classification p = 0 then length oem \<le> 1 else 1 < length oem"
    and "n = 36 + length name + (if fdp_oem_file_classification p = 0 then 0 else length oem + 1)"
    and "unat (vh_length (fdp_hdr p)) = n - 10"
    and "n \<le> len" "len \<le> length m" "length m \<le> SSIZE_MAX" "a + length m \<le> UINTPTR_MAX"
  shows "\<exists>m' v'. encode_pldm_platform_file_descriptor_pdr (Some p) (Some name) (Some oem) (Some (a, m)) len =
      Some (0, Some (a, m'), n) \<and>
    decode_pldm_platform_file_descriptor_pdr (Some (a, m')) n (Some v) = Some (0, Some v') \<and>
    v' = p\<lparr>fdp_file_name := fdp_file_name v', fdp_oem_file_classification_name := fdp_oem_file_classification_name v'\<rparr> \<and>
    (\<exists>i. fdp_file_name v' = \<lparr>vf_ptr = Some i, vf_length = length name\<rparr> \<and> bytes_at m' i (length name) = name) \<and>
    (if fdp_oem_file_classification p = 0 then vf_length (fdp_oem_file_classification_name v') = 0
     else \<exists>i. fdp_oem_file_classification_name v' = \<lparr>vf_ptr = Some i, vf_length = length oem\<rparr> \<and>
            bytes_at m' i (length oem) = oem)"
proof -
  let ?w = "(p, name, oem)"
  let ?bs = "file_descriptor_bytes ?w"
  have n: "length ?bs = n" using assms(7) by (simp add: length_file_descriptor_bytes)
  have enc: "encode_pldm_platform_file_descriptor_pdr (Some p) (Some name) (Some oem) (Some (a, m)) len =
      Some (0, Some (a, poke m 0 ?bs), n)"
    using assms n on_buffer_used_writes [OF writes_file_descriptor [OF assms(1,4,6)], of len m n a]
    by (auto simp: encode_pldm_platform_file_descriptor_pdr_def Let_def split: if_splits)
  let ?v = "file_descriptor_out ?w v"
  have "decode_bytes as_errno 36 (file_descriptor_steps n) pldm_msgbuf_complete_consumed n (a, poke m 0 ?bs) v = Some (0, ?v)"
    using file_descriptor_format.decode_bytes_enc [where w = ?w and len = n and v = v and minsize = 36
      and a = a and fin = pldm_msgbuf_complete_consumed and x = as_errno and rest = "drop n m"] assms n
    by (simp add: poke_def)
  then have dec: "decode_pldm_platform_file_descriptor_pdr (Some (a, poke m 0 ?bs)) n (Some v) = Some (0, Some ?v)"
    by (simp add: decode_pldm_platform_file_descriptor_pdr_def if_set_def)
  have one: "length name + (Suc 0 - length name) - (length name - Suc 0) = Suc 0" using assms(2) by simp
  have names: "bytes_at (poke m 0 ?bs) 36 (length name) = name"
      "fdp_oem_file_classification p \<noteq> 0 \<Longrightarrow> bytes_at (poke m 0 ?bs) (37 + length name) (length oem) = oem"
    using n assms(7,9,10) by (simp_all add: bytes_at_poke) (simp_all add: file_descriptor_bytes_def pdr_hdr_bytes_def drop_numeral_add one)
  have out: "?v = p\<lparr>fdp_file_name := fdp_file_name ?v, fdp_oem_file_classification_name := fdp_oem_file_classification_name ?v\<rparr>"
      "fdp_file_name ?v = \<lparr>vf_ptr = Some 36, vf_length = length name\<rparr>"
      "fdp_oem_file_classification p = 0 \<Longrightarrow> vf_length (fdp_oem_file_classification_name ?v) = 0"
      "fdp_oem_file_classification p \<noteq> 0 \<Longrightarrow>
        fdp_oem_file_classification_name ?v = \<lparr>vf_ptr = Some (37 + length name), vf_length = length oem\<rparr>"
    by (simp_all add: file_descriptor_out_def)
  show ?thesis
    by (rule exI [of _ "poke m 0 ?bs"], rule exI [of _ ?v], intro conjI enc dec out(1))
      (use out(2-4) names in auto)
qed

theorem file_descriptor_pdr_roundtrip_witness:
  "\<exists>p m' v'. fdp_file_identifier p = 3 \<and>
    encode_pldm_platform_file_descriptor_pdr (Some p) (Some [0x61, 0]) (Some []) (Some (64, replicate 50 0)) 50 =
      Some (0, Some (64, m'), 38) \<and>
    decode_pldm_platform_file_descriptor_pdr (Some (64, m')) 38 (Some p) = Some (0, Some v') \<and>
    (\<exists>i. fdp_file_name v' = \<lparr>vf_ptr = Some i, vf_length = 2\<rparr> \<and> bytes_at m' i 2 = [0x61, 0])"
proof -
  let ?h = "\<lparr>vh_record_handle = 1, vh_version = 1, vh_type = 30, vh_record_change_num = 0, vh_length = 28\<rparr>"
  let ?p = "\<lparr>fdp_hdr = ?h, fdp_terminus_handle = 1, fdp_file_identifier = 3, fdp_entity_type = 135,
    fdp_entity_instance_num = 1, fdp_entity_container_id = 2, fdp_superior_directory_file_identifier = 0,
    fdp_file_classification = 2, fdp_oem_file_classification = 0, fdp_file_capabilities = 5, fdp_version_alpha = 0,
    fdp_version_update = 0, fdp_version_minor = 1, fdp_version_major = 1, fdp_file_maximum_size = 4096,
    fdp_file_maximum_file_descriptor_count = 1, fdp_file_name = \<lparr>vf_ptr = None, vf_length = 2\<rparr>,
    fdp_oem_file_classification_name = null_field\<rparr>"
  have two: "length [0x61, 0 :: u8] = 2" by simp
  show ?thesis
    using file_descriptor_pdr_roundtrip [of ?p "[0x61, 0]" "[]" 38 50 "replicate 50 0" 64 ?p, unfolded two]
    by (intro exI [of _ ?p]) auto
qed

end
