(* ===== verification/Struct_Access.thy ===== *)
theory Struct_Access
  imports Msgbuf_Steps
begin

text \<open>
  Codecs without a msgbuf: structures laid over the payload of a message or over the bytes of a table. An
  object is its address and its bytes; an access outside of it is undefined. \<open>usub\<close> is the difference of two
  \<open>uintptr_t\<close> or \<open>size_t\<close> values.
\<close>

type_synonym object = "nat \<times> u8 list"

abbreviation (input) past :: "object \<Rightarrow> nat" where
  "past obj \<equiv> fst obj + length (snd obj)"

definition load :: "object \<Rightarrow> nat \<Rightarrow> nat \<Rightarrow> u8 list option" where
  "load obj p n =
     (if fst obj \<le> p \<and> p + n \<le> past obj then Some (bytes_at (snd obj) (p - fst obj) n) else None)"

definition store :: "object \<Rightarrow> nat \<Rightarrow> u8 list \<Rightarrow> object option" where
  "store obj p bs =
     (if fst obj \<le> p \<and> p + length bs \<le> past obj then Some (fst obj, poke (snd obj) (p - fst obj) bs) else None)"

definition load_word :: "object \<Rightarrow> nat \<Rightarrow> 'a::len word option" where
  "load_word obj p = map_option word_of_le (load obj p (LENGTH('a) div 8))"

definition usub :: "nat \<Rightarrow> nat \<Rightarrow> nat" where
  "usub x y = (x + 2 ^ 64 - y) mod 2 ^ 64"

text \<open>A field of the structure over a payload.\<close>

definition get_word :: "nat \<Rightarrow> pldm_msg \<Rightarrow> 'a::len word option" where
  "get_word off msg = map_option word_of_le (get_bytes off (LENGTH('a) div 8) msg)"

text \<open>The bytes an object promises to have, inside the address space.\<close>

definition obj_ok :: "nat \<Rightarrow> object \<Rightarrow> bool" where
  "obj_ok n obj \<longleftrightarrow> n \<le> length (snd obj) \<and> past obj \<le> UINTPTR_MAX"

section \<open>Laws\<close>

lemma usub_small:
  assumes "y \<le> x" "x \<le> UINTPTR_MAX"
  shows "usub x y = x - y"
proof -
  have "x + 2 ^ 64 - y = x - y + 2 ^ 64" by (rule diff_add_assoc2 [OF assms(1)])
  moreover have "x - y < 2 ^ 64" using assms(2) by simp
  ultimately show ?thesis unfolding usub_def by (simp only: mod_add_self2 mod_less)
qed

lemma load_ok:
  "fst obj \<le> p \<Longrightarrow> p + n \<le> past obj \<Longrightarrow> load obj p n = Some (bytes_at (snd obj) (p - fst obj) n)"
  by (simp add: load_def)

lemma load_word_ok:
  "fst obj \<le> p \<Longrightarrow> p + LENGTH('a) div 8 \<le> past obj \<Longrightarrow>
     load_word obj p = Some (word_of_le (bytes_at (snd obj) (p - fst obj) (LENGTH('a) div 8)) :: 'a::len word)"
  by (simp add: load_word_def load_ok)

lemma store_ok:
  "fst obj \<le> p \<Longrightarrow> p + length bs \<le> past obj \<Longrightarrow> store obj p bs = Some (fst obj, poke (snd obj) (p - fst obj) bs)"
  by (simp add: store_def)

lemma get_word_ok:
  "off + LENGTH('a) div 8 \<le> length (m_payload msg) \<Longrightarrow>
     get_word off msg = Some (word_of_le (bytes_at (m_payload msg) off (LENGTH('a) div 8)) :: 'a::len word)"
  by (simp add: get_word_def get_bytes_def)

lemma defined_get_word [codec_safe]:
  "off + LENGTH('a) div 8 \<le> length (m_payload msg) \<Longrightarrow> defined (get_word off msg :: 'a::len word option)"
  by (simp add: get_word_ok defined_def)

text \<open>A word that was written at an offset is read there.\<close>

lemma get_word_written:
  assumes "take (off + LENGTH('a) div 8) (m_payload msg) = pre @ le_of_word (w :: 'a::len word)"
    and "length pre = off" "8 dvd LENGTH('a)"
  shows "get_word off msg = Some w"
proof -
  have len: "off + LENGTH('a) div 8 \<le> length (m_payload msg)"
    using arg_cong [OF assms(1), of length] assms(2) by (simp add: min_def split: if_splits)
  have "bytes_at (m_payload msg) off (LENGTH('a) div 8) = drop off (take (off + LENGTH('a) div 8) (m_payload msg))"
    by (simp add: bytes_at_def drop_take)
  also have "\<dots> = le_of_word w" using assms(1,2) by simp
  finally show ?thesis using len assms(3) by (simp add: get_word_ok)
qed

lemma get_word_poked:
  assumes "off + LENGTH('a) div 8 \<le> length bs" "length bs \<le> length m"
  shows "get_word off (msg\<lparr>m_payload := poke m 0 bs\<rparr>) = Some (word_of_le (take (LENGTH('a) div 8) (drop off bs)) :: 'a::len word)"
  using assms by (subst get_word_ok) (simp_all add: bytes_at_poke)

lemma with_header_cc_ok:
  assumes "instance_id \<le> PLDM_INSTANCE_MAX" "mt \<in> {PLDM_RESPONSE, PLDM_REQUEST, PLDM_ASYNC_REQUEST_NOTIFY}" "ty \<le> PLDM_MAX_TYPES - 1"
  shows "with_header_cc mt instance_id ty cmd f msg = f (msg\<lparr>m_hdr := wire_hdr mt instance_id ty cmd\<rparr>)"
  using assms by (simp add: with_header_cc_def mb_simps)

text \<open>Bytes of an object found behind a prefix.\<close>

lemma load_behind:
  assumes "snd obj = pre @ bs @ post" "p = fst obj + length pre" "n = length bs"
  shows "load obj p n = Some bs"
  using assms by (simp add: load_def)

lemma load_word_behind:
  assumes "snd obj = pre @ le_of_word w @ post" "p = fst obj + length pre" "8 dvd LENGTH('a)"
  shows "load_word obj p = Some (w :: 'a::len word)"
  using assms load_behind [of obj pre "le_of_word w" post p] by (simp add: load_word_def)

end
