(* ===== verification/Fru.thy ===== *)
theory Fru
  imports Struct_Access
begin

text \<open>
  FRU data, \<^verbatim>\<open>src/dsp/fru.c\<close>: the messages of the type, building a FRU record table and looking up
  records of a table by record set, record type and field type. Addresses are compared as numbers, as the
  code does; a read outside of the table or a write outside of the result object is undefined.
\<close>

abbreviation (input) PLDM_FRU :: u8 where "PLDM_FRU \<equiv> 0x04"
abbreviation (input) PLDM_GET_FRU_RECORD_TABLE_METADATA :: u8 where "PLDM_GET_FRU_RECORD_TABLE_METADATA \<equiv> 0x01"
abbreviation (input) PLDM_GET_FRU_RECORD_TABLE :: u8 where "PLDM_GET_FRU_RECORD_TABLE \<equiv> 0x02"
abbreviation (input) PLDM_SET_FRU_RECORD_TABLE :: u8 where "PLDM_SET_FRU_RECORD_TABLE \<equiv> 0x03"
abbreviation (input) PLDM_GET_FRU_RECORD_BY_OPTION :: u8 where "PLDM_GET_FRU_RECORD_BY_OPTION \<equiv> 0x04"

abbreviation (input) "fru_resp inst cmd \<equiv> with_header_cc PLDM_RESPONSE inst PLDM_FRU cmd"
abbreviation (input) "fru_req inst cmd \<equiv> with_header_cc PLDM_REQUEST inst PLDM_FRU cmd"

section \<open>GetFRURecordTableMetadata\<close>

definition encode_get_fru_record_table_metadata_req ::
    "u8 \<Rightarrow> pldm_msg option \<Rightarrow> nat \<Rightarrow> (int \<times> pldm_msg option) option" where
  "encode_get_fru_record_table_metadata_req instance_id msg payload_length =
     if_msg PLDM_ERROR_INVALID_DATA msg (\<lambda>m.
       if payload_length \<noteq> 0 then Some (PLDM_ERROR_INVALID_LENGTH, m)
       else fru_req instance_id PLDM_GET_FRU_RECORD_TABLE_METADATA (\<lambda>m. Some (PLDM_SUCCESS, m)) m)"

record fru_metadata =
  fm_completion_code :: u8
  fm_major_version :: u8
  fm_minor_version :: u8
  fm_table_maximum_size :: u32
  fm_table_length :: u32
  fm_total_record_set_identifiers :: u16
  fm_total_table_records :: u16
  fm_checksum :: u32

definition decode_get_fru_record_table_metadata_resp ::
    "pldm_msg option \<Rightarrow> nat \<Rightarrow> fru_metadata option \<Rightarrow> (int \<times> fru_metadata option) option" where
  "decode_get_fru_record_table_metadata_resp msg payload_length out =
     if_set PLDM_ERROR_INVALID_DATA msg out (\<lambda>m v. do {
       cc \<leftarrow> get_word 0 m;
       let v = v\<lparr>fm_completion_code := cc\<rparr>;
       if cc \<noteq> PLDM_SUCCESS then Some (PLDM_SUCCESS, v)
       else if payload_length \<noteq> 19 then Some (PLDM_ERROR_INVALID_LENGTH, v)
       else do {
         major \<leftarrow> get_word 1 m;
         minor \<leftarrow> get_word 2 m;
         maximum_size \<leftarrow> get_word 3 m;
         len \<leftarrow> get_word 7 m;
         sets \<leftarrow> get_word 11 m;
         records \<leftarrow> get_word 13 m;
         checksum \<leftarrow> get_word 15 m;
         Some (PLDM_SUCCESS, v\<lparr>fm_major_version := major, fm_minor_version := minor,
           fm_table_maximum_size := maximum_size, fm_table_length := len, fm_total_record_set_identifiers := sets,
           fm_total_table_records := records, fm_checksum := checksum\<rparr>) } })"

definition encode_get_fru_record_table_metadata_resp ::
    "u8 \<Rightarrow> u8 \<Rightarrow> u8 \<Rightarrow> u8 \<Rightarrow> u32 \<Rightarrow> u32 \<Rightarrow> u16 \<Rightarrow> u16 \<Rightarrow> u32 \<Rightarrow> pldm_msg option \<Rightarrow>
      (int \<times> pldm_msg option) option" where
  "encode_get_fru_record_table_metadata_resp instance_id completion_code fru_data_major_version
     fru_data_minor_version fru_table_maximum_size fru_table_length total_record_set_identifiers
     total_table_records checksum msg =
     if_msg PLDM_ERROR_INVALID_DATA msg (fru_resp instance_id PLDM_GET_FRU_RECORD_TABLE_METADATA (\<lambda>m. do {
       m \<leftarrow> put_bytes 0 [completion_code] m;
       if completion_code = PLDM_SUCCESS
       then do {
         m \<leftarrow> put_bytes 1 ([fru_data_major_version] @ [fru_data_minor_version] @ le_of_word fru_table_maximum_size @
                le_of_word fru_table_length @ le_of_word total_record_set_identifiers @
                le_of_word total_table_records @ le_of_word checksum) m;
         Some (PLDM_SUCCESS, m) }
       else Some (PLDM_SUCCESS, m) }))"

section \<open>GetFRURecordTable\<close>

definition decode_get_fru_record_table_req ::
    "pldm_msg option \<Rightarrow> nat \<Rightarrow> (u32 \<times> u8) option \<Rightarrow> (int \<times> (u32 \<times> u8) option) option" where
  "decode_get_fru_record_table_req msg payload_length out =
     if_set PLDM_ERROR_INVALID_DATA msg out (\<lambda>m v.
       if payload_length \<noteq> 5 then Some (PLDM_ERROR_INVALID_LENGTH, v)
       else do {
         data_transfer_handle \<leftarrow> get_word 0 m;
         transfer_operation_flag \<leftarrow> get_word 4 m;
         Some (PLDM_SUCCESS, (data_transfer_handle, transfer_operation_flag)) })"

definition encode_get_fru_record_table_resp ::
    "u8 \<Rightarrow> u8 \<Rightarrow> u32 \<Rightarrow> u8 \<Rightarrow> pldm_msg option \<Rightarrow> (int \<times> pldm_msg option) option" where
  "encode_get_fru_record_table_resp instance_id completion_code next_data_transfer_handle transfer_flag msg =
     if_msg PLDM_ERROR_INVALID_DATA msg (fru_resp instance_id PLDM_GET_FRU_RECORD_TABLE (\<lambda>m. do {
       m \<leftarrow> put_bytes 0 [completion_code] m;
       if completion_code = PLDM_SUCCESS
       then do { m \<leftarrow> put_bytes 1 (le_of_word next_data_transfer_handle @ [transfer_flag]) m; Some (PLDM_SUCCESS, m) }
       else Some (PLDM_SUCCESS, m) }))"

definition encode_get_fru_record_table_req ::
    "u8 \<Rightarrow> u32 \<Rightarrow> u8 \<Rightarrow> pldm_msg option \<Rightarrow> nat \<Rightarrow> (int \<times> pldm_msg option) option" where
  "encode_get_fru_record_table_req instance_id data_transfer_handle transfer_operation_flag msg payload_length =
     if_msg PLDM_ERROR_INVALID_DATA msg (\<lambda>m.
       if payload_length \<noteq> 5 then Some (PLDM_ERROR_INVALID_LENGTH, m)
       else fru_req instance_id PLDM_GET_FRU_RECORD_TABLE
         (fill (le_of_word data_transfer_handle @ [transfer_operation_flag])) m)"

text \<open>The table data goes to the caller's array, which is larger than it may be told to be.\<close>

record fru_table_part =
  ft_completion_code :: u8
  ft_next_data_transfer_handle :: u32
  ft_transfer_flag :: u8
  ft_data :: "u8 list"
  ft_length :: nat

definition decode_get_fru_record_table_resp_safe ::
    "pldm_msg option \<Rightarrow> nat \<Rightarrow> fru_table_part option \<Rightarrow> nat \<Rightarrow> (int \<times> fru_table_part option) option" where
  "decode_get_fru_record_table_resp_safe msg payload_length out max_fru_record_table_length =
     if_set PLDM_ERROR_INVALID_DATA msg out (\<lambda>m v. do {
       cc \<leftarrow> get_word 0 m;
       let v = v\<lparr>ft_completion_code := cc\<rparr>;
       if cc \<noteq> PLDM_SUCCESS then Some (PLDM_SUCCESS, v)
       else if payload_length \<le> 6 then Some (PLDM_ERROR_INVALID_LENGTH, v)
       else do {
         next_handle \<leftarrow> get_word 1 m;
         flag \<leftarrow> get_word 5 m;
         let v = v\<lparr>ft_next_data_transfer_handle := next_handle, ft_transfer_flag := flag,
           ft_length := payload_length - 6\<rparr>;
         if ft_length v > max_fru_record_table_length then Some (PLDM_ERROR_INVALID_LENGTH, v)
         else if length (ft_data v) < ft_length v then None
         else do {
           bs \<leftarrow> get_bytes 6 (ft_length v) m;
           Some (PLDM_SUCCESS, v\<lparr>ft_data := poke (ft_data v) 0 bs\<rparr>) } } })"

definition decode_get_fru_record_table_resp ::
    "pldm_msg option \<Rightarrow> nat \<Rightarrow> fru_table_part option \<Rightarrow> (int \<times> fru_table_part option) option" where
  "decode_get_fru_record_table_resp msg payload_length out =
     decode_get_fru_record_table_resp_safe msg payload_length out SIZE_MAX"

section \<open>GetFRURecordByOption\<close>

record fru_by_option =
  fo_data_transfer_handle :: u32
  fo_fru_table_handle :: u16
  fo_record_set_identifier :: u16
  fo_record_type :: u8
  fo_field_type :: u8
  fo_transfer_op_flag :: u8

definition encode_get_fru_record_by_option_req ::
    "u8 \<Rightarrow> u32 \<Rightarrow> u16 \<Rightarrow> u16 \<Rightarrow> u8 \<Rightarrow> u8 \<Rightarrow> u8 \<Rightarrow> pldm_msg option \<Rightarrow> nat \<Rightarrow> (int \<times> pldm_msg option) option" where
  "encode_get_fru_record_by_option_req instance_id data_transfer_handle fru_table_handle record_set_identifier
     record_type field_type transfer_op_flag msg payload_length =
     if_msg PLDM_ERROR_INVALID_DATA msg (\<lambda>m.
       if payload_length \<noteq> 11 then Some (PLDM_ERROR_INVALID_LENGTH, m)
       else fru_req instance_id PLDM_GET_FRU_RECORD_BY_OPTION
         (fill (le_of_word data_transfer_handle @ le_of_word fru_table_handle @ le_of_word record_set_identifier @
                [record_type] @ [field_type] @ [transfer_op_flag])) m)"

definition decode_get_fru_record_by_option_req ::
    "pldm_msg option \<Rightarrow> nat \<Rightarrow> fru_by_option option \<Rightarrow> (int \<times> fru_by_option option) option" where
  "decode_get_fru_record_by_option_req msg payload_length out =
     if_set PLDM_ERROR_INVALID_DATA msg out (\<lambda>m v.
       if payload_length \<noteq> 11 then Some (PLDM_ERROR_INVALID_LENGTH, v)
       else do {
         transfer \<leftarrow> get_word 0 m;
         table \<leftarrow> get_word 4 m;
         rsi \<leftarrow> get_word 6 m;
         rt \<leftarrow> get_word 8 m;
         ft \<leftarrow> get_word 9 m;
         flag \<leftarrow> get_word 10 m;
         Some (PLDM_SUCCESS, \<lparr>fo_data_transfer_handle = transfer, fo_fru_table_handle = table,
           fo_record_set_identifier = rsi, fo_record_type = rt, fo_field_type = ft, fo_transfer_op_flag = flag\<rparr>) })"

definition encode_get_fru_record_by_option_resp ::
    "u8 \<Rightarrow> u8 \<Rightarrow> u32 \<Rightarrow> u8 \<Rightarrow> u8 list option \<Rightarrow> nat \<Rightarrow> pldm_msg option \<Rightarrow> nat \<Rightarrow> (int \<times> pldm_msg option) option" where
  "encode_get_fru_record_by_option_resp instance_id completion_code next_data_transfer_handle transfer_flag
     fru_structure_data data_size msg payload_length =
     (case fru_structure_data of None \<Rightarrow> Some (PLDM_ERROR_INVALID_DATA, msg) | Some d \<Rightarrow>
     if_msg PLDM_ERROR_INVALID_DATA msg (\<lambda>m.
       if payload_length < 6 then Some (PLDM_ERROR_INVALID_LENGTH, m)
       else if payload_length - 6 < data_size then Some (PLDM_ERROR_INVALID_LENGTH, m)
       else fru_resp instance_id PLDM_GET_FRU_RECORD_BY_OPTION (\<lambda>m. do {
         m \<leftarrow> put_bytes 0 ([completion_code] @ le_of_word next_data_transfer_handle @ [transfer_flag]) m;
         if completion_code = PLDM_SUCCESS
         then if length d < data_size then None
              else do { m \<leftarrow> put_bytes 6 (take data_size d) m; Some (PLDM_SUCCESS, m) }
         else Some (PLDM_SUCCESS, m) }) m))"

record fru_structure =
  fs_completion_code :: u8
  fs_next_transfer_handle :: u32
  fs_transfer_flag :: u8
  fs_data :: variable_field

definition decode_get_fru_record_by_option_resp ::
    "pldm_msg option \<Rightarrow> nat \<Rightarrow> fru_structure option \<Rightarrow> (int \<times> fru_structure option) option" where
  "decode_get_fru_record_by_option_resp msg payload_length out =
     if_set PLDM_ERROR_INVALID_DATA msg out (\<lambda>m v. do {
       cc \<leftarrow> get_word 0 m;
       let v = v\<lparr>fs_completion_code := cc\<rparr>;
       if cc \<noteq> PLDM_SUCCESS then Some (PLDM_SUCCESS, v)
       else if payload_length < 6 then Some (PLDM_ERROR_INVALID_LENGTH, v)
       else do {
         next_handle \<leftarrow> get_word 1 m;
         flag \<leftarrow> get_word 5 m;
         Some (PLDM_SUCCESS, v\<lparr>fs_next_transfer_handle := next_handle, fs_transfer_flag := flag,
           fs_data := \<lparr>vf_ptr = Some 6, vf_length = payload_length - 6\<rparr>\<rparr>) } })"

section \<open>SetFRURecordTable\<close>

record set_fru_table =
  sf_data_transfer_handle :: u32
  sf_transfer_flag :: u8
  sf_data :: variable_field

definition decode_set_fru_record_table_req ::
    "pldm_msg option \<Rightarrow> nat \<Rightarrow> set_fru_table option \<Rightarrow> (int \<times> set_fru_table option) option" where
  "decode_set_fru_record_table_req msg payload_length out =
     if_set PLDM_ERROR_INVALID_DATA msg out (\<lambda>m v.
       if payload_length \<le> 5 then Some (PLDM_ERROR_INVALID_LENGTH, v)
       else do {
         h \<leftarrow> get_word 0 m;
         flag \<leftarrow> get_word 4 m;
         Some (PLDM_SUCCESS, \<lparr>sf_data_transfer_handle = h, sf_transfer_flag = flag,
           sf_data = \<lparr>vf_ptr = Some 5, vf_length = payload_length - 5\<rparr>\<rparr>) })"

definition encode_set_fru_record_table_resp ::
    "u8 \<Rightarrow> u8 \<Rightarrow> u32 \<Rightarrow> nat \<Rightarrow> pldm_msg option \<Rightarrow> (int \<times> pldm_msg option) option" where
  "encode_set_fru_record_table_resp instance_id completion_code next_data_transfer_handle payload_length msg =
     if_msg PLDM_ERROR_INVALID_DATA msg (\<lambda>m.
       if payload_length \<noteq> 5 then Some (PLDM_ERROR_INVALID_LENGTH, m)
       else fru_resp instance_id PLDM_SET_FRU_RECORD_TABLE
         (fill ([completion_code] @ le_of_word next_data_transfer_handle)) m)"

section \<open>Building a record table\<close>

abbreviation (input) RECORD_HDR_SIZE :: nat where "RECORD_HDR_SIZE \<equiv> 5"
abbreviation (input) SIZEOF_RECORD :: nat where "SIZEOF_RECORD \<equiv> 8"
abbreviation (input) TLV_HDR_SIZE :: nat where "TLV_HDR_SIZE \<equiv> 2"

definition encode_fru_record ::
    "object option \<Rightarrow> nat \<Rightarrow> nat option \<Rightarrow> u16 \<Rightarrow> u8 \<Rightarrow> u8 \<Rightarrow> u8 \<Rightarrow> u8 list option \<Rightarrow> nat \<Rightarrow>
      (int \<times> object option \<times> nat option) option" where
  "encode_fru_record fru_table total_size curr_size record_set_id record_type num_frus encoding tlvs tlvs_size =
     (case (fru_table, curr_size) of
        (Some tab, Some cur) \<Rightarrow>
          if tlvs_size = 0 then Some (PLDM_ERROR_INVALID_DATA, fru_table, curr_size)
          else if SIZE_MAX - cur < RECORD_HDR_SIZE then Some (PLDM_ERROR_INVALID_LENGTH, fru_table, curr_size)
          else if SIZE_MAX - (cur + RECORD_HDR_SIZE) < tlvs_size then Some (PLDM_ERROR_INVALID_LENGTH, fru_table, curr_size)
          else if total_size < cur + RECORD_HDR_SIZE then Some (PLDM_ERROR_INVALID_LENGTH, fru_table, curr_size)
          else if total_size - (cur + RECORD_HDR_SIZE) < tlvs_size then Some (PLDM_ERROR_INVALID_LENGTH, fru_table, curr_size)
          else do {
            tab \<leftarrow> store tab (fst tab + cur) (le_of_word record_set_id @ [record_type, num_frus, encoding]);
            let cur = cur + RECORD_HDR_SIZE;
            case tlvs of
              None \<Rightarrow> Some (PLDM_SUCCESS, Some tab, Some cur)
            | Some bs \<Rightarrow>
                if length bs < tlvs_size then None
                else do {
                  tab \<leftarrow> store tab (fst tab + cur) (take tlvs_size bs);
                  Some (PLDM_SUCCESS, Some tab, Some (cur + tlvs_size)) } }
      | _ \<Rightarrow> Some (PLDM_ERROR_INVALID_DATA, fru_table, curr_size))"

section \<open>Records of a table by option\<close>

definition is_table_end :: "nat \<Rightarrow> nat \<Rightarrow> nat \<Rightarrow> bool" where
  "is_table_end p table table_size \<longleftrightarrow> p \<ge> table + table_size"

text \<open>
  The loop over the fields of a record that does not match: the position of the last field and its length,
  or an error.
\<close>

fun skip_fields :: "object \<Rightarrow> nat \<Rightarrow> nat \<Rightarrow> nat \<Rightarrow> nat \<Rightarrow> nat \<Rightarrow> (int + nat \<times> nat) option" where
  "skip_fields table table_size table_terminator 0 tlv len = Some (Inr (tlv, len))"
| "skip_fields table table_size table_terminator (Suc k) tlv len =
     (if usub table_terminator len < tlv then Some (Inl PLDM_ERROR_INVALID_LENGTH)
      else let tlv = tlv + len in
        if usub table_terminator TLV_HDR_SIZE < tlv then Some (Inl PLDM_ERROR_INVALID_LENGTH)
        else do {
          tlv_length \<leftarrow> load_word table (tlv + 1);
          let n = unat (tlv_length :: u8);
          if n > table_size then Some (Inl PLDM_ERROR_INVALID_LENGTH)
          else skip_fields table table_size table_terminator k tlv (TLV_HDR_SIZE + n) })"

text \<open>The loop over the fields of a record that matches: \<open>out\<close> and \<open>pos\<close> are where the result goes on.\<close>

fun copy_fields ::
    "object \<Rightarrow> nat \<Rightarrow> nat \<Rightarrow> nat \<Rightarrow> u8 \<Rightarrow> nat \<Rightarrow> nat \<Rightarrow> nat \<Rightarrow> object \<Rightarrow> nat \<Rightarrow> nat \<Rightarrow>
      ((int \<times> object) + nat \<times> nat \<times> object \<times> nat \<times> nat) option" where
  "copy_fields table table_size table_terminator record_terminator ft 0 tlv len out pos cnt =
     Some (Inr (tlv, len, out, pos, cnt))"
| "copy_fields table table_size table_terminator record_terminator ft (Suc k) tlv len out pos cnt =
     (if usub table_terminator len < tlv then Some (Inl (PLDM_ERROR_INVALID_LENGTH, out))
      else let tlv = tlv + len in
        if usub table_terminator TLV_HDR_SIZE < tlv then Some (Inl (PLDM_ERROR_INVALID_LENGTH, out))
        else do {
          tlv_length \<leftarrow> load_word table (tlv + 1);
          let n = unat (tlv_length :: u8);
          if n > table_size then Some (Inl (PLDM_ERROR_INVALID_LENGTH, out))
          else let len = TLV_HDR_SIZE + n in
            if usub record_terminator pos < len then Some (Inl (PLDM_ERROR_INVALID_LENGTH, out))
            else if usub table_terminator tlv < len then Some (Inl (PLDM_ERROR_INVALID_LENGTH, out))
            else do {
              tlv_type \<leftarrow> load_word table tlv;
              if tlv_type = ft \<or> ft = 0
              then do {
                bs \<leftarrow> load table tlv len;
                out \<leftarrow> store out pos bs;
                copy_fields table table_size table_terminator record_terminator ft k tlv len out (pos + len) (cnt + 1) }
              else copy_fields table table_size table_terminator record_terminator ft k tlv len out pos cnt } })"

text \<open>
  The loop over the records; an error leaves what was written of the result. The address behind the last field
  is a sum of unsigned numbers of 64 bits, which wraps.
\<close>

definition uadd :: "nat \<Rightarrow> nat \<Rightarrow> nat" where
  "uadd x y = (x + y) mod 2 ^ 64"

partial_function (option) records_loop ::
    "object \<Rightarrow> nat \<Rightarrow> nat \<Rightarrow> nat \<Rightarrow> u16 \<Rightarrow> u8 \<Rightarrow> u8 \<Rightarrow> nat \<Rightarrow> object \<Rightarrow> nat \<Rightarrow>
      ((int \<times> object) + object \<times> nat) option" where
  "records_loop table table_size table_terminator record_terminator rsi rt ft src out pos =
     (if is_table_end src (fst table) table_size then Some (Inr (out, pos))
      else do {
        record_set_id \<leftarrow> load_word table src;
        record_type \<leftarrow> load_word table (src + 2);
        num_fru_fields \<leftarrow> load_word table (src + 3);
        if (record_set_id \<noteq> rsi \<and> rsi \<noteq> 0) \<or> (record_type \<noteq> rt \<and> rt \<noteq> 0)
        then do {
          r \<leftarrow> skip_fields table table_size table_terminator (unat (num_fru_fields :: u8)) (src + RECORD_HDR_SIZE) 0;
          case r of
            Inl rc \<Rightarrow> Some (Inl (rc, out))
          | Inr (tlv, len) \<Rightarrow>
              if usub table_terminator RECORD_HDR_SIZE < uadd tlv len then Some (Inr (out, pos))
              else records_loop table table_size table_terminator record_terminator rsi rt ft (uadd tlv len) out pos }
        else if usub record_terminator pos < RECORD_HDR_SIZE then Some (Inl (PLDM_ERROR_INVALID_LENGTH, out))
        else do {
          bs \<leftarrow> load table src RECORD_HDR_SIZE;
          out \<leftarrow> store out pos bs;
          r \<leftarrow> copy_fields table table_size table_terminator record_terminator ft (unat num_fru_fields)
                 (src + RECORD_HDR_SIZE) 0 out (pos + RECORD_HDR_SIZE) 0;
          case r of
            Inl e \<Rightarrow> Some (Inl e)
          | Inr (tlv, len, out, pos', cnt) \<Rightarrow> do {
              out \<leftarrow> store out (pos + 3) [of_nat cnt];
              if usub table_terminator RECORD_HDR_SIZE < uadd tlv len then Some (Inr (out, pos'))
              else records_loop table table_size table_terminator record_terminator rsi rt ft (uadd tlv len) out pos' } } })"

definition get_fru_record_by_option ::
    "object option \<Rightarrow> nat \<Rightarrow> object option \<Rightarrow> nat option \<Rightarrow> u16 \<Rightarrow> u8 \<Rightarrow> u8 \<Rightarrow>
      (int \<times> object option \<times> nat option) option" where
  "get_fru_record_by_option table table_size record_table record_size rsi rt ft =
     (case (table, record_table, record_size) of
        (Some tab, Some out, Some room) \<Rightarrow>
          if table_size < SIZEOF_RECORD then Some (PLDM_ERROR_INVALID_LENGTH, record_table, record_size)
          else if UINTPTR_MAX - table_size < fst tab then Some (PLDM_ERROR_INVALID_LENGTH, record_table, record_size)
          else if UINTPTR_MAX - room < fst out then Some (PLDM_ERROR_INVALID_LENGTH, record_table, record_size)
          else do {
            r \<leftarrow> records_loop tab table_size (fst tab + table_size) (fst out + room) rsi rt ft (fst tab) out (fst out);
            case r of
              Inl (rc, out) \<Rightarrow> Some (rc, Some out, record_size)
            | Inr (out', pos) \<Rightarrow> Some (PLDM_SUCCESS, Some out', Some (pos - fst out)) }
      | _ \<Rightarrow> Some (PLDM_ERROR, record_table, record_size))"

end
