(* ===== verification/Fru_Laws.thy ===== *)
theory Fru_Laws
  imports Fru
begin

text \<open>
  Looking up FRU records. On any bytes the search stays inside the table and the result object and ends; on a
  table that consists of records it is the selection of records and fields, and tables that
  \<open>encode_fru_record\<close> builds are such tables. At the end the round trips of the messages.
\<close>

section \<open>The search is safe on any table\<close>

text \<open>Writing only into the first \<open>room\<close> bytes of an object.\<close>

definition writes_within :: "nat \<Rightarrow> object \<Rightarrow> object \<Rightarrow> bool" where
  "writes_within room out out' \<longleftrightarrow>
     fst out' = fst out \<and> length (snd out') = length (snd out) \<and> drop room (snd out') = drop room (snd out)"

lemma writes_within_refl: "writes_within room out out"
  by (simp add: writes_within_def)

lemma writes_within_trans:
  "writes_within room x y \<Longrightarrow> writes_within room y z \<Longrightarrow> writes_within room x z"
  by (simp add: writes_within_def)

lemma store_within:
  assumes "fst out \<le> p" "p + length bs \<le> fst out + room" "room \<le> length (snd out)"
  obtains out' where "store out p bs = Some out'" "writes_within room out out'"
proof
  show "store out p bs = Some (fst out, poke (snd out) (p - fst out) bs)"
    using assms by (intro store_ok) auto
  have "p - fst out + length bs \<le> room" using assms by linarith
  then show "writes_within room out (fst out, poke (snd out) (p - fst out) bs)"
    using assms by (simp add: writes_within_def)
qed

text \<open>What the loops may give: they do not get stuck, they go forward, and they write within the result.\<close>

definition skip_safe :: "nat \<Rightarrow> nat \<Rightarrow> (int + nat \<times> nat) option \<Rightarrow> bool" where
  "skip_safe p u r \<longleftrightarrow>
     (case r of None \<Rightarrow> False | Some (Inl _) \<Rightarrow> True | Some (Inr (tlv, len)) \<Rightarrow> p \<le> tlv + len \<and> tlv + len \<le> u)"

definition copy_safe :: "nat \<Rightarrow> nat \<Rightarrow> object \<Rightarrow> nat \<Rightarrow> nat \<Rightarrow> (int \<times> object + nat \<times> nat \<times> object \<times> nat \<times> nat) option \<Rightarrow> bool" where
  "copy_safe u room out pos p r \<longleftrightarrow>
     (case r of
        None \<Rightarrow> False
      | Some (Inl (_, out')) \<Rightarrow> writes_within room out out'
      | Some (Inr (tlv, len, out', pos', _)) \<Rightarrow>
          writes_within room out out' \<and> p \<le> tlv + len \<and> tlv + len \<le> u \<and> pos \<le> pos' \<and> pos' \<le> fst out + room)"

definition loop_safe :: "nat \<Rightarrow> object \<Rightarrow> nat \<Rightarrow> (int \<times> object + object \<times> nat) option \<Rightarrow> bool" where
  "loop_safe room out pos r \<longleftrightarrow>
     (case r of
        None \<Rightarrow> False
      | Some (Inl (_, out')) \<Rightarrow> writes_within room out out'
      | Some (Inr (out', pos')) \<Rightarrow> writes_within room out out' \<and> pos \<le> pos' \<and> pos' \<le> fst out + room)"

lemma loop_safe_simps [simp]:
  "loop_safe room out pos (Some (Inl (rc, out'))) \<longleftrightarrow> writes_within room out out'"
  "loop_safe room out pos (Some (Inr (out', pos'))) \<longleftrightarrow>
     writes_within room out out' \<and> pos \<le> pos' \<and> pos' \<le> fst out + room"
  by (simp_all add: loop_safe_def)

lemma copy_safe_trans:
  assumes "copy_safe u room out' pos' p' r" "writes_within room out out'" "pos \<le> pos'" "p \<le> p'"
  shows "copy_safe u room out pos p r"
  using assms writes_within_trans [OF assms(2)]
  by (auto simp: copy_safe_def writes_within_def split: option.splits sum.splits prod.splits)

lemma loop_safe_trans:
  assumes "loop_safe room out' pos' r" "writes_within room out out'" "pos \<le> pos'"
  shows "loop_safe room out pos r"
  using assms writes_within_trans [OF assms(2)]
  by (auto simp: loop_safe_def writes_within_def split: option.splits sum.splits prod.splits)

lemma skip_safeE:
  assumes "skip_safe p u r"
  obtains rc where "r = Some (Inl rc)" | tlv len where "r = Some (Inr (tlv, len))" "p \<le> tlv + len" "tlv + len \<le> u"
  using assms by (auto simp: skip_safe_def split: option.splits sum.splits)

lemma copy_safeE:
  assumes "copy_safe u room out pos p r"
  obtains rc out' where "r = Some (Inl (rc, out'))" "writes_within room out out'"
  | tlv len out' pos' cnt where "r = Some (Inr (tlv, len, out', pos', cnt))" "writes_within room out out'"
      "p \<le> tlv + len" "tlv + len \<le> u" "pos \<le> pos'" "pos' \<le> fst out + room"
  using assms by (auto simp: copy_safe_def split: option.splits sum.splits)

lemma skip_fields_safe:
  assumes "fst table \<le> tlv" "2 \<le> sz" "sz \<le> length (snd table)" "fst table + sz \<le> UINTPTR_MAX"
    and "tlv + len \<le> fst table + sz + 255"
  shows "skip_safe (tlv + len) (fst table + sz + 255) (skip_fields table sz (fst table + sz) k tlv len)"
  using assms
proof (induction k arbitrary: tlv len)
  case (Suc k)
  let ?T = "fst table + sz"
  have T2: "usub ?T 2 = ?T - 2" using Suc.prems by (intro usub_small) auto
  show ?case
  proof (cases "usub ?T len < tlv \<or> usub ?T 2 < tlv + len")
    case False
    then have "tlv + len + 2 \<le> ?T" using T2 Suc.prems(2) by linarith
    then obtain l :: u8 where "load_word table (Suc (tlv + len)) = Some l"
      using Suc.prems by (auto simp: load_word_ok)
    moreover have "unat l \<le> 255" using unsigned_less [of l, where 'a = nat] by simp
    ultimately show ?thesis
      using False Suc.IH [of "tlv + len" "2 + unat l"] Suc.prems \<open>tlv + len + 2 \<le> ?T\<close>
      by (auto simp: Let_def skip_safe_def split: option.splits sum.splits)
  qed (auto simp: Let_def skip_safe_def)
qed (simp add: skip_safe_def)

lemma copy_fields_safe:
  assumes "fst table \<le> tlv" "2 \<le> sz" "sz \<le> length (snd table)" "fst table + sz \<le> UINTPTR_MAX"
    and "fst out \<le> pos" "pos \<le> fst out + room" "room \<le> length (snd out)" "fst out + room \<le> UINTPTR_MAX"
    and "tlv + len \<le> fst table + sz"
  shows "copy_safe (fst table + sz) room out pos (tlv + len)
    (copy_fields table sz (fst table + sz) (fst out + room) ft k tlv len out pos cnt)"
  using assms
proof (induction k arbitrary: tlv len out pos cnt)
  case 0
  then show ?case by (simp add: copy_safe_def writes_within_refl)
next
  case (Suc k)
  let ?T = "fst table + sz" and ?R = "fst out + room" and ?p = "tlv + len"
  note prems = Suc.prems
  let ?copy = "copy_fields table sz ?T ?R ft"
  have T2: "usub ?T 2 = ?T - 2" and R: "usub ?R pos = ?R - pos" using prems by (auto intro!: usub_small)
  show ?case
  proof (cases "usub ?T len < tlv \<or> usub ?T 2 < ?p")
    case False
    then have room2: "?p + 2 \<le> ?T" using T2 prems(2) by linarith
    have p: "fst table \<le> ?p" using prems(1) by simp
    have Tp: "usub ?T ?p = ?T - ?p" using room2 prems by (intro usub_small) auto
    from room2 obtain l t :: u8 where lt: "load_word table (Suc ?p) = Some l" "load_word table ?p = Some t"
      using prems by (auto simp: load_word_ok)
    let ?n = "2 + unat l" and ?bs = "bytes_at (snd table) (?p - fst table) (2 + unat l)"
    show ?thesis
    proof (cases "unat l > sz \<or> ?R - pos < ?n \<or> ?T - ?p < ?n")
      case fits: False
      then have bs: "load table ?p ?n = Some ?bs" "length ?bs = ?n"
        using prems room2 by (auto intro!: load_ok length_bytes_at)
      have fwd: "?p + ?n \<le> ?T" using fits room2 by linarith
      have "pos + length ?bs \<le> ?R" using fits prems bs(2) by linarith
      then obtain out' where out': "store out pos ?bs = Some out'" and within: "writes_within room out out'"
        by (rule store_within [OF prems(5) _ prems(7)])
      then have same: "fst out' = fst out" "length (snd out') = length (snd out)"
        by (simp_all add: writes_within_def)
      have "?copy (Suc k) tlv len out pos cnt =
          (if t = ft \<or> ft = 0 then ?copy k ?p ?n out' (pos + ?n) (cnt + 1) else ?copy k ?p ?n out pos cnt)"
        using False lt R Tp fits bs out' by (auto simp: Let_def)
      moreover have "copy_safe ?T room out pos ?p (?copy k ?p ?n out' (pos + ?n) (cnt + 1))"
      proof (rule copy_safe_trans [OF _ within])
        have "fst out' \<le> pos + ?n" "pos + ?n \<le> fst out' + room" "room \<le> length (snd out')" "fst out' + room \<le> UINTPTR_MAX"
          using prems same fits by linarith+
        then show "copy_safe ?T room out' (pos + ?n) (?p + ?n) (?copy k ?p ?n out' (pos + ?n) (cnt + 1))"
          using Suc.IH [OF p prems(2-4), of out' "pos + ?n" ?n "cnt + 1"] same(1) fwd by simp
      qed (rule le_add1)+
      moreover have "copy_safe ?T room out pos ?p (?copy k ?p ?n out pos cnt)"
        by (rule copy_safe_trans [OF Suc.IH [OF p prems(2-8) fwd] writes_within_refl order_refl le_add1])
      ultimately show ?thesis by (cases "t = ft \<or> ft = 0") simp_all
    qed (use False lt R Tp in \<open>auto simp: Let_def copy_safe_def writes_within_refl\<close>)
  qed (auto simp: Let_def copy_safe_def writes_within_refl)
qed

lemma uadd_small: "x + y \<le> UINTPTR_MAX \<Longrightarrow> uadd x y = x + y"
  by (simp add: uadd_def)

text \<open>One round of the loop over the records, for a record whose header lies in the table.\<close>

lemma records_loop_round:
  assumes "\<not> is_table_end src (fst table) sz"
    and "load_word table src = Some i" "load_word table (src + 2) = Some t" "load_word table (src + 3) = Some (k :: u8)"
  shows "(i \<noteq> rsi \<and> rsi \<noteq> 0) \<or> (t \<noteq> rt \<and> rt \<noteq> 0) \<Longrightarrow>
      records_loop table sz T R rsi rt ft src out pos =
        skip_fields table sz T (unat k) (src + 5) 0 \<bind>
          case_sum (\<lambda>rc. Some (Inl (rc, out))) (\<lambda>(tlv, len).
            if usub T 5 < uadd tlv len then Some (Inr (out, pos)) else records_loop table sz T R rsi rt ft (uadd tlv len) out pos)"
    and "\<not> ((i \<noteq> rsi \<and> rsi \<noteq> 0) \<or> (t \<noteq> rt \<and> rt \<noteq> 0)) \<Longrightarrow> \<not> usub R pos < 5 \<Longrightarrow> load table src 5 = Some bs \<Longrightarrow>
        store out pos bs = Some o1 \<Longrightarrow>
      records_loop table sz T R rsi rt ft src out pos =
        copy_fields table sz T R ft (unat k) (src + 5) 0 o1 (pos + 5) 0 \<bind>
          case_sum (\<lambda>e. Some (Inl e)) (\<lambda>(tlv, len, o2, pos', cnt). store o2 (pos + 3) [of_nat cnt] \<bind> (\<lambda>o3.
            if usub T 5 < uadd tlv len then Some (Inr (o3, pos')) else records_loop table sz T R rsi rt ft (uadd tlv len) o3 pos'))"
  using assms by (subst records_loop.simps, auto)+

lemma records_loop_safe:
  assumes "fst table \<le> src" "src + 5 \<le> fst table + sz" "sz \<le> length (snd table)" "fst table + sz + 255 \<le> UINTPTR_MAX"
    and "fst out \<le> pos" "pos \<le> fst out + room" "room \<le> length (snd out)" "fst out + room \<le> UINTPTR_MAX"
  shows "loop_safe room out pos (records_loop table sz (fst table + sz) (fst out + room) rsi rt ft src out pos)"
  using assms
proof (induction "fst table + sz - src" arbitrary: src out pos rule: less_induct)
  case less
  let ?T = "fst table + sz" and ?R = "fst out + room"
  note prems = less.prems
  have T5: "usub ?T 5 = ?T - 5" and Rp: "usub ?R pos = ?R - pos"
    using prems by (auto intro!: usub_small)
  obtain i :: u16 and t k :: u8 where fields: "load_word table src = Some i" "load_word table (src + 2) = Some t"
    "load_word table (src + 3) = Some k"
    using prems by (auto simp: load_word_ok)
  have go: "\<not> is_table_end src (fst table) sz" using prems by (simp add: is_table_end_def)
  have on: "loop_safe room out pos (if ?T - 5 < p then Some (Inr (o', pos')) else records_loop table sz ?T ?R rsi rt ft p o' pos')"
    if "src + 5 \<le> p" "writes_within room out o'" "pos \<le> pos'" "pos' \<le> ?R" for p o' pos'
  proof (cases "?T - 5 < p")
    case False
    then show ?thesis
      using less.hyps [of p o' pos'] prems that
      by (simp add: writes_within_def loop_safe_trans [of room o' pos' _ out pos])
  qed (use that in \<open>simp add: loop_safe_def\<close>)
  show ?case
  proof (cases "(i \<noteq> rsi \<and> rsi \<noteq> 0) \<or> (t \<noteq> rt \<and> rt \<noteq> 0)")
    case True
    have "skip_safe (src + 5) (?T + 255) (skip_fields table sz ?T (unat k) (src + 5) 0)"
      using skip_fields_safe [of table "src + 5" sz 0 "unat k"] prems by simp
    then show ?thesis
    proof (cases rule: skip_safeE)
      case 1
      then show ?thesis unfolding records_loop_round(1) [OF go fields True] by (simp add: loop_safe_def writes_within_refl)
    next
      case (2 tlv len)
      then show ?thesis
        unfolding records_loop_round(1) [OF go fields True] T5
        using on [OF 2(2) writes_within_refl order_refl prems(6)] uadd_small [of tlv len] 2(3) prems(4)
        by (simp split del: if_split cong: if_cong)
    qed
  next
    case match: False
    show ?thesis
    proof (cases "?R - pos < 5")
      case True
      then show ?thesis
        using match fields go Rp by (subst records_loop.simps) (auto simp: loop_safe_def writes_within_refl)
    next
      case fits: False
      let ?bs = "bytes_at (snd table) (src - fst table) 5"
      have bs: "load table src 5 = Some ?bs" "length ?bs = 5"
        using prems by (auto intro!: load_ok length_bytes_at)
      have "pos + length ?bs \<le> ?R" using fits prems bs(2) by linarith
      then obtain o1 where o1: "store out pos ?bs = Some o1" "writes_within room out o1"
        by (rule store_within [OF prems(5) _ prems(7)])
      then have same: "fst o1 = fst out" "length (snd o1) = length (snd out)"
        by (simp_all add: writes_within_def)
      have room: "\<not> usub ?R pos < 5" using fits Rp by simp
      have "copy_safe ?T room o1 (pos + 5) (src + 5) (copy_fields table sz ?T ?R ft (unat k) (src + 5) 0 o1 (pos + 5) 0)"
        using copy_fields_safe [of table "src + 5" sz o1 "pos + 5" room 0 ft "unat k" 0] prems same fits by simp
      then have copy: "copy_safe ?T room out (pos + 5) (src + 5) (copy_fields table sz ?T ?R ft (unat k) (src + 5) 0 o1 (pos + 5) 0)"
        by (rule copy_safe_trans [OF _ o1(2)]) simp_all
      have patch: "loop_safe room out pos (store o2 (pos + 3) [of_nat cnt] \<bind> (\<lambda>o3.
            if ?T - 5 < p then Some (Inr (o3, pos')) else records_loop table sz ?T ?R rsi rt ft p o3 pos'))"
        if "writes_within room out o2" "src + 5 \<le> p" "pos + 5 \<le> pos'" "pos' \<le> ?R" for o2 p pos' cnt
      proof -
        have same2: "fst o2 = fst out" "length (snd o2) = length (snd out)" using that by (simp_all add: writes_within_def)
        then have "fst o2 \<le> pos + 3" "pos + 3 + length [of_nat cnt :: u8] \<le> fst o2 + room" "room \<le> length (snd o2)"
          using prems that by simp_all
        then obtain o3 where "store o2 (pos + 3) [of_nat cnt] = Some o3" "writes_within room o2 o3"
          by (rule store_within)
        then show ?thesis using on [of p o3 pos'] that writes_within_trans [of room out o2 o3] by simp
      qed
      note round = records_loop_round(2) [OF go fields match room bs(1) o1(1)]
      from copy show ?thesis
      proof (cases rule: copy_safeE)
        case 1
        then show ?thesis unfolding round by simp
      next
        case (2 tlv len o2 pos' cnt)
        then have u: "uadd tlv len = tlv + len" using prems(4) by (intro uadd_small) simp
        show ?thesis
          unfolding round 2(1) T5 using patch [OF 2(2,3,5,6), of cnt]
          by (simp add: u split del: if_split cong: if_cong)
      qed
    qed
  qed
qed

text \<open>
  C31. Looking up FRU records stays inside its objects. Whatever bytes the table holds, whatever the options
  and however small the result object, the search ends without a read outside of a table of
  \<open>table_size\<close> bytes; it writes only to the first \<open>*record_size\<close> bytes of the result object, and the size it
  reports is not greater than the one it was given. The table must end 255 bytes or more before the top of the
  address space: the code adds the length a field claims to the field's address before it compares the sum with
  the end of the table, and nearer to the top the sum wraps around.
\<close>

theorem fru_search_safe:
  assumes "obj_ok table_size table" "obj_ok room out" "fst table + table_size + 255 \<le> UINTPTR_MAX"
  shows "\<exists>rc out' n. get_fru_record_by_option (Some table) table_size (Some out) (Some room) rsi rt ft =
      Some (rc, Some out', Some n) \<and> n \<le> room \<and>
    fst out' = fst out \<and> length (snd out') = length (snd out) \<and> drop room (snd out') = drop room (snd out)"
proof -
  let ?r = "records_loop table table_size (fst table + table_size) (fst out + room) rsi rt ft (fst table) out (fst out)"
  have ok: "table_size \<le> length (snd table)" "room \<le> length (snd out)" "fst out + room \<le> UINTPTR_MAX"
    using assms by (auto simp: obj_ok_def)
  have "loop_safe room out (fst out) ?r" if "8 \<le> table_size"
    using that ok assms(3) by (intro records_loop_safe) auto
  then show ?thesis
    by (cases out) (auto simp: get_fru_record_by_option_def writes_within_def loop_safe_def
        split: option.splits sum.splits prod.splits)
qed

text \<open>
  A table of eight bytes that ends at the top of the address space, with a record that is not asked for and
  whose one field claims eight bytes: the sum wraps around to 6, which is not behind the table's end, and the
  search goes on to read the next record there.
\<close>

lemma fru_search_wraps:
  "obj_ok 8 (UINTPTR_MAX - 8, [1, 0, 1, 1, 1, 2, 8, 0]) \<and>
   get_fru_record_by_option (Some (UINTPTR_MAX - 8, [1, 0, 1, 1, 1, 2, 8, 0])) 8 (Some (4096, replicate 8 0)) (Some 8) 2 0 0 = None"
proof -
  let ?tab = "(UINTPTR_MAX - 8, [1, 0, 1, 1, 1, 2, 8, 0]) :: object"
  have "records_loop ?tab 8 UINTPTR_MAX R 2 0 0 (UINTPTR_MAX - 8) out pos = records_loop ?tab 8 UINTPTR_MAX R 2 0 0 6 out pos" for R out pos
    by (subst records_loop.simps) (simp add: is_table_end_def load_word_def load_def bytes_at_def usub_def uadd_def Let_def)
  moreover have "records_loop ?tab 8 UINTPTR_MAX R 2 0 0 6 out pos = None" for R out pos
    by (subst records_loop.simps) (simp add: is_table_end_def load_word_def load_def)
  ultimately show ?thesis by (simp add: get_fru_record_by_option_def obj_ok_def)
qed

section \<open>The search selects records and fields\<close>

record fru_record =
  fr_record_set_id :: u16
  fr_type :: u8
  fr_encoding :: u8
  fr_fields :: "(u8 \<times> u8 list) list"

fun tlv_bytes :: "u8 \<times> u8 list \<Rightarrow> u8 list" where
  "tlv_bytes (t, v) = t # of_nat (length v) # v"

definition fields_bytes :: "(u8 \<times> u8 list) list \<Rightarrow> u8 list" where
  "fields_bytes fs = concat (map tlv_bytes fs)"

definition record_bytes :: "fru_record \<Rightarrow> u8 list" where
  "record_bytes r = le_of_word (fr_record_set_id r) @ [fr_type r, of_nat (length (fr_fields r)), fr_encoding r] @
     fields_bytes (fr_fields r)"

definition table_bytes :: "fru_record list \<Rightarrow> u8 list" where
  "table_bytes rs = concat (map record_bytes rs)"

definition fields_valid :: "(u8 \<times> u8 list) list \<Rightarrow> bool" where
  "fields_valid fs \<longleftrightarrow> (\<forall>f \<in> set fs. length (snd f) < 256)"

definition record_valid :: "fru_record \<Rightarrow> bool" where
  "record_valid r \<longleftrightarrow> length (fr_fields r) < 256 \<and> fields_valid (fr_fields r)"

definition field_wanted :: "u8 \<Rightarrow> u8 \<times> u8 list \<Rightarrow> bool" where
  "field_wanted ft f \<longleftrightarrow> ft = 0 \<or> fst f = ft"

definition record_wanted :: "u16 \<Rightarrow> u8 \<Rightarrow> fru_record \<Rightarrow> bool" where
  "record_wanted rsi rt r \<longleftrightarrow> (rsi = 0 \<or> fr_record_set_id r = rsi) \<and> (rt = 0 \<or> fr_type r = rt)"

definition fru_select :: "u16 \<Rightarrow> u8 \<Rightarrow> u8 \<Rightarrow> fru_record list \<Rightarrow> fru_record list" where
  "fru_select rsi rt ft rs =
     map (\<lambda>r. r\<lparr>fr_fields := filter (field_wanted ft) (fr_fields r)\<rparr>) (filter (record_wanted rsi rt) rs)"

lemma length_tlv_bytes [simp]: "length (tlv_bytes f) = 2 + length (snd f)"
  by (cases f) simp

lemma fields_bytes_simps [simp]:
  "fields_bytes [] = []" "fields_bytes (f # fs) = tlv_bytes f @ fields_bytes fs"
  by (simp_all add: fields_bytes_def)

lemma table_bytes_simps [simp]:
  "table_bytes [] = []" "table_bytes (r # rs) = record_bytes r @ table_bytes rs"
  by (simp_all add: table_bytes_def)

lemma fields_valid_Cons [simp]: "fields_valid (f # fs) \<longleftrightarrow> length (snd f) < 256 \<and> fields_valid fs"
  by (simp add: fields_valid_def)

lemma length_record_bytes [simp]: "length (record_bytes r) = 5 + length (fields_bytes (fr_fields r))"
  by (simp add: record_bytes_def)

lemma fields_selected_shorter: "length (fields_bytes (filter P fs)) \<le> length (fields_bytes fs)"
  by (induction fs) auto

lemma load_tlv:
  assumes "snd table = pre @ tlv_bytes f @ post" "p = fst table + length pre" "length (snd f) < 256"
  shows "load_word table p = Some (fst f)" "load_word table (Suc p) = Some (of_nat (length (snd f)) :: u8)"
    "load table p (2 + length (snd f)) = Some (tlv_bytes f)" "unat (of_nat (length (snd f)) :: u8) = length (snd f)"
proof -
  obtain t v where f: "f = (t, v)" by force
  show "load_word table p = Some (fst f)"
    using assms by (intro load_word_behind [of _ pre _ "of_nat (length v) # v @ post"]) (simp_all add: f)
  show "load_word table (Suc p) = Some (of_nat (length (snd f)) :: u8)"
    using assms by (intro load_word_behind [of _ "pre @ [t]" _ "v @ post"]) (simp_all add: f)
  show "load table p (2 + length (snd f)) = Some (tlv_bytes f)"
    using assms by (intro load_behind [of _ pre _ post]) simp_all
  show "unat (of_nat (length (snd f)) :: u8) = length (snd f)"
    using assms(3) by (simp add: unsigned_of_nat take_bit_nat_eq_self)
qed

text \<open>The guards of the loops hold for a field that lies in the table.\<close>

lemma tlv_guards:
  assumes "tlv + len = a + k" "k + n \<le> sz" "2 \<le> n" "a + sz \<le> UINTPTR_MAX"
  shows "\<not> usub (a + sz) len < tlv" "\<not> usub (a + sz) 2 < tlv + len" "\<not> usub (a + sz) (tlv + len) < n"
proof -
  have "len \<le> a + sz" "2 \<le> a + sz" "tlv + len \<le> a + sz" using assms by linarith+
  then have "usub (a + sz) len = a + sz - len" "usub (a + sz) 2 = a + sz - 2" "usub (a + sz) (tlv + len) = a + sz - (tlv + len)"
    using assms(4) by (auto intro: usub_small)
  then show "\<not> usub (a + sz) len < tlv" "\<not> usub (a + sz) 2 < tlv + len" "\<not> usub (a + sz) (tlv + len) < n"
    using assms by linarith+
qed

lemma skip_fields_run:
  assumes "snd table = pre @ fields_bytes fs @ post" "tlv + len = fst table + length pre" "fields_valid fs"
    and "length pre + length (fields_bytes fs) \<le> sz" "fst table + sz \<le> UINTPTR_MAX"
  shows "\<exists>tlv' len'. skip_fields table sz (fst table + sz) (length fs) tlv len = Some (Inr (tlv', len')) \<and>
    tlv' + len' = fst table + length pre + length (fields_bytes fs)"
  using assms
proof (induction fs arbitrary: pre tlv len)
  case (Cons f fs)
  let ?T = "fst table + sz" and ?p = "tlv + len"
  note prems = Cons.prems
  have table: "snd table = pre @ tlv_bytes f @ fields_bytes fs @ post" and small: "length (snd f) < 256"
    using prems by simp_all
  note tlv = load_tlv [OF table prems(2) small]
  have in_table: "length pre + (2 + length (snd f)) \<le> sz" using prems(4) by simp
  note guards = tlv_guards [OF prems(2) this le_add1 prems(5)]
  have "skip_fields table sz ?T (length (f # fs)) tlv len = skip_fields table sz ?T (length fs) ?p (2 + length (snd f))"
    using guards tlv in_table by (simp add: Let_def)
  then show ?case
    using Cons.IH [of "pre @ tlv_bytes f" ?p "2 + length (snd f)"] prems by (simp add: algebra_simps)
qed simp

lemma copy_fields_run:
  assumes "snd table = pre @ fields_bytes fs @ post" "tlv + len = fst table + length pre" "fields_valid fs"
    and "length pre + length (fields_bytes fs) \<le> sz" "fst table + sz \<le> UINTPTR_MAX"
    and "fst out \<le> pos" "pos + length (fields_bytes fs) \<le> R" "R \<le> past out" "R \<le> UINTPTR_MAX"
  shows "\<exists>tlv' len'. copy_fields table sz (fst table + sz) R ft (length fs) tlv len out pos cnt = Some (Inr (tlv', len',
      (fst out, poke (snd out) (pos - fst out) (fields_bytes (filter (field_wanted ft) fs))),
      pos + length (fields_bytes (filter (field_wanted ft) fs)), cnt + length (filter (field_wanted ft) fs))) \<and>
    tlv' + len' = fst table + length pre + length (fields_bytes fs)"
  using assms
proof (induction fs arbitrary: pre tlv len out pos cnt)
  case (Cons f fs)
  let ?T = "fst table + sz" and ?p = "tlv + len" and ?n = "2 + length (snd f)"
  note prems = Cons.prems
  have table: "snd table = pre @ tlv_bytes f @ fields_bytes fs @ post" and small: "length (snd f) < 256"
    using prems by simp_all
  note tlv = load_tlv [OF table prems(2) small]
  let ?copy = "copy_fields table sz ?T R ft"
  have in_table: "length pre + ?n \<le> sz" using prems(4) by simp
  note guards = tlv_guards [OF prems(2) this le_add1 prems(5)]
  have R: "\<not> usub R pos < ?n" using prems by (simp add: usub_small)
  note rest = Cons.IH [of "pre @ tlv_bytes f" ?p ?n]
  show ?case
  proof (cases "field_wanted ft f")
    case True
    let ?out = "(fst out, poke (snd out) (pos - fst out) (tlv_bytes f))"
    have "pos - fst out + ?n \<le> length (snd out)" using prems by auto
    then have m: "length (poke (snd out) (pos - fst out) (tlv_bytes f)) = length (snd out)" by simp
    have "store out pos (tlv_bytes f) = Some ?out" using prems by (intro store_ok) auto
    then have "?copy (length (f # fs)) tlv len out pos cnt = ?copy (length fs) ?p ?n ?out (pos + ?n) (cnt + 1)"
      using True guards R tlv in_table by (auto simp: Let_def field_wanted_def)
    moreover have "pos + ?n - fst out = (pos - fst out) + ?n" using prems by simp
    ultimately show ?thesis
      using rest [of ?out "pos + ?n" "cnt + 1"] prems True m by (simp add: algebra_simps poke_poke)
  next
    case False
    have "?copy (length (f # fs)) tlv len out pos cnt = ?copy (length fs) ?p ?n out pos cnt"
      using False guards R tlv in_table by (auto simp: Let_def field_wanted_def)
    then show ?thesis using rest [of out pos cnt] prems False by (simp add: algebra_simps)
  qed
qed simp

lemma poke_one: "c < length m \<Longrightarrow> poke m c [y] = m[c := y]"
  by (simp add: poke_def upd_conv_take_nth_drop)

lemma poke_inside:
  assumes "c + length xs \<le> length m" "k < length xs"
  shows "poke (poke m c xs) (c + k) [y] = poke m c (xs[k := y])"
proof -
  have "poke (poke m c xs) (c + k) [y] = (poke m c xs)[c + k := y]" using assms by (intro poke_one) simp
  then show ?thesis using assms by (simp add: poke_def list_update_append)
qed

text \<open>A record that is wanted, copied with the fields that are wanted.\<close>

abbreviation (input) with_fields :: "u8 \<Rightarrow> fru_record \<Rightarrow> fru_record" where
  "with_fields ft r \<equiv> r\<lparr>fr_fields := filter (field_wanted ft) (fr_fields r)\<rparr>"

lemma record_header:
  assumes "snd table = pre @ record_bytes r @ post" "src = fst table + length pre"
  shows "load_word table src = Some (fr_record_set_id r)" "load_word table (src + 2) = Some (fr_type r)"
    "load_word table (src + 3) = Some (of_nat (length (fr_fields r)) :: u8)"
    "load table src 5 = Some (le_of_word (fr_record_set_id r) @ [fr_type r, of_nat (length (fr_fields r)), fr_encoding r])"
proof -
  let ?n = "of_nat (length (fr_fields r)) :: u8" and ?rest = "fields_bytes (fr_fields r) @ post"
  have t: "snd table = pre @ le_of_word (fr_record_set_id r) @ fr_type r # ?n # fr_encoding r # ?rest"
    using assms by (simp add: record_bytes_def)
  then show "load_word table src = Some (fr_record_set_id r)" using assms(2) by (intro load_word_behind) simp_all
  show "load_word table (src + 2) = Some (fr_type r)"
    using t assms(2) by (intro load_word_behind [of _ "pre @ le_of_word (fr_record_set_id r)"]) simp_all
  show "load_word table (src + 3) = Some ?n"
    using t assms(2) by (intro load_word_behind [of _ "pre @ le_of_word (fr_record_set_id r) @ [fr_type r]"]) simp_all
  show "load table src 5 = Some (le_of_word (fr_record_set_id r) @ [fr_type r, ?n, fr_encoding r])"
    using t assms(2) by (intro load_behind [of _ pre _ ?rest]) simp_all
qed

lemma patched_record:
  assumes "c + length (record_bytes r) \<le> length m"
  shows "poke (poke (poke m c (le_of_word (fr_record_set_id r) @ [fr_type r, k, fr_encoding r]))
      (c + 5) (fields_bytes (fr_fields r))) (c + 3) [of_nat (length (fr_fields r))] = poke m c (record_bytes r)"
proof -
  let ?h = "le_of_word (fr_record_set_id r) @ [fr_type r, k, fr_encoding r] @ fields_bytes (fr_fields r)"
  have "poke (poke m c ?h) (c + 3) [of_nat (length (fr_fields r))] = poke m c (?h[3 := of_nat (length (fr_fields r))])"
    using assms by (intro poke_inside) simp_all
  then show ?thesis
    using assms by (simp add: poke_poke record_bytes_def list_update_append)
qed

lemma fru_select_simps [simp]:
  "fru_select rsi rt ft [] = []"
  "fru_select rsi rt ft (r # rs) =
     (if record_wanted rsi rt r then with_fields ft r # fru_select rsi rt ft rs else fru_select rsi rt ft rs)"
  by (simp_all add: fru_select_def)

text \<open>A record of the table: where its header is, and where its fields are.\<close>

lemma at_record:
  assumes "snd table = pre @ record_bytes r @ post" "record_valid r" "length pre + length (record_bytes r) \<le> sz"
  obtains hdr where "hdr = le_of_word (fr_record_set_id r) @ [fr_type r, of_nat (length (fr_fields r)), fr_encoding r]"
    and "snd table = (pre @ hdr) @ fields_bytes (fr_fields r) @ post" "fst table + length pre + 5 + 0 = fst table + length (pre @ hdr)"
    and "length (pre @ hdr) + length (fields_bytes (fr_fields r)) \<le> sz" "fields_valid (fr_fields r)" "length hdr = 5"
    and "\<not> is_table_end (fst table + length pre) (fst table) sz"
    and "unat (of_nat (length (fr_fields r)) :: u8) = length (fr_fields r)"
proof
  let ?hdr = "le_of_word (fr_record_set_id r) @ [fr_type r, of_nat (length (fr_fields r)), fr_encoding r]"
  show "snd table = (pre @ ?hdr) @ fields_bytes (fr_fields r) @ post" "fst table + length pre + 5 + 0 = fst table + length (pre @ ?hdr)"
    "length (pre @ ?hdr) + length (fields_bytes (fr_fields r)) \<le> sz" "fields_valid (fr_fields r)"
    "\<not> is_table_end (fst table + length pre) (fst table) sz"
    "unat (of_nat (length (fr_fields r)) :: u8) = length (fr_fields r)"
    using assms by (simp_all add: record_bytes_def record_valid_def is_table_end_def unsigned_of_nat take_bit_nat_eq_self)
qed simp_all

lemma records_loop_skip:
  assumes "snd table = pre @ record_bytes r @ post" "record_valid r" "length pre + length (record_bytes r) \<le> sz"
    and "fst table + sz \<le> UINTPTR_MAX" "\<not> record_wanted rsi rt r" "q = fst table + length pre + length (record_bytes r)"
  shows "records_loop table sz (fst table + sz) R rsi rt ft (fst table + length pre) out pos =
    (if usub (fst table + sz) 5 < q then Some (Inr (out, pos)) else records_loop table sz (fst table + sz) R rsi rt ft q out pos)"
proof -
  obtain hdr where at: "snd table = (pre @ hdr) @ fields_bytes (fr_fields r) @ post"
    "fst table + length pre + 5 + 0 = fst table + length (pre @ hdr)" "fields_valid (fr_fields r)"
    "length (pre @ hdr) + length (fields_bytes (fr_fields r)) \<le> sz" and len: "length hdr = 5"
    and go: "\<not> is_table_end (fst table + length pre) (fst table) sz"
    and k: "unat (of_nat (length (fr_fields r)) :: u8) = length (fr_fields r)"
    by (rule at_record [OF assms(1-3)])
  have other: "(fr_record_set_id r \<noteq> rsi \<and> rsi \<noteq> 0) \<or> (fr_type r \<noteq> rt \<and> rt \<noteq> 0)"
    using assms(5) by (auto simp: record_wanted_def)
  obtain tlv len where skip: "skip_fields table sz (fst table + sz) (length (fr_fields r)) (fst table + length pre + 5) 0 = Some (Inr (tlv, len))"
    and q: "q = tlv + len"
    using skip_fields_run [OF at assms(4)] len assms(6) by auto
  have uq: "uadd tlv len = tlv + len" using q assms(3,4,6) by (intro uadd_small) simp
  show ?thesis
    unfolding records_loop_round(1) [OF go record_header(1-3) [OF assms(1) refl] other] k skip q by (simp add: uq)
qed

lemma records_loop_copy:
  assumes "snd table = pre @ record_bytes r @ post" "record_valid r" "length pre + length (record_bytes r) \<le> sz"
    and "fst table + sz \<le> UINTPTR_MAX" "record_wanted rsi rt r" "q = fst table + length pre + length (record_bytes r)"
    and "fst out \<le> pos" "pos + length (record_bytes r) \<le> R" "R \<le> past out" "R \<le> UINTPTR_MAX"
    and "r' = with_fields ft r" "out' = (fst out, poke (snd out) (pos - fst out) (record_bytes r'))"
    and "pos' = pos + length (record_bytes r')"
  shows "records_loop table sz (fst table + sz) R rsi rt ft (fst table + length pre) out pos =
    (if usub (fst table + sz) 5 < q then Some (Inr (out', pos')) else records_loop table sz (fst table + sz) R rsi rt ft q out' pos')"
proof -
  obtain hdr where hdr: "hdr = le_of_word (fr_record_set_id r) @ [fr_type r, of_nat (length (fr_fields r)), fr_encoding r]"
    and at: "snd table = (pre @ hdr) @ fields_bytes (fr_fields r) @ post"
    "fst table + length pre + 5 + 0 = fst table + length (pre @ hdr)" "fields_valid (fr_fields r)"
    "length (pre @ hdr) + length (fields_bytes (fr_fields r)) \<le> sz" and len: "length hdr = 5"
    and go: "\<not> is_table_end (fst table + length pre) (fst table) sz"
    and k: "unat (of_nat (length (fr_fields r)) :: u8) = length (fr_fields r)"
    by (rule at_record [OF assms(1-3)])
  note fields = record_header [OF assms(1) refl]
  let ?c = "pos - fst out" and ?fs = "filter (field_wanted ft) (fr_fields r)"
  let ?o1 = "(fst out, poke (snd out) ?c hdr)" and ?o2 = "poke (poke (snd out) ?c hdr) (?c + 5) (fields_bytes ?fs)"
  have c: "?c + length (record_bytes r) \<le> length (snd out)" "length (fields_bytes ?fs) \<le> length (fields_bytes (fr_fields r))"
    using assms(7-9) fields_selected_shorter by auto
  have match: "\<not> ((fr_record_set_id r \<noteq> rsi \<and> rsi \<noteq> 0) \<or> (fr_type r \<noteq> rt \<and> rt \<noteq> 0))"
    using assms(5) by (auto simp: record_wanted_def)
  have room: "\<not> usub R pos < 5" using assms(7-10) by (simp add: usub_small)
  have o1: "store out pos hdr = Some ?o1" using assms(7-9) len by (intro store_ok) auto
  have "fst ?o1 \<le> pos + 5" "pos + 5 + length (fields_bytes (fr_fields r)) \<le> R" "R \<le> past ?o1"
    using assms(7-9) c len by auto
  from copy_fields_run [OF at assms(4) this assms(10), of ft 0]
  obtain tlv l where copy: "copy_fields table sz (fst table + sz) R ft (length (fr_fields r)) (fst table + length pre + 5) 0 ?o1 (pos + 5) 0 =
      Some (Inr (tlv, l, (fst out, ?o2), pos + 5 + length (fields_bytes ?fs), length ?fs))" and q: "q = tlv + l"
    using assms(6,7) len by auto
  have "store (fst out, ?o2) (pos + 3) [of_nat (length ?fs)] = Some (fst out, poke ?o2 (?c + 3) [of_nat (length ?fs)])"
    using assms(7-9) c len by (subst store_ok) auto
  also have "poke ?o2 (?c + 3) [of_nat (length ?fs)] = poke (snd out) ?c (record_bytes r')"
    using patched_record [of ?c r' "snd out" "of_nat (length (fr_fields r))"] c hdr assms(11) by simp
  finally have patch: "store (fst out, ?o2) (pos + 3) [of_nat (length ?fs)] = Some out'" using assms(12) by simp
  have pos': "pos + 5 + length (fields_bytes ?fs) = pos'" using assms(11,13) by simp
  have uq: "uadd tlv l = tlv + l" using q assms(3,4,6) by (intro uadd_small) simp
  show ?thesis
    unfolding records_loop_round(2) [OF go fields(1-3) match room fields(4) [folded hdr] o1] k copy pos' q
    by (simp add: patch uq)
qed

lemma records_loop_run:
  assumes "snd table = pre @ table_bytes rs @ post" "rs \<noteq> []" "\<forall>r \<in> set rs. record_valid r"
    and "sz = length pre + length (table_bytes rs)" "fst table + sz \<le> UINTPTR_MAX"
    and "fst out \<le> pos" "pos + length (table_bytes rs) \<le> R" "R \<le> past out" "R \<le> UINTPTR_MAX"
  shows "records_loop table sz (fst table + sz) R rsi rt ft (fst table + length pre) out pos =
    Some (Inr ((fst out, poke (snd out) (pos - fst out) (table_bytes (fru_select rsi rt ft rs))),
      pos + length (table_bytes (fru_select rsi rt ft rs))))"
  using assms
proof (induction rs arbitrary: pre out pos)
  case (Cons r rs)
  let ?T = "fst table + sz" and ?sel = "fru_select rsi rt ft"
  define q where q: "q = fst table + length pre + length (record_bytes r)"
  note prems = Cons.prems
  have T5: "usub ?T 5 = ?T - 5" using prems by (intro usub_small) auto
  have rest: "(if usub ?T 5 < q then Some (Inr (o', pos')) else records_loop table sz ?T R rsi rt ft q o' pos') =
      Some (Inr ((fst o', poke (snd o') (pos' - fst o') (table_bytes (?sel rs))), pos' + length (table_bytes (?sel rs))))"
    if "fst o' \<le> pos'" "pos' + length (table_bytes rs) \<le> R" "R \<le> past o'" for o' pos'
  proof (cases rs)
    case Nil
    then show ?thesis using T5 prems q by simp
  next
    case (Cons r' rs')
    then have "\<not> usub ?T 5 < q" using T5 prems q by simp
    then show ?thesis using Cons.IH [of "pre @ record_bytes r" o' pos'] that Cons prems q by (simp add: add.assoc)
  qed
  have at: "snd table = pre @ record_bytes r @ table_bytes rs @ post" "record_valid r" "length pre + length (record_bytes r) \<le> sz"
    using prems by simp_all
  show ?case
  proof (cases "record_wanted rsi rt r")
    case False
    then show ?thesis
      unfolding records_loop_skip [OF at prems(5) False q] using rest [of out pos] prems(6-8) by simp
  next
    case True
    let ?r' = "with_fields ft r" and ?c = "pos - fst out"
    have c: "?c + length (record_bytes ?r') + length (table_bytes rs) \<le> length (snd out)"
      "pos + length (record_bytes ?r') + length (table_bytes rs) \<le> R" "pos + length (record_bytes r) \<le> R"
      using prems(6-8) fields_selected_shorter [of "field_wanted ft" "fr_fields r"] by simp_all
    have "pos + length (record_bytes ?r') - fst out = ?c + length (record_bytes ?r')" using prems(6) by simp
    then show ?thesis
      unfolding records_loop_copy [OF at prems(5) True q prems(6) c(3) prems(8,9) refl refl refl]
      using rest [of "(fst out, poke (snd out) ?c (record_bytes ?r'))" "pos + length (record_bytes ?r')"] True prems(6,8) c
      by (simp add: poke_poke del: length_record_bytes split del: if_split)
  qed
qed simp

section \<open>Building a table\<close>

text \<open>The calls of \<open>encode_fru_record\<close> for a list of records, as long as they succeed.\<close>

fun build_table :: "object \<Rightarrow> nat \<Rightarrow> nat \<Rightarrow> fru_record list \<Rightarrow> (object \<times> nat) option" where
  "build_table tab tot cur [] = Some (tab, cur)"
| "build_table tab tot cur (r # rs) =
     (case encode_fru_record (Some tab) tot (Some cur) (fr_record_set_id r) (fr_type r) (of_nat (length (fr_fields r)))
        (fr_encoding r) (Some (fields_bytes (fr_fields r))) (length (fields_bytes (fr_fields r))) of
        Some (rc, Some tab, Some cur) \<Rightarrow> if rc = PLDM_SUCCESS then build_table tab tot cur rs else None
      | _ \<Rightarrow> None)"

lemma encode_fru_record_appends:
  assumes "cur + length (record_bytes r) \<le> tot" "obj_ok tot tab" "fr_fields r \<noteq> []"
  shows "encode_fru_record (Some tab) tot (Some cur) (fr_record_set_id r) (fr_type r) (of_nat (length (fr_fields r)))
      (fr_encoding r) (Some (fields_bytes (fr_fields r))) (length (fields_bytes (fr_fields r))) =
    Some (PLDM_SUCCESS, Some (fst tab, poke (snd tab) cur (record_bytes r)), Some (cur + length (record_bytes r)))"
proof -
  let ?hdr = "le_of_word (fr_record_set_id r) @ [fr_type r, of_nat (length (fr_fields r)), fr_encoding r]"
  let ?n = "length (fields_bytes (fr_fields r))"
  have tot: "cur + 5 + ?n \<le> tot" "tot \<le> length (snd tab)" "tot \<le> SIZE_MAX" "?n \<noteq> 0"
    using assms by (auto simp: obj_ok_def neq_Nil_conv)
  then have guards: "\<not> SIZE_MAX - cur < 5" "\<not> SIZE_MAX - (cur + 5) < ?n" "\<not> tot < cur + 5" "\<not> tot - (cur + 5) < ?n"
    by linarith+
  have hdr: "store tab (fst tab + cur) ?hdr = Some (fst tab, poke (snd tab) cur ?hdr)"
    using tot by (subst store_ok) auto
  have tlvs: "store (fst tab, poke (snd tab) cur ?hdr) (fst tab + (cur + 5)) (fields_bytes (fr_fields r)) =
      Some (fst tab, poke (snd tab) cur (record_bytes r))"
    using tot by (subst store_ok) (auto simp: poke_poke record_bytes_def)
  show ?thesis
    unfolding encode_fru_record_def using guards hdr tlvs tot(4) by simp
qed

lemma build_table_bytes:
  assumes "cur + length (table_bytes rs) \<le> tot" "obj_ok tot tab" "\<forall>r \<in> set rs. fr_fields r \<noteq> []"
  shows "build_table tab tot cur rs =
    Some ((fst tab, poke (snd tab) cur (table_bytes rs)), cur + length (table_bytes rs))"
  using assms
proof (induction rs arbitrary: tab cur)
  case (Cons r rs)
  let ?tab = "(fst tab, poke (snd tab) cur (record_bytes r))"
  note prems = Cons.prems
  have len: "cur + length (record_bytes r) \<le> length (snd tab)" using prems by (auto simp: obj_ok_def)
  then have "obj_ok tot ?tab" using prems(2) by (simp add: obj_ok_def)
  moreover have "cur + length (record_bytes r) \<le> tot" "fr_fields r \<noteq> []" using prems by simp_all
  ultimately show ?case
    using Cons.IH [of "cur + length (record_bytes r)" ?tab] prems len
      encode_fru_record_appends [of cur r tot tab]
    by (simp add: poke_poke del: length_record_bytes)
qed simp

text \<open>
  C30. FRU records are found again. The records given to \<open>encode_fru_record\<close> one after the other form a
  table, and \<open>get_fru_record_by_option\<close> on that table returns exactly the records whose record set and record
  type are asked for (zero asks for all), in order and each with its header, cut to the fields of the type
  asked for, with the count of the fields corrected; nothing else in the result object changes. The result
  object is as large as the table, or larger, and the table has at least the eight bytes the search insists on.
\<close>

theorem fru_records_found:
  assumes "rs \<noteq> []" "\<forall>r \<in> set rs. record_valid r \<and> fr_fields r \<noteq> []"
    and "n = length (table_bytes rs)" "8 \<le> n" "n \<le> tot" "obj_ok tot tab" "n \<le> room" "obj_ok room out"
  shows "\<exists>tab'. build_table tab tot 0 rs = Some (tab', n) \<and>
    get_fru_record_by_option (Some tab') n (Some out) (Some room) rsi rt ft =
      Some (PLDM_SUCCESS, Some (fst out, poke (snd out) 0 (table_bytes (fru_select rsi rt ft rs))),
        Some (length (table_bytes (fru_select rsi rt ft rs))))"
proof (intro exI conjI)
  let ?tab = "(fst tab, poke (snd tab) 0 (table_bytes rs))"
  have bounds: "fst tab + n \<le> UINTPTR_MAX" "fst out + room \<le> UINTPTR_MAX" "room \<le> length (snd out)"
    using assms by (auto simp: obj_ok_def)
  then have guards: "\<not> UINTPTR_MAX - n < fst tab" "\<not> UINTPTR_MAX - room < fst out" by linarith+
  show "build_table tab tot 0 rs = Some (?tab, n)"
    using assms build_table_bytes [of 0 rs tot tab] by simp
  have "records_loop ?tab n (fst ?tab + n) (fst out + room) rsi rt ft (fst ?tab + length ([] :: u8 list)) out (fst out) =
    Some (Inr ((fst out, poke (snd out) (fst out - fst out) (table_bytes (fru_select rsi rt ft rs))),
      fst out + length (table_bytes (fru_select rsi rt ft rs))))"
    using assms bounds by (intro records_loop_run [where post = "drop n (snd tab)"]) (auto simp: poke_def)
  then show "get_fru_record_by_option (Some ?tab) n (Some out) (Some room) rsi rt ft =
      Some (PLDM_SUCCESS, Some (fst out, poke (snd out) 0 (table_bytes (fru_select rsi rt ft rs))),
        Some (length (table_bytes (fru_select rsi rt ft rs))))"
    using assms(4) guards by (simp add: get_fru_record_by_option_def)
qed

definition demo_records :: "fru_record list" where
  "demo_records =
     [\<lparr>fr_record_set_id = 1, fr_type = 1, fr_encoding = 1, fr_fields = [(2, [0x41]), (3, [0x42, 0x43])]\<rparr>,
      \<lparr>fr_record_set_id = 2, fr_type = 1, fr_encoding = 1, fr_fields = [(3, [0x44])]\<rparr>]"

lemma demo_records_facts:
  "demo_records \<noteq> []" "\<forall>r \<in> set demo_records. record_valid r \<and> fr_fields r \<noteq> []" "length (table_bytes demo_records) = 20"
  "table_bytes (fru_select 1 0 3 demo_records) = [1, 0, 1, 1, 1, 3, 2, 0x42, 0x43]"
  by (auto simp: demo_records_def record_valid_def fields_valid_def table_bytes_def record_bytes_def
      record_wanted_def field_wanted_def le_of_word_16)

theorem fru_records_found_witness:
  "\<exists>tab'. build_table (4096, replicate 24 0) 24 0 demo_records = Some (tab', 20) \<and>
    get_fru_record_by_option (Some tab') 20 (Some (8192, replicate 20 0)) (Some 20) 1 0 3 =
      Some (PLDM_SUCCESS, Some (8192, [1, 0, 1, 1, 1, 3, 2, 0x42, 0x43] @ replicate 11 0), Some 9)"
proof -
  have "obj_ok 24 (4096, replicate 24 0)" "obj_ok 20 (8192, replicate 20 0)" by (simp_all add: obj_ok_def)
  then have "\<exists>tab'. build_table (4096, replicate 24 0) 24 0 demo_records = Some (tab', 20) \<and>
    get_fru_record_by_option (Some tab') 20 (Some (8192, replicate 20 0)) (Some 20) 1 0 3 =
      Some (PLDM_SUCCESS, Some (8192, poke (replicate 20 0) 0 (table_bytes (fru_select 1 0 3 demo_records))),
        Some (length (table_bytes (fru_select 1 0 3 demo_records))))"
    using fru_records_found [OF demo_records_facts(1,2) demo_records_facts(3) [symmetric],
        of 24 "(4096, replicate 24 0)" 20 "(8192, replicate 20 0)" 1 0 3] by simp
  then show ?thesis unfolding demo_records_facts(4) by (simp add: poke_def numeral_eq_Suc)
qed

theorem fru_search_safe_witness:
  "\<exists>rc out' n. get_fru_record_by_option (Some (4096, replicate 9 0xff)) 9 (Some (8192, replicate 6 0)) (Some 5) 0 0 0 =
      Some (rc, Some out', Some n) \<and> n \<le> 5 \<and> fst out' = 8192 \<and> length (snd out') = 6 \<and> drop 5 (snd out') = [0]"
proof -
  have "obj_ok 9 (4096, replicate 9 0xff)" "obj_ok 5 (8192, replicate 6 0)" by (simp_all add: obj_ok_def)
  from fru_search_safe [OF this, of 0 0 0] show ?thesis by simp
qed

section \<open>Messages\<close>

text \<open>
  FRU messages survive the wire: the metadata response, the request for records by option, the response
  with any data, as a pointer to its bytes, and the request for the record table, each encoded into a message
  of the size the specification gives it.
\<close>

theorem fru_messages_roundtrip:
  assumes "instance_id \<le> PLDM_INSTANCE_MAX" "msg_holds n msg" "19 \<le> n" "6 + length d \<le> n"
  shows "(\<exists>m. encode_get_fru_record_table_metadata_resp instance_id 0 (fm_major_version v) (fm_minor_version v)
        (fm_table_maximum_size v) (fm_table_length v) (fm_total_record_set_identifiers v) (fm_total_table_records v)
        (fm_checksum v) (Some msg) = Some (0, Some m) \<and>
      decode_get_fru_record_table_metadata_resp (Some m) 19 (Some v0) = Some (0, Some (v\<lparr>fm_completion_code := 0\<rparr>))) \<and>
    (\<exists>m. encode_get_fru_record_by_option_req instance_id (fo_data_transfer_handle q) (fo_fru_table_handle q)
        (fo_record_set_identifier q) (fo_record_type q) (fo_field_type q) (fo_transfer_op_flag q) (Some msg) 11 = Some (0, Some m) \<and>
      decode_get_fru_record_by_option_req (Some m) 11 (Some q0) = Some (0, Some q)) \<and>
    (\<exists>m. encode_get_fru_record_by_option_resp instance_id 0 h flag (Some d) (length d) (Some msg) (6 + length d) = Some (0, Some m) \<and>
      decode_get_fru_record_by_option_resp (Some m) (6 + length d) (Some r0) =
        Some (0, Some (r0\<lparr>fs_completion_code := 0, fs_next_transfer_handle := h, fs_transfer_flag := flag,
          fs_data := \<lparr>vf_ptr = Some 6, vf_length = length d\<rparr>\<rparr>)) \<and> bytes_at (m_payload m) 6 (length d) = d) \<and>
    (\<exists>m. encode_get_fru_record_table_req instance_id h flag (Some msg) 5 = Some (0, Some m) \<and>
      decode_get_fru_record_table_req (Some m) 5 (Some t0) = Some (0, Some (h, flag)))"
proof -
  have len: "n \<le> length (m_payload msg)" using assms(2) by (simp add: msg_holds_def)
  note enc = if_msg_def if_set_def with_header_cc_ok [OF assms(1)] fill_def put_bytes_ok get_word_poked poke_poke
  have 1: "\<exists>m. encode_get_fru_record_table_metadata_resp instance_id 0 (fm_major_version v) (fm_minor_version v)
        (fm_table_maximum_size v) (fm_table_length v) (fm_total_record_set_identifiers v) (fm_total_table_records v)
        (fm_checksum v) (Some msg) = Some (0, Some m) \<and>
      decode_get_fru_record_table_metadata_resp (Some m) 19 (Some v0) = Some (0, Some (v\<lparr>fm_completion_code := 0\<rparr>))"
    using len assms(3)
    by (simp add: encode_get_fru_record_table_metadata_resp_def decode_get_fru_record_table_metadata_resp_def enc)
  have 2: "\<exists>m. encode_get_fru_record_by_option_req instance_id (fo_data_transfer_handle q) (fo_fru_table_handle q)
        (fo_record_set_identifier q) (fo_record_type q) (fo_field_type q) (fo_transfer_op_flag q) (Some msg) 11 = Some (0, Some m) \<and>
      decode_get_fru_record_by_option_req (Some m) 11 (Some q0) = Some (0, Some q)"
    using len assms(3)
    by (simp add: encode_get_fru_record_by_option_req_def decode_get_fru_record_by_option_req_def enc)
  have 3: "\<exists>m. encode_get_fru_record_by_option_resp instance_id 0 h flag (Some d) (length d) (Some msg) (6 + length d) = Some (0, Some m) \<and>
      decode_get_fru_record_by_option_resp (Some m) (6 + length d) (Some r0) =
        Some (0, Some (r0\<lparr>fs_completion_code := 0, fs_next_transfer_handle := h, fs_transfer_flag := flag,
          fs_data := \<lparr>vf_ptr = Some 6, vf_length = length d\<rparr>\<rparr>)) \<and> bytes_at (m_payload m) 6 (length d) = d"
    using len assms(3,4)
    by (simp add: encode_get_fru_record_by_option_resp_def decode_get_fru_record_by_option_resp_def enc bytes_at_poke)
  have 4: "\<exists>m. encode_get_fru_record_table_req instance_id h flag (Some msg) 5 = Some (0, Some m) \<and>
      decode_get_fru_record_table_req (Some m) 5 (Some t0) = Some (0, Some (h, flag))"
    using len assms(3)
    by (simp add: encode_get_fru_record_table_req_def decode_get_fru_record_table_req_def enc)
  from 1 2 3 4 show ?thesis by (intro conjI)
qed

theorem fru_messages_roundtrip_witness:
  "\<exists>m. encode_get_fru_record_by_option_resp 3 0 0x01020304 5 (Some [0xaa, 0xbb]) 2
      (Some \<lparr>m_hdr = hdr_of_bytes 0 0 0, m_addr = 64, m_payload = replicate 20 0\<rparr>) 8 = Some (0, Some m) \<and>
    decode_get_fru_record_by_option_resp (Some m) 8 (Some \<lparr>fs_completion_code = 1, fs_next_transfer_handle = 0,
      fs_transfer_flag = 0, fs_data = \<lparr>vf_ptr = None, vf_length = 0\<rparr>\<rparr>) =
    Some (0, Some \<lparr>fs_completion_code = 0, fs_next_transfer_handle = 0x01020304,
      fs_transfer_flag = 5, fs_data = \<lparr>vf_ptr = Some 6, vf_length = 2\<rparr>\<rparr>) \<and> bytes_at (m_payload m) 6 2 = [0xaa, 0xbb]"
proof -
  let ?msg = "\<lparr>m_hdr = hdr_of_bytes 0 0 0, m_addr = 64, m_payload = replicate 20 0\<rparr>"
  have two: "length [0xaa, 0xbb :: u8] = 2" "6 + 2 = (8 :: nat)" by simp_all
  have "msg_holds 20 ?msg" by (simp add: msg_holds_def)
  from fru_messages_roundtrip [OF _ this, where instance_id = 3 and d = "[0xaa, 0xbb]" and h = "0x01020304" and flag = 5
      and ?r0.0 = "\<lparr>fs_completion_code = 1, fs_next_transfer_handle = 0, fs_transfer_flag = 0, fs_data = \<lparr>vf_ptr = None, vf_length = 0\<rparr>\<rparr>", THEN conjunct2, THEN conjunct2, THEN conjunct1, unfolded two]
  show ?thesis by simp
qed

end
