(* ===== verification/File_Codec.thy ===== *)
theory File_Codec
  imports Msgbuf_Steps
begin

text \<open>
  The file transfer type, \<^verbatim>\<open>src/dsp/file.c\<close>: opening and closing a file and the heartbeat that keeps it open. The
  encoders write the length they used back to where they take the size of the payload from.
\<close>

abbreviation (input) PLDM_FILE :: u8 where "PLDM_FILE \<equiv> 0x07"
abbreviation (input) PLDM_FILE_CMD_DF_OPEN :: u8 where "PLDM_FILE_CMD_DF_OPEN \<equiv> 0x01"
abbreviation (input) PLDM_FILE_CMD_DF_CLOSE :: u8 where "PLDM_FILE_CMD_DF_CLOSE \<equiv> 0x02"
abbreviation (input) PLDM_FILE_CMD_DF_HEARTBEAT :: u8 where "PLDM_FILE_CMD_DF_HEARTBEAT \<equiv> 0x03"

text \<open>
  The encoders differ in header, smallest payload and steps only. \<open>payload_length\<close> is read behind the checks
  of the other pointers, without one of its own.
\<close>

definition encode_file ::
    "u8 \<Rightarrow> u8 \<Rightarrow> u8 \<Rightarrow> nat \<Rightarrow> 'v step list \<Rightarrow> 'v option \<Rightarrow> pldm_msg option \<Rightarrow> nat option \<Rightarrow>
      (int \<times> pldm_msg option \<times> nat option) option" where
  "encode_file mt instance_id cmd minsize ss src msg payload_length =
     (case (src, msg) of
        (Some v, Some m) \<Rightarrow>
          let (rc, m) = msg_pack_errno (codec_header mt instance_id PLDM_FILE cmd) m in
          if rc \<noteq> 0 then Some (rc, Some m, payload_length)
          else do {
            len \<leftarrow> payload_length;
            (rc, m, len) \<leftarrow> encode_used minsize ss v m len;
            Some (rc, Some m, Some len) }
      | _ \<Rightarrow> Some (- EINVAL, msg, payload_length))"

section \<open>DfOpen\<close>

record pldm_file_df_open_req =
  dfo_file_identifier :: u16
  dfo_file_attribute :: u16

record pldm_file_df_open_resp =
  dfor_completion_code :: u8
  dfor_file_descriptor :: u16

definition encode_pldm_file_df_open_req ::
    "u8 \<Rightarrow> pldm_file_df_open_req option \<Rightarrow> pldm_msg option \<Rightarrow> nat option \<Rightarrow> (int \<times> pldm_msg option \<times> nat option) option" where
  "encode_pldm_file_df_open_req instance_id =
     encode_file PLDM_REQUEST instance_id PLDM_FILE_CMD_DF_OPEN 4 [put dfo_file_identifier, put dfo_file_attribute]"

definition decode_pldm_file_df_open_req ::
    "pldm_msg option \<Rightarrow> nat \<Rightarrow> pldm_file_df_open_req option \<Rightarrow> (int \<times> pldm_file_df_open_req option) option" where
  "decode_pldm_file_df_open_req msg payload_length req =
     if_set (- EINVAL) msg req (decode_msg as_errno 4
       [get dfo_file_identifier_update, get dfo_file_attribute_update] pldm_msgbuf_complete_consumed payload_length)"

definition encode_pldm_file_df_open_resp ::
    "u8 \<Rightarrow> pldm_file_df_open_resp option \<Rightarrow> pldm_msg option \<Rightarrow> nat option \<Rightarrow> (int \<times> pldm_msg option \<times> nat option) option" where
  "encode_pldm_file_df_open_resp instance_id =
     encode_file PLDM_RESPONSE instance_id PLDM_FILE_CMD_DF_OPEN 3
       [put dfor_completion_code, only (\<lambda>v. dfor_completion_code v = PLDM_SUCCESS) [put dfor_file_descriptor]]"

definition decode_pldm_file_df_open_resp ::
    "pldm_msg option \<Rightarrow> nat \<Rightarrow> pldm_file_df_open_resp option \<Rightarrow> (int \<times> pldm_file_df_open_resp option) option" where
  "decode_pldm_file_df_open_resp msg payload_length resp =
     if_set (- EINVAL) msg resp (\<lambda>m v. unless_error m payload_length dfor_completion_code_update v (
       decode_msg as_errno 3
         [get dfor_completion_code_update,
          stop_with as_errno pldm_msgbuf_complete (\<lambda>v. dfor_completion_code v \<noteq> PLDM_SUCCESS),
          get dfor_file_descriptor_update]
         pldm_msgbuf_complete_consumed payload_length m v))"

section \<open>DfClose\<close>

record pldm_file_df_close_req =
  dfc_file_descriptor :: u16
  dfc_df_close_options :: u16

record pldm_file_df_close_resp =
  dfcr_completion_code :: u8

definition encode_pldm_file_df_close_req ::
    "u8 \<Rightarrow> pldm_file_df_close_req option \<Rightarrow> pldm_msg option \<Rightarrow> nat option \<Rightarrow> (int \<times> pldm_msg option \<times> nat option) option" where
  "encode_pldm_file_df_close_req instance_id =
     encode_file PLDM_REQUEST instance_id PLDM_FILE_CMD_DF_CLOSE 4 [put dfc_file_descriptor, put dfc_df_close_options]"

definition decode_pldm_file_df_close_req ::
    "pldm_msg option \<Rightarrow> nat \<Rightarrow> pldm_file_df_close_req option \<Rightarrow> (int \<times> pldm_file_df_close_req option) option" where
  "decode_pldm_file_df_close_req msg payload_length req =
     if_set (- EINVAL) msg req (decode_msg as_errno 4
       [get dfc_file_descriptor_update, get dfc_df_close_options_update] pldm_msgbuf_complete_consumed payload_length)"

definition encode_pldm_file_df_close_resp ::
    "u8 \<Rightarrow> pldm_file_df_close_resp option \<Rightarrow> pldm_msg option \<Rightarrow> nat option \<Rightarrow> (int \<times> pldm_msg option \<times> nat option) option" where
  "encode_pldm_file_df_close_resp instance_id =
     encode_file PLDM_RESPONSE instance_id PLDM_FILE_CMD_DF_CLOSE 1 [put dfcr_completion_code]"

text \<open>The completion code alone; of an empty payload it is success.\<close>

definition decode_pldm_file_df_close_resp ::
    "pldm_msg option \<Rightarrow> nat \<Rightarrow> pldm_file_df_close_resp option \<Rightarrow> (int \<times> pldm_file_df_close_resp option) option" where
  "decode_pldm_file_df_close_resp msg payload_length resp =
     if_set (- EINVAL) msg resp (\<lambda>m v. do {
       cc \<leftarrow> pldm_msg_has_error m payload_length;
       Some (0, v\<lparr>dfcr_completion_code := cc\<rparr>) })"

section \<open>DfHeartbeat\<close>

record pldm_file_df_heartbeat_req =
  dfh_file_descriptor :: u16
  dfh_requester_max_interval :: u32

record pldm_file_df_heartbeat_resp =
  dfhr_completion_code :: u8
  dfhr_responder_max_interval :: u32

definition encode_pldm_file_df_heartbeat_req ::
    "u8 \<Rightarrow> pldm_file_df_heartbeat_req option \<Rightarrow> pldm_msg option \<Rightarrow> nat option \<Rightarrow> (int \<times> pldm_msg option \<times> nat option) option" where
  "encode_pldm_file_df_heartbeat_req instance_id =
     encode_file PLDM_REQUEST instance_id PLDM_FILE_CMD_DF_HEARTBEAT 6 [put dfh_file_descriptor, put dfh_requester_max_interval]"

definition decode_pldm_file_df_heartbeat_resp ::
    "pldm_msg option \<Rightarrow> nat \<Rightarrow> pldm_file_df_heartbeat_resp option \<Rightarrow> (int \<times> pldm_file_df_heartbeat_resp option) option" where
  "decode_pldm_file_df_heartbeat_resp msg payload_length resp =
     if_set (- EINVAL) msg resp (\<lambda>m v. unless_error m payload_length dfhr_completion_code_update v (
       decode_msg as_errno 5
         [get dfhr_completion_code_update, get dfhr_responder_max_interval_update]
         pldm_msgbuf_complete_consumed payload_length m v))"

definition decode_pldm_file_df_heartbeat_req ::
    "pldm_msg option \<Rightarrow> nat \<Rightarrow> pldm_file_df_heartbeat_req option \<Rightarrow> (int \<times> pldm_file_df_heartbeat_req option) option" where
  "decode_pldm_file_df_heartbeat_req msg payload_length req =
     if_set (- EINVAL) msg req (decode_msg as_errno 6
       [get dfh_file_descriptor_update, get dfh_requester_max_interval_update] pldm_msgbuf_complete_consumed payload_length)"

definition encode_pldm_file_df_heartbeat_resp ::
    "u8 \<Rightarrow> pldm_file_df_heartbeat_resp option \<Rightarrow> pldm_msg option \<Rightarrow> nat option \<Rightarrow> (int \<times> pldm_msg option \<times> nat option) option" where
  "encode_pldm_file_df_heartbeat_resp instance_id =
     encode_file PLDM_RESPONSE instance_id PLDM_FILE_CMD_DF_HEARTBEAT 5
       [put dfhr_completion_code, only (\<lambda>v. dfhr_completion_code v = PLDM_SUCCESS) [put dfhr_responder_max_interval]]"

section \<open>Memory safety\<close>

lemma file_decoders_defined:
  assumes "ptr_holds n msg"
  shows "defined (decode_pldm_file_df_open_req msg n oreq)" "defined (decode_pldm_file_df_open_resp msg n oresp)"
    "defined (decode_pldm_file_df_close_req msg n creq)" "defined (decode_pldm_file_df_close_resp msg n cresp)"
    "defined (decode_pldm_file_df_heartbeat_req msg n hreq)" "defined (decode_pldm_file_df_heartbeat_resp msg n hresp)"
proof -
  show "defined (decode_pldm_file_df_open_req msg n oreq)"
    unfolding decode_pldm_file_df_open_req_def
    by (rule safe_msg [where I = "\<lambda>_. True", OF assms]) (rule step_keeps | simp)+
  show "defined (decode_pldm_file_df_open_resp msg n oresp)"
    unfolding decode_pldm_file_df_open_resp_def
    by (rule safe_msg_errors [where I = "\<lambda>_. True", OF assms]) (rule step_keeps | simp)+
  show "defined (decode_pldm_file_df_close_req msg n creq)"
    unfolding decode_pldm_file_df_close_req_def
    by (rule safe_msg [where I = "\<lambda>_. True", OF assms]) (rule step_keeps | simp)+
  show "defined (decode_pldm_file_df_close_resp msg n cresp)"
    using assms by (auto simp: decode_pldm_file_df_close_resp_def if_set_def defined_def ptr_holds_def msg_holds_def
        split: option.splits)
  show "defined (decode_pldm_file_df_heartbeat_req msg n hreq)"
    unfolding decode_pldm_file_df_heartbeat_req_def
    by (rule safe_msg [where I = "\<lambda>_. True", OF assms]) (rule step_keeps | simp)+
  show "defined (decode_pldm_file_df_heartbeat_resp msg n hresp)"
    unfolding decode_pldm_file_df_heartbeat_resp_def
    by (rule safe_msg_errors [where I = "\<lambda>_. True", OF assms]) (rule step_keeps | simp)+
qed

section \<open>Round trips\<close>

text \<open>The formats of the three requests and of the two responses with more than a completion code.\<close>

interpretation df_open_req: wire_format "[get dfo_file_identifier_update, get dfo_file_attribute_update]"
  "\<lambda>w. le_of_word (dfo_file_identifier w) @ le_of_word (dfo_file_attribute w) @ []" "\<lambda>w v. w :: pldm_file_df_open_req" "\<lambda>w v. True"
  by unfold_locales ((rule reads_next, (simp; fail))+, rule reads_end, rule pldm_file_df_open_req.equality, simp_all)

interpretation df_close_req: wire_format "[get dfc_file_descriptor_update, get dfc_df_close_options_update]"
  "\<lambda>w. le_of_word (dfc_file_descriptor w) @ le_of_word (dfc_df_close_options w) @ []" "\<lambda>w v. w :: pldm_file_df_close_req" "\<lambda>w v. True"
  by unfold_locales ((rule reads_next, (simp; fail))+, rule reads_end, rule pldm_file_df_close_req.equality, simp_all)

interpretation df_heartbeat_req: wire_format "[get dfh_file_descriptor_update, get dfh_requester_max_interval_update]"
  "\<lambda>w. le_of_word (dfh_file_descriptor w) @ le_of_word (dfh_requester_max_interval w) @ []" "\<lambda>w v. w :: pldm_file_df_heartbeat_req" "\<lambda>w v. True"
  by unfold_locales ((rule reads_next, (simp; fail))+, rule reads_end, rule pldm_file_df_heartbeat_req.equality, simp_all)

interpretation df_open_resp: wire_format
  "[get dfor_completion_code_update,
    stop_with as_errno pldm_msgbuf_complete (\<lambda>v. dfor_completion_code v \<noteq> PLDM_SUCCESS), get dfor_file_descriptor_update]"
  "\<lambda>w. le_of_word (dfor_completion_code w) @ le_of_word (dfor_file_descriptor w) @ []" "\<lambda>w v. w :: pldm_file_df_open_resp"
  "\<lambda>w v. dfor_completion_code w = 0"
  by unfold_locales ((rule reads_next, (simp; fail))+, rule reads_end, rule pldm_file_df_open_resp.equality, simp_all)

interpretation df_heartbeat_resp: wire_format "[get dfhr_completion_code_update, get dfhr_responder_max_interval_update]"
  "\<lambda>w. le_of_word (dfhr_completion_code w) @ le_of_word (dfhr_responder_max_interval w) @ []" "\<lambda>w v. w :: pldm_file_df_heartbeat_resp" "\<lambda>w v. True"
  by unfold_locales ((rule reads_next, (simp; fail))+, rule reads_end, rule pldm_file_df_heartbeat_resp.equality, simp_all)

lemma encode_file_writes:
  assumes "writes (steps ss) v bs" "instance_id \<le> PLDM_INSTANCE_MAX" "msg_holds n msg" "minsize \<le> n" "length bs \<le> n"
    and "mt = PLDM_REQUEST \<or> mt = PLDM_RESPONSE"
  obtains m where "encode_file mt instance_id cmd minsize ss (Some v) (Some msg) (Some n) = Some (0, Some m, Some (length bs))"
    and "msg_holds (length bs) m" "take (length bs) (m_payload m) = bs"
proof
  let ?m = "msg\<lparr>m_hdr := wire_hdr mt instance_id PLDM_FILE cmd, m_payload := poke (m_payload msg) 0 bs\<rparr>"
  have len: "n \<le> length (m_payload msg)" "int n \<le> INTMAX_MAX" "m_addr msg + n \<le> UINTPTR_MAX"
    using assms(3) by (auto simp: msg_holds_def)
  have "on_buffer_used minsize ss (m_addr msg) (m_payload msg) n v = Some (0, length bs, poke (m_payload msg) 0 bs)"
    by (rule on_buffer_used_writes [OF assms(1) len(1) assms(5,4) len(2,3)])
  then show "encode_file mt instance_id cmd minsize ss (Some v) (Some msg) (Some n) = Some (0, Some ?m, Some (length bs))"
    using assms(2,6) by (auto simp: encode_file_def encode_used_def pack_wire_hdr header_zero_sel)
  show "msg_holds (length bs) ?m" using assms(3,5) by (simp add: msg_holds_def)
  show "take (length bs) (m_payload ?m) = bs" by (simp add: take_poke_0)
qed

lemma has_error_of: "take (Suc k) (m_payload m) = cc # bs \<Longrightarrow> 0 < n \<Longrightarrow> pldm_msg_has_error m n = Some cc"
  by (cases "m_payload m") auto

lemma df_open_req_roundtrip:
  assumes "instance_id \<le> PLDM_INSTANCE_MAX" "msg_holds n msg" "4 \<le> n"
  shows "\<exists>m. encode_pldm_file_df_open_req instance_id (Some w) (Some msg) (Some n) = Some (0, Some m, Some 4) \<and>
    decode_pldm_file_df_open_req (Some m) 4 (Some v) = Some (0, Some w)"
proof -
  have "writes (steps [put dfo_file_identifier, put dfo_file_attribute]) w (le_of_word (dfo_file_identifier w) @ le_of_word (dfo_file_attribute w) @ [])"
    by (intro step_reads) simp_all
  from encode_file_writes [OF this assms(1,2), of 4 PLDM_REQUEST] assms(3)
  obtain m where m: "encode_pldm_file_df_open_req instance_id (Some w) (Some msg) (Some n) = Some (0, Some m, Some 4)"
    "msg_holds 4 m" "take 4 (m_payload m) = le_of_word (dfo_file_identifier w) @ le_of_word (dfo_file_attribute w) @ []"
    by (auto simp: encode_pldm_file_df_open_req_def)
  then show ?thesis
    using df_open_req.decode_msg_enc [where w = w and v = v and minsize = 4 and msg = m and x = as_errno
        and fin = pldm_msgbuf_complete_consumed]
    by (auto simp: decode_pldm_file_df_open_req_def if_set_def)
qed

lemma df_close_req_roundtrip:
  assumes "instance_id \<le> PLDM_INSTANCE_MAX" "msg_holds n msg" "4 \<le> n"
  shows "\<exists>m. encode_pldm_file_df_close_req instance_id (Some w) (Some msg) (Some n) = Some (0, Some m, Some 4) \<and>
    decode_pldm_file_df_close_req (Some m) 4 (Some v) = Some (0, Some w)"
proof -
  have "writes (steps [put dfc_file_descriptor, put dfc_df_close_options]) w (le_of_word (dfc_file_descriptor w) @ le_of_word (dfc_df_close_options w) @ [])"
    by (intro step_reads) simp_all
  from encode_file_writes [OF this assms(1,2), of 4 PLDM_REQUEST] assms(3)
  obtain m where m: "encode_pldm_file_df_close_req instance_id (Some w) (Some msg) (Some n) = Some (0, Some m, Some 4)"
    "msg_holds 4 m" "take 4 (m_payload m) = le_of_word (dfc_file_descriptor w) @ le_of_word (dfc_df_close_options w) @ []"
    by (auto simp: encode_pldm_file_df_close_req_def)
  then show ?thesis
    using df_close_req.decode_msg_enc [where w = w and v = v and minsize = 4 and msg = m and x = as_errno
        and fin = pldm_msgbuf_complete_consumed]
    by (auto simp: decode_pldm_file_df_close_req_def if_set_def)
qed

lemma df_heartbeat_req_roundtrip:
  assumes "instance_id \<le> PLDM_INSTANCE_MAX" "msg_holds n msg" "6 \<le> n"
  shows "\<exists>m. encode_pldm_file_df_heartbeat_req instance_id (Some w) (Some msg) (Some n) = Some (0, Some m, Some 6) \<and>
    decode_pldm_file_df_heartbeat_req (Some m) 6 (Some v) = Some (0, Some w)"
proof -
  have "writes (steps [put dfh_file_descriptor, put dfh_requester_max_interval]) w (le_of_word (dfh_file_descriptor w) @ le_of_word (dfh_requester_max_interval w) @ [])"
    by (intro step_reads) simp_all
  from encode_file_writes [OF this assms(1,2), of 6 PLDM_REQUEST] assms(3)
  obtain m where m: "encode_pldm_file_df_heartbeat_req instance_id (Some w) (Some msg) (Some n) = Some (0, Some m, Some 6)"
    "msg_holds 6 m" "take 6 (m_payload m) = le_of_word (dfh_file_descriptor w) @ le_of_word (dfh_requester_max_interval w) @ []"
    by (auto simp: encode_pldm_file_df_heartbeat_req_def)
  then show ?thesis
    using df_heartbeat_req.decode_msg_enc [where w = w and v = v and minsize = 6 and msg = m and x = as_errno
        and fin = pldm_msgbuf_complete_consumed]
    by (auto simp: decode_pldm_file_df_heartbeat_req_def if_set_def)
qed

lemma df_open_resp_roundtrip:
  assumes "instance_id \<le> PLDM_INSTANCE_MAX" "msg_holds n msg" "3 \<le> n"
  shows "\<exists>m k. encode_pldm_file_df_open_resp instance_id (Some w) (Some msg) (Some n) = Some (0, Some m, Some k) \<and>
    decode_pldm_file_df_open_resp (Some m) k (Some v) =
      Some (0, Some (if dfor_completion_code w = 0 then w else v\<lparr>dfor_completion_code := dfor_completion_code w\<rparr>))"
proof (cases "dfor_completion_code w = 0")
  case True
  have "writes (steps [put dfor_completion_code, only (\<lambda>v. dfor_completion_code v = PLDM_SUCCESS) [put dfor_file_descriptor]]) w
      (le_of_word (dfor_completion_code w) @ (le_of_word (dfor_file_descriptor w) @ []) @ [])"
    using True by (intro step_reads writes_only) simp_all
  from encode_file_writes [OF this assms(1,2), of 3 PLDM_RESPONSE] assms(3)
  obtain m where m: "encode_pldm_file_df_open_resp instance_id (Some w) (Some msg) (Some n) = Some (0, Some m, Some 3)"
    "msg_holds 3 m" "take 3 (m_payload m) = le_of_word (dfor_completion_code w) @ le_of_word (dfor_file_descriptor w) @ []"
    by (auto simp: encode_pldm_file_df_open_resp_def)
  moreover have "pldm_msg_has_error m 3 = Some 0" using m(3) True by (intro has_error_of [where k = 2]) simp_all
  ultimately show ?thesis
    using True df_open_resp.decode_msg_enc [where w = w and v = v and minsize = 3 and msg = m and x = as_errno
        and fin = pldm_msgbuf_complete_consumed]
    by (auto simp: decode_pldm_file_df_open_resp_def if_set_def unless_error_def simp del: pldm_msg_has_error.simps)
next
  case False
  have "writes (steps [put dfor_completion_code, only (\<lambda>v. dfor_completion_code v = PLDM_SUCCESS) [put dfor_file_descriptor]]) w (le_of_word (dfor_completion_code w) @ [] @ [])"
    using False by (intro step_reads writes_only) simp_all
  from encode_file_writes [OF this assms(1,2), of 3 PLDM_RESPONSE] assms(3)
  obtain m where m: "encode_pldm_file_df_open_resp instance_id (Some w) (Some msg) (Some n) = Some (0, Some m, Some 1)"
    "take (Suc 0) (m_payload m) = [dfor_completion_code w]"
    by (auto simp: encode_pldm_file_df_open_resp_def)
  moreover have "pldm_msg_has_error m 1 = Some (dfor_completion_code w)" using m(2) by (intro has_error_of) simp_all
  ultimately show ?thesis
    using False by (auto simp: decode_pldm_file_df_open_resp_def if_set_def unless_error_def simp del: pldm_msg_has_error.simps)
qed

lemma df_heartbeat_resp_roundtrip:
  assumes "instance_id \<le> PLDM_INSTANCE_MAX" "msg_holds n msg" "5 \<le> n"
  shows "\<exists>m k. encode_pldm_file_df_heartbeat_resp instance_id (Some w) (Some msg) (Some n) = Some (0, Some m, Some k) \<and>
    decode_pldm_file_df_heartbeat_resp (Some m) k (Some v) =
      Some (0, Some (if dfhr_completion_code w = 0 then w else v\<lparr>dfhr_completion_code := dfhr_completion_code w\<rparr>))"
proof (cases "dfhr_completion_code w = 0")
  case True
  have "writes (steps [put dfhr_completion_code, only (\<lambda>v. dfhr_completion_code v = PLDM_SUCCESS) [put dfhr_responder_max_interval]]) w
      (le_of_word (dfhr_completion_code w) @ (le_of_word (dfhr_responder_max_interval w) @ []) @ [])"
    using True by (intro step_reads writes_only) simp_all
  from encode_file_writes [OF this assms(1,2), of 5 PLDM_RESPONSE] assms(3)
  obtain m where m: "encode_pldm_file_df_heartbeat_resp instance_id (Some w) (Some msg) (Some n) = Some (0, Some m, Some 5)"
    "msg_holds 5 m" "take 5 (m_payload m) = le_of_word (dfhr_completion_code w) @ le_of_word (dfhr_responder_max_interval w) @ []"
    by (auto simp: encode_pldm_file_df_heartbeat_resp_def)
  moreover have "pldm_msg_has_error m 5 = Some 0" using m(3) True by (intro has_error_of [where k = 4]) simp_all
  ultimately show ?thesis
    using True df_heartbeat_resp.decode_msg_enc [where w = w and v = v and minsize = 5 and msg = m and x = as_errno
        and fin = pldm_msgbuf_complete_consumed]
    by (auto simp: decode_pldm_file_df_heartbeat_resp_def if_set_def unless_error_def simp del: pldm_msg_has_error.simps)
next
  case False
  have "writes (steps [put dfhr_completion_code, only (\<lambda>v. dfhr_completion_code v = PLDM_SUCCESS) [put dfhr_responder_max_interval]]) w (le_of_word (dfhr_completion_code w) @ [] @ [])"
    using False by (intro step_reads writes_only) simp_all
  from encode_file_writes [OF this assms(1,2), of 5 PLDM_RESPONSE] assms(3)
  obtain m where m: "encode_pldm_file_df_heartbeat_resp instance_id (Some w) (Some msg) (Some n) = Some (0, Some m, Some 1)"
    "take (Suc 0) (m_payload m) = [dfhr_completion_code w]"
    by (auto simp: encode_pldm_file_df_heartbeat_resp_def)
  moreover have "pldm_msg_has_error m 1 = Some (dfhr_completion_code w)" using m(2) by (intro has_error_of) simp_all
  ultimately show ?thesis
    using False by (auto simp: decode_pldm_file_df_heartbeat_resp_def if_set_def unless_error_def simp del: pldm_msg_has_error.simps)
qed

text \<open>
  The file transfer messages survive the wire. Each of the three requests is decoded to what was encoded;
  a successful response to the opening of a file or to a heartbeat is decoded with its descriptor or interval, and of
  any response that reports an error its completion code; the encoder reports the length it used, which is
  the one the decoder takes.
\<close>

theorem file_messages_roundtrip:
  assumes "instance_id \<le> PLDM_INSTANCE_MAX" "msg_holds n msg" "6 \<le> n"
  shows "(\<exists>m. encode_pldm_file_df_open_req instance_id (Some ro) (Some msg) (Some n) = Some (0, Some m, Some 4) \<and>
      decode_pldm_file_df_open_req (Some m) 4 (Some ro') = Some (0, Some ro)) \<and>
    (\<exists>m. encode_pldm_file_df_close_req instance_id (Some cr) (Some msg) (Some n) = Some (0, Some m, Some 4) \<and>
      decode_pldm_file_df_close_req (Some m) 4 (Some cr') = Some (0, Some cr)) \<and>
    (\<exists>m. encode_pldm_file_df_heartbeat_req instance_id (Some rh) (Some msg) (Some n) = Some (0, Some m, Some 6) \<and>
      decode_pldm_file_df_heartbeat_req (Some m) 6 (Some rh') = Some (0, Some rh)) \<and>
    (\<exists>m k. encode_pldm_file_df_open_resp instance_id (Some so) (Some msg) (Some n) = Some (0, Some m, Some k) \<and>
      decode_pldm_file_df_open_resp (Some m) k (Some so') =
        Some (0, Some (if dfor_completion_code so = 0 then so else so'\<lparr>dfor_completion_code := dfor_completion_code so\<rparr>))) \<and>
    (\<exists>m k. encode_pldm_file_df_heartbeat_resp instance_id (Some sh) (Some msg) (Some n) = Some (0, Some m, Some k) \<and>
      decode_pldm_file_df_heartbeat_resp (Some m) k (Some sh') =
        Some (0, Some (if dfhr_completion_code sh = 0 then sh else sh'\<lparr>dfhr_completion_code := dfhr_completion_code sh\<rparr>)))"
  using assms df_open_req_roundtrip [OF assms(1,2), of ro ro'] df_close_req_roundtrip [OF assms(1,2), of cr cr']
    df_heartbeat_req_roundtrip [OF assms(1-3), of rh rh'] df_open_resp_roundtrip [OF assms(1,2), of so so']
    df_heartbeat_resp_roundtrip [OF assms(1,2), of sh sh']
  by simp

theorem file_messages_roundtrip_witness:
  "\<exists>m. encode_pldm_file_df_heartbeat_req 7 (Some \<lparr>dfh_file_descriptor = 0x1234, dfh_requester_max_interval = 5000\<rparr>)
      (Some \<lparr>m_hdr = hdr_of_bytes 0 0 0, m_addr = 64, m_payload = replicate 8 0\<rparr>) (Some 8) = Some (0, Some m, Some 6) \<and>
    decode_pldm_file_df_heartbeat_req (Some m) 6 (Some \<lparr>dfh_file_descriptor = 0, dfh_requester_max_interval = 0\<rparr>) =
      Some (0, Some \<lparr>dfh_file_descriptor = 0x1234, dfh_requester_max_interval = 5000\<rparr>)"
proof -
  have "msg_holds 8 \<lparr>m_hdr = hdr_of_bytes 0 0 0, m_addr = 64, m_payload = replicate 8 0\<rparr>" by (simp add: msg_holds_def)
  from file_messages_roundtrip [OF _ this, of 7, THEN conjunct2, THEN conjunct2, THEN conjunct1] show ?thesis by simp
qed

end
