(* ===== verification/Bios_Table.thy ===== *)
theory Bios_Table
  imports Struct_Access Edac
begin

text \<open>
  BIOS tables, \<^verbatim>\<open>src/dsp/bios_table.c\<close>: entries of the string, attribute and attribute value tables, the iterator over
  a table, searches, the update of a value, and the padding and checksum at the end. A pointer to an entry is
  an object and an address in it; an access outside of the object is undefined, and so is a failed assertion.
  A table that is built goes through \<open>void *entry\<close>, the object that starts there.
\<close>

type_synonym ptr = "object \<times> nat"

abbreviation (input) PLDM_BIOS_ENUMERATION :: u8 where "PLDM_BIOS_ENUMERATION \<equiv> 0x00"
abbreviation (input) PLDM_BIOS_STRING :: u8 where "PLDM_BIOS_STRING \<equiv> 0x01"
abbreviation (input) PLDM_BIOS_INTEGER :: u8 where "PLDM_BIOS_INTEGER \<equiv> 0x03"
abbreviation (input) PLDM_BIOS_ENUMERATION_READ_ONLY :: u8 where "PLDM_BIOS_ENUMERATION_READ_ONLY \<equiv> 0x80"
abbreviation (input) PLDM_BIOS_STRING_READ_ONLY :: u8 where "PLDM_BIOS_STRING_READ_ONLY \<equiv> 0x81"
abbreviation (input) PLDM_BIOS_INTEGER_READ_ONLY :: u8 where "PLDM_BIOS_INTEGER_READ_ONLY \<equiv> 0x83"

text \<open>Sizes of the structures, each with one byte of its variable part, and of what comes before it.\<close>

abbreviation (input) SIZEOF_STRING_ENTRY :: nat where "SIZEOF_STRING_ENTRY \<equiv> 5"
abbreviation (input) SIZEOF_ATTR_ENTRY :: nat where "SIZEOF_ATTR_ENTRY \<equiv> 6"
abbreviation (input) SIZEOF_VALUE_ENTRY :: nat where "SIZEOF_VALUE_ENTRY \<equiv> 4"
abbreviation (input) NAME :: nat where "NAME \<equiv> 4"
abbreviation (input) METADATA :: nat where "METADATA \<equiv> 5"
abbreviation (input) VALUE :: nat where "VALUE \<equiv> 3"

definition deref :: "ptr \<Rightarrow> nat \<Rightarrow> 'a::len word option" where
  "deref p off = load_word (fst p) (snd p + off)"

text \<open>The macro \<open>ATTR_TYPE_EXPECT\<close>.\<close>

definition type_expected :: "u8 \<Rightarrow> u8 \<Rightarrow> bool" where
  "type_expected ty expected \<longleftrightarrow> ty = expected \<or> ty = (expected OR 0x80)"

definition strlen :: "u8 list \<Rightarrow> nat option" where
  "strlen s = (if 0 \<in> set s then Some (length (takeWhile (\<lambda>c. c \<noteq> 0) s)) else None)"

section \<open>String table entries\<close>

text \<open>The static counter: its value, and its next value.\<close>

definition get_bios_string_handle :: "u16 \<Rightarrow> (u16 \<times> u16) option" where
  "get_bios_string_handle counter = (if counter = 0xffff then None else Some (counter, counter + 1))"

definition pldm_bios_table_string_entry_encode_length :: "u16 \<Rightarrow> nat" where
  "pldm_bios_table_string_entry_encode_length string_length = SIZEOF_STRING_ENTRY - 1 + unat string_length"

definition pldm_bios_table_string_entry_encode ::
    "u16 \<Rightarrow> object option \<Rightarrow> nat \<Rightarrow> u8 list option \<Rightarrow> u16 \<Rightarrow> (int \<times> object option \<times> u16) option" where
  "pldm_bios_table_string_entry_encode counter entry entry_length str str_length =
     (if str_length = 0 then Some (PLDM_ERROR_INVALID_DATA, entry, counter)
      else case (entry, str) of
        (Some ent, Some s) \<Rightarrow>
          if entry_length < pldm_bios_table_string_entry_encode_length str_length
          then Some (PLDM_ERROR_INVALID_LENGTH, entry, counter)
          else if entry_length - (SIZEOF_STRING_ENTRY - 1) < unat str_length
          then Some (PLDM_ERROR_INVALID_LENGTH, entry, counter)
          else do {
            (handle, counter) \<leftarrow> get_bios_string_handle counter;
            if length s < unat str_length then None
            else do {
              ent \<leftarrow> store ent (fst ent) (le_of_word handle @ le_of_word str_length @ take (unat str_length) s);
              Some (PLDM_SUCCESS, Some ent, counter) } }
      | _ \<Rightarrow> Some (PLDM_ERROR_INVALID_DATA, entry, counter))"

definition pldm_bios_table_string_entry_decode_handle :: "ptr \<Rightarrow> u16 option" where
  "pldm_bios_table_string_entry_decode_handle entry = deref entry 0"

definition pldm_bios_table_string_entry_decode_string_length :: "ptr \<Rightarrow> u16 option" where
  "pldm_bios_table_string_entry_decode_string_length entry = deref entry 2"

definition pldm_bios_table_string_entry_decode_string ::
    "ptr option \<Rightarrow> u8 list option \<Rightarrow> nat \<Rightarrow> (int \<times> u8 list option) option" where
  "pldm_bios_table_string_entry_decode_string entry buffer sz =
     (case (entry, buffer) of
        (Some e, Some buf) \<Rightarrow>
          if sz = 0 then Some (PLDM_ERROR_INVALID_LENGTH, buffer)
          else do {
            len \<leftarrow> pldm_bios_table_string_entry_decode_string_length e;
            let n = (if unat len < sz - 1 then unat len else sz - 1);
            bs \<leftarrow> load (fst e) (snd e + NAME) n;
            if length buf < n + 1 then None
            else Some (PLDM_SUCCESS, Some (poke buf 0 (bs @ [0]))) }
      | _ \<Rightarrow> Some (PLDM_ERROR_INVALID_DATA, buffer))"

text \<open>A length above \<open>SSIZE_MAX\<close> is reported as -1 by all of these functions.\<close>

definition as_ssize :: "nat \<Rightarrow> int" where
  "as_ssize len = (if len > SSIZE_MAX then -1 else int len)"

definition string_table_entry_length :: "ptr \<Rightarrow> int option" where
  "string_table_entry_length entry = do {
     len \<leftarrow> pldm_bios_table_string_entry_decode_string_length entry;
     Some (as_ssize (SIZEOF_STRING_ENTRY - 1 + unat len)) }"

section \<open>Attribute table entries\<close>

definition get_bios_attr_handle :: "u16 \<Rightarrow> (u16 \<times> u16) option" where
  "get_bios_attr_handle counter = (if counter = 0xffff then None else Some (counter, counter + 1))"

definition attr_table_entry_encode_header ::
    "u16 \<Rightarrow> object \<Rightarrow> nat \<Rightarrow> u8 \<Rightarrow> u16 \<Rightarrow> (int \<times> object \<times> u16) option" where
  "attr_table_entry_encode_header counter entry len attr_type string_handle =
     (if SIZEOF_ATTR_ENTRY > len then Some (PLDM_ERROR_INVALID_LENGTH, entry, counter)
      else do {
        (handle, counter) \<leftarrow> get_bios_attr_handle counter;
        entry \<leftarrow> store entry (fst entry) (le_of_word handle @ [attr_type] @ le_of_word string_handle);
        Some (PLDM_SUCCESS, entry, counter) })"

definition pldm_bios_table_attr_entry_decode_attribute_handle :: "ptr \<Rightarrow> u16 option" where
  "pldm_bios_table_attr_entry_decode_attribute_handle entry = deref entry 0"

definition pldm_bios_table_attr_entry_decode_attribute_type :: "ptr \<Rightarrow> u8 option" where
  "pldm_bios_table_attr_entry_decode_attribute_type entry = deref entry 2"

definition pldm_bios_table_attr_entry_decode_string_handle :: "ptr \<Rightarrow> u16 option" where
  "pldm_bios_table_attr_entry_decode_string_handle entry = deref entry 3"

text \<open>Encoding the header, then the metadata behind it; the lengths were checked before.\<close>

definition attr_entry_encode ::
    "u16 \<Rightarrow> object \<Rightarrow> nat \<Rightarrow> u8 \<Rightarrow> u16 \<Rightarrow> u8 list option \<Rightarrow> (int \<times> object option \<times> u16) option" where
  "attr_entry_encode counter entry entry_length attr_type name_handle metadata = do {
     (rc, entry, counter) \<leftarrow> attr_table_entry_encode_header counter entry entry_length attr_type name_handle;
     if rc \<noteq> PLDM_SUCCESS then Some (rc, Some entry, counter)
     else do {
       bs \<leftarrow> metadata;
       entry \<leftarrow> store entry (fst entry + METADATA) bs;
       Some (PLDM_SUCCESS, Some entry, counter) } }"

subsection \<open>Enumerations\<close>

record pldm_bios_table_attr_entry_enum_info =
  ei_name_handle :: u16
  ei_read_only :: bool
  ei_pv_num :: u8
  ei_pv_handle :: "u16 list"
  ei_def_num :: u8
  ei_def_index :: "u8 list"

definition pldm_bios_table_attr_entry_enum_encode_length :: "u8 \<Rightarrow> u8 \<Rightarrow> nat" where
  "pldm_bios_table_attr_entry_enum_encode_length pv_num def_num =
     SIZEOF_ATTR_ENTRY - 1 + 1 + unat pv_num * 2 + 1 + unat def_num"

definition pldm_bios_table_attr_entry_enum_encode ::
    "u16 \<Rightarrow> object option \<Rightarrow> nat \<Rightarrow> pldm_bios_table_attr_entry_enum_info option \<Rightarrow> (int \<times> object option \<times> u16) option" where
  "pldm_bios_table_attr_entry_enum_encode counter entry entry_length info =
     (case (entry, info) of
        (Some ent, Some i) \<Rightarrow>
          if entry_length < pldm_bios_table_attr_entry_enum_encode_length (ei_pv_num i) (ei_def_num i)
          then Some (PLDM_ERROR_INVALID_LENGTH, entry, counter)
          else attr_entry_encode counter ent entry_length
            (if ei_read_only i then PLDM_BIOS_ENUMERATION_READ_ONLY else PLDM_BIOS_ENUMERATION) (ei_name_handle i)
            (if length (ei_pv_handle i) < unat (ei_pv_num i) \<or> length (ei_def_index i) < unat (ei_def_num i) then None
             else Some ([ei_pv_num i] @ concat (map le_of_word (take (unat (ei_pv_num i)) (ei_pv_handle i))) @
                        [ei_def_num i] @ take (unat (ei_def_num i)) (ei_def_index i)))
      | _ \<Rightarrow> Some (PLDM_ERROR_INVALID_DATA, entry, counter))"

definition pldm_bios_table_attr_entry_enum_decode_pv_num :: "ptr option \<Rightarrow> u8 option \<Rightarrow> (int \<times> u8 option) option" where
  "pldm_bios_table_attr_entry_enum_decode_pv_num entry pv_num =
     (case (entry, pv_num) of
        (Some e, Some _) \<Rightarrow> do {
          ty \<leftarrow> deref e 2;
          if \<not> type_expected ty PLDM_BIOS_ENUMERATION then Some (PLDM_ERROR_INVALID_DATA, pv_num)
          else do { n \<leftarrow> deref e METADATA; Some (PLDM_SUCCESS, Some n) } }
      | _ \<Rightarrow> Some (PLDM_ERROR_INVALID_DATA, pv_num))"

definition pldm_bios_table_attr_entry_enum_decode_def_num :: "ptr option \<Rightarrow> u8 option \<Rightarrow> (int \<times> u8 option) option" where
  "pldm_bios_table_attr_entry_enum_decode_def_num entry def_num =
     (case (entry, def_num) of
        (Some e, Some _) \<Rightarrow> do {
          ty \<leftarrow> deref e 2;
          if \<not> type_expected ty PLDM_BIOS_ENUMERATION then Some (PLDM_ERROR_INVALID_DATA, def_num)
          else do {
            pv_num \<leftarrow> deref e METADATA;
            n \<leftarrow> deref e (METADATA + 1 + 2 * unat (pv_num :: u8));
            Some (PLDM_SUCCESS, Some n) } }
      | _ \<Rightarrow> Some (PLDM_ERROR_INVALID_DATA, def_num))"

text \<open>The loop over the handles of the possible values.\<close>

fun decode_hdls :: "ptr \<Rightarrow> nat \<Rightarrow> nat \<Rightarrow> u16 list \<Rightarrow> u16 list option" where
  "decode_hdls e i 0 hdls = Some hdls"
| "decode_hdls e i (Suc k) hdls = do {
     h \<leftarrow> deref e (METADATA + 1 + i * 2);
     if length hdls \<le> i then None else decode_hdls e (i + 1) k (hdls[i := h]) }"

definition pldm_bios_table_attr_entry_enum_decode_pv_hdls ::
    "ptr option \<Rightarrow> u16 list option \<Rightarrow> u8 \<Rightarrow> (int \<times> u16 list option) option" where
  "pldm_bios_table_attr_entry_enum_decode_pv_hdls entry pv_hdls pv_num =
     (case (entry, pv_hdls) of
        (Some e, Some hdls) \<Rightarrow> do {
          ty \<leftarrow> deref e 2;
          if \<not> type_expected ty PLDM_BIOS_ENUMERATION then Some (PLDM_ERROR_INVALID_DATA, pv_hdls)
          else do {
            num \<leftarrow> deref e METADATA;
            hdls \<leftarrow> decode_hdls e 0 (unat (if num < pv_num then num else pv_num)) hdls;
            Some (PLDM_SUCCESS, Some hdls) } }
      | _ \<Rightarrow> Some (PLDM_ERROR_INVALID_DATA, pv_hdls))"

text \<open>The error of reading the number is ignored; the number is zero then.\<close>

definition def_num_or_zero :: "ptr \<Rightarrow> u8 option" where
  "def_num_or_zero entry = do {
     (_, num) \<leftarrow> pldm_bios_table_attr_entry_enum_decode_def_num (Some entry) (Some 0);
     num }"

definition pldm_bios_table_attr_entry_enum_decode_def_indices :: "ptr \<Rightarrow> u8 list \<Rightarrow> u8 \<Rightarrow> (u8 \<times> u8 list) option" where
  "pldm_bios_table_attr_entry_enum_decode_def_indices entry def_indices def_num = do {
     num \<leftarrow> def_num_or_zero entry;
     let num = (if num < def_num then num else def_num);
     pv_num \<leftarrow> deref entry METADATA;
     bs \<leftarrow> load (fst entry) (snd entry + METADATA + 1 + unat (pv_num :: u8) * 2 + 1) (unat num);
     if length def_indices < unat num then None else Some (num, poke def_indices 0 bs) }"

definition attr_table_entry_length_enum :: "ptr \<Rightarrow> int option" where
  "attr_table_entry_length_enum entry = do {
     pv_num \<leftarrow> deref entry METADATA;
     def_num \<leftarrow> def_num_or_zero entry;
     Some (as_ssize (pldm_bios_table_attr_entry_enum_encode_length pv_num def_num)) }"

subsection \<open>Strings\<close>

record pldm_bios_table_attr_entry_string_info =
  si_name_handle :: u16
  si_read_only :: bool
  si_string_type :: u8
  si_min_length :: u16
  si_max_length :: u16
  si_def_length :: u16
  si_def_string :: "u8 list option"

definition pldm_bios_table_attr_entry_string_encode_length :: "u16 \<Rightarrow> nat" where
  "pldm_bios_table_attr_entry_string_encode_length def_str_len = SIZEOF_ATTR_ENTRY - 1 + 7 + unat def_str_len"

text \<open>With a result, the message for the caller.\<close>

definition pldm_bios_table_attr_entry_string_info_check ::
    "pldm_bios_table_attr_entry_string_info \<Rightarrow> (int \<times> string option) option" where
  "pldm_bios_table_attr_entry_string_info_check i =
     (if si_min_length i > si_max_length i
      then Some (PLDM_ERROR_INVALID_DATA, Some ''MinimumStingLength should not be greater than MaximumStringLength'')
      else if si_min_length i = si_max_length i \<and> si_def_length i \<noteq> si_min_length i
      then Some (PLDM_ERROR_INVALID_DATA, Some ''Wrong DefaultStringLength'')
      else if si_def_length i > si_max_length i \<or> si_def_length i < si_min_length i
      then Some (PLDM_ERROR_INVALID_DATA, Some ''Wrong DefaultStringLength'')
      else if si_string_type i > 5 \<and> si_string_type i \<noteq> 0xff
      then Some (PLDM_ERROR_INVALID_DATA, Some ''Wrong StringType'')
      else case si_def_string i of
        None \<Rightarrow> Some (PLDM_SUCCESS, None)
      | Some s \<Rightarrow> do {
          n \<leftarrow> strlen s;
          Some (if unat (si_def_length i) \<noteq> n
                then (PLDM_ERROR_INVALID_DATA, Some ''Length of DefaultString should be equal to DefaultStringLength'')
                else (PLDM_SUCCESS, None)) })"

text \<open>Without a default string its bytes are left as they are.\<close>

definition pldm_bios_table_attr_entry_string_encode ::
    "u16 \<Rightarrow> object option \<Rightarrow> nat \<Rightarrow> pldm_bios_table_attr_entry_string_info option \<Rightarrow> (int \<times> object option \<times> u16) option" where
  "pldm_bios_table_attr_entry_string_encode counter entry entry_length info =
     (case (entry, info) of
        (Some ent, Some i) \<Rightarrow>
          if entry_length < pldm_bios_table_attr_entry_string_encode_length (si_def_length i)
          then Some (PLDM_ERROR_INVALID_LENGTH, entry, counter)
          else do {
            (rc, _) \<leftarrow> pldm_bios_table_attr_entry_string_info_check i;
            if rc \<noteq> PLDM_SUCCESS then Some (PLDM_ERROR_INVALID_DATA, entry, counter)
            else attr_entry_encode counter ent entry_length
              (if si_read_only i then PLDM_BIOS_STRING_READ_ONLY else PLDM_BIOS_STRING) (si_name_handle i)
              (case si_def_string i of
                 Some s \<Rightarrow> if length s < unat (si_def_length i) then None
                   else Some ([si_string_type i] @ le_of_word (si_min_length i) @ le_of_word (si_max_length i) @
                              le_of_word (si_def_length i) @ take (unat (si_def_length i)) s)
               | None \<Rightarrow> Some ([si_string_type i] @ le_of_word (si_min_length i) @ le_of_word (si_max_length i) @
                              le_of_word (si_def_length i))) }
      | _ \<Rightarrow> Some (PLDM_ERROR_INVALID_DATA, entry, counter))"

definition pldm_bios_table_attr_entry_string_decode_def_string_length :: "ptr option \<Rightarrow> u16 option \<Rightarrow> (int \<times> u16 option) option" where
  "pldm_bios_table_attr_entry_string_decode_def_string_length entry def_string_length =
     (case (entry, def_string_length) of
        (Some e, Some _) \<Rightarrow> do {
          ty \<leftarrow> deref e 2;
          if \<not> type_expected ty PLDM_BIOS_STRING then Some (PLDM_ERROR_INVALID_DATA, def_string_length)
          else do { n \<leftarrow> deref e (METADATA + 5); Some (PLDM_SUCCESS, Some n) } }
      | _ \<Rightarrow> Some (PLDM_ERROR_INVALID_DATA, def_string_length))"

definition pldm_bios_table_attr_entry_string_decode_string_type :: "ptr \<Rightarrow> u8 option" where
  "pldm_bios_table_attr_entry_string_decode_string_type entry = deref entry METADATA"

definition pldm_bios_table_attr_entry_string_decode_max_length :: "ptr \<Rightarrow> u16 option" where
  "pldm_bios_table_attr_entry_string_decode_max_length entry = deref entry (METADATA + 3)"

definition pldm_bios_table_attr_entry_string_decode_min_length :: "ptr \<Rightarrow> u16 option" where
  "pldm_bios_table_attr_entry_string_decode_min_length entry = deref entry (METADATA + 1)"

text \<open>The length, cut to the buffer, is stored in 16 bits.\<close>

definition pldm_bios_table_attr_entry_string_decode_def_string ::
    "ptr option \<Rightarrow> u8 list option \<Rightarrow> nat \<Rightarrow> (u16 \<times> u8 list option) option" where
  "pldm_bios_table_attr_entry_string_decode_def_string entry buffer sz =
     (case (entry, buffer) of
        (Some e, Some buf) \<Rightarrow>
          if sz = 0 then Some (0, buffer)
          else do {
            (rc, len) \<leftarrow> pldm_bios_table_attr_entry_string_decode_def_string_length entry (Some 0);
            if rc \<noteq> PLDM_SUCCESS then Some (0, buffer)
            else do {
              len \<leftarrow> len;
              let len = (if unat len < sz - 1 then len else of_nat (sz - 1));
              bs \<leftarrow> load (fst e) (snd e + METADATA + 7) (unat len);
              if length buf < unat len + 1 then None
              else Some (len, Some (poke buf 0 (bs @ [0]))) } }
      | _ \<Rightarrow> Some (0, buffer))"

definition attr_table_entry_length_string :: "ptr \<Rightarrow> int option" where
  "attr_table_entry_length_string entry = do {
     (_, len) \<leftarrow> pldm_bios_table_attr_entry_string_decode_def_string_length (Some entry) (Some 0);
     len \<leftarrow> len;
     Some (as_ssize (pldm_bios_table_attr_entry_string_encode_length len)) }"

subsection \<open>Integers\<close>

record pldm_bios_table_attr_entry_integer_info =
  ii_name_handle :: u16
  ii_read_only :: bool
  ii_lower_bound :: u64
  ii_upper_bound :: u64
  ii_scalar_increment :: u32
  ii_default_value :: u64

definition pldm_bios_table_attr_entry_integer_encode_length :: nat where
  "pldm_bios_table_attr_entry_integer_encode_length = SIZEOF_ATTR_ENTRY - 1 + 28"

definition pldm_bios_table_attr_entry_integer_info_check ::
    "pldm_bios_table_attr_entry_integer_info \<Rightarrow> int \<times> string option" where
  "pldm_bios_table_attr_entry_integer_info_check i =
     (if ii_lower_bound i = ii_upper_bound i
      then if ii_default_value i \<noteq> ii_lower_bound i then (PLDM_ERROR_INVALID_DATA, Some ''Wrong DefaultValue'')
           else if ii_scalar_increment i \<noteq> 0 then (PLDM_ERROR_INVALID_DATA, Some ''Wrong ScalarIncrement'')
           else (PLDM_SUCCESS, None)
      else if ii_lower_bound i > ii_upper_bound i
      then (PLDM_ERROR_INVALID_DATA, Some ''LowerBound should not be greater than UpperBound'')
      else if ii_default_value i > ii_upper_bound i \<or> ii_default_value i < ii_lower_bound i
      then (PLDM_ERROR_INVALID_DATA, Some ''Wrong DefaultValue'')
      else if ii_scalar_increment i = 0
      then (PLDM_ERROR_INVALID_DATA, Some ''ScalarIncrement should not be zero when lower_bound != upper_bound'')
      else if (ii_default_value i - ii_lower_bound i) mod ucast (ii_scalar_increment i) \<noteq> 0
      then (PLDM_ERROR_INVALID_DATA, Some ''Wrong DefaultValue or ScalarIncrement'')
      else (PLDM_SUCCESS, None))"

definition pldm_bios_table_attr_entry_integer_encode ::
    "u16 \<Rightarrow> object option \<Rightarrow> nat \<Rightarrow> pldm_bios_table_attr_entry_integer_info option \<Rightarrow> (int \<times> object option \<times> u16) option" where
  "pldm_bios_table_attr_entry_integer_encode counter entry entry_length info =
     (case (entry, info) of
        (Some ent, Some i) \<Rightarrow>
          if entry_length < pldm_bios_table_attr_entry_integer_encode_length
          then Some (PLDM_ERROR_INVALID_LENGTH, entry, counter)
          else if fst (pldm_bios_table_attr_entry_integer_info_check i) \<noteq> PLDM_SUCCESS
          then Some (PLDM_ERROR_INVALID_DATA, entry, counter)
          else attr_entry_encode counter ent entry_length
            (if ii_read_only i then PLDM_BIOS_INTEGER_READ_ONLY else PLDM_BIOS_INTEGER) (ii_name_handle i)
            (Some (le_of_word (ii_lower_bound i) @ le_of_word (ii_upper_bound i) @ le_of_word (ii_scalar_increment i) @
                   le_of_word (ii_default_value i)))
      | _ \<Rightarrow> Some (PLDM_ERROR_INVALID_DATA, entry, counter))"

definition pldm_bios_table_attr_entry_integer_decode :: "ptr \<Rightarrow> (u64 \<times> u64 \<times> u32 \<times> u64) option" where
  "pldm_bios_table_attr_entry_integer_decode entry = do {
     lower \<leftarrow> deref entry METADATA;
     upper \<leftarrow> deref entry (METADATA + 8);
     scalar \<leftarrow> deref entry (METADATA + 16);
     def_value \<leftarrow> deref entry (METADATA + 20);
     Some (lower, upper, scalar, def_value) }"

definition attr_table_entry_length_integer :: "ptr \<Rightarrow> int option" where
  "attr_table_entry_length_integer entry = Some (as_ssize pldm_bios_table_attr_entry_integer_encode_length)"

subsection \<open>The length of an entry by its type\<close>

type_synonym length_handler = "ptr \<Rightarrow> int option"

fun find_table_entry_length_by_type :: "u8 \<Rightarrow> (u8 \<times> length_handler) list \<Rightarrow> length_handler option" where
  "find_table_entry_length_by_type attr_type [] = None"
| "find_table_entry_length_by_type attr_type ((ty, handler) # hs) =
     (if attr_type = ty then Some handler else find_table_entry_length_by_type attr_type hs)"

definition attr_table_entries :: "(u8 \<times> length_handler) list" where
  "attr_table_entries =
     [(PLDM_BIOS_ENUMERATION, attr_table_entry_length_enum),
      (PLDM_BIOS_ENUMERATION_READ_ONLY, attr_table_entry_length_enum),
      (PLDM_BIOS_STRING, attr_table_entry_length_string),
      (PLDM_BIOS_STRING_READ_ONLY, attr_table_entry_length_string),
      (PLDM_BIOS_INTEGER, attr_table_entry_length_integer),
      (PLDM_BIOS_INTEGER_READ_ONLY, attr_table_entry_length_integer)]"

text \<open>An unknown type fails the assertion.\<close>

definition attr_table_entry_length :: "ptr \<Rightarrow> int option" where
  "attr_table_entry_length entry = do {
     ty \<leftarrow> deref entry 2;
     handler \<leftarrow> find_table_entry_length_by_type ty attr_table_entries;
     handler entry }"

section \<open>Attribute value table entries\<close>

definition pldm_bios_table_attr_value_entry_decode_attribute_handle :: "ptr \<Rightarrow> u16 option" where
  "pldm_bios_table_attr_value_entry_decode_attribute_handle entry = deref entry 0"

definition pldm_bios_table_attr_value_entry_decode_attribute_type :: "ptr \<Rightarrow> u8 option" where
  "pldm_bios_table_attr_value_entry_decode_attribute_type entry = deref entry 2"

definition pldm_bios_table_attr_value_entry_encode_enum_length :: "u8 \<Rightarrow> nat" where
  "pldm_bios_table_attr_value_entry_encode_enum_length cnt = SIZEOF_VALUE_ENTRY - 1 + 1 + unat cnt"

definition pldm_bios_table_attr_value_entry_enum_decode_number :: "ptr \<Rightarrow> u8 option" where
  "pldm_bios_table_attr_value_entry_enum_decode_number entry = deref entry VALUE"

definition pldm_bios_table_attr_value_entry_enum_decode_handles :: "ptr \<Rightarrow> u8 list \<Rightarrow> u8 \<Rightarrow> (u8 \<times> u8 list) option" where
  "pldm_bios_table_attr_value_entry_enum_decode_handles entry handles number = do {
     curr_num \<leftarrow> pldm_bios_table_attr_value_entry_enum_decode_number entry;
     let curr_num = (if number < curr_num then number else curr_num);
     bs \<leftarrow> load (fst entry) (snd entry + VALUE + 1) (unat curr_num);
     if length handles < unat curr_num then None else Some (curr_num, poke handles 0 bs) }"

text \<open>The header and the number are written before the last length check.\<close>

definition pldm_bios_table_attr_value_entry_encode_enum ::
    "object option \<Rightarrow> nat \<Rightarrow> u16 \<Rightarrow> u8 \<Rightarrow> u8 \<Rightarrow> u8 list option \<Rightarrow> (int \<times> object option) option" where
  "pldm_bios_table_attr_value_entry_encode_enum entry entry_length attr_handle attr_type cnt handles =
     (case (entry, handles) of
        (Some ent, Some hs) \<Rightarrow>
          if \<not> type_expected attr_type PLDM_BIOS_ENUMERATION then Some (PLDM_ERROR_INVALID_DATA, entry)
          else if entry_length < SIZEOF_VALUE_ENTRY then Some (PLDM_ERROR_INVALID_LENGTH, entry)
          else do {
            ent \<leftarrow> store ent (fst ent) (le_of_word attr_handle @ [attr_type] @ [cnt]);
            if entry_length - SIZEOF_VALUE_ENTRY < unat cnt then Some (PLDM_ERROR_INVALID_LENGTH, Some ent)
            else if length hs < unat cnt then None
            else do {
              ent \<leftarrow> store ent (fst ent + VALUE + 1) (take (unat cnt) hs);
              Some (PLDM_SUCCESS, Some ent) } }
      | _ \<Rightarrow> Some (PLDM_ERROR_INVALID_DATA, entry))"

definition attr_value_table_entry_length_enum :: "ptr \<Rightarrow> int option" where
  "attr_value_table_entry_length_enum entry = do {
     number \<leftarrow> pldm_bios_table_attr_value_entry_enum_decode_number entry;
     Some (as_ssize (pldm_bios_table_attr_value_entry_encode_enum_length number)) }"

definition pldm_bios_table_attr_value_entry_encode_string_length :: "u16 \<Rightarrow> nat" where
  "pldm_bios_table_attr_value_entry_encode_string_length string_length = SIZEOF_VALUE_ENTRY - 1 + 2 + unat string_length"

definition pldm_bios_table_attr_value_entry_string_decode_length :: "ptr \<Rightarrow> u16 option" where
  "pldm_bios_table_attr_value_entry_string_decode_length entry = deref entry VALUE"

text \<open>The pointer of the field is an offset into the object.\<close>

definition pldm_bios_table_attr_value_entry_string_decode_string :: "ptr \<Rightarrow> variable_field option" where
  "pldm_bios_table_attr_value_entry_string_decode_string entry = do {
     len \<leftarrow> pldm_bios_table_attr_value_entry_string_decode_length entry;
     Some \<lparr>vf_ptr = Some (snd entry + VALUE + 2 - fst (fst entry)), vf_length = unat len\<rparr> }"

definition pldm_bios_table_attr_value_entry_encode_string ::
    "object option \<Rightarrow> nat \<Rightarrow> u16 \<Rightarrow> u8 \<Rightarrow> u16 \<Rightarrow> u8 list option \<Rightarrow> (int \<times> object option) option" where
  "pldm_bios_table_attr_value_entry_encode_string entry entry_length attr_handle attr_type str_length str =
     (case entry of
        None \<Rightarrow> Some (PLDM_ERROR_INVALID_DATA, entry)
      | Some ent \<Rightarrow>
          if str_length \<noteq> 0 \<and> str = None then Some (PLDM_ERROR_INVALID_DATA, entry)
          else if \<not> type_expected attr_type PLDM_BIOS_STRING then Some (PLDM_ERROR_INVALID_DATA, entry)
          else if entry_length < SIZEOF_VALUE_ENTRY - 1 + 2 then Some (PLDM_ERROR_INVALID_LENGTH, entry)
          else do {
            ent \<leftarrow> store ent (fst ent) (le_of_word attr_handle @ [attr_type]);
            if entry_length - (SIZEOF_VALUE_ENTRY - 1 + 2) < unat str_length then Some (PLDM_ERROR_INVALID_LENGTH, Some ent)
            else let s = (case str of None \<Rightarrow> [] | Some s \<Rightarrow> s) in
              if length s < unat str_length then None
              else do {
                ent \<leftarrow> store ent (fst ent + VALUE + 2) (take (unat str_length) s);
                ent \<leftarrow> store ent (fst ent + VALUE) (le_of_word str_length);
                Some (PLDM_SUCCESS, Some ent) } })"

definition attr_value_table_entry_length_string :: "ptr \<Rightarrow> int option" where
  "attr_value_table_entry_length_string entry = do {
     len \<leftarrow> pldm_bios_table_attr_value_entry_string_decode_length entry;
     Some (as_ssize (pldm_bios_table_attr_value_entry_encode_string_length len)) }"

definition pldm_bios_table_attr_value_entry_encode_integer_length :: nat where
  "pldm_bios_table_attr_value_entry_encode_integer_length = SIZEOF_VALUE_ENTRY - 1 + 8"

definition pldm_bios_table_attr_value_entry_encode_integer ::
    "object option \<Rightarrow> nat \<Rightarrow> u16 \<Rightarrow> u8 \<Rightarrow> u64 \<Rightarrow> (int \<times> object option) option" where
  "pldm_bios_table_attr_value_entry_encode_integer entry entry_length attr_handle attr_type cv =
     (case entry of
        None \<Rightarrow> Some (PLDM_ERROR_INVALID_DATA, entry)
      | Some ent \<Rightarrow>
          if \<not> type_expected attr_type PLDM_BIOS_INTEGER then Some (PLDM_ERROR_INVALID_DATA, entry)
          else if entry_length < pldm_bios_table_attr_value_entry_encode_integer_length
          then Some (PLDM_ERROR_INVALID_LENGTH, entry)
          else do {
            ent \<leftarrow> store ent (fst ent) (le_of_word attr_handle @ [attr_type] @ le_of_word cv);
            Some (PLDM_SUCCESS, Some ent) })"

definition pldm_bios_table_attr_value_entry_integer_decode_cv :: "ptr \<Rightarrow> u64 option" where
  "pldm_bios_table_attr_value_entry_integer_decode_cv entry = deref entry VALUE"

definition attr_value_table_entry_length_integer :: "ptr \<Rightarrow> int option" where
  "attr_value_table_entry_length_integer entry = Some (as_ssize pldm_bios_table_attr_value_entry_encode_integer_length)"

definition attr_value_table_entries :: "(u8 \<times> length_handler) list" where
  "attr_value_table_entries =
     [(PLDM_BIOS_ENUMERATION, attr_value_table_entry_length_enum),
      (PLDM_BIOS_ENUMERATION_READ_ONLY, attr_value_table_entry_length_enum),
      (PLDM_BIOS_STRING, attr_value_table_entry_length_string),
      (PLDM_BIOS_STRING_READ_ONLY, attr_value_table_entry_length_string),
      (PLDM_BIOS_INTEGER, attr_value_table_entry_length_integer),
      (PLDM_BIOS_INTEGER_READ_ONLY, attr_value_table_entry_length_integer)]"

definition attr_value_table_entry_length :: "ptr \<Rightarrow> int option" where
  "attr_value_table_entry_length entry = do {
     ty \<leftarrow> deref entry 2;
     handler \<leftarrow> find_table_entry_length_by_type ty attr_value_table_entries;
     handler entry }"

text \<open>As a \<open>size_t\<close>.\<close>

definition pldm_bios_table_attr_value_entry_length :: "ptr \<Rightarrow> nat option" where
  "pldm_bios_table_attr_value_entry_length entry = map_option (\<lambda>n. nat (n mod 2 ^ 64)) (attr_value_table_entry_length entry)"

definition pldm_bios_table_attr_value_entry_decode_handle :: "ptr \<Rightarrow> u16 option" where
  "pldm_bios_table_attr_value_entry_decode_handle entry = deref entry 0"

section \<open>Padding and checksum\<close>

definition pad_size_get :: "nat \<Rightarrow> nat" where
  "pad_size_get size_without_pad = (4 - size_without_pad mod 4) mod 4"

fun pad_append :: "object \<Rightarrow> nat \<Rightarrow> nat \<Rightarrow> (object \<times> nat) option" where
  "pad_append table table_end 0 = Some (table, table_end)"
| "pad_append table table_end (Suc pad_size) = do {
     table \<leftarrow> store table table_end [0];
     pad_append table (table_end + 1) pad_size }"

definition checksum_append :: "object \<Rightarrow> nat \<Rightarrow> u32 \<Rightarrow> object option" where
  "checksum_append table table_end checksum = store table table_end (le_of_word checksum)"

definition pldm_bios_table_pad_checksum_size :: "nat \<Rightarrow> nat" where
  "pldm_bios_table_pad_checksum_size size_without_pad = pad_size_get size_without_pad + 4"

definition pldm_bios_table_append_pad_checksum ::
    "object option \<Rightarrow> nat \<Rightarrow> nat option \<Rightarrow> (int \<times> object option \<times> nat option) option" where
  "pldm_bios_table_append_pad_checksum table capacity sz =
     (case (table, sz) of
        (Some tab, Some n) \<Rightarrow>
          let pad_checksum_size = pldm_bios_table_pad_checksum_size n in
          if SIZE_MAX - pad_checksum_size < n then Some (PLDM_ERROR_INVALID_LENGTH, table, sz)
          else let total_length = n + pad_checksum_size in
          if capacity < total_length then Some (PLDM_ERROR_INVALID_LENGTH, table, sz)
          else if UINTPTR_MAX - n < fst tab then Some (PLDM_ERROR_INVALID_LENGTH, table, sz)
          else do {
            (tab, table_end) \<leftarrow> pad_append tab (fst tab + n) (pad_size_get n);
            checksum \<leftarrow> pldm_edac_crc32 (snd tab) (n + pad_size_get n);
            tab \<leftarrow> checksum_append tab table_end checksum;
            Some (PLDM_SUCCESS, Some tab, Some total_length) }
      | _ \<Rightarrow> Some (PLDM_ERROR_INVALID_DATA, table, sz))"

definition pldm_bios_table_checksum :: "object option \<Rightarrow> nat \<Rightarrow> bool option" where
  "pldm_bios_table_checksum table sz =
     (case table of
        None \<Rightarrow> Some False
      | Some tab \<Rightarrow>
          if sz < 12 then Some False
          else do {
            src_crc \<leftarrow> load_word tab (fst tab + sz - 4);
            dst_crc \<leftarrow> pldm_edac_crc32 (snd tab) (sz - 4);
            Some (src_crc = dst_crc) })"

section \<open>The iterator\<close>

datatype pldm_bios_table_types = PLDM_BIOS_STRING_TABLE | PLDM_BIOS_ATTR_TABLE | PLDM_BIOS_ATTR_VAL_TABLE

record pldm_bios_table_iter =
  bi_table_data :: object
  bi_table_len :: nat
  bi_current_pos :: nat
  bi_entry_length_handler :: length_handler

text \<open>\<open>m\<close>: \<open>malloc\<close> succeeds; the assertion fails otherwise.\<close>

definition pldm_bios_table_iter_create :: "bool \<Rightarrow> object \<Rightarrow> nat \<Rightarrow> pldm_bios_table_types \<Rightarrow> pldm_bios_table_iter option" where
  "pldm_bios_table_iter_create m table len type =
     (if \<not> m then None
      else Some \<lparr>bi_table_data = table, bi_table_len = len, bi_current_pos = 0,
        bi_entry_length_handler = (case type of
            PLDM_BIOS_STRING_TABLE \<Rightarrow> string_table_entry_length
          | PLDM_BIOS_ATTR_TABLE \<Rightarrow> attr_table_entry_length
          | PLDM_BIOS_ATTR_VAL_TABLE \<Rightarrow> attr_value_table_entry_length)\<rparr>)"

definition pldm_bios_table_iter_value :: "pldm_bios_table_iter \<Rightarrow> ptr" where
  "pldm_bios_table_iter_value iter = (bi_table_data iter, fst (bi_table_data iter) + bi_current_pos iter)"

definition pldm_bios_table_iter_is_end :: "pldm_bios_table_iter option \<Rightarrow> bool option" where
  "pldm_bios_table_iter_is_end iter =
     (case iter of
        None \<Rightarrow> Some True
      | Some i \<Rightarrow>
          if bi_current_pos i > bi_table_len i then Some True
          else if bi_table_len i - bi_current_pos i \<le> 7 then Some True
          else map_option (\<lambda>len. len < 0) (bi_entry_length_handler i (pldm_bios_table_iter_value i)))"

definition pldm_bios_table_iter_next :: "pldm_bios_table_iter \<Rightarrow> pldm_bios_table_iter option" where
  "pldm_bios_table_iter_next iter = do {
     fin \<leftarrow> pldm_bios_table_iter_is_end (Some iter);
     if fin then Some iter
     else do {
       rc \<leftarrow> bi_entry_length_handler iter (pldm_bios_table_iter_value iter);
       Some (if rc < 0 then iter else iter\<lparr>bi_current_pos := (bi_current_pos iter + nat rc) mod 2 ^ 64\<rparr>) } }"

section \<open>Searches\<close>

text \<open>The loop may not end; \<open>equal\<close> is the handler with its key.\<close>

partial_function (option) pldm_bios_table_entry_find_by_iter ::
    "pldm_bios_table_iter \<Rightarrow> (ptr \<Rightarrow> bool option) \<Rightarrow> ptr option option" where
  "pldm_bios_table_entry_find_by_iter iter equal = do {
     fin \<leftarrow> pldm_bios_table_iter_is_end (Some iter);
     if fin then Some None
     else do {
       found \<leftarrow> equal (pldm_bios_table_iter_value iter);
       if found then Some (Some (pldm_bios_table_iter_value iter))
       else do {
         iter \<leftarrow> pldm_bios_table_iter_next iter;
         pldm_bios_table_entry_find_by_iter iter equal } } }"

definition pldm_bios_table_entry_find_from_table ::
    "bool \<Rightarrow> object \<Rightarrow> nat \<Rightarrow> pldm_bios_table_types \<Rightarrow> (ptr \<Rightarrow> bool option) \<Rightarrow> ptr option option" where
  "pldm_bios_table_entry_find_from_table m table len type equal = do {
     iter \<leftarrow> pldm_bios_table_iter_create m table len type;
     pldm_bios_table_entry_find_by_iter iter equal }"

definition string_table_handle_equal :: "u16 \<Rightarrow> ptr \<Rightarrow> bool option" where
  "string_table_handle_equal handle entry = map_option (\<lambda>h. h = handle) (pldm_bios_table_string_entry_decode_handle entry)"

definition pldm_bios_table_string_find_by_handle :: "bool \<Rightarrow> object \<Rightarrow> nat \<Rightarrow> u16 \<Rightarrow> ptr option option" where
  "pldm_bios_table_string_find_by_handle m table len handle =
     pldm_bios_table_entry_find_from_table m table len PLDM_BIOS_STRING_TABLE (string_table_handle_equal handle)"

definition string_table_string_equal :: "u16 \<Rightarrow> u8 list \<Rightarrow> ptr \<Rightarrow> bool option" where
  "string_table_string_equal str_length str entry = do {
     n \<leftarrow> pldm_bios_table_string_entry_decode_string_length entry;
     if str_length \<noteq> n then Some False
     else do {
       bs \<leftarrow> load (fst entry) (snd entry + NAME) (unat str_length);
       if length str < unat str_length then None else Some (bs = take (unat str_length) str) } }"

text \<open>The length of the string is cut to 16 bits.\<close>

definition pldm_bios_table_string_find_by_string :: "bool \<Rightarrow> object \<Rightarrow> nat \<Rightarrow> u8 list \<Rightarrow> ptr option option" where
  "pldm_bios_table_string_find_by_string m table len str = do {
     n \<leftarrow> strlen str;
     pldm_bios_table_entry_find_from_table m table len PLDM_BIOS_STRING_TABLE (string_table_string_equal (of_nat n) str) }"

definition attr_table_handle_equal :: "u16 \<Rightarrow> ptr \<Rightarrow> bool option" where
  "attr_table_handle_equal handle entry = map_option (\<lambda>h. h = handle) (pldm_bios_table_attr_entry_decode_attribute_handle entry)"

definition pldm_bios_table_attr_find_by_handle :: "bool \<Rightarrow> object \<Rightarrow> nat \<Rightarrow> u16 \<Rightarrow> ptr option option" where
  "pldm_bios_table_attr_find_by_handle m table len handle =
     pldm_bios_table_entry_find_from_table m table len PLDM_BIOS_ATTR_TABLE (attr_table_handle_equal handle)"

definition attr_table_string_handle_equal :: "u16 \<Rightarrow> ptr \<Rightarrow> bool option" where
  "attr_table_string_handle_equal handle entry = map_option (\<lambda>h. h = handle) (pldm_bios_table_attr_entry_decode_string_handle entry)"

definition pldm_bios_table_attr_find_by_string_handle :: "bool \<Rightarrow> object \<Rightarrow> nat \<Rightarrow> u16 \<Rightarrow> ptr option option" where
  "pldm_bios_table_attr_find_by_string_handle m table len handle =
     pldm_bios_table_entry_find_from_table m table len PLDM_BIOS_ATTR_TABLE (attr_table_string_handle_equal handle)"

definition attr_value_table_handle_equal :: "u16 \<Rightarrow> ptr \<Rightarrow> bool option" where
  "attr_value_table_handle_equal handle entry = map_option (\<lambda>h. h = handle) (pldm_bios_table_attr_value_entry_decode_handle entry)"

definition pldm_bios_table_attr_value_find_by_handle :: "bool \<Rightarrow> object \<Rightarrow> nat \<Rightarrow> u16 \<Rightarrow> ptr option option" where
  "pldm_bios_table_attr_value_find_by_handle m table len handle =
     pldm_bios_table_entry_find_from_table m table len PLDM_BIOS_ATTR_VAL_TABLE (attr_value_table_handle_equal handle)"

section \<open>Updating a value\<close>

text \<open>
  The loop that copies the entries: \<open>Inl\<close> an error with the destination as it is then, \<open>Inr\<close> the destination and
  the length that was copied. Sums of \<open>size_t\<close> wrap.
\<close>

partial_function (option) copy_values ::
    "pldm_bios_table_iter \<Rightarrow> ptr \<Rightarrow> nat \<Rightarrow> nat \<Rightarrow> object \<Rightarrow> nat \<Rightarrow> (int \<times> object + object \<times> nat) option" where
  "copy_values iter entry entry_length buffer_length dest copied = do {
     fin \<leftarrow> pldm_bios_table_iter_is_end (Some iter);
     if fin then Some (Inr (dest, copied))
     else do {
       let tmp = pldm_bios_table_iter_value iter;
       len \<leftarrow> map_option (\<lambda>n. nat (n mod 2 ^ 64)) (attr_value_table_entry_length tmp);
       let iter = iter\<lparr>bi_current_pos := (bi_current_pos iter + len) mod 2 ^ 64\<rparr>;
       h \<leftarrow> deref tmp 0;
       h' \<leftarrow> deref entry 0;
       clash \<leftarrow> (if (h :: u16) = h' then do { ty \<leftarrow> deref tmp 2; ty' \<leftarrow> deref entry 2; Some ((ty :: u8) \<noteq> ty') } else Some False);
       if clash then Some (Inl (PLDM_ERROR_INVALID_DATA, dest))
       else let (tmp, len) = (if h = h' then (entry, entry_length) else (tmp, len)) in
         if (copied + len) mod 2 ^ 64 > buffer_length then Some (Inl (PLDM_ERROR_INVALID_LENGTH, dest))
         else do {
           bs \<leftarrow> load (fst tmp) (snd tmp) len;
           dest \<leftarrow> store dest (fst dest + copied) bs;
           copy_values iter entry entry_length buffer_length dest ((copied + len) mod 2 ^ 64) } } }"

definition pldm_bios_table_attr_value_copy_and_update ::
    "bool \<Rightarrow> object \<Rightarrow> nat \<Rightarrow> object \<Rightarrow> nat \<Rightarrow> ptr \<Rightarrow> nat \<Rightarrow> (int \<times> object \<times> nat) option" where
  "pldm_bios_table_attr_value_copy_and_update m src_table src_length dest_table dest_length entry entry_length = do {
     iter \<leftarrow> pldm_bios_table_iter_create m src_table src_length PLDM_BIOS_ATTR_VAL_TABLE;
     r \<leftarrow> copy_values iter entry entry_length dest_length dest_table 0;
     case r of
       Inl (rc, dest) \<Rightarrow> Some (rc, dest, dest_length)
     | Inr (dest, copied) \<Rightarrow>
         if (pldm_bios_table_pad_checksum_size copied + copied) mod 2 ^ 64 > dest_length
         then Some (PLDM_ERROR_INVALID_LENGTH, dest, dest_length)
         else do {
           (rc, dest', n) \<leftarrow> pldm_bios_table_append_pad_checksum (Some dest) dest_length (Some copied);
           dest \<leftarrow> dest';
           n \<leftarrow> n;
           Some (rc, dest, if rc = PLDM_SUCCESS then n else dest_length) } }"

end
