(* ===== verification/Bios_Table_Laws.thy ===== *)
theory Bios_Table_Laws
  imports Bios_Table
begin

text \<open>
  What the functions on BIOS tables do on tables that consist of entries followed by padding and checksum. The
  three kinds of entries share the locale \<open>bios_entries\<close>: the length handler finds the length of an entry. The
  iterator then visits exactly the entries, searches find the first entry that fits, and the update of
  a value changes that value only.
\<close>

section \<open>Reading entries\<close>

text \<open>A pointer to bytes that lie behind a prefix of the object.\<close>

definition points_at :: "ptr \<Rightarrow> u8 list \<Rightarrow> bool" where
  "points_at q bs \<longleftrightarrow> (\<exists>pre post. snd (fst q) = pre @ bs @ post \<and> snd q = fst (fst q) + length pre)"

lemma points_atI: "snd obj = pre @ bs @ post \<Longrightarrow> p = fst obj + length pre \<Longrightarrow> points_at (obj, p) bs"
  by (auto simp: points_at_def)

lemma points_at_load:
  assumes "points_at q bs" "off + n \<le> length bs"
  shows "load (fst q) (snd q + off) n = Some (take n (drop off bs))"
proof -
  obtain pre post where q: "snd (fst q) = pre @ bs @ post" "snd q = fst (fst q) + length pre"
    using assms(1) by (auto simp: points_at_def)
  then have "load (fst q) (snd q + off) n = Some (bytes_at (pre @ bs @ post) (length pre + off) n)"
    using assms(2) by (subst load_ok) auto
  then show ?thesis using assms(2) by (simp add: bytes_at_def)
qed

lemma points_at_deref:
  assumes "points_at q bs" "off + LENGTH('a) div 8 \<le> length bs"
  shows "deref q off = Some (word_of_le (take (LENGTH('a) div 8) (drop off bs)) :: 'a::len word)"
  using points_at_load [OF assms] by (simp add: deref_def load_word_def)

lemma points_at_prefix: "points_at q (bs @ bs') \<Longrightarrow> points_at q bs"
  by (auto simp: points_at_def)

lemma as_ssize_small: "n \<le> SSIZE_MAX \<Longrightarrow> as_ssize n = int n"
  by (simp add: as_ssize_def)

section \<open>Tables of entries\<close>

definition pad_and_checksum :: "u8 list \<Rightarrow> u8 list" where
  "pad_and_checksum bs =
     (let bs' = bs @ replicate (pad_size_get (length bs)) 0 in
      replicate (pad_size_get (length bs)) 0 @ le_of_word (the (pldm_edac_crc32 bs' (length bs'))))"

fun first_at :: "('e \<Rightarrow> u8 list) \<Rightarrow> ('e \<Rightarrow> bool) \<Rightarrow> nat \<Rightarrow> 'e list \<Rightarrow> nat option" where
  "first_at enc P off [] = None"
| "first_at enc P off (e # es) = (if P e then Some off else first_at enc P (off + length (enc e)) es)"

lemma pad_size_small: "pad_size_get n \<le> 3"
  by (simp add: pad_size_get_def)

lemma length_pad_and_checksum: "length (pad_and_checksum bs) = pldm_bios_table_pad_checksum_size (length bs)"
  by (simp add: pad_and_checksum_def pldm_bios_table_pad_checksum_size_def)

locale bios_entries =
  fixes handler :: length_handler and enc :: "'e \<Rightarrow> u8 list" and valid :: "'e \<Rightarrow> bool"
  assumes entry_len: "valid e \<Longrightarrow> points_at q (enc e) \<Longrightarrow> handler q = Some (int (length (enc e)))"
    and entry_min: "valid e \<Longrightarrow> 4 \<le> length (enc e)"
begin

text \<open>An iterator in front of the entries \<open>es\<close>, which pad and checksum follow.\<close>

definition iter_at :: "pldm_bios_table_iter \<Rightarrow> 'e list \<Rightarrow> bool" where
  "iter_at it es \<longleftrightarrow>
     (\<exists>pre tail post. snd (bi_table_data it) = pre @ concat (map enc es) @ tail @ post \<and> 4 \<le> length tail \<and> length tail \<le> 7 \<and>
        bi_current_pos it = length pre \<and> bi_table_len it = length pre + length (concat (map enc es)) + length tail) \<and>
     bi_entry_length_handler it = handler \<and> (\<forall>e \<in> set es. valid e) \<and> past (bi_table_data it) \<le> UINTPTR_MAX"

lemma iter_at_Nil: "iter_at it [] \<Longrightarrow> pldm_bios_table_iter_is_end (Some it) = Some True"
  by (auto simp: iter_at_def pldm_bios_table_iter_is_end_def)

lemma iter_at_entry:
  assumes "iter_at it (e # es)"
  shows "points_at (pldm_bios_table_iter_value it) (enc e)" "valid e"
    and "handler (pldm_bios_table_iter_value it) = Some (int (length (enc e)))"
    and "pldm_bios_table_iter_is_end (Some it) = Some False"
    and "iter_at (it\<lparr>bi_current_pos := (bi_current_pos it + length (enc e)) mod 2 ^ 64\<rparr>) es"
    and "pldm_bios_table_iter_next it = Some (it\<lparr>bi_current_pos := (bi_current_pos it + length (enc e)) mod 2 ^ 64\<rparr>)"
    and "(bi_current_pos it + length (enc e)) mod 2 ^ 64 = bi_current_pos it + length (enc e)"
proof -
  obtain pre tail post where it: "snd (bi_table_data it) = pre @ concat (map enc (e # es)) @ tail @ post"
    "4 \<le> length tail" "length tail \<le> 7" "bi_current_pos it = length pre"
    "bi_table_len it = length pre + length (concat (map enc (e # es))) + length tail"
    and handler: "bi_entry_length_handler it = handler" and valid: "\<forall>e \<in> set (e # es). valid e"
    and bound: "past (bi_table_data it) \<le> UINTPTR_MAX"
    using assms unfolding iter_at_def by blast
  show at: "points_at (pldm_bios_table_iter_value it) (enc e)"
    using it unfolding pldm_bios_table_iter_value_def
    by (intro points_atI [of _ pre _ "concat (map enc es) @ tail @ post"]) simp_all
  show v: "valid e" using valid by simp
  show len: "handler (pldm_bios_table_iter_value it) = Some (int (length (enc e)))" by (rule entry_len [OF v at])
  then show fin: "pldm_bios_table_iter_is_end (Some it) = Some False"
    using it entry_min [OF v] handler by (simp add: pldm_bios_table_iter_is_end_def)
  have "bi_current_pos it + length (enc e) \<le> UINTPTR_MAX" using it bound by simp
  then show small: "(bi_current_pos it + length (enc e)) mod 2 ^ 64 = bi_current_pos it + length (enc e)" by simp
  show "iter_at (it\<lparr>bi_current_pos := (bi_current_pos it + length (enc e)) mod 2 ^ 64\<rparr>) es"
    unfolding iter_at_def small using it handler valid bound
    by (intro conjI exI [of _ "pre @ enc e"] exI [of _ tail] exI [of _ post]) simp_all
  show "pldm_bios_table_iter_next it = Some (it\<lparr>bi_current_pos := (bi_current_pos it + length (enc e)) mod 2 ^ 64\<rparr>)"
    using fin len handler by (simp add: pldm_bios_table_iter_next_def)
qed

lemma find_by_iter_first:
  assumes "iter_at it es" "\<And>q e. e \<in> set es \<Longrightarrow> points_at q (enc e) \<Longrightarrow> equal q = Some (P e)"
  shows "pldm_bios_table_entry_find_by_iter it equal =
    Some (map_option (\<lambda>k. (bi_table_data it, fst (bi_table_data it) + k)) (first_at enc P (bi_current_pos it) es))"
  using assms
proof (induction es arbitrary: it)
  case Nil
  then show ?case by (subst pldm_bios_table_entry_find_by_iter.simps) (simp add: iter_at_Nil)
next
  case (Cons e es)
  note at = iter_at_entry [OF Cons.prems(1)]
  have "equal (pldm_bios_table_iter_value it) = Some (P e)" using Cons.prems(2) at(1) by simp
  then show ?case
    using at(4,6) Cons.IH [OF at(5)] Cons.prems(2) at(7)
    by (subst pldm_bios_table_entry_find_by_iter.simps) (simp add: pldm_bios_table_iter_value_def)
qed

end

section \<open>Padding and checksum\<close>

lemma crc32_prefix:
  assumes "n = length bs" "take n m = bs"
  shows "pldm_edac_crc32 m n = pldm_edac_crc32 bs (length bs)" "pldm_edac_crc32 bs (length bs) \<noteq> None"
proof -
  have "n \<le> length m" using assms by (metis nat_le_linear take_all length_take)
  then show "pldm_edac_crc32 m n = pldm_edac_crc32 bs (length bs)" "pldm_edac_crc32 bs (length bs) \<noteq> None"
    using assms by (simp_all add: pldm_edac_crc32_def pldm_edac_crc32_extend_def crc32_loop_ref)
qed

lemma pad_append_zeros:
  assumes "fst table + k + n \<le> past table"
  shows "pad_append table (fst table + k) n = Some ((fst table, poke (snd table) k (replicate n 0)), fst table + k + n)"
  using assms
proof (induction n arbitrary: table k)
  case (Suc n)
  let ?t = "(fst table, poke (snd table) k [0])"
  have "store table (fst table + k) [0] = Some ?t" using Suc.prems by (subst store_ok) auto
  moreover have "length (poke (snd table) k [0]) = length (snd table)" using Suc.prems by simp
  ultimately show ?case
    using Suc.IH [of ?t "k + 1"] Suc.prems by (simp add: poke_poke add.assoc)
qed simp

text \<open>The bytes a table has when padding and checksum are appended to its first \<open>n\<close>.\<close>

lemma append_pad_checksum_bytes:
  assumes "take n (snd tab) = bs" "n = length bs" "n + length (pad_and_checksum bs) \<le> capacity" "obj_ok capacity tab"
  shows "pldm_bios_table_append_pad_checksum (Some tab) capacity (Some n) =
    Some (PLDM_SUCCESS, Some (fst tab, poke (snd tab) n (pad_and_checksum bs)), Some (n + length (pad_and_checksum bs)))"
proof -
  let ?k = "pad_size_get n" and ?zeros = "replicate (pad_size_get n) (0 :: u8)"
  let ?t = "(fst tab, poke (snd tab) n ?zeros)" and ?crc = "the (pldm_edac_crc32 (bs @ ?zeros) (length (bs @ ?zeros)))"
  have size: "length (pad_and_checksum bs) = ?k + 4" "pldm_bios_table_pad_checksum_size n = ?k + 4"
    using assms(2) by (simp_all add: length_pad_and_checksum pldm_bios_table_pad_checksum_size_def)
  have bounds: "n + (?k + 4) \<le> capacity" "capacity \<le> length (snd tab)" "fst tab + capacity \<le> UINTPTR_MAX"
    using assms(3,4) size by (auto simp: obj_ok_def)
  then have guards: "\<not> SIZE_MAX - (?k + 4) < n" "\<not> capacity < n + (?k + 4)" "\<not> UINTPTR_MAX - n < fst tab"
    by linarith+
  have pad: "pad_append tab (fst tab + n) ?k = Some (?t, fst tab + n + ?k)"
    using bounds by (intro pad_append_zeros) simp
  have "take (n + ?k) (snd ?t) = bs @ ?zeros" using bounds assms(1,2) by (simp add: poke_def)
  then have crc: "pldm_edac_crc32 (snd ?t) (n + ?k) = Some ?crc"
    using crc32_prefix [of "n + ?k" "bs @ ?zeros" "snd ?t"] assms(2) by (simp add: option.collapse)
  have "checksum_append ?t (fst tab + n + ?k) ?crc = Some (fst tab, poke (snd tab) n (pad_and_checksum bs))"
    using bounds assms(2) unfolding checksum_append_def
    by (subst store_ok) (auto simp: poke_poke pad_and_checksum_def Let_def)
  then show ?thesis
    unfolding pldm_bios_table_append_pad_checksum_def using guards pad crc size by (simp add: Let_def)
qed

lemma checksum_accepts:
  assumes "snd tab = bs @ pad_and_checksum bs @ post" "n = length (bs @ pad_and_checksum bs)" "12 \<le> n"
  shows "pldm_bios_table_checksum (Some tab) n = Some True"
proof -
  let ?p = "bs @ replicate (pad_size_get (length bs)) 0"
  have tab: "snd tab = ?p @ le_of_word (the (pldm_edac_crc32 ?p (length ?p))) @ post"
    using assms(1) by (simp add: pad_and_checksum_def Let_def)
  have n: "n = length ?p + 4" using assms(2) by (simp add: pad_and_checksum_def Let_def)
  have "load_word tab (fst tab + n - 4) = Some (the (pldm_edac_crc32 ?p (length ?p)))"
    using n by (intro load_word_behind [OF tab]) simp_all
  moreover have "pldm_edac_crc32 (snd tab) (n - 4) = Some (the (pldm_edac_crc32 ?p (length ?p)))"
    using crc32_prefix [of "n - 4" ?p "snd tab"] tab n by (simp add: option.collapse)
  ultimately show ?thesis using assms(3) by (simp add: pldm_bios_table_checksum_def)
qed

section \<open>String tables\<close>

text \<open>An entry is a handle and a string.\<close>

definition string_entry_bytes :: "u16 \<times> u8 list \<Rightarrow> u8 list" where
  "string_entry_bytes e = le_of_word (fst e) @ le_of_word (of_nat (length (snd e)) :: u16) @ snd e"

definition string_valid :: "u16 \<times> u8 list \<Rightarrow> bool" where
  "string_valid e \<longleftrightarrow> snd e \<noteq> [] \<and> length (snd e) < 65536"

lemma unat_len16: "n < 65536 \<Longrightarrow> unat (of_nat n :: u16) = n"
  by (simp add: unsigned_of_nat take_bit_nat_eq_self)

lemma string_entry_fields:
  assumes "points_at q (string_entry_bytes e)"
  shows "pldm_bios_table_string_entry_decode_handle q = Some (fst e)"
    "pldm_bios_table_string_entry_decode_string_length q = Some (of_nat (length (snd e)))"
    "n \<le> length (snd e) \<Longrightarrow> load (fst q) (snd q + NAME) n = Some (take n (snd e))"
  using points_at_deref [OF assms, of 0, where 'a = 16] points_at_deref [OF assms, of 2, where 'a = 16]
    points_at_load [OF assms, of NAME n]
  by (simp_all add: pldm_bios_table_string_entry_decode_handle_def
      pldm_bios_table_string_entry_decode_string_length_def string_entry_bytes_def)

interpretation string_entries: bios_entries string_table_entry_length string_entry_bytes string_valid
proof
  fix q e assume "string_valid e" "points_at q (string_entry_bytes e)"
  then show "string_table_entry_length q = Some (int (length (string_entry_bytes e)))"
    using string_entry_fields(2) [of q e]
    by (simp add: string_table_entry_length_def string_valid_def unat_len16 as_ssize_small string_entry_bytes_def)
qed (simp add: string_entry_bytes_def)

lemma string_equal_iff:
  assumes "string_valid e" "points_at q (string_entry_bytes e)" "length s < 65536"
  shows "string_table_string_equal (of_nat (length s)) (s @ post) q = Some (snd e = s)"
proof -
  have "of_nat (length s) = (of_nat (length (snd e)) :: u16) \<longleftrightarrow> length s = length (snd e)"
    using assms(1,3) unat_len16 unfolding string_valid_def by metis
  then show ?thesis
    using string_entry_fields [OF assms(2)] assms(1,3)
    by (auto simp: string_table_string_equal_def unat_len16)
qed
text \<open>
  A table is built as callers do: each entry is written by the encoder to where the table ends so far, as an
  object that starts there.
\<close>

definition behind :: "object \<Rightarrow> nat \<Rightarrow> object" where
  "behind tab off = (fst tab + off, drop off (snd tab))"

definition put_back :: "object \<Rightarrow> nat \<Rightarrow> object \<Rightarrow> object" where
  "put_back tab off entry = (fst tab, take off (snd tab) @ snd entry)"

fun build_strings :: "u16 \<Rightarrow> object \<Rightarrow> nat \<Rightarrow> nat \<Rightarrow> u8 list list \<Rightarrow> (u16 \<times> object \<times> nat) option" where
  "build_strings counter tab off cap [] = Some (counter, tab, off)"
| "build_strings counter tab off cap (s # ss) =
     (case pldm_bios_table_string_entry_encode counter (Some (behind tab off)) (cap - off) (Some s) (of_nat (length s)) of
        Some (rc, Some e, counter) \<Rightarrow>
          if rc = PLDM_SUCCESS
          then build_strings counter (put_back tab off e) (off + pldm_bios_table_string_entry_encode_length (of_nat (length s))) cap ss
          else None
      | _ \<Rightarrow> None)"

fun numbered :: "u16 \<Rightarrow> u8 list list \<Rightarrow> (u16 \<times> u8 list) list" where
  "numbered h [] = []"
| "numbered h (s # ss) = (h, s) # numbered (h + 1) ss"

lemma put_back_poke:
  "off \<le> length (snd tab) \<Longrightarrow> put_back tab off (fst tab + off, poke (drop off (snd tab)) 0 bs) = (fst tab, poke (snd tab) off bs)"
  by (simp add: put_back_def poke_def add.commute)

lemma string_entry_encode_bytes:
  assumes "string_valid (counter, s)" "off + length (string_entry_bytes (counter, s)) \<le> cap" "obj_ok cap tab" "counter \<noteq> 0xffff"
  shows "pldm_bios_table_string_entry_encode counter (Some (behind tab off)) (cap - off) (Some s) (of_nat (length s)) =
    Some (PLDM_SUCCESS, Some (fst tab + off, poke (drop off (snd tab)) 0 (string_entry_bytes (counter, s))), counter + 1)"
proof -
  have len: "unat (of_nat (length s) :: u16) = length s" "of_nat (length s) \<noteq> (0 :: u16)"
    using assms(1) unat_len16 [of "length s"] by (auto simp: string_valid_def)
  have room: "off + 4 + length s \<le> cap" "cap \<le> length (snd tab)"
    using assms(2,3) by (simp_all add: string_entry_bytes_def obj_ok_def)
  then have guards: "\<not> cap - off < 4 + length s" "\<not> cap - (off + 4) < length s" by linarith+
  have "store (behind tab off) (fst (behind tab off)) (string_entry_bytes (counter, s)) =
      Some (fst tab + off, poke (drop off (snd tab)) 0 (string_entry_bytes (counter, s)))"
    using room by (subst store_ok) (auto simp: behind_def string_entry_bytes_def)
  then show ?thesis
    using guards room len assms(4)
    by (simp add: pldm_bios_table_string_entry_encode_def get_bios_string_handle_def
        pldm_bios_table_string_entry_encode_length_def string_entry_bytes_def)
qed

lemma build_strings_bytes:
  assumes "off + length (concat (map string_entry_bytes (numbered counter ss))) \<le> cap" "obj_ok cap tab"
    and "\<forall>s \<in> set ss. s \<noteq> [] \<and> length s < 65536" "unat counter + length ss \<le> 65535"
  shows "build_strings counter tab off cap ss = Some (counter + of_nat (length ss),
    (fst tab, poke (snd tab) off (concat (map string_entry_bytes (numbered counter ss)))),
    off + length (concat (map string_entry_bytes (numbered counter ss))))"
  using assms
proof (induction ss arbitrary: counter tab off)
  case (Cons s ss)
  let ?e = "string_entry_bytes (counter, s)"
  let ?tab = "(fst tab, poke (snd tab) off ?e)"
  note prems = Cons.prems
  have valid: "string_valid (counter, s)" using prems(3) by (simp add: string_valid_def)
  have "unat counter < 65535" using prems(4) by simp
  then have small: "counter \<noteq> 0xffff" and succ: "unat (counter + 1) = unat counter + 1"
    by (auto simp: unat_word_ariths)
  have room: "off + length ?e \<le> cap" "cap \<le> length (snd tab)" using prems(1,2) by (auto simp: obj_ok_def)
  have len: "pldm_bios_table_string_entry_encode_length (of_nat (length s)) = length ?e"
    using valid by (simp add: pldm_bios_table_string_entry_encode_length_def string_entry_bytes_def string_valid_def unat_len16)
  have "build_strings counter tab off cap (s # ss) = build_strings (counter + 1) ?tab (off + length ?e) cap ss"
    using string_entry_encode_bytes [OF valid room(1) prems(2) small] put_back_poke [of off tab ?e] room len by simp
  moreover have "obj_ok cap ?tab" using prems(2) room by (simp add: obj_ok_def)
  ultimately show ?case
    using Cons.IH [of "off + length ?e" "counter + 1" ?tab] prems succ room by (simp add: poke_poke add.assoc)
qed simp
lemma length_numbered [simp]: "length (numbered h ss) = length ss"
  by (induction h ss rule: numbered.induct) simp_all

lemma numbered_nth: "i < length ss \<Longrightarrow> numbered h ss ! i = (h + of_nat i, ss ! i)"
proof (induction h ss arbitrary: i rule: numbered.induct)
  case (2 h s ss)
  then show ?case by (cases i) (simp_all add: add.assoc)
qed simp

lemma numbered_valid:
  assumes "\<forall>s \<in> set ss. s \<noteq> [] \<and> length s < 65536" "e \<in> set (numbered h ss)"
  shows "string_valid e"
  using assms by (induction h ss rule: numbered.induct) (auto simp: string_valid_def)

lemma first_at_nth:
  assumes "i < length es" "P (es ! i)" "\<And>j. j < i \<Longrightarrow> \<not> P (es ! j)"
  shows "first_at enc P off es = Some (off + length (concat (map enc (take i es))))"
  using assms
proof (induction es arbitrary: i off)
  case (Cons e es)
  then show ?case
  proof (cases i)
    case (Suc j)
    have "\<not> P e" using Cons.prems(3) [of 0] Suc by simp
    moreover have "\<not> P (es ! k)" if "k < j" for k using Cons.prems(3) [of "Suc k"] Suc that by simp
    ultimately show ?thesis using Cons.IH [of j "off + length (enc e)"] Cons.prems(1,2) Suc by (simp add: add.assoc)
  qed simp
qed simp

lemma first_at_None: "(\<And>e. e \<in> set es \<Longrightarrow> \<not> P e) \<Longrightarrow> first_at enc P off es = None"
  by (induction es arbitrary: off) simp_all

lemma points_at_nth:
  assumes "snd obj = concat (map enc es) @ post" "i < length es"
  shows "points_at (obj, fst obj + length (concat (map enc (take i es)))) (enc (es ! i))"
proof (rule points_atI)
  have "es = take i es @ es ! i # drop (Suc i) es" using assms(2) by (rule id_take_nth_drop)
  then have "concat (map enc es) = concat (map enc (take i es)) @ enc (es ! i) @ concat (map enc (drop (Suc i) es))"
    by (metis concat.simps(2) concat_append list.simps(9) map_append)
  then show "snd obj = concat (map enc (take i es)) @ enc (es ! i) @ concat (map enc (drop (Suc i) es)) @ post"
    using assms(1) by simp
qed simp

text \<open>A table of entries with its padding and checksum, as the object an iterator starts on.\<close>

definition holds_table :: "('e \<Rightarrow> u8 list) \<Rightarrow> 'e list \<Rightarrow> object \<Rightarrow> nat \<Rightarrow> bool" where
  "holds_table enc es tab n \<longleftrightarrow>
     (let bs = concat (map enc es) in
      n = length (bs @ pad_and_checksum bs) \<and> take n (snd tab) = bs @ pad_and_checksum bs \<and> obj_ok n tab)"

lemma holds_table_bytes:
  assumes "holds_table enc es tab n"
  shows "snd tab = concat (map enc es) @ pad_and_checksum (concat (map enc es)) @ drop n (snd tab)"
proof -
  have "take n (snd tab) = concat (map enc es) @ pad_and_checksum (concat (map enc es))"
    using assms unfolding holds_table_def Let_def by blast
  moreover have "snd tab = take n (snd tab) @ drop n (snd tab)" by simp
  ultimately show ?thesis by (metis append_assoc)
qed

context bios_entries
begin

lemma iter_start:
  assumes "holds_table enc es tab n" "\<forall>e \<in> set es. valid e"
  shows "iter_at \<lparr>bi_table_data = tab, bi_table_len = n, bi_current_pos = 0, bi_entry_length_handler = handler\<rparr> es"
proof -
  let ?bs = "concat (map enc es)"
  have n: "n = length (?bs @ pad_and_checksum ?bs)" "take n (snd tab) = ?bs @ pad_and_checksum ?bs" "past tab \<le> UINTPTR_MAX"
    using assms(1) by (auto simp: holds_table_def Let_def obj_ok_def)
  have "snd tab = [] @ ?bs @ pad_and_checksum ?bs @ drop n (snd tab)" using holds_table_bytes [OF assms(1)] by simp
  then show ?thesis
    unfolding iter_at_def using assms(2) n pad_size_small [of "length ?bs"]
    by (intro conjI exI [of _ "[]"] exI [of _ "pad_and_checksum ?bs"] exI [of _ "drop n (snd tab)"])
      (simp_all add: length_pad_and_checksum pldm_bios_table_pad_checksum_size_def)
qed

lemma find_nth:
  assumes "holds_table enc es tab n" "\<forall>e \<in> set es. valid e" "i < length es" "P (es ! i)" "\<And>j. j < i \<Longrightarrow> \<not> P (es ! j)"
    and "\<And>q e. e \<in> set es \<Longrightarrow> points_at q (enc e) \<Longrightarrow> equal q = Some (P e)"
    and "it = \<lparr>bi_table_data = tab, bi_table_len = n, bi_current_pos = 0, bi_entry_length_handler = handler\<rparr>"
  shows "pldm_bios_table_entry_find_by_iter it equal = Some (Some (tab, fst tab + length (concat (map enc (take i es)))))"
  using find_by_iter_first [OF iter_start [OF assms(1,2)], of equal P] assms(6,7) first_at_nth [of i es P enc 0] assms(3-5)
  by simp

lemma find_none:
  assumes "holds_table enc es tab n" "\<forall>e \<in> set es. valid e" "\<And>e. e \<in> set es \<Longrightarrow> \<not> P e"
    and "\<And>q e. e \<in> set es \<Longrightarrow> points_at q (enc e) \<Longrightarrow> equal q = Some (P e)"
    and "it = \<lparr>bi_table_data = tab, bi_table_len = n, bi_current_pos = 0, bi_entry_length_handler = handler\<rparr>"
  shows "pldm_bios_table_entry_find_by_iter it equal = Some None"
  using find_by_iter_first [OF iter_start [OF assms(1,2)], of equal P] assms(4,5) first_at_None [of es P enc 0] assms(3)
  by simp

end
lemma appended_holds:
  assumes "take k (snd tab) = concat (map enc es)" "k = length (concat (map enc es))"
    and "n = k + length (pad_and_checksum (concat (map enc es)))" "n \<le> cap" "obj_ok cap tab"
  obtains tab' where "pldm_bios_table_append_pad_checksum (Some tab) cap (Some k) = Some (PLDM_SUCCESS, Some tab', Some n)"
    "holds_table enc es tab' n" "12 \<le> n \<longrightarrow> pldm_bios_table_checksum (Some tab') n = Some True"
proof -
  let ?bs = "concat (map enc es)"
  let ?tab' = "(fst tab, poke (snd tab) k (pad_and_checksum ?bs))"
  have room: "n \<le> length (snd tab)" "past tab \<le> UINTPTR_MAX" using assms(4,5) by (simp_all add: obj_ok_def)
  have tab': "snd ?tab' = ?bs @ pad_and_checksum ?bs @ drop n (snd tab)"
    using assms(1-3) by (simp add: poke_def)
  show ?thesis
  proof (rule that)
    show "pldm_bios_table_append_pad_checksum (Some tab) cap (Some k) = Some (PLDM_SUCCESS, Some ?tab', Some n)"
      using append_pad_checksum_bytes [OF assms(1,2)] assms(3-5) by simp
    show "holds_table enc es ?tab' n"
      using tab' room assms(2,3) by (simp add: holds_table_def Let_def obj_ok_def)
    show "12 \<le> n \<longrightarrow> pldm_bios_table_checksum (Some ?tab') n = Some True"
      using checksum_accepts [OF tab'] assms(2,3) by simp
  qed
qed

lemma pad_total:
  assumes "5 \<le> k"
  shows "12 \<le> k + pldm_bios_table_pad_checksum_size k"
proof -
  have k: "k = 4 * (k div 4) + k mod 4" "k mod 4 < 4" by simp_all
  show ?thesis
  proof (cases "k mod 4 = 0")
    case True
    then have "2 \<le> k div 4" using k assms by linarith
    then show ?thesis using k by (simp add: pldm_bios_table_pad_checksum_size_def)
  next
    case False
    then have "pad_size_get k = 4 - k mod 4" by (simp add: pad_size_get_def)
    then have "pldm_bios_table_pad_checksum_size k + k mod 4 = 8" using k(2) by (simp add: pldm_bios_table_pad_checksum_size_def)
    moreover have "1 \<le> k div 4" using div_le_mono [of 4 k 4] assms by simp
    ultimately show ?thesis using k by linarith
  qed
qed

lemma decode_string_at:
  assumes "string_valid e" "points_at q (string_entry_bytes e)" "length (snd e) < length buf"
  shows "pldm_bios_table_string_entry_decode_string (Some q) (Some buf) (length buf) =
    Some (PLDM_SUCCESS, Some (poke buf 0 (snd e @ [0])))"
  using string_entry_fields(2,3) [OF assms(2)] assms(1,3)
  by (auto simp: pldm_bios_table_string_entry_decode_string_def string_valid_def unat_len16 Let_def)

lemma strlen_terminated: "0 \<notin> set s \<Longrightarrow> strlen (s @ 0 # post) = Some (length s)"
  by (subst strlen_def, subst takeWhile_append2) auto

text \<open>Searches of a string table, by handle and by string.\<close>

lemma string_search:
  assumes "holds_table string_entry_bytes es tab n" "\<forall>e \<in> set es. string_valid e"
  shows "i < length es \<Longrightarrow> \<forall>j < i. fst (es ! j) \<noteq> fst (es ! i) \<Longrightarrow>
      pldm_bios_table_string_find_by_handle True tab n (fst (es ! i)) =
        Some (Some (tab, fst tab + length (concat (map string_entry_bytes (take i es)))))"
    and "i < length es \<Longrightarrow> \<forall>j < i. snd (es ! j) \<noteq> snd (es ! i) \<Longrightarrow> 0 \<notin> set (snd (es ! i)) \<Longrightarrow>
      pldm_bios_table_string_find_by_string True tab n (snd (es ! i) @ [0]) =
        Some (Some (tab, fst tab + length (concat (map string_entry_bytes (take i es)))))"
    and "h \<notin> fst ` set es \<Longrightarrow> pldm_bios_table_string_find_by_handle True tab n h = Some None"
proof -
  let ?it = "\<lparr>bi_table_data = tab, bi_table_len = n, bi_current_pos = 0, bi_entry_length_handler = string_table_entry_length\<rparr>"
  let ?at = "(tab, fst tab + length (concat (map string_entry_bytes (take i es))))"
  have by_handle: "string_table_handle_equal h q = Some (fst e = h)" if "points_at q (string_entry_bytes e)" for h q e
    using string_entry_fields(1) [OF that] by (simp add: string_table_handle_equal_def)
  have handle: "pldm_bios_table_string_find_by_handle True tab n h = pldm_bios_table_entry_find_by_iter ?it (string_table_handle_equal h)" for h
    by (simp add: pldm_bios_table_string_find_by_handle_def pldm_bios_table_entry_find_from_table_def pldm_bios_table_iter_create_def)
  show "pldm_bios_table_string_find_by_handle True tab n (fst (es ! i)) = Some (Some ?at)"
    if "i < length es" "\<forall>j < i. fst (es ! j) \<noteq> fst (es ! i)"
    unfolding handle using that by_handle
    by (intro string_entries.find_nth [OF assms, where P = "\<lambda>e. fst e = fst (es ! i)" and i = i]) auto
  show "pldm_bios_table_string_find_by_handle True tab n h = Some None" if "h \<notin> fst ` set es"
    unfolding handle using that by_handle
    by (intro string_entries.find_none [OF assms, where P = "\<lambda>e. fst e = h"]) auto
  show "pldm_bios_table_string_find_by_string True tab n (snd (es ! i) @ [0]) = Some (Some ?at)"
    if i: "i < length es" "\<forall>j < i. snd (es ! j) \<noteq> snd (es ! i)" "0 \<notin> set (snd (es ! i))"
  proof -
    let ?s = "snd (es ! i)"
    have len: "length ?s < 65536" using assms(2) i(1) by (auto simp: string_valid_def)
    have equal: "string_table_string_equal (of_nat (length ?s)) (?s @ [0]) q = Some (snd e = ?s)"
      if "e \<in> set es" "points_at q (string_entry_bytes e)" for q e
      using assms(2) that len by (intro string_equal_iff) auto
    have "pldm_bios_table_string_find_by_string True tab n (?s @ [0]) =
        pldm_bios_table_entry_find_by_iter ?it (string_table_string_equal (of_nat (length ?s)) (?s @ [0]))"
      by (simp add: pldm_bios_table_string_find_by_string_def pldm_bios_table_entry_find_from_table_def
          pldm_bios_table_iter_create_def strlen_terminated [OF i(3)])
    then show ?thesis using i equal
      by (simp add: string_entries.find_nth [OF assms, where P = "\<lambda>e. snd e = ?s" and i = i])
  qed
qed

text \<open>
  C32. Strings of a BIOS string table are found again. Encoding non-empty strings one behind the other and
  appending padding and checksum gives a table whose checksum is accepted. Its strings have consecutive handles; the
  search for a handle finds the entry from which the string is decoded again, with a NUL behind it,
  the search for a string that is not there twice finds the same entry, and a handle that was not given out
  is not found. The handles do not run out below 65535.
\<close>

theorem bios_strings_found:
  assumes "\<forall>s \<in> set ss. s \<noteq> [] \<and> length s < 65536" "unat counter + length ss \<le> 65535"
    and "bs = concat (map string_entry_bytes (numbered counter ss))" "n = length (bs @ pad_and_checksum bs)"
    and "n \<le> cap" "obj_ok cap tab" "i < length ss" "length (ss ! i) < length buf"
  shows "\<exists>t tab' q. build_strings counter tab 0 cap ss = Some (counter + of_nat (length ss), t, length bs) \<and>
    pldm_bios_table_append_pad_checksum (Some t) cap (Some (length bs)) = Some (PLDM_SUCCESS, Some tab', Some n) \<and>
    pldm_bios_table_checksum (Some tab') n = Some True \<and>
    pldm_bios_table_string_find_by_handle True tab' n (counter + of_nat i) = Some (Some q) \<and>
    pldm_bios_table_string_entry_decode_string (Some q) (Some buf) (length buf) = Some (PLDM_SUCCESS, Some (poke buf 0 (ss ! i @ [0]))) \<and>
    (0 \<notin> set (ss ! i) \<and> distinct ss \<longrightarrow>
       pldm_bios_table_string_find_by_string True tab' n (ss ! i @ [0]) = Some (Some q)) \<and>
    (\<forall>h. (\<forall>j < length ss. h \<noteq> counter + of_nat j) \<longrightarrow> pldm_bios_table_string_find_by_handle True tab' n h = Some None)"
proof -
  let ?es = "numbered counter ss" and ?t = "(fst tab, poke (snd tab) 0 bs)"
  have room: "length bs \<le> cap" "length bs \<le> length (snd tab)" using assms(4-6) by (auto simp: obj_ok_def)
  have built: "build_strings counter tab 0 cap ss = Some (counter + of_nat (length ss), ?t, length bs)"
    using build_strings_bytes [of 0 counter ss cap tab] assms(1-3,6) room by simp
  have t: "take (length bs) (snd ?t) = concat (map string_entry_bytes ?es)" "length bs = length (concat (map string_entry_bytes ?es))"
    "n = length bs + length (pad_and_checksum (concat (map string_entry_bytes ?es)))"
    using assms(3,4) by (simp_all add: take_poke_0)
  have "obj_ok cap ?t" using assms(6) room by (simp add: obj_ok_def)
  then obtain tab' where tab': "pldm_bios_table_append_pad_checksum (Some ?t) cap (Some (length bs)) = Some (PLDM_SUCCESS, Some tab', Some n)"
    and holds: "holds_table string_entry_bytes ?es tab' n"
    and crc: "12 \<le> n \<longrightarrow> pldm_bios_table_checksum (Some tab') n = Some True"
    by (rule appended_holds [OF t assms(5)])
  have valid: "\<forall>e \<in> set ?es. string_valid e" using numbered_valid [OF assms(1)] by blast
  have nth: "?es ! j = (counter + of_nat j, ss ! j)" if "j < length ss" for j using that by (rule numbered_nth)
  have other: "\<forall>j < i. fst (?es ! j) \<noteq> fst (?es ! i)"
  proof (intro allI impI)
    fix j assume "j < i"
    then have "of_nat j \<noteq> (of_nat i :: u16)" using assms(2,7) unat_len16 [of i] unat_len16 [of j] by auto
    then show "fst (?es ! j) \<noteq> fst (?es ! i)" using \<open>j < i\<close> assms(7) by (simp add: nth)
  qed
  have handles: "\<exists>j < length ss. h = counter + of_nat j" if h: "h \<in> fst ` set ?es" for h
  proof -
    obtain e where "e \<in> set ?es" "h = fst e" using h by blast
    then obtain j where "j < length ss" "h = fst (?es ! j)" by (auto simp: in_set_conv_nth)
    then show ?thesis using nth by auto
  qed
  let ?q = "(tab', fst tab' + length (concat (map string_entry_bytes (take i ?es))))"
  have q: "points_at ?q (string_entry_bytes (?es ! i))"
    using holds_table_bytes [OF holds] assms(7) by (intro points_at_nth) auto
  have "5 \<le> length bs"
    using assms(1,3,7) by (cases ss) (auto simp: string_entry_bytes_def Suc_le_eq)
  then have "12 \<le> n" using pad_total assms(4) by (simp add: length_pad_and_checksum)
  show ?thesis
  proof (intro exI conjI allI impI)
    show "build_strings counter tab 0 cap ss = Some (counter + of_nat (length ss), ?t, length bs)" by (rule built)
    show "pldm_bios_table_append_pad_checksum (Some ?t) cap (Some (length bs)) = Some (PLDM_SUCCESS, Some tab', Some n)" by (rule tab')
    show "pldm_bios_table_checksum (Some tab') n = Some True" using crc \<open>12 \<le> n\<close> by simp
    show "pldm_bios_table_string_find_by_handle True tab' n (counter + of_nat i) = Some (Some ?q)"
      using string_search(1) [OF holds valid _ other] nth assms(7) by simp
    show "pldm_bios_table_string_entry_decode_string (Some ?q) (Some buf) (length buf) = Some (PLDM_SUCCESS, Some (poke buf 0 (ss ! i @ [0])))"
      using decode_string_at [OF bspec [OF valid nth_mem] q] nth assms(7,8) by simp
    show "pldm_bios_table_string_find_by_string True tab' n (ss ! i @ [0]) = Some (Some ?q)" if "0 \<notin> set (ss ! i) \<and> distinct ss"
      using string_search(2) [OF holds valid, of i] nth assms(7) that by (simp add: nth_eq_iff_index_eq)
    show "pldm_bios_table_string_find_by_handle True tab' n h = Some None" if "\<forall>j < length ss. h \<noteq> counter + of_nat j" for h
      using string_search(3) [OF holds valid, of h] handles [of h] that by blast
  qed
qed

theorem bios_strings_found_witness:
  "\<exists>t tab' q. build_strings 7 (4096, replicate 24 0xee) 0 24 [[0x41, 0x42], [0x43]] = Some (9, t, 11) \<and>
    pldm_bios_table_append_pad_checksum (Some t) 24 (Some 11) = Some (PLDM_SUCCESS, Some tab', Some 16) \<and>
    pldm_bios_table_checksum (Some tab') 16 = Some True \<and>
    pldm_bios_table_string_find_by_handle True tab' 16 8 = Some (Some q) \<and>
    pldm_bios_table_string_entry_decode_string (Some q) (Some [1, 1, 1]) 3 = Some (PLDM_SUCCESS, Some [0x43, 0, 1])"
proof -
  let ?ss = "[[0x41, 0x42], [0x43]] :: u8 list list"
  let ?bs = "concat (map string_entry_bytes (numbered 7 ?ss))"
  have len: "length ?bs = 11" "length (?bs @ pad_and_checksum ?bs) = 16"
    by (simp_all add: string_entry_bytes_def length_pad_and_checksum pldm_bios_table_pad_checksum_size_def pad_size_get_def)
  have ok: "obj_ok 24 (4096, replicate 24 0xee)" by (simp add: obj_ok_def)
  have buf: "length [1, 1, 1 :: u8] = 3" by simp
  have i: "?ss ! 1 = [0x43]" "7 + of_nat (1 :: nat) = (8 :: u16)" "7 + of_nat (length ?ss) = (9 :: u16)" by simp_all
  have "\<forall>s \<in> set ?ss. s \<noteq> [] \<and> length s < 65536" "unat (7 :: u16) + length ?ss \<le> 65535" by simp_all
  from bios_strings_found [OF this refl refl, of 24 "(4096, replicate 24 0xee)" 1 "[1, 1, 1]", unfolded len buf i] ok
  show ?thesis by (auto simp: poke_def)
qed

section \<open>Value tables\<close>

text \<open>An entry is the handle and type of an attribute and the bytes of its value.\<close>

record bios_value =
  bv_handle :: u16
  bv_type :: u8
  bv_bytes :: "u8 list"

definition value_bytes :: "bios_value \<Rightarrow> u8 list" where
  "value_bytes v = le_of_word (bv_handle v) @ [bv_type v] @ bv_bytes v"

definition enum_value :: "u8 list \<Rightarrow> u8 list" where
  "enum_value hs = of_nat (length hs) # hs"

definition string_value :: "u8 list \<Rightarrow> u8 list" where
  "string_value s = le_of_word (of_nat (length s) :: u16) @ s"

definition value_valid :: "bios_value \<Rightarrow> bool" where
  "value_valid v \<longleftrightarrow>
     type_expected (bv_type v) PLDM_BIOS_ENUMERATION \<and> (\<exists>hs. bv_bytes v = enum_value hs \<and> length hs < 256) \<or>
     type_expected (bv_type v) PLDM_BIOS_STRING \<and> (\<exists>s. bv_bytes v = string_value s \<and> length s < 65536) \<or>
     type_expected (bv_type v) PLDM_BIOS_INTEGER \<and> length (bv_bytes v) = 8"

lemma type_expected_cases:
  "type_expected ty PLDM_BIOS_ENUMERATION \<longleftrightarrow> ty = 0 \<or> ty = 0x80"
  "type_expected ty PLDM_BIOS_STRING \<longleftrightarrow> ty = 1 \<or> ty = 0x81"
  "type_expected ty PLDM_BIOS_INTEGER \<longleftrightarrow> ty = 3 \<or> ty = 0x83"
  by (simp_all add: type_expected_def)

lemma value_handler:
  "type_expected ty PLDM_BIOS_ENUMERATION \<Longrightarrow>
     find_table_entry_length_by_type ty attr_value_table_entries = Some attr_value_table_entry_length_enum"
  "type_expected ty PLDM_BIOS_STRING \<Longrightarrow>
     find_table_entry_length_by_type ty attr_value_table_entries = Some attr_value_table_entry_length_string"
  "type_expected ty PLDM_BIOS_INTEGER \<Longrightarrow>
     find_table_entry_length_by_type ty attr_value_table_entries = Some attr_value_table_entry_length_integer"
  by (auto simp: type_expected_cases attr_value_table_entries_def)

lemma value_fields:
  assumes "points_at q (value_bytes v)"
  shows "deref q 0 = Some (bv_handle v)" "deref q 2 = Some (bv_type v)"
    "LENGTH('a) div 8 \<le> length (bv_bytes v) \<Longrightarrow> deref q VALUE = Some (word_of_le (take (LENGTH('a) div 8) (bv_bytes v)) :: 'a::len word)"
    "k + n \<le> length (bv_bytes v) \<Longrightarrow> load (fst q) (snd q + VALUE + k) n = Some (take n (drop k (bv_bytes v)))"
proof -
  show "deref q 0 = Some (bv_handle v)" "deref q 2 = Some (bv_type v)"
    using points_at_deref [OF assms, of 0, where 'a = 16] points_at_deref [OF assms, of 2, where 'a = 8]
    by (simp_all add: value_bytes_def)
  show "deref q VALUE = Some (word_of_le (take (LENGTH('a) div 8) (bv_bytes v)) :: 'a word)" if "LENGTH('a) div 8 \<le> length (bv_bytes v)"
    using points_at_deref [OF assms, of VALUE, where 'a = 'a] that by (simp add: value_bytes_def)
  show "load (fst q) (snd q + VALUE + k) n = Some (take n (drop k (bv_bytes v)))" if "k + n \<le> length (bv_bytes v)"
    using points_at_load [OF assms, of "VALUE + k" n] that by (simp add: value_bytes_def add.assoc)
qed

lemma unat_len8: "n < 256 \<Longrightarrow> unat (of_nat n :: u8) = n"
  by (simp add: unsigned_of_nat take_bit_nat_eq_self)

lemma value_length:
  assumes "value_valid v" "points_at q (value_bytes v)"
  shows "attr_value_table_entry_length q = Some (int (length (value_bytes v)))"
proof -
  have ty: "deref q 2 = Some (bv_type v)" by (rule value_fields(2) [OF assms(2)])
  consider (enum) hs where "type_expected (bv_type v) PLDM_BIOS_ENUMERATION" "bv_bytes v = enum_value hs" "length hs < 256"
    | (str) s where "type_expected (bv_type v) PLDM_BIOS_STRING" "bv_bytes v = string_value s" "length s < 65536"
    | (int) "type_expected (bv_type v) PLDM_BIOS_INTEGER" "length (bv_bytes v) = 8"
    using assms(1) unfolding value_valid_def by blast
  then show ?thesis
  proof cases
    case enum
    then show ?thesis
      using ty value_fields(3) [OF assms(2), where 'a = 8] unat_len8 [of "length hs"]
      by (simp add: attr_value_table_entry_length_def value_handler attr_value_table_entry_length_enum_def
          pldm_bios_table_attr_value_entry_enum_decode_number_def pldm_bios_table_attr_value_entry_encode_enum_length_def
          as_ssize_small value_bytes_def enum_value_def)
  next
    case str
    then show ?thesis
      using ty value_fields(3) [OF assms(2), where 'a = 16] unat_len16 [of "length s"]
      by (simp add: attr_value_table_entry_length_def value_handler attr_value_table_entry_length_string_def
          pldm_bios_table_attr_value_entry_string_decode_length_def pldm_bios_table_attr_value_entry_encode_string_length_def
          as_ssize_small value_bytes_def string_value_def)
  next
    case int
    then show ?thesis
      using ty by (simp add: attr_value_table_entry_length_def value_handler attr_value_table_entry_length_integer_def
          pldm_bios_table_attr_value_entry_encode_integer_length_def as_ssize_small value_bytes_def)
  qed
qed

lemma value_min: "value_valid v \<Longrightarrow> 4 \<le> length (value_bytes v)"
  by (auto simp: value_valid_def value_bytes_def enum_value_def string_value_def)

interpretation value_entries: bios_entries attr_value_table_entry_length value_bytes value_valid
  by unfold_locales (rule value_length value_min; assumption)+


section \<open>Updating a value\<close>

definition update_value :: "bios_value \<Rightarrow> bios_value list \<Rightarrow> bios_value list" where
  "update_value new vs = map (\<lambda>v. if bv_handle v = bv_handle new then new else v) vs"

definition same_type :: "bios_value \<Rightarrow> bios_value \<Rightarrow> bool" where
  "same_type new v \<longleftrightarrow> (bv_handle v = bv_handle new \<longrightarrow> bv_type v = bv_type new)"

abbreviation (input) values_bytes :: "bios_value list \<Rightarrow> u8 list" where
  "values_bytes vs \<equiv> concat (map value_bytes vs)"

lemma update_value_simps [simp]:
  "update_value new [] = []"
  "update_value new (v # vs) = (if bv_handle v = bv_handle new then new else v) # update_value new vs"
  by (simp_all add: update_value_def)

text \<open>One round of the copying loop.\<close>

lemma copy_values_round:
  assumes "value_entries.iter_at it (v # vs)" "points_at entry (value_bytes new)"
    and "w = (if bv_handle v = bv_handle new then new else v)"
    and "copied + length (value_bytes w) \<le> room" "obj_ok room dest" "length (value_bytes new) = n"
  shows "same_type new v \<Longrightarrow> \<exists>it'. value_entries.iter_at it' vs \<and>
      copy_values it entry n room dest copied =
        copy_values it' entry n room (fst dest, poke (snd dest) copied (value_bytes w)) (copied + length (value_bytes w))"
    and "\<not> same_type new v \<Longrightarrow> copy_values it entry n room dest copied = Some (Inl (PLDM_ERROR_INVALID_DATA, dest))"
proof -
  note at = value_entries.iter_at_entry [OF assms(1)]
  let ?q = "pldm_bios_table_iter_value it" and ?l = "length (value_bytes v)"
  have fields: "deref ?q 0 = Some (bv_handle v)" "deref ?q 2 = Some (bv_type v)"
    "deref entry 0 = Some (bv_handle new)" "deref entry 2 = Some (bv_type new)"
    by (rule value_fields [OF at(1)] value_fields [OF assms(2)])+
  have bounds: "room \<le> length (snd dest)" "copied + length (value_bytes w) \<le> UINTPTR_MAX"
    using assms(4,5) by (auto simp: obj_ok_def)
  have wrap: "(copied + length (value_bytes w)) mod 2 ^ 64 = copied + length (value_bytes w)" using bounds(2) by simp
  have "bi_current_pos it + ?l < 2 ^ 64"
    using mod_less_divisor [of "2 ^ 64" "bi_current_pos it + ?l"] unfolding at(7) by simp
  then have len: "nat (int ?l mod 2 ^ 64) = ?l" by (simp add: nat_mod_distrib nat_power_eq)
  show "\<not> same_type new v \<Longrightarrow> copy_values it entry n room dest copied = Some (Inl (PLDM_ERROR_INVALID_DATA, dest))"
    using at(3,4) fields by (subst copy_values.simps) (simp add: same_type_def Let_def)
  let ?it = "it\<lparr>bi_current_pos := (bi_current_pos it + ?l) mod 2 ^ 64\<rparr>"
  have read: "load (fst ?q) (snd ?q) ?l = Some (value_bytes v)" "load (fst entry) (snd entry) n = Some (value_bytes new)"
    using points_at_load [OF at(1), of 0 ?l] points_at_load [OF assms(2), of 0 n] assms(6) by simp_all
  have "store dest (fst dest + copied) (value_bytes w) = Some (fst dest, poke (snd dest) copied (value_bytes w))"
    using assms(4) bounds by (subst store_ok) auto
  then have "copy_values it entry n room dest copied = copy_values ?it entry n room
      (fst dest, poke (snd dest) copied (value_bytes w)) (copied + length (value_bytes w))" if "same_type new v"
    using at(3,4) fields read wrap len assms(3,4,6) that
    by (subst copy_values.simps) (auto simp: same_type_def Let_def)
  then show "\<exists>it'. value_entries.iter_at it' vs \<and>
      copy_values it entry n room dest copied =
        copy_values it' entry n room (fst dest, poke (snd dest) copied (value_bytes w)) (copied + length (value_bytes w))"
    if "same_type new v" using at(5) that by blast
qed

lemma copy_values_all:
  assumes "value_entries.iter_at it vs" "points_at entry (value_bytes new)" "length (value_bytes new) = n"
    and "copied + length (values_bytes (update_value new vs)) \<le> room" "obj_ok room dest"
  shows "\<forall>v \<in> set vs. same_type new v \<Longrightarrow> copy_values it entry n room dest copied =
      Some (Inr ((fst dest, poke (snd dest) copied (values_bytes (update_value new vs))),
        copied + length (values_bytes (update_value new vs))))"
    and "\<not> (\<forall>v \<in> set vs. same_type new v) \<Longrightarrow>
      \<exists>dest'. copy_values it entry n room dest copied = Some (Inl (PLDM_ERROR_INVALID_DATA, dest'))"
proof -
  have "(\<forall>v \<in> set vs. same_type new v) \<and> copy_values it entry n room dest copied =
      Some (Inr ((fst dest, poke (snd dest) copied (values_bytes (update_value new vs))),
        copied + length (values_bytes (update_value new vs)))) \<or>
    \<not> (\<forall>v \<in> set vs. same_type new v) \<and> (\<exists>dest'. copy_values it entry n room dest copied = Some (Inl (PLDM_ERROR_INVALID_DATA, dest')))"
    using assms
  proof (induction vs arbitrary: it dest copied)
    case Nil
    then show ?case by (subst (1 2) copy_values.simps) (simp add: value_entries.iter_at_Nil)
  next
    case (Cons v vs)
    let ?w = "if bv_handle v = bv_handle new then new else v"
    let ?dest = "(fst dest, poke (snd dest) copied (value_bytes ?w))"
    note prems = Cons.prems
    have room: "copied + length (value_bytes ?w) \<le> room" using prems(4) by simp
    note round = copy_values_round [OF prems(1,2) refl room prems(5,3)]
    have len: "copied + length (value_bytes ?w) \<le> length (snd dest)" using room prems(5) by (auto simp: obj_ok_def)
    then have ok: "obj_ok room ?dest" using prems(5) by (simp add: obj_ok_def)
    show ?case
    proof (cases "same_type new v")
      case False
      then show ?thesis using round(2) by auto
    next
      case True
      obtain it' where it': "value_entries.iter_at it' vs" "copy_values it entry n room dest copied =
          copy_values it' entry n room ?dest (copied + length (value_bytes ?w))"
        using round(1) [OF True] by blast
      have "copied + length (value_bytes ?w) + length (values_bytes (update_value new vs)) \<le> room" using prems(4) by simp
      from Cons.IH [OF it'(1) prems(2,3) this ok] show ?thesis
        unfolding it'(2) using True len by (auto simp: poke_poke add.assoc)
    qed
  qed
  then show "\<forall>v \<in> set vs. same_type new v \<Longrightarrow> copy_values it entry n room dest copied =
      Some (Inr ((fst dest, poke (snd dest) copied (values_bytes (update_value new vs))),
        copied + length (values_bytes (update_value new vs))))"
    and "\<not> (\<forall>v \<in> set vs. same_type new v) \<Longrightarrow>
      \<exists>dest'. copy_values it entry n room dest copied = Some (Inl (PLDM_ERROR_INVALID_DATA, dest'))"
    by blast+
qed

lemma value_equal: "points_at q (value_bytes v) \<Longrightarrow> attr_value_table_handle_equal h q = Some (bv_handle v = h)"
  using value_fields(1) [of q v]
  by (simp add: attr_value_table_handle_equal_def pldm_bios_table_attr_value_entry_decode_handle_def)

lemma updated_is_found:
  assumes "holds_table value_bytes (update_value new vs) tab n" "\<forall>v \<in> set (update_value new vs). value_valid v"
    and "bv_handle new \<in> bv_handle ` set vs"
  shows "\<exists>q. pldm_bios_table_attr_value_find_by_handle True tab n (bv_handle new) = Some (Some q) \<and> points_at q (value_bytes new)"
proof -
  let ?us = "update_value new vs" and ?P = "\<lambda>v. bv_handle v = bv_handle new"
  have "\<exists>i. i < length ?us \<and> ?P (?us ! i)" 
  proof -
    obtain i where "i < length vs" "bv_handle (vs ! i) = bv_handle new" using assms(3) by (auto simp: in_set_conv_nth)
    then show ?thesis by (intro exI [of _ i]) (simp add: update_value_def)
  qed
  from exists_least_iff [THEN iffD1, OF this] obtain i
    where i: "i < length ?us" "?P (?us ! i)" "\<And>j. j < i \<Longrightarrow> \<not> ?P (?us ! j)"
    by (auto simp: update_value_def)
  let ?q = "(tab, fst tab + length (values_bytes (take i ?us)))"
  have "?us ! i = new" using i(1,2) by (auto simp: update_value_def split: if_splits)
  then have "points_at ?q (value_bytes new)"
    using points_at_nth [where enc = value_bytes, OF holds_table_bytes [OF assms(1)] i(1)] by simp
  moreover have "pldm_bios_table_attr_value_find_by_handle True tab n (bv_handle new) = Some (Some ?q)"
    unfolding pldm_bios_table_attr_value_find_by_handle_def pldm_bios_table_entry_find_from_table_def pldm_bios_table_iter_create_def
    using value_entries.find_nth [where P = ?P, OF assms(1,2) i value_equal refl] by simp
  ultimately show ?thesis by blast
qed

text \<open>
  C33. Updating a BIOS attribute value. On a value table with valid entries, the function that copies the
  table with one value replaced gives a table with the new entry in the place of every entry of its handle,
  and all the other entries as they were and in order, followed by padding and a checksum that is accepted
  from 12 bytes on; the value found under the handle is then the new one. When an entry with the handle has another
  type, the call is refused and the size of the destination is left as it was.
\<close>

theorem bios_value_updated:
  assumes "holds_table value_bytes vs src n" "\<forall>v \<in> set vs. value_valid v" "value_valid new" "points_at entry (value_bytes new)"
    and "bs = values_bytes (update_value new vs)" "n' = length (bs @ pad_and_checksum bs)" "n' \<le> cap" "obj_ok cap dest"
  shows "(if \<forall>v \<in> set vs. same_type new v
     then \<exists>dest'. pldm_bios_table_attr_value_copy_and_update True src n dest cap entry (length (value_bytes new)) =
         Some (PLDM_SUCCESS, dest', n') \<and>
       holds_table value_bytes (update_value new vs) dest' n' \<and>
       (12 \<le> n' \<longrightarrow> pldm_bios_table_checksum (Some dest') n' = Some True) \<and>
       (bv_handle new \<in> bv_handle ` set vs \<longrightarrow>
          (\<exists>q. pldm_bios_table_attr_value_find_by_handle True dest' n' (bv_handle new) = Some (Some q) \<and> points_at q (value_bytes new)))
     else \<exists>dest'. pldm_bios_table_attr_value_copy_and_update True src n dest cap entry (length (value_bytes new)) =
         Some (PLDM_ERROR_INVALID_DATA, dest', cap))"
proof -
  let ?it = "\<lambda>t n. \<lparr>bi_table_data = t, bi_table_len = n, bi_current_pos = 0, bi_entry_length_handler = attr_value_table_entry_length\<rparr>"
  let ?us = "update_value new vs"
  have create: "pldm_bios_table_iter_create True t n PLDM_BIOS_ATTR_VAL_TABLE = Some (?it t n)" for t n
    by (simp add: pldm_bios_table_iter_create_def)
  have room: "0 + length bs \<le> cap" "length bs \<le> length (snd dest)" using assms(6-8) by (auto simp: obj_ok_def)
  note copy = copy_values_all [OF value_entries.iter_start [OF assms(1,2)] assms(4) refl, of 0 cap dest, folded assms(5), OF room(1) assms(8)]
  show ?thesis
  proof (cases "\<forall>v \<in> set vs. same_type new v")
    case False
    then show ?thesis
      using copy(2) create [of src n] by (auto simp: pldm_bios_table_attr_value_copy_and_update_def)
  next
    case True
    let ?t = "(fst dest, poke (snd dest) 0 bs)"
    have t: "take (length bs) (snd ?t) = values_bytes ?us" "length bs = length (values_bytes ?us)"
      "n' = length bs + length (pad_and_checksum (values_bytes ?us))"
      using assms(5,6) by (simp_all add: take_poke_0)
    have ok: "obj_ok cap ?t" using assms(8) room by (simp add: obj_ok_def)
    obtain dest' where app: "pldm_bios_table_append_pad_checksum (Some ?t) cap (Some (length bs)) = Some (PLDM_SUCCESS, Some dest', Some n')"
      and holds: "holds_table value_bytes ?us dest' n'"
      and crc: "12 \<le> n' \<longrightarrow> pldm_bios_table_checksum (Some dest') n' = Some True"
      by (rule appended_holds [OF t assms(7) ok])
    have "pldm_bios_table_pad_checksum_size (length bs) + length bs = n'"
      using assms(6) by (simp add: length_pad_and_checksum)
    moreover have "n' < 2 ^ 64" using assms(7,8) by (simp add: obj_ok_def)
    ultimately have fits: "\<not> (pldm_bios_table_pad_checksum_size (length bs) + length bs) mod 2 ^ 64 > cap"
      using assms(7) by simp
    have result: "pldm_bios_table_attr_value_copy_and_update True src n dest cap entry (length (value_bytes new)) =
        Some (PLDM_SUCCESS, dest', n')"
      unfolding pldm_bios_table_attr_value_copy_and_update_def create using copy(1) [OF True] fits app by simp
    have valid: "\<forall>v \<in> set ?us. value_valid v" using assms(2,3) by (auto simp: update_value_def)
    have "\<exists>q. pldm_bios_table_attr_value_find_by_handle True dest' n' (bv_handle new) = Some (Some q) \<and> points_at q (value_bytes new)"
      if "bv_handle new \<in> bv_handle ` set vs" by (rule updated_is_found [OF holds valid that])
    with result holds crc True show ?thesis by auto
  qed
qed

theorem bios_value_updated_witness:
  "\<exists>src dest'. holds_table value_bytes
      [\<lparr>bv_handle = 1, bv_type = 0, bv_bytes = [1, 5]\<rparr>, \<lparr>bv_handle = 2, bv_type = 1, bv_bytes = [2, 0, 0x41, 0x42]\<rparr>] src 16 \<and>
    pldm_bios_table_attr_value_copy_and_update True src 16 (8192, replicate 20 0xee) 20 ((512, [2, 0, 1, 3, 0, 0x43, 0x44, 0x45]), 512) 8 =
      Some (PLDM_SUCCESS, dest', 20) \<and>
    holds_table value_bytes
      [\<lparr>bv_handle = 1, bv_type = 0, bv_bytes = [1, 5]\<rparr>, \<lparr>bv_handle = 2, bv_type = 1, bv_bytes = [3, 0, 0x43, 0x44, 0x45]\<rparr>] dest' 20 \<and>
    pldm_bios_table_checksum (Some dest') 20 = Some True"
proof -
  let ?a = "\<lparr>bv_handle = 1, bv_type = 0, bv_bytes = [1, 5]\<rparr>"
  let ?vs = "[?a, \<lparr>bv_handle = 2, bv_type = 1, bv_bytes = [2, 0, 0x41, 0x42]\<rparr>]"
  let ?new = "\<lparr>bv_handle = 2, bv_type = 1, bv_bytes = [3, 0, 0x43, 0x44, 0x45]\<rparr>"
  let ?entry = "((512, [2, 0, 1, 3, 0, 0x43, 0x44, 0x45]), 512) :: ptr"
  let ?bs = "values_bytes ?vs" and ?bs' = "values_bytes (update_value ?new ?vs)"
  let ?src = "(4096, ?bs @ pad_and_checksum ?bs)"
  have len: "length (?bs @ pad_and_checksum ?bs) = 16" "length (?bs' @ pad_and_checksum ?bs') = 20" "length (value_bytes ?new) = 8"
    "update_value ?new ?vs = [?a, ?new]"
    by (simp_all add: value_bytes_def length_pad_and_checksum pldm_bios_table_pad_checksum_size_def pad_size_get_def)
  have src: "holds_table value_bytes ?vs ?src 16" using len(1) by (simp add: holds_table_def obj_ok_def del: list.map)
  have "value_valid ?a" unfolding value_valid_def enum_value_def by (rule disjI1) (auto simp: type_expected_def intro: exI [of _ "[5]"])
  moreover have "value_valid \<lparr>bv_handle = 2, bv_type = 1, bv_bytes = [2, 0, 0x41, 0x42]\<rparr>"
    unfolding value_valid_def string_value_def
    by (rule disjI2, rule disjI1, rule conjI, simp add: type_expected_def, rule exI [of _ "[0x41, 0x42]"]) (simp add: le_of_word_16)
  ultimately have valid: "\<forall>v \<in> set ?vs. value_valid v" by simp
  have new: "value_valid ?new"
    unfolding value_valid_def string_value_def
    by (rule disjI2, rule disjI1, rule conjI, simp add: type_expected_def, rule exI [of _ "[0x43, 0x44, 0x45]"]) (simp add: le_of_word_16)
  have entry: "points_at ?entry (value_bytes ?new)" by (rule points_atI [of _ "[]" _ "[]"]) (simp_all add: value_bytes_def le_of_word_16)
  have dest: "obj_ok 20 (8192, replicate 20 0xee)" by (simp add: obj_ok_def)
  have "\<forall>v \<in> set ?vs. same_type ?new v" by (simp add: same_type_def)
  then obtain dest' where
    "pldm_bios_table_attr_value_copy_and_update True ?src 16 (8192, replicate 20 0xee) 20 ?entry 8 = Some (PLDM_SUCCESS, dest', 20)"
    "holds_table value_bytes [?a, ?new] dest' 20" "pldm_bios_table_checksum (Some dest') 20 = Some True"
    using bios_value_updated [OF src valid new entry refl len(2) [symmetric] order_refl dest, unfolded len(3,4)] by auto
  with src show ?thesis by (intro exI [of _ ?src] exI [of _ dest'] conjI)
qed

end
