(* ===== verification/Bios_Entry_Laws.thy ===== *)
theory Bios_Entry_Laws
  imports Bios_Table_Laws
begin

text \<open>
  Entries of the BIOS attribute and value tables: what the encoders write is read back by the decoders, has the length
  the iterator steps by, and an attribute is found in a table by its handle and by the handle of its name.
\<close>

section \<open>Entries\<close>

record bios_attr =
  ba_handle :: u16
  ba_type :: u8
  ba_name :: u16
  ba_metadata :: "u8 list"

definition attr_bytes :: "bios_attr \<Rightarrow> u8 list" where
  "attr_bytes a = le_of_word (ba_handle a) @ [ba_type a] @ le_of_word (ba_name a) @ ba_metadata a"

definition enum_metadata :: "u16 list \<Rightarrow> u8 list \<Rightarrow> u8 list" where
  "enum_metadata pvs defs = of_nat (length pvs) # concat (map le_of_word pvs) @ of_nat (length defs) # defs"

definition string_metadata :: "u8 \<Rightarrow> u16 \<Rightarrow> u16 \<Rightarrow> u8 list \<Rightarrow> u8 list" where
  "string_metadata ty lo hi s = ty # le_of_word lo @ le_of_word hi @ le_of_word (of_nat (length s) :: u16) @ s"

definition integer_metadata :: "u64 \<Rightarrow> u64 \<Rightarrow> u32 \<Rightarrow> u64 \<Rightarrow> u8 list" where
  "integer_metadata lo hi inc def = le_of_word lo @ le_of_word hi @ le_of_word inc @ le_of_word def"

definition attr_valid :: "bios_attr \<Rightarrow> bool" where
  "attr_valid a \<longleftrightarrow>
     type_expected (ba_type a) PLDM_BIOS_ENUMERATION \<and>
       (\<exists>pvs defs. ba_metadata a = enum_metadata pvs defs \<and> length pvs < 256 \<and> length defs < 256) \<or>
     type_expected (ba_type a) PLDM_BIOS_STRING \<and>
       (\<exists>ty lo hi s. ba_metadata a = string_metadata ty lo hi s \<and> length s < 65536) \<or>
     type_expected (ba_type a) PLDM_BIOS_INTEGER \<and> (\<exists>lo hi inc def. ba_metadata a = integer_metadata lo hi inc def)"

lemma points_at_poked: "length bs \<le> length (snd obj) \<Longrightarrow> points_at ((fst obj, poke (snd obj) 0 bs), fst obj) bs"
  by (rule points_atI [of _ "[]" _ "drop (length bs) (snd obj)"]) (simp_all add: poke_def)

lemma length_le_words: "length (concat (map le_of_word (ws :: u16 list))) = 2 * length ws"
  by (induction ws) simp_all

lemma nth_le_words:
  "i < length ws \<Longrightarrow> take 2 (drop (2 * i) (concat (map le_of_word (ws :: u16 list)) @ rest)) = le_of_word (ws ! i)"
proof (induction ws arbitrary: i)
  case (Cons w ws)
  then show ?case by (cases i) simp_all
qed simp

lemma attr_fields:
  assumes "points_at q (attr_bytes a)"
  shows "deref q 0 = Some (ba_handle a)" "deref q 2 = Some (ba_type a)" "deref q 3 = Some (ba_name a)"
    "k + LENGTH('a) div 8 \<le> length (ba_metadata a) \<Longrightarrow>
       deref q (METADATA + k) = Some (word_of_le (take (LENGTH('a) div 8) (drop k (ba_metadata a))) :: 'a::len word)"
    "k + n \<le> length (ba_metadata a) \<Longrightarrow> load (fst q) (snd q + METADATA + k) n = Some (take n (drop k (ba_metadata a)))"
proof -
  show "deref q 0 = Some (ba_handle a)" "deref q 2 = Some (ba_type a)" "deref q 3 = Some (ba_name a)"
    using points_at_deref [OF assms, of 0, where 'a = 16] points_at_deref [OF assms, of 2, where 'a = 8]
      points_at_deref [OF assms, of 3, where 'a = 16]
    by (simp_all add: attr_bytes_def)
  have len: "length (attr_bytes a) = METADATA + length (ba_metadata a)" by (simp add: attr_bytes_def)
  have behind: "drop (METADATA + k) (attr_bytes a) = drop k (ba_metadata a)" by (simp add: attr_bytes_def drop_Cons')
  show "deref q (METADATA + k) = Some (word_of_le (take (LENGTH('a) div 8) (drop k (ba_metadata a))) :: 'a word)"
    if "k + LENGTH('a) div 8 \<le> length (ba_metadata a)"
    using points_at_deref [OF assms, of "METADATA + k", where 'a = 'a] that len behind by simp
  show "load (fst q) (snd q + METADATA + k) n = Some (take n (drop k (ba_metadata a)))" if "k + n \<le> length (ba_metadata a)"
    using points_at_load [OF assms, of "METADATA + k" n] that len behind by (simp add: add.assoc)
qed

section \<open>Reading the metadata\<close>

lemma enum_fields:
  assumes "points_at q (attr_bytes a)" "ba_metadata a = enum_metadata pvs defs" "length pvs < 256" "length defs < 256"
  shows "deref q METADATA = Some (of_nat (length pvs) :: u8)"
    "deref q (METADATA + 1 + 2 * length pvs) = Some (of_nat (length defs) :: u8)"
    "i < length pvs \<Longrightarrow> deref q (METADATA + 1 + i * 2) = Some (pvs ! i)"
    "k \<le> length defs \<Longrightarrow> load (fst q) (snd q + METADATA + 1 + length pvs * 2 + 1) k = Some (take k defs)"
proof -
  note at = attr_fields(4) [OF assms(1)]
  have len: "length (ba_metadata a) = 2 + 2 * length pvs + length defs"
    using assms(2) length_le_words [of pvs] by (simp add: enum_metadata_def)
  show "deref q METADATA = Some (of_nat (length pvs) :: u8)"
    using at [of 0, where 'a = 8] len assms(2) by (simp add: enum_metadata_def)
  show "deref q (METADATA + 1 + 2 * length pvs) = Some (of_nat (length defs) :: u8)"
    using at [of "1 + 2 * length pvs", where 'a = 8] len assms(2) length_le_words [of pvs] by (simp add: enum_metadata_def)
  show "deref q (METADATA + 1 + i * 2) = Some (pvs ! i)" if "i < length pvs"
    using at [of "1 + i * 2", where 'a = 16] len assms(2) that nth_le_words [of i pvs "of_nat (length defs) # defs"]
    by (simp add: enum_metadata_def mult.commute)
  show "load (fst q) (snd q + METADATA + 1 + length pvs * 2 + 1) k = Some (take k defs)" if "k \<le> length defs"
    using attr_fields(5) [OF assms(1), of "1 + length pvs * 2 + 1" k] len assms(2) that length_le_words [of pvs]
    by (simp add: enum_metadata_def mult.commute add.assoc)
qed

lemma string_fields:
  assumes "points_at q (attr_bytes a)" "ba_metadata a = string_metadata ty lo hi s"
  shows "deref q METADATA = Some ty" "deref q (METADATA + 1) = Some lo" "deref q (METADATA + 3) = Some hi"
    "deref q (METADATA + 5) = Some (of_nat (length s) :: u16)"
    "k \<le> length s \<Longrightarrow> load (fst q) (snd q + METADATA + 7) k = Some (take k s)"
  using attr_fields(4) [OF assms(1), of 0, where 'a = 8] attr_fields(4) [OF assms(1), of 1, where 'a = 16]
    attr_fields(4) [OF assms(1), of 3, where 'a = 16] attr_fields(4) [OF assms(1), of 5, where 'a = 16]
    attr_fields(5) [OF assms(1), of 7 k] assms(2)
  by (simp_all add: string_metadata_def)

lemma integer_fields:
  assumes "points_at q (attr_bytes a)" "ba_metadata a = integer_metadata lo hi inc def"
  shows "pldm_bios_table_attr_entry_integer_decode q = Some (lo, hi, inc, def)"
  using attr_fields(4) [OF assms(1), of 0, where 'a = 64] attr_fields(4) [OF assms(1), of 8, where 'a = 64]
    attr_fields(4) [OF assms(1), of 16, where 'a = 32] attr_fields(4) [OF assms(1), of 20, where 'a = 64] assms(2)
  by (simp add: integer_metadata_def pldm_bios_table_attr_entry_integer_decode_def)

lemma attr_handler:
  "type_expected ty PLDM_BIOS_ENUMERATION \<Longrightarrow> find_table_entry_length_by_type ty attr_table_entries = Some attr_table_entry_length_enum"
  "type_expected ty PLDM_BIOS_STRING \<Longrightarrow> find_table_entry_length_by_type ty attr_table_entries = Some attr_table_entry_length_string"
  "type_expected ty PLDM_BIOS_INTEGER \<Longrightarrow> find_table_entry_length_by_type ty attr_table_entries = Some attr_table_entry_length_integer"
  by (auto simp: type_expected_cases attr_table_entries_def)

lemma enum_numbers:
  assumes "points_at q (attr_bytes a)" "ba_metadata a = enum_metadata pvs defs" "length pvs < 256" "length defs < 256"
    and "type_expected (ba_type a) PLDM_BIOS_ENUMERATION"
  shows "pldm_bios_table_attr_entry_enum_decode_pv_num (Some q) (Some x) = Some (PLDM_SUCCESS, Some (of_nat (length pvs)))"
    "pldm_bios_table_attr_entry_enum_decode_def_num (Some q) (Some x) = Some (PLDM_SUCCESS, Some (of_nat (length defs)))"
    "def_num_or_zero q = Some (of_nat (length defs))"
  using enum_fields(1,2) [OF assms(1-4)] attr_fields(2) [OF assms(1)] assms(3-5)
  by (simp_all add: pldm_bios_table_attr_entry_enum_decode_pv_num_def pldm_bios_table_attr_entry_enum_decode_def_num_def
      def_num_or_zero_def unat_len8)

lemma string_default_length:
  assumes "points_at q (attr_bytes a)" "ba_metadata a = string_metadata ty lo hi s" "type_expected (ba_type a) PLDM_BIOS_STRING"
  shows "pldm_bios_table_attr_entry_string_decode_def_string_length (Some q) (Some x) = Some (PLDM_SUCCESS, Some (of_nat (length s)))"
  using string_fields(4) [OF assms(1,2)] attr_fields(2) [OF assms(1)] assms(3)
  by (simp add: pldm_bios_table_attr_entry_string_decode_def_string_length_def)

lemma attr_length:
  assumes "attr_valid a" "points_at q (attr_bytes a)"
  shows "attr_table_entry_length q = Some (int (length (attr_bytes a)))"
proof -
  note ty = attr_fields(2) [OF assms(2)]
  consider (enum) pvs defs where "type_expected (ba_type a) PLDM_BIOS_ENUMERATION" "ba_metadata a = enum_metadata pvs defs"
      "length pvs < 256" "length defs < 256"
    | (str) t lo hi s where "type_expected (ba_type a) PLDM_BIOS_STRING" "ba_metadata a = string_metadata t lo hi s" "length s < 65536"
    | (int) lo hi inc def where "type_expected (ba_type a) PLDM_BIOS_INTEGER" "ba_metadata a = integer_metadata lo hi inc def"
    using assms(1) unfolding attr_valid_def by blast
  then show ?thesis
  proof cases
    case enum
    then show ?thesis
      using ty enum_fields(1) [OF assms(2) enum(2-4)] enum_numbers(3) [OF assms(2) enum(2-4,1)] length_le_words [of pvs]
      by (simp add: attr_table_entry_length_def attr_handler attr_table_entry_length_enum_def unat_len8
          pldm_bios_table_attr_entry_enum_encode_length_def as_ssize_small attr_bytes_def enum_metadata_def)
  next
    case str
    then show ?thesis
      using ty string_default_length [OF assms(2) str(2,1)]
      by (simp add: attr_table_entry_length_def attr_handler attr_table_entry_length_string_def unat_len16
          pldm_bios_table_attr_entry_string_encode_length_def as_ssize_small attr_bytes_def string_metadata_def)
  next
    case int
    then show ?thesis
      using ty by (simp add: attr_table_entry_length_def attr_handler attr_table_entry_length_integer_def
          pldm_bios_table_attr_entry_integer_encode_length_def as_ssize_small attr_bytes_def integer_metadata_def)
  qed
qed

interpretation attr_entries: bios_entries attr_table_entry_length attr_bytes attr_valid
  by unfold_locales (erule (1) attr_length, simp add: attr_bytes_def)

lemma decode_hdls_all:
  assumes "points_at q (attr_bytes a)" "ba_metadata a = enum_metadata pvs defs" "length pvs < 256" "length defs < 256"
    and "i + k \<le> length pvs" "i + k \<le> length hdls"
  shows "decode_hdls q i k hdls = Some (take i hdls @ take k (drop i pvs) @ drop (i + k) hdls)"
  using assms(5,6)
proof (induction k arbitrary: i hdls)
  case (Suc k)
  have i: "i < length pvs" "i < length hdls" using Suc.prems by simp_all
  have "decode_hdls q i (Suc k) hdls = decode_hdls q (i + 1) k (hdls[i := pvs ! i])"
    using enum_fields(3) [OF assms(1-4) i(1)] i(2) by simp
  also have "\<dots> = Some (take (i + 1) (hdls[i := pvs ! i]) @ take k (drop (i + 1) pvs) @ drop (i + 1 + k) (hdls[i := pvs ! i]))"
    using Suc.prems by (intro Suc.IH) simp_all
  also have "\<dots> = Some (take i hdls @ take (Suc k) (drop i pvs) @ drop (i + Suc k) hdls)"
    using i by (simp add: take_Suc_conv_app_nth upd_conv_take_nth_drop Cons_nth_drop_Suc [symmetric]) (simp add: add.commute)
  finally show ?case .
qed simp

section \<open>Writing entries\<close>

lemma attr_entry_encode_bytes:
  assumes "counter \<noteq> 0xffff" "length (attr_bytes a) \<le> len" "md \<noteq> []" "obj_ok len ent"
    and "a = \<lparr>ba_handle = counter, ba_type = ty, ba_name = nm, ba_metadata = md\<rparr>"
  shows "attr_entry_encode counter ent len ty nm (Some md) =
    Some (PLDM_SUCCESS, Some (fst ent, poke (snd ent) 0 (attr_bytes a)), counter + 1)"
proof -
  let ?hdr = "le_of_word counter @ [ty] @ le_of_word nm"
  have room: "5 + length md \<le> len" "len \<le> length (snd ent)" "1 \<le> length md"
    using assms(2-5) by (simp_all add: attr_bytes_def obj_ok_def Suc_le_eq)
  have "store ent (fst ent) ?hdr = Some (fst ent, poke (snd ent) 0 ?hdr)" using room by (subst store_ok) auto
  moreover have "store (fst ent, poke (snd ent) 0 ?hdr) (fst ent + METADATA) md = Some (fst ent, poke (snd ent) 0 (attr_bytes a))"
    using room assms(5) by (subst store_ok) (auto simp: poke_poke attr_bytes_def)
  ultimately show ?thesis
    using assms(1) room by (simp add: attr_entry_encode_def attr_table_entry_encode_header_def get_bios_attr_handle_def)
qed

text \<open>What the encoders write for each kind of attribute.\<close>

definition enum_attr :: "u16 \<Rightarrow> pldm_bios_table_attr_entry_enum_info \<Rightarrow> bios_attr" where
  "enum_attr h i = \<lparr>ba_handle = h, ba_type = (if ei_read_only i then PLDM_BIOS_ENUMERATION_READ_ONLY else PLDM_BIOS_ENUMERATION),
     ba_name = ei_name_handle i, ba_metadata = enum_metadata (ei_pv_handle i) (ei_def_index i)\<rparr>"

definition string_attr :: "u16 \<Rightarrow> pldm_bios_table_attr_entry_string_info \<Rightarrow> u8 list \<Rightarrow> bios_attr" where
  "string_attr h i s = \<lparr>ba_handle = h, ba_type = (if si_read_only i then PLDM_BIOS_STRING_READ_ONLY else PLDM_BIOS_STRING),
     ba_name = si_name_handle i, ba_metadata = string_metadata (si_string_type i) (si_min_length i) (si_max_length i) s\<rparr>"

definition integer_attr :: "u16 \<Rightarrow> pldm_bios_table_attr_entry_integer_info \<Rightarrow> bios_attr" where
  "integer_attr h i = \<lparr>ba_handle = h, ba_type = (if ii_read_only i then PLDM_BIOS_INTEGER_READ_ONLY else PLDM_BIOS_INTEGER),
     ba_name = ii_name_handle i,
     ba_metadata = integer_metadata (ii_lower_bound i) (ii_upper_bound i) (ii_scalar_increment i) (ii_default_value i)\<rparr>"

definition enum_complete :: "pldm_bios_table_attr_entry_enum_info \<Rightarrow> bool" where
  "enum_complete i \<longleftrightarrow> length (ei_pv_handle i) = unat (ei_pv_num i) \<and> length (ei_def_index i) = unat (ei_def_num i)"

lemma enum_complete_numbers:
  assumes "enum_complete i"
  shows "of_nat (length (ei_pv_handle i)) = ei_pv_num i" "of_nat (length (ei_def_index i)) = ei_def_num i"
    "length (ei_pv_handle i) < 256" "length (ei_def_index i) < 256"
proof -
  have "unat (ei_pv_num i) < 2 ^ LENGTH(8)" "unat (ei_def_num i) < 2 ^ LENGTH(8)" by (rule unsigned_less)+
  with assms show "of_nat (length (ei_pv_handle i)) = ei_pv_num i" "of_nat (length (ei_def_index i)) = ei_def_num i"
    "length (ei_pv_handle i) < 256" "length (ei_def_index i) < 256"
    by (simp_all add: enum_complete_def)
qed

lemma enum_entry_written:
  assumes "enum_complete i" "counter \<noteq> 0xffff" "obj_ok len ent" "a = enum_attr counter i" "length (attr_bytes a) \<le> len"
  shows "pldm_bios_table_attr_entry_enum_encode counter (Some ent) len (Some i) =
      Some (PLDM_SUCCESS, Some (fst ent, poke (snd ent) 0 (attr_bytes a)), counter + 1)" "attr_valid a"
proof -
  note n = enum_complete_numbers [OF assms(1)]
  have md: "[ei_pv_num i] @ concat (map le_of_word (take (unat (ei_pv_num i)) (ei_pv_handle i))) @ [ei_def_num i] @
      take (unat (ei_def_num i)) (ei_def_index i) = enum_metadata (ei_pv_handle i) (ei_def_index i)"
    using assms(1) n by (simp add: enum_metadata_def enum_complete_def)
  have "length (attr_bytes a) = pldm_bios_table_attr_entry_enum_encode_length (ei_pv_num i) (ei_def_num i)"
    using assms(1,4) length_le_words [of "ei_pv_handle i"]
    by (simp add: attr_bytes_def enum_attr_def enum_metadata_def enum_complete_def pldm_bios_table_attr_entry_enum_encode_length_def)
  then show "pldm_bios_table_attr_entry_enum_encode counter (Some ent) len (Some i) =
      Some (PLDM_SUCCESS, Some (fst ent, poke (snd ent) 0 (attr_bytes a)), counter + 1)"
    using attr_entry_encode_bytes [OF assms(2,5) _ assms(3) assms(4) [unfolded enum_attr_def]] assms(1,5)
    unfolding pldm_bios_table_attr_entry_enum_encode_def md by (simp add: enum_complete_def enum_metadata_def)
  show "attr_valid a" using assms(4) n by (auto simp: attr_valid_def enum_attr_def type_expected_def)
qed

lemma enum_entry_read:
  assumes "enum_complete i" "points_at q (attr_bytes (enum_attr h i))" "unat (ei_pv_num i) \<le> length hdls" "unat (ei_def_num i) \<le> length idx"
  shows "pldm_bios_table_attr_entry_enum_decode_pv_num (Some q) (Some x) = Some (PLDM_SUCCESS, Some (ei_pv_num i))"
    "pldm_bios_table_attr_entry_enum_decode_def_num (Some q) (Some x) = Some (PLDM_SUCCESS, Some (ei_def_num i))"
    "pldm_bios_table_attr_entry_enum_decode_pv_hdls (Some q) (Some hdls) (ei_pv_num i) =
       Some (PLDM_SUCCESS, Some (ei_pv_handle i @ drop (unat (ei_pv_num i)) hdls))"
    "pldm_bios_table_attr_entry_enum_decode_def_indices q idx (ei_def_num i) = Some (ei_def_num i, poke idx 0 (ei_def_index i))"
proof -
  let ?a = "enum_attr h i"
  note n = enum_complete_numbers [OF assms(1)] and c = assms(1) [unfolded enum_complete_def]
  have md: "ba_metadata ?a = enum_metadata (ei_pv_handle i) (ei_def_index i)" "type_expected (ba_type ?a) PLDM_BIOS_ENUMERATION"
    by (simp_all add: enum_attr_def type_expected_def)
  note nums = enum_numbers [OF assms(2) md(1) n(3,4) md(2)] and fields = enum_fields [OF assms(2) md(1) n(3,4)]
  show "pldm_bios_table_attr_entry_enum_decode_pv_num (Some q) (Some x) = Some (PLDM_SUCCESS, Some (ei_pv_num i))"
    "pldm_bios_table_attr_entry_enum_decode_def_num (Some q) (Some x) = Some (PLDM_SUCCESS, Some (ei_def_num i))"
    using nums(1,2) n by simp_all
  show "pldm_bios_table_attr_entry_enum_decode_pv_hdls (Some q) (Some hdls) (ei_pv_num i) =
       Some (PLDM_SUCCESS, Some (ei_pv_handle i @ drop (unat (ei_pv_num i)) hdls))"
    using fields(1) attr_fields(2) [OF assms(2)] md(2) n c assms(3)
      decode_hdls_all [OF assms(2) md(1) n(3,4), of 0 "unat (ei_pv_num i)" hdls]
    by (simp add: pldm_bios_table_attr_entry_enum_decode_pv_hdls_def)
  show "pldm_bios_table_attr_entry_enum_decode_def_indices q idx (ei_def_num i) = Some (ei_def_num i, poke idx 0 (ei_def_index i))"
    using nums(3) fields(1) fields(4) [of "unat (ei_def_num i)"] n c assms(4)
    by (simp add: pldm_bios_table_attr_entry_enum_decode_def_indices_def)
qed

lemma strlen_bound: "strlen cs = Some n \<Longrightarrow> n \<le> length cs"
  by (auto simp: strlen_def length_takeWhile_le split: if_splits)

lemma string_entry_written:
  assumes "pldm_bios_table_attr_entry_string_info_check i = Some (PLDM_SUCCESS, r)" "si_def_string i = Some cs"
    and "counter \<noteq> 0xffff" "obj_ok len ent" "a = string_attr counter i (take (unat (si_def_length i)) cs)" "length (attr_bytes a) \<le> len"
  shows "pldm_bios_table_attr_entry_string_encode counter (Some ent) len (Some i) =
      Some (PLDM_SUCCESS, Some (fst ent, poke (snd ent) 0 (attr_bytes a)), counter + 1)" "attr_valid a"
    "unat (si_def_length i) \<le> length cs"
proof -
  show cs: "unat (si_def_length i) \<le> length cs"
    using assms(1,2) strlen_bound [of cs]
    by (auto simp: pldm_bios_table_attr_entry_string_info_check_def split: if_splits option.splits bind_splits)
  then have "length (attr_bytes a) = pldm_bios_table_attr_entry_string_encode_length (si_def_length i)"
    using assms(5) by (simp add: attr_bytes_def string_attr_def string_metadata_def pldm_bios_table_attr_entry_string_encode_length_def)
  then show "pldm_bios_table_attr_entry_string_encode counter (Some ent) len (Some i) =
      Some (PLDM_SUCCESS, Some (fst ent, poke (snd ent) 0 (attr_bytes a)), counter + 1)"
    using attr_entry_encode_bytes [OF assms(3,6) _ assms(4) assms(5) [unfolded string_attr_def]] assms(1,2,6) cs
    by (simp add: pldm_bios_table_attr_entry_string_encode_def string_metadata_def)
  have "unat (si_def_length i) < 2 ^ LENGTH(16)" by (rule unsigned_less)
  then have "ba_metadata a = string_metadata (si_string_type i) (si_min_length i) (si_max_length i) (take (unat (si_def_length i)) cs)"
    "length (take (unat (si_def_length i)) cs) < 65536" "type_expected (ba_type a) PLDM_BIOS_STRING"
    using assms(5) by (simp_all add: string_attr_def type_expected_def)
  then show "attr_valid a" unfolding attr_valid_def by blast
qed

lemma string_entry_read:
  assumes "points_at q (attr_bytes (string_attr h i s))" "length s < 65536" "length s < length buf"
  shows "pldm_bios_table_attr_entry_string_decode_string_type q = Some (si_string_type i)"
    "pldm_bios_table_attr_entry_string_decode_min_length q = Some (si_min_length i)"
    "pldm_bios_table_attr_entry_string_decode_max_length q = Some (si_max_length i)"
    "pldm_bios_table_attr_entry_string_decode_def_string_length (Some q) (Some x) = Some (PLDM_SUCCESS, Some (of_nat (length s)))"
    "pldm_bios_table_attr_entry_string_decode_def_string (Some q) (Some buf) (length buf) = Some (of_nat (length s), Some (poke buf 0 (s @ [0])))"
proof -
  let ?a = "string_attr h i s"
  have md: "ba_metadata ?a = string_metadata (si_string_type i) (si_min_length i) (si_max_length i) s"
    "type_expected (ba_type ?a) PLDM_BIOS_STRING"
    by (simp_all add: string_attr_def type_expected_def)
  note fields = string_fields [OF assms(1) md(1)]
  show "pldm_bios_table_attr_entry_string_decode_string_type q = Some (si_string_type i)"
    "pldm_bios_table_attr_entry_string_decode_min_length q = Some (si_min_length i)"
    "pldm_bios_table_attr_entry_string_decode_max_length q = Some (si_max_length i)"
    using fields by (simp_all add: pldm_bios_table_attr_entry_string_decode_string_type_def
        pldm_bios_table_attr_entry_string_decode_min_length_def pldm_bios_table_attr_entry_string_decode_max_length_def)
  show len: "pldm_bios_table_attr_entry_string_decode_def_string_length (Some q) (Some x) = Some (PLDM_SUCCESS, Some (of_nat (length s)))" for x
    by (rule string_default_length [OF assms(1) md])
  have n: "length buf - Suc 0 = length s" if "\<not> length s < length buf - Suc 0" using assms(3) that by linarith
  show "pldm_bios_table_attr_entry_string_decode_def_string (Some q) (Some buf) (length buf) = Some (of_nat (length s), Some (poke buf 0 (s @ [0])))"
    using len [of 0] fields(5) [of "length s"] assms(2,3)
    by (cases "length s < length buf - Suc 0")
      (auto simp: pldm_bios_table_attr_entry_string_decode_def_string_def unat_len16 n simp del: of_nat_diff)
qed

lemma integer_entry_written:
  assumes "fst (pldm_bios_table_attr_entry_integer_info_check i) = PLDM_SUCCESS"
    and "counter \<noteq> 0xffff" "obj_ok len ent" "a = integer_attr counter i" "length (attr_bytes a) \<le> len"
  shows "pldm_bios_table_attr_entry_integer_encode counter (Some ent) len (Some i) =
      Some (PLDM_SUCCESS, Some (fst ent, poke (snd ent) 0 (attr_bytes a)), counter + 1)" "attr_valid a"
proof -
  have ne: "le_of_word w \<noteq> []" for w :: u64 by (simp add: length_greater_0_conv [symmetric] del: length_greater_0_conv)
  have "length (attr_bytes a) = pldm_bios_table_attr_entry_integer_encode_length"
    using assms(4) by (simp add: attr_bytes_def integer_attr_def integer_metadata_def pldm_bios_table_attr_entry_integer_encode_length_def)
  then show "pldm_bios_table_attr_entry_integer_encode counter (Some ent) len (Some i) =
      Some (PLDM_SUCCESS, Some (fst ent, poke (snd ent) 0 (attr_bytes a)), counter + 1)"
    using attr_entry_encode_bytes [OF assms(2,5) _ assms(3) assms(4) [unfolded integer_attr_def]] assms(1,5) ne
    by (simp add: pldm_bios_table_attr_entry_integer_encode_def integer_metadata_def)
  show "attr_valid a" using assms(4) by (auto simp: attr_valid_def integer_attr_def type_expected_def)
qed

text \<open>The fields all attribute entries share, and the length the iterator steps by.\<close>

definition attr_reads :: "ptr \<Rightarrow> u16 \<Rightarrow> u8 \<Rightarrow> u16 \<Rightarrow> nat \<Rightarrow> bool" where
  "attr_reads q h ty nm n \<longleftrightarrow>
     pldm_bios_table_attr_entry_decode_attribute_handle q = Some h \<and>
     pldm_bios_table_attr_entry_decode_attribute_type q = Some ty \<and>
     pldm_bios_table_attr_entry_decode_string_handle q = Some nm \<and>
     attr_table_entry_length q = Some (int n)"

lemma attr_reads_valid:
  assumes "attr_valid a" "points_at q (attr_bytes a)"
  shows "attr_reads q (ba_handle a) (ba_type a) (ba_name a) (length (attr_bytes a))"
  using attr_fields(1-3) [OF assms(2)] attr_length [OF assms]
  by (simp add: attr_reads_def pldm_bios_table_attr_entry_decode_attribute_handle_def
      pldm_bios_table_attr_entry_decode_attribute_type_def pldm_bios_table_attr_entry_decode_string_handle_def)

lemma attr_lengths:
  "enum_complete e \<Longrightarrow> length (attr_bytes (enum_attr h e)) = pldm_bios_table_attr_entry_enum_encode_length (ei_pv_num e) (ei_def_num e)"
  "length (attr_bytes (string_attr h i s)) = pldm_bios_table_attr_entry_string_encode_length 0 + length s"
  "length (attr_bytes (integer_attr h j)) = pldm_bios_table_attr_entry_integer_encode_length"
  using length_le_words [of "ei_pv_handle e"]
  by (simp_all add: attr_bytes_def enum_attr_def string_attr_def integer_attr_def enum_metadata_def string_metadata_def integer_metadata_def
      enum_complete_def pldm_bios_table_attr_entry_enum_encode_length_def pldm_bios_table_attr_entry_string_encode_length_def
      pldm_bios_table_attr_entry_integer_encode_length_def)

lemma enum_roundtrip:
  assumes "counter \<noteq> 0xffff" "obj_ok len ent" "enum_complete e"
    and "n = pldm_bios_table_attr_entry_enum_encode_length (ei_pv_num e) (ei_def_num e)" "n \<le> len"
    and "unat (ei_pv_num e) \<le> length hdls" "unat (ei_def_num e) \<le> length idx"
  shows "\<exists>ent' q. pldm_bios_table_attr_entry_enum_encode counter (Some ent) len (Some e) = Some (PLDM_SUCCESS, Some ent', counter + 1) \<and>
    q = (ent', fst ent) \<and>
    attr_reads q counter (if ei_read_only e then PLDM_BIOS_ENUMERATION_READ_ONLY else PLDM_BIOS_ENUMERATION) (ei_name_handle e) n \<and>
    pldm_bios_table_attr_entry_enum_decode_pv_num (Some q) (Some x) = Some (PLDM_SUCCESS, Some (ei_pv_num e)) \<and>
    pldm_bios_table_attr_entry_enum_decode_def_num (Some q) (Some x) = Some (PLDM_SUCCESS, Some (ei_def_num e)) \<and>
    pldm_bios_table_attr_entry_enum_decode_pv_hdls (Some q) (Some hdls) (ei_pv_num e) =
      Some (PLDM_SUCCESS, Some (ei_pv_handle e @ drop (unat (ei_pv_num e)) hdls)) \<and>
    pldm_bios_table_attr_entry_enum_decode_def_indices q idx (ei_def_num e) = Some (ei_def_num e, poke idx 0 (ei_def_index e))"
proof -
  let ?a = "enum_attr counter e"
  have n: "length (attr_bytes ?a) = n" using attr_lengths(1) [OF assms(3)] assms(4) by simp
  have room: "length (attr_bytes ?a) \<le> len" "length (attr_bytes ?a) \<le> length (snd ent)"
    using n assms(2,5) by (simp_all add: obj_ok_def)
  note w = enum_entry_written [OF assms(3,1,2) refl room(1)] and q = points_at_poked [OF room(2)]
  have "attr_reads ((fst ent, poke (snd ent) 0 (attr_bytes ?a)), fst ent) counter
      (if ei_read_only e then PLDM_BIOS_ENUMERATION_READ_ONLY else PLDM_BIOS_ENUMERATION) (ei_name_handle e) n"
    using attr_reads_valid [OF w(2) q] n by (simp add: enum_attr_def)
  then show ?thesis
    by (intro exI conjI) (rule w(1), rule refl, assumption, (rule enum_entry_read [OF assms(3) q assms(6,7)])+)
qed

lemma string_roundtrip:
  assumes "counter \<noteq> 0xffff" "obj_ok len ent" "pldm_bios_table_attr_entry_string_info_check i = Some (PLDM_SUCCESS, None)"
    and "si_def_string i = Some (s @ 0 # rest)" "0 \<notin> set s"
    and "n = pldm_bios_table_attr_entry_string_encode_length (si_def_length i)" "n \<le> len" "length s < length buf"
  shows "\<exists>ent' q. pldm_bios_table_attr_entry_string_encode counter (Some ent) len (Some i) = Some (PLDM_SUCCESS, Some ent', counter + 1) \<and>
    q = (ent', fst ent) \<and>
    attr_reads q counter (if si_read_only i then PLDM_BIOS_STRING_READ_ONLY else PLDM_BIOS_STRING) (si_name_handle i) n \<and>
    pldm_bios_table_attr_entry_string_decode_string_type q = Some (si_string_type i) \<and>
    pldm_bios_table_attr_entry_string_decode_min_length q = Some (si_min_length i) \<and>
    pldm_bios_table_attr_entry_string_decode_max_length q = Some (si_max_length i) \<and>
    pldm_bios_table_attr_entry_string_decode_def_string_length (Some q) (Some y) = Some (PLDM_SUCCESS, Some (si_def_length i)) \<and>
    pldm_bios_table_attr_entry_string_decode_def_string (Some q) (Some buf) (length buf) = Some (si_def_length i, Some (poke buf 0 (s @ [0])))"
proof -
  have len: "unat (si_def_length i) = length s"
    using assms(3,4) strlen_terminated [OF assms(5)] by (auto simp: pldm_bios_table_attr_entry_string_info_check_def split: if_splits)
  then have s: "take (unat (si_def_length i)) (s @ 0 # rest) = s" by simp
  have "unat (si_def_length i) < 2 ^ LENGTH(16)" by (rule unsigned_less)
  then have short: "length s < 65536" using len by simp
  have again: "of_nat (length s) = si_def_length i" unfolding len [symmetric] by simp
  let ?a = "string_attr counter i s"
  have n: "length (attr_bytes ?a) = n"
    using attr_lengths(2) len assms(6) by (simp add: pldm_bios_table_attr_entry_string_encode_length_def)
  have room: "length (attr_bytes ?a) \<le> len" "length (attr_bytes ?a) \<le> length (snd ent)"
    using n assms(2,7) by (simp_all add: obj_ok_def)
  note w = string_entry_written [OF assms(3,4,1,2), of ?a, unfolded s, OF refl room(1)] and q = points_at_poked [OF room(2)]
  have "attr_reads ((fst ent, poke (snd ent) 0 (attr_bytes ?a)), fst ent) counter
      (if si_read_only i then PLDM_BIOS_STRING_READ_ONLY else PLDM_BIOS_STRING) (si_name_handle i) n"
    using attr_reads_valid [OF w(2) q] n by (simp add: string_attr_def)
  then show ?thesis
    by (intro exI conjI) (rule w(1), rule refl, assumption, (rule string_entry_read [OF q short assms(8), unfolded again])+)
qed

lemma integer_roundtrip:
  assumes "counter \<noteq> 0xffff" "obj_ok len ent" "fst (pldm_bios_table_attr_entry_integer_info_check j) = PLDM_SUCCESS"
    and "pldm_bios_table_attr_entry_integer_encode_length \<le> len"
  shows "\<exists>ent' q. pldm_bios_table_attr_entry_integer_encode counter (Some ent) len (Some j) = Some (PLDM_SUCCESS, Some ent', counter + 1) \<and>
    q = (ent', fst ent) \<and>
    attr_reads q counter (if ii_read_only j then PLDM_BIOS_INTEGER_READ_ONLY else PLDM_BIOS_INTEGER) (ii_name_handle j)
      pldm_bios_table_attr_entry_integer_encode_length \<and>
    pldm_bios_table_attr_entry_integer_decode q =
      Some (ii_lower_bound j, ii_upper_bound j, ii_scalar_increment j, ii_default_value j)"
proof -
  let ?a = "integer_attr counter j"
  note n = attr_lengths(3) [of counter j]
  have room: "length (attr_bytes ?a) \<le> len" "length (attr_bytes ?a) \<le> length (snd ent)"
    using n assms(2,4) by (simp_all add: obj_ok_def)
  note w = integer_entry_written [OF assms(3,1,2) refl room(1)] and q = points_at_poked [OF room(2)]
  have "attr_reads ((fst ent, poke (snd ent) 0 (attr_bytes ?a)), fst ent) counter
      (if ii_read_only j then PLDM_BIOS_INTEGER_READ_ONLY else PLDM_BIOS_INTEGER) (ii_name_handle j)
      pldm_bios_table_attr_entry_integer_encode_length"
    using attr_reads_valid [OF w(2) q] n by (simp add: integer_attr_def)
  then show ?thesis
    by (intro exI conjI) (rule w(1), rule refl, assumption, rule integer_fields [OF q], simp add: integer_attr_def)
qed

lemma string_check_result:
  assumes "si_def_string i = Some (s @ 0 # rest)" "0 \<notin> set s"
  shows "pldm_bios_table_attr_entry_string_info_check i = Some (PLDM_SUCCESS, None) \<or>
    (\<exists>why. pldm_bios_table_attr_entry_string_info_check i = Some (PLDM_ERROR_INVALID_DATA, Some why))"
  using assms(1) strlen_terminated [OF assms(2)] by (simp add: pldm_bios_table_attr_entry_string_info_check_def)

lemma string_refused:
  assumes "si_def_string i = Some (s @ 0 # rest)" "0 \<notin> set s" "pldm_bios_table_attr_entry_string_info_check i \<noteq> Some (PLDM_SUCCESS, None)"
    and "pldm_bios_table_attr_entry_string_encode_length (si_def_length i) \<le> len"
  shows "pldm_bios_table_attr_entry_string_encode counter (Some ent) len (Some i) = Some (PLDM_ERROR_INVALID_DATA, Some ent, counter)"
  using string_check_result [OF assms(1,2)] assms(3,4) by (auto simp: pldm_bios_table_attr_entry_string_encode_def)

lemma integer_refused:
  assumes "fst (pldm_bios_table_attr_entry_integer_info_check j) \<noteq> PLDM_SUCCESS" "pldm_bios_table_attr_entry_integer_encode_length \<le> len"
  shows "pldm_bios_table_attr_entry_integer_encode counter (Some ent) len (Some j) = Some (PLDM_ERROR_INVALID_DATA, Some ent, counter)"
  using assms by (simp add: pldm_bios_table_attr_entry_integer_encode_def)

lemma if_both: "(c \<Longrightarrow> a) \<Longrightarrow> (\<not> c \<Longrightarrow> b) \<Longrightarrow> if c then a else b"
  by simp

text \<open>
  C34. The entries of the BIOS attribute table survive encoding. For an enumeration with as many handles and
  default indices as it announces, for a string and for an integer that pass the checks of their constraints, the encoder
  writes an entry with the next attribute handle, and the decoders read back the handle, the type with
  its read-only bit, the handle of the name and all the metadata; the length the iterator steps by is the one the
  caller was told to provide. A constraint that fails its check is refused and nothing is written.
\<close>

theorem bios_attr_entries_roundtrip:
  assumes "counter \<noteq> 0xffff" "obj_ok len ent" "pldm_bios_table_attr_entry_enum_encode_length (ei_pv_num e) (ei_def_num e) \<le> len"
    and "pldm_bios_table_attr_entry_string_encode_length (si_def_length i) \<le> len" "pldm_bios_table_attr_entry_integer_encode_length \<le> len"
    and "si_def_string i = Some (s @ 0 # rest)" "0 \<notin> set s"
    and "unat (ei_pv_num e) \<le> length hdls" "unat (ei_def_num e) \<le> length idx" "length s < length buf"
  shows "(enum_complete e \<longrightarrow>
      (\<exists>ent' q. pldm_bios_table_attr_entry_enum_encode counter (Some ent) len (Some e) = Some (PLDM_SUCCESS, Some ent', counter + 1) \<and>
        q = (ent', fst ent) \<and>
        attr_reads q counter (if ei_read_only e then PLDM_BIOS_ENUMERATION_READ_ONLY else PLDM_BIOS_ENUMERATION) (ei_name_handle e)
          (pldm_bios_table_attr_entry_enum_encode_length (ei_pv_num e) (ei_def_num e)) \<and>
        pldm_bios_table_attr_entry_enum_decode_pv_num (Some q) (Some x) = Some (PLDM_SUCCESS, Some (ei_pv_num e)) \<and>
        pldm_bios_table_attr_entry_enum_decode_def_num (Some q) (Some x) = Some (PLDM_SUCCESS, Some (ei_def_num e)) \<and>
        pldm_bios_table_attr_entry_enum_decode_pv_hdls (Some q) (Some hdls) (ei_pv_num e) =
          Some (PLDM_SUCCESS, Some (ei_pv_handle e @ drop (unat (ei_pv_num e)) hdls)) \<and>
        pldm_bios_table_attr_entry_enum_decode_def_indices q idx (ei_def_num e) = Some (ei_def_num e, poke idx 0 (ei_def_index e)))) \<and>
    (if pldm_bios_table_attr_entry_string_info_check i = Some (PLDM_SUCCESS, None)
     then \<exists>ent' q. pldm_bios_table_attr_entry_string_encode counter (Some ent) len (Some i) = Some (PLDM_SUCCESS, Some ent', counter + 1) \<and>
       q = (ent', fst ent) \<and>
       attr_reads q counter (if si_read_only i then PLDM_BIOS_STRING_READ_ONLY else PLDM_BIOS_STRING) (si_name_handle i)
         (pldm_bios_table_attr_entry_string_encode_length (si_def_length i)) \<and>
       pldm_bios_table_attr_entry_string_decode_string_type q = Some (si_string_type i) \<and>
       pldm_bios_table_attr_entry_string_decode_min_length q = Some (si_min_length i) \<and>
       pldm_bios_table_attr_entry_string_decode_max_length q = Some (si_max_length i) \<and>
       pldm_bios_table_attr_entry_string_decode_def_string_length (Some q) (Some y) = Some (PLDM_SUCCESS, Some (si_def_length i)) \<and>
       pldm_bios_table_attr_entry_string_decode_def_string (Some q) (Some buf) (length buf) = Some (si_def_length i, Some (poke buf 0 (s @ [0])))
     else pldm_bios_table_attr_entry_string_encode counter (Some ent) len (Some i) = Some (PLDM_ERROR_INVALID_DATA, Some ent, counter)) \<and>
    (if fst (pldm_bios_table_attr_entry_integer_info_check j) = PLDM_SUCCESS
     then \<exists>ent' q. pldm_bios_table_attr_entry_integer_encode counter (Some ent) len (Some j) = Some (PLDM_SUCCESS, Some ent', counter + 1) \<and>
       q = (ent', fst ent) \<and>
       attr_reads q counter (if ii_read_only j then PLDM_BIOS_INTEGER_READ_ONLY else PLDM_BIOS_INTEGER) (ii_name_handle j)
         pldm_bios_table_attr_entry_integer_encode_length \<and>
       pldm_bios_table_attr_entry_integer_decode q = Some (ii_lower_bound j, ii_upper_bound j, ii_scalar_increment j, ii_default_value j)
     else pldm_bios_table_attr_entry_integer_encode counter (Some ent) len (Some j) = Some (PLDM_ERROR_INVALID_DATA, Some ent, counter))"
  by (intro conjI impI if_both)
    (rule enum_roundtrip [OF assms(1,2) _ refl assms(3,8,9)] string_roundtrip [OF assms(1,2) _ assms(6,7) refl assms(4,10)]
      string_refused [OF assms(6,7) _ assms(4)] integer_roundtrip [OF assms(1,2) _ assms(5)] integer_refused [OF _ assms(5)]; assumption)+

theorem bios_attr_entries_roundtrip_witness:
  "(\<exists>ent' q. pldm_bios_table_attr_entry_enum_encode 5 (Some (4096, replicate 40 0xee)) 40
      (Some \<lparr>ei_name_handle = 9, ei_read_only = True, ei_pv_num = 2, ei_pv_handle = [0x102, 0x103], ei_def_num = 1, ei_def_index = [1]\<rparr>) =
        Some (PLDM_SUCCESS, Some ent', 6) \<and> q = (ent', 4096) \<and> attr_reads q 5 0x80 9 12 \<and>
      pldm_bios_table_attr_entry_enum_decode_pv_hdls (Some q) (Some [0, 0, 0]) 2 = Some (PLDM_SUCCESS, Some [0x102, 0x103, 0]) \<and>
      pldm_bios_table_attr_entry_enum_decode_def_indices q [0] 1 = Some (1, [1])) \<and>
   (\<exists>ent' q. pldm_bios_table_attr_entry_string_encode 5 (Some (4096, replicate 40 0xee)) 40
      (Some \<lparr>si_name_handle = 9, si_read_only = False, si_string_type = 1, si_min_length = 1, si_max_length = 8, si_def_length = 2,
        si_def_string = Some [0x41, 0x42, 0]\<rparr>) = Some (PLDM_SUCCESS, Some ent', 6) \<and> q = (ent', 4096) \<and> attr_reads q 5 1 9 14 \<and>
      pldm_bios_table_attr_entry_string_decode_def_string (Some q) (Some [7, 7, 7, 7]) 4 = Some (2, Some [0x41, 0x42, 0, 7])) \<and>
   pldm_bios_table_attr_entry_integer_encode 5 (Some (4096, replicate 40 0xee)) 40
      (Some \<lparr>ii_name_handle = 9, ii_read_only = False, ii_lower_bound = 1, ii_upper_bound = 9, ii_scalar_increment = 2,
        ii_default_value = 4\<rparr>) = Some (PLDM_ERROR_INVALID_DATA, Some (4096, replicate 40 0xee), 5)"
proof -
  let ?ent = "(4096, replicate 40 0xee) :: object"
  let ?e = "\<lparr>ei_name_handle = 9, ei_read_only = True, ei_pv_num = 2, ei_pv_handle = [0x102, 0x103], ei_def_num = 1, ei_def_index = [1]\<rparr>"
  let ?i = "\<lparr>si_name_handle = 9, si_read_only = False, si_string_type = 1, si_min_length = 1, si_max_length = 8, si_def_length = 2,
    si_def_string = Some [0x41, 0x42, 0]\<rparr>"
  let ?j = "\<lparr>ii_name_handle = 9, ii_read_only = False, ii_lower_bound = 1, ii_upper_bound = 9, ii_scalar_increment = 2, ii_default_value = 4\<rparr>"
  have ok: "obj_ok 40 ?ent" by (simp add: obj_ok_def)
  have four: "Suc (Suc (Suc (Suc 0))) = 4" by simp
  have len: "pldm_bios_table_attr_entry_enum_encode_length 2 1 = 12" "pldm_bios_table_attr_entry_string_encode_length 2 = 14"
    "pldm_bios_table_attr_entry_integer_encode_length = 33"
    by (simp_all add: pldm_bios_table_attr_entry_enum_encode_length_def pldm_bios_table_attr_entry_string_encode_length_def
        pldm_bios_table_attr_entry_integer_encode_length_def)
  have check: "pldm_bios_table_attr_entry_string_info_check ?i = Some (PLDM_SUCCESS, None)"
    "fst (pldm_bios_table_attr_entry_integer_info_check ?j) = PLDM_ERROR_INVALID_DATA" "enum_complete ?e"
    by (simp_all add: pldm_bios_table_attr_entry_string_info_check_def strlen_def pldm_bios_table_attr_entry_integer_info_check_def
        enum_complete_def)
  note all = bios_attr_entries_roundtrip [OF _ ok, of 5 ?e ?i "[0x41, 0x42]" "[]" "[0, 0, 0]" "[0]" "[7, 7, 7, 7]" 0 0 ?j]
  have "\<exists>ent' q. pldm_bios_table_attr_entry_enum_encode 5 (Some ?ent) 40 (Some ?e) = Some (PLDM_SUCCESS, Some ent', 6) \<and>
      q = (ent', 4096) \<and> attr_reads q 5 0x80 9 12 \<and>
      pldm_bios_table_attr_entry_enum_decode_pv_hdls (Some q) (Some [0, 0, 0]) 2 = Some (PLDM_SUCCESS, Some [0x102, 0x103, 0]) \<and>
      pldm_bios_table_attr_entry_enum_decode_def_indices q [0] 1 = Some (1, [1])"
    using all [THEN conjunct1] check(3) by (auto simp: len poke_def)
  moreover have "\<exists>ent' q. pldm_bios_table_attr_entry_string_encode 5 (Some ?ent) 40 (Some ?i) = Some (PLDM_SUCCESS, Some ent', 6) \<and>
      q = (ent', 4096) \<and> attr_reads q 5 1 9 14 \<and>
      pldm_bios_table_attr_entry_string_decode_def_string (Some q) (Some [7, 7, 7, 7]) 4 = Some (2, Some [0x41, 0x42, 0, 7])"
    using all [THEN conjunct2, THEN conjunct1] check(1) by (auto simp: len poke_def four)
  moreover have "pldm_bios_table_attr_entry_integer_encode 5 (Some ?ent) 40 (Some ?j) = Some (PLDM_ERROR_INVALID_DATA, Some ?ent, 5)"
    using all [THEN conjunct2, THEN conjunct2] check(2) by (simp add: len)
  ultimately show ?thesis by (intro conjI)
qed

section \<open>Attributes in a table\<close>

lemma attr_equal:
  assumes "points_at q (attr_bytes a)"
  shows "attr_table_handle_equal h q = Some (ba_handle a = h)" "attr_table_string_handle_equal h q = Some (ba_name a = h)"
  using attr_fields(1,3) [OF assms]
  by (simp_all add: attr_table_handle_equal_def attr_table_string_handle_equal_def
      pldm_bios_table_attr_entry_decode_attribute_handle_def pldm_bios_table_attr_entry_decode_string_handle_def)

lemma attr_search:
  assumes "holds_table attr_bytes as tab n" "\<forall>a \<in> set as. attr_valid a" "i < length as"
    and "q = (tab, fst tab + length (concat (map attr_bytes (take i as))))"
  shows "points_at q (attr_bytes (as ! i))"
    "\<forall>j < i. ba_handle (as ! j) \<noteq> ba_handle (as ! i) \<Longrightarrow>
       pldm_bios_table_attr_find_by_handle True tab n (ba_handle (as ! i)) = Some (Some q)"
    "\<forall>j < i. ba_name (as ! j) \<noteq> ba_name (as ! i) \<Longrightarrow>
       pldm_bios_table_attr_find_by_string_handle True tab n (ba_name (as ! i)) = Some (Some q)"
proof -
  show "points_at q (attr_bytes (as ! i))"
    unfolding assms(4) using holds_table_bytes [OF assms(1)] assms(3) by (rule points_at_nth)
  show "pldm_bios_table_attr_find_by_handle True tab n (ba_handle (as ! i)) = Some (Some q)"
    if "\<forall>j < i. ba_handle (as ! j) \<noteq> ba_handle (as ! i)"
    using attr_entries.find_nth [where P = "\<lambda>a. ba_handle a = ba_handle (as ! i)", OF assms(1-3) refl _ attr_equal(1) refl] that assms(4)
    by (simp add: pldm_bios_table_attr_find_by_handle_def pldm_bios_table_entry_find_from_table_def pldm_bios_table_iter_create_def)
  show "pldm_bios_table_attr_find_by_string_handle True tab n (ba_name (as ! i)) = Some (Some q)"
    if "\<forall>j < i. ba_name (as ! j) \<noteq> ba_name (as ! i)"
    using attr_entries.find_nth [where P = "\<lambda>a. ba_name a = ba_name (as ! i)", OF assms(1-3) refl _ attr_equal(2) refl] that assms(4)
    by (simp add: pldm_bios_table_attr_find_by_string_handle_def pldm_bios_table_entry_find_from_table_def pldm_bios_table_iter_create_def)
qed

section \<open>Entries of the value table\<close>

text \<open>The fields all value entries share, and the length of the entry.\<close>

definition value_reads :: "ptr \<Rightarrow> u16 \<Rightarrow> u8 \<Rightarrow> nat \<Rightarrow> bool" where
  "value_reads q h ty n \<longleftrightarrow>
     pldm_bios_table_attr_value_entry_decode_attribute_handle q = Some h \<and>
     pldm_bios_table_attr_value_entry_decode_attribute_type q = Some ty \<and>
     pldm_bios_table_attr_value_entry_length q = Some n"

lemma value_reads_valid:
  assumes "points_at q (value_bytes v)" "value_valid v"
  shows "value_reads q (bv_handle v) (bv_type v) (length (value_bytes v))"
proof -
  have "length (value_bytes v) < 2 ^ 64"
    using assms(2) by (auto simp: value_valid_def value_bytes_def enum_value_def string_value_def)
  then show ?thesis
    using value_fields(1,2) [OF assms(1)] value_length [OF assms(2,1)]
    by (simp add: value_reads_def pldm_bios_table_attr_value_entry_decode_attribute_handle_def
        pldm_bios_table_attr_value_entry_decode_attribute_type_def pldm_bios_table_attr_value_entry_length_def nat_mod_distrib nat_power_eq)
qed

lemma enum_value_encoded:
  assumes "type_expected ty PLDM_BIOS_ENUMERATION" "length hs = unat cnt" "4 + length hs \<le> len" "obj_ok len ent"
  shows "pldm_bios_table_attr_value_entry_encode_enum (Some ent) len h ty cnt (Some hs) =
    Some (PLDM_SUCCESS, Some (fst ent, poke (snd ent) 0 (value_bytes \<lparr>bv_handle = h, bv_type = ty, bv_bytes = enum_value hs\<rparr>)))"
proof -
  let ?hdr = "le_of_word h @ [ty] @ [cnt]"
  have room: "4 + length hs \<le> length (snd ent)" using assms(3,4) by (simp add: obj_ok_def)
  have cnt: "of_nat (length hs) = cnt" using assms(2) by simp
  have "store ent (fst ent) ?hdr = Some (fst ent, poke (snd ent) 0 ?hdr)" using room by (subst store_ok) auto
  moreover have "store (fst ent, poke (snd ent) 0 ?hdr) (fst ent + VALUE + 1) hs =
      Some (fst ent, poke (snd ent) 0 (value_bytes \<lparr>bv_handle = h, bv_type = ty, bv_bytes = enum_value hs\<rparr>))"
    using room cnt by (subst store_ok) (auto simp: poke_poke value_bytes_def enum_value_def)
  ultimately show ?thesis using assms(1-3) by (simp add: pldm_bios_table_attr_value_entry_encode_enum_def)
qed

lemma integer_value_encoded:
  assumes "type_expected ty PLDM_BIOS_INTEGER" "11 \<le> len" "obj_ok len ent"
  shows "pldm_bios_table_attr_value_entry_encode_integer (Some ent) len h ty cv =
    Some (PLDM_SUCCESS, Some (fst ent, poke (snd ent) 0 (value_bytes \<lparr>bv_handle = h, bv_type = ty, bv_bytes = le_of_word cv\<rparr>)))"
proof -
  have "11 \<le> length (snd ent)" using assms(2,3) by (simp add: obj_ok_def)
  then have "store ent (fst ent) (le_of_word h @ [ty] @ le_of_word cv) =
      Some (fst ent, poke (snd ent) 0 (value_bytes \<lparr>bv_handle = h, bv_type = ty, bv_bytes = le_of_word cv\<rparr>))"
    by (subst store_ok) (auto simp: value_bytes_def)
  then show ?thesis
    using assms(1,2) by (simp add: pldm_bios_table_attr_value_entry_encode_integer_def pldm_bios_table_attr_value_entry_encode_integer_length_def)
qed

text \<open>The bytes of the string are written before the two bytes of its length in front of them.\<close>

lemma string_value_encoded:
  assumes "type_expected ty PLDM_BIOS_STRING" "length s = unat n" "5 + length s \<le> len" "obj_ok len ent"
  shows "pldm_bios_table_attr_value_entry_encode_string (Some ent) len h ty n (Some s) =
    Some (PLDM_SUCCESS, Some (fst ent, poke (snd ent) 0 (value_bytes \<lparr>bv_handle = h, bv_type = ty, bv_bytes = string_value s\<rparr>)))"
proof -
  let ?hdr = "le_of_word h @ [ty]"
  let ?m = "poke (snd ent) 0 ?hdr"
  have room: "5 + length s \<le> length (snd ent)" using assms(3,4) by (simp add: obj_ok_def)
  have n: "of_nat (length s) = n" using assms(2) by simp
  have five: "5 + length s = Suc (Suc (Suc (Suc (Suc (length s)))))" by simp
  have "store ent (fst ent) ?hdr = Some (fst ent, ?m)" using room by (subst store_ok) auto
  moreover have "store (fst ent, ?m) (fst ent + VALUE + 2) s = Some (fst ent, poke ?m 5 s)"
    using room by (subst store_ok) auto
  moreover have "store (fst ent, poke ?m 5 s) (fst ent + VALUE) (le_of_word n) = Some (fst ent, poke (poke ?m 5 s) 3 (le_of_word n))"
    using room by (subst store_ok) auto
  moreover have "poke (poke ?m 5 s) 3 (le_of_word n) = poke (snd ent) 0 (value_bytes \<lparr>bv_handle = h, bv_type = ty, bv_bytes = string_value s\<rparr>)"
    using room n by (simp add: poke_def value_bytes_def string_value_def drop_Cons') (simp only: five)
  ultimately show ?thesis using assms(1-3) by (simp add: pldm_bios_table_attr_value_entry_encode_string_def)
qed

lemma enum_value_roundtrip:
  assumes "obj_ok len ent" "length hs = unat cnt" "unat cnt \<le> length buf"
    and "pldm_bios_table_attr_value_entry_encode_enum_length cnt \<le> len" "type_expected ty PLDM_BIOS_ENUMERATION"
  shows "\<exists>ent' q. pldm_bios_table_attr_value_entry_encode_enum (Some ent) len h ty cnt (Some hs) = Some (PLDM_SUCCESS, Some ent') \<and>
    q = (ent', fst ent) \<and> value_reads q h ty (pldm_bios_table_attr_value_entry_encode_enum_length cnt) \<and>
    pldm_bios_table_attr_value_entry_enum_decode_number q = Some cnt \<and>
    pldm_bios_table_attr_value_entry_enum_decode_handles q buf cnt = Some (cnt, poke buf 0 hs)"
proof -
  let ?v = "\<lparr>bv_handle = h, bv_type = ty, bv_bytes = enum_value hs\<rparr>"
  let ?q = "((fst ent, poke (snd ent) 0 (value_bytes ?v)), fst ent)"
  have "unat cnt < 2 ^ LENGTH(8)" by (rule unsigned_less)
  then have v: "value_valid ?v" using assms(2,5) by (auto simp: value_valid_def)
  have len: "length (value_bytes ?v) = pldm_bios_table_attr_value_entry_encode_enum_length cnt" "4 + length hs \<le> len"
    using assms(2,4) by (simp_all add: value_bytes_def enum_value_def pldm_bios_table_attr_value_entry_encode_enum_length_def)
  have q: "points_at ?q (value_bytes ?v)" using len assms(1,4) by (intro points_at_poked) (simp add: obj_ok_def)
  have num: "pldm_bios_table_attr_value_entry_enum_decode_number ?q = Some cnt"
    using value_fields(3) [OF q, where 'a = 8] assms(2)
    by (simp add: pldm_bios_table_attr_value_entry_enum_decode_number_def enum_value_def)
  have dec: "pldm_bios_table_attr_value_entry_enum_decode_handles ?q buf cnt = Some (cnt, poke buf 0 hs)"
    using num value_fields(4) [OF q, of 1 "unat cnt"] assms(2,3)
    by (simp add: pldm_bios_table_attr_value_entry_enum_decode_handles_def enum_value_def)
  have "value_reads ?q h ty (pldm_bios_table_attr_value_entry_encode_enum_length cnt)"
    using value_reads_valid [OF q v] len(1) by simp
  then show ?thesis
    by (intro exI conjI) (rule enum_value_encoded [OF assms(5,2) len(2) assms(1)], rule refl, assumption, rule num, rule dec)
qed

lemma string_value_roundtrip:
  assumes "obj_ok len ent" "length s = unat n"
    and "pldm_bios_table_attr_value_entry_encode_string_length n \<le> len" "type_expected ty PLDM_BIOS_STRING"
  shows "\<exists>ent' q fld. pldm_bios_table_attr_value_entry_encode_string (Some ent) len h ty n (Some s) = Some (PLDM_SUCCESS, Some ent') \<and>
    q = (ent', fst ent) \<and> value_reads q h ty (pldm_bios_table_attr_value_entry_encode_string_length n) \<and>
    pldm_bios_table_attr_value_entry_string_decode_length q = Some n \<and>
    pldm_bios_table_attr_value_entry_string_decode_string q = Some fld \<and>
    vf_ptr fld = Some 5 \<and> bytes_at (snd ent') 5 (vf_length fld) = s"
proof -
  let ?v = "\<lparr>bv_handle = h, bv_type = ty, bv_bytes = string_value s\<rparr>"
  let ?ent = "(fst ent, poke (snd ent) 0 (value_bytes ?v))"
  let ?q = "(?ent, fst ent)" and ?f = "\<lparr>vf_ptr = Some 5, vf_length = unat n\<rparr>"
  have "unat n < 2 ^ LENGTH(16)" by (rule unsigned_less)
  then have v: "value_valid ?v" using assms(2,4) by (auto simp: value_valid_def)
  have len: "length (value_bytes ?v) = pldm_bios_table_attr_value_entry_encode_string_length n" "5 + length s \<le> len"
    using assms(2,3) by (simp_all add: value_bytes_def string_value_def pldm_bios_table_attr_value_entry_encode_string_length_def)
  have q: "points_at ?q (value_bytes ?v)" using len assms(1,3) by (intro points_at_poked) (simp add: obj_ok_def)
  have num: "pldm_bios_table_attr_value_entry_string_decode_length ?q = Some n"
    using value_fields(3) [OF q, where 'a = 16] assms(2)
    by (simp add: pldm_bios_table_attr_value_entry_string_decode_length_def string_value_def)
  have fld: "pldm_bios_table_attr_value_entry_string_decode_string ?q = Some ?f"
    using num by (simp add: pldm_bios_table_attr_value_entry_string_decode_string_def)
  have str: "bytes_at (snd ?ent) 5 (vf_length ?f) = s"
    using assms(1,2) len bytes_at_poke [of 0 5 "unat n" "value_bytes ?v" "snd ent"] by (simp add: value_bytes_def string_value_def obj_ok_def)
  have "value_reads ?q h ty (pldm_bios_table_attr_value_entry_encode_string_length n)"
    using value_reads_valid [OF q v] len(1) by simp
  then show ?thesis
    by (intro exI conjI)
      (rule string_value_encoded [OF assms(4,2) len(2) assms(1)], rule refl, assumption, rule num, rule fld, simp, rule str)
qed

lemma integer_value_roundtrip:
  assumes "obj_ok len ent" "pldm_bios_table_attr_value_entry_encode_integer_length \<le> len" "type_expected ty PLDM_BIOS_INTEGER"
  shows "\<exists>ent' q. pldm_bios_table_attr_value_entry_encode_integer (Some ent) len h ty cv = Some (PLDM_SUCCESS, Some ent') \<and>
    q = (ent', fst ent) \<and> value_reads q h ty pldm_bios_table_attr_value_entry_encode_integer_length \<and>
    pldm_bios_table_attr_value_entry_integer_decode_cv q = Some cv"
proof -
  let ?v = "\<lparr>bv_handle = h, bv_type = ty, bv_bytes = le_of_word cv\<rparr>"
  let ?q = "((fst ent, poke (snd ent) 0 (value_bytes ?v)), fst ent)"
  have v: "value_valid ?v" using assms(3) by (simp add: value_valid_def)
  have len: "length (value_bytes ?v) = pldm_bios_table_attr_value_entry_encode_integer_length" "11 \<le> len"
    using assms(2) by (simp_all add: value_bytes_def pldm_bios_table_attr_value_entry_encode_integer_length_def)
  have q: "points_at ?q (value_bytes ?v)" using len assms(1,2) by (intro points_at_poked) (simp add: obj_ok_def)
  have cv: "pldm_bios_table_attr_value_entry_integer_decode_cv ?q = Some cv"
    using value_fields(3) [OF q, where 'a = 64] by (simp add: pldm_bios_table_attr_value_entry_integer_decode_cv_def)
  have "value_reads ?q h ty pldm_bios_table_attr_value_entry_encode_integer_length"
    using value_reads_valid [OF q v] len(1) by simp
  then show ?thesis
    by (intro exI conjI) (rule integer_value_encoded [OF assms(3) len(2) assms(1)], rule refl, assumption, rule cv)
qed

lemma value_refused:
  "\<not> type_expected ty PLDM_BIOS_ENUMERATION \<Longrightarrow>
     pldm_bios_table_attr_value_entry_encode_enum (Some ent) len h ty cnt (Some hs) = Some (PLDM_ERROR_INVALID_DATA, Some ent)"
  "\<not> type_expected ty PLDM_BIOS_STRING \<Longrightarrow>
     pldm_bios_table_attr_value_entry_encode_string (Some ent) len h ty n (Some s) = Some (PLDM_ERROR_INVALID_DATA, Some ent)"
  "\<not> type_expected ty PLDM_BIOS_INTEGER \<Longrightarrow>
     pldm_bios_table_attr_value_entry_encode_integer (Some ent) len h ty cv = Some (PLDM_ERROR_INVALID_DATA, Some ent)"
  by (simp_all add: pldm_bios_table_attr_value_entry_encode_enum_def pldm_bios_table_attr_value_entry_encode_string_def
      pldm_bios_table_attr_value_entry_encode_integer_def)

text \<open>
  The entries of the BIOS value table survive encoding. For each kind of attribute, read-only or
  not, the encoder writes an entry that decodes to the handle, the type and the current value: the indices of an enumeration, the
  bytes of a string, the 64-bit integer; the length of the entry is the one the encoding was announced with. A type that
  belongs to another kind is refused and nothing is written.
\<close>

theorem bios_value_entries_roundtrip:
  assumes "obj_ok len ent" "length hs = unat cnt" "length s = unat n" "unat cnt \<le> length buf"
    and "pldm_bios_table_attr_value_entry_encode_enum_length cnt \<le> len" "pldm_bios_table_attr_value_entry_encode_string_length n \<le> len"
    and "pldm_bios_table_attr_value_entry_encode_integer_length \<le> len"
  shows "(if type_expected ty PLDM_BIOS_ENUMERATION
     then \<exists>ent' q. pldm_bios_table_attr_value_entry_encode_enum (Some ent) len h ty cnt (Some hs) = Some (PLDM_SUCCESS, Some ent') \<and>
       q = (ent', fst ent) \<and> value_reads q h ty (pldm_bios_table_attr_value_entry_encode_enum_length cnt) \<and>
       pldm_bios_table_attr_value_entry_enum_decode_number q = Some cnt \<and>
       pldm_bios_table_attr_value_entry_enum_decode_handles q buf cnt = Some (cnt, poke buf 0 hs)
     else pldm_bios_table_attr_value_entry_encode_enum (Some ent) len h ty cnt (Some hs) = Some (PLDM_ERROR_INVALID_DATA, Some ent)) \<and>
    (if type_expected ty PLDM_BIOS_STRING
     then \<exists>ent' q fld. pldm_bios_table_attr_value_entry_encode_string (Some ent) len h ty n (Some s) = Some (PLDM_SUCCESS, Some ent') \<and>
       q = (ent', fst ent) \<and> value_reads q h ty (pldm_bios_table_attr_value_entry_encode_string_length n) \<and>
       pldm_bios_table_attr_value_entry_string_decode_length q = Some n \<and>
       pldm_bios_table_attr_value_entry_string_decode_string q = Some fld \<and>
       vf_ptr fld = Some 5 \<and> bytes_at (snd ent') 5 (vf_length fld) = s
     else pldm_bios_table_attr_value_entry_encode_string (Some ent) len h ty n (Some s) = Some (PLDM_ERROR_INVALID_DATA, Some ent)) \<and>
    (if type_expected ty PLDM_BIOS_INTEGER
     then \<exists>ent' q. pldm_bios_table_attr_value_entry_encode_integer (Some ent) len h ty cv = Some (PLDM_SUCCESS, Some ent') \<and>
       q = (ent', fst ent) \<and> value_reads q h ty pldm_bios_table_attr_value_entry_encode_integer_length \<and>
       pldm_bios_table_attr_value_entry_integer_decode_cv q = Some cv
     else pldm_bios_table_attr_value_entry_encode_integer (Some ent) len h ty cv = Some (PLDM_ERROR_INVALID_DATA, Some ent))"
  by (intro conjI if_both)
    (rule enum_value_roundtrip [OF assms(1,2,4,5)] string_value_roundtrip [OF assms(1,3,6)] integer_value_roundtrip [OF assms(1,7)]
      value_refused; assumption)+

theorem bios_value_entries_roundtrip_witness:
  "(\<exists>ent' q fld. pldm_bios_table_attr_value_entry_encode_string (Some (4096, replicate 12 0xee)) 12 3 0x81 2 (Some [0x41, 0x42]) =
      Some (PLDM_SUCCESS, Some ent') \<and> q = (ent', 4096) \<and> value_reads q 3 0x81 7 \<and>
      pldm_bios_table_attr_value_entry_string_decode_string q = Some fld \<and> vf_ptr fld = Some 5 \<and>
      bytes_at (snd ent') 5 (vf_length fld) = [0x41, 0x42]) \<and>
   pldm_bios_table_attr_value_entry_encode_integer (Some (4096, replicate 12 0xee)) 12 3 0x81 77 =
      Some (PLDM_ERROR_INVALID_DATA, Some (4096, replicate 12 0xee))"
proof -
  let ?ent = "(4096, replicate 12 0xee) :: object"
  have ok: "obj_ok 12 ?ent" by (simp add: obj_ok_def)
  have len: "pldm_bios_table_attr_value_entry_encode_enum_length 1 = 5" "pldm_bios_table_attr_value_entry_encode_string_length 2 = 7"
    "pldm_bios_table_attr_value_entry_encode_integer_length = 11"
    by (simp_all add: pldm_bios_table_attr_value_entry_encode_enum_length_def pldm_bios_table_attr_value_entry_encode_string_length_def
        pldm_bios_table_attr_value_entry_encode_integer_length_def)
  note all = bios_value_entries_roundtrip [OF ok, of "[5]" 1 "[0x41, 0x42]" 2 "[0]" "0x81" 3 77]
  show ?thesis
    using all [THEN conjunct2, THEN conjunct1] all [THEN conjunct2, THEN conjunct2] by (auto simp: len type_expected_cases)
qed

section \<open>Searches on any bytes\<close>

lemma string_search_total:
  assumes "bi_entry_length_handler it = string_table_entry_length" "bi_table_data it = tab" "bi_table_len it = n" "obj_ok n tab" "n \<le> SSIZE_MAX"
    and "bi_current_pos it \<le> n + 65539"
  shows "\<exists>r. pldm_bios_table_entry_find_by_iter it (string_table_handle_equal h) = Some r \<and>
    (\<forall>q. r = Some q \<longrightarrow> (\<exists>k. q = (tab, fst tab + k) \<and> k + 8 \<le> n \<and> pldm_bios_table_string_entry_decode_handle q = Some h))"
  using assms
proof (induction "n + 65539 - bi_current_pos it" arbitrary: it rule: less_induct)
  case less
  let ?k = "bi_current_pos it" and ?q = "pldm_bios_table_iter_value it"
  show ?case
  proof (cases "?k + 8 \<le> n")
    case False
    then have "pldm_bios_table_iter_is_end (Some it) = Some True" using less.prems(3) by (auto simp: pldm_bios_table_iter_is_end_def)
    then show ?thesis by (subst pldm_bios_table_entry_find_by_iter.simps) simp
  next
    case True
    have q: "?q = (tab, fst tab + ?k)" using less.prems(2) by (simp add: pldm_bios_table_iter_value_def)
    have read: "\<exists>w :: u16. deref ?q off = Some w" if "off + 2 \<le> 8" for off
      using True that less.prems(4) unfolding q deref_def load_word_def by (subst load_ok) (auto simp: obj_ok_def)
    obtain w l where w: "deref ?q 0 = Some (w :: u16)" and l: "deref ?q 2 = Some (l :: u16)" using read [of 0] read [of 2] by auto
    have "unat l < 2 ^ LENGTH(16)" by (rule unsigned_less)
    then have small: "unat l \<le> 65535" by simp
    then have len: "string_table_entry_length ?q = Some (int (4 + unat l))"
      using l by (simp add: string_table_entry_length_def pldm_bios_table_string_entry_decode_string_length_def as_ssize_small)
    have fin: "pldm_bios_table_iter_is_end (Some it) = Some False"
      using True less.prems(1-3) len by (simp add: pldm_bios_table_iter_is_end_def del: of_nat_add)
    have "?k + (4 + unat l) < 2 ^ 64" using True small less.prems(5) by simp
    then have wrap: "(?k + (4 + unat l)) mod 2 ^ 64 = ?k + (4 + unat l)" by (rule mod_less)
    let ?it = "it\<lparr>bi_current_pos := ?k + (4 + unat l)\<rparr>"
    have nxt: "pldm_bios_table_iter_next it = Some ?it"
      using fin len less.prems(1) wrap by (simp add: pldm_bios_table_iter_next_def del: of_nat_add)
    have eq: "string_table_handle_equal h ?q = Some (w = h)"
      using w by (simp add: string_table_handle_equal_def pldm_bios_table_string_entry_decode_handle_def)
    show ?thesis
    proof (cases "w = h")
      case found: True
      then have "pldm_bios_table_entry_find_by_iter it (string_table_handle_equal h) = Some (Some ?q)"
        using fin eq by (subst pldm_bios_table_entry_find_by_iter.simps) simp
      then show ?thesis using q True w found by (auto simp: pldm_bios_table_string_entry_decode_handle_def)
    next
      case False
      then have "pldm_bios_table_entry_find_by_iter it (string_table_handle_equal h) =
          pldm_bios_table_entry_find_by_iter ?it (string_table_handle_equal h)"
        using fin eq nxt by (subst pldm_bios_table_entry_find_by_iter.simps) simp
      moreover have "?k + (4 + unat l) \<le> n + 65539" using True small by linarith
      ultimately show ?thesis using less.hyps [of ?it] less.prems by simp
    qed
  qed
qed

text \<open>
  C35. Searching a string table by handle is safe on any bytes. Whatever the table holds, the search ends without an access outside of
  the table; an entry it finds has its header inside of the table and carries the handle.
\<close>

theorem bios_string_search_safe:
  assumes "obj_ok n tab" "n \<le> SSIZE_MAX"
  shows "\<exists>r. pldm_bios_table_string_find_by_handle True tab n h = Some r \<and>
    (\<forall>q. r = Some q \<longrightarrow> (\<exists>k. q = (tab, fst tab + k) \<and> k + 8 \<le> n \<and> pldm_bios_table_string_entry_decode_handle q = Some h))"
  unfolding pldm_bios_table_string_find_by_handle_def pldm_bios_table_entry_find_from_table_def pldm_bios_table_iter_create_def
  using string_search_total [OF _ _ _ assms] by simp

theorem bios_string_search_safe_witness:
  "\<exists>r. pldm_bios_table_string_find_by_handle True (4096, replicate 20 0xee) 20 7 = Some r"
proof -
  have "obj_ok 20 (4096, replicate 20 0xee)" by (simp add: obj_ok_def)
  from bios_string_search_safe [OF this, of 7] show ?thesis by auto
qed

text \<open>The searches of the other tables fail an assertion at the first entry of an unknown type.\<close>

lemma bios_unknown_type_fails:
  assumes "deref (tab, fst tab) 2 = Some (ty :: u8)" "ty \<notin> {0, 1, 3, 0x80, 0x81, 0x83}" "8 \<le> n"
  shows "pldm_bios_table_attr_find_by_handle True tab n h = None" "pldm_bios_table_attr_value_find_by_handle True tab n h = None"
proof -
  have "find_table_entry_length_by_type ty attr_table_entries = None" "find_table_entry_length_by_type ty attr_value_table_entries = None"
    using assms(2) by (auto simp: attr_table_entries_def attr_value_table_entries_def)
  then have "attr_table_entry_length (tab, fst tab) = None" "attr_value_table_entry_length (tab, fst tab) = None"
    using assms(1) by (simp_all add: attr_table_entry_length_def attr_value_table_entry_length_def)
  then show "pldm_bios_table_attr_find_by_handle True tab n h = None" "pldm_bios_table_attr_value_find_by_handle True tab n h = None"
    using assms(3)
    by (simp_all add: pldm_bios_table_attr_find_by_handle_def pldm_bios_table_attr_value_find_by_handle_def
        pldm_bios_table_entry_find_from_table_def pldm_bios_table_iter_create_def pldm_bios_table_entry_find_by_iter.simps
        pldm_bios_table_iter_is_end_def pldm_bios_table_iter_value_def)
qed

end
