(* ===== verification/Bios_Codec.thy ===== *)
theory Bios_Codec
  imports Struct_Access Bcd_Utils
begin

text \<open>
  The messages of the BIOS type, \<^verbatim>\<open>src/dsp/bios.c\<close>: date and time, the transfer of a table, and the current value of
  an attribute. The codecs lay structures over the payload; a pointer into the payload is the offset in it.
\<close>

abbreviation (input) PLDM_BIOS :: u8 where "PLDM_BIOS \<equiv> 0x03"
abbreviation (input) PLDM_GET_BIOS_TABLE :: u8 where "PLDM_GET_BIOS_TABLE \<equiv> 0x01"
abbreviation (input) PLDM_SET_BIOS_TABLE :: u8 where "PLDM_SET_BIOS_TABLE \<equiv> 0x02"
abbreviation (input) PLDM_SET_BIOS_ATTRIBUTE_CURRENT_VALUE :: u8 where "PLDM_SET_BIOS_ATTRIBUTE_CURRENT_VALUE \<equiv> 0x07"
abbreviation (input) PLDM_GET_BIOS_ATTRIBUTE_CURRENT_VALUE_BY_HANDLE :: u8 where
  "PLDM_GET_BIOS_ATTRIBUTE_CURRENT_VALUE_BY_HANDLE \<equiv> 0x08"
abbreviation (input) PLDM_GET_DATE_TIME :: u8 where "PLDM_GET_DATE_TIME \<equiv> 0x0c"
abbreviation (input) PLDM_SET_DATE_TIME :: u8 where "PLDM_SET_DATE_TIME \<equiv> 0x0d"

abbreviation (input) PLDM_GET_DATE_TIME_RESP_BYTES :: nat where "PLDM_GET_DATE_TIME_RESP_BYTES \<equiv> 8"
abbreviation (input) SIZEOF_SET_DATE_TIME_REQ :: nat where "SIZEOF_SET_DATE_TIME_REQ \<equiv> 7"
abbreviation (input) SIZEOF_ONLY_CC_RESP :: nat where "SIZEOF_ONLY_CC_RESP \<equiv> 1"
abbreviation (input) PLDM_GET_BIOS_TABLE_REQ_BYTES :: nat where "PLDM_GET_BIOS_TABLE_REQ_BYTES \<equiv> 6"
abbreviation (input) PLDM_GET_BIOS_TABLE_MIN_RESP_BYTES :: nat where "PLDM_GET_BIOS_TABLE_MIN_RESP_BYTES \<equiv> 6"
abbreviation (input) PLDM_SET_BIOS_TABLE_MIN_REQ_BYTES :: nat where "PLDM_SET_BIOS_TABLE_MIN_REQ_BYTES \<equiv> 6"
abbreviation (input) PLDM_SET_BIOS_TABLE_RESP_BYTES :: nat where "PLDM_SET_BIOS_TABLE_RESP_BYTES \<equiv> 5"
abbreviation (input) PLDM_SET_BIOS_ATTR_CURR_VAL_MIN_REQ_BYTES :: nat where "PLDM_SET_BIOS_ATTR_CURR_VAL_MIN_REQ_BYTES \<equiv> 5"
abbreviation (input) PLDM_SET_BIOS_ATTR_CURR_VAL_RESP_BYTES :: nat where "PLDM_SET_BIOS_ATTR_CURR_VAL_RESP_BYTES \<equiv> 5"
abbreviation (input) PLDM_GET_BIOS_ATTR_CURR_VAL_BY_HANDLE_REQ_BYTES :: nat where
  "PLDM_GET_BIOS_ATTR_CURR_VAL_BY_HANDLE_REQ_BYTES \<equiv> 7"
abbreviation (input) PLDM_GET_BIOS_ATTR_CURR_VAL_BY_HANDLE_MIN_RESP_BYTES :: nat where
  "PLDM_GET_BIOS_ATTR_CURR_VAL_BY_HANDLE_MIN_RESP_BYTES \<equiv> 6"

abbreviation (input) "bios_resp inst cmd \<equiv> with_header_cc PLDM_RESPONSE inst PLDM_BIOS cmd"
abbreviation (input) "bios_req inst cmd \<equiv> with_header_cc PLDM_REQUEST inst PLDM_BIOS cmd"

section \<open>Date and time\<close>

record date_time =
  dt_seconds :: u8
  dt_minutes :: u8
  dt_hours :: u8
  dt_day :: u8
  dt_month :: u8
  dt_year :: u16

definition encode_get_date_time_req :: "u8 \<Rightarrow> pldm_msg option \<Rightarrow> (int \<times> pldm_msg option) option" where
  "encode_get_date_time_req instance_id msg =
     if_msg PLDM_ERROR_INVALID_DATA msg (bios_req instance_id PLDM_GET_DATE_TIME (\<lambda>m. Some (PLDM_SUCCESS, m)))"

definition encode_get_date_time_resp ::
    "u8 \<Rightarrow> u8 \<Rightarrow> u8 \<Rightarrow> u8 \<Rightarrow> u8 \<Rightarrow> u8 \<Rightarrow> u8 \<Rightarrow> u16 \<Rightarrow> pldm_msg option \<Rightarrow> (int \<times> pldm_msg option) option" where
  "encode_get_date_time_resp instance_id completion_code seconds minutes hours day month year msg =
     if_msg PLDM_ERROR_INVALID_DATA msg (bios_resp instance_id PLDM_GET_DATE_TIME (\<lambda>m. do {
       m \<leftarrow> put_bytes 0 [completion_code] m;
       if completion_code = PLDM_SUCCESS
       then fill ([completion_code, seconds, minutes, hours, day, month] @ le_of_word year) m
       else Some (PLDM_SUCCESS, m) }))"

definition decode_get_date_time_resp ::
    "pldm_msg option \<Rightarrow> nat \<Rightarrow> (u8 \<times> date_time) option \<Rightarrow> (int \<times> (u8 \<times> date_time) option) option" where
  "decode_get_date_time_resp msg payload_length out =
     if_set PLDM_ERROR_INVALID_DATA msg out (\<lambda>m (_, v). do {
       cc \<leftarrow> get_word 0 m;
       if cc \<noteq> PLDM_SUCCESS then Some (PLDM_SUCCESS, (cc, v))
       else if payload_length \<noteq> PLDM_GET_DATE_TIME_RESP_BYTES then Some (PLDM_ERROR_INVALID_LENGTH, (cc, v))
       else do {
         seconds \<leftarrow> get_word 1 m;
         minutes \<leftarrow> get_word 2 m;
         hours \<leftarrow> get_word 3 m;
         day \<leftarrow> get_word 4 m;
         month \<leftarrow> get_word 5 m;
         year \<leftarrow> get_word 6 m;
         Some (PLDM_SUCCESS, (cc, \<lparr>dt_seconds = seconds, dt_minutes = minutes, dt_hours = hours, dt_day = day,
           dt_month = month, dt_year = year\<rparr>)) } })"

definition encode_set_date_time_req ::
    "u8 \<Rightarrow> u8 \<Rightarrow> u8 \<Rightarrow> u8 \<Rightarrow> u8 \<Rightarrow> u8 \<Rightarrow> u16 \<Rightarrow> pldm_msg option \<Rightarrow> nat \<Rightarrow> (int \<times> pldm_msg option) option" where
  "encode_set_date_time_req instance_id seconds minutes hours day month year msg payload_length =
     if_msg PLDM_ERROR_INVALID_DATA msg (\<lambda>m.
       if payload_length \<noteq> SIZEOF_SET_DATE_TIME_REQ then Some (PLDM_ERROR_INVALID_LENGTH, m)
       else if \<not> is_time_legal seconds minutes hours day month year then Some (PLDM_ERROR_INVALID_DATA, m)
       else bios_req instance_id PLDM_SET_DATE_TIME
         (fill ([pldm_bcd_dec2bcd8 seconds, pldm_bcd_dec2bcd8 minutes, pldm_bcd_dec2bcd8 hours, pldm_bcd_dec2bcd8 day,
                 pldm_bcd_dec2bcd8 month] @ le_of_word (pldm_bcd_dec2bcd16 year))) m)"

text \<open>The fields are stored before they are judged.\<close>

definition decode_set_date_time_req ::
    "pldm_msg option \<Rightarrow> nat \<Rightarrow> date_time option \<Rightarrow> (int \<times> date_time option) option" where
  "decode_set_date_time_req msg payload_length out =
     if_set PLDM_ERROR_INVALID_DATA msg out (\<lambda>m v.
       if payload_length \<noteq> SIZEOF_SET_DATE_TIME_REQ then Some (PLDM_ERROR_INVALID_LENGTH, v)
       else do {
         seconds \<leftarrow> map_option pldm_bcd_bcd2dec8 (get_word 0 m);
         minutes \<leftarrow> map_option pldm_bcd_bcd2dec8 (get_word 1 m);
         hours \<leftarrow> map_option pldm_bcd_bcd2dec8 (get_word 2 m);
         day \<leftarrow> map_option pldm_bcd_bcd2dec8 (get_word 3 m);
         month \<leftarrow> map_option pldm_bcd_bcd2dec8 (get_word 4 m);
         year \<leftarrow> map_option pldm_bcd_bcd2dec16 (get_word 5 m);
         Some (if is_time_legal seconds minutes hours day month year then PLDM_SUCCESS else PLDM_ERROR_INVALID_DATA,
           \<lparr>dt_seconds = seconds, dt_minutes = minutes, dt_hours = hours, dt_day = day, dt_month = month, dt_year = year\<rparr>) })"

definition encode_set_date_time_resp :: "u8 \<Rightarrow> u8 \<Rightarrow> pldm_msg option \<Rightarrow> nat \<Rightarrow> (int \<times> pldm_msg option) option" where
  "encode_set_date_time_resp instance_id completion_code msg payload_length =
     if_msg PLDM_ERROR_INVALID_DATA msg (\<lambda>m.
       if payload_length \<noteq> SIZEOF_ONLY_CC_RESP then Some (PLDM_ERROR_INVALID_LENGTH, m)
       else bios_resp instance_id PLDM_SET_DATE_TIME (fill [completion_code]) m)"

definition decode_set_date_time_resp :: "pldm_msg option \<Rightarrow> nat \<Rightarrow> u8 option \<Rightarrow> (int \<times> u8 option) option" where
  "decode_set_date_time_resp msg payload_length completion_code =
     if_set PLDM_ERROR_INVALID_DATA msg completion_code (\<lambda>m _. do {
       cc \<leftarrow> get_word 0 m;
       if cc \<noteq> PLDM_SUCCESS then Some (PLDM_SUCCESS, cc)
       else Some (if payload_length \<noteq> SIZEOF_ONLY_CC_RESP then PLDM_ERROR_INVALID_LENGTH else PLDM_SUCCESS, cc) })"

section \<open>Transfer of a table\<close>

text \<open>\<open>payload_length\<close> counts the header of the message here.\<close>

definition encode_get_bios_table_resp ::
    "u8 \<Rightarrow> u8 \<Rightarrow> u32 \<Rightarrow> u8 \<Rightarrow> u8 list option \<Rightarrow> nat \<Rightarrow> pldm_msg option \<Rightarrow> (int \<times> pldm_msg option) option" where
  "encode_get_bios_table_resp instance_id completion_code next_transfer_handle transfer_flag table_data payload_length msg =
     if_msg PLDM_ERROR_INVALID_DATA msg (bios_resp instance_id PLDM_GET_BIOS_TABLE (\<lambda>m. do {
       m \<leftarrow> put_bytes 0 [completion_code] m;
       if completion_code = PLDM_SUCCESS
       then do {
         m \<leftarrow> put_bytes 1 (le_of_word next_transfer_handle @ [transfer_flag]) m;
         let n = payload_length - (3 + PLDM_GET_BIOS_TABLE_MIN_RESP_BYTES);
         (case table_data of
            Some bs \<Rightarrow>
              if payload_length > 3 + PLDM_GET_BIOS_TABLE_MIN_RESP_BYTES
              then if length bs < n then None
                   else do { m \<leftarrow> put_bytes 6 (take n bs) m; Some (PLDM_SUCCESS, m) }
              else Some (PLDM_SUCCESS, m)
          | None \<Rightarrow> Some (PLDM_SUCCESS, m)) }
       else Some (PLDM_SUCCESS, m) }))"

definition encode_get_bios_table_req ::
    "u8 \<Rightarrow> u32 \<Rightarrow> u8 \<Rightarrow> u8 \<Rightarrow> pldm_msg option \<Rightarrow> (int \<times> pldm_msg option) option" where
  "encode_get_bios_table_req instance_id transfer_handle transfer_op_flag table_type msg =
     if_msg PLDM_ERROR_INVALID_DATA msg (bios_req instance_id PLDM_GET_BIOS_TABLE
       (fill (le_of_word transfer_handle @ [transfer_op_flag, table_type])))"

definition decode_get_bios_table_req ::
    "pldm_msg option \<Rightarrow> nat \<Rightarrow> (u32 \<times> u8 \<times> u8) option \<Rightarrow> (int \<times> (u32 \<times> u8 \<times> u8) option) option" where
  "decode_get_bios_table_req msg payload_length out =
     if_set PLDM_ERROR_INVALID_DATA msg out (\<lambda>m v.
       if payload_length \<noteq> PLDM_GET_BIOS_TABLE_REQ_BYTES then Some (PLDM_ERROR_INVALID_LENGTH, v)
       else do {
         transfer_handle \<leftarrow> get_word 0 m;
         transfer_op_flag \<leftarrow> get_word 4 m;
         table_type \<leftarrow> get_word 5 m;
         Some (PLDM_SUCCESS, (transfer_handle, transfer_op_flag, table_type)) })"

record bios_table_part =
  bt_completion_code :: u8
  bt_next_transfer_handle :: u32
  bt_transfer_flag :: u8
  bt_table_offset :: nat

definition decode_get_bios_table_resp ::
    "pldm_msg option \<Rightarrow> nat \<Rightarrow> bios_table_part option \<Rightarrow> (int \<times> bios_table_part option) option" where
  "decode_get_bios_table_resp msg payload_length out =
     if_set PLDM_ERROR_INVALID_DATA msg out (\<lambda>m v.
       if payload_length \<le> PLDM_GET_BIOS_TABLE_MIN_RESP_BYTES then Some (PLDM_ERROR_INVALID_LENGTH, v)
       else do {
         cc \<leftarrow> get_word 0 m;
         let v = v\<lparr>bt_completion_code := cc\<rparr>;
         if cc \<noteq> PLDM_SUCCESS then Some (PLDM_SUCCESS, v)
         else do {
           next_transfer_handle \<leftarrow> get_word 1 m;
           transfer_flag \<leftarrow> get_word 5 m;
           Some (PLDM_SUCCESS, v\<lparr>bt_next_transfer_handle := next_transfer_handle, bt_transfer_flag := transfer_flag,
             bt_table_offset := 6\<rparr>) } })"

definition encode_set_bios_table_req ::
    "u8 \<Rightarrow> u32 \<Rightarrow> u8 \<Rightarrow> u8 \<Rightarrow> u8 list option \<Rightarrow> nat \<Rightarrow> pldm_msg option \<Rightarrow> nat \<Rightarrow> (int \<times> pldm_msg option) option" where
  "encode_set_bios_table_req instance_id transfer_handle transfer_flag table_type table_data table_length msg payload_length =
     (case table_data of
        None \<Rightarrow> Some (PLDM_ERROR_INVALID_DATA, msg)
      | Some bs \<Rightarrow> if_msg PLDM_ERROR_INVALID_DATA msg (\<lambda>m.
          if payload_length < PLDM_SET_BIOS_TABLE_MIN_REQ_BYTES then Some (PLDM_ERROR_INVALID_LENGTH, m)
          else if payload_length - PLDM_SET_BIOS_TABLE_MIN_REQ_BYTES < table_length then Some (PLDM_ERROR_INVALID_LENGTH, m)
          else if payload_length - PLDM_SET_BIOS_TABLE_MIN_REQ_BYTES > table_length then Some (PLDM_ERROR_INVALID_LENGTH, m)
          else bios_req instance_id PLDM_SET_BIOS_TABLE (\<lambda>m.
            if length bs < table_length then None
            else fill (le_of_word transfer_handle @ [transfer_flag, table_type] @ take table_length bs) m) m))"

definition decode_set_bios_table_resp ::
    "pldm_msg option \<Rightarrow> nat \<Rightarrow> (u8 \<times> u32) option \<Rightarrow> (int \<times> (u8 \<times> u32) option) option" where
  "decode_set_bios_table_resp msg payload_length out =
     if_set PLDM_ERROR_INVALID_DATA msg out (\<lambda>m (_, next_transfer_handle). do {
       cc \<leftarrow> get_word 0 m;
       if cc \<noteq> PLDM_SUCCESS then Some (PLDM_SUCCESS, (cc, next_transfer_handle))
       else if payload_length \<noteq> PLDM_SET_BIOS_TABLE_RESP_BYTES then Some (PLDM_ERROR_INVALID_LENGTH, (cc, next_transfer_handle))
       else do { next_transfer_handle \<leftarrow> get_word 1 m; Some (PLDM_SUCCESS, (cc, next_transfer_handle)) } })"

definition encode_set_bios_table_resp :: "u8 \<Rightarrow> u8 \<Rightarrow> u32 \<Rightarrow> pldm_msg option \<Rightarrow> (int \<times> pldm_msg option) option" where
  "encode_set_bios_table_resp instance_id completion_code next_transfer_handle msg =
     if_msg PLDM_ERROR_INVALID_DATA msg (bios_resp instance_id PLDM_SET_BIOS_TABLE
       (fill ([completion_code] @ le_of_word next_transfer_handle)))"

definition decode_set_bios_table_req ::
    "pldm_msg option \<Rightarrow> nat \<Rightarrow> (u32 \<times> u8 \<times> u8 \<times> variable_field) option \<Rightarrow>
      (int \<times> (u32 \<times> u8 \<times> u8 \<times> variable_field) option) option" where
  "decode_set_bios_table_req msg payload_length out =
     if_set PLDM_ERROR_INVALID_DATA msg out (\<lambda>m v.
       if payload_length < PLDM_SET_BIOS_TABLE_MIN_REQ_BYTES then Some (PLDM_ERROR_INVALID_LENGTH, v)
       else do {
         transfer_handle \<leftarrow> get_word 0 m;
         transfer_flag \<leftarrow> get_word 4 m;
         table_type \<leftarrow> get_word 5 m;
         Some (PLDM_SUCCESS, (transfer_handle, transfer_flag, table_type,
           \<lparr>vf_ptr = Some 6, vf_length = payload_length - PLDM_SET_BIOS_TABLE_MIN_REQ_BYTES\<rparr>)) })"

section \<open>The current value of an attribute\<close>

definition encode_get_bios_attribute_current_value_by_handle_req ::
    "u8 \<Rightarrow> u32 \<Rightarrow> u8 \<Rightarrow> u16 \<Rightarrow> pldm_msg option \<Rightarrow> (int \<times> pldm_msg option) option" where
  "encode_get_bios_attribute_current_value_by_handle_req instance_id transfer_handle transfer_op_flag attribute_handle msg =
     if_msg PLDM_ERROR_INVALID_DATA msg (bios_req instance_id PLDM_GET_BIOS_ATTRIBUTE_CURRENT_VALUE_BY_HANDLE
       (fill (le_of_word transfer_handle @ [transfer_op_flag] @ le_of_word attribute_handle)))"

record bios_value_part =
  bp_completion_code :: u8
  bp_next_transfer_handle :: u32
  bp_transfer_flag :: u8
  bp_attribute_data :: variable_field

definition decode_get_bios_attribute_current_value_by_handle_resp ::
    "pldm_msg option \<Rightarrow> nat \<Rightarrow> bios_value_part option \<Rightarrow> (int \<times> bios_value_part option) option" where
  "decode_get_bios_attribute_current_value_by_handle_resp msg payload_length out =
     if_set PLDM_ERROR_INVALID_DATA msg out (\<lambda>m v. do {
       cc \<leftarrow> get_word 0 m;
       let v = v\<lparr>bp_completion_code := cc\<rparr>;
       if cc \<noteq> PLDM_SUCCESS then Some (PLDM_SUCCESS, v)
       else if payload_length \<le> PLDM_GET_BIOS_ATTR_CURR_VAL_BY_HANDLE_MIN_RESP_BYTES then Some (PLDM_ERROR_INVALID_LENGTH, v)
       else do {
         next_transfer_handle \<leftarrow> get_word 1 m;
         transfer_flag \<leftarrow> get_word 5 m;
         Some (PLDM_SUCCESS, v\<lparr>bp_next_transfer_handle := next_transfer_handle, bp_transfer_flag := transfer_flag,
           bp_attribute_data := \<lparr>vf_ptr = Some 6, vf_length = payload_length - 7 + 1\<rparr>\<rparr>) } })"

definition decode_get_bios_attribute_current_value_by_handle_req ::
    "pldm_msg option \<Rightarrow> nat \<Rightarrow> (u32 \<times> u8 \<times> u16) option \<Rightarrow> (int \<times> (u32 \<times> u8 \<times> u16) option) option" where
  "decode_get_bios_attribute_current_value_by_handle_req msg payload_length out =
     if_set PLDM_ERROR_INVALID_DATA msg out (\<lambda>m v.
       if payload_length \<noteq> PLDM_GET_BIOS_ATTR_CURR_VAL_BY_HANDLE_REQ_BYTES then Some (PLDM_ERROR_INVALID_LENGTH, v)
       else do {
         transfer_handle \<leftarrow> get_word 0 m;
         transfer_op_flag \<leftarrow> get_word 4 m;
         attribute_handle \<leftarrow> get_word 5 m;
         Some (PLDM_SUCCESS, (transfer_handle, transfer_op_flag, attribute_handle)) })"

definition encode_get_bios_current_value_by_handle_resp ::
    "u8 \<Rightarrow> u8 \<Rightarrow> u32 \<Rightarrow> u8 \<Rightarrow> u8 list option \<Rightarrow> nat \<Rightarrow> pldm_msg option \<Rightarrow> (int \<times> pldm_msg option) option" where
  "encode_get_bios_current_value_by_handle_resp instance_id completion_code next_transfer_handle transfer_flag attribute_data
     attribute_length msg =
     (case attribute_data of
        None \<Rightarrow> Some (PLDM_ERROR_INVALID_DATA, msg)
      | Some bs \<Rightarrow> if_msg PLDM_ERROR_INVALID_DATA msg (bios_resp instance_id PLDM_GET_BIOS_ATTRIBUTE_CURRENT_VALUE_BY_HANDLE (\<lambda>m. do {
          m \<leftarrow> put_bytes 0 [completion_code] m;
          if completion_code = PLDM_SUCCESS
          then if length bs < attribute_length then None
               else do {
                 m \<leftarrow> put_bytes 1 (le_of_word next_transfer_handle @ [transfer_flag] @ take attribute_length bs) m;
                 Some (PLDM_SUCCESS, m) }
          else Some (PLDM_SUCCESS, m) })))"

definition encode_set_bios_attribute_current_value_req ::
    "u8 \<Rightarrow> u32 \<Rightarrow> u8 \<Rightarrow> u8 list option \<Rightarrow> nat \<Rightarrow> pldm_msg option \<Rightarrow> nat \<Rightarrow> (int \<times> pldm_msg option) option" where
  "encode_set_bios_attribute_current_value_req instance_id transfer_handle transfer_flag attribute_data attribute_length msg
     payload_length =
     (case attribute_data of
        None \<Rightarrow> Some (PLDM_ERROR_INVALID_DATA, msg)
      | Some bs \<Rightarrow> if_msg PLDM_ERROR_INVALID_DATA msg (\<lambda>m.
          if payload_length < PLDM_SET_BIOS_ATTR_CURR_VAL_MIN_REQ_BYTES then Some (PLDM_ERROR_INVALID_LENGTH, m)
          else if payload_length - PLDM_SET_BIOS_ATTR_CURR_VAL_MIN_REQ_BYTES < attribute_length
          then Some (PLDM_ERROR_INVALID_LENGTH, m)
          else bios_req instance_id PLDM_SET_BIOS_ATTRIBUTE_CURRENT_VALUE (\<lambda>m.
            if length bs < attribute_length then None
            else fill (le_of_word transfer_handle @ [transfer_flag] @ take attribute_length bs) m) m))"

definition decode_set_bios_attribute_current_value_resp ::
    "pldm_msg option \<Rightarrow> nat \<Rightarrow> (u8 \<times> u32) option \<Rightarrow> (int \<times> (u8 \<times> u32) option) option" where
  "decode_set_bios_attribute_current_value_resp msg payload_length out =
     if_set PLDM_ERROR_INVALID_DATA msg out (\<lambda>m (_, next_transfer_handle). do {
       cc \<leftarrow> get_word 0 m;
       if cc \<noteq> PLDM_SUCCESS then Some (PLDM_SUCCESS, (cc, next_transfer_handle))
       else if payload_length \<noteq> PLDM_SET_BIOS_ATTR_CURR_VAL_RESP_BYTES
       then Some (PLDM_ERROR_INVALID_LENGTH, (cc, next_transfer_handle))
       else do { next_transfer_handle \<leftarrow> get_word 1 m; Some (PLDM_SUCCESS, (cc, next_transfer_handle)) } })"

definition decode_set_bios_attribute_current_value_req ::
    "pldm_msg option \<Rightarrow> nat \<Rightarrow> (u32 \<times> u8 \<times> variable_field) option \<Rightarrow> (int \<times> (u32 \<times> u8 \<times> variable_field) option) option" where
  "decode_set_bios_attribute_current_value_req msg payload_length out =
     if_set PLDM_ERROR_INVALID_DATA msg out (\<lambda>m v.
       if payload_length < PLDM_SET_BIOS_ATTR_CURR_VAL_MIN_REQ_BYTES then Some (PLDM_ERROR_INVALID_LENGTH, v)
       else do {
         transfer_handle \<leftarrow> get_word 0 m;
         transfer_flag \<leftarrow> get_word 4 m;
         Some (PLDM_SUCCESS, (transfer_handle, transfer_flag,
           \<lparr>vf_ptr = Some 5, vf_length = payload_length - PLDM_SET_BIOS_ATTR_CURR_VAL_MIN_REQ_BYTES\<rparr>)) })"

definition encode_set_bios_attribute_current_value_resp ::
    "u8 \<Rightarrow> u8 \<Rightarrow> u32 \<Rightarrow> pldm_msg option \<Rightarrow> (int \<times> pldm_msg option) option" where
  "encode_set_bios_attribute_current_value_resp instance_id completion_code next_transfer_handle msg =
     if_msg PLDM_ERROR_INVALID_DATA msg (bios_resp instance_id PLDM_SET_BIOS_ATTRIBUTE_CURRENT_VALUE
       (fill ([completion_code] @ le_of_word next_transfer_handle)))"

section \<open>Laws\<close>

lemma legal_time_fields:
  assumes "is_time_legal s mi h d mo y"
  shows "unat s < 100" "unat mi < 100" "unat h < 100" "unat d < 100" "unat mo < 100"
proof -
  let ?rday = "if mo = 2 \<and> (y mod 4 = 0 \<and> y mod 100 \<noteq> 0 \<or> y mod 400 = 0) then day_map mo + 1 else day_map mo"
  have "\<not> (mo < 1 \<or> mo > 12)" "\<not> (y < 1970 \<or> d < 1 \<or> uint d > ?rday \<or> s > 59 \<or> mi > 59 \<or> h > 23)"
    using assms unfolding is_time_legal_def Let_def by presburger+
  then have le: "s \<le> 59" "mi \<le> 59" "h \<le> 23" "mo \<le> 12" "uint d \<le> ?rday" by (simp_all only: de_Morgan_disj not_less)
  have "?rday \<le> 32" by (auto simp: day_map_def)
  with le(5) have "uint d \<le> 32" by (rule order_trans)
  then have "int (unat d) \<le> 32" by simp
  then show "unat d < 100" by linarith
  show "unat s < 100" "unat mi < 100" "unat h < 100" "unat mo < 100"
    using le(1-4) by (simp_all add: word_le_nat_alt)
qed

text \<open>
  C36. Setting date and time. A legal time of a year with four digits is encoded and decoded to itself; a time that is not legal is
  refused by the encoder, which writes nothing, and whatever bytes arrive, a decoder that reports success returns a legal time. The
  arguments of the encoder and the results of the decoder are decimal values, which are BCD only in the message; the comment of the decoder in
  \<open>bios.h\<close> calls its results BCD.
\<close>

theorem bios_date_time_roundtrip:
  assumes "instance_id \<le> PLDM_INSTANCE_MAX" "msg_holds 7 msg" "msg_holds 7 msg'" "unat y < 10000"
  shows "(if is_time_legal s mi h d mo y
     then \<exists>m. encode_set_date_time_req instance_id s mi h d mo y (Some msg) 7 = Some (PLDM_SUCCESS, Some m) \<and>
       decode_set_date_time_req (Some m) 7 (Some v) = Some (PLDM_SUCCESS,
         Some \<lparr>dt_seconds = s, dt_minutes = mi, dt_hours = h, dt_day = d, dt_month = mo, dt_year = y\<rparr>)
     else encode_set_date_time_req instance_id s mi h d mo y (Some msg) 7 = Some (PLDM_ERROR_INVALID_DATA, Some msg)) \<and>
    (\<exists>rc t. decode_set_date_time_req (Some msg') 7 (Some v) = Some (rc, Some t) \<and>
       (rc = PLDM_SUCCESS \<longleftrightarrow> is_time_legal (dt_seconds t) (dt_minutes t) (dt_hours t) (dt_day t) (dt_month t) (dt_year t)))"
proof (intro conjI)
  have len: "7 \<le> length (m_payload msg)" "7 \<le> length (m_payload msg')" using assms(2,3) by (simp_all add: msg_holds_def)
  note enc = if_msg_def if_set_def with_header_cc_ok [OF assms(1)] fill_def put_bytes_ok get_word_poked poke_poke
  show "if is_time_legal s mi h d mo y
     then \<exists>m. encode_set_date_time_req instance_id s mi h d mo y (Some msg) 7 = Some (PLDM_SUCCESS, Some m) \<and>
       decode_set_date_time_req (Some m) 7 (Some v) = Some (PLDM_SUCCESS,
         Some \<lparr>dt_seconds = s, dt_minutes = mi, dt_hours = h, dt_day = d, dt_month = mo, dt_year = y\<rparr>)
     else encode_set_date_time_req instance_id s mi h d mo y (Some msg) 7 = Some (PLDM_ERROR_INVALID_DATA, Some msg)"
    using len assms(4) legal_time_fields [of s mi h d mo y]
    by (simp add: encode_set_date_time_req_def decode_set_date_time_req_def enc bcd8_roundtrip bcd16_roundtrip)
  show "\<exists>rc t. decode_set_date_time_req (Some msg') 7 (Some v) = Some (rc, Some t) \<and>
       (rc = PLDM_SUCCESS \<longleftrightarrow> is_time_legal (dt_seconds t) (dt_minutes t) (dt_hours t) (dt_day t) (dt_month t) (dt_year t))"
    using len by (simp add: decode_set_date_time_req_def if_set_def get_word_ok)
qed

theorem bios_date_time_roundtrip_witness:
  "\<exists>m. encode_set_date_time_req 3 59 30 23 29 2 2024 (Some \<lparr>m_hdr = hdr_of_bytes 0 0 0, m_addr = 64, m_payload = replicate 8 0\<rparr>) 7 =
      Some (PLDM_SUCCESS, Some m) \<and>
    decode_set_date_time_req (Some m) 7 (Some \<lparr>dt_seconds = 0, dt_minutes = 0, dt_hours = 0, dt_day = 0, dt_month = 0, dt_year = 0\<rparr>) =
      Some (PLDM_SUCCESS, Some \<lparr>dt_seconds = 59, dt_minutes = 30, dt_hours = 23, dt_day = 29, dt_month = 2, dt_year = 2024\<rparr>)"
proof -
  have "msg_holds 7 \<lparr>m_hdr = hdr_of_bytes 0 0 0, m_addr = 64, m_payload = replicate 8 0\<rparr>" by (simp add: msg_holds_def)
  moreover have "is_time_legal 59 30 23 29 2 2024" by (simp add: is_time_legal_def day_map_def)
  ultimately show ?thesis using bios_date_time_roundtrip [where instance_id = 3 and y = 2024] by simp
qed

lemmas bios_codecs = encode_get_bios_table_req_def decode_get_bios_table_req_def encode_get_bios_table_resp_def
  decode_get_bios_table_resp_def encode_set_bios_table_req_def decode_set_bios_table_req_def
  encode_get_bios_attribute_current_value_by_handle_req_def decode_get_bios_attribute_current_value_by_handle_req_def
  encode_get_bios_current_value_by_handle_resp_def decode_get_bios_attribute_current_value_by_handle_resp_def
  encode_set_bios_attribute_current_value_req_def decode_set_bios_attribute_current_value_req_def
  encode_set_bios_attribute_current_value_resp_def decode_set_bios_attribute_current_value_resp_def
  encode_set_bios_table_resp_def decode_set_bios_table_resp_def

text \<open>
  C37. The messages that move BIOS tables and attribute values survive the wire. Requests for a part of a table or for the value of
  an attribute are decoded to what was encoded, and the responses and requests that carry data give a pointer to exactly the
  bytes that were put in; a response with an error gives its completion code.
\<close>

theorem bios_messages_roundtrip:
  assumes "instance_id \<le> PLDM_INSTANCE_MAX" "msg_holds n msg" "8 \<le> n" "6 + length bs \<le> n" "bs \<noteq> []" "cc \<noteq> PLDM_SUCCESS"
  shows "(\<exists>m. encode_get_bios_table_req instance_id h flag ty (Some msg) = Some (0, Some m) \<and>
      decode_get_bios_table_req (Some m) 6 (Some a0) = Some (0, Some (h, flag, ty))) \<and>
    (\<exists>m. encode_get_bios_table_resp instance_id 0 h flag (Some bs) (3 + 6 + length bs) (Some msg) = Some (0, Some m) \<and>
      decode_get_bios_table_resp (Some m) (6 + length bs) (Some b0) = Some (0, Some \<lparr>bt_completion_code = 0,
        bt_next_transfer_handle = h, bt_transfer_flag = flag, bt_table_offset = 6\<rparr>) \<and> bytes_at (m_payload m) 6 (length bs) = bs) \<and>
    (\<exists>m. encode_set_bios_table_req instance_id h flag ty (Some bs) (length bs) (Some msg) (6 + length bs) = Some (0, Some m) \<and>
      decode_set_bios_table_req (Some m) (6 + length bs) (Some c0) =
        Some (0, Some (h, flag, ty, \<lparr>vf_ptr = Some 6, vf_length = length bs\<rparr>)) \<and> bytes_at (m_payload m) 6 (length bs) = bs) \<and>
    (\<exists>m. encode_get_bios_attribute_current_value_by_handle_req instance_id h flag ah (Some msg) = Some (0, Some m) \<and>
      decode_get_bios_attribute_current_value_by_handle_req (Some m) 7 (Some d0) = Some (0, Some (h, flag, ah))) \<and>
    (\<exists>m. encode_get_bios_current_value_by_handle_resp instance_id 0 h flag (Some bs) (length bs) (Some msg) = Some (0, Some m) \<and>
      decode_get_bios_attribute_current_value_by_handle_resp (Some m) (6 + length bs) (Some e0) = Some (0, Some \<lparr>bp_completion_code = 0,
        bp_next_transfer_handle = h, bp_transfer_flag = flag, bp_attribute_data = \<lparr>vf_ptr = Some 6, vf_length = length bs\<rparr>\<rparr>) \<and>
      bytes_at (m_payload m) 6 (length bs) = bs) \<and>
    (\<exists>m. encode_get_bios_current_value_by_handle_resp instance_id cc h flag (Some bs) (length bs) (Some msg) = Some (0, Some m) \<and>
      decode_get_bios_attribute_current_value_by_handle_resp (Some m) k (Some e0) = Some (0, Some (e0\<lparr>bp_completion_code := cc\<rparr>))) \<and>
    (\<exists>m. encode_set_bios_attribute_current_value_req instance_id h flag (Some bs) (length bs) (Some msg) (5 + length bs) = Some (0, Some m) \<and>
      decode_set_bios_attribute_current_value_req (Some m) (5 + length bs) (Some f0) =
        Some (0, Some (h, flag, \<lparr>vf_ptr = Some 5, vf_length = length bs\<rparr>)) \<and> bytes_at (m_payload m) 5 (length bs) = bs) \<and>
    (\<exists>m. encode_set_bios_attribute_current_value_resp instance_id 0 h (Some msg) = Some (0, Some m) \<and>
      decode_set_bios_attribute_current_value_resp (Some m) 5 (Some g0) = Some (0, Some (0, h))) \<and>
    (\<exists>m. encode_set_bios_table_resp instance_id 0 h (Some msg) = Some (0, Some m) \<and>
      decode_set_bios_table_resp (Some m) 5 (Some g0) = Some (0, Some (0, h)))"
proof -
  have len: "8 \<le> length (m_payload msg)" "6 + length bs \<le> length (m_payload msg)" "length bs \<noteq> 0"
    using assms(2-5) by (simp_all add: msg_holds_def)
  note enc = if_msg_def if_set_def with_header_cc_ok [OF assms(1)] fill_def put_bytes_ok get_word_poked poke_poke bytes_at_poke
    case_prod_beta
  from len assms(6) show ?thesis
    by (intro conjI) (simp add: bios_codecs enc)+
qed

theorem bios_messages_roundtrip_witness:
  "\<exists>m. encode_set_bios_table_req 3 0x01020304 5 1 (Some [0xaa, 0xbb]) 2
      (Some \<lparr>m_hdr = hdr_of_bytes 0 0 0, m_addr = 64, m_payload = replicate 8 0\<rparr>) 8 = Some (0, Some m) \<and>
    decode_set_bios_table_req (Some m) 8 (Some (0, 0, 0, \<lparr>vf_ptr = None, vf_length = 0\<rparr>)) =
      Some (0, Some (0x01020304, 5, 1, \<lparr>vf_ptr = Some 6, vf_length = 2\<rparr>)) \<and> bytes_at (m_payload m) 6 2 = [0xaa, 0xbb]"
proof -
  let ?msg = "\<lparr>m_hdr = hdr_of_bytes 0 0 0, m_addr = 64, m_payload = replicate 8 0\<rparr>"
  have two: "length [0xaa, 0xbb :: u8] = 2" "6 + 2 = (8 :: nat)" by simp_all
  have "msg_holds 8 ?msg" by (simp add: msg_holds_def)
  from bios_messages_roundtrip [OF _ this, where instance_id = 3 and bs = "[0xaa, 0xbb]" and h = "0x01020304" and flag = 5 and ty = 1
      and cc = 1 and ?c0.0 = "(0, 0, 0, \<lparr>vf_ptr = None, vf_length = 0\<rparr>)", THEN conjunct2, THEN conjunct2, THEN conjunct1, unfolded two]
  show ?thesis by simp
qed

end
