(* ===== verification/Fwup_Package.thy ===== *)
theory Fwup_Package
  imports Fwup_Codec Struct_Access Edac
begin

text \<open>
  Firmware update packages, \<^verbatim>\<open>src/dsp/firmware_update.c\<close> and the iterators of \<^verbatim>\<open>include/libpldm/firmware_update.h\<close>: the header with
  its checksums, the records of firmware devices and of downstream devices with their descriptors, and the
  information about component images. A package is an object; a pointer into it is an offset. What the functions
  keep in \<open>struct pldm_package\<close> is passed through, with the pin and the header as values.
\<close>

abbreviation (input) PLDM_PACKAGE_HEADER_FORMAT_REVISION_FR01H :: u8 where "PLDM_PACKAGE_HEADER_FORMAT_REVISION_FR01H \<equiv> 1"
abbreviation (input) PLDM_PACKAGE_HEADER_FORMAT_REVISION_FR03H :: u8 where "PLDM_PACKAGE_HEADER_FORMAT_REVISION_FR03H \<equiv> 3"
abbreviation (input) PLDM_PACKAGE_HEADER_FORMAT_REVISION_FR04H :: u8 where "PLDM_PACKAGE_HEADER_FORMAT_REVISION_FR04H \<equiv> 4"
abbreviation (input) PLDM_FWUP_PACKAGE_HEADER_FIXED_SIZE :: nat where "PLDM_FWUP_PACKAGE_HEADER_FIXED_SIZE \<equiv> 36"
abbreviation (input) PLDM_FWUP_FIRMWARE_DEVICE_ID_RECORD_MIN_SIZE :: nat where "PLDM_FWUP_FIRMWARE_DEVICE_ID_RECORD_MIN_SIZE \<equiv> 11"
abbreviation (input) PLDM_FWUP_DOWNSTREAM_DEVICE_ID_RECORD_MIN_SIZE :: nat where "PLDM_FWUP_DOWNSTREAM_DEVICE_ID_RECORD_MIN_SIZE \<equiv> 11"
abbreviation (input) PLDM_FWUP_COMPONENT_IMAGE_INFORMATION_MIN_SIZE :: nat where "PLDM_FWUP_COMPONENT_IMAGE_INFORMATION_MIN_SIZE \<equiv> 22"
abbreviation (input) PLDM_FWUP_DEVICE_DESCRIPTOR_MIN_LEN :: nat where "PLDM_FWUP_DEVICE_DESCRIPTOR_MIN_LEN \<equiv> 5"
abbreviation (input) PLDM_FWUP_VENDOR_DEFINED :: u16 where "PLDM_FWUP_VENDOR_DEFINED \<equiv> 0xffff"

section \<open>Data\<close>

record pldm_package_format_pin =
  pin_magic :: u32
  pin_version :: u8
  pin_identifier :: "u8 list"
  pin_revision :: u8

datatype pldm_package_parse =
    PLDM_PACKAGE_PARSE_INIT | PLDM_PACKAGE_PARSE_COMPLETE | PLDM_PACKAGE_PARSE_HEADER | PLDM_PACKAGE_PARSE_FIRMWARE_DEVICES
  | PLDM_PACKAGE_PARSE_DOWNSTREAM_DEVICES | PLDM_PACKAGE_PARSE_COMPONENT_IMAGE_INFORMATION

record pldm_package_iter =
  pki_field :: variable_field
  pki_entries :: nat

record package_header_information =
  ph_identifier :: "u8 list"
  ph_format_revision :: u8
  ph_release_date_time :: "u8 list"
  ph_bitmap_bit_length :: u16
  ph_version_string_type :: u8
  ph_version_string :: variable_field

record pldm_package_firmware_device_id_record =
  fr_descriptor_count :: u8
  fr_update_option_flags :: u32
  fr_version_string_type :: u8
  fr_version_string :: variable_field
  fr_applicable_components :: variable_field
  fr_record_descriptors :: variable_field
  fr_package_data :: variable_field
  fr_reference_manifest :: variable_field

record pldm_package_downstream_device_id_record =
  dr_descriptor_count :: u8
  dr_update_option_flags :: u32
  dr_min_version_string_type :: u8
  dr_min_version_string :: variable_field
  dr_min_version_stamp :: u32
  dr_applicable_components :: variable_field
  dr_record_descriptors :: variable_field
  dr_package_data :: variable_field
  dr_reference_manifest :: variable_field

record pldm_package_component_image_information =
  ci_classification :: u16
  ci_identifier :: u16
  ci_comparison_stamp :: u32
  ci_options :: u16
  ci_activation_method :: u16
  ci_image :: variable_field
  ci_version_string_type :: u8
  ci_version_string :: variable_field
  ci_opaque_data :: variable_field

record pldm_package =
  pk_pin :: "pldm_package_format_pin option"
  pk_hdr :: "package_header_information option"
  pk_state :: pldm_package_parse
  pk_flags :: u32
  pk_package :: variable_field
  pk_areas :: variable_field
  pk_iter :: pldm_package_iter

record package_descriptor =
  pd_type :: u16
  pd_length :: u16
  pd_data :: "nat option"

record pldm_descriptor_iter =
  di_field :: variable_field
  di_count :: nat

text \<open>
  The identifier of each revision, and the sum of the structure sizes (each up to the last member the revision
  has) that pins the layout: the values are those of a target with pointers and \<open>size_t\<close> of 64 bits.
\<close>

definition revision_info :: "u8 \<Rightarrow> u8 list \<times> nat" where
  "revision_info r =
     (if r = 1 then ([0xF0, 0x18, 0x87, 0x8C, 0xCB, 0x7D, 0x49, 0x43, 0x98, 0x00, 0xA0, 0x2F, 0x05, 0x9A, 0xCA, 0x02],
        80 + 56 + 80 + 16 + 56)
      else if r = 2 then ([0x12, 0x44, 0xd2, 0x64, 0x8d, 0x7d, 0x47, 0x18, 0xa0, 0x30, 0xfc, 0x8a, 0x56, 0x58, 0x7d, 0x5a],
        80 + 56 + 80 + 16 + 88 + 56)
      else if r = 3 then ([0x31, 0x19, 0xce, 0x2f, 0xe8, 0x0a, 0x4a, 0x99, 0xaf, 0x6d, 0x46, 0xf8, 0xb1, 0x21, 0xf6, 0xbf],
        80 + 56 + 80 + 16 + 88 + 72)
      else if r = 4 then ([0x7b, 0x29, 0x1c, 0x99, 0x6d, 0xb6, 0x42, 0x08, 0x80, 0x1b, 0x02, 0x02, 0x6e, 0x46, 0x3c, 0x78],
        80 + 56 + 96 + 16 + 104 + 72)
      else (replicate 16 0, 0))"

text \<open>The pins that \<open>DEFINE_PLDM_PACKAGE_FORMAT_PIN_FR01H\<close> to \<open>_FR04H\<close> define.\<close>

definition package_format_pin :: "u8 \<Rightarrow> pldm_package_format_pin" where
  "package_format_pin r = \<lparr>pin_magic = of_nat (snd (revision_info r)), pin_version = 0, pin_identifier = fst (revision_info r), pin_revision = r\<rparr>"

text \<open>The bytes of an object from an offset on.\<close>

abbreviation (input) behind_offset :: "object \<Rightarrow> nat \<Rightarrow> object" where
  "behind_offset obj p \<equiv> (fst obj + p, drop p (snd obj))"

abbreviation (input) NO_FIELD :: variable_field where
  "NO_FIELD \<equiv> \<lparr>vf_ptr = None, vf_length = 0\<rparr>"

section \<open>The header\<close>

text \<open>The header, the areas behind it, and the local variables of the function.\<close>

record header_parse =
  hp_hdr :: package_header_information
  hp_areas :: variable_field
  hp_size :: u16
  hp_header_checksum :: u32
  hp_payload_checksum :: u32
  hp_payload :: variable_field

abbreviation (input) has_payload_checksum :: "header_parse \<Rightarrow> bool" where
  "has_payload_checksum v \<equiv> ph_format_revision (hp_hdr v) \<ge> PLDM_PACKAGE_HEADER_FORMAT_REVISION_FR04H"

definition checksums_size :: "header_parse \<Rightarrow> nat" where
  "checksums_size v = (if has_payload_checksum v then 2 else 1) * 4"

definition header_payload_size :: "header_parse \<Rightarrow> nat" where
  "header_payload_size v = unat (hp_size v) - checksums_size v"

definition header_variable_size :: "header_parse \<Rightarrow> nat" where
  "header_variable_size v = header_payload_size v - PLDM_FWUP_PACKAGE_HEADER_FIXED_SIZE"

definition header_areas_size :: "header_parse \<Rightarrow> nat" where
  "header_areas_size v = header_variable_size v - vf_length (ph_version_string (hp_hdr v))"

definition header_steps :: "u8 \<Rightarrow> header_parse step list" where
  "header_steps pin_rev =
     [get_array_or as_errno (\<lambda>_. 16) (\<lambda>_. 16) (ph_identifier \<circ> hp_hdr) (hp_hdr_update \<circ> ph_identifier_update),
      refuse (\<lambda>v. ph_identifier (hp_hdr v) \<notin> (fst \<circ> revision_info) ` {1, 2, 3, 4}) (- ENOTSUP),
      get_or as_errno (hp_hdr_update \<circ> ph_format_revision_update),
      refuse (\<lambda>v. ph_format_revision (hp_hdr v) < PLDM_PACKAGE_HEADER_FORMAT_REVISION_FR01H) (- EPROTO),
      refuse (\<lambda>v. ph_format_revision (hp_hdr v) > pin_rev) (- ENOTSUP),
      refuse (\<lambda>v. fst (revision_info (ph_format_revision (hp_hdr v))) \<noteq> ph_identifier (hp_hdr v)) (- ENOTSUP),
      get_or as_errno hp_size_update,
      get_array_or as_errno (\<lambda>_. 13) (\<lambda>_. 13) (ph_release_date_time \<circ> hp_hdr) (hp_hdr_update \<circ> ph_release_date_time_update),
      get_or as_errno (hp_hdr_update \<circ> ph_bitmap_bit_length_update),
      refuse (\<lambda>v. ph_bitmap_bit_length (hp_hdr v) AND 7 \<noteq> 0) (- EPROTO),
      get_or as_errno (hp_hdr_update \<circ> ph_version_string_type_update),
      refuse (\<lambda>v. \<not> is_string_type_valid (ph_version_string_type (hp_hdr v))) (- EPROTO),
      get_size8 (hp_hdr_update \<circ> ph_version_string_update),
      span_field (ph_version_string \<circ> hp_hdr) (hp_hdr_update \<circ> ph_version_string_update) 0,
      refuse (\<lambda>v. unat (hp_size v) < PLDM_FWUP_PACKAGE_HEADER_FIXED_SIZE + 3 + checksums_size v) (- EOVERFLOW),
      refuse (\<lambda>v. header_variable_size v < vf_length (ph_version_string (hp_hdr v))) (- EOVERFLOW),
      span_or as_errno header_areas_size (points_to hp_areas_update 0),
      assign (\<lambda>v. hp_areas_update (vf_length_update (\<lambda>_. header_areas_size v)) v),
      get hp_header_checksum_update,
      only has_payload_checksum
        [get hp_payload_checksum_update,
         rest_or as_errno hp_payload_update 0]]"

text \<open>\<open>oem_nvidia\<close>: built with \<open>LIBPLDM_OEM_NVIDIA\<close>, which leaves the checksum of the payload to the caller.\<close>

definition payload_validate :: "bool \<Rightarrow> object \<Rightarrow> header_parse \<Rightarrow> int option" where
  "payload_validate oem_nvidia data v =
     (if \<not> oem_nvidia \<and> has_payload_checksum v
      then pldm_edac_crc32_validate (hp_payload_checksum v) (map_option (\<lambda>p. drop p (snd data)) (vf_ptr (hp_payload v)))
             (vf_length (hp_payload v))
      else Some 0)"

definition decode_pldm_package_header_info_errno ::
    "bool \<Rightarrow> object \<Rightarrow> nat \<Rightarrow> pldm_package_format_pin \<Rightarrow> package_header_information \<Rightarrow> pldm_package \<Rightarrow>
      (int \<times> package_header_information \<times> pldm_package) option" where
  "decode_pldm_package_header_info_errno oem_nvidia data len pin hdr pkg =
     (if pk_state pkg \<noteq> PLDM_PACKAGE_PARSE_INIT then Some (- EINVAL, hdr, pkg)
      else if pin_version pin > 0 then Some (- ENOTSUP, hdr, pkg)
      else if pin_revision pin = 0 then Some (- EINVAL, hdr, pkg)
      else if pin_revision pin > PLDM_PACKAGE_HEADER_FORMAT_REVISION_FR04H then Some (- ENOTSUP, hdr, pkg)
      else if pin_identifier pin \<noteq> fst (revision_info (pin_revision pin)) then Some (- ENOTSUP, hdr, pkg)
      else if unat (pin_magic pin) \<noteq> snd (revision_info (pin_revision pin)) then Some (- EINVAL, hdr, pkg)
      else do {
        (rc, v) \<leftarrow> decode_bytes as_errno PLDM_FWUP_PACKAGE_HEADER_FIXED_SIZE (header_steps (pin_revision pin)) pldm_msgbuf_complete
          len data \<lparr>hp_hdr = hdr, hp_areas = pk_areas pkg, hp_size = 0, hp_header_checksum = 0, hp_payload_checksum = 0,
            hp_payload = NO_FIELD\<rparr>;
        let hdr = hp_hdr v; pkg = pkg\<lparr>pk_areas := hp_areas v\<rparr> in
        if rc \<noteq> 0 then Some (rc, hdr, pkg)
        else do {
          rc \<leftarrow> pldm_edac_crc32_validate (hp_header_checksum v) (Some (snd data)) (header_payload_size v);
          if rc \<noteq> 0 then Some (rc, hdr, pkg)
          else do {
            rc \<leftarrow> payload_validate oem_nvidia data v;
            if rc \<noteq> 0 then Some (rc, hdr, pkg)
            else Some (0, hdr, pkg\<lparr>pk_pin := Some pin, pk_hdr := Some hdr, pk_state := PLDM_PACKAGE_PARSE_HEADER, pk_flags := 0,
              pk_package := \<lparr>vf_ptr = Some 0, vf_length = len\<rparr>\<rparr>) } } })"

definition decode_pldm_firmware_update_package ::
    "bool \<Rightarrow> object option \<Rightarrow> nat \<Rightarrow> pldm_package_format_pin option \<Rightarrow> package_header_information option \<Rightarrow> pldm_package option \<Rightarrow>
      u32 \<Rightarrow> (int \<times> package_header_information option \<times> pldm_package option) option" where
  "decode_pldm_firmware_update_package oem_nvidia data len pin hdr pkg flags =
     (case (data, pin, hdr, pkg) of
        (Some d, Some p, Some h, Some k) \<Rightarrow>
          if flags \<noteq> 0 then Some (- EINVAL, hdr, pkg)
          else map_option (\<lambda>(rc, h, k). (rc, Some h, Some k)) (decode_pldm_package_header_info_errno oem_nvidia d len p h k)
      | _ \<Rightarrow> Some (- EINVAL, hdr, pkg))"

text \<open>The older interface, for packages of any revision.\<close>

record pldm_package_header_information =
  pi_uuid :: "u8 list"
  pi_format_version :: u8
  pi_size :: u16
  pi_release_date_time :: "u8 list"
  pi_bitmap_bit_length :: u16
  pi_version_string_type :: u8
  pi_version_string_length :: u8

definition empty_header :: package_header_information where
  "empty_header = \<lparr>ph_identifier = replicate 16 0, ph_format_revision = 0, ph_release_date_time = replicate 13 0,
     ph_bitmap_bit_length = 0, ph_version_string_type = 0, ph_version_string = NO_FIELD\<rparr>"

definition empty_package :: pldm_package where
  "empty_package = \<lparr>pk_pin = None, pk_hdr = None, pk_state = PLDM_PACKAGE_PARSE_INIT, pk_flags = 0, pk_package = NO_FIELD,
     pk_areas = NO_FIELD, pk_iter = \<lparr>pki_field = NO_FIELD, pki_entries = 0\<rparr>\<rparr>"

definition decode_pldm_package_header_info ::
    "bool \<Rightarrow> object option \<Rightarrow> nat \<Rightarrow> (pldm_package_header_information \<times> variable_field) option \<Rightarrow>
      (int \<times> (pldm_package_header_information \<times> variable_field) option) option" where
  "decode_pldm_package_header_info oem_nvidia data len out =
     if_set PLDM_ERROR_INVALID_DATA data out (\<lambda>d v. do {
       (rc, hdr, _) \<leftarrow> decode_pldm_package_header_info_errno oem_nvidia d len (package_format_pin 4) empty_header empty_package;
       if rc < 0 then do { cc \<leftarrow> as_cc rc; Some (cc, v) }
       else do {
         sz \<leftarrow> load_word d (fst d + 17);
         Some (PLDM_SUCCESS, \<lparr>pi_uuid = ph_identifier hdr, pi_format_version = ph_format_revision hdr, pi_size = sz,
           pi_release_date_time = ph_release_date_time hdr, pi_bitmap_bit_length = ph_bitmap_bit_length hdr,
           pi_version_string_type = ph_version_string_type hdr,
           pi_version_string_length = of_nat (vf_length (ph_version_string hdr))\<rparr>, ph_version_string hdr) } })"

section \<open>Records with a length of their own\<close>

text \<open>
  \<open>pldm_msgbuf_init_dynamic_uint16\<close>, and the decoding of the record in the msgbuf it gives. The field goes on behind
  the record as soon as its length is known to fit.
\<close>

definition pldm_msgbuf_init_dynamic_uint16 ::
    "nat \<Rightarrow> object \<Rightarrow> variable_field \<Rightarrow> nat \<Rightarrow> (int \<times> variable_field \<times> nat) option" where
  "pldm_msgbuf_init_dynamic_uint16 req obj field p = do {
     (rc, n) \<leftarrow> decode_bytes as_errno req [get_or as_errno (\<lambda>(f :: u16 \<Rightarrow> u16) _. unat (f 0))] pldm_msgbuf_complete
       (vf_length field) (behind_offset obj p) 0;
     if rc \<noteq> 0 then Some (rc, field, n)
     else do {
       (rc, field) \<leftarrow> decode_bytes as_errno req [span_or as_errno (\<lambda>_. n) (\<lambda>_ f. f), rest_or as_errno (\<lambda>f. f) p]
         pldm_msgbuf_complete (vf_length field) (behind_offset obj p) field;
       Some (rc, field, n) } }"

definition decode_dynamic ::
    "nat \<Rightarrow> (nat \<Rightarrow> 'v step list) \<Rightarrow> object \<Rightarrow> variable_field \<Rightarrow> nat \<Rightarrow> 'v \<Rightarrow> (int \<times> variable_field \<times> 'v) option" where
  "decode_dynamic req ss obj field p v = do {
     (rc, field, n) \<leftarrow> pldm_msgbuf_init_dynamic_uint16 req obj field p;
     if rc \<noteq> 0 then Some (rc, field, v)
     else do {
       (rc, v) \<leftarrow> decode_bytes as_errno req (ss p) pldm_msgbuf_complete_consumed n (behind_offset obj p) v;
       Some (rc, field, v) } }"

section \<open>Firmware device id records\<close>

abbreviation (input) get_size32 :: "((variable_field \<Rightarrow> variable_field) \<Rightarrow> 'v \<Rightarrow> 'v) \<Rightarrow> 'v step" where
  "get_size32 upd \<equiv> get_or as_errno (to_size upd :: (u32 \<Rightarrow> u32) \<Rightarrow> _)"

abbreviation (input) set_length :: "((variable_field \<Rightarrow> variable_field) \<Rightarrow> 'v \<Rightarrow> 'v) \<Rightarrow> nat \<Rightarrow> 'v step" where
  "set_length upd n \<equiv> assign (upd (vf_length_update (\<lambda>_. n)))"

abbreviation (input) bitmap_length :: "package_header_information \<Rightarrow> nat" where
  "bitmap_length hdr \<equiv> unat (ph_bitmap_bit_length hdr) div 8"

definition firmware_device_id_record_steps :: "package_header_information \<Rightarrow> nat \<Rightarrow> pldm_package_firmware_device_id_record step list" where
  "firmware_device_id_record_steps hdr p =
     [get (\<lambda>(_ :: u16 \<Rightarrow> u16) v. v),
      get fr_descriptor_count_update,
      get fr_update_option_flags_update,
      get_or as_errno fr_version_string_type_update,
      refuse (\<lambda>v. \<not> is_string_type_valid (fr_version_string_type v)) (- EPROTO),
      get_size8 fr_version_string_update,
      refuse (\<lambda>v. vf_length (fr_version_string v) = 0) (- EPROTO),
      get_size16 fr_package_data_update,
      if ph_format_revision hdr \<ge> PLDM_PACKAGE_HEADER_FORMAT_REVISION_FR04H then get_size32 fr_reference_manifest_update
      else set_length fr_reference_manifest_update 0,
      object_has (\<lambda>_. ph_bitmap_bit_length hdr AND 7 = 0),
      span_or as_errno (\<lambda>_. bitmap_length hdr) (points_to fr_applicable_components_update p),
      set_length fr_applicable_components_update (bitmap_length hdr),
      span_field fr_version_string fr_version_string_update p,
      until_into (\<lambda>v. vf_length (fr_package_data v) + vf_length (fr_reference_manifest v)) fr_record_descriptors_update p,
      span_field fr_package_data fr_package_data_update p,
      assign (\<lambda>v. if vf_length (fr_package_data v) = 0 then fr_package_data_update (vf_ptr_update (\<lambda>_. None)) v else v),
      if ph_format_revision hdr \<ge> PLDM_PACKAGE_HEADER_FORMAT_REVISION_FR04H
      then span_field fr_reference_manifest fr_reference_manifest_update p
      else assign (fr_reference_manifest_update (vf_ptr_update (\<lambda>_. None)))]"

definition decode_pldm_package_firmware_device_id_record_errno ::
    "object \<Rightarrow> package_header_information option \<Rightarrow> variable_field \<Rightarrow> pldm_package_firmware_device_id_record option \<Rightarrow>
      (int \<times> variable_field \<times> pldm_package_firmware_device_id_record option) option" where
  "decode_pldm_package_firmware_device_id_record_errno obj hdr field rec =
     (case (hdr, rec, vf_ptr field) of
        (Some h, Some r, Some p) \<Rightarrow>
          map_option (\<lambda>(rc, field, r). (rc, field, Some r))
            (decode_dynamic PLDM_FWUP_FIRMWARE_DEVICE_ID_RECORD_MIN_SIZE (firmware_device_id_record_steps h) obj field p r)
      | _ \<Rightarrow> Some (- EINVAL, field, rec))"

record pldm_firmware_device_id_record =
  fi_record_length :: u16
  fi_descriptor_count :: u8
  fi_update_option_flags :: u32
  fi_version_string_type :: u8
  fi_version_string_length :: u8
  fi_pkg_data_length :: u16

record firmware_device_id_out =
  fo_record :: pldm_firmware_device_id_record
  fo_applicable_components :: variable_field
  fo_version_str :: variable_field
  fo_record_descriptors :: variable_field
  fo_pkg_data :: variable_field

definition empty_fd_record :: pldm_package_firmware_device_id_record where
  "empty_fd_record = \<lparr>fr_descriptor_count = 0, fr_update_option_flags = 0, fr_version_string_type = 0, fr_version_string = NO_FIELD,
     fr_applicable_components = NO_FIELD, fr_record_descriptors = NO_FIELD, fr_package_data = NO_FIELD, fr_reference_manifest = NO_FIELD\<rparr>"

text \<open>The revision is cut to the 8 bits of the header's member.\<close>

definition decode_firmware_device_id_record ::
    "object option \<Rightarrow> nat \<Rightarrow> u16 \<Rightarrow> firmware_device_id_out option \<Rightarrow> nat \<Rightarrow> (int \<times> firmware_device_id_out option) option" where
  "decode_firmware_device_id_record data len bit_length out format_revision =
     if_set PLDM_ERROR_INVALID_DATA data out (\<lambda>d v. do {
       let hdr = empty_header\<lparr>ph_format_revision := of_nat format_revision, ph_bitmap_bit_length := bit_length\<rparr>;
       (rc, _, rec) \<leftarrow> decode_pldm_package_firmware_device_id_record_errno d (Some hdr) \<lparr>vf_ptr = Some 0, vf_length = len\<rparr>
         (Some empty_fd_record);
       if rc < 0 then do { cc \<leftarrow> as_cc rc; Some (cc, v) }
       else do {
         rec \<leftarrow> rec;
         n \<leftarrow> load_word d (fst d);
         Some (PLDM_SUCCESS, \<lparr>fo_record = \<lparr>fi_record_length = n, fi_descriptor_count = fr_descriptor_count rec,
             fi_update_option_flags = fr_update_option_flags rec, fi_version_string_type = fr_version_string_type rec,
             fi_version_string_length = of_nat (vf_length (fr_version_string rec)),
             fi_pkg_data_length = of_nat (vf_length (fr_package_data rec))\<rparr>,
           fo_applicable_components = fr_applicable_components rec, fo_version_str = fr_version_string rec,
           fo_record_descriptors = fr_record_descriptors rec, fo_pkg_data = fr_package_data rec\<rparr>) } })"

section \<open>Descriptors\<close>

definition get_descriptor_type_length :: "u16 \<Rightarrow> u16" where
  "get_descriptor_type_length t =
     (case map_of [(0x0000, 2), (0x0001, 4), (0x0002, 16), (0x0003, 3), (0x0004, 4), (0x0005, 3), (0x0006, 8), (0x0100, 2),
        (0x0101, 2), (0x0102, 2), (0x0103, 1), (0x0104, 4), (0x0105, 4), (0x0106, 40), (0x0107, 10), (0x0108, 16), (0x0109, 4)] t of
        Some n \<Rightarrow> n | None \<Rightarrow> 0)"

text \<open>
  The next descriptor of the field under the iterator. Without a pointer there is nothing to read from; then only a length
  that is too short for a descriptor is safe.
\<close>

definition descriptor_steps :: "nat \<Rightarrow> (variable_field \<times> package_descriptor) step list" where
  "descriptor_steps p =
     [get (apsnd \<circ> pd_type_update),
      get_or as_errno (apsnd \<circ> pd_length_update),
      assign (apsnd (pd_data_update (\<lambda>_. None))),
      span (\<lambda>v. unat (pd_length (snd v))) (\<lambda>q. apsnd (pd_data_update (\<lambda>_. map_option ((+) p) q))),
      assign (apfst (vf_ptr_update (\<lambda>_. None))),
      rest_into apfst p]"

definition decode_pldm_descriptor_from_iter ::
    "object \<Rightarrow> (pldm_descriptor_iter \<times> package_descriptor) option \<Rightarrow> (int \<times> (pldm_descriptor_iter \<times> package_descriptor) option) option" where
  "decode_pldm_descriptor_from_iter obj out =
     if_msg (- EINVAL) out (\<lambda>(iter, desc).
       let field = di_field iter in
       case vf_ptr field of
         Some p \<Rightarrow> do {
           (rc, field, desc) \<leftarrow> decode_bytes as_errno PLDM_FWUP_DEVICE_DESCRIPTOR_MIN_LEN (descriptor_steps p) pldm_msgbuf_complete
             (vf_length field) (behind_offset obj p) (field, desc);
           Some (rc, iter\<lparr>di_field := field\<rparr>, desc) }
       | None \<Rightarrow>
           if vf_length field < PLDM_FWUP_DEVICE_DESCRIPTOR_MIN_LEN then Some (- EOVERFLOW, iter, desc) else None)"

definition decode_descriptor_type_length_value_errno ::
    "object option \<Rightarrow> nat \<Rightarrow> (u16 \<times> variable_field) option \<Rightarrow> (int \<times> (u16 \<times> variable_field) option) option" where
  "decode_descriptor_type_length_value_errno data len out =
     if_set (- EINVAL) data out (\<lambda>d (ty, field).
       if len < PLDM_FWUP_DEVICE_DESCRIPTOR_MIN_LEN then Some (- EOVERFLOW, ty, field)
       else do {
         ty \<leftarrow> load_word d (fst d);
         n \<leftarrow> load_word d (fst d + 2);
         if ty \<noteq> PLDM_FWUP_VENDOR_DEFINED \<and> n \<noteq> get_descriptor_type_length ty then Some (- EBADMSG, ty, field)
         else if len < 4 + unat n then Some (- EOVERFLOW, ty, field)
         else Some (0, ty, \<lparr>vf_ptr = Some 4, vf_length = unat n\<rparr>) })"

definition xlated :: "(int \<times> 'a) option \<Rightarrow> (int \<times> 'a) option" where
  "xlated res = do { (rc, v) \<leftarrow> res; if rc < 0 then do { cc \<leftarrow> as_cc rc; Some (cc, v) } else Some (PLDM_SUCCESS, v) }"

definition decode_descriptor_type_length_value ::
    "object option \<Rightarrow> nat \<Rightarrow> (u16 \<times> variable_field) option \<Rightarrow> (int \<times> (u16 \<times> variable_field) option) option" where
  "decode_descriptor_type_length_value data len out = xlated (decode_descriptor_type_length_value_errno data len out)"

definition decode_vendor_defined_descriptor_value_errno ::
    "object option \<Rightarrow> nat \<Rightarrow> (u8 \<times> variable_field \<times> variable_field) option \<Rightarrow>
      (int \<times> (u8 \<times> variable_field \<times> variable_field) option) option" where
  "decode_vendor_defined_descriptor_value_errno data len out =
     if_set (- EINVAL) data out (\<lambda>d v.
       if len < 3 then Some (- EOVERFLOW, v)
       else do {
         ty \<leftarrow> load_word d (fst d);
         n \<leftarrow> load_word d (fst d + 1);
         if \<not> is_string_type_valid ty \<or> n = 0 then Some (- EBADMSG, v)
         else if len < 3 + unat (n :: u8) then Some (- EOVERFLOW, v)
         else Some (0, ty, \<lparr>vf_ptr = Some 2, vf_length = unat n\<rparr>, \<lparr>vf_ptr = Some (2 + unat n), vf_length = len - 1 - 1 - unat n\<rparr>) })"

definition decode_vendor_defined_descriptor_value ::
    "object option \<Rightarrow> nat \<Rightarrow> (u8 \<times> variable_field \<times> variable_field) option \<Rightarrow>
      (int \<times> (u8 \<times> variable_field \<times> variable_field) option) option" where
  "decode_vendor_defined_descriptor_value data len out = xlated (decode_vendor_defined_descriptor_value_errno data len out)"

section \<open>Component images, by the older interface\<close>

abbreviation (input) PLDM_FWUP_INVALID_COMPONENT_COMPARISON_TIMESTAMP :: u32 where
  "PLDM_FWUP_INVALID_COMPONENT_COMPARISON_TIMESTAMP \<equiv> 0xffffffff"

record pldm_component_image_information =
  im_classification :: u16
  im_identifier :: u16
  im_comparison_stamp :: u32
  im_options :: u16
  im_activation_method :: u16
  im_location_offset :: u32
  im_size :: u32
  im_version_string_type :: u8
  im_version_string_length :: u8

definition load_component_image_information :: "object \<Rightarrow> pldm_component_image_information option" where
  "load_component_image_information d = do {
     c \<leftarrow> load_word d (fst d);
     i \<leftarrow> load_word d (fst d + 2);
     s \<leftarrow> load_word d (fst d + 4);
     opts \<leftarrow> load_word d (fst d + 8);
     a \<leftarrow> load_word d (fst d + 10);
     l \<leftarrow> load_word d (fst d + 12);
     n \<leftarrow> load_word d (fst d + 16);
     t \<leftarrow> load_word d (fst d + 20);
     k \<leftarrow> load_word d (fst d + 21);
     Some \<lparr>im_classification = c, im_identifier = i, im_comparison_stamp = s, im_options = opts, im_activation_method = a,
       im_location_offset = l, im_size = n, im_version_string_type = t, im_version_string_length = k\<rparr> }"

definition decode_pldm_comp_image_info_errno ::
    "object option \<Rightarrow> nat \<Rightarrow> (pldm_component_image_information \<times> variable_field) option \<Rightarrow>
      (int \<times> (pldm_component_image_information \<times> variable_field) option) option" where
  "decode_pldm_comp_image_info_errno data len out =
     if_set (- EINVAL) data out (\<lambda>d (info, str).
       if len < 22 then Some (- EOVERFLOW, info, str)
       else do {
         h \<leftarrow> load_component_image_information d;
         if \<not> is_string_type_valid (im_version_string_type h) \<or> im_version_string_length h = 0 then Some (- EBADMSG, info, str)
         else if len < 22 + unat (im_version_string_length h) then Some (- EOVERFLOW, info, str)
         else if im_options h AND 2 = 0 \<and> im_comparison_stamp h \<noteq> PLDM_FWUP_INVALID_COMPONENT_COMPARISON_TIMESTAMP
         then Some (- EBADMSG, h, str)
         else if im_location_offset h = 0 \<or> im_size h = 0 then Some (- EBADMSG, h, str)
         else Some (0, h, \<lparr>vf_ptr = Some 22, vf_length = unat (im_version_string_length h)\<rparr>) })"

definition decode_pldm_comp_image_info ::
    "object option \<Rightarrow> nat \<Rightarrow> (pldm_component_image_information \<times> variable_field) option \<Rightarrow>
      (int \<times> (pldm_component_image_information \<times> variable_field) option) option" where
  "decode_pldm_comp_image_info data len out = xlated (decode_pldm_comp_image_info_errno data len out)"

section \<open>Iterating over a package\<close>

text \<open>The assertions on the revisions, shared by the three functions that start an iteration.\<close>

definition revisions_ok :: "pldm_package_format_pin \<Rightarrow> package_header_information \<Rightarrow> bool" where
  "revisions_ok pin hdr \<longleftrightarrow> 1 \<le> pin_revision pin \<and> pin_revision pin \<le> 4 \<and>
     1 \<le> ph_format_revision hdr \<and> ph_format_revision hdr \<le> pin_revision pin"

definition with_pin ::
    "pldm_package option \<Rightarrow> (pldm_package_format_pin \<Rightarrow> package_header_information \<Rightarrow> pldm_package \<Rightarrow> (int \<times> pldm_package) option) \<Rightarrow>
      (int \<times> pldm_package option) option" where
  "with_pin pkg f =
     if_msg (- EINVAL) pkg (\<lambda>k.
       case (pk_pin k, pk_hdr k) of
         (Some pin, Some hdr) \<Rightarrow> if revisions_ok pin hdr then f pin hdr k else None
       | _ \<Rightarrow> Some (- EINVAL, k))"

text \<open>The count in front of the records, of 8 bits.\<close>

definition record_count_steps :: "nat \<Rightarrow> pldm_package_iter step list" where
  "record_count_steps p =
     [get_if (\<lambda>n :: u8. pki_entries_update (\<lambda>_. unat n)),
      rest_into pki_field_update p]"

definition component_count_steps :: "nat \<Rightarrow> pldm_package_iter step list" where
  "component_count_steps p =
     [get_or as_errno (\<lambda>n :: u16 \<Rightarrow> u16. pki_entries_update (\<lambda>_. unat (n 0))),
      rest_into pki_field_update p]"

definition read_count :: "(nat \<Rightarrow> pldm_package_iter step list) \<Rightarrow> object \<Rightarrow> nat \<Rightarrow> pldm_package \<Rightarrow> (int \<times> pldm_package) option" where
  "read_count ss obj p k =
     map_option (\<lambda>(rc, iter). (rc, k\<lparr>pk_iter := iter\<rparr>))
       (decode_bytes as_errno 1 (ss p) pldm_msgbuf_complete (vf_length (pki_field (pk_iter k))) (behind_offset obj p) (pk_iter k))"

definition pldm_package_firmware_device_id_record_iter_init ::
    "object \<Rightarrow> pldm_package option \<Rightarrow> (int \<times> pldm_package option) option" where
  "pldm_package_firmware_device_id_record_iter_init obj pkg =
     with_pin pkg (\<lambda>pin hdr k.
       if pk_state k \<noteq> PLDM_PACKAGE_PARSE_HEADER then Some (- EPROTO, k)
       else case vf_ptr (pk_areas k) of
         None \<Rightarrow> Some (- EINVAL, k)
       | Some p \<Rightarrow> read_count record_count_steps obj p
           (k\<lparr>pk_state := PLDM_PACKAGE_PARSE_FIRMWARE_DEVICES, pk_iter := (pk_iter k)\<lparr>pki_field := pk_areas k\<rparr>\<rparr>))"

definition decode_pldm_package_firmware_device_id_record_from_iter ::
    "object \<Rightarrow> pldm_package option \<Rightarrow> pldm_package_firmware_device_id_record option \<Rightarrow>
      (int \<times> pldm_package option \<times> pldm_package_firmware_device_id_record option) option" where
  "decode_pldm_package_firmware_device_id_record_from_iter obj pkg rec =
     (case pkg of
        None \<Rightarrow> Some (- EINVAL, pkg, rec)
      | Some k \<Rightarrow>
          if pk_state k \<noteq> PLDM_PACKAGE_PARSE_FIRMWARE_DEVICES then Some (- EPROTO, pkg, rec)
          else do {
            (rc, field, rec) \<leftarrow> decode_pldm_package_firmware_device_id_record_errno obj (pk_hdr k) (pki_field (pk_iter k)) rec;
            Some (rc, Some (k\<lparr>pk_iter := (pk_iter k)\<lparr>pki_field := field\<rparr>\<rparr>), rec) })"

definition pldm_package_downstream_device_id_record_iter_init ::
    "object \<Rightarrow> pldm_package option \<Rightarrow> (int \<times> pldm_package option) option" where
  "pldm_package_downstream_device_id_record_iter_init obj pkg =
     with_pin pkg (\<lambda>pin hdr k.
       if pk_state k \<noteq> PLDM_PACKAGE_PARSE_FIRMWARE_DEVICES then Some (- EPROTO, k)
       else if pin_revision pin = PLDM_PACKAGE_HEADER_FORMAT_REVISION_FR01H then Some (- EPROTO, k)
       else case vf_ptr (pki_field (pk_iter k)) of
         None \<Rightarrow> Some (- EINVAL, k)
       | Some p \<Rightarrow>
           let k = k\<lparr>pk_state := PLDM_PACKAGE_PARSE_DOWNSTREAM_DEVICES\<rparr> in
           if ph_format_revision hdr = PLDM_PACKAGE_HEADER_FORMAT_REVISION_FR01H
           then Some (0, k\<lparr>pk_iter := (pk_iter k)\<lparr>pki_entries := 0\<rparr>\<rparr>)
           else read_count record_count_steps obj p k)"

definition downstream_device_id_record_steps ::
    "package_header_information \<Rightarrow> nat \<Rightarrow> pldm_package_downstream_device_id_record step list" where
  "downstream_device_id_record_steps hdr p =
     [get (\<lambda>(_ :: u16 \<Rightarrow> u16) v. v),
      get dr_descriptor_count_update,
      get_or as_errno dr_update_option_flags_update,
      get_or as_errno dr_min_version_string_type_update,
      refuse (\<lambda>v. \<not> is_string_type_valid (dr_min_version_string_type v)) (- EPROTO),
      get_size8 dr_min_version_string_update,
      get_size16 dr_package_data_update,
      if ph_format_revision hdr \<ge> PLDM_PACKAGE_HEADER_FORMAT_REVISION_FR04H
      then get_if (\<lambda>n :: u32. dr_reference_manifest_update (vf_length_update (\<lambda>_. unat n)))
      else set_length dr_reference_manifest_update 0,
      object_has (\<lambda>_. ph_bitmap_bit_length hdr AND 7 = 0),
      span_or as_errno (\<lambda>_. bitmap_length hdr) (points_to dr_applicable_components_update p),
      set_length dr_applicable_components_update (bitmap_length hdr),
      span_field dr_min_version_string dr_min_version_string_update p,
      only (\<lambda>v. dr_update_option_flags v AND 1 \<noteq> 0) [get dr_min_version_stamp_update],
      assign (\<lambda>v. if dr_update_option_flags v AND 1 \<noteq> 0 then v else v\<lparr>dr_min_version_stamp := 0\<rparr>),
      until_into (\<lambda>v. vf_length (dr_package_data v) + vf_length (dr_reference_manifest v)) dr_record_descriptors_update p,
      span_field dr_package_data dr_package_data_update p,
      if ph_format_revision hdr \<ge> PLDM_PACKAGE_HEADER_FORMAT_REVISION_FR04H
      then span_field dr_reference_manifest dr_reference_manifest_update p
      else assign (dr_reference_manifest_update (vf_ptr_update (\<lambda>_. None)))]"

definition decode_pldm_package_downstream_device_id_record_from_iter ::
    "object \<Rightarrow> pldm_package option \<Rightarrow> pldm_package_downstream_device_id_record option \<Rightarrow>
      (int \<times> pldm_package option \<times> pldm_package_downstream_device_id_record option) option" where
  "decode_pldm_package_downstream_device_id_record_from_iter obj pkg rec =
     (case (pkg, rec, pkg \<bind> pk_hdr) of
        (Some k, Some r, Some hdr) \<Rightarrow>
          if pk_state k \<noteq> PLDM_PACKAGE_PARSE_DOWNSTREAM_DEVICES then Some (- EPROTO, pkg, rec)
          else if \<not> ph_format_revision hdr > PLDM_PACKAGE_HEADER_FORMAT_REVISION_FR01H then None
          else (case vf_ptr (pki_field (pk_iter k)) of
            None \<Rightarrow> Some (- EINVAL, pkg, rec)
          | Some p \<Rightarrow> do {
              (rc, field, r) \<leftarrow> decode_dynamic PLDM_FWUP_DOWNSTREAM_DEVICE_ID_RECORD_MIN_SIZE (downstream_device_id_record_steps hdr)
                obj (pki_field (pk_iter k)) p r;
              Some (rc, Some (k\<lparr>pk_iter := (pk_iter k)\<lparr>pki_field := field\<rparr>\<rparr>), Some r) })
      | _ \<Rightarrow> Some (- EINVAL, pkg, rec))"

definition pldm_package_component_image_information_iter_init ::
    "object \<Rightarrow> pldm_package option \<Rightarrow> (int \<times> pldm_package option) option" where
  "pldm_package_component_image_information_iter_init obj pkg =
     with_pin pkg (\<lambda>pin hdr k.
       let go = (case vf_ptr (pki_field (pk_iter k)) of
           None \<Rightarrow> Some (- EINVAL, k)
         | Some p \<Rightarrow> read_count component_count_steps obj p (k\<lparr>pk_state := PLDM_PACKAGE_PARSE_COMPONENT_IMAGE_INFORMATION\<rparr>)) in
       if pk_state k = PLDM_PACKAGE_PARSE_FIRMWARE_DEVICES then
         if pin_revision pin \<noteq> PLDM_PACKAGE_HEADER_FORMAT_REVISION_FR01H \<or> ph_format_revision hdr \<noteq> pin_revision pin
         then Some (- EPROTO, k) else go
       else if pk_state k = PLDM_PACKAGE_PARSE_DOWNSTREAM_DEVICES then
         if pin_revision pin \<noteq> PLDM_PACKAGE_HEADER_FORMAT_REVISION_FR01H then go else None
       else Some (- EPROTO, k))"

record component_parse =
  cp_info :: pldm_package_component_image_information
  cp_field :: variable_field
  cp_location_offset :: u32
  cp_size :: u32

definition component_image_information_steps :: "package_header_information \<Rightarrow> nat \<Rightarrow> component_parse step list" where
  "component_image_information_steps hdr p =
     [get (cp_info_update \<circ> ci_classification_update),
      get (cp_info_update \<circ> ci_identifier_update),
      get (cp_info_update \<circ> ci_comparison_stamp_update),
      get (cp_info_update \<circ> ci_options_update),
      get (cp_info_update \<circ> ci_activation_method_update),
      get cp_location_offset_update,
      get cp_size_update,
      get_or as_errno (cp_info_update \<circ> ci_version_string_type_update),
      refuse (\<lambda>v. \<not> is_string_type_valid (ci_version_string_type (cp_info v))) (- EPROTO),
      get_size8 (cp_info_update \<circ> ci_version_string_update),
      span_field (ci_version_string \<circ> cp_info) (cp_info_update \<circ> ci_version_string_update) p,
      only (\<lambda>_. ph_format_revision hdr \<ge> PLDM_PACKAGE_HEADER_FORMAT_REVISION_FR03H)
        [get_size32 (cp_info_update \<circ> ci_opaque_data_update),
         span_field (ci_opaque_data \<circ> cp_info) (cp_info_update \<circ> ci_opaque_data_update) p],
      only (\<lambda>_. \<not> ph_format_revision hdr \<ge> PLDM_PACKAGE_HEADER_FORMAT_REVISION_FR03H)
        [set_length (cp_info_update \<circ> ci_opaque_data_update) 0],
      assign (\<lambda>v. if vf_length (ci_opaque_data (cp_info v)) = 0
         then cp_info_update (ci_opaque_data_update (vf_ptr_update (\<lambda>_. None))) v else v),
      rest_into cp_field_update p]"

text \<open>The image lies anywhere in the package.\<close>

definition component_image_steps :: "component_parse \<Rightarrow> pldm_package_component_image_information step list" where
  "component_image_steps v =
     [skip_field (\<lambda>_. unat (cp_location_offset v)),
      span (\<lambda>_. unat (cp_size v)) (points_to ci_image_update 0)]"

definition resolve_component_image ::
    "object \<Rightarrow> variable_field \<Rightarrow> component_parse \<Rightarrow> (int \<times> pldm_package_component_image_information) option" where
  "resolve_component_image obj package v =
     (if ci_classification (cp_info v) > 0xd \<and> ci_classification (cp_info v) < 0x8000 then Some (- EPROTO, cp_info v)
      else do {
        p \<leftarrow> vf_ptr package;
        (rc, info) \<leftarrow> decode_bytes as_errno 0 (component_image_steps v) pldm_msgbuf_complete (vf_length package) (behind_offset obj p) (cp_info v);
        if rc \<noteq> 0 then Some (rc, info)
        else Some (0, ci_image_update (vf_length_update (\<lambda>_. unat (cp_size v))) info) })"

definition decode_pldm_package_component_image_information_from_iter ::
    "object \<Rightarrow> pldm_package option \<Rightarrow> pldm_package_component_image_information option \<Rightarrow>
      (int \<times> pldm_package option \<times> pldm_package_component_image_information option) option" where
  "decode_pldm_package_component_image_information_from_iter obj pkg info =
     (case (pkg, info) of
        (Some k, Some i) \<Rightarrow>
          let field = pki_field (pk_iter k) in
          if pk_state k \<noteq> PLDM_PACKAGE_PARSE_COMPONENT_IMAGE_INFORMATION then Some (- EPROTO, pkg, info)
          else (case vf_ptr field of
            None \<Rightarrow> Some (- EINVAL, pkg, info)
          | Some p \<Rightarrow> do {
              hdr \<leftarrow> pk_hdr k;
              (rc, v) \<leftarrow> decode_bytes as_errno PLDM_FWUP_COMPONENT_IMAGE_INFORMATION_MIN_SIZE (component_image_information_steps hdr p)
                pldm_msgbuf_complete_consumed (vf_length field) (behind_offset obj p)
                \<lparr>cp_info = i, cp_field = field, cp_location_offset = 0, cp_size = 0\<rparr>;
              let k = k\<lparr>pk_iter := (pk_iter k)\<lparr>pki_field := cp_field v\<rparr>\<rparr>;
              if rc \<noteq> 0 then Some (rc, Some k, Some (cp_info v))
              else do {
                (rc, i) \<leftarrow> resolve_component_image obj (pk_package k) v;
                Some (rc, Some k, Some i) } })
      | _ \<Rightarrow> Some (- EINVAL, pkg, info))"

section \<open>The iterators and the loops over them\<close>

text \<open>\<open>_iter_end\<close> and \<open>_iter_next\<close>, undefined where an assertion does not hold.\<close>

definition pldm_package_firmware_device_id_record_iter_end :: "pldm_package \<Rightarrow> bool option" where
  "pldm_package_firmware_device_id_record_iter_end k =
     (if pk_state k = PLDM_PACKAGE_PARSE_FIRMWARE_DEVICES then Some (pki_entries (pk_iter k) = 0) else None)"

definition pldm_package_firmware_device_id_record_iter_next :: "pldm_package \<Rightarrow> (bool \<times> pldm_package) option" where
  "pldm_package_firmware_device_id_record_iter_next k =
     (if pk_state k \<noteq> PLDM_PACKAGE_PARSE_FIRMWARE_DEVICES then None
      else if pki_entries (pk_iter k) = 0 then Some (False, k)
      else Some (True, k\<lparr>pk_iter := (pk_iter k)\<lparr>pki_entries := pki_entries (pk_iter k) - 1\<rparr>\<rparr>))"

definition pldm_package_downstream_device_id_record_iter_end :: "pldm_package \<Rightarrow> bool option" where
  "pldm_package_downstream_device_id_record_iter_end k =
     (if pk_state k = PLDM_PACKAGE_PARSE_DOWNSTREAM_DEVICES then Some (pki_entries (pk_iter k) = 0) else None)"

definition pldm_package_downstream_device_id_record_iter_next :: "pldm_package \<Rightarrow> (bool \<times> pldm_package) option" where
  "pldm_package_downstream_device_id_record_iter_next k =
     (if pk_state k \<noteq> PLDM_PACKAGE_PARSE_DOWNSTREAM_DEVICES then None
      else if pki_entries (pk_iter k) = 0 then Some (False, k)
      else Some (True, k\<lparr>pk_iter := (pk_iter k)\<lparr>pki_entries := pki_entries (pk_iter k) - 1\<rparr>\<rparr>))"

definition pldm_package_component_image_information_iter_end :: "pldm_package \<Rightarrow> bool option" where
  "pldm_package_component_image_information_iter_end k =
     (if pk_state k = PLDM_PACKAGE_PARSE_COMPLETE \<and> pki_entries (pk_iter k) = 0 \<or>
        pk_state k = PLDM_PACKAGE_PARSE_COMPONENT_IMAGE_INFORMATION
      then Some (pk_state k = PLDM_PACKAGE_PARSE_COMPLETE) else None)"

definition pldm_package_component_image_information_iter_next :: "pldm_package \<Rightarrow> (bool \<times> pldm_package) option" where
  "pldm_package_component_image_information_iter_next k =
     (if pk_state k = PLDM_PACKAGE_PARSE_COMPLETE then Some (False, k)
      else if pk_state k \<noteq> PLDM_PACKAGE_PARSE_COMPONENT_IMAGE_INFORMATION then None
      else
        let k = k\<lparr>pk_iter := (pk_iter k)\<lparr>pki_entries := usub (pki_entries (pk_iter k)) 1\<rparr>\<rparr> in
        if pki_entries (pk_iter k) = 0 then Some (False, k\<lparr>pk_state := PLDM_PACKAGE_PARSE_COMPLETE\<rparr>) else Some (True, k))"

definition pldm_package_firmware_device_id_record_descriptor_iter_init ::
    "pldm_package \<Rightarrow> pldm_package_firmware_device_id_record \<Rightarrow> pldm_descriptor_iter option" where
  "pldm_package_firmware_device_id_record_descriptor_iter_init k rec =
     (if pk_state k = PLDM_PACKAGE_PARSE_FIRMWARE_DEVICES
      then Some \<lparr>di_field = fr_record_descriptors rec, di_count = unat (fr_descriptor_count rec)\<rparr> else None)"

definition pldm_package_downstream_device_id_record_descriptor_iter_init ::
    "pldm_package \<Rightarrow> pldm_package_downstream_device_id_record \<Rightarrow> pldm_descriptor_iter" where
  "pldm_package_downstream_device_id_record_descriptor_iter_init k rec =
     \<lparr>di_field = dr_record_descriptors rec, di_count = unat (dr_descriptor_count rec)\<rparr>"

definition pldm_descriptor_iter_end :: "pldm_descriptor_iter \<Rightarrow> bool" where
  "pldm_descriptor_iter_end iter \<longleftrightarrow> di_count iter = 0"

definition pldm_descriptor_iter_next :: "pldm_descriptor_iter \<Rightarrow> bool \<times> pldm_descriptor_iter" where
  "pldm_descriptor_iter_next iter =
     (if di_count iter = 0 then (False, iter) else (True, iter\<lparr>di_count := di_count iter - 1\<rparr>))"

text \<open>
  The loop that the \<open>foreach\<close> macros make of them. The body is the caller's: it sees the package and the record (which it may
  change, as a nested loop over the descriptors does), and what it makes of each round is collected. It may also leave an error in the
  variable \<open>rc\<close>, which a nested loop shares with the outer one: then the iterator is advanced, and the loop ends with that error.
\<close>

partial_function (option) foreach_loop ::
    "('k \<Rightarrow> bool option) \<Rightarrow> ('k \<Rightarrow> 'r \<Rightarrow> (int \<times> 'k \<times> 'r) option) \<Rightarrow> ('k \<Rightarrow> (bool \<times> 'k) option) \<Rightarrow>
      ('k \<Rightarrow> 'r \<Rightarrow> (int \<times> 'r \<times> 'b) option) \<Rightarrow> 'k \<Rightarrow> 'r \<Rightarrow> (int \<times> 'k \<times> 'r \<times> 'b list) option" where
  [code]: "foreach_loop iter_end from_iter iter_next body k r = do {
     e \<leftarrow> iter_end k;
     if e then Some (0, k, r, [])
     else do {
       (rc, k, r) \<leftarrow> from_iter k r;
       if rc \<noteq> 0 then Some (rc, k, r, [])
       else do {
         (rc, r, x) \<leftarrow> body k r;
         (_, k) \<leftarrow> iter_next k;
         if rc \<noteq> 0 then Some (rc, k, r, [x])
         else do {
           (rc, k, r, xs) \<leftarrow> foreach_loop iter_end from_iter iter_next body k r;
           Some (rc, k, r, x # xs) } } } }"

text \<open>The macros pass \<open>&(pkg)\<close> and \<open>&(rec)\<close>.\<close>

definition on_lvalues ::
    "(pldm_package option \<Rightarrow> 'r option \<Rightarrow> (int \<times> pldm_package option \<times> 'r option) option) \<Rightarrow> pldm_package \<Rightarrow> 'r \<Rightarrow>
      (int \<times> pldm_package \<times> 'r) option" where
  "on_lvalues from_iter k r = do { (rc, k, r) \<leftarrow> from_iter (Some k) (Some r); k \<leftarrow> k; r \<leftarrow> r; Some (rc, k, r) }"

definition package_loop ::
    "(pldm_package option \<Rightarrow> (int \<times> pldm_package option) option) \<Rightarrow> (pldm_package \<Rightarrow> bool option) \<Rightarrow>
      (pldm_package option \<Rightarrow> 'r option \<Rightarrow> (int \<times> pldm_package option \<times> 'r option) option) \<Rightarrow>
      (pldm_package \<Rightarrow> (bool \<times> pldm_package) option) \<Rightarrow> (pldm_package \<Rightarrow> 'r \<Rightarrow> (int \<times> 'r \<times> 'b) option) \<Rightarrow> pldm_package \<Rightarrow> 'r \<Rightarrow>
      (int \<times> pldm_package \<times> 'r \<times> 'b list) option" where
  "package_loop iter_init iter_end from_iter iter_next body k r = do {
     (rc, k) \<leftarrow> iter_init (Some k);
     k \<leftarrow> k;
     if rc \<noteq> 0 then Some (rc, k, r, [])
     else foreach_loop iter_end (on_lvalues from_iter) iter_next body k r }"

definition foreach_pldm_package_firmware_device_id_record ::
    "object \<Rightarrow> (pldm_package \<Rightarrow> pldm_package_firmware_device_id_record \<Rightarrow> (int \<times> pldm_package_firmware_device_id_record \<times> 'b) option) \<Rightarrow>
      pldm_package \<Rightarrow> pldm_package_firmware_device_id_record \<Rightarrow>
      (int \<times> pldm_package \<times> pldm_package_firmware_device_id_record \<times> 'b list) option" where
  "foreach_pldm_package_firmware_device_id_record obj body k r =
     package_loop (pldm_package_firmware_device_id_record_iter_init obj) pldm_package_firmware_device_id_record_iter_end
       (decode_pldm_package_firmware_device_id_record_from_iter obj) pldm_package_firmware_device_id_record_iter_next body k r"

definition foreach_pldm_package_downstream_device_id_record ::
    "object \<Rightarrow> (pldm_package \<Rightarrow> pldm_package_downstream_device_id_record \<Rightarrow> (int \<times> pldm_package_downstream_device_id_record \<times> 'b) option) \<Rightarrow>
      pldm_package \<Rightarrow> pldm_package_downstream_device_id_record \<Rightarrow>
      (int \<times> pldm_package \<times> pldm_package_downstream_device_id_record \<times> 'b list) option" where
  "foreach_pldm_package_downstream_device_id_record obj body k r =
     package_loop (pldm_package_downstream_device_id_record_iter_init obj) pldm_package_downstream_device_id_record_iter_end
       (decode_pldm_package_downstream_device_id_record_from_iter obj) pldm_package_downstream_device_id_record_iter_next body k r"

definition foreach_pldm_package_component_image_information ::
    "object \<Rightarrow> (pldm_package \<Rightarrow> pldm_package_component_image_information \<Rightarrow> (int \<times> pldm_package_component_image_information \<times> 'b) option) \<Rightarrow>
      pldm_package \<Rightarrow> pldm_package_component_image_information \<Rightarrow>
      (int \<times> pldm_package \<times> pldm_package_component_image_information \<times> 'b list) option" where
  "foreach_pldm_package_component_image_information obj body k r =
     package_loop (pldm_package_component_image_information_iter_init obj) pldm_package_component_image_information_iter_end
       (decode_pldm_package_component_image_information_from_iter obj) pldm_package_component_image_information_iter_next body k r"

text \<open>The descriptors of a record: what the loop collects and the field that is left.\<close>

definition descriptor_on_lvalues ::
    "object \<Rightarrow> pldm_descriptor_iter \<Rightarrow> package_descriptor \<Rightarrow> (int \<times> pldm_descriptor_iter \<times> package_descriptor) option" where
  "descriptor_on_lvalues obj iter desc = do {
     (rc, out) \<leftarrow> decode_pldm_descriptor_from_iter obj (Some (iter, desc));
     (iter, desc) \<leftarrow> out;
     Some (rc, iter, desc) }"

definition descriptor_loop ::
    "object \<Rightarrow> pldm_descriptor_iter \<Rightarrow> package_descriptor \<Rightarrow> (int \<times> pldm_descriptor_iter \<times> package_descriptor \<times> package_descriptor list) option" where
  "descriptor_loop obj iter desc =
     foreach_loop (Some \<circ> pldm_descriptor_iter_end) (descriptor_on_lvalues obj) (Some \<circ> pldm_descriptor_iter_next)
       (\<lambda>_ desc. Some (0, desc, desc)) iter desc"

definition foreach_pldm_package_firmware_device_id_record_descriptor ::
    "object \<Rightarrow> pldm_package \<Rightarrow> pldm_package_firmware_device_id_record \<Rightarrow> package_descriptor \<Rightarrow>
      (int \<times> pldm_package_firmware_device_id_record \<times> package_descriptor list) option" where
  "foreach_pldm_package_firmware_device_id_record_descriptor obj k rec desc = do {
     iter \<leftarrow> pldm_package_firmware_device_id_record_descriptor_iter_init k rec;
     (rc, iter, _, ds) \<leftarrow> descriptor_loop obj iter desc;
     Some (rc, rec\<lparr>fr_record_descriptors := di_field iter\<rparr>, ds) }"

definition foreach_pldm_package_downstream_device_id_record_descriptor ::
    "object \<Rightarrow> pldm_package \<Rightarrow> pldm_package_downstream_device_id_record \<Rightarrow> package_descriptor \<Rightarrow>
      (int \<times> pldm_package_downstream_device_id_record \<times> package_descriptor list) option" where
  "foreach_pldm_package_downstream_device_id_record_descriptor obj k rec desc = do {
     (rc, iter, _, ds) \<leftarrow> descriptor_loop obj (pldm_package_downstream_device_id_record_descriptor_iter_init k rec) desc;
     Some (rc, rec\<lparr>dr_record_descriptors := di_field iter\<rparr>, ds) }"

end
