(* ===== verification/Step_Triples.thy ===== *)
theory Step_Triples
  imports Msgbuf_Steps
begin

text \<open>
  What a decoder that reports success has read, for any input. A triple \<open>{P} s {Q}\<close> about a step relates the caller's objects
  and the position in the buffer: when the msgbuf is in order at position \<open>c\<close> and \<open>P v c\<close> holds, the step goes on with
  \<open>Q\<close>, or with a msgbuf that has overflowed, or it returns an error. An overflow is never forgotten, so a decoder that
  completes its msgbuf with success has gone through the whole sequence, and the last \<open>Q\<close> holds.
\<close>

named_theorems step_triples

definition on :: "u8 list \<Rightarrow> nat \<Rightarrow> nat \<Rightarrow> msgbuf \<Rightarrow> bool" where
  "on m len c b \<longleftrightarrow> (\<exists>a. b = live_mb a m c (int len - int c)) \<and> c \<le> len \<and> len \<le> length m \<and> int len \<le> INTMAX_MAX"

definition lost :: "msgbuf \<Rightarrow> bool" where
  "lost b \<longleftrightarrow> mb_ok b \<and> mb_remaining b < 0"

definition ends :: "u8 list \<Rightarrow> nat \<Rightarrow> ('v \<Rightarrow> nat \<Rightarrow> bool) \<Rightarrow> outcome \<times> 'v \<times> msgbuf \<Rightarrow> bool" where
  "ends m len Q res \<longleftrightarrow>
     (case res of
        (Go, v, b) \<Rightarrow> lost b \<or> (\<exists>c. on m len c b \<and> Q v c)
      | (Return r, _, b) \<Rightarrow> mb_done b \<and> r \<noteq> None \<and> r \<noteq> Some 0)"

definition triple :: "u8 list \<Rightarrow> nat \<Rightarrow> ('v \<Rightarrow> nat \<Rightarrow> bool) \<Rightarrow> 'v step \<Rightarrow> ('v \<Rightarrow> nat \<Rightarrow> bool) \<Rightarrow> bool" where
  "triple m len P s Q \<longleftrightarrow>
     (\<forall>v b. lost b \<longrightarrow> ends m len (\<lambda>_ _. False) (s v b)) \<and>
     (\<forall>v b c. on m len c b \<longrightarrow> P v c \<longrightarrow> ends m len Q (s v b))"

lemma tripleI:
  assumes "\<And>v b. lost b \<Longrightarrow> ends m len (\<lambda>_ _. False) (s v b)" "\<And>v b c. on m len c b \<Longrightarrow> P v c \<Longrightarrow> ends m len Q (s v b)"
  shows "triple m len P s Q"
  using assms by (simp add: triple_def)

lemma on_ok: "on m len c b \<Longrightarrow> mb_ok b"
  by (auto simp: on_def mb_ok_def mb_simps)

lemma on_facts: "on m len c b \<Longrightarrow> c \<le> len \<and> len \<le> length m \<and> mb_remaining b = int len - int c \<and> mb_remaining b \<le> INTMAX_MAX"
  by (auto simp: on_def mb_simps)

lemma on_advance: "on m len c (live_mb a m c (int len - int c)) \<Longrightarrow> c + n \<le> len \<Longrightarrow>
    on m len (c + n) (live_mb a m (c + n) (int len - int c - int n))"
  unfolding on_def by (intro conjI exI [of _ a]) (simp_all add: diff_diff_eq)

lemma ends_weaken: "ends m len Q res \<Longrightarrow> (\<And>v c. Q v c \<Longrightarrow> R v c) \<Longrightarrow> ends m len R res"
  by (cases res) (auto simp: ends_def split: outcome.splits)

lemma triple_pre: "triple m len P s Q \<Longrightarrow> (\<And>v c. c \<le> len \<Longrightarrow> P' v c \<Longrightarrow> P v c) \<Longrightarrow> triple m len P' s Q"
  using on_facts by (fastforce simp: triple_def)

lemma triple_Nil: "triple m len Q (steps []) Q"
  by (auto simp: triple_def ends_def)

lemma ends_then:
  assumes "ends m len Q (s v b)" "\<And>v b. lost b \<Longrightarrow> ends m len (\<lambda>_ _. False) (steps ss v b)"
    and "\<And>v b c. on m len c b \<Longrightarrow> Q v c \<Longrightarrow> ends m len R (steps ss v b)"
  shows "ends m len R (steps (s # ss) v b)"
proof -
  obtain r v' b' where s: "s v b = (r, v', b')" by (metis surj_pair)
  show ?thesis
  proof (cases r)
    case Go
    with assms(1) s consider "lost b'" | c' where "on m len c' b'" "Q v' c'" by (auto simp: ends_def)
    then show ?thesis
    proof cases
      case 1
      then have "ends m len R (steps ss v' b')" by (rule ends_weaken [OF assms(2)]) simp
      then show ?thesis using s Go by simp
    next
      case 2
      then show ?thesis using s Go assms(3) by simp
    qed
  qed (use assms(1) s in \<open>simp add: ends_def\<close>)
qed

lemma triple_Cons:
  assumes "triple m len P s Q" "triple m len Q (steps ss) R"
  shows "triple m len P (steps (s # ss)) R"
proof (rule tripleI)
  fix v b
  show "ends m len (\<lambda>_ _. False) (steps (s # ss) v b)" if "lost b"
    using assms that by (intro ends_then [where Q = "\<lambda>_ _. False"]) (simp_all add: triple_def)
  show "ends m len R (steps (s # ss) v b)" if "on m len c b" "P v c" for c
    using assms that by (intro ends_then [where Q = Q]) (auto simp: triple_def)
qed

text \<open>The sequence first, so that what it needs is known when the rule of a step is used.\<close>

lemmas triple_steps = triple_Cons [rotated]

text \<open>An assertion in the middle of a sequence.\<close>

lemma triple_mid:
  assumes "triple m len P (steps (take k ss)) R" "triple m len R (steps (drop k ss)) Q"
  shows "triple m len P (steps ss) Q"
proof -
  have "triple m len P (steps [steps (take k ss), steps (drop k ss)]) Q"
    by (rule triple_Cons [OF assms(1)], rule triple_Cons [OF assms(2)], rule triple_Nil)
  moreover have "steps [steps (take k ss), steps (drop k ss)] = steps ss"
    by (intro ext) (simp only: steps_append [symmetric] append_take_drop_id)
  ultimately show ?thesis by simp
qed

section \<open>Rules for the steps\<close>

lemma triple_if [step_triples]:
  assumes "triple m len P1 s Q" "triple m len P2 t Q"
  shows "triple m len (\<lambda>v c. if b then P1 v c else P2 v c) (if b then s else t) Q"
  using assms by (cases b) simp_all

text \<open>The errors of a msgbuf are translated, and never to success.\<close>

definition tells :: "(int \<Rightarrow> int option) \<Rightarrow> bool" where
  "tells x \<longleftrightarrow> (\<forall>rc. msgbuf_errno rc \<longrightarrow> x rc \<noteq> None \<and> x rc \<noteq> Some 0)"

lemma tells_simps [simp]: "tells as_errno" "tells as_cc"
  by (auto simp: tells_def as_errno_def as_cc_def msgbuf_errno_def pldm_xlate_errno_def)

lemma ends_leave: "mb_ok b \<Longrightarrow> x rc \<noteq> None \<Longrightarrow> x rc \<noteq> Some 0 \<Longrightarrow> ends m len Q (leave x rc v b)"
  using discard_done [of b rc] by (simp add: ends_def leave_def split_beta) (simp add: pldm__msgbuf_discard_def)

lemma lost_ok: "lost b \<Longrightarrow> mb_ok b" by (simp add: lost_def)

text \<open>An operation that does not fit loses the msgbuf.\<close>

lemma extract_on:
  fixes d :: "'a::len word"
  assumes "on m len c b" "8 dvd LENGTH('a)" "n = LENGTH('a) div 8"
  obtains (fits) b' where "c + n \<le> len" "msgbuf_extract b d = (0, word_of_le (bytes_at m c n), b')" "on m len (c + n) b'"
  | (over) rc b' where "len < c + n" "msgbuf_extract b d = (rc, d, b')" "rc \<noteq> 0" "msgbuf_errno rc" "lost b'"
proof (cases "c + n \<le> len")
  case True
  obtain a where b: "b = live_mb a m c (int len - int c)" using assms(1) by (auto simp: on_def)
  have "c + n \<le> length m" using True on_facts [OF assms(1)] by linarith
  then have "msgbuf_extract b d = (0, word_of_le (bytes_at m c n), live_mb a m (c + n) (int len - int c - int n))"
    using msgbuf_extract_live [of "int len - int c" c m a d] assms(2,3) True unfolding b by simp
  then show thesis using fits True on_advance [of m len c a n] assms(1) unfolding b by blast
next
  case False
  obtain rc b' where e: "msgbuf_extract b d = (rc, d, b')" "rc \<noteq> 0"
    using False on_facts [OF assms(1)] assms(3)
    by (auto simp: msgbuf_extract_def Let_def mb_overflow_def pldm__msgbuf_set_invalid_def split_beta)
  then have "lost b'" "msgbuf_errno rc"
    using msgbuf_op.op_ok [OF msgbuf_op_extract, of b d] msgbuf_op.op_failed [OF msgbuf_op_extract, of b d]
      on_ok [OF assms(1)] extract_errno [of b d] by (auto simp: rc_of_def lost_def)
  then show thesis using over False e by auto
qed

lemma extract_lost:
  fixes d :: "'a::len word"
  assumes "lost b"
  shows "lost (snd (snd (msgbuf_extract b d)))"
  using msgbuf_op.op_ok [OF msgbuf_op_extract, of b d] msgbuf_op.op_sticky [OF msgbuf_op_extract, of b d] assms
  by (auto simp: rc_of_def lost_def)

lemma span_on:
  assumes "on m len c b"
  obtains (fits) b' where "c + n \<le> len" "pldm__msgbuf_span_required b n = (0, Some c, b')" "on m len (c + n) b'"
  | (over) rc b' where "len < c + n" "pldm__msgbuf_span_required b n = (rc, None, b')" "rc \<noteq> 0" "msgbuf_errno rc" "lost b'"
proof (cases "c + n \<le> len")
  case True
  obtain a where b: "b = live_mb a m c (int len - int c)" using assms by (auto simp: on_def)
  have "pldm__msgbuf_span_required b n = (0, Some c, live_mb a m (c + n) (int len - int c - int n))"
    using span_required_live [of n "int len - int c" c m a] True on_facts [OF assms] unfolding b by (simp add: mb_simps)
  then show thesis using fits True on_advance [of m len c a n] assms unfolding b by blast
next
  case False
  have "\<not> int n \<le> mb_remaining b" using False on_facts [OF assms] by linarith
  then have "pldm__msgbuf_span_required b n = (- EOVERFLOW, None, snd (snd (pldm__msgbuf_span_required b n)))"
    by (simp add: pldm__msgbuf_span_required_def mb_overflow_def pldm__msgbuf_set_invalid_def split_beta)
  then obtain rc b' where e: "pldm__msgbuf_span_required b n = (rc, None, b')" "rc \<noteq> 0" by simp
  then have "lost b'" "msgbuf_errno rc"
    using msgbuf_op.op_ok [OF msgbuf_op_span_required, of b n] msgbuf_op.op_failed [OF msgbuf_op_span_required, of b n]
      on_ok [OF assms] array_errno(3) [of b n] by (auto simp: rc_of_def lost_def)
  then show thesis using over False e by auto
qed

lemma span_lost: "lost b \<Longrightarrow> lost (snd (snd (pldm__msgbuf_span_required b n)))"
  using msgbuf_op.op_ok [OF msgbuf_op_span_required, of b n] msgbuf_op.op_sticky [OF msgbuf_op_span_required, of b n]
  by (auto simp: rc_of_def lost_def)

lemma triple_get [step_triples]:
  fixes upd :: "('a::len word \<Rightarrow> 'a word) \<Rightarrow> 'v \<Rightarrow> 'v"
  assumes "8 dvd LENGTH('a)" "n = LENGTH('a) div 8"
  shows "triple m len (\<lambda>v c. c + n \<le> len \<longrightarrow> Q (upd (\<lambda>_. word_of_le (bytes_at m c n)) v) (c + n)) (get upd) Q"
proof (rule tripleI)
  fix v b
  show "ends m len (\<lambda>_ _. False) (get upd v b)" if "lost b" using extract_lost [OF that] by (simp add: ends_def get_def)
  show "ends m len Q (get upd v b)" if at: "on m len c b" and P: "c + n \<le> len \<longrightarrow> Q (upd (\<lambda>_. word_of_le (bytes_at m c n)) v) (c + n)" for c
  proof (rule extract_on [OF at assms, of 0])
    fix b' assume fits: "c + n \<le> len" "msgbuf_extract b (0 :: 'a word) = (0, word_of_le (bytes_at m c n), b')" "on m len (c + n) b'"
    have "fst (snd (msgbuf_extract b d)) = fst (snd (msgbuf_extract b 0))" for d :: "'a word"
      using fits(1) on_facts [OF at] assms(2) by (simp add: msgbuf_extract_def Let_def)
    then show ?thesis using fits P by (auto simp: ends_def get_def)
  qed (simp add: ends_def get_def)
qed

lemma triple_get_if [step_triples]:
  fixes set_to :: "'a::len word \<Rightarrow> 'v \<Rightarrow> 'v"
  assumes "8 dvd LENGTH('a)" "n = LENGTH('a) div 8"
  shows "triple m len (\<lambda>v c. c + n \<le> len \<longrightarrow> Q (set_to (word_of_le (bytes_at m c n)) v) (c + n)) (get_if set_to) Q"
proof (rule tripleI)
  fix v b
  show "ends m len (\<lambda>_ _. False) (get_if set_to v b)" if "lost b"
    using extract_lost [OF that, of "0 :: 'a word"] by (simp add: ends_def get_if_def split_beta)
  show "ends m len Q (get_if set_to v b)" if "on m len c b" "c + n \<le> len \<longrightarrow> Q (set_to (word_of_le (bytes_at m c n)) v) (c + n)" for c
    using that(2) by (rule_tac extract_on [OF that(1) assms, of 0]) (auto simp: ends_def get_if_def)
qed

lemma triple_get_or [step_triples]:
  fixes upd :: "('a::len word \<Rightarrow> 'a word) \<Rightarrow> 'v \<Rightarrow> 'v"
  assumes "tells x" "8 dvd LENGTH('a)" "n = LENGTH('a) div 8"
  shows "triple m len (\<lambda>v c. c + n \<le> len \<longrightarrow> Q (upd (\<lambda>_. word_of_le (bytes_at m c n)) v) (c + n)) (get_or x upd) Q"
proof (rule tripleI)
  fix v b
  show "ends m len (\<lambda>_ _. False) (get_or x upd v b)" if lost: "lost b"
  proof -
    obtain rc d b' where e: "msgbuf_extract b (0 :: 'a word) = (rc, d, b')" by (metis surj_pair)
    then have "lost b'" using extract_lost [OF lost, of "0 :: 'a word"] by simp
    moreover have "rc \<noteq> 0 \<longrightarrow> msgbuf_errno rc" using extract_errno [of b "0 :: 'a word"] e by auto
    ultimately show ?thesis
      using assms(1) e ends_leave [of b' x rc m len _ v] by (auto simp: get_or_def tells_def ends_def lost_def)
  qed
  show "ends m len Q (get_or x upd v b)" if "on m len c b" "c + n \<le> len \<longrightarrow> Q (upd (\<lambda>_. word_of_le (bytes_at m c n)) v) (c + n)" for c
  proof (rule extract_on [OF that(1) assms(2,3), of 0])
    fix rc b' assume "msgbuf_extract b (0 :: 'a word) = (rc, 0, b')" "rc \<noteq> 0" "msgbuf_errno rc" "lost b'"
    then show ?thesis using assms(1) ends_leave [of b' x rc m len Q v] by (simp add: get_or_def tells_def lost_ok)
  qed (use that(2) in \<open>auto simp: ends_def get_or_def\<close>)
qed

lemma triple_span [step_triples]:
  "triple m len (\<lambda>v c. c + n v \<le> len \<longrightarrow> Q (upd (Some c) v) (c + n v)) (span n upd) Q"
proof (rule tripleI)
  fix v b
  show "ends m len (\<lambda>_ _. False) (span n upd v b)" if "lost b"
    using span_lost [OF that, of "n v"] by (simp add: ends_def span_def split_beta)
  show "ends m len Q (span n upd v b)" if "on m len c b" "c + n v \<le> len \<longrightarrow> Q (upd (Some c) v) (c + n v)" for c
    using that(2) by (rule_tac span_on [OF that(1), of "n v"]) (auto simp: ends_def span_def)
qed

lemma triple_span_or [step_triples]:
  assumes "tells x"
  shows "triple m len (\<lambda>v c. c + n v \<le> len \<longrightarrow> Q (upd (Some c) v) (c + n v)) (span_or x n upd) Q"
proof (rule tripleI)
  fix v b
  show "ends m len (\<lambda>_ _. False) (span_or x n upd v b)" if lost: "lost b"
  proof -
    obtain rc q b' where e: "pldm__msgbuf_span_required b (n v) = (rc, q, b')" by (metis surj_pair)
    then have "lost b'" using span_lost [OF lost, of "n v"] by simp
    moreover have "rc \<noteq> 0 \<longrightarrow> msgbuf_errno rc" using array_errno(3) [of b "n v"] e by auto
    ultimately show ?thesis
      using assms e ends_leave [of b' x rc m len _ v] by (auto simp: span_or_def tells_def ends_def lost_def)
  qed
  show "ends m len Q (span_or x n upd v b)" if "on m len c b" "c + n v \<le> len \<longrightarrow> Q (upd (Some c) v) (c + n v)" for c
  proof (rule span_on [OF that(1), of "n v"])
    fix rc b' assume "pldm__msgbuf_span_required b (n v) = (rc, None, b')" "rc \<noteq> 0" "msgbuf_errno rc" "lost b'"
    then show ?thesis using assms ends_leave [of b' x rc m len Q v] by (simp add: span_or_def tells_def lost_ok)
  qed (use that(2) in \<open>auto simp: ends_def span_or_def\<close>)
qed

lemma triple_refuse [step_triples]: "r \<noteq> 0 \<Longrightarrow> triple m len (\<lambda>v c. \<not> P v \<longrightarrow> Q v c) (refuse P r) Q"
  by (rule tripleI) (auto simp: refuse_def ends_leave on_ok lost_ok, auto simp: ends_def)

lemma triple_assign [step_triples]: "triple m len (\<lambda>v c. Q (f v) c) (assign f) Q"
  by (auto simp: triple_def assign_def ends_def)

text \<open>An assertion must hold also after an overflow.\<close>

lemma triple_object_has [step_triples]: "(\<And>v. P v) \<Longrightarrow> triple m len Q (object_has P) Q"
  by (auto simp: triple_def object_has_def ends_def)

lemma triple_only [step_triples]:
  assumes "triple m len P' (steps ss) Q"
  shows "triple m len (\<lambda>v c. if P v then P' v c else Q v c) (only P ss) Q"
  using assms by (auto simp: triple_def only_def ends_def)

lemma remaining_lost: "lost b \<Longrightarrow> pldm__msgbuf_span_remaining b = (- EOVERFLOW, None, b)"
  by (simp add: lost_def pldm__msgbuf_span_remaining_def)

lemma remaining_on:
  assumes "on m len c b"
  obtains b' where "pldm__msgbuf_span_remaining b = (0, Some (c, len - c), b')" "on m len len b'"
proof -
  obtain a where b: "b = live_mb a m c (int len - int c)" using assms by (auto simp: on_def)
  have "c + (len - c) = len" "nat (int len - int c) = len - c" using on_facts [OF assms] by linarith+
  then have "pldm__msgbuf_span_remaining b = (0, Some (c, len - c), live_mb a m len 0)"
    using on_facts [OF assms] unfolding b by (simp add: pldm__msgbuf_span_remaining_def live_mb_step)
  then show thesis using that on_facts [OF assms] assms by (auto simp: on_def)
qed

abbreviation (input) "field_at p q n \<equiv> \<lparr>vf_ptr = Some (p + q), vf_length = n\<rparr>"

lemma triple_rest_into [step_triples]:
  "triple m len (\<lambda>v c. Q (upd (\<lambda>_. field_at p c (len - c)) v) len) (rest_into upd p) Q"
proof (rule tripleI)
  fix v b
  show "ends m len (\<lambda>_ _. False) (rest_into upd p v b)" if "lost b"
    using remaining_lost [OF that] that by (simp add: ends_def rest_into_def)
  show "ends m len Q (rest_into upd p v b)" if "on m len c b" "Q (upd (\<lambda>_. field_at p c (len - c)) v) len" for c
    using that(2) by (rule_tac remaining_on [OF that(1)]) (auto simp: ends_def rest_into_def)
qed

lemma triple_rest_or [step_triples]:
  assumes "tells x"
  shows "triple m len (\<lambda>v c. Q (upd (\<lambda>_. field_at p c (len - c)) v) len) (rest_or x upd p) Q"
proof (rule tripleI)
  fix v b
  show "ends m len (\<lambda>_ _. False) (rest_or x upd p v b)" if "lost b"
    using remaining_lost [OF that] assms ends_leave [OF lost_ok [OF that], of x "- EOVERFLOW"]
    by (simp add: rest_or_def tells_def msgbuf_errno_def)
  show "ends m len Q (rest_or x upd p v b)" if "on m len c b" "Q (upd (\<lambda>_. field_at p c (len - c)) v) len" for c
    using that(2) by (rule_tac remaining_on [OF that(1)]) (auto simp: ends_def rest_or_def)
qed

lemma until_on:
  assumes "on m len c b"
  obtains (fits) b' where "c + n \<le> len" "pldm__msgbuf_span_until b n = (0, Some (c, len - n - c), b')" "on m len (len - n) b'"
  | (over) rc b' where "pldm__msgbuf_span_until b n = (rc, None, b')" "lost b'"
proof (cases "c + n \<le> len")
  case True
  obtain a where b: "b = live_mb a m c (int len - int c)" using assms by (auto simp: on_def)
  have "\<not> int n > INTMAX_MAX" "nat (int len - int c - int n) = len - n - c" "c + (len - n - c) = len - n"
      "int len - int c - int (len - n - c) = int len - int (len - n)" "c + (len - n - c) \<le> length m"
    using True on_facts [OF assms] unfolding b by (auto simp: mb_simps)
  then have "pldm__msgbuf_span_until b n = (0, Some (c, len - n - c), live_mb a m (len - n) (int len - int (len - n)))"
    using True unfolding b by (simp add: pldm__msgbuf_span_until_def live_mb_step)
  then show thesis using fits True on_facts [OF assms] assms by (auto simp: on_def)
next
  case False
  then have "\<not> int n \<le> mb_remaining b" using on_facts [OF assms] by linarith
  then have e: "pldm__msgbuf_span_until b n = (- EOVERFLOW, None, snd (snd (pldm__msgbuf_span_until b n)))"
    by (simp add: pldm__msgbuf_span_until_def mb_overflow_def pldm__msgbuf_set_invalid_def split_beta)
  then have "fst (rc_of (pldm__msgbuf_span_until b n)) \<noteq> 0" by (metis rc_of_pair fst_conv numeral_neq_zero neg_equal_0_iff_equal)
  then have "lost (snd (snd (pldm__msgbuf_span_until b n)))"
    using msgbuf_op.op_ok [OF msgbuf_op_span_until, of b n] msgbuf_op.op_failed [OF msgbuf_op_span_until, of b n] on_ok [OF assms]
    by (auto simp: rc_of_def lost_def)
  then show thesis using over e by blast
qed

lemma until_lost: "lost b \<Longrightarrow> lost (snd (snd (pldm__msgbuf_span_until b n)))"
  using msgbuf_op.op_ok [OF msgbuf_op_span_until, of b n] msgbuf_op.op_sticky [OF msgbuf_op_span_until, of b n]
  by (auto simp: rc_of_def lost_def)

lemma triple_until_into [step_triples]:
  "triple m len (\<lambda>v c. c + n v \<le> len \<longrightarrow> Q (upd (\<lambda>_. field_at p c (len - n v - c)) v) (len - n v)) (until_into n upd p) Q"
proof (rule tripleI)
  fix v b
  show "ends m len (\<lambda>_ _. False) (until_into n upd p v b)" if "lost b"
    using until_lost [OF that, of "n v"] by (simp add: ends_def until_into_def split_beta)
  show "ends m len Q (until_into n upd p v b)"
    if "on m len c b" "c + n v \<le> len \<longrightarrow> Q (upd (\<lambda>_. field_at p c (len - n v - c)) v) (len - n v)" for c
    using that(2) by (rule_tac until_on [OF that(1), of "n v"]) (auto simp: ends_def until_into_def)
qed

text \<open>An array of fixed size that is filled completely.\<close>

lemma triple_get_array_or [step_triples]:
  assumes "tells x" "0 < n"
  shows "triple m len (\<lambda>v c. length (arr v) = n \<and> (c + n \<le> len \<longrightarrow> Q (upd (\<lambda>_. bytes_at m c n) v) (c + n)))
    (get_array_or x (\<lambda>_. n) (\<lambda>_. n) arr upd) Q"
proof (rule tripleI)
  fix v b
  let ?e = "pldm__msgbuf_extract_array_void b n (arr v) n"
  have op: "msgbuf_op (\<lambda>b. rc_of (pldm__msgbuf_extract_array_void b n (arr v) n))" by (rule msgbuf_op_extract_array) simp
  have fails: "ends m len Q (get_array_or x (\<lambda>_. n) (\<lambda>_. n) arr upd v b)" if "mb_ok b" "mb_remaining b < int n" for Q
  proof -
    have "fst ?e \<noteq> 0"
      using that(2) assms(2)
      by (simp add: pldm__msgbuf_extract_array_void_def mb_overflow_def pldm__msgbuf_set_invalid_def split_beta)
    moreover have "mb_ok (snd (snd ?e))" using msgbuf_op.op_ok [OF op that(1)] by (simp add: rc_of_def split_beta)
    moreover have "msgbuf_errno (fst ?e)" using array_errno(1) [of b n "arr v" n] calculation(1) by blast
    ultimately show ?thesis
      using assms(1) ends_leave [of "snd (snd ?e)" x "fst ?e" m len Q v] by (simp add: get_array_or_def tells_def split_beta)
  qed
  show "ends m len (\<lambda>_ _. False) (get_array_or x (\<lambda>_. n) (\<lambda>_. n) arr upd v b)" if "lost b"
    using that by (intro fails) (simp_all add: lost_def)
  show "ends m len Q (get_array_or x (\<lambda>_. n) (\<lambda>_. n) arr upd v b)"
    if at: "on m len c b" and P: "length (arr v) = n \<and> (c + n \<le> len \<longrightarrow> Q (upd (\<lambda>_. bytes_at m c n) v) (c + n))" for c
  proof (cases "c + n \<le> len")
    case True
    obtain a where b: "b = live_mb a m c (int len - int c)" using at by (auto simp: on_def)
    have "?e = (0, bytes_at m c n, live_mb a m (c + n) (int len - int c - int n))"
      using extract_array_live [of n n "arr v" "int len - int c" c m a] True P on_facts [OF at] unfolding b by (simp add: mb_simps)
    then show ?thesis using True P on_advance [of m len c a n] at unfolding b by (auto simp: ends_def get_array_or_def)
  next
    case False
    then show ?thesis using on_facts [OF at] by (intro fails on_ok [OF at]) simp
  qed
qed

section \<open>Whole decoders\<close>

text \<open>Completing a msgbuf with success says where the position was.\<close>

lemma complete_lost:
  "lost b \<Longrightarrow> fst (pldm_msgbuf_complete b) \<noteq> 0" "lost b \<Longrightarrow> fst (pldm_msgbuf_complete_consumed b) \<noteq> 0"
  "on m len c b \<Longrightarrow> fst (pldm_msgbuf_complete_consumed b) = 0 \<Longrightarrow> c = len"
  by (auto simp: lost_def pldm_msgbuf_complete_def pldm_msgbuf_complete_consumed_def pldm__msgbuf_discard_def
      pldm__msgbuf_validate_def pldm__msgbuf_consumed_def on_def mb_simps split: if_splits)

lemma decode_bytes_triple:
  assumes "triple (snd obj) len (\<lambda>v c. v = v0 \<and> c = 0) (steps ss) Q" "tells x" "len \<le> length (snd obj)"
    and "fin = pldm_msgbuf_complete \<or> fin = pldm_msgbuf_complete_consumed"
  shows "\<exists>rc v. decode_bytes x minsize ss fin len obj v0 = Some (rc, v) \<and>
    (rc = 0 \<longrightarrow> minsize \<le> len \<and> (\<exists>c \<le> len. Q v c \<and> (fin = pldm_msgbuf_complete_consumed \<longrightarrow> c = len)))"
proof -
  let ?init = "pldm__msgbuf_init_errno minsize (fst obj) (snd obj) len"
  have x: "msgbuf_errno rc \<Longrightarrow> \<exists>r. x rc = Some r \<and> r \<noteq> 0" for rc using assms(2) by (auto simp: tells_def)
  have fin: "finishes fin" using assms(4) by auto
  show ?thesis
  proof (cases "?init = (- EOVERFLOW, dead_mb (fst obj) (snd obj))")
    case True
    then show ?thesis using x [of "- EOVERFLOW"] by (auto simp: decode_bytes_def on_buffer_def mb_exit_dead msgbuf_errno_def)
  next
    case False
    then have init: "?init = (0, live_mb (fst obj) (snd obj) 0 (int len))" "int len \<le> INTMAX_MAX" "minsize \<le> len"
      by (auto simp: pldm__msgbuf_init_errno_def pldm__msgbuf_set_invalid_def dead_mb_def live_mb_def Let_def split: if_splits)
    then have start: "on (snd obj) len 0 (live_mb (fst obj) (snd obj) 0 (int len))" using assms(3) by (auto simp: on_def)
    obtain r v b where s: "steps ss v0 (live_mb (fst obj) (snd obj) 0 (int len)) = (r, v, b)" by (metis surj_pair)
    have e: "ends (snd obj) len Q (r, v, b)" using assms(1) start unfolding triple_def s [symmetric] by blast
    show ?thesis
    proof (cases r)
      case (Return rv)
      then show ?thesis using e init s by (auto simp: ends_def decode_bytes_def on_buffer_def mb_exit_def mb_done_def)
    next
      case Go
      then have ok: "mb_ok b" using e by (auto simp: ends_def dest: lost_ok on_ok)
      have done': "mb_done (snd (fin b))" "fst (fin b) \<noteq> 0 \<longrightarrow> msgbuf_errno (fst (fin b))"
        using fin ok by (auto simp: finishes_def)
      have "\<exists>c \<le> len. Q v c \<and> (fin = pldm_msgbuf_complete_consumed \<longrightarrow> c = len)" if "fst (fin b) = 0"
        using e Go that assms(4) complete_lost(1,2) [of b] complete_lost(3) by (fastforce simp: ends_def dest: on_facts)
      then show ?thesis
        using done' x [of "fst (fin b)"] init s Go
        by (auto simp: decode_bytes_def on_buffer_def mb_exit_def mb_done_def split_beta)
    qed
  qed
qed

end
