(* ===== verification/Fwup_Package_Laws.thy ===== *)
theory Fwup_Package_Laws
  imports Fwup_Package Step_Triples
begin

text \<open>
  Firmware update packages are parsed safely: whatever the bytes are, every function has a result, the loops end, and every field
  of a header or record that is handed out lies in the package.
\<close>

definition inside :: "nat \<Rightarrow> variable_field \<Rightarrow> bool" where
  "inside n f \<longleftrightarrow> (case vf_ptr f of None \<Rightarrow> vf_length f = 0 | Some p \<Rightarrow> p + vf_length f \<le> n)"

section \<open>The header\<close>

definition header_accepted :: "u8 \<Rightarrow> u8 list \<Rightarrow> nat \<Rightarrow> header_parse \<Rightarrow> bool" where
  "header_accepted pin_rev m len v \<longleftrightarrow>
     1 \<le> ph_format_revision (hp_hdr v) \<and> ph_format_revision (hp_hdr v) \<le> pin_rev \<and>
     ph_identifier (hp_hdr v) = fst (revision_info (ph_format_revision (hp_hdr v))) \<and>
     ph_bitmap_bit_length (hp_hdr v) AND 7 = 0 \<and> is_string_type_valid (ph_version_string_type (hp_hdr v)) \<and>
     vf_ptr (ph_version_string (hp_hdr v)) = Some PLDM_FWUP_PACKAGE_HEADER_FIXED_SIZE \<and>
     vf_ptr (hp_areas v) = Some (PLDM_FWUP_PACKAGE_HEADER_FIXED_SIZE + vf_length (ph_version_string (hp_hdr v))) \<and>
     PLDM_FWUP_PACKAGE_HEADER_FIXED_SIZE + vf_length (ph_version_string (hp_hdr v)) + vf_length (hp_areas v) = header_payload_size v \<and>
     unat (hp_size v) = header_payload_size v + checksums_size v \<and> unat (hp_size v) \<le> len \<and>
     hp_header_checksum v = word_of_le (bytes_at m (header_payload_size v) 4) \<and>
     (has_payload_checksum v \<longrightarrow> hp_payload_checksum v = word_of_le (bytes_at m (header_payload_size v + 4) 4) \<and>
       hp_payload v = \<lparr>vf_ptr = Some (unat (hp_size v)), vf_length = len - unat (hp_size v)\<rparr>)"

lemma one_le_word: "1 \<le> (w :: 'a::len word) \<longleftrightarrow> w \<noteq> 0"
  by (simp add: not_less [symmetric])

lemmas header_sizes = checksums_size_def header_payload_size_def header_variable_size_def header_areas_size_def

lemma header_triple:
  assumes "length (ph_identifier (hp_hdr v0)) = 16" "length (ph_release_date_time (hp_hdr v0)) = 13"
  shows "triple m len (\<lambda>v c. v = v0 \<and> c = 0) (steps (header_steps pin_rev)) (\<lambda>v _. header_accepted pin_rev m len v)"
  unfolding header_steps_def
  by (rule triple_pre, (rule triple_steps triple_Nil step_triples | (simp; fail))+)
    (use assms in \<open>auto simp: to_size_def points_to_def header_sizes header_accepted_def one_le_word simp del: image_insert\<close>)

section \<open>Records\<close>

definition fd_record_inside :: "nat \<Rightarrow> pldm_package_firmware_device_id_record \<Rightarrow> bool" where
  "fd_record_inside n r \<longleftrightarrow> inside n (fr_version_string r) \<and> inside n (fr_applicable_components r) \<and> inside n (fr_record_descriptors r) \<and>
     inside n (fr_package_data r) \<and> inside n (fr_reference_manifest r) \<and> vf_ptr (fr_record_descriptors r) \<noteq> None"

definition dd_record_inside :: "nat \<Rightarrow> pldm_package_downstream_device_id_record \<Rightarrow> bool" where
  "dd_record_inside n r \<longleftrightarrow> inside n (dr_min_version_string r) \<and> inside n (dr_applicable_components r) \<and> inside n (dr_record_descriptors r) \<and>
     inside n (dr_package_data r) \<and> inside n (dr_reference_manifest r) \<and> vf_ptr (dr_record_descriptors r) \<noteq> None"

lemma fd_record_triple:
  assumes "ph_bitmap_bit_length hdr AND 7 = 0"
  shows "triple m len (\<lambda>v c. v = v0 \<and> c = 0) (steps (firmware_device_id_record_steps hdr p)) (\<lambda>v _. fd_record_inside (p + len) v)"
  unfolding firmware_device_id_record_steps_def
  by (rule triple_pre, (rule triple_steps triple_Nil step_triples assms | (simp; fail))+)
    (auto simp: to_size_def points_to_def fd_record_inside_def inside_def)

lemma dd_record_triple:
  assumes "ph_bitmap_bit_length hdr AND 7 = 0"
  shows "triple m len (\<lambda>v c. v = v0 \<and> c = 0) (steps (downstream_device_id_record_steps hdr p)) (\<lambda>v _. dd_record_inside (p + len) v)"
  unfolding downstream_device_id_record_steps_def
proof (rule triple_mid [where k = 12 and R = "\<lambda>v c. inside (p + len) (dr_min_version_string v) \<and>
    inside (p + len) (dr_applicable_components v) \<and> (\<not> 4 \<le> ph_format_revision hdr \<longrightarrow> vf_length (dr_reference_manifest v) = 0)"],
    simp_all del: steps.simps split del: if_split, goal_cases)
  case 1
  show ?case
    by (rule triple_pre, (rule triple_steps triple_Nil step_triples assms | (simp; fail))+)
      (auto simp: to_size_def points_to_def dd_record_inside_def inside_def)
next
  case 2
  show ?case
    by (rule triple_pre, (rule triple_steps triple_Nil step_triples assms | (simp; fail))+)
      (auto simp: to_size_def points_to_def dd_record_inside_def inside_def)
qed

definition component_inside :: "nat \<Rightarrow> pldm_package_component_image_information \<Rightarrow> bool" where
  "component_inside n i \<longleftrightarrow> inside n (ci_version_string i) \<and> inside n (ci_opaque_data i)"

definition descriptor_inside :: "nat \<Rightarrow> package_descriptor \<Rightarrow> bool" where
  "descriptor_inside n d \<longleftrightarrow> inside n \<lparr>vf_ptr = pd_data d, vf_length = unat (pd_length d)\<rparr>"

text \<open>What a decoder leaves of the field it read from: \<open>k\<close> bytes less at least, up to the same end.\<close>

definition rest_of :: "nat \<Rightarrow> nat \<Rightarrow> nat \<Rightarrow> variable_field \<Rightarrow> bool" where
  "rest_of k p len f \<longleftrightarrow> (\<exists>c. vf_ptr f = Some (p + c) \<and> k \<le> c \<and> c + vf_length f = len)"

lemma component_triple:
  shows "triple m len (\<lambda>v c. v = v0 \<and> c = 0) (steps (component_image_information_steps hdr p))
    (\<lambda>v _. component_inside (p + len) (cp_info v) \<and> rest_of 22 p len (cp_field v))"
  unfolding component_image_information_steps_def
proof (rule triple_mid [where k = 11 and R = "\<lambda>v c. inside (p + len) (ci_version_string (cp_info v)) \<and> 22 \<le> c"],
    simp_all del: steps.simps split del: if_split, goal_cases)
  case 1
  show ?case
    by (rule triple_pre, (rule triple_steps triple_Nil step_triples | (simp; fail))+)
      (auto simp: to_size_def points_to_def inside_def)
next
  case 2
  show ?case
    by (rule triple_pre, (rule triple_steps triple_Nil step_triples | (simp; fail))+)
      (auto simp: to_size_def points_to_def component_inside_def inside_def rest_of_def split: option.splits)
qed

lemma image_triple:
  "triple m len (\<lambda>i c. i = cp_info v \<and> c = 0) (steps (component_image_steps v))
     (\<lambda>i _. i = ci_image_update (vf_ptr_update (\<lambda>_. Some (unat (cp_location_offset v)))) (cp_info v) \<and>
       unat (cp_location_offset v) + unat (cp_size v) \<le> len)"
  unfolding component_image_steps_def
  by (rule triple_pre, (rule triple_steps triple_Nil step_triples | (simp; fail))+) (auto simp: points_to_def)

lemma descriptor_triple:
  "triple m len (\<lambda>v c. v = v0 \<and> c = 0) (steps (descriptor_steps p))
     (\<lambda>v _. descriptor_inside (p + len) (snd v) \<and> rest_of 4 p len (fst v))"
  unfolding descriptor_steps_def
  by (rule triple_pre, (rule triple_steps triple_Nil step_triples | (simp; fail))+)
    (auto simp: descriptor_inside_def inside_def rest_of_def)

lemma record_count_triple:
  "triple m len (\<lambda>v c. v = v0 \<and> c = 0) (steps (record_count_steps p)) (\<lambda>v _. rest_of 1 p len (pki_field v))"
  unfolding record_count_steps_def
  by (rule triple_pre, (rule triple_steps triple_Nil step_triples | (simp; fail))+) (auto simp: rest_of_def)

lemma component_count_triple:
  "triple m len (\<lambda>v c. v = v0 \<and> c = 0) (steps (component_count_steps p)) (\<lambda>v _. rest_of 1 p len (pki_field v))"
  unfolding component_count_steps_def
  by (rule triple_pre, (rule triple_steps triple_Nil step_triples | (simp; fail))+) (auto simp: rest_of_def)

section \<open>Reading from a field of the package\<close>

definition set_inside :: "nat \<Rightarrow> variable_field \<Rightarrow> bool" where
  "set_inside n f \<longleftrightarrow> (\<exists>p. vf_ptr f = Some p \<and> p + vf_length f \<le> n)"

lemma inside_mono: "inside n f \<Longrightarrow> n \<le> k \<Longrightarrow> inside k f"
  by (auto simp: inside_def split: option.splits)

lemma records_mono:
  "fd_record_inside n r \<Longrightarrow> n \<le> k \<Longrightarrow> fd_record_inside k r"
  "dd_record_inside n d \<Longrightarrow> n \<le> k \<Longrightarrow> dd_record_inside k d"
  "component_inside n i \<Longrightarrow> n \<le> k \<Longrightarrow> component_inside k i"
  "descriptor_inside n e \<Longrightarrow> n \<le> k \<Longrightarrow> descriptor_inside k e"
  by (auto simp: fd_record_inside_def dd_record_inside_def component_inside_def descriptor_inside_def intro: inside_mono)

lemma rest_of_inside: "rest_of j p len f \<Longrightarrow> p + len \<le> n \<Longrightarrow> set_inside n f \<and> vf_length f + j \<le> len"
  by (auto simp: rest_of_def set_inside_def)

lemma decode_field:
  assumes "triple (drop p (snd obj)) len (\<lambda>v c. v = v0 \<and> c = 0) (steps ss) (\<lambda>v _. Q v)" "p + len \<le> length (snd obj)"
  shows "\<exists>rc v. decode_bytes as_errno minsize ss pldm_msgbuf_complete len (behind_offset obj p) v0 = Some (rc, v) \<and>
      (rc = 0 \<longrightarrow> minsize \<le> len \<and> Q v)"
    and "\<exists>rc v. decode_bytes as_errno minsize ss pldm_msgbuf_complete_consumed len (behind_offset obj p) v0 = Some (rc, v) \<and>
      (rc = 0 \<longrightarrow> minsize \<le> len \<and> Q v)"
proof -
  have "\<exists>rc v. decode_bytes as_errno minsize ss fin len (behind_offset obj p) v0 = Some (rc, v) \<and>
      (rc = 0 \<longrightarrow> minsize \<le> len \<and> (\<exists>c\<le>len. Q v \<and> (fin = pldm_msgbuf_complete_consumed \<longrightarrow> c = len)))"
    if "fin = pldm_msgbuf_complete \<or> fin = pldm_msgbuf_complete_consumed" for fin
    using assms that by (intro decode_bytes_triple) auto
  from this [of pldm_msgbuf_complete] this [of pldm_msgbuf_complete_consumed]
  show "\<exists>rc v. decode_bytes as_errno minsize ss pldm_msgbuf_complete len (behind_offset obj p) v0 = Some (rc, v) \<and>
      (rc = 0 \<longrightarrow> minsize \<le> len \<and> Q v)"
    and "\<exists>rc v. decode_bytes as_errno minsize ss pldm_msgbuf_complete_consumed len (behind_offset obj p) v0 = Some (rc, v) \<and>
      (rc = 0 \<longrightarrow> minsize \<le> len \<and> Q v)" by blast+
qed

lemma init_dynamic_ok:
  assumes "p + vf_length field \<le> n" "n \<le> length (snd obj)"
  shows "\<exists>rc f k. pldm_msgbuf_init_dynamic_uint16 req obj field p = Some (rc, f, k) \<and> (rc = 0 \<longrightarrow> set_inside n f \<and> p + k \<le> n)"
proof -
  let ?m = "drop p (snd obj)" and ?len = "vf_length field"
  have len: "p + ?len \<le> length (snd obj)" using assms by simp
  have "triple ?m ?len (\<lambda>v c. v = 0 \<and> c = 0) (steps [get_or as_errno (\<lambda>(f :: u16 \<Rightarrow> u16) _. unat (f 0))]) (\<lambda>_ _. True)"
    by (rule triple_pre, (rule triple_steps triple_Nil step_triples | (simp; fail))+)
  from decode_field(1) [OF this len]
  obtain rc k where 1: "decode_bytes as_errno req [get_or as_errno (\<lambda>(f :: u16 \<Rightarrow> u16) _. unat (f 0))] pldm_msgbuf_complete
      ?len (behind_offset obj p) 0 = Some (rc, k)" by blast
  have "triple ?m ?len (\<lambda>v c. v = field \<and> c = 0) (steps [span_or as_errno (\<lambda>_. k) (\<lambda>_ f. f), rest_or as_errno (\<lambda>f. f) p])
      (\<lambda>f _. k \<le> ?len \<and> rest_of k p ?len f)"
    by (rule triple_pre, (rule triple_steps triple_Nil step_triples | (simp; fail))+) (auto simp: rest_of_def)
  from decode_field(1) [OF this len]
  obtain rc' f where 2: "decode_bytes as_errno req [span_or as_errno (\<lambda>_. k) (\<lambda>_ f. f), rest_or as_errno (\<lambda>f. f) p]
      pldm_msgbuf_complete ?len (behind_offset obj p) field = Some (rc', f)" "rc' = 0 \<Longrightarrow> k \<le> ?len \<and> rest_of k p ?len f" by blast
  show ?thesis
  proof (cases "rc = 0")
    case True
    then have "pldm_msgbuf_init_dynamic_uint16 req obj field p = Some (rc', f, k)"
      using 1 2 by (simp add: pldm_msgbuf_init_dynamic_uint16_def)
    moreover have "set_inside n f \<and> p + k \<le> n" if "rc' = 0" using 2(2) [OF that] rest_of_inside [of k p ?len f n] assms(1) by simp
    ultimately show ?thesis by blast
  next
    case False
    then show ?thesis using 1 by (simp add: pldm_msgbuf_init_dynamic_uint16_def)
  qed
qed

lemma decode_dynamic_ok:
  assumes "p + vf_length field \<le> n" "n \<le> length (snd obj)"
    and "\<And>m len. triple m len (\<lambda>v c. v = v0 \<and> c = 0) (steps (ss p)) (\<lambda>v _. Q (p + len) v)"
    and "\<And>k v. Q k v \<Longrightarrow> k \<le> n \<Longrightarrow> Q n v"
  shows "\<exists>rc f v. decode_dynamic req ss obj field p v0 = Some (rc, f, v) \<and> (rc = 0 \<longrightarrow> set_inside n f \<and> Q n v)"
proof -
  obtain rc f k where i: "pldm_msgbuf_init_dynamic_uint16 req obj field p = Some (rc, f, k)"
      "rc = 0 \<Longrightarrow> set_inside n f \<and> p + k \<le> n"
    using init_dynamic_ok [OF assms(1,2), of req] by blast
  show ?thesis
  proof (cases "rc = 0")
    case True
    then have k: "p + k \<le> n" "p + k \<le> length (snd obj)" using i(2) assms(2) by auto
    obtain rc' v where "decode_bytes as_errno req (ss p) pldm_msgbuf_complete_consumed k (behind_offset obj p) v0 = Some (rc', v)"
        "rc' = 0 \<Longrightarrow> req \<le> k \<and> Q (p + k) v"
      using decode_field(2) [OF assms(3) k(2), of req] by blast
    then show ?thesis using i True assms(4) k(1) by (auto simp: decode_dynamic_def)
  qed (use i in \<open>simp add: decode_dynamic_def\<close>)
qed

section \<open>Iterators\<close>

text \<open>
  What a loop relies on: in a state \<open>I\<close> the iterator says whether there is a next record; decoding it succeeds with a record in
  order (\<open>J\<close>) or reports an error; and going on to the next one leads to a state \<open>I\<close> with less to do.
\<close>

locale record_iterator =
  fixes iter_end :: "'k \<Rightarrow> bool option"
    and from_iter :: "'k \<Rightarrow> 'r \<Rightarrow> (int \<times> 'k \<times> 'r) option"
    and iter_next :: "'k \<Rightarrow> (bool \<times> 'k) option"
    and I :: "'k \<Rightarrow> bool"
    and J :: "'k \<Rightarrow> 'r \<Rightarrow> bool"
    and todo :: "'k \<Rightarrow> nat"
  assumes end_known: "I k \<Longrightarrow> iter_end k \<noteq> None"
    and decodes: "I k \<Longrightarrow> iter_end k = Some False \<Longrightarrow> \<exists>rc k' r'. from_iter k r = Some (rc, k', r') \<and>
      (rc = 0 \<longrightarrow> J k' r' \<and> (\<exists>more k''. iter_next k' = Some (more, k'') \<and> I k'' \<and> todo k'' < todo k))"
begin

lemma loop_ends:
  assumes "I k" "\<And>k r. J k r \<Longrightarrow> \<exists>rc r' x. body k r = Some (rc, r', x) \<and> B x"
  shows "\<exists>rc k' r' xs. foreach_loop iter_end from_iter iter_next body k r = Some (rc, k', r', xs) \<and> (\<forall>x \<in> set xs. B x) \<and>
    (rc = 0 \<longrightarrow> I k' \<and> iter_end k' = Some True)"
  using assms(1)
proof (induction "todo k" arbitrary: k r rule: less_induct)
  case less
  show ?case
  proof (cases "iter_end k = Some True")
    case True
    then show ?thesis using less.prems by (subst foreach_loop.simps) simp
  next
    case False
    then have more: "iter_end k = Some False" using end_known [OF less.prems] by auto
    obtain rc k1 r1 where d: "from_iter k r = Some (rc, k1, r1)"
        "rc = 0 \<Longrightarrow> J k1 r1 \<and> (\<exists>b k2. iter_next k1 = Some (b, k2) \<and> I k2 \<and> todo k2 < todo k)"
      using decodes [OF less.prems more, of r] by blast
    show ?thesis
    proof (cases "rc = 0")
      case True
      then obtain b k2 where n: "J k1 r1" "iter_next k1 = Some (b, k2)" "I k2" "todo k2 < todo k" using d(2) by blast
      obtain rc2 r2 x where x: "body k1 r1 = Some (rc2, r2, x)" "B x" using assms(2) [OF n(1)] by blast
      obtain rc' k' r' xs where "foreach_loop iter_end from_iter iter_next body k2 r2 = Some (rc', k', r', xs)"
          "\<forall>x \<in> set xs. B x" "rc' = 0 \<longrightarrow> I k' \<and> iter_end k' = Some True"
        using less.hyps [OF n(4,3), of r2] by blast
      then show ?thesis using more d n x True by (cases "rc2 = 0"; subst foreach_loop.simps) simp_all
    qed (use more d in \<open>subst foreach_loop.simps, simp\<close>)
  qed
qed

end

text \<open>A package whose header was accepted, and one that is iterated over: \<open>n\<close> is the length of the package.\<close>

definition package_ok :: "object \<Rightarrow> nat \<Rightarrow> pldm_package_format_pin \<Rightarrow> pldm_package \<Rightarrow> bool" where
  "package_ok obj n pin k \<longleftrightarrow> n \<le> length (snd obj) \<and> pk_package k = \<lparr>vf_ptr = Some 0, vf_length = n\<rparr> \<and> set_inside n (pk_areas k) \<and>
     (\<exists>hdr. pk_pin k = Some pin \<and> pk_hdr k = Some hdr \<and> revisions_ok pin hdr \<and> ph_bitmap_bit_length hdr AND 7 = 0)"

definition package_at :: "object \<Rightarrow> nat \<Rightarrow> pldm_package_format_pin \<Rightarrow> pldm_package_parse \<Rightarrow> pldm_package \<Rightarrow> bool" where
  "package_at obj n pin st k \<longleftrightarrow> package_ok obj n pin k \<and> pk_state k = st \<and> set_inside n (pki_field (pk_iter k))"

lemma package_ok_iter [simp]:
  "package_ok obj n pin (k\<lparr>pk_iter := it\<rparr>) \<longleftrightarrow> package_ok obj n pin k" "package_ok obj n pin (k\<lparr>pk_state := st\<rparr>) \<longleftrightarrow> package_ok obj n pin k"
  by (simp_all add: package_ok_def)

lemma fd_decodes:
  assumes "package_at obj n pin PLDM_PACKAGE_PARSE_FIRMWARE_DEVICES k"
  shows "\<exists>rc field r'. decode_pldm_package_firmware_device_id_record_from_iter obj (Some k) (Some r) =
      Some (rc, Some (k\<lparr>pk_iter := (pk_iter k)\<lparr>pki_field := field\<rparr>\<rparr>), Some r') \<and>
    (rc = 0 \<longrightarrow> set_inside n field \<and> fd_record_inside n r')"
proof -
  obtain p hdr where p: "vf_ptr (pki_field (pk_iter k)) = Some p" "p + vf_length (pki_field (pk_iter k)) \<le> n"
      and hdr: "pk_hdr k = Some hdr" "ph_bitmap_bit_length hdr AND 7 = 0" and n: "n \<le> length (snd obj)"
    using assms by (auto simp: package_at_def package_ok_def set_inside_def)
  have "\<exists>rc f v. decode_dynamic PLDM_FWUP_FIRMWARE_DEVICE_ID_RECORD_MIN_SIZE (firmware_device_id_record_steps hdr) obj
      (pki_field (pk_iter k)) p r = Some (rc, f, v) \<and> (rc = 0 \<longrightarrow> set_inside n f \<and> fd_record_inside n v)"
    using fd_record_triple [OF hdr(2)] records_mono(1) by (intro decode_dynamic_ok [OF p(2) n]) auto
  then show ?thesis using assms p hdr
    by (auto simp: package_at_def decode_pldm_package_firmware_device_id_record_from_iter_def
        decode_pldm_package_firmware_device_id_record_errno_def)
qed

lemma dd_decodes:
  assumes "package_at obj n pin PLDM_PACKAGE_PARSE_DOWNSTREAM_DEVICES k" "\<And>hdr. pk_hdr k = Some hdr \<Longrightarrow> 1 < ph_format_revision hdr"
  shows "\<exists>rc field r'. decode_pldm_package_downstream_device_id_record_from_iter obj (Some k) (Some r) =
      Some (rc, Some (k\<lparr>pk_iter := (pk_iter k)\<lparr>pki_field := field\<rparr>\<rparr>), Some r') \<and>
    (rc = 0 \<longrightarrow> set_inside n field \<and> dd_record_inside n r')"
proof -
  obtain p hdr where p: "vf_ptr (pki_field (pk_iter k)) = Some p" "p + vf_length (pki_field (pk_iter k)) \<le> n"
      and hdr: "pk_hdr k = Some hdr" "ph_bitmap_bit_length hdr AND 7 = 0" and n: "n \<le> length (snd obj)"
    using assms(1) by (auto simp: package_at_def package_ok_def set_inside_def)
  have "\<exists>rc f v. decode_dynamic PLDM_FWUP_DOWNSTREAM_DEVICE_ID_RECORD_MIN_SIZE (downstream_device_id_record_steps hdr) obj
      (pki_field (pk_iter k)) p r = Some (rc, f, v) \<and> (rc = 0 \<longrightarrow> set_inside n f \<and> dd_record_inside n v)"
    using dd_record_triple [OF hdr(2)] records_mono(2) by (intro decode_dynamic_ok [OF p(2) n]) auto
  then show ?thesis using assms p hdr
    by (auto simp: package_at_def decode_pldm_package_downstream_device_id_record_from_iter_def)
qed

lemma resolve_ok:
  assumes "pk_package k = \<lparr>vf_ptr = Some 0, vf_length = n\<rparr>" "n \<le> length (snd obj)" "component_inside n (cp_info v)"
  shows "\<exists>rc i. resolve_component_image obj (pk_package k) v = Some (rc, i) \<and>
    (rc = 0 \<longrightarrow> component_inside n i \<and> set_inside n (ci_image i))"
proof -
  have "triple (drop 0 (snd obj)) n (\<lambda>i c. i = cp_info v \<and> c = 0) (steps (component_image_steps v))
      (\<lambda>i _. i = ci_image_update (vf_ptr_update (\<lambda>_. Some (unat (cp_location_offset v)))) (cp_info v) \<and>
        unat (cp_location_offset v) + unat (cp_size v) \<le> n)"
    by (rule image_triple)
  from decode_field(1) [OF this, of 0]
  obtain rc i where "decode_bytes as_errno 0 (component_image_steps v) pldm_msgbuf_complete n (behind_offset obj 0) (cp_info v) = Some (rc, i)"
      "rc = 0 \<Longrightarrow> i = ci_image_update (vf_ptr_update (\<lambda>_. Some (unat (cp_location_offset v)))) (cp_info v) \<and>
        unat (cp_location_offset v) + unat (cp_size v) \<le> n"
    using assms(2) by auto
  then show ?thesis using assms by (auto simp: resolve_component_image_def component_inside_def set_inside_def)
qed

lemma ci_decodes:
  assumes "package_at obj n pin PLDM_PACKAGE_PARSE_COMPONENT_IMAGE_INFORMATION k"
  shows "\<exists>rc field i'. decode_pldm_package_component_image_information_from_iter obj (Some k) (Some i) =
      Some (rc, Some (k\<lparr>pk_iter := (pk_iter k)\<lparr>pki_field := field\<rparr>\<rparr>), Some i') \<and>
    (rc = 0 \<longrightarrow> set_inside n field \<and> vf_length field < vf_length (pki_field (pk_iter k)) \<and>
      component_inside n i' \<and> set_inside n (ci_image i'))"
proof -
  let ?f = "pki_field (pk_iter k)"
  let ?v = "\<lparr>cp_info = i, cp_field = ?f, cp_location_offset = 0, cp_size = 0\<rparr>"
  obtain p hdr where p: "vf_ptr ?f = Some p" "p + vf_length ?f \<le> n" and hdr: "pk_hdr k = Some hdr" and n: "n \<le> length (snd obj)"
      and pkg: "pk_package k = \<lparr>vf_ptr = Some 0, vf_length = n\<rparr>" and st: "pk_state k = PLDM_PACKAGE_PARSE_COMPONENT_IMAGE_INFORMATION"
    using assms by (auto simp: package_at_def package_ok_def set_inside_def)
  have len: "p + vf_length ?f \<le> length (snd obj)" using p n by simp
  obtain rc v where d: "decode_bytes as_errno PLDM_FWUP_COMPONENT_IMAGE_INFORMATION_MIN_SIZE (component_image_information_steps hdr p)
        pldm_msgbuf_complete_consumed (vf_length ?f) (behind_offset obj p) ?v = Some (rc, v)"
      "rc = 0 \<Longrightarrow> component_inside (p + vf_length ?f) (cp_info v) \<and> rest_of 22 p (vf_length ?f) (cp_field v)"
    using decode_field(2) [OF component_triple len] by metis
  show ?thesis
  proof (cases "rc = 0")
    case True
    then have v: "component_inside n (cp_info v)" "set_inside n (cp_field v)" "vf_length (cp_field v) < vf_length ?f"
      using d(2) p(2) records_mono(3) rest_of_inside by fastforce+
    obtain rc' i' where "resolve_component_image obj (pk_package k) v = Some (rc', i')"
        "rc' = 0 \<Longrightarrow> component_inside n i' \<and> set_inside n (ci_image i')"
      using resolve_ok [OF pkg n v(1)] by blast
    then show ?thesis using True d p hdr st v(2,3)
      by (auto simp: decode_pldm_package_component_image_information_from_iter_def)
  qed (use d p hdr st in \<open>auto simp: decode_pldm_package_component_image_information_from_iter_def\<close>)
qed

lemma descriptor_decodes:
  assumes "set_inside n (di_field iter)" "n \<le> length (snd obj)"
  shows "\<exists>rc field d'. decode_pldm_descriptor_from_iter obj (Some (iter, d)) = Some (rc, Some (iter\<lparr>di_field := field\<rparr>, d')) \<and>
    (rc = 0 \<longrightarrow> set_inside n field \<and> descriptor_inside n d')"
proof -
  let ?f = "di_field iter"
  obtain p where p: "vf_ptr ?f = Some p" "p + vf_length ?f \<le> n" using assms(1) by (auto simp: set_inside_def)
  have len: "p + vf_length ?f \<le> length (snd obj)" using p assms(2) by simp
  obtain rc field d' where "decode_bytes as_errno PLDM_FWUP_DEVICE_DESCRIPTOR_MIN_LEN (descriptor_steps p) pldm_msgbuf_complete
        (vf_length ?f) (behind_offset obj p) (?f, d) = Some (rc, field, d')"
      "rc = 0 \<Longrightarrow> descriptor_inside (p + vf_length ?f) d' \<and> rest_of 4 p (vf_length ?f) field"
    using decode_field(1) [OF descriptor_triple len] by (metis fst_conv snd_conv surj_pair)
  moreover from this(2) have "set_inside n field \<and> descriptor_inside n d'" if "rc = 0"
    using that p(2) records_mono(4) rest_of_inside by blast
  ultimately show ?thesis using p by (auto simp: decode_pldm_descriptor_from_iter_def if_msg_def)
qed

lemma iterator_step:
  assumes "res = Some (rc, k', r')" "rc = 0 \<Longrightarrow> J k' r'" "rc = 0 \<Longrightarrow> \<exists>more k''. nxt k' = Some (more, k'') \<and> I k'' \<and> todo k'' < (n :: nat)"
  shows "\<exists>rc k' r'. res = Some (rc, k', r') \<and> (rc = 0 \<longrightarrow> J k' r' \<and> (\<exists>more k''. nxt k' = Some (more, k'') \<and> I k'' \<and> todo k'' < n))"
  using assms by blast

definition at_components :: "object \<Rightarrow> nat \<Rightarrow> pldm_package_format_pin \<Rightarrow> pldm_package \<Rightarrow> bool" where
  "at_components obj n pin k \<longleftrightarrow> package_at obj n pin PLDM_PACKAGE_PARSE_COMPONENT_IMAGE_INFORMATION k \<or>
     package_ok obj n pin k \<and> pk_state k = PLDM_PACKAGE_PARSE_COMPLETE \<and> pki_entries (pk_iter k) = 0"

definition at_downstream :: "object \<Rightarrow> nat \<Rightarrow> pldm_package_format_pin \<Rightarrow> pldm_package \<Rightarrow> bool" where
  "at_downstream obj n pin k \<longleftrightarrow> package_at obj n pin PLDM_PACKAGE_PARSE_DOWNSTREAM_DEVICES k \<and>
     (pki_entries (pk_iter k) \<noteq> 0 \<longrightarrow> (\<forall>hdr. pk_hdr k = Some hdr \<longrightarrow> 1 < ph_format_revision hdr))"

interpretation fd_iter: record_iterator pldm_package_firmware_device_id_record_iter_end
    "on_lvalues (decode_pldm_package_firmware_device_id_record_from_iter obj)" pldm_package_firmware_device_id_record_iter_next
    "package_at obj n pin PLDM_PACKAGE_PARSE_FIRMWARE_DEVICES"
    "\<lambda>k r. pk_state k = PLDM_PACKAGE_PARSE_FIRMWARE_DEVICES \<and> n \<le> length (snd obj) \<and> fd_record_inside n r" "pki_entries \<circ> pk_iter" for obj n pin
proof (unfold_locales, goal_cases)
  case (1 k)
  then show ?case by (simp add: package_at_def pldm_package_firmware_device_id_record_iter_end_def)
next
  case (2 k r)
  obtain rc field r' where d: "on_lvalues (decode_pldm_package_firmware_device_id_record_from_iter obj) k r = Some (rc, k\<lparr>pk_iter := (pk_iter k)\<lparr>pki_field := field\<rparr>\<rparr>, r')"
      "rc = 0 \<Longrightarrow> set_inside n field \<and> fd_record_inside n r'"
    using fd_decodes [OF 2(1), of r] by (auto simp: on_lvalues_def)
  have entries: "0 < pki_entries (pk_iter k)" using 2(2) by (simp add: pldm_package_firmware_device_id_record_iter_end_def split: if_splits)
  show ?case
    by (rule iterator_step, rule d(1))
      (use 2(1) entries d(2) in \<open>auto simp: pldm_package_firmware_device_id_record_iter_next_def package_at_def package_ok_def\<close>)
qed

interpretation dd_iter: record_iterator pldm_package_downstream_device_id_record_iter_end
    "on_lvalues (decode_pldm_package_downstream_device_id_record_from_iter obj)" pldm_package_downstream_device_id_record_iter_next
    "at_downstream obj n pin" "\<lambda>_ r. n \<le> length (snd obj) \<and> dd_record_inside n r" "pki_entries \<circ> pk_iter" for obj n pin
proof (unfold_locales, goal_cases)
  case (1 k)
  then show ?case by (simp add: at_downstream_def package_at_def pldm_package_downstream_device_id_record_iter_end_def)
next
  case (2 k r)
  then have k: "package_at obj n pin PLDM_PACKAGE_PARSE_DOWNSTREAM_DEVICES k" "\<And>hdr. pk_hdr k = Some hdr \<Longrightarrow> 1 < ph_format_revision hdr"
      "0 < pki_entries (pk_iter k)"
    by (auto simp: at_downstream_def pldm_package_downstream_device_id_record_iter_end_def split: if_splits)
  obtain rc field r' where d: "on_lvalues (decode_pldm_package_downstream_device_id_record_from_iter obj) k r = Some (rc, k\<lparr>pk_iter := (pk_iter k)\<lparr>pki_field := field\<rparr>\<rparr>, r')"
      "rc = 0 \<Longrightarrow> set_inside n field \<and> dd_record_inside n r'"
    using dd_decodes [OF k(1,2), of r] by (auto simp: on_lvalues_def)
  show ?case
    by (rule iterator_step, rule d(1))
      (use k d(2) in \<open>auto simp: pldm_package_downstream_device_id_record_iter_next_def at_downstream_def package_at_def package_ok_def\<close>)
qed

interpretation ci_iter: record_iterator pldm_package_component_image_information_iter_end
    "on_lvalues (decode_pldm_package_component_image_information_from_iter obj)" pldm_package_component_image_information_iter_next
    "at_components obj n pin" "\<lambda>_ i. component_inside n i \<and> set_inside n (ci_image i)" "\<lambda>k. vf_length (pki_field (pk_iter k))" for obj n pin
proof (unfold_locales, goal_cases)
  case (1 k)
  then show ?case by (auto simp: at_components_def package_at_def pldm_package_component_image_information_iter_end_def)
next
  case (2 k i)
  then have k: "package_at obj n pin PLDM_PACKAGE_PARSE_COMPONENT_IMAGE_INFORMATION k"
    by (auto simp: at_components_def pldm_package_component_image_information_iter_end_def)
  obtain rc field i' where d: "on_lvalues (decode_pldm_package_component_image_information_from_iter obj) k i = Some (rc, k\<lparr>pk_iter := (pk_iter k)\<lparr>pki_field := field\<rparr>\<rparr>, i')"
      "rc = 0 \<Longrightarrow> set_inside n field \<and> vf_length field < vf_length (pki_field (pk_iter k)) \<and> component_inside n i' \<and> set_inside n (ci_image i')"
    using ci_decodes [OF k, of i] by (auto simp: on_lvalues_def)
  show ?case
    by (rule iterator_step, rule d(1))
      (use k d(2) in \<open>auto simp: Let_def pldm_package_component_image_information_iter_next_def at_components_def package_at_def package_ok_def\<close>)
qed

interpretation descriptor_iter: record_iterator "Some \<circ> pldm_descriptor_iter_end" "descriptor_on_lvalues obj" "Some \<circ> pldm_descriptor_iter_next"
    "\<lambda>iter. set_inside n (di_field iter) \<and> n \<le> length (snd obj)" "\<lambda>_. descriptor_inside n" di_count for obj n
proof (unfold_locales, goal_cases)
  case (2 iter d)
  obtain rc field d' where d: "descriptor_on_lvalues obj iter d = Some (rc, iter\<lparr>di_field := field\<rparr>, d')"
      "rc = 0 \<Longrightarrow> set_inside n field \<and> descriptor_inside n d'"
    using descriptor_decodes [of n iter obj d] 2(1) by (auto simp: descriptor_on_lvalues_def)
  show ?case
    by (rule iterator_step, rule d(1))
      (use 2 d(2) in \<open>auto simp: pldm_descriptor_iter_end_def pldm_descriptor_iter_next_def\<close>)
qed simp

section \<open>A package from its header to its last image\<close>

lemma crc32_validate_ok:
  "n \<le> length d \<Longrightarrow> pldm_edac_crc32_validate e (Some d) n = Some (if e = crc32_ref 0 (take n d) then 0 else - EUCLEAN)"
  by (simp add: pldm_edac_crc32_validate_def pldm_edac_crc32_def pldm_edac_crc32_extend_def crc32_loop_ref crc32_ref_def)

definition checksums_match :: "bool \<Rightarrow> u8 list \<Rightarrow> nat \<Rightarrow> header_parse \<Rightarrow> bool" where
  "checksums_match oem_nvidia m len v \<longleftrightarrow>
     hp_header_checksum v = crc32_ref 0 (take (header_payload_size v) m) \<and>
     (\<not> oem_nvidia \<and> has_payload_checksum v \<longrightarrow>
       hp_payload_checksum v = crc32_ref 0 (bytes_at m (unat (hp_size v)) (len - unat (hp_size v))))"

lemma payload_validate_ok:
  assumes "header_accepted pin_rev (snd data) len v" "len \<le> length (snd data)"
  shows "\<exists>rc. payload_validate oem_nvidia data v = Some rc \<and>
    (rc = 0 \<longrightarrow> \<not> oem_nvidia \<and> has_payload_checksum v \<longrightarrow>
      hp_payload_checksum v = crc32_ref 0 (bytes_at (snd data) (unat (hp_size v)) (len - unat (hp_size v))))"
  using assms crc32_validate_ok [of "len - unat (hp_size v)" "drop (unat (hp_size v)) (snd data)" "hp_payload_checksum v"]
  by (auto simp: payload_validate_def header_accepted_def bytes_at_def)

text \<open>A pin that names the layout of a revision.\<close>

definition pin_ok :: "pldm_package_format_pin \<Rightarrow> bool" where
  "pin_ok pin \<longleftrightarrow> pin_version pin = 0 \<and> pin_revision pin \<in> {1..4} \<and> pin_identifier pin = fst (revision_info (pin_revision pin)) \<and>
     unat (pin_magic pin) = snd (revision_info (pin_revision pin))"

lemma header_decodes:
  assumes "len \<le> length (snd data)" "length (ph_identifier hdr) = 16" "length (ph_release_date_time hdr) = 13"
  shows "\<exists>rc hdr' k'. decode_pldm_package_header_info_errno oem_nvidia data len pin hdr k = Some (rc, hdr', k') \<and>
    (rc = 0 \<longrightarrow> pk_state k = PLDM_PACKAGE_PARSE_INIT \<and> pin_ok pin \<and>
      (\<exists>v. header_accepted (pin_revision pin) (snd data) len v \<and> checksums_match oem_nvidia (snd data) len v \<and> hdr' = hp_hdr v \<and>
        k' = k\<lparr>pk_areas := hp_areas v, pk_pin := Some pin, pk_hdr := Some hdr', pk_state := PLDM_PACKAGE_PARSE_HEADER, pk_flags := 0,
          pk_package := \<lparr>vf_ptr = Some 0, vf_length = len\<rparr>\<rparr>))"
proof -
  let ?v = "\<lparr>hp_hdr = hdr, hp_areas = pk_areas k, hp_size = 0, hp_header_checksum = 0, hp_payload_checksum = 0, hp_payload = NO_FIELD\<rparr>"
  have "triple (drop 0 (snd data)) len (\<lambda>v c. v = ?v \<and> c = 0) (steps (header_steps (pin_revision pin)))
      (\<lambda>v _. header_accepted (pin_revision pin) (drop 0 (snd data)) len v)"
    using assms by (intro header_triple) simp_all
  from decode_field(1) [OF this, of 36]
  obtain rc v where d: "decode_bytes as_errno PLDM_FWUP_PACKAGE_HEADER_FIXED_SIZE (header_steps (pin_revision pin)) pldm_msgbuf_complete
      len data ?v = Some (rc, v)" "rc = 0 \<Longrightarrow> header_accepted (pin_revision pin) (snd data) len v"
    using assms(1) by auto
  show ?thesis
  proof (cases "rc = 0")
    case True
    then have v: "header_accepted (pin_revision pin) (snd data) len v" using d(2) by simp
    then have "header_payload_size v \<le> length (snd data)" using assms(1) by (auto simp: header_accepted_def)
    note crc = crc32_validate_ok [OF this, of "hp_header_checksum v"]
    obtain rc' where "payload_validate oem_nvidia data v = Some rc'"
        "rc' = 0 \<Longrightarrow> hp_header_checksum v = crc32_ref 0 (take (header_payload_size v) (snd data)) \<Longrightarrow>
          checksums_match oem_nvidia (snd data) len v"
      using payload_validate_ok [OF v assms(1), of oem_nvidia] by (auto simp: checksums_match_def)
    then show ?thesis using True d(1) v crc
      by (cases "rc' = 0") (auto simp: decode_pldm_package_header_info_errno_def Let_def pin_ok_def one_le_word word_gt_0 not_less)
  qed (use d in \<open>auto simp: decode_pldm_package_header_info_errno_def Let_def\<close>)
qed

lemma header_package_ok:
  assumes "header_accepted (pin_revision pin) (snd data) len v" "len \<le> length (snd data)" "pin_revision pin \<le> 4"
    and "pk_areas k = hp_areas v" "pk_pin k = Some pin" "pk_hdr k = Some (hp_hdr v)" "pk_package k = \<lparr>vf_ptr = Some 0, vf_length = len\<rparr>"
  shows "package_ok data len pin k"
  using assms by (auto simp: package_ok_def header_accepted_def revisions_ok_def set_inside_def elim: order_trans [rotated])

lemma version_string_inside: "header_accepted r m len v \<Longrightarrow> set_inside len (ph_version_string (hp_hdr v))"
  by (auto simp: header_accepted_def set_inside_def)

lemma read_count_ok:
  assumes "package_ok obj n pin k" "vf_ptr (pki_field (pk_iter k)) = Some p" "set_inside n (pki_field (pk_iter k))"
    and "\<And>m len v. triple m len (\<lambda>v' c. v' = v \<and> c = 0) (steps (ss p)) (\<lambda>v _. rest_of 1 p len (pki_field v))"
  shows "\<exists>rc it. read_count ss obj p k = Some (rc, k\<lparr>pk_iter := it\<rparr>) \<and> (rc = 0 \<longrightarrow> set_inside n (pki_field it))"
proof -
  let ?len = "vf_length (pki_field (pk_iter k))"
  have len: "p + ?len \<le> n" "p + ?len \<le> length (snd obj)" using assms(1-3) by (auto simp: set_inside_def package_ok_def)
  show ?thesis using decode_field(1) [OF assms(4) len(2), of 1 "pk_iter k"] rest_of_inside [OF _ len(1)] by (auto simp: read_count_def)
qed

lemma fd_init_ok:
  assumes "package_ok obj n pin k" "pk_state k = PLDM_PACKAGE_PARSE_HEADER"
  shows "\<exists>rc k'. pldm_package_firmware_device_id_record_iter_init obj (Some k) = Some (rc, Some k') \<and>
    (rc = 0 \<longrightarrow> package_at obj n pin PLDM_PACKAGE_PARSE_FIRMWARE_DEVICES k')"
proof -
  let ?k = "k\<lparr>pk_state := PLDM_PACKAGE_PARSE_FIRMWARE_DEVICES, pk_iter := (pk_iter k)\<lparr>pki_field := pk_areas k\<rparr>\<rparr>"
  obtain p where p: "vf_ptr (pk_areas k) = Some p" "set_inside n (pk_areas k)"
    using assms(1) by (auto simp: package_ok_def set_inside_def)
  obtain rc it where "read_count record_count_steps obj p ?k = Some (rc, ?k\<lparr>pk_iter := it\<rparr>)" "rc = 0 \<longrightarrow> set_inside n (pki_field it)"
    using read_count_ok [of obj n pin ?k p record_count_steps] assms p record_count_triple by auto
  then show ?thesis using assms p
    by (auto simp: pldm_package_firmware_device_id_record_iter_init_def with_pin_def if_msg_def package_at_def) (auto simp: package_ok_def)
qed

lemma dd_init_ok:
  assumes "package_at obj n pin PLDM_PACKAGE_PARSE_FIRMWARE_DEVICES k" "pin_revision pin \<noteq> 1"
  shows "\<exists>rc k'. pldm_package_downstream_device_id_record_iter_init obj (Some k) = Some (rc, Some k') \<and>
    (rc = 0 \<longrightarrow> at_downstream obj n pin k')"
proof -
  let ?k = "k\<lparr>pk_state := PLDM_PACKAGE_PARSE_DOWNSTREAM_DEVICES\<rparr>"
  obtain p where p: "vf_ptr (pki_field (pk_iter k)) = Some p" "set_inside n (pki_field (pk_iter k))"
    using assms(1) by (auto simp: package_at_def set_inside_def)
  obtain hdr where hdr: "pk_pin k = Some pin" "pk_hdr k = Some hdr" "revisions_ok pin hdr" using assms by (auto simp: package_at_def package_ok_def)
  obtain rc it where "read_count record_count_steps obj p ?k = Some (rc, ?k\<lparr>pk_iter := it\<rparr>)" "rc = 0 \<longrightarrow> set_inside n (pki_field it)"
    using read_count_ok [of obj n pin ?k p record_count_steps] assms p record_count_triple by (auto simp: package_at_def)
  moreover have "1 < ph_format_revision hdr" if "ph_format_revision hdr \<noteq> 1"
    using that hdr(3) unfolding revisions_ok_def by (metis order_le_less)
  ultimately show ?thesis using assms p hdr
    by (cases "ph_format_revision hdr = 1")
      (auto simp: pldm_package_downstream_device_id_record_iter_init_def with_pin_def if_msg_def package_at_def at_downstream_def)
qed

lemma ci_init_ok:
  assumes "package_ok obj n pin k" "set_inside n (pki_field (pk_iter k))"
    and "pk_state k = (if pin_revision pin = 1 then PLDM_PACKAGE_PARSE_FIRMWARE_DEVICES else PLDM_PACKAGE_PARSE_DOWNSTREAM_DEVICES)"
  shows "\<exists>rc k'. pldm_package_component_image_information_iter_init obj (Some k) = Some (rc, Some k') \<and> (rc = 0 \<longrightarrow> at_components obj n pin k')"
proof -
  let ?k = "k\<lparr>pk_state := PLDM_PACKAGE_PARSE_COMPONENT_IMAGE_INFORMATION\<rparr>"
  obtain p where p: "vf_ptr (pki_field (pk_iter k)) = Some p" using assms(2) by (auto simp: set_inside_def)
  obtain hdr where hdr: "pk_pin k = Some pin" "pk_hdr k = Some hdr" "revisions_ok pin hdr" using assms by (auto simp: package_ok_def)
  obtain rc it where "read_count component_count_steps obj p ?k = Some (rc, ?k\<lparr>pk_iter := it\<rparr>)" "rc = 0 \<longrightarrow> set_inside n (pki_field it)"
    using read_count_ok [of obj n pin ?k p component_count_steps] assms p component_count_triple by auto
  moreover have "ph_format_revision hdr = 1" if "pin_revision pin = 1" using that hdr(3) by (auto simp: revisions_ok_def)
  ultimately show ?thesis using assms p hdr
    by (auto simp: pldm_package_component_image_information_iter_init_def with_pin_def if_msg_def Let_def package_at_def at_components_def
        split: if_splits)
qed

lemma package_loop_ends:
  assumes "record_iterator iter_end (on_lvalues from_iter) iter_next I J todo"
    and "iter_init (Some k) = Some (rc, Some k1)" "rc = 0 \<Longrightarrow> I k1"
    and "\<And>k r. J k r \<Longrightarrow> \<exists>rc r' x. body k r = Some (rc, r', x) \<and> B x"
  shows "\<exists>rc k' r' xs. package_loop iter_init iter_end from_iter iter_next body k r = Some (rc, k', r', xs) \<and> (\<forall>x \<in> set xs. B x) \<and>
    (rc = 0 \<longrightarrow> I k' \<and> iter_end k' = Some True)"
  using record_iterator.loop_ends [OF assms(1,3,4)] assms(2) by (cases "rc = 0") (simp_all add: package_loop_def)

lemma descriptor_loop_ends:
  assumes "set_inside n (di_field iter)" "n \<le> length (snd obj)"
  shows "\<exists>rc iter' d' ds. descriptor_loop obj iter d = Some (rc, iter', d', ds) \<and> (\<forall>d \<in> set ds. descriptor_inside n d)"
  using descriptor_iter.loop_ends [of n iter obj "\<lambda>_ d. Some (0, d, d)" "descriptor_inside n" d] assms
  by (auto simp: descriptor_loop_def)

text \<open>
  The use that the documentation of the macros shows, with the header, the records, their descriptors and the images that the bodies of
  the loops see. The loop over the descriptors of a record shares \<open>rc\<close> with the loop over the records, so that a descriptor which
  cannot be decoded ends both.
\<close>

definition empty_descriptor :: package_descriptor where
  "empty_descriptor = \<lparr>pd_type = 0, pd_length = 0, pd_data = None\<rparr>"

definition empty_dd_record :: pldm_package_downstream_device_id_record where
  "empty_dd_record = \<lparr>dr_descriptor_count = 0, dr_update_option_flags = 0, dr_min_version_string_type = 0, dr_min_version_string = NO_FIELD,
     dr_min_version_stamp = 0, dr_applicable_components = NO_FIELD, dr_record_descriptors = NO_FIELD, dr_package_data = NO_FIELD,
     dr_reference_manifest = NO_FIELD\<rparr>"

definition empty_component :: pldm_package_component_image_information where
  "empty_component = \<lparr>ci_classification = 0, ci_identifier = 0, ci_comparison_stamp = 0, ci_options = 0, ci_activation_method = 0,
     ci_image = NO_FIELD, ci_version_string_type = 0, ci_version_string = NO_FIELD, ci_opaque_data = NO_FIELD\<rparr>"

definition fd_body ::
    "object \<Rightarrow> pldm_package \<Rightarrow> pldm_package_firmware_device_id_record \<Rightarrow>
      (int \<times> pldm_package_firmware_device_id_record \<times> pldm_package_firmware_device_id_record \<times> package_descriptor list) option" where
  "fd_body obj k rec = do {
     (rc, rec', ds) \<leftarrow> foreach_pldm_package_firmware_device_id_record_descriptor obj k rec empty_descriptor;
     Some (rc, rec', rec, ds) }"

definition dd_body ::
    "object \<Rightarrow> pldm_package \<Rightarrow> pldm_package_downstream_device_id_record \<Rightarrow>
      (int \<times> pldm_package_downstream_device_id_record \<times> pldm_package_downstream_device_id_record \<times> package_descriptor list) option" where
  "dd_body obj k rec = do {
     (rc, rec', ds) \<leftarrow> foreach_pldm_package_downstream_device_id_record_descriptor obj k rec empty_descriptor;
     Some (rc, rec', rec, ds) }"

text \<open>Packages of the first revision have no downstream devices.\<close>

definition parse_downstream ::
    "object \<Rightarrow> pldm_package_format_pin \<Rightarrow> pldm_package \<Rightarrow>
      (int \<times> pldm_package \<times> (pldm_package_downstream_device_id_record \<times> package_descriptor list) list) option" where
  "parse_downstream obj pin k =
     (if pin_revision pin = PLDM_PACKAGE_HEADER_FORMAT_REVISION_FR01H then Some (0, k, [])
      else map_option (\<lambda>(rc, k, _, dds). (rc, k, dds))
        (foreach_pldm_package_downstream_device_id_record obj (dd_body obj) k empty_dd_record))"

definition parse_package ::
    "bool \<Rightarrow> object \<Rightarrow> nat \<Rightarrow> pldm_package_format_pin \<Rightarrow>
      (int \<times> package_header_information option \<times> (pldm_package_firmware_device_id_record \<times> package_descriptor list) list \<times>
        (pldm_package_downstream_device_id_record \<times> package_descriptor list) list \<times> pldm_package_component_image_information list) option" where
  "parse_package oem_nvidia obj len pin = do {
     (rc, hdr, k) \<leftarrow> decode_pldm_firmware_update_package oem_nvidia (Some obj) len (Some pin) (Some empty_header) (Some empty_package) 0;
     k \<leftarrow> k;
     if rc \<noteq> 0 then Some (rc, None, [], [], [])
     else do {
       (rc, k, _, fds) \<leftarrow> foreach_pldm_package_firmware_device_id_record obj (fd_body obj) k empty_fd_record;
       if rc \<noteq> 0 then Some (rc, hdr, fds, [], [])
       else do {
         (rc, k, dds) \<leftarrow> parse_downstream obj pin k;
         if rc \<noteq> 0 then Some (rc, hdr, fds, dds, [])
         else do {
           (rc, k, _, cis) \<leftarrow> foreach_pldm_package_component_image_information obj (\<lambda>_ i. Some (0, i, i)) k empty_component;
           Some (rc, hdr, fds, dds, cis) } } } }"

lemma bodies_ok:
  "pk_state k = PLDM_PACKAGE_PARSE_FIRMWARE_DEVICES \<and> n \<le> length (snd obj) \<and> fd_record_inside n r \<Longrightarrow>
     \<exists>rc r' x. fd_body obj k r = Some (rc, r', x) \<and> fd_record_inside n (fst x) \<and> (\<forall>d \<in> set (snd x). descriptor_inside n d)"
  "n \<le> length (snd obj) \<and> dd_record_inside n r2 \<Longrightarrow>
     \<exists>rc r' x. dd_body obj k r2 = Some (rc, r', x) \<and> dd_record_inside n (fst x) \<and> (\<forall>d \<in> set (snd x). descriptor_inside n d)"
proof -
  show "\<exists>rc r' x. fd_body obj k r = Some (rc, r', x) \<and> fd_record_inside n (fst x) \<and> (\<forall>d \<in> set (snd x). descriptor_inside n d)"
    if a: "pk_state k = PLDM_PACKAGE_PARSE_FIRMWARE_DEVICES \<and> n \<le> length (snd obj) \<and> fd_record_inside n r"
  proof -
    have "set_inside n (fr_record_descriptors r)" using a by (auto simp: fd_record_inside_def inside_def set_inside_def)
    then show ?thesis
      using a descriptor_loop_ends [of n "\<lparr>di_field = fr_record_descriptors r, di_count = unat (fr_descriptor_count r)\<rparr>" obj empty_descriptor]
      by (auto simp: fd_body_def foreach_pldm_package_firmware_device_id_record_descriptor_def
          pldm_package_firmware_device_id_record_descriptor_iter_init_def)
  qed
  show "\<exists>rc r' x. dd_body obj k r2 = Some (rc, r', x) \<and> dd_record_inside n (fst x) \<and> (\<forall>d \<in> set (snd x). descriptor_inside n d)"
    if a: "n \<le> length (snd obj) \<and> dd_record_inside n r2"
  proof -
    have "set_inside n (dr_record_descriptors r2)" using a by (auto simp: dd_record_inside_def inside_def set_inside_def)
    then show ?thesis
      using a descriptor_loop_ends [of n "\<lparr>di_field = dr_record_descriptors r2, di_count = unat (dr_descriptor_count r2)\<rparr>" obj empty_descriptor]
      by (auto simp: dd_body_def foreach_pldm_package_downstream_device_id_record_descriptor_def
          pldm_package_downstream_device_id_record_descriptor_iter_init_def)
  qed
qed

lemma fd_loop_ok:
  assumes "package_ok obj n pin k" "pk_state k = PLDM_PACKAGE_PARSE_HEADER"
  shows "\<exists>rc k' r' fds. foreach_pldm_package_firmware_device_id_record obj (fd_body obj) k r = Some (rc, k', r', fds) \<and>
    (\<forall>x \<in> set fds. fd_record_inside n (fst x) \<and> (\<forall>d \<in> set (snd x). descriptor_inside n d)) \<and>
    (rc = 0 \<longrightarrow> package_at obj n pin PLDM_PACKAGE_PARSE_FIRMWARE_DEVICES k')"
proof -
  obtain rc k1 where i: "pldm_package_firmware_device_id_record_iter_init obj (Some k) = Some (rc, Some k1)"
      "rc = 0 \<Longrightarrow> package_at obj n pin PLDM_PACKAGE_PARSE_FIRMWARE_DEVICES k1"
    using fd_init_ok [OF assms] by blast
  show ?thesis
    using package_loop_ends [where iter_init = "pldm_package_firmware_device_id_record_iter_init obj" and body = "fd_body obj",
        OF fd_iter.record_iterator_axioms i bodies_ok(1)]
    unfolding foreach_pldm_package_firmware_device_id_record_def by blast
qed

lemma dd_loop_ok:
  assumes "package_at obj n pin PLDM_PACKAGE_PARSE_FIRMWARE_DEVICES k"
  shows "\<exists>rc k' dds. parse_downstream obj pin k = Some (rc, k', dds) \<and>
    (\<forall>x \<in> set dds. dd_record_inside n (fst x) \<and> (\<forall>d \<in> set (snd x). descriptor_inside n d)) \<and>
    (rc = 0 \<longrightarrow> package_ok obj n pin k' \<and> set_inside n (pki_field (pk_iter k')) \<and>
      pk_state k' = (if pin_revision pin = 1 then PLDM_PACKAGE_PARSE_FIRMWARE_DEVICES else PLDM_PACKAGE_PARSE_DOWNSTREAM_DEVICES))"
proof (cases "pin_revision pin = 1")
  case True
  then show ?thesis using assms by (simp add: parse_downstream_def package_at_def)
next
  case False
  obtain rc k1 where i: "pldm_package_downstream_device_id_record_iter_init obj (Some k) = Some (rc, Some k1)"
      "rc = 0 \<Longrightarrow> at_downstream obj n pin k1"
    using dd_init_ok [OF assms False] by blast
  obtain rc k' r' dds where "foreach_pldm_package_downstream_device_id_record obj (dd_body obj) k empty_dd_record = Some (rc, k', r', dds)"
      "\<forall>x \<in> set dds. dd_record_inside n (fst x) \<and> (\<forall>d \<in> set (snd x). descriptor_inside n d)" "rc = 0 \<Longrightarrow> at_downstream obj n pin k'"
    using package_loop_ends [where iter_init = "pldm_package_downstream_device_id_record_iter_init obj" and body = "dd_body obj",
        OF dd_iter.record_iterator_axioms i bodies_ok(2)]
    unfolding foreach_pldm_package_downstream_device_id_record_def by blast
  then show ?thesis using False by (simp add: parse_downstream_def at_downstream_def package_at_def)
qed

lemma ci_loop_ok:
  assumes "package_ok obj n pin k" "set_inside n (pki_field (pk_iter k))"
    and "pk_state k = (if pin_revision pin = 1 then PLDM_PACKAGE_PARSE_FIRMWARE_DEVICES else PLDM_PACKAGE_PARSE_DOWNSTREAM_DEVICES)"
  shows "\<exists>rc k' r' cis. foreach_pldm_package_component_image_information obj (\<lambda>_ i. Some (0, i, i)) k r = Some (rc, k', r', cis) \<and>
    (\<forall>i \<in> set cis. component_inside n i \<and> set_inside n (ci_image i)) \<and> (rc = 0 \<longrightarrow> pk_state k' = PLDM_PACKAGE_PARSE_COMPLETE)"
proof -
  obtain rc k1 where i: "pldm_package_component_image_information_iter_init obj (Some k) = Some (rc, Some k1)"
      "rc = 0 \<Longrightarrow> at_components obj n pin k1"
    using ci_init_ok [OF assms] by blast
  have "\<exists>rc r' x. Some (0, r, r) = Some (rc, r', x) \<and> component_inside n x \<and> set_inside n (ci_image x)"
    if "component_inside n r \<and> set_inside n (ci_image r)" for r
    using that by simp
  then obtain rc' k' r' cis where "package_loop (pldm_package_component_image_information_iter_init obj)
      pldm_package_component_image_information_iter_end (decode_pldm_package_component_image_information_from_iter obj)
      pldm_package_component_image_information_iter_next (\<lambda>_ i. Some (0, i, i)) k r = Some (rc', k', r', cis)"
      "\<forall>i \<in> set cis. component_inside n i \<and> set_inside n (ci_image i)"
      "rc' = 0 \<longrightarrow> pldm_package_component_image_information_iter_end k' = Some True"
    using package_loop_ends [where iter_init = "pldm_package_component_image_information_iter_init obj" and body = "\<lambda>_ i. Some (0, i, i)"
        and B = "\<lambda>i. component_inside n i \<and> set_inside n (ci_image i)", OF ci_iter.record_iterator_axioms i]
    by blast
  then show ?thesis
    by (auto simp: foreach_pldm_package_component_image_information_def pldm_package_component_image_information_iter_end_def split: if_splits)
qed

text \<open>
  C38. Parsing any bytes as a firmware update package, in the way the macros are meant to be used, is defined: no read outside of the
  package, no assertion fails and every loop ends, also where the counts in the package are wrong. Whatever the parsing hands out lies in
  the package: the version string of the header, unless the header is refused with an error, the strings, bitmaps, descriptors and data of
  the records, the data of each descriptor, and the component images.
\<close>

theorem package_parsed_safely:
  assumes "len \<le> length (snd obj)"
  shows "\<exists>rc hdr fds dds cis. parse_package oem_nvidia obj len pin = Some (rc, hdr, fds, dds, cis) \<and>
    (case hdr of None \<Rightarrow> rc \<noteq> 0 | Some h \<Rightarrow> set_inside len (ph_version_string h)) \<and>
    (\<forall>(r, ds) \<in> set fds. fd_record_inside len r \<and> (\<forall>d \<in> set ds. descriptor_inside len d)) \<and>
    (\<forall>(r, ds) \<in> set dds. dd_record_inside len r \<and> (\<forall>d \<in> set ds. descriptor_inside len d)) \<and>
    (\<forall>i \<in> set cis. component_inside len i \<and> set_inside len (ci_image i))"
proof -
  obtain rc hdr k where h: "decode_pldm_firmware_update_package oem_nvidia (Some obj) len (Some pin) (Some empty_header) (Some empty_package) 0 =
        Some (rc, Some hdr, Some k)"
      "rc = 0 \<Longrightarrow> package_ok obj len pin k \<and> pk_state k = PLDM_PACKAGE_PARSE_HEADER \<and> set_inside len (ph_version_string hdr)"
    using header_decodes [OF assms, of empty_header oem_nvidia pin empty_package] assms header_package_ok version_string_inside
    by (fastforce simp: empty_header_def decode_pldm_firmware_update_package_def pin_ok_def)
  show ?thesis
  proof (cases "rc = 0")
    case True
    obtain rc1 k1 r1 fds where f: "foreach_pldm_package_firmware_device_id_record obj (fd_body obj) k empty_fd_record = Some (rc1, k1, r1, fds)"
        "\<forall>x \<in> set fds. fd_record_inside len (fst x) \<and> (\<forall>d \<in> set (snd x). descriptor_inside len d)"
        "rc1 = 0 \<Longrightarrow> package_at obj len pin PLDM_PACKAGE_PARSE_FIRMWARE_DEVICES k1"
      using fd_loop_ok h(2) True by blast
    show ?thesis
    proof (cases "rc1 = 0")
      case rc1: True
      obtain rc2 k2 dds where d: "parse_downstream obj pin k1 = Some (rc2, k2, dds)"
          "\<forall>x \<in> set dds. dd_record_inside len (fst x) \<and> (\<forall>d \<in> set (snd x). descriptor_inside len d)"
          "rc2 = 0 \<Longrightarrow> package_ok obj len pin k2 \<and> set_inside len (pki_field (pk_iter k2)) \<and>
            pk_state k2 = (if pin_revision pin = 1 then PLDM_PACKAGE_PARSE_FIRMWARE_DEVICES else PLDM_PACKAGE_PARSE_DOWNSTREAM_DEVICES)"
        using dd_loop_ok [OF f(3) [OF rc1]] by blast
      show ?thesis
      proof (cases "rc2 = 0")
        case rc2: True
        obtain rc3 k3 r3 cis where "foreach_pldm_package_component_image_information obj (\<lambda>_ i. Some (0, i, i)) k2 empty_component =
            Some (rc3, k3, r3, cis)" "\<forall>i \<in> set cis. component_inside len i \<and> set_inside len (ci_image i)"
          using ci_loop_ok d(3) [OF rc2] by blast
        then show ?thesis using h True f(1,2) rc1 d(1,2) rc2 by (simp add: parse_package_def split_beta)
      qed (use h True f(1,2) rc1 d(1,2) in \<open>simp add: parse_package_def split_beta\<close>)
    qed (use h True f(1,2) in \<open>simp add: parse_package_def split_beta\<close>)
  qed (use h(1) in \<open>simp add: parse_package_def\<close>)
qed



section \<open>A well-formed header is accepted\<close>

text \<open>The bytes of a header of a revision without a checksum of the payload, up to the checksum of the header.\<close>

definition header_size :: "u8 list \<Rightarrow> u8 list \<Rightarrow> nat" where
  "header_size str areas = PLDM_FWUP_PACKAGE_HEADER_FIXED_SIZE + length str + length areas + 4"

definition header_bytes :: "package_header_information \<Rightarrow> u8 list \<Rightarrow> u8 list \<Rightarrow> u8 list" where
  "header_bytes h str areas =
     fst (revision_info (ph_format_revision h)) @ le_of_word (ph_format_revision h) @ le_of_word (of_nat (header_size str areas) :: u16) @
     ph_release_date_time h @ le_of_word (ph_bitmap_bit_length h) @ le_of_word (ph_version_string_type h) @
     le_of_word (of_nat (length str) :: u8) @ str @ areas"

definition header_valid :: "package_header_information \<Rightarrow> u8 list \<Rightarrow> u8 list \<Rightarrow> bool" where
  "header_valid h str areas \<longleftrightarrow> ph_format_revision h \<in> {1, 2, 3} \<and> length (ph_release_date_time h) = 13 \<and>
     ph_bitmap_bit_length h AND 7 = 0 \<and> is_string_type_valid (ph_version_string_type h) \<and> length str < 256 \<and>
     3 \<le> length str + length areas \<and> header_size str areas < 65536"

lemma poke_whole: "length m = length bs \<Longrightarrow> poke m 0 bs = bs"
  by (simp add: poke_def)

lemma length_identifier [simp]: "length (fst (revision_info r)) = 16"
  by (simp add: revision_info_def)

lemma header_size_word:
  assumes "header_valid h str areas"
  shows "unat (of_nat (header_size str areas) :: u16) = 40 + length str + length areas"
proof -
  have "unat (of_nat (header_size str areas) :: u16) = header_size str areas" using assms by (simp add: header_valid_def unat_of_nat)
  also have "\<dots> = 40 + length str + length areas" by (simp add: header_size_def)
  finally show ?thesis .
qed

lemma version_length_word: "header_valid h str areas \<Longrightarrow> unat (of_nat (length str) :: u8) = length str"
  by (simp add: header_valid_def unat_of_nat)

lemma header_reads:
  assumes "header_valid h str areas" "ph_format_revision h \<le> pin_rev"
    and "length (ph_identifier (hp_hdr v)) = 16" "length (ph_release_date_time (hp_hdr v)) = 13"
  shows "reads 0 (steps (header_steps pin_rev)) v (header_bytes h str areas @ le_of_word crc @ [])
    (v\<lparr>hp_hdr := h\<lparr>ph_identifier := fst (revision_info (ph_format_revision h)), ph_version_string := \<lparr>vf_ptr = Some 36, vf_length = length str\<rparr>\<rparr>,
       hp_size := of_nat (header_size str areas), hp_areas := \<lparr>vf_ptr = Some (36 + length str), vf_length = length areas\<rparr>,
       hp_header_checksum := crc\<rparr>)"
proof -
  note [simp] = header_size_word [OF assms(1)] version_length_word [OF assms(1)]
  have r: "ph_format_revision h \<in> {1, 2, 3}" "ph_format_revision h \<noteq> 0" "\<not> 4 \<le> ph_format_revision h" "\<not> pin_rev < ph_format_revision h"
    using assms(1,2) by (auto simp: header_valid_def word_le_nat_alt word_less_nat_alt)
  have i: "fst (revision_info (ph_format_revision h)) \<in> (\<lambda>r. fst (revision_info r)) ` {1, 2, 3, 4}" using r(1) by auto
  have ok: "length (ph_release_date_time h) = 13" "ph_bitmap_bit_length h AND 7 = 0" "is_string_type_valid (ph_version_string_type h)"
      "3 \<le> length str + length areas"
    using assms(1) by (simp_all add: header_valid_def)
  show ?thesis
    unfolding header_bytes_def header_steps_def append_assoc
    by (rule reads_next reads_skip_next reads_end |
        (use ok(4) in \<open>simp add: assms(3,4) r(2-) i ok(1-3) poke_whole to_size_def points_to_def header_sizes o_def del: image_insert; fail\<close>))+
qed

lemma length_header_bytes: "header_valid h str areas \<Longrightarrow> length (header_bytes h str areas) = 36 + length str + length areas"
  by (simp add: header_bytes_def header_valid_def)

text \<open>
  C40. A package whose header has the right form and checksum is accepted at every pin that allows its revision (revisions 1 to 3): the
  header is read back, and the areas of the records are found behind the version string.
\<close>

theorem package_header_accepted:
  assumes "header_valid h str areas" "pin_ok pin" "ph_format_revision h \<le> pin_revision pin"
    and "m = header_bytes h str areas @ le_of_word (crc32_ref 0 (header_bytes h str areas)) @ payload"
    and "int (length m) \<le> INTMAX_MAX" "a + length m \<le> UINTPTR_MAX"
    and "length (ph_identifier hdr) = 16" "length (ph_release_date_time hdr) = 13" "pk_state pkg = PLDM_PACKAGE_PARSE_INIT"
    and "h' = h\<lparr>ph_identifier := fst (revision_info (ph_format_revision h)), ph_version_string := \<lparr>vf_ptr = Some 36, vf_length = length str\<rparr>\<rparr>"
  shows "decode_pldm_firmware_update_package oem_nvidia (Some (a, m)) (length m) (Some pin) (Some hdr) (Some pkg) 0 =
    Some (0, Some h', Some (pkg\<lparr>pk_areas := \<lparr>vf_ptr = Some (36 + length str), vf_length = length areas\<rparr>, pk_pin := Some pin,
      pk_hdr := Some h', pk_state := PLDM_PACKAGE_PARSE_HEADER, pk_flags := 0, pk_package := \<lparr>vf_ptr = Some 0, vf_length = length m\<rparr>\<rparr>))"
proof -
  let ?bs = "header_bytes h str areas" let ?crc = "crc32_ref 0 ?bs"
  let ?v = "\<lparr>hp_hdr = hdr, hp_areas = pk_areas pkg, hp_size = 0, hp_header_checksum = 0, hp_payload_checksum = 0, hp_payload = NO_FIELD\<rparr>"
  let ?v' = "?v\<lparr>hp_hdr := h', hp_size := of_nat (header_size str areas),
      hp_areas := \<lparr>vf_ptr = Some (36 + length str), vf_length = length areas\<rparr>, hp_header_checksum := ?crc\<rparr>"
  have len: "length ?bs = 36 + length str + length areas" by (rule length_header_bytes [OF assms(1)])
  have "reads 0 (steps (header_steps (pin_revision pin))) ?v (?bs @ le_of_word ?crc) ?v'"
    using header_reads [OF assms(1,3), of ?v] assms(7,8,10) by simp
  then have d: "decode_bytes as_errno 36 (header_steps (pin_revision pin)) pldm_msgbuf_complete (length m) (a, m) ?v = Some (0, ?v')"
    using on_buffer_reads [of _ ?v "?bs @ le_of_word ?crc" ?v' m "length m" 36 a pldm_msgbuf_complete as_errno] assms(4-6) len
    by (simp add: decode_bytes_def)
  note sz = header_size_word [OF assms(1)]
  have rev: "\<not> 4 \<le> ph_format_revision h" using assms(1) by (auto simp: header_valid_def word_le_nat_alt)
  have crc: "pldm_edac_crc32_validate ?crc (Some m) (36 + (length str + length areas)) = Some 0"
    using crc32_validate_ok [of "length ?bs" m ?crc] assms(4) len by (simp add: add.assoc)
  show ?thesis
    using assms(2,9,10) d crc rev sz
    by (simp add: decode_pldm_firmware_update_package_def decode_pldm_package_header_info_errno_def pin_ok_def header_sizes payload_validate_def Let_def one_le_word not_less)
qed

lemma package_format_pin_ok: "r \<in> {1, 2, 3, 4} \<Longrightarrow> pin_ok (package_format_pin r)"
  by (auto simp: pin_ok_def package_format_pin_def revision_info_def)

section \<open>Examples\<close>

text \<open>A package of revision 1 with one device, which has one descriptor, and one component image of two bytes behind the header.\<close>

definition demo_header :: package_header_information where
  "demo_header = empty_header\<lparr>ph_format_revision := 1, ph_bitmap_bit_length := 8, ph_version_string_type := 1\<rparr>"

definition demo_areas :: "u8 list" where
  "demo_areas =
     [1,
      21, 0, 1, 0, 0, 0, 0, 1, 1, 0, 0, 1, 0x41, 1, 0, 4, 0, 0x34, 0x12, 0, 0,
      1, 0,
      10, 0, 7, 0, 0xff, 0xff, 0xff, 0xff, 0, 0, 0, 0, 89, 0, 0, 0, 2, 0, 0, 0, 1, 1, 0x42]"

definition demo_package :: "u8 list" where
  "demo_package = header_bytes demo_header [0x76, 0x31] demo_areas @
     le_of_word (crc32_ref 0 (header_bytes demo_header [0x76, 0x31] demo_areas)) @ [0xAA, 0xBB]"

lemma demo_header_valid: "header_valid demo_header [0x76, 0x31] demo_areas"
  by (simp add: header_valid_def demo_header_def demo_areas_def empty_header_def is_string_type_valid_def header_size_def)

lemma length_demo_package: "length demo_package = 91"
  using length_header_bytes [OF demo_header_valid] by (simp add: demo_package_def demo_areas_def)

theorem package_parsed_safely_witness:
  "\<exists>rc hdr fds dds cis. parse_package False (0x1000, demo_package) 91 (package_format_pin 2) = Some (rc, hdr, fds, dds, cis) \<and>
    (case hdr of None \<Rightarrow> rc \<noteq> 0 | Some h \<Rightarrow> set_inside 91 (ph_version_string h)) \<and>
    (\<forall>(r, ds) \<in> set fds. fd_record_inside 91 r \<and> (\<forall>d \<in> set ds. descriptor_inside 91 d)) \<and>
    (\<forall>(r, ds) \<in> set dds. dd_record_inside 91 r \<and> (\<forall>d \<in> set ds. descriptor_inside 91 d)) \<and>
    (\<forall>i \<in> set cis. component_inside 91 i \<and> set_inside 91 (ci_image i))"
  by (rule package_parsed_safely) (simp add: length_demo_package)

theorem package_header_accepted_witness:
  "decode_pldm_firmware_update_package False (Some (0x1000, demo_package)) 91 (Some (package_format_pin 4)) (Some empty_header)
      (Some empty_package) 0 =
    Some (0, Some (demo_header\<lparr>ph_identifier := fst (revision_info 1), ph_version_string := \<lparr>vf_ptr = Some 36, vf_length = 2\<rparr>\<rparr>),
      Some (empty_package\<lparr>pk_areas := \<lparr>vf_ptr = Some 38, vf_length = 47\<rparr>, pk_pin := Some (package_format_pin 4),
        pk_hdr := Some (demo_header\<lparr>ph_identifier := fst (revision_info 1), ph_version_string := \<lparr>vf_ptr = Some 36, vf_length = 2\<rparr>\<rparr>),
        pk_state := PLDM_PACKAGE_PARSE_HEADER, pk_flags := 0, pk_package := \<lparr>vf_ptr = Some 0, vf_length = 91\<rparr>\<rparr>))"
  using package_header_accepted [OF demo_header_valid package_format_pin_ok [of 4] _ demo_package_def, of "0x1000" empty_header empty_package _ False]
  by (simp add: length_demo_package demo_areas_def) (simp add: demo_header_def empty_header_def empty_package_def package_format_pin_def)


end
