(* ===== verification/Spec2Isabelle.thy ===== *)
theory Spec2Isabelle
  imports Fd_Props Responder Bcd_Utils Pdr_Run Instance_Id Transport Entity_Pdr Platform_Pdr_Laws Fru_Laws File_Codec
    Bios_Entry_Laws Bios_Codec Fwup_Package_Laws
begin

text \<open>
  A verification library for libpldm, the C implementation of the Platform Level Data Model
  protocols.

  \<^bold>\<open>The program.\<close> A PLDM message is a three byte header and a payload. The library has, for each
  PLDM type, encoders and decoders between payloads and C structures (\<^verbatim>\<open>src/dsp\<close>); they work through
  message buffers (\<^verbatim>\<open>src/msgbuf\<close>), a cursor with a count of the bytes that are left. On the responder's side,
  \<^verbatim>\<open>control.c\<close> answers the base commands from a table of registered types, and
  \<^verbatim>\<open>firmware_device/fd.c\<close> is the state machine of a device that takes a firmware update; \<^verbatim>\<open>dsp/pdr.c\<close> holds the
  repository of platform descriptor records and the entity association tree. On the requester's side,
  \<^verbatim>\<open>requester/instance-id.c\<close> gives out instance ids that processes of a host share by file locks,
  \<^verbatim>\<open>transport/transport.c\<close> sends a request and waits for its response, and \<^verbatim>\<open>responder.c\<close> tracks the messages
  being answered. \<^verbatim>\<open>edac.c\<close> has the checksums, \<^verbatim>\<open>bcd.c\<close> and \<^verbatim>\<open>utils.c\<close> small conversions.

  \<^bold>\<open>Conventions.\<close> A C integer is a word of its width, \<open>size_t\<close> and addresses are \<open>nat\<close> with their bounds
  written out, \<open>int\<close> results are \<open>int\<close>. A structure is a record, a pointer that may be NULL is an \<open>option\<close>, a
  pointer into a buffer is an offset, an object of bytes is its address and its contents. Linked structures
  live in an explicit heap, a map from addresses. A function whose behaviour may be undefined (an access
  outside an object, a freed node, a failed assertion) returns an \<open>option\<close>, and \<open>None\<close> is undefined behaviour;
  \<open>defined\<close> says that there is none. The host is little-endian with 64 bit pointers. Results of \<open>malloc\<close>, system calls, application
  callbacks and the functions of a concrete transport are parameters.

  \<^bold>\<open>Theories.\<close>
  \<^item> \<open>Prelude\<close>: types, little-endian bytes, \<open>bytes_at\<close> and \<open>poke\<close>, shared lemma collections.
  \<^item> \<open>Msgbuf\<close>: every operation of \<^verbatim>\<open>msgbuf/core.h\<close>; \<open>mb_fault\<close> records an access outside the object.
    \<open>Msgbuf_Contract\<close>: the locale \<open>msgbuf_op\<close>, what every operation keeps, with an interpretation for each; safety
    of any sequence of calls on a source and a destination, and the meaning of UTF-16 spans. \<open>Msgbuf_Eval\<close>: evaluation on intact buffers.
  \<^item> \<open>Base_Header\<close> (header packing of \<^verbatim>\<open>dsp/base.c\<close>), \<open>Codec_Rules\<close> (rules for codecs), \<open>Base_Codec\<close> and
    \<open>Base_Codec_Laws\<close> (all of \<^verbatim>\<open>dsp/base.c\<close>; safety, with the exact exceptions, and round trips), \<open>Edac\<close> (both CRCs equal their bit-serial definitions;
    burst errors are found), \<open>Bcd_Utils\<close>.
  \<^item> \<open>Control\<close>, \<open>Control_Laws\<close>: \<^verbatim>\<open>control.c\<close>, refined to a map from types to versions and commands.
  \<^item> \<open>Responder\<close>: the cookie list of \<^verbatim>\<open>responder.c\<close>, refined to a list.
  \<^item> \<open>Fwup_Codec\<close>, \<open>Fwup_Laws\<close>: the firmware update messages a device exchanges. \<open>Fd\<close>: \<^verbatim>\<open>fd.c\<close>. \<open>Fd_Laws\<close>,
    \<open>Fd_Progress\<close>, \<open>Fd_Run\<close>, \<open>Fd_Download\<close>, \<open>Fd_Props\<close>: the invariant of the device, reachable states, the order of callbacks, that
    a download ends and with what, timeouts.
  \<^item> \<open>Pdr_Repo\<close>, \<open>Pdr_Repo_Laws\<close>, \<open>Pdr_Run\<close>: the PDR repository on a heap, refined to a list of records.
    \<open>Entity_Tree\<close>, \<open>Entity_Tree_Laws\<close>, \<open>Entity_Pdr\<close>: the entity association tree, its invariant, and its PDRs.
  \<^item> \<open>Instance_Id\<close>: allocation as a resumption over \<open>fcntl\<close>; any number of processes interleave at the system
    calls. \<open>Transport\<close>: one exchange, with what is allocated and freed.
  \<^item> \<open>Msgbuf_Steps\<close>: codecs as lists of steps, with the contracts \<open>keeps\<close> (safety), \<open>reads\<close> and \<open>writes\<close> and the
    locale \<open>wire_format\<close>. \<open>Platform_Codec\<close> and \<open>Platform_Pdr\<close>: all of \<^verbatim>\<open>dsp/platform.c\<close> and \<^verbatim>\<open>msgbuf/platform.h\<close>, with the iterators of
    \<^verbatim>\<open>libpldm/platform.h\<close>. \<open>Platform_Laws\<close>: the decoders, entity auxiliary names apart, are safe on any bytes, and exactly where
    four of them are not (locale \<open>tagged_value\<close>).
    \<open>Platform_Roundtrip\<close>, \<open>Platform_Pdr_Laws\<close>: interpretations of \<open>wire_format\<close> and round trips.
  \<^item> \<open>Struct_Access\<close>: structures laid over bytes without a msgbuf. \<open>Fru\<close> and \<open>Fru_Laws\<close>: \<^verbatim>\<open>dsp/fru.c\<close>, the search of a FRU table
    safe on any bytes and equal to a selection of records and fields. \<open>File_Codec\<close>: \<^verbatim>\<open>dsp/file.c\<close>.
  \<^item> \<open>Bios_Table\<close>: \<^verbatim>\<open>dsp/bios_table.c\<close>. \<open>Bios_Table_Laws\<close>: the locale \<open>bios_entries\<close> (the iterator visits the entries of a table and
    searches find the first that fits), interpreted for strings and values; tables with padding and checksum, the update of a value.
    \<open>Bios_Entry_Laws\<close>: the entries of attributes and values, its interpretation for attributes, searches on any bytes.
    \<open>Bios_Codec\<close>: the messages, \<^verbatim>\<open>dsp/bios.c\<close>.
  \<^item> \<open>Fwup_Package\<close>: firmware update packages, the parsing part of \<^verbatim>\<open>dsp/firmware_update.c\<close> with the iterators and loops of its
    header. \<open>Step_Triples\<close>: Hoare triples for decoders on any bytes. \<open>Fwup_Package_Laws\<close>: the contract of the iterators
    (\<open>record_iterator\<close>), parsing is safe and ends, and which headers are accepted. \<open>parse_package\<close> is the use that the macros document.
  \<^item> This theory: the firmware device together with the control responder.

  \<^bold>\<open>Bounds, loops and hypotheses.\<close> Loops over linked structures are \<open>partial_function (option)\<close>, so that a theorem that a
  call gives \<open>Some\<close> says that it ends; loops with a counter are recursive on it. The allocation of an instance id tries each
  of the 32 ids once, and draining a transport stops after \<open>DRAIN_MAX\<close> messages as in the code; no fuel is chosen. The
  hypotheses on parameters are named: \<open>ops_ok\<close> (callbacks are set and their arrays are as long as they say), \<open>malloc_ok\<close> (a new
  address is fresh and not NULL), \<open>recv_ok\<close> and \<open>clock_ok\<close> (a received message is as long as it says; the clock, when it can be read, is
  normalised and does not go back, though it may stand still) and \<open>time_passes\<close> (not for ever). What a caller has to
  ensure is named too: \<open>may_call\<close> (a PDR is added under a handle that is not in use, and the sizes fit 32 bits), \<open>obj_ok\<close> with a
  FRU table 255 bytes below the top of the address space, \<open>downloading\<close> (a chunk is below \<open>0xffffffff\<close> bytes). \<open>msg_holds\<close>, \<open>ptr_holds\<close> and \<open>obj_holds\<close> say that an object has the length the caller gives for it.

  \<^bold>\<open>Not modelled.\<close> Editing entity association PDRs in place (\<^verbatim>\<open>pdr.c\<close>), the update agent's side and the messages for downstream
  devices of \<^verbatim>\<open>dsp/firmware_update.c\<close>, and the vendor codecs of \<^verbatim>\<open>src/oem\<close>.
  The transport back ends are socket calls, which \<open>Transport\<close> takes as parameters.
\<close>

section \<open>Firmware device and control responder\<close>

text \<open>The commands the firmware device announces.\<close>

lemma fd_commands_bytes: "PLDM_FD_COMMANDS = [0x06, 0, 0x19, 0x3c] @ replicate 28 0"
  by code_simp

lemma fd_commands_bit:
  "bit (PLDM_FD_COMMANDS ! (unat cmd div 8)) (unat cmd mod 8) \<longleftrightarrow>
     cmd \<in> {0x01, 0x02, 0x10, 0x13, 0x14, 0x1a, 0x1b, 0x1c, 0x1d}" for cmd :: u8
proof (cases "unat cmd < 32")
  case True
  then have "unat cmd \<in> {0, 1, 2, 3, 4, 5, 6, 7, 8, 9, 10, 11, 12, 13, 14, 15, 16, 17, 18, 19, 20, 21, 22, 23, 24, 25, 26, 27, 28, 29, 30, 31}"
    by (simp add: numeral_eq_Suc less_Suc_eq)
  then show ?thesis
    unfolding fd_commands_bytes by (elim insertE emptyE) (simp_all add: word_unat_eq_iff bit_simps)
next
  case False
  have "unat cmd < 2 ^ LENGTH(8)" by (rule unsigned_less)
  with False have "4 \<le> unat cmd div 8" "unat cmd div 8 < 32" by auto
  then have "PLDM_FD_COMMANDS ! (unat cmd div 8) = 0"
    by (auto simp: PLDM_FD_COMMANDS_def nth_Cons')
  moreover have "cmd \<notin> {0x01, 0x02, 0x10, 0x13, 0x14, 0x1a, 0x1b, 0x1c, 0x1d}"
    using False by (auto simp: word_unat_eq_iff)
  ultimately show ?thesis by simp
qed

lemma callbacks_set:
  assumes "ops_ok ops"
  shows "op_device_identifiers ops \<noteq> None" "op_components ops \<noteq> None" "op_imageset_versions ops \<noteq> None"
    "op_update_component ops \<noteq> None" "op_transfer_size ops \<noteq> None" "op_firmware_data ops \<noteq> None"
    "op_verify ops \<noteq> None" "op_activate ops \<noteq> None" "op_cancel_update_component ops \<noteq> None" "op_now ops \<noteq> None"
  using assms unfolding ops_ok_def by blast+

text \<open>A request of two bytes is too short or too long for every command of the device.\<close>

lemma short_requests_refused:
  assumes "msg_holds 2 req"
  shows "\<exists>rc v. decode_request_update_req (Some req) 2 (Some r) = Some (rc, Some v) \<and> rc < 0"
    and "\<exists>rc v. decode_pass_component_table_req (Some req) 2 (Some p) = Some (rc, Some v) \<and> rc < 0"
    and "\<exists>rc v. decode_update_component_req (Some req) 2 (Some u) = Some (rc, Some v) \<and> rc < 0"
    and "\<exists>rc v. decode_activate_firmware_req (Some req) 2 (Some s) = Some (rc, Some v) \<and> rc < 0"
  using assms
  by (simp_all add: msg_holds_def decode_request_update_req_def decode_pass_component_table_req_def
     decode_update_component_req_def decode_activate_firmware_req_def mb_simps Let_def extract_version_def)

text \<open>The device has a handler for each of its commands.\<close>

lemma announced_handled:
  assumes "hi_command hdr \<in> {0x01, 0x02, 0x10, 0x13, 0x14, 0x1a, 0x1b, 0x1c, 0x1d}"
    and hdr: "hi_instance hdr \<le> PLDM_INSTANCE_MAX" "msg_holds n resp" "1 \<le> n" and req: "msg_holds 2 req"
  shows "\<exists>cc dev'. cc \<noteq> PLDM_ERROR_UNSUPPORTED_PLDM_CMD \<and>
    fd_dispatch ops lo dev ctx a hdr req 2 resp n =
      Some (0, sent (wire_hdr PLDM_RESPONSE (hi_instance hdr) PLDM_FWUP (hi_command hdr)) [cc] resp, 1, dev', ctx)"
proof -
  note short = short_requests_refused [OF req]
  have errno: "errno_cc rc \<noteq> PLDM_ERROR_UNSUPPORTED_PLDM_CMD" for rc by (simp add: errno_cc_def)
  obtain r1 v1 where 1: "decode_request_update_req (Some req) 2 (Some (lo_upd lo)) = Some (r1, Some v1)" "r1 < 0"
    using short(1) by blast
  obtain r2 v2 where 2: "decode_pass_component_table_req (Some req) 2 (Some (lo_pcomp lo)) = Some (r2, Some v2)" "r2 < 0"
    using short(2) by blast
  obtain r3 v3 where 3: "decode_update_component_req (Some req) 2 (Some (lo_up lo)) = Some (r3, Some v3)" "r3 < 0"
    using short(3) by blast
  obtain r4 v4 where 4: "decode_activate_firmware_req (Some req) 2 (Some (lo_self_contained lo)) = Some (r4, Some v4)" "r4 < 0"
    using short(4) by blast
  define ok where "ok x \<longleftrightarrow> (\<exists>cc dev'. cc \<noteq> PLDM_ERROR_UNSUPPORTED_PLDM_CMD \<and>
    x = Some (0, sent (wire_hdr PLDM_RESPONSE (hi_instance hdr) PLDM_FWUP (hi_command hdr)) [cc] resp, 1, dev', ctx))"
    for x :: "'a fd_result"
  have cc: "cc \<noteq> PLDM_ERROR_UNSUPPORTED_PLDM_CMD \<Longrightarrow> ok (with_fd d ctx (pldm_fd_reply_cc cc hdr resp n))" for cc d
    by (auto simp: ok_def with_fd_def reply_cc_sent [OF hdr])
  have "ok (fd_dispatch ops lo dev ctx a hdr req 2 resp n)"
    using assms(1) errno 1 2 3 4
    by (elim insertE emptyE)
      (simp_all add: fd_dispatch_def pldm_fd_qdi_def pldm_fd_fw_param_def pldm_fd_request_update_def
        pldm_fd_pass_comp_def pldm_fd_update_comp_def pldm_fd_get_status_def pldm_fd_cancel_update_comp_def
        pldm_fd_cancel_update_def pldm_fd_activate_firmware_def reply_errno_cc Let_def cc)
  then show ?thesis by (simp only: ok_def)
qed

text \<open>
  C24. The firmware device next to the control responder. Setting up a device on a control
  object that was set up succeeds, and the control responder then offers, beside its own type,
  the firmware update type with the device's versions, whose checksum is the CRC-32 of the rest, and
  with the device's command bitmap; the table keeps the invariant under which the responder
  answers from it. The bitmap holds exactly the commands the device handles: a request for a command outside of it
  is refused as unsupported in any state of the device and whatever the request carries, and a
  command in it has a handler, which in any state answers even a request of two bytes, a length
  no command has, with another completion code.
\<close>

theorem fd_offered_by_control:
  assumes "pldm_control_setup c True = (0, control)" "ops_ok ops"
    and "pldm_fd_setup (Some mem) True (Some ops) (Some control) = (rc, fd, control')"
    and "hi_command hdr = cmd" "hi_instance hdr \<le> PLDM_INSTANCE_MAX" "msg_holds n resp" "1 \<le> n"
    and "msg_holds 2 two"
  shows "rc = 0 \<and>
    (\<exists>ct. control' = Some ct \<and> control_inv ct \<and>
       registered ct = [PLDM_BASE \<mapsto> (concat (map le_of_word PLDM_BASE_VERSIONS), 2, Some PLDM_CONTROL_COMMANDS),
         PLDM_FWUP \<mapsto> (concat (map le_of_word PLDM_FD_VERSIONS), 2, Some PLDM_FD_COMMANDS)]) \<and>
    pldm_edac_crc32 (concat (map le_of_word (butlast PLDM_FD_VERSIONS)))
      (4 * (length PLDM_FD_VERSIONS - 1)) = Some (last PLDM_FD_VERSIONS) \<and>
    (if bit (PLDM_FD_COMMANDS ! (unat cmd div 8)) (unat cmd mod 8)
     then \<exists>cc dev'. cc \<noteq> PLDM_ERROR_UNSUPPORTED_PLDM_CMD \<and>
       fd_dispatch ops lo dev ctx a hdr two 2 resp n =
         Some (0, sent (wire_hdr PLDM_RESPONSE (hi_instance hdr) PLDM_FWUP cmd) [cc] resp, 1, dev', ctx)
     else fd_dispatch ops lo dev ctx a hdr req k resp n =
       Some (0, sent (wire_hdr PLDM_RESPONSE (hi_instance hdr) PLDM_FWUP cmd)
                  [PLDM_ERROR_UNSUPPORTED_PLDM_CMD] resp, 1, dev, ctx))"
proof (intro conjI)
  let ?reg = "(concat (map le_of_word PLDM_FD_VERSIONS), 2, Some PLDM_FD_COMMANDS)"
  have control: "control = fresh_control" using assms(1) by (simp add: setup_fresh)
  have two: "length PLDM_FD_VERSIONS = 2" by (simp add: PLDM_FD_VERSIONS_def)
  have valid: "valid_registration ?reg" by (simp add: PLDM_FD_VERSIONS_def fd_commands_bytes)
  have add: "fst (add_registration 5 ?reg fresh_control) = 0 \<and>
      control_inv (snd (add_registration 5 ?reg fresh_control)) \<and>
      registered (snd (add_registration 5 ?reg fresh_control)) = (registered fresh_control)(5 \<mapsto> ?reg)"
    by (rule type_table.add_room [OF fresh_control_inv valid]) (simp add: registered_fresh)
  have "(rc, control') = (fst (add_registration 5 ?reg fresh_control),
      Some (snd (add_registration 5 ?reg fresh_control)))"
    using assms(3) add callbacks_set [OF assms(2)] two
    by (auto simp: pldm_fd_setup_def control Let_def case_prod_beta)
  then show "rc = 0" "\<exists>ct. control' = Some ct \<and> control_inv ct \<and>
       registered ct = [PLDM_BASE \<mapsto> (concat (map le_of_word PLDM_BASE_VERSIONS), 2, Some PLDM_CONTROL_COMMANDS),
         PLDM_FWUP \<mapsto> ?reg]"
    using add by (simp_all add: registered_fresh)
  show "pldm_edac_crc32 (concat (map le_of_word (butlast PLDM_FD_VERSIONS)))
      (4 * (length PLDM_FD_VERSIONS - 1)) = Some (last PLDM_FD_VERSIONS)"
    by (rule fd_versions_crc)
  show "if bit (PLDM_FD_COMMANDS ! (unat cmd div 8)) (unat cmd mod 8)
     then \<exists>cc dev'. cc \<noteq> PLDM_ERROR_UNSUPPORTED_PLDM_CMD \<and>
       fd_dispatch ops lo dev ctx a hdr two 2 resp n =
         Some (0, sent (wire_hdr PLDM_RESPONSE (hi_instance hdr) PLDM_FWUP cmd) [cc] resp, 1, dev', ctx)
     else fd_dispatch ops lo dev ctx a hdr req k resp n =
       Some (0, sent (wire_hdr PLDM_RESPONSE (hi_instance hdr) PLDM_FWUP cmd)
                  [PLDM_ERROR_UNSUPPORTED_PLDM_CMD] resp, 1, dev, ctx)"
    using announced_handled [OF _ assms(5-8), of ops lo dev ctx a] assms(4-7)
    unfolding fd_commands_bit by (simp add: fd_dispatch_def with_fd_def reply_cc_sent)
qed

theorem fd_offered_by_control_witness:
  "(\<exists>ct. snd (snd (pldm_fd_setup (Some zero_fd) True (Some demo_ops)
       (Some (snd (pldm_control_setup fresh_control True))))) = Some ct \<and>
     registered ct PLDM_FWUP = Some (concat (map le_of_word PLDM_FD_VERSIONS), 2, Some PLDM_FD_COMMANDS)) \<and>
   (\<exists>cc dev'. cc \<noteq> PLDM_ERROR_UNSUPPORTED_PLDM_CMD \<and>
     fd_dispatch demo_ops zero_locals zero_fd 0 9 (header_zero\<lparr>hi_command := 0x1d\<rparr>) (buffer 20) 2 (buffer 20) 20 =
       Some (0, sent (wire_hdr PLDM_RESPONSE 0 PLDM_FWUP 0x1d) [cc] (buffer 20), 1, dev', 0))"
proof -
  have bit: "bit (PLDM_FD_COMMANDS ! (unat (0x1d :: u8) div 8)) (unat (0x1d :: u8) mod 8)"
    unfolding fd_commands_bit by simp
  obtain rc fd control' where s: "pldm_fd_setup (Some zero_fd) True (Some demo_ops)
      (Some (snd (pldm_control_setup fresh_control True))) = (rc, fd, control')"
    by (cases "pldm_fd_setup (Some zero_fd) True (Some demo_ops)
      (Some (snd (pldm_control_setup fresh_control True)))")
  have ctl: "pldm_control_setup fresh_control True = (0, snd (pldm_control_setup fresh_control True))"
    by (simp add: setup_fresh)
  have two: "msg_holds 2 (buffer 20)" by (simp add: msg_holds_def buffer_def)
  from fd_offered_by_control [OF ctl demo_ok s refl _ _ _ two, of "header_zero\<lparr>hi_command := 0x1d\<rparr>" 20 "buffer 20"
      zero_locals zero_fd 0 9 "buffer 20" 20] bit
  show ?thesis
    using buffer_holds [of 20] s by (auto simp: header_zero_def)
qed

end
